(* ===== verification/GoPrelude.thy ===== *)
theory GoPrelude
  imports Main "HOL-Library.Word"
begin

text \<open>
  What every component of the development shares.

  \<^item> Go strings are byte strings; they are HOL strings (lists of 8-bit characters), and
    the functions of the packages \<^verbatim>\<open>strings\<close> and \<^verbatim>\<open>strconv\<close> that the gateway
    calls are defined here on them, executable, with the laws the components use.
  \<^item> A Go function that returns \<^verbatim>\<open>(T, error)\<close> is a HOL function into a sum type: the
    error on the left, the value on the right.  \<open>bindS\<close> is the early return
    \<^verbatim>\<open>if err != nil { return err }\<close>.
  \<^item> Two interface locales used all over the development: \<open>codec\<close> (a marshaller and its
    unmarshaller) and \<open>guarded_machine\<close> (a state machine with an invariant).
\<close>

named_theorems go_str \<open>laws of the string operations\<close>
named_theorems go_err \<open>laws of error plumbing\<close>

section \<open>Errors as values\<close>

text \<open>\<^verbatim>\<open>x, err := m; if err != nil { return err }; ... f(x)\<close>\<close>

fun bindS :: "'e + 'a \<Rightarrow> ('a \<Rightarrow> 'e + 'b) \<Rightarrow> 'e + 'b" where
  "bindS (Inl e) f = Inl e"
| "bindS (Inr a) f = f a"

definition isOk :: "'e + 'a \<Rightarrow> bool" where
  "isOk r = (case r of Inl _ \<Rightarrow> False | Inr _ \<Rightarrow> True)"

lemma isOk_simps [simp, go_err]: "isOk (Inl e) = False" "isOk (Inr a) = True"
  by (simp_all add: isOk_def)

lemma isOk_iff [go_err]: "isOk r \<longleftrightarrow> (\<exists>a. r = Inr a)"
  by (cases r) simp_all

lemma bindS_eq_Inr [go_err]: "bindS m f = Inr b \<longleftrightarrow> (\<exists>a. m = Inr a \<and> f a = Inr b)"
  by (cases m) simp_all

lemma bindS_eq_Inl [go_err]:
  "bindS m f = Inl e \<longleftrightarrow> m = Inl e \<or> (\<exists>a. m = Inr a \<and> f a = Inl e)"
  by (cases m) simp_all

lemma bindS_assoc: "bindS (bindS m f) g = bindS m (\<lambda>a. bindS (f a) g)"
  by (cases m) simp_all

section \<open>The package strings\<close>

definition HasPrefix :: "string \<Rightarrow> string \<Rightarrow> bool" where
  "HasPrefix s p \<longleftrightarrow> take (length p) s = p"

definition HasSuffix :: "string \<Rightarrow> string \<Rightarrow> bool" where
  "HasSuffix s p \<longleftrightarrow> HasPrefix (rev s) (rev p)"

definition TrimPrefix :: "string \<Rightarrow> string \<Rightarrow> string" where
  "TrimPrefix s p = (if HasPrefix s p then drop (length p) s else s)"

definition TrimSuffix :: "string \<Rightarrow> string \<Rightarrow> string" where
  "TrimSuffix s p = (if HasSuffix s p then take (length s - length p) s else s)"

lemma HasPrefix_append [simp, go_str]: "HasPrefix (p @ s) p"
  by (simp add: HasPrefix_def)

lemma HasPrefix_iff [go_str]: "HasPrefix s p \<longleftrightarrow> (\<exists>r. s = p @ r)"
proof
  assume "HasPrefix s p"
  then have "s = p @ drop (length p) s"
    by (metis HasPrefix_def append_take_drop_id)
  then show "\<exists>r. s = p @ r" by blast
qed auto

lemma HasPrefix_Nil [simp]: "HasPrefix s []"
  by (simp add: HasPrefix_def)

lemma HasPrefix_Cons [simp]:
  "HasPrefix (c # s) (d # p) \<longleftrightarrow> c = d \<and> HasPrefix s p"
  "HasPrefix [] (d # p) = False"
  by (auto simp: HasPrefix_def)

lemma HasSuffix_iff [go_str]: "HasSuffix s p \<longleftrightarrow> (\<exists>r. s = r @ p)"
  by (auto simp: HasSuffix_def HasPrefix_iff) (metis rev_append rev_rev_ident)

lemma TrimPrefix_append [simp, go_str]: "TrimPrefix (p @ s) p = s"
  by (simp add: TrimPrefix_def)

lemma TrimSuffix_append [simp, go_str]: "TrimSuffix (s @ p) p = s"
  by (simp add: TrimSuffix_def HasSuffix_iff)

text \<open>\<^verbatim>\<open>strings.Split\<close>, \<^verbatim>\<open>strings.SplitN\<close> and \<^verbatim>\<open>strings.Join\<close> at a one-byte separator.\<close>

fun splitc :: "char \<Rightarrow> string \<Rightarrow> string list" where
  "splitc d [] = [[]]"
| "splitc d (c # s) =
     (if c = d then [] # splitc d s
      else (case splitc d s of [] \<Rightarrow> [[c]] | p # ps \<Rightarrow> (c # p) # ps))"

fun splitNc :: "nat \<Rightarrow> char \<Rightarrow> string \<Rightarrow> string list" where
  "splitNc 0 d s = []"
| "splitNc (Suc 0) d s = [s]"
| "splitNc (Suc (Suc n)) d s =
     (if d \<in> set s
      then takeWhile (\<lambda>c. c \<noteq> d) s
             # splitNc (Suc n) d (drop (Suc (length (takeWhile (\<lambda>c. c \<noteq> d) s))) s)
      else [s])"

fun joinc :: "string \<Rightarrow> string list \<Rightarrow> string" where
  "joinc sep [] = []"
| "joinc sep [p] = p"
| "joinc sep (p # q # ps) = p @ sep @ joinc sep (q # ps)"

lemma splitc_not_Nil [simp]: "splitc d s \<noteq> []"
  by (cases s) (auto split: list.splits)

lemma joinc_Cons: "ps \<noteq> [] \<Longrightarrow> joinc sep (p # ps) = p @ sep @ joinc sep ps"
  by (cases ps) simp_all

lemma joinc_Cons_hd: "joinc sep ((c # p) # ps) = c # joinc sep (p # ps)"
  by (cases ps) simp_all

lemma joinc_splitc [simp, go_str]: "joinc [d] (splitc d s) = s"
proof (induction s)
  case (Cons c s)
  then show ?case
    by (cases "splitc d s") (auto simp: joinc_Cons joinc_Cons_hd)
qed simp

lemma splitc_no_sep: "d \<notin> set s \<Longrightarrow> splitc d s = [s]"
  by (induction s) auto

lemma splitc_append_sep: "d \<notin> set p \<Longrightarrow> splitc d (p @ d # s) = p # splitc d s"
  by (induction p) auto

lemma splitc_joinc [go_str]:
  "ps \<noteq> [] \<Longrightarrow> \<forall>p \<in> set ps. d \<notin> set p \<Longrightarrow> splitc d (joinc [d] ps) = ps"
proof (induction ps)
  case (Cons p ps)
  then show ?case
    by (cases ps) (auto simp: splitc_no_sep splitc_append_sep)
qed simp

lemma splitc_parts_no_sep: "p \<in> set (splitc d s) \<Longrightarrow> d \<notin> set p"
proof (induction s arbitrary: p)
  case (Cons c s)
  then show ?case
    by (cases "splitc d s") (auto split: if_splits)
qed simp

lemma splitc_append: "splitc d (r @ d # s) = splitc d r @ splitc d s"
proof (induction r)
  case (Cons c r)
  then show ?case
    by (cases "splitc d r") auto
qed simp

lemma takeWhile_sep: "d \<notin> set p \<Longrightarrow> takeWhile (\<lambda>c. c \<noteq> d) (p @ d # s) = p"
  by (induction p) auto

lemma splitNc_sep [go_str]:
  "d \<notin> set p \<Longrightarrow> splitNc (Suc (Suc n)) d (p @ d # s) = p # splitNc (Suc n) d s"
  by (simp add: takeWhile_sep)

lemma joinc_append:
  "ps \<noteq> [] \<Longrightarrow> qs \<noteq> [] \<Longrightarrow> joinc sep (ps @ qs) = joinc sep ps @ sep @ joinc sep qs"
proof (induction ps)
  case (Cons p ps)
  then show ?case by (cases ps) (simp_all add: joinc_Cons)
qed simp

lemma length_joinc_drop: "length (joinc sep (drop (n + k) ps)) \<le> length (joinc sep (drop n ps))"
proof (induction k)
  case (Suc k)
  have "length (joinc sep (tl qs)) \<le> length (joinc sep qs)" for qs
    by (cases qs; cases "tl qs") simp_all
  then have "length (joinc sep (drop (n + Suc k) ps)) \<le> length (joinc sep (drop (n + k) ps))"
    by (metis add_Suc_right drop_Suc tl_drop)
  with Suc show ?case by linarith
qed simp

text \<open>\<^verbatim>\<open>strings.ReplaceAll\<close>: leftmost, non-overlapping; a non-empty pattern.\<close>

function replaceAll :: "string \<Rightarrow> string \<Rightarrow> string \<Rightarrow> string" where
  "replaceAll [] old new = []"
| "replaceAll (c # s) old new =
     (if old \<noteq> [] \<and> HasPrefix (c # s) old
      then new @ replaceAll (drop (length old) (c # s)) old new
      else c # replaceAll s old new)"
  by pat_completeness auto
termination
  by (relation "measure (\<lambda>(s, old, new). length s)") auto

lemma replaceAll_char [go_str]:
  "replaceAll s [d] new = concat (map (\<lambda>c. if c = d then new else [c]) s)"
  by (induction s) auto

text \<open>\<^verbatim>\<open>strings.Contains\<close> for a one-byte needle and for a string.\<close>

fun Contains :: "string \<Rightarrow> string \<Rightarrow> bool" where
  "Contains [] p = (p = [])"
| "Contains (c # s) p = (HasPrefix (c # s) p \<or> Contains s p)"

lemma Contains_char [go_str]: "Contains s [d] \<longleftrightarrow> d \<in> set s"
  by (induction s) auto

text \<open>\<^verbatim>\<open>strings.TrimSpace\<close> on ASCII space and \<^verbatim>\<open>textproto.TrimString\<close>.\<close>

definition isSpaceASCII :: "char \<Rightarrow> bool" where
  "isSpaceASCII c \<longleftrightarrow> of_char c \<in> {9::nat, 10, 11, 12, 13, 32}"

definition isTextprotoSpace :: "char \<Rightarrow> bool" where
  "isTextprotoSpace c \<longleftrightarrow> of_char c \<in> {9::nat, 10, 13, 32}"

definition trimBy :: "(char \<Rightarrow> bool) \<Rightarrow> string \<Rightarrow> string" where
  "trimBy P s = rev (dropWhile P (rev (dropWhile P s)))"

lemma length_trimBy: "length (trimBy P s) \<le> length s"
  by (simp add: trimBy_def) (metis length_dropWhile_le le_trans length_rev)

section \<open>Decimal numerals\<close>

definition digitChar :: "nat \<Rightarrow> char" where
  "digitChar d = char_of (48 + d)"

fun decNat :: "nat \<Rightarrow> string" where
  "decNat n = (if n < 10 then [digitChar n] else decNat (n div 10) @ [digitChar (n mod 10)])"

declare decNat.simps [simp del]

definition decInt :: "int \<Rightarrow> string" where
  "decInt i = (if i < 0 then CHR ''-'' # decNat (nat (- i)) else decNat (nat i))"

definition isDigit :: "char \<Rightarrow> bool" where
  "isDigit c \<longleftrightarrow> 48 \<le> (of_char c :: nat) \<and> (of_char c :: nat) \<le> 57"

definition parseDigits :: "string \<Rightarrow> nat" where
  "parseDigits s = foldl (\<lambda>n c. 10 * n + (of_char c - 48)) 0 s"

text \<open>\<^verbatim>\<open>strconv.Atoi\<close> on an unsigned numeral (no range limit here).\<close>

definition parseNat :: "string \<Rightarrow> nat option" where
  "parseNat s = (if s \<noteq> [] \<and> list_all isDigit s then Some (parseDigits s) else None)"

lemma of_char_digitChar: "d < 10 \<Longrightarrow> (of_char (digitChar d) :: nat) = 48 + d"
  by (simp add: digitChar_def)

lemma isDigit_digitChar [simp]: "d < 10 \<Longrightarrow> isDigit (digitChar d)"
  by (simp add: isDigit_def of_char_digitChar)

lemma decNat_not_Nil [simp]: "decNat n \<noteq> []"
  by (subst decNat.simps) simp

lemma decNat_digits [simp]: "list_all isDigit (decNat n)"
proof (induction n rule: decNat.induct)
  case (1 n)
  then show ?case by (subst decNat.simps) (auto simp del: isDigit_digitChar intro!: isDigit_digitChar)
qed

lemma parseDigits_decNat [simp]: "parseDigits (decNat n) = n"
proof (induction n rule: decNat.induct)
  case (1 n)
  show ?case
  proof (cases "n < 10")
    case True
    then show ?thesis
      by (subst decNat.simps) (simp add: parseDigits_def of_char_digitChar)
  next
    case False
    with 1 have "parseDigits (decNat (n div 10)) = n div 10" by simp
    then have "parseDigits (decNat (n div 10) @ [digitChar (n mod 10)]) = n"
      by (simp add: parseDigits_def of_char_digitChar)
    with False show ?thesis by (subst decNat.simps) simp
  qed
qed

lemma parseNat_decNat [simp, go_str]: "parseNat (decNat n) = Some n"
  by (simp add: parseNat_def)

lemma decNat_inj: "decNat m = decNat n \<Longrightarrow> m = n"
  by (metis parseDigits_decNat)

section \<open>Machine integers\<close>

lemma wrap63: "0 \<le> x \<Longrightarrow> x < 2 ^ 64 \<Longrightarrow> (x + 2 ^ 63) mod 2 ^ 64 - 2 ^ 63 = (if x < 2 ^ 63 then x else x - 2 ^ 64)" for x :: int
  using int_mod_pos_eq [of "x + 2 ^ 63" "2 ^ 64" 0 "x + 2 ^ 63"] int_mod_pos_eq [of "x + 2 ^ 63" "2 ^ 64" 1 "x - 2 ^ 63"]
  by auto

lemma sint_unat64: "sint (w :: 64 word) = (if unat w < 2 ^ 63 then int (unat w) else int (unat w) - 2 ^ 64)"
proof -
  have u: "0 \<le> uint w" "uint w < 2 ^ 64" using uint_bounded [of w] by simp_all
  have n: "uint w = int (unat w)" by simp
  have "sint w = (uint w + 2 ^ 63) mod 2 ^ 64 - 2 ^ 63"
    using int_word_sint [of "uint w", where 'a = 64] by simp
  also note wrap63 [OF u]
  finally have "sint w = (if uint w < 2 ^ 63 then uint w else uint w - 2 ^ 64)" .
  moreover have "(uint w < 2 ^ 63) = (unat w < 2 ^ 63)"
    unfolding n by (rule of_nat_less_numeral_power_cancel_iff)
  ultimately show ?thesis by (simp only: n)
qed

lemma unat_of_nat64: "n < 2 ^ 64 \<Longrightarrow> unat (of_nat n :: 64 word) = n"
  by (simp add: unat_of_nat)

lemma sint_of_nat64: "n < 2 ^ 63 \<Longrightarrow> sint (of_nat n :: 64 word) = int n"
  by (simp add: sint_unat64 unat_of_nat)

section \<open>Two interfaces\<close>

text \<open>
  A marshaller with its unmarshaller.  The law is what a configuration file relies on:
  what is written back is read as the value it was.
\<close>

locale codec =
  fixes enc :: "'a \<Rightarrow> 'e + 'b"
    and dec :: "'b \<Rightarrow> 'd + 'a"
    and valid :: "'a \<Rightarrow> bool"
  assumes enc_ok: "valid x \<Longrightarrow> isOk (enc x)"
    and dec_enc: "valid x \<Longrightarrow> enc x = Inr b \<Longrightarrow> dec b = Inr x"
begin

lemma round_trip: "valid x \<Longrightarrow> bindS (map_sum (\<lambda>_. e) id (enc x)) (\<lambda>b. map_sum (\<lambda>_. e) id (dec b)) = Inr x"
  using enc_ok [of x] dec_enc [of x] by (cases "enc x") auto

lemma enc_injective:
  "valid x \<Longrightarrow> valid y \<Longrightarrow> enc x = enc y \<Longrightarrow> x = y"
proof -
  assume "valid x" and "valid y" and eq: "enc x = enc y"
  from \<open>valid x\<close> obtain b where b: "enc x = Inr b"
    using enc_ok [of x] by (auto simp: isOk_iff)
  with eq \<open>valid x\<close> \<open>valid y\<close> have "dec b = Inr x" and "dec b = Inr y"
    by (auto intro: dec_enc)
  then show "x = y" by simp
qed

end

text \<open>
  A state machine whose operations keep an invariant: whatever sequence of operations is
  issued, the invariant holds after each of them.
\<close>

locale guarded_machine =
  fixes step :: "'s \<Rightarrow> 'op \<Rightarrow> 's"
    and inv :: "'s \<Rightarrow> bool"
  assumes step_inv: "inv s \<Longrightarrow> inv (step s a)"
begin

lemma run_inv: "inv s \<Longrightarrow> inv (foldl step s as)"
  by (induction as arbitrary: s) (simp_all add: step_inv)

lemma run_prefix_inv: "inv s \<Longrightarrow> inv (foldl step s (take n as))"
  by (rule run_inv)

end

end
