(* ===== verification/Blocks.thy ===== *)
theory Blocks
  imports GoPrelude
begin

text \<open>
  Blocks and objects: \<^verbatim>\<open>blocks/blockstoreutil/remove.go\<close>, \<^verbatim>\<open>core/coreapi/block.go\<close>,
  \<^verbatim>\<open>core/commands/block.go\<close>, \<^verbatim>\<open>core/coreapi/object.go\<close>.

  \<^item> The block store, the pinner, paths, nodes and their editor are third-party code: \<open>blkOps\<close>
    and \<open>objOps\<close>.  What a call answers may depend on all that has been done before, the list of
    events.
  \<^item> An operation gives its result and the events with its own appended.  Contexts that are
    cancelled show as errors of calls.
\<close>

section \<open>Removing blocks\<close>

datatype 'c blkEv = GcLockTaken | GcLockGiven | PinLockTaken | PinLockGiven | BlkDeleted 'c | BlkStored 'c | BlkPinned 'c | BlkPinsFlushed

datatype 'c removed = RemovedBlock (rbHash: "'c option") (rbError: "string option")

text \<open>\<open>checkIfPinned\<close> gives, for a key, how it is pinned, if it is.\<close>

record ('c, 'p) blkOps =
  bkHas :: "'c blkEv list \<Rightarrow> 'c \<Rightarrow> string + bool"
  bkDelete :: "'c blkEv list \<Rightarrow> 'c \<Rightarrow> string option"
  bkAdd :: "'c blkEv list \<Rightarrow> 'c \<Rightarrow> string option"
  bkGet :: "'c blkEv list \<Rightarrow> 'c \<Rightarrow> string + string"
  checkIfPinned :: "'c blkEv list \<Rightarrow> 'c list \<Rightarrow> string + ('c \<times> string option) list"
  bkPinFlush :: "'c blkEv list \<Rightarrow> string option"
  sumCid :: "'p \<Rightarrow> string \<Rightarrow> string + 'c"
  newBlockErr :: "string \<Rightarrow> 'c \<Rightarrow> string option"
  bkResolve :: "'c blkEv list \<Rightarrow> string \<Rightarrow> string + 'c"

definition FilterPinned :: "('c, 'p) blkOps \<Rightarrow> 'c list \<Rightarrow> 'c blkEv list \<Rightarrow> 'c list \<times> 'c removed list" where
  "FilterPinned ops cids evs =
     (case checkIfPinned ops evs cids of
        Inl err \<Rightarrow> ([], [RemovedBlock None (Some (''pin check failed: '' @ err))])
      | Inr res \<Rightarrow> (map fst (filter (\<lambda>r. snd r = None) res),
          map (\<lambda>r. RemovedBlock (Some (fst r)) (snd r)) (filter (\<lambda>r. snd r \<noteq> None) res)))"

fun rmLoop :: "('c, 'p) blkOps \<Rightarrow> bool \<Rightarrow> bool \<Rightarrow> 'c list \<Rightarrow> 'c blkEv list \<Rightarrow> 'c removed list \<times> 'c blkEv list" where
  "rmLoop ops force quiet [] evs = ([], evs)"
| "rmLoop ops force quiet (c # cs) evs =
     (let report = (\<lambda>err. case rmLoop ops force quiet cs evs of (out, evs') \<Rightarrow> (RemovedBlock (Some c) (Some err) # out, evs')) in
      case bkHas ops evs c of
        Inl err \<Rightarrow> report err
      | Inr has \<Rightarrow>
          if \<not> has \<and> \<not> force then report ''block was not found locally (offline): ipld: could not find node''
          else (case bkDelete ops evs c of
                  Some err \<Rightarrow> report err
                | None \<Rightarrow> (case rmLoop ops force quiet cs (evs @ [BlkDeleted c]) of
                    (out, evs') \<Rightarrow> ((if quiet then [] else [RemovedBlock (Some c) None]) @ out, evs'))))"

text \<open>The results that are sent, in order; the channel has room for as many as there are CIDs.\<close>

definition RmBlocks :: "('c, 'p) blkOps \<Rightarrow> bool \<Rightarrow> bool \<Rightarrow> 'c list \<Rightarrow> 'c blkEv list \<Rightarrow> 'c removed list \<times> 'c blkEv list" where
  "RmBlocks ops force quiet cids evs =
     (case FilterPinned ops cids (evs @ [GcLockTaken]) of
        (stillOkay, out) \<Rightarrow>
          (case rmLoop ops force quiet stillOkay (evs @ [GcLockTaken]) of
             (out', evs') \<Rightarrow> (out @ out', evs' @ [GcLockGiven])))"

text \<open>\<open>ctxFirst\<close>: the context is done before a result comes; the removal goes on.\<close>

definition blockRm :: "('c, 'p) blkOps \<Rightarrow> string option \<Rightarrow> string \<Rightarrow> bool \<Rightarrow> 'c blkEv list \<Rightarrow> (string + unit) \<times> 'c blkEv list" where
  "blockRm ops ctxFirst p force evs =
     (case bkResolve ops evs p of
        Inl err \<Rightarrow> (Inl err, evs)
      | Inr c \<Rightarrow>
          (case RmBlocks ops force False [c] evs of
             (out, evs') \<Rightarrow>
               ((case ctxFirst of Some err \<Rightarrow> Inl err
                 | None \<Rightarrow> (case out of [] \<Rightarrow> Inr ()
                     | r # _ \<Rightarrow> (case rbError r of Some err \<Rightarrow> Inl err | None \<Rightarrow> Inr ()))), evs')))"

fun blockRmCmd :: "('c, 'p) blkOps \<Rightarrow> ('c \<Rightarrow> string) \<Rightarrow> bool \<Rightarrow> bool \<Rightarrow> string list \<Rightarrow> 'c blkEv list \<Rightarrow>
    'c removed list \<times> string option \<times> 'c blkEv list" where
  "blockRmCmd ops ipfsPath force quiet [] evs = ([], None, evs)"
| "blockRmCmd ops ipfsPath force quiet (b # bs) evs =
     (case bkResolve ops evs b of
        Inl err \<Rightarrow> ([], Some err, evs)
      | Inr c \<Rightarrow>
          (case blockRm ops None (ipfsPath c) force evs of
             (Inl err, evs') \<Rightarrow> (case blockRmCmd ops ipfsPath force quiet bs evs' of
                 (out, r) \<Rightarrow> (RemovedBlock (Some c) (Some err) # out, r))
           | (Inr (), evs') \<Rightarrow> (case blockRmCmd ops ipfsPath force quiet bs evs' of
                 (out, r) \<Rightarrow> ((if quiet then [] else [RemovedBlock (Some c) None]) @ out, r))))"

text \<open>What the command line makes of the results.\<close>

fun rmPostRun :: "'c removed list \<Rightarrow> bool \<Rightarrow> string option" where
  "rmPostRun [] someFailed = (if someFailed then Some ''some blocks not removed'' else None)"
| "rmPostRun (r # rs) someFailed =
     (case (rbHash r, rbError r) of
        (None, Some err) \<Rightarrow> Some (''aborted: '' @ err)
      | (Some _, Some _) \<Rightarrow> rmPostRun rs True
      | _ \<Rightarrow> rmPostRun rs someFailed)"

section \<open>Storing blocks\<close>

definition pinStored :: "('c, 'p) blkOps \<Rightarrow> 'c \<Rightarrow> 'c blkEv list \<Rightarrow> string option \<times> 'c blkEv list" where
  "pinStored ops c evs =
     (let evs1 = evs @ [BlkPinned c] in
      case bkPinFlush ops evs1 of Some err \<Rightarrow> (Some err, evs1) | None \<Rightarrow> (None, evs1 @ [BlkPinsFlushed]))"

text \<open>Storing, and pinning under the lock, which is given back in any case.\<close>

definition storePinned :: "('c, 'p) blkOps \<Rightarrow> bool \<Rightarrow> 'c \<Rightarrow> 'c blkEv list \<Rightarrow> string option \<times> 'c blkEv list" where
  "storePinned ops pin c evs =
     (let evs1 = (if pin then evs @ [PinLockTaken] else evs);
          given = (\<lambda>r. if pin then (fst r, snd r @ [PinLockGiven]) else r) in
      given (case bkAdd ops evs1 c of
          Some err \<Rightarrow> (Some err, evs1)
        | None \<Rightarrow> if pin then pinStored ops c (evs1 @ [BlkStored c]) else (None, evs1 @ [BlkStored c])))"

definition blockPut :: "('c, 'p) blkOps \<Rightarrow> string + 'p \<Rightarrow> bool \<Rightarrow> string + string \<Rightarrow> 'c blkEv list \<Rightarrow> (string + 'c \<times> nat) \<times> 'c blkEv list" where
  "blockPut ops prefix pin src evs =
     (case bindS prefix (\<lambda>pf. bindS src (\<lambda>data. bindS (sumCid ops pf data) (\<lambda>c.
           case newBlockErr ops data c of Some err \<Rightarrow> Inl err | None \<Rightarrow> Inr (data, c)))) of
        Inl err \<Rightarrow> (Inl err, evs)
      | Inr (data, c) \<Rightarrow>
          (case storePinned ops pin c evs of
             (Some err, evs') \<Rightarrow> (Inl err, evs')
           | (None, evs') \<Rightarrow> (Inr (c, length data), evs')))"

definition blockGet :: "('c, 'p) blkOps \<Rightarrow> string \<Rightarrow> 'c blkEv list \<Rightarrow> string + string" where
  "blockGet ops p evs = bindS (bkResolve ops evs p) (bkGet ops evs)"

definition blockStat :: "('c, 'p) blkOps \<Rightarrow> string \<Rightarrow> 'c blkEv list \<Rightarrow> string + 'c \<times> nat" where
  "blockStat ops p evs = bindS (bkResolve ops evs p) (\<lambda>c. bindS (bkGet ops evs c) (\<lambda>data. Inr (c, length data)))"

definition SoftBlockLimit :: nat where "SoftBlockLimit = 1024 * 1024"

definition CheckBlockSize :: "bool \<Rightarrow> nat \<Rightarrow> string option" where
  "CheckBlockSize allowBig sz =
     (if allowBig then None
      else if sz > SoftBlockLimit then Some ''produced block is over 1MiB'' else None)"

text \<open>The files of \<^verbatim>\<open>ipfs block put\<close>; an entry that is no file has no reader.\<close>

fun blockPutFiles :: "('c, 'p) blkOps \<Rightarrow> string + 'p \<Rightarrow> bool \<Rightarrow> bool \<Rightarrow> (string + string) option list \<Rightarrow> 'c blkEv list \<Rightarrow>
    ('c \<times> nat) list \<times> string option \<times> 'c blkEv list" where
  "blockPutFiles ops prefix pin allowBig [] evs = ([], None, evs)"
| "blockPutFiles ops prefix pin allowBig (None # fs) evs = ([], Some ''expected a file'', evs)"
| "blockPutFiles ops prefix pin allowBig (Some src # fs) evs =
     (case blockPut ops prefix pin src evs of
        (Inl err, evs') \<Rightarrow> ([], Some err, evs')
      | (Inr (c, sz), evs') \<Rightarrow>
          (case CheckBlockSize allowBig sz of
             Some err \<Rightarrow> ([], Some err, evs')
           | None \<Rightarrow> (case blockPutFiles ops prefix pin allowBig fs evs' of (out, r) \<Rightarrow> ((c, sz) # out, r))))"

text \<open>\<open>mhNames\<close> are the multihash functions, \<open>prefixOf\<close> what the options of the API make of hash,
  length, codec and format.\<close>

definition blockPutCmd ::
  "('c, 'p) blkOps \<Rightarrow> (string \<Rightarrow> nat option) \<Rightarrow> (nat \<Rightarrow> int \<Rightarrow> string \<Rightarrow> string \<Rightarrow> string + 'p) \<Rightarrow> string \<Rightarrow> int option \<Rightarrow> string \<Rightarrow> string \<Rightarrow>
     bool \<Rightarrow> bool \<Rightarrow> (string + string) option list \<Rightarrow> 'c blkEv list \<Rightarrow> ('c \<times> nat) list \<times> string option \<times> 'c blkEv list" where
  "blockPutCmd ops mhNames prefixOf mhtype mhlen cidCodec format pin allowBig fs evs =
     (case mhNames mhtype of
        None \<Rightarrow> ([], Some (''unrecognized multihash function: '' @ mhtype), evs)
      | Some mh \<Rightarrow>
          (case mhlen of
             None \<Rightarrow> ([], Some ''missing option mhlen'', evs)
           | Some n \<Rightarrow>
               if format \<noteq> [] \<and> cidCodec \<noteq> [] \<and> cidCodec \<noteq> ''raw''
               then ([], Some ''unable to use format (deprecated) and a custom cid-codec at the same time'', evs)
               else blockPutFiles ops (prefixOf mh n (if format \<noteq> [] then [] else cidCodec) format) pin allowBig fs evs))"


section \<open>Objects\<close>

record objLink =
  olName :: string
  olHash :: string
  olSize :: nat

record objNode =
  onLinks :: "objLink list"
  onData :: string

text \<open>\<open>decodeNode\<close> is the decoder of the given encoding; \<open>'n\<close> are nodes, of which \<open>protoOf\<close> gives
  the data and links of those that are protobuf nodes.\<close>

record ('c, 'n) objOps =
  decodeNode :: "string \<Rightarrow> string \<Rightarrow> string + objNode"
  decodeProtobuf :: "string \<Rightarrow> string + 'n"
  base64Decode :: "string \<Rightarrow> string + string"
  cidDecode :: "string \<Rightarrow> string + 'c"
  setLinks :: "string \<Rightarrow> (string \<times> nat \<times> 'c) list \<Rightarrow> string + 'n"
  protoData :: "'n \<Rightarrow> string option"
  setData :: "'n \<Rightarrow> string \<Rightarrow> 'n"
  nodeCid :: "'n \<Rightarrow> 'c"
  resolveNode :: "string \<Rightarrow> string + 'n"
  insertAtPath :: "'n \<Rightarrow> string \<Rightarrow> 'n \<Rightarrow> bool \<Rightarrow> string + 'n"
  removeLink :: "'n \<Rightarrow> string \<Rightarrow> string + 'n"
  finalizeNode :: "'n \<Rightarrow> string + 'n"
  emptyNode :: 'n
  emptyDir :: 'n
  objAdd :: "'n \<Rightarrow> string option"

definition inputLimit :: nat where "inputLimit = 2 * 1024 * 1024"

fun decodeLinks :: "('c, 'n) objOps \<Rightarrow> objLink list \<Rightarrow> string + (string \<times> nat \<times> 'c) list" where
  "decodeLinks ob [] = Inr []"
| "decodeLinks ob (l # ls) =
     bindS (cidDecode ob (olHash l)) (\<lambda>c. bindS (decodeLinks ob ls) (\<lambda>rest. Inr ((olName l, olSize l, c) # rest)))"

definition deserializeNode :: "('c, 'n) objOps \<Rightarrow> objNode \<Rightarrow> string \<Rightarrow> string + 'n" where
  "deserializeNode ob nd enc =
     bindS (if enc = ''text'' then Inr (onData nd)
            else if enc = ''base64'' then base64Decode ob (onData nd)
            else Inl ''unknown data field encoding'') (\<lambda>data.
     bindS (decodeLinks ob (onLinks nd)) (\<lambda>links. setLinks ob data links))"

text \<open>At most \<open>inputLimit + 10\<close> bytes of the input are looked at.\<close>

definition objDecode :: "('c, 'n) objOps \<Rightarrow> string \<Rightarrow> string \<Rightarrow> string \<Rightarrow> string + 'n" where
  "objDecode ob inputEnc dataType src =
     (let data = take (inputLimit + 10) src in
      if inputEnc = ''json'' \<or> inputEnc = ''xml'' then bindS (decodeNode ob inputEnc data) (\<lambda>nd. deserializeNode ob nd dataType)
      else if inputEnc = ''protobuf'' then decodeProtobuf ob data
      else Inl ''unknown object encoding'')"

definition objectPut :: "('c, 'p) blkOps \<Rightarrow> ('c, 'n) objOps \<Rightarrow> bool \<Rightarrow> string \<Rightarrow> string \<Rightarrow> string \<Rightarrow> 'c blkEv list \<Rightarrow> (string + 'c) \<times> 'c blkEv list" where
  "objectPut ops ob pin inputEnc dataType src evs =
     (case objDecode ob inputEnc dataType src of
        Inl err \<Rightarrow> (Inl err, evs)
      | Inr nd \<Rightarrow>
          (case storePinned ops pin (nodeCid ob nd) evs of
             (Some err, evs') \<Rightarrow> (Inl err, evs')
           | (None, evs') \<Rightarrow> (Inr (nodeCid ob nd), evs')))"

definition storeObj :: "('c, 'n) objOps \<Rightarrow> 'n \<Rightarrow> string + 'n" where
  "storeObj ob nd = (case objAdd ob nd of Some err \<Rightarrow> Inl err | None \<Rightarrow> Inr nd)"

definition objectNew :: "('c, 'n) objOps \<Rightarrow> string \<Rightarrow> string + 'n" where
  "objectNew ob t =
     bindS (if t = ''empty'' then Inr (emptyNode ob)
            else if t = ''unixfs-dir'' then Inr (emptyDir ob)
            else Inl (''unknown node type: '' @ t)) (storeObj ob)"

definition protoNode :: "('c, 'n) objOps \<Rightarrow> string \<Rightarrow> string + 'n \<times> string" where
  "protoNode ob p = bindS (resolveNode ob p) (\<lambda>nd. case protoData ob nd of
     None \<Rightarrow> Inl ''expected protobuf dag node'' | Some d \<Rightarrow> Inr (nd, d))"

definition objectData :: "('c, 'n) objOps \<Rightarrow> string \<Rightarrow> string + string" where
  "objectData ob p = bindS (protoNode ob p) (\<lambda>(nd, d). Inr d)"

definition patchData :: "('c, 'n) objOps \<Rightarrow> string \<Rightarrow> string + string \<Rightarrow> bool \<Rightarrow> string + 'c" where
  "patchData ob p src appendData =
     bindS (protoNode ob p) (\<lambda>(nd, d). bindS src (\<lambda>data.
     bindS (storeObj ob (setData ob nd (if appendData then d @ data else data))) (\<lambda>nd'. Inr (nodeCid ob nd'))))"

definition objectAddLink :: "('c, 'n) objOps \<Rightarrow> string \<Rightarrow> string \<Rightarrow> string \<Rightarrow> bool \<Rightarrow> string + 'c" where
  "objectAddLink ob base name child create =
     bindS (resolveNode ob base) (\<lambda>baseNd.
     bindS (resolveNode ob child) (\<lambda>childNd.
     bindS (case protoData ob baseNd of None \<Rightarrow> Inl ''expected protobuf dag node'' | Some _ \<Rightarrow> Inr ()) (\<lambda>_.
     bindS (insertAtPath ob baseNd name childNd create) (\<lambda>e.
     bindS (finalizeNode ob e) (\<lambda>nd. Inr (nodeCid ob nd))))))"

definition objectRmLink :: "('c, 'n) objOps \<Rightarrow> string \<Rightarrow> string \<Rightarrow> string + 'c" where
  "objectRmLink ob base link =
     bindS (protoNode ob base) (\<lambda>(baseNd, _).
     bindS (removeLink ob baseNd link) (\<lambda>e.
     bindS (finalizeNode ob e) (\<lambda>nd. Inr (nodeCid ob nd))))"

section \<open>Removal is exact\<close>

text \<open>
  What a pinner that checks keys answers: the status of exactly the keys that were given - in
  any order, and any number of times - each with how it is pinned exactly if it is.
\<close>

definition pinCheckLaw :: "('c, 'p) blkOps \<Rightarrow> ('c blkEv list \<Rightarrow> 'c \<Rightarrow> bool) \<Rightarrow> bool" where
  "pinCheckLaw ops pinned = (\<forall>evs cids res. checkIfPinned ops evs cids = Inr res \<longrightarrow>
     set (map fst res) = set cids \<and> (\<forall>(c, how)\<in>set res. how = None \<longleftrightarrow> \<not> pinned evs c))"

text \<open>
  A block that is looked at once is deleted or reported; one that is looked at again after it was
  deleted may be both.
\<close>

lemma rmLoop_exact:
  "rmLoop ops force quiet cs evs = (out, evs') \<Longrightarrow>
   \<exists>ds. evs' = evs @ map BlkDeleted ds \<and> set ds \<subseteq> set cs \<and> length out \<le> length cs \<and>
    (\<forall>r\<in>set out. \<exists>c\<in>set cs. rbHash r = Some c) \<and>
    (\<forall>c\<in>set cs. c \<notin> set ds \<longrightarrow> (\<exists>err. RemovedBlock (Some c) (Some err) \<in> set out)) \<and>
    (\<forall>c\<in>set cs. count_list cs c = 1 \<longrightarrow> c \<in> set ds \<longrightarrow> (\<forall>err. RemovedBlock (Some c) (Some err) \<notin> set out)) \<and>
    (\<forall>c. RemovedBlock (Some c) None \<in> set out \<longleftrightarrow> \<not> quiet \<and> c \<in> set ds)"
proof (induction cs arbitrary: evs out evs')
  case (Cons c cs)
  have report: ?case if r: "rmLoop ops force quiet cs evs = (out1, evs')" "out = RemovedBlock (Some c) (Some err) # out1" for out1 err
  proof -
    from Cons.IH[OF r(1)] obtain ds where ds: "evs' = evs @ map BlkDeleted ds" "set ds \<subseteq> set cs" "length out1 \<le> length cs"
      "\<forall>r\<in>set out1. \<exists>c\<in>set cs. rbHash r = Some c"
      "\<forall>c\<in>set cs. c \<notin> set ds \<longrightarrow> (\<exists>err. RemovedBlock (Some c) (Some err) \<in> set out1)"
      "\<forall>c\<in>set cs. count_list cs c = 1 \<longrightarrow> c \<in> set ds \<longrightarrow> (\<forall>err. RemovedBlock (Some c) (Some err) \<notin> set out1)"
      "\<forall>c. RemovedBlock (Some c) None \<in> set out1 \<longleftrightarrow> \<not> quiet \<and> c \<in> set ds" by blast
    have "c \<notin> set ds" if "count_list (c # cs) c = 1" using that ds(2) by (auto simp: count_list_0_iff)
    then show ?thesis using r(2) ds by (intro exI[of _ ds]) auto
  qed
  have removed: ?case if r: "rmLoop ops force quiet cs (evs @ [BlkDeleted c]) = (out1, evs')"
    "out = (if quiet then [] else [RemovedBlock (Some c) None]) @ out1" for out1
  proof -
    from Cons.IH[OF r(1)] obtain ds where ds: "evs' = (evs @ [BlkDeleted c]) @ map BlkDeleted ds" "set ds \<subseteq> set cs" "length out1 \<le> length cs"
      "\<forall>r\<in>set out1. \<exists>c\<in>set cs. rbHash r = Some c"
      "\<forall>c\<in>set cs. c \<notin> set ds \<longrightarrow> (\<exists>err. RemovedBlock (Some c) (Some err) \<in> set out1)"
      "\<forall>c\<in>set cs. count_list cs c = 1 \<longrightarrow> c \<in> set ds \<longrightarrow> (\<forall>err. RemovedBlock (Some c) (Some err) \<notin> set out1)"
      "\<forall>c. RemovedBlock (Some c) None \<in> set out1 \<longleftrightarrow> \<not> quiet \<and> c \<in> set ds" by blast
    have new: "RemovedBlock (Some c) x \<notin> set out1" if "count_list (c # cs) c = 1" for x
      using that ds(4) by (force simp: count_list_0_iff)
    then show ?thesis using r(2) ds by (intro exI[of _ "c # ds"]) auto
  qed
  obtain o1 e1 o2 e2 where loops: "rmLoop ops force quiet cs evs = (o1, e1)" "rmLoop ops force quiet cs (evs @ [BlkDeleted c]) = (o2, e2)"
    by fastforce
  have "(\<exists>err. evs' = e1 \<and> out = RemovedBlock (Some c) (Some err) # o1) \<or> evs' = e2 \<and> out = (if quiet then [] else [RemovedBlock (Some c) None]) @ o2"
    using Cons.prems(1) loops
    by (cases "bkHas ops evs c"; cases "bkDelete ops evs c"; cases "\<not> projr (bkHas ops evs c) \<and> \<not> force") auto
  then show ?case
    using report loops removed by blast
qed simp

text \<open>
  C8. Removing blocks never removes a pinned one. It works under the lock for garbage collection,
  taken first and given back last; every block it deletes is one of those given and is not pinned;
  every given block that it does not delete is reported with an error, and a pinned one is.
  Unless quiet, the blocks reported without an error are those deleted. A block the pinner
  answered for once is not reported with an error when it was deleted. When the check of the
  pins fails, nothing is deleted and that failure is all that is reported; otherwise there are no
  more results than the pinner gave answers.
\<close>

theorem block_removal_is_exact:
  assumes "pinCheckLaw ops pinned" and "RmBlocks ops force quiet cids evs = (out, evs')"
  shows "\<exists>ds. evs' = evs @ [GcLockTaken] @ map BlkDeleted ds @ [GcLockGiven] \<and> set ds \<subseteq> set cids \<and>
    (\<forall>c\<in>set ds. \<not> pinned (evs @ [GcLockTaken]) c) \<and>
    (case checkIfPinned ops (evs @ [GcLockTaken]) cids of
       Inl err \<Rightarrow> out = [RemovedBlock None (Some (''pin check failed: '' @ err))] \<and> ds = []
     | Inr res \<Rightarrow> length out \<le> length res \<and>
         (\<forall>c\<in>set cids. c \<notin> set ds \<longrightarrow> (\<exists>err. RemovedBlock (Some c) (Some err) \<in> set out)) \<and>
         (\<forall>c\<in>set cids. count_list (map fst res) c = 1 \<longrightarrow> c \<in> set ds \<longrightarrow> (\<forall>err. RemovedBlock (Some c) (Some err) \<notin> set out)) \<and>
         (\<forall>c. RemovedBlock (Some c) None \<in> set out \<longleftrightarrow> \<not> quiet \<and> c \<in> set ds))"
proof (cases "checkIfPinned ops (evs @ [GcLockTaken]) cids")
  case (Inl err)
  then have "out = [RemovedBlock None (Some (''pin check failed: '' @ err))]" "evs' = evs @ [GcLockTaken] @ map BlkDeleted [] @ [GcLockGiven]"
    using assms(2) by (simp_all add: RmBlocks_def FilterPinned_def)
  then show ?thesis unfolding Inl by (intro exI[of _ "[]"]) simp
next
  case (Inr res)
  let ?ok = "map fst (filter (\<lambda>r. snd r = None) res)"
  let ?bad = "map (\<lambda>r. RemovedBlock (Some (fst r)) (snd r)) (filter (\<lambda>r. snd r \<noteq> None) res)"
  have res: "set (map fst res) = set cids"
    "\<And>c how. (c, how) \<in> set res \<Longrightarrow> how = None \<longleftrightarrow> \<not> pinned (evs @ [GcLockTaken]) c"
    using assms(1) Inr unfolding pinCheckLaw_def by (blast, fastforce)
  obtain out1 e1 where loop: "rmLoop ops force quiet ?ok (evs @ [GcLockTaken]) = (out1, e1)" by fastforce
  then have out: "out = ?bad @ out1" "evs' = e1 @ [GcLockGiven]"
    using assms(2) Inr by (auto simp: RmBlocks_def FilterPinned_def)
  from rmLoop_exact[OF loop] obtain ds where ds: "e1 = (evs @ [GcLockTaken]) @ map BlkDeleted ds" "set ds \<subseteq> set ?ok" "length out1 \<le> length ?ok"
    "\<forall>r\<in>set out1. \<exists>c\<in>set ?ok. rbHash r = Some c"
    "\<forall>c\<in>set ?ok. c \<notin> set ds \<longrightarrow> (\<exists>err. RemovedBlock (Some c) (Some err) \<in> set out1)"
    "\<forall>c\<in>set ?ok. count_list ?ok c = 1 \<longrightarrow> c \<in> set ds \<longrightarrow> (\<forall>err. RemovedBlock (Some c) (Some err) \<notin> set out1)"
    "\<forall>c. RemovedBlock (Some c) None \<in> set out1 \<longleftrightarrow> \<not> quiet \<and> c \<in> set ds" by blast
  have hows: "RemovedBlock (Some c) x \<in> set ?bad \<longleftrightarrow> (c, x) \<in> set res \<and> x \<noteq> None" for c x by force
  have oks: "set ?ok = {c \<in> set cids. \<not> pinned (evs @ [GcLockTaken]) c}"
  proof (intro equalityI subsetI)
    fix c assume "c \<in> set ?ok"
    then have "(c, None) \<in> set res" by auto
    then show "c \<in> {c \<in> set cids. \<not> pinned (evs @ [GcLockTaken]) c}" using res(1) res(2)[of c None] by force
  next
    fix c assume c: "c \<in> {c \<in> set cids. \<not> pinned (evs @ [GcLockTaken]) c}"
    then have "c \<in> set (map fst res)" using res(1) by simp
    then obtain how where "(c, how) \<in> set res" by auto
    then show "c \<in> set ?ok" using res(2)[of c how] c by force
  qed
  have once: "count_list (map fst (filter Q res)) c \<le> count_list (map fst res) c" for Q c
    by (induction res) auto
  have "length out \<le> length res"
  proof -
    have "length out \<le> length ?ok + length ?bad" using out ds(3) by simp
    also have "\<dots> = length res" using sum_length_filter_compl[of "\<lambda>r. snd r = None" res] by (simp del: not_None_eq)
    finally show ?thesis .
  qed
  moreover have "\<exists>err. RemovedBlock (Some c) (Some err) \<in> set out" if c: "c \<in> set cids" "c \<notin> set ds" for c
  proof (cases "pinned (evs @ [GcLockTaken]) c")
    case True
    have "c \<in> set (map fst res)" using res(1) c by simp
    then obtain how where how: "(c, how) \<in> set res" by auto
    then obtain err where "how = Some err" using res(2)[of c how] True by blast
    then have "RemovedBlock (Some c) (Some err) \<in> set ?bad" using how hows[of c how] by simp
    then show ?thesis by (auto simp: out(1))
  next
    case False
    then have "c \<in> set ?ok" using oks c by blast
    then show ?thesis using ds(5) c unfolding out(1) set_append by blast
  qed
  moreover have "RemovedBlock (Some c) (Some err) \<notin> set out" if c: "count_list (map fst res) c = 1" "c \<in> set ds" for c err
  proof -
    have ok: "c \<in> set ?ok" using c(2) ds(2) by blast
    then have "count_list ?ok c \<noteq> 0" by (metis count_list_0_iff)
    then have "count_list ?ok c = 1" using once[of "\<lambda>r. snd r = None" c] c(1) by simp
    then have "RemovedBlock (Some c) (Some err) \<notin> set out1" using ds(6) ok c(2) by blast
    moreover have "RemovedBlock (Some c) (Some err) \<notin> set ?bad" using hows[of c "Some err"] res(2)[of c "Some err"] ok oks by blast
    ultimately show ?thesis unfolding out(1) set_append by blast
  qed
  moreover have "RemovedBlock (Some c) None \<in> set out \<longleftrightarrow> \<not> quiet \<and> c \<in> set ds" for c
    unfolding out(1) set_append using hows[of c None] ds(7) by blast
  moreover have "evs' = evs @ [GcLockTaken] @ map BlkDeleted ds @ [GcLockGiven]" using ds(1) out(2) by simp
  moreover have "set ds \<subseteq> set cids" "\<forall>c\<in>set ds. \<not> pinned (evs @ [GcLockTaken]) c" using ds(2) oks by blast+
  ultimately show ?thesis unfolding Inr by (intro exI[of _ ds]) (simp only: sum.case, blast)
qed

text \<open>
  A store with the blocks 1, 2 and 3, of which 2 is pinned; the pinner answers for every
  key that it is given.
\<close>

definition sampleBlocks :: "(nat, unit) blkOps" where
  "sampleBlocks = \<lparr> bkHas = (\<lambda>evs c. Inr (c \<in> {1, 2, 3} \<and> BlkDeleted c \<notin> set evs)), bkDelete = (\<lambda>_ _. None), bkAdd = (\<lambda>_ _. None), bkGet = (\<lambda>_ _. Inr []),
     checkIfPinned = (\<lambda>_ cids. Inr (map (\<lambda>c. (c, if c = 2 then Some ''recursive'' else None)) cids)), bkPinFlush = (\<lambda>_. None),
     sumCid = (\<lambda>_ d. Inr (length d)), newBlockErr = (\<lambda>_ _. None), bkResolve = (\<lambda>_ p. Inr (length p)) \<rparr>"

lemma sampleBlocks_law: "pinCheckLaw sampleBlocks (\<lambda>_ c. c = 2)"
  by (auto simp: pinCheckLaw_def sampleBlocks_def comp_def image_image)

lemma sampleBlocks_run: "RmBlocks sampleBlocks False False [1, 2, 2, 1] [] =
    ([RemovedBlock (Some 2) (Some ''recursive''), RemovedBlock (Some 2) (Some ''recursive''), RemovedBlock (Some 1) None,
      RemovedBlock (Some 1) (Some ''block was not found locally (offline): ipld: could not find node'')], [GcLockTaken, BlkDeleted 1, GcLockGiven])"
  by (simp add: RmBlocks_def FilterPinned_def sampleBlocks_def)

theorem block_removal_is_exact_witness:
  "\<exists>ds. [GcLockTaken, BlkDeleted 1, GcLockGiven] = [] @ [GcLockTaken] @ map BlkDeleted ds @ [GcLockGiven] \<and> set ds \<subseteq> set [1, 2, 2, 1 :: nat] \<and> 2 \<notin> set ds"
  using block_removal_is_exact[OF sampleBlocks_law sampleBlocks_run] by blast

section \<open>Storing and pinning\<close>

text \<open>
  Pinning happens under the lock, on a block that was stored; the lock is given back in any case.
\<close>

lemma storePinned_cases:
  assumes "storePinned ops True c evs = (r, evs')"
  shows "\<exists>mid. evs' = evs @ [PinLockTaken] @ mid @ [PinLockGiven] \<and>
    mid \<in> {[], [BlkStored c, BlkPinned c], [BlkStored c, BlkPinned c, BlkPinsFlushed]} \<and>
    (r = None \<longleftrightarrow> mid = [BlkStored c, BlkPinned c, BlkPinsFlushed])"
  using assms by (auto simp: storePinned_def pinStored_def Let_def split: option.splits)

lemma storePinned_unpinned:
  "storePinned ops False c evs = (r, evs') \<Longrightarrow> evs' = (if r = None then evs @ [BlkStored c] else evs)"
  by (cases "bkAdd ops evs c"; cases r) (simp_all add: storePinned_def)

text \<open>A failed flush leaves a pin in memory.\<close>

lemma failed_flush_leaves_pin:
  assumes "bkAdd ops (evs @ [PinLockTaken]) c = None" and "bkPinFlush ops (evs @ [PinLockTaken, BlkStored c, BlkPinned c]) = Some err"
  shows "storePinned ops True c evs = (Some err, evs @ [PinLockTaken, BlkStored c, BlkPinned c, PinLockGiven])"
  using assms by (simp add: storePinned_def pinStored_def)

text \<open>The size of a block is checked after it was stored, and pinned.\<close>

lemma big_block_is_refused_after_it_is_stored:
  assumes "blockPut ops prefix pin src evs = (Inr (c, sz), evs')" and "SoftBlockLimit < sz"
  shows "blockPutFiles ops prefix pin False (Some src # fs) evs = ([], Some ''produced block is over 1MiB'', evs') \<and> BlkStored c \<in> set evs'"
proof -
  obtain data where st: "storePinned ops pin c evs = (None, evs')"
    using assms(1) by (auto simp: blockPut_def split: sum.splits option.splits prod.splits)
  then have "BlkStored c \<in> set evs'"
    using storePinned_cases[of ops c evs None evs'] storePinned_unpinned[of ops c evs None evs'] by (cases pin) auto
  then show ?thesis using assms by (simp add: CheckBlockSize_def)
qed

text \<open>An object that is larger than the limit is cut off, not refused.\<close>

lemma large_objects_are_cut_off:
  assumes "take (inputLimit + 10) src = take (inputLimit + 10) src'"
  shows "objectPut ops ob pin enc dt src evs = objectPut ops ob pin enc dt src' evs"
  using assms by (simp add: objectPut_def objDecode_def Let_def)

text \<open>Appending data is associative: twice is once with both.\<close>

lemma patchData_append:
  assumes "resolveNode ob p = Inr nd" "protoData ob nd = Some d" "\<forall>nd x. protoData ob (setData ob nd x) = Some x"
    and "\<forall>nd x y. setData ob (setData ob nd x) y = setData ob nd y" and "\<forall>nd. objAdd ob nd = None"
    and "resolveNode ob q = Inr (setData ob nd (d @ a))"
  shows "patchData ob q (Inr b) True = patchData ob p (Inr (a @ b)) True"
  using assms by (simp add: patchData_def protoNode_def storeObj_def)

end
