(* ===== verification/LazySeek.thy ===== *)
theory LazySeek
  imports GoPrelude
begin

text \<open>
  The lazy seeker of the gateway, \<^verbatim>\<open>core/corehttp/lazyseek.go\<close>: seeking only moves a counter, and
  the file is positioned when it is read.

  \<^item> Offsets are 64-bit words; their comparisons are signed.  A seek returns an offset and an error, as
    in Go; each error text is a constructor of \<open>io_err\<close>.
  \<^item> The file read from is anything with \<^verbatim>\<open>Seek\<close> and \<^verbatim>\<open>Read\<close>: the interface \<open>read_seeker\<close>.
    \<^verbatim>\<open>bytes.Reader\<close> is one.
\<close>

section \<open>The interface\<close>

datatype io_err =
    IoEOF
  | InvalidSeekOffset
  | InvalidWhence int
  | BytesNegativePosition
  | BytesInvalidWhence
  | IoFailed string

datatype whence = SeekStart | SeekCurrent | SeekEnd | SeekOther int

type_synonym 'r seekOp = "64 word \<Rightarrow> 'r \<Rightarrow> (64 word \<times> io_err option) \<times> 'r"
type_synonym 'r readOp = "nat \<Rightarrow> 'r \<Rightarrow> (string \<times> io_err option) \<times> 'r"

text \<open>
  \<open>seek\<close> is \<^verbatim>\<open>Seek(offset, io.SeekStart)\<close>, \<open>readN n\<close> is \<^verbatim>\<open>Read\<close> into a buffer of \<open>n\<close> bytes.
  A read gives a piece of the content at the position and moves behind it; with room for a byte and a byte
  left it gives one or an error.
\<close>

locale read_seeker =
  fixes seek :: "'r seekOp"
    and readN :: "'r readOp"
    and content :: "'r \<Rightarrow> string"
    and pos :: "'r \<Rightarrow> 64 word"
    and ok :: "'r \<Rightarrow> bool"
  assumes seek_ok: "ok r \<Longrightarrow> ok (snd (seek off r)) \<and> content (snd (seek off r)) = content r"
    and seek_pos: "ok r \<Longrightarrow> 0 \<le> sint off \<Longrightarrow> seek off r = ((o', None), r') \<Longrightarrow> o' = off \<and> pos r' = off"
    and read_ok: "ok r \<Longrightarrow> ok (snd (readN n r)) \<and> content (snd (readN n r)) = content r"
    and read_bytes: "ok r \<Longrightarrow> readN n r = ((bs, err), r') \<Longrightarrow>
      length bs \<le> n \<and> bs = take (length bs) (drop (unat (pos r)) (content r)) \<and> pos r' = pos r + of_nat (length bs)"
    and read_progress: "ok r \<Longrightarrow> readN n r = ((bs, err), r') \<Longrightarrow> 0 < n \<Longrightarrow> unat (pos r) < length (content r) \<Longrightarrow>
      bs \<noteq> [] \<or> err \<noteq> None"
    and fits: "ok r \<Longrightarrow> length (content r) < 2 ^ 63"
begin

lemma read_at:
  assumes "ok r" and "0 \<le> sint off" and "seek off r = ((o', None), r1)" and "readN n r1 = ((bs, err), r2)"
  shows "bs = take (length bs) (drop (unat off) (content r))"
  using seek_ok [OF assms(1), of off] seek_pos [OF assms(1-3)] read_bytes [OF _ assms(4)] assms(3) by auto

end

section \<open>\<^verbatim>\<open>bytes.Reader\<close>\<close>

record memReader =
  mr_s :: string
  mr_i :: "64 word"

definition memSeek :: "memReader seekOp" where
  "memSeek off r =
     (if sint off < 0 then ((0, Some BytesNegativePosition), r) else ((off, None), r\<lparr> mr_i := off \<rparr>))"

definition memRead :: "memReader readOp" where
  "memRead n r =
     (if unat (mr_i r) \<ge> length (mr_s r) then (([], Some IoEOF), r)
      else let bs = take n (drop (unat (mr_i r)) (mr_s r)) in
        ((bs, None), r\<lparr> mr_i := mr_i r + of_nat (length bs) \<rparr>))"

text \<open>A slice has a length that is an \<^verbatim>\<open>int\<close>.\<close>

definition memOk :: "memReader \<Rightarrow> bool" where
  "memOk r \<longleftrightarrow> length (mr_s r) < 2 ^ 63"

interpretation mem: read_seeker memSeek memRead mr_s mr_i memOk
  by unfold_locales (auto simp: memOk_def memSeek_def memRead_def Let_def min_def split: if_splits)

section \<open>The lazy seeker\<close>

record 'r lazySeeker =
  ls_reader :: 'r
  ls_size :: "64 word"
  ls_offset :: "64 word"
  ls_realOffset :: "64 word"

fun lazySeek :: "64 word \<Rightarrow> whence \<Rightarrow> 'r lazySeeker \<Rightarrow> (64 word \<times> io_err option) \<times> 'r lazySeeker" where
  "lazySeek offset SeekStart s =
     (if sint offset < 0 then ((ls_offset s, Some InvalidSeekOffset), s)
      else ((offset, None), s\<lparr> ls_offset := offset \<rparr>))"
| "lazySeek offset SeekEnd s =
     (if sint (ls_size s + offset) < 0 then ((ls_offset s, Some InvalidSeekOffset), s)
      else ((ls_size s + offset, None), s\<lparr> ls_offset := ls_size s + offset \<rparr>))"
| "lazySeek offset SeekCurrent s =
     (if sint (ls_offset s + offset) < 0 then ((ls_offset s, Some InvalidSeekOffset), s)
      else ((ls_offset s + offset, None), s\<lparr> ls_offset := ls_offset s + offset \<rparr>))"
| "lazySeek offset (SeekOther w) s = ((ls_offset s, Some (InvalidWhence w)), s)"

lemma lazySeek_relative:
  "lazySeek off SeekEnd s = lazySeek (ls_size s + off) SeekStart s"
  "lazySeek off SeekCurrent s = lazySeek (ls_offset s + off) SeekStart s"
  by simp_all

text \<open>The loop that positions the file; it only ends when the file says it is where it should be.\<close>

partial_function (option) seekLoop ::
  "'r seekOp \<Rightarrow> 'r lazySeeker \<Rightarrow> (io_err option \<times> 'r lazySeeker) option" where
  "seekLoop seek s =
     (if ls_offset s = ls_realOffset s then Some (None, s)
      else case seek (ls_offset s) (ls_reader s) of
        ((off, Some err), r) \<Rightarrow> Some (Some err, s\<lparr> ls_reader := r \<rparr>)
      | ((off, None), r) \<Rightarrow> seekLoop seek (s\<lparr> ls_reader := r, ls_realOffset := off \<rparr>))"

definition lazyRead ::
  "'r seekOp \<Rightarrow> 'r readOp \<Rightarrow> nat \<Rightarrow> 'r lazySeeker \<Rightarrow> ((string \<times> io_err option) \<times> 'r lazySeeker) option" where
  "lazyRead seek readN n s =
     (if sint (ls_size s) \<le> sint (ls_offset s) then Some (([], Some IoEOF), s)
      else case seekLoop seek s of
        None \<Rightarrow> None
      | Some (Some err, s1) \<Rightarrow> Some (([], Some err), s1)
      | Some (None, s1) \<Rightarrow>
          (case readN n (ls_reader s1) of
             ((bs, err), r) \<Rightarrow>
               Some ((bs, err), s1\<lparr> ls_reader := r, ls_realOffset := ls_realOffset s1 + of_nat (length bs),
                                    ls_offset := ls_offset s1 + of_nat (length bs) \<rparr>)))"

text \<open>\<^verbatim>\<open>Close\<close> closes what can be closed: \<open>closer\<close> is the \<^verbatim>\<open>Close\<close> of the file, if it has one.\<close>

definition lazyClose :: "('r \<Rightarrow> io_err option \<times> 'r) option \<Rightarrow> 'r lazySeeker \<Rightarrow> io_err option \<times> 'r lazySeeker" where
  "lazyClose closer s =
     (case closer of
        None \<Rightarrow> (None, s)
      | Some close \<Rightarrow> (case close (ls_reader s) of (err, r) \<Rightarrow> (err, s\<lparr> ls_reader := r \<rparr>)))"

text \<open>The seeker over \<open>r\<close>, as \<^verbatim>\<open>serveFile\<close> makes it.\<close>

definition newLazySeeker :: "'r \<Rightarrow> 64 word \<Rightarrow> 'r lazySeeker" where
  "newLazySeeker r fileSize = \<lparr> ls_reader = r, ls_size = fileSize, ls_offset = 0, ls_realOffset = 0 \<rparr>"


section \<open>A lazy seeker is a seeker\<close>

text \<open>\<open>lazyGet\<close> is \<open>lazyRead\<close> where it returns; over a file that keeps its promises it always does.\<close>

definition lazyGet :: "'r seekOp \<Rightarrow> 'r readOp \<Rightarrow> 'r lazySeeker readOp" where
  "lazyGet seek readN n s =
     (case lazyRead seek readN n s of Some x \<Rightarrow> x | None \<Rightarrow> (([], Some (IoFailed ''no return'')), s))"

context read_seeker
begin

definition lazyOk :: "'r lazySeeker \<Rightarrow> bool" where
  "lazyOk s \<longleftrightarrow> ok (ls_reader s) \<and> ls_realOffset s = pos (ls_reader s) \<and>
     ls_size s = of_nat (length (content (ls_reader s))) \<and> 0 \<le> sint (ls_offset s)"

lemma seekLoop_stops:
  assumes "lazyOk s"
  shows "\<exists>err s'. seekLoop seek s = Some (err, s') \<and> ls_size s' = ls_size s \<and> ls_offset s' = ls_offset s \<and>
    ok (ls_reader s') \<and> content (ls_reader s') = content (ls_reader s) \<and>
    (err = None \<longrightarrow> ls_realOffset s' = ls_offset s \<and> pos (ls_reader s') = ls_offset s)"
proof (cases "ls_offset s = ls_realOffset s")
  case True
  with assms show ?thesis by (subst seekLoop.simps) (simp add: lazyOk_def)
next
  case False
  obtain off res r where sk: "seek (ls_offset s) (ls_reader s) = ((off, res), r)" by (metis prod.collapse)
  from assms have o: "ok (ls_reader s)" and nn: "0 \<le> sint (ls_offset s)" by (simp_all add: lazyOk_def)
  have r: "ok r" "content r = content (ls_reader s)" using seek_ok [OF o, of "ls_offset s"] sk by simp_all
  show ?thesis
  proof (cases res)
    case (Some err)
    with False sk r show ?thesis by (subst seekLoop.simps) simp
  next
    case None
    with sk have "seek (ls_offset s) (ls_reader s) = ((off, None), r)" by simp
    from seek_pos [OF o nn this] have "off = ls_offset s" "pos r = ls_offset s" by simp_all
    with False sk None r show ?thesis by (subst seekLoop.simps, subst seekLoop.simps) simp
  qed
qed

lemma lazyRead_returns:
  assumes s: "lazyOk s"
  shows "\<exists>bs err s'. lazyRead seek readN n s = Some ((bs, err), s') \<and>
    ok (ls_reader s') \<and> content (ls_reader s') = content (ls_reader s) \<and> ls_size s' = ls_size s \<and>
    length bs \<le> n \<and> bs = take (length bs) (drop (unat (ls_offset s)) (content (ls_reader s))) \<and>
    ls_offset s' = ls_offset s + of_nat (length bs) \<and>
    (0 < n \<longrightarrow> unat (ls_offset s) < length (content (ls_reader s)) \<longrightarrow> bs \<noteq> [] \<or> err \<noteq> None)"
proof (cases "sint (ls_size s) \<le> sint (ls_offset s)")
  case True
  have len: "length (content (ls_reader s)) < 2 ^ 63" using s fits by (simp add: lazyOk_def)
  have sz: "unat (ls_size s) = length (content (ls_reader s))" using s len by (simp add: lazyOk_def unat_of_nat)
  have "int (unat (ls_size s)) \<le> int (unat (ls_offset s))"
    using True s len sz by (auto simp: lazyOk_def sint_unat64 split: if_splits)
  with sz show ?thesis using True s by (auto simp: lazyRead_def lazyOk_def)
next
  case False
  obtain err s1 where sl: "seekLoop seek s = Some (err, s1)" "ls_size s1 = ls_size s" "ls_offset s1 = ls_offset s"
    "ok (ls_reader s1)" "content (ls_reader s1) = content (ls_reader s)"
    "err = None \<longrightarrow> ls_realOffset s1 = ls_offset s \<and> pos (ls_reader s1) = ls_offset s"
    using seekLoop_stops [OF s] by blast
  show ?thesis
  proof (cases err)
    case (Some e)
    with False sl show ?thesis by (simp add: lazyRead_def)
  next
    case None
    obtain bs er r where rd: "readN n (ls_reader s1) = ((bs, er), r)" by (metis prod.collapse)
    from read_bytes [OF sl(4) rd] read_progress [OF sl(4) rd] read_ok [OF sl(4), of n] rd None False sl
    show ?thesis by (simp add: lazyRead_def)
  qed
qed

end

section \<open>Equivalence with seeking at once\<close>

datatype seekerOp = OpSeek "64 word" whence | OpRead nat
datatype seekerOut = OutSeek "64 word" "io_err option" | OutRead string "io_err option"

text \<open>The reference: \<^verbatim>\<open>bytes.Reader\<close> used directly, every seek moving it.\<close>

fun memSeekFrom :: "64 word \<Rightarrow> whence \<Rightarrow> memReader \<Rightarrow> (64 word \<times> io_err option) \<times> memReader" where
  "memSeekFrom off SeekStart r = memSeek off r"
| "memSeekFrom off SeekCurrent r = memSeek (mr_i r + off) r"
| "memSeekFrom off SeekEnd r = memSeek (of_nat (length (mr_s r)) + off) r"
| "memSeekFrom off (SeekOther w) r = ((0, Some BytesInvalidWhence), r)"

text \<open>
  The two name the errors of a seek differently, and beside such an error \<^verbatim>\<open>bytes.Reader\<close> returns 0
  where the lazy seeker returns its position; \<open>inLazyWords\<close> translates.
\<close>

fun inLazyWords :: "whence \<Rightarrow> 64 word \<Rightarrow> 64 word \<times> io_err option \<Rightarrow> seekerOut" where
  "inLazyWords w position (off, None) = OutSeek off None"
| "inLazyWords w position (off, Some err) =
     OutSeek position (Some (case w of SeekOther n \<Rightarrow> InvalidWhence n | _ \<Rightarrow> InvalidSeekOffset))"

fun directRun :: "seekerOp list \<Rightarrow> memReader \<Rightarrow> seekerOut list" where
  "directRun [] r = []"
| "directRun (OpSeek off w # ops) r =
     (case memSeekFrom off w r of (res, r') \<Rightarrow> inLazyWords w (mr_i r) res # directRun ops r')"
| "directRun (OpRead n # ops) r = (case memRead n r of ((bs, err), r') \<Rightarrow> OutRead bs err # directRun ops r')"

fun lazyRun :: "seekerOp list \<Rightarrow> memReader lazySeeker \<Rightarrow> seekerOut list option" where
  "lazyRun [] s = Some []"
| "lazyRun (OpSeek off w # ops) s =
     (case lazySeek off w s of ((off', err), s') \<Rightarrow> map_option (Cons (OutSeek off' err)) (lazyRun ops s'))"
| "lazyRun (OpRead n # ops) s =
     (case lazyRead memSeek memRead n s of
        None \<Rightarrow> None
      | Some ((bs, err), s') \<Rightarrow> map_option (Cons (OutRead bs err)) (lazyRun ops s'))"

definition sameView :: "memReader lazySeeker \<Rightarrow> memReader \<Rightarrow> bool" where
  "sameView s r \<longleftrightarrow> mem.lazyOk s \<and> mr_s (ls_reader s) = mr_s r \<and> ls_offset s = mr_i r"

lemma sameView_facts:
  assumes "sameView s r"
  shows "length (mr_s r) < 2 ^ 63" "ls_size s = of_nat (length (mr_s r))" "0 \<le> sint (mr_i r)" "unat (mr_i r) < 2 ^ 63"
proof -
  have f: "memOk r \<and> ls_size s = of_nat (length (mr_s r)) \<and> 0 \<le> sint (mr_i r)"
    using assms unfolding sameView_def mem.lazyOk_def memOk_def by metis
  then show "length (mr_s r) < 2 ^ 63" "ls_size s = of_nat (length (mr_s r))" "0 \<le> sint (mr_i r)"
    unfolding memOk_def by blast+
  have "int (unat (mr_i r)) < 2 ^ 64" using uint_bounded [of "mr_i r"] by simp
  with f sint_unat64 [of "mr_i r"] show "unat (mr_i r) < 2 ^ 63" by (metis diff_ge_0_iff_ge linorder_not_less)
qed

lemma sameView_real: "sameView s r \<Longrightarrow> ls_realOffset s = mr_i (ls_reader s) \<and> mr_s (ls_reader s) = mr_s r \<and> ls_offset s = mr_i r"
  unfolding sameView_def mem.lazyOk_def by blast

lemma sameView_seek:
  assumes "sameView s r"
  shows "OutSeek (fst (fst (lazySeek off w s))) (snd (fst (lazySeek off w s))) = inLazyWords w (mr_i r) (fst (memSeekFrom off w r)) \<and>
    sameView (snd (lazySeek off w s)) (snd (memSeekFrom off w r))"
proof -
  have "ls_size s = of_nat (length (mr_s r))" "ls_offset s = mr_i r" using sameView_facts(2) sameView_real assms by blast+
  moreover have "sameView (s\<lparr> ls_offset := o' \<rparr>) (r\<lparr> mr_i := o' \<rparr>)" if "\<not> sint o' < 0" for o'
    using assms that by (simp add: sameView_def mem.lazyOk_def)
  ultimately show ?thesis using assms by (cases w) (simp_all add: memSeek_def)
qed

lemma seekLoop_mem:
  assumes "sameView s r"
  shows "seekLoop memSeek s = Some (None, s\<lparr> ls_reader := r, ls_realOffset := mr_i r \<rparr>)"
proof (cases "ls_offset s = ls_realOffset s")
  case True
  have "ls_reader s = r" using sameView_real [OF assms] True by (cases r; cases "ls_reader s") auto
  moreover have "ls_realOffset s = mr_i r" using sameView_real [OF assms] True by metis
  ultimately show ?thesis using True by (subst seekLoop.simps) simp
next
  case False
  have "memSeek (ls_offset s) (ls_reader s) = ((mr_i r, None), r)"
    using assms sameView_facts(3) [OF assms] by (cases r; cases "ls_reader s") (auto simp: sameView_def memSeek_def)
  with False sameView_real [OF assms] show ?thesis
    by (subst seekLoop.simps, subst seekLoop.simps) simp
qed

lemma sameView_read:
  assumes v: "sameView s r"
  shows "\<exists>bs err s' r'. lazyRead memSeek memRead n s = Some ((bs, err), s') \<and> memRead n r = ((bs, err), r') \<and> sameView s' r'"
proof (cases "length (mr_s r) \<le> unat (mr_i r)")
  case True
  have "unat (ls_size s) = length (mr_s r)" using sameView_facts [OF v] by (simp add: unat_of_nat64)
  then have "sint (ls_size s) \<le> sint (ls_offset s)"
    using True sameView_facts [OF v] sameView_real [OF v] by (simp only: sint_unat64 of_nat_le_iff if_True)
  with True v show ?thesis by (simp add: lazyRead_def memRead_def)
next
  case False
  let ?bs = "take n (drop (unat (mr_i r)) (mr_s r))"
  have sz: "unat (ls_size s) = length (mr_s r)" using sameView_facts [OF v] by (simp add: unat_of_nat64)
  have lt: "\<not> sint (ls_size s) \<le> sint (ls_offset s)"
    using False sz sameView_facts [OF v] sameView_real [OF v]
    by (simp only: sint_unat64 of_nat_le_iff if_True simp_thms)
  have "unat (mr_i r) + length ?bs \<le> length (mr_s r)" using False by simp
  then have "unat (mr_i r + of_nat (length ?bs)) \<le> length (mr_s r)"
    using sameView_facts(1) [OF v] by (simp add: unat_word_ariths unat_of_nat)
  then have "0 \<le> sint (mr_i r + of_nat (length ?bs))"
    using sameView_facts(1) [OF v] sint_unat64 [of "mr_i r + of_nat (length ?bs)"] by (simp del: length_take)
  moreover obtain e: "memOk r" "ls_size s = of_nat (length (mr_s r))" "mr_s (ls_reader s) = mr_s r" "ls_offset s = mr_i r"
    using v sameView_facts [OF v] sameView_real [OF v] unfolding memOk_def by blast
  ultimately have "sameView (s\<lparr> ls_reader := r\<lparr> mr_i := mr_i r + of_nat (length ?bs) \<rparr>,
      ls_realOffset := mr_i r + of_nat (length ?bs), ls_offset := mr_i r + of_nat (length ?bs) \<rparr>)
      (r\<lparr> mr_i := mr_i r + of_nat (length ?bs) \<rparr>)"
    by (simp add: sameView_def mem.lazyOk_def memOk_def del: length_take)
  moreover have "lazyRead memSeek memRead n s = Some ((?bs, None), s\<lparr> ls_reader := r\<lparr> mr_i := mr_i r + of_nat (length ?bs) \<rparr>,
      ls_realOffset := mr_i r + of_nat (length ?bs), ls_offset := mr_i r + of_nat (length ?bs) \<rparr>)"
    using False lt e by (simp add: lazyRead_def seekLoop_mem [OF v] memRead_def Let_def del: length_take)
  moreover have "memRead n r = ((?bs, None), r\<lparr> mr_i := mr_i r + of_nat (length ?bs) \<rparr>)"
    using False by (simp add: memRead_def Let_def)
  ultimately show ?thesis by blast
qed

lemma lazyRun_eq: "sameView s r \<Longrightarrow> lazyRun ops s = Some (directRun ops r)"
proof (induction ops arbitrary: s r)
  case (Cons op ops)
  show ?case
  proof (cases op)
    case (OpSeek off w)
    with sameView_seek [OF Cons.prems, of off w] Cons.IH show ?thesis
      by (cases "lazySeek off w s"; cases "fst (lazySeek off w s)"; cases "memSeekFrom off w r") simp
  next
    case (OpRead n)
    obtain bs err s' r' where "lazyRead memSeek memRead n s = Some ((bs, err), s')" "memRead n r = ((bs, err), r')" "sameView s' r'"
      using sameView_read [OF Cons.prems] by blast
    with OpRead Cons.IH show ?thesis by simp
  qed
qed simp

text \<open>
  C33. A lazy seeker over a \<^verbatim>\<open>bytes.Reader\<close>, as for a file in memory: any sequence of seeks (from
  the start, the end or where one is, out of bounds or not, with an unknown whence) and reads gives
  the same offsets, bytes and ends of file as seeking the reader at once, and every read returns.
  A seek that fails fails in both; only the text of its error and the offset beside it differ, as
  \<open>inLazyWords\<close> says: the lazy seeker gives its own texts and its position, the reader gives 0.
  Over a file that refuses to be positioned the lazy seeker is different: it accepts the seek,
  without touching the file, and the error of the file comes with the next read before the end,
  which returns no bytes.
\<close>

theorem lazy_seeker_equals_file:
  fixes rd :: "'r readOp"
  shows "(length c < 2 ^ 63 \<longrightarrow>
      lazyRun ops (newLazySeeker \<lparr> mr_s = c, mr_i = 0 \<rparr> (of_nat (length c))) = Some (directRun ops \<lparr> mr_s = c, mr_i = 0 \<rparr>)) \<and>
    (sk off (ls_reader s) = ((o', Some err), r) \<and> off \<noteq> ls_realOffset s \<and> 0 \<le> sint off \<and> sint off < sint (ls_size s) \<longrightarrow>
      lazySeek off SeekStart s = ((off, None), s\<lparr> ls_offset := off \<rparr>) \<and>
      lazyRead sk rd n (s\<lparr> ls_offset := off \<rparr>) = Some (([], Some err), s\<lparr> ls_offset := off, ls_reader := r \<rparr>))"
proof (intro conjI impI)
  assume "length c < 2 ^ 63"
  then show "lazyRun ops (newLazySeeker \<lparr> mr_s = c, mr_i = 0 \<rparr> (of_nat (length c))) = Some (directRun ops \<lparr> mr_s = c, mr_i = 0 \<rparr>)"
    by (intro lazyRun_eq) (simp add: sameView_def mem.lazyOk_def memOk_def newLazySeeker_def)
next
  assume a: "sk off (ls_reader s) = ((o', Some err), r) \<and> off \<noteq> ls_realOffset s \<and> 0 \<le> sint off \<and> sint off < sint (ls_size s)"
  then show "lazySeek off SeekStart s = ((off, None), s\<lparr> ls_offset := off \<rparr>)" by simp
  have "seekLoop sk (s\<lparr> ls_offset := off \<rparr>) = Some (Some err, s\<lparr> ls_offset := off, ls_reader := r \<rparr>)"
    using a by (subst seekLoop.simps) simp
  then show "lazyRead sk rd n (s\<lparr> ls_offset := off \<rparr>) = Some (([], Some err), s\<lparr> ls_offset := off, ls_reader := r \<rparr>)"
    using a by (simp add: lazyRead_def)
qed

text \<open>
  The first run is that of the end of \<^verbatim>\<open>TestLazySeeker\<close>, with an unknown whence after it; the second
  the end of \<^verbatim>\<open>TestLazySeekerError\<close>, after everything was read.
\<close>

theorem lazy_seeker_equals_file_witness:
  "lazyRun [OpSeek 0 SeekStart, OpRead 1, OpSeek 1 SeekCurrent, OpRead 1, OpSeek (- 100) SeekCurrent, OpSeek 0 (SeekOther 7), OpSeek (- 1) SeekEnd, OpRead 9, OpRead 1]
     (newLazySeeker \<lparr> mr_s = ''fubar'', mr_i = 0 \<rparr> (of_nat (length ''fubar''))) =
     Some [OutSeek 0 None, OutRead ''f'' None, OutSeek 2 None, OutRead ''b'' None, OutSeek 3 (Some InvalidSeekOffset),
       OutSeek 3 (Some (InvalidWhence 7)), OutSeek 4 None, OutRead ''r'' None, OutRead [] (Some IoEOF)] \<and>
   (let badSeek = (\<lambda>off r. ((mr_i r, Some (IoFailed ''bad seeker'')), r));
        s = \<lparr> ls_reader = \<lparr> mr_s = ''fubar'', mr_i = 5 \<rparr>, ls_size = 5, ls_offset = 5, ls_realOffset = 5 \<rparr>
    in fst (lazySeek 0 SeekStart s) = (0, None) \<and>
       map_option fst (lazyRead badSeek memRead 8 (snd (lazySeek 0 SeekStart s))) = Some ([], Some (IoFailed ''bad seeker'')))"
proof -
  let ?ops = "[OpSeek 0 SeekStart, OpRead 1, OpSeek 1 SeekCurrent, OpRead 1, OpSeek (- 100) SeekCurrent, OpSeek 0 (SeekOther 7), OpSeek (- 1) SeekEnd, OpRead 9, OpRead 1]"
  let ?bad = "\<lambda>off r. ((mr_i r, Some (IoFailed ''bad seeker'')), r)"
  let ?s = "\<lparr> ls_reader = \<lparr> mr_s = ''fubar'', mr_i = 5 \<rparr>, ls_size = 5, ls_offset = 5, ls_realOffset = 5 \<rparr>"
  have "directRun ?ops \<lparr> mr_s = ''fubar'', mr_i = 0 \<rparr> =
      [OutSeek 0 None, OutRead ''f'' None, OutSeek 2 None, OutRead ''b'' None, OutSeek 3 (Some InvalidSeekOffset),
       OutSeek 3 (Some (InvalidWhence 7)), OutSeek 4 None, OutRead ''r'' None, OutRead [] (Some IoEOF)]"
    by (simp add: memSeek_def memRead_def sint_unat64 Let_def)
  moreover have "length ''fubar'' < 2 ^ 63" by simp
  moreover have "?bad (0::64 word) (ls_reader ?s) = ((5, Some (IoFailed ''bad seeker'')), ls_reader ?s) \<and> (0::64 word) \<noteq> ls_realOffset ?s
      \<and> 0 \<le> sint (0::64 word) \<and> sint (0::64 word) < sint (ls_size ?s)"
    by (simp add: sint_unat64)
  ultimately show ?thesis
    using lazy_seeker_equals_file [where c = "''fubar''" and ops = ?ops and sk = ?bad and off = 0 and s = ?s and n = 8 and rd = memRead]
    by (simp add: Let_def)
qed

end
