(* ===== verification/TarFormat.thy ===== *)
theory TarFormat
  imports LazySeek "HOL-Library.Sublist"
begin

text \<open>
  \<^verbatim>\<open>tar/format.go\<close>: a tar archive is stored as a tree, one node per entry with the header of the
  entry as its data and the content under the link \<^verbatim>\<open>data\<close>, and read back as a stream.

  \<^item> The nodes, fetching and editing them, chunking, and the readers of files are third-party
    code: the records \<open>tarEnv\<close> and \<open>importEnv\<close>.
  \<^item> \<open>tarReader\<close> has the fields of the source; \<open>tarRead\<close> is its \<^verbatim>\<open>Read\<close> into a buffer of \<open>k\<close>
    bytes.  A reader over a header is what is left of the header.
\<close>

section \<open>Reading\<close>

datatype 'l tarNode = TarProto string "'l list" | TarOther

datatype 'n dataRes = NoSuchLink | LinkFailed string | LinkedNode 'n

record ('l, 'r) tarEnv =
  tarGetNode :: "'l \<Rightarrow> string + 'l tarNode"
  getLinkedProto :: "'l tarNode \<Rightarrow> 'l tarNode dataRes"
  newDagReader :: "'l tarNode \<Rightarrow> string + 'r"
  dagRead :: "'r readOp"

datatype ('l, 'r) tarReader =
  TarReader (trLinks: "'l list") (childRead: "('l, 'r) tarReader option") (hdrBuf: "string option")
    (fileRead: "('r \<times> nat) option") (trPad: nat)

definition blockSize :: nat where "blockSize = 512"

definition padOf :: "nat \<Rightarrow> nat" where
  "padOf nr = (blockSize - nr mod blockSize) mod blockSize"

definition bufRead :: "string readOp" where
  "bufRead k h = (if h = [] then (([], Some IoEOF), h) else ((take k h, None), drop k h))"

text \<open>The next link: its header is to be read, and after it the content, or the entries below it.\<close>

definition nextLink :: "('l, 'r) tarEnv \<Rightarrow> 'l \<Rightarrow> 'l list \<Rightarrow> io_err option \<times> ('l, 'r) tarReader" where
  "nextLink env l ls =
     (case tarGetNode env l of
        Inl err \<Rightarrow> (Some (IoFailed err), TarReader ls None None None 0)
      | Inr TarOther \<Rightarrow> (Some (IoFailed ''expected protobuf dag node''), TarReader ls None None None 0)
      | Inr (TarProto hdat below) \<Rightarrow>
          (case getLinkedProto env (TarProto hdat below) of
             LinkFailed err \<Rightarrow> (Some (IoFailed err), TarReader ls None (Some hdat) None 0)
           | NoSuchLink \<Rightarrow>
               (None, TarReader ls (if below \<noteq> [] then Some (TarReader below None None None 0) else None) (Some hdat) None 0)
           | LinkedNode dn \<Rightarrow>
               (case newDagReader env dn of
                  Inl err \<Rightarrow> (Some (IoFailed err), TarReader ls None (Some hdat) None 0)
                | Inr r \<Rightarrow> (None, TarReader ls None (Some hdat) (Some (r, 0)) 0))))"

definition readHeader :: "nat \<Rightarrow> ('l, 'r) tarReader \<Rightarrow> string \<Rightarrow> (string \<times> io_err option) \<times> ('l, 'r) tarReader" where
  "readHeader k tr h =
     (case bufRead k h of
        ((bs, Some IoEOF), _) \<Rightarrow> ((bs, None), TarReader (trLinks tr) (childRead tr) None (fileRead tr) (trPad tr))
      | ((bs, err), h') \<Rightarrow> ((bs, err), TarReader (trLinks tr) (childRead tr) (Some h') (fileRead tr) (trPad tr)))"

definition readFile :: "('l, 'r) tarEnv \<Rightarrow> nat \<Rightarrow> ('l, 'r) tarReader \<Rightarrow> 'r \<Rightarrow> nat \<Rightarrow> (string \<times> io_err option) \<times> ('l, 'r) tarReader" where
  "readFile env k tr r n =
     (case dagRead env k r of
        ((bs, e), r') \<Rightarrow>
          if e = Some IoEOF then ((bs, None), TarReader (trLinks tr) (childRead tr) (hdrBuf tr) None (padOf (n + length bs)))
          else ((bs, e), TarReader (trLinks tr) (childRead tr) (hdrBuf tr) (Some (r', n + length bs)) (trPad tr)))"

fun tarRead :: "('l, 'r) tarEnv \<Rightarrow> nat \<Rightarrow> ('l, 'r) tarReader \<Rightarrow> (string \<times> io_err option) \<times> ('l, 'r) tarReader" where
  "tarRead env k (TarReader ls ch (Some h) fr pd) = readHeader k (TarReader ls ch (Some h) fr pd) h"
| "tarRead env k (TarReader ls (Some c) None fr pd) =
     (case tarRead env k c of
        ((bs, e), c') \<Rightarrow>
          if e = Some IoEOF then ((bs, None), TarReader ls None None fr pd)
          else ((bs, e), TarReader ls (Some c') None fr pd))"
| "tarRead env k (TarReader ls None None (Some (r, n)) pd) = readFile env k (TarReader ls None None (Some (r, n)) pd) r n"
| "tarRead env k (TarReader ls None None None pd) =
     (if pd > 0 then
        ((replicate (min k pd) (CHR 0x00), None), TarReader ls None None None (pd - min k pd))
      else case ls of
        [] \<Rightarrow> (([], Some IoEOF), TarReader ls None None None pd)
      | l # ls' \<Rightarrow>
          (case nextLink env l ls' of
             (Some err, tr) \<Rightarrow> (([], Some err), tr)
           | (None, tr) \<Rightarrow> readHeader k tr (case hdrBuf tr of Some h \<Rightarrow> h | None \<Rightarrow> [])))"

definition ExportTar :: "string \<Rightarrow> 'l list \<Rightarrow> string + ('l, 'r) tarReader" where
  "ExportTar rootData links =
     (if rootData \<noteq> ''ipfs/tar'' then Inl ''not an IPFS tarchive'' else Inr (TarReader links None None None 0))"

text \<open>A client that reads into buffers of the sizes \<open>ks\<close> until a read gives an error.\<close>

fun readLoop :: "'s readOp \<Rightarrow> nat list \<Rightarrow> 's \<Rightarrow> string \<times> io_err option" where
  "readLoop rd [] s = ([], None)"
| "readLoop rd (k # ks) s =
     (case rd k s of
        ((bs, Some err), s') \<Rightarrow> (bs, Some err)
      | ((bs, None), s') \<Rightarrow> (case readLoop rd ks s' of (bs', e) \<Rightarrow> (bs @ bs', e)))"

section \<open>Storing\<close>

record tarEntry =
  teName :: string
  teSize :: int
  teHeader :: "string + string"
  teBody :: string

text \<open>\<open>splitList\<close> and \<open>joinList\<close> are \<^verbatim>\<open>SplitList\<close> and \<^verbatim>\<open>Join\<close> of go-path; \<open>'n\<close> are nodes, \<open>'e\<close> is
  the editor.\<close>

record ('n, 'e) importEnv =
  splitList :: "string \<Rightarrow> string list"
  joinList :: "string list \<Rightarrow> string"
  buildDag :: "string \<Rightarrow> string + 'n"
  headerNode :: "string \<Rightarrow> 'n"
  addNodeLink :: "string \<Rightarrow> 'n \<Rightarrow> 'n \<Rightarrow> string + 'n"
  storeNode :: "'n \<Rightarrow> string option"
  insertNodeAt :: "'e \<Rightarrow> string \<Rightarrow> 'n \<Rightarrow> string + 'e"
  finalizeEdit :: "'e \<Rightarrow> string + 'n"

definition escapePath :: "('n, 'e) importEnv \<Rightarrow> string \<Rightarrow> string" where
  "escapePath env pth = joinList env (map ((#) (CHR ''-'')) (splitList env (trimBy (\<lambda>c. c = CHR ''/'') pth)))"

definition importEntry :: "('n, 'e) importEnv \<Rightarrow> 'e \<Rightarrow> tarEntry \<Rightarrow> string + 'e" where
  "importEntry env e h =
     bindS (teHeader h) (\<lambda>headerBytes.
     bindS (if teSize h > 0 then
              bindS (buildDag env (teBody h)) (\<lambda>nd. addNodeLink env ''data'' nd (headerNode env headerBytes))
            else Inr (headerNode env headerBytes)) (\<lambda>header.
     bindS (case storeNode env header of Some err \<Rightarrow> Inl err | None \<Rightarrow> Inr ()) (\<lambda>_.
       insertNodeAt env e (escapePath env (teName h)) header)))"

text \<open>The archive is the list of its entries and the error that ends it, if any.\<close>

fun importLoop :: "('n, 'e) importEnv \<Rightarrow> 'e \<Rightarrow> tarEntry list \<Rightarrow> string option \<Rightarrow> string + 'e" where
  "importLoop env e [] (Some err) = Inl err"
| "importLoop env e [] None = Inr e"
| "importLoop env e (h # hs) r = bindS (importEntry env e h) (\<lambda>e'. importLoop env e' hs r)"

definition ImportTar :: "('n, 'e) importEnv \<Rightarrow> (string \<Rightarrow> 'e) \<Rightarrow> tarEntry list \<Rightarrow> string option \<Rightarrow> string + 'n" where
  "ImportTar env newEditor hs r = bindS (importLoop env (newEditor ''ipfs/tar'') hs r) (finalizeEdit env)"

section \<open>Byte streams\<close>

text \<open>
  The interface of a reader that has \<open>R\<close> left and returns it within \<open>N\<close> reads into buffers that
  are not empty.
\<close>

locale byte_stream =
  fixes readN :: "'s readOp"
    and left :: "'s \<Rightarrow> string \<Rightarrow> nat \<Rightarrow> bool"
  assumes read_left: "left s R N \<Longrightarrow> readN k s = ((bs, e), s') \<Longrightarrow>
    (e = Some IoEOF \<and> bs = [] \<and> R = []) \<or>
    (e = None \<and> length bs \<le> k \<and> (\<exists>R' N'. R = bs @ R' \<and> left s' R' N' \<and> N' \<le> N \<and> (0 < k \<longrightarrow> N' < N)))"
begin

lemma loop_reads_what_is_left:
  "left s R N \<Longrightarrow> readLoop readN ks s = (bs, e) \<Longrightarrow> (e = None \<and> prefix bs R) \<or> (e = Some IoEOF \<and> bs = R)"
proof (induction ks arbitrary: s R N bs)
  case (Cons k ks)
  obtain b e1 s1 where one: "readN k s = ((b, e1), s1)" by (metis prod.exhaust)
  from read_left[OF Cons.prems(1) one] show ?case
  proof
    assume "e1 = Some IoEOF \<and> b = [] \<and> R = []"
    then show ?thesis using Cons.prems(2) one by simp
  next
    assume next1: "e1 = None \<and> length b \<le> k \<and> (\<exists>R' N'. R = b @ R' \<and> left s1 R' N' \<and> N' \<le> N \<and> (0 < k \<longrightarrow> N' < N))"
    then obtain R' N' where r: "R = b @ R'" "left s1 R' N'" by auto
    obtain bs' where "readLoop readN ks s1 = (bs', e)" "bs = b @ bs'"
      using Cons.prems(2) one next1 by (auto split: prod.splits)
    then show ?thesis using Cons.IH[OF r(2)] r(1) by auto
  qed
qed simp

lemma loop_ends:
  "left s R N \<Longrightarrow> \<forall>k\<in>set ks. 0 < k \<Longrightarrow> N < length ks \<Longrightarrow> snd (readLoop readN ks s) \<noteq> None"
proof (induction ks arbitrary: s R N)
  case (Cons k ks)
  obtain b e1 s1 where one: "readN k s = ((b, e1), s1)" by (metis prod.exhaust)
  show ?case
  proof (cases e1)
    case None
    then obtain R' N' where "left s1 R' N'" "N' < N"
      using read_left[OF Cons.prems(1) one] Cons.prems(2) by auto
    then have "snd (readLoop readN ks s1) \<noteq> None"
      using Cons.prems by (intro Cons.IH) auto
    then show ?thesis using one None by (cases "readLoop readN ks s1") auto
  qed (use one in simp)
qed simp

end

text \<open>A header, read from its buffer.\<close>

interpretation header: byte_stream bufRead "\<lambda>h R N. h = R \<and> length h \<le> N"
proof
  fix s R N k bs e s'
  assume "s = R \<and> length s \<le> N" and "bufRead k s = ((bs, e), s')"
  then show "(e = Some IoEOF \<and> bs = [] \<and> R = []) \<or>
    (e = None \<and> length bs \<le> k \<and> (\<exists>R' N'. R = bs @ R' \<and> (s' = R' \<and> length s' \<le> N') \<and> N' \<le> N \<and> (0 < k \<longrightarrow> N' < N)))"
    by (cases s) (auto simp: bufRead_def intro!: exI[of _ "length (drop k s)"])
qed

section \<open>What an archive is\<close>

text \<open>The reader of a file: it may say that the file ends with its last bytes.\<close>

definition fileLaw :: "('l, 'r) tarEnv \<Rightarrow> ('r \<Rightarrow> string) \<Rightarrow> bool" where
  "fileLaw env content = (\<forall>k r bs e r'. dagRead env k r = ((bs, e), r') \<longrightarrow>
     length bs \<le> k \<and> content r = bs @ content r' \<and>
     (e = None \<and> (0 < k \<longrightarrow> bs \<noteq> []) \<or> e = Some IoEOF \<and> content r' = []))"

text \<open>
  The archive of a list of links: for each one its header, and either its content filled up with
  zeros to a multiple of the block size, or the archive of the links below it.  The last argument
  bounds the reads that it takes.
\<close>

abbreviation zeros :: "nat \<Rightarrow> string" where
  "zeros n \<equiv> replicate n (CHR 0x00)"

definition padded :: "string \<Rightarrow> string" where
  "padded c = c @ zeros (padOf (length c))"

inductive tarOf :: "('l, 'r) tarEnv \<Rightarrow> ('r \<Rightarrow> string) \<Rightarrow> 'l list \<Rightarrow> string \<Rightarrow> nat \<Rightarrow> bool" for env content where
  endTar: "tarOf env content [] [] 0"
| fileTar: "tarGetNode env l = Inr (TarProto hdat below) \<Longrightarrow> getLinkedProto env (TarProto hdat below) = LinkedNode dn \<Longrightarrow>
    newDagReader env dn = Inr r \<Longrightarrow> tarOf env content ls R N \<Longrightarrow>
    tarOf env content (l # ls) (hdat @ padded (content r) @ R) (length hdat + 1 + (length (padded (content r)) + 1) + N)"
| dirTar: "tarGetNode env l = Inr (TarProto hdat below) \<Longrightarrow> getLinkedProto env (TarProto hdat below) = NoSuchLink \<Longrightarrow>
    tarOf env content below D M \<Longrightarrow> tarOf env content ls R N \<Longrightarrow>
    tarOf env content (l # ls) (hdat @ D @ R) (length hdat + 1 + (if below = [] then 0 else M + 1) + N)"

text \<open>What a reader has left.\<close>

definition headerLeft :: "string option \<Rightarrow> string \<Rightarrow> nat \<Rightarrow> bool" where
  "headerLeft hb H n = (case hb of None \<Rightarrow> H = [] \<and> n = 0 | Some h \<Rightarrow> H = h \<and> n = length h + 1)"

definition fileLeft :: "('r \<Rightarrow> string) \<Rightarrow> ('r \<times> nat) option \<Rightarrow> nat \<Rightarrow> string \<Rightarrow> nat \<Rightarrow> bool" where
  "fileLeft content fr pd F n = (case fr of
      None \<Rightarrow> F = zeros pd \<and> n = pd
    | Some (r, m) \<Rightarrow> pd = 0 \<and> F = content r @ zeros (padOf (m + length (content r))) \<and> n = length F + 1)"

inductive tarLeft :: "('l, 'r) tarEnv \<Rightarrow> ('r \<Rightarrow> string) \<Rightarrow> ('l, 'r) tarReader \<Rightarrow> string \<Rightarrow> nat \<Rightarrow> bool" for env content where
  noChild: "headerLeft hb H n \<Longrightarrow> fileLeft content fr pd F f \<Longrightarrow> tarOf env content ls R N \<Longrightarrow>
    tarLeft env content (TarReader ls None hb fr pd) (H @ F @ R) (n + f + N)"
| inChild: "headerLeft hb H n \<Longrightarrow> tarLeft env content c D M \<Longrightarrow> tarOf env content ls R N \<Longrightarrow>
    tarLeft env content (TarReader ls (Some c) hb None 0) (H @ D @ R) (n + (M + 1) + N)"

inductive_cases tarLeft_noChildE: "tarLeft env content (TarReader ls None hb fr pd) S K"
inductive_cases tarLeft_inChildE: "tarLeft env content (TarReader ls (Some c) hb fr pd) S K"


text \<open>One read, in the shape of the interface.\<close>

definition readsOn :: "('s \<Rightarrow> string \<Rightarrow> nat \<Rightarrow> bool) \<Rightarrow> nat \<Rightarrow> string \<Rightarrow> nat \<Rightarrow> (string \<times> io_err option) \<times> 's \<Rightarrow> bool" where
  "readsOn left k R N x = (case x of ((bs, e), s') \<Rightarrow>
    (e = Some IoEOF \<and> bs = [] \<and> R = []) \<or>
    (e = None \<and> length bs \<le> k \<and> (\<exists>R' N'. R = bs @ R' \<and> left s' R' N' \<and> N' \<le> N \<and> (0 < k \<longrightarrow> N' < N))))"

lemma readsOnI: "left s' R' N' \<Longrightarrow> R = bs @ R' \<Longrightarrow> length bs \<le> k \<Longrightarrow> N' \<le> N \<Longrightarrow> (0 < k \<Longrightarrow> N' < N) \<Longrightarrow> readsOn left k R N ((bs, None), s')"
  by (auto simp: readsOn_def)

text \<open>Reading the header leaves the rest of it, in front of what follows.\<close>

lemma readHeader_left:
  assumes "\<And>hb H n. headerLeft hb H n \<Longrightarrow> tarLeft env content (TarReader ls ch hb fr pd) (H @ S) (n + K)"
  shows "readsOn (tarLeft env content) k (h @ S) (length h + 1 + K) (readHeader k (TarReader ls ch hb0 fr pd) h)"
proof (cases h)
  case Nil
  have "tarLeft env content (TarReader ls ch None fr pd) ([] @ S) (0 + K)"
    by (rule assms) (simp add: headerLeft_def)
  then show ?thesis using Nil by (auto simp: readHeader_def bufRead_def intro!: readsOnI)
next
  case (Cons a h')
  have "tarLeft env content (TarReader ls ch (Some (drop k h)) fr pd) (drop k h @ S) (length (drop k h) + 1 + K)"
    by (rule assms) (simp add: headerLeft_def)
  then show ?thesis using Cons
    by (auto simp: readHeader_def bufRead_def intro!: readsOnI[where R' = "drop k h @ S"] simp del: drop_Suc_Cons)
qed

lemma readFile_left:
  assumes law: "fileLaw env content" and rest: "tarOf env content ls R N"
    and open_file: "fileLeft content (Some (r, n)) pd F f"
  shows "readsOn (tarLeft env content) k (F @ R) (f + N) (readFile env k (TarReader ls None None (Some (r, n)) pd) r n)"
proof -
  obtain bs e r' where rd: "dagRead env k r = ((bs, e), r')" by (metis prod.exhaust)
  then have r: "length bs \<le> k" "content r = bs @ content r'" "e = None \<and> (0 < k \<longrightarrow> bs \<noteq> []) \<or> e = Some IoEOF \<and> content r' = []"
    using law by (auto simp: fileLaw_def)
  have none: "headerLeft None [] 0" by (simp add: headerLeft_def)
  from r(3) show ?thesis
  proof
    assume e: "e = None \<and> (0 < k \<longrightarrow> bs \<noteq> [])"
    define F' where "F' = content r' @ zeros (padOf (n + length bs + length (content r')))"
    have "tarLeft env content (TarReader ls None None (Some (r', n + length bs)) pd) ([] @ F' @ R) (0 + (length F' + 1) + N)"
      using open_file by (intro tarLeft.noChild none rest) (simp add: fileLeft_def F'_def)
    then show ?thesis
      using rd r(1,2) e open_file by (auto simp: readFile_def fileLeft_def F'_def add.assoc intro!: readsOnI)
  next
    assume e: "e = Some IoEOF \<and> content r' = []"
    have "tarLeft env content (TarReader ls None None None (padOf (n + length bs))) ([] @ zeros (padOf (n + length bs)) @ R) (0 + padOf (n + length bs) + N)"
      by (intro tarLeft.noChild none rest) (simp add: fileLeft_def)
    then show ?thesis
      using rd r(1,2) e open_file by (auto simp: readFile_def fileLeft_def intro!: readsOnI)
  qed
qed


text \<open>The next link leaves what its entry consists of, after a header that is not yet read.\<close>

lemma nextLink_left:
  assumes "tarOf env content (l # ls) S K"
  shows "\<exists>h ch fr T M. nextLink env l ls = (None, TarReader ls ch (Some h) fr 0) \<and> S = h @ T \<and> K = length h + 1 + M \<and>
    (\<forall>hb H n. headerLeft hb H n \<longrightarrow> tarLeft env content (TarReader ls ch hb fr 0) (H @ T) (n + M))"
  using assms
proof cases
  case (fileTar hdat below dn r R N)
  have "tarLeft env content (TarReader ls None hb (Some (r, 0)) 0) (H @ padded (content r) @ R) (n + (length (padded (content r)) + 1) + N)"
    if "headerLeft hb H n" for hb H n
    by (intro tarLeft.noChild that fileTar) (simp add: fileLeft_def padded_def)
  then show ?thesis
    using fileTar by (auto simp: nextLink_def add.assoc intro!: exI[of _ "padded (content r) @ R"] exI[of _ "length (padded (content r)) + 1 + N"])
next
  case (dirTar hdat below D M R N)
  show ?thesis
  proof (cases "below = []")
    case True
    with dirTar have "D = []" by (auto elim: tarOf.cases)
    have "tarLeft env content (TarReader ls None hb None 0) (H @ [] @ R) (n + 0 + N)" if "headerLeft hb H n" for hb H n
      by (intro tarLeft.noChild that dirTar) (simp add: fileLeft_def)
    then show ?thesis
      using dirTar True \<open>D = []\<close> by (auto simp: nextLink_def intro!: exI[of _ R])
  next
    case False
    have sub: "tarLeft env content (TarReader below None None None 0) ([] @ [] @ D) (0 + 0 + M)"
      by (intro tarLeft.noChild dirTar) (simp_all add: headerLeft_def fileLeft_def)
    have "tarLeft env content (TarReader ls (Some (TarReader below None None None 0)) hb None 0) (H @ D @ R) (n + (M + 1) + N)"
      if "headerLeft hb H n" for hb H n
      using tarLeft.inChild[OF that sub dirTar(6)] by simp
    then show ?thesis
      using dirTar False by (auto simp: nextLink_def add.assoc intro!: exI[of _ "D @ R"])
  qed
qed

lemma tarRead_left:
  assumes "tarLeft env content tr S K" and law: "fileLaw env content"
  shows "readsOn (tarLeft env content) k S K (tarRead env k tr)"
  using assms(1)
proof induction
  case (noChild hb H n fr pd F f ls R N)
  note left = tarLeft.noChild[OF _ noChild.hyps(2,3)]
  show ?case
  proof (cases hb)
    case (Some h)
    have "readsOn (tarLeft env content) k (h @ F @ R) (length h + 1 + (f + N)) (readHeader k (TarReader ls None hb fr pd) h)"
      using left by (intro readHeader_left) (simp add: add.assoc)
    then show ?thesis using Some noChild.hyps(1) by (simp add: headerLeft_def add.assoc)
  next
    case None
    then have H: "H = []" "n = 0" using noChild.hyps(1) by (simp_all add: headerLeft_def)
    show ?thesis
    proof (cases fr)
      case (Some rm)
      then show ?thesis
        using readFile_left[OF law noChild.hyps(3)] noChild.hyps(2) None H by (cases rm) simp
    next
      case fr: None
      show ?thesis
      proof (cases "pd > 0")
        case True
        have "tarLeft env content (TarReader ls None None None (pd - min k pd)) ([] @ zeros (pd - min k pd) @ R) (0 + (pd - min k pd) + N)"
          by (intro tarLeft.noChild noChild.hyps) (simp_all add: headerLeft_def fileLeft_def)
        then show ?thesis
          using True None fr H noChild.hyps(2)
          by (auto simp: fileLeft_def simp flip: replicate_add append_assoc intro!: readsOnI)
      next
        case False
        then have F: "F = []" "f = 0" "pd = 0" using noChild.hyps(2) fr by (simp_all add: fileLeft_def)
        show ?thesis
        proof (cases ls)
          case Nil
          then show ?thesis
            using noChild.hyps(3) None fr H F by (auto simp: readsOn_def elim: tarOf.cases)
        next
          case (Cons l ls')
          obtain h ch fr' T M where nl: "nextLink env l ls' = (None, TarReader ls' ch (Some h) fr' 0)" "R = h @ T" "N = length h + 1 + M"
            "\<And>hb H n. headerLeft hb H n \<Longrightarrow> tarLeft env content (TarReader ls' ch hb fr' 0) (H @ T) (n + M)"
            using nextLink_left[OF noChild.hyps(3)[unfolded Cons]] by blast
          show ?thesis
            using readHeader_left[OF nl(4), of k h "Some h"] nl(1,2,3) Cons None fr H F by simp
        qed
      qed
    qed
  qed
next
  case (inChild hb H n c D M ls R N)
  note left = tarLeft.inChild[OF _ inChild.hyps(2,3)]
  show ?case
  proof (cases hb)
    case (Some h)
    have "readsOn (tarLeft env content) k (h @ D @ R) (length h + 1 + (M + 1 + N)) (readHeader k (TarReader ls (Some c) hb None 0) h)"
      using left by (intro readHeader_left) (simp add: add.assoc)
    then show ?thesis using Some inChild.hyps(1) by (simp add: headerLeft_def add.assoc)
  next
    case None
    then have H: "H = []" "n = 0" using inChild.hyps(1) by (simp_all add: headerLeft_def)
    obtain bs e c' where rd: "tarRead env k c = ((bs, e), c')" by (metis prod.exhaust)
    have next_left: "tarLeft env content (TarReader ls None None None 0) ([] @ [] @ R) (0 + 0 + N)"
      by (intro tarLeft.noChild inChild.hyps) (simp_all add: headerLeft_def fileLeft_def)
    from inChild.IH rd consider "e = Some IoEOF" "bs = []" "D = []"
      | R' N' where "e = None" "length bs \<le> k" "D = bs @ R'" "tarLeft env content c' R' N'" "N' \<le> M" "0 < k \<longrightarrow> N' < M"
      by (auto simp: readsOn_def)
    then show ?thesis
    proof cases
      case 1
      then show ?thesis using rd None H next_left by (auto intro!: readsOnI)
    next
      case 2
      have "tarLeft env content (TarReader ls (Some c') None None 0) ([] @ R' @ R) (0 + (N' + 1) + N)"
        by (intro tarLeft.inChild 2 inChild.hyps) (simp add: headerLeft_def)
      then show ?thesis using 2 rd None H by (auto intro!: readsOnI)
    qed
  qed
qed

text \<open>So the reader of an archive is a stream, as the reader of a header is.\<close>

interpretation tar: byte_stream "tarRead env" "\<lambda>tr R N. fileLaw env content \<and> tarLeft env content tr R N" for env content
proof
  fix s R N k bs e s'
  assume "fileLaw env content \<and> tarLeft env content s R N" and "tarRead env k s = ((bs, e), s')"
  then show "(e = Some IoEOF \<and> bs = [] \<and> R = []) \<or>
    (e = None \<and> length bs \<le> k \<and> (\<exists>R' N'. R = bs @ R' \<and> (fileLaw env content \<and> tarLeft env content s' R' N') \<and> N' \<le> N \<and> (0 < k \<longrightarrow> N' < N)))"
    using tarRead_left[of env content s R N k] by (auto simp: readsOn_def)
qed

section \<open>The archive is what is read\<close>

text \<open>
  C13. Reading an exported archive gives the archive: whatever the sizes of the buffers, what has
  been read is a beginning of it; the end is reported exactly when all of it has been read, no other
  error occurs, and if the buffers are not empty the end is reached after a bounded number of reads.
\<close>

theorem exported_archive_is_read_in_full:
  assumes "fileLaw env content" and "tarOf env content links R N" and "ExportTar rootData links = Inr tr"
  shows "(\<forall>ks bs e. readLoop (tarRead env) ks tr = (bs, e) \<longrightarrow> (e = None \<and> prefix bs R) \<or> (e = Some IoEOF \<and> bs = R)) \<and>
    (\<forall>ks. (\<forall>k\<in>set ks. 0 < k) \<longrightarrow> N < length ks \<longrightarrow> readLoop (tarRead env) ks tr = (R, Some IoEOF))"
proof -
  have "tarLeft env content (TarReader links None None None 0) ([] @ [] @ R) (0 + 0 + N)"
    by (intro tarLeft.noChild assms(2)) (simp_all add: headerLeft_def fileLeft_def)
  then have left: "fileLaw env content \<and> tarLeft env content tr R N"
    using assms by (auto simp: ExportTar_def split: if_splits)
  have part: "readLoop (tarRead env) ks tr = (bs, e) \<Longrightarrow> (e = None \<and> prefix bs R) \<or> (e = Some IoEOF \<and> bs = R)" for ks bs e
    by (rule tar.loop_reads_what_is_left[OF left])
  moreover have "readLoop (tarRead env) ks tr = (R, Some IoEOF)" if "\<forall>k\<in>set ks. 0 < k" "N < length ks" for ks
    using part[of ks] tar.loop_ends[OF left that] by (cases "readLoop (tarRead env) ks tr") auto
  ultimately show ?thesis by blast
qed


text \<open>A file of three bytes takes a block; the rest of it is zeros.\<close>

definition sampleTar :: "(nat, string) tarEnv" where
  "sampleTar = \<lparr> tarGetNode = (\<lambda>_. Inr (TarProto ''h'' [])), getLinkedProto = (\<lambda>_. LinkedNode TarOther), newDagReader = (\<lambda>_. Inr ''abc''), dagRead = bufRead \<rparr>"

lemma sampleTar_law: "fileLaw sampleTar id"
  by (auto simp: fileLaw_def sampleTar_def bufRead_def split: if_splits)

lemma sampleTar_archive: "\<exists>N. tarOf sampleTar id [0] (''h'' @ padded ''abc'' @ []) N \<and> N < 600"
proof -
  have len: "length (padded ''abc'') = 512" by (simp add: padded_def padOf_def blockSize_def)
  have "tarOf sampleTar id [0] (''h'' @ padded (id ''abc'') @ []) (length ''h'' + 1 + (length (padded (id ''abc'')) + 1) + 0)"
    by (rule tarOf.fileTar[where below = "[]" and dn = TarOther]) (simp_all add: sampleTar_def tarOf.endTar)
  then show ?thesis using len by (intro exI[of _ "length ''h'' + 1 + (length (padded (id ''abc'')) + 1) + 0"]) simp
qed

theorem exported_archive_is_read_in_full_witness:
  "readLoop (tarRead sampleTar) (replicate 600 7) (TarReader [0] None None None 0) = (''h'' @ padded ''abc'', Some IoEOF)"
proof -
  obtain N where N: "tarOf sampleTar id [0] (''h'' @ padded ''abc'' @ []) N" "N < 600" using sampleTar_archive by blast
  show ?thesis
    using exported_archive_is_read_in_full[OF sampleTar_law N(1), of "''ipfs/tar''" "TarReader [0] None None None 0"] N(2)
    by (simp add: ExportTar_def)
qed

section \<open>Names in an archive\<close>

text \<open>
  With the paths of go-path, no element of an escaped name can be the link \<open>data\<close>, and different
  names stay different.
\<close>

lemma escaped_parts:
  assumes "splitList env = splitc (CHR ''/'')" and "joinList env = joinc ''/''"
  shows "splitc (CHR ''/'') (escapePath env pth) = map ((#) (CHR ''-'')) (splitc (CHR ''/'') (trimBy (\<lambda>c. c = CHR ''/'') pth))"
  unfolding escapePath_def assms by (rule splitc_joinc) (auto dest: splitc_parts_no_sep)

lemma escaped_names_avoid_data:
  assumes "splitList env = splitc (CHR ''/'')" and "joinList env = joinc ''/''"
  shows "''data'' \<notin> set (splitc (CHR ''/'') (escapePath env pth))"
  using escaped_parts[OF assms, of pth] by auto

lemma escaped_names_are_distinct:
  assumes "splitList env = splitc (CHR ''/'')" and "joinList env = joinc ''/''" and "escapePath env p = escapePath env q"
  shows "trimBy (\<lambda>c. c = CHR ''/'') p = trimBy (\<lambda>c. c = CHR ''/'') q"
proof -
  have "map ((#) (CHR ''-'')) (splitc (CHR ''/'') (trimBy (\<lambda>c. c = CHR ''/'') p)) =
      map ((#) (CHR ''-'')) (splitc (CHR ''/'') (trimBy (\<lambda>c. c = CHR ''/'') q))"
    using escaped_parts[OF assms(1,2)] assms(3) by metis
  then have "splitc (CHR ''/'') (trimBy (\<lambda>c. c = CHR ''/'') p) = splitc (CHR ''/'') (trimBy (\<lambda>c. c = CHR ''/'') q)"
    by (simp add: map_injective inj_def)
  then show ?thesis by (metis joinc_splitc)
qed

text \<open>An archive that ends in an error is not imported.\<close>

lemma importLoop_fails: "importLoop env e hs (Some err) = Inr e' \<Longrightarrow> False"
  by (induction hs arbitrary: e) (auto simp: bindS_eq_Inr)

end
