(* ===== verification/GoJson.thy ===== *)
theory GoJson
  imports GoPrelude
begin

text \<open>
  The JSON values that \<^verbatim>\<open>encoding/json\<close> hands to an unmarshaller and takes from a
  marshaller, as syntax trees: the raw bytes \<^verbatim>\<open>[]byte("null")\<close> are \<open>JNull\<close>, and so on.
  \<^item> \<open>JInt\<close> is a number literal without fraction and exponent, \<open>JFrac\<close> any other number
    literal (its text);
  \<^item> \<open>JBad\<close> is a byte string that is not a JSON value (\<^verbatim>\<open>undefined\<close>, the empty
    input, a truncated array): \<^verbatim>\<open>json.Unmarshal\<close> refuses it with a syntax error, but
    code that looks at the bytes itself sees it;
  \<^item> \<open>JObj\<close> is a \<^verbatim>\<open>map[string]interface{}\<close>.
  \<^item> \<open>JStr\<close> has the bytes of a string; they need not be UTF-8, but \<^verbatim>\<open>encoding/json\<close> replaces
    what is not, when it writes a string and when it reads one (\<open>coerceUTF8\<close>).
  White space around a value and the escaping of characters inside strings belong to the
  byte syntax and are not represented.
\<close>

datatype json =
    JNull
  | JBool bool
  | JInt int
  | JFrac string
  | JStr string
  | JArr "json list"
  | JObj "string \<Rightarrow> json option"
  | JBad string

datatype json_err = SyntaxError | UnmarshalTypeError

type_synonym i64 = "64 word"

section \<open>UTF-8\<close>

text \<open>
  \<^verbatim>\<open>unicode/utf8\<close>: the length of the encoding that a first byte of 128 or more announces, with
  the range of the second byte; no length for a byte that starts no encoding.
\<close>

definition utf8First :: "nat \<Rightarrow> nat \<times> nat \<times> nat" where
  "utf8First x =
     (if 194 \<le> x \<and> x \<le> 223 then (2, 128, 191)
      else if x = 224 then (3, 160, 191)
      else if x = 237 then (3, 128, 159)
      else if 225 \<le> x \<and> x \<le> 239 then (3, 128, 191)
      else if x = 240 then (4, 144, 191)
      else if 241 \<le> x \<and> x \<le> 243 then (4, 128, 191)
      else if x = 244 then (4, 128, 143)
      else (0, 0, 0))"

definition continues :: "char \<Rightarrow> bool" where
  "continues c \<longleftrightarrow> 128 \<le> (of_char c :: nat) \<and> (of_char c :: nat) \<le> 191"

text \<open>The length of the encoded character at the start of a string, 0 if there is none.\<close>

fun utf8Len :: "string \<Rightarrow> nat" where
  "utf8Len [] = 0"
| "utf8Len (a # bs) =
     (if (of_char a :: nat) < 128 then 1
      else case utf8First (of_char a) of
        (n, lo, hi) \<Rightarrow>
          if n = 0 \<or> length bs < n - 1 then 0
          else if lo \<le> (of_char (hd bs) :: nat) \<and> (of_char (hd bs) :: nat) \<le> hi \<and> list_all continues (take (n - 1) bs)
          then n else 0)"

fun validUTF8 :: "string \<Rightarrow> bool" where
  "validUTF8 [] = True"
| "validUTF8 (c # cs) = (case utf8Len (c # cs) of 0 \<Rightarrow> False | Suc n \<Rightarrow> validUTF8 (drop n cs))"

text \<open>The replacement character U+FFFD, and the string in which it stands for each bad byte.\<close>

definition runeError :: string where
  "runeError = [char_of (239::nat), char_of (191::nat), char_of (189::nat)]"

fun coerceUTF8 :: "string \<Rightarrow> string" where
  "coerceUTF8 [] = []"
| "coerceUTF8 (c # cs) =
     (case utf8Len (c # cs) of
        0 \<Rightarrow> runeError @ coerceUTF8 cs
      | Suc n \<Rightarrow> c # take n cs @ coerceUTF8 (drop n cs))"

lemma utf8Len_bound: "utf8Len s \<le> length s"
proof (cases s)
  case (Cons a bs)
  have "n = 0 \<or> 0 < n" for n :: nat by auto
  then show ?thesis using Cons by (auto split: prod.splits)
qed simp

lemma utf8Len_prefix:
  assumes "utf8Len (c # cs) = Suc n"
  shows "utf8Len (c # take n cs @ t) = Suc n"
proof (cases "(of_char c :: nat) < 128")
  case True
  with assms show ?thesis by simp
next
  case False
  obtain m lo hi where f: "utf8First (of_char c) = (m, lo, hi)" by (cases "utf8First (of_char c)")
  from assms False f have m: "m = Suc n" "n \<le> length cs" "lo \<le> (of_char (hd cs) :: nat)" "(of_char (hd cs) :: nat) \<le> hi"
      "list_all continues (take n cs)"
    by (auto split: if_splits)
  have "n \<noteq> 0" using f m(1) by (auto simp: utf8First_def split: if_splits)
  then have h: "hd (take n cs @ t) = hd cs" using m(2) by (cases cs; cases n) simp_all
  have "take n (take n cs @ t) = take n cs" using m(2) by (simp add: min_def)
  then show ?thesis using False f m h by simp
qed

lemma utf8Len_runeError: "utf8Len (runeError @ t) = 3"
  by (simp add: runeError_def utf8First_def continues_def numeral_2_eq_2)

lemma coerceUTF8_valid: "validUTF8 (coerceUTF8 s)"
proof (induction s rule: coerceUTF8.induct)
  case (2 c cs)
  show ?case
  proof (cases "utf8Len (c # cs)")
    case 0
    have "validUTF8 (runeError @ coerceUTF8 cs) = validUTF8 (coerceUTF8 cs)"
      using utf8Len_runeError [of "coerceUTF8 cs"] unfolding runeError_def
      by (simp del: utf8Len.simps add: numeral_3_eq_3)
    with 0 2(1) show ?thesis by (simp del: utf8Len.simps)
  next
    case (Suc n)
    have l: "n \<le> length cs" using utf8Len_bound [of "c # cs"] Suc by (simp del: utf8Len.simps)
    have "validUTF8 (c # take n cs @ coerceUTF8 (drop n cs)) = validUTF8 (coerceUTF8 (drop n cs))"
      using utf8Len_prefix [OF Suc] l by (simp del: utf8Len.simps)
    with Suc 2(2) show ?thesis by (simp del: utf8Len.simps)
  qed
qed simp

lemma coerceUTF8_id: "validUTF8 s \<Longrightarrow> coerceUTF8 s = s"
proof (induction s rule: coerceUTF8.induct)
  case (2 c cs)
  then show ?case by (cases "utf8Len (c # cs)") (simp_all del: utf8Len.simps)
qed simp

lemma coerceUTF8_eq: "coerceUTF8 s = s \<longleftrightarrow> validUTF8 s"
  using coerceUTF8_id coerceUTF8_valid by metis

lemma coerceUTF8_twice [simp]: "coerceUTF8 (coerceUTF8 s) = coerceUTF8 s"
  by (rule coerceUTF8_id) (rule coerceUTF8_valid)

lemma coerceUTF8_Nil [simp]: "coerceUTF8 s = [] \<longleftrightarrow> s = []"
  by (cases s) (simp_all add: runeError_def del: utf8Len.simps split: nat.split)

text \<open>The texts of the configuration's own words are ASCII.\<close>

lemma validUTF8_ascii: "(\<forall>c \<in> set s. (of_char c :: nat) < 128) \<Longrightarrow> validUTF8 s"
  by (induction s) simp_all

section \<open>Values\<close>

text \<open>
  \<^verbatim>\<open>json.Unmarshal\<close> into a fresh \<^verbatim>\<open>string\<close>, \<^verbatim>\<open>int64\<close> or \<^verbatim>\<open>[]string\<close> variable.
  A null leaves the variable at its zero value.
\<close>

fun jsonToString :: "json \<Rightarrow> json_err + string" where
  "jsonToString (JStr s) = Inr (coerceUTF8 s)"
| "jsonToString JNull = Inr []"
| "jsonToString (JBad _) = Inl SyntaxError"
| "jsonToString _ = Inl UnmarshalTypeError"

fun jsonToInt64 :: "json \<Rightarrow> json_err + i64" where
  "jsonToInt64 (JInt i) =
     (if - (2 ^ 63) \<le> i \<and> i < 2 ^ 63 then Inr (word_of_int i) else Inl UnmarshalTypeError)"
| "jsonToInt64 JNull = Inr 0"
| "jsonToInt64 (JBad _) = Inl SyntaxError"
| "jsonToInt64 _ = Inl UnmarshalTypeError"

fun jsonElems :: "json list \<Rightarrow> json_err + string list" where
  "jsonElems [] = Inr []"
| "jsonElems (j # js) = bindS (jsonToString j) (\<lambda>s. bindS (jsonElems js) (\<lambda>ss. Inr (s # ss)))"

fun jsonToStrings :: "json \<Rightarrow> json_err + string list" where
  "jsonToStrings (JArr js) = jsonElems js"
| "jsonToStrings JNull = Inr []"
| "jsonToStrings (JBad _) = Inl SyntaxError"
| "jsonToStrings _ = Inl UnmarshalTypeError"

text \<open>\<^verbatim>\<open>json.Marshal\<close> of an \<^verbatim>\<open>int64\<close>, of a \<^verbatim>\<open>string\<close> and of a \<^verbatim>\<open>[]string\<close>.\<close>

definition int64ToJson :: "i64 \<Rightarrow> json" where
  "int64ToJson w = JInt (sint w)"

definition stringToJson :: "string \<Rightarrow> json" where
  "stringToJson s = JStr (coerceUTF8 s)"

definition stringsToJson :: "string list \<Rightarrow> json" where
  "stringsToJson ss = JArr (map stringToJson ss)"

lemma sint64_range: "- (2 ^ 63) \<le> sint (w :: i64) \<and> sint w < 2 ^ 63"
  using sint_ge [of w] sint_lt [of w] by simp

lemma jsonToInt64_int64ToJson [simp]: "jsonToInt64 (int64ToJson w) = Inr w"
  using sint64_range [of w] by (simp add: int64ToJson_def)

lemma jsonToString_stringToJson [simp]: "jsonToString (stringToJson s) = Inr (coerceUTF8 s)"
  by (simp add: stringToJson_def)

lemma jsonElems_map [simp]: "jsonElems (map stringToJson ss) = Inr (map coerceUTF8 ss)"
  by (induction ss) simp_all

end
