(* ===== verification/ConfigTypes.thy ===== *)
theory ConfigTypes
  imports GoJson
begin

text \<open>
  \<^verbatim>\<open>config/types.go\<close>: the configuration file's helper types.  \<^verbatim>\<open>Strings\<close> (one string or
  a list of them), \<^verbatim>\<open>Flag\<close> (a ternary \<^verbatim>\<open>int8\<close>), \<^verbatim>\<open>Priority\<close> (an \<^verbatim>\<open>int64\<close> with two
  special values), \<^verbatim>\<open>OptionalInteger\<close> and \<^verbatim>\<open>OptionalString\<close>: their marshalling, their
  defaults and their text.  A pointer receiver \<^verbatim>\<open>*T\<close> is a \<open>T option\<close> (nil is \<open>None\<close>), a
  receiver that unmarshals returns its new value.  \<^verbatim>\<open>OptionalDuration\<close> and \<^verbatim>\<open>Duration\<close>
  are modelled up to the text format of durations, which is not.
\<close>

datatype cfg_err =
    JsonErr json_err
  | InvalidFlagValue int
  | NotAFlag json
  | InvalidPriorityValue int
  | TrueIsNoPriority
  | PriorityNotPositive int
  | PanicIndexOutOfRange
  | PanicInvalidFlag int
  | PanicInvalidPriority int

definition liftJ :: "json_err + 'a \<Rightarrow> cfg_err + 'a" where
  "liftJ r = map_sum JsonErr id r"

lemma liftJ_simps [simp]: "liftJ (Inl e) = Inl (JsonErr e)" "liftJ (Inr a) = Inr a"
  by (simp_all add: liftJ_def)

section \<open>Strings\<close>

type_synonym Strings = "string list"

text \<open>The first byte decides: an array is read as a list, anything else as one string.\<close>

fun startsWithBracket :: "json \<Rightarrow> bool" where
  "startsWithBracket (JArr _) = True"
| "startsWithBracket (JBad (c # _)) = (c = CHR ''['')"
| "startsWithBracket _ = False"

definition Strings_UnmarshalJSON :: "json \<Rightarrow> cfg_err + Strings" where
  "Strings_UnmarshalJSON data =
     (if data = JBad [] then Inl PanicIndexOutOfRange
      else if startsWithBracket data then liftJ (jsonToStrings data)
      else bindS (liftJ (jsonToString data))
             (\<lambda>value. if length value = 0 then Inr [] else Inr [value]))"

definition Strings_MarshalJSON :: "Strings \<Rightarrow> cfg_err + json" where
  "Strings_MarshalJSON ss =
     (case ss of [] \<Rightarrow> Inr JNull
      | [s] \<Rightarrow> Inr (stringToJson s)
      | _ \<Rightarrow> Inr (stringsToJson ss))"

section \<open>Flag\<close>

type_synonym Flag = "8 word"

definition FlagFalse :: Flag where "FlagFalse = - 1"
definition FlagDefault :: Flag where "FlagDefault = 0"
definition FlagTrue :: Flag where "FlagTrue = 1"

lemmas Flag_consts = FlagFalse_def FlagDefault_def FlagTrue_def

definition Flag_valid :: "Flag \<Rightarrow> bool" where
  "Flag_valid f \<longleftrightarrow> f = FlagFalse \<or> f = FlagDefault \<or> f = FlagTrue"

definition Flag_WithDefault :: "Flag \<Rightarrow> bool \<Rightarrow> cfg_err + bool" where
  "Flag_WithDefault f defaultValue =
     (if f = FlagFalse then Inr False
      else if f = FlagDefault then Inr defaultValue
      else if f = FlagTrue then Inr True
      else Inl (PanicInvalidFlag (sint f)))"

definition Flag_MarshalJSON :: "Flag \<Rightarrow> cfg_err + json" where
  "Flag_MarshalJSON f =
     (if f = FlagDefault then Inr JNull
      else if f = FlagTrue then Inr (JBool True)
      else if f = FlagFalse then Inr (JBool False)
      else Inl (InvalidFlagValue (sint f)))"

fun Flag_UnmarshalJSON :: "json \<Rightarrow> cfg_err + Flag" where
  "Flag_UnmarshalJSON JNull = Inr FlagDefault"
| "Flag_UnmarshalJSON (JBool False) = Inr FlagFalse"
| "Flag_UnmarshalJSON (JBool True) = Inr FlagTrue"
| "Flag_UnmarshalJSON input = Inl (NotAFlag input)"

definition Flag_String :: "Flag \<Rightarrow> string" where
  "Flag_String f =
     (if f = FlagDefault then ''default''
      else if f = FlagTrue then ''true''
      else if f = FlagFalse then ''false''
      else ''<invalid flag value '' @ decInt (sint f) @ ''>'')"

section \<open>Priority\<close>

type_synonym Priority = i64

definition DefaultPriority :: Priority where "DefaultPriority = 0"
definition Disabled :: Priority where "Disabled = - 1"

lemmas Priority_consts = DefaultPriority_def Disabled_def

definition Priority_valid :: "Priority \<Rightarrow> bool" where
  "Priority_valid p \<longleftrightarrow> - 1 \<le> sint p"

text \<open>The two results are the priority and whether the transport is enabled.\<close>

definition Priority_WithDefault :: "Priority \<Rightarrow> Priority \<Rightarrow> cfg_err + int \<times> bool" where
  "Priority_WithDefault p defaultPriority =
     (if p = Disabled then Inr (0, False)
      else if p = DefaultPriority then
        (if defaultPriority = Disabled then Inr (0, False)
         else if defaultPriority = DefaultPriority then Inr (0, True)
         else if sint defaultPriority \<le> 0 then Inl (PanicInvalidPriority (sint defaultPriority))
         else Inr (sint defaultPriority, True))
      else if sint p \<le> 0 then Inl (PanicInvalidPriority (sint p))
      else Inr (sint p, True))"

definition Priority_MarshalJSON :: "Priority \<Rightarrow> cfg_err + json" where
  "Priority_MarshalJSON p =
     (if 0 < sint p then Inr (int64ToJson p)
      else if p = DefaultPriority then Inr JNull
      else if p = Disabled then Inr (JBool False)
      else Inl (InvalidPriorityValue (sint p)))"

text \<open>
  \<^verbatim>\<open>undefined\<close> is not JSON; it can only come from a direct call.
\<close>

definition Priority_UnmarshalJSON :: "json \<Rightarrow> cfg_err + Priority" where
  "Priority_UnmarshalJSON input =
     (if input = JNull \<or> input = JBad ''undefined'' then Inr DefaultPriority
      else if input = JBool False then Inr Disabled
      else if input = JBool True then Inl TrueIsNoPriority
      else bindS (liftJ (jsonToInt64 input))
             (\<lambda>priority. if sint priority \<le> 0 then Inl (PriorityNotPositive (sint priority))
                         else Inr priority))"

definition Priority_String :: "Priority \<Rightarrow> string" where
  "Priority_String p =
     (if 0 < sint p then decInt (sint p)
      else if p = DefaultPriority then ''default''
      else if p = Disabled then ''false''
      else ''<invalid priority '' @ decInt (sint p) @ ''>'')"

section \<open>OptionalDuration, up to the text of durations\<close>

record OptionalDuration =
  od_value :: "i64 option"

definition NewOptionalDuration :: "i64 \<Rightarrow> OptionalDuration" where
  "NewOptionalDuration d = \<lparr>od_value = Some d\<rparr>"

definition OptionalDuration_IsDefault :: "OptionalDuration option \<Rightarrow> bool" where
  "OptionalDuration_IsDefault d =
     (case d of None \<Rightarrow> True | Some d' \<Rightarrow> od_value d' = None)"

definition OptionalDuration_WithDefault :: "OptionalDuration option \<Rightarrow> i64 \<Rightarrow> i64" where
  "OptionalDuration_WithDefault d defaultValue =
     (case d of None \<Rightarrow> defaultValue
      | Some d' \<Rightarrow> (case od_value d' of None \<Rightarrow> defaultValue | Some v \<Rightarrow> v))"

section \<open>OptionalInteger\<close>

record OptionalInteger =
  oi_value :: "i64 option"

definition OptionalInteger_WithDefault :: "OptionalInteger option \<Rightarrow> i64 \<Rightarrow> i64" where
  "OptionalInteger_WithDefault p defaultValue =
     (case p of None \<Rightarrow> defaultValue
      | Some p' \<Rightarrow> (case oi_value p' of None \<Rightarrow> defaultValue | Some v \<Rightarrow> v))"

definition OptionalInteger_IsDefault :: "OptionalInteger option \<Rightarrow> bool" where
  "OptionalInteger_IsDefault p =
     (case p of None \<Rightarrow> True | Some p' \<Rightarrow> oi_value p' = None)"

definition OptionalInteger_MarshalJSON :: "OptionalInteger \<Rightarrow> cfg_err + json" where
  "OptionalInteger_MarshalJSON p =
     (case oi_value p of Some v \<Rightarrow> Inr (int64ToJson v) | None \<Rightarrow> Inr JNull)"

definition OptionalInteger_UnmarshalJSON :: "json \<Rightarrow> cfg_err + OptionalInteger" where
  "OptionalInteger_UnmarshalJSON input =
     (if input = JNull \<or> input = JBad ''undefined'' then Inr \<lparr>oi_value = None\<rparr>
      else bindS (liftJ (jsonToInt64 input)) (\<lambda>value. Inr \<lparr>oi_value = Some value\<rparr>))"

text \<open>
  The verb \<^verbatim>\<open>%d\<close> is given the field \<^verbatim>\<open>p.value\<close>, a pointer, so what is printed is the
  address \<open>addr\<close> it holds.
\<close>

definition OptionalInteger_String :: "nat \<Rightarrow> OptionalInteger \<Rightarrow> string" where
  "OptionalInteger_String addr p =
     (case oi_value p of None \<Rightarrow> ''default'' | Some v \<Rightarrow> decNat addr)"

section \<open>OptionalString\<close>

record OptionalString =
  os_value :: "string option"

definition NewOptionalString :: "string \<Rightarrow> OptionalString" where
  "NewOptionalString s = \<lparr>os_value = Some s\<rparr>"

definition OptionalString_WithDefault :: "OptionalString option \<Rightarrow> string \<Rightarrow> string" where
  "OptionalString_WithDefault p defaultValue =
     (case p of None \<Rightarrow> defaultValue
      | Some p' \<Rightarrow> (case os_value p' of None \<Rightarrow> defaultValue | Some v \<Rightarrow> v))"

definition OptionalString_IsDefault :: "OptionalString option \<Rightarrow> bool" where
  "OptionalString_IsDefault p =
     (case p of None \<Rightarrow> True | Some p' \<Rightarrow> os_value p' = None)"

definition OptionalString_MarshalJSON :: "OptionalString \<Rightarrow> cfg_err + json" where
  "OptionalString_MarshalJSON p =
     (case os_value p of Some v \<Rightarrow> Inr (stringToJson v) | None \<Rightarrow> Inr JNull)"

definition OptionalString_UnmarshalJSON :: "json \<Rightarrow> cfg_err + OptionalString" where
  "OptionalString_UnmarshalJSON input =
     (if input = JNull \<or> input = JBad ''undefined'' then Inr \<lparr>os_value = None\<rparr>
      else bindS (liftJ (jsonToString input)) (\<lambda>value. Inr \<lparr>os_value = Some value\<rparr>))"

definition OptionalString_String :: "OptionalString \<Rightarrow> string" where
  "OptionalString_String p = (case os_value p of None \<Rightarrow> ''default'' | Some v \<Rightarrow> v)"

section \<open>The codecs\<close>

text \<open>Each helper type meets the interface of a configuration value on its valid values.\<close>

lemma sint_neg_one64: "sint p = - 1 \<Longrightarrow> p = (- 1 :: i64)"
  by (rule signed_word_eqI [where ?'a = int]) simp

lemma sint_zero64: "sint p = 0 \<Longrightarrow> p = (0 :: i64)"
  by (rule signed_word_eqI [where ?'a = int]) simp

lemma Priority_valid_cases:
  "Priority_valid p \<Longrightarrow> p = Disabled \<or> p = DefaultPriority \<or> 0 < sint p"
proof -
  assume "Priority_valid p"
  then have "sint p = - 1 \<or> sint p = 0 \<or> 0 < sint p"
    unfolding Priority_valid_def by linarith
  then show ?thesis
    by (auto simp: Priority_consts dest: sint_neg_one64 sint_zero64)
qed

lemma json_of_int_facts:
  "int64ToJson w \<noteq> JNull" "int64ToJson w \<noteq> JBool b" "int64ToJson w \<noteq> JBad t"
  by (simp_all add: int64ToJson_def)

interpretation flag_codec: codec Flag_MarshalJSON Flag_UnmarshalJSON Flag_valid
  by unfold_locales (auto simp: Flag_valid_def Flag_MarshalJSON_def Flag_consts split: if_splits)

interpretation priority_codec: codec Priority_MarshalJSON Priority_UnmarshalJSON Priority_valid
proof unfold_locales
  fix x
  assume "Priority_valid x"
  then have x: "x = Disabled \<or> x = DefaultPriority \<or> 0 < sint x"
    by (rule Priority_valid_cases)
  then show "isOk (Priority_MarshalJSON x)"
    by (auto simp: Priority_MarshalJSON_def Priority_consts)
  fix b
  assume "Priority_MarshalJSON x = Inr b"
  with x show "Priority_UnmarshalJSON b = Inr x"
    by (auto simp: Priority_MarshalJSON_def Priority_UnmarshalJSON_def Priority_consts
        json_of_int_facts split: if_splits)
qed

interpretation integer_codec:
  codec OptionalInteger_MarshalJSON OptionalInteger_UnmarshalJSON "\<lambda>_. True"
  by unfold_locales
    (auto simp: OptionalInteger_MarshalJSON_def OptionalInteger_UnmarshalJSON_def
      json_of_int_facts split: option.splits)

text \<open>What is not UTF-8 does not come back as it was.\<close>

definition OptionalString_valid :: "OptionalString \<Rightarrow> bool" where
  "OptionalString_valid p = (case os_value p of None \<Rightarrow> True | Some v \<Rightarrow> validUTF8 v)"

lemma OptionalString_round_trip:
  "bindS (OptionalString_MarshalJSON p) OptionalString_UnmarshalJSON = Inr (p\<lparr>os_value := map_option coerceUTF8 (os_value p)\<rparr>)"
  by (cases p) (auto simp: OptionalString_MarshalJSON_def OptionalString_UnmarshalJSON_def stringToJson_def split: option.splits)

interpretation string_codec:
  codec OptionalString_MarshalJSON OptionalString_UnmarshalJSON OptionalString_valid
proof unfold_locales
  fix p
  show "isOk (OptionalString_MarshalJSON p)"
    by (simp add: OptionalString_MarshalJSON_def split: option.split)
  fix b
  assume "OptionalString_valid p" "OptionalString_MarshalJSON p = Inr b"
  then show "OptionalString_UnmarshalJSON b = Inr p"
    using OptionalString_round_trip [of p]
    by (cases p) (auto simp: OptionalString_valid_def coerceUTF8_id split: option.splits)
qed

text \<open>A one-element list holding the empty string is the other value \<^verbatim>\<open>Strings\<close> cannot carry.\<close>

definition Strings_valid :: "Strings \<Rightarrow> bool" where
  "Strings_valid ss \<longleftrightarrow> ss \<noteq> [[]] \<and> list_all validUTF8 ss"

lemma Strings_round_trip:
  "bindS (Strings_MarshalJSON ss) Strings_UnmarshalJSON = Inr (if ss = [[]] then [] else map coerceUTF8 ss)"
  by (auto simp: Strings_MarshalJSON_def Strings_UnmarshalJSON_def stringsToJson_def stringToJson_def jsonElems_map [unfolded stringToJson_def]
      split: list.splits)

lemma Strings_MarshalJSON_ok: "isOk (Strings_MarshalJSON ss)"
  by (simp add: Strings_MarshalJSON_def split: list.split)

lemma map_coerceUTF8_id: "list_all validUTF8 ss \<Longrightarrow> map coerceUTF8 ss = ss"
  by (induction ss) (simp_all add: coerceUTF8_id)

interpretation strings_codec: codec Strings_MarshalJSON Strings_UnmarshalJSON Strings_valid
proof unfold_locales
  fix ss
  show "isOk (Strings_MarshalJSON ss)" by (rule Strings_MarshalJSON_ok)
  fix b
  assume "Strings_valid ss" "Strings_MarshalJSON ss = Inr b"
  then show "Strings_UnmarshalJSON b = Inr ss"
    using Strings_round_trip [of ss] by (simp add: Strings_valid_def map_coerceUTF8_id)
qed

section \<open>Properties\<close>

lemma Flag_UnmarshalJSON_valid: "Flag_UnmarshalJSON j = Inr f \<Longrightarrow> Flag_valid f"
  by (cases j rule: Flag_UnmarshalJSON.cases) (auto simp: Flag_valid_def)

lemma Priority_UnmarshalJSON_valid: "Priority_UnmarshalJSON j = Inr p \<Longrightarrow> Priority_valid p"
  by (auto simp: Priority_UnmarshalJSON_def Priority_valid_def Priority_consts bindS_eq_Inr
      split: if_splits)

lemma Priority_WithDefault_valid:
  assumes "Priority_valid p" and "Priority_valid d"
  shows "\<exists>n e. Priority_WithDefault p d = Inr (n, e) \<and> 0 \<le> n \<and> (\<not> e \<longrightarrow> n = 0)"
proof -
  have distinct: "DefaultPriority \<noteq> Disabled" by (simp add: Priority_consts)
  have pos: "sint q \<noteq> 0 \<and> q \<noteq> Disabled \<and> q \<noteq> DefaultPriority" if "0 < sint q" for q
    using that by (force simp: Priority_consts)
  consider "p = Disabled" | "p = DefaultPriority" "d = Disabled"
    | "p = DefaultPriority" "d = DefaultPriority" | "p = DefaultPriority" "0 < sint d"
    | "0 < sint p"
    using Priority_valid_cases [OF assms(1)] Priority_valid_cases [OF assms(2)] by metis
  then show ?thesis
  proof cases
    case 4
    with distinct show ?thesis using pos [of d] by (intro exI) (auto simp: Priority_WithDefault_def)
  next
    case 5
    then show ?thesis using pos [of p] by (intro exI) (auto simp: Priority_WithDefault_def)
  qed (insert distinct, auto simp: Priority_WithDefault_def)
qed

text \<open>
  C39. Writing a configuration value and reading it back is the identity on the valid
  values, and the error of the marshaller on the others: \<^verbatim>\<open>Flag\<close> and \<^verbatim>\<open>Priority\<close>
  values outside their range are refused when written.  Strings come back as they were if they
  are UTF-8, and exactly then: of others each bad byte comes back as the replacement character
  (which is UTF-8, so nothing more is lost by writing it again).  \<^verbatim>\<open>Strings\<close> loses besides
  exactly the list of one empty string (read back as the empty list).
\<close>

theorem config_values_round_trip:
  "bindS (Flag_MarshalJSON f) Flag_UnmarshalJSON =
     (if Flag_valid f then Inr f else Inl (InvalidFlagValue (sint f))) \<and>
   bindS (Priority_MarshalJSON p) Priority_UnmarshalJSON =
     (if Priority_valid p then Inr p else Inl (InvalidPriorityValue (sint p))) \<and>
   bindS (OptionalInteger_MarshalJSON n) OptionalInteger_UnmarshalJSON = Inr n \<and>
   bindS (OptionalString_MarshalJSON t) OptionalString_UnmarshalJSON = Inr (t\<lparr>os_value := map_option coerceUTF8 (os_value t)\<rparr>) \<and>
   bindS (Strings_MarshalJSON ss) Strings_UnmarshalJSON = Inr (if ss = [[]] then [] else map coerceUTF8 ss) \<and>
   (bindS (OptionalString_MarshalJSON t) OptionalString_UnmarshalJSON = Inr t \<longleftrightarrow> OptionalString_valid t) \<and>
   (bindS (Strings_MarshalJSON ss) Strings_UnmarshalJSON = Inr ss \<longleftrightarrow> Strings_valid ss) \<and>
   validUTF8 (coerceUTF8 s)"
proof (intro conjI)
  show "bindS (Flag_MarshalJSON f) Flag_UnmarshalJSON =
     (if Flag_valid f then Inr f else Inl (InvalidFlagValue (sint f)))"
    by (auto simp: Flag_MarshalJSON_def Flag_valid_def)
  show "bindS (Priority_MarshalJSON p) Priority_UnmarshalJSON =
     (if Priority_valid p then Inr p else Inl (InvalidPriorityValue (sint p)))"
  proof (cases "Priority_valid p")
    case True
    then show ?thesis
      using priority_codec.enc_ok [of p] priority_codec.dec_enc [of p] by (auto simp: isOk_iff)
  next
    case False
    then show ?thesis
      by (auto simp: Priority_MarshalJSON_def Priority_valid_def Priority_consts)
  qed
  show "bindS (OptionalInteger_MarshalJSON n) OptionalInteger_UnmarshalJSON = Inr n"
    using integer_codec.enc_ok [of n] integer_codec.dec_enc [of n] by (auto simp: isOk_iff)
  show "bindS (OptionalString_MarshalJSON t) OptionalString_UnmarshalJSON = Inr (t\<lparr>os_value := map_option coerceUTF8 (os_value t)\<rparr>)"
    by (rule OptionalString_round_trip)
  show "bindS (Strings_MarshalJSON ss) Strings_UnmarshalJSON = Inr (if ss = [[]] then [] else map coerceUTF8 ss)"
    by (rule Strings_round_trip)
  show "bindS (OptionalString_MarshalJSON t) OptionalString_UnmarshalJSON = Inr t \<longleftrightarrow> OptionalString_valid t"
    unfolding OptionalString_round_trip
    by (cases t) (auto simp: OptionalString_valid_def coerceUTF8_eq split: option.split)
  have eq: "map coerceUTF8 ss = ss \<longleftrightarrow> list_all validUTF8 ss"
    by (induction ss) (simp_all add: coerceUTF8_eq)
  show "bindS (Strings_MarshalJSON ss) Strings_UnmarshalJSON = Inr ss \<longleftrightarrow> Strings_valid ss"
    unfolding Strings_round_trip using eq by (auto simp: Strings_valid_def)
  show "validUTF8 (coerceUTF8 s)" by (rule coerceUTF8_valid)
qed

text \<open>
  A value that came out of the configuration file never makes the accessors panic: the
  unmarshallers accept only values on which \<^verbatim>\<open>WithDefault\<close> is defined, whatever (also
  unmarshalled) default is supplied, and a priority resolved that way is never negative.
\<close>

theorem unmarshalled_values_never_panic:
  assumes "Flag_UnmarshalJSON j = Inr f"
    and "Priority_UnmarshalJSON k = Inr p" and "Priority_UnmarshalJSON l = Inr d"
  shows "(\<exists>b. Flag_WithDefault f a = Inr b) \<and>
    (\<exists>n e. Priority_WithDefault p d = Inr (n, e) \<and> 0 \<le> n \<and> (\<not> e \<longrightarrow> n = 0))"
proof
  show "\<exists>b. Flag_WithDefault f a = Inr b"
    using Flag_UnmarshalJSON_valid [OF assms(1)]
    by (auto simp: Flag_WithDefault_def Flag_valid_def)
  have "Priority_valid p" and "Priority_valid d"
    using assms(2,3) by (auto dest: Priority_UnmarshalJSON_valid)
  then show "\<exists>n e. Priority_WithDefault p d = Inr (n, e) \<and> 0 \<le> n \<and> (\<not> e \<longrightarrow> n = 0)"
    by (rule Priority_WithDefault_valid)
qed

theorem unmarshalled_values_never_panic_witness:
  "Flag_UnmarshalJSON JNull = Inr FlagDefault \<and>
   Priority_UnmarshalJSON (JInt 7) = Inr 7 \<and> Priority_UnmarshalJSON JNull = Inr DefaultPriority \<and>
   (\<exists>b. Flag_WithDefault FlagDefault True = Inr b) \<and>
   (\<exists>n e. Priority_WithDefault 7 DefaultPriority = Inr (n, e) \<and> 0 \<le> n \<and> (\<not> e \<longrightarrow> n = 0))"
proof -
  have f: "Flag_UnmarshalJSON JNull = Inr FlagDefault" by simp
  have p: "Priority_UnmarshalJSON (JInt 7) = Inr 7"
    by (simp add: Priority_UnmarshalJSON_def)
  have d: "Priority_UnmarshalJSON JNull = Inr DefaultPriority"
    by (simp add: Priority_UnmarshalJSON_def)
  show ?thesis
    using f p d unmarshalled_values_never_panic [OF f p d, of True] by simp
qed

text \<open>
  \<^verbatim>\<open>OptionalInteger.String\<close> does not print the integer: two different values held at
  the same address print the same, and the text is the decimal numeral of that address.
\<close>

theorem optional_integer_string_ignores_value:
  "OptionalInteger_String addr \<lparr>oi_value = Some v\<rparr> = OptionalInteger_String addr \<lparr>oi_value = Some w\<rparr> \<and>
   parseNat (OptionalInteger_String addr \<lparr>oi_value = Some v\<rparr>) = Some addr"
  by (simp add: OptionalInteger_String_def)

end
