(* ===== verification/RepoCommon.thy ===== *)
theory RepoCommon
  imports GoJson
begin

text \<open>
  \<^verbatim>\<open>repo/common/common.go\<close>: reading, writing and merging nested configuration maps by
  dotted keys.  \<^verbatim>\<open>MapSetKV\<close> changes its map in place, so the model returns the error (if
  any) together with the map as it is afterwards.

  The locale \<open>kv_store\<close> is the interface the repository relies on when it changes one key
  and guards another (see the theory FSRepo).
\<close>

datatype kv_err = KeyNotMap string | KeyNotFound string

type_synonym jmap = "string \<Rightarrow> json option"

fun mapGet :: "string list \<Rightarrow> string list \<Rightarrow> json \<Rightarrow> kv_err + json" where
  "mapGet sofar [] cursor = Inr cursor"
| "mapGet sofar (part # parts) (JObj mcursor) =
     (case mcursor part of
        Some cursor \<Rightarrow> mapGet (sofar @ [part]) parts cursor
      | None \<Rightarrow>
          let s = joinc ''.'' sofar
          in Inl (KeyNotFound ((if length s > 0 then s @ ''.'' else []) @ part)))"
| "mapGet sofar (part # parts) _ = Inl (KeyNotMap (joinc ''.'' sofar))"

definition MapGetKV :: "jmap \<Rightarrow> string \<Rightarrow> kv_err + json" where
  "MapGetKV v key = mapGet [] (splitc CHR ''.'' key) (JObj v)"

fun mapSet :: "string list \<Rightarrow> string list \<Rightarrow> json \<Rightarrow> json \<Rightarrow> kv_err option \<times> json" where
  "mapSet sofar [part] value (JObj mcursor) = (None, JObj (mcursor(part \<mapsto> value)))"
| "mapSet sofar (part # next # parts) value (JObj mcursor) =
     (let child = (case mcursor part of
                     None \<Rightarrow> JObj Map.empty
                   | Some cursor \<Rightarrow> if cursor = JNull then JObj Map.empty else cursor);
          (err, child') = mapSet (sofar @ [part]) (next # parts) value child
      in (err, JObj (mcursor(part \<mapsto> child'))))"
| "mapSet sofar [] value cursor = (None, cursor)"
| "mapSet sofar (part # parts) value cursor = (Some (KeyNotMap (joinc ''.'' sofar)), cursor)"

definition MapSetKV :: "jmap \<Rightarrow> string \<Rightarrow> json \<Rightarrow> kv_err option \<times> jmap" where
  "MapSetKV v key value =
     (case mapSet [] (splitc CHR ''.'' key) value (JObj v) of
        (err, JObj v') \<Rightarrow> (err, v') | (err, _) \<Rightarrow> (err, v))"

text \<open>One key of \<^verbatim>\<open>MapMergeDeep\<close>: the right value against what the left map has there.\<close>

primrec mergeVal :: "json \<Rightarrow> json option \<Rightarrow> json" where
  "mergeVal (JObj rightMap) l =
     (case l of
        Some (JObj leftMap) \<Rightarrow>
          JObj (\<lambda>k. case (map_option mergeVal \<circ> rightMap) k of
                       None \<Rightarrow> leftMap k | Some f \<Rightarrow> Some (f (leftMap k)))
      | _ \<Rightarrow> JObj rightMap)"
| "mergeVal JNull l = JNull"
| "mergeVal (JBool b) l = JBool b"
| "mergeVal (JInt i) l = JInt i"
| "mergeVal (JFrac t) l = JFrac t"
| "mergeVal (JStr t) l = JStr t"
| "mergeVal (JArr js) l = JArr js"
| "mergeVal (JBad t) l = JBad t"

definition MapMergeDeep :: "jmap \<Rightarrow> jmap \<Rightarrow> jmap" where
  "MapMergeDeep left right =
     (\<lambda>key. case right key of None \<Rightarrow> left key | Some rightVal \<Rightarrow> Some (mergeVal rightVal (left key)))"

section \<open>The interface: get after set, nothing changed on failure\<close>

locale kv_store =
  fixes get :: "'m \<Rightarrow> 'k \<Rightarrow> 'e + 'v"
    and set :: "'m \<Rightarrow> 'k \<Rightarrow> 'v \<Rightarrow> 'f option \<times> 'm"
  assumes get_set: "set m k v = (None, m') \<Longrightarrow> get m' k = Inr v"
    and set_failed: "set m k v = (Some e, m') \<Longrightarrow> m' = m"
begin

text \<open>
  Writing a key while guarding another: the guarded value is read first and written back
  last, so it survives whatever the first write did to it.
\<close>

lemma guarded_write:
  "get m guard = Inr old \<Longrightarrow> set m k v = (None, m1) \<Longrightarrow> set m1 guard old = (None, m2) \<Longrightarrow>
   get m2 guard = get m guard"
  using get_set [of m1 guard old m2] by simp

lemma set_total: "(\<exists>m'. set m k v = (None, m') \<and> get m' k = Inr v) \<or> (\<exists>e. set m k v = (Some e, m))"
  using get_set set_failed by (cases "set m k v"; cases "fst (set m k v)") auto

end

section \<open>Lemmas on paths\<close>

lemma mapSet_obj:
  "parts \<noteq> [] \<Longrightarrow> \<exists>v'. snd (mapSet sofar parts x (JObj v)) = JObj v'"
  by (cases "(sofar, parts, x, JObj v)" rule: mapSet.cases) (auto simp: Let_def split: prod.splits)

lemma mapSet_failed: "mapSet sofar parts x c = (Some e, c') \<Longrightarrow> c' = c"
proof (induction sofar parts x c arbitrary: c' rule: mapSet.induct)
  case (2 sofar part "next" parts "value" mcursor)
  let ?child = "case mcursor part of None \<Rightarrow> JObj Map.empty
    | Some cursor \<Rightarrow> if cursor = JNull then JObj Map.empty else cursor"
  obtain err child' where rec: "mapSet (sofar @ [part]) (next # parts) value ?child = (err, child')"
    by (cases "mapSet (sofar @ [part]) (next # parts) value ?child")
  with "2.prems" have err: "err = Some e" and c': "c' = JObj (mcursor(part \<mapsto> child'))"
    by (auto simp: Let_def)
  have empty: "fst (mapSet s (p # ps) y (JObj Map.empty)) = None" for s p ps y
    by (induction ps arbitrary: s p) (auto simp: Let_def split_beta)
  from rec err have "child' = ?child" using "2.IH" by blast
  moreover have "mcursor part = Some ?child"
    using rec err empty [of "sofar @ [part]" "next" parts "value"] by (auto split: option.splits if_splits)
  ultimately show ?case using c' by (simp add: fun_upd_idem_iff)
qed auto

lemma mapGet_mapSet: "parts \<noteq> [] \<Longrightarrow> mapSet sofar parts x c = (None, c') \<Longrightarrow> mapGet s parts c' = Inr x"
proof (induction sofar parts x c arbitrary: c' s rule: mapSet.induct)
  case (2 sofar part "next" parts "value" mcursor)
  then show ?case by (auto simp: Let_def split: prod.splits)
qed auto

text \<open>Two paths are apart when neither is a prefix of the other.\<close>

fun apart :: "string list \<Rightarrow> string list \<Rightarrow> bool" where
  "apart (p # ps) (q # qs) = (p \<noteq> q \<or> apart ps qs)"
| "apart _ _ = False"

lemma mapGet_mapSet_apart:
  "apart parts qs \<Longrightarrow> mapSet sofar parts x c = (None, c') \<Longrightarrow> mapGet s qs c = Inr y \<Longrightarrow>
   mapGet s qs c' = Inr y"
proof (induction sofar parts x c arbitrary: c' s qs rule: mapSet.induct)
  case (1 sofar part "value" mcursor)
  then show ?case by (cases qs) (auto split: option.splits)
next
  case (2 sofar part "next" parts "value" mcursor)
  let ?child = "case mcursor part of None \<Rightarrow> JObj Map.empty
    | Some cursor \<Rightarrow> if cursor = JNull then JObj Map.empty else cursor"
  obtain child' where rec: "mapSet (sofar @ [part]) (next # parts) value ?child = (None, child')"
    and c': "c' = JObj (mcursor(part \<mapsto> child'))"
    using "2.prems"(2) by (auto simp: Let_def split: prod.splits)
  obtain q qs' where qs: "qs = q # qs'" using "2.prems"(1) by (cases qs) auto
  show ?case
  proof (cases "q = part")
    case False
    with "2.prems"(3) qs c' show ?thesis by (auto simp: Let_def split: option.splits)
  next
    case True
    with "2.prems"(1) qs have ap: "apart (next # parts) qs'" by simp
    then have "qs' \<noteq> []" by (cases qs') auto
    from "2.prems"(3) True qs obtain cur where cur: "mcursor part = Some cur"
      "mapGet (s @ [part]) qs' cur = Inr y" by (auto simp: Let_def split: option.splits)
    with \<open>qs' \<noteq> []\<close> have "cur \<noteq> JNull" by (cases qs') auto
    with cur have "mapGet (s @ [part]) qs' ?child = Inr y" by simp
    then have "mapGet (s @ [part]) qs' child' = Inr y" using "2.IH" rec ap by blast
    with True qs c' show ?thesis by simp
  qed
qed auto

interpretation kv: kv_store MapGetKV MapSetKV
proof unfold_locales
  fix m k v m'
  assume "MapSetKV m k v = (None, m')"
  then show "MapGetKV m' k = Inr v"
    using mapSet_obj [of "splitc CHR ''.'' k" "[]" v m] mapGet_mapSet [of "splitc CHR ''.'' k" "[]" v "JObj m"]
    by (auto simp: MapSetKV_def MapGetKV_def split: prod.splits json.splits)
next
  fix m k v e m'
  assume "MapSetKV m k v = (Some e, m')"
  then show "m' = m"
    by (auto simp: MapSetKV_def split: prod.splits json.splits dest: mapSet_failed)
qed

lemma MapSetKV_json:
  "MapSetKV v key x = (None, v') \<Longrightarrow> mapSet [] (splitc CHR ''.'' key) x (JObj v) = (None, JObj v')"
  using mapSet_obj [of "splitc CHR ''.'' key" "[]" x v]
  by (auto simp: MapSetKV_def split: prod.splits json.splits)

lemma MapGetKV_apart:
  "MapSetKV v key x = (None, v') \<Longrightarrow> apart (splitc CHR ''.'' key) (splitc CHR ''.'' key') \<Longrightarrow>
   MapGetKV v key' = Inr y \<Longrightarrow> MapGetKV v' key' = Inr y"
  using mapGet_mapSet_apart [of _ _ "[]" x "JObj v" "JObj v'" "[]" y] MapSetKV_json
  by (auto simp: MapGetKV_def)

lemma apart_sym: "apart ps qs = apart qs ps"
  by (induction ps qs rule: apart.induct) (auto elim: apart.elims)

section \<open>Properties\<close>

text \<open>
  \<^verbatim>\<open>MapSetKV\<close> either stores the value under the key, so that \<^verbatim>\<open>MapGetKV\<close> returns
  it, and leaves every value under a key that is not above or below it as it was; or it
  fails and changes nothing at all, although it creates the missing maps on its way.
\<close>

theorem map_set_then_get:
  "case MapSetKV v key x of
     (None, v') \<Rightarrow> MapGetKV v' key = Inr x \<and>
       (\<forall>key' y. apart (splitc CHR ''.'' key) (splitc CHR ''.'' key') \<longrightarrow> MapGetKV v key' = Inr y \<longrightarrow>
          MapGetKV v' key' = Inr y)
   | (Some e, v') \<Rightarrow> v' = v"
proof (cases "MapSetKV v key x")
  case (Pair err v')
  show ?thesis
  proof (cases err)
    case None
    with Pair MapGetKV_apart [of v key x v'] kv.get_set [of v key x v'] show ?thesis by simp
  next
    case (Some e)
    with Pair kv.set_failed [of v key x e v'] show ?thesis by simp
  qed
qed

theorem map_set_then_get_witness:
  "MapGetKV (snd (MapSetKV [''A'' \<mapsto> JObj [''B'' \<mapsto> JInt 1, ''C'' \<mapsto> JInt 2]] ''A.B'' (JInt 5))) ''A.C'' = Inr (JInt 2)"
proof -
  let ?v = "[''A'' \<mapsto> JObj [''B'' \<mapsto> JInt 1, ''C'' \<mapsto> JInt 2]]"
  have s: "fst (MapSetKV ?v ''A.B'' (JInt 5)) = None" by (simp add: MapSetKV_def)
  have a: "apart (splitc CHR ''.'' ''A.B'') (splitc CHR ''.'' ''A.C'')" by simp
  have g: "MapGetKV ?v ''A.C'' = Inr (JInt 2)" by (simp add: MapGetKV_def)
  show ?thesis
    using map_set_then_get [where v = ?v and key = "''A.B''" and x = "JInt 5"] s a g
    by (cases "MapSetKV ?v ''A.B'' (JInt 5)") fastforce
qed

text \<open>
  Merging: what the right map says at a path wins, what it is silent about is kept.
\<close>

lemma mapGet_sofar_Inr: "mapGet s ps c = Inr y \<Longrightarrow> mapGet s' ps c = Inr y"
proof (induction s ps c arbitrary: s' rule: mapGet.induct)
  case (2 sofar part parts mcursor)
  then show ?case by (auto simp: Let_def split: option.splits)
qed auto

lemma mapGet_merge_right:
  "mapGet s ps r = Inr y \<Longrightarrow> (\<forall>m. y \<noteq> JObj m) \<Longrightarrow> mapGet s ps (mergeVal r l) = Inr y"
proof (induction s ps r arbitrary: l rule: mapGet.induct)
  case (1 sofar cursor)
  then show ?case by (cases cursor) auto
next
  case (2 sofar part parts mcursor)
  then obtain c where "mcursor part = Some c" "mapGet (sofar @ [part]) parts c = Inr y"
    by (auto simp: Let_def split: option.splits)
  with 2 show ?case
    by (auto simp: Let_def split: option.splits json.splits)
qed auto

lemma mapGet_merge_left:
  "mapGet s ps l = Inr y \<Longrightarrow> mapGet s' ps r = Inl (KeyNotFound t) \<Longrightarrow>
   mapGet s ps (mergeVal r (Some l)) = Inr y"
proof (induction s ps l arbitrary: r s' rule: mapGet.induct)
  case (2 sofar part parts leftMap)
  from "2.prems"(2) obtain rightMap where r: "r = JObj rightMap" by (cases r) auto
  from "2.prems"(1) obtain c where c: "leftMap part = Some c" "mapGet (sofar @ [part]) parts c = Inr y"
    by (auto simp: Let_def split: option.splits)
  show ?case
  proof (cases "rightMap part")
    case None
    with r c show ?thesis by simp
  next
    case (Some d)
    with r "2.prems"(2) have "mapGet (s' @ [part]) parts d = Inl (KeyNotFound t)" by simp
    with "2.IH" [OF c(1)] c have "mapGet (sofar @ [part]) parts (mergeVal d (Some c)) = Inr y" by blast
    with r c Some show ?thesis by simp
  qed
qed auto

lemma MapMergeDeep_mergeVal: "JObj (MapMergeDeep left right) = mergeVal (JObj right) (Some (JObj left))"
  by (auto simp: MapMergeDeep_def fun_eq_iff split: option.splits)

lemma MapMergeDeep_keeps_left:
  "MapGetKV left key = Inr z \<Longrightarrow> MapGetKV right key = Inl (KeyNotFound t) \<Longrightarrow>
   MapGetKV (MapMergeDeep left right) key = Inr z"
  unfolding MapGetKV_def MapMergeDeep_mergeVal by (rule mapGet_merge_left)

lemma MapMergeDeep_keeps_right:
  "MapGetKV right key = Inr y \<Longrightarrow> \<forall>m. y \<noteq> JObj m \<Longrightarrow> MapGetKV (MapMergeDeep left right) key = Inr y"
  unfolding MapGetKV_def MapMergeDeep_mergeVal by (rule mapGet_merge_right)

text \<open>
  A deep merge keeps both sides: every non-map value of the right map is found under its
  key in the result, and every value of the left map whose key the right map does not have
  is found unchanged.
\<close>

theorem merge_keeps_both_sides:
  "(MapGetKV right key = Inr y \<longrightarrow> (\<forall>m. y \<noteq> JObj m) \<longrightarrow>
      MapGetKV (MapMergeDeep left right) key = Inr y) \<and>
   (MapGetKV left key = Inr z \<longrightarrow> MapGetKV right key = Inl (KeyNotFound t) \<longrightarrow>
      MapGetKV (MapMergeDeep left right) key = Inr z)"
  using MapMergeDeep_keeps_left MapMergeDeep_keeps_right by blast

theorem merge_keeps_both_sides_witness:
  "MapGetKV (MapMergeDeep [''A'' \<mapsto> JObj [''mine'' \<mapsto> JInt 1]] [''A'' \<mapsto> JObj [''B'' \<mapsto> JInt 2]]) ''A.mine''
     = Inr (JInt 1)"
proof -
  have l: "MapGetKV [''A'' \<mapsto> JObj [''mine'' \<mapsto> JInt 1]] ''A.mine'' = Inr (JInt 1)"
    and r: "MapGetKV [''A'' \<mapsto> JObj [''B'' \<mapsto> JInt 2]] ''A.mine'' = Inl (KeyNotFound ''A.mine'')"
    by (simp_all add: MapGetKV_def)
  show ?thesis
    using merge_keeps_both_sides [of "[''A'' \<mapsto> JObj [''B'' \<mapsto> JInt 2]]" "''A.mine''" JNull
      "[''A'' \<mapsto> JObj [''mine'' \<mapsto> JInt 1]]" "JInt 1" "''A.mine''"] l r by blast
qed

end
