(* ===== verification/GoPath.thy ===== *)
theory GoPath
  imports GoPrelude
begin

text \<open>
  The lexical operations of Go's \<^verbatim>\<open>path\<close> and \<^verbatim>\<open>path/filepath\<close> (on Unix) that
  the repository and the gateway use: \<^verbatim>\<open>Clean\<close>, \<^verbatim>\<open>Join\<close>, \<^verbatim>\<open>Dir\<close>,
  \<^verbatim>\<open>IsAbs\<close> and \<^verbatim>\<open>Base\<close>.
\<close>

fun cleanComps :: "bool \<Rightarrow> string list \<Rightarrow> string list \<Rightarrow> string list" where
  "cleanComps rooted acc [] = rev acc"
| "cleanComps rooted acc (c # cs) =
     (if c = [] \<or> c = ''.'' then cleanComps rooted acc cs
      else if c = ''..'' then
        (case acc of
           a # acc' \<Rightarrow> if a = ''..'' then cleanComps rooted (c # acc) cs else cleanComps rooted acc' cs
         | [] \<Rightarrow> if rooted then cleanComps rooted [] cs else cleanComps rooted [c] cs)
      else cleanComps rooted (c # acc) cs)"

definition pathIsAbs :: "string \<Rightarrow> bool" where
  "pathIsAbs p = HasPrefix p ''/''"

definition pathClean :: "string \<Rightarrow> string" where
  "pathClean p =
     (let s = joinc ''/'' (cleanComps (pathIsAbs p) [] (splitc CHR ''/'' p))
      in if pathIsAbs p then CHR ''/'' # s else if s = [] then ''.'' else s)"

definition pathJoin :: "string list \<Rightarrow> string" where
  "pathJoin elems =
     (let es = filter (\<lambda>e. e \<noteq> []) elems in if es = [] then [] else pathClean (joinc ''/'' es))"

definition uptoSlash :: "string \<Rightarrow> string" where
  "uptoSlash p = rev (dropWhile (\<lambda>c. c \<noteq> CHR ''/'') (rev p))"

definition pathDir :: "string \<Rightarrow> string" where
  "pathDir p = pathClean (uptoSlash p)"

definition stripSlashes :: "string \<Rightarrow> string" where
  "stripSlashes p = rev (dropWhile (\<lambda>c. c = CHR ''/'') (rev p))"

definition pathBase :: "string \<Rightarrow> string" where
  "pathBase p =
     (if p = [] then ''.''
      else let q = stripSlashes p; b = drop (length (uptoSlash q)) q
           in if b = [] then ''/'' else b)"

text \<open>No \<^verbatim>\<open>..\<close> survives cleaning a rooted path: the result cannot leave the root.\<close>

lemma cleanComps_rooted:
  "''..'' \<notin> set acc \<Longrightarrow> set (cleanComps True acc cs) \<subseteq> set acc \<union> (set cs - {[], ''.'', ''..''})"
proof (induction True acc cs rule: cleanComps.induct)
  case (2 acc c cs)
  then show ?case by (cases acc) (auto split: if_splits)
qed simp

lemma cleanComps_proper:
  "\<forall>c \<in> set cs. c \<noteq> [] \<and> c \<noteq> ''.'' \<and> c \<noteq> ''..'' \<Longrightarrow> cleanComps r acc cs = rev acc @ cs"
  by (induction cs arbitrary: acc) auto

lemma pathClean_rooted_comps:
  assumes "pathIsAbs p"
  shows "\<exists>cs. pathClean p = CHR ''/'' # joinc ''/'' cs \<and> (\<forall>c \<in> set cs. c \<noteq> [] \<and> c \<noteq> ''.'' \<and> c \<noteq> ''..'')"
proof -
  let ?cs = "cleanComps True [] (splitc CHR ''/'' p)"
  have "\<forall>c \<in> set ?cs. c \<noteq> [] \<and> c \<noteq> ''.'' \<and> c \<noteq> ''..''"
    using cleanComps_rooted [of "[]" "splitc CHR ''/'' p"] by auto
  moreover have "pathClean p = CHR ''/'' # joinc ''/'' ?cs"
    using assms by (simp add: pathClean_def)
  ultimately show ?thesis by blast
qed

text \<open>A proper file name joined to a directory is the last component of the result.\<close>

definition properComp :: "string \<Rightarrow> bool" where
  "properComp x \<longleftrightarrow> CHR ''/'' \<notin> set x \<and> x \<noteq> [] \<and> x \<noteq> ''.'' \<and> x \<noteq> ''..''"

lemma cleanComps_snoc:
  "x \<noteq> [] \<Longrightarrow> x \<noteq> ''.'' \<Longrightarrow> x \<noteq> ''..'' \<Longrightarrow> cleanComps r acc (cs @ [x]) = cleanComps r acc cs @ [x]"
  by (induction r acc cs rule: cleanComps.induct) (auto split: list.splits)

lemma last_splitc_joinc:
  "CHR ''/'' \<notin> set x \<Longrightarrow> last (splitc CHR ''/'' (joinc ''/'' (cs @ [x]))) = x"
  by (cases "cs = []") (simp_all add: joinc_append splitc_append splitc_no_sep)

lemma last_splitc_Cons: "last (splitc d (d # s)) = last (splitc d s)"
  by simp

lemma pathJoin_last_comp:
  assumes "properComp (last (splitc CHR ''/'' x))" and "x \<noteq> []"
  shows "last (splitc CHR ''/'' (pathJoin [p, x])) = last (splitc CHR ''/'' x)"
proof -
  let ?l = "last (splitc CHR ''/'' x)"
  have l: "CHR ''/'' \<notin> set ?l" "?l \<noteq> []" "?l \<noteq> ''.''" "?l \<noteq> ''..''" using assms by (auto simp: properComp_def)
  have x: "splitc CHR ''/'' x = butlast (splitc CHR ''/'' x) @ [?l]" by simp
  have *: "last (splitc CHR ''/'' (pathClean q)) = ?l" if "splitc CHR ''/'' q = cs @ [?l]" for q cs
  proof -
    let ?s = "joinc ''/'' (cleanComps (pathIsAbs q) [] cs @ [?l])"
    have "?s \<noteq> []" using l(2) by (cases "cleanComps (pathIsAbs q) [] cs") (simp_all add: joinc_Cons)
    moreover have "last (splitc CHR ''/'' ?s) = ?l" using l(1) by (rule last_splitc_joinc)
    ultimately show ?thesis
      using that l by (cases "pathIsAbs q") (simp_all add: pathClean_def cleanComps_snoc)
  qed
  show ?thesis
  proof (cases "p = []")
    case True
    with * [OF x] assms(2) show ?thesis by (simp add: pathJoin_def)
  next
    case False
    have "splitc CHR ''/'' (p @ CHR ''/'' # x) = (splitc CHR ''/'' p @ butlast (splitc CHR ''/'' x)) @ [?l]"
      using x by (simp add: splitc_append)
    with * [of "p @ CHR ''/'' # x" "splitc CHR ''/'' p @ butlast (splitc CHR ''/'' x)"] False assms(2)
    show ?thesis by (simp add: pathJoin_def)
  qed
qed

lemma pathJoin_last: "properComp x \<Longrightarrow> last (splitc CHR ''/'' (pathJoin [p, x])) = x"
  using pathJoin_last_comp [of x p] by (simp add: properComp_def splitc_no_sep)

lemma last_comp_split:
  "s = last (splitc d s) \<or> (\<exists>r. s = r @ d # last (splitc d s))"
proof (cases "butlast (splitc d s) = []")
  case True
  then have "splitc d s = [last (splitc d s)]" by (metis append_Nil append_butlast_last_id splitc_not_Nil)
  then have "s = last (splitc d s)" using joinc_splitc [of d s] by (metis joinc.simps(2))
  then show ?thesis ..
next
  case False
  have "s = joinc [d] (butlast (splitc d s) @ [last (splitc d s)])" by simp
  also have "\<dots> = joinc [d] (butlast (splitc d s)) @ [d] @ last (splitc d s)" using False by (subst joinc_append) simp_all
  finally show ?thesis by auto
qed

lemma last_of_last_comp: "last (splitc d s) \<noteq> [] \<Longrightarrow> last s = last (last (splitc d s))"
  using last_comp_split [of s d] by (metis last.simps last_appendR list.distinct(1))

lemma last_splitc_suffix: "d \<notin> set v \<Longrightarrow> last (splitc d (u @ v)) = last (splitc d u) @ v"
proof -
  assume v: "d \<notin> set v"
  let ?l = "last (splitc d u)"
  have "d \<notin> set ?l" by (rule splitc_parts_no_sep [where s = u]) simp
  with v have l: "splitc d (?l @ v) = [?l @ v]" by (simp add: splitc_no_sep)
  from last_comp_split [of u d] show ?thesis
  proof
    assume "u = ?l"
    then have "splitc d (u @ v) = [?l @ v]" using l by metis
    then show ?thesis by simp
  next
    assume "\<exists>r. u = r @ d # ?l"
    then obtain r where "u = r @ d # ?l" ..
    then have "u @ v = r @ d # (?l @ v)" by (metis append.assoc append_Cons)
    then have "splitc d (u @ v) = splitc d r @ [?l @ v]" using l by (metis splitc_append)
    then show ?thesis by simp
  qed
qed

text \<open>Joined to a directory, a name that ends in something longer than two dots still ends so.\<close>

lemma pathJoin_ends:
  assumes "CHR ''/'' \<notin> set v" and "length v > 2"
  shows "last (pathJoin [p, u @ v]) = last v"
proof -
  let ?l = "last (splitc CHR ''/'' u) @ v"
  have v: "v \<noteq> []" using assms(2) by auto
  have l: "last (splitc CHR ''/'' (u @ v)) = ?l" using assms(1) by (rule last_splitc_suffix)
  have "CHR ''/'' \<notin> set ?l" using splitc_parts_no_sep [of ?l "CHR ''/''" "u @ v"] l last_in_set [OF splitc_not_Nil] by metis
  moreover have "length ?l > 2" using assms(2) by simp
  moreover have "?l \<noteq> []" "?l \<noteq> ''.''" "?l \<noteq> ''..''"
    using \<open>length ?l > 2\<close> by (auto dest: arg_cong [where f = length] simp del: length_append)
  ultimately have pc: "properComp ?l" by (simp add: properComp_def)
  have "last (splitc CHR ''/'' (pathJoin [p, u @ v])) = ?l"
    using pathJoin_last_comp [of "u @ v" p] pc l v by simp
  moreover from this have "last (pathJoin [p, u @ v]) = last ?l"
    using last_of_last_comp [of "CHR ''/''" "pathJoin [p, u @ v]"] v by simp
  ultimately show ?thesis using v by simp
qed

lemma pathJoin_inj: "properComp x \<Longrightarrow> properComp y \<Longrightarrow> pathJoin [p, x] = pathJoin [q, y] \<Longrightarrow> x = y"
  by (metis pathJoin_last)

lemma pathJoin_neq [simp]: "properComp x \<Longrightarrow> properComp y \<Longrightarrow> x \<noteq> y \<Longrightarrow> pathJoin [p, x] \<noteq> pathJoin [q, y]"
  using pathJoin_inj by blast

end
