(* ===== verification/Datastores.thy ===== *)
theory Datastores
  imports GoJson GoPath "HOL-Library.Char_ord" "HOL-Library.List_Lexorder" "HOL-Library.Multiset"
begin

text \<open>
  \<^verbatim>\<open>repo/fsrepo/datastores.go\<close> and the datastore plugins \<^verbatim>\<open>plugin/plugins/flatfs\<close>,
  \<^verbatim>\<open>levelds\<close> and \<^verbatim>\<open>badgerds\<close>: how the nested specification of a datastore in the
  configuration file is read into a \<^verbatim>\<open>DatastoreConfig\<close>, and the disk specification computed
  from it that a repository compares with its \<^verbatim>\<open>datastore_spec\<close> file.

  \<^item> The interface \<^verbatim>\<open>DatastoreConfig\<close> is the datatype of the structs that implement it.
  \<^item> A \<^verbatim>\<open>ConfigFromMap\<close> is the name of one of the parsers of the repository; the global
    registry \<^verbatim>\<open>datastores\<close> maps type names to them.
  \<^item> \<^verbatim>\<open>ds.NewKey\<close>, \<^verbatim>\<open>flatfs.ParseShardFunc\<close>, \<^verbatim>\<open>humanize.ParseBytes\<close>, badger's
    default options and the constructors of the datastores are third-party code, the fields of
    \<open>dsEnv\<close>.  A parsed shard function is represented by the text its \<^verbatim>\<open>String\<close> gives.
  \<^item> \<^verbatim>\<open>sort.Slice\<close> leaves the order of mounts with equal prefixes open; the model
    fixes one, and no property below depends on it.
\<close>

datatype ConfigFromMap =
    mountParser | memParser | logParser | measureParser
  | flatfsParser | leveldsParser | badgerdsParser

datatype Compression = DefaultCompression | NoCompression | SnappyCompression

datatype DatastoreConfig =
    mountDatastoreConfig "(DatastoreConfig \<times> string) list"
  | memDatastoreConfig "string \<Rightarrow> json option"
  | logDatastoreConfig DatastoreConfig string
  | measureDatastoreConfig DatastoreConfig string
  | flatfsConfig string string bool
  | leveldsConfig string Compression
  | badgerdsConfig string bool bool i64

datatype ds_err =
    TypeMissing | UnknownType string
  | MountsMissing | ExpectedMap | NoMountpoint
  | ChildMissing | NameMissing | PrefixMissing
  | PathMissing | ShardFuncMissing | BadShardFunc string | SyncMissing
  | BadCompression | NotBoolean string | NotString string | BadSize string
  | CreateFailed string
  | DsPanic

type_synonym params = "string \<Rightarrow> json option"
type_synonym DiskSpec = "params option"

record dsEnv =
  registry :: "string \<Rightarrow> ConfigFromMap option"
  NewKey :: "string \<Rightarrow> string"
  ParseShardFunc :: "string \<Rightarrow> string + string"
  ParseBytes :: "string \<Rightarrow> string + i64"
  DefaultVlogSize :: i64

definition datastores :: "string \<Rightarrow> ConfigFromMap option" where
  "datastores = [''mount'' \<mapsto> mountParser, ''mem'' \<mapsto> memParser,
                 ''log'' \<mapsto> logParser, ''measure'' \<mapsto> measureParser]"

definition AddDatastoreConfigHandler ::
  "string \<Rightarrow> ConfigFromMap \<Rightarrow> (string \<Rightarrow> ConfigFromMap option) \<Rightarrow> bool \<times> (string \<Rightarrow> ConfigFromMap option)" where
  "AddDatastoreConfigHandler name dsc reg =
     (case reg name of Some _ \<Rightarrow> (False, reg) | None \<Rightarrow> (True, reg(name \<mapsto> dsc)))"

text \<open>The registry after the three plugins were injected.\<close>

definition withPlugins :: "string \<Rightarrow> ConfigFromMap option" where
  "withPlugins =
     snd (AddDatastoreConfigHandler ''badgerds'' badgerdsParser
      (snd (AddDatastoreConfigHandler ''levelds'' leveldsParser
       (snd (AddDatastoreConfigHandler ''flatfs'' flatfsParser datastores)))))"

section \<open>The parsers\<close>

text \<open>
  The parsers of the composite datastores call \<^verbatim>\<open>AnyDatastoreConfig\<close> on a part of
  their parameters; they get it as their first argument, and the recursion is tied below.
\<close>

fun readMounts ::
  "(params \<Rightarrow> ds_err + DatastoreConfig) \<Rightarrow> dsEnv \<Rightarrow> json list \<Rightarrow>
   ds_err + (DatastoreConfig \<times> string) list" where
  "readMounts any e [] = Inr []"
| "readMounts any e (JObj cfg # rest) =
     bindS (any cfg) (\<lambda>child.
       case cfg ''mountpoint'' of
         None \<Rightarrow> Inl NoMountpoint
       | Some (JStr prefix) \<Rightarrow>
           bindS (readMounts any e rest) (\<lambda>ms. Inr ((child, NewKey e prefix) # ms))
       | Some _ \<Rightarrow> Inl DsPanic)"
| "readMounts any e (_ # rest) = Inl ExpectedMap"

definition MountDatastoreConfig ::
  "(params \<Rightarrow> ds_err + DatastoreConfig) \<Rightarrow> dsEnv \<Rightarrow> params \<Rightarrow> ds_err + DatastoreConfig" where
  "MountDatastoreConfig any e p =
     (case p ''mounts'' of
        Some (JArr mounts) \<Rightarrow>
          bindS (readMounts any e mounts) (\<lambda>ms. Inr (mountDatastoreConfig (rev (sort_key snd ms))))
      | _ \<Rightarrow> Inl MountsMissing)"

definition MemDatastoreConfig :: "params \<Rightarrow> ds_err + DatastoreConfig" where
  "MemDatastoreConfig p = Inr (memDatastoreConfig p)"

definition LogDatastoreConfig ::
  "(params \<Rightarrow> ds_err + DatastoreConfig) \<Rightarrow> params \<Rightarrow> ds_err + DatastoreConfig" where
  "LogDatastoreConfig any p =
     (case p ''child'' of
        Some (JObj childField) \<Rightarrow>
          bindS (any childField) (\<lambda>child.
            case p ''name'' of
              Some (JStr name) \<Rightarrow> Inr (logDatastoreConfig child name)
            | _ \<Rightarrow> Inl NameMissing)
      | _ \<Rightarrow> Inl ChildMissing)"

definition MeasureDatastoreConfig ::
  "(params \<Rightarrow> ds_err + DatastoreConfig) \<Rightarrow> params \<Rightarrow> ds_err + DatastoreConfig" where
  "MeasureDatastoreConfig any p =
     (case p ''child'' of
        Some (JObj childField) \<Rightarrow>
          bindS (any childField) (\<lambda>child.
            case p ''prefix'' of
              Some (JStr prefix) \<Rightarrow> Inr (measureDatastoreConfig child prefix)
            | _ \<Rightarrow> Inl PrefixMissing)
      | _ \<Rightarrow> Inl ChildMissing)"

definition flatfs_DatastoreConfigParser :: "dsEnv \<Rightarrow> params \<Rightarrow> ds_err + DatastoreConfig" where
  "flatfs_DatastoreConfigParser e p =
     (case p ''path'' of
        Some (JStr pth) \<Rightarrow>
          (case p ''shardFunc'' of
             Some (JStr sshardFun) \<Rightarrow>
               (case ParseShardFunc e sshardFun of
                  Inl er \<Rightarrow> Inl (BadShardFunc er)
                | Inr shardFun \<Rightarrow>
                    (case p ''sync'' of
                       Some (JBool syncField) \<Rightarrow> Inr (flatfsConfig pth shardFun syncField)
                     | _ \<Rightarrow> Inl SyncMissing))
           | _ \<Rightarrow> Inl ShardFuncMissing)
      | _ \<Rightarrow> Inl PathMissing)"

definition levelds_DatastoreConfigParser :: "params \<Rightarrow> ds_err + DatastoreConfig" where
  "levelds_DatastoreConfigParser p =
     (case p ''path'' of
        Some (JStr pth) \<Rightarrow>
          (let cm = p ''compression'' in
           if cm = Some (JStr ''none'') then Inr (leveldsConfig pth NoCompression)
           else if cm = Some (JStr ''snappy'') then Inr (leveldsConfig pth SnappyCompression)
           else if cm = Some (JStr []) \<or> cm = None \<or> cm = Some JNull
           then Inr (leveldsConfig pth DefaultCompression)
           else Inl BadCompression)
      | _ \<Rightarrow> Inl PathMissing)"

fun boolField :: "string \<Rightarrow> bool \<Rightarrow> json option \<Rightarrow> ds_err + bool" where
  "boolField name d None = Inr d"
| "boolField name d (Some (JBool b)) = Inr b"
| "boolField name d (Some _) = Inl (NotBoolean name)"

definition badgerds_DatastoreConfigParser :: "dsEnv \<Rightarrow> params \<Rightarrow> ds_err + DatastoreConfig" where
  "badgerds_DatastoreConfigParser e p =
     (case p ''path'' of
        Some (JStr pth) \<Rightarrow>
          bindS (boolField ''syncWrites'' False (p ''syncWrites'')) (\<lambda>syncWrites.
          bindS (boolField ''truncate'' True (p ''truncate'')) (\<lambda>trunc.
            case p ''vlogFileSize'' of
              None \<Rightarrow> Inr (badgerdsConfig pth syncWrites trunc (DefaultVlogSize e))
            | Some (JStr vlogSize) \<Rightarrow>
                (case ParseBytes e vlogSize of
                   Inl er \<Rightarrow> Inl (BadSize er)
                 | Inr s \<Rightarrow> Inr (badgerdsConfig pth syncWrites trunc s))
            | Some _ \<Rightarrow> Inl (NotString ''vlogFileSize'')))
      | _ \<Rightarrow> Inl PathMissing)"

definition parseWith ::
  "ConfigFromMap \<Rightarrow> (params \<Rightarrow> ds_err + DatastoreConfig) \<Rightarrow> dsEnv \<Rightarrow> params \<Rightarrow> ds_err + DatastoreConfig" where
  "parseWith f any e p =
     (case f of
        mountParser \<Rightarrow> MountDatastoreConfig any e p
      | memParser \<Rightarrow> MemDatastoreConfig p
      | logParser \<Rightarrow> LogDatastoreConfig any p
      | measureParser \<Rightarrow> MeasureDatastoreConfig any p
      | flatfsParser \<Rightarrow> flatfs_DatastoreConfigParser e p
      | leveldsParser \<Rightarrow> levelds_DatastoreConfigParser p
      | badgerdsParser \<Rightarrow> badgerds_DatastoreConfigParser e p)"

text \<open>The maps inside a map, which is what the recursion descends into.\<close>

fun inJson :: "json \<Rightarrow> json \<Rightarrow> bool" where
  "inJson a (JArr js) = (a \<in> set js)"
| "inJson a (JObj m) = (a \<in> ran m)"
| "inJson a _ = False"

lemma wfp_inJson: "wfp inJson"
proof (rule accp_wfpI, rule allI)
  show "Wellfounded.accp inJson x" for x
    by (induction x; rule accp.accI) (auto simp: ran_def, metis rangeI)
qed

definition under :: "(params \<times> params) set" where
  "under = {(m, p). inJson\<^sup>+\<^sup>+ (JObj m) (JObj p)}"

lemma wf_under: "wf under"
proof -
  have "wf (inv_image {(a, b). inJson\<^sup>+\<^sup>+ a b} JObj)"
    using wfp_tranclp [of inJson] wfp_inJson by (auto simp: wfp_def intro: wf_inv_image)
  then show ?thesis by (simp add: inv_image_def under_def)
qed

lemma under_child: "p k = Some (JObj m) \<Longrightarrow> (m, p) \<in> under"
  by (auto simp: under_def ran_def intro!: tranclp.r_into_trancl)

lemma under_elem: "p k = Some (JArr js) \<Longrightarrow> JObj m \<in> set js \<Longrightarrow> (m, p) \<in> under"
proof -
  assume js: "p k = Some (JArr js)" and m: "JObj m \<in> set js"
  from m have "inJson (JObj m) (JArr js)" by simp
  moreover from js have "inJson (JArr js) (JObj p)" by (auto simp: ran_def)
  ultimately have "inJson\<^sup>+\<^sup>+ (JObj m) (JObj p)"
    by (rule tranclp.trancl_into_trancl [OF tranclp.r_into_trancl])
  then show "(m, p) \<in> under" by (simp add: under_def)
qed

lemma readMounts_cong:
  "(\<And>m. JObj m \<in> set js \<Longrightarrow> any m = any' m) \<Longrightarrow> readMounts any e js = readMounts any' e js"
proof (induction js)
  case (Cons j js)
  then have "readMounts any e js = readMounts any' e js" by simp
  moreover have "any m = any' m" if "j = JObj m" for m using Cons that by simp
  ultimately show ?case by (cases j) (simp_all cong: option.case_cong json.case_cong)
qed simp

lemma parseWith_cong [fundef_cong]:
  "f = f' \<Longrightarrow> e = e' \<Longrightarrow> p = p' \<Longrightarrow>
   (\<And>m k. p' k = Some (JObj m) \<Longrightarrow> any m = any' m) \<Longrightarrow>
   (\<And>m k js. p' k = Some (JArr js) \<Longrightarrow> JObj m \<in> set js \<Longrightarrow> any m = any' m) \<Longrightarrow>
   parseWith f any e p = parseWith f' any' e' p'"
  using readMounts_cong [of _ any any' e']
  by (cases f') (auto simp: parseWith_def MountDatastoreConfig_def LogDatastoreConfig_def
      MeasureDatastoreConfig_def split: option.split json.split
      intro!: arg_cong [where f = "\<lambda>m. bindS m _"])

function AnyDatastoreConfig :: "dsEnv \<Rightarrow> params \<Rightarrow> ds_err + DatastoreConfig" where
  "AnyDatastoreConfig e p =
     (case p ''type'' of
        Some (JStr which) \<Rightarrow>
          (case registry e which of
             None \<Rightarrow> Inl (UnknownType which)
           | Some f \<Rightarrow> parseWith f (\<lambda>m. AnyDatastoreConfig e m) e p)
      | _ \<Rightarrow> Inl TypeMissing)"
  by pat_completeness auto
termination
  by (relation "inv_image under snd") (auto intro: wf_inv_image wf_under under_child under_elem)

declare AnyDatastoreConfig.simps [simp del]

section \<open>What is stored on disk, and opening the datastore\<close>

fun DiskSpecOf :: "DatastoreConfig \<Rightarrow> DiskSpec" where
  "DiskSpecOf (mountDatastoreConfig mounts) =
     Some [''type'' \<mapsto> JStr ''mount'',
           ''mounts'' \<mapsto> JArr (map (\<lambda>(d, prefix).
              JObj ((case DiskSpecOf d of None \<Rightarrow> Map.empty | Some c \<Rightarrow> c)(''mountpoint'' \<mapsto> JStr prefix)))
              mounts)]"
| "DiskSpecOf (memDatastoreConfig cfg) = None"
| "DiskSpecOf (logDatastoreConfig child name) = DiskSpecOf child"
| "DiskSpecOf (measureDatastoreConfig child prefix) = DiskSpecOf child"
| "DiskSpecOf (flatfsConfig pth shardFun syncField) =
     Some [''type'' \<mapsto> JStr ''flatfs'', ''path'' \<mapsto> JStr pth, ''shardFunc'' \<mapsto> JStr shardFun]"
| "DiskSpecOf (leveldsConfig pth compression) = Some [''type'' \<mapsto> JStr ''levelds'', ''path'' \<mapsto> JStr pth]"
| "DiskSpecOf (badgerdsConfig pth syncWrites trunc vlog) =
     Some [''type'' \<mapsto> JStr ''badgerds'', ''path'' \<mapsto> JStr pth]"

text \<open>The JSON value whose compact encoding \<^verbatim>\<open>DiskSpec.Bytes\<close> is; a nil map is null.\<close>

fun DiskSpec_Bytes :: "DiskSpec \<Rightarrow> json" where
  "DiskSpec_Bytes None = JNull"
| "DiskSpec_Bytes (Some spec) = JObj spec"

text \<open>
  \<^verbatim>\<open>Create\<close>: the stores the third-party constructors are asked for, with their
  arguments; \<open>opens\<close> says whether such a constructor succeeds.
\<close>

datatype Store =
    MapStore
  | LogStore Store string
  | MeasureStore string Store
  | MountStore "(Store \<times> string) list"
  | FlatfsStore string string bool
  | LevelStore string Compression
  | BadgerStore string bool bool i64

definition dataPath :: "string \<Rightarrow> string \<Rightarrow> string" where
  "dataPath pth p = (if \<not> pathIsAbs p then pathJoin [pth, p] else p)"

definition tryOpen :: "(Store \<Rightarrow> bool) \<Rightarrow> Store \<Rightarrow> ds_err + Store" where
  "tryOpen opens s = (if opens s then Inr s else Inl (CreateFailed ''datastore''))"

fun Create :: "(Store \<Rightarrow> bool) \<Rightarrow> string \<Rightarrow> DatastoreConfig \<Rightarrow> ds_err + Store"
  and createMounts :: "(Store \<Rightarrow> bool) \<Rightarrow> string \<Rightarrow> (DatastoreConfig \<times> string) list \<Rightarrow> ds_err + (Store \<times> string) list" where
  "Create opens pth (mountDatastoreConfig mounts) = bindS (createMounts opens pth mounts) (\<lambda>ms. Inr (MountStore ms))"
| "Create opens pth (memDatastoreConfig cfg) = Inr MapStore"
| "Create opens pth (logDatastoreConfig child name) = bindS (Create opens pth child) (\<lambda>d. Inr (LogStore d name))"
| "Create opens pth (measureDatastoreConfig child prefix) =
     bindS (Create opens pth child) (\<lambda>d. Inr (MeasureStore prefix d))"
| "Create opens pth (flatfsConfig p shardFun syncField) = tryOpen opens (FlatfsStore (dataPath pth p) shardFun syncField)"
| "Create opens pth (leveldsConfig p compression) = tryOpen opens (LevelStore (dataPath pth p) compression)"
| "Create opens pth (badgerdsConfig p syncWrites trunc vlog) =
     tryOpen opens (BadgerStore (dataPath pth p) syncWrites trunc vlog)"
| "createMounts opens pth [] = Inr []"
| "createMounts opens pth ((d, prefix) # ms) =
     bindS (Create opens pth d) (\<lambda>s. bindS (createMounts opens pth ms) (\<lambda>ss. Inr ((s, prefix) # ss)))"

section \<open>Properties\<close>

fun prefixesOf :: "DatastoreConfig \<Rightarrow> string list" where
  "prefixesOf (mountDatastoreConfig ms) = map snd ms"
| "prefixesOf _ = []"

lemma readMounts_perm:
  assumes "mset js = mset js'" and "readMounts any e js = Inr ms"
  shows "\<exists>ms'. readMounts any e js' = Inr ms' \<and> mset ms' = mset ms"
proof -
  define one where "one j = (case readMounts any e [j] of Inr [m] \<Rightarrow> Some m | _ \<Rightarrow> None)" for j
  have one: "readMounts any e js = Inr ms \<longleftrightarrow> map one js = map Some ms" for js ms
  proof (induction js arbitrary: ms)
    case (Cons j js)
    show ?case
    proof (cases j)
      case (JObj cfg)
      then show ?thesis
        using Cons by (cases "any cfg"; cases ms; cases "readMounts any e js")
          (auto simp: one_def bindS_eq_Inr split: option.splits json.splits)
    qed (auto simp: one_def)
  qed auto
  from assms(2) have "map one js = map Some ms" by (simp add: one)
  then have "mset (map one js') = mset (map Some ms)" using assms(1) by (metis mset_map)
  then have eq: "mset (map one js') = mset (map Some ms)" .
  define ns where "ns = map the (map one js')"
  have "set (map one js') = Some ` set ms" using eq by (metis mset_eq_setD set_map)
  then have "map Some ns = map one js'" by (auto simp: ns_def) (metis imageE image_eqI option.sel)
  moreover have "mset ns = image_mset the (mset (map one js'))" by (simp add: ns_def multiset.map_comp)
  then have "mset ns = mset ms" unfolding eq by (simp add: multiset.map_comp o_def)
  ultimately have ns: "map one js' = map Some ns" "mset ns = mset ms" by simp_all
  then show ?thesis using one by blast
qed

lemma sort_desc_unique:
  "mset ms = mset (ms' :: ('a \<times> string) list) \<Longrightarrow> distinct (map snd ms) \<Longrightarrow> sort_key snd ms = sort_key snd ms'"
  by (rule sort_key_inj_key_eq) (auto simp: distinct_map dest: mset_eq_setD)

text \<open>
  The order in which the mounts of a datastore are listed in the configuration does not
  matter: as long as their mount points are different, any reordering of the list is read
  as the same datastore, with the same disk specification, so the repository still opens.
\<close>

theorem mount_order_irrelevant:
  assumes "p ''type'' = Some (JStr ''mount'')" and "registry e ''mount'' = Some mountParser"
    and "p ''mounts'' = Some (JArr js)" and "mset js' = mset js"
    and "AnyDatastoreConfig e p = Inr c" and "distinct (prefixesOf c)"
  shows "AnyDatastoreConfig e (p(''mounts'' \<mapsto> JArr js')) = Inr c"
proof -
  let ?any = "\<lambda>m. AnyDatastoreConfig e m"
  from assms obtain ms where ms: "readMounts ?any e js = Inr ms"
    "c = mountDatastoreConfig (rev (sort_key snd ms))"
    by (subst (asm) AnyDatastoreConfig.simps)
      (auto simp: parseWith_def MountDatastoreConfig_def bindS_eq_Inr)
  with readMounts_perm [of js js' ?any e ms] assms(4) obtain ms' where
    ms': "readMounts ?any e js' = Inr ms'" "mset ms' = mset ms" by auto
  from assms(6) ms(2) have "distinct (map snd (sort_key snd ms))" by (simp add: rev_map [symmetric])
  then have "distinct (map snd ms)"
    by (metis mset_eq_imp_distinct_iff mset_map mset_sort)
  with ms'(2) have "sort_key snd ms' = sort_key snd ms"
    by (metis sort_desc_unique)
  with assms(1-3) ms ms' show ?thesis
    by (subst AnyDatastoreConfig.simps) (simp add: parseWith_def MountDatastoreConfig_def)
qed

definition demoEnv :: dsEnv where
  "demoEnv = \<lparr> registry = withPlugins, NewKey = (\<lambda>s. s), ParseShardFunc = Inr,
     ParseBytes = (\<lambda>_. Inr 1024), DefaultVlogSize = 1073741824 \<rparr>"

definition levelAt :: "string \<Rightarrow> string \<Rightarrow> params" where
  "levelAt pth prefix = [''type'' \<mapsto> JStr ''levelds'', ''path'' \<mapsto> JStr pth, ''mountpoint'' \<mapsto> JStr prefix]"

lemma levelAt_parsed: "AnyDatastoreConfig demoEnv (levelAt pth prefix) = Inr (leveldsConfig pth DefaultCompression)"
  by (subst AnyDatastoreConfig.simps)
    (simp add: levelAt_def demoEnv_def withPlugins_def AddDatastoreConfigHandler_def datastores_def
      parseWith_def levelds_DatastoreConfigParser_def)

theorem mount_order_irrelevant_witness:
  "AnyDatastoreConfig demoEnv
     [''type'' \<mapsto> JStr ''mount'', ''mounts'' \<mapsto> JArr [JObj (levelAt ''b'' ''/blocks''), JObj (levelAt ''a'' ''/'')]]
   = AnyDatastoreConfig demoEnv
     [''type'' \<mapsto> JStr ''mount'', ''mounts'' \<mapsto> JArr [JObj (levelAt ''a'' ''/''), JObj (levelAt ''b'' ''/blocks'')]]"
proof -
  let ?a = "JObj (levelAt ''a'' ''/'')" and ?b = "JObj (levelAt ''b'' ''/blocks'')"
  let ?p = "[''type'' \<mapsto> JStr ''mount'', ''mounts'' \<mapsto> JArr [?a, ?b]]"
  let ?c = "mountDatastoreConfig [(leveldsConfig ''b'' DefaultCompression, ''/blocks''),
              (leveldsConfig ''a'' DefaultCompression, ''/'')]"
  have m: "levelAt pth prefix ''mountpoint'' = Some (JStr prefix)" for pth prefix
    by (simp add: levelAt_def)
  have r: "registry demoEnv ''mount'' = Some mountParser" and k: "NewKey demoEnv s = s" for s
    by (simp_all add: demoEnv_def withPlugins_def AddDatastoreConfigHandler_def datastores_def)
  have "readMounts (\<lambda>m. AnyDatastoreConfig demoEnv m) demoEnv [?a, ?b]
      = Inr [(leveldsConfig ''a'' DefaultCompression, ''/''), (leveldsConfig ''b'' DefaultCompression, ''/blocks'')]"
    by (simp add: levelAt_parsed m k)
  then have c: "AnyDatastoreConfig demoEnv ?p = Inr ?c"
    by (subst AnyDatastoreConfig.simps) (simp add: r parseWith_def MountDatastoreConfig_def)
  then have "AnyDatastoreConfig demoEnv (?p(''mounts'' \<mapsto> JArr [?b, ?a])) = Inr ?c"
    using r by (intro mount_order_irrelevant [of ?p _ "[?a, ?b]"]) simp_all
  with c show ?thesis by simp
qed

lemma flatfs_spec:
  "flatfs_DatastoreConfigParser e p = Inr d \<Longrightarrow>
   \<exists>pth fn sh. p ''path'' = Some (JStr pth) \<and> p ''shardFunc'' = Some (JStr fn) \<and> ParseShardFunc e fn = Inr sh \<and>
     DiskSpecOf d = Some [''type'' \<mapsto> JStr ''flatfs'', ''path'' \<mapsto> JStr pth, ''shardFunc'' \<mapsto> JStr sh]"
  by (auto simp: flatfs_DatastoreConfigParser_def split: option.splits json.splits sum.splits)

lemma levelds_spec:
  "levelds_DatastoreConfigParser p = Inr d \<Longrightarrow>
   \<exists>pth. p ''path'' = Some (JStr pth) \<and>
     DiskSpecOf d = Some [''type'' \<mapsto> JStr ''levelds'', ''path'' \<mapsto> JStr pth]"
  by (cases "p ''path''"; cases "the (p ''path'')")
    (auto simp: levelds_DatastoreConfigParser_def Let_def split: if_splits)

lemma badgerds_spec:
  "badgerds_DatastoreConfigParser e p = Inr d \<Longrightarrow>
   \<exists>pth. p ''path'' = Some (JStr pth) \<and>
     DiskSpecOf d = Some [''type'' \<mapsto> JStr ''badgerds'', ''path'' \<mapsto> JStr pth]"
  by (cases "p ''path''"; cases "the (p ''path'')"; cases "p ''vlogFileSize''"; cases "the (p ''vlogFileSize'')")
    (auto simp: badgerds_DatastoreConfigParser_def bindS_eq_Inr split: sum.split_asm,
      metis DiskSpecOf.simps(7) obj_sumE)

text \<open>
  Only what identifies a datastore on disk is in its disk specification: two
  specifications that agree on the type, the path and the shard function (and, through the
  wrappers, on the child) give the same disk specification whatever their run-time options.
\<close>

theorem disk_spec_ignores_runtime_options:
  "DiskSpecOf (measureDatastoreConfig c prefix) = DiskSpecOf c \<and>
   DiskSpecOf (logDatastoreConfig c name) = DiskSpecOf c \<and>
   (flatfs_DatastoreConfigParser e p = Inr d \<longrightarrow>
    flatfs_DatastoreConfigParser e (p(''sync'' \<mapsto> JBool b)) = Inr d' \<longrightarrow> DiskSpecOf d' = DiskSpecOf d) \<and>
   (levelds_DatastoreConfigParser p = Inr d \<longrightarrow>
    levelds_DatastoreConfigParser (p(''compression'' \<mapsto> j)) = Inr d' \<longrightarrow> DiskSpecOf d' = DiskSpecOf d) \<and>
   (badgerds_DatastoreConfigParser e p = Inr d \<longrightarrow> k \<in> {''syncWrites'', ''truncate'', ''vlogFileSize''} \<longrightarrow>
    badgerds_DatastoreConfigParser e (p(k \<mapsto> j)) = Inr d' \<longrightarrow> DiskSpecOf d' = DiskSpecOf d)"
  using flatfs_spec [of e p d] flatfs_spec [of e "p(''sync'' \<mapsto> JBool b)" d']
    levelds_spec [of p d] levelds_spec [of "p(''compression'' \<mapsto> j)" d']
    badgerds_spec [of e p d] badgerds_spec [of e "p(k \<mapsto> j)" d'] by auto

theorem disk_spec_ignores_runtime_options_witness:
  "DiskSpecOf (leveldsConfig ''ds'' SnappyCompression) = DiskSpecOf (leveldsConfig ''ds'' NoCompression)"
proof -
  let ?p = "[''path'' \<mapsto> JStr ''ds'', ''compression'' \<mapsto> JStr ''none'']"
  have "levelds_DatastoreConfigParser ?p = Inr (leveldsConfig ''ds'' NoCompression)"
    "levelds_DatastoreConfigParser (?p(''compression'' \<mapsto> JStr ''snappy'')) = Inr (leveldsConfig ''ds'' SnappyCompression)"
    by (simp_all add: levelds_DatastoreConfigParser_def)
  then show ?thesis
    using disk_spec_ignores_runtime_options
      [of "leveldsConfig ''ds'' NoCompression" "[]" "[]" demoEnv ?p "leveldsConfig ''ds'' NoCompression"
        True "leveldsConfig ''ds'' SnappyCompression" "JStr ''snappy''" "[]"] by blast
qed

text \<open>
  A mount whose \<^verbatim>\<open>mountpoint\<close> is there but is not a string does not give an error:
  the unchecked type assertion panics.
\<close>

theorem mountpoint_not_a_string_panics:
  assumes "registry e ''mount'' = Some mountParser" and "AnyDatastoreConfig e cfg = Inr child"
    and "cfg ''mountpoint'' = Some j" and "\<forall>s. j \<noteq> JStr s"
  shows "AnyDatastoreConfig e [''type'' \<mapsto> JStr ''mount'', ''mounts'' \<mapsto> JArr (JObj cfg # js)] = Inl DsPanic"
  using assms by (subst AnyDatastoreConfig.simps)
    (cases j; simp add: parseWith_def MountDatastoreConfig_def)

theorem mountpoint_not_a_string_panics_witness:
  "AnyDatastoreConfig demoEnv [''type'' \<mapsto> JStr ''mount'',
     ''mounts'' \<mapsto> JArr [JObj [''type'' \<mapsto> JStr ''mem'', ''mountpoint'' \<mapsto> JInt 7]]] = Inl DsPanic"
proof -
  have r: "registry demoEnv ''mount'' = Some mountParser" "registry demoEnv ''mem'' = Some memParser"
    by (simp_all add: demoEnv_def withPlugins_def AddDatastoreConfigHandler_def datastores_def)
  then have "AnyDatastoreConfig demoEnv [''type'' \<mapsto> JStr ''mem'', ''mountpoint'' \<mapsto> JInt 7]
      = Inr (memDatastoreConfig [''type'' \<mapsto> JStr ''mem'', ''mountpoint'' \<mapsto> JInt 7])"
    by (subst AnyDatastoreConfig.simps) (simp add: parseWith_def MemDatastoreConfig_def)
  then show ?thesis
    using mountpoint_not_a_string_panics [OF r(1), of _ _ "JInt 7" "[]"] by simp
qed

end
