(* ===== verification/Profiles.thy ===== *)
theory Profiles
  imports ConfigTypes RepoCommon Datastores "HOL-Library.Multiset"
begin

text \<open>
  \<^verbatim>\<open>config/config.go\<close>, \<^verbatim>\<open>config/init.go\<close>, \<^verbatim>\<open>config/profile.go\<close>,
  \<^verbatim>\<open>config/autonat.go\<close>, \<^verbatim>\<open>config/bootstrap_peers.go\<close>: the configuration as the
  commands see it, its initial value, and the profiles that transform it.

  \<^item> The record \<open>Config\<close> has the fields the profiles, the bootstrap list, the address
    filters and the secrets live in; the type parameter \<open>cOther\<close> stands for all other
    fields, which no operation here touches.  A nil slice and an empty one are both the
    empty list.
  \<^item> A Go map is an association list in the order in which a \<^verbatim>\<open>range\<close> over it happens to
    visit it.  Where a function builds a map and returns its keys, that order is the
    argument \<open>rangeOrder\<close>.
  \<^item> Multiaddresses are third-party: the record \<open>maOps\<close>.
\<close>

section \<open>The structure\<close>

record Identity =
  PeerID :: string
  PrivKey :: string

record Addresses =
  aSwarm :: "string list"
  aAnnounce :: "string list"
  aAppendAnnounce :: "string list"
  aNoAnnounce :: "string list"
  aAPI :: Strings
  aGateway :: Strings

record DatastoreSection =
  StorageMax :: string
  StorageGCWatermark :: i64
  GCPeriod :: string
  dsSpec :: jmap
  BloomFilterSize :: i64

record ConnMgr =
  cmType :: "OptionalString option"
  LowWater :: "OptionalInteger option"
  HighWater :: "OptionalInteger option"
  GracePeriod :: "OptionalDuration option"

record MfsPolicy =
  mfsEnable :: bool
  PinName :: string
  RepinInterval :: string

record PinService =
  Endpoint :: string
  svcKey :: string
  svcMFS :: MfsPolicy

datatype AutoNATServiceMode = AutoNATServiceUnset | AutoNATServiceEnabled | AutoNATServiceDisabled

record 'o Config =
  cIdentity :: Identity
  cDatastore :: DatastoreSection
  cAddresses :: Addresses
  mdnsEnabled :: bool
  routingType :: "OptionalString option"
  Bootstrap :: "string list"
  AddrFilters :: "string list"
  DisableNatPortMap :: bool
  cConnMgr :: ConnMgr
  ServiceMode :: AutoNATServiceMode
  reproviderInterval :: "OptionalDuration option"
  RemoteServices :: "(string \<times> PinService) list"
  cOther :: 'o

section \<open>The text form of the AutoNAT mode\<close>

definition AutoNAT_UnmarshalText :: "string \<Rightarrow> string + AutoNATServiceMode" where
  "AutoNAT_UnmarshalText txt =
     (if txt = [] then Inr AutoNATServiceUnset
      else if txt = ''enabled'' then Inr AutoNATServiceEnabled
      else if txt = ''disabled'' then Inr AutoNATServiceDisabled
      else Inl (''unknown autonat mode: '' @ txt))"

fun AutoNAT_MarshalText :: "AutoNATServiceMode \<Rightarrow> string" where
  "AutoNAT_MarshalText AutoNATServiceUnset = []"
| "AutoNAT_MarshalText AutoNATServiceEnabled = ''enabled''"
| "AutoNAT_MarshalText AutoNATServiceDisabled = ''disabled''"

lemma autonat_mode_round_trip:
  "AutoNAT_UnmarshalText (AutoNAT_MarshalText m) = Inr m"
  "AutoNAT_UnmarshalText t = Inr m \<Longrightarrow> AutoNAT_MarshalText m = t"
  by (cases m; simp add: AutoNAT_UnmarshalText_def)
     (auto simp: AutoNAT_UnmarshalText_def split: if_splits)

section \<open>Bootstrap addresses\<close>

record 'm AddrInfo =
  aiID :: string
  aiAddrs :: "'m list"

record 'm maOps =
  NewMultiaddr :: "string \<Rightarrow> 'm option"
  maString :: "'m \<Rightarrow> string"
  SplitP2P :: "'m \<Rightarrow> 'm option \<times> string option"
  joinP2P :: "'m option \<Rightarrow> string \<Rightarrow> 'm"
  AddrInfosFromP2pAddrs :: "'m list \<Rightarrow> 'm AddrInfo list option"

text \<open>
  \<open>SplitP2P\<close> is \<^verbatim>\<open>ma.SplitLast\<close> with the peer id of the last component when that is a
  \<^verbatim>\<open>/p2p/...\<close>; \<open>joinP2P\<close> appends one; \<open>AddrInfoToP2pAddrs\<close> is documented to give one
  address per transport, or the bare \<^verbatim>\<open>/p2p/...\<close> when the peer has none.
\<close>

definition AddrInfoToP2pAddrs :: "'m maOps \<Rightarrow> 'm AddrInfo \<Rightarrow> 'm list" where
  "AddrInfoToP2pAddrs mo pi =
     (if aiAddrs pi = [] then [joinP2P mo None (aiID pi)]
      else map (\<lambda>a. joinP2P mo (Some a) (aiID pi)) (aiAddrs pi))"

definition DefaultBootstrapAddresses :: "string list" where
  "DefaultBootstrapAddresses =
     [''/dnsaddr/bootstrap.libp2p.io/p2p/QmNnooDu7bfjPFoTZYxMNLWUQJyrVwtbZg5gBMjTezGAJN'',
      ''/dnsaddr/bootstrap.libp2p.io/p2p/QmQCU2EcMqAqQPR2i9bChDtGNJchTbq5TbXJJ16u19uLTa'',
      ''/dnsaddr/bootstrap.libp2p.io/p2p/QmbLHAnMoJPWSCR5Zhtx6BHJX9KiKNN6tpvbUcqanj75Nb'',
      ''/dnsaddr/bootstrap.libp2p.io/p2p/QmcZf59bWwK5XFi76CZX8cbJ4BhTzzA3gU1ZjYZcYW3dwt'',
      ''/ip4/104.131.131.82/tcp/4001/p2p/QmaCpDMGvV2BGHeYERUEnRQAwe3N8SzbUtfsmvsqQLuvuJ'',
      ''/ip4/104.131.131.82/udp/4001/quic/p2p/QmaCpDMGvV2BGHeYERUEnRQAwe3N8SzbUtfsmvsqQLuvuJ'']"

fun parseAll :: "'m maOps \<Rightarrow> string list \<Rightarrow> 'm list option" where
  "parseAll mo [] = Some []"
| "parseAll mo (a # as) =
     (case NewMultiaddr mo a of None \<Rightarrow> None
      | Some m \<Rightarrow> map_option (\<lambda>ms. m # ms) (parseAll mo as))"

definition ParseBootstrapPeers :: "'m maOps \<Rightarrow> string list \<Rightarrow> 'm AddrInfo list option" where
  "ParseBootstrapPeers mo addrs = Option.bind (parseAll mo addrs) (AddrInfosFromP2pAddrs mo)"

definition BootstrapPeerStrings :: "'m maOps \<Rightarrow> 'm AddrInfo list \<Rightarrow> string list" where
  "BootstrapPeerStrings mo bps = concat (map (\<lambda>pi. map (maString mo) (AddrInfoToP2pAddrs mo pi)) bps)"

definition BootstrapPeers :: "'m maOps \<Rightarrow> 'o Config \<Rightarrow> 'm AddrInfo list option" where
  "BootstrapPeers mo c = ParseBootstrapPeers mo (Bootstrap c)"

definition SetBootstrapPeers :: "'m maOps \<Rightarrow> 'm AddrInfo list \<Rightarrow> 'o Config \<Rightarrow> 'o Config" where
  "SetBootstrapPeers mo bps c = c\<lparr> Bootstrap := BootstrapPeerStrings mo bps \<rparr>"

definition DefaultBootstrapPeers :: "'m maOps \<Rightarrow> 'm AddrInfo list option" where
  "DefaultBootstrapPeers mo = ParseBootstrapPeers mo DefaultBootstrapAddresses"

section \<open>The initial configuration\<close>

definition addressesConfig :: Addresses where
  "addressesConfig =
     \<lparr> aSwarm =
         [''/ip4/0.0.0.0/tcp/4001'', ''/ip6/::/tcp/4001'', ''/ip4/0.0.0.0/udp/4001/quic'',
          ''/ip4/0.0.0.0/udp/4001/quic-v1'', ''/ip4/0.0.0.0/udp/4001/quic-v1/webtransport'',
          ''/ip6/::/udp/4001/quic'', ''/ip6/::/udp/4001/quic-v1'',
          ''/ip6/::/udp/4001/quic-v1/webtransport''],
       aAnnounce = [], aAppendAnnounce = [], aNoAnnounce = [],
       aAPI = [''/ip4/127.0.0.1/tcp/5001''], aGateway = [''/ip4/127.0.0.1/tcp/8080''] \<rparr>"

definition badgerSpec :: jmap where
  "badgerSpec =
     [''type'' \<mapsto> JStr ''measure'', ''prefix'' \<mapsto> JStr ''badger.datastore'',
      ''child'' \<mapsto> JObj [''type'' \<mapsto> JStr ''badgerds'', ''path'' \<mapsto> JStr ''badgerds'',
                         ''syncWrites'' \<mapsto> JBool False, ''truncate'' \<mapsto> JBool True]]"

definition flatfsSpec :: jmap where
  "flatfsSpec =
     [''type'' \<mapsto> JStr ''mount'',
      ''mounts'' \<mapsto> JArr
        [JObj [''mountpoint'' \<mapsto> JStr ''/blocks'', ''type'' \<mapsto> JStr ''measure'',
               ''prefix'' \<mapsto> JStr ''flatfs.datastore'',
               ''child'' \<mapsto> JObj [''type'' \<mapsto> JStr ''flatfs'', ''path'' \<mapsto> JStr ''blocks'',
                 ''sync'' \<mapsto> JBool True, ''shardFunc'' \<mapsto> JStr ''/repo/flatfs/shard/v1/next-to-last/2'']],
         JObj [''mountpoint'' \<mapsto> JStr ''/'', ''type'' \<mapsto> JStr ''measure'',
               ''prefix'' \<mapsto> JStr ''leveldb.datastore'',
               ''child'' \<mapsto> JObj [''type'' \<mapsto> JStr ''levelds'', ''path'' \<mapsto> JStr ''datastore'',
                 ''compression'' \<mapsto> JStr ''none'']]]]"

definition DefaultDatastoreConfig :: DatastoreSection where
  "DefaultDatastoreConfig =
     \<lparr> StorageMax = ''10GB'', StorageGCWatermark = 90, GCPeriod = ''1h'', dsSpec = flatfsSpec,
       BloomFilterSize = 0 \<rparr>"

definition emptyConnMgr :: ConnMgr where
  "emptyConnMgr = \<lparr> cmType = None, LowWater = None, HighWater = None, GracePeriod = None \<rparr>"

text \<open>\<^verbatim>\<open>InitWithIdentity\<close>; \<open>others\<close> are the initial values of the other fields.\<close>

definition InitWithIdentity :: "'m maOps \<Rightarrow> 'o \<Rightarrow> Identity \<Rightarrow> 'o Config option" where
  "InitWithIdentity mo others identity =
     (case DefaultBootstrapPeers mo of
        None \<Rightarrow> None
      | Some bootstrapPeers \<Rightarrow>
          Some \<lparr> cIdentity = identity, cDatastore = DefaultDatastoreConfig, cAddresses = addressesConfig,
                 mdnsEnabled = True, routingType = None,
                 Bootstrap = BootstrapPeerStrings mo bootstrapPeers,
                 AddrFilters = [], DisableNatPortMap = False, cConnMgr = emptyConnMgr,
                 ServiceMode = AutoNATServiceUnset, reproviderInterval = None,
                 RemoteServices = [], cOther = others \<rparr>)"

section \<open>Profiles\<close>

definition defaultServerFilters :: "string list" where
  "defaultServerFilters =
     [''/ip4/10.0.0.0/ipcidr/8'', ''/ip4/100.64.0.0/ipcidr/10'', ''/ip4/169.254.0.0/ipcidr/16'',
      ''/ip4/172.16.0.0/ipcidr/12'', ''/ip4/192.0.0.0/ipcidr/24'', ''/ip4/192.0.2.0/ipcidr/24'',
      ''/ip4/192.168.0.0/ipcidr/16'', ''/ip4/198.18.0.0/ipcidr/15'', ''/ip4/198.51.100.0/ipcidr/24'',
      ''/ip4/203.0.113.0/ipcidr/24'', ''/ip4/240.0.0.0/ipcidr/4'', ''/ip6/100::/ipcidr/64'',
      ''/ip6/2001:2::/ipcidr/48'', ''/ip6/2001:db8::/ipcidr/32'', ''/ip6/fc00::/ipcidr/7'',
      ''/ip6/fe80::/ipcidr/10'']"

text \<open>The two loops of \<^verbatim>\<open>appendSingle\<close>: \<open>m\<close> is the map of what was seen.\<close>

fun appendNew :: "string list \<Rightarrow> string list \<Rightarrow> string list \<Rightarrow> string list \<times> string list" where
  "appendNew out m [] = (out, m)"
| "appendNew out m (f # fs) =
     appendNew (if f \<in> set m then out else out @ [f]) (f # m) fs"

definition appendSingle :: "string list \<Rightarrow> string list \<Rightarrow> string list" where
  "appendSingle a b = (let (out, m) = appendNew [] [] a in fst (appendNew out m b))"

text \<open>\<^verbatim>\<open>deleteEntries\<close> fills a map, deletes from it, and returns its keys.\<close>

definition deleteEntries :: "(string list \<Rightarrow> string list) \<Rightarrow> string list \<Rightarrow> string list \<Rightarrow> string list" where
  "deleteEntries rangeOrder arr del = rangeOrder (filter (\<lambda>f. f \<notin> set del) (remdups arr))"

record 'm profileEnv =
  pe_ma :: "'m maOps"
  rangeOrder :: "string list \<Rightarrow> string list"
  availablePort :: "string + nat"

datatype ProfileName =
  pServer | pLocalDiscovery | pTest | pDefaultNetworking | pDefaultDatastore | pFlatfs | pBadgerds
| pLowpower | pRandomports

definition Profiles :: "(string \<times> ProfileName) list" where
  "Profiles =
     [(''server'', pServer), (''local-discovery'', pLocalDiscovery), (''test'', pTest),
      (''default-networking'', pDefaultNetworking), (''default-datastore'', pDefaultDatastore),
      (''flatfs'', pFlatfs), (''badgerds'', pBadgerds), (''lowpower'', pLowpower),
      (''randomports'', pRandomports)]"

definition InitOnly :: "ProfileName \<Rightarrow> bool" where
  "InitOnly p \<longleftrightarrow> p \<in> {pDefaultDatastore, pFlatfs, pBadgerds}"

definition profile_server :: "'o Config \<Rightarrow> 'o Config" where
  "profile_server c =
     c\<lparr> cAddresses := (cAddresses c)\<lparr> aNoAnnounce := appendSingle (aNoAnnounce (cAddresses c)) defaultServerFilters \<rparr>,
        AddrFilters := appendSingle (AddrFilters c) defaultServerFilters,
        mdnsEnabled := False, DisableNatPortMap := True \<rparr>"

definition profile_local_discovery :: "(string list \<Rightarrow> string list) \<Rightarrow> 'o Config \<Rightarrow> 'o Config" where
  "profile_local_discovery order c =
     c\<lparr> cAddresses := (cAddresses c)\<lparr> aNoAnnounce := deleteEntries order (aNoAnnounce (cAddresses c)) defaultServerFilters \<rparr>,
        AddrFilters := deleteEntries order (AddrFilters c) defaultServerFilters,
        mdnsEnabled := True, DisableNatPortMap := False \<rparr>"

definition profile_test :: "'o Config \<Rightarrow> 'o Config" where
  "profile_test c =
     c\<lparr> cAddresses := (cAddresses c)\<lparr> aAPI := [''/ip4/127.0.0.1/tcp/0''],
                                      aGateway := [''/ip4/127.0.0.1/tcp/0''],
                                      aSwarm := [''/ip4/127.0.0.1/tcp/0''] \<rparr>,
        DisableNatPortMap := True, Bootstrap := [], mdnsEnabled := False \<rparr>"

text \<open>
  The transformers work in place and an error leaves what they did before it; here only
  \<^verbatim>\<open>default-networking\<close> does something first.
\<close>

definition profile_default_networking :: "'m maOps \<Rightarrow> 'o Config \<Rightarrow> (string + unit) \<times> 'o Config" where
  "profile_default_networking mo c =
     (let c1 = c\<lparr> cAddresses := addressesConfig \<rparr> in
      case DefaultBootstrapPeers mo of
        None \<Rightarrow> (Inl ''failed to parse hardcoded bootstrap peers'', c1)
      | Some bootstrapPeers \<Rightarrow>
          (Inr (), c1\<lparr> Bootstrap := appendSingle (Bootstrap c) (BootstrapPeerStrings mo bootstrapPeers),
                       DisableNatPortMap := False, mdnsEnabled := True \<rparr>))"

definition profile_lowpower :: "'o Config \<Rightarrow> 'o Config" where
  "profile_lowpower c =
     c\<lparr> routingType := Some (NewOptionalString ''dhtclient''),
        ServiceMode := AutoNATServiceDisabled,
        reproviderInterval := Some (NewOptionalDuration 0),
        cConnMgr := \<lparr> cmType = Some (NewOptionalString ''basic''),
                      LowWater = Some \<lparr> oi_value = Some 20 \<rparr>,
                      HighWater = Some \<lparr> oi_value = Some 40 \<rparr>,
                      GracePeriod = Some (NewOptionalDuration 60000000000) \<rparr> \<rparr>"

definition profile_randomports :: "nat \<Rightarrow> 'o Config \<Rightarrow> 'o Config" where
  "profile_randomports port c =
     c\<lparr> cAddresses := (cAddresses c)\<lparr> aSwarm :=
          [''/ip4/0.0.0.0/tcp/'' @ decNat port, ''/ip6/::/tcp/'' @ decNat port] \<rparr> \<rparr>"

definition Transform :: "'m profileEnv \<Rightarrow> ProfileName \<Rightarrow> 'o Config \<Rightarrow> (string + unit) \<times> 'o Config" where
  "Transform e p c =
     (case p of
        pServer \<Rightarrow> (Inr (), profile_server c)
      | pLocalDiscovery \<Rightarrow> (Inr (), profile_local_discovery (rangeOrder e) c)
      | pTest \<Rightarrow> (Inr (), profile_test c)
      | pDefaultNetworking \<Rightarrow> profile_default_networking (pe_ma e) c
      | pDefaultDatastore \<Rightarrow> (Inr (), c\<lparr> cDatastore := (cDatastore c)\<lparr> dsSpec := flatfsSpec \<rparr> \<rparr>)
      | pFlatfs \<Rightarrow> (Inr (), c\<lparr> cDatastore := (cDatastore c)\<lparr> dsSpec := flatfsSpec \<rparr> \<rparr>)
      | pBadgerds \<Rightarrow> (Inr (), c\<lparr> cDatastore := (cDatastore c)\<lparr> dsSpec := badgerSpec \<rparr> \<rparr>)
      | pLowpower \<Rightarrow> (Inr (), profile_lowpower c)
      | pRandomports \<Rightarrow>
          (case availablePort e of
             Inl err \<Rightarrow> (Inl err, c) | Inr port \<Rightarrow> (Inr (), profile_randomports port c)))"

section \<open>Lists without duplicates\<close>

lemma appendNew_spec:
  "set m = set out \<Longrightarrow> distinct out \<Longrightarrow>
   (case appendNew out m fs of (out', m') \<Rightarrow>
      set m' = set out' \<and> distinct out' \<and> set out' = set out \<union> set fs \<and> (\<exists>r. out' = out @ r))"
proof (induction fs arbitrary: out m)
  case (Cons f fs)
  show ?case
  proof (cases "f \<in> set m")
    case True
    then show ?thesis using Cons.IH [of "f # m" out] Cons.prems by (auto simp: insert_absorb split: prod.splits)
  next
    case False
    then show ?thesis using Cons.IH [of "f # m" "out @ [f]"] Cons.prems by (auto split: prod.splits)
  qed
qed simp

lemma appendSingle_spec:
  "distinct (appendSingle a b) \<and> set (appendSingle a b) = set a \<union> set b"
proof -
  obtain out m where o: "appendNew [] [] a = (out, m)" by fastforce
  then have 1: "set m = set out" "distinct out" "set out = set a"
    using appendNew_spec [of "[]" "[]" a] by simp_all
  obtain out' m' where o': "appendNew out m b = (out', m')" by fastforce
  then have "distinct out'" "set out' = set out \<union> set b"
    using appendNew_spec [of m out b] 1 by simp_all
  with o o' 1 show ?thesis by (simp add: appendSingle_def)
qed

lemma appendNew_fresh:
  "distinct fs \<Longrightarrow> set fs \<inter> set m = {} \<Longrightarrow> fst (appendNew out m fs) = out @ fs"
  by (induction fs arbitrary: out m) auto

lemma appendSingle_Nil: "distinct b \<Longrightarrow> appendSingle [] b = b"
  by (simp add: appendSingle_def appendNew_fresh)

lemma appendSingle_known: "set b \<subseteq> set a \<Longrightarrow> distinct a \<Longrightarrow> appendSingle a b = a"
proof -
  have known: "set fs \<subseteq> set m \<Longrightarrow> fst (appendNew out m fs) = out" for out m fs
  proof (induction fs arbitrary: out m)
    case (Cons f fs)
    then have "set fs \<subseteq> set (f # m)" by auto
    then have "fst (appendNew out (f # m) fs) = out" by (rule Cons.IH)
    with Cons.prems show ?case by simp
  qed simp
  assume sub: "set b \<subseteq> set a" and d: "distinct a"
  obtain out m where o: "appendNew [] [] a = (out, m)" by fastforce
  have "out = a" using appendNew_fresh [of a "[]" "[]"] d o by simp
  moreover have "set m = set out" using appendNew_spec [of "[]" "[]" a] o by simp
  ultimately show ?thesis using known [of b m out] sub o by (simp add: appendSingle_def)
qed

end
