(* ===== verification/NodeOptions.thy ===== *)
theory NodeOptions
  imports Profiles
begin

text \<open>
  \<^verbatim>\<open>core/node/libp2p\<close>: what the configuration makes of the network stack.  Each constructor
  of the package returns options for the library \<^verbatim>\<open>libp2p\<close>; here an option is a value of the
  datatype \<open>p2pOpt\<close> that records its arguments.

  \<^item> The fields of the configuration that only node construction reads are in the record
    \<open>NodeSection\<close>, which fills the place of the other fields of \<open>Config\<close>.
  \<^item> Multiaddresses, address filters, the swarm key format and the connection manager are
    third-party: the record \<open>netOps\<close>.
  \<^item> \<^verbatim>\<open>log.Fatal\<close> ends the process, \<^verbatim>\<open>panic\<close> too: both are errors of the datatype
    \<open>setupErr\<close>.
\<close>

section \<open>Configuration\<close>

record RelayClient =
  rcEnabled :: Flag
  StaticRelays :: "string list"

record RelayService =
  rsEnabled :: Flag
  ConnectionDurationLimit :: "OptionalDuration option"
  ConnectionDataLimit :: "OptionalInteger option"
  ReservationTTL :: "OptionalDuration option"
  MaxReservations :: "OptionalInteger option"
  MaxCircuits :: "OptionalInteger option"
  BufferSize :: "OptionalInteger option"
  MaxReservationsPerPeer :: "OptionalInteger option"
  MaxReservationsPerIP :: "OptionalInteger option"
  MaxReservationsPerASN :: "OptionalInteger option"

record Transports =
  netQUIC :: Flag
  netTCP :: Flag
  netWebsocket :: Flag
  netRelay :: Flag
  netWebTransport :: Flag
  secTLS :: Priority
  secSECIO :: Priority
  secNoise :: Priority
  muxYamux :: Priority
  muxMplex :: Priority

record AutoNATThrottle =
  GlobalLimit :: i64
  PeerLimit :: i64
  thInterval :: OptionalDuration

record InternalBitswap =
  TaskWorkerCount :: OptionalInteger
  EngineBlockstoreWorkerCount :: OptionalInteger
  EngineTaskWorkerCount :: OptionalInteger
  MaxOutstandingBytesPerPeer :: OptionalInteger
  ProviderSearchDelay :: OptionalDuration

record NodeSection =
  DisableBandwidthMetrics :: bool
  DisableRelay :: bool
  EnableRelayHop :: bool
  EnableAutoRelay :: bool
  cRelayClient :: RelayClient
  cRelayService :: RelayService
  EnableHolePunching :: Flag
  cTransports :: Transports
  Throttle :: "AutoNATThrottle option"
  peeringPeers :: "string AddrInfo list"
  PubsubRouterName :: string
  DisableSigning :: bool
  SeenMessagesTTL :: "OptionalDuration option"
  RepublishPeriod :: string
  RecordLifetime :: string
  ResolveCacheSize :: i64
  reproviderStrategy :: "OptionalString option"
  dnsResolvers :: "(string \<times> string) list"
  MaxCacheTTL :: "OptionalDuration option"
  internalBitswap :: "InternalBitswap option"
  ShardingSizeThreshold :: "OptionalString option"
  ForceReachabilityAs :: "OptionalString option"
  HashOnRead :: bool
  expFilestore :: bool
  expUrlstore :: bool
  expGraphsync :: bool
  expAcceleratedDHT :: bool
  expStrategicProviding :: bool
  expSharding :: bool

type_synonym nodeConfig = "NodeSection Config"

section \<open>Options\<close>

datatype setupErr = SetupErr string | Fatal string | Panicked string

datatype transportKind = TCPTransport | WebsocketTransport | QUICTransport | WebTransportTransport

record relayResources =
  rrData :: i64
  rrDuration :: i64
  rrMaxCircuits :: i64
  rrBufferSize :: i64
  rrReservationTTL :: i64
  rrMaxReservations :: i64
  rrMaxReservationsPerIP :: i64
  rrMaxReservationsPerPeer :: i64
  rrMaxReservationsPerASN :: i64

datatype ('m, 'f) p2pOpt =
    EnableRelay | DisableRelayOpt
  | EnableRelayService relayResources
  | StaticAutoRelay "'m AddrInfo list"
  | PeerSourceAutoRelay
  | EnableHolePunchingOpt
  | NoListenAddrs
  | TransportOpt transportKind
  | SecurityOpt string
  | MuxerOpt string
  | ChainOptions "('m, 'f) p2pOpt list"
  | NoSecurity
  | NATPortMap
  | EnableNATService
  | AutoNATServiceRateLimit i64 i64 i64
  | ConnectionManagerOpt i64 i64 i64
  | UserAgentOpt string
  | ForceReachabilityPublic | ForceReachabilityPrivate
  | PrivateNetwork string
  | AddrsFactoryOpt "'m list \<Rightarrow> 'm list"
  | ConnectionGater "'f list"
  | BandwidthReporter
  | RoutingOpt
  | IdentityOpt string
  | PeerstoreOpt
  | ResolverOpt

record ('m, 'f) netOps =
  parseMultiaddr :: "string \<Rightarrow> string + 'm"
  parseMask :: "string \<Rightarrow> 'f option"
  addrBlocked :: "'f list \<Rightarrow> 'm \<Rightarrow> bool"
  addrBytes :: "'m \<Rightarrow> string"
  addrInfoFromString :: "string \<Rightarrow> string + 'm AddrInfo"
  newConnManager :: "i64 \<Rightarrow> i64 \<Rightarrow> i64 \<Rightarrow> string option"
  decodePSK :: "string \<Rightarrow> string + string"
  pskFingerprint :: "string \<Rightarrow> string"
  relayDefaults :: relayResources

text \<open>\<open>Flag.WithDefault\<close> panics on a value that is no flag.\<close>

definition flagOr :: "Flag \<Rightarrow> bool \<Rightarrow> setupErr + bool" where
  "flagOr f d = map_sum (\<lambda>_. Panicked ''invalid flag value'') id (Flag_WithDefault f d)"

fun mapS :: "('a \<Rightarrow> 'e + 'b) \<Rightarrow> 'a list \<Rightarrow> 'e + 'b list" where
  "mapS f [] = Inr []"
| "mapS f (x # xs) = bindS (f x) (\<lambda>y. bindS (mapS f xs) (\<lambda>ys. Inr (y # ys)))"

section \<open>Priorities\<close>

record 'o priorityOption =
  poPriority :: Priority
  poDefault :: Priority
  poOpt :: 'o

text \<open>The enabled ones; a wrong default panics.\<close>

fun enabledOptions :: "'o priorityOption list \<Rightarrow> setupErr + (int \<times> 'o) list" where
  "enabledOptions [] = Inr []"
| "enabledOptions (o' # os) =
     (case Priority_WithDefault (poPriority o') (poDefault o') of
        Inl _ \<Rightarrow> Inl (Panicked ''invalid priority'')
      | Inr (prio, ok) \<Rightarrow>
          bindS (enabledOptions os) (\<lambda>rest. Inr (if ok then (prio, poOpt o') # rest else rest)))"

text \<open>\<^verbatim>\<open>sort.Slice\<close> is an insertion sort, hence stable, on as few elements as are ever given to it.\<close>

definition prioritizeOptions :: "('m, 'f) p2pOpt priorityOption list \<Rightarrow> setupErr + ('m, 'f) p2pOpt" where
  "prioritizeOptions opts =
     bindS (enabledOptions opts) (\<lambda>enabled. Inr (ChainOptions (map snd (sort_key fst enabled))))"

section \<open>Transports, encryption, multiplexers\<close>

text \<open>\<open>fprint\<close> is the fingerprint of the swarm key of a private network.\<close>

definition addTransport :: "setupErr + bool \<Rightarrow> transportKind \<Rightarrow> transportKind list \<Rightarrow> setupErr + transportKind list" where
  "addTransport enabled t opts = bindS enabled (\<lambda>b. Inr (if b then opts @ [t] else opts))"

definition addPublicTransport :: "bool \<Rightarrow> Flag \<Rightarrow> transportKind \<Rightarrow> string \<Rightarrow> transportKind list \<Rightarrow> setupErr + transportKind list" where
  "addPublicTransport private flag t msg opts =
     bindS (flagOr flag (\<not> private)) (\<lambda>b.
       if \<not> b then Inr opts
       else if private then Inl (SetupErr msg)
       else Inr (opts @ [t]))"

definition TransportsOpts :: "Transports \<Rightarrow> string option \<Rightarrow> setupErr + ('m, 'f) p2pOpt list" where
  "TransportsOpts cfg fprint =
     (let private = (fprint \<noteq> None) in
      bindS (addTransport (flagOr (netTCP cfg) True) TCPTransport []) (\<lambda>o1.
      bindS (addTransport (flagOr (netWebsocket cfg) True) WebsocketTransport o1) (\<lambda>o2.
      bindS (addPublicTransport private (netQUIC cfg) QUICTransport
        ''QUIC transport does not support private networks, please disable Swarm.Transports.Network.QUIC'' o2) (\<lambda>o3.
      bindS (addPublicTransport private (netWebTransport cfg) WebTransportTransport
        ''WebTransport transport does not support private networks, please disable Swarm.Transports.Network.WebTransport'' o3) (\<lambda>o4.
        Inr (map TransportOpt o4))))))"

text \<open>\<^verbatim>\<open>PNet\<close>: the answer of the repository about its swarm key gives options and the fingerprint.\<close>

definition PNet :: "('m, 'f) netOps \<Rightarrow> string + string option \<Rightarrow> setupErr + ('m, 'f) p2pOpt list \<times> string option" where
  "PNet net swarmKey =
     (case swarmKey of
        Inl err \<Rightarrow> Inl (SetupErr err)
      | Inr None \<Rightarrow> Inr ([], None)
      | Inr (Some k) \<Rightarrow>
          (case decodePSK net k of
             Inl err \<Rightarrow> Inl (SetupErr (''failed to configure private network: '' @ err))
           | Inr psk \<Rightarrow> Inr ([PrivateNetwork psk], Some (pskFingerprint net psk))))"

definition BandwidthCounter :: "('m, 'f) p2pOpt list" where
  "BandwidthCounter = [BandwidthReporter]"

definition SecurityOpts :: "bool \<Rightarrow> Transports \<Rightarrow> setupErr + ('m, 'f) p2pOpt list" where
  "SecurityOpts enabled cfg =
     (if \<not> enabled then Inr [NoSecurity]
      else case Priority_WithDefault (secSECIO cfg) Disabled of
        Inl _ \<Rightarrow> Inl (Panicked ''invalid priority'')
      | Inr _ \<Rightarrow>
          bindS (prioritizeOptions
            [\<lparr> poPriority = secTLS cfg, poDefault = 200, poOpt = SecurityOpt ''/tls/1.0.0'' \<rparr>,
             \<lparr> poPriority = secNoise cfg, poDefault = 100, poOpt = SecurityOpt ''/noise'' \<rparr>]) (\<lambda>o'. Inr [o']))"

definition yamuxID :: string where "yamuxID = ''/yamux/1.0.0''"
definition mplexID :: string where "mplexID = ''/mplex/6.7.0''"

definition Fields :: "string \<Rightarrow> string list" where
  "Fields s = filter (\<lambda>p. p \<noteq> []) (splitc CHR '' '' (map (\<lambda>c. if isSpaceASCII c then CHR '' '' else c) s))"

text \<open>The loop over the muxers of the environment variable; \<open>enabled\<close> is the map of the names
  that were seen.\<close>

fun envMuxers :: "(string \<Rightarrow> bool) \<Rightarrow> string list \<Rightarrow> setupErr + ('m, 'f) p2pOpt list" where
  "envMuxers enabled [] = Inr []"
| "envMuxers enabled (tpt # tpts) =
     (if enabled tpt then Inl (SetupErr (''duplicate muxer found in LIBP2P_MUX_PREFS: '' @ tpt))
      else if tpt = yamuxID \<or> tpt = mplexID then
        bindS (envMuxers enabled tpts) (\<lambda>opts. Inr (MuxerOpt tpt # opts))
      else Inl (SetupErr (''unknown muxer: '' @ tpt)))"

definition makeSmuxTransportOption :: "string \<Rightarrow> Transports \<Rightarrow> setupErr + ('m, 'f) p2pOpt" where
  "makeSmuxTransportOption prefs cfg =
     (if prefs \<noteq> [] then bindS (envMuxers (\<lambda>_. False) (Fields prefs)) (\<lambda>opts. Inr (ChainOptions opts))
      else prioritizeOptions
        [\<lparr> poPriority = muxYamux cfg, poDefault = 100, poOpt = MuxerOpt yamuxID \<rparr>,
         \<lparr> poPriority = muxMplex cfg, poDefault = 200, poOpt = MuxerOpt mplexID \<rparr>])"

definition SmuxTransport :: "string \<Rightarrow> Transports \<Rightarrow> setupErr + ('m, 'f) p2pOpt list" where
  "SmuxTransport prefs cfg = bindS (makeSmuxTransportOption prefs cfg) (\<lambda>res. Inr [res])"

section \<open>Relays, hole punching, reachability\<close>

definition RelayTransport :: "bool \<Rightarrow> ('m, 'f) p2pOpt list" where
  "RelayTransport enableRelay = (if enableRelay then [EnableRelay] else [DisableRelayOpt])"

definition RelayServiceOpts :: "('m, 'f) netOps \<Rightarrow> bool \<Rightarrow> RelayService \<Rightarrow> ('m, 'f) p2pOpt list" where
  "RelayServiceOpts net enable relayOpts =
     (if enable then
        let def = relayDefaults net in
        [EnableRelayService
          \<lparr> rrData = OptionalInteger_WithDefault (ConnectionDataLimit relayOpts) (rrData def),
             rrDuration = OptionalDuration_WithDefault (ConnectionDurationLimit relayOpts) (rrDuration def),
             rrMaxCircuits = OptionalInteger_WithDefault (MaxCircuits relayOpts) (rrMaxCircuits def),
             rrBufferSize = OptionalInteger_WithDefault (BufferSize relayOpts) (rrBufferSize def),
             rrReservationTTL = OptionalDuration_WithDefault (ReservationTTL relayOpts) (rrReservationTTL def),
             rrMaxReservations = OptionalInteger_WithDefault (MaxReservations relayOpts) (rrMaxReservations def),
             rrMaxReservationsPerIP = OptionalInteger_WithDefault (MaxReservations relayOpts) (rrMaxReservationsPerIP def),
             rrMaxReservationsPerPeer = OptionalInteger_WithDefault (MaxReservations relayOpts) (rrMaxReservationsPerPeer def),
             rrMaxReservationsPerASN = OptionalInteger_WithDefault (MaxReservations relayOpts) (rrMaxReservationsPerASN def) \<rparr>]
      else [])"

datatype autoRelay = NoAutoRelay | StaticOnly | FedByPeers

definition MaybeAutoRelay :: "('m, 'f) netOps \<Rightarrow> string list \<Rightarrow> bool \<Rightarrow> setupErr + ('m, 'f) p2pOpt list \<times> autoRelay" where
  "MaybeAutoRelay net staticRelays enabled =
     (if \<not> enabled then Inr ([], NoAutoRelay)
      else if staticRelays \<noteq> [] then
        bindS (map_sum SetupErr id (mapS (addrInfoFromString net) staticRelays)) (\<lambda>static. Inr ([StaticAutoRelay static], StaticOnly))
      else Inr ([PeerSourceAutoRelay], FedByPeers))"

text \<open>
  The peer source hands on what the feeder offers until it has handed on \<open>numPeers\<close>; a
  negative number is no bound.  What it meets is a peer that is taken, a peer whose receiver
  has gone, the end of the feed or of its context.
\<close>

datatype 'p feed = Offered 'p | OfferedThenDone 'p | FeedClosed | CtxDone

fun peerSource :: "int \<Rightarrow> 'p feed list \<Rightarrow> 'p list" where
  "peerSource numPeers [] = []"
| "peerSource numPeers (ev # evs) =
     (if numPeers = 0 then []
      else case ev of Offered p \<Rightarrow> p # peerSource (numPeers - 1) evs | _ \<Rightarrow> [])"

definition HolePunching :: "Flag \<Rightarrow> bool \<Rightarrow> setupErr + ('m, 'f) p2pOpt list" where
  "HolePunching flag hasRelayClient =
     bindS (flagOr flag True) (\<lambda>enabled.
       if \<not> enabled then Inr []
       else if \<not> hasRelayClient then
         (if flag \<noteq> FlagDefault
          then Inl (Fatal ''Failed to enable `Swarm.EnableHolePunching`, it requires `Swarm.RelayClient.Enabled` to be true.'')
          else Inr [])
       else Inr [EnableHolePunchingOpt])"

definition ForceReachability :: "OptionalString option \<Rightarrow> setupErr + ('m, 'f) p2pOpt list" where
  "ForceReachability val =
     (if OptionalString_IsDefault val then Inr []
      else let v = OptionalString_WithDefault val ''unrecognized'' in
        if v = ''public'' then Inr [ForceReachabilityPublic]
        else if v = ''private'' then Inr [ForceReachabilityPrivate]
        else Inl (SetupErr (''unrecognized reachability option: '' @ v)))"

text \<open>A minute, in nanoseconds.\<close>

definition minuteNs :: i64 where "minuteNs = 60000000000"

definition AutoNATService :: "AutoNATThrottle option \<Rightarrow> ('m, 'f) p2pOpt list" where
  "AutoNATService throttle =
     EnableNATService #
     (case throttle of None \<Rightarrow> []
      | Some t \<Rightarrow> [AutoNATServiceRateLimit (GlobalLimit t) (PeerLimit t) (OptionalDuration_WithDefault (Some (thInterval t)) minuteNs)])"

definition ConnectionManager :: "('m, 'f) netOps \<Rightarrow> i64 \<Rightarrow> i64 \<Rightarrow> i64 \<Rightarrow> setupErr + ('m, 'f) p2pOpt list" where
  "ConnectionManager net low high grace =
     (case newConnManager net low high grace of
        Some err \<Rightarrow> Inl (SetupErr err)
      | None \<Rightarrow> Inr [ConnectionManagerOpt low high grace])"

section \<open>Addresses\<close>

definition AddrFiltersOpts :: "('m, 'f) netOps \<Rightarrow> string list \<Rightarrow> setupErr + 'f list \<times> ('m, 'f) p2pOpt list" where
  "AddrFiltersOpts net filters =
     bindS (mapS (\<lambda>s. case parseMask net s of
                        None \<Rightarrow> Inl (SetupErr (''incorrectly formatted address filter in config: '' @ s))
                      | Some f \<Rightarrow> Inr f) filters)
       (\<lambda>fs. Inr (fs, [ConnectionGater fs]))"

text \<open>The gater: dialling an address, accepting and securing a connection; the rest is allowed.\<close>

definition InterceptAddrDial :: "('m, 'f) netOps \<Rightarrow> 'f list \<Rightarrow> 'm \<Rightarrow> bool" where
  "InterceptAddrDial net f addr = (\<not> addrBlocked net f addr)"

definition InterceptAccept :: "('m, 'f) netOps \<Rightarrow> 'f list \<Rightarrow> 'm \<Rightarrow> bool" where
  "InterceptAccept net f remote = (\<not> addrBlocked net f remote)"

definition InterceptSecured :: "('m, 'f) netOps \<Rightarrow> 'f list \<Rightarrow> 'm \<Rightarrow> bool" where
  "InterceptSecured net f remote = (\<not> addrBlocked net f remote)"

fun readNoAnnounce :: "('m, 'f) netOps \<Rightarrow> string list \<Rightarrow> 'f list \<Rightarrow> string set \<Rightarrow> string + 'f list \<times> string set" where
  "readNoAnnounce net [] filters noAnnAddrs = Inr (filters, noAnnAddrs)"
| "readNoAnnounce net (addr # addrs) filters noAnnAddrs =
     (case parseMask net addr of
        Some f \<Rightarrow> readNoAnnounce net addrs (filters @ [f]) noAnnAddrs
      | None \<Rightarrow>
          (case parseMultiaddr net addr of
             Inl err \<Rightarrow> Inl err
           | Inr maddr \<Rightarrow> readNoAnnounce net addrs filters (insert (addrBytes net maddr) noAnnAddrs)))"

definition makeAddrsFactory ::
  "('m, 'f) netOps \<Rightarrow> string list \<Rightarrow> string list \<Rightarrow> string list \<Rightarrow> string + ('m list \<Rightarrow> 'm list)" where
  "makeAddrsFactory net announce appendAnnounce noAnnounce =
     bindS (mapS (parseMultiaddr net) announce) (\<lambda>annAddrs.
     bindS (mapS (parseMultiaddr net) (filter (\<lambda>a. a \<notin> set announce) appendAnnounce)) (\<lambda>appendAnnAddrs.
     bindS (readNoAnnounce net noAnnounce [] {}) (\<lambda>(filters, noAnnAddrs).
       Inr (\<lambda>allAddrs.
         filter (\<lambda>maddr. addrBytes net maddr \<notin> noAnnAddrs \<and> \<not> addrBlocked net filters maddr)
           ((if annAddrs \<noteq> [] then annAddrs else allAddrs) @ appendAnnAddrs)))))"

definition AddrsFactory :: "('m, 'f) netOps \<Rightarrow> string list \<Rightarrow> string list \<Rightarrow> string list \<Rightarrow> setupErr + ('m, 'f) p2pOpt list" where
  "AddrsFactory net announce appendAnnounce noAnnounce =
     (case makeAddrsFactory net announce appendAnnounce noAnnounce of
        Inl err \<Rightarrow> Inl (SetupErr err)
      | Inr factory \<Rightarrow> Inr [AddrsFactoryOpt factory])"

definition listenAddresses :: "('m, 'f) netOps \<Rightarrow> string list \<Rightarrow> string + 'm list" where
  "listenAddresses net addresses =
     mapS (\<lambda>a. map_sum (\<lambda>_. ''failure to parse config.Addresses.Swarm: ['' @ joinc '' '' addresses @ '']'') id (parseMultiaddr net a)) addresses"

text \<open>\<open>listen\<close> and \<open>interfaceAddrs\<close> are calls of the host's network.\<close>

definition StartListening ::
  "('m, 'f) netOps \<Rightarrow> string list \<Rightarrow> ('m list \<Rightarrow> string option) \<Rightarrow> string option \<Rightarrow> string option" where
  "StartListening net addresses listen interfaceAddrs =
     (case listenAddresses net addresses of
        Inl err \<Rightarrow> Some err
      | Inr listenAddrs \<Rightarrow> (case listen listenAddrs of Some err \<Rightarrow> Some err | None \<Rightarrow> interfaceAddrs))"

section \<open>The host\<close>

text \<open>
  \<open>hostOption\<close> builds a host from options; the second component is the routing that the
  option \<open>RoutingOpt\<close> stored if the library ran it.  \<open>routingOption\<close> builds a routing for a
  host, \<open>wrap\<close> is \<^verbatim>\<open>routedhost.Wrap\<close>.
\<close>

definition Host ::
  "string option \<Rightarrow> string option \<Rightarrow> (('m, 'f) p2pOpt list \<Rightarrow> (string + 'h) \<times> 'r option) \<Rightarrow> ('h \<Rightarrow> string + 'r) \<Rightarrow>
   ('h \<Rightarrow> 'r \<Rightarrow> 'h) \<Rightarrow> ('m, 'f) p2pOpt list list \<Rightarrow> string + 'h \<times> 'r" where
  "Host configErr bootstrapErr hostOption routingOption wrap groups =
     (case configErr of
        Some err \<Rightarrow> Inl err
      | None \<Rightarrow>
          (case bootstrapErr of
             Some err \<Rightarrow> Inl err
           | None \<Rightarrow>
               (case hostOption ([NoListenAddrs] @ List.concat groups @ [RoutingOpt]) of
                  (Inl err, _) \<Rightarrow> Inl err
                | (Inr h, Some r) \<Rightarrow> Inr (h, r)
                | (Inr h, None) \<Rightarrow>
                    (case routingOption h of
                       Inl err \<Rightarrow> Inl err
                     | Inr r \<Rightarrow> Inr (wrap h r, r)))))"

definition constructPeerHost ::
  "(string \<Rightarrow> string option) \<Rightarrow> (('m, 'f) p2pOpt list \<Rightarrow> string + 'h) \<Rightarrow> string \<Rightarrow> ('m, 'f) p2pOpt list \<Rightarrow> string + 'h" where
  "constructPeerHost privKeyOf newLibp2p pid options =
     (case privKeyOf pid of
        None \<Rightarrow> Inl (''missing private key for node ID: '' @ pid)
      | Some pkey \<Rightarrow> newLibp2p ([IdentityOpt pkey, PeerstoreOpt] @ options))"

text \<open>\<open>addPub\<close> and \<open>addPriv\<close> are calls of the peerstore.\<close>

definition PstoreAddSelfKeys :: "string option \<Rightarrow> string option \<Rightarrow> string option" where
  "PstoreAddSelfKeys addPub addPriv = (case addPub of Some err \<Rightarrow> Some err | None \<Rightarrow> addPriv)"

end
