(* ===== verification/NodeRouting.thy ===== *)
theory NodeRouting
  imports NodeOptions Routing
begin

text \<open>
  How a node finds its routers and its first peers: \<^verbatim>\<open>core/node/libp2p/routing.go\<close> and
  \<^verbatim>\<open>routingopt.go\<close>, the composer of \<^verbatim>\<open>routing/composer.go\<close>, and
  \<^verbatim>\<open>core/bootstrap/bootstrap.go\<close>.

  \<^item> A Go interface value is nil, or it holds a pointer, which may itself be nil: the two are
    different values, and only the first equals \<^verbatim>\<open>nil\<close>.
  \<^item> The DHT, the HTTP clients, the parallel router and \<^verbatim>\<open>multierror\<close> are third-party.
  \<^item> \<open>bsStep\<close> is the step relation of \<^verbatim>\<open>Bootstrap\<close> and the goroutines it starts: the ticker
    starts a new round at any moment, a round waits on an unbuffered channel before it ends.
\<close>

section \<open>The composer\<close>

datatype routeErr = RoutingNotFound | RouteErr string

record ('c, 'k, 'p) routerImpl =
  rProvide :: "'c \<Rightarrow> bool \<Rightarrow> routeErr option"
  rProvideMany :: "('k list \<Rightarrow> routeErr option) option"
  rReady :: bool
  rFindProviders :: "'c \<Rightarrow> int \<Rightarrow> 'p list"
  rFindPeer :: "'p \<Rightarrow> routeErr + 'p"
  rPutValue :: "string \<Rightarrow> string \<Rightarrow> routeErr option"
  rGetValue :: "string \<Rightarrow> routeErr + string"
  rSearchValue :: "string \<Rightarrow> string list option \<times> routeErr option"
  rBootstrap :: "routeErr option"

text \<open>\<open>rProvideMany\<close> is \<open>None\<close> for a router that is no \<^verbatim>\<open>ProvideManyRouter\<close>; a channel is the
  list of what comes out of it, \<open>None\<close> when it is nil.\<close>

record ('c, 'k, 'p) composerOf =
  coGetValue :: "('c, 'k, 'p) routerImpl"
  coPutValue :: "('c, 'k, 'p) routerImpl"
  coFindPeers :: "('c, 'k, 'p) routerImpl"
  coFindProviders :: "('c, 'k, 'p) routerImpl"
  coProvide :: "('c, 'k, 'p) routerImpl"

definition coProvideOp :: "('c, 'k, 'p) composerOf \<Rightarrow> 'c \<Rightarrow> bool \<Rightarrow> routeErr option" where
  "coProvideOp c k b = rProvide (coProvide c) k b"

definition ProvideMany :: "('c, 'k, 'p) composerOf \<Rightarrow> 'k list \<Rightarrow> routeErr option" where
  "ProvideMany c keys = (case rProvideMany (coProvide c) of None \<Rightarrow> None | Some f \<Rightarrow> f keys)"

definition Ready :: "('c, 'k, 'p) composerOf \<Rightarrow> bool" where
  "Ready c = (case rProvideMany (coProvide c) of None \<Rightarrow> True | Some _ \<Rightarrow> rReady (coProvide c))"

definition FindProvidersAsync :: "('c, 'k, 'p) composerOf \<Rightarrow> 'c \<Rightarrow> int \<Rightarrow> 'p list" where
  "FindProvidersAsync c k n = rFindProviders (coFindProviders c) k n"

definition FindPeer :: "('c, 'k, 'p) composerOf \<Rightarrow> 'p \<Rightarrow> routeErr + 'p" where
  "FindPeer c p = rFindPeer (coFindPeers c) p"

definition PutValue :: "('c, 'k, 'p) composerOf \<Rightarrow> string \<Rightarrow> string \<Rightarrow> routeErr option" where
  "PutValue c k v = rPutValue (coPutValue c) k v"

definition GetValue :: "('c, 'k, 'p) composerOf \<Rightarrow> string \<Rightarrow> routeErr + string" where
  "GetValue c k = rGetValue (coGetValue c) k"

definition SearchValue :: "('c, 'k, 'p) composerOf \<Rightarrow> string \<Rightarrow> string list option \<times> routeErr option" where
  "SearchValue c k =
     (case rSearchValue (coGetValue c) k of
        (ch, err) \<Rightarrow> if err = Some RoutingNotFound \<and> ch = None then (Some [], err) else (ch, err))"

text \<open>
  The type of an error: nil, or an interface that holds a pointer to a multi-error.
  \<^verbatim>\<open>multierror.Append\<close>, the parameter \<open>addErrors\<close>, returns such a pointer, and returning it as an
  \<^verbatim>\<open>error\<close> wraps it in an interface.
\<close>

datatype 'e errorIface = NilError | MultiErrorPtr "'e option"

definition composerBootstrap ::
  "(routeErr option \<Rightarrow> routeErr option list \<Rightarrow> 'e option) \<Rightarrow> ('c, 'k, 'p) composerOf \<Rightarrow> 'e errorIface" where
  "composerBootstrap addErrors c =
     MultiErrorPtr (addErrors (rBootstrap (coFindPeers c))
       [rBootstrap (coFindProviders c), rBootstrap (coGetValue c), rBootstrap (coPutValue c), rBootstrap (coProvide c)])"

section \<open>The routing of a configuration\<close>

text \<open>The routers that construction makes; a \<open>Parallel\<close> lists its routers with whether their
  errors are ignored and their timeout in seconds.\<close>

datatype routingT =
    DualDHT DHTMode
  | HTTPRouting string
  | NullRouting
  | ComposerRouting routingT routingT routingT routingT routingT
  | ParallelRouting "(routingT \<times> bool \<times> nat) list"
  | CustomRouting Composer
  | OfflineRouter
  | PubsubRouter

text \<open>\<open>ComposerRouting\<close> has the routers for getting values, putting values, finding peers,
  finding providers and providing, in this order.\<close>

record routingEnv =
  newDual :: "DHTMode \<Rightarrow> string + routingT"
  newHTTPRouter :: "string \<Rightarrow> string + routingT"
  envHTTPRouters :: string

definition defaultHTTPRouters :: "routingEnv \<Rightarrow> string list" where
  "defaultHTTPRouters env =
     (if envHTTPRouters env \<noteq> [] then splitc CHR '' '' (envHTTPRouters env) else [''https://cid.contact''])"

definition constructDHTRouting :: "routingEnv \<Rightarrow> DHTMode \<Rightarrow> string + routingT" where
  "constructDHTRouting env mode = newDual env mode"

definition appendHTTPRouter :: "routingEnv \<Rightarrow> string \<Rightarrow> string + routingT \<times> bool \<times> nat" where
  "appendHTTPRouter env endpoint =
     bindS (newHTTPRouter env endpoint) (\<lambda>h.
       Inr (ComposerRouting NullRouting NullRouting NullRouting h NullRouting, True, 15))"

definition ConstructDefaultRouting :: "routingEnv \<Rightarrow> string + routingT" where
  "ConstructDefaultRouting env =
     bindS (constructDHTRouting env DHTModeAuto) (\<lambda>dhtRouting.
     bindS (mapS (appendHTTPRouter env) (defaultHTTPRouters env)) (\<lambda>https.
       Inr (ParallelRouting ((dhtRouting, False, 5 * 60) # https))))"

definition ConstructDelegatedRouting :: "rtEnv \<Rightarrow> (string \<times> Router) list \<Rightarrow> Methods \<Rightarrow> rt_err + routingT" where
  "ConstructDelegatedRouting e routers methods = map_sum id CustomRouting (Parse e routers methods)"

definition constructNilRouting :: "string + routingT" where
  "constructNilRouting = Inr NullRouting"

section \<open>The routers of a node\<close>

text \<open>A DHT pointer: \<open>None\<close> is nil; the flag says whether its WAN side is active.\<close>

record dualDHT =
  dhtName :: string
  WANActive :: bool

datatype initialRouter =
    IsDHT dualDHT
  | Composable "initialRouter list"
  | OtherInitial string

datatype dhtClient = NilClient | DualPtr "dualDHT option" | FullRTClient

record p2pRouter =
  prName :: "initialRouter + string"
  prPriority :: int

record baseOut =
  boRouter :: p2pRouter
  boDHT :: "dualDHT option"
  boDHTClient :: dhtClient
  boContent :: "initialRouter + string"
  boCloses :: "string list"

fun firstDHT :: "initialRouter list \<Rightarrow> dualDHT option" where
  "firstDHT [] = None"
| "firstDHT (IsDHT d # rs) = Some d"
| "firstDHT (_ # rs) = firstDHT rs"

definition findDHT :: "initialRouter \<Rightarrow> dualDHT option" where
  "findDHT r = (case r of IsDHT d \<Rightarrow> Some d | Composable rs \<Rightarrow> firstDHT rs | OtherInitial _ \<Rightarrow> None)"

text \<open>The errors are those of the configuration, of its bootstrap peers and of the client.\<close>

definition BaseRouting :: "bool \<Rightarrow> string option \<Rightarrow> string option \<Rightarrow> string option \<Rightarrow> initialRouter \<Rightarrow> string + baseOut" where
  "BaseRouting experimentalDHTClient configErr bootstrapErr fullRTErr router =
     (let dr = findDHT router;
          closes = (case dr of None \<Rightarrow> [] | Some d \<Rightarrow> [dhtName d])
      in if dr \<noteq> None \<and> experimentalDHTClient then
           (case configErr of
              Some err \<Rightarrow> Inl err
            | None \<Rightarrow>
                (case bootstrapErr of
                   Some err \<Rightarrow> Inl err
                 | None \<Rightarrow>
                     (case fullRTErr of
                        Some err \<Rightarrow> Inl err
                      | None \<Rightarrow>
                          Inr \<lparr> boRouter = \<lparr> prName = Inr ''fullrt'', prPriority = 1000 \<rparr>, boDHT = dr,
                             boDHTClient = FullRTClient, boContent = Inr ''fullrt'', boCloses = closes @ [''fullrt''] \<rparr>)))
         else Inr \<lparr> boRouter = \<lparr> prName = Inl router, prPriority = 1000 \<rparr>, boDHT = dr,
             boDHTClient = DualPtr dr, boContent = Inl router, boCloses = closes \<rparr>)"

text \<open>\<^verbatim>\<open>ContentRouting\<close> tiers the content routers in the order in which they come.\<close>

definition ContentRouting :: "'r list \<Rightarrow> 'r list" where
  "ContentRouting crs = crs"

text \<open>\<^verbatim>\<open>Routing\<close>: a stable sort by priority, and a timeout of five minutes with errors ignored.\<close>

definition RoutingOf :: "p2pRouter list \<Rightarrow> (p2pRouter \<times> bool \<times> nat) list" where
  "RoutingOf routers = map (\<lambda>v. (v, True, 5 * 60)) (sort_key prPriority routers)"

definition OfflineRouting :: p2pRouter where
  "OfflineRouting = \<lparr> prName = Inr ''offline'', prPriority = 10000 \<rparr>"

definition PubsubRouterOut :: "string option \<Rightarrow> string + p2pRouter" where
  "PubsubRouterOut err = (case err of Some e \<Rightarrow> Inl e | None \<Rightarrow> Inr \<lparr> prName = Inr ''ipns-pubsub'', prPriority = 100 \<rparr>)"

text \<open>
  One tick of the feeder of the auto relay: the trusted peers, then the closest peers the DHT
  knows, those with addresses only.  \<open>closest\<close> is \<open>None\<close> without a DHT and an error when the
  query fails; the context is done after \<open>budget\<close> peers.
\<close>

definition feedTick ::
  "string AddrInfo list \<Rightarrow> (string + string list) option \<Rightarrow> (string \<Rightarrow> string list) \<Rightarrow> nat \<Rightarrow> string AddrInfo list" where
  "feedTick trusted closest addrsOf budget =
     take budget
       (filter (\<lambda>p. aiAddrs p \<noteq> []) trusted @
        (case closest of
           Some (Inr ps) \<Rightarrow> filter (\<lambda>p. aiAddrs p \<noteq> []) (map (\<lambda>p. \<lparr> aiID = p, aiAddrs = addrsOf p \<rparr>) ps)
         | _ \<Rightarrow> []))"

text \<open>The head of \<^verbatim>\<open>ipfs dht query\<close> (\<^verbatim>\<open>core/commands/dht.go\<close>): which client is asked.\<close>

datatype queryTarget = AskWAN | AskLAN | AskFullRT | AskDual

datatype queryErr = ErrNotDHT | InvalidPeerID | NilDereference

definition queryDht :: "dhtClient \<Rightarrow> dualDHT option \<Rightarrow> bool \<Rightarrow> queryErr + queryTarget" where
  "queryDht client dht idOk =
     (if client = NilClient then Inl ErrNotDHT
      else if \<not> idOk then Inl InvalidPeerID
      else if client = DualPtr dht then
        (case dht of
           None \<Rightarrow> Inl NilDereference
         | Some d \<Rightarrow> Inr (if WANActive d then AskWAN else AskLAN))
      else Inr (if client = FullRTClient then AskFullRT else AskDual))"

section \<open>A bootstrap round\<close>

record bootstrapConfig =
  MinPeerThreshold :: nat
  bootPeers :: "string AddrInfo list"

datatype bootErr = ErrNotEnoughBootstrapPeers | FailedToBootstrap string

text \<open>\<open>perm n\<close> is \<^verbatim>\<open>rand.Perm(n)\<close>.\<close>

definition randomSubsetOfPeers :: "(nat \<Rightarrow> nat list) \<Rightarrow> 'p list \<Rightarrow> nat \<Rightarrow> 'p list" where
  "randomSubsetOfPeers perm ps most =
     (let k = (if most > length ps then length ps else most) in map (\<lambda>i. ps ! i) (take k (perm (length ps))))"

text \<open>\<open>connect\<close> is the answer of \<^verbatim>\<open>host.Connect\<close>, \<open>order\<close> the order in which the errors come.\<close>

definition bootstrapConnect ::
  "('p \<Rightarrow> string option) \<Rightarrow> (string list \<Rightarrow> string list) \<Rightarrow> 'p list \<Rightarrow> bootErr option" where
  "bootstrapConnect connect order peers =
     (if length peers < 1 then Some ErrNotEnoughBootstrapPeers
      else let errs = order (List.map_filter connect peers) in
        if length errs = length peers then Some (FailedToBootstrap (List.last errs)) else None)"

text \<open>The result and the peers that are dialled.\<close>

definition bootstrapRound ::
  "(nat \<Rightarrow> nat list) \<Rightarrow> (string AddrInfo \<Rightarrow> string option) \<Rightarrow> (string list \<Rightarrow> string list) \<Rightarrow> (string \<Rightarrow> bool) \<Rightarrow> nat \<Rightarrow>
   bootstrapConfig \<Rightarrow> bootErr option \<times> string AddrInfo list" where
  "bootstrapRound perm connect order isConnected connected cfg =
     (if connected \<ge> MinPeerThreshold cfg then (None, [])
      else
        let numToDial = MinPeerThreshold cfg - connected;
            notConnected = filter (\<lambda>p. \<not> isConnected (aiID p)) (bootPeers cfg)
        in if length notConnected < 1 then (Some ErrNotEnoughBootstrapPeers, [])
           else let randSubset = randomSubsetOfPeers perm notConnected numToDial
                in (bootstrapConnect connect order randSubset, randSubset))"

definition DefaultBootstrapConfig :: bootstrapConfig where
  "DefaultBootstrapConfig = \<lparr> MinPeerThreshold = 4, bootPeers = [] \<rparr>"

definition BootstrapConfigWithPeers :: "string AddrInfo list \<Rightarrow> bootstrapConfig" where
  "BootstrapConfigWithPeers pis = DefaultBootstrapConfig\<lparr> bootPeers := pis \<rparr>"

section \<open>Bootstrapping\<close>

text \<open>The main goroutine of \<^verbatim>\<open>Bootstrap\<close> and the rounds it has started.\<close>

datatype bsPc = Starting | BootingRouting | ClosingProc string | Sending | ClosingChan | Returned "string option"

datatype roundPc = Connecting | WaitingForMain | RoundEnded

record bsState =
  bsPcOf :: bsPc
  bsRounds :: "roundPc list"
  bsChanClosed :: bool

definition bsInit :: bsState where
  "bsInit = \<lparr> bsPcOf = Starting, bsRounds = [], bsChanClosed = False \<rparr>"

text \<open>
  \<open>rt\<close> is the routing: none, or what its \<^verbatim>\<open>Bootstrap\<close> answers.  \<open>closeReturns\<close> says when
  \<^verbatim>\<open>Close\<close> of the process that owns the rounds can return.
\<close>

inductive bsStep :: "string option option \<Rightarrow> (roundPc list \<Rightarrow> bool) \<Rightarrow> bsState \<Rightarrow> bsState \<Rightarrow> bool"
  for rt :: "string option option" and closeReturns :: "roundPc list \<Rightarrow> bool" where
  runNow: "bsPcOf s = Starting \<Longrightarrow>
    bsStep rt closeReturns s (s\<lparr> bsPcOf := BootingRouting, bsRounds := bsRounds s @ [Connecting] \<rparr>)"
| tick: "bsPcOf s \<noteq> Starting \<Longrightarrow> bsStep rt closeReturns s (s\<lparr> bsRounds := bsRounds s @ [Connecting] \<rparr>)"
| roundDone: "i < length (bsRounds s) \<Longrightarrow> bsRounds s ! i = Connecting \<Longrightarrow>
    bsStep rt closeReturns s (s\<lparr> bsRounds := (bsRounds s)[i := WaitingForMain] \<rparr>)"
| routingFailed: "bsPcOf s = BootingRouting \<Longrightarrow> rt = Some (Some err) \<Longrightarrow>
    bsStep rt closeReturns s (s\<lparr> bsPcOf := ClosingProc err \<rparr>)"
| routingBooted: "bsPcOf s = BootingRouting \<Longrightarrow> rt = None \<or> rt = Some None \<Longrightarrow>
    bsStep rt closeReturns s (s\<lparr> bsPcOf := Sending \<rparr>)"
| procClosed: "bsPcOf s = ClosingProc err \<Longrightarrow> closeReturns (bsRounds s) \<Longrightarrow>
    bsStep rt closeReturns s (s\<lparr> bsPcOf := Returned (Some err) \<rparr>)"
| sent: "bsPcOf s = Sending \<Longrightarrow> i < length (bsRounds s) \<Longrightarrow> bsRounds s ! i = WaitingForMain \<Longrightarrow>
    bsStep rt closeReturns s (s\<lparr> bsPcOf := ClosingChan, bsRounds := (bsRounds s)[i := RoundEnded] \<rparr>)"
| chanClosed: "bsPcOf s = ClosingChan \<Longrightarrow>
    bsStep rt closeReturns s (s\<lparr> bsPcOf := Returned None, bsChanClosed := True \<rparr>)"
| received: "bsChanClosed s \<Longrightarrow> i < length (bsRounds s) \<Longrightarrow> bsRounds s ! i = WaitingForMain \<Longrightarrow>
    bsStep rt closeReturns s (s\<lparr> bsRounds := (bsRounds s)[i := RoundEnded] \<rparr>)"

inductive bsReach :: "string option option \<Rightarrow> (roundPc list \<Rightarrow> bool) \<Rightarrow> bsState \<Rightarrow> bool"
  for rt :: "string option option" and closeReturns :: "roundPc list \<Rightarrow> bool" where
  start: "bsReach rt closeReturns bsInit"
| next_step: "bsReach rt closeReturns s \<Longrightarrow> bsStep rt closeReturns s s' \<Longrightarrow> bsReach rt closeReturns s'"

text \<open>\<^verbatim>\<open>IpfsNode.Bootstrap\<close>: what it does before it calls \<^verbatim>\<open>Bootstrap\<close>.\<close>

datatype nodeBootstrap = NothingToDo | BootstrapWith bool bootstrapConfig

definition nodeBootstrapStep :: "bool \<Rightarrow> bool \<Rightarrow> string AddrInfo list option \<Rightarrow> nat \<times> string AddrInfo list option \<Rightarrow> nodeBootstrap" where
  "nodeBootstrapStep hasRouting hasBootstrapper configPeers given =
     (if \<not> hasRouting then NothingToDo
      else BootstrapWith hasBootstrapper
        \<lparr> MinPeerThreshold = fst given,
           bootPeers = (case snd given of Some ps \<Rightarrow> ps | None \<Rightarrow> (case configPeers of None \<Rightarrow> [] | Some ps \<Rightarrow> ps)) \<rparr>)"

end
