(* ===== verification/NodeBuild.thy ===== *)
theory NodeBuild
  imports NodeRouting
begin

text \<open>
  \<^verbatim>\<open>core/node\<close> and \<^verbatim>\<open>core/builder.go\<close>: from a build configuration and a repository to the
  parts of a node.

  \<^item> A part that is handed to the container \<^verbatim>\<open>fx\<close> is a value of \<open>fxUnit\<close>; \<^verbatim>\<open>fx.Options\<close> is a
    list of them, \<^verbatim>\<open>fx.Error\<close> the unit \<open>ErrorUnit\<close>.  A group that ends the process gives an
    error instead.
  \<^item> \<open>unitOptions\<close> is what a unit contributes to the options of the network stack once the
    container runs it; \<open>libp2pOptions\<close> collects them as \<open>Host\<close> receives them.
\<close>

section \<open>Units\<close>

datatype keyStrategy = AllBlocks | PinnedOnly bool

record cacheOpts =
  HasBloomFilterSize :: i64

record bitswapOpts =
  bwProvide :: bool
  bwSearchDelay :: i64
  bwBlockstoreWorkers :: i64
  bwTaskWorkers :: i64
  bwEngineTaskWorkers :: i64
  bwMaxBytesPerPeer :: i64

datatype (plugins only: code size) fxUnit =
    ErrorUnit string
  | RepoUnit | HostOptionUnit | RoutingOptionUnit | MetricsUnit | BaseProcessUnit
  | RepoConfigUnit | DatastoreUnit | BaseBlockstoreUnit cacheOpts bool bool | GcBlockstoreUnit | FilestoreBlockstoreUnit
  | PeerIDUnit string | PrivateKeyUnit string | PeerstoreUnit | SelfKeysUnit
  | RecordValidatorUnit
  | BitswapUnit bitswapOpts | OnlineExchangeUnit | GraphsyncUnit | DNSResolverUnit | NamesysUnit i64 | PeeringUnit
  | PeerWithUnit "string AddrInfo list" | RepublisherUnit i64 i64 | P2PUnit
  | BaseLibP2PUnit | UserAgentUnit | ResourceManagerUnit | AddrFiltersUnit "string list"
  | AddrsFactoryUnit "string list" "string list" "string list" | SmuxUnit Transports | RelayTransportUnit bool
  | RelayServiceUnit bool RelayService | TransportsUnit Transports | ListenUnit "string list" | DiscoveryUnit bool
  | ReachabilityUnit "OptionalString option" | HolePunchingUnit Flag bool | SecurityUnit bool Transports
  | RoutingUnit | ContentRoutingUnit | BaseRoutingUnit bool | PubsubRouterUnit | BandwidthUnit | NatPortMapUnit
  | AutoRelayUnit "string list" "string AddrInfo list" bool | AutoNATUnit "AutoNATThrottle option"
  | ConnMgrUnit i64 i64 i64 | GossipSubUnit bool i64 | FloodSubUnit bool i64 | TopicDiscoveryUnit
  | OfflineExchangeUnit | OfflineRoutingUnit
  | OfflineProviderUnit | ProviderQueueUnit | SimpleProviderUnit | KeyProviderUnit keyStrategy
  | SimpleReprovUnit i64 | SimpleSysUnit bool | BatchedSysUnit bool i64
  | BlockServiceUnit | DagUnit | FetcherUnit | PinningUnit | FilesUnit

definition maybeProvide :: "fxUnit \<Rightarrow> bool \<Rightarrow> fxUnit list" where
  "maybeProvide u enable = (if enable then [u] else [])"

record buildCfg =
  bcOnline :: bool
  ExtraOpts :: "(string \<times> bool) list"
  Permanent :: bool
  DisableEncryptedConnections :: bool
  NilRepo :: bool

definition getOpt :: "buildCfg \<Rightarrow> string \<Rightarrow> bool" where
  "getOpt cfg key = (map_of (ExtraOpts cfg) key = Some True)"

text \<open>\<open>timeCacheDuration\<close> is a constant of the pubsub library; \<open>debug\<close> is \<^verbatim>\<open>util.Debug\<close>.\<close>

record buildEnv =
  parseDuration :: "string \<Rightarrow> string + i64"
  parseByteSize :: "string \<Rightarrow> string option"
  decodePeer :: "string \<Rightarrow> string + string"
  decodeKey :: "string \<Rightarrow> string + string"
  debugMode :: bool
  timeCacheDuration :: i64

section \<open>Providing\<close>

definition SimpleProviders :: "string \<Rightarrow> i64 \<Rightarrow> fxUnit list" where
  "SimpleProviders reprovideStrategy every =
     (let rest = (\<lambda>k. [ProviderQueueUnit, SimpleProviderUnit, KeyProviderUnit k, SimpleReprovUnit every])
      in if reprovideStrategy = ''all'' \<or> reprovideStrategy = [] then rest AllBlocks
         else if reprovideStrategy = ''roots'' then rest (PinnedOnly True)
         else if reprovideStrategy = ''pinned'' then rest (PinnedOnly False)
         else [ErrorUnit (''unknown reprovider strategy '' @ [CHR 0x27] @ reprovideStrategy @ [CHR 0x27])])"

definition OnlineProviders :: "bool \<Rightarrow> bool \<Rightarrow> string \<Rightarrow> i64 \<Rightarrow> fxUnit list" where
  "OnlineProviders useStrategic useBatched strategy interval =
     (if useStrategic then [OfflineProviderUnit]
      else SimpleProviders strategy interval @ maybeProvide (SimpleSysUnit True) (\<not> useBatched) @
        maybeProvide (BatchedSysUnit True interval) useBatched)"

definition OfflineProviders :: "bool \<Rightarrow> bool \<Rightarrow> string \<Rightarrow> i64 \<Rightarrow> fxUnit list" where
  "OfflineProviders useStrategic useBatched strategy interval =
     (if useStrategic then [OfflineProviderUnit]
      else SimpleProviders strategy interval @ maybeProvide (SimpleSysUnit False) True)"

definition BitswapOptions :: "nodeConfig \<Rightarrow> bool \<Rightarrow> bitswapOpts" where
  "BitswapOptions cfg prov =
     (let bs = (case internalBitswap (cOther cfg) of Some b \<Rightarrow> b
                | None \<Rightarrow> \<lparr> TaskWorkerCount = \<lparr>oi_value = None\<rparr>, EngineBlockstoreWorkerCount = \<lparr>oi_value = None\<rparr>,
                     EngineTaskWorkerCount = \<lparr>oi_value = None\<rparr>, MaxOutstandingBytesPerPeer = \<lparr>oi_value = None\<rparr>,
                     ProviderSearchDelay = \<lparr>od_value = None\<rparr> \<rparr>)
      in \<lparr> bwProvide = prov,
           bwSearchDelay = OptionalDuration_WithDefault (Some (ProviderSearchDelay bs)) 1000000000,
           bwBlockstoreWorkers = OptionalInteger_WithDefault (Some (EngineBlockstoreWorkerCount bs)) 128,
           bwTaskWorkers = OptionalInteger_WithDefault (Some (TaskWorkerCount bs)) 8,
           bwEngineTaskWorkers = OptionalInteger_WithDefault (Some (EngineTaskWorkerCount bs)) 8,
           bwMaxBytesPerPeer = OptionalInteger_WithDefault (Some (MaxOutstandingBytesPerPeer bs)) 1048576 \<rparr>)"

section \<open>The network stack\<close>

text \<open>The parts of \<^verbatim>\<open>LibP2P\<close>, each on its own.\<close>

definition connMgrUnits :: "nodeConfig \<Rightarrow> string + fxUnit list" where
  "connMgrUnits cfg =
     (let cm = cConnMgr cfg; connMgrType = OptionalString_WithDefault (cmType cm) ''basic''
      in if connMgrType = ''none'' then Inr []
         else if connMgrType = [] \<or> connMgrType = ''basic'' then
           Inr [ConnMgrUnit (OptionalInteger_WithDefault (LowWater cm) 32) (OptionalInteger_WithDefault (HighWater cm) 96)
             (OptionalDuration_WithDefault (GracePeriod cm) 20000000000)]
         else Inl (''unrecognized Swarm.ConnMgr.Type: '' @ connMgrType))"

definition pubsubUnits :: "buildEnv \<Rightarrow> buildCfg \<Rightarrow> nodeConfig \<Rightarrow> string + fxUnit list \<times> fxUnit list" where
  "pubsubUnits env bcfg cfg =
     (if getOpt bcfg ''pubsub'' \<or> getOpt bcfg ''ipnsps'' then
        let signing = \<not> DisableSigning (cOther cfg);
            ttl = OptionalDuration_WithDefault (SeenMessagesTTL (cOther cfg)) (timeCacheDuration env);
            router = PubsubRouterName (cOther cfg)
        in if router = [] \<or> router = ''gossipsub'' then Inr ([GossipSubUnit signing ttl], [TopicDiscoveryUnit])
           else if router = ''floodsub'' then Inr ([FloodSubUnit signing ttl], [TopicDiscoveryUnit])
           else Inl (''unknown pubsub router '' @ router)
      else Inr ([], []))"

definition autonatUnits :: "nodeConfig \<Rightarrow> fxUnit list" where
  "autonatUnits cfg =
     (case ServiceMode cfg of AutoNATServiceDisabled \<Rightarrow> [] | _ \<Rightarrow> [AutoNATUnit (Throttle (cOther cfg))])"

text \<open>Whether the transport, the service and the client of relays are enabled.\<close>

definition relaySettings :: "nodeConfig \<Rightarrow> setupErr + bool \<times> bool \<times> bool" where
  "relaySettings cfg =
     bindS (flagOr (netRelay (cTransports (cOther cfg))) True) (\<lambda>enableRelayTransport.
     bindS (flagOr (rsEnabled (cRelayService (cOther cfg))) enableRelayTransport) (\<lambda>enableRelayService.
     bindS (flagOr (rcEnabled (cRelayClient (cOther cfg))) enableRelayTransport) (\<lambda>enableRelayClient.
       if \<not> enableRelayTransport \<and> enableRelayService
       then Inl (Fatal ''Failed to enable `Swarm.RelayService`, it requires `Swarm.Transports.Network.Relay` to be true.'')
       else if \<not> enableRelayTransport \<and> enableRelayClient
       then Inl (Fatal ''Failed to enable `Swarm.RelayClient`, it requires `Swarm.Transports.Network.Relay` to be true.'')
       else Inr (enableRelayTransport, enableRelayService, enableRelayClient))))"

definition removedFields :: "nodeConfig \<Rightarrow> setupErr option" where
  "removedFields cfg =
     (if DisableRelay (cOther cfg) then Some (Fatal ''The 'Swarm.DisableRelay' config field was removed.'')
      else if EnableAutoRelay (cOther cfg) then Some (Fatal ''The 'Swarm.EnableAutoRelay' config field was removed.'')
      else if EnableRelayHop (cOther cfg) then Some (Fatal ''The `Swarm.EnableRelayHop` config field was removed.'')
      else None)"

definition LibP2P :: "buildEnv \<Rightarrow> buildCfg \<Rightarrow> nodeConfig \<Rightarrow> setupErr + fxUnit list" where
  "LibP2P env bcfg cfg =
     (case connMgrUnits cfg of
        Inl err \<Rightarrow> Inr [ErrorUnit err]
      | Inr connmgr \<Rightarrow>
          (case pubsubUnits env bcfg cfg of
             Inl err \<Rightarrow> Inr [ErrorUnit err]
           | Inr (ps, disc) \<Rightarrow>
               (let sec = cOther cfg; tr = cTransports sec in
                bindS (relaySettings cfg) (\<lambda>(enableRelayTransport, enableRelayService, enableRelayClient).
                  case removedFields cfg of
                    Some err \<Rightarrow> Inl err
                  | None \<Rightarrow> Inr
                      ([BaseLibP2PUnit, UserAgentUnit, ResourceManagerUnit, AddrFiltersUnit (AddrFilters cfg),
                        AddrsFactoryUnit (aAnnounce (cAddresses cfg)) (aAppendAnnounce (cAddresses cfg)) (aNoAnnounce (cAddresses cfg)),
                        SmuxUnit tr, RelayTransportUnit enableRelayTransport, RelayServiceUnit enableRelayService (cRelayService sec),
                        TransportsUnit tr, ListenUnit (aSwarm (cAddresses cfg)), DiscoveryUnit (mdnsEnabled cfg),
                        ReachabilityUnit (ForceReachabilityAs sec), HolePunchingUnit (EnableHolePunching sec) enableRelayClient,
                        SecurityUnit (\<not> DisableEncryptedConnections bcfg) tr, RoutingUnit, ContentRoutingUnit,
                        BaseRoutingUnit (expAcceleratedDHT sec)] @
                       maybeProvide PubsubRouterUnit (getOpt bcfg ''ipnsps'') @
                       maybeProvide BandwidthUnit (\<not> DisableBandwidthMetrics sec) @
                       maybeProvide NatPortMapUnit (\<not> DisableNatPortMap cfg) @
                       [AutoRelayUnit (StaticRelays (cRelayClient sec)) (peeringPeers sec) enableRelayClient] @
                       autonatUnits cfg @ connmgr @ ps @ disc)))))"

text \<open>What a unit adds to the options of the network stack when the container runs it.
  \<open>prefs\<close> is the environment variable \<^verbatim>\<open>LIBP2P_MUX_PREFS\<close>, \<open>pnet\<close> the result of \<open>PNet\<close>.\<close>

definition unitOptions ::
  "('m, 'f) netOps \<Rightarrow> string \<Rightarrow> ('m, 'f) p2pOpt list \<times> string option \<Rightarrow> fxUnit \<Rightarrow> setupErr + ('m, 'f) p2pOpt list" where
  "unitOptions net prefs pnet u =
     (case u of
        BaseLibP2PUnit \<Rightarrow> Inr (fst pnet @ [ResolverOpt])
      | UserAgentUnit \<Rightarrow> Inr [UserAgentOpt ''kubo'']
      | AddrFiltersUnit fs \<Rightarrow> map_sum id snd (AddrFiltersOpts net fs)
      | AddrsFactoryUnit a p n \<Rightarrow> AddrsFactory net a p n
      | SmuxUnit t \<Rightarrow> SmuxTransport prefs t
      | RelayTransportUnit b \<Rightarrow> Inr (RelayTransport b)
      | RelayServiceUnit b r \<Rightarrow> Inr (RelayServiceOpts net b r)
      | TransportsUnit t \<Rightarrow> TransportsOpts t (snd pnet)
      | ReachabilityUnit v \<Rightarrow> ForceReachability v
      | HolePunchingUnit fl b \<Rightarrow> HolePunching fl b
      | SecurityUnit b t \<Rightarrow> SecurityOpts b t
      | BandwidthUnit \<Rightarrow> Inr BandwidthCounter
      | NatPortMapUnit \<Rightarrow> Inr [NATPortMap]
      | AutoRelayUnit st _ b \<Rightarrow> map_sum id fst (MaybeAutoRelay net st b)
      | AutoNATUnit th \<Rightarrow> Inr (AutoNATService th)
      | ConnMgrUnit low high grace \<Rightarrow> ConnectionManager net low high grace
      | ErrorUnit err \<Rightarrow> Inl (SetupErr err)
      | _ \<Rightarrow> Inr [])"

definition libp2pOptions ::
  "('m, 'f) netOps \<Rightarrow> string \<Rightarrow> string + string option \<Rightarrow> fxUnit list \<Rightarrow> setupErr + ('m, 'f) p2pOpt list list" where
  "libp2pOptions net prefs swarmKey units =
     bindS (PNet net swarmKey) (\<lambda>pnet. mapS (unitOptions net prefs pnet) units)"

section \<open>The groups\<close>

definition Storage :: "buildCfg \<Rightarrow> nodeConfig \<Rightarrow> fxUnit list" where
  "Storage bcfg cfg =
     (let bloom = (if \<not> Permanent bcfg then 0 else BloomFilterSize (cDatastore cfg));
          finalBstore = (if expFilestore (cOther cfg) \<or> expUrlstore (cOther cfg) then FilestoreBlockstoreUnit else GcBlockstoreUnit)
      in [RepoConfigUnit, DatastoreUnit,
          BaseBlockstoreUnit \<lparr> HasBloomFilterSize = bloom \<rparr> (NilRepo bcfg) (HashOnRead (cOther cfg)), finalBstore])"

definition IdentityUnits :: "buildEnv \<Rightarrow> nodeConfig \<Rightarrow> fxUnit list" where
  "IdentityUnits env cfg =
     (let pid = PeerID (cIdentity cfg) in
      if pid = [] then [ErrorUnit ''identity was not set in config (was 'ipfs init' run?)'']
      else case decodePeer env pid of
        Inl err \<Rightarrow> [ErrorUnit (''peer ID invalid: '' @ err)]
      | Inr i \<Rightarrow>
          if PrivKey (cIdentity cfg) = [] then [PeerIDUnit i, PeerstoreUnit]
          else (case decodeKey env (PrivKey (cIdentity cfg)) of
                  Inl err \<Rightarrow> [ErrorUnit err]
                | Inr sk \<Rightarrow> [PeerIDUnit i, PrivateKeyUnit sk, PeerstoreUnit, SelfKeysUnit]))"

definition dayNs :: i64 where "dayNs = 86400000000000"

text \<open>An empty period or lifetime is zero, the default of the republisher.\<close>

definition republishPeriod :: "buildEnv \<Rightarrow> nodeConfig \<Rightarrow> string + i64" where
  "republishPeriod env cfg =
     (if RepublishPeriod (cOther cfg) = [] then Inr 0
      else case parseDuration env (RepublishPeriod (cOther cfg)) of
        Inl err \<Rightarrow> Inl (''failure to parse config setting IPNS.RepublishPeriod: '' @ err)
      | Inr d \<Rightarrow>
          if \<not> debugMode env \<and> (d <s minuteNs \<or> dayNs <s d)
          then Inl ''config setting IPNS.RepublishPeriod is not between 1min and 1day''
          else Inr d)"

definition recordLifetime :: "buildEnv \<Rightarrow> nodeConfig \<Rightarrow> string + i64" where
  "recordLifetime env cfg =
     (if RecordLifetime (cOther cfg) = [] then Inr 0
      else map_sum (\<lambda>err. ''failure to parse config setting IPNS.RecordLifetime: '' @ err) id
        (parseDuration env (RecordLifetime (cOther cfg))))"

definition DefaultIpnsCacheSize :: i64 where "DefaultIpnsCacheSize = 128"

definition strategyOf :: "nodeConfig \<Rightarrow> string" where
  "strategyOf cfg = OptionalString_WithDefault (reproviderStrategy (cOther cfg)) ''all''"

definition reprovideEvery :: "nodeConfig \<Rightarrow> i64" where
  "reprovideEvery cfg = OptionalDuration_WithDefault (reproviderInterval cfg) 79200000000000"

definition Online :: "buildEnv \<Rightarrow> buildCfg \<Rightarrow> nodeConfig \<Rightarrow> setupErr + fxUnit list" where
  "Online env bcfg cfg =
     (let sec = cOther cfg;
          ipnsCacheSize = (if ResolveCacheSize sec = 0 then DefaultIpnsCacheSize else ResolveCacheSize sec)
      in if ipnsCacheSize <s 0 then Inr [ErrorUnit ''cannot specify negative resolve cache size'']
         else case republishPeriod env cfg of
           Inl err \<Rightarrow> Inr [ErrorUnit err]
         | Inr repubPeriod \<Rightarrow>
             (case recordLifetime env cfg of
                Inl err \<Rightarrow> Inr [ErrorUnit err]
              | Inr lifetime \<Rightarrow>
                  bindS (LibP2P env bcfg cfg) (\<lambda>net. Inr
                    ([BitswapUnit (BitswapOptions cfg (\<not> expStrategicProviding sec)), OnlineExchangeUnit] @
                     maybeProvide GraphsyncUnit (expGraphsync sec) @
                     [DNSResolverUnit, NamesysUnit ipnsCacheSize, PeeringUnit, PeerWithUnit (peeringPeers sec),
                      RepublisherUnit repubPeriod lifetime, P2PUnit] @
                     net @
                     OnlineProviders (expStrategicProviding sec) (expAcceleratedDHT sec) (strategyOf cfg) (reprovideEvery cfg)))))"

definition Offline :: "nodeConfig \<Rightarrow> fxUnit list" where
  "Offline cfg =
     [OfflineExchangeUnit, DNSResolverUnit, NamesysUnit 0, RoutingUnit, ContentRoutingUnit, OfflineRoutingUnit] @
     OfflineProviders (expStrategicProviding (cOther cfg)) (expAcceleratedDHT (cOther cfg)) (strategyOf cfg) (reprovideEvery cfg)"

definition CoreUnits :: "fxUnit list" where
  "CoreUnits = [BlockServiceUnit, DagUnit, FetcherUnit, PinningUnit, FilesUnit]"

definition Networked :: "buildEnv \<Rightarrow> buildCfg \<Rightarrow> nodeConfig \<Rightarrow> setupErr + fxUnit list" where
  "Networked env bcfg cfg = (if bcOnline bcfg then Online env bcfg cfg else Inr (Offline cfg))"

text \<open>
  \<^verbatim>\<open>BuildCfg.options\<close> and \<open>fillDefaults\<close>: \<open>repo\<close> is the repository of the build configuration if
  it has one, \<open>newRepo\<close> makes one over a null or a map datastore; both are the answer of their
  \<^verbatim>\<open>Config\<close>.
\<close>

definition fillDefaults :: "buildCfg \<Rightarrow> (string + nodeConfig) option \<Rightarrow> (bool \<Rightarrow> string + (string + nodeConfig)) \<Rightarrow> string + (string + nodeConfig)" where
  "fillDefaults bcfg repo newRepo =
     (case repo of
        Some r \<Rightarrow> if NilRepo bcfg then Inl ''cannot set a Repo and specify nilrepo at the same time'' else Inr r
      | None \<Rightarrow> newRepo (NilRepo bcfg))"

definition buildOptions :: "buildCfg \<Rightarrow> (string + nodeConfig) option \<Rightarrow> (bool \<Rightarrow> string + (string + nodeConfig)) \<Rightarrow> string + fxUnit list \<times> nodeConfig" where
  "buildOptions bcfg repo newRepo =
     bindS (fillDefaults bcfg repo newRepo) (\<lambda>r.
     bindS r (\<lambda>conf. Inr ([RepoUnit, HostOptionUnit, RoutingOptionUnit, MetricsUnit], conf)))"

definition IPFS ::
  "buildEnv \<Rightarrow> buildCfg \<Rightarrow> (string + nodeConfig) option \<Rightarrow> (bool \<Rightarrow> string + (string + nodeConfig)) \<Rightarrow> setupErr + fxUnit list" where
  "IPFS env bcfg repo newRepo =
     (case buildOptions bcfg repo newRepo of
        Inl err \<Rightarrow> Inr [ErrorUnit err]
      | Inr (bcfgOpts, cfg) \<Rightarrow>
          (case parseByteSize env (OptionalString_WithDefault (ShardingSizeThreshold (cOther cfg)) ''256kiB'') of
             Some err \<Rightarrow> Inr [ErrorUnit err]
           | None \<Rightarrow>
               if expSharding (cOther cfg) then Inl (Fatal ''The `Experimental.ShardingEnabled` field is no longer used, please remove it from the config.'')
               else bindS (Networked env bcfg cfg) (\<lambda>net. Inr
                 (bcfgOpts @ [BaseProcessUnit] @ Storage bcfg cfg @ IdentityUnits env cfg @ [RecordValidatorUnit] @ net @ CoreUnits))))"

section \<open>Constructors\<close>

definition PrivateKeyCtor :: "(string \<Rightarrow> string + string) \<Rightarrow> string \<Rightarrow> string \<Rightarrow> string + string" where
  "PrivateKeyCtor idOf sk pid =
     bindS (idOf sk) (\<lambda>id2.
       if id2 \<noteq> pid then Inl (''private key in config does not match id: '' @ pid @ '' != '' @ id2) else Inr sk)"

text \<open>The period and lifetime that a republisher gets; its own are the defaults.\<close>

definition IpnsRepublisher :: "bool \<Rightarrow> i64 \<Rightarrow> i64 \<Rightarrow> i64 \<times> i64 \<Rightarrow> string + i64 \<times> i64" where
  "IpnsRepublisher debug period lifetime own =
     (if period \<noteq> 0 \<and> \<not> debug \<and> (period <s minuteNs \<or> dayNs <s period)
      then Inl ''config setting IPNS.RepublishPeriod is not between 1min and 1day''
      else Inr (if period \<noteq> 0 then period else fst own, if lifetime \<noteq> 0 then lifetime else snd own))"

text \<open>The wrappers of a block store, innermost first.\<close>

datatype storeLayer = PlainStore | VerifLayer | CacheLayer i64 | IdLayer | HashOnReadLayer | GCLayer | FilestoreLayer | VerifGCLayer

definition BaseBlockstoreCtor :: "(i64 \<Rightarrow> string option) \<Rightarrow> i64 \<Rightarrow> bool \<Rightarrow> bool \<Rightarrow> string + storeLayer list" where
  "BaseBlockstoreCtor cacheErr bloom nilRepo hashOnRead =
     (let inner = [PlainStore, VerifLayer];
          outer = (\<lambda>ls. ls @ [IdLayer] @ (if hashOnRead then [HashOnReadLayer] else []))
      in if nilRepo then Inr (outer inner)
         else case cacheErr bloom of Some err \<Rightarrow> Inl err | None \<Rightarrow> Inr (outer (inner @ [CacheLayer bloom])))"

definition GcBlockstoreCtor :: "storeLayer list \<Rightarrow> storeLayer list" where
  "GcBlockstoreCtor bb = bb @ [GCLayer]"

definition FilestoreBlockstoreCtor :: "storeLayer list \<Rightarrow> storeLayer list" where
  "FilestoreBlockstoreCtor bb = bb @ [FilestoreLayer, GCLayer, VerifGCLayer]"

text \<open>DNS: \<open>isFqdn\<close> and \<open>dohErr\<close> are third-party; a resolver is its URL with the bound on its
  cache.  The loops range over maps, here association lists.\<close>

record dnsResolver =
  drURL :: string
  drMaxTTL :: "i64 option"

definition newResolver :: "(string \<Rightarrow> string option) \<Rightarrow> string \<Rightarrow> i64 option \<Rightarrow> string + dnsResolver" where
  "newResolver dohErr url ttl =
     (if \<not> HasPrefix url ''https://'' then Inl (''invalid resolver url: '' @ url)
      else case dohErr url of Some err \<Rightarrow> Inl err | None \<Rightarrow> Inr \<lparr> drURL = url, drMaxTTL = ttl \<rparr>)"

definition reuseResolver ::
  "(string \<Rightarrow> string option) \<Rightarrow> i64 option \<Rightarrow> string \<Rightarrow> string \<Rightarrow> (string \<Rightarrow> dnsResolver option) \<Rightarrow> string + dnsResolver" where
  "reuseResolver dohErr ttl domain url rslvrs =
     (case rslvrs url of Some r \<Rightarrow> Inr r
      | None \<Rightarrow> map_sum (\<lambda>err. ''bad resolver for '' @ domain @ '': '' @ err) id (newResolver dohErr url ttl))"

fun userResolvers ::
  "(string \<Rightarrow> bool) \<Rightarrow> (string \<Rightarrow> string option) \<Rightarrow> i64 option \<Rightarrow> (string \<times> string) list \<Rightarrow> (string \<Rightarrow> dnsResolver option) \<Rightarrow>
   string + (string \<times> dnsResolver) list \<times> (string \<Rightarrow> dnsResolver option)" where
  "userResolvers isFqdn dohErr ttl [] rslvrs = Inr ([], rslvrs)"
| "userResolvers isFqdn dohErr ttl ((domain, url) # rest) rslvrs =
     (if domain \<noteq> ''.'' \<and> \<not> isFqdn domain then Inl (''invalid domain '' @ domain @ ''; must be FQDN'')
      else if url = [] then userResolvers isFqdn dohErr ttl rest rslvrs
      else bindS (reuseResolver dohErr ttl domain url rslvrs) (\<lambda>r.
        bindS (userResolvers isFqdn dohErr ttl rest (rslvrs(url \<mapsto> r))) (\<lambda>(opts, rslvrs').
          Inr ((domain, r) # opts, rslvrs'))))"

fun implicitResolvers ::
  "(string \<Rightarrow> string option) \<Rightarrow> string set \<Rightarrow> (string \<times> string) list \<Rightarrow> (string \<Rightarrow> dnsResolver option) \<Rightarrow>
   string + (string \<times> dnsResolver) list" where
  "implicitResolvers dohErr domains [] rslvrs = Inr []"
| "implicitResolvers dohErr domains ((domain, url) # rest) rslvrs =
     (if domain \<in> domains then implicitResolvers dohErr domains rest rslvrs
      else bindS (reuseResolver dohErr None domain url rslvrs) (\<lambda>r.
        bindS (implicitResolvers dohErr domains rest (rslvrs(url \<mapsto> r))) (\<lambda>opts. Inr ((domain, r) # opts))))"

definition defaultResolvers :: "(string \<times> string) list" where
  "defaultResolvers =
     [(''eth.'', ''https://resolver.cloudflare-eth.com/dns-query''), (''crypto.'', ''https://resolver.cloudflare-eth.com/dns-query'')]"

definition DNSResolver ::
  "(string \<Rightarrow> bool) \<Rightarrow> (string \<Rightarrow> string option) \<Rightarrow> nodeConfig \<Rightarrow> string + (string \<times> dnsResolver) list" where
  "DNSResolver isFqdn dohErr cfg =
     (let ttl = (if OptionalDuration_IsDefault (MaxCacheTTL (cOther cfg)) then None
                 else Some (OptionalDuration_WithDefault (MaxCacheTTL (cOther cfg)) 4294967295000000000));
          rs = dnsResolvers (cOther cfg)
      in bindS (userResolvers isFqdn dohErr ttl rs Map.empty) (\<lambda>(opts, rslvrs).
         bindS (implicitResolvers dohErr (set (map fst rs)) defaultResolvers rslvrs) (\<lambda>defs. Inr (opts @ defs))))"

section \<open>The MFS root\<close>

datatype dsErr = DsNotFound | DsErr string

text \<open>
  What the datastore says of the key \<^verbatim>\<open>/local/filesroot\<close>: an error, and a value if there is one.
  \<open>addEmpty\<close> stores the empty directory \<open>emptyDir\<close>, \<open>cast\<close> reads an identifier, \<open>dagGet\<close> gets a
  node, or \<open>None\<close> for one that is no \<^verbatim>\<open>ProtoNode\<close>.
\<close>

definition Files ::
  "'n \<Rightarrow> string option \<Rightarrow> (string \<Rightarrow> string + 'c) \<Rightarrow> ('c \<Rightarrow> string + 'n option) \<Rightarrow> dsErr option \<Rightarrow> string option \<Rightarrow> string + 'n" where
  "Files emptyDir addEmpty cast dagGet err val =
     (if err = Some DsNotFound \<or> val = None then
        (case addEmpty of Some e \<Rightarrow> Inl (''failure writing to dagstore: '' @ e) | None \<Rightarrow> Inr emptyDir)
      else case err of
        None \<Rightarrow>
          (case cast (the val) of
             Inl e \<Rightarrow> Inl e
           | Inr c \<Rightarrow>
               (case dagGet c of
                  Inl e \<Rightarrow> Inl (''error loading filesroot from DAG: '' @ e)
                | Inr None \<Rightarrow> Inl ''expected protobuf dag node''
                | Inr (Some pbnd) \<Rightarrow> Inr pbnd))
      | Some DsNotFound \<Rightarrow> Inl ''datastore: key not found''
      | Some (DsErr e) \<Rightarrow> Inl e)"

text \<open>\<^verbatim>\<open>pf\<close> publishes a new root: it syncs the blocks, then the file store, then writes the key.\<close>

definition publishRoot :: "string option \<Rightarrow> string option \<Rightarrow> string option \<Rightarrow> string option \<Rightarrow> string \<Rightarrow> string option \<Rightarrow> string option \<times> string option" where
  "publishRoot syncBlocks syncFilestore putErr syncKey newRoot stored =
     (case syncBlocks of
        Some e \<Rightarrow> (Some e, stored)
      | None \<Rightarrow>
          (case syncFilestore of
             Some e \<Rightarrow> (Some e, stored)
           | None \<Rightarrow> (case putErr of Some e \<Rightarrow> (Some e, stored) | None \<Rightarrow> (syncKey, Some newRoot))))"

section \<open>A node\<close>

text \<open>
  \<^verbatim>\<open>NewNode\<close>: the functions that plugins registered rewrite the options in turn; then the
  container is built and started, and an online node bootstraps.  The result says whether a
  node is returned, and with which error.
\<close>

fun applyOptFuncs :: "('o \<Rightarrow> string + 'o) list \<Rightarrow> 'o \<Rightarrow> string + 'o" where
  "applyOptFuncs [] opts = Inr opts"
| "applyOptFuncs (f # fs) opts =
     (case f opts of Inl err \<Rightarrow> Inl (''building fx opts: '' @ err) | Inr opts' \<Rightarrow> applyOptFuncs fs opts')"

definition NewNode ::
  "('o \<Rightarrow> string + 'o) list \<Rightarrow> 'o \<Rightarrow> ('o \<Rightarrow> string option) \<Rightarrow> ('o \<Rightarrow> string option) \<Rightarrow> bool \<Rightarrow> string option \<Rightarrow> bool \<times> string option" where
  "NewNode optFuncs opts buildErr startErr online bootstrapErr =
     (case applyOptFuncs optFuncs opts of
        Inl err \<Rightarrow> (False, Some err)
      | Inr opts' \<Rightarrow>
          (case buildErr opts' of
             Some err \<Rightarrow> (False, Some (''constructing the node (see log for full detail): '' @ err))
           | None \<Rightarrow>
               (case startErr opts' of
                  Some err \<Rightarrow> (False, Some (''constructing the node (see log for full detail): '' @ err))
                | None \<Rightarrow> if \<not> online then (True, None) else (True, bootstrapErr))))"

text \<open>Stopping: only the first call stops the container, and every call gives its result.\<close>

definition stopNode :: "string option \<Rightarrow> string option option \<Rightarrow> string option \<times> string option option" where
  "stopNode appStop done = (case done of Some r \<Rightarrow> (r, done) | None \<Rightarrow> (appStop, Some appStop))"

text \<open>The loop to the innermost error; \<open>rootCause\<close> and whether errors compare are third-party.\<close>

partial_function (option) innermostError :: "('e \<Rightarrow> 'e) \<Rightarrow> ('e \<Rightarrow> bool) \<Rightarrow> 'e \<Rightarrow> 'e option" where
  [code]: "innermostError rootCause comparable err =
     (let extracted = rootCause err in
      if \<not> comparable extracted then Some err
      else if extracted = err then Some err
      else innermostError rootCause comparable extracted)"

end
