(* ===== verification/Daemon.thy ===== *)
theory Daemon
  imports NodeBuild
begin

text \<open>
  \<^verbatim>\<open>cmd/ipfs/daemon.go\<close> and \<^verbatim>\<open>cmd/ipfs/add_migrations.go\<close>: how a daemon starts, what it
  serves, and what it leaves behind when it stops.

  \<^item> A stage is the list of what it does and its outcome: an error, the end of the process
    (\<^verbatim>\<open>log.Fatal\<close>, after which deferred functions do not run), a panic (after which they do),
    or a value.  \<open>deferD\<close> is a deferred function.
  \<^item> What the parts that the daemon composes answer (opening the repository, migrations,
    building a node, plugins, listeners) is the record \<open>daemonEnv\<close>.
\<close>

section \<open>Stages\<close>

datatype routingKind = RkDefault | RkDHT DHTMode | RkNil | RkCustom

text \<open>What a server is composed of.\<close>

datatype serveOpt =
    MetricsCollection string | MetricsOpenCensus | MetricsOpenCensusRegistry | CheckVersion | Commands | CommandsRO
  | WebUI | GatewayOpt bool "string list" | Version | DefaultMux string | MutexFraction string | BlockProfileRate string
  | MetricsScraping string | LogOpt | RedirectOpt string string | HostnameOpt | P2PProxy

datatype dEvent =
    Initialised | RepoOpened | RepoClosed | MigrationAsked | FetcherMade | FetcherClosed | TempDirMade | TempDirRemoved | MigrationsRan
  | NodeBuilt routingKind | NodeClosed | PluginsStarted | ApiServing "serveOpt list" | FuseMounted string string | GCStarted
  | MigrationsAdded "string option" | GatewayServing "serveOpt list" | MfsPinning | ReadyNotified

datatype dStop = DErr string | DFatal string | DPanic string

type_synonym 'a stage = "dEvent list \<times> (dStop + 'a)"

definition retD :: "'a \<Rightarrow> 'a stage" where "retD a = ([], Inr a)"
definition stopD :: "dStop \<Rightarrow> 'a stage" where "stopD e = ([], Inl e)"
definition doD :: "dEvent \<Rightarrow> unit stage" where "doD ev = ([ev], Inr ())"

definition seqD :: "'a stage \<Rightarrow> ('a \<Rightarrow> 'b stage) \<Rightarrow> 'b stage" where
  "seqD m f = (case snd m of Inl e \<Rightarrow> (fst m, Inl e) | Inr a \<Rightarrow> (fst m @ fst (f a), snd (f a)))"

definition checkD :: "string option \<Rightarrow> unit stage" where
  "checkD e = (case e of None \<Rightarrow> retD () | Some err \<Rightarrow> stopD (DErr err))"

definition liftD :: "string + 'a \<Rightarrow> 'a stage" where
  "liftD r = (case r of Inl err \<Rightarrow> stopD (DErr err) | Inr a \<Rightarrow> retD a)"

text \<open>A deferred function sees what has been done; it does not run when the process exits.\<close>

definition deferD :: "(dEvent list \<Rightarrow> dEvent list) \<Rightarrow> 'a stage \<Rightarrow> 'a stage" where
  "deferD cleanup m = (case snd m of Inl (DFatal _) \<Rightarrow> m | _ \<Rightarrow> (fst m @ cleanup (fst m), snd m))"

section \<open>Routing\<close>

definition routingOption :: "string \<Rightarrow> OptionalString option \<Rightarrow> string" where
  "routingOption opt cfgType =
     (if opt = ''default'' then
        let t = OptionalString_WithDefault cfgType ''auto'' in if t = [] then ''auto'' else t
      else opt)"

text \<open>The error of \<^verbatim>\<open>SwarmKey\<close> is dropped here.\<close>

definition privateRouting :: "string \<Rightarrow> string + string option \<Rightarrow> bool \<Rightarrow> string" where
  "privateRouting r swarmKey forcePnet =
     (if r = ''auto'' \<and> ((case swarmKey of Inr (Some _) \<Rightarrow> True | _ \<Rightarrow> False) \<or> forcePnet) then ''dht'' else r)"

definition routingFor :: "string \<Rightarrow> string + routingKind" where
  "routingFor r =
     (if r = ''supernode'' then Inl ''supernode routing was never fully implemented and has been removed''
      else if r = ''default'' \<or> r = ''auto'' then Inr RkDefault
      else if r = ''dhtclient'' then Inr (RkDHT DHTModeClient)
      else if r = ''dht'' then Inr (RkDHT DHTModeAuto)
      else if r = ''dhtserver'' then Inr (RkDHT DHTModeServer)
      else if r = ''none'' then Inr RkNil
      else if r = ''custom'' then Inr RkCustom
      else Inl (''unrecognized routing option: '' @ r))"

section \<open>Listeners\<close>

text \<open>
  The loop that opens the listeners for the configured addresses; \<open>seen\<close> is the set of the
  bytes of the addresses that have one.  \<open>listen\<close> gives the address that is listened on.
\<close>

fun listenAll ::
  "(string \<Rightarrow> string + 'm) \<Rightarrow> ('m \<Rightarrow> string) \<Rightarrow> ('m \<Rightarrow> string + 'm) \<Rightarrow> string \<Rightarrow> string \<Rightarrow> string set \<Rightarrow> string list \<Rightarrow> string + 'm list" where
  "listenAll parseA bytes listen who kind seen [] = Inr []"
| "listenAll parseA bytes listen who kind seen (addr # addrs) =
     (case parseA addr of
        Inl err \<Rightarrow> Inl (who @ '': invalid '' @ kind @ '' address: '' @ addr @ '' (err: '' @ err @ '')'')
      | Inr m \<Rightarrow>
          if bytes m \<in> seen then listenAll parseA bytes listen who kind seen addrs
          else (case listen m of
                  Inl err \<Rightarrow> Inl (who @ '': manet.Listen failed: '' @ err)
                | Inr l \<Rightarrow> bindS (listenAll parseA bytes listen who kind (insert (bytes m) seen) addrs) (\<lambda>ls. Inr (l # ls))))"

text \<open>\<open>splitFirst\<close> splits off the first component; \<open>ip4any\<close> and \<open>ip6any\<close> are the unspecified
  addresses, \<open>loopback4\<close> and \<open>loopback6\<close> put the rest behind the loopback ones.\<close>

record 'm loopOps =
  splitFirst :: "'m \<Rightarrow> 'm \<times> 'm"
  ip4any :: 'm
  ip6any :: 'm
  loopback4 :: "'m \<Rightarrow> 'm"
  loopback6 :: "'m \<Rightarrow> 'm"

definition rewriteMaddrToUseLocalhostIfItsAny :: "'m loopOps \<Rightarrow> 'm \<Rightarrow> 'm" where
  "rewriteMaddrToUseLocalhostIfItsAny lo maddr =
     (case splitFirst lo maddr of
        (first, rest) \<Rightarrow>
          if first = ip4any lo then loopback4 lo rest
          else if first = ip6any lo then loopback6 lo rest
          else maddr)"

record 'm serveEnv =
  svConfigErr :: "string option"
  svWebUIPaths :: "string list"
  svRootRedirect :: string
  svWritable :: bool
  svP2pProxy :: bool
  svPathPrefixes :: bool
  svActivated :: "string + 'm list"
  svParse :: "string \<Rightarrow> string + 'm"
  svBytes :: "'m \<Rightarrow> string"
  svListen :: "'m \<Rightarrow> string + 'm"
  svLoop :: "'m loopOps"
  svNodeErr :: "string option"
  svSetAddr :: "'m \<Rightarrow> string option"
  svToNetAddr :: "'m \<Rightarrow> string option"

text \<open>The options of the API: by default only the paths of the web UI are served as content.\<close>

definition apiOptions :: "bool \<Rightarrow> string list \<Rightarrow> string \<Rightarrow> serveOpt list" where
  "apiOptions unrestricted webUIPaths rootRedirect =
     [MetricsCollection ''api'', MetricsOpenCensus, MetricsOpenCensusRegistry, CheckVersion, Commands, WebUI,
      (if unrestricted then GatewayOpt True [''/ipfs'', ''/ipns''] else GatewayOpt False webUIPaths), Version,
      DefaultMux ''/debug/vars'', DefaultMux ''/debug/pprof/'', DefaultMux ''/debug/stack'',
      MutexFraction ''/debug/pprof-mutex/'', BlockProfileRate ''/debug/pprof-block/'',
      MetricsScraping ''/debug/metrics/prometheus'', LogOpt] @
     (if rootRedirect \<noteq> [] then [RedirectOpt [] rootRedirect] else [])"

text \<open>A server is started for each of the listeners; the event says with which options.\<close>

definition serveEach :: "dEvent \<Rightarrow> 'm list \<Rightarrow> unit stage" where
  "serveEach ev listeners = (map (\<lambda>_. ev) listeners, Inr ())"

text \<open>The listeners and the address that is written to the API file.\<close>

definition serveHTTPApi :: "'m serveEnv \<Rightarrow> bool \<Rightarrow> string \<Rightarrow> string list \<Rightarrow> ('m list \<times> 'm) stage" where
  "serveHTTPApi sv unrestricted apiAddr cfgAPI =
     seqD (checkD (map_option (\<lambda>e. ''serveHTTPApi: GetConfig() failed: '' @ e) (svConfigErr sv))) (\<lambda>_.
     seqD (liftD (map_sum (\<lambda>e. ''serveHTTPApi: socket activation failed: '' @ e) id (svActivated sv))) (\<lambda>activated.
     seqD (liftD (listenAll (svParse sv) (svBytes sv) (svListen sv) ''serveHTTPApi'' ''API'' (svBytes sv ` set activated)
            (if apiAddr = [] then cfgAPI else [apiAddr]))) (\<lambda>opened.
     seqD (checkD (map_option (\<lambda>e. ''serveHTTPApi: ConstructNode() failed: '' @ e) (svNodeErr sv))) (\<lambda>_.
       case activated @ opened of
         [] \<Rightarrow> stopD (DPanic ''index out of range'')
       | l # _ \<Rightarrow>
           seqD (checkD (map_option (\<lambda>e. ''serveHTTPApi: SetAPIAddr() failed: '' @ e)
              (svSetAddr sv (rewriteMaddrToUseLocalhostIfItsAny (svLoop sv) l)))) (\<lambda>_.
           seqD (serveEach (ApiServing (apiOptions unrestricted (svWebUIPaths sv) (svRootRedirect sv))) (activated @ opened)) (\<lambda>_. retD (activated @ opened, rewriteMaddrToUseLocalhostIfItsAny (svLoop sv) l)))))))"

definition gatewayOptions :: "bool \<Rightarrow> bool \<Rightarrow> string \<Rightarrow> serveOpt list" where
  "gatewayOptions writable p2pProxy rootRedirect =
     [MetricsCollection ''gateway'', HostnameOpt, GatewayOpt writable [''/ipfs'', ''/ipns''], Version, CheckVersion, CommandsRO] @
     (if p2pProxy then [P2PProxy] else []) @ (if rootRedirect \<noteq> [] then [RedirectOpt [] rootRedirect] else [])"

definition gatewayWritable :: "bool option \<Rightarrow> bool \<Rightarrow> bool" where
  "gatewayWritable opt cfgWritable = (case opt of Some w \<Rightarrow> w | None \<Rightarrow> cfgWritable)"

definition serveHTTPGateway :: "'m serveEnv \<Rightarrow> bool option \<Rightarrow> string list \<Rightarrow> 'm list stage" where
  "serveHTTPGateway sv writableOpt cfgGateway =
     seqD (checkD (map_option (\<lambda>e. ''serveHTTPGateway: GetConfig() failed: '' @ e) (svConfigErr sv))) (\<lambda>_.
     seqD (liftD (map_sum (\<lambda>e. ''serveHTTPGateway: socket activation failed: '' @ e) id (svActivated sv))) (\<lambda>activated.
     seqD (liftD (listenAll (svParse sv) (svBytes sv) (svListen sv) ''serveHTTPGateway'' ''gateway'' (svBytes sv ` set activated) cfgGateway)) (\<lambda>opened.
     seqD (if svPathPrefixes sv then stopD (DFatal ''Support for custom Gateway.PathPrefixes was removed'') else retD ()) (\<lambda>_.
     seqD (checkD (map_option (\<lambda>e. ''serveHTTPGateway: ConstructNode() failed: '' @ e) (svNodeErr sv))) (\<lambda>_.
     seqD (case activated @ opened of
             [] \<Rightarrow> retD ()
           | l # _ \<Rightarrow>
               seqD (checkD (map_option (\<lambda>e. ''serveHTTPGateway: manet.ToIP() failed: '' @ e)
                  (svToNetAddr sv (rewriteMaddrToUseLocalhostIfItsAny (svLoop sv) l)))) (\<lambda>_.
               checkD (map_option (\<lambda>e. ''serveHTTPGateway: SetGatewayAddr() failed: '' @ e)
                  (svSetAddr sv (rewriteMaddrToUseLocalhostIfItsAny (svLoop sv) l))))) (\<lambda>_.
     seqD (serveEach (GatewayServing (gatewayOptions (gatewayWritable writableOpt (svWritable sv)) (svP2pProxy sv) (svRootRedirect sv)))
            (activated @ opened)) (\<lambda>_. retD (activated @ opened))))))))"

definition mountFuse :: "string option \<Rightarrow> string option \<Rightarrow> (string \<Rightarrow> string \<Rightarrow> string option) \<Rightarrow> string option \<Rightarrow> string option \<Rightarrow> string \<Rightarrow> string \<Rightarrow> unit stage" where
  "mountFuse configErr nodeErr mnt ipfsOpt ipnsOpt cfgIPFS cfgIPNS =
     seqD (checkD (map_option (\<lambda>e. ''mountFuse: GetConfig() failed: '' @ e) configErr)) (\<lambda>_.
     seqD (checkD (map_option (\<lambda>e. ''mountFuse: ConstructNode() failed: '' @ e) nodeErr)) (\<lambda>_.
       let fsdir = (case ipfsOpt of Some d \<Rightarrow> d | None \<Rightarrow> cfgIPFS);
           nsdir = (case ipnsOpt of Some d \<Rightarrow> d | None \<Rightarrow> cfgIPNS)
       in seqD (checkD (mnt fsdir nsdir)) (\<lambda>_. doD (FuseMounted fsdir nsdir))))"

definition maybeRunGC :: "bool \<Rightarrow> unit stage" where
  "maybeRunGC enableGC = (if \<not> enableGC then retD () else doD GCStarted)"

text \<open>Fan-in of channels: at each step one of them gives its next element.\<close>

inductive merged :: "'a list list \<Rightarrow> 'a list \<Rightarrow> bool" where
  closedAll: "\<forall>cs\<in>set css. cs = [] \<Longrightarrow> merged css []"
| emitOne: "i < length css \<Longrightarrow> css ! i = x # xs \<Longrightarrow> merged (css[i := xs]) out \<Longrightarrow> merged css (x # out)"

text \<open>Three tries; an answer that cannot be read leaves the variable as it was.\<close>

fun promptLoop :: "nat \<Rightarrow> string \<Rightarrow> string option list \<Rightarrow> bool" where
  "promptLoop 0 s answers = False"
| "promptLoop (Suc n) s answers =
     (let s' = (case answers of Some a # _ \<Rightarrow> a | _ \<Rightarrow> s) in
      if s' = ''y'' \<or> s' = ''Y'' then True
      else if s' = ''n'' \<or> s' = ''N'' \<or> s' = [] then False
      else promptLoop n s' (tl answers))"

definition YesNoPrompt :: "string option list \<Rightarrow> bool" where
  "YesNoPrompt answers = promptLoop 3 [] answers"

section \<open>Downloaded migrations\<close>

datatype 'p fetcherKind =
    IpfsFetcherK "'p list" bool | HttpFetcherK | RetryFetcherK | OtherFetcherK

text \<open>An IPFS fetcher comes with the paths it fetched and whether its node has addresses.\<close>

record 'p addMigEnv =
  amConnect :: "string option"
  amPin :: "'p \<Rightarrow> string option"
  amGet :: "'p \<Rightarrow> string option"
  amDownloaded :: "string list option"
  amAddFile :: "string \<Rightarrow> string option"

datatype 'p added = AddedFile string | PinnedPath 'p | GotPath 'p

fun forEachD :: "('x \<Rightarrow> string option) \<Rightarrow> ('x \<Rightarrow> 'p added) \<Rightarrow> 'x list \<Rightarrow> 'p added list \<times> string option" where
  "forEachD act mk [] = ([], None)"
| "forEachD act mk (x # xs) =
     (case act x of Some err \<Rightarrow> ([], Some err) | None \<Rightarrow> (case forEachD act mk xs of (as, r) \<Rightarrow> (mk x # as, r)))"

definition addMigrationFiles :: "'p addMigEnv \<Rightarrow> string list \<Rightarrow> 'p added list \<times> string option" where
  "addMigrationFiles env paths = forEachD (amAddFile env) AddedFile paths"

definition addMigrationPaths :: "'p addMigEnv \<Rightarrow> bool \<Rightarrow> 'p list \<Rightarrow> bool \<Rightarrow> 'p added list \<times> string option" where
  "addMigrationPaths env hasAddrs paths pin =
     (if paths = [] then ([], Some ''nothing downloaded by ipfs fetcher'')
      else if \<not> hasAddrs then ([], Some ''no local swarm address for migration node'')
      else case amConnect env of
        Some err \<Rightarrow> ([], Some (''could not connect to migration peer: '' @ err))
      | None \<Rightarrow> if pin then forEachD (amPin env) PinnedPath paths else forEachD (amGet env) GotPath paths)"

fun addMigrations :: "'p addMigEnv \<Rightarrow> bool \<Rightarrow> 'p fetcherKind list \<Rightarrow> 'p added list \<times> string option" where
  "addMigrations env pin [] = ([], None)"
| "addMigrations env pin (f # fs) =
     (let one = (case f of
           IpfsFetcherK paths hasAddrs \<Rightarrow> addMigrationPaths env hasAddrs paths pin
         | OtherFetcherK \<Rightarrow> ([], Some ''cannot get migrations from unknown fetcher type'')
         | _ \<Rightarrow> (case amDownloaded env of None \<Rightarrow> ([], None) | Some files \<Rightarrow> addMigrationFiles env files))
      in case one of
           (as, Some err) \<Rightarrow> (as, Some err)
         | (as, None) \<Rightarrow> (case addMigrations env pin fs of (as', r) \<Rightarrow> (as @ as', r)))"

section \<open>The daemon\<close>

datatype openResult = OpenFailed string | NeedsMigration | RepoOk

record daemonReq =
  oInit :: bool
  oInitConfig :: string
  oMigrate :: "bool option"
  oOffline :: bool
  oPubsub :: "bool option"
  oIpnsps :: "bool option"
  oRouting :: string
  oUnencrypted :: bool
  oMount :: bool
  oEnableGC :: bool
  oApi :: string
  oUnrestricted :: bool
  oWritable :: "bool option"
  oIpfsMount :: "string option"
  oIpnsMount :: "string option"

text \<open>\<open>newNode\<close> answers with whether the node has a private key and with the fingerprint of its
  private network; \<open>servingErrs\<close> are the errors that the servers end with.\<close>

record ('m, 'p) daemonEnv =
  isInitialized :: bool
  loadConfigErr :: "string \<Rightarrow> string option"
  createIdentityErr :: "string option"
  doInitErr :: "string option"
  firstOpen :: openResult
  userAgrees :: bool
  migrationKeep :: "string + string"
  makeFetcher :: "string option"
  makeTempDir :: "string option"
  runMigration :: "string option"
  secondOpen :: "string option"
  repoConfigErr :: "string option"
  cfgPubsub :: Flag
  cfgIpnsPubsub :: Flag
  cfgRoutingType :: "OptionalString option"
  repoSwarmKey :: "string + string option"
  forcePrivateNetwork :: bool
  newNode :: "buildCfg \<Rightarrow> routingKind \<Rightarrow> string + bool \<times> string option"
  pluginsErr :: "string option"
  apiEnv :: "'m serveEnv"
  cfgAPI :: "string list"
  fuseConfigErr :: "string option"
  fuseNodeErr :: "string option"
  fuseMnt :: "string \<Rightarrow> string \<Rightarrow> string option"
  cfgMountIPFS :: string
  cfgMountIPNS :: string
  fetchersOf :: "'p fetcherKind list"
  addMig :: "'p addMigEnv"
  gatewayEnv :: "'m serveEnv"
  cfgGateway :: "string list"
  reusePort :: bool
  servingErrs :: "string list"

definition initStage :: "('m, 'p) daemonEnv \<Rightarrow> daemonReq \<Rightarrow> unit stage" where
  "initStage env req =
     (if oInit req \<and> \<not> isInitialized env then
        seqD (if oInitConfig req \<noteq> [] then seqD (checkD (loadConfigErr env (oInitConfig req))) (\<lambda>_. retD True) else retD False) (\<lambda>haveConf.
        seqD (if \<not> haveConf then checkD (createIdentityErr env) else retD ()) (\<lambda>_.
        seqD (checkD (doInitErr env)) (\<lambda>_. doD Initialised)))
      else retD ())"

text \<open>The repository and what is deferred while the rest of the daemon \<open>k\<close> runs; \<open>k\<close> is told
  whether downloaded migrations are kept, whether they are pinned, and whether there is a
  fetcher.\<close>

definition migrated :: "('m, 'p) daemonEnv \<Rightarrow> (bool \<times> bool \<times> bool \<Rightarrow> 'a stage) \<Rightarrow> bool \<times> bool \<times> bool \<Rightarrow> 'a stage" where
  "migrated env k mig =
     seqD (checkD (runMigration env)) (\<lambda>_.
     seqD (doD MigrationsRan) (\<lambda>_.
     seqD (checkD (secondOpen env)) (\<lambda>_.
     seqD (doD RepoOpened) (\<lambda>_. k mig))))"

definition afterFetcher :: "('m, 'p) daemonEnv \<Rightarrow> string \<Rightarrow> (bool \<times> bool \<times> bool \<Rightarrow> 'a stage) \<Rightarrow> 'a stage" where
  "afterFetcher env keep k =
     deferD (\<lambda>_. [FetcherClosed])
      (let cacheM = (keep = ''cache''); pinM = (keep = ''pin'') in
       if cacheM \<or> pinM then
         seqD (checkD (makeTempDir env)) (\<lambda>_.
         seqD (doD TempDirMade) (\<lambda>_.
         deferD (\<lambda>es. if TempDirRemoved \<in> set es then [] else [TempDirRemoved]) (migrated env k (True, pinM, True))))
       else migrated env k (False, False, True))"

definition migrationStage :: "('m, 'p) daemonEnv \<Rightarrow> daemonReq \<Rightarrow> (bool \<times> bool \<times> bool \<Rightarrow> 'a stage) \<Rightarrow> 'a stage" where
  "migrationStage env req k =
     seqD (doD MigrationAsked) (\<lambda>_.
     if \<not> (case oMigrate req of Some b \<Rightarrow> b | None \<Rightarrow> userAgrees env) then stopD (DErr ''fs-repo requires migration'')
     else seqD (liftD (migrationKeep env)) (\<lambda>keep.
     seqD (checkD (makeFetcher env)) (\<lambda>_.
     seqD (doD FetcherMade) (\<lambda>_. afterFetcher env keep k))))"

definition withRepo :: "('m, 'p) daemonEnv \<Rightarrow> daemonReq \<Rightarrow> (bool \<times> bool \<times> bool \<Rightarrow> 'a stage) \<Rightarrow> 'a stage" where
  "withRepo env req k =
     (case firstOpen env of
        OpenFailed err \<Rightarrow> stopD (DErr err)
      | NeedsMigration \<Rightarrow> migrationStage env req k
      | RepoOk \<Rightarrow> seqD (doD RepoOpened) (\<lambda>_. k (False, False, False)))"

definition daemonBuildCfg :: "('m, 'p) daemonEnv \<Rightarrow> daemonReq \<Rightarrow> setupErr + buildCfg" where
  "daemonBuildCfg env req =
     bindS (case oPubsub req of Some b \<Rightarrow> Inr b | None \<Rightarrow> flagOr (cfgPubsub env) False) (\<lambda>pubsub.
     bindS (case oIpnsps req of Some b \<Rightarrow> Inr b | None \<Rightarrow> flagOr (cfgIpnsPubsub env) False) (\<lambda>ipnsps.
       Inr \<lparr> bcOnline = \<not> oOffline req, ExtraOpts = [(''pubsub'', pubsub), (''ipnsps'', ipnsps)], Permanent = True,
         DisableEncryptedConnections = oUnencrypted req, NilRepo = False \<rparr>))"

definition daemonRouting :: "('m, 'p) daemonEnv \<Rightarrow> daemonReq \<Rightarrow> string" where
  "daemonRouting env req =
     privateRouting (routingOption (oRouting req) (cfgRoutingType env)) (repoSwarmKey env) (forcePrivateNetwork env)"

text \<open>From the node to the end: plugins, API, mounts, garbage collection, gateway, readiness.\<close>

definition serveStage :: "('m, 'p) daemonEnv \<Rightarrow> daemonReq \<Rightarrow> bool \<times> bool \<times> bool \<Rightarrow> string list stage" where
  "serveStage env req mig =
     seqD (checkD (pluginsErr env)) (\<lambda>_.
     seqD (doD PluginsStarted) (\<lambda>_.
     seqD (serveHTTPApi (apiEnv env) (oUnrestricted req) (oApi req) (cfgAPI env)) (\<lambda>_.
     seqD (if oMount req \<and> oOffline req then stopD (DErr ''mount is not currently supported in offline mode'') else retD ()) (\<lambda>_.
     seqD (if oMount req then mountFuse (fuseConfigErr env) (fuseNodeErr env) (fuseMnt env) (oIpfsMount req) (oIpnsMount req) (cfgMountIPFS env) (cfgMountIPNS env) else retD ()) (\<lambda>_.
     seqD (maybeRunGC (oEnableGC req)) (\<lambda>_.
     seqD (if fst mig then seqD (doD (MigrationsAdded (snd (addMigrations (addMig env) (fst (snd mig)) (fetchersOf env))))) (\<lambda>_. doD TempDirRemoved) else retD ()) (\<lambda>_.
     seqD (if snd (snd mig) then doD FetcherClosed else retD ()) (\<lambda>_.
     seqD (serveHTTPGateway (gatewayEnv env) (oWritable req) (cfgGateway env)) (\<lambda>_.
     seqD (doD MfsPinning) (\<lambda>_.
     seqD (doD ReadyNotified) (\<lambda>_.
     if reusePort env then stopD (DFatal ''Support for IPFS_REUSEPORT was removed. Use LIBP2P_TCP_REUSEPORT instead.'')
     else retD (servingErrs env))))))))))))"

definition builtStage :: "('m, 'p) daemonEnv \<Rightarrow> daemonReq \<Rightarrow> routingKind \<Rightarrow> bool \<times> string option \<Rightarrow> bool \<times> bool \<times> bool \<Rightarrow> string list stage" where
  "builtStage env req rk node mig =
     seqD (doD (NodeBuilt rk)) (\<lambda>_.
     if (forcePrivateNetwork env \<or> snd node \<noteq> None) \<and> daemonRouting env req = ''auto''
     then stopD (DFatal ''Private network does not work with Routing.Type=auto.'')
     else if \<not> fst node then stopD (DPanic ''nil pointer dereference'')
     else deferD (\<lambda>_. [NodeClosed]) (serveStage env req mig))"

definition nodeStage :: "('m, 'p) daemonEnv \<Rightarrow> daemonReq \<Rightarrow> bool \<times> bool \<times> bool \<Rightarrow> string list stage" where
  "nodeStage env req mig =
     seqD (checkD (repoConfigErr env)) (\<lambda>_.
     case daemonBuildCfg env req of
       Inl _ \<Rightarrow> stopD (DPanic ''invalid flag value'')
     | Inr ncfg \<Rightarrow>
         seqD (liftD (routingFor (daemonRouting env req))) (\<lambda>rk.
         seqD (liftD (newNode env ncfg rk)) (\<lambda>node. builtStage env req rk node mig)))"

definition daemonFunc :: "('m, 'p) daemonEnv \<Rightarrow> daemonReq \<Rightarrow> string list stage" where
  "daemonFunc env req =
     seqD (initStage env req) (\<lambda>_.
     withRepo env req (\<lambda>mig. deferD (\<lambda>_. [RepoClosed]) (nodeStage env req mig)))"

end
