(* ===== verification/DaemonProps.thy ===== *)
theory DaemonProps
  imports Daemon "HOL-Library.Multiset"
begin

text \<open>
  Properties of the daemon: which routing a private network gets, what must run before it says
  that it is ready, what is released on the way out, what the API serves, which addresses are
  listened on.
\<close>

section \<open>Stages\<close>

lemma snd_seqD: "snd (seqD m f) = (case snd m of Inl e \<Rightarrow> Inl e | Inr a \<Rightarrow> snd (f a))"
  by (simp add: seqD_def split: sum.split)

lemma fst_seqD: "fst (seqD m f) = fst m @ (case snd m of Inl e \<Rightarrow> [] | Inr a \<Rightarrow> fst (f a))"
  by (simp add: seqD_def split: sum.split)

lemmas stageBasics = retD_def stopD_def doD_def checkD_def liftD_def serveEach_def

lemma seqD_liftD: "seqD (liftD r) f = (case r of Inl e \<Rightarrow> stopD (DErr e) | Inr a \<Rightarrow> f a)"
  by (simp add: seqD_def stageBasics split: sum.split)

text \<open>All that a stage does satisfies \<open>P\<close>.\<close>

definition does :: "(dEvent \<Rightarrow> bool) \<Rightarrow> 'a stage \<Rightarrow> bool" where
  "does P m = (\<forall>ev\<in>set (fst m). P ev)"

named_theorems doing

lemma does_basic [doing]: "does P (retD a)" "does P (stopD e)" "does P (checkD x)" "does P (liftD r)"
  by (simp_all add: does_def stageBasics split: option.split sum.split)

lemma does_doD [doing]: "P ev \<Longrightarrow> does P (doD ev)"
  by (simp add: does_def doD_def)

lemma does_serveEach: "P ev \<Longrightarrow> does P (serveEach ev ls)" "does P (serveEach ev [])"
  by (simp_all add: does_def serveEach_def)

lemma does_seqD [doing]: "does P m \<Longrightarrow> (\<And>a. does P (f a)) \<Longrightarrow> does P (seqD m f)"
  by (auto simp: does_def fst_seqD split: sum.splits)

lemma does_deferD [doing]: "does P m \<Longrightarrow> (\<And>es ev. ev \<in> set (cl es) \<Longrightarrow> P ev) \<Longrightarrow> does P (deferD cl m)"
  by (auto simp: does_def deferD_def split: sum.splits dStop.splits)

lemma does_if [doing]: "does P m \<Longrightarrow> does P n \<Longrightarrow> does P (if b then m else n)"
  by simp

lemma does_list [doing]: "does P m \<Longrightarrow> (\<And>x xs. does P (f x xs)) \<Longrightarrow> does P (case l of [] \<Rightarrow> m | x # xs \<Rightarrow> f x xs)"
  by (simp split: list.split)

lemma does_serveHTTPApi [doing]: "(\<And>opts. P (ApiServing opts)) \<Longrightarrow> does P (serveHTTPApi sv u a cfg)"
  unfolding serveHTTPApi_def by (intro doing does_serveEach(1))

lemma does_serveHTTPGateway [doing]: "(\<And>opts. P (GatewayServing opts)) \<Longrightarrow> does P (serveHTTPGateway sv w cfg)"
  unfolding serveHTTPGateway_def by (intro doing does_serveEach(1))

lemma does_mountFuse [doing]: "(\<And>d n. P (FuseMounted d n)) \<Longrightarrow> does P (mountFuse a b c d e f g)"
  unfolding mountFuse_def Let_def by (intro doing)

lemma does_maybeRunGC [doing]: "P GCStarted \<Longrightarrow> does P (maybeRunGC b)"
  unfolding maybeRunGC_def by (intro doing)

lemma does_initStage [doing]: "P Initialised \<Longrightarrow> does P (initStage env req)"
  unfolding initStage_def by (intro doing)

definition servingEvent :: "dEvent \<Rightarrow> bool" where
  "servingEvent ev = (case ev of
      PluginsStarted \<Rightarrow> True | ApiServing _ \<Rightarrow> True | FuseMounted _ _ \<Rightarrow> True | GCStarted \<Rightarrow> True | MigrationsAdded _ \<Rightarrow> True
    | TempDirRemoved \<Rightarrow> True | FetcherClosed \<Rightarrow> True | GatewayServing _ \<Rightarrow> True | MfsPinning \<Rightarrow> True | ReadyNotified \<Rightarrow> True | _ \<Rightarrow> False)"

lemma does_serveStage: "does servingEvent (serveStage env req mig)"
  unfolding serveStage_def by (intro doing) (simp_all add: servingEvent_def)

section \<open>What is released\<close>

text \<open>Every \<open>a\<close> is followed by a \<open>b\<close>, unless the process exits.\<close>

definition released :: "dEvent \<Rightarrow> dEvent \<Rightarrow> dEvent list \<Rightarrow> bool" where
  "released a b es = (\<forall>pre post. es = pre @ a # post \<longrightarrow> b \<in> set post)"

text \<open>\<open>X\<close> are the ends that are excepted; the exit of the process always is.\<close>

definition releases :: "(dStop \<Rightarrow> bool) \<Rightarrow> dEvent \<Rightarrow> dEvent \<Rightarrow> 'a stage \<Rightarrow> bool" where
  "releases X a b m = ((\<forall>e. snd m = Inl e \<longrightarrow> \<not> X e) \<longrightarrow> released a b (fst m))"

definition exits :: "dStop \<Rightarrow> bool" where
  "exits e = (\<exists>msg. e = DFatal msg)"

lemma released_skip: "a \<notin> set es \<Longrightarrow> released a b es"
  by (auto simp: released_def)

lemma released_snoc: "a \<noteq> b \<Longrightarrow> released a b (es @ [b])"
  by (auto simp: released_def append_eq_append_conv2 Cons_eq_append_conv append_eq_Cons_conv)

lemma released_append: "a \<notin> set xs \<Longrightarrow> released a b ys \<Longrightarrow> released a b (xs @ ys)"
  by (auto simp: released_def append_eq_append_conv2 Cons_eq_append_conv append_eq_Cons_conv)

lemma released_before: "released a b xs \<Longrightarrow> a \<notin> set ys \<Longrightarrow> released a b (xs @ ys)"
  by (fastforce simp: released_def append_eq_append_conv2 Cons_eq_append_conv append_eq_Cons_conv)

lemma releases_never: "does (\<lambda>ev. ev \<noteq> a) m \<Longrightarrow> releases X a b m"
  by (auto simp: does_def releases_def intro!: released_skip)

lemma releases_seqD: "does (\<lambda>ev. ev \<noteq> a) m \<Longrightarrow> (\<And>x. releases X a b (f x)) \<Longrightarrow> releases X a b (seqD m f)"
  using released_append released_skip
  by (cases "snd m") (fastforce simp: releases_def does_def fst_seqD snd_seqD)+

lemma releases_if: "releases X a b m \<Longrightarrow> releases X a b n \<Longrightarrow> releases X a b (if c then m else n)"
  by simp

lemma releases_deferD: "releases X a b m \<Longrightarrow> (\<And>es. a \<notin> set (cl es)) \<Longrightarrow> releases X a b (deferD cl m)"
  by (auto simp: releases_def deferD_def split: sum.splits dStop.splits intro!: released_before)

lemma releases_deferred: "(\<And>msg. X (DFatal msg)) \<Longrightarrow> a \<noteq> b \<Longrightarrow> releases X a b (deferD (\<lambda>_. [b]) m)"
  by (auto simp: releases_def deferD_def split: sum.splits dStop.splits intro!: released_snoc)

text \<open>A stage that ends with \<open>b\<close>, or runs a deferred \<open>b\<close> unless it has done so.\<close>

definition endsIn :: "(dStop \<Rightarrow> bool) \<Rightarrow> dEvent \<Rightarrow> 'a stage \<Rightarrow> bool" where
  "endsIn X b m = ((\<forall>e. snd m = Inl e \<longrightarrow> \<not> X e) \<longrightarrow> b \<in> set (fst m))"

lemma endsIn_deferD: "(\<And>msg. X (DFatal msg)) \<Longrightarrow> (\<And>es. b \<in> set es \<or> b \<in> set (cl es)) \<Longrightarrow> endsIn X b (deferD cl m)"
  by (auto simp: endsIn_def deferD_def split: sum.splits dStop.splits)

lemma releases_doD:
  assumes "endsIn X b m" and "releases X a b m"
  shows "releases X a b (seqD (doD a) (\<lambda>_. m))"
  using assms by (auto simp: releases_def endsIn_def released_def fst_seqD snd_seqD doD_def Cons_eq_append_conv)

lemma releases_stop: "X e \<Longrightarrow> releases X a b (stopD e)" and endsIn_stop: "X e \<Longrightarrow> endsIn X b (stopD e)"
  by (simp_all add: releases_def endsIn_def stopD_def)

section \<open>The stages of the daemon\<close>

lemma does_nodeStage_from:
  assumes "does P (serveStage env req mig)" and "\<And>rk. P (NodeBuilt rk)" and "P NodeClosed"
  shows "does P (nodeStage env req mig)"
  unfolding nodeStage_def builtStage_def using assms
  by (auto intro!: doing split: sum.split)

lemma does_nodeStage [doing]:
  assumes "\<And>ev. servingEvent ev \<Longrightarrow> P ev" and "\<And>rk. P (NodeBuilt rk)" and "P NodeClosed"
  shows "does P (nodeStage env req mig)"
proof (rule does_nodeStage_from)
  show "does P (serveStage env req mig)"
    using does_serveStage[of env req mig] assms(1) by (auto simp: does_def)
qed (simp_all add: assms(2,3))

lemma does_withRepo:
  assumes "\<And>mig. does P (k mig)"
    and "\<And>ev. ev \<in> {RepoOpened, MigrationAsked, FetcherMade, TempDirMade, MigrationsRan, FetcherClosed, TempDirRemoved} \<Longrightarrow> P ev"
  shows "does P (withRepo env req k)"
proof -
  have run: "does P (migrated env k mig)" for mig
    unfolding migrated_def using assms by (intro doing) auto
  show ?thesis
    unfolding withRepo_def migrationStage_def afterFetcher_def Let_def using assms
    by (auto intro!: does_seqD does_deferD does_doD does_basic does_if run split: openResult.split if_splits)
qed

definition mainStage :: "('m, 'p) daemonEnv \<Rightarrow> daemonReq \<Rightarrow> bool \<times> bool \<times> bool \<Rightarrow> string list stage" where
  "mainStage env req mig = deferD (\<lambda>_. [RepoClosed]) (nodeStage env req mig)"

lemma daemonFunc_stages: "daemonFunc env req = seqD (initStage env req) (\<lambda>_. withRepo env req (mainStage env req))"
  by (simp add: daemonFunc_def mainStage_def[abs_def])

lemma does_daemonFunc:
  assumes "\<And>mig. does P (serveStage env req mig)" and "\<And>rk. P (NodeBuilt rk)" and "P NodeClosed" and "P RepoClosed" and "P Initialised"
    and "\<And>ev. ev \<in> {RepoOpened, MigrationAsked, FetcherMade, TempDirMade, MigrationsRan, FetcherClosed, TempDirRemoved} \<Longrightarrow> P ev"
  shows "does P (daemonFunc env req)"
proof -
  have "does P (mainStage env req mig)" for mig
    unfolding mainStage_def using assms(4) by (intro does_deferD does_nodeStage_from assms(1-3)) simp
  then have "does P (withRepo env req (mainStage env req))"
    by (rule does_withRepo) (rule assms(6))
  then show ?thesis
    unfolding daemonFunc_stages by (intro does_seqD does_initStage assms(5))
qed

lemma does_mainStage [doing]:
  assumes "\<And>ev. servingEvent ev \<Longrightarrow> P ev" and "\<And>rk. P (NodeBuilt rk)" and "P NodeClosed" and "P RepoClosed"
  shows "does P (mainStage env req mig)"
  unfolding mainStage_def using assms by (auto intro!: doing)


text \<open>What follows a repository that was opened, and the migrations before it.\<close>

lemma releases_withRepo:
  assumes k: "\<And>mig. releases X a b (seqD (doD RepoOpened) (\<lambda>_. k mig))"
    and early: "a \<notin> {MigrationAsked, FetcherMade, TempDirMade, MigrationsRan, FetcherClosed, TempDirRemoved}"
  shows "releases X a b (withRepo env req k)"
proof -
  have ran: "releases X a b (migrated env k mig)" for mig
    unfolding migrated_def using early by (intro releases_seqD k doing) auto
  have "releases X a b (migrationStage env req k)"
    unfolding migrationStage_def afterFetcher_def Let_def using early
    by (auto intro!: releases_seqD releases_deferD releases_never[OF does_basic(2)] ran doing split: if_splits)
  then show ?thesis
    unfolding withRepo_def using k
    by (auto intro: releases_never doing split: openResult.split)
qed

lemma releases_daemonFunc:
  assumes "\<And>mig. releases X a b (seqD (doD RepoOpened) (\<lambda>_. mainStage env req mig))"
    and "a \<notin> {Initialised, MigrationAsked, FetcherMade, TempDirMade, MigrationsRan, FetcherClosed, TempDirRemoved}"
  shows "releases X a b (daemonFunc env req)"
proof -
  have "releases X a b (withRepo env req (mainStage env req))"
    using assms by (intro releases_withRepo) auto
  then show ?thesis
    unfolding daemonFunc_stages using assms(2) by (auto intro!: releases_seqD doing)
qed

lemma repo_released: "releases exits RepoOpened RepoClosed (daemonFunc env req)"
  by (intro releases_daemonFunc releases_doD)
    (auto simp: mainStage_def exits_def intro!: endsIn_deferD releases_deferred)

lemma node_released_before_repo: "releases exits NodeClosed RepoClosed (daemonFunc env req)"
  by (intro releases_daemonFunc releases_seqD)
    (auto simp: mainStage_def exits_def intro!: releases_deferred doing)

text \<open>For what is acquired during migrations only that part has to be looked at.\<close>

lemma releases_migrations:
  assumes early: "a \<notin> {Initialised, MigrationAsked, RepoOpened}" "\<And>mig. does (\<lambda>ev. ev \<noteq> a) (mainStage env req mig)"
    and made: "\<And>keep. releases X a b (seqD (doD FetcherMade) (\<lambda>_. afterFetcher env keep (mainStage env req)))"
  shows "releases X a b (daemonFunc env req)"
proof -
  have "releases X a b (migrationStage env req (mainStage env req))"
    unfolding migrationStage_def
    by (rule releases_seqD, use early in \<open>auto intro: doing\<close>, rule releases_never, rule does_basic,
        rule releases_seqD, rule does_basic, rule releases_seqD, rule does_basic, rule made)
  moreover have "releases X a b (seqD (doD RepoOpened) (\<lambda>_. mainStage env req mig))" for mig
    using early by (intro releases_never does_seqD does_doD) auto
  ultimately have "releases X a b (withRepo env req (mainStage env req))"
    unfolding withRepo_def by (auto intro: releases_never doing split: openResult.split)
  then show ?thesis
    unfolding daemonFunc_stages using early by (auto intro!: releases_seqD doing)
qed

lemma fetcher_released: "releases exits FetcherMade FetcherClosed (daemonFunc env req)"
proof (rule releases_migrations)
  show "releases exits FetcherMade FetcherClosed (seqD (doD FetcherMade) (\<lambda>_. afterFetcher env keep (mainStage env req)))" for keep
    unfolding afterFetcher_def by (intro releases_doD endsIn_deferD releases_deferred) (auto simp: exits_def)
qed (auto simp: servingEvent_def intro!: doing)

lemma temp_dir_released: "releases exits TempDirMade TempDirRemoved (daemonFunc env req)"
proof (rule releases_migrations)
  have inner: "releases exits TempDirMade TempDirRemoved (seqD (doD TempDirMade) (\<lambda>_.
      deferD (\<lambda>es. if TempDirRemoved \<in> set es then [] else [TempDirRemoved]) m))"
    if "does (\<lambda>ev. ev \<noteq> TempDirMade) m" for m :: "string list stage"
    using that by (intro releases_doD endsIn_deferD releases_deferD releases_never) (auto simp: exits_def split: if_splits)
  have m: "does (\<lambda>ev. ev \<noteq> TempDirMade) (migrated env (mainStage env req) mig)" for mig
    unfolding migrated_def by (auto simp: servingEvent_def intro!: doing)
  have "releases exits TempDirMade TempDirRemoved (afterFetcher env keep (mainStage env req))" for keep
    unfolding afterFetcher_def Let_def
    by (intro releases_deferD releases_if, rule releases_seqD, rule does_basic, rule inner, rule m, rule releases_never, rule m) simp
  then show "releases exits TempDirMade TempDirRemoved (seqD (doD FetcherMade) (\<lambda>_. afterFetcher env keep (mainStage env req)))" for keep
    by (intro releases_seqD doing) simp
qed (auto simp: servingEvent_def intro!: doing)


text \<open>The node is closed unless the process exits or the daemon panics before it defers that.\<close>

definition nilKey :: "dStop \<Rightarrow> bool" where
  "nilKey e = (exits e \<or> e = DPanic ''nil pointer dereference'')"

lemma node_released: "releases nilKey (NodeBuilt rk) NodeClosed (daemonFunc env req)"
proof -
  have serve: "does (\<lambda>ev. ev \<noteq> NodeBuilt rk) (serveStage env req mig)" for mig
    using does_serveStage[of env req mig] by (auto simp: does_def servingEvent_def)
  have built: "releases nilKey (NodeBuilt rk) NodeClosed (builtStage env req rk' node mig)" for rk' node mig
    unfolding builtStage_def
    by (cases "rk' = rk")
      (auto simp: nilKey_def exits_def intro!: releases_doD endsIn_deferD endsIn_stop releases_stop releases_deferred
        intro: releases_never doing releases_seqD serve)
  have "releases nilKey (NodeBuilt rk) NodeClosed (nodeStage env req mig)" for mig
    unfolding nodeStage_def
    by (cases "daemonBuildCfg env req") (auto intro!: releases_seqD does_basic built releases_never[OF does_basic(2)])
  then have "releases nilKey (NodeBuilt rk) NodeClosed (mainStage env req mig)" for mig
    unfolding mainStage_def by (rule releases_deferD) simp
  then show ?thesis
    by (intro releases_daemonFunc releases_seqD doing) auto
qed

text \<open>A daemon on which everything succeeds, with a private network, for the witnesses.\<close>

definition sampleServe :: "nat serveEnv" where
  "sampleServe = \<lparr> svConfigErr = None, svWebUIPaths = [''/ipfs/webui''], svRootRedirect = [], svWritable = False, svP2pProxy = False,
     svPathPrefixes = False, svActivated = Inr [], svParse = (\<lambda>s. Inr (length s)), svBytes = (\<lambda>n. replicate n (CHR ''a'')), svListen = Inr,
     svLoop = \<lparr> splitFirst = (\<lambda>n. (n, 0)), ip4any = 0, ip6any = 1, loopback4 = (\<lambda>n. n), loopback6 = (\<lambda>n. n) \<rparr>,
     svNodeErr = None, svSetAddr = (\<lambda>_. None), svToNetAddr = (\<lambda>_. None) \<rparr>"

definition sampleDaemon :: "(nat, nat) daemonEnv" where
  "sampleDaemon = \<lparr> isInitialized = True, loadConfigErr = (\<lambda>_. None), createIdentityErr = None, doInitErr = None, firstOpen = NeedsMigration,
     userAgrees = True, migrationKeep = Inr ''cache'', makeFetcher = None, makeTempDir = None, runMigration = None, secondOpen = None,
     repoConfigErr = None, cfgPubsub = FlagDefault, cfgIpnsPubsub = FlagDefault, cfgRoutingType = None, repoSwarmKey = Inr (Some ''key''),
     forcePrivateNetwork = False, newNode = (\<lambda>_ _. Inr (True, Some ''print'')), pluginsErr = None, apiEnv = sampleServe, cfgAPI = [''/api''],
     fuseConfigErr = None, fuseNodeErr = None, fuseMnt = (\<lambda>_ _. None), cfgMountIPFS = ''/ipfs'', cfgMountIPNS = ''/ipns'',
     fetchersOf = [HttpFetcherK], addMig = \<lparr> amConnect = None, amPin = (\<lambda>_. None), amGet = (\<lambda>_. None), amDownloaded = Some [''m''], amAddFile = (\<lambda>_. None) \<rparr>,
     gatewayEnv = sampleServe, cfgGateway = [''/gw''], reusePort = False, servingErrs = [] \<rparr>"

definition sampleReq :: daemonReq where
  "sampleReq = \<lparr> oInit = False, oInitConfig = [], oMigrate = None, oOffline = False, oPubsub = Some False, oIpnsps = Some False,
     oRouting = ''default'', oUnencrypted = False, oMount = True, oEnableGC = True, oApi = [], oUnrestricted = False, oWritable = None,
     oIpfsMount = None, oIpnsMount = None \<rparr>"

lemmas runStages = seqD_def stageBasics deferD_def

lemma sample_api: "serveHTTPApi sampleServe False [] [''/api''] = ([ApiServing (apiOptions False [''/ipfs/webui''] [])], Inr ([4], 4))"
  by (simp add: serveHTTPApi_def runStages sampleServe_def rewriteMaddrToUseLocalhostIfItsAny_def)

lemma sample_gateway: "serveHTTPGateway sampleServe None [''/gw''] = ([GatewayServing (gatewayOptions False False [])], Inr [3])"
  by (simp add: serveHTTPGateway_def runStages sampleServe_def rewriteMaddrToUseLocalhostIfItsAny_def gatewayWritable_def)

lemma sample_serve: "serveStage sampleDaemon sampleReq (True, False, True) =
    ([PluginsStarted, ApiServing (apiOptions False [''/ipfs/webui''] []), FuseMounted ''/ipfs'' ''/ipns'', GCStarted, MigrationsAdded None,
      TempDirRemoved, FetcherClosed, GatewayServing (gatewayOptions False False []), MfsPinning, ReadyNotified], Inr [])"
  by (simp add: serveStage_def runStages sampleDaemon_def sampleReq_def sample_api sample_gateway mountFuse_def maybeRunGC_def
      addMigrationFiles_def)

lemma sample_node: "nodeStage sampleDaemon sampleReq (True, False, True) =
    (NodeBuilt (RkDHT DHTModeAuto) # fst (serveStage sampleDaemon sampleReq (True, False, True)) @ [NodeClosed], Inr [])"
proof -
  have "daemonRouting sampleDaemon sampleReq = ''dht''"
    by (simp add: daemonRouting_def privateRouting_def routingOption_def sampleDaemon_def sampleReq_def OptionalString_WithDefault_def)
  moreover have "routingFor ''dht'' = Inr (RkDHT DHTModeAuto)" by (simp add: routingFor_def)
  moreover have "\<exists>cfg. daemonBuildCfg sampleDaemon sampleReq = Inr cfg" by (simp add: daemonBuildCfg_def sampleReq_def)
  moreover have "repoConfigErr sampleDaemon = None" "newNode sampleDaemon cfg rk = Inr (True, Some ''print'')" for cfg rk
    by (simp_all add: sampleDaemon_def)
  ultimately show ?thesis
    using sample_serve by (auto simp: nodeStage_def builtStage_def runStages)
qed

lemma sample_run: "daemonFunc sampleDaemon sampleReq =
    ([MigrationAsked, FetcherMade, TempDirMade, MigrationsRan, RepoOpened, NodeBuilt (RkDHT DHTModeAuto), PluginsStarted,
      ApiServing (apiOptions False [''/ipfs/webui''] []), FuseMounted ''/ipfs'' ''/ipns'', GCStarted, MigrationsAdded None, TempDirRemoved,
      FetcherClosed, GatewayServing (gatewayOptions False False []), MfsPinning] @ ReadyNotified #
      [NodeClosed, RepoClosed, FetcherClosed], Inr [])"
proof -
  have "firstOpen sampleDaemon = NeedsMigration" "userAgrees sampleDaemon" "migrationKeep sampleDaemon = Inr ''cache''"
    "makeFetcher sampleDaemon = None" "makeTempDir sampleDaemon = None" "runMigration sampleDaemon = None" "secondOpen sampleDaemon = None"
    "oInit sampleReq = False" "oMigrate sampleReq = None"
    by (simp_all add: sampleDaemon_def sampleReq_def)
  then show ?thesis
    by (simp add: daemonFunc_stages initStage_def withRepo_def migrationStage_def afterFetcher_def migrated_def mainStage_def
        sample_node sample_serve runStages)
qed

section \<open>What runs before the daemon is ready\<close>

definition needs :: "(dEvent \<Rightarrow> bool) \<Rightarrow> dEvent \<Rightarrow> 'a stage \<Rightarrow> bool" where
  "needs Q c m = (c \<notin> set (takeWhile (\<lambda>ev. \<not> Q ev) (fst m)))"

lemma needs_before: "needs Q c m \<Longrightarrow> \<not> Q c \<Longrightarrow> fst m = pre @ c # post \<Longrightarrow> \<exists>ev\<in>set pre. Q ev"
  by (auto simp: needs_def takeWhile_append split: if_splits)

text \<open>A stage that does \<open>ev\<close> whenever it succeeds.\<close>

definition achieves :: "dEvent \<Rightarrow> 'a stage \<Rightarrow> bool" where
  "achieves ev m = ((\<exists>r. snd m = Inr r) \<longrightarrow> ev \<in> set (fst m))"

lemma achieves_doD: "achieves ev (doD ev)" and achieves_stop: "achieves ev (stopD e)"
  by (simp_all add: achieves_def doD_def stopD_def)

lemma achieves_serveEach: "ls \<noteq> [] \<Longrightarrow> achieves ev (serveEach ev ls)"
  by (cases ls) (simp_all add: achieves_def serveEach_def)

lemma achieves_liftD: "(\<And>a. r = Inr a \<Longrightarrow> achieves ev (f a)) \<Longrightarrow> achieves ev (seqD (liftD r) f)"
  by (simp add: seqD_liftD achieves_stop split: sum.split)

lemma achieves_now: "achieves ev m \<Longrightarrow> achieves ev (seqD m f)"
  and achieves_later: "(\<And>a. achieves ev (f a)) \<Longrightarrow> achieves ev (seqD m f)"
  by (auto simp: achieves_def fst_seqD snd_seqD split: sum.splits)

lemma achieves_list: "achieves ev m \<Longrightarrow> (\<And>x xs. l = x # xs \<Longrightarrow> achieves ev (f x xs)) \<Longrightarrow> achieves ev (case l of [] \<Rightarrow> m | x # xs \<Rightarrow> f x xs)"
  by (simp split: list.split)

lemma needs_never: "does (\<lambda>ev. ev \<noteq> c) m \<Longrightarrow> needs Q c m"
  by (auto simp: does_def needs_def dest: set_takeWhileD)

text \<open>\<open>c\<close> comes after a stage that, if it succeeds, does what is needed - or later, if what comes
  later needs it.\<close>

lemma needs_here:
  assumes "does (\<lambda>ev. ev \<noteq> c) m" and "achieves ev m"
  shows "needs ((=) ev) c (seqD m f)"
  using assms by (cases "snd m") (auto simp: needs_def does_def achieves_def fst_seqD takeWhile_append dest!: set_takeWhileD)

lemma needs_later: "does (\<lambda>ev. ev \<noteq> c) m \<Longrightarrow> (\<And>a. needs Q c (f a)) \<Longrightarrow> needs Q c (seqD m f)"
  by (cases "snd m") (auto simp: needs_def does_def fst_seqD takeWhile_append dest!: set_takeWhileD)

lemma needs_deferD:
  assumes "needs Q c m" and "\<And>es. c \<notin> set (cl es)"
  shows "needs Q c (deferD cl m)"
proof -
  have "c \<notin> set (takeWhile (\<lambda>ev. \<not> Q ev) (fst m @ ys))" if "c \<notin> set ys" for ys
    using assms(1) that
    by (cases "\<exists>ev\<in>set (fst m). Q ev")
      (auto simp: needs_def takeWhile_append takeWhile_eq_all_conv[THEN iffD2] dest!: set_takeWhileD)
  then show ?thesis
    using assms by (auto simp: needs_def deferD_def split: sum.split dStop.split)
qed

lemma needs_daemonFunc:
  assumes "\<And>mig. needs Q ReadyNotified (serveStage env req mig)"
  shows "needs Q ReadyNotified (daemonFunc env req)"
proof -
  have "needs Q ReadyNotified (deferD (\<lambda>_. [NodeClosed]) (serveStage env req mig))" for mig
    by (rule needs_deferD[OF assms]) simp
  then have built: "needs Q ReadyNotified (builtStage env req rk node mig)" for rk node mig
    unfolding builtStage_def by (intro needs_later doing) (auto intro!: needs_never[OF does_basic(2)])
  have "needs Q ReadyNotified (nodeStage env req mig)" for mig
    unfolding nodeStage_def
    by (cases "daemonBuildCfg env req") (auto intro!: needs_later does_basic built needs_never[OF does_basic(2)])
  then have main: "needs Q ReadyNotified (mainStage env req mig)" for mig
    unfolding mainStage_def by (rule needs_deferD) simp
  have run: "needs Q ReadyNotified (migrated env (mainStage env req) mig)" for mig
    unfolding migrated_def by (intro needs_later main doing) auto
  have "needs Q ReadyNotified (afterFetcher env keep (mainStage env req))" for keep
    unfolding afterFetcher_def Let_def
    by (auto intro!: needs_deferD needs_later doing run split: if_splits)
  then have "needs Q ReadyNotified (migrationStage env req (mainStage env req))"
    unfolding migrationStage_def
    by (auto intro!: needs_later does_basic does_doD needs_never[OF does_basic(2)])
  then have "needs Q ReadyNotified (withRepo env req (mainStage env req))"
    unfolding withRepo_def
    by (auto intro!: needs_later main does_doD needs_never[OF does_basic(2)] split: openResult.split)
  then show ?thesis
    unfolding daemonFunc_stages by (auto intro!: needs_later doing)
qed


lemma serveHTTPApi_serves: "achieves (ApiServing (apiOptions u (svWebUIPaths sv) (svRootRedirect sv))) (serveHTTPApi sv u a cfg)"
  unfolding serveHTTPApi_def
  by (rule achieves_later, rule achieves_later, rule achieves_later, rule achieves_later, rule achieves_list,
      rule achieves_stop, rule achieves_later, rule achieves_now, rule achieves_serveEach, simp)

text \<open>An address to listen on, when no socket was handed over, gives a listener.\<close>

lemma listenAll_some: "listenAll parseA bytes listen who kind {} addrs = Inr [] \<Longrightarrow> addrs = []"
  by (cases addrs) (auto simp: bindS_eq_Inr split: sum.splits)

lemma serveHTTPGateway_serves:
  assumes "cfg \<noteq> [] \<or> svActivated sv \<noteq> Inr []"
  shows "achieves (GatewayServing (gatewayOptions (gatewayWritable w (svWritable sv)) (svP2pProxy sv) (svRootRedirect sv))) (serveHTTPGateway sv w cfg)"
proof -
  have some: "act @ opened \<noteq> []"
    if "map_sum g id (svActivated sv) = Inr act"
      and "listenAll (svParse sv) (svBytes sv) (svListen sv) who kind (svBytes sv ` set act) cfg = Inr opened" for g who kind act opened
  proof
    assume "act @ opened = []"
    then have e: "act = []" "opened = []" by simp_all
    with that(2) have "cfg = []" by (auto dest: listenAll_some)
    moreover have "svActivated sv = Inr []" using that(1) e(1) by (cases "svActivated sv") simp_all
    ultimately show False using assms by simp
  qed
  show ?thesis
    unfolding serveHTTPGateway_def
    by (rule achieves_later, rule achieves_liftD, rule achieves_liftD, rule achieves_later, rule achieves_later, rule achieves_later,
        rule achieves_now, rule achieves_serveEach, rule some)
qed

text \<open>Without an address and without a socket no gateway is served.\<close>

abbreviation (input) noGateway :: "dEvent \<Rightarrow> bool" where
  "noGateway ev \<equiv> \<forall>opts. ev \<noteq> GatewayServing opts"

lemma serveHTTPGateway_none:
  assumes "cfg = []" "svActivated sv = Inr []"
  shows "does noGateway (serveHTTPGateway sv w cfg)"
proof -
  have none: "does noGateway (seqD (serveEach ev ([] @ [])) f)" if "\<And>u. does noGateway (f u)" for ev and f :: "unit \<Rightarrow> 'a list stage"
    using that by (simp add: does_seqD does_serveEach(2))
  show ?thesis
    unfolding serveHTTPGateway_def assms map_sum.simps id_apply seqD_liftD sum.case
    by (simp only: set_simps image_empty listenAll.simps seqD_liftD sum.case)
      (intro none does_seqD does_basic does_if does_list)
qed

lemma serves_no_gateway:
  assumes "cfgGateway env = []" "svActivated (gatewayEnv env) = Inr []"
  shows "does noGateway (daemonFunc env req)"
proof (rule does_daemonFunc)
  show "does noGateway (serveStage env req mig)" for mig
    unfolding serveStage_def
    by (intro does_seqD does_basic does_doD does_if does_serveHTTPApi does_mountFuse does_maybeRunGC
        serveHTTPGateway_none assms) simp_all
qed auto

definition fuseDirs :: "('m, 'p) daemonEnv \<Rightarrow> daemonReq \<Rightarrow> dEvent" where
  "fuseDirs env req = FuseMounted (case oIpfsMount req of Some d \<Rightarrow> d | None \<Rightarrow> cfgMountIPFS env)
     (case oIpnsMount req of Some d \<Rightarrow> d | None \<Rightarrow> cfgMountIPNS env)"

lemma mountFuse_mounts: "achieves (FuseMounted (case a of Some d \<Rightarrow> d | None \<Rightarrow> d1) (case b of Some d \<Rightarrow> d | None \<Rightarrow> d2)) (mountFuse e1 e2 mnt a b d1 d2)"
  unfolding mountFuse_def Let_def by (rule achieves_later, rule achieves_later, rule achieves_later, rule achieves_doD)

lemma ready_after_plugins: "needs ((=) PluginsStarted) ReadyNotified (serveStage env req mig)"
  unfolding serveStage_def
  by (rule needs_later, rule does_basic, rule needs_here, rule does_doD, simp, rule achieves_doD)

lemma ready_after_api:
  "needs ((=) (ApiServing (apiOptions (oUnrestricted req) (svWebUIPaths (apiEnv env)) (svRootRedirect (apiEnv env)))))
     ReadyNotified (serveStage env req mig)"
  unfolding serveStage_def
  by (rule needs_later, rule does_basic, rule needs_later, rule does_doD, simp, rule needs_here,
      rule does_serveHTTPApi, simp, rule serveHTTPApi_serves)

lemmas notYetReady = needs_later[where c = ReadyNotified, OF does_basic(3)]
  needs_later[where c = ReadyNotified, OF does_doD[of "\<lambda>ev. ev \<noteq> ReadyNotified"]]
  needs_later[where c = ReadyNotified, OF does_serveHTTPApi[of "\<lambda>ev. ev \<noteq> ReadyNotified"]]

lemma not_ready_stages:
  "does (\<lambda>ev. ev \<noteq> ReadyNotified) (if oMount req \<and> oOffline req then stopD e else retD ())"
  "does (\<lambda>ev. ev \<noteq> ReadyNotified) (if b then mountFuse e1 e2 mnt o1 o2 d1 d2 else retD ())"
  "does (\<lambda>ev. ev \<noteq> ReadyNotified) (maybeRunGC b)"
  "does (\<lambda>ev. ev \<noteq> ReadyNotified) (if b then seqD (doD (MigrationsAdded r)) (\<lambda>_. doD TempDirRemoved) else retD ())"
  "does (\<lambda>ev. ev \<noteq> ReadyNotified) (if b then doD FetcherClosed else retD ())"
  "does (\<lambda>ev. ev \<noteq> ReadyNotified) (serveHTTPGateway sv w cfg)"
  by (auto intro!: doing)

lemma no_mount_offline: "oMount req \<Longrightarrow> oOffline req \<Longrightarrow> needs (\<lambda>_. False) ReadyNotified (serveStage env req mig)"
  unfolding serveStage_def
  by (rule notYetReady, rule notYetReady, simp, rule notYetReady, simp, rule needs_never)
    (simp add: does_def fst_seqD stopD_def)

lemma ready_after_mount:
  "oMount req \<Longrightarrow> needs ((=) (fuseDirs env req)) ReadyNotified (serveStage env req mig)"
  unfolding serveStage_def fuseDirs_def
  by (rule notYetReady, rule notYetReady, simp, rule notYetReady, simp, rule needs_later, rule not_ready_stages,
      rule needs_here, rule not_ready_stages, simp add: mountFuse_mounts)

lemma ready_after_gc:
  "oEnableGC req \<Longrightarrow> needs ((=) GCStarted) ReadyNotified (serveStage env req mig)"
  unfolding serveStage_def
  by (rule notYetReady, rule notYetReady, simp, rule notYetReady, simp, rule needs_later, rule not_ready_stages,
      rule needs_later, rule not_ready_stages, rule needs_here, rule not_ready_stages, simp add: maybeRunGC_def achieves_doD)

text \<open>The steps before the gateway, the same for the gateway and what follows it.\<close>

lemma ready_after_gateway:
  "cfgGateway env \<noteq> [] \<or> svActivated (gatewayEnv env) \<noteq> Inr [] \<Longrightarrow>
    needs ((=) (GatewayServing (gatewayOptions (gatewayWritable (oWritable req) (svWritable (gatewayEnv env)))
      (svP2pProxy (gatewayEnv env)) (svRootRedirect (gatewayEnv env))))) ReadyNotified (serveStage env req mig)"
  "needs ((=) MfsPinning) ReadyNotified (serveStage env req mig)"
proof -
  have early: "needs Q ReadyNotified (serveStage env req mig)"
    if "\<And>u :: unit. needs Q ReadyNotified (seqD (serveHTTPGateway (gatewayEnv env) (oWritable req) (cfgGateway env)) (\<lambda>_.
      seqD (doD MfsPinning) (\<lambda>_. seqD (doD ReadyNotified) (\<lambda>_.
      if reusePort env then stopD (DFatal ''Support for IPFS_REUSEPORT was removed. Use LIBP2P_TCP_REUSEPORT instead.'')
      else retD (servingErrs env)))))" for Q
    unfolding serveStage_def
    by (rule notYetReady, rule notYetReady, simp, rule notYetReady, simp, rule needs_later, rule not_ready_stages,
        rule needs_later, rule not_ready_stages, rule needs_later, rule not_ready_stages,
        rule needs_later, rule not_ready_stages, rule needs_later, rule not_ready_stages, rule that)
  show "cfgGateway env \<noteq> [] \<or> svActivated (gatewayEnv env) \<noteq> Inr [] \<Longrightarrow>
    needs ((=) (GatewayServing (gatewayOptions (gatewayWritable (oWritable req) (svWritable (gatewayEnv env)))
      (svP2pProxy (gatewayEnv env)) (svRootRedirect (gatewayEnv env))))) ReadyNotified (serveStage env req mig)"
    by (rule early, rule needs_here, rule not_ready_stages, erule serveHTTPGateway_serves)
  show "needs ((=) MfsPinning) ReadyNotified (serveStage env req mig)"
    by (rule early, rule needs_later, rule not_ready_stages, rule needs_here, simp add: does_def doD_def, rule achieves_doD)
qed

text \<open>
  C10. The daemon says that it is ready only after what it serves was started: the plugins, a
  server for the API, a server for the gateway if an address is configured for it or a socket was
  handed over - each with the options of the request and the configuration -, the pinning of the
  MFS root, and what was asked for: mounts and periodic garbage collection.  With mounts asked for
  it is not offline.  Without an address and a socket for the gateway it may say that it is ready
  all the same, but then it serves no gateway, before or after.
\<close>

theorem daemon_is_ready_only_when_serving:
  assumes "fst (daemonFunc env req) = pre @ ReadyNotified # post"
  shows "PluginsStarted \<in> set pre \<and>
    ApiServing (apiOptions (oUnrestricted req) (svWebUIPaths (apiEnv env)) (svRootRedirect (apiEnv env))) \<in> set pre \<and>
    (cfgGateway env \<noteq> [] \<or> svActivated (gatewayEnv env) \<noteq> Inr [] \<longrightarrow>
      GatewayServing (gatewayOptions (gatewayWritable (oWritable req) (svWritable (gatewayEnv env)))
        (svP2pProxy (gatewayEnv env)) (svRootRedirect (gatewayEnv env))) \<in> set pre) \<and>
    (cfgGateway env = [] \<and> svActivated (gatewayEnv env) = Inr [] \<longrightarrow>
      (\<forall>opts. GatewayServing opts \<notin> set (fst (daemonFunc env req)))) \<and>
    MfsPinning \<in> set pre \<and>
    (oMount req \<longrightarrow> fuseDirs env req \<in> set pre \<and> \<not> oOffline req) \<and>
    (oEnableGC req \<longrightarrow> GCStarted \<in> set pre)"
proof -
  have done_before: "ev \<in> set pre" if "\<And>mig. needs ((=) ev) ReadyNotified (serveStage env req mig)" "ev \<noteq> ReadyNotified" for ev
    using needs_before[OF needs_daemonFunc[OF that(1)] _ assms] that(2) by simp
  have "\<not> (oMount req \<and> oOffline req)"
    using needs_before[OF needs_daemonFunc[OF no_mount_offline] _ assms] by auto
  moreover have "fuseDirs env req \<in> set pre" if "oMount req"
    using done_before[OF ready_after_mount[OF that]] by (simp add: fuseDirs_def)
  moreover have "\<forall>opts. GatewayServing opts \<notin> set (fst (daemonFunc env req))"
    if "cfgGateway env = []" "svActivated (gatewayEnv env) = Inr []"
    using serves_no_gateway[OF that] by (auto simp: does_def)
  ultimately show ?thesis
    using done_before[OF ready_after_plugins] done_before[OF ready_after_api] done_before[OF ready_after_gateway(1)]
      done_before[OF ready_after_gateway(2)] done_before[OF ready_after_gc] by simp
qed


theorem daemon_is_ready_only_when_serving_witness:
  "GatewayServing (gatewayOptions False False []) \<in> set (takeWhile (\<lambda>ev. ev \<noteq> ReadyNotified) (fst (daemonFunc sampleDaemon sampleReq))) \<and>
   FuseMounted ''/ipfs'' ''/ipns'' \<in> set (takeWhile (\<lambda>ev. ev \<noteq> ReadyNotified) (fst (daemonFunc sampleDaemon sampleReq))) \<and>
   \<not> oOffline sampleReq"
  using daemon_is_ready_only_when_serving[of sampleDaemon sampleReq, unfolded sample_run, OF fst_conv]
  by (simp add: sample_run) (simp add: sampleReq_def)

text \<open>
  C6. Unless the process exits, the daemon gives back what it took, whatever fails: a repository
  that was opened is closed, and closed after the node; the fetcher of the migrations is closed
  and their temporary directory removed; a node that was built is closed, except that one without
  a private key makes the daemon panic before it defers the closing.
\<close>

theorem daemon_gives_back_what_it_took:
  assumes "\<forall>msg. snd (daemonFunc env req) \<noteq> Inl (DFatal msg)"
  shows "released RepoOpened RepoClosed (fst (daemonFunc env req)) \<and>
    released NodeClosed RepoClosed (fst (daemonFunc env req)) \<and>
    released FetcherMade FetcherClosed (fst (daemonFunc env req)) \<and>
    released TempDirMade TempDirRemoved (fst (daemonFunc env req)) \<and>
    (snd (daemonFunc env req) \<noteq> Inl (DPanic ''nil pointer dereference'') \<longrightarrow>
      released (NodeBuilt rk) NodeClosed (fst (daemonFunc env req)))"
  using assms repo_released[of env req] node_released_before_repo[of env req] fetcher_released[of env req]
    temp_dir_released[of env req] node_released[of rk env req]
  unfolding releases_def nilKey_def exits_def by blast

theorem daemon_gives_back_what_it_took_witness:
  "released RepoOpened RepoClosed (fst (daemonFunc sampleDaemon sampleReq)) \<and> RepoOpened \<in> set (fst (daemonFunc sampleDaemon sampleReq))"
  using daemon_gives_back_what_it_took[of sampleDaemon sampleReq RkNil] by (simp add: sample_run)

section \<open>Private networks\<close>

text \<open>A stage that never ends in the given way.\<close>

definition avoids :: "dStop \<Rightarrow> 'a stage \<Rightarrow> bool" where
  "avoids e m = (snd m \<noteq> Inl e)"

named_theorems avoiding

lemma avoids_basic [avoiding]:
  "avoids e (retD a)" "avoids e (doD ev)" "avoids e (serveEach ev ls)"
  "avoids (DFatal msg) (checkD x)" "avoids (DFatal msg) (liftD r)"
  by (simp_all add: avoids_def stageBasics split: option.split sum.split)

lemma avoids_stopD [avoiding]: "e' \<noteq> e \<Longrightarrow> avoids e (stopD e')"
  by (simp add: avoids_def stopD_def)

lemma avoids_seqD [avoiding]: "avoids e m \<Longrightarrow> (\<And>a. avoids e (f a)) \<Longrightarrow> avoids e (seqD m f)"
  by (auto simp: avoids_def snd_seqD split: sum.split)

lemma avoids_deferD [avoiding]: "avoids e m \<Longrightarrow> avoids e (deferD cl m)"
  by (auto simp: avoids_def deferD_def split: sum.split dStop.split)

lemma avoids_if [avoiding]: "(b \<Longrightarrow> avoids e m) \<Longrightarrow> (\<not> b \<Longrightarrow> avoids e n) \<Longrightarrow> avoids e (if b then m else n)"
  by simp

lemma avoids_list [avoiding]: "avoids e m \<Longrightarrow> (\<And>x xs. avoids e (f x xs)) \<Longrightarrow> avoids e (case l of [] \<Rightarrow> m | x # xs \<Rightarrow> f x xs)"
  by (simp split: list.split)

abbreviation (input) autoFatal :: dStop where
  "autoFatal \<equiv> DFatal ''Private network does not work with Routing.Type=auto.''"

lemma serveStage_avoids: "avoids autoFatal (serveStage env req mig)"
  unfolding serveStage_def serveHTTPApi_def serveHTTPGateway_def mountFuse_def maybeRunGC_def Let_def
  by (intro avoiding) simp_all

lemma daemonFunc_avoids:
  assumes "daemonRouting env req \<noteq> ''auto''"
  shows "avoids autoFatal (daemonFunc env req)"
proof -
  have built: "avoids autoFatal (builtStage env req rk node mig)" for rk node mig
    unfolding builtStage_def using assms by (intro avoiding serveStage_avoids) simp_all
  have "avoids autoFatal (nodeStage env req mig)" for mig
    unfolding nodeStage_def by (cases "daemonBuildCfg env req") (auto intro!: avoiding built)
  then have main: "avoids autoFatal (mainStage env req mig)" for mig
    unfolding mainStage_def by (rule avoids_deferD)
  have run: "avoids autoFatal (migrated env (mainStage env req) mig)" for mig
    unfolding migrated_def by (intro avoiding main)
  have "avoids autoFatal (migrationStage env req (mainStage env req))"
    unfolding migrationStage_def afterFetcher_def Let_def by (intro avoiding run) simp_all
  then have "avoids autoFatal (withRepo env req (mainStage env req))"
    unfolding withRepo_def by (auto intro!: avoiding main split: openResult.split)
  then show ?thesis
    unfolding daemonFunc_stages initStage_def by (intro avoiding)
qed

lemma built_routing: "does (\<lambda>ev. ev = NodeBuilt rk \<longrightarrow> routingFor (daemonRouting env req) = Inr rk) (daemonFunc env req)"
proof -
  let ?P = "\<lambda>ev. ev = NodeBuilt rk \<longrightarrow> routingFor (daemonRouting env req) = Inr rk"
  have "does ?P (serveStage env req mig)" for mig
    using does_serveStage[of env req mig] by (auto simp: does_def servingEvent_def)
  then have built: "does ?P (builtStage env req rk' node mig)" if "routingFor (daemonRouting env req) = Inr rk'" for rk' node mig
    using that unfolding builtStage_def by (intro doing) auto
  have "does ?P (nodeStage env req mig)" for mig
  proof (cases "routingFor (daemonRouting env req)")
    case (Inl e)
    then have "seqD (liftD (routingFor (daemonRouting env req))) f = stopD (DErr e)" for f :: "routingKind \<Rightarrow> string list stage"
      by (simp add: seqD_def stageBasics)
    then show ?thesis unfolding nodeStage_def by (auto intro!: doing split: sum.split)
  next
    case (Inr rk')
    then have "seqD (liftD (routingFor (daemonRouting env req))) f = f rk'" for f :: "routingKind \<Rightarrow> string list stage"
      by (simp add: seqD_def stageBasics)
    then show ?thesis unfolding nodeStage_def by (auto intro!: does_seqD does_basic built[OF Inr] split: sum.split)
  qed
  then have main: "does ?P (mainStage env req mig)" for mig
    unfolding mainStage_def by (rule does_deferD) simp
  then have "does ?P (withRepo env req (mainStage env req))"
    by (rule does_withRepo) auto
  then show ?thesis
    unfolding daemonFunc_stages by (auto intro!: doing)
qed

text \<open>
  C14. The routing of a node with a swarm key.  What is asked for is the routing option, or, if that
  is left at its default, the configured type, \<open>auto\<close> if there is none.  If it is \<open>auto\<close>, the
  routing becomes \<open>dht\<close>, and the only node the daemon builds is one with the DHT in automatic
  mode; everything else is taken as it is asked for, and a node that is built has that routing.
  So the default routing, which asks public HTTP endpoints, is built only if the option is left at
  its default and the configured type is the word \<open>default\<close>.  Nothing stops that one: the check for
  private networks that follows the construction looks for \<open>auto\<close>, and never ends the daemon of a
  node with a swarm key.
\<close>

theorem private_network_avoids_public_routing:
  assumes "repoSwarmKey env = Inr (Some key)" and "r = routingOption (oRouting req) (cfgRoutingType env)"
  shows "daemonRouting env req = (if r = ''auto'' then ''dht'' else r) \<and>
    (\<forall>rk. NodeBuilt rk \<in> set (fst (daemonFunc env req)) \<longrightarrow>
      routingFor (daemonRouting env req) = Inr rk \<and> (r = ''auto'' \<longrightarrow> rk = RkDHT DHTModeAuto)) \<and>
    (routingFor (daemonRouting env req) = Inr RkDefault \<longleftrightarrow>
      oRouting req = ''default'' \<and> OptionalString_WithDefault (cfgRoutingType env) ''auto'' = ''default'') \<and>
    snd (daemonFunc env req) \<noteq> Inl (DFatal ''Private network does not work with Routing.Type=auto.'')"
proof (intro conjI allI impI)
  show dr: "daemonRouting env req = (if r = ''auto'' then ''dht'' else r)"
    using assms by (simp add: daemonRouting_def privateRouting_def)
  show rf: "routingFor (daemonRouting env req) = Inr rk" if "NodeBuilt rk \<in> set (fst (daemonFunc env req))" for rk
    using built_routing[of rk env req] that by (auto simp: does_def)
  show "rk = RkDHT DHTModeAuto" if "NodeBuilt rk \<in> set (fst (daemonFunc env req))" "r = ''auto''" for rk
    using rf[OF that(1)] dr that(2) by (simp add: routingFor_def)
  show "routingFor (daemonRouting env req) = Inr RkDefault \<longleftrightarrow>
      oRouting req = ''default'' \<and> OptionalString_WithDefault (cfgRoutingType env) ''auto'' = ''default''"
    using assms
    by (auto simp: daemonRouting_def privateRouting_def routingOption_def routingFor_def Let_def split: if_splits)
  have "daemonRouting env req \<noteq> ''auto''" using dr by simp
  from daemonFunc_avoids[OF this]
  show "snd (daemonFunc env req) \<noteq> Inl (DFatal ''Private network does not work with Routing.Type=auto.'')"
    by (simp add: avoids_def)
qed

theorem private_network_avoids_public_routing_witness:
  "NodeBuilt (RkDHT DHTModeAuto) \<in> set (fst (daemonFunc sampleDaemon sampleReq)) \<and> daemonRouting sampleDaemon sampleReq = ''dht''
   \<and> NodeBuilt RkDefault \<notin> set (fst (daemonFunc sampleDaemon sampleReq)) \<and> repoSwarmKey sampleDaemon = Inr (Some ''key'')"
proof -
  have k: "repoSwarmKey sampleDaemon = Inr (Some ''key'')"
    and r: "''auto'' = routingOption (oRouting sampleReq) (cfgRoutingType sampleDaemon)"
    by (simp_all add: sampleDaemon_def sampleReq_def routingOption_def OptionalString_WithDefault_def)
  from private_network_avoids_public_routing[OF k r] k show ?thesis
    by (auto simp: sample_run)
qed

section \<open>Listeners\<close>

text \<open>No address is listened on twice, and none that a socket was handed over for.\<close>

lemma listenAll_opens_once:
  assumes "listenAll parseA bytes Inr who kind seen addrs = Inr ls"
  shows "distinct (map bytes ls) \<and> set (map bytes ls) \<inter> seen = {} \<and>
    (\<forall>a\<in>set addrs. \<exists>m. parseA a = Inr m \<and> bytes m \<in> seen \<union> set (map bytes ls))"
  using assms
proof (induction addrs arbitrary: seen ls)
  case (Cons addr addrs)
  then obtain m where m: "parseA addr = Inr m" by (auto split: sum.splits)
  show ?case
  proof (cases "bytes m \<in> seen")
    case True
    then show ?thesis using Cons m by fastforce
  next
    case False
    then obtain ls' where "ls = m # ls'" "listenAll parseA bytes Inr who kind (insert (bytes m) seen) addrs = Inr ls'"
      using Cons.prems m by (auto simp: bindS_eq_Inr)
    then show ?thesis using Cons.IH[of "insert (bytes m) seen" ls'] m False by auto
  qed
qed simp

lemma merged_mset: "merged css out \<Longrightarrow> mset out = sum_list (map mset css)"
proof (induction rule: merged.induct)
  case (closedAll css)
  then show ?case by (induction css) auto
next
  case (emitOne i css x xs out)
  have "css = take i css @ (x # xs) # drop (Suc i) css" using emitOne.hyps by (metis id_take_nth_drop)
  then have "map mset css = map mset (take i css) @ add_mset x (mset xs) # map mset (drop (Suc i) css)"
    by (metis list.simps(9) map_append mset.simps(2))
  moreover have "css[i := xs] = take i css @ xs # drop (Suc i) css" using emitOne.hyps by (simp add: upd_conv_take_nth_drop)
  ultimately show ?case using emitOne.IH by simp
qed

text \<open>Without an address for the API, and without a socket that was handed over, the daemon panics.\<close>

lemma no_api_address_panics:
  assumes "svConfigErr sv = None" "svActivated sv = Inr []" "svNodeErr sv = None"
  shows "snd (serveHTTPApi sv u [] []) = Inl (DPanic ''index out of range'')"
  using assms by (simp add: serveHTTPApi_def snd_seqD stageBasics)

section \<open>Downloaded migrations\<close>

text \<open>An IPFS fetcher that fetched nothing keeps what a later fetcher downloaded from being added.\<close>

lemma idle_ipfs_fetcher_ends_adding:
  "addMigrations env pin (IpfsFetcherK [] has # fs) = ([], Some ''nothing downloaded by ipfs fetcher'')"
  by (simp add: addMigrationPaths_def)

end
