(* ===== verification/NodeProps.thy ===== *)
theory NodeProps
  imports NodeBuild
begin

text \<open>
  Properties of node construction: which network options a configuration leads to, how a
  node finds its routers and its first peers.
\<close>

section \<open>Lists of fallible results\<close>

lemma mapS_Inr_iff: "mapS f xs = Inr ys \<longleftrightarrow> list_all2 (\<lambda>x y. f x = Inr y) xs ys"
  by (induction xs arbitrary: ys) (auto simp: bindS_eq_Inr list_all2_Cons1)

lemma mapS_source: "mapS f xs = Inr ys \<Longrightarrow> y \<in> set ys \<Longrightarrow> \<exists>x\<in>set xs. f x = Inr y"
  by (induction xs arbitrary: ys) (auto simp: bindS_eq_Inr)

lemma mapS_target: "mapS f xs = Inr ys \<Longrightarrow> x \<in> set xs \<Longrightarrow> \<exists>y\<in>set ys. f x = Inr y"
  by (induction xs arbitrary: ys) (auto simp: bindS_eq_Inr)

section \<open>Multiplexers and relays\<close>

text \<open>The map of muxers that were seen stays empty, so none is ever refused as a duplicate.\<close>

lemma envMuxers_no_duplicate_check:
  "set tpts \<subseteq> {yamuxID, mplexID} \<Longrightarrow> envMuxers (\<lambda>_. False) tpts = Inr (map MuxerOpt tpts)"
  by (induction tpts) auto

lemma repeated_muxers_are_accepted:
  "prefs \<noteq> [] \<Longrightarrow> set (Fields prefs) \<subseteq> {yamuxID, mplexID} \<Longrightarrow>
   makeSmuxTransportOption prefs cfg = Inr (ChainOptions (map MuxerOpt (Fields prefs)))"
  by (simp add: makeSmuxTransportOption_def envMuxers_no_duplicate_check)

text \<open>
  The limits on relay reservations per address, per peer and per network that the
  configuration sets have no effect: the service gets the same options whatever they are,
  and each of its three limits is the limit on the total number of reservations when that
  is set.
\<close>

lemma reservation_limits_per_scope_are_ignored:
  "RelayServiceOpts net enable (rs\<lparr> MaxReservationsPerIP := a, MaxReservationsPerPeer := b, MaxReservationsPerASN := c \<rparr>) =
   RelayServiceOpts net enable rs \<and>
   (EnableRelayService r \<in> set (RelayServiceOpts net enable (rs\<lparr> MaxReservations := Some \<lparr> oi_value = Some k \<rparr> \<rparr>)) \<longrightarrow>
    rrMaxReservations r = k \<and> rrMaxReservationsPerIP r = k \<and> rrMaxReservationsPerPeer r = k \<and> rrMaxReservationsPerASN r = k)"
  by (simp add: RelayServiceOpts_def Let_def OptionalInteger_WithDefault_def)

section \<open>Where the options of the network come from\<close>

named_theorems opt_defs

lemmas opts_simps [opt_defs] = unitOptions_def AddrsFactory_def SmuxTransport_def makeSmuxTransportOption_def
  prioritizeOptions_def RelayTransport_def RelayServiceOpts_def ForceReachability_def HolePunching_def
  SecurityOpts_def BandwidthCounter_def AutoNATService_def ConnectionManager_def

lemma filters_out: "map_sum id snd (AddrFiltersOpts net fs) = Inr os \<Longrightarrow> \<exists>f. os = [ConnectionGater f]"
  unfolding AddrFiltersOpts_def
  by (cases "mapS (\<lambda>s. case parseMask net s of None \<Rightarrow> Inl (SetupErr (''incorrectly formatted address filter in config: '' @ s))
      | Some f \<Rightarrow> Inr f) fs") auto

lemma transports_out: "TransportsOpts cfg fp = Inr os \<Longrightarrow> \<exists>ts. os = map TransportOpt ts \<and> (fp \<noteq> None \<longrightarrow> set ts \<subseteq> {TCPTransport, WebsocketTransport})"
  by (auto simp: TransportsOpts_def addTransport_def addPublicTransport_def Let_def bindS_eq_Inr split: if_splits)

lemma autoRelay_out:
  "map_sum id fst (MaybeAutoRelay net st b) = Inr os \<Longrightarrow>
   (\<not> b \<and> os = []) \<or> (b \<and> ((\<exists>x. os = [StaticAutoRelay x]) \<or> os = [PeerSourceAutoRelay]))"
  unfolding MaybeAutoRelay_def
  by (cases "mapS (addrInfoFromString net) st") (auto split: if_splits)

text \<open>The options whose source matters, and the units they can come from.\<close>

definition relayDependent :: "('m, 'f) p2pOpt \<Rightarrow> bool" where
  "relayDependent o' = (case o' of EnableRelayService _ \<Rightarrow> True | StaticAutoRelay _ \<Rightarrow> True | PeerSourceAutoRelay \<Rightarrow> True
     | EnableHolePunchingOpt \<Rightarrow> True | _ \<Rightarrow> False)"

definition stackOptions :: "('m, 'f) p2pOpt list \<times> string option \<Rightarrow> bool" where
  "stackOptions pnet = (fst pnet = [] \<or> (\<exists>psk. fst pnet = [PrivateNetwork psk] \<and> snd pnet \<noteq> None))"

lemma unit_of_relayDependent:
  assumes "unitOptions net prefs pnet u = Inr os" "o' \<in> set os" "relayDependent o'" "stackOptions pnet"
  shows "(\<exists>rs. u = RelayServiceUnit True rs) \<or> (\<exists>st ps. u = AutoRelayUnit st ps True) \<or> (\<exists>fl. u = HolePunchingUnit fl True)"
  using assms
  by (cases u) (auto simp: opt_defs relayDependent_def stackOptions_def Let_def bindS_eq_Inr dest!: filters_out autoRelay_out transports_out
      split: if_splits sum.splits option.splits)

lemma unit_of_hole_punching:
  assumes "unitOptions net prefs pnet u = Inr os" "EnableHolePunchingOpt \<in> set os" "stackOptions pnet"
  shows "\<exists>fl. u = HolePunchingUnit fl True"
  using assms
  by (cases u) (auto simp: opt_defs stackOptions_def Let_def bindS_eq_Inr dest!: filters_out autoRelay_out transports_out
      split: if_splits sum.splits option.splits)

lemma unit_of_disabled_relay:
  assumes "unitOptions net prefs pnet u = Inr os" "DisableRelayOpt \<in> set os" "stackOptions pnet"
  shows "u = RelayTransportUnit False"
  using assms
  by (cases u) (auto simp: opt_defs stackOptions_def Let_def bindS_eq_Inr dest!: filters_out autoRelay_out transports_out
      split: if_splits sum.splits option.splits)

lemma unit_of_transport:
  assumes "unitOptions net prefs pnet u = Inr os" "TransportOpt t \<in> set os" "stackOptions pnet"
  shows "\<exists>tr. u = TransportsUnit tr"
  using assms
  by (cases u) (auto simp: opt_defs stackOptions_def Let_def bindS_eq_Inr dest!: filters_out autoRelay_out
      split: if_splits sum.splits option.splits)

lemma unit_of_private_network:
  assumes "unitOptions net prefs pnet u = Inr os" "PrivateNetwork psk \<in> set os" "stackOptions pnet"
  shows "snd pnet \<noteq> None"
  using assms
  by (cases u) (auto simp: opt_defs stackOptions_def Let_def bindS_eq_Inr dest!: filters_out autoRelay_out transports_out
      split: if_splits sum.splits option.splits)

lemma PNet_stackOptions: "PNet net swarmKey = Inr pnet \<Longrightarrow> stackOptions pnet"
  by (auto simp: PNet_def stackOptions_def split: sum.splits option.splits)

definition relayUnit :: "fxUnit \<Rightarrow> bool" where
  "relayUnit u = (case u of RelayTransportUnit _ \<Rightarrow> True | RelayServiceUnit _ _ \<Rightarrow> True | AutoRelayUnit _ _ _ \<Rightarrow> True
     | HolePunchingUnit _ _ \<Rightarrow> True | _ \<Rightarrow> False)"

lemma LibP2P_units:
  assumes "LibP2P env bcfg cfg = Inr units" "\<forall>err. ErrorUnit err \<notin> set units"
  obtains t s c where "relaySettings cfg = Inr (t, s, c)"
    "RelayTransportUnit t \<in> set units" "AutoRelayUnit (StaticRelays (cRelayClient (cOther cfg))) (peeringPeers (cOther cfg)) c \<in> set units"
    "\<And>b rs. RelayServiceUnit b rs \<in> set units \<Longrightarrow> b = s" "\<And>b. RelayTransportUnit b \<in> set units \<Longrightarrow> b = t"
    "\<And>st ps b. AutoRelayUnit st ps b \<in> set units \<Longrightarrow> b = c" "\<And>fl b. HolePunchingUnit fl b \<in> set units \<Longrightarrow> b = c"
proof -
  obtain connmgr ps disc where cm: "connMgrUnits cfg = Inr connmgr" and pd: "pubsubUnits env bcfg cfg = Inr (ps, disc)"
    using assms by (auto simp: LibP2P_def split: sum.splits prod.splits)
  have none: "filter relayUnit connmgr = []" "filter relayUnit ps = []" "filter relayUnit disc = []"
    "filter relayUnit (autonatUnits cfg) = []" "\<And>b. filter relayUnit (maybeProvide PubsubRouterUnit b) = []"
    "\<And>b. filter relayUnit (maybeProvide BandwidthUnit b) = []" "\<And>b. filter relayUnit (maybeProvide NatPortMapUnit b) = []"
    using cm pd by (auto simp: connMgrUnits_def pubsubUnits_def autonatUnits_def maybeProvide_def relayUnit_def Let_def
        split: if_splits AutoNATServiceMode.splits)
  obtain t s c where r: "relaySettings cfg = Inr (t, s, c)" and rem: "removedFields cfg = None"
    using assms(1) cm pd by (auto simp: LibP2P_def Let_def bindS_eq_Inr split: option.splits)
  have eq: "filter relayUnit units = [RelayTransportUnit t, RelayServiceUnit s (cRelayService (cOther cfg)),
      HolePunchingUnit (EnableHolePunching (cOther cfg)) c,
      AutoRelayUnit (StaticRelays (cRelayClient (cOther cfg))) (peeringPeers (cOther cfg)) c]"
    using assms(1) by (simp add: LibP2P_def cm pd r rem Let_def) (erule subst, simp add: none, simp add: relayUnit_def)
  have sub: "set (filter relayUnit units) \<subseteq> set units" by (rule filter_is_subset)
  have mem: "u \<in> set (filter relayUnit units)" if "u \<in> set units" "relayUnit u" for u
    using that by simp
  show thesis
  proof (rule that [OF r])
    show "RelayTransportUnit t \<in> set units"
      and "AutoRelayUnit (StaticRelays (cRelayClient (cOther cfg))) (peeringPeers (cOther cfg)) c \<in> set units"
      using sub unfolding eq by simp_all
    show "b = s" if "RelayServiceUnit b rs \<in> set units" for b rs
      using mem [OF that] unfolding eq by (simp add: relayUnit_def)
    show "b = t" if "RelayTransportUnit b \<in> set units" for b
      using mem [OF that] unfolding eq by (simp add: relayUnit_def)
    show "b = c" if "AutoRelayUnit st ps b \<in> set units" for st ps b
      using mem [OF that] unfolding eq by (simp add: relayUnit_def)
    show "b = c" if "HolePunchingUnit fl b \<in> set units" for fl b
      using mem [OF that] unfolding eq by (simp add: relayUnit_def)
  qed
qed

lemma libp2pOptions_no_error:
  assumes "libp2pOptions net prefs key units = Inr groups"
  shows "\<forall>err. ErrorUnit err \<notin> set units"
proof (intro allI notI)
  fix err
  assume "ErrorUnit err \<in> set units"
  moreover obtain pnet where "mapS (unitOptions net prefs pnet) units = Inr groups"
    using assms by (auto simp: libp2pOptions_def bindS_eq_Inr)
  ultimately show False using mapS_target by (fastforce simp: unitOptions_def)
qed

lemma relaySettings_need_transport: "relaySettings cfg = Inr (t, s, c) \<Longrightarrow> (s \<or> c) \<Longrightarrow> t"
  by (auto simp: relaySettings_def bindS_eq_Inr split: if_splits)

section \<open>The network stack\<close>

text \<open>
  C7. The options of the network stack never contradict one another.  A relay service, the use
  of relays and hole punching come only with the relay transport, which is then not also
  disabled; hole punching comes only with the use of relays; and a private network gets the
  transports TCP and WebSocket only.
\<close>

theorem network_options_are_consistent:
  assumes "LibP2P env bcfg cfg = Inr units" "libp2pOptions net prefs key units = Inr groups" "opts = List.concat groups"
  shows "(\<forall>o'\<in>set opts. relayDependent o' \<longrightarrow> EnableRelay \<in> set opts \<and> DisableRelayOpt \<notin> set opts) \<and>
    (EnableHolePunchingOpt \<in> set opts \<longrightarrow> PeerSourceAutoRelay \<in> set opts \<or> (\<exists>st. StaticAutoRelay st \<in> set opts)) \<and>
    (\<forall>psk t. PrivateNetwork psk \<in> set opts \<longrightarrow> TransportOpt t \<in> set opts \<longrightarrow> t \<in> {TCPTransport, WebsocketTransport})"
proof -
  obtain pnet where pn: "PNet net key = Inr pnet" and ms: "mapS (unitOptions net prefs pnet) units = Inr groups"
    using assms(2) by (auto simp: libp2pOptions_def bindS_eq_Inr)
  note so = PNet_stackOptions [OF pn]
  have source: "\<exists>u os. u \<in> set units \<and> unitOptions net prefs pnet u = Inr os \<and> o' \<in> set os" if "o' \<in> set opts" for o'
    using that mapS_source [OF ms] assms(3) unfolding assms(3) set_concat by blast
  have target: "\<exists>os. unitOptions net prefs pnet u = Inr os \<and> set os \<subseteq> set opts" if "u \<in> set units" for u
    using mapS_target [OF ms that] assms(3) by auto
  note noerr = libp2pOptions_no_error [OF assms(2)]
  show ?thesis
  proof (rule LibP2P_units [OF assms(1) noerr])
    fix t s c
    assume r: "relaySettings cfg = Inr (t, s, c)" and rt: "RelayTransportUnit t \<in> set units"
      and ar: "AutoRelayUnit (StaticRelays (cRelayClient (cOther cfg))) (peeringPeers (cOther cfg)) c \<in> set units"
      and only: "\<And>b rs. RelayServiceUnit b rs \<in> set units \<Longrightarrow> b = s" "\<And>b. RelayTransportUnit b \<in> set units \<Longrightarrow> b = t"
        "\<And>st ps b. AutoRelayUnit st ps b \<in> set units \<Longrightarrow> b = c" "\<And>fl b. HolePunchingUnit fl b \<in> set units \<Longrightarrow> b = c"
    have relay: "EnableRelay \<in> set opts \<and> DisableRelayOpt \<notin> set opts" if a: "o' \<in> set opts" and d: "relayDependent o'" for o'
    proof -
      obtain u os where u: "u \<in> set units" "unitOptions net prefs pnet u = Inr os" "o' \<in> set os" using source [OF a] by blast
      have "s \<or> c" using unit_of_relayDependent [OF u(2,3) d so] only u(1) by blast
      then have t: "t" using relaySettings_need_transport [OF r] by blast
      then have "EnableRelay \<in> set opts" using target [OF rt] by (auto simp: unitOptions_def RelayTransport_def)
      moreover have "DisableRelayOpt \<notin> set opts" using source unit_of_disabled_relay [OF _ _ so] only(2) t by blast
      ultimately show ?thesis by blast
    qed
    have hole: "PeerSourceAutoRelay \<in> set opts \<or> (\<exists>st. StaticAutoRelay st \<in> set opts)" if h: "EnableHolePunchingOpt \<in> set opts"
    proof -
      have c using source [OF h] unit_of_hole_punching [OF _ _ so] only(4) by blast
      then show ?thesis using target [OF ar] by (auto simp: unitOptions_def dest!: autoRelay_out)
    qed
    have priv: "tk \<in> {TCPTransport, WebsocketTransport}" if a: "PrivateNetwork psk \<in> set opts" and d: "TransportOpt tk \<in> set opts" for psk tk
    proof -
      have fp: "snd pnet \<noteq> None" using source [OF a] unit_of_private_network [OF _ _ so] by blast
      obtain u os where u: "unitOptions net prefs pnet u = Inr os" "TransportOpt tk \<in> set os" using source [OF d] by blast
      then obtain tr where "u = TransportsUnit tr" using unit_of_transport [OF _ _ so] by blast
      then show ?thesis using u fp by (auto simp: unitOptions_def dest!: transports_out)
    qed
    show ?thesis using relay hole priv by blast
  qed
qed


section \<open>A concrete configuration\<close>

definition demoTransports :: Transports where
  "demoTransports = \<lparr> netQUIC = 0, netTCP = 0, netWebsocket = 0, netRelay = 0, netWebTransport = 0, secTLS = 0, secSECIO = 0,
     secNoise = 0, muxYamux = 0, muxMplex = 0 \<rparr>"

definition demoRelay :: RelayService where
  "demoRelay = \<lparr> rsEnabled = 0, ConnectionDurationLimit = None, ConnectionDataLimit = None, ReservationTTL = None, MaxReservations = None,
     MaxCircuits = None, BufferSize = None, MaxReservationsPerPeer = None, MaxReservationsPerIP = None, MaxReservationsPerASN = None \<rparr>"

definition demoSection :: NodeSection where
  "demoSection = \<lparr> DisableBandwidthMetrics = True, DisableRelay = False, EnableRelayHop = False, EnableAutoRelay = False,
     cRelayClient = \<lparr> rcEnabled = 0, StaticRelays = [] \<rparr>, cRelayService = demoRelay, EnableHolePunching = 0,
     cTransports = demoTransports, Throttle = None, peeringPeers = [], PubsubRouterName = [], DisableSigning = False,
     SeenMessagesTTL = None, RepublishPeriod = [], RecordLifetime = [], ResolveCacheSize = 0, reproviderStrategy = None,
     dnsResolvers = [(''eth.'', []), (''.'', ''https://doh'')], MaxCacheTTL = Some \<lparr> od_value = Some 5 \<rparr>, internalBitswap = None,
     ShardingSizeThreshold = None, ForceReachabilityAs = None, HashOnRead = False, expFilestore = False, expUrlstore = False,
     expGraphsync = False, expAcceleratedDHT = False, expStrategicProviding = False, expSharding = False \<rparr>"

definition demoNodeConfig :: nodeConfig where
  "demoNodeConfig = \<lparr> cIdentity = \<lparr> PeerID = ''Qm'', PrivKey = [] \<rparr>,
     cDatastore = \<lparr> StorageMax = [], StorageGCWatermark = 0, GCPeriod = [], dsSpec = Map.empty, BloomFilterSize = 0 \<rparr>,
     cAddresses = \<lparr> aSwarm = [], aAnnounce = [], aAppendAnnounce = [], aNoAnnounce = [], aAPI = [], aGateway = [] \<rparr>,
     mdnsEnabled = False, routingType = None, Bootstrap = [], AddrFilters = [], DisableNatPortMap = True,
     cConnMgr = \<lparr> cmType = Some \<lparr> os_value = Some ''none'' \<rparr>, LowWater = None, HighWater = None, GracePeriod = None \<rparr>,
     ServiceMode = AutoNATServiceDisabled, reproviderInterval = None, RemoteServices = [], cOther = demoSection \<rparr>"

definition demoBuild :: buildCfg where
  "demoBuild = \<lparr> bcOnline = True, ExtraOpts = [], Permanent = True, DisableEncryptedConnections = True, NilRepo = False \<rparr>"

definition demoEnv :: buildEnv where
  "demoEnv = \<lparr> parseDuration = (\<lambda>_. Inr 0), parseByteSize = (\<lambda>_. None), decodePeer = Inr, decodeKey = Inr, debugMode = False,
     timeCacheDuration = 0 \<rparr>"

definition demoResources :: relayResources where
  "demoResources = \<lparr> rrData = 1, rrDuration = 1, rrMaxCircuits = 1, rrBufferSize = 1, rrReservationTTL = 1, rrMaxReservations = 1,
     rrMaxReservationsPerIP = 1, rrMaxReservationsPerPeer = 1, rrMaxReservationsPerASN = 1 \<rparr>"

definition demoNet :: "(string, string) netOps" where
  "demoNet = \<lparr> parseMultiaddr = Inr, parseMask = (\<lambda>_. None), addrBlocked = (\<lambda>_ _. False), addrBytes = id, addrInfoFromString = (\<lambda>_. Inl []),
     newConnManager = (\<lambda>_ _ _. None), decodePSK = Inr, pskFingerprint = id, relayDefaults = demoResources \<rparr>"

lemma demo_flag [simp]: "flagOr 0 b = Inr b"
  by (simp add: flagOr_def Flag_WithDefault_def Flag_consts)

lemma demo_priority: "Priority_WithDefault 0 100 = Inr (100, True)" "Priority_WithDefault 0 200 = Inr (200, True)"
  by (simp_all add: Priority_WithDefault_def Priority_consts)

lemma demo_stack:
  "\<exists>units. LibP2P demoEnv demoBuild demoNodeConfig = Inr units \<and> units = [BaseLibP2PUnit, UserAgentUnit, ResourceManagerUnit, AddrFiltersUnit [],
     AddrsFactoryUnit [] [] [], SmuxUnit demoTransports, RelayTransportUnit True, RelayServiceUnit True demoRelay, TransportsUnit demoTransports,
     ListenUnit [], DiscoveryUnit False, ReachabilityUnit None, HolePunchingUnit 0 True, SecurityUnit False demoTransports, RoutingUnit,
     ContentRoutingUnit, BaseRoutingUnit False, AutoRelayUnit [] [] True]"
proof -
  have fl: "netRelay demoTransports = 0" "rsEnabled demoRelay = 0" by (simp_all add: demoTransports_def demoRelay_def)
  show ?thesis
    by (simp add: LibP2P_def connMgrUnits_def pubsubUnits_def relaySettings_def removedFields_def autonatUnits_def maybeProvide_def
        demoNodeConfig_def demoSection_def demoBuild_def getOpt_def OptionalString_WithDefault_def Let_def fl)
qed

theorem network_options_are_consistent_witness:
  "\<exists>units groups. LibP2P demoEnv demoBuild demoNodeConfig = Inr units \<and> libp2pOptions demoNet [] (Inr None) units = Inr groups \<and>
     EnableHolePunchingOpt \<in> set (List.concat groups) \<and> EnableRelay \<in> set (List.concat groups)"
proof -
  obtain units where u: "LibP2P demoEnv demoBuild demoNodeConfig = Inr units" and us: "units = [BaseLibP2PUnit, UserAgentUnit, ResourceManagerUnit, AddrFiltersUnit [],
     AddrsFactoryUnit [] [] [], SmuxUnit demoTransports, RelayTransportUnit True, RelayServiceUnit True demoRelay, TransportsUnit demoTransports,
     ListenUnit [], DiscoveryUnit False, ReachabilityUnit None, HolePunchingUnit 0 True, SecurityUnit False demoTransports, RoutingUnit,
     ContentRoutingUnit, BaseRoutingUnit False, AutoRelayUnit [] [] True]"
    using demo_stack by blast
  obtain os where tr: "TransportsOpts demoTransports None = Inr (os :: (string, string) p2pOpt list)"
    by (simp add: TransportsOpts_def addTransport_def addPublicTransport_def demoTransports_def)
  obtain mo where mux: "makeSmuxTransportOption [] demoTransports = Inr (mo :: (string, string) p2pOpt)"
    by (simp add: makeSmuxTransportOption_def prioritizeOptions_def demoTransports_def demo_priority)
  have "\<exists>groups. libp2pOptions demoNet [] (Inr None) units = Inr groups \<and> EnableHolePunchingOpt \<in> set (List.concat groups)"
    by (simp add: tr mux us libp2pOptions_def PNet_def unitOptions_def AddrFiltersOpts_def AddrsFactory_def makeAddrsFactory_def
        SmuxTransport_def RelayServiceOpts_def Let_def ForceReachability_def OptionalString_IsDefault_def HolePunching_def SecurityOpts_def MaybeAutoRelay_def)
  then obtain groups where g: "libp2pOptions demoNet [] (Inr None) units = Inr groups" and h: "EnableHolePunchingOpt \<in> set (List.concat groups)"
    by blast
  have "relayDependent (EnableHolePunchingOpt :: (string, string) p2pOpt)" by (simp add: relayDependent_def)
  with network_options_are_consistent [OF u g refl] h show ?thesis using u g by blast
qed

section \<open>DNS\<close>

text \<open>What is known of the resolvers that are kept for use under the same URL.\<close>

definition keptUnder :: "(string \<Rightarrow> dnsResolver option) \<Rightarrow> bool" where
  "keptUnder rslvrs = (\<forall>url r. rslvrs url = Some r \<longrightarrow> drURL r = url \<and> HasPrefix url ''https://'')"

lemma reuseResolver_ok:
  assumes "reuseResolver dohErr ttl d url rslvrs = Inr r" "keptUnder rslvrs"
  shows "drURL r = url \<and> HasPrefix url ''https://'' \<and> keptUnder (rslvrs(url \<mapsto> r))"
proof (cases "rslvrs url")
  case None
  then have "newResolver dohErr url ttl = Inr r" using assms(1) by (cases "newResolver dohErr url ttl") (simp_all add: reuseResolver_def)
  then show ?thesis using assms(2) by (auto simp: newResolver_def keptUnder_def split: if_splits option.splits)
next
  case (Some r')
  then show ?thesis using assms by (auto simp: reuseResolver_def keptUnder_def)
qed

definition boundedBy :: "i64 option \<Rightarrow> (string \<Rightarrow> dnsResolver option) \<Rightarrow> bool" where
  "boundedBy ttl rslvrs = (\<forall>url r. rslvrs url = Some r \<longrightarrow> drMaxTTL r = ttl)"

lemma reuseResolver_bounded:
  assumes "reuseResolver dohErr ttl d url rslvrs = Inr r" "boundedBy ttl rslvrs"
  shows "drMaxTTL r = ttl \<and> boundedBy ttl (rslvrs(url \<mapsto> r))"
proof (cases "rslvrs url")
  case None
  then have "newResolver dohErr url ttl = Inr r" using assms(1) by (cases "newResolver dohErr url ttl") (simp_all add: reuseResolver_def)
  then show ?thesis using assms(2) by (auto simp: newResolver_def boundedBy_def split: if_splits option.splits)
next
  case (Some r')
  then show ?thesis using assms by (auto simp: reuseResolver_def boundedBy_def)
qed

lemma userResolvers_ok:
  assumes "userResolvers isFqdn dohErr ttl rs rslvrs = Inr (opts, rslvrs')" "keptUnder rslvrs" "boundedBy ttl rslvrs"
  shows "keptUnder rslvrs' \<and> map (\<lambda>(d, r). (d, drURL r)) opts = filter (\<lambda>(d, u). u \<noteq> []) rs \<and>
    (\<forall>(d, r)\<in>set opts. HasPrefix (drURL r) ''https://'' \<and> drMaxTTL r = ttl) \<and> (\<forall>(d, u)\<in>set rs. d = ''.'' \<or> isFqdn d)"
  using assms
proof (induction rs arbitrary: rslvrs opts)
  case (Cons du rs)
  obtain d u where du: "du = (d, u)" by (cases du)
  have fq: "d = ''.'' \<or> isFqdn d" using Cons.prems(1) by (auto simp: du split: if_splits)
  show ?case
  proof (cases "u = []")
    case True
    then have "userResolvers isFqdn dohErr ttl rs rslvrs = Inr (opts, rslvrs')" using Cons.prems(1) fq by (auto simp: du)
    from Cons.IH [OF this Cons.prems(2,3)] show ?thesis using True fq by (simp add: du)
  next
    case False
    then obtain r opts' where r: "reuseResolver dohErr ttl d u rslvrs = Inr r"
      and rest: "userResolvers isFqdn dohErr ttl rs (rslvrs(u \<mapsto> r)) = Inr (opts', rslvrs')" and o': "opts = (d, r) # opts'"
      using Cons.prems(1) fq by (auto simp: du bindS_eq_Inr)
    note ok = reuseResolver_ok [OF r Cons.prems(2)] and bd = reuseResolver_bounded [OF r Cons.prems(3)]
    from Cons.IH [OF rest ok [THEN conjunct2, THEN conjunct2] bd [THEN conjunct2]] ok bd show ?thesis using False fq by (simp add: du o')
  qed
qed simp

lemma implicitResolvers_ok:
  assumes "implicitResolvers dohErr domains ds rslvrs = Inr opts" "keptUnder rslvrs"
  shows "map (\<lambda>(d, r). (d, drURL r)) opts = filter (\<lambda>(d, u). d \<notin> domains) ds \<and> (\<forall>(d, r)\<in>set opts. HasPrefix (drURL r) ''https://'')"
  using assms
proof (induction ds arbitrary: rslvrs opts)
  case (Cons du ds)
  obtain d u where du: "du = (d, u)" by (cases du)
  show ?case
  proof (cases "d \<in> domains")
    case True
    then show ?thesis using Cons.IH [OF _ Cons.prems(2)] Cons.prems(1) by (simp add: du)
  next
    case False
    then obtain r opts' where r: "reuseResolver dohErr None d u rslvrs = Inr r"
      and rest: "implicitResolvers dohErr domains ds (rslvrs(u \<mapsto> r)) = Inr opts'" and o': "opts = (d, r) # opts'"
      using Cons.prems(1) by (auto simp: du bindS_eq_Inr)
    note ok = reuseResolver_ok [OF r Cons.prems(2)]
    from Cons.IH [OF rest ok [THEN conjunct2, THEN conjunct2]] ok show ?thesis using False by (simp add: du o')
  qed
qed simp

text \<open>
  The DNS resolver of a node has exactly the resolvers that are configured with a URL, and the
  default ones of the domains the configuration does not mention; an empty URL takes a domain's
  default away.  Every URL is an HTTPS URL, every configured domain is the root or fully
  qualified, and the bound on the cache holds for every configured resolver.
\<close>

theorem dns_resolvers_are_as_configured:
  assumes "DNSResolver isFqdn dohErr cfg = Inr opts" "rs = dnsResolvers (cOther cfg)"
  shows "map (\<lambda>(d, r). (d, drURL r)) opts =
      filter (\<lambda>(d, u). u \<noteq> []) rs @ filter (\<lambda>(d, u). d \<notin> set (map fst rs)) defaultResolvers \<and>
    (\<forall>(d, r)\<in>set opts. HasPrefix (drURL r) ''https://'') \<and> (\<forall>(d, u)\<in>set rs. d = ''.'' \<or> isFqdn d) \<and>
    (\<forall>v. MaxCacheTTL (cOther cfg) = Some \<lparr> od_value = Some v \<rparr> \<longrightarrow>
      (\<forall>(d, r)\<in>set (take (length (filter (\<lambda>(d, u). u \<noteq> []) rs)) opts). drMaxTTL r = Some v))"
proof -
  define ttl where "ttl = (if OptionalDuration_IsDefault (MaxCacheTTL (cOther cfg)) then None
    else Some (OptionalDuration_WithDefault (MaxCacheTTL (cOther cfg)) 4294967295000000000))"
  obtain o1 rslvrs o2 where u: "userResolvers isFqdn dohErr ttl rs Map.empty = Inr (o1, rslvrs)"
    and i: "implicitResolvers dohErr (set (map fst rs)) defaultResolvers rslvrs = Inr o2" and o': "opts = o1 @ o2"
    using assms unfolding DNSResolver_def Let_def ttl_def [symmetric] by (auto simp: bindS_eq_Inr)
  have e: "keptUnder Map.empty" "boundedBy ttl Map.empty" by (simp_all add: keptUnder_def boundedBy_def)
  note U = userResolvers_ok [OF u e]
  have I: "map (\<lambda>(d, r). (d, drURL r)) o2 = filter (\<lambda>(d, u). d \<notin> set (map fst rs)) defaultResolvers \<and>
      (\<forall>(d, r)\<in>set o2. HasPrefix (drURL r) ''https://'')"
    by (rule implicitResolvers_ok [OF i U [THEN conjunct1]])
  have len: "length (filter (\<lambda>(d, u). u \<noteq> []) rs) = length o1" using arg_cong [OF U [THEN conjunct2, THEN conjunct1], of length] by simp
  have "ttl = Some v" if "MaxCacheTTL (cOther cfg) = Some \<lparr> od_value = Some v \<rparr>" for v
    using that by (simp add: ttl_def OptionalDuration_IsDefault_def OptionalDuration_WithDefault_def)
  then have "\<forall>v. MaxCacheTTL (cOther cfg) = Some \<lparr> od_value = Some v \<rparr> \<longrightarrow> (\<forall>(d, r)\<in>set o1. drMaxTTL r = Some v)"
    using U by blast
  moreover have "\<forall>(d, r)\<in>set (o1 @ o2). HasPrefix (drURL r) ''https://''" using U I by auto
  ultimately show ?thesis using U I by (simp add: o' len)
qed

theorem dns_resolvers_are_as_configured_witness:
  "\<exists>opts. DNSResolver (\<lambda>_. True) (\<lambda>_. None) demoNodeConfig = Inr opts \<and>
     map fst opts = [''.'', ''crypto.''] \<and> drMaxTTL (snd (opts ! 0)) = Some 5"
proof -
  have rs: "dnsResolvers (cOther demoNodeConfig) = [(''eth.'', []), (''.'', ''https://doh'')]" by (simp add: demoNodeConfig_def demoSection_def)
  have ttl: "MaxCacheTTL (cOther demoNodeConfig) = Some \<lparr> od_value = Some 5 \<rparr>" by (simp add: demoNodeConfig_def demoSection_def)
  obtain opts where o': "DNSResolver (\<lambda>_. True) (\<lambda>_. None) demoNodeConfig = Inr opts"
    by (simp add: DNSResolver_def rs defaultResolvers_def reuseResolver_def newResolver_def Let_def)
  note T = dns_resolvers_are_as_configured [OF o' refl, unfolded rs ttl]
  have m: "map (\<lambda>(d, r). (d, drURL r)) opts = [(''.'', ''https://doh''), (''crypto.'', ''https://resolver.cloudflare-eth.com/dns-query'')]"
    using T by (simp add: defaultResolvers_def)
  then obtain r1 r2 where "opts = [(''.'', r1), (''crypto.'', r2)]" by (auto simp: map_eq_Cons_conv)
  then show ?thesis using o' T by simp
qed

section \<open>The MFS root, providing, republishing\<close>

text \<open>A datastore that fails to read the root is treated as one that has none, and the next
  change of the tree overwrites the root that is there.\<close>

lemma unreadable_root_is_replaced:
  "Files emptyDir None cast dagGet (Some (DsErr e)) None = Inr emptyDir \<and>
   publishRoot None None None None fresh (Some old) = (None, Some fresh)"
  by (simp add: Files_def publishRoot_def)

lemma republisher_accepts_what_the_configuration_passes:
  "republishPeriod env cfg = Inr d \<Longrightarrow> \<exists>r. IpnsRepublisher (debugMode env) d lifetime own = Inr r"
  by (auto simp: republishPeriod_def IpnsRepublisher_def split: if_splits sum.splits)

lemma strategic_providing_announces_nothing:
  assumes "expStrategicProviding (cOther cfg)" "Online env bcfg cfg = Inr units" "\<forall>err. ErrorUnit err \<notin> set units"
  shows "OfflineProviderUnit \<in> set units \<and> (\<exists>b. BitswapUnit b \<in> set units \<and> \<not> bwProvide b)"
  using assms
  by (auto simp: Online_def Let_def bindS_eq_Inr OnlineProviders_def BitswapOptions_def split: if_splits sum.splits)

lemma no_announce_takes_precedence:
  assumes "makeAddrsFactory net announce app noAnnounce = Inr factory" "m \<in> set (factory addrs)"
    "s \<in> set noAnnounce" "parseMask net s = None" "parseMultiaddr net s = Inr m'"
  shows "addrBytes net m \<noteq> addrBytes net m'"
proof -
  have grow: "readNoAnnounce net ss fs no = Inr (fs', no') \<Longrightarrow> no \<subseteq> no' \<and>
      (s \<in> set ss \<longrightarrow> addrBytes net m' \<in> no')" for ss fs no fs' no'
    using assms(4,5)
  proof (induction ss arbitrary: fs no)
    case (Cons x ss)
    show ?case
    proof (cases "parseMask net x")
      case None
      then obtain mx where x: "parseMultiaddr net x = Inr mx" using Cons.prems(1) by (auto split: sum.splits)
      then have "readNoAnnounce net ss fs (insert (addrBytes net mx) no) = Inr (fs', no')" using Cons.prems(1) None by simp
      from Cons.IH [OF this Cons.prems(2,3)] show ?thesis using x Cons.prems(3) by auto
    next
      case (Some f)
      then have "readNoAnnounce net ss (fs @ [f]) no = Inr (fs', no')" using Cons.prems(1) by simp
      from Cons.IH [OF this Cons.prems(2,3)] show ?thesis using Some Cons.prems(2) by auto
    qed
  qed simp
  show ?thesis using assms(1,2,3) grow [of noAnnounce "[]" "{}"] by (auto simp: makeAddrsFactory_def bindS_eq_Inr)
qed

end
