(* ===== verification/NodeRoutingProps.thy ===== *)
theory NodeRoutingProps
  imports NodeBuild "HOL-Library.Multiset"
begin

text \<open>
  Properties of \<open>NodeRouting\<close>: what the routers of a node are asked, whom a bootstrap round
  dials, when bootstrapping returns, and what \<^verbatim>\<open>ipfs dht query\<close> does without a DHT.
\<close>

section \<open>What a router is asked\<close>

datatype routingOp = OpGetValue | OpPutValue | OpFindPeer | OpFindProviders | OpProvide

text \<open>The HTTP endpoints that an operation on a router reaches.\<close>

fun endpointsAsked :: "routingOp \<Rightarrow> routingT \<Rightarrow> string set" where
  "endpointsAsked op' (HTTPRouting e) = {e}"
| "endpointsAsked op' (ComposerRouting g p fp fps pr) =
     (case op' of OpGetValue \<Rightarrow> endpointsAsked op' g | OpPutValue \<Rightarrow> endpointsAsked op' p | OpFindPeer \<Rightarrow> endpointsAsked op' fp
      | OpFindProviders \<Rightarrow> endpointsAsked op' fps | OpProvide \<Rightarrow> endpointsAsked op' pr)"
| "endpointsAsked op' (ParallelRouting rs) = (\<Union>r\<in>set rs. endpointsAsked op' (fst r))"
| "endpointsAsked op' r = {}"

lemma appended_endpoint:
  assumes "appendHTTPRouter env e = Inr r" "\<forall>e h. newHTTPRouter env e = Inr h \<longrightarrow> h = HTTPRouting e"
  shows "endpointsAsked op' (fst r) = (if op' = OpFindProviders then {e} else {}) \<and> fst (snd r)"
proof -
  obtain h where "newHTTPRouter env e = Inr h" and r: "r = (ComposerRouting NullRouting NullRouting NullRouting h NullRouting, True, 15)"
    using assms(1) by (auto simp: appendHTTPRouter_def bindS_eq_Inr)
  then have "h = HTTPRouting e" using assms(2) by blast
  then show ?thesis by (cases op') (simp_all add: r)
qed

lemma appended_endpoints:
  assumes "mapS (appendHTTPRouter env) es = Inr rs" "\<forall>e h. newHTTPRouter env e = Inr h \<longrightarrow> h = HTTPRouting e"
  shows "(\<Union>r\<in>set rs. endpointsAsked op' (fst r)) = (if op' = OpFindProviders then set es else {}) \<and> (\<forall>r\<in>set rs. fst (snd r))"
  using assms(1)
proof (induction es arbitrary: rs)
  case (Cons e es)
  then obtain r rs' where r: "appendHTTPRouter env e = Inr r" "mapS (appendHTTPRouter env) es = Inr rs'" "rs = r # rs'"
    by (auto simp: bindS_eq_Inr)
  show ?case using appended_endpoint [OF r(1) assms(2)] Cons.IH [OF r(2)] r(3) by auto
qed simp

text \<open>
  C21. The default routing tells HTTP endpoints only what providers it looks for: values are got
  and put, peers found and content provided through the DHT alone, whatever endpoints the
  environment names.  Errors of the endpoints are ignored, errors of the DHT are not.
\<close>

theorem http_endpoints_are_asked_for_providers_only:
  assumes "\<forall>m d. newDual env m = Inr d \<longrightarrow> d = DualDHT m" "\<forall>e h. newHTTPRouter env e = Inr h \<longrightarrow> h = HTTPRouting e"
    and "ConstructDefaultRouting env = Inr r"
  shows "endpointsAsked op' r = (if op' = OpFindProviders then set (defaultHTTPRouters env) else {}) \<and>
    (\<exists>https. r = ParallelRouting ((DualDHT DHTModeAuto, False, 300) # https) \<and> (\<forall>h\<in>set https. fst (snd h)))"
proof -
  obtain d https where d: "newDual env DHTModeAuto = Inr d" and h: "mapS (appendHTTPRouter env) (defaultHTTPRouters env) = Inr https"
    and r: "r = ParallelRouting ((d, False, 300) # https)"
    using assms(3) by (auto simp: ConstructDefaultRouting_def constructDHTRouting_def bindS_eq_Inr)
  have "d = DualDHT DHTModeAuto" using assms(1) d by blast
  then show ?thesis using appended_endpoints [OF h assms(2), of op'] r by simp
qed

definition demoRoutingEnv :: routingEnv where
  "demoRoutingEnv = \<lparr> newDual = (\<lambda>m. Inr (DualDHT m)), newHTTPRouter = (\<lambda>e. Inr (HTTPRouting e)), envHTTPRouters = ''a b'' \<rparr>"

theorem http_endpoints_are_asked_for_providers_only_witness:
  "\<exists>r. ConstructDefaultRouting demoRoutingEnv = Inr r \<and> endpointsAsked OpFindProviders r = {''a'', ''b''} \<and> endpointsAsked OpProvide r = {}"
proof -
  have ok: "\<exists>r. ConstructDefaultRouting demoRoutingEnv = Inr r"
    by (simp add: ConstructDefaultRouting_def demoRoutingEnv_def constructDHTRouting_def defaultHTTPRouters_def appendHTTPRouter_def)
  then obtain r where r: "ConstructDefaultRouting demoRoutingEnv = Inr r" by blast
  have laws: "\<forall>m d. newDual demoRoutingEnv m = Inr d \<longrightarrow> d = DualDHT m" "\<forall>e h. newHTTPRouter demoRoutingEnv e = Inr h \<longrightarrow> h = HTTPRouting e"
    by (simp_all add: demoRoutingEnv_def)
  have "set (defaultHTTPRouters demoRoutingEnv) = {''a'', ''b''}" by (simp add: defaultHTTPRouters_def demoRoutingEnv_def)
  then show ?thesis
    using r http_endpoints_are_asked_for_providers_only [OF laws r, of OpFindProviders]
      http_endpoints_are_asked_for_providers_only [OF laws r, of OpProvide] by auto
qed

section \<open>A node without a DHT\<close>

text \<open>
  C30. On a node whose routing has no DHT, \<^verbatim>\<open>ipfs dht query\<close> never says so: the client that base
  routing hands out is an interface that holds a nil pointer and so is not nil, and every
  query for a valid peer dereferences it.  With a DHT the query asks its WAN side exactly
  when that is active, or the accelerated client when there is one.
\<close>

theorem dht_query_without_dht_dereferences_nil:
  assumes "BaseRouting accelerated cfgErr bootErr rtErr router = Inr out"
  shows "queryDht (boDHTClient out) (boDHT out) True =
    (case findDHT router of
       None \<Rightarrow> Inl NilDereference
     | Some d \<Rightarrow> Inr (if accelerated then AskFullRT else if WANActive d then AskWAN else AskLAN))"
  using assms
  by (auto simp: BaseRouting_def Let_def queryDht_def split: if_splits option.splits)

theorem dht_query_without_dht_dereferences_nil_witness:
  "\<exists>out. BaseRouting False None None None (OtherInitial ''none'') = Inr out \<and> queryDht (boDHTClient out) (boDHT out) True = Inl NilDereference"
proof -
  obtain out where o': "BaseRouting False None None None (OtherInitial ''none'') = Inr out"
    by (simp add: BaseRouting_def findDHT_def Let_def)
  from dht_query_without_dht_dereferences_nil [OF o'] show ?thesis using o' by (simp add: findDHT_def)
qed

text \<open>The error of a composer's bootstrap is an interface around a pointer, so it is never nil.\<close>

lemma composer_bootstrap_always_fails: "composerBootstrap addErrors c \<noteq> NilError"
  by (simp add: composerBootstrap_def)

lemma routers_by_priority:
  "sorted (map (prPriority \<circ> fst) (RoutingOf routers)) \<and> mset (map fst (RoutingOf routers)) = mset routers"
  by (simp add: RoutingOf_def o_def)

section \<open>A bootstrap round\<close>

lemma map_filter_length: "length (List.map_filter f xs) = length xs \<longleftrightarrow> (\<forall>x\<in>set xs. f x \<noteq> None)"
proof (induction xs)
  case (Cons x xs)
  have "length (List.map_filter f xs) \<le> length xs" by (induction xs) (auto simp: List.map_filter_simps split: option.splits)
  then show ?case using Cons by (auto simp: List.map_filter_simps split: option.splits)
qed (simp add: List.map_filter_simps)

lemma randomSubset_of:
  assumes "mset (perm (length ps)) = mset [0..<length ps]"
  shows "length (randomSubsetOfPeers perm ps k) = min k (length ps) \<and> mset (randomSubsetOfPeers perm ps k) \<subseteq># mset ps"
proof -
  have len: "length (perm (length ps)) = length ps" using assms by (metis diff_zero length_upt size_mset)
  have "mset (map (\<lambda>i. ps ! i) (perm (length ps))) = mset (map (\<lambda>i. ps ! i) [0..<length ps])"
    using assms by (metis mset_map)
  then have all: "mset (map (\<lambda>i. ps ! i) (perm (length ps))) = mset ps" by (simp add: map_nth)
  have "mset (take k (map (\<lambda>i. ps ! i) (perm (length ps)))) \<subseteq># mset (map (\<lambda>i. ps ! i) (perm (length ps)))" for k
    by (metis append_take_drop_id mset_append mset_subset_eq_add_left)
  then show ?thesis using len all by (auto simp: randomSubsetOfPeers_def Let_def take_map min_def)
qed

text \<open>
  C24. A bootstrap round never dials more than the missing connections, no peer oftener than the
  configuration lists it, and only configured peers that are not connected.  It does nothing
  when there are enough connections; otherwise it fails exactly when nobody is left to dial or
  when every dial fails.
\<close>

theorem bootstrap_round_dials_what_is_missing:
  assumes "\<forall>n. mset (perm n) = mset [0..<n]" "\<forall>es. mset (order es) = mset es"
    and "bootstrapRound perm connect order isConnected connected cfg = (err, dialled)"
  shows "length dialled \<le> MinPeerThreshold cfg - connected \<and>
    mset dialled \<subseteq># mset (filter (\<lambda>p. \<not> isConnected (aiID p)) (bootPeers cfg)) \<and>
    (connected \<ge> MinPeerThreshold cfg \<longrightarrow> err = None \<and> dialled = []) \<and>
    (connected < MinPeerThreshold cfg \<longrightarrow>
      (err \<noteq> None \<longleftrightarrow> (\<forall>p\<in>set (bootPeers cfg). isConnected (aiID p)) \<or> (\<forall>p\<in>set dialled. connect p \<noteq> None)))"
proof (cases "connected \<ge> MinPeerThreshold cfg")
  case True
  then show ?thesis using assms(3) by (auto simp: bootstrapRound_def)
next
  case enough: False
  let ?nc = "filter (\<lambda>p. \<not> isConnected (aiID p)) (bootPeers cfg)"
  show ?thesis
  proof (cases "?nc = []")
    case True
    then have "err = Some ErrNotEnoughBootstrapPeers" "dialled = []" using assms(3) enough by (auto simp: bootstrapRound_def Let_def)
    moreover have "\<forall>p\<in>set (bootPeers cfg). isConnected (aiID p)" using True by (simp add: filter_empty_conv)
    ultimately show ?thesis using enough by simp
  next
    case False
    then have d: "dialled = randomSubsetOfPeers perm ?nc (MinPeerThreshold cfg - connected)" and e: "err = bootstrapConnect connect order dialled"
      using assms(3) enough by (auto simp: bootstrapRound_def Let_def Suc_le_eq)
    have sub: "length dialled = min (MinPeerThreshold cfg - connected) (length ?nc) \<and> mset dialled \<subseteq># mset ?nc"
      unfolding d by (rule randomSubset_of) (simp add: assms(1))
    then have ne: "dialled \<noteq> []" using False enough by (auto simp: min_def split: if_splits)
    have "length (order es) = length es" for es using assms(2) by (metis size_mset)
    then have "err \<noteq> None \<longleftrightarrow> (\<forall>p\<in>set dialled. connect p \<noteq> None)"
      using ne map_filter_length [of connect dialled] by (simp add: e bootstrapConnect_def Let_def Suc_le_eq)
    moreover have "\<not> (\<forall>p\<in>set (bootPeers cfg). isConnected (aiID p))" using False by (auto simp: filter_empty_conv)
    ultimately show ?thesis using sub enough by auto
  qed
qed

definition demoBoot :: bootstrapConfig where
  "demoBoot = BootstrapConfigWithPeers [\<lparr> aiID = ''a'', aiAddrs = [] \<rparr>, \<lparr> aiID = ''b'', aiAddrs = [] \<rparr>]"

theorem bootstrap_round_dials_what_is_missing_witness:
  "fst (bootstrapRound (\<lambda>n. [0..<n]) (\<lambda>p. Some ''refused'') (\<lambda>es. es) (\<lambda>i. i = ''a'') 1 demoBoot) \<noteq> None"
proof -
  let ?r = "bootstrapRound (\<lambda>n. [0..<n]) (\<lambda>p. Some ''refused'') (\<lambda>es. es) (\<lambda>i. i = ''a'') 1 demoBoot"
  have "\<forall>n. mset ([0..<n]) = mset [0..<n]" "\<forall>es. mset ((\<lambda>es. es) es) = mset (es :: string list)" by simp_all
  from bootstrap_round_dials_what_is_missing [OF this prod.collapse [symmetric], where connect = "\<lambda>p. Some ''refused''" and
      isConnected = "\<lambda>i. i = ''a''" and connected = 1 and cfg = demoBoot]
  show ?thesis by (simp add: demoBoot_def BootstrapConfigWithPeers_def DefaultBootstrapConfig_def)
qed

section \<open>Bootstrapping returns, or does not\<close>

text \<open>When the routing fails, no round ever ends: the channel they wait for stays open and is
  not sent to.\<close>

definition stuckInv :: "string \<Rightarrow> bsState \<Rightarrow> bool" where
  "stuckInv err s = (bsPcOf s \<in> {Starting, BootingRouting, ClosingProc err} \<and> \<not> bsChanClosed s \<and>
     RoundEnded \<notin> set (bsRounds s) \<and> (bsPcOf s \<noteq> Starting \<longrightarrow> bsRounds s \<noteq> []))"

lemma stuck_reach:
  assumes "bsReach (Some (Some err)) closeReturns s" "\<forall>ws. closeReturns ws \<longrightarrow> (\<forall>w\<in>set ws. w = RoundEnded)"
  shows "stuckInv err s"
  using assms(1)
proof (induction rule: bsReach.induct)
  case start
  then show ?case by (simp add: stuckInv_def bsInit_def)
next
  case (next_step s s')
  have upd: "RoundEnded \<notin> set ((bsRounds s)[i := WaitingForMain])" for i
    using next_step.IH set_update_subset_insert [of "bsRounds s" i WaitingForMain] by (auto simp: stuckInv_def)
  have closed: "\<not> closeReturns (bsRounds s)" if "bsPcOf s = ClosingProc e" for e
    using next_step.IH assms(2) that by (cases "bsRounds s") (auto simp: stuckInv_def)
  from next_step.hyps(2) next_step.IH show ?case
    by (cases rule: bsStep.cases) (auto simp: stuckInv_def upd closed)
qed

text \<open>
  Runs: every state follows from the one before by a step, or nothing happens.  A run is fair if
  the main goroutine moves on when it could go on forever, and no round connects forever.
\<close>

definition mainEnabled :: "bsState \<Rightarrow> bool" where
  "mainEnabled s = (bsPcOf s \<in> {Starting, BootingRouting, ClosingChan} \<or> (bsPcOf s = Sending \<and> WaitingForMain \<in> set (bsRounds s)))"

definition bsRun :: "string option option \<Rightarrow> (roundPc list \<Rightarrow> bool) \<Rightarrow> (nat \<Rightarrow> bsState) \<Rightarrow> bool" where
  "bsRun rt closeReturns f = (f 0 = bsInit \<and> (\<forall>n. f (Suc n) = f n \<or> bsStep rt closeReturns (f n) (f (Suc n))))"

definition fairRun :: "(nat \<Rightarrow> bsState) \<Rightarrow> bool" where
  "fairRun f = ((\<forall>n. (\<forall>m\<ge>n. mainEnabled (f m)) \<longrightarrow> (\<exists>m\<ge>n. bsPcOf (f (Suc m)) \<noteq> bsPcOf (f m))) \<and>
     (\<forall>n i. i < length (bsRounds (f n)) \<longrightarrow> bsRounds (f n) ! i = Connecting \<longrightarrow> (\<exists>m\<ge>n. bsRounds (f m) ! i \<noteq> Connecting)))"

lemma bsRun_reach: "bsRun rt closeReturns f \<Longrightarrow> bsReach rt closeReturns (f n)"
proof (induction n)
  case 0
  then show ?case using bsReach.start by (simp add: bsRun_def)
next
  case (Suc n)
  then show ?case using bsReach.next_step by (metis bsRun_def)
qed

text \<open>The main goroutine goes one way, and until it has sent no round has ended.\<close>

lemma bsStep_pc:
  assumes "bsStep rt closeReturns s s'" and "\<forall>err. rt \<noteq> Some (Some err)"
  shows "bsPcOf s' = bsPcOf s \<or> (bsPcOf s, bsPcOf s') \<in> {(Starting, BootingRouting), (BootingRouting, Sending), (Sending, ClosingChan), (ClosingChan, Returned None)} \<or>
    (\<exists>err. bsPcOf s = ClosingProc err)"
  using assms by cases auto

definition openInv :: "bsState \<Rightarrow> bool" where
  "openInv s = ((\<forall>err. bsPcOf s \<noteq> ClosingProc err) \<and>
     (bsPcOf s \<in> {Starting, BootingRouting, Sending} \<longrightarrow> \<not> bsChanClosed s \<and> RoundEnded \<notin> set (bsRounds s)) \<and>
     (bsPcOf s = ClosingChan \<longrightarrow> \<not> bsChanClosed s) \<and>
     (bsPcOf s \<noteq> Starting \<longrightarrow> bsRounds s \<noteq> []))"

lemma open_reach:
  assumes "bsReach rt closeReturns s" and "\<forall>err. rt \<noteq> Some (Some err)"
  shows "openInv s"
  using assms(1)
proof (induction rule: bsReach.induct)
  case start
  then show ?case by (simp add: openInv_def bsInit_def)
next
  case (next_step s s')
  have upd: "RoundEnded \<notin> set ((bsRounds s)[i := WaitingForMain])" if "RoundEnded \<notin> set (bsRounds s)" for i
    using that set_update_subset_insert [of "bsRounds s" i WaitingForMain] by auto
  from next_step.hyps(2) next_step.IH assms(2) show ?case
    by (cases rule: bsStep.cases) (auto simp: openInv_def upd)
qed

lemma bsStep_round:
  assumes "bsStep rt closeReturns s s'" and "i < length (bsRounds s)"
  shows "i < length (bsRounds s') \<and>
    (bsRounds s ! i = WaitingForMain \<longrightarrow> bsPcOf s' = bsPcOf s \<longrightarrow> \<not> bsChanClosed s \<longrightarrow> bsRounds s' ! i = WaitingForMain)"
  using assms by cases (auto simp: nth_append nth_list_update)

text \<open>Where the main goroutine can go on, a fair run leaves; where it has to wait, a round comes.\<close>

lemma fair_leaves:
  assumes run: "bsRun rt closeReturns f" and fair: "fairRun f" and rt: "\<forall>err. rt \<noteq> Some (Some err)"
    and at: "bsPcOf (f n) = pc" and enabled: "\<exists>k\<ge>n. (\<forall>m\<ge>k. bsPcOf (f m) = pc \<longrightarrow> mainEnabled (f m)) \<or> bsPcOf (f k) \<noteq> pc"
  shows "\<exists>m\<ge>n. bsPcOf (f m) = pc \<and> bsPcOf (f (Suc m)) \<noteq> pc"
proof -
  have "\<exists>m\<ge>n. bsPcOf (f m) \<noteq> pc"
  proof (rule ccontr)
    assume "\<not> ?thesis"
    then have stay: "\<forall>m\<ge>n. bsPcOf (f m) = pc" by blast
    then obtain k where "k \<ge> n" "\<forall>m\<ge>k. mainEnabled (f m)" using enabled by (metis order_trans)
    then obtain m where "m \<ge> k" "bsPcOf (f (Suc m)) \<noteq> bsPcOf (f m)" using fair unfolding fairRun_def by blast
    then show False using stay \<open>k \<ge> n\<close> by (metis le_Suc_eq order_trans)
  qed
  then obtain m where m: "m \<ge> n" "bsPcOf (f m) \<noteq> pc" "\<forall>k. n \<le> k \<longrightarrow> k < m \<longrightarrow> bsPcOf (f k) = pc"
    using exists_least_iff [of "\<lambda>m. m \<ge> n \<and> bsPcOf (f m) \<noteq> pc"] by auto
  then have "m \<noteq> n" using at by auto
  then obtain k where "m = Suc k" "n \<le> k" using m(1) by (cases m) auto
  then show ?thesis using m(2,3) by (metis lessI)
qed

lemma waiting_round_comes:
  assumes run: "bsRun rt closeReturns f" and fair: "fairRun f" and rt: "\<forall>err. rt \<noteq> Some (Some err)"
    and at: "bsPcOf (f n) = Sending"
  shows "\<exists>k\<ge>n. (\<forall>m\<ge>k. bsPcOf (f m) = Sending \<longrightarrow> mainEnabled (f m)) \<or> bsPcOf (f k) \<noteq> Sending"
proof (cases "\<exists>k\<ge>n. bsPcOf (f k) \<noteq> Sending")
  case True
  then show ?thesis by blast
next
  case False
  then have stay: "\<And>m. m \<ge> n \<Longrightarrow> bsPcOf (f m) = Sending" by blast
  have inv: "openInv (f m)" for m using open_reach [OF bsRun_reach [OF run] rt] .
  have closed: "m \<ge> n \<Longrightarrow> \<not> bsChanClosed (f m)" for m using inv [of m] stay [of m] by (simp add: openInv_def)
  have len: "0 < length (bsRounds (f m))" if "m \<ge> n" for m using inv [of m] stay [OF that] by (simp add: openInv_def)
  have ended: "bsRounds (f m) ! 0 \<noteq> RoundEnded" if "m \<ge> n" for m
    using inv [of m] stay [OF that] len [OF that] nth_mem by (fastforce simp: openInv_def)
  obtain k where k: "k \<ge> n" "bsRounds (f k) ! 0 \<noteq> Connecting"
    using fair len [of n] unfolding fairRun_def by (metis order_refl)
  then have wait: "bsRounds (f k) ! 0 = WaitingForMain" using ended [of k] by (cases "bsRounds (f k) ! 0") auto
  have "bsRounds (f m) ! 0 = WaitingForMain" if "m \<ge> k" for m
    using that
  proof (induction m rule: dec_induct)
    case base
    then show ?case by (rule wait)
  next
    case (step m)
    have "f (Suc m) = f m \<or> bsStep rt closeReturns (f m) (f (Suc m))" using run by (simp add: bsRun_def)
    then show ?case
    proof
      assume st: "bsStep rt closeReturns (f m) (f (Suc m))"
      have "m \<ge> n" using step.hyps(1) k(1) by simp
      then show ?case
        using bsStep_round [OF st len [of m]] step.IH stay [of m] stay [of "Suc m"] closed [of m] by simp
    qed (use step.IH in simp)
  qed
  then have "mainEnabled (f m)" if "m \<ge> k" for m
    using len [of m] stay [of m] k(1) that nth_mem [of 0 "bsRounds (f m)"] by (fastforce simp: mainEnabled_def)
  then show ?thesis using k(1) by blast
qed

lemma fair_next:
  assumes run: "bsRun rt closeReturns f" and fair: "fairRun f" and rt: "\<forall>err. rt \<noteq> Some (Some err)"
    and at: "bsPcOf (f n) = pc" and pcs: "(pc, pc') \<in> {(Starting, BootingRouting), (BootingRouting, Sending), (Sending, ClosingChan), (ClosingChan, Returned None)}"
  shows "\<exists>m. bsPcOf (f m) = pc'"
proof -
  have "\<exists>k\<ge>n. (\<forall>m\<ge>k. bsPcOf (f m) = pc \<longrightarrow> mainEnabled (f m)) \<or> bsPcOf (f k) \<noteq> pc"
  proof (cases "pc = Sending")
    case True
    then show ?thesis using waiting_round_comes [OF run fair rt] at by simp
  next
    case False
    then show ?thesis using pcs by (intro exI [of _ n]) (auto simp: mainEnabled_def)
  qed
  from fair_leaves [OF run fair rt at this] obtain m where m: "bsPcOf (f m) = pc" "bsPcOf (f (Suc m)) \<noteq> pc" by blast
  then have "f (Suc m) \<noteq> f m" by metis
  then have "bsStep rt closeReturns (f m) (f (Suc m))" using run by (auto simp: bsRun_def)
  from bsStep_pc [OF this rt] m pcs show ?thesis by auto
qed

text \<open>
  C15. Whether \<^verbatim>\<open>Bootstrap\<close> returns depends on the routing alone.  If there is none, or its
  bootstrap succeeds, the call returns without an error in every fair run, whatever the order of
  the rounds and of the main goroutine.  If the bootstrap of the routing fails, the call returns in
  no run at all: it closes the process of its rounds, which waits for them, while every round waits
  for the channel that only a successful bootstrap closes.
\<close>

theorem bootstrap_returns_unless_routing_fails:
  assumes "\<forall>ws. closeReturns ws \<longrightarrow> (\<forall>w\<in>set ws. w = RoundEnded)" and "bsRun rt closeReturns f"
  shows "((\<forall>err. rt \<noteq> Some (Some err)) \<longrightarrow> fairRun f \<longrightarrow> (\<exists>n. bsPcOf (f n) = Returned None)) \<and>
    ((\<exists>err. rt = Some (Some err)) \<longrightarrow> (\<forall>n r. bsPcOf (f n) \<noteq> Returned r))"
proof (intro conjI impI allI)
  assume rt: "\<forall>err. rt \<noteq> Some (Some err)" and fair: "fairRun f"
  have "bsPcOf (f 0) = Starting" using assms(2) by (simp add: bsRun_def bsInit_def)
  note step = fair_next [OF assms(2) fair rt]
  obtain n1 where "bsPcOf (f n1) = BootingRouting" using step [OF \<open>bsPcOf (f 0) = Starting\<close>, of BootingRouting] by auto
  then obtain n2 where "bsPcOf (f n2) = Sending" using step [of n1 BootingRouting Sending] by auto
  then obtain n3 where "bsPcOf (f n3) = ClosingChan" using step [of n2 Sending ClosingChan] by auto
  then show "\<exists>n. bsPcOf (f n) = Returned None" using step [of n3 ClosingChan "Returned None"] by auto
next
  fix n r
  assume "\<exists>err. rt = Some (Some err)"
  then obtain err where "rt = Some (Some err)" by blast
  from stuck_reach [OF bsRun_reach [OF assms(2), unfolded this] assms(1), of n] show "bsPcOf (f n) \<noteq> Returned r"
    by (auto simp: stuckInv_def)
qed

text \<open>A fair run without routing: the first round connects, is sent to, and the call returns.\<close>

definition demoRun :: "nat \<Rightarrow> bsState" where
  "demoRun n = (if n = 0 then bsInit
     else \<lparr> bsPcOf = (if n = 1 then BootingRouting else if n \<le> 3 then Sending else if n = 4 then ClosingChan else Returned None),
            bsRounds = [if n \<le> 2 then Connecting else if n = 3 then WaitingForMain else RoundEnded], bsChanClosed = (n \<ge> 5) \<rparr>)"

lemma demoRun_run: "bsRun None closeReturns demoRun"
  unfolding bsRun_def
proof (intro conjI allI)
  fix n :: nat
  consider "n = 0" | "n = 1" | "n = 2" | "n = 3" | "n = 4" | "n \<ge> 5" by linarith
  then show "demoRun (Suc n) = demoRun n \<or> bsStep None closeReturns (demoRun n) (demoRun (Suc n))"
  proof cases
    case 1
    then show ?thesis using bsStep.runNow [of bsInit None closeReturns] by (simp add: demoRun_def bsInit_def)
  next
    case 2
    then show ?thesis using bsStep.routingBooted [of "demoRun 1" None closeReturns] by (simp add: demoRun_def)
  next
    case 3
    then show ?thesis using bsStep.roundDone [of 0 "demoRun 2" None closeReturns] by (simp add: demoRun_def)
  next
    case 4
    then show ?thesis using bsStep.sent [of "demoRun 3" 0 None closeReturns] by (simp add: demoRun_def)
  next
    case 5
    then show ?thesis using bsStep.chanClosed [of "demoRun 4" None closeReturns] by (simp add: demoRun_def)
  next
    case 6
    then show ?thesis by (simp add: demoRun_def)
  qed
qed (simp add: demoRun_def)

lemma demoRun_fair: "fairRun demoRun"
  unfolding fairRun_def
proof (intro conjI allI impI)
  fix n
  assume "\<forall>m\<ge>n. mainEnabled (demoRun m)"
  then have "mainEnabled (demoRun (n + 5))" by simp
  then show "\<exists>m\<ge>n. bsPcOf (demoRun (Suc m)) \<noteq> bsPcOf (demoRun m)" by (simp add: mainEnabled_def demoRun_def)
next
  fix n i
  assume "i < length (bsRounds (demoRun n))"
  then have "i = 0" by (simp add: demoRun_def bsInit_def split: if_splits)
  then show "\<exists>m\<ge>n. bsRounds (demoRun m) ! i \<noteq> Connecting"
    by (intro exI [of _ "n + 5"]) (simp add: demoRun_def)
qed

theorem bootstrap_returns_unless_routing_fails_witness:
  "\<exists>n. bsPcOf (demoRun n) = Returned None"
proof -
  have "\<forall>ws. (\<forall>w\<in>set ws. w = RoundEnded) \<longrightarrow> (\<forall>w\<in>set ws. w = RoundEnded)" by simp
  from bootstrap_returns_unless_routing_fails [OF this demoRun_run] show ?thesis using demoRun_fair by simp
qed

end
