(* ===== verification/RepoFiles.thy ===== *)
theory RepoFiles
  imports GoJson GoPath
begin

text \<open>
  The files of a repository and the code that reads and writes them one at a time:
  \<^verbatim>\<open>config/config.go\<close> (where the files are), \<^verbatim>\<open>config/serialize/serialize.go\<close>
  (the configuration file), \<^verbatim>\<open>repo/fsrepo/migrations/ipfsdir.go\<close> (the version file)
  and \<^verbatim>\<open>thirdparty/dir/dir.go\<close>.

  \<^item> The disk maps absolute or relative path names to contents.  A file that holds one
    JSON value is \<open>JsonFile\<close> of that value, whatever its white space; any other file is
    \<open>TextFile\<close>.  Directories are not represented: an operation that needs one succeeds or
    fails as the environment says.
  \<^item> Every call into the operating system can fail.  The record \<open>fsEnv\<close> says which do,
    by path; \<open>cutWrite\<close> is the content a failing \<^verbatim>\<open>Write\<close> leaves behind.
  \<^item> \<^verbatim>\<open>homedir\<close> and \<^verbatim>\<open>atomicfile\<close> are third-party: expansion is a field of the
    environment; of \<^verbatim>\<open>atomicfile\<close> the code relies on its documented contract, that the new
    content replaces the file when the file is closed.
\<close>

datatype content = JsonFile json | TextFile string

type_synonym disk = "string \<Rightarrow> content option"

datatype io_err = NotExist | IOError string | InvalidVersion | NotInitialized | DecodeError | EncodeError

record fsEnv =
  env_IPFS_PATH :: string
  homedir_Expand :: "string \<Rightarrow> io_err + string"
  homedir_Dir :: "io_err + string"
  failStat :: "string \<Rightarrow> bool"
  failRead :: "string \<Rightarrow> bool"
  failMkdir :: "string \<Rightarrow> bool"
  failCreate :: "string \<Rightarrow> bool"
  failClose :: "string \<Rightarrow> bool"
  failRename :: "string \<Rightarrow> bool"
  failRemove :: "string \<Rightarrow> bool"
  cutWrite :: "string \<Rightarrow> content option"

section \<open>The operating system\<close>

definition osReadFile :: "fsEnv \<Rightarrow> disk \<Rightarrow> string \<Rightarrow> io_err + content" where
  "osReadFile e d p =
     (case d p of None \<Rightarrow> Inl NotExist
      | Some c \<Rightarrow> if failRead e p then Inl (IOError p) else Inr c)"

definition osCreate :: "fsEnv \<Rightarrow> disk \<Rightarrow> string \<Rightarrow> io_err option \<times> disk" where
  "osCreate e d p = (if failCreate e p then (Some (IOError p), d) else (None, d(p \<mapsto> TextFile [])))"

definition osWrite :: "fsEnv \<Rightarrow> disk \<Rightarrow> string \<Rightarrow> content \<Rightarrow> io_err option \<times> disk" where
  "osWrite e d p c =
     (case cutWrite e p of
        Some part \<Rightarrow> (Some (IOError p), d(p \<mapsto> part))
      | None \<Rightarrow> (None, d(p \<mapsto> c)))"

definition osWriteFile :: "fsEnv \<Rightarrow> disk \<Rightarrow> string \<Rightarrow> content \<Rightarrow> io_err option \<times> disk" where
  "osWriteFile e d p c =
     (case osCreate e d p of (Some err, d1) \<Rightarrow> (Some err, d1) | (None, d1) \<Rightarrow> osWrite e d1 p c)"

definition osRename :: "fsEnv \<Rightarrow> disk \<Rightarrow> string \<Rightarrow> string \<Rightarrow> io_err option \<times> disk" where
  "osRename e d a b =
     (if failRename e b then (Some (IOError b), d)
      else case d a of None \<Rightarrow> (Some NotExist, d) | Some c \<Rightarrow> (None, (d(a := None))(b \<mapsto> c)))"

definition osRemove :: "fsEnv \<Rightarrow> disk \<Rightarrow> string \<Rightarrow> io_err option \<times> disk" where
  "osRemove e d p =
     (if d p = None then (Some NotExist, d)
      else if failRemove e p then (Some (IOError p), d) else (None, d(p := None)))"

definition FileExists :: "disk \<Rightarrow> string \<Rightarrow> bool" where
  "FileExists d p \<longleftrightarrow> d p \<noteq> None"

section \<open>Where the files are\<close>

definition DefaultPathRoot :: string where "DefaultPathRoot = ''~/.ipfs''"
definition DefaultConfigFile :: string where "DefaultConfigFile = ''config''"

definition PathRoot :: "fsEnv \<Rightarrow> io_err + string" where
  "PathRoot e = (if env_IPFS_PATH e = [] then homedir_Expand e DefaultPathRoot else Inr (env_IPFS_PATH e))"

definition configPath :: "fsEnv \<Rightarrow> string \<Rightarrow> string \<Rightarrow> io_err + string" where
  "configPath e configroot extension =
     (if configroot = []
      then bindS (PathRoot e) (\<lambda>dir. Inr (pathJoin [dir, extension]))
      else Inr (pathJoin [configroot, extension]))"

definition configFilename :: "fsEnv \<Rightarrow> string \<Rightarrow> string \<Rightarrow> io_err + string" where
  "configFilename e configroot userConfigFile =
     (if userConfigFile = [] then configPath e configroot DefaultConfigFile
      else if pathDir userConfigFile = ''.'' then configPath e configroot userConfigFile
      else Inr userConfigFile)"

section \<open>The configuration file\<close>

text \<open>\<^verbatim>\<open>ReadConfigFile\<close> into a destination whose JSON decoder is \<open>dec\<close>.\<close>

definition ReadConfigFile :: "fsEnv \<Rightarrow> disk \<Rightarrow> (json \<Rightarrow> io_err + 'a) \<Rightarrow> string \<Rightarrow> io_err + 'a" where
  "ReadConfigFile e d dec filename =
     (case osReadFile e d filename of
        Inl NotExist \<Rightarrow> Inl NotInitialized
      | Inl err \<Rightarrow> Inl err
      | Inr (TextFile _) \<Rightarrow> Inl DecodeError
      | Inr (JsonFile j) \<Rightarrow> (case dec j of Inl _ \<Rightarrow> Inl DecodeError | Inr v \<Rightarrow> Inr v))"

text \<open>Decoding into a \<^verbatim>\<open>map[string]interface{}\<close>; null gives the nil map.\<close>

fun decodeMap :: "json \<Rightarrow> io_err + (string \<Rightarrow> json option)" where
  "decodeMap (JObj m) = Inr m"
| "decodeMap JNull = Inr Map.empty"
| "decodeMap _ = Inl DecodeError"

text \<open>
  \<^verbatim>\<open>WriteConfigFile\<close>.  The deferred \<^verbatim>\<open>f.Close()\<close> runs whether or not
  \<^verbatim>\<open>encode\<close> succeeded, and its error is dropped.
\<close>

definition atomicCommit :: "fsEnv \<Rightarrow> disk \<Rightarrow> string \<Rightarrow> content \<Rightarrow> disk" where
  "atomicCommit e d filename c = (if failRename e filename then d else d(filename \<mapsto> c))"

definition WriteConfigFile ::
  "fsEnv \<Rightarrow> disk \<Rightarrow> string \<Rightarrow> io_err + (string \<Rightarrow> json option) \<Rightarrow> io_err option \<times> disk" where
  "WriteConfigFile e d filename cfg =
     (if failMkdir e (pathDir filename) then (Some (IOError filename), d)
      else if failCreate e filename then (Some (IOError filename), d)
      else case cfg of
        Inl err \<Rightarrow> (Some err, atomicCommit e d filename (TextFile []))
      | Inr buf \<Rightarrow>
          (case cutWrite e filename of
             Some part \<Rightarrow> (Some (IOError filename), atomicCommit e d filename part)
           | None \<Rightarrow> (None, atomicCommit e d filename (JsonFile (JObj buf)))))"

section \<open>The version file\<close>

definition IpfsDir :: "fsEnv \<Rightarrow> string \<Rightarrow> io_err + string" where
  "IpfsDir e dir =
     (let dir = (if dir = [] then env_IPFS_PATH e else dir) in
      if dir \<noteq> [] then homedir_Expand e dir
      else bindS (homedir_Dir e) (\<lambda>home.
        if home = [] then Inl (IOError ''could not determine IPFS_PATH, home dir not set'')
        else Inr (pathJoin [home, ''.ipfs''])))"

definition CheckIpfsDir :: "fsEnv \<Rightarrow> string \<Rightarrow> io_err + string" where
  "CheckIpfsDir e dir =
     bindS (IpfsDir e dir) (\<lambda>dir. if failStat e dir then Inl NotExist else Inr dir)"

text \<open>\<^verbatim>\<open>strconv.Atoi\<close>: a sign and decimal digits, in the range of a 64-bit integer.\<close>

definition atoi :: "string \<Rightarrow> int option" where
  "atoi s =
     (let neg = HasPrefix s ''-'';
          digits = (if neg \<or> HasPrefix s ''+'' then drop 1 s else s)
      in case parseNat digits of
           None \<Rightarrow> None
         | Some n \<Rightarrow>
             let i = (if neg then - int n else int n) in
             if - (2 ^ 63) \<le> i \<and> i < 2 ^ 63 then Some i else None)"

fun contentText :: "content \<Rightarrow> string option" where
  "contentText (TextFile t) = Some t"
| "contentText (JsonFile (JInt i)) = Some (decInt i)"
| "contentText (JsonFile _) = None"

definition repoVersion :: "fsEnv \<Rightarrow> disk \<Rightarrow> string \<Rightarrow> io_err + int" where
  "repoVersion e d ipfsDir =
     bindS (osReadFile e d (pathJoin [ipfsDir, ''version''])) (\<lambda>c.
       case Option.bind (contentText c) (\<lambda>t. atoi (trimBy isSpaceASCII t)) of
         None \<Rightarrow> Inl InvalidVersion | Some ver \<Rightarrow> Inr ver)"

definition readRepoVersion :: "fsEnv \<Rightarrow> disk \<Rightarrow> string \<Rightarrow> io_err + int" where
  "readRepoVersion e d ipfsDir = bindS (CheckIpfsDir e ipfsDir) (\<lambda>dir. repoVersion e d dir)"

definition WriteRepoVersion :: "fsEnv \<Rightarrow> disk \<Rightarrow> string \<Rightarrow> int \<Rightarrow> io_err option \<times> disk" where
  "WriteRepoVersion e d ipfsDir ver =
     (case IpfsDir e ipfsDir of
        Inl err \<Rightarrow> (Some err, d)
      | Inr dir \<Rightarrow> osWriteFile e d (pathJoin [dir, ''version'']) (TextFile (decInt ver @ [char_of (10 :: nat)])))"

section \<open>The directory check\<close>

definition Writable :: "fsEnv \<Rightarrow> disk \<Rightarrow> string \<Rightarrow> io_err option \<times> disk" where
  "Writable e d p =
     (if failMkdir e p then (Some (IOError p), d)
      else case osCreate e d (pathJoin [p, ''._check_writable'']) of
             (Some _, d1) \<Rightarrow> (Some (IOError p), d1)
           | (None, d1) \<Rightarrow> (None, snd (osRemove e d1 (pathJoin [p, ''._check_writable'']))))"

section \<open>Lemmas\<close>

lemma isSpace_digit: "isDigit c \<Longrightarrow> \<not> isSpaceASCII c"
  by (auto simp: isDigit_def isSpaceASCII_def)

lemma dropWhile_digits: "list_all isDigit s \<Longrightarrow> dropWhile isSpaceASCII s = s"
  by (cases s) (auto simp: isSpace_digit)

lemma decNat_hd_digit: "decNat n = c # s \<Longrightarrow> isDigit c"
  using decNat_digits [of n] by simp

lemma trim_decNat: "trimBy isSpaceASCII (decNat n @ [char_of (10 :: nat)]) = decNat n"
proof -
  have "dropWhile isSpaceASCII (decNat n @ [char_of (10 :: nat)]) = decNat n @ [char_of (10 :: nat)]"
    using decNat_hd_digit [of n] decNat_not_Nil [of n]
    by (cases "decNat n") (auto simp: isSpace_digit simp del: decNat_not_Nil)
  moreover have "isSpaceASCII (char_of (10 :: nat))" by (simp add: isSpaceASCII_def)
  moreover have "list_all isDigit (rev (decNat n))" by (simp add: list_all_rev)
  ultimately show ?thesis by (simp add: trimBy_def dropWhile_digits)
qed

lemma atoi_decNat: "n < 2 ^ 63 \<Longrightarrow> atoi (decNat n) = Some (int n)"
proof -
  assume n: "n < 2 ^ 63"
  obtain c s where cs: "decNat n = c # s" by (cases "decNat n") simp_all
  then have "isDigit c" by (rule decNat_hd_digit)
  then have "c \<noteq> CHR ''-''" "c \<noteq> CHR ''+''" by (auto simp: isDigit_def)
  then have "\<not> HasPrefix (decNat n) ''-''" "\<not> HasPrefix (decNat n) ''+''" using cs by simp_all
  moreover have "int n < 2 ^ 63" using n by simp
  ultimately show ?thesis by (simp add: atoi_def Let_def)
qed

text \<open>A version that was written is read back.\<close>

lemma repoVersion_written:
  assumes "0 \<le> v" and "v < 2 ^ 63" and "\<not> failRead e (pathJoin [dir, ''version''])"
    and "d (pathJoin [dir, ''version'']) = Some (TextFile (decInt v @ [char_of (10 :: nat)]))"
  shows "repoVersion e d dir = Inr v"
proof -
  have "nat v < 2 ^ 63" using assms(1,2) by (simp add: nat_less_iff)
  with assms show ?thesis
    by (simp add: repoVersion_def osReadFile_def decInt_def trim_decNat atoi_decNat)
qed

lemma osWriteFile_ok: "osWriteFile e d p c = (None, d1) \<Longrightarrow> d1 = d(p \<mapsto> c)"
  by (auto simp: osWriteFile_def osCreate_def osWrite_def split: if_splits option.splits)

lemma osWriteFile_other: "osWriteFile e d p c = (r, d1) \<Longrightarrow> q \<noteq> p \<Longrightarrow> d1 q = d q"
  by (auto simp: osWriteFile_def osCreate_def osWrite_def split: if_splits option.splits)

lemma WriteConfigFile_other: "WriteConfigFile e d p c = (r, d1) \<Longrightarrow> q \<noteq> p \<Longrightarrow> d1 q = d q"
  by (auto simp: WriteConfigFile_def atomicCommit_def split: if_splits option.splits sum.splits)

lemma WriteConfigFile_ok:
  "WriteConfigFile e d p c = (None, d1) \<Longrightarrow>
   \<exists>m. c = Inr m \<and> d1 = (if failRename e p then d else d(p \<mapsto> JsonFile (JObj m)))"
  by (auto simp: WriteConfigFile_def atomicCommit_def split: if_splits option.splits sum.splits)

end
