(* ===== verification/OnlyOne.thy ===== *)
theory OnlyOne
  imports GoPrelude
begin

text \<open>
  \<^verbatim>\<open>repo/onlyone.go\<close>: one open repository per key, shared by reference counting.

  References are numbers into the heap \<open>oo_refs\<close>.  \<open>oo_closed\<close> records, in order, the
  references whose underlying \<^verbatim>\<open>Repo.Close\<close> was called.  The counter is a \<^verbatim>\<open>uint32\<close>,
  so closing a reference once too often wraps it around.
\<close>

record ('k, 'r) ref =
  ref_key :: 'k
  ref_refs :: "32 word"
  ref_repo :: 'r

record ('k, 'r) OnlyOne =
  oo_active :: "'k \<Rightarrow> nat option"
  oo_refs :: "('k, 'r) ref list"
  oo_closed :: "nat list"

definition noneOpen :: "('k, 'r) OnlyOne" where
  "noneOpen = \<lparr> oo_active = Map.empty, oo_refs = [], oo_closed = [] \<rparr>"

text \<open>\<open>res\<close> is what the \<^verbatim>\<open>open\<close> callback returns if it is called.\<close>

definition OnlyOne_Open ::
  "'k \<Rightarrow> 'e + 'r \<Rightarrow> ('k, 'r) OnlyOne \<Rightarrow> ('e + nat) \<times> ('k, 'r) OnlyOne" where
  "OnlyOne_Open key res o' =
     (case oo_active o' key of
        Some i \<Rightarrow>
          (Inr i, o'\<lparr> oo_refs := (oo_refs o')[i := (oo_refs o' ! i)\<lparr> ref_refs := ref_refs (oo_refs o' ! i) + 1 \<rparr>] \<rparr>)
      | None \<Rightarrow>
          (case res of
             Inl err \<Rightarrow> (Inl err, o')
           | Inr rp \<Rightarrow>
               let i = length (oo_refs o') in
               (Inr i, o'\<lparr> oo_active := (oo_active o')(key \<mapsto> i),
                           oo_refs := oo_refs o' @ [\<lparr> ref_key = key, ref_refs = 0 + 1, ref_repo = rp \<rparr>] \<rparr>)))"

definition ref_Close :: "nat \<Rightarrow> ('k, 'r) OnlyOne \<Rightarrow> ('k, 'r) OnlyOne" where
  "ref_Close i o' =
     (let r = oo_refs o' ! i; n = ref_refs r - 1;
          o1 = o'\<lparr> oo_refs := (oo_refs o')[i := r\<lparr> ref_refs := n \<rparr>] \<rparr>
      in if n > 0 then o1
         else o1\<lparr> oo_active := (oo_active o1)(ref_key r := None), oo_closed := oo_closed o1 @ [i] \<rparr>)"

section \<open>Runs of clients\<close>

datatype ('k, 'r) ooEvent = EvOpen 'k "unit + 'r" | EvClose nat

text \<open>
  The clients' view: how often each reference was handed out and not yet closed.
\<close>

type_synonym ('k, 'r) ooRun = "('k, 'r) OnlyOne \<times> (nat \<Rightarrow> nat)"

fun ooStep :: "('k, 'r) ooRun \<Rightarrow> ('k, 'r) ooEvent \<Rightarrow> ('k, 'r) ooRun" where
  "ooStep (o', held) (EvOpen key res) =
     (case OnlyOne_Open key res o' of
        (Inr i, o1) \<Rightarrow> (o1, held(i := held i + 1))
      | (Inl _, o1) \<Rightarrow> (o1, held))"
| "ooStep (o', held) (EvClose i) = (ref_Close i o', held(i := held i - 1))"

text \<open>Clients close a reference only as often as they were given it.\<close>

fun disciplined :: "('k, 'r) ooRun \<Rightarrow> ('k, 'r) ooEvent list \<Rightarrow> bool" where
  "disciplined s [] = True"
| "disciplined s (e # es) =
     ((case e of EvClose i \<Rightarrow> 0 < snd s i | EvOpen _ _ \<Rightarrow> True) \<and> disciplined (ooStep s e) es)"

definition tableOk :: "('k, 'r) OnlyOne \<Rightarrow> bool" where
  "tableOk o' \<longleftrightarrow> (\<forall>k i. oo_active o' k = Some i \<longrightarrow> i < length (oo_refs o') \<and> ref_key (oo_refs o' ! i) = k)"

definition refOk :: "nat \<Rightarrow> ('k, 'r) OnlyOne \<Rightarrow> nat \<Rightarrow> nat \<Rightarrow> bool" where
  "refOk n o' h i \<longleftrightarrow>
     unat (ref_refs (oo_refs o' ! i)) = h \<and> h \<le> n \<and>
     (oo_active o' (ref_key (oo_refs o' ! i)) = Some i) = (0 < h) \<and>
     count_list (oo_closed o') i = (if h = 0 then 1 else 0)"

definition ooInv :: "nat \<Rightarrow> ('k, 'r) OnlyOne \<Rightarrow> (nat \<Rightarrow> nat) \<Rightarrow> bool" where
  "ooInv n o' held \<longleftrightarrow> tableOk o' \<and> (\<forall>i < length (oo_refs o'). refOk n o' (held i) i) \<and>
     (\<forall>i \<ge> length (oo_refs o'). held i = 0 \<and> count_list (oo_closed o') i = 0)"

lemma refOk_mono: "refOk n o' h i \<Longrightarrow> refOk (Suc n) o' h i"
  by (auto simp: refOk_def)

lemma ooInv_mono: "ooInv n o' held \<Longrightarrow> ooInv (Suc n) o' held"
  by (auto simp: ooInv_def refOk_mono)

lemma ooInv_shared:
  assumes inv: "ooInv n o' held" and n: "Suc n < 2 ^ 32" and some: "oo_active o' key = Some i"
  shows "ooInv (Suc n) (snd (OnlyOne_Open key res o')) (held(i := held i + 1))"
proof -
  let ?o = "snd (OnlyOne_Open key res o')"
  have o: "?o = o'\<lparr> oo_refs := (oo_refs o')[i := (oo_refs o' ! i)\<lparr> ref_refs := ref_refs (oo_refs o' ! i) + 1 \<rparr>] \<rparr>"
    using some by (simp add: OnlyOne_Open_def)
  from inv some have i: "i < length (oo_refs o')" "ref_key (oo_refs o' ! i) = key"
    by (auto simp: ooInv_def tableOk_def)
  with inv have ri: "refOk n o' (held i) i" by (simp add: ooInv_def)
  with n have "unat (ref_refs (oo_refs o' ! i) + 1) = Suc (held i)"
    by (simp add: refOk_def unat_word_ariths)
  with ri i some have 1: "refOk (Suc n) ?o (Suc (held i)) i" by (auto simp: refOk_def o)
  have 2: "refOk (Suc n) ?o (held j) j" if "j < length (oo_refs o')" "j \<noteq> i" for j
  proof -
    have "refOk n o' (held j) j" using that inv by (simp add: ooInv_def)
    then show ?thesis using that by (simp add: refOk_def o)
  qed
  have 3: "tableOk ?o" using inv i unfolding tableOk_def ooInv_def o
    by (auto simp: nth_list_update)
  from inv have 4: "\<forall>j \<ge> length (oo_refs o'). held j = 0 \<and> count_list (oo_closed o') j = 0"
    by (simp add: ooInv_def)
  show ?thesis unfolding ooInv_def
    using 1 2 3 4 i(1) by (simp add: o)
qed

lemma ooInv_fresh:
  fixes rp :: 'r
  assumes inv: "ooInv n o' held" and none: "oo_active o' key = None"
  shows "ooInv (Suc n) (snd (OnlyOne_Open key (Inr rp :: unit + 'r) o')) (held(length (oo_refs o') := 1))"
proof -
  let ?o = "snd (OnlyOne_Open key (Inr rp :: unit + 'r) o')" and ?i = "length (oo_refs o')"
  have o: "?o = o'\<lparr> oo_active := (oo_active o')(key \<mapsto> ?i),
      oo_refs := oo_refs o' @ [\<lparr> ref_key = key, ref_refs = 1, ref_repo = rp \<rparr>] \<rparr>"
    using none by (simp add: OnlyOne_Open_def Let_def)
  from inv have 4: "\<forall>j \<ge> ?i. held j = 0 \<and> count_list (oo_closed o') j = 0" by (simp add: ooInv_def)
  have 1: "refOk (Suc n) ?o 1 ?i" using 4 by (simp add: refOk_def o)
  have 2: "refOk (Suc n) ?o (held j) j" if "j < ?i" for j
  proof -
    have "refOk n o' (held j) j" using that inv by (simp add: ooInv_def)
    then show ?thesis using that none by (auto simp: refOk_def o nth_append)
  qed
  have 3: "tableOk ?o" using inv none unfolding tableOk_def ooInv_def o
    by (auto simp: nth_append less_Suc_eq)
  have "refOk (Suc n) ?o ((held(?i := 1)) j) j" if "j < length (oo_refs ?o)" for j
    using 1 2 that by (cases "j = ?i") (simp_all add: o)
  then show ?thesis unfolding ooInv_def using 3 4 by (simp add: o)
qed

lemma ooInv_close:
  assumes inv: "ooInv n o' held" and h: "0 < held i"
  shows "ooInv n (ref_Close i o') (held(i := held i - 1))"
proof -
  let ?r = "oo_refs o' ! i" and ?o = "ref_Close i o'"
  from inv have 4: "\<forall>j \<ge> length (oo_refs o'). held j = 0 \<and> count_list (oo_closed o') j = 0"
    by (simp add: ooInv_def)
  with h have i: "i < length (oo_refs o')" by (metis not_le less_not_refl)
  with inv have ri: "refOk n o' (held i) i" by (simp add: ooInv_def)
  with h have act: "oo_active o' (ref_key ?r) = Some i" by (simp add: refOk_def)
  from ri have un: "unat (ref_refs ?r) = held i" by (simp add: refOk_def)
  with h have "ref_refs ?r \<noteq> 0" by auto
  then have dec: "unat (ref_refs ?r - 1) = held i - 1"
    using un by (simp add: unat_minus_one)
  then have pos: "(0 < ref_refs ?r - 1) = (1 < held i)"
    by (simp add: word_less_nat_alt)
  have o: "?o = (if 1 < held i
      then o'\<lparr> oo_refs := (oo_refs o')[i := ?r\<lparr> ref_refs := ref_refs ?r - 1 \<rparr>] \<rparr>
      else o'\<lparr> oo_refs := (oo_refs o')[i := ?r\<lparr> ref_refs := ref_refs ?r - 1 \<rparr>],
               oo_active := (oo_active o')(ref_key ?r := None), oo_closed := oo_closed o' @ [i] \<rparr>)"
    using pos by (auto simp: ref_Close_def Let_def)
  have 1: "refOk n ?o (held i - 1) i"
    using ri dec h i by (cases "1 < held i") (auto simp: refOk_def o)
  have 2: "refOk n ?o (held j) j" if "j < length (oo_refs o')" "j \<noteq> i" for j
  proof -
    have "refOk n o' (held j) j" using that inv by (simp add: ooInv_def)
    moreover have "ref_key (oo_refs o' ! j) = ref_key ?r \<Longrightarrow> held j = 0"
      using calculation act that by (auto simp: refOk_def)
    ultimately show ?thesis using that by (auto simp: refOk_def o)
  qed
  have 3: "tableOk ?o" using inv i unfolding tableOk_def ooInv_def o
    by (auto simp: nth_list_update)
  have "refOk n ?o ((held(i := held i - 1)) j) j" if "j < length (oo_refs ?o)" for j
    using 1 2 that by (cases "j = i") (simp_all add: o split: if_splits)
  moreover have "length (oo_refs ?o) = length (oo_refs o')" by (simp add: o)
  ultimately show ?thesis unfolding ooInv_def using 3 4 i by (auto simp: o)
qed

lemma ooInv_open:
  assumes inv: "ooInv n o' held" and n: "Suc n < 2 ^ 32"
  shows "case ooStep (o', held) (EvOpen key res) of (o1, held1) \<Rightarrow> ooInv (Suc n) o1 held1"
proof (cases "oo_active o' key")
  case None
  then show ?thesis
  proof (cases res)
    case (Inl err)
    with None inv show ?thesis by (simp add: OnlyOne_Open_def ooInv_mono)
  next
    case (Inr rp)
    have "fst (OnlyOne_Open key res o') = Inr (length (oo_refs o'))"
      using None Inr by (simp add: OnlyOne_Open_def Let_def)
    moreover have "held (length (oo_refs o')) = 0" using inv by (simp add: ooInv_def)
    ultimately show ?thesis using ooInv_fresh [OF inv None, of rp] Inr
      by (cases "OnlyOne_Open key res o'") simp
  qed
next
  case (Some i)
  moreover have "fst (OnlyOne_Open key res o') = Inr i" using Some by (simp add: OnlyOne_Open_def)
  ultimately show ?thesis using ooInv_shared [OF inv n, of key i res]
    by (cases "OnlyOne_Open key res o'") simp
qed

lemma ooInv_run:
  "ooInv n o' held \<Longrightarrow> n + length es < 2 ^ 32 \<Longrightarrow> disciplined (o', held) es \<Longrightarrow>
   case foldl ooStep (o', held) es of (o1, held1) \<Rightarrow> ooInv (n + length es) o1 held1"
proof (induction es arbitrary: n o' held)
  case (Cons e es)
  obtain o2 held2 where st: "ooStep (o', held) e = (o2, held2)" by force
  have "ooInv (Suc n) o2 held2"
  proof (cases e)
    case (EvOpen key res)
    with ooInv_open [of n o' held key res] Cons.prems st show ?thesis by simp
  next
    case (EvClose i)
    with ooInv_close [of n o' held i] Cons.prems st show ?thesis by (auto intro: ooInv_mono)
  qed
  with Cons.IH [of "Suc n" o2 held2] Cons.prems st show ?case by simp
qed simp

lemma ooInv_init: "ooInv 0 noneOpen (\<lambda>_. 0)"
  by (simp add: ooInv_def noneOpen_def tableOk_def)

section \<open>Properties\<close>

text \<open>
  C35. As long as clients close every repository they were handed at most once (and fewer
  than two to the 32 calls are made), the counter of every reference is the number of clients that
  hold it, a key is bound to the reference exactly while somebody holds it, and the underlying
  repository is closed exactly once, by the last of them, and never while it is held.
\<close>

theorem open_repo_is_shared_until_last_close:
  assumes "disciplined (noneOpen, \<lambda>_. 0) es" and "length es < 2 ^ 32"
    and "foldl ooStep (noneOpen, \<lambda>_. 0) es = (o', held)" and "i < length (oo_refs o')"
  shows "unat (ref_refs (oo_refs o' ! i)) = held i \<and>
    (oo_active o' (ref_key (oo_refs o' ! i)) = Some i) = (0 < held i) \<and>
    count_list (oo_closed o') i = (if held i = 0 then 1 else 0)"
  using ooInv_run [OF ooInv_init, of es] assms by (auto simp: ooInv_def refOk_def)

theorem open_repo_is_shared_until_last_close_witness:
  "count_list (oo_closed (fst (foldl ooStep (noneOpen, \<lambda>_. 0)
     [EvOpen ''a'' (Inr ''r''), EvOpen ''a'' (Inr ''s''), EvClose 0]))) 0 = 0"
proof -
  let ?es = "[EvOpen ''a'' (Inr ''r''), EvOpen ''a'' (Inr ''s''), EvClose 0]"
  let ?s = "foldl ooStep (noneOpen, \<lambda>_. 0) ?es"
  have "snd ?s 0 = 1" and "disciplined (noneOpen, \<lambda>_. 0) ?es" and "0 < length (oo_refs (fst ?s))"
    by (simp_all add: OnlyOne_Open_def noneOpen_def Let_def ref_Close_def)
  then show ?thesis
    using open_repo_is_shared_until_last_close [of ?es "fst ?s" "snd ?s" 0] by simp
qed

text \<open>
  Closing a reference once more than it was opened is harmless: the counter wraps
  around, so the repository is not closed again and a newer reference under the same key
  stays open.
\<close>

theorem extra_close_is_harmless:
  assumes "i < length (oo_refs o')" and "ref_refs (oo_refs o' ! i) = 0"
  shows "oo_active (ref_Close i o') = oo_active o' \<and> oo_closed (ref_Close i o') = oo_closed o' \<and>
    ref_refs (oo_refs (ref_Close i o') ! i) = 2 ^ 32 - 1"
proof -
  have "(0 :: 32 word) < - 1" unfolding word_gt_0 by simp
  with assms show ?thesis by (simp add: ref_Close_def Let_def)
qed

theorem extra_close_is_harmless_witness:
  "oo_closed (ref_Close 0 (ref_Close 0 (snd (OnlyOne_Open ''a'' (Inr ''r'' :: unit + string) noneOpen)))) = [0]"
proof -
  let ?o = "ref_Close 0 (snd (OnlyOne_Open ''a'' (Inr ''r'' :: unit + string) noneOpen))"
  have "oo_closed ?o = [0]" "0 < length (oo_refs ?o)" "ref_refs (oo_refs ?o ! 0) = 0"
    by (simp_all add: OnlyOne_Open_def noneOpen_def Let_def ref_Close_def)
  then show ?thesis using extra_close_is_harmless [of 0 ?o] by simp
qed

end
