(* ===== verification/FSRepo.thy ===== *)
theory FSRepo
  imports RepoCommon Datastores RepoFiles OnlyOne
begin

text \<open>
  \<^verbatim>\<open>repo/fsrepo/fsrepo.go\<close>: the file-system repository, its initialisation, opening and
  closing, and the operations on its configuration and address files.

  \<^item> The world is the disk and the lock files this process holds.  \<^verbatim>\<open>packageLock\<close>
    makes every operation one atomic step.
  \<^item> Decoding JSON into the struct \<^verbatim>\<open>config.Config\<close> and encoding it are
    \<^verbatim>\<open>encoding/json\<close>'s reflection over some two hundred fields: the record
    \<open>cfgOps\<close> gives them, with the fields the repository itself looks at, for an arbitrary
    type of configurations.
  \<^item> The lock file, the keystore and the datastores are third-party: \<open>repoEnv\<close> says which
    calls succeed.
\<close>

record 'c cfgOps =
  decodeConfig :: "json \<Rightarrow> io_err + 'c"
  ToMap :: "'c \<Rightarrow> io_err + jmap"
  cfgDatastoreType :: "'c \<Rightarrow> string"
  cfgDatastorePath :: "'c \<Rightarrow> string"
  cfgDatastoreSpec :: "'c \<Rightarrow> jmap option"
  cfgFilestoreEnabled :: "'c \<Rightarrow> bool"
  cfgUrlstoreEnabled :: "'c \<Rightarrow> bool"

record repoEnv = fsEnv +
  dsenv :: dsEnv
  opensStore :: "Store \<Rightarrow> bool"
  tryLock :: "string \<Rightarrow> bool"
  closesLock :: bool
  closesStore :: bool
  opensKeystore :: "string \<Rightarrow> bool"

datatype fs_err =
    IOErr io_err | DsErr ds_err | KvErr kv_err
  | ErrNoVersion | ErrOldRepo | ErrNeedMigration | ProgramTooLow int int | NoRepoError string
  | LockErr | OldStyleDatastore | SpecMissing | SpecMismatch | KeystoreErr
  | RepoClosed | CloseErr | ErrApiNotRunning | ApiFileTooLarge | BadMultiaddr | RenameRemoveErr

record 'c FSRepo =
  fr_closed :: bool
  fr_path :: string
  fr_configFilePath :: string
  fr_config :: "'c option"
  fr_ds :: "Store option"
  fr_keystore :: "string option"
  fr_filemgr :: "(bool \<times> bool) option"

record world =
  w_disk :: disk
  w_locks :: "string list"

definition theRepoVersion :: int where "theRepoVersion = 13"
definition specFn :: string where "specFn = ''datastore_spec''"
definition PrivKeySelector :: string where "PrivKeySelector = ''Identity.PrivKey''"

definition liftIO :: "io_err + 'a \<Rightarrow> fs_err + 'a" where
  "liftIO r = map_sum IOErr id r"

lemma liftIO_simps [simp]: "liftIO (Inl e) = Inl (IOErr e)" "liftIO (Inr a) = Inr a"
  by (simp_all add: liftIO_def)

lemma liftIO_eq_Inr [simp]: "liftIO r = Inr a \<longleftrightarrow> r = Inr a"
  by (cases r) simp_all

section \<open>Is there a repository\<close>

definition configIsInitialized :: "fsEnv \<Rightarrow> disk \<Rightarrow> string \<Rightarrow> bool" where
  "configIsInitialized e d p =
     (case configFilename e p [] of Inl _ \<Rightarrow> False | Inr fn \<Rightarrow> FileExists d fn)"

text \<open>\<^verbatim>\<open>strings.Replace(path, ".ipfs", ".go-ipfs", 1)\<close>\<close>

fun replaceFirst :: "string \<Rightarrow> string \<Rightarrow> string \<Rightarrow> string" where
  "replaceFirst [] old new = (if old = [] then new else [])"
| "replaceFirst (c # s) old new =
     (if HasPrefix (c # s) old then new @ drop (length old) (c # s) else c # replaceFirst s old new)"

definition checkInitialized :: "fsEnv \<Rightarrow> disk \<Rightarrow> string \<Rightarrow> fs_err option" where
  "checkInitialized e d p =
     (if \<not> configIsInitialized e d p
      then if configIsInitialized e d (replaceFirst p ''.ipfs'' ''.go-ipfs'')
           then Some ErrOldRepo else Some (NoRepoError p)
      else None)"

section \<open>Initialising\<close>

definition initConfig :: "fsEnv \<Rightarrow> 'c cfgOps \<Rightarrow> disk \<Rightarrow> string \<Rightarrow> 'c \<Rightarrow> fs_err option \<times> disk" where
  "initConfig e ops d p conf =
     (if configIsInitialized e d p then (None, d)
      else case configFilename e p [] of
             Inl err \<Rightarrow> (Some (IOErr err), d)
           | Inr fn \<Rightarrow> map_prod (map_option IOErr) id (WriteConfigFile e d fn (ToMap ops conf)))"

definition initSpec :: "repoEnv \<Rightarrow> disk \<Rightarrow> string \<Rightarrow> jmap option \<Rightarrow> fs_err option \<times> disk" where
  "initSpec e d p conf =
     (case configPath (fsEnv.truncate e) p specFn of
        Inl err \<Rightarrow> (Some (IOErr err), d)
      | Inr fn \<Rightarrow>
          if FileExists d fn then (None, d)
          else case AnyDatastoreConfig (dsenv e) (case conf of None \<Rightarrow> Map.empty | Some m \<Rightarrow> m) of
                 Inl err \<Rightarrow> (Some (DsErr err), d)
               | Inr dsc \<Rightarrow>
                   map_prod (map_option IOErr) id
                     (osWriteFile (fsEnv.truncate e) d fn (JsonFile (DiskSpec_Bytes (DiskSpecOf dsc)))))"

definition Init :: "repoEnv \<Rightarrow> 'c cfgOps \<Rightarrow> disk \<Rightarrow> string \<Rightarrow> 'c \<Rightarrow> fs_err option \<times> disk" where
  "Init e ops d p conf =
     (if configIsInitialized (fsEnv.truncate e) d p then (None, d)
      else case initConfig (fsEnv.truncate e) ops d p conf of
        (Some err, d1) \<Rightarrow> (Some err, d1)
      | (None, d1) \<Rightarrow>
          (case initSpec e d1 p (cfgDatastoreSpec ops conf) of
             (Some err, d2) \<Rightarrow> (Some err, d2)
           | (None, d2) \<Rightarrow>
               map_prod (map_option IOErr) id (WriteRepoVersion (fsEnv.truncate e) d2 p theRepoVersion)))"

section \<open>Opening\<close>

definition newFSRepo :: "fsEnv \<Rightarrow> string \<Rightarrow> string \<Rightarrow> fs_err + 'c FSRepo" where
  "newFSRepo e rpath userConfigFilePath =
     bindS (liftIO (homedir_Expand e (pathClean rpath))) (\<lambda>expPath.
     bindS (liftIO (configFilename e rpath userConfigFilePath)) (\<lambda>configFilePath.
       Inr \<lparr> fr_closed = False, fr_path = expPath, fr_configFilePath = configFilePath,
             fr_config = None, fr_ds = None, fr_keystore = None, fr_filemgr = None \<rparr>))"

definition readSpec :: "fsEnv \<Rightarrow> disk \<Rightarrow> string \<Rightarrow> fs_err + content" where
  "readSpec e d p =
     bindS (liftIO (configPath e p specFn)) (\<lambda>fn. liftIO (osReadFile e d fn))"

definition openConfig :: "fsEnv \<Rightarrow> 'c cfgOps \<Rightarrow> disk \<Rightarrow> 'c FSRepo \<Rightarrow> fs_err + 'c" where
  "openConfig e ops d r = liftIO (ReadConfigFile e d (decodeConfig ops) (fr_configFilePath r))"

definition openDatastore :: "repoEnv \<Rightarrow> 'c cfgOps \<Rightarrow> disk \<Rightarrow> string \<Rightarrow> 'c \<Rightarrow> fs_err + Store" where
  "openDatastore e ops d p conf =
     (if cfgDatastoreType ops conf \<noteq> [] \<or> cfgDatastorePath ops conf \<noteq> [] then Inl OldStyleDatastore
      else case cfgDatastoreSpec ops conf of
        None \<Rightarrow> Inl SpecMissing
      | Some sp \<Rightarrow>
          bindS (map_sum DsErr id (AnyDatastoreConfig (dsenv e) sp)) (\<lambda>dsc.
          bindS (readSpec (fsEnv.truncate e) d p) (\<lambda>oldSpec.
            if oldSpec \<noteq> JsonFile (DiskSpec_Bytes (DiskSpecOf dsc)) then Inl SpecMismatch
            else bindS (map_sum DsErr id (Create (opensStore e) p dsc)) (\<lambda>s.
              Inr (MeasureStore ''ipfs.fsrepo.datastore'' s)))))"

definition openKeystore :: "repoEnv \<Rightarrow> string \<Rightarrow> fs_err + string" where
  "openKeystore e p =
     (let ksp = pathJoin [p, ''keystore''] in if opensKeystore e ksp then Inr ksp else Inl KeystoreErr)"

text \<open>What \<^verbatim>\<open>open\<close> does while it holds the lock.\<close>

definition openLocked :: "repoEnv \<Rightarrow> 'c cfgOps \<Rightarrow> disk \<Rightarrow> 'c FSRepo \<Rightarrow> (fs_err + 'c FSRepo) \<times> disk" where
  "openLocked e ops d r =
     (let f = fsEnv.truncate e in
      case readRepoVersion f d (fr_path r) of
        Inl NotExist \<Rightarrow> (Inl ErrNoVersion, d)
      | Inl err \<Rightarrow> (Inl (IOErr err), d)
      | Inr ver \<Rightarrow>
          if theRepoVersion > ver then (Inl ErrNeedMigration, d)
          else if ver > theRepoVersion then (Inl (ProgramTooLow theRepoVersion ver), d)
          else case Writable f d (fr_path r) of
            (Some err, d1) \<Rightarrow> (Inl (IOErr err), d1)
          | (None, d1) \<Rightarrow>
              (bindS (openConfig f ops d1 r) (\<lambda>conf.
               bindS (openDatastore e ops d1 (fr_path r) conf) (\<lambda>s.
               bindS (openKeystore e (fr_path r)) (\<lambda>ks.
                 Inr (r\<lparr> fr_config := Some conf, fr_ds := Some s, fr_keystore := Some ks,
                        fr_filemgr :=
                          (if cfgFilestoreEnabled ops conf \<or> cfgUrlstoreEnabled ops conf
                           then Some (cfgFilestoreEnabled ops conf, cfgUrlstoreEnabled ops conf) else None) \<rparr>)))), d1))"

definition fsOpen :: "repoEnv \<Rightarrow> 'c cfgOps \<Rightarrow> string \<Rightarrow> string \<Rightarrow> world \<Rightarrow> (fs_err + 'c FSRepo) \<times> world" where
  "fsOpen e ops repoPath userConfigFilePath w =
     (case newFSRepo (fsEnv.truncate e) repoPath userConfigFilePath of
        Inl err \<Rightarrow> (Inl err, w)
      | Inr r \<Rightarrow>
          (case checkInitialized (fsEnv.truncate e) (w_disk w) (fr_path r) of
             Some err \<Rightarrow> (Inl err, w)
           | None \<Rightarrow>
               if \<not> tryLock e (fr_path r) then (Inl LockErr, w)
               else let locked = fr_path r # w_locks w in
                 (case openLocked e ops (w_disk w) r of
                    (Inr r', d) \<Rightarrow> (Inr r', w\<lparr> w_disk := d, w_locks := locked \<rparr>)
                  | (Inl err, d) \<Rightarrow> (Inl err, w\<lparr> w_disk := d, w_locks := remove1 (fr_path r) locked \<rparr>))))"

definition OpenWithUserConfig ::
  "repoEnv \<Rightarrow> 'c cfgOps \<Rightarrow> string \<Rightarrow> string \<Rightarrow> (string, 'c FSRepo) OnlyOne \<times> world \<Rightarrow>
   (fs_err + nat) \<times> (string, 'c FSRepo) OnlyOne \<times> world" where
  "OpenWithUserConfig e ops repoPath userConfigFilePath ow =
     (case ow of (o', w) \<Rightarrow>
        let (res, w') = (if oo_active o' repoPath = None then fsOpen e ops repoPath userConfigFilePath w
                         else (Inl RepoClosed, w));
            (h, o1) = OnlyOne_Open repoPath res o'
        in (h, o1, w'))"

definition Open ::
  "repoEnv \<Rightarrow> 'c cfgOps \<Rightarrow> string \<Rightarrow> (string, 'c FSRepo) OnlyOne \<times> world \<Rightarrow>
   (fs_err + nat) \<times> (string, 'c FSRepo) OnlyOne \<times> world" where
  "Open e ops repoPath ow = OpenWithUserConfig e ops repoPath [] ow"

section \<open>Closing\<close>

definition fsClose :: "repoEnv \<Rightarrow> 'c FSRepo \<Rightarrow> world \<Rightarrow> fs_err option \<times> 'c FSRepo \<times> world" where
  "fsClose e r w =
     (if fr_closed r then (Some RepoClosed, r, w)
      else
        let f = fsEnv.truncate e;
            d1 = snd (osRemove f (w_disk w) (pathJoin [fr_path r, ''api'']));
            d2 = snd (osRemove f d1 (pathJoin [fr_path r, ''gateway'']))
        in if \<not> closesStore e then (Some CloseErr, r, w\<lparr> w_disk := d2 \<rparr>)
           else (if closesLock e then None else Some LockErr, r\<lparr> fr_closed := True \<rparr>,
                 w\<lparr> w_disk := d2, w_locks := remove1 (fr_path r) (w_locks w) \<rparr>))"

section \<open>The configuration\<close>

definition fsConfig :: "'c FSRepo \<Rightarrow> fs_err + 'c option" where
  "fsConfig r = (if fr_closed r then Inl RepoClosed else Inr (fr_config r))"

definition BackupConfig ::
  "fsEnv \<Rightarrow> disk \<Rightarrow> 'c FSRepo \<Rightarrow> string \<Rightarrow> (fs_err + string) \<times> disk" where
  "BackupConfig e d r temp =
     (case osCreate e d temp of
        (Some err, d1) \<Rightarrow> (Inl (IOErr err), d1)
      | (None, d1) \<Rightarrow>
          (case osReadFile e d1 (fr_configFilePath r) of
             Inl err \<Rightarrow> (Inl (IOErr err), d1)
           | Inr c \<Rightarrow>
               (case osWrite e d1 temp c of
                  (Some err, d2) \<Rightarrow> (Inl (IOErr err), d2)
                | (None, d2) \<Rightarrow> (Inr (fr_configFilePath r), d2))))"

definition SetConfig ::
  "fsEnv \<Rightarrow> 'c cfgOps \<Rightarrow> 'c \<Rightarrow> 'c FSRepo \<Rightarrow> disk \<Rightarrow> fs_err option \<times> 'c FSRepo \<times> disk" where
  "SetConfig e ops updated r d =
     (case ReadConfigFile e d decodeMap (fr_configFilePath r) of
        Inl err \<Rightarrow> (Some (IOErr err), r, d)
      | Inr mapconf \<Rightarrow>
          (case ToMap ops updated of
             Inl err \<Rightarrow> (Some (IOErr err), r, d)
           | Inr m \<Rightarrow>
               (case WriteConfigFile e d (fr_configFilePath r) (Inr (MapMergeDeep mapconf m)) of
                  (Some err, d1) \<Rightarrow> (Some (IOErr err), r, d1)
                | (None, d1) \<Rightarrow> (None, r\<lparr> fr_config := Some updated \<rparr>, d1))))"

definition GetConfigKey :: "fsEnv \<Rightarrow> string \<Rightarrow> 'c FSRepo \<Rightarrow> disk \<Rightarrow> fs_err + json" where
  "GetConfigKey e key r d =
     (if fr_closed r then Inl RepoClosed
      else bindS (liftIO (ReadConfigFile e d decodeMap (fr_configFilePath r))) (\<lambda>cfg.
        map_sum KvErr id (MapGetKV cfg key)))"

definition SetConfigKey ::
  "fsEnv \<Rightarrow> 'c cfgOps \<Rightarrow> string \<Rightarrow> json \<Rightarrow> 'c FSRepo \<Rightarrow> disk \<Rightarrow> fs_err option \<times> 'c FSRepo \<times> disk" where
  "SetConfigKey e ops key value r d =
     (if fr_closed r then (Some RepoClosed, r, d)
      else case ReadConfigFile e d decodeMap (fr_configFilePath r) of
        Inl err \<Rightarrow> (Some (IOErr err), r, d)
      | Inr mapconf \<Rightarrow>
          (case MapGetKV mapconf PrivKeySelector of
             Inl err \<Rightarrow> (Some (KvErr err), r, d)
           | Inr pkval \<Rightarrow>
               (case MapSetKV mapconf key value of
                  (Some err, _) \<Rightarrow> (Some (KvErr err), r, d)
                | (None, m1) \<Rightarrow>
                    (case MapSetKV m1 PrivKeySelector pkval of
                       (Some err, _) \<Rightarrow> (Some (KvErr err), r, d)
                     | (None, m2) \<Rightarrow>
                         (case decodeConfig ops (JObj m2) of
                            Inl err \<Rightarrow> (Some (IOErr err), r, d)
                          | Inr conf \<Rightarrow>
                              (case WriteConfigFile e d (fr_configFilePath r) (Inr m2) of
                                 (err, d1) \<Rightarrow> (map_option IOErr err, r\<lparr> fr_config := Some conf \<rparr>, d1)))))))"

section \<open>The address files\<close>

text \<open>Addresses are their texts; \<open>parse\<close> is \<^verbatim>\<open>ma.NewMultiaddr\<close>.\<close>

definition APIAddr :: "fsEnv \<Rightarrow> (string \<Rightarrow> string option) \<Rightarrow> disk \<Rightarrow> string \<Rightarrow> fs_err + string" where
  "APIAddr e parse d repoPath =
     (case osReadFile e d (pathJoin [pathClean repoPath, ''api'']) of
        Inl NotExist \<Rightarrow> Inl ErrApiNotRunning
      | Inl err \<Rightarrow> Inl (IOErr err)
      | Inr c \<Rightarrow>
          (case contentText c of
             None \<Rightarrow> Inl BadMultiaddr
           | Some s \<Rightarrow>
               let buf = take 2048 s in
               if length buf = 2048 then Inl ApiFileTooLarge
               else (case parse (trimBy isSpaceASCII buf) of None \<Rightarrow> Inl BadMultiaddr | Some a \<Rightarrow> Inr a)))"

definition SetAPIAddr :: "fsEnv \<Rightarrow> string \<Rightarrow> 'c FSRepo \<Rightarrow> disk \<Rightarrow> fs_err option \<times> disk" where
  "SetAPIAddr e addr r d =
     (let tmp = pathJoin [fr_path r, ''.api.tmp'']; target = pathJoin [fr_path r, ''api''] in
      case osCreate e d tmp of
        (Some err, d1) \<Rightarrow> (Some (IOErr err), d1)
      | (None, d1) \<Rightarrow>
          (case osWrite e d1 tmp (TextFile addr) of
             (Some err, d2) \<Rightarrow> (Some (IOErr err), d2)
           | (None, d2) \<Rightarrow>
               if failClose e tmp then (Some (IOErr (IOError tmp)), d2)
               else case osRename e d2 tmp target of
                 (None, d3) \<Rightarrow> (None, d3)
               | (Some err, d3) \<Rightarrow>
                   (case osRemove e d3 tmp of
                      (Some _, d4) \<Rightarrow> (Some RenameRemoveErr, d4)
                    | (None, d4) \<Rightarrow> (Some (IOErr err), d4))))"

text \<open>\<^verbatim>\<open>SetGatewayAddr\<close>: the deferred removal runs on every failure after the creation.\<close>

definition SetGatewayAddr :: "fsEnv \<Rightarrow> string \<Rightarrow> 'c FSRepo \<Rightarrow> disk \<Rightarrow> fs_err option \<times> disk" where
  "SetGatewayAddr e addr r d =
     (let tmp = pathJoin [fr_path r, ''.gateway.tmp'']; target = pathJoin [fr_path r, ''gateway''];
          cleanup = (\<lambda>d'. snd (osRemove e d' tmp)) in
      case osCreate e d tmp of
        (Some err, d1) \<Rightarrow> (Some (IOErr err), d1)
      | (None, d1) \<Rightarrow>
          (case osWrite e d1 tmp (TextFile (''http://'' @ addr)) of
             (Some err, d2) \<Rightarrow> (Some (IOErr err), cleanup d2)
           | (None, d2) \<Rightarrow>
               if failClose e tmp then (Some (IOErr (IOError tmp)), cleanup d2)
               else case osRename e d2 tmp target of
                 (None, d3) \<Rightarrow> (None, d3)
               | (Some err, d3) \<Rightarrow>
                   (case osRemove e d3 tmp of
                      (Some _, d4) \<Rightarrow> (Some RenameRemoveErr, cleanup d4)
                    | (None, d4) \<Rightarrow> (Some (IOErr err), cleanup d4))))"

definition SwarmKey :: "fsEnv \<Rightarrow> 'c FSRepo \<Rightarrow> disk \<Rightarrow> fs_err + content option" where
  "SwarmKey e r d =
     (case osReadFile e d (pathJoin [pathClean (fr_path r), ''swarm.key'']) of
        Inl NotExist \<Rightarrow> Inr None
      | Inl err \<Rightarrow> Inl (IOErr err)
      | Inr c \<Rightarrow> Inr (Some c))"

end
