(* ===== verification/ConfigCommands.thy ===== *)
theory ConfigCommands
  imports FSRepo Profiles "HOL-Library.AList"
begin

text \<open>
  \<^verbatim>\<open>core/commands/config.go\<close>, \<^verbatim>\<open>core/commands/bootstrap.go\<close> and the filter commands
  of \<^verbatim>\<open>core/commands/swarm.go\<close>: the commands that read and change the configuration
  of a repository.

  \<^item> A command works on what \<^verbatim>\<open>fsrepo.Open\<close> gave it: an error, or the repository
    (theory FSRepo).  \<^verbatim>\<open>r.Config()\<close> returns a pointer to the configuration the
    repository holds, so a change a command makes to it is there even when saving it fails.
  \<^item> Output is what the command emits.
\<close>

section \<open>Comparing texts without regard to case\<close>

text \<open>
  \<^verbatim>\<open>strings.ToLower\<close> and \<^verbatim>\<open>strings.EqualFold\<close> as far as a comparison with an ASCII text
  can tell: beside the ASCII letters, U+0130 has the lower case i, U+212A the lower case k,
  and U+017F folds to s, U+212A to k.  Texts are UTF-8.
\<close>

definition lowerByte :: "char \<Rightarrow> char" where
  "lowerByte c = (let n = of_char c :: nat in if 65 \<le> n \<and> n \<le> 90 then char_of (n + 32) else c)"

fun foldRunes :: "(string \<times> char) list \<Rightarrow> string \<Rightarrow> string" where
  "foldRunes sp [] = []"
| "foldRunes sp [c] = [lowerByte c]"
| "foldRunes sp [c, c'] =
     (case map_of sp [c, c'] of Some x \<Rightarrow> [x] | None \<Rightarrow> lowerByte c # foldRunes sp [c'])"
| "foldRunes sp (c # c' # c'' # s) =
     (case map_of sp [c, c'] of
        Some x \<Rightarrow> x # foldRunes sp (c'' # s)
      | None \<Rightarrow>
          (case map_of sp [c, c', c''] of
             Some x \<Rightarrow> x # foldRunes sp s
           | None \<Rightarrow> lowerByte c # foldRunes sp (c' # c'' # s)))"

definition kelvin :: string where "kelvin = [CHR 0xE2, CHR 0x84, CHR 0xAA]"
definition longS :: string where "longS = [CHR 0xC5, CHR 0xBF]"
definition dottedI :: string where "dottedI = [CHR 0xC4, CHR 0xB0]"

definition ToLower :: "string \<Rightarrow> string" where
  "ToLower s = foldRunes [(kelvin, CHR ''k''), (dottedI, CHR ''i'')] s"

definition EqualFold :: "string \<Rightarrow> string \<Rightarrow> bool" where
  "EqualFold s t \<longleftrightarrow>
     foldRunes [(kelvin, CHR ''k''), (longS, CHR ''s'')] s = foldRunes [(kelvin, CHR ''k''), (longS, CHR ''s'')] t"

section \<open>The secrets\<close>

definition IdentityTag :: string where "IdentityTag = ''Identity''"
definition PrivKeyTag :: string where "PrivKeyTag = ''PrivKey''"
definition RemoteServicesPath :: string where "RemoteServicesPath = ''Pinning.RemoteServices''"

definition PinningConcealSelector :: "string list" where
  "PinningConcealSelector = [''Pinning'', ''RemoteServices'', ''*'', ''API'', ''Key'']"

fun globMatches :: "string list \<Rightarrow> string list \<Rightarrow> bool" where
  "globMatches k [] = True"
| "globMatches [] (g # gs) = True"
| "globMatches (p # k) (g # gs) =
     (if g = ''*'' then globMatches k gs
      else if \<not> EqualFold p g then False else globMatches k gs)"

definition matchesGlobPrefix :: "string \<Rightarrow> string list \<Rightarrow> bool" where
  "matchesGlobPrefix key glob = globMatches (splitc CHR ''.'' key) glob"

text \<open>
  Scrubbing.  \<open>None\<close> is the nil interface value, which the caller drops.  What
  \<^verbatim>\<open>scrubEither\<close> hands to \<^verbatim>\<open>scrubValueInternal\<close> is the nil map of a failed type
  assertion; stored in an \<^verbatim>\<open>interface{}\<close> it is not equal to nil, so the error ``failed to
  find specified key'' is never returned and the value is dropped whatever it was.
\<close>

definition scrubMatch :: "string \<Rightarrow> string \<Rightarrow> bool" where
  "scrubMatch g k \<longleftrightarrow> g = ''*'' \<or> EqualFold g k"

primrec scrubEither :: "json \<Rightarrow> string list \<Rightarrow> json option" where
  "scrubEither (JObj m) =
     (\<lambda>key. case key of
        [] \<Rightarrow> Some (JObj Map.empty)
      | g # rest \<Rightarrow>
          Some (JObj (\<lambda>k. case (map_option scrubEither \<circ> m) k of
                            None \<Rightarrow> None
                          | Some scrubbed \<Rightarrow> if scrubMatch g k then scrubbed rest else m k)))"
| "scrubEither JNull = (\<lambda>key. None)"
| "scrubEither (JBool b) = (\<lambda>key. None)"
| "scrubEither (JInt i) = (\<lambda>key. None)"
| "scrubEither (JFrac t) = (\<lambda>key. None)"
| "scrubEither (JStr s) = (\<lambda>key. None)"
| "scrubEither (JArr js) = (\<lambda>key. None)"
| "scrubEither (JBad t) = (\<lambda>key. None)"

definition scrubMapInternal :: "jmap \<Rightarrow> string list \<Rightarrow> jmap" where
  "scrubMapInternal m key =
     (case key of
        [] \<Rightarrow> Map.empty
      | g # rest \<Rightarrow>
          (\<lambda>k. case m k of
                 None \<Rightarrow> None
               | Some v \<Rightarrow> if scrubMatch g k then scrubEither v rest else Some v))"

lemma scrubEither_JObj: "scrubEither (JObj m) key = Some (JObj (scrubMapInternal m key))"
  by (auto simp: scrubMapInternal_def fun_eq_iff split: list.splits option.splits)

section \<open>Reading and changing one key\<close>

datatype cmd_err =
    PrivateKeyBlocked | CredentialsBlocked | BadJSON | NotAProfile string
  | FailedGet fs_err | FailedSet fs_err | RepoErr fs_err
  | FailedDecode | PrivateKeyInInput | NoPrivKey | PrivKeyNotString | ServicesUnreadable
  | ServicesDiffer | ServiceApiChanged | ProfileFailed string
  | BadAddress | InvalidBootstrap string | NoTransport string | NothingToAdd
  | NotOnline | BadMask string

definition getConfig :: "fsEnv \<Rightarrow> string \<Rightarrow> 'c FSRepo \<Rightarrow> disk \<Rightarrow> cmd_err + json" where
  "getConfig e key r d = map_sum FailedGet id (GetConfigKey e key r d)"

definition setConfig ::
  "fsEnv \<Rightarrow> 'c cfgOps \<Rightarrow> string \<Rightarrow> json \<Rightarrow> 'c FSRepo \<Rightarrow> disk \<Rightarrow> (cmd_err + json) \<times> 'c FSRepo \<times> disk" where
  "setConfig e ops key v r d =
     (case SetConfigKey e ops key v r d of
        (Some err, r', d') \<Rightarrow> (Inl (FailedSet err), r', d')
      | (None, r', d') \<Rightarrow> (getConfig e key r' d', r', d'))"

text \<open>\<^verbatim>\<open>ipfs config <key> [<value>]\<close>; \<open>parse\<close> is \<^verbatim>\<open>json.Unmarshal\<close> into an interface.\<close>

definition configBlocked :: "string \<Rightarrow> cmd_err option" where
  "configBlocked key =
     (if ToLower key \<in> {''identity'', ''identity.privkey''} then Some PrivateKeyBlocked
      else if matchesGlobPrefix key PinningConcealSelector then Some CredentialsBlocked
      else None)"

definition configCmd ::
  "fsEnv \<Rightarrow> 'c cfgOps \<Rightarrow> (string \<Rightarrow> json option) \<Rightarrow> string \<Rightarrow> string option \<Rightarrow> bool \<Rightarrow> bool \<Rightarrow>
   'c FSRepo \<Rightarrow> disk \<Rightarrow> (cmd_err + json) \<times> 'c FSRepo \<times> disk" where
  "configCmd e ops parse key val asJson asBool r d =
     (case configBlocked key of
        Some err \<Rightarrow> (Inl err, r, d)
      | None \<Rightarrow>
          (case val of
             None \<Rightarrow> (getConfig e key r d, r, d)
           | Some v \<Rightarrow>
               if asJson then
                 (case parse v of
                    None \<Rightarrow> (Inl BadJSON, r, d)
                  | Some j \<Rightarrow> setConfig e ops key j r d)
               else if asBool then setConfig e ops key (JBool (v = ''true'')) r d
               else setConfig e ops key (JStr v) r d))"

text \<open>\<^verbatim>\<open>ipfs config show\<close>\<close>

definition scrubbedConfig :: "jmap \<Rightarrow> jmap" where
  "scrubbedConfig m = scrubMapInternal (scrubMapInternal m [IdentityTag, PrivKeyTag]) PinningConcealSelector"

definition configShow :: "fsEnv \<Rightarrow> string \<Rightarrow> string \<Rightarrow> disk \<Rightarrow> cmd_err + jmap" where
  "configShow e cfgRoot configFileOpt d =
     map_sum RepoErr id
       (bindS (liftIO (configFilename e cfgRoot configFileOpt)) (\<lambda>fname.
        bindS (liftIO (osReadFile e d fname)) (\<lambda>content.
        bindS (liftIO (case content of JsonFile j \<Rightarrow> decodeMap j | TextFile _ \<Rightarrow> Inl DecodeError)) (\<lambda>cfg.
          Inr (scrubbedConfig cfg)))))"

section \<open>Replacing the configuration\<close>

record 'o confOps = "'o Config cfgOps" +
  decodeServices :: "jmap \<Rightarrow> (string \<times> PinService) list option"

abbreviation baseOps :: "'o confOps \<Rightarrow> 'o Config cfgOps" where
  "baseOps ops \<equiv> cfgOps.truncate ops"

definition getRemotePinningServices ::
  "fsEnv \<Rightarrow> 'o confOps \<Rightarrow> 'o Config FSRepo \<Rightarrow> disk \<Rightarrow> cmd_err + (string \<times> PinService) list" where
  "getRemotePinningServices e ops r d =
     (case getConfig e RemoteServicesPath r d of
        Inr (JObj m) \<Rightarrow> (case decodeServices ops m of None \<Rightarrow> Inl ServicesUnreadable | Some svcs \<Rightarrow> Inr svcs)
      | _ \<Rightarrow> Inr [])"

fun reapplyServices ::
  "(string \<times> PinService) list \<Rightarrow> (string \<times> PinService) list \<Rightarrow> cmd_err + (string \<times> PinService) list" where
  "reapplyServices [] newServices = Inr newServices"
| "reapplyServices ((name, oldSvc) # rest) newServices =
     (case map_of newServices name of
        None \<Rightarrow> Inl ServicesDiffer
      | Some newSvc \<Rightarrow>
          if svcKey newSvc \<noteq> [] \<or> (Endpoint newSvc \<noteq> [] \<and> Endpoint newSvc \<noteq> Endpoint oldSvc)
          then Inl ServiceApiChanged
          else reapplyServices rest
                 (AList.update name (newSvc\<lparr> Endpoint := Endpoint oldSvc, svcKey := svcKey oldSvc \<rparr>) newServices))"

definition replaceConfig ::
  "fsEnv \<Rightarrow> 'o confOps \<Rightarrow> json \<Rightarrow> 'o Config FSRepo \<Rightarrow> disk \<Rightarrow> cmd_err option \<times> 'o Config FSRepo \<times> disk" where
  "replaceConfig e ops input r d =
     (case decodeConfig ops input of
        Inl _ \<Rightarrow> (Some FailedDecode, r, d)
      | Inr newCfg \<Rightarrow>
          if PrivKey (cIdentity newCfg) \<noteq> [] then (Some PrivateKeyInInput, r, d)
          else case getConfig e PrivKeySelector r d of
            Inl _ \<Rightarrow> (Some NoPrivKey, r, d)
          | Inr (JStr pkstr) \<Rightarrow>
              (case getRemotePinningServices e ops r d of
                 Inl err \<Rightarrow> (Some err, r, d)
               | Inr oldServices \<Rightarrow>
                   if length (RemoteServices newCfg) \<noteq> length oldServices then (Some ServicesDiffer, r, d)
                   else case reapplyServices oldServices (RemoteServices newCfg) of
                     Inl err \<Rightarrow> (Some err, r, d)
                   | Inr svcs \<Rightarrow>
                       (case SetConfig e (baseOps ops)
                               (newCfg\<lparr> cIdentity := (cIdentity newCfg)\<lparr> PrivKey := pkstr \<rparr>, RemoteServices := svcs \<rparr>) r d of
                          (err, r', d') \<Rightarrow> (map_option RepoErr err, r', d')))
          | Inr _ \<Rightarrow> (Some PrivKeyNotString, r, d))"

section \<open>Applying a profile\<close>

text \<open>An opened repository holds a configuration, so the \<open>None\<close> case does not arise.\<close>

definition Clone :: "'c cfgOps \<Rightarrow> 'c \<Rightarrow> io_err + 'c" where
  "Clone ops c = bindS (ToMap ops c) (\<lambda>m. decodeConfig ops (JObj m))"

definition transformConfig ::
  "fsEnv \<Rightarrow> 'c cfgOps \<Rightarrow> string \<Rightarrow> ('c \<Rightarrow> (string + unit) \<times> 'c) \<Rightarrow> bool \<Rightarrow> 'c FSRepo \<Rightarrow> disk \<Rightarrow>
   (cmd_err + 'c \<times> 'c) \<times> 'c FSRepo \<times> disk" where
  "transformConfig e ops temp transformer dryRun r d =
     (case fsConfig r of
        Inl err \<Rightarrow> (Inl (RepoErr err), r, d)
      | Inr None \<Rightarrow> (Inl (RepoErr RepoClosed), r, d)
      | Inr (Some oldCfg) \<Rightarrow>
          (case Clone ops oldCfg of
             Inl err \<Rightarrow> (Inl (RepoErr (IOErr err)), r, d)
           | Inr copy \<Rightarrow>
               (case transformer copy of
                  (Inl msg, _) \<Rightarrow> (Inl (ProfileFailed msg), r, d)
                | (Inr _, newCfg) \<Rightarrow>
                    if dryRun then (Inr (oldCfg, newCfg), r, d)
                    else case BackupConfig e d r temp of
                      (Inl err, d1) \<Rightarrow> (Inl (RepoErr err), r, d1)
                    | (Inr _, d1) \<Rightarrow>
                        (case SetConfig e ops newCfg r d1 of
                           (Some err, r', d2) \<Rightarrow> (Inl (RepoErr err), r', d2)
                         | (None, r', d2) \<Rightarrow> (Inr (oldCfg, newCfg), r', d2)))))"

definition scrubPrivKey :: "'c cfgOps \<Rightarrow> 'c \<Rightarrow> io_err + jmap" where
  "scrubPrivKey ops c =
     bindS (ToMap ops c) (\<lambda>m. Inr (scrubMapInternal m [IdentityTag, PrivKeyTag]))"

definition configProfileApply ::
  "fsEnv \<Rightarrow> 'o Config cfgOps \<Rightarrow> 'm profileEnv \<Rightarrow> string \<Rightarrow> string \<Rightarrow> bool \<Rightarrow> 'o Config FSRepo \<Rightarrow> disk \<Rightarrow>
   (cmd_err + jmap \<times> jmap) \<times> 'o Config FSRepo \<times> disk" where
  "configProfileApply e ops pe temp name dryRun r d =
     (case map_of Profiles name of
        None \<Rightarrow> (Inl (NotAProfile name), r, d)
      | Some profile \<Rightarrow>
          (case transformConfig e ops temp (Transform pe profile) dryRun r d of
             (Inl err, r', d') \<Rightarrow> (Inl err, r', d')
           | (Inr (oldCfg, newCfg), r', d') \<Rightarrow>
               (map_sum (RepoErr \<circ> IOErr) id
                  (bindS (scrubPrivKey ops oldCfg) (\<lambda>oldMap.
                   bindS (scrubPrivKey ops newCfg) (\<lambda>newMap. Inr (oldMap, newMap)))), r', d')))"

section \<open>The bootstrap list\<close>

text \<open>
  The loop that adds new entries (\<open>bootstrapAdd\<close>, \<open>filtersAdd\<close>): the list being built,
  the list of additions, and the map of what has been added.
\<close>

fun addLoop :: "string list \<Rightarrow> string list \<times> string list \<times> string list \<Rightarrow> string list \<times> string list \<times> string list" where
  "addLoop [] acc = acc"
| "addLoop (s # ss) (lst, addedList, addedMap) =
     (if s \<in> set addedMap then addLoop ss (lst, addedList, addedMap)
      else addLoop ss (lst @ [s], addedList @ [s], s # addedMap))"

fun addBackLoop :: "string list \<Rightarrow> string list \<times> string list \<Rightarrow> string list \<times> string list" where
  "addBackLoop [] acc = acc"
| "addBackLoop (s # ss) (lst, addedMap) =
     (if s \<in> set addedMap then addBackLoop ss (lst, addedMap)
      else addBackLoop ss (lst @ [s], s # addedMap))"

definition addUnique :: "string list \<Rightarrow> string list \<Rightarrow> string list \<times> string list" where
  "addUnique new old =
     (let (lst, addedList, addedMap) = addLoop new ([], [], [])
      in (fst (addBackLoop old (lst, addedMap)), addedList))"

definition saveConfig ::
  "fsEnv \<Rightarrow> 'o Config cfgOps \<Rightarrow> 'o Config \<Rightarrow> 'o Config FSRepo \<Rightarrow> disk \<Rightarrow> fs_err option \<times> 'o Config FSRepo \<times> disk" where
  "saveConfig e ops cfg r d = SetConfig e ops cfg (r\<lparr> fr_config := Some cfg \<rparr>) d"

fun checkBootstrap :: "'m maOps \<Rightarrow> string list \<Rightarrow> cmd_err option" where
  "checkBootstrap mo [] = None"
| "checkBootstrap mo (p # ps) =
     (case NewMultiaddr mo p of
        None \<Rightarrow> Some BadAddress
      | Some m \<Rightarrow>
          (case SplitP2P mo m of
             (tpt, None) \<Rightarrow> Some (InvalidBootstrap p)
           | (None, Some _) \<Rightarrow> Some (NoTransport p)
           | (Some _, Some _) \<Rightarrow> checkBootstrap mo ps))"

definition bootstrapAdd ::
  "fsEnv \<Rightarrow> 'o Config cfgOps \<Rightarrow> 'm maOps \<Rightarrow> 'o Config \<Rightarrow> string list \<Rightarrow> 'o Config FSRepo \<Rightarrow> disk \<Rightarrow>
   (cmd_err + string list) \<times> 'o Config FSRepo \<times> disk" where
  "bootstrapAdd e ops mo cfg peers r d =
     (case checkBootstrap mo peers of
        Some err \<Rightarrow> (Inl err, r, d)
      | None \<Rightarrow>
          (let (bs, addedList) = addUnique peers (Bootstrap cfg) in
           case saveConfig e ops (cfg\<lparr> Bootstrap := bs \<rparr>) r d of
             (Some err, r', d') \<Rightarrow> (Inl (RepoErr err), r', d')
           | (None, r', d') \<Rightarrow> (Inr addedList, r', d')))"

text \<open>One peer of the list against the addresses to remove: what is kept and what is removed.\<close>

fun removeFrom :: "(string \<times> 'm list) list \<Rightarrow> 'm AddrInfo \<Rightarrow> 'm AddrInfo list \<times> 'm AddrInfo list" where
  "removeFrom toRemoveMap p =
     (case map_of toRemoveMap (aiID p) of
        None \<Rightarrow> ([p], [])
      | Some [] \<Rightarrow> ([], [p])
      | Some addrs \<Rightarrow>
          (let removedAddrs = filter (\<lambda>a. a \<in> set addrs) (aiAddrs p);
               keptAddrs = filter (\<lambda>a. a \<notin> set addrs) (aiAddrs p)
           in (if keptAddrs \<noteq> [] then [\<lparr> aiID = aiID p, aiAddrs = keptAddrs \<rparr>] else [],
               if removedAddrs \<noteq> [] then [\<lparr> aiID = aiID p, aiAddrs = removedAddrs \<rparr>] else [])))"

definition bootstrapRemove ::
  "fsEnv \<Rightarrow> 'o Config cfgOps \<Rightarrow> 'm maOps \<Rightarrow> 'o Config \<Rightarrow> string list \<Rightarrow> 'o Config FSRepo \<Rightarrow> disk \<Rightarrow>
   (cmd_err + string list) \<times> 'o Config FSRepo \<times> disk" where
  "bootstrapRemove e ops mo cfg toRemove r d =
     (case ParseBootstrapPeers mo toRemove of
        None \<Rightarrow> (Inl BadAddress, r, d)
      | Some toRemoveAddr \<Rightarrow>
          (let toRemoveMap = map (\<lambda>a. (aiID a, aiAddrs a)) (rev toRemoveAddr) in
           case BootstrapPeers mo cfg of
             None \<Rightarrow> (Inl BadAddress, r, d)
           | Some peers \<Rightarrow>
               (let keep = concat (map (fst \<circ> removeFrom toRemoveMap) peers);
                    removed = concat (map (snd \<circ> removeFrom toRemoveMap) peers)
                in case saveConfig e ops (SetBootstrapPeers mo keep cfg) r d of
                     (Some err, r', d') \<Rightarrow> (Inl (RepoErr err), r', d')
                   | (None, r', d') \<Rightarrow> (Inr (BootstrapPeerStrings mo removed), r', d'))))"

definition bootstrapRemoveAll ::
  "fsEnv \<Rightarrow> 'o Config cfgOps \<Rightarrow> 'm maOps \<Rightarrow> 'o Config \<Rightarrow> 'o Config FSRepo \<Rightarrow> disk \<Rightarrow>
   (cmd_err + string list) \<times> 'o Config FSRepo \<times> disk" where
  "bootstrapRemoveAll e ops mo cfg r d =
     (case BootstrapPeers mo cfg of
        None \<Rightarrow> (Inl BadAddress, r, d)
      | Some removed \<Rightarrow>
          (case saveConfig e ops (cfg\<lparr> Bootstrap := [] \<rparr>) r d of
             (Some err, r', d') \<Rightarrow> (Inl (RepoErr err), r', d')
           | (None, r', d') \<Rightarrow> (Inr (BootstrapPeerStrings mo removed), r', d')))"

text \<open>\<^verbatim>\<open>r.Config()\<close> and the four commands.\<close>

definition withConfig ::
  "'o Config FSRepo \<Rightarrow> disk \<Rightarrow>
   ('o Config \<Rightarrow> (cmd_err + string list) \<times> 'o Config FSRepo \<times> disk) \<Rightarrow>
   (cmd_err + string list) \<times> 'o Config FSRepo \<times> disk" where
  "withConfig r d k =
     (case fsConfig r of
        Inl err \<Rightarrow> (Inl (RepoErr err), r, d)
      | Inr None \<Rightarrow> (Inl (RepoErr RepoClosed), r, d)
      | Inr (Some cfg) \<Rightarrow> k cfg)"

definition bootstrapAddCmd ::
  "fsEnv \<Rightarrow> 'o Config cfgOps \<Rightarrow> 'm maOps \<Rightarrow> bool \<Rightarrow> string list \<Rightarrow> 'o Config FSRepo \<Rightarrow> disk \<Rightarrow>
   (cmd_err + string list) \<times> 'o Config FSRepo \<times> disk" where
  "bootstrapAddCmd e ops mo deflt args r d =
     (let inputPeers = (if deflt then DefaultBootstrapAddresses else args) in
      if inputPeers = [] then (Inl NothingToAdd, r, d)
      else withConfig r d (\<lambda>cfg. bootstrapAdd e ops mo cfg inputPeers r d))"

definition bootstrapAddDefaultCmd ::
  "fsEnv \<Rightarrow> 'o Config cfgOps \<Rightarrow> 'm maOps \<Rightarrow> 'o Config FSRepo \<Rightarrow> disk \<Rightarrow>
   (cmd_err + string list) \<times> 'o Config FSRepo \<times> disk" where
  "bootstrapAddDefaultCmd e ops mo r d =
     withConfig r d (\<lambda>cfg. bootstrapAdd e ops mo cfg DefaultBootstrapAddresses r d)"

definition bootstrapRemoveCmd ::
  "fsEnv \<Rightarrow> 'o Config cfgOps \<Rightarrow> 'm maOps \<Rightarrow> bool \<Rightarrow> string list \<Rightarrow> 'o Config FSRepo \<Rightarrow> disk \<Rightarrow>
   (cmd_err + string list) \<times> 'o Config FSRepo \<times> disk" where
  "bootstrapRemoveCmd e ops mo all args r d =
     withConfig r d (\<lambda>cfg. if all then bootstrapRemoveAll e ops mo cfg r d
                            else bootstrapRemove e ops mo cfg args r d)"

definition bootstrapListCmd ::
  "'m maOps \<Rightarrow> 'o Config FSRepo \<Rightarrow> disk \<Rightarrow> (cmd_err + string list) \<times> 'o Config FSRepo \<times> disk" where
  "bootstrapListCmd mo r d =
     withConfig r d (\<lambda>cfg. case BootstrapPeers mo cfg of
        None \<Rightarrow> (Inl BadAddress, r, d)
      | Some peers \<Rightarrow> (Inr (BootstrapPeerStrings mo peers), r, d))"

section \<open>The address filters\<close>

text \<open>
  The filters a running node applies are an \<^verbatim>\<open>ma.Filters\<close> object: \<open>filterOps\<close> gives its
  operations on states \<open>'f\<close> and \<^verbatim>\<open>mamask.NewMask\<close>.
\<close>

record ('mask, 'f) filterOps =
  NewMask :: "string \<Rightarrow> 'mask option"
  AddFilter :: "'mask \<Rightarrow> 'f \<Rightarrow> 'f"
  RemoveLiteral :: "'mask \<Rightarrow> 'f \<Rightarrow> 'f"
  denied :: "'f \<Rightarrow> 'mask list"

definition filtersAdd ::
  "fsEnv \<Rightarrow> 'o Config cfgOps \<Rightarrow> 'o Config \<Rightarrow> string list \<Rightarrow> 'o Config FSRepo \<Rightarrow> disk \<Rightarrow>
   (cmd_err + string list) \<times> 'o Config FSRepo \<times> disk" where
  "filtersAdd e ops cfg filters r d =
     (let (fs, addedList) = addUnique filters (AddrFilters cfg) in
      case saveConfig e ops (cfg\<lparr> AddrFilters := fs \<rparr>) r d of
        (Some err, r', d') \<Rightarrow> (Inl (RepoErr err), r', d')
      | (None, r', d') \<Rightarrow> (Inr addedList, r', d'))"

definition filtersRemoveAll ::
  "fsEnv \<Rightarrow> 'o Config cfgOps \<Rightarrow> 'o Config \<Rightarrow> 'o Config FSRepo \<Rightarrow> disk \<Rightarrow>
   (cmd_err + string list) \<times> 'o Config FSRepo \<times> disk" where
  "filtersRemoveAll e ops cfg r d =
     (case saveConfig e ops (cfg\<lparr> AddrFilters := [] \<rparr>) r d of
        (Some err, r', d') \<Rightarrow> (Inl (RepoErr err), r', d')
      | (None, r', d') \<Rightarrow> (Inr (AddrFilters cfg), r', d'))"

definition filtersRemove ::
  "fsEnv \<Rightarrow> 'o Config cfgOps \<Rightarrow> 'o Config \<Rightarrow> string list \<Rightarrow> 'o Config FSRepo \<Rightarrow> disk \<Rightarrow>
   (cmd_err + string list) \<times> 'o Config FSRepo \<times> disk" where
  "filtersRemove e ops cfg toRemove r d =
     (let removed = filter (\<lambda>f. f \<in> set toRemove) (AddrFilters cfg);
          keep = filter (\<lambda>f. f \<notin> set toRemove) (AddrFilters cfg) in
      case saveConfig e ops (cfg\<lparr> AddrFilters := keep \<rparr>) r d of
        (Some err, r', d') \<Rightarrow> (Inl (RepoErr err), r', d')
      | (None, r', d') \<Rightarrow> (Inr removed, r', d'))"

text \<open>The loop over the arguments stops at the first that is no mask, keeping what it did.\<close>

fun maskLoop :: "('mask, 'f) filterOps \<Rightarrow> ('mask \<Rightarrow> 'f \<Rightarrow> 'f) \<Rightarrow> string list \<Rightarrow> 'f \<Rightarrow> cmd_err option \<times> 'f" where
  "maskLoop fo act [] fs = (None, fs)"
| "maskLoop fo act (arg # args) fs =
     (case NewMask fo arg of
        None \<Rightarrow> (Some (BadMask arg), fs)
      | Some msk \<Rightarrow> maskLoop fo act args (act msk fs))"

definition swarmFiltersAdd ::
  "fsEnv \<Rightarrow> 'o Config cfgOps \<Rightarrow> ('mask, 'f) filterOps \<Rightarrow> bool \<Rightarrow> string list \<Rightarrow> 'o Config FSRepo \<Rightarrow> disk \<Rightarrow> 'f \<Rightarrow>
   ((cmd_err + string list) \<times> 'o Config FSRepo \<times> disk) \<times> 'f" where
  "swarmFiltersAdd e ops fo isOnline args r d fs =
     (if \<not> isOnline then ((Inl NotOnline, r, d), fs)
      else if args = [] then ((Inl NothingToAdd, r, d), fs)
      else case fsConfig r of
        Inr (Some cfg) \<Rightarrow>
          (case maskLoop fo (AddFilter fo) args fs of
             (Some err, fs') \<Rightarrow> ((Inl err, r, d), fs')
           | (None, fs') \<Rightarrow> (filtersAdd e ops cfg args r d, fs'))
      | Inl err \<Rightarrow> ((Inl (RepoErr err), r, d), fs)
      | Inr None \<Rightarrow> ((Inl (RepoErr RepoClosed), r, d), fs))"

definition swarmFiltersRm ::
  "fsEnv \<Rightarrow> 'o Config cfgOps \<Rightarrow> ('mask, 'f) filterOps \<Rightarrow> bool \<Rightarrow> string list \<Rightarrow> 'o Config FSRepo \<Rightarrow> disk \<Rightarrow> 'f \<Rightarrow>
   ((cmd_err + string list) \<times> 'o Config FSRepo \<times> disk) \<times> 'f" where
  "swarmFiltersRm e ops fo isOnline args r d fs =
     (if \<not> isOnline then ((Inl NotOnline, r, d), fs)
      else case fsConfig r of
        Inr (Some cfg) \<Rightarrow>
          if args \<noteq> [] \<and> hd args \<in> {''all'', ''*''}
          then (filtersRemoveAll e ops cfg r d, fold (RemoveLiteral fo) (denied fo fs) fs)
          else (case maskLoop fo (RemoveLiteral fo) args fs of
                  (Some err, fs') \<Rightarrow> ((Inl err, r, d), fs')
                | (None, fs') \<Rightarrow> (filtersRemove e ops cfg args r d, fs'))
      | Inl err \<Rightarrow> ((Inl (RepoErr err), r, d), fs)
      | Inr None \<Rightarrow> ((Inl (RepoErr RepoClosed), r, d), fs))"

end
