(* ===== verification/MfsFiles.thy ===== *)
theory MfsFiles
  imports ConfigCommands GoPath "HOL-Library.List_Lexorder" "HOL-Library.Char_ord"
begin

text \<open>
  \<^verbatim>\<open>core/commands/files.go\<close>: the commands on the mutable file system (MFS).

  \<^item> The file system itself is the third-party package \<^verbatim>\<open>mfs\<close>: the record \<open>mfsOps\<close>
    gives its operations on states \<open>'m\<close>; directories, files and open descriptors are the
    handles \<open>'d\<close>, \<open>'f\<close> and \<open>'h\<close>, nodes of the DAG are \<open>'n\<close>, CID builders \<open>'b\<close>.
  \<^item> A command is a function of its arguments and options to what it emits and the new
    state.  File contents are byte lists, sizes and offsets integers.
\<close>

section \<open>The package mfs\<close>

datatype mfs_err = ErrNotExist | MfsErr string

datatype ('d, 'f) fsNode = FsFile 'f | FsDirectory 'd | FsOther

record NodeListing =
  nlName :: string
  nlType :: int
  nlSize :: int
  nlHash :: string

record ('d, 'f, 'h, 'n, 'b, 'm) mfsOps =
  mLookup :: "string \<Rightarrow> 'm \<Rightarrow> mfs_err + ('d, 'f) fsNode"
  mPutNode :: "string \<Rightarrow> 'n \<Rightarrow> 'm \<Rightarrow> mfs_err option \<times> 'm"
  mFlushPath :: "string \<Rightarrow> 'm \<Rightarrow> (mfs_err + 'n) \<times> 'm"
  mMv :: "string \<Rightarrow> string \<Rightarrow> 'm \<Rightarrow> mfs_err option \<times> 'm"
  mMkdir :: "string \<Rightarrow> bool \<Rightarrow> bool \<Rightarrow> 'b option \<Rightarrow> 'm \<Rightarrow> mfs_err option \<times> 'm"
  mUnlink :: "'d \<Rightarrow> string \<Rightarrow> 'm \<Rightarrow> mfs_err option \<times> 'm"
  mDirFlush :: "'d \<Rightarrow> 'm \<Rightarrow> mfs_err option \<times> 'm"
  mChild :: "'d \<Rightarrow> string \<Rightarrow> 'm \<Rightarrow> mfs_err + ('d, 'f) fsNode"
  mAddChild :: "'d \<Rightarrow> string \<Rightarrow> 'n \<Rightarrow> 'm \<Rightarrow> mfs_err option \<times> 'm"
  mListNames :: "'d \<Rightarrow> 'm \<Rightarrow> mfs_err + string list"
  mList :: "'d \<Rightarrow> 'm \<Rightarrow> mfs_err + NodeListing list"
  mSetCidBuilder :: "'d \<Rightarrow> 'b \<Rightarrow> 'm \<Rightarrow> 'm"
  mGetCidBuilder :: "'d \<Rightarrow> 'm \<Rightarrow> 'b"
  mGetNode :: "('d, 'f) fsNode \<Rightarrow> 'm \<Rightarrow> mfs_err + 'n"
  mFileType :: "'f \<Rightarrow> 'm \<Rightarrow> int"
  mFileSize :: "'f \<Rightarrow> 'm \<Rightarrow> mfs_err + int"
  mSetRawLeaves :: "'f \<Rightarrow> bool \<Rightarrow> 'm \<Rightarrow> 'm"
  mOpen :: "'f \<Rightarrow> bool \<Rightarrow> bool \<Rightarrow> bool \<Rightarrow> 'm \<Rightarrow> (mfs_err + 'h) \<times> 'm"
  fdTruncate :: "'h \<Rightarrow> int \<Rightarrow> 'm \<Rightarrow> mfs_err option \<times> 'm"
  fdSeek :: "'h \<Rightarrow> int \<Rightarrow> 'm \<Rightarrow> mfs_err option \<times> 'm"
  fdSize :: "'h \<Rightarrow> 'm \<Rightarrow> mfs_err + int"
  fdReadAll :: "'h \<Rightarrow> 'm \<Rightarrow> char list"
  fdWrite :: "'h \<Rightarrow> char list \<Rightarrow> 'm \<Rightarrow> mfs_err option \<times> 'm"
  fdClose :: "'h \<Rightarrow> 'm \<Rightarrow> mfs_err option \<times> 'm"
  emptyFileNode :: "'b \<Rightarrow> mfs_err + 'n"
  nodeHash :: "'n \<Rightarrow> string"

text \<open>
  \<open>mMkdir\<close> takes \<^verbatim>\<open>Mkparents\<close>, \<^verbatim>\<open>Flush\<close> and the builder; \<open>mOpen\<close> the flags
  \<^verbatim>\<open>Read\<close>, \<^verbatim>\<open>Write\<close> and \<^verbatim>\<open>Sync\<close>.  \<open>fdReadAll\<close> are the bytes from the present
  position to the end.  \<open>emptyFileNode\<close> is \<^verbatim>\<open>NodeWithData(FilePBData(nil, 0))\<close> with the
  given CID builder.  \<open>nodeHash\<close> is the CID of a node, encoded for output.
\<close>

datatype files_err =
    EmptyPath | NoLeadingSlash | CannotDeleteRoot | IsDirectory | NotAFile string | NotADirectory
  | OnlyDirectories | Mfs mfs_err | NegativeOffset | PastEnd int int | NegativeCount | NoInput string
  | UnknownHash string | BadCidVersion string | FormatConflict | UnrecognizedType | NotUnixFS
  | SomeNotRemoved | Resolving string | FetchFailed string | BadNode string

section \<open>Paths\<close>

definition checkPath :: "string \<Rightarrow> files_err + string" where
  "checkPath p =
     (if p = [] then Inl EmptyPath
      else if hd p \<noteq> CHR ''/'' then Inl NoLeadingSlash
      else Inr (if last p = CHR ''/'' \<and> p \<noteq> ''/'' then pathClean p @ ''/'' else pathClean p))"

definition pathSplit :: "string \<Rightarrow> string \<times> string" where
  "pathSplit p = (uptoSlash p, drop (length (uptoSlash p)) p)"

definition getParentDir ::
  "('d, 'f, 'h, 'n, 'b, 'm) mfsOps \<Rightarrow> string \<Rightarrow> 'm \<Rightarrow> files_err + 'd" where
  "getParentDir fs dir m =
     (case mLookup fs dir m of
        Inl err \<Rightarrow> Inl (Mfs err)
      | Inr (FsDirectory d) \<Rightarrow> Inr d
      | Inr _ \<Rightarrow> Inl NotADirectory)"

definition ensureContainingDirectoryExists ::
  "('d, 'f, 'h, 'n, 'b, 'm) mfsOps \<Rightarrow> string \<Rightarrow> 'b option \<Rightarrow> 'm \<Rightarrow> files_err option \<times> 'm" where
  "ensureContainingDirectoryExists fs path builder m =
     (let dirtomake = pathDir path
      in if dirtomake = ''/'' then (None, m)
         else case mMkdir fs dirtomake True False builder m of (err, m') \<Rightarrow> (map_option Mfs err, m'))"

section \<open>CID builders\<close>

record cidPrefix =
  pfVersion :: int
  pfCodec :: int
  pfMhType :: int
  pfMhLength :: int

record prefixEnv =
  PrefixForCidVersion :: "int \<Rightarrow> string + cidPrefix"
  mhNames :: "string \<Rightarrow> int option"

definition getPrefixNew :: "prefixEnv \<Rightarrow> int option \<Rightarrow> string option \<Rightarrow> files_err + cidPrefix option" where
  "getPrefixNew pe cidVerOpt hashFunOpt =
     (if cidVerOpt = None \<and> hashFunOpt = None then Inr None
      else
        let cidVer0 = (case cidVerOpt of None \<Rightarrow> 0 | Some v \<Rightarrow> v);
            cidVer = (if hashFunOpt \<noteq> None \<and> cidVer0 = 0 then 1 else cidVer0)
        in case PrefixForCidVersion pe cidVer of
             Inl err \<Rightarrow> Inl (BadCidVersion err)
           | Inr prefix \<Rightarrow>
               (case hashFunOpt of
                  None \<Rightarrow> Inr (Some prefix)
                | Some hashFunStr \<Rightarrow>
                    (case mhNames pe (ToLower hashFunStr) of
                       None \<Rightarrow> Inl (UnknownHash (ToLower hashFunStr))
                     | Some hashFunCode \<Rightarrow> Inr (Some (prefix\<lparr> pfMhType := hashFunCode, pfMhLength := -1 \<rparr>)))))"

text \<open>\<^verbatim>\<open>getPrefix\<close> is a second copy of the same function.\<close>

definition getPrefix :: "prefixEnv \<Rightarrow> int option \<Rightarrow> string option \<Rightarrow> files_err + cidPrefix option" where
  "getPrefix pe cidVerOpt hashFunOpt = getPrefixNew pe cidVerOpt hashFunOpt"

section \<open>Status\<close>

definition defaultStatFormat :: string where
  "defaultStatFormat =
     ''<hash>'' @ [CHR 0x0A] @ ''Size: <size>'' @ [CHR 0x0A] @ ''CumulativeSize: <cumulsize>'' @ [CHR 0x0A] @
     ''ChildBlocks: <childs>'' @ [CHR 0x0A] @ ''Type: <type>''"

definition moreThanOne :: "bool \<Rightarrow> bool \<Rightarrow> bool \<Rightarrow> bool" where
  "moreThanOne a b c \<longleftrightarrow> a \<and> b \<or> b \<and> c \<or> a \<and> c"

definition statGetFormatOptions :: "bool \<Rightarrow> bool \<Rightarrow> string \<Rightarrow> files_err + string" where
  "statGetFormatOptions hsh siz format =
     (if moreThanOne hsh siz (format \<noteq> defaultStatFormat) then Inl FormatConflict
      else Inr (if hsh then ''<hash>'' else if siz then ''<cumulsize>'' else format))"

text \<open>
  A node as \<^verbatim>\<open>statNode\<close> and \<^verbatim>\<open>walkBlock\<close> see it: its CID, the length of its block, the
  result of \<^verbatim>\<open>Size\<close>, its links, and its Go type with, for a \<^verbatim>\<open>ProtoNode\<close>, what
  \<^verbatim>\<open>FSNodeFromBytes\<close> makes of its data.
\<close>

datatype unixfsType = TRaw | TDirectory | TFile | TMetadata | TSymlink | THAMTShard | TUnknown string

datatype nodeKind = ProtoNode "string + unixfsType \<times> nat" | RawNode | OtherNode

record 'c dagNode =
  dnCid :: 'c
  dnRawLength :: nat
  dnSize :: "string + nat"
  dnLinks :: "'c list"
  dnKind :: nodeKind

record 'c statOutput =
  stHash :: 'c
  stSize :: nat
  stCumulativeSize :: nat
  stBlocks :: nat
  stType :: string
  stWithLocality :: bool
  stLocal :: bool
  stSizeLocal :: "64 word"

definition statNode :: "'c dagNode \<Rightarrow> files_err + 'c statOutput" where
  "statNode nd =
     (case dnSize nd of
        Inl err \<Rightarrow> Inl (BadNode err)
      | Inr cumulsize \<Rightarrow>
          (case dnKind nd of
             ProtoNode (Inl err) \<Rightarrow> Inl (BadNode err)
           | ProtoNode (Inr (t, fileSize)) \<Rightarrow>
               bindS (case t of
                        TDirectory \<Rightarrow> Inr ''directory'' | THAMTShard \<Rightarrow> Inr ''directory''
                      | TFile \<Rightarrow> Inr ''file'' | TMetadata \<Rightarrow> Inr ''file'' | TRaw \<Rightarrow> Inr ''file''
                      | _ \<Rightarrow> Inl UnrecognizedType)
                 (\<lambda>ndtype. Inr \<lparr> stHash = dnCid nd, stSize = fileSize, stCumulativeSize = cumulsize,
                    stBlocks = length (dnLinks nd), stType = ndtype,
                    stWithLocality = False, stLocal = False, stSizeLocal = 0 \<rparr>)
           | RawNode \<Rightarrow>
               Inr \<lparr> stHash = dnCid nd, stSize = cumulsize, stCumulativeSize = cumulsize, stBlocks = 0,
                 stType = ''file'', stWithLocality = False, stLocal = False, stSizeLocal = 0 \<rparr>
           | OtherNode \<Rightarrow> Inl NotUnixFS))"

text \<open>
  \<^verbatim>\<open>walkBlock\<close>, with a bound on the depth (\<open>None\<close>: not deep enough).  A DAG service
  answers with a node, with not found, or with another error.
\<close>

datatype 'c got = Got "'c dagNode" | NotFound | GetError string

type_synonym walked = "string option \<times> bool \<times> 64 word"

fun walkLinks :: "('c dagNode \<Rightarrow> walked option) \<Rightarrow> ('c \<Rightarrow> 'c got) \<Rightarrow> 'c list \<Rightarrow> bool \<Rightarrow> 64 word \<Rightarrow> walked option" where
  "walkLinks walk dagserv [] local sizeLocal = Some (None, local, sizeLocal)"
| "walkLinks walk dagserv (l # ls) local sizeLocal =
     (case dagserv l of
        NotFound \<Rightarrow> walkLinks walk dagserv ls False sizeLocal
      | GetError err \<Rightarrow> Some (Some err, local, sizeLocal)
      | Got child \<Rightarrow>
          (case walk child of
             None \<Rightarrow> None
           | Some (Some err, _, _) \<Rightarrow> Some (Some err, local, sizeLocal)
           | Some (None, childLocal, childLocalSize) \<Rightarrow>
               walkLinks walk dagserv ls (local \<and> childLocal) (sizeLocal + childLocalSize)))"

primrec walkBlock :: "nat \<Rightarrow> ('c \<Rightarrow> 'c got) \<Rightarrow> 'c dagNode \<Rightarrow> walked option" where
  "walkBlock 0 dagserv nd = None"
| "walkBlock (Suc k) dagserv nd =
     walkLinks (walkBlock k dagserv) dagserv (dnLinks nd) True (of_nat (dnRawLength nd))"

text \<open>The environment of the commands: nodes as seen by \<^verbatim>\<open>stat\<close>, and the core API.\<close>

record ('n, 'c) nodeEnv =
  asDag :: "'n \<Rightarrow> 'c dagNode"
  ResolveNode :: "string \<Rightarrow> string + 'n"
  localBlocks :: "'c \<Rightarrow> 'c got"

definition getNodeFromPath ::
  "('d, 'f, 'h, 'n, 'b, 'm) mfsOps \<Rightarrow> ('n, 'c) nodeEnv \<Rightarrow> string \<Rightarrow> 'm \<Rightarrow> files_err + 'n" where
  "getNodeFromPath fs ne p m =
     (if HasPrefix p ''/ipfs/'' then map_sum Resolving id (ResolveNode ne p)
      else case mLookup fs p m of
        Inl err \<Rightarrow> Inl (Mfs err)
      | Inr fsn \<Rightarrow> map_sum Mfs id (mGetNode fs fsn m))"

text \<open>\<open>fuel\<close> bounds the depth of the walk; \<open>None\<close> says it was too small.\<close>

definition filesStat ::
  "('d, 'f, 'h, 'n, 'b, 'm) mfsOps \<Rightarrow> ('n, 'c) nodeEnv \<Rightarrow> nat \<Rightarrow> bool \<Rightarrow> bool \<Rightarrow> string \<Rightarrow> bool \<Rightarrow> string \<Rightarrow> 'm \<Rightarrow>
   (files_err + 'c statOutput) option" where
  "filesStat fs ne fuel hsh siz format withLocal arg m =
     (case statGetFormatOptions hsh siz format of
        Inl err \<Rightarrow> Some (Inl err)
      | Inr _ \<Rightarrow>
          (case bindS (checkPath arg) (\<lambda>path. getNodeFromPath fs ne path m) of
             Inl err \<Rightarrow> Some (Inl err)
           | Inr n \<Rightarrow>
               (case statNode (asDag ne n) of
                  Inl err \<Rightarrow> Some (Inl err)
                | Inr out \<Rightarrow>
                    if \<not> withLocal then Some (Inr out)
                    else (case walkBlock fuel (localBlocks ne) (asDag ne n) of
                            None \<Rightarrow> None
                          | Some (Some err, _, _) \<Rightarrow> Some (Inl (FetchFailed err))
                          | Some (None, local, sizeLocal) \<Rightarrow>
                              Some (Inr (out\<lparr> stWithLocality := True, stLocal := local, stSizeLocal := sizeLocal \<rparr>))))))"

text \<open>The text of a status; the line on locality, with its floating-point percentage, is left out.\<close>

definition formatStat :: "('c \<Rightarrow> string) \<Rightarrow> string \<Rightarrow> 'c statOutput \<Rightarrow> string" where
  "formatStat enc format out =
     (let s1 = replaceAll format ''<hash>'' (enc (stHash out));
          s2 = replaceAll s1 ''<size>'' (decNat (stSize out));
          s3 = replaceAll s2 ''<cumulsize>'' (decNat (stCumulativeSize out));
          s4 = replaceAll s3 ''<childs>'' (decNat (stBlocks out))
      in replaceAll s4 ''<type>'' (stType out))"

section \<open>Copying, moving, making directories\<close>

definition filesCp ::
  "('d, 'f, 'h, 'n, cidPrefix, 'm) mfsOps \<Rightarrow> ('n, 'c) nodeEnv \<Rightarrow> prefixEnv \<Rightarrow> int option \<Rightarrow> string option \<Rightarrow>
   bool \<Rightarrow> bool \<Rightarrow> string \<Rightarrow> string \<Rightarrow> 'm \<Rightarrow> files_err option \<times> 'm" where
  "filesCp fs ne pe cidVer hashFun mkParents flush srcArg dstArg m =
     (case getPrefixNew pe cidVer hashFun of
        Inl err \<Rightarrow> (Some err, m)
      | Inr prefix \<Rightarrow>
          (case checkPath srcArg of
             Inl err \<Rightarrow> (Some err, m)
           | Inr src0 \<Rightarrow>
               (let src = stripSlashes src0 in
                case checkPath dstArg of
                  Inl err \<Rightarrow> (Some err, m)
                | Inr dst0 \<Rightarrow>
                    (let dst = (if last dst0 = CHR ''/'' then dst0 @ pathBase src else dst0) in
                     case getNodeFromPath fs ne src m of
                       Inl err \<Rightarrow> (Some err, m)
                     | Inr node \<Rightarrow>
                         (case (if mkParents then ensureContainingDirectoryExists fs dst prefix m else (None, m)) of
                            (Some err, m1) \<Rightarrow> (Some err, m1)
                          | (None, m1) \<Rightarrow>
                              (case mPutNode fs dst node m1 of
                                 (Some err, m2) \<Rightarrow> (Some (Mfs err), m2)
                               | (None, m2) \<Rightarrow>
                                   if flush then
                                     (case mFlushPath fs dst m2 of
                                        (Inl err, m3) \<Rightarrow> (Some (Mfs err), m3)
                                      | (Inr _, m3) \<Rightarrow> (None, m3))
                                   else (None, m2)))))))"

definition filesMv ::
  "('d, 'f, 'h, 'n, 'b, 'm) mfsOps \<Rightarrow> bool \<Rightarrow> string \<Rightarrow> string \<Rightarrow> 'm \<Rightarrow> files_err option \<times> 'm" where
  "filesMv fs flush srcArg dstArg m =
     (case checkPath srcArg of
        Inl err \<Rightarrow> (Some err, m)
      | Inr src \<Rightarrow>
          (case checkPath dstArg of
             Inl err \<Rightarrow> (Some err, m)
           | Inr dst \<Rightarrow>
               (case mMv fs src dst m of
                  (Some err, m1) \<Rightarrow> (Some (Mfs err), m1)
                | (None, m1) \<Rightarrow>
                    if flush then
                      (case mFlushPath fs ''/'' m1 of
                         (Inl err, m2) \<Rightarrow> (Some (Mfs err), m2)
                       | (Inr _, m2) \<Rightarrow> (None, m2))
                    else (None, m1))))"

definition filesMkdir ::
  "('d, 'f, 'h, 'n, cidPrefix, 'm) mfsOps \<Rightarrow> prefixEnv \<Rightarrow> int option \<Rightarrow> string option \<Rightarrow> bool \<Rightarrow> bool \<Rightarrow> string \<Rightarrow> 'm \<Rightarrow>
   files_err option \<times> 'm" where
  "filesMkdir fs pe cidVer hashFun dashp flush arg m =
     (case checkPath arg of
        Inl err \<Rightarrow> (Some err, m)
      | Inr dirtomake \<Rightarrow>
          (case getPrefix pe cidVer hashFun of
             Inl err \<Rightarrow> (Some err, m)
           | Inr prefix \<Rightarrow>
               (case mMkdir fs dirtomake dashp flush prefix m of (err, m1) \<Rightarrow> (map_option Mfs err, m1))))"

section \<open>Listing\<close>

definition filesLs ::
  "('d, 'f, 'h, 'n, 'b, 'm) mfsOps \<Rightarrow> int \<Rightarrow> bool \<Rightarrow> string option \<Rightarrow> 'm \<Rightarrow> files_err + NodeListing list" where
  "filesLs fs TDir long arg m =
     bindS (checkPath (case arg of None \<Rightarrow> ''/'' | Some a \<Rightarrow> a)) (\<lambda>path.
     bindS (map_sum Mfs id (mLookup fs path m)) (\<lambda>fsn.
       case fsn of
         FsDirectory d \<Rightarrow>
           if \<not> long then
             bindS (map_sum Mfs id (mListNames fs d m)) (\<lambda>names.
               Inr (map (\<lambda>name. \<lparr> nlName = name, nlType = 0, nlSize = 0, nlHash = [] \<rparr>) names))
           else map_sum Mfs id (mList fs d m)
       | FsFile f \<Rightarrow>
           (let name = snd (pathSplit path) in
            if long then
              bindS (map_sum Mfs id (mFileSize fs f m)) (\<lambda>siz.
              bindS (map_sum Mfs id (mGetNode fs (FsFile f) m)) (\<lambda>nd.
                Inr [\<lparr> nlName = name, nlType = mFileType fs f m, nlSize = siz, nlHash = nodeHash fs nd \<rparr>]))
            else Inr [\<lparr> nlName = name, nlType = 0, nlSize = 0, nlHash = [] \<rparr>])
       | FsOther \<Rightarrow> Inl UnrecognizedType))"

text \<open>The lines of the text output, each as its columns.\<close>

definition lsLines :: "int \<Rightarrow> bool \<Rightarrow> bool \<Rightarrow> NodeListing list \<Rightarrow> string list list" where
  "lsLines TDir noSort long entries =
     map (\<lambda>o'. if long then [if nlType o' = TDir then nlName o' @ ''/'' else nlName o', nlHash o', decInt (nlSize o')]
               else [nlName o'])
       (if noSort then entries else sort_key nlName entries)"

section \<open>Reading and writing\<close>

definition filesRead ::
  "('d, 'f, 'h, 'n, 'b, 'm) mfsOps \<Rightarrow> int option \<Rightarrow> int option \<Rightarrow> string \<Rightarrow> 'm \<Rightarrow> (files_err + char list) \<times> 'm" where
  "filesRead fs offsetOpt countOpt arg m =
     (case checkPath arg of
        Inl err \<Rightarrow> (Inl err, m)
      | Inr path \<Rightarrow>
          (case mLookup fs path m of
             Inl err \<Rightarrow> (Inl (Mfs err), m)
           | Inr (FsFile fi) \<Rightarrow>
               (case mOpen fs fi True False False m of
                  (Inl err, m1) \<Rightarrow> (Inl (Mfs err), m1)
                | (Inr rfd, m1) \<Rightarrow>
                    (let offset = (case offsetOpt of None \<Rightarrow> 0 | Some o' \<Rightarrow> o');
                         close = (\<lambda>res m. (res, snd (fdClose fs rfd m)))
                     in if offset < 0 then close (Inl NegativeOffset) m1
                        else case fdSize fs rfd m1 of
                          Inl err \<Rightarrow> close (Inl (Mfs err)) m1
                        | Inr filen \<Rightarrow>
                            if offset > filen then close (Inl (PastEnd offset filen)) m1
                            else case fdSeek fs rfd offset m1 of
                              (Some err, m2) \<Rightarrow> close (Inl (Mfs err)) m2
                            | (None, m2) \<Rightarrow>
                                (case countOpt of
                                   None \<Rightarrow> close (Inr (fdReadAll fs rfd m2)) m2
                                 | Some cnt \<Rightarrow>
                                     if cnt < 0 then close (Inl NegativeCount) m2
                                     else close (Inr (take (nat cnt) (fdReadAll fs rfd m2))) m2)))
           | Inr _ \<Rightarrow> (Inl (NotAFile path), m)))"

definition getFileHandle ::
  "('d, 'f, 'h, 'n, 'b, 'm) mfsOps \<Rightarrow> string \<Rightarrow> bool \<Rightarrow> 'b option \<Rightarrow> 'm \<Rightarrow> (files_err + 'f) \<times> 'm" where
  "getFileHandle fs path create builder m =
     (case mLookup fs path m of
        Inr (FsFile fi) \<Rightarrow> (Inr fi, m)
      | Inr _ \<Rightarrow> (Inl (NotAFile path), m)
      | Inl ErrNotExist \<Rightarrow>
          if \<not> create then (Inl (Mfs ErrNotExist), m)
          else
            (let (dirname, fname) = pathSplit path in
             case getParentDir fs dirname m of
               Inl err \<Rightarrow> (Inl err, m)
             | Inr pdir \<Rightarrow>
                 (case emptyFileNode fs (case builder of None \<Rightarrow> mGetCidBuilder fs pdir m | Some b \<Rightarrow> b) of
                    Inl err \<Rightarrow> (Inl (Mfs err), m)
                  | Inr nd \<Rightarrow>
                      (case mAddChild fs pdir fname nd m of
                         (Some err, m1) \<Rightarrow> (Inl (Mfs err), m1)
                       | (None, m1) \<Rightarrow>
                           (case mChild fs pdir fname m1 of
                              Inl err \<Rightarrow> (Inl (Mfs err), m1)
                            | Inr (FsFile fi) \<Rightarrow> (Inr fi, m1)
                            | Inr _ \<Rightarrow> (Inl (NotAFile path), m1)))))
      | Inl err \<Rightarrow> (Inl (Mfs err), m))"

text \<open>
  \<^verbatim>\<open>GetFileArg\<close> on the iterator over the files of a request: whether there is a next
  entry, the error of the iterator, and the entry as a file.  What happens between opening
  the target and closing it is \<open>writeTo\<close>.
\<close>

type_synonym fileArg = "bool \<times> string option \<times> char list option"

definition GetFileArg :: "fileArg \<Rightarrow> string + char list" where
  "GetFileArg it =
     (case it of (hasNext, itErr, entry) \<Rightarrow>
        if \<not> hasNext then Inl (case itErr of None \<Rightarrow> ''expected a file argument'' | Some err \<Rightarrow> err)
        else case entry of None \<Rightarrow> Inl ''file argument was nil'' | Some bytes \<Rightarrow> Inr bytes)"

definition writeTo ::
  "('d, 'f, 'h, 'n, 'b, 'm) mfsOps \<Rightarrow> 'h \<Rightarrow> bool \<Rightarrow> int \<Rightarrow> int option \<Rightarrow> fileArg \<Rightarrow> 'm \<Rightarrow>
   files_err option \<times> 'm" where
  "writeTo fs wfd trunc offset countOpt input m =
     (case (if trunc then fdTruncate fs wfd 0 m else (None, m)) of
        (Some err, m1) \<Rightarrow> (Some (Mfs err), m1)
      | (None, m1) \<Rightarrow>
          if (case countOpt of None \<Rightarrow> False | Some cnt \<Rightarrow> cnt < 0) then (Some NegativeCount, m1)
          else case fdSeek fs wfd offset m1 of
            (Some err, m2) \<Rightarrow> (Some (Mfs err), m2)
          | (None, m2) \<Rightarrow>
              (case GetFileArg input of
                 Inl err \<Rightarrow> (Some (NoInput err), m2)
               | Inr bytes \<Rightarrow>
                   (case fdWrite fs wfd (case countOpt of None \<Rightarrow> bytes | Some cnt \<Rightarrow> take (nat cnt) bytes) m2 of
                      (err, m3) \<Rightarrow> (map_option Mfs err, m3))))"

record writeOpts =
  woCreate :: bool
  woParents :: bool
  woTruncate :: bool
  woFlush :: bool
  woRawLeaves :: "bool option"
  woOffset :: "int option"
  woCount :: "int option"
  woCidVersion :: "int option"
  woHash :: "string option"

definition filesWrite ::
  "('d, 'f, 'h, 'n, cidPrefix, 'm) mfsOps \<Rightarrow> prefixEnv \<Rightarrow> writeOpts \<Rightarrow> fileArg \<Rightarrow> string \<Rightarrow> 'm \<Rightarrow>
   files_err option \<times> 'm" where
  "filesWrite fs pe wo input arg m =
     (case checkPath arg of
        Inl err \<Rightarrow> (Some err, m)
      | Inr path \<Rightarrow>
          (case getPrefixNew pe (woCidVersion wo) (woHash wo) of
             Inl err \<Rightarrow> (Some err, m)
           | Inr prefix \<Rightarrow>
               (let offset = (case woOffset wo of None \<Rightarrow> 0 | Some o' \<Rightarrow> o') in
                if offset < 0 then (Some NegativeOffset, m)
                else case (if woParents wo then ensureContainingDirectoryExists fs path prefix m else (None, m)) of
                  (Some err, m1) \<Rightarrow> (Some err, m1)
                | (None, m1) \<Rightarrow>
                    (case getFileHandle fs path (woCreate wo) prefix m1 of
                       (Inl err, m2) \<Rightarrow> (Some err, m2)
                     | (Inr fi, m2) \<Rightarrow>
                         (let m3 = (case woRawLeaves wo of None \<Rightarrow> m2 | Some b \<Rightarrow> mSetRawLeaves fs fi b m2) in
                          case mOpen fs fi False True (woFlush wo) m3 of
                            (Inl err, m4) \<Rightarrow> (Some (Mfs err), m4)
                          | (Inr wfd, m4) \<Rightarrow>
                              (case writeTo fs wfd (woTruncate wo) offset (woCount wo) input m4 of
                                 (retErr, m5) \<Rightarrow>
                                   (case fdClose fs wfd m5 of
                                      (closeErr, m6) \<Rightarrow>
                                        (case retErr of None \<Rightarrow> map_option Mfs closeErr | Some err \<Rightarrow> Some err, m6))))))))"

section \<open>Flushing and changing the CID builder\<close>

definition filesFlush ::
  "('d, 'f, 'h, 'n, 'b, 'm) mfsOps \<Rightarrow> string option \<Rightarrow> 'm \<Rightarrow> (files_err + string) \<times> 'm" where
  "filesFlush fs arg m =
     (case mFlushPath fs (case arg of None \<Rightarrow> ''/'' | Some p \<Rightarrow> p) m of
        (res, m1) \<Rightarrow> (map_sum Mfs (nodeHash fs) res, m1))"

definition updatePath ::
  "('d, 'f, 'h, 'n, 'b, 'm) mfsOps \<Rightarrow> string \<Rightarrow> 'b option \<Rightarrow> 'm \<Rightarrow> files_err option \<times> 'm" where
  "updatePath fs pth builder m =
     (case builder of
        None \<Rightarrow> (None, m)
      | Some b \<Rightarrow>
          (case mLookup fs pth m of
             Inl err \<Rightarrow> (Some (Mfs err), m)
           | Inr (FsDirectory n) \<Rightarrow> (None, mSetCidBuilder fs n b m)
           | Inr _ \<Rightarrow> (Some OnlyDirectories, m)))"

definition filesChcid ::
  "('d, 'f, 'h, 'n, cidPrefix, 'm) mfsOps \<Rightarrow> prefixEnv \<Rightarrow> int option \<Rightarrow> string option \<Rightarrow> bool \<Rightarrow> string option \<Rightarrow> 'm \<Rightarrow>
   files_err option \<times> 'm" where
  "filesChcid fs pe cidVer hashFun flush arg m =
     (let path = (case arg of None \<Rightarrow> ''/'' | Some p \<Rightarrow> p) in
      case getPrefix pe cidVer hashFun of
        Inl err \<Rightarrow> (Some err, m)
      | Inr prefix \<Rightarrow>
          (case updatePath fs path prefix m of
             (Some err, m1) \<Rightarrow> (Some err, m1)
           | (None, m1) \<Rightarrow>
               if flush then
                 (case mFlushPath fs path m1 of
                    (Inl err, m2) \<Rightarrow> (Some (Mfs err), m2)
                  | (Inr _, m2) \<Rightarrow> (None, m2))
               else (None, m1)))"

section \<open>Removing\<close>

definition unlinkAndFlush ::
  "('d, 'f, 'h, 'n, 'b, 'm) mfsOps \<Rightarrow> 'd \<Rightarrow> string \<Rightarrow> bool \<Rightarrow> 'm \<Rightarrow> files_err option \<times> 'm" where
  "unlinkAndFlush fs pdir name force m =
     (case mUnlink fs pdir name m of
        (Some err, m1) \<Rightarrow> (if force \<and> err = ErrNotExist then None else Some (Mfs err), m1)
      | (None, m1) \<Rightarrow> (case mDirFlush fs pdir m1 of (err, m2) \<Rightarrow> (map_option Mfs err, m2)))"

definition removePath ::
  "('d, 'f, 'h, 'n, 'b, 'm) mfsOps \<Rightarrow> string \<Rightarrow> bool \<Rightarrow> bool \<Rightarrow> 'm \<Rightarrow> files_err option \<times> 'm" where
  "removePath fs path0 force dashr m =
     (if path0 = ''/'' then (Some CannotDeleteRoot, m)
      else
        (let path = (if last path0 = CHR ''/'' then butlast path0 else path0);
             (dir, name) = pathSplit path
         in case getParentDir fs dir m of
              Inl err \<Rightarrow> (if force \<and> err = Mfs ErrNotExist then None else Some err, m)
            | Inr pdir \<Rightarrow>
                if force then unlinkAndFlush fs pdir name True m
                else
                  (case mChild fs pdir name m of
                     Inl err \<Rightarrow> (Some (Mfs err), m)
                   | Inr (FsDirectory _) \<Rightarrow>
                       if \<not> dashr then (Some IsDirectory, m) else unlinkAndFlush fs pdir name False m
                   | Inr _ \<Rightarrow> unlinkAndFlush fs pdir name False m)))"

fun removeAllPaths ::
  "('d, 'f, 'h, 'n, 'b, 'm) mfsOps \<Rightarrow> bool \<Rightarrow> bool \<Rightarrow> string list \<Rightarrow> 'm \<Rightarrow> (string \<times> files_err) list \<times> 'm" where
  "removeAllPaths fs force dashr [] m = ([], m)"
| "removeAllPaths fs force dashr (arg # args) m =
     (case checkPath arg of
        Inl err \<Rightarrow> (case removeAllPaths fs force dashr args m of (errs, m1) \<Rightarrow> ((arg, err) # errs, m1))
      | Inr path \<Rightarrow>
          (case removePath fs path force dashr m of
             (Some err, m1) \<Rightarrow> (case removeAllPaths fs force dashr args m1 of (errs, m2) \<Rightarrow> ((path, err) # errs, m2))
           | (None, m1) \<Rightarrow> removeAllPaths fs force dashr args m1))"

text \<open>The errors it emits, one for each path that was not removed, and its own error.\<close>

definition filesRm ::
  "('d, 'f, 'h, 'n, 'b, 'm) mfsOps \<Rightarrow> bool \<Rightarrow> bool \<Rightarrow> string list \<Rightarrow> 'm \<Rightarrow>
   ((string \<times> files_err) list \<times> files_err option) \<times> 'm" where
  "filesRm fs force dashr args m =
     (case removeAllPaths fs force dashr args m of
        (errs, m1) \<Rightarrow> ((errs, if errs \<noteq> [] then Some SomeNotRemoved else None), m1))"

end
