(* ===== verification/Adder.thy ===== *)
theory Adder
  imports MfsFiles
begin

text \<open>
  \<^verbatim>\<open>core/coreunix/add.go\<close> and \<^verbatim>\<open>core/coreapi/unixfs.go\<close>: adding files, and listing the links
  of a node.

  \<^item> An \<open>Adder\<close> builds a directory tree in a temporary MFS root and holds the pin lock; when
    a garbage collection is waiting, it pins what it has built so far, releases the lock, and
    takes it again.
  \<^item> DAG builders, the MFS package, the DAG service and the pinner are third-party code: the
    record \<open>addOps\<close>.  What a call answers may depend on everything that has happened
    before, the \<open>trace\<close>.  Contexts that are cancelled show as errors of these calls.
  \<^item> A computation takes the state to an error or a value and the next state.
\<close>

section \<open>Files, events and the environment\<close>

datatype fileNode =
    FileNode "char list"
  | SymlinkNode string
  | DirNode "(string \<times> fileNode) list" "string option"
  | UnknownNode

text \<open>The entries of a directory come with the error its iterator ends with.  An event that changes
  the MFS root shows the new root.\<close>

datatype ('c, 'm) addEv =
    Locked | Unlocked | PinnedRec 'c | Unpinned 'c | PinsFlushed
  | BlockAdded 'c | RootChanged 'm | MemFreed

datatype 'c outEvent = Added string "'c" nat | Progress string int

text \<open>The tree under an MFS root: the error of listing a directory, its names with the
  children, and its node; a child that cannot be looked up is its error.\<close>

datatype 'n fsTree =
    FileTree
  | DirTree "string option" "(string \<times> 'n fsTree) list" "string + 'n"
  | OddTree
  | NoChild string

record dagParams =
  dpRawLeaves :: bool
  dpNoCopy :: bool
  dpTrickle :: bool

record ('c, 'n, 'm) addOps =
  newMfsRoot :: "string + 'm"
  chunkerFromString :: "string \<Rightarrow> char list \<Rightarrow> string + char list list"
  dagLayout :: "dagParams \<Rightarrow> char list list \<Rightarrow> string + 'n"
  commitBuffered :: "('c, 'm) addEv list \<Rightarrow> 'n \<Rightarrow> string option"
  dagAdd :: "('c, 'm) addEv list \<Rightarrow> 'n \<Rightarrow> string option"
  symlinkNode :: "string \<Rightarrow> string + 'n"
  cidOf :: "'n \<Rightarrow> 'c"
  cidString :: "'c \<Rightarrow> string"
  sizeOf :: "'n \<Rightarrow> string + nat"
  linksOf :: "'n \<Rightarrow> 'c list"
  dagGet :: "('c, 'm) addEv list \<Rightarrow> 'c \<Rightarrow> string + 'n"
  unwrapPosInfo :: "'n \<Rightarrow> 'n"
  mfsMkdir :: "string \<Rightarrow> 'm \<Rightarrow> string option \<times> 'm"
  mfsPutNode :: "string \<Rightarrow> 'n \<Rightarrow> 'm \<Rightarrow> string option \<times> 'm"
  mfsRootNode :: "'m \<Rightarrow> string + 'n"
  mfsFlush :: "'m \<Rightarrow> string option"
  mfsClose :: "'m \<Rightarrow> string option"
  mfsFlushMemFree :: "'m \<Rightarrow> string option"
  mfsTree :: "'m \<Rightarrow> 'n fsTree"
  treeNode :: "'n fsTree \<Rightarrow> string + 'n"
  unpinResult :: "('c, 'm) addEv list \<Rightarrow> 'c \<Rightarrow> string option"
  pinFlushResult :: "('c, 'm) addEv list \<Rightarrow> string option"
  gcRequested :: "('c, 'm) addEv list \<Rightarrow> bool"
  syncResult :: "(string option) option"

text \<open>\<open>syncResult\<close> is \<open>None\<close> for a DAG service without \<^verbatim>\<open>Sync\<close>.\<close>

record adderConf =
  acPin :: bool
  acTrickle :: bool
  acRawLeaves :: bool
  acSilent :: bool
  acNoCopy :: bool
  acProgress :: bool
  acChunker :: string
  acOut :: bool

record ('c, 'm) Adder =
  mroot :: "'m option"
  unlocker :: bool
  tempRoot :: "'c option"
  liveNodes :: nat
  trace :: "('c, 'm) addEv list"
  outEvents :: "'c outEvent list"

type_synonym ('c, 'm, 'a) addM = "('c, 'm) Adder \<Rightarrow> (string + 'a) \<times> ('c, 'm) Adder"

definition retM :: "'a \<Rightarrow> ('c, 'm, 'a) addM" where "retM a s = (Inr a, s)"

definition liftM :: "string + 'a \<Rightarrow> ('c, 'm, 'a) addM" where "liftM r s = (r, s)"

definition errM :: "string option \<Rightarrow> ('c, 'm, unit) addM" where
  "errM e s = (case e of None \<Rightarrow> (Inr (), s) | Some err \<Rightarrow> (Inl err, s))"

definition andThen :: "('c, 'm, 'a) addM \<Rightarrow> ('a \<Rightarrow> ('c, 'm, 'b) addM) \<Rightarrow> ('c, 'm, 'b) addM" where
  "andThen f g s = (case f s of (Inl err, s1) \<Rightarrow> (Inl err, s1) | (Inr a, s1) \<Rightarrow> g a s1)"

definition happen :: "('c, 'm) addEv \<Rightarrow> ('c, 'm, unit) addM" where
  "happen ev s = (Inr (), s\<lparr> trace := trace s @ [ev] \<rparr>)"

definition getSt :: "('c, 'm, ('c, 'm) Adder) addM" where "getSt s = (Inr s, s)"

definition NewAdder :: "('c, 'm) Adder" where
  "NewAdder = \<lparr> mroot = None, unlocker = False, tempRoot = None, liveNodes = 0, trace = [], outEvents = [] \<rparr>"

definition SetMfsRoot :: "'m \<Rightarrow> ('c, 'm) Adder \<Rightarrow> ('c, 'm) Adder" where
  "SetMfsRoot r a = a\<lparr> mroot := Some r \<rparr>"

section \<open>The root and the pins\<close>

definition mfsRoot :: "('c, 'n, 'm) addOps \<Rightarrow> ('c, 'm, 'm) addM" where
  "mfsRoot ops s =
     (case mroot s of
        Some r \<Rightarrow> (Inr r, s)
      | None \<Rightarrow>
          (case newMfsRoot ops of
             Inl err \<Rightarrow> (Inl err, s)
           | Inr mr \<Rightarrow> (Inr mr, s\<lparr> mroot := Some mr \<rparr>)))"

text \<open>An operation that changes the MFS root.\<close>

definition onRoot :: "('c, 'n, 'm) addOps \<Rightarrow> ('m \<Rightarrow> string option \<times> 'm) \<Rightarrow> ('c, 'm, unit) addM" where
  "onRoot ops f =
     andThen (mfsRoot ops) (\<lambda>mr s.
       case f mr of
         (err, mr') \<Rightarrow> errM err (s\<lparr> mroot := Some mr', trace := trace s @ [RootChanged mr'] \<rparr>))"

definition curRootNode :: "('c, 'n, 'm) addOps \<Rightarrow> ('c, 'm, 'n) addM" where
  "curRootNode ops =
     andThen (mfsRoot ops) (\<lambda>mr.
     andThen (liftM (mfsRootNode ops mr)) (\<lambda>root.
       case linksOf ops root of
         [l] \<Rightarrow> (\<lambda>s. (dagGet ops (trace s) l, s))
       | _ \<Rightarrow> retM root))"

definition PinRoot :: "('c, 'n, 'm) addOps \<Rightarrow> adderConf \<Rightarrow> 'n \<Rightarrow> ('c, 'm, unit) addM" where
  "PinRoot ops cf root =
     (if \<not> acPin cf then retM ()
      else
        let rnk = cidOf ops root in
        andThen (\<lambda>s. errM (dagAdd ops (trace s) root) s) (\<lambda>_.
        andThen (happen (BlockAdded rnk)) (\<lambda>_.
        andThen (\<lambda>s. case tempRoot s of
                        None \<Rightarrow> retM () s
                      | Some t \<Rightarrow>
                          (case unpinResult ops (trace s) t of
                             Some err \<Rightarrow> (Inl err, s)
                           | None \<Rightarrow> (Inr (), s\<lparr> tempRoot := Some rnk, trace := trace s @ [Unpinned t] \<rparr>))) (\<lambda>_.
        andThen (happen (PinnedRec rnk)) (\<lambda>_.
        andThen (\<lambda>s. errM (pinFlushResult ops (trace s)) s) (\<lambda>_.
          happen PinsFlushed))))))"

definition maybePauseForGC :: "('c, 'n, 'm) addOps \<Rightarrow> adderConf \<Rightarrow> ('c, 'm, unit) addM" where
  "maybePauseForGC ops cf =
     andThen getSt (\<lambda>s0.
       if unlocker s0 \<and> gcRequested ops (trace s0) then
         andThen (curRootNode ops) (\<lambda>rn.
         andThen (PinRoot ops cf rn) (\<lambda>_.
         andThen (happen Unlocked) (\<lambda>_. happen Locked)))
       else retM ())"

section \<open>Adding\<close>

text \<open>The loops over the entries of a directory join their names to its path.\<close>

definition outputDagnode :: "('c, 'n, 'm) addOps \<Rightarrow> adderConf \<Rightarrow> string \<Rightarrow> 'n \<Rightarrow> ('c, 'm, unit) addM" where
  "outputDagnode ops cf name dn =
     (if \<not> acOut cf then retM ()
      else andThen (liftM (sizeOf ops dn)) (\<lambda>siz s.
        (Inr (), s\<lparr> outEvents := outEvents s @ [Added name (cidOf ops dn) siz] \<rparr>)))"

fun addEntries ::
  "(string \<Rightarrow> 'f \<Rightarrow> ('c, 'm, unit) addM) \<Rightarrow> string \<Rightarrow> (string \<times> 'f) list \<Rightarrow> ('c, 'm, unit) addM" where
  "addEntries addOne path [] = retM ()"
| "addEntries addOne path ((name, f) # rest) =
     andThen (addOne (pathJoin [path, name]) f) (\<lambda>_. addEntries addOne path rest)"

lemma addEntries_cong [fundef_cong]:
  "es = es' \<Longrightarrow> path = path' \<Longrightarrow> (\<And>name f p. (name, f) \<in> set es' \<Longrightarrow> g p f = g' p f) \<Longrightarrow>
   addEntries g path es = addEntries g' path' es'"
proof (induction es' arbitrary: es)
  case (Cons e es')
  obtain name f where e: "e = (name, f)" by (cases e)
  have eq: "g p f = g' p f" for p by (rule Cons.prems(3) [of name]) (simp add: e)
  have "addEntries g path es' = addEntries g' path' es'"
  proof (rule Cons.IH [OF refl Cons.prems(2)])
    fix nm h p
    assume "(nm, h) \<in> set es'"
    then show "g p h = g' p h" by (intro Cons.prems(3) [of nm]) simp
  qed
  then show ?case by (simp add: Cons.prems(1,2) e eq)
qed simp

fun outputDirs :: "('c, 'n, 'm) addOps \<Rightarrow> adderConf \<Rightarrow> string \<Rightarrow> 'n fsTree \<Rightarrow> ('c, 'm, unit) addM" where
  "outputDirs ops cf path FileTree = retM ()"
| "outputDirs ops cf path (DirTree listErr entries nd) =
     andThen (errM listErr) (\<lambda>_.
     andThen (addEntries (outputDirs ops cf) path entries) (\<lambda>_.
     andThen (liftM nd) (\<lambda>n. outputDagnode ops cf path n)))"
| "outputDirs ops cf path OddTree = liftM (Inl ''unrecognized fsn type'')"
| "outputDirs ops cf path (NoChild err) = liftM (Inl err)"

definition addNode :: "('c, 'n, 'm) addOps \<Rightarrow> adderConf \<Rightarrow> 'n \<Rightarrow> string \<Rightarrow> ('c, 'm, unit) addM" where
  "addNode ops cf node0 path0 =
     (let path = (if path0 = [] then cidString ops (cidOf ops node0) else path0);
          node = unwrapPosInfo ops node0;
          dir = pathDir path
      in andThen (mfsRoot ops) (\<lambda>_.
         andThen (if dir \<noteq> ''.'' then onRoot ops (mfsMkdir ops dir) else retM ()) (\<lambda>_.
         andThen (onRoot ops (mfsPutNode ops path node)) (\<lambda>_.
           if \<not> acSilent cf then outputDagnode ops cf path node else retM ()))))"

definition addReader :: "('c, 'n, 'm) addOps \<Rightarrow> adderConf \<Rightarrow> char list \<Rightarrow> ('c, 'm, 'n) addM" where
  "addReader ops cf bytes =
     andThen (liftM (chunkerFromString ops (acChunker cf) bytes)) (\<lambda>chnk.
     andThen (liftM (dagLayout ops \<lparr> dpRawLeaves = acRawLeaves cf, dpNoCopy = acNoCopy cf, dpTrickle = acTrickle cf \<rparr> chnk)) (\<lambda>nd.
     andThen (happen (BlockAdded (cidOf ops nd))) (\<lambda>_.
     andThen (\<lambda>s. errM (commitBuffered ops (trace s) nd) s) (\<lambda>_. retM nd))))"

definition addFile :: "('c, 'n, 'm) addOps \<Rightarrow> adderConf \<Rightarrow> string \<Rightarrow> char list \<Rightarrow> ('c, 'm, unit) addM" where
  "addFile ops cf path bytes = andThen (addReader ops cf bytes) (\<lambda>dagnode. addNode ops cf dagnode path)"

definition addSymlink :: "('c, 'n, 'm) addOps \<Rightarrow> adderConf \<Rightarrow> string \<Rightarrow> string \<Rightarrow> ('c, 'm, unit) addM" where
  "addSymlink ops cf path target =
     andThen (liftM (symlinkNode ops target)) (\<lambda>dagnode.
     andThen (\<lambda>s. errM (dagAdd ops (trace s) dagnode) s) (\<lambda>_.
     andThen (happen (BlockAdded (cidOf ops dagnode))) (\<lambda>_. addNode ops cf dagnode path)))"

definition liveCacheSize :: nat where "liveCacheSize = 262144"

text \<open>What happens before each file: the pause for a collection and the bound on live nodes.\<close>

definition beforeFile :: "('c, 'n, 'm) addOps \<Rightarrow> adderConf \<Rightarrow> ('c, 'm, unit) addM" where
  "beforeFile ops cf =
     andThen (maybePauseForGC ops cf) (\<lambda>_.
     andThen getSt (\<lambda>s0.
     andThen (if liveNodes s0 \<ge> liveCacheSize then
                andThen (mfsRoot ops) (\<lambda>mr.
                andThen (errM (mfsFlushMemFree ops mr)) (\<lambda>_.
                andThen (happen MemFreed) (\<lambda>_ s. (Inr (), s\<lparr> liveNodes := 0 \<rparr>))))
              else retM ()) (\<lambda>_ s.
       (Inr (), s\<lparr> liveNodes := Suc (liveNodes s) \<rparr>))))"

fun addFileNode :: "('c, 'n, 'm) addOps \<Rightarrow> adderConf \<Rightarrow> bool \<Rightarrow> string \<Rightarrow> fileNode \<Rightarrow> ('c, 'm, unit) addM" where
  "addFileNode ops cf toplevel path (FileNode bytes) =
     andThen (beforeFile ops cf) (\<lambda>_. addFile ops cf path bytes)"
| "addFileNode ops cf toplevel path (SymlinkNode target) =
     andThen (beforeFile ops cf) (\<lambda>_. addSymlink ops cf path target)"
| "addFileNode ops cf toplevel path (DirNode entries itErr) =
     andThen (beforeFile ops cf) (\<lambda>_.
     andThen (if \<not> (toplevel \<and> path = []) then onRoot ops (mfsMkdir ops path) else retM ()) (\<lambda>_.
     andThen (addEntries (addFileNode ops cf False) path entries) (\<lambda>_. errM itErr)))"
| "addFileNode ops cf toplevel path UnknownNode =
     andThen (beforeFile ops cf) (\<lambda>_. liftM (Inl ''unknown file type''))"

text \<open>The work of \<^verbatim>\<open>AddAllAndPin\<close> between taking and giving back the lock.\<close>

definition isDir :: "fileNode \<Rightarrow> bool" where
  "isDir f = (case f of DirNode _ _ \<Rightarrow> True | _ \<Rightarrow> False)"

definition finalRoot :: "('c, 'n, 'm) addOps \<Rightarrow> 'm \<Rightarrow> bool \<Rightarrow> string + string \<times> 'n fsTree" where
  "finalRoot ops mr dir =
     (if dir then Inr ([], mfsTree ops mr)
      else case mfsTree ops mr of
        DirTree (Some err) _ _ \<Rightarrow> Inl err
      | DirTree None [] _ \<Rightarrow> Inl ''expected at least one child dir, got none''
      | DirTree None ((name, child) # _) _ \<Rightarrow> (case child of NoChild err \<Rightarrow> Inl err | t \<Rightarrow> Inr (name, t))
      | _ \<Rightarrow> Inl ''not a directory'')"

definition addAll :: "('c, 'n, 'm) addOps \<Rightarrow> adderConf \<Rightarrow> fileNode \<Rightarrow> ('c, 'm, 'n) addM" where
  "addAll ops cf f =
     andThen (addFileNode ops cf True [] f) (\<lambda>_.
     andThen (mfsRoot ops) (\<lambda>mr.
     andThen (errM (mfsFlush ops mr)) (\<lambda>_.
     andThen (liftM (finalRoot ops mr (isDir f))) (\<lambda>(name, root).
     andThen (errM (mfsClose ops mr)) (\<lambda>_.
     andThen (liftM (treeNode ops root)) (\<lambda>nd.
     andThen (outputDirs ops cf name root) (\<lambda>_.
     andThen (errM (case syncResult ops of None \<Rightarrow> None | Some r \<Rightarrow> r)) (\<lambda>_.
       if \<not> acPin cf then retM nd else andThen (PinRoot ops cf nd) (\<lambda>_. retM nd)))))))))"

definition AddAllAndPin :: "('c, 'n, 'm) addOps \<Rightarrow> adderConf \<Rightarrow> fileNode \<Rightarrow> ('c, 'm, 'n) addM" where
  "AddAllAndPin ops cf f s =
     (let s1 = (if acPin cf then s\<lparr> unlocker := True, trace := trace s @ [Locked] \<rparr> else s)
      in case addAll ops cf f s1 of
           (res, s2) \<Rightarrow> (res, if unlocker s2 then s2\<lparr> trace := trace s2 @ [Unlocked] \<rparr> else s2))"

section \<open>Progress\<close>

definition progressReaderIncrement :: int where "progressReaderIncrement = 262144"

text \<open>The reads of a file: how many bytes each returns, and whether it hits the end.  The
  state is the number of bytes read and the number at the last report.\<close>

fun progressReads :: "string \<Rightarrow> (nat \<times> bool) list \<Rightarrow> int \<times> int \<Rightarrow> 'c outEvent list" where
  "progressReads path [] st = []"
| "progressReads path ((n, eof) # reads) (bytes, lastProgress) =
     (let b = bytes + int n in
      if b - lastProgress \<ge> progressReaderIncrement \<or> eof
      then Progress path b # progressReads path reads (b, b)
      else progressReads path reads (b, lastProgress))"

section \<open>The core API\<close>

datatype addLayout = BalancedLayout | TrickleLayout | UnknownLayout int

record addSettings =
  asChunker :: string
  asLayout :: addLayout
  asPin :: bool
  asOnlyHash :: bool
  asNoCopy :: bool
  asSilent :: bool
  asProgress :: bool
  asRawLeaves :: bool
  asEvents :: bool

text \<open>
  \<open>mockRoot\<close> is the empty MFS root over a mock DAG service, for hashing only; \<open>nilOps\<close> the
  environment with the services of the node that stores nothing.  \<open>provide\<close> announces the
  result.
\<close>

definition unixfsAdd ::
  "('c, 'n, 'm) addOps \<Rightarrow> ('c, 'n, 'm) addOps \<Rightarrow> (string + 'm) \<Rightarrow> ('c \<Rightarrow> string option) \<Rightarrow> bool \<Rightarrow> addSettings \<Rightarrow> fileNode \<Rightarrow>
   (string + 'c) \<times> ('c, 'm) Adder" where
  "unixfsAdd ops nilOps mockRoot provide storeEnabled st f =
     (let env = (if asOnlyHash st then nilOps else ops);
          cf = \<lparr> acPin = asPin st \<and> \<not> asOnlyHash st, acTrickle = (asLayout st = TrickleLayout),
                 acRawLeaves = asRawLeaves st, acSilent = asSilent st, acNoCopy = asNoCopy st,
                 acProgress = asEvents st \<and> asProgress st, acChunker = asChunker st, acOut = asEvents st \<rparr>
      in if asNoCopy st \<and> \<not> storeEnabled
         then (Inl ''either the filestore or the urlstore must be enabled to use nocopy'', NewAdder)
         else if asLayout st \<notin> {BalancedLayout, TrickleLayout} then (Inl ''unknown layout'', NewAdder)
         else
           (case (if asOnlyHash st then map_sum id (\<lambda>mr. SetMfsRoot mr NewAdder) mockRoot else Inr NewAdder) of
              Inl err \<Rightarrow> (Inl err, NewAdder)
            | Inr fileAdder \<Rightarrow>
                (case AddAllAndPin env cf f fileAdder of
                   (Inl err, a) \<Rightarrow> (Inl err, a)
                 | (Inr nd, a) \<Rightarrow>
                     (case (if asOnlyHash st then None else provide (cidOf env nd)) of
                        Some err \<Rightarrow> (Inl err, a)
                      | None \<Rightarrow> (Inr (cidOf env nd), a)))))"

text \<open>Listing: one link.  The codecs are \<^verbatim>\<open>raw\<close>, \<^verbatim>\<open>dag-pb\<close> and others.\<close>

datatype linkCodec = RawCodec | PbCodec | OtherCodec

datatype entryType = EtUnknown | EtFile | EtDirectory | EtSymlink

record 'c link =
  lnName :: string
  lnSize :: nat
  lnCid :: 'c

record 'c DirEntry =
  deName :: string
  deCid :: "'c option"
  deSize :: nat
  deType :: entryType
  deTarget :: string
  deErr :: "string option"

text \<open>\<open>fetch\<close> gets a child: an error, \<open>None\<close> for a node that is no \<^verbatim>\<open>ProtoNode\<close>, or what
  \<^verbatim>\<open>FSNodeFromBytes\<close> makes of its data: an error or its type, data and file size.\<close>

definition processLink ::
  "('c \<Rightarrow> linkCodec) \<Rightarrow> ('c \<Rightarrow> string + (string + unixfsType \<times> string \<times> nat) option) \<Rightarrow> bool \<Rightarrow> bool \<Rightarrow> string + 'c link \<Rightarrow> 'c DirEntry" where
  "processLink codecOf fetch resolveChildren useCumulativeSize linkres =
     (case linkres of
        Inl err \<Rightarrow> \<lparr> deName = [], deCid = None, deSize = 0, deType = EtUnknown, deTarget = [], deErr = Some err \<rparr>
      | Inr l \<Rightarrow>
          (let lnk = \<lparr> deName = lnName l, deCid = Some (lnCid l), deSize = 0, deType = EtUnknown, deTarget = [], deErr = None \<rparr>
           in case codecOf (lnCid l) of
                RawCodec \<Rightarrow> lnk\<lparr> deType := EtFile, deSize := lnSize l \<rparr>
              | PbCodec \<Rightarrow>
                  (let withSize = (\<lambda>e. if useCumulativeSize then e\<lparr> deSize := lnSize l \<rparr> else e) in
                   if \<not> resolveChildren then withSize lnk
                   else case fetch (lnCid l) of
                     Inl err \<Rightarrow> lnk\<lparr> deErr := Some err \<rparr>
                   | Inr None \<Rightarrow> withSize lnk
                   | Inr (Some (Inl err)) \<Rightarrow> lnk\<lparr> deErr := Some err \<rparr>
                   | Inr (Some (Inr (t, target, fileSize))) \<Rightarrow>
                       (let e1 = (if t \<in> {TFile, TRaw} then lnk\<lparr> deType := EtFile \<rparr>
                                 else if t \<in> {THAMTShard, TDirectory, TMetadata} then lnk\<lparr> deType := EtDirectory \<rparr>
                                 else if t = TSymlink then lnk\<lparr> deType := EtSymlink, deTarget := target \<rparr>
                                 else lnk)
                        in withSize (if \<not> useCumulativeSize then e1\<lparr> deSize := fileSize \<rparr> else e1)))
              | OtherCodec \<Rightarrow> lnk))"

definition lsFromLinks ::
  "('c \<Rightarrow> linkCodec) \<Rightarrow> ('c \<Rightarrow> string + (string + unixfsType \<times> string \<times> nat) option) \<Rightarrow> bool \<Rightarrow> bool \<Rightarrow> 'c link list \<Rightarrow> 'c DirEntry list" where
  "lsFromLinks codecOf fetch resolveChildren useCumulativeSize ndlinks =
     map (\<lambda>l. processLink codecOf fetch resolveChildren useCumulativeSize (Inr l)) ndlinks"

end
