(* ===== verification/AdderProps.thy ===== *)
theory AdderProps
  imports Adder
begin

text \<open>
  Properties of adding: the pin lock is given back only when what has been built is pinned,
  hashing only touches neither the lock nor the pins, and roots pinned at a pause stay pinned.

  \<^item> A state invariant that the small steps and the pause keep is kept by the whole of adding:
    this is proved once, in the locale \<open>adder_invariant\<close>, and used at three invariants.
\<close>

section \<open>Computations that keep an invariant\<close>

definition keeps :: "(('c, 'm) Adder \<Rightarrow> bool) \<Rightarrow> ('c, 'm, 'a) addM \<Rightarrow> bool" where
  "keeps I m = (\<forall>s. I s \<longrightarrow> I (snd (m s)))"

named_theorems keeping

lemma keepsD: "keeps I m \<Longrightarrow> I s \<Longrightarrow> I (snd (m s))"
  by (simp add: keeps_def)

lemma keeps_retM [keeping, intro!]: "keeps I (retM a)"
  by (simp add: keeps_def retM_def)

lemma keeps_liftM [keeping, intro!]: "keeps I (liftM r)"
  by (simp add: keeps_def liftM_def)

lemma keeps_errM [keeping, intro!]: "keeps I (errM e)"
  by (simp add: keeps_def errM_def split: option.splits)

lemma keeps_errM_of_state [keeping, intro!]: "keeps I (\<lambda>s. errM (e s) s)"
  by (simp add: keeps_def errM_def split: option.splits)

lemma keeps_getSt [keeping, intro!]: "keeps I getSt"
  by (simp add: keeps_def getSt_def)

lemma keeps_andThen [keeping]:
  assumes "keeps I f" "\<And>a. keeps I (g a)"
  shows "keeps I (andThen f g)"
  unfolding keeps_def
proof (intro allI impI)
  fix s
  assume s: "I s"
  obtain r s1 where m: "f s = (r, s1)" by fastforce
  then have "I s1" using keepsD [OF assms(1) s] by simp
  then show "I (snd (andThen f g s))"
    using m assms(2) by (cases r) (simp_all add: andThen_def keeps_def)
qed

lemma keeps_if [keeping]: "(b \<Longrightarrow> keeps I f) \<Longrightarrow> (\<not> b \<Longrightarrow> keeps I g) \<Longrightarrow> keeps I (if b then f else g)"
  by simp

lemma keeps_addEntries:
  assumes "\<And>name f p. (name, f) \<in> set es \<Longrightarrow> keeps I (g p f)"
  shows "keeps I (addEntries g path es)"
  using assms
proof (induction es)
  case (Cons e es)
  obtain name f where e: "e = (name, f)" by (cases e)
  have first: "keeps I (g p f)" for p by (rule Cons.prems [of name]) (simp add: e)
  have rest: "keeps I (addEntries g path es)" 
  proof (rule Cons.IH)
    fix nm h p
    assume "(nm, h) \<in> set es"
    then show "keeps I (g p h)" by (intro Cons.prems [of nm]) simp
  qed
  show ?case unfolding e addEntries.simps by (rule keeps_andThen [OF first rest])
qed (simp add: keeps_retM)

section \<open>Adding keeps what its small steps keep\<close>

locale adder_invariant =
  fixes ops :: "('c, 'n, 'm) addOps" and cf :: adderConf and I :: "('c, 'm) Adder \<Rightarrow> bool"
  assumes quiet: "I s \<Longrightarrow> ev \<in> insert MemFreed (range BlockAdded) \<Longrightarrow> I (s\<lparr> trace := trace s @ [ev] \<rparr>)"
    and changed: "I s \<Longrightarrow> I (s\<lparr> mroot := Some m, trace := trace s @ [RootChanged m] \<rparr>)"
    and root: "keeps I (mfsRoot ops)"
    and fields: "I s \<Longrightarrow> I (s\<lparr> liveNodes := k \<rparr>)" "I s \<Longrightarrow> I (s\<lparr> outEvents := es \<rparr>)"
    and pause: "keeps I (maybePauseForGC ops cf)"
begin

lemma happen_quiet: "ev \<in> insert MemFreed (range BlockAdded) \<Longrightarrow> keeps I (happen ev)"
  using quiet by (simp add: keeps_def happen_def)

lemma on_root: "keeps I (onRoot ops f)"
  unfolding onRoot_def
  by (intro keeps_andThen root) (auto simp: keeps_def errM_def changed split: option.splits prod.splits)

lemma dagnode: "keeps I (outputDagnode ops cf name dn)"
  unfolding outputDagnode_def
  by (intro keeping) (simp add: keeps_def fields)

lemma dirs: "keeps I (outputDirs ops cf path t)"
proof (induction t arbitrary: path)
  case (DirTree listErr entries nd)
  have "keeps I (addEntries (outputDirs ops cf) path entries)"
    by (rule keeps_addEntries) (rule DirTree.IH, auto intro: prod_set_simps)
  then show ?case by (simp add: keeping dagnode)
qed auto

lemma node: "keeps I (addNode ops cf nd path)"
  by (simp add: addNode_def Let_def keeping root on_root dagnode)

lemma reader: "keeps I (addReader ops cf bytes)"
  by (simp add: addReader_def keeping happen_quiet)

lemma before: "keeps I (beforeFile ops cf)"
  unfolding beforeFile_def
  by (intro keeping pause root happen_quiet) (simp_all add: keeps_def fields)

lemma file_node: "keeps I (addFileNode ops cf toplevel path f)"
proof (induction f arbitrary: path toplevel)
  case (DirNode entries itErr)
  have "keeps I (addEntries (addFileNode ops cf False) path entries)"
    by (rule keeps_addEntries) (rule DirNode.IH, auto intro: prod_set_simps)
  then show ?case by (simp add: keeping before on_root)
qed (simp_all add: keeping before node reader happen_quiet addFile_def addSymlink_def)

end

section \<open>The pin lock\<close>

text \<open>The state of the lock after a sequence of events, \<open>None\<close> once an event has come out of turn:
  the lock is given back only right after a recursive pin that has been flushed, and
  everything else happens while it is held.\<close>

datatype 'c guard = Free | Held | PinnedJust 'c | PinnedSafe 'c

fun guardStep :: "'c guard \<Rightarrow> ('c, 'm) addEv \<Rightarrow> 'c guard option" where
  "guardStep Free ev = (if ev = Locked then Some Held else None)"
| "guardStep (PinnedJust c) PinsFlushed = Some (PinnedSafe c)"
| "guardStep (PinnedSafe c) Unlocked = Some Free"
| "guardStep g (PinnedRec c) = Some (PinnedJust c)"
| "guardStep g ev = (if ev \<in> {Locked, Unlocked} then None else Some Held)"

fun guardRun :: "'c guard \<Rightarrow> ('c, 'm) addEv list \<Rightarrow> 'c guard option" where
  "guardRun g [] = Some g"
| "guardRun g (ev # evs) = (case guardStep g ev of None \<Rightarrow> None | Some g' \<Rightarrow> guardRun g' evs)"

lemma guardRun_append [simp]:
  "guardRun g (xs @ ys) = (case guardRun g xs of None \<Rightarrow> None | Some g' \<Rightarrow> guardRun g' ys)"
  by (induction xs arbitrary: g) (simp_all split: option.splits)

text \<open>
  What has been built so far: the MFS root is the one of the last \<open>RootChanged\<close>, or the new
  one when nothing was put into it, and its node is the node of that root, or of its only
  link as the DAG service answers at that moment.
\<close>

definition lastRoot :: "('c, 'n, 'm) addOps \<Rightarrow> ('c, 'm) addEv list \<Rightarrow> 'm option" where
  "lastRoot ops tr =
     foldl (\<lambda>r ev. case ev of RootChanged m \<Rightarrow> Some m | _ \<Rightarrow> r)
       (case newMfsRoot ops of Inl _ \<Rightarrow> None | Inr m \<Rightarrow> Some m) tr"

lemma lastRoot_snoc [simp]:
  "lastRoot ops (tr @ [ev]) = (case ev of RootChanged m \<Rightarrow> Some m | _ \<Rightarrow> lastRoot ops tr)"
  by (cases ev) (simp_all add: lastRoot_def)

definition builtRoot :: "('c, 'n, 'm) addOps \<Rightarrow> ('c, 'm) addEv list \<Rightarrow> 'c \<Rightarrow> bool" where
  "builtRoot ops tr c =
     (\<exists>m root. lastRoot ops tr = Some m \<and> mfsRootNode ops m = Inr root \<and>
        (case linksOf ops root of
           [l] \<Rightarrow> (\<exists>n. dagGet ops tr l = Inr n \<and> c = cidOf ops n)
         | _ \<Rightarrow> c = cidOf ops root))"

text \<open>Whenever the lock was given back, what had been built was pinned just before.\<close>

definition pausesPinned :: "('c, 'n, 'm) addOps \<Rightarrow> ('c, 'm) addEv list \<Rightarrow> bool" where
  "pausesPinned ops tr =
     (\<forall>pre post. tr = pre @ Unlocked # post \<longrightarrow>
        (\<exists>pre0 c. pre = pre0 @ [BlockAdded c, PinnedRec c, PinsFlushed] \<and> builtRoot ops pre0 c))"

lemma pausesPinned_snoc:
  "ev \<noteq> Unlocked \<Longrightarrow> pausesPinned ops tr \<Longrightarrow> pausesPinned ops (tr @ [ev])"
  unfolding pausesPinned_def
proof (intro allI impI)
  fix pre post
  assume ev: "ev \<noteq> Unlocked" and ok: "\<forall>pre post. tr = pre @ Unlocked # post \<longrightarrow>
      (\<exists>pre0 c. pre = pre0 @ [BlockAdded c, PinnedRec c, PinsFlushed] \<and> builtRoot ops pre0 c)"
    and eq: "tr @ [ev] = pre @ Unlocked # post"
  from eq ev have "tr = pre @ Unlocked # butlast post" by (cases post rule: rev_cases) auto
  with ok show "\<exists>pre0 c. pre = pre0 @ [BlockAdded c, PinnedRec c, PinsFlushed] \<and> builtRoot ops pre0 c"
    by blast
qed

lemma pausesPinned_unlock:
  assumes "pausesPinned ops tr" "builtRoot ops tr c"
  shows "pausesPinned ops (tr @ [BlockAdded c, PinnedRec c, PinsFlushed, Unlocked])"
proof -
  have "pausesPinned ops (((tr @ [BlockAdded c]) @ [PinnedRec c]) @ [PinsFlushed])" (is "pausesPinned ops ?tr")
    by (intro pausesPinned_snoc assms(1)) simp_all
  moreover have "pre = ?tr \<or> (\<exists>post'. ?tr = pre @ Unlocked # post')" if "?tr @ [Unlocked] = pre @ Unlocked # post" for pre post
    using that by (cases post rule: rev_cases) auto
  ultimately show ?thesis
    using assms(2) unfolding pausesPinned_def by simp blast
qed

definition rootKnown :: "('c, 'n, 'm) addOps \<Rightarrow> ('c, 'm) Adder \<Rightarrow> bool" where
  "rootKnown ops s =
     (lastRoot ops (trace s) = (case mroot s of None \<Rightarrow> lastRoot ops [] | Some m \<Rightarrow> Some m))"

definition underLock :: "('c, 'n, 'm) addOps \<Rightarrow> ('c, 'm) Adder \<Rightarrow> bool" where
  "underLock ops s = (unlocker s \<and> tempRoot s = None \<and> (\<forall>c. Unpinned c \<notin> set (trace s)) \<and>
     (\<exists>g. guardRun Free (trace s) = Some g \<and> g \<noteq> Free) \<and> rootKnown ops s \<and> pausesPinned ops (trace s))"

lemma underLock_step:
  assumes "underLock ops s" "ev \<notin> {Locked, Unlocked} \<union> range RootChanged" "\<And>c. ev \<noteq> Unpinned c"
  shows "underLock ops (s\<lparr> trace := trace s @ [ev] \<rparr>)"
proof -
  obtain g where g: "guardRun Free (trace s) = Some g" "g \<noteq> Free" using assms(1) by (auto simp: underLock_def)
  have "\<exists>g'. guardStep g ev = Some g' \<and> g' \<noteq> Free" using g(2) assms(2) by (cases g; cases ev) auto
  moreover have "rootKnown ops (s\<lparr> trace := trace s @ [ev] \<rparr>)"
    using assms(1,2) by (auto simp: underLock_def rootKnown_def split: addEv.split)
  moreover have "pausesPinned ops (trace s @ [ev])"
    using assms(1,2) by (intro pausesPinned_snoc) (auto simp: underLock_def)
  ultimately show ?thesis using assms(1,3) g by (auto simp: underLock_def)
qed

lemma underLock_changed:
  assumes "underLock ops s"
  shows "underLock ops (s\<lparr> mroot := Some m, trace := trace s @ [RootChanged m] \<rparr>)"
proof -
  obtain g where g: "guardRun Free (trace s) = Some g" "g \<noteq> Free" using assms by (auto simp: underLock_def)
  have "\<exists>g'. guardStep g (RootChanged m) = Some g' \<and> g' \<noteq> Free" using g(2) by (cases g) auto
  moreover have "pausesPinned ops (trace s @ [RootChanged m])"
    using assms by (intro pausesPinned_snoc) (simp_all add: underLock_def)
  ultimately show ?thesis using assms g by (auto simp: underLock_def rootKnown_def)
qed

lemma mfsRoot_cases:
  assumes "mfsRoot ops s = (r, s1)" "underLock ops s"
  shows "underLock ops s1 \<and> trace s1 = trace s \<and> (\<forall>m. r = Inr m \<longrightarrow> lastRoot ops (trace s) = Some m)"
  using assms by (auto simp: mfsRoot_def underLock_def rootKnown_def lastRoot_def split: option.splits sum.splits)

lemma mfsRoot_underLock: "keeps (underLock ops) (mfsRoot ops)"
  unfolding keeps_def using mfsRoot_cases by (metis prod.collapse)

lemma happen_underLock: "ev \<notin> {Locked, Unlocked} \<union> range RootChanged \<Longrightarrow> (\<And>c. ev \<noteq> Unpinned c) \<Longrightarrow> keeps (underLock ops) (happen ev)"
  by (simp add: keeps_def happen_def underLock_step)

lemma unpin_underLock:
  "keeps (underLock ops) (\<lambda>s. case tempRoot s of None \<Rightarrow> retM () s
     | Some t \<Rightarrow> (case unpinResult ops (trace s) t of Some err \<Rightarrow> (Inl err, s)
         | None \<Rightarrow> (Inr (), s\<lparr> tempRoot := Some r, trace := trace s @ [Unpinned t] \<rparr>)))"
  by (simp add: keeps_def retM_def underLock_def split: option.split)

lemma PinRoot_underLock: "keeps (underLock ops) (PinRoot ops cf root)"
  unfolding PinRoot_def Let_def
  by (intro keeping unpin_underLock happen_underLock) auto

lemma PinRoot_effect:
  assumes "tempRoot s = None" "acPin cf" "PinRoot ops cf root s = (Inr u, s')"
  shows "s' = s\<lparr> trace := trace s @ [BlockAdded (cidOf ops root), PinnedRec (cidOf ops root), PinsFlushed] \<rparr>"
  using assms
  by (simp add: PinRoot_def Let_def andThen_def errM_def happen_def retM_def split: option.splits)

lemma underLock_pinned:
  assumes "underLock ops s"
  shows "guardRun Free (trace s @ [BlockAdded r, PinnedRec r, PinsFlushed]) = Some (PinnedSafe r)"
proof -
  obtain g where g: "guardRun Free (trace s) = Some g" "g \<noteq> Free" using assms by (auto simp: underLock_def)
  then show ?thesis by (cases g) simp_all
qed

lemma underLock_paused:
  assumes "underLock ops s" "builtRoot ops (trace s) r"
  shows "underLock ops (s\<lparr> trace := trace s @ [BlockAdded r, PinnedRec r, PinsFlushed, Unlocked, Locked] \<rparr>)"
proof -
  have "pausesPinned ops ((trace s @ [BlockAdded r, PinnedRec r, PinsFlushed, Unlocked]) @ [Locked])"
    using assms by (intro pausesPinned_snoc pausesPinned_unlock) (simp_all add: underLock_def)
  moreover have "rootKnown ops (s\<lparr> trace := trace s @ [BlockAdded r, PinnedRec r, PinsFlushed, Unlocked, Locked] \<rparr>)"
    using assms by (simp add: underLock_def rootKnown_def lastRoot_def)
  moreover
  obtain g where g: "guardRun Free (trace s) = Some g" "g \<noteq> Free" using assms(1) by (auto simp: underLock_def)
  then have "guardRun Free (trace s @ [BlockAdded r, PinnedRec r, PinsFlushed, Unlocked, Locked]) = Some Held"
    by (cases g) simp_all
  ultimately show ?thesis using assms(1) by (simp add: underLock_def del: guardRun_append)
qed

text \<open>\<^verbatim>\<open>curRootNode\<close> answers with the node of what has been built.\<close>

lemma curRootNode_built:
  assumes "curRootNode ops s = (r, s1)" "underLock ops s"
  shows "underLock ops s1 \<and> (\<forall>n. r = Inr n \<longrightarrow> builtRoot ops (trace s1) (cidOf ops n))"
proof -
  obtain q s2 where m: "mfsRoot ops s = (q, s2)" by fastforce
  note known = mfsRoot_cases [OF m assms(2)]
  show ?thesis
  proof (cases q)
    case (Inl err)
    then show ?thesis using assms(1) m known by (auto simp: curRootNode_def andThen_def)
  next
    case (Inr mr)
    then show ?thesis using assms(1) m known
      by (auto simp: curRootNode_def andThen_def liftM_def retM_def builtRoot_def split: sum.splits list.splits)
  qed
qed

lemma pause_underLock:
  fixes ops :: "('c, 'n, 'm) addOps"
  assumes "acPin cf"
  shows "keeps (underLock ops) (maybePauseForGC ops cf)"
proof -
  let ?pin = "\<lambda>rn. andThen (PinRoot ops cf rn) (\<lambda>_. andThen (happen Unlocked) (\<lambda>_. happen Locked))"
  have seg: "underLock ops (snd (?pin rn s))" if s: "underLock ops s" "builtRoot ops (trace s) (cidOf ops rn)"
    for rn and s :: "('c, 'm) Adder"
  proof -
    obtain r s1 where p: "PinRoot ops cf rn s = (r, s1)" by fastforce
    show ?thesis
    proof (cases r)
      case (Inl err)
      then show ?thesis using keepsD [OF PinRoot_underLock s(1), of cf rn] p by (simp add: andThen_def)
    next
      case (Inr u)
      have "tempRoot s = None" using s by (simp add: underLock_def)
      from PinRoot_effect [OF this assms p [unfolded Inr]] show ?thesis
        using underLock_paused [OF s] Inr p by (simp add: andThen_def happen_def)
    qed
  qed
  have "keeps (underLock ops) (andThen (curRootNode ops) ?pin)"
    unfolding keeps_def
  proof (intro allI impI)
    fix s :: "('c, 'm) Adder"
    assume s: "underLock ops s"
    obtain r s1 where c: "curRootNode ops s = (r, s1)" by fastforce
    show "underLock ops (snd (andThen (curRootNode ops) ?pin s))"
      using curRootNode_built [OF c s] seg c by (cases r) (simp_all add: andThen_def [of "curRootNode ops"])
  qed
  then show ?thesis unfolding maybePauseForGC_def
    by (intro keeps_andThen [OF keeps_getSt] keeps_if keeps_retM)
qed

section \<open>The invariants of adding\<close>

lemma with_pin: "acPin cf \<Longrightarrow> cf\<lparr> acPin := True \<rparr> = cf"
  by (cases cf) simp

lemma without_pin: "\<not> acPin cf \<Longrightarrow> cf\<lparr> acPin := False \<rparr> = cf"
  by (cases cf) simp

interpretation locked: adder_invariant ops "cf\<lparr> acPin := True \<rparr>" "underLock ops"
proof unfold_locales
  fix s :: "('a, 'c) Adder" and ev
  show "underLock ops (s\<lparr> trace := trace s @ [ev] \<rparr>)" if "underLock ops s" "ev \<in> insert MemFreed (range BlockAdded)"
    using that by (intro underLock_step) auto
qed (simp_all add: underLock_changed mfsRoot_underLock pause_underLock, simp_all add: underLock_def rootKnown_def)

definition quietEv :: "('c, 'm) addEv \<Rightarrow> bool" where
  "quietEv ev = (case ev of BlockAdded _ \<Rightarrow> True | RootChanged _ \<Rightarrow> True | MemFreed \<Rightarrow> True | _ \<Rightarrow> False)"

definition unlockedQuiet :: "('c, 'm) Adder \<Rightarrow> bool" where
  "unlockedQuiet s = (\<not> unlocker s \<and> tempRoot s = None \<and> list_all quietEv (trace s))"

interpretation unlocked: adder_invariant ops "cf\<lparr> acPin := False \<rparr>" unlockedQuiet
proof unfold_locales
  show "keeps unlockedQuiet (mfsRoot ops)"
    by (simp add: keeps_def mfsRoot_def unlockedQuiet_def split: option.split sum.split)
  show "keeps unlockedQuiet (maybePauseForGC ops (cf\<lparr> acPin := False \<rparr>))"
    by (simp add: keeps_def maybePauseForGC_def andThen_def getSt_def retM_def unlockedQuiet_def)
qed (auto simp: unlockedQuiet_def quietEv_def)

lemma addAll_locked: "acPin cf \<Longrightarrow> keeps (underLock ops) (addAll ops cf f)"
  using locked.file_node [of ops cf True "[]" f] locked.root [of ops] locked.dirs [of ops cf] PinRoot_underLock
  unfolding addAll_def by (simp add: with_pin) (auto simp: split_beta intro!: keeping)

lemma addAll_unlocked: "\<not> acPin cf \<Longrightarrow> keeps unlockedQuiet (addAll ops cf f)"
  using unlocked.file_node [of ops cf True "[]" f] unlocked.root [of ops] unlocked.dirs [of ops cf]
  unfolding addAll_def by (simp add: without_pin) (auto simp: split_beta intro!: keeping)

lemma andThen_Inr:
  "andThen f g s = (Inr b, s') \<longleftrightarrow> (\<exists>a s1. f s = (Inr a, s1) \<and> g a s1 = (Inr b, s'))"
  by (auto simp: andThen_def split: prod.splits sum.splits)

lemma addAll_pins_its_root:
  assumes "acPin cf" "underLock ops s" "addAll ops cf f s = (Inr nd, s')"
  shows "guardRun Free (trace s') = Some (PinnedSafe (cidOf ops nd))"
proof -
  let ?before = "\<lambda>k. andThen (addFileNode ops cf True [] f) (\<lambda>_. andThen (mfsRoot ops) (\<lambda>mr.
     andThen (errM (mfsFlush ops mr)) (\<lambda>_. andThen (liftM (finalRoot ops mr (isDir f))) (\<lambda>(name, root).
     andThen (errM (mfsClose ops mr)) (\<lambda>_. andThen (liftM (treeNode ops root)) (\<lambda>nd.
     andThen (outputDirs ops cf name root) (\<lambda>_.
     andThen (errM (case syncResult ops of None \<Rightarrow> None | Some r \<Rightarrow> r)) (\<lambda>_. k nd))))))))"
  have k: "keeps (underLock ops) (?before retM)"
    using locked.file_node [of ops cf True "[]" f] locked.root [of ops] locked.dirs [of ops cf] assms(1)
    by (simp add: with_pin) (auto simp: split_beta intro!: keeping)
  have "addAll ops cf f = andThen (?before retM) (\<lambda>nd. andThen (PinRoot ops cf nd) (\<lambda>_. retM nd))"
    using assms(1) by (simp add: addAll_def andThen_def retM_def fun_eq_iff split: prod.split sum.split)
  then obtain nd1 s1 s2 u where b: "?before retM s = (Inr nd1, s1)" and p: "PinRoot ops cf nd1 s1 = (Inr u, s2)"
    and r: "retM nd1 s2 = (Inr nd, s')"
    using assms(3) by (auto simp: andThen_Inr)
  have u1: "underLock ops s1" using keepsD [OF k assms(2)] b by simp
  then have "tempRoot s1 = None" by (simp add: underLock_def)
  from PinRoot_effect [OF this assms(1) p] r underLock_pinned [OF u1, of "cidOf ops nd"] show ?thesis
    by (auto simp: retM_def simp del: guardRun_append)
qed

lemma AddAllAndPin_locked:
  fixes ops :: "('c, 'n, 'm) addOps"
  assumes "acPin cf" "AddAllAndPin ops cf f NewAdder = (res, a)"
  obtains s1 s2 where "underLock ops s1" "addAll ops cf f s1 = (res, s2)" "underLock ops s2"
    "a = s2\<lparr> trace := trace s2 @ [Unlocked] \<rparr>"
proof -
  let ?s1 = "NewAdder\<lparr> unlocker := True, trace := [Locked] \<rparr> :: ('c, 'm) Adder"
  obtain s2 where all: "addAll ops cf f ?s1 = (res, s2)" and a: "a = (if unlocker s2 then s2\<lparr> trace := trace s2 @ [Unlocked] \<rparr> else s2)"
    using assms by (auto simp: AddAllAndPin_def NewAdder_def split: prod.splits)
  have u1: "underLock ops ?s1"
    by (simp add: underLock_def NewAdder_def rootKnown_def lastRoot_def pausesPinned_def Cons_eq_append_conv)
  have u2: "underLock ops s2" using keepsD [OF addAll_locked [OF assms(1)] u1, of f] all by simp
  from that [OF u1 all u2] a u2 show thesis by (simp add: underLock_def)
qed

text \<open>The recursive pins that a sequence of events leaves.\<close>

fun pinsLeft :: "'c set \<Rightarrow> ('c, 'm) addEv list \<Rightarrow> 'c set" where
  "pinsLeft pins [] = pins"
| "pinsLeft pins (PinnedRec c # evs) = pinsLeft (insert c pins) evs"
| "pinsLeft pins (Unpinned c # evs) = pinsLeft (pins - {c}) evs"
| "pinsLeft pins (_ # evs) = pinsLeft pins evs"

lemma pinsLeft_without_unpin:
  "(\<And>c. Unpinned c \<notin> set evs) \<Longrightarrow> pinsLeft pins evs = pins \<union> {c. PinnedRec c \<in> set evs}"
proof (induction evs arbitrary: pins)
  case (Cons ev evs)
  then show ?case by (cases ev) auto
qed simp

section \<open>Properties\<close>

text \<open>
  C11. A pinning add takes the pin lock first and gives it back last, whether it succeeds or
  not.  In between, blocks are added and the tree is changed only while the lock is held, and
  the lock is given back, for a garbage collection, only right after the root of what had
  been built was stored, pinned recursively and the pins were flushed: the CID pinned is that
  of the node of the current MFS root, or of the only link of it, as \<^verbatim>\<open>curRootNode\<close> says.
  When the add succeeds, the last thing it does under the lock is to pin the node it returns
  and to flush the pins.
\<close>

theorem lock_is_given_back_only_when_pinned:
  assumes "acPin cf" "AddAllAndPin ops cf f NewAdder = (res, a)"
  shows "\<exists>mid g. trace a = Locked # mid @ [Unlocked] \<and> guardRun Held mid = Some g \<and> g \<noteq> Free \<and>
    (\<forall>pre post. mid = pre @ Unlocked # post \<longrightarrow>
      (\<exists>built c. Locked # pre = built @ [BlockAdded c, PinnedRec c, PinsFlushed] \<and> builtRoot ops built c)) \<and>
    (\<forall>nd. res = Inr nd \<longrightarrow> g = PinnedSafe (cidOf ops nd))"
proof (rule AddAllAndPin_locked [OF assms])
  fix s1 s2
  assume u1: "underLock ops s1" and all: "addAll ops cf f s1 = (res, s2)" and u2: "underLock ops s2"
    and a: "a = s2\<lparr> trace := trace s2 @ [Unlocked] \<rparr>"
  obtain g where g: "guardRun Free (trace s2) = Some g" "g \<noteq> Free" using u2 by (auto simp: underLock_def)
  then obtain mid where mid: "trace s2 = Locked # mid" "guardRun Held mid = Some g"
    by (cases "trace s2") (auto split: if_splits)
  have "g = PinnedSafe (cidOf ops nd)" if "res = Inr nd" for nd
  proof -
    have "guardRun Free (trace s2) = Some (PinnedSafe (cidOf ops nd))"
      by (rule addAll_pins_its_root [OF assms(1) u1, of f]) (simp add: all that [symmetric])
    then show ?thesis using g(1) by simp
  qed
  moreover have "\<exists>built c. Locked # pre = built @ [BlockAdded c, PinnedRec c, PinsFlushed] \<and> builtRoot ops built c"
    if "mid = pre @ Unlocked # post" for pre post
  proof -
    have "trace s2 = (Locked # pre) @ Unlocked # post" using mid(1) that by simp
    moreover have "pausesPinned ops (trace s2)" using u2 by (simp add: underLock_def)
    ultimately show ?thesis unfolding pausesPinned_def by blast
  qed
  ultimately show ?thesis using mid g(2) a by auto
qed

text \<open>
  Adding for the hash only leaves the node alone: it neither takes the lock nor pins, and
  its answer depends neither on the node's environment nor on what announcing a result says.
\<close>

theorem hashing_only_leaves_the_node_alone:
  assumes "asOnlyHash st" "unixfsAdd ops nilOps mockRoot prov enabled st f = (res, a)"
  shows "list_all quietEv (trace a) \<and> \<not> unlocker a \<and> tempRoot a = None \<and>
    unixfsAdd ops' nilOps mockRoot prov' enabled st f = (res, a)"
proof -
  have keep: "unlockedQuiet (snd (AddAllAndPin nilOps cf f s))" if "unlockedQuiet s" "\<not> acPin cf" for cf s
    using keepsD [OF addAll_unlocked [OF that(2)] that(1), of nilOps f] that(2)
    by (auto simp: AddAllAndPin_def unlockedQuiet_def split: prod.splits)
  have new: "unlockedQuiet NewAdder" "unlockedQuiet (SetMfsRoot r NewAdder)" for r
    by (simp_all add: unlockedQuiet_def NewAdder_def SetMfsRoot_def)
  have step: "unlockedQuiet a" if "unixfsAdd ops nilOps mockRoot prov enabled st f = (res, a)" for res
  proof -
    have final: "unlockedQuiet a1" if "AddAllAndPin nilOps cf f s = (r, a1)" "unlockedQuiet s" "\<not> acPin cf" for cf s r a1
      using keep [OF that(2,3)] that(1) by simp
    show ?thesis
      using that assms(1) new
      by (cases mockRoot) (auto simp: unixfsAdd_def Let_def dest!: final split: if_splits sum.splits prod.splits)
  qed
  have "unixfsAdd ops' nilOps mockRoot prov' enabled st f = unixfsAdd ops nilOps mockRoot prov enabled st f"
    using assms(1) by (cases mockRoot) (simp_all add: unixfsAdd_def Let_def split: prod.split sum.split)
  then show ?thesis using assms(2) step [OF assms(2)] by (simp add: unlockedQuiet_def)
qed

text \<open>
  C23. An add never unpins: every root it pinned at a pause for garbage collection is still
  pinned when it ends, beside the root it returns.
\<close>

theorem intermediate_roots_stay_pinned:
  assumes "acPin cf" "AddAllAndPin ops cf f NewAdder = (res, a)"
  shows "tempRoot a = None \<and> pinsLeft pins (trace a) = pins \<union> {c. PinnedRec c \<in> set (trace a)}"
proof (rule AddAllAndPin_locked [OF assms])
  fix s1 s2
  assume "underLock ops s2" and a: "a = s2\<lparr> trace := trace s2 @ [Unlocked] \<rparr>"
  then have "tempRoot a = None" "\<And>c. Unpinned c \<notin> set (trace a)" by (simp_all add: underLock_def)
  then show ?thesis using pinsLeft_without_unpin by blast
qed

section \<open>A concrete environment\<close>

text \<open>Nodes are strings and their own identifiers; the tree is the list of the paths that were
  put into it, and a collection is waiting as soon as the tree has changed, until it has run.\<close>

definition demoAdd :: "(string, string, string list) addOps" where
  "demoAdd = \<lparr> newMfsRoot = Inr [], chunkerFromString = (\<lambda>_ bytes. Inr [bytes]),
     dagLayout = (\<lambda>_ chunks. Inr (List.concat chunks)), commitBuffered = (\<lambda>_ _. None), dagAdd = (\<lambda>_ _. None),
     symlinkNode = Inr, cidOf = id, cidString = id, sizeOf = (\<lambda>n. Inr 0), linksOf = (\<lambda>_. []),
     dagGet = (\<lambda>_ c. Inr c), unwrapPosInfo = id, mfsMkdir = (\<lambda>p m. (None, m @ [p])), mfsPutNode = (\<lambda>p n m. (None, m @ [p])),
     mfsRootNode = (\<lambda>m. Inr (List.concat m)), mfsFlush = (\<lambda>_. None), mfsClose = (\<lambda>_. None), mfsFlushMemFree = (\<lambda>_. None),
     mfsTree = (\<lambda>m. DirTree None [] (Inr (List.concat m))), treeNode = (\<lambda>t. case t of DirTree _ _ nd \<Rightarrow> nd | _ \<Rightarrow> Inl ''file''),
     unpinResult = (\<lambda>_ _. None), pinFlushResult = (\<lambda>_. None),
     gcRequested = (\<lambda>tr. list_ex (\<lambda>ev. case ev of RootChanged _ \<Rightarrow> True | _ \<Rightarrow> False) tr \<and> Unlocked \<notin> set tr), syncResult = Some None \<rparr>"

definition demoConf :: "bool \<Rightarrow> adderConf" where
  "demoConf pin = \<lparr> acPin = pin, acTrickle = False, acRawLeaves = False, acSilent = True, acNoCopy = False,
     acProgress = False, acChunker = [], acOut = False \<rparr>"

definition demoDir :: fileNode where
  "demoDir = DirNode [(''a'', FileNode ''x''), (''b'', FileNode ''y'')] None"

lemma demo_paths [simp]:
  "pathJoin [[], ''a''] = ''a''" "pathJoin [[], ''b''] = ''b''" "pathDir ''a'' = ''.''" "pathDir ''b'' = ''.''"
  by code_simp+

lemma demo_run:
  "\<exists>a. AddAllAndPin demoAdd (demoConf True) demoDir NewAdder = (Inr ''ab'', a) \<and>
     trace a = [Locked, BlockAdded ''x'', RootChanged [''a''], BlockAdded ''a'', PinnedRec ''a'', PinsFlushed, Unlocked, Locked,
       BlockAdded ''y'', RootChanged [''a'', ''b''], BlockAdded ''ab'', PinnedRec ''ab'', PinsFlushed, Unlocked]"
  by (simp add: AddAllAndPin_def addAll_def demoDir_def NewAdder_def demoConf_def demoAdd_def andThen_def beforeFile_def
      maybePauseForGC_def getSt_def retM_def liftM_def errM_def happen_def addFile_def addReader_def addNode_def mfsRoot_def
      onRoot_def curRootNode_def PinRoot_def finalRoot_def isDir_def outputDagnode_def liveCacheSize_def Let_def)

theorem lock_is_given_back_only_when_pinned_witness:
  "\<exists>a mid. AddAllAndPin demoAdd (demoConf True) demoDir NewAdder = (Inr ''ab'', a) \<and>
     trace a = Locked # mid @ [Unlocked] \<and> guardRun Held mid = Some (PinnedSafe ''ab'') \<and> Unlocked \<in> set mid \<and>
     (\<exists>pre post built c. mid = pre @ Unlocked # post \<and>
        Locked # pre = built @ [BlockAdded c, PinnedRec c, PinsFlushed] \<and> builtRoot demoAdd built c)"
proof -
  obtain a where a: "AddAllAndPin demoAdd (demoConf True) demoDir NewAdder = (Inr ''ab'', a)"
    and tr: "trace a = [Locked, BlockAdded ''x'', RootChanged [''a''], BlockAdded ''a'', PinnedRec ''a'', PinsFlushed, Unlocked, Locked,
       BlockAdded ''y'', RootChanged [''a'', ''b''], BlockAdded ''ab'', PinnedRec ''ab'', PinsFlushed, Unlocked]"
    using demo_run by blast
  have "acPin (demoConf True)" by (simp add: demoConf_def)
  from lock_is_given_back_only_when_pinned [OF this a] obtain mid g
    where m: "trace a = Locked # mid @ [Unlocked]" "guardRun Held mid = Some g" "g = PinnedSafe (cidOf demoAdd ''ab'')"
      "\<forall>pre post. mid = pre @ Unlocked # post \<longrightarrow>
         (\<exists>built c. Locked # pre = built @ [BlockAdded c, PinnedRec c, PinsFlushed] \<and> builtRoot demoAdd built c)"
    by blast
  have un: "Unlocked \<in> set mid" using m(1) tr by (cases mid rule: rev_cases) auto
  then obtain pre post where pp: "mid = pre @ Unlocked # post" by (meson split_list)
  with m(4) obtain built c where "Locked # pre = built @ [BlockAdded c, PinnedRec c, PinsFlushed]" "builtRoot demoAdd built c"
    by blast
  moreover have "guardRun Held mid = Some (PinnedSafe ''ab'')" using m(2,3) by (simp add: demoAdd_def)
  ultimately show ?thesis using a m(1) un pp by blast
qed

theorem intermediate_roots_stay_pinned_witness:
  "\<exists>a. AddAllAndPin demoAdd (demoConf True) demoDir NewAdder = (Inr ''ab'', a) \<and> pinsLeft {} (trace a) = {''a'', ''ab''}"
proof -
  obtain a where a: "AddAllAndPin demoAdd (demoConf True) demoDir NewAdder = (Inr ''ab'', a)"
    and tr: "trace a = [Locked, BlockAdded ''x'', RootChanged [''a''], BlockAdded ''a'', PinnedRec ''a'', PinsFlushed, Unlocked, Locked,
       BlockAdded ''y'', RootChanged [''a'', ''b''], BlockAdded ''ab'', PinnedRec ''ab'', PinsFlushed, Unlocked]"
    using demo_run by blast
  have "acPin (demoConf True)" by (simp add: demoConf_def)
  from intermediate_roots_stay_pinned [OF this a, of "{}"] have "pinsLeft {} (trace a) = {c. PinnedRec c \<in> set (trace a)}" by simp
  also have "\<dots> = {''a'', ''ab''}" by (auto simp: tr)
  finally show ?thesis using a by blast
qed

definition demoSettings :: addSettings where
  "demoSettings = \<lparr> asChunker = [], asLayout = BalancedLayout, asPin = True, asOnlyHash = True, asNoCopy = False,
     asSilent = True, asProgress = False, asRawLeaves = False, asEvents = False \<rparr>"

theorem hashing_only_leaves_the_node_alone_witness:
  "list_all quietEv (trace (snd (unixfsAdd demoAdd demoAdd (Inr []) (\<lambda>_. None) False demoSettings demoDir))) \<and>
   unixfsAdd demoAdd demoAdd (Inr []) (\<lambda>_. Some ''offline'') False demoSettings demoDir =
   unixfsAdd demoAdd demoAdd (Inr []) (\<lambda>_. None) False demoSettings demoDir"
proof -
  have "asOnlyHash demoSettings" by (simp add: demoSettings_def)
  from hashing_only_leaves_the_node_alone [OF this prod.collapse [symmetric]] show ?thesis by (metis prod.collapse)
qed

section \<open>Progress reports\<close>

text \<open>Reports come at most once per 256 KiB and at the end, and the last one has the total.\<close>

lemma progress_reports_are_rare:
  assumes "0 \<le> b - l" "b - l < progressReaderIncrement"
  shows "int (length (progressReads path reads (b, l) :: 'c outEvent list)) * progressReaderIncrement \<le>
    b - l + int (sum_list (map fst reads)) + progressReaderIncrement * int (length (filter snd reads))"
  using assms
proof (induction reads arbitrary: b l)
  case (Cons r reads)
  obtain n eof where r: "r = (n, eof)" by (cases r)
  show ?case
  proof (cases "b + int n - l \<ge> progressReaderIncrement \<or> eof")
    case True
    have "int (length (progressReads path reads (b + int n, b + int n) :: 'c outEvent list)) * progressReaderIncrement \<le>
      int (sum_list (map fst reads)) + progressReaderIncrement * int (length (filter snd reads))"
      using Cons.IH [of "b + int n" "b + int n"] by (simp add: progressReaderIncrement_def)
    then show ?thesis using True Cons.prems by (auto simp: r Let_def algebra_simps)
  next
    case False
    with Cons.IH [of "b + int n" l] Cons.prems show ?thesis by (auto simp: r Let_def algebra_simps)
  qed
qed simp

lemma final_report_has_the_total:
  "progressReads path (reads @ [(n, True)]) (b, l) =
   progressReads path reads (b, l) @ [Progress path (b + int (sum_list (map fst reads)) + int n)]"
  by (induction reads arbitrary: b l) (auto simp: Let_def algebra_simps split: prod.splits)

end
