(* ===== verification/Keystore.thy ===== *)
theory Keystore
  imports ConfigCommands MfsFiles
begin

text \<open>
  \<^verbatim>\<open>core/coreapi/key.go\<close>, \<^verbatim>\<open>core/commands/keystore.go\<close>, \<^verbatim>\<open>CreateIdentity\<close> of
  \<^verbatim>\<open>config/init.go\<close> and \<^verbatim>\<open>DecodePrivateKey\<close> of \<^verbatim>\<open>config/identity.go\<close>: the named keys of a
  node, and the rotation of its identity; and the escaping of names in output,
  \<^verbatim>\<open>EscNonPrint\<close> of \<^verbatim>\<open>core/commands/cmdenv/env.go\<close>.

  \<^item> The keystore is a third-party package: \<open>ksOps\<close> gives its operations on states \<open>'s\<close>.
  \<^item> Private keys are a type \<open>'k\<close>; generating, encoding and decoding them is
    cryptography: \<open>keyOps\<close>.  Texts of errors that only wrap another are that other.
\<close>

section \<open>The keystore and the keys\<close>

record ('k, 's) ksOps =
  ksHas :: "string \<Rightarrow> 's \<Rightarrow> string + bool"
  ksGet :: "string \<Rightarrow> 's \<Rightarrow> string + 'k"
  ksPut :: "string \<Rightarrow> 'k \<Rightarrow> 's \<Rightarrow> string option \<times> 's"
  ksDelete :: "string \<Rightarrow> 's \<Rightarrow> string option \<times> 's"
  ksList :: "'s \<Rightarrow> string + string list"

datatype keyType = RsaKey | Ed25519Key | OtherKey string

record 'k keyOps =
  generateRSA :: "int \<Rightarrow> string + 'k"
  generateEd25519 :: "string + 'k"
  IDFromKey :: "'k \<Rightarrow> string + string"
  MarshalPrivateKey :: "'k \<Rightarrow> string + string"
  UnmarshalPrivateKey :: "string \<Rightarrow> string + 'k"
  toPKCS8 :: "'k \<Rightarrow> string + string"
  fromPKCS8 :: "string \<Rightarrow> string + 'k"
  pemEncode :: "string \<Rightarrow> string \<Rightarrow> string"
  pemDecode :: "string \<Rightarrow> (string \<times> string) option"
  keyTypeOf :: "'k \<Rightarrow> keyType"
  base64Encode :: "string \<Rightarrow> string"
  base64Decode :: "string \<Rightarrow> string + string"
  DefaultRSALen :: int

text \<open>
  \<open>toPKCS8\<close> and \<open>fromPKCS8\<close> include the conversion between the key types of libp2p and of
  the standard library; \<open>pemEncode\<close> takes the type of the block and its bytes.
\<close>

datatype key_err =
    ReservedName | KeyExists string | NoSuchKey string | UnknownKeyType string | SizeNotApplicable
  | KeyFailed string | IdentityNotLoaded | UnknownFormat string | NoPemBlock | WrongPemType string
  | UnexpectedPem | KeyTypeNotAllowed | BadRepoVersion int | NoBackupName | RepoFailed fs_err | NoFileArg string

abbreviation liftK :: "string + 'a \<Rightarrow> key_err + 'a" where
  "liftK r \<equiv> map_sum KeyFailed id r"

record apiKey =
  keyName :: string
  keyID :: string

section \<open>The key API\<close>

text \<open>A size of -1 is the default of the option.\<close>

definition generateKey :: "'k keyOps \<Rightarrow> string \<Rightarrow> int \<Rightarrow> key_err + 'k" where
  "generateKey ko algorithm siz =
     (if algorithm = ''rsa'' then liftK (generateRSA ko (if siz = -1 then DefaultRSALen ko else siz))
      else if algorithm = ''ed25519'' then liftK (generateEd25519 ko)
      else Inl (UnknownKeyType algorithm))"

definition Generate ::
  "('k, 's) ksOps \<Rightarrow> 'k keyOps \<Rightarrow> string \<Rightarrow> string \<Rightarrow> int \<Rightarrow> 's \<Rightarrow> (key_err + apiKey) \<times> 's" where
  "Generate ks ko name algorithm siz s =
     (if name = ''self'' then (Inl ReservedName, s)
      else case ksGet ks name s of
        Inr _ \<Rightarrow> (Inl (KeyExists name), s)
      | Inl _ \<Rightarrow>
          (case generateKey ko algorithm siz of
             Inl err \<Rightarrow> (Inl err, s)
           | Inr sk \<Rightarrow>
               (case ksPut ks name sk s of
                  (Some err, s1) \<Rightarrow> (Inl (KeyFailed err), s1)
                | (None, s1) \<Rightarrow>
                    (bindS (liftK (IDFromKey ko sk)) (\<lambda>pid. Inr \<lparr> keyName = name, keyID = pid \<rparr>), s1))))"

fun listKeys :: "('k, 's) ksOps \<Rightarrow> 'k keyOps \<Rightarrow> string list \<Rightarrow> 's \<Rightarrow> key_err + apiKey list" where
  "listKeys ks ko [] s = Inr []"
| "listKeys ks ko (k # rest) s =
     bindS (liftK (ksGet ks k s)) (\<lambda>privKey.
     bindS (liftK (IDFromKey ko privKey)) (\<lambda>pid.
     bindS (listKeys ks ko rest s) (\<lambda>out. Inr (\<lparr> keyName = k, keyID = pid \<rparr> # out))))"

definition List :: "('k, 's) ksOps \<Rightarrow> 'k keyOps \<Rightarrow> string \<Rightarrow> 's \<Rightarrow> key_err + apiKey list" where
  "List ks ko identity s =
     bindS (liftK (ksList ks s)) (\<lambda>keys.
     bindS (listKeys ks ko (sort keys) s) (\<lambda>out. Inr (\<lparr> keyName = ''self'', keyID = identity \<rparr> # out)))"

text \<open>What forcing a renaming does to a key that has the new name.\<close>

definition clearTarget ::
  "('k, 's) ksOps \<Rightarrow> string \<Rightarrow> bool \<Rightarrow> 's \<Rightarrow> (key_err + bool) \<times> 's" where
  "clearTarget ks newName force s =
     (if force then
        (case ksHas ks newName s of
           Inl err \<Rightarrow> (Inl (KeyFailed err), s)
         | Inr False \<Rightarrow> (Inr False, s)
         | Inr True \<Rightarrow>
             (case ksDelete ks newName s of
                (Some err, s1) \<Rightarrow> (Inl (KeyFailed err), s1)
              | (None, s1) \<Rightarrow> (Inr True, s1)))
      else (Inr False, s))"

text \<open>
  The result of a renaming is a key, whether another one was overwritten, and the error of
  deleting the old name, which is returned beside the key.
\<close>

definition Rename ::
  "('k, 's) ksOps \<Rightarrow> 'k keyOps \<Rightarrow> string \<Rightarrow> string \<Rightarrow> bool \<Rightarrow> 's \<Rightarrow>
   (key_err + (apiKey \<times> bool \<times> string option)) \<times> 's" where
  "Rename ks ko oldName newName force s =
     (if oldName = ''self'' then (Inl ReservedName, s)
      else if newName = ''self'' then (Inl ReservedName, s)
      else case ksGet ks oldName s of
        Inl _ \<Rightarrow> (Inl (NoSuchKey oldName), s)
      | Inr oldKey \<Rightarrow>
          (case IDFromKey ko oldKey of
             Inl err \<Rightarrow> (Inl (KeyFailed err), s)
           | Inr pid \<Rightarrow>
               if newName = oldName then (Inr (\<lparr> keyName = oldName, keyID = pid \<rparr>, False, None), s)
               else
                 (case clearTarget ks newName force s of
                    (Inl err, s1) \<Rightarrow> (Inl err, s1)
                  | (Inr overwrite, s1) \<Rightarrow>
                      (case ksPut ks newName oldKey s1 of
                         (Some err, s2) \<Rightarrow> (Inl (KeyFailed err), s2)
                       | (None, s2) \<Rightarrow>
                           (case ksDelete ks oldName s2 of
                              (err, s3) \<Rightarrow> (Inr (\<lparr> keyName = newName, keyID = pid \<rparr>, overwrite, err), s3))))))"

definition Remove ::
  "('k, 's) ksOps \<Rightarrow> 'k keyOps \<Rightarrow> string \<Rightarrow> 's \<Rightarrow> (key_err + apiKey) \<times> 's" where
  "Remove ks ko name s =
     (if name = ''self'' then (Inl ReservedName, s)
      else case ksGet ks name s of
        Inl _ \<Rightarrow> (Inl (NoSuchKey name), s)
      | Inr removed \<Rightarrow>
          (case IDFromKey ko removed of
             Inl err \<Rightarrow> (Inl (KeyFailed err), s)
           | Inr pid \<Rightarrow>
               (case ksDelete ks name s of
                  (Some err, s1) \<Rightarrow> (Inl (KeyFailed err), s1)
                | (None, s1) \<Rightarrow> (Inr \<lparr> keyName = [], keyID = pid \<rparr>, s1))))"

definition Self :: "string \<Rightarrow> key_err + apiKey" where
  "Self identity = (if identity = [] then Inl IdentityNotLoaded else Inr \<lparr> keyName = ''self'', keyID = identity \<rparr>)"

section \<open>The commands\<close>

text \<open>\<open>fmt\<close> formats a peer id in the base the request asks for.\<close>

record KeyOutput =
  koName :: string
  koId :: string

record KeyRenameOutput =
  kroWas :: string
  kroNow :: string
  kroId :: string
  kroOverwrite :: bool

definition keyGenCmd ::
  "('k, 's) ksOps \<Rightarrow> 'k keyOps \<Rightarrow> (string \<Rightarrow> string) \<Rightarrow> string \<Rightarrow> int option \<Rightarrow> string \<Rightarrow> 's \<Rightarrow> (key_err + KeyOutput) \<times> 's" where
  "keyGenCmd ks ko fmt ktype siz name s =
     (if name = ''self'' then (Inl ReservedName, s)
      else case Generate ks ko name ktype (case siz of None \<Rightarrow> -1 | Some n \<Rightarrow> n) s of
        (res, s1) \<Rightarrow> (map_sum id (\<lambda>key. \<lparr> koName = name, koId = fmt (keyID key) \<rparr>) res, s1))"

definition keyListCmd ::
  "('k, 's) ksOps \<Rightarrow> 'k keyOps \<Rightarrow> (string \<Rightarrow> string) \<Rightarrow> string \<Rightarrow> 's \<Rightarrow> key_err + KeyOutput list" where
  "keyListCmd ks ko fmt identity s =
     map_sum id (map (\<lambda>key. \<lparr> koName = keyName key, koId = fmt (keyID key) \<rparr>)) (List ks ko identity s)"

definition keyRenameCmd ::
  "('k, 's) ksOps \<Rightarrow> 'k keyOps \<Rightarrow> (string \<Rightarrow> string) \<Rightarrow> bool \<Rightarrow> string \<Rightarrow> string \<Rightarrow> 's \<Rightarrow> (key_err + KeyRenameOutput) \<times> 's" where
  "keyRenameCmd ks ko fmt force name newName s =
     (case Rename ks ko name newName force s of
        (Inl err, s1) \<Rightarrow> (Inl err, s1)
      | (Inr (key, overwritten, Some err), s1) \<Rightarrow> (Inl (KeyFailed err), s1)
      | (Inr (key, overwritten, None), s1) \<Rightarrow>
          (Inr \<lparr> kroWas = name, kroNow = newName, kroId = fmt (keyID key), kroOverwrite = overwritten \<rparr>, s1))"

fun keyRmCmd ::
  "('k, 's) ksOps \<Rightarrow> 'k keyOps \<Rightarrow> (string \<Rightarrow> string) \<Rightarrow> string list \<Rightarrow> 's \<Rightarrow> (key_err + KeyOutput list) \<times> 's" where
  "keyRmCmd ks ko fmt [] s = (Inr [], s)"
| "keyRmCmd ks ko fmt (name # names) s =
     (case Remove ks ko name s of
        (Inl err, s1) \<Rightarrow> (Inl err, s1)
      | (Inr key, s1) \<Rightarrow>
          (case keyRmCmd ks ko fmt names s1 of
             (res, s2) \<Rightarrow> (map_sum id (\<lambda>out. \<lparr> koName = name, koId = fmt (keyID key) \<rparr> # out) res, s2)))"

section \<open>Export and import\<close>

definition pemFormat :: string where "pemFormat = ''pem-pkcs8-cleartext''"
definition libp2pFormat :: string where "libp2pFormat = ''libp2p-protobuf-cleartext''"

text \<open>\<open>version\<close> is \<^verbatim>\<open>migrations.RepoVersion\<close>.\<close>

definition keyExportCmd ::
  "('k, 's) ksOps \<Rightarrow> 'k keyOps \<Rightarrow> string + int \<Rightarrow> string \<Rightarrow> string \<Rightarrow> 's \<Rightarrow> key_err + string" where
  "keyExportCmd ks ko version format name s =
     (if name = ''self'' then Inl ReservedName
      else bindS (liftK version) (\<lambda>ver.
        if ver \<noteq> theRepoVersion then Inl (BadRepoVersion ver)
        else case ksGet ks name s of
          Inl _ \<Rightarrow> Inl (NoSuchKey name)
        | Inr sk \<Rightarrow>
            if format = pemFormat then liftK (toPKCS8 ko sk)
            else if format = libp2pFormat then liftK (MarshalPrivateKey ko sk)
            else Inl (UnknownFormat format)))"

text \<open>What the command line does with the exported key: the name of the file and its content.\<close>

definition exportPath :: "string \<Rightarrow> string \<Rightarrow> string \<Rightarrow> string" where
  "exportPath outOpt format name =
     (if outOpt = [] then
        (let ext = (if format = pemFormat then ''pem'' else if format = libp2pFormat then ''key'' else []);
             trimmed = stripSlashes (name @ ''.'' @ ext)
         in pathClean (snd (pathSplit trimmed)))
      else outOpt)"

definition exportContent :: "'k keyOps \<Rightarrow> string \<Rightarrow> string \<Rightarrow> string" where
  "exportContent ko format formattedKey =
     (if format = pemFormat then pemEncode ko ''PRIVATE KEY'' formattedKey
      else if format = libp2pFormat then formattedKey else [])"

definition decodeKey :: "'k keyOps \<Rightarrow> string \<Rightarrow> string \<Rightarrow> key_err + 'k" where
  "decodeKey ko format bytes =
     (if format = pemFormat then
        (case pemDecode ko bytes of
           None \<Rightarrow> Inl NoPemBlock
         | Some (t, block) \<Rightarrow>
             if t \<noteq> ''PRIVATE KEY'' then Inl (WrongPemType t) else liftK (fromPKCS8 ko block))
      else if format = libp2pFormat then
        (case UnmarshalPrivateKey ko bytes of
           Inr sk \<Rightarrow> Inr sk
         | Inl err \<Rightarrow> if pemDecode ko bytes \<noteq> None then Inl UnexpectedPem else Inl (KeyFailed err))
      else Inl (UnknownFormat format))"

definition keyImportCmd ::
  "('k, 's) ksOps \<Rightarrow> 'k keyOps \<Rightarrow> (string \<Rightarrow> string) \<Rightarrow> bool \<Rightarrow> string \<Rightarrow> fileArg \<Rightarrow> string \<Rightarrow> 's \<Rightarrow>
   (key_err + KeyOutput) \<times> 's" where
  "keyImportCmd ks ko fmt allowAny format input name s =
     (if name = ''self'' then (Inl ReservedName, s)
      else case bindS (map_sum NoFileArg id (GetFileArg input)) (decodeKey ko format) of
        Inl err \<Rightarrow> (Inl err, s)
      | Inr sk \<Rightarrow>
          if \<not> allowAny \<and> keyTypeOf ko sk \<notin> {RsaKey, Ed25519Key} then (Inl KeyTypeNotAllowed, s)
          else case ksGet ks name s of
            Inr _ \<Rightarrow> (Inl (KeyExists name), s)
          | Inl _ \<Rightarrow>
              (case ksPut ks name sk s of
                 (Some err, s1) \<Rightarrow> (Inl (KeyFailed err), s1)
               | (None, s1) \<Rightarrow>
                   (bindS (liftK (IDFromKey ko sk)) (\<lambda>pid. Inr \<lparr> koName = name, koId = fmt pid \<rparr>), s1)))"

section \<open>Rotating the identity\<close>

definition CreateIdentity :: "'k keyOps \<Rightarrow> string \<Rightarrow> int \<Rightarrow> key_err + Identity" where
  "CreateIdentity ko algorithm siz =
     bindS (if algorithm = ''rsa'' then liftK (generateRSA ko (if siz = -1 then DefaultRSALen ko else siz))
            else if algorithm = ''ed25519'' then
              (if siz \<noteq> -1 then Inl SizeNotApplicable else liftK (generateEd25519 ko))
            else Inl (UnknownKeyType algorithm)) (\<lambda>sk.
     bindS (liftK (MarshalPrivateKey ko sk)) (\<lambda>skbytes.
     bindS (liftK (IDFromKey ko sk)) (\<lambda>pid.
       Inr \<lparr> PeerID = pid, PrivKey = base64Encode ko skbytes \<rparr>)))"

definition DecodePrivateKey :: "'k keyOps \<Rightarrow> Identity \<Rightarrow> key_err + 'k" where
  "DecodePrivateKey ko i = bindS (liftK (base64Decode ko (PrivKey i))) (\<lambda>pkb. liftK (UnmarshalPrivateKey ko pkb))"

definition doRotate ::
  "fsEnv \<Rightarrow> 'o Config cfgOps \<Rightarrow> ('k, 's) ksOps \<Rightarrow> 'k keyOps \<Rightarrow> string \<Rightarrow> string \<Rightarrow> int option \<Rightarrow>
   'o Config FSRepo \<Rightarrow> disk \<Rightarrow> 's \<Rightarrow> key_err option \<times> ('o Config FSRepo \<times> disk) \<times> 's" where
  "doRotate e ops ks ko oldKey algorithm nBits r d s =
     (case fsConfig r of
        Inl err \<Rightarrow> (Some (RepoFailed err), (r, d), s)
      | Inr None \<Rightarrow> (Some (RepoFailed RepoClosed), (r, d), s)
      | Inr (Some cfg) \<Rightarrow>
          (case CreateIdentity ko algorithm (case nBits of None \<Rightarrow> -1 | Some n \<Rightarrow> n) of
             Inl err \<Rightarrow> (Some err, (r, d), s)
           | Inr identity \<Rightarrow>
               (case DecodePrivateKey ko (cIdentity cfg) of
                  Inl err \<Rightarrow> (Some err, (r, d), s)
                | Inr oldPrivKey \<Rightarrow>
                    (case ksPut ks oldKey oldPrivKey s of
                       (Some err, s1) \<Rightarrow> (Some (KeyFailed err), (r, d), s1)
                     | (None, s1) \<Rightarrow>
                         (case saveConfig e ops (cfg\<lparr> cIdentity := identity \<rparr>) r d of
                            (Some err, r', d') \<Rightarrow> (Some (RepoFailed err), (r', d'), s1)
                          | (None, r', d') \<Rightarrow> (None, (r', d'), s1))))))"

definition keyRotateCmd ::
  "fsEnv \<Rightarrow> 'o Config cfgOps \<Rightarrow> ('k, 's) ksOps \<Rightarrow> 'k keyOps \<Rightarrow> string option \<Rightarrow> string \<Rightarrow> int option \<Rightarrow>
   'o Config FSRepo \<Rightarrow> disk \<Rightarrow> 's \<Rightarrow> key_err option \<times> ('o Config FSRepo \<times> disk) \<times> 's" where
  "keyRotateCmd e ops ks ko oldKeyOpt algorithm nBits r d s =
     (case oldKeyOpt of
        None \<Rightarrow> (Some NoBackupName, (r, d), s)
      | Some oldKey \<Rightarrow>
          if oldKey = ''self'' then (Some ReservedName, (r, d), s)
          else doRotate e ops ks ko oldKey algorithm nBits r d s)"

section \<open>Escaping of names in output\<close>

text \<open>
  A string is the list of its code points.  For code points outside ASCII,
  \<^verbatim>\<open>strconv.IsPrint\<close> is the parameter \<open>printable\<close>.
\<close>

type_synonym runes = "nat list"

definition hexDigit :: "nat \<Rightarrow> nat" where
  "hexDigit n = (if n < 10 then 48 + n else 87 + n)"

fun hexDigits :: "nat \<Rightarrow> nat \<Rightarrow> nat list" where
  "hexDigits 0 n = []"
| "hexDigits (Suc k) n = hexDigits k (n div 16) @ [hexDigit (n mod 16)]"

definition IsPrint :: "(nat \<Rightarrow> bool) \<Rightarrow> nat \<Rightarrow> bool" where
  "IsPrint printable r \<longleftrightarrow> (if r < 128 then 32 \<le> r \<and> r < 127 else printable r)"

text \<open>\<open>quoteRune\<close> is one code point of \<^verbatim>\<open>strconv.Quote\<close>: 92 is the backslash, 34 the quote.\<close>

definition quoteRune :: "(nat \<Rightarrow> bool) \<Rightarrow> nat \<Rightarrow> runes" where
  "quoteRune printable r =
     (if r = 34 \<or> r = 92 then [92, r]
      else if IsPrint printable r then [r]
      else if r = 7 then [92, 97] else if r = 8 then [92, 98] else if r = 12 then [92, 102]
      else if r = 10 then [92, 110] else if r = 13 then [92, 114] else if r = 9 then [92, 116]
      else if r = 11 then [92, 118]
      else if r < 32 \<or> r = 127 then [92, 120] @ hexDigits 2 r
      else if r < 65536 then [92, 117] @ hexDigits 4 r
      else [92, 85] @ hexDigits 8 r)"

definition needEscape :: "(nat \<Rightarrow> bool) \<Rightarrow> runes \<Rightarrow> bool" where
  "needEscape printable s \<longleftrightarrow> 92 \<in> set s \<or> (\<exists>r \<in> set s. \<not> IsPrint printable r)"

fun unescapeQuotes :: "runes \<Rightarrow> runes" where
  "unescapeQuotes (a # b # s) =
     (if a = 92 \<and> b = 34 then 34 # unescapeQuotes s else a # unescapeQuotes (b # s))"
| "unescapeQuotes s = s"

definition EscNonPrint :: "(nat \<Rightarrow> bool) \<Rightarrow> runes \<Rightarrow> runes" where
  "EscNonPrint printable s =
     (if \<not> needEscape printable s then s
      else unescapeQuotes (concat (map (quoteRune printable) s)))"

end
