(* ===== verification/FSRepoProps.thy ===== *)
theory FSRepoProps
  imports FSRepo
begin

text \<open>
  What the repository promises: the private key survives every change of a configuration
  key, a repository is opened only in a consistent state and under its lock, an initialised
  repository can be opened, address files are replaced atomically; and the places where
  the code does not keep what it promises when a write fails.
\<close>

lemma map_sum_eq_Inr: "map_sum f id r = Inr a \<longleftrightarrow> r = Inr a"
  by (cases r) simp_all

section \<open>Changing one configuration key\<close>

lemma SetConfigKey_cases:
  assumes "SetConfigKey e ops key v r d = (err, r', d')"
  obtains (refused) "err \<noteq> None" "r' = r" "d' = d"
  | (written) m m1 m2 pk conf werr where
      "ReadConfigFile e d decodeMap (fr_configFilePath r) = Inr m" "MapGetKV m PrivKeySelector = Inr pk"
      "MapSetKV m key v = (None, m1)" "MapSetKV m1 PrivKeySelector pk = (None, m2)"
      "decodeConfig ops (JObj m2) = Inr conf" "r' = r\<lparr> fr_config := Some conf \<rparr>"
      "WriteConfigFile e d (fr_configFilePath r) (Inr m2) = (werr, d')" "err = map_option IOErr werr"
proof (cases "fr_closed r")
  case True
  with assms refused show thesis by (auto simp: SetConfigKey_def)
next
  case open': False
  show thesis
  proof (cases "ReadConfigFile e d decodeMap (fr_configFilePath r)")
    case (Inl x)
    with assms open' refused show thesis by (auto simp: SetConfigKey_def)
  next
    case m: (Inr m)
    show thesis
    proof (cases "MapGetKV m PrivKeySelector")
      case (Inl x)
      with assms open' m refused show thesis by (auto simp: SetConfigKey_def)
    next
      case pk: (Inr pk)
      obtain e1 m1 where m1: "MapSetKV m key v = (e1, m1)" by force
      obtain e2 m2 where m2: "MapSetKV m1 PrivKeySelector pk = (e2, m2)" by force
      obtain we d1 where w: "WriteConfigFile e d (fr_configFilePath r) (Inr m2) = (we, d1)" by force
      have eq: "SetConfigKey e ops key v r d =
          (case e1 of Some x \<Rightarrow> (Some (KvErr x), r, d)
           | None \<Rightarrow> (case e2 of Some x \<Rightarrow> (Some (KvErr x), r, d)
             | None \<Rightarrow> (case decodeConfig ops (JObj m2) of Inl x \<Rightarrow> (Some (IOErr x), r, d)
               | Inr conf \<Rightarrow> (map_option IOErr we, r\<lparr> fr_config := Some conf \<rparr>, d1))))"
        unfolding SetConfigKey_def using open' m pk m1 m2 w by (simp cong: option.case_cong sum.case_cong)
      show thesis
      proof (cases "e1 = None \<and> e2 = None \<and> isOk (decodeConfig ops (JObj m2))")
        case False
        then have "err \<noteq> None \<and> r' = r \<and> d' = d"
          using assms unfolding eq by (auto simp: isOk_def split: option.splits sum.splits)
        then show thesis using refused by blast
      next
        case True
        then obtain conf where conf: "decodeConfig ops (JObj m2) = Inr conf" by (auto simp: isOk_iff)
        with True assms have res: "err = map_option IOErr we" "r' = r\<lparr> fr_config := Some conf \<rparr>" "d' = d1"
          unfolding eq by simp_all
        show thesis
          using written [OF m pk _ _ conf res(2) _ res(1)] m1 m2 w True res(3) by blast
      qed
    qed
  qed
qed

lemma WriteConfigFile_failed:
  "WriteConfigFile e d p (Inr m) = (Some err, d') \<Longrightarrow> cutWrite e p = None \<Longrightarrow> d' = d"
  by (auto simp: WriteConfigFile_def split: if_splits option.splits)

text \<open>
  C9. \<^verbatim>\<open>SetConfigKey\<close> can change every key but the private key of the node: when it
  reports success the file has the private key it had, whatever key and value were set; it has the
  value under the key, unless the two keys overlap, provided the file that was written could
  replace the old one - if that fails, success is reported all the same and the file is as it was.
  When an error is reported the file is as it was, unless the write itself was cut short. No
  other file is touched.
\<close>

theorem set_config_key_keeps_private_key:
  assumes "SetConfigKey e ops key v r d = (err, r', d')"
    and "d (fr_configFilePath r) = Some (JsonFile (JObj m))"
  shows "(err = None \<longrightarrow> (\<exists>m'. d' (fr_configFilePath r) = Some (JsonFile (JObj m')) \<and>
            MapGetKV m' PrivKeySelector = MapGetKV m PrivKeySelector \<and>
            (failRename e (fr_configFilePath r) \<longrightarrow> m' = m) \<and>
            (\<not> failRename e (fr_configFilePath r) \<longrightarrow> apart (splitc CHR ''.'' key) (splitc CHR ''.'' PrivKeySelector) \<longrightarrow>
              MapGetKV m' key = Inr v))) \<and>
         (err \<noteq> None \<longrightarrow> cutWrite e (fr_configFilePath r) = None \<longrightarrow> d' = d) \<and>
         (\<forall>q. q \<noteq> fr_configFilePath r \<longrightarrow> d' q = d q)"
  using assms(1)
proof (cases rule: SetConfigKey_cases)
  case (written m0 m1 m2 pk conf werr)
  have m0: "m0 = m" using written(1) assms(2)
    by (auto simp: ReadConfigFile_def osReadFile_def split: if_splits)
  have pk: "MapGetKV m2 PrivKeySelector = MapGetKV m PrivKeySelector"
    using kv.guarded_write [OF written(2,3,4)] m0 by simp
  have key: "MapGetKV m2 key = Inr v" if "apart (splitc CHR ''.'' key) (splitc CHR ''.'' PrivKeySelector)"
    using MapGetKV_apart [OF written(4)] that kv.get_set [OF written(3)] by (simp add: apart_sym)
  show ?thesis
  proof (cases err)
    case None
    with WriteConfigFile_ok [of e d "fr_configFilePath r" "Inr m2" d'] written(7,8)
    have "d' = (if failRename e (fr_configFilePath r) then d else d(fr_configFilePath r \<mapsto> JsonFile (JObj m2)))" by auto
    with None pk key assms(2) show ?thesis by (cases "failRename e (fr_configFilePath r)") auto
  next
    case (Some y)
    with WriteConfigFile_failed written(7,8) WriteConfigFile_other [OF written(7)] show ?thesis by auto
  qed
qed auto

definition okFs :: fsEnv where
  "okFs = \<lparr> env_IPFS_PATH = [], homedir_Expand = Inr, homedir_Dir = Inr ''/home/u'',
     failStat = (\<lambda>_. False), failRead = (\<lambda>_. False), failMkdir = (\<lambda>_. False), failCreate = (\<lambda>_. False),
     failClose = (\<lambda>_. False), failRename = (\<lambda>_. False), failRemove = (\<lambda>_. False), cutWrite = (\<lambda>_. None) \<rparr>"

definition jsonCfg :: "jmap cfgOps" where
  "jsonCfg = \<lparr> decodeConfig = decodeMap, ToMap = Inr, cfgDatastoreType = (\<lambda>_. []), cfgDatastorePath = (\<lambda>_. []),
     cfgDatastoreSpec = (\<lambda>c. case c ''Spec'' of Some (JObj m) \<Rightarrow> Some m | _ \<Rightarrow> None),
     cfgFilestoreEnabled = (\<lambda>_. False), cfgUrlstoreEnabled = (\<lambda>_. False) \<rparr>"

definition repoAt :: "string \<Rightarrow> jmap FSRepo" where
  "repoAt p = \<lparr> fr_closed = False, fr_path = p, fr_configFilePath = p @ ''/config'', fr_config = None,
     fr_ds = None, fr_keystore = None, fr_filemgr = None \<rparr>"

definition demoConf :: jmap where
  "demoConf = [''Identity'' \<mapsto> JObj [''PrivKey'' \<mapsto> JStr ''CAESQ'']]"

theorem set_config_key_keeps_private_key_witness:
  "\<exists>m'. snd (snd (SetConfigKey okFs jsonCfg ''Identity'' (JObj Map.empty) (repoAt ''/r'')
            [''/r/config'' \<mapsto> JsonFile (JObj demoConf)])) ''/r/config'' = Some (JsonFile (JObj m')) \<and>
        MapGetKV m' PrivKeySelector = Inr (JStr ''CAESQ'')"
proof -
  let ?d = "[''/r/config'' \<mapsto> JsonFile (JObj demoConf)]"
  let ?res = "SetConfigKey okFs jsonCfg ''Identity'' (JObj Map.empty) (repoAt ''/r'') ?d"
  have pk: "MapGetKV demoConf PrivKeySelector = Inr (JStr ''CAESQ'')"
    by (simp add: MapGetKV_def demoConf_def PrivKeySelector_def)
  have ok: "fst ?res = None"
    by (simp add: SetConfigKey_def okFs_def jsonCfg_def repoAt_def ReadConfigFile_def osReadFile_def
        MapGetKV_def MapSetKV_def demoConf_def PrivKeySelector_def WriteConfigFile_def)
  have f: "fr_configFilePath (repoAt ''/r'') = ''/r/config''" "\<not> failRename okFs p" for p
    by (simp_all add: repoAt_def okFs_def)
  have res: "?res = (None, fst (snd ?res), snd (snd ?res))" using ok by (metis prod.collapse)
  from set_config_key_keeps_private_key [OF res, of demoConf] show ?thesis
    unfolding f pk using f(2) by auto
qed

text \<open>
  When the write of the changed configuration fails half-way, the file is not left as it
  was: the deferred close still replaces it by what was written, and the configuration in
  memory is the new one although the error is reported.
\<close>

theorem failed_write_replaces_config:
  assumes "\<not> fr_closed r" and "d (fr_configFilePath r) = Some (JsonFile (JObj m))"
    and "\<not> failRead e (fr_configFilePath r)" and "\<not> failRename e (fr_configFilePath r)"
    and "\<not> failMkdir e (pathDir (fr_configFilePath r))" and "\<not> failCreate e (fr_configFilePath r)"
    and "cutWrite e (fr_configFilePath r) = Some part"
    and "MapGetKV m PrivKeySelector = Inr pk" and "MapSetKV m key v = (None, m1)"
    and "MapSetKV m1 PrivKeySelector pk = (None, m2)" and "decodeConfig ops (JObj m2) = Inr conf"
  shows "SetConfigKey e ops key v r d =
    (Some (IOErr (IOError (fr_configFilePath r))), r\<lparr> fr_config := Some conf \<rparr>, d(fr_configFilePath r \<mapsto> part))"
  using assms by (simp add: SetConfigKey_def ReadConfigFile_def osReadFile_def WriteConfigFile_def atomicCommit_def)

theorem failed_write_replaces_config_witness:
  "snd (snd (SetConfigKey (okFs\<lparr> cutWrite := (\<lambda>_. Some (TextFile ''{'')) \<rparr>) jsonCfg ''API'' JNull (repoAt ''/r'')
      [''/r/config'' \<mapsto> JsonFile (JObj demoConf)])) ''/r/config'' = Some (TextFile ''{'')"
proof -
  let ?e = "okFs\<lparr> cutWrite := (\<lambda>_. Some (TextFile ''{'')) \<rparr>"
  have "SetConfigKey ?e jsonCfg ''API'' JNull (repoAt ''/r'') [''/r/config'' \<mapsto> JsonFile (JObj demoConf)] =
    (Some (IOErr (IOError (fr_configFilePath (repoAt ''/r'')))),
     (repoAt ''/r'')\<lparr> fr_config := Some (demoConf(''API'' \<mapsto> JNull)) \<rparr>,
     [''/r/config'' \<mapsto> JsonFile (JObj demoConf)](fr_configFilePath (repoAt ''/r'') \<mapsto> TextFile ''{''))"
    by (rule failed_write_replaces_config [where m = demoConf and pk = "JStr ''CAESQ''"
          and ?m1.0 = "demoConf(''API'' \<mapsto> JNull)" and ?m2.0 = "demoConf(''API'' \<mapsto> JNull)"])
      (auto simp: okFs_def repoAt_def jsonCfg_def demoConf_def MapGetKV_def MapSetKV_def PrivKeySelector_def
        fun_eq_iff)
  then show ?thesis by (simp add: repoAt_def)
qed

section \<open>Setting the whole configuration\<close>

text \<open>
  \<^verbatim>\<open>SetConfig\<close> does not clobber keys the user added to the file: a value under a
  key that the new configuration does not have is still returned by \<^verbatim>\<open>GetConfigKey\<close>,
  and every value (not itself a map) of the new configuration is returned under its key.
\<close>

theorem set_config_keeps_user_keys:
  assumes "SetConfig e ops updated r d = (None, r', d')" and "ToMap ops updated = Inr m"
    and "\<not> failRename e (fr_configFilePath r)"
    and "GetConfigKey e key r d = Inr y" and "MapGetKV m key = Inl (KeyNotFound t)"
  shows "GetConfigKey e key r' d' = Inr y \<and> fr_config r' = Some updated \<and>
    (\<forall>key2 z. MapGetKV m key2 = Inr z \<longrightarrow> (\<forall>o'. z \<noteq> JObj o') \<longrightarrow> GetConfigKey e key2 r' d' = Inr z)"
proof -
  from assms(4) obtain mc where mc: "ReadConfigFile e d decodeMap (fr_configFilePath r) = Inr mc"
    "MapGetKV mc key = Inr y" "\<not> fr_closed r"
    by (auto simp: GetConfigKey_def bindS_eq_Inr map_sum_eq_Inr split: if_splits)
  then obtain d1 where w: "WriteConfigFile e d (fr_configFilePath r) (Inr (MapMergeDeep mc m)) = (None, d1)"
    "r' = r\<lparr> fr_config := Some updated \<rparr>" "d' = d1"
    using assms(1,2) by (auto simp: SetConfig_def split: prod.splits option.splits)
  with WriteConfigFile_ok [OF w(1)] assms(3)
  have d': "d' = d(fr_configFilePath r \<mapsto> JsonFile (JObj (MapMergeDeep mc m)))" by auto
  have nr: "\<not> failRead e (fr_configFilePath r)"
    using mc(1) by (auto simp: ReadConfigFile_def osReadFile_def split: option.splits if_splits io_err.splits)
  have get: "GetConfigKey e k r' d' = map_sum KvErr id (MapGetKV (MapMergeDeep mc m) k)" for k
    using mc(3) w(2) nr by (simp add: GetConfigKey_def d' ReadConfigFile_def osReadFile_def)
  show ?thesis
    using get w(2) MapMergeDeep_keeps_left [OF mc(2) assms(5)] MapMergeDeep_keeps_right [of m] by simp
qed

theorem set_config_keeps_user_keys_witness:
  "GetConfigKey okFs ''Mine'' (fst (snd (SetConfig okFs jsonCfg demoConf (repoAt ''/r'')
       [''/r/config'' \<mapsto> JsonFile (JObj [''Mine'' \<mapsto> JInt 3])])))
     (snd (snd (SetConfig okFs jsonCfg demoConf (repoAt ''/r'') [''/r/config'' \<mapsto> JsonFile (JObj [''Mine'' \<mapsto> JInt 3])])))
   = Inr (JInt 3)"
proof -
  let ?d = "[''/r/config'' \<mapsto> JsonFile (JObj [''Mine'' \<mapsto> JInt 3])]"
  let ?s = "SetConfig okFs jsonCfg demoConf (repoAt ''/r'') ?d"
  have "fst ?s = None"
    by (simp add: SetConfig_def okFs_def jsonCfg_def repoAt_def ReadConfigFile_def osReadFile_def WriteConfigFile_def)
  moreover have "GetConfigKey okFs ''Mine'' (repoAt ''/r'') ?d = Inr (JInt 3)"
    by (simp add: GetConfigKey_def okFs_def repoAt_def ReadConfigFile_def osReadFile_def MapGetKV_def)
  moreover have "MapGetKV demoConf ''Mine'' = Inl (KeyNotFound ''Mine'')" by (simp add: MapGetKV_def demoConf_def)
  moreover have "ToMap jsonCfg demoConf = Inr demoConf" "\<not> failRename okFs p" for p
    by (simp_all add: jsonCfg_def okFs_def)
  ultimately show ?thesis
    using set_config_keeps_user_keys [of okFs jsonCfg demoConf "repoAt ''/r''" ?d "fst (snd ?s)" "snd (snd ?s)"
        demoConf "''Mine''" "JInt 3" "''Mine''"] by (metis prod.collapse)
qed

section \<open>Opening\<close>

lemma openLocked_ok:
  assumes "openLocked e ops d r = (Inr r', d')"
  shows "readRepoVersion (fsEnv.truncate e) d (fr_path r) = Inr theRepoVersion \<and>
    fr_path r' = fr_path r \<and> fr_closed r' = fr_closed r \<and>
    (\<exists>conf sp dsc. fr_config r' = Some conf \<and> cfgDatastoreSpec ops conf = Some sp \<and>
       openConfig (fsEnv.truncate e) ops d' r = Inr conf \<and>
       AnyDatastoreConfig (dsenv e) sp = Inr dsc \<and>
       readSpec (fsEnv.truncate e) d' (fr_path r) = Inr (JsonFile (DiskSpec_Bytes (DiskSpecOf dsc))))"
proof -
  let ?f = "fsEnv.truncate e"
  obtain ver where v: "readRepoVersion ?f d (fr_path r) = Inr ver" "ver = theRepoVersion"
    using assms by (cases "readRepoVersion ?f d (fr_path r)")
      (auto simp: openLocked_def Let_def split: io_err.splits if_splits)
  moreover from this obtain d1 where "Writable ?f d (fr_path r) = (None, d1)"
    using assms by (cases "Writable ?f d (fr_path r)"; cases "fst (Writable ?f d (fr_path r))")
      (auto simp: openLocked_def Let_def)
  ultimately show ?thesis
    using assms by (auto simp: openLocked_def Let_def bindS_eq_Inr openDatastore_def map_sum_eq_Inr
        split: if_splits option.splits)
qed

text \<open>
  C37. A repository is opened only under its lock, and only when it is the one the program
  expects: its version file says the current version and its stored disk specification is
  the one of the configured datastore.  Whatever goes wrong, the lock is given back.
\<close>

theorem repo_opened_under_lock_or_not_at_all:
  "case fsOpen e ops p u w of
     (Inl err, w') \<Rightarrow> w_locks w' = w_locks w
   | (Inr r, w') \<Rightarrow>
       tryLock e (fr_path r) \<and> w_locks w' = fr_path r # w_locks w \<and> \<not> fr_closed r \<and>
       readRepoVersion (fsEnv.truncate e) (w_disk w) (fr_path r) = Inr theRepoVersion \<and>
       (\<exists>conf sp dsc. fr_config r = Some conf \<and> cfgDatastoreSpec ops conf = Some sp \<and>
          AnyDatastoreConfig (dsenv e) sp = Inr dsc \<and>
          readSpec (fsEnv.truncate e) (w_disk w') (fr_path r) = Inr (JsonFile (DiskSpec_Bytes (DiskSpecOf dsc))))"
proof -
  let ?f = "fsEnv.truncate e"
  show ?thesis
  proof (cases "newFSRepo ?f p u :: fs_err + 'a FSRepo")
    case (Inl err)
    then show ?thesis by (simp add: fsOpen_def)
  next
    case r: (Inr r)
    then have "\<not> fr_closed r" by (auto simp: newFSRepo_def bindS_eq_Inr)
    obtain res d where res: "openLocked e ops (w_disk w) r = (res, d)" by force
    show ?thesis
    proof (cases "checkInitialized ?f (w_disk w) (fr_path r) = None \<and> tryLock e (fr_path r)")
      case False
      with r show ?thesis by (cases "checkInitialized ?f (w_disk w) (fr_path r)") (auto simp: fsOpen_def)
    next
      case True
      show ?thesis
      proof (cases res)
        case (Inl err)
        with True r res show ?thesis by (simp add: fsOpen_def)
      next
        case (Inr r')
        with res openLocked_ok [of e ops "w_disk w" r r' d] True r \<open>\<not> fr_closed r\<close>
        show ?thesis by (auto simp: fsOpen_def)
      qed
    qed
  qed
qed

text \<open>Creating a datastore succeeds when every constructor does.\<close>

lemma Create_total:
  "\<forall>s. opens s \<Longrightarrow> \<exists>s. Create opens p c = Inr s"
  "\<forall>s. opens s \<Longrightarrow> \<exists>ss. createMounts opens p ms = Inr ss"
  by (induction opens p c and opens p ms rule: Create_createMounts.induct) (force simp: tryOpen_def)+

definition noFaults :: "fsEnv \<Rightarrow> bool" where
  "noFaults e \<longleftrightarrow> (\<forall>q. \<not> failStat e q \<and> \<not> failRead e q \<and> \<not> failMkdir e q \<and> \<not> failCreate e q \<and>
     \<not> failClose e q \<and> \<not> failRename e q \<and> \<not> failRemove e q \<and> cutWrite e q = None)"

lemma noFaultsD [simp]:
  assumes "noFaults e"
  shows "\<not> failStat e q" "\<not> failRead e q" "\<not> failMkdir e q" "\<not> failCreate e q" "\<not> failClose e q"
    "\<not> failRename e q" "\<not> failRemove e q" "cutWrite e q = None"
  using assms by (simp_all add: noFaults_def)

lemma proper_names [simp]:
  "properComp ''config''" "properComp ''datastore_spec''" "properComp ''version''" "properComp ''._check_writable''"
  "properComp ''api''" "properComp ''.api.tmp''"
  by (simp_all add: properComp_def)

lemma config_paths [simp]:
  "p \<noteq> [] \<Longrightarrow> configFilename e p [] = Inr (pathJoin [p, ''config''])"
  "p \<noteq> [] \<Longrightarrow> configPath e p specFn = Inr (pathJoin [p, ''datastore_spec''])"
  "p \<noteq> [] \<Longrightarrow> homedir_Expand e p = Inr p \<Longrightarrow> IpfsDir e p = Inr p"
  by (simp_all add: configFilename_def configPath_def DefaultConfigFile_def specFn_def IpfsDir_def Let_def)

lemma osWriteFile_noFaults [simp]: "noFaults e \<Longrightarrow> osWriteFile e d q c = (None, d(q \<mapsto> c))"
  by (simp add: osWriteFile_def osCreate_def osWrite_def)

lemma WriteConfigFile_noFaults [simp]:
  "noFaults e \<Longrightarrow> WriteConfigFile e d q (Inr m) = (None, d(q \<mapsto> JsonFile (JObj m)))"
  by (simp add: WriteConfigFile_def atomicCommit_def)

text \<open>The disk of a freshly initialised repository.\<close>

definition initialised :: "disk \<Rightarrow> string \<Rightarrow> jmap \<Rightarrow> DatastoreConfig \<Rightarrow> disk" where
  "initialised d p m dsc =
     d(pathJoin [p, ''config''] \<mapsto> JsonFile (JObj m),
       pathJoin [p, ''datastore_spec''] \<mapsto> JsonFile (DiskSpec_Bytes (DiskSpecOf dsc)),
       pathJoin [p, ''version''] \<mapsto> TextFile (decInt theRepoVersion @ [char_of (10 :: nat)]))"

lemma Init_fresh:
  assumes "noFaults (fsEnv.truncate e)" "p \<noteq> []" "homedir_Expand e p = Inr p"
    "d (pathJoin [p, ''config'']) = None" "d (pathJoin [p, ''datastore_spec'']) = None"
    "ToMap ops conf = Inr m" "cfgDatastoreSpec ops conf = Some sp" "AnyDatastoreConfig (dsenv e) sp = Inr dsc"
  shows "Init e ops d p conf = (None, initialised d p m dsc)"
proof -
  have "homedir_Expand (fsEnv.truncate e) p = Inr p" using assms(3) by (simp add: fsEnv.defs)
  with assms show ?thesis
    by (simp add: Init_def configIsInitialized_def FileExists_def initConfig_def initSpec_def
        WriteRepoVersion_def initialised_def)
qed

text \<open>
  C40. An initialised repository can be opened. Take a file system without faults, a repository
  path in normal form at which there is neither a configuration nor a datastore specification, a
  configuration that survives being encoded and decoded and whose specification of the datastore
  parses, a free lock, and stores and a keystore that open. Then \<^verbatim>\<open>Init\<close> succeeds, a second
  \<^verbatim>\<open>Init\<close> changes nothing, and \<^verbatim>\<open>Open\<close> succeeds with the configuration that was given if that
  does not use the old fields for the type and the path of the datastore; if it does, \<^verbatim>\<open>Open\<close>
  refuses what \<^verbatim>\<open>Init\<close> accepted.
\<close>

theorem initialised_repo_opens:
  assumes "noFaults (fsEnv.truncate e)" and "p \<noteq> []" and "pathClean p = p" and "homedir_Expand e p = Inr p"
    and "d (pathJoin [p, ''config'']) = None" and "d (pathJoin [p, ''datastore_spec'']) = None"
    and "ToMap ops conf = Inr m" and "decodeConfig ops (JObj m) = Inr conf"
    and "cfgDatastoreSpec ops conf = Some sp" and "AnyDatastoreConfig (dsenv e) sp = Inr dsc"
    and "tryLock e p" and "\<forall>s. opensStore e s" and "opensKeystore e (pathJoin [p, ''keystore''])"
  shows "\<exists>d1 res w'. Init e ops d p conf = (None, d1) \<and> Init e ops d1 p conf' = (None, d1) \<and>
    fsOpen e ops p [] \<lparr> w_disk = d1, w_locks = ls \<rparr> = (res, w') \<and>
    (if cfgDatastoreType ops conf = [] \<and> cfgDatastorePath ops conf = []
     then \<exists>r. res = Inr r \<and> fr_config r = Some conf else res = Inl OldStyleDatastore)"
proof -
  let ?f = "fsEnv.truncate e"
  let ?d = "initialised d p m dsc"
  have exp: "homedir_Expand ?f p = Inr p" using assms(4) by (simp add: fsEnv.defs)
  have files: "?d (pathJoin [p, ''config'']) = Some (JsonFile (JObj m))"
    "?d (pathJoin [p, ''datastore_spec'']) = Some (JsonFile (DiskSpec_Bytes (DiskSpecOf dsc)))"
    "?d (pathJoin [p, ''version'']) = Some (TextFile (decInt theRepoVersion @ [char_of (10 :: nat)]))"
    by (simp_all add: initialised_def)
  have init: "Init e ops d p conf = (None, ?d)" using assms by (intro Init_fresh)
  have again: "Init e ops ?d p conf' = (None, ?d)"
    using assms(2) files(1) by (simp add: Init_def configIsInitialized_def FileExists_def)
  have ver: "readRepoVersion ?f ?d p = Inr theRepoVersion"
    using repoVersion_written [of theRepoVersion ?f p ?d] assms(1,2) exp files(3)
    by (simp add: readRepoVersion_def CheckIpfsDir_def theRepoVersion_def)
  obtain s where s: "Create (opensStore e) p dsc = Inr s" using Create_total(1) assms(12) by blast
  define r :: "'a FSRepo" where "r = \<lparr> fr_closed = False, fr_path = p, fr_configFilePath = pathJoin [p, ''config''],
    fr_config = None, fr_ds = None, fr_keystore = None, fr_filemgr = None \<rparr>"
  have new: "newFSRepo ?f p [] = Inr r" using assms(2,3) exp by (simp add: newFSRepo_def r_def)
  have chk: "checkInitialized ?f ?d p = None"
    using assms(2) files(1) by (simp add: checkInitialized_def configIsInitialized_def FileExists_def)
  obtain d2 where wr: "Writable ?f ?d p = (None, d2)" and d2: "\<forall>q. q \<noteq> pathJoin [p, ''._check_writable''] \<longrightarrow> d2 q = ?d q"
    using assms(1) by (simp add: Writable_def osCreate_def osRemove_def)
  have "openConfig ?f ops d2 r = Inr conf"
    using d2 files(1) assms(1,8) by (simp add: openConfig_def r_def ReadConfigFile_def osReadFile_def)
  moreover have "openDatastore e ops d2 p conf =
      (if cfgDatastoreType ops conf = [] \<and> cfgDatastorePath ops conf = [] then Inr (MeasureStore ''ipfs.fsrepo.datastore'' s) else Inl OldStyleDatastore)"
    using d2 files(2) assms(1,2,9,10) s by (simp add: openDatastore_def readSpec_def osReadFile_def)
  ultimately have "\<exists>res. fst (openLocked e ops ?d r) = res \<and>
     (if cfgDatastoreType ops conf = [] \<and> cfgDatastorePath ops conf = [] then \<exists>r'. res = Inr r' \<and> fr_config r' = Some conf
      else res = Inl OldStyleDatastore)"
    using ver wr assms(13) by (simp add: openLocked_def r_def openKeystore_def Let_def)
  then have "\<exists>res w'. fsOpen e ops p [] \<lparr> w_disk = ?d, w_locks = ls \<rparr> = (res, w') \<and>
     (if cfgDatastoreType ops conf = [] \<and> cfgDatastorePath ops conf = [] then \<exists>r'. res = Inr r' \<and> fr_config r' = Some conf
      else res = Inl OldStyleDatastore)"
    using new chk assms(11) by (auto simp: fsOpen_def r_def split_beta split: sum.split if_splits)
  with init again show ?thesis by blast
qed

definition okRepoEnv :: repoEnv where
  "okRepoEnv = fsEnv.extend okFs
     \<lparr> dsenv = demoEnv, opensStore = (\<lambda>_. True), tryLock = (\<lambda>_. True), closesLock = True, closesStore = True,
       opensKeystore = (\<lambda>_. True) \<rparr>"

lemma okRepoEnv_simps [simp]:
  "fsEnv.truncate okRepoEnv = okFs" "dsenv okRepoEnv = demoEnv" "opensStore okRepoEnv s" "tryLock okRepoEnv q"
  "opensKeystore okRepoEnv q" "homedir_Expand okRepoEnv q = Inr q" "noFaults okFs"
  by (simp_all add: okRepoEnv_def fsEnv.defs okFs_def noFaults_def)

lemma mem_parsed: "AnyDatastoreConfig demoEnv [''type'' \<mapsto> JStr ''mem''] = Inr (memDatastoreConfig [''type'' \<mapsto> JStr ''mem''])"
  by (subst AnyDatastoreConfig.simps)
    (simp add: demoEnv_def withPlugins_def AddDatastoreConfigHandler_def datastores_def parseWith_def MemDatastoreConfig_def)

theorem initialised_repo_opens_witness:
  "\<exists>d1 r w'. Init okRepoEnv jsonCfg Map.empty ''/r'' [''Spec'' \<mapsto> JObj [''type'' \<mapsto> JStr ''mem'']] = (None, d1) \<and>
     Init okRepoEnv jsonCfg d1 ''/r'' Map.empty = (None, d1) \<and>
     fsOpen okRepoEnv jsonCfg ''/r'' [] \<lparr> w_disk = d1, w_locks = [] \<rparr> = (Inr r, w') \<and>
     fr_config r = Some [''Spec'' \<mapsto> JObj [''type'' \<mapsto> JStr ''mem'']]"
  using initialised_repo_opens [of okRepoEnv "''/r''" Map.empty jsonCfg "[''Spec'' \<mapsto> JObj [''type'' \<mapsto> JStr ''mem'']]"
      "[''Spec'' \<mapsto> JObj [''type'' \<mapsto> JStr ''mem'']]" "[''type'' \<mapsto> JStr ''mem'']" "memDatastoreConfig [''type'' \<mapsto> JStr ''mem'']" Map.empty "[]"]
  by (simp add: mem_parsed jsonCfg_def pathClean_def pathIsAbs_def) blast

text \<open>
  An initialisation that fails at the datastore specification is not undone: the
  configuration file is there, so the next \<^verbatim>\<open>Init\<close> reports success without doing
  anything, and the repository cannot be opened.
\<close>

theorem failed_init_looks_initialised:
  assumes "noFaults (fsEnv.truncate e)" and "p \<noteq> []" and "pathClean p = p" and "homedir_Expand e p = Inr p"
    and "d (pathJoin [p, ''config'']) = None" and "d (pathJoin [p, ''datastore_spec'']) = None"
    and "d (pathJoin [p, ''version'']) = None" and "tryLock e p"
    and "ToMap ops conf = Inr m" and "AnyDatastoreConfig (dsenv e) sp = Inl err"
    and "cfgDatastoreSpec ops conf = Some sp"
  shows "\<exists>d1. Init e ops d p conf = (Some (DsErr err), d1) \<and> Init e ops d1 p conf' = (None, d1) \<and>
    fst (fsOpen e ops p [] \<lparr> w_disk = d1, w_locks = ls \<rparr>) = Inl ErrNoVersion"
proof -
  let ?f = "fsEnv.truncate e"
  let ?d = "d(pathJoin [p, ''config''] \<mapsto> JsonFile (JObj m))"
  have exp: "homedir_Expand ?f p = Inr p" using assms(4) by (simp add: fsEnv.defs)
  have "Init e ops d p conf = (Some (DsErr err), ?d)"
    using assms by (simp add: Init_def configIsInitialized_def FileExists_def initConfig_def initSpec_def)
  moreover have "Init e ops ?d p conf' = (None, ?d)"
    using assms(2) by (simp add: Init_def configIsInitialized_def FileExists_def)
  moreover have "readRepoVersion ?f ?d p = Inl NotExist"
    using assms(1,2,7) exp by (simp add: readRepoVersion_def CheckIpfsDir_def repoVersion_def osReadFile_def)
  then have "fst (fsOpen e ops p [] \<lparr> w_disk = ?d, w_locks = ls \<rparr>) = Inl ErrNoVersion"
    using assms(2,3,8) exp
    by (simp add: fsOpen_def newFSRepo_def checkInitialized_def configIsInitialized_def FileExists_def openLocked_def)
  ultimately show ?thesis by blast
qed

theorem failed_init_looks_initialised_witness:
  "\<exists>d1. Init okRepoEnv jsonCfg Map.empty ''/r'' [''Spec'' \<mapsto> JObj Map.empty] = (Some (DsErr TypeMissing), d1) \<and>
     Init okRepoEnv jsonCfg d1 ''/r'' Map.empty = (None, d1) \<and>
     fst (fsOpen okRepoEnv jsonCfg ''/r'' [] \<lparr> w_disk = d1, w_locks = [] \<rparr>) = Inl ErrNoVersion"
proof (rule failed_init_looks_initialised [where m = "[''Spec'' \<mapsto> JObj Map.empty]" and sp = Map.empty])
  show "AnyDatastoreConfig (dsenv okRepoEnv) Map.empty = Inl TypeMissing"
    by (subst AnyDatastoreConfig.simps) simp
qed (simp_all add: jsonCfg_def pathClean_def pathIsAbs_def)

section \<open>The address file\<close>

text \<open>
  The \<^verbatim>\<open>api\<close> file is replaced atomically: after \<^verbatim>\<open>SetAPIAddr\<close> it holds the
  new address, which \<^verbatim>\<open>APIAddr\<close> reads back when it is shorter than 2048 bytes, and after
  a failure, whichever call failed, it is what it was before.
\<close>

theorem api_file_replaced_atomically:
  assumes "SetAPIAddr e addr r d = (err, d')"
  shows "if err = None
    then d' (pathJoin [fr_path r, ''api'']) = Some (TextFile addr) \<and>
      (pathClean (fr_path r) = fr_path r \<longrightarrow> \<not> failRead e (pathJoin [fr_path r, ''api'']) \<longrightarrow> length addr < 2048 \<longrightarrow>
       trimBy isSpaceASCII addr = addr \<longrightarrow> parse addr = Some a \<longrightarrow> APIAddr e parse d' (fr_path r) = Inr a)
    else d' (pathJoin [fr_path r, ''api'']) = d (pathJoin [fr_path r, ''api''])"
proof -
  have "if err = None then d' (pathJoin [fr_path r, ''api'']) = Some (TextFile addr)
      else d' (pathJoin [fr_path r, ''api'']) = d (pathJoin [fr_path r, ''api''])"
    using assms
    by (auto simp: SetAPIAddr_def Let_def osCreate_def osWrite_def osRename_def osRemove_def
        split: if_splits option.splits)
  then show ?thesis by (auto simp: APIAddr_def osReadFile_def Let_def)
qed

theorem api_file_replaced_atomically_witness:
  "APIAddr okFs Some (snd (SetAPIAddr okFs ''/ip4/127.0.0.1/tcp/5001'' (repoAt ''/r'') Map.empty)) ''/r''
     = Inr ''/ip4/127.0.0.1/tcp/5001''"
proof -
  let ?s = "SetAPIAddr okFs ''/ip4/127.0.0.1/tcp/5001'' (repoAt ''/r'') Map.empty"
  have ok: "fst ?s = None"
    by (simp add: SetAPIAddr_def Let_def osCreate_def osWrite_def osRename_def okFs_def)
  have p: "fr_path (repoAt ''/r'') = ''/r''" "\<not> failRead okFs q" for q by (simp_all add: repoAt_def okFs_def)
  have c: "pathClean ''/r'' = ''/r''" "trimBy isSpaceASCII ''/ip4/127.0.0.1/tcp/5001'' = ''/ip4/127.0.0.1/tcp/5001''"
    by (simp_all add: pathClean_def pathIsAbs_def trimBy_def isSpaceASCII_def)
  have s: "?s = (None, snd ?s)" using ok by (metis prod.collapse)
  have l: "length ''/ip4/127.0.0.1/tcp/5001'' < 2048" by simp
  from api_file_replaced_atomically [OF s, where parse = Some and a = "''/ip4/127.0.0.1/tcp/5001''"]
  show ?thesis unfolding p(1) using c p(2) l by (simp only: if_True simp_thms)
qed

section \<open>Closing\<close>

text \<open>
  Closing a repository gives back its lock and removes its address files, so that it is
  no longer advertised; closing it again changes nothing and fails.
\<close>

theorem close_releases_repo_once:
  assumes "fsClose e r w = (None, r', w')"
  shows "w_locks w' = remove1 (fr_path r) (w_locks w) \<and>
    (\<not> failRemove e (pathJoin [fr_path r, ''api'']) \<longrightarrow> w_disk w' (pathJoin [fr_path r, ''api'']) = None) \<and>
    (\<not> failRemove e (pathJoin [fr_path r, ''gateway'']) \<longrightarrow> w_disk w' (pathJoin [fr_path r, ''gateway'']) = None) \<and>
    fsClose e r' w'' = (Some RepoClosed, r', w'') \<and> GetConfigKey f key r' d = Inl RepoClosed \<and>
    SetConfigKey f ops key v r' d = (Some RepoClosed, r', d)"
proof -
  have f: "failRemove (fsEnv.truncate e) = failRemove e" by (simp add: fsEnv.defs)
  have "\<not> fr_closed r" using assms by (auto simp: fsClose_def)
  with assms show ?thesis
    by (auto simp: fsClose_def Let_def osRemove_def f GetConfigKey_def SetConfigKey_def split: if_splits)
qed

theorem close_releases_repo_once_witness:
  "w_disk (snd (snd (fsClose okRepoEnv (repoAt ''/r'') \<lparr> w_disk = [''/r/api'' \<mapsto> TextFile ''x''], w_locks = [''/r''] \<rparr>)))
     (pathJoin [''/r'', ''api'']) = None"
proof -
  let ?s = "fsClose okRepoEnv (repoAt ''/r'') \<lparr> w_disk = [''/r/api'' \<mapsto> TextFile ''x''], w_locks = [''/r''] \<rparr>"
  have "?s = (None, fst (snd ?s), snd (snd ?s))"
    by (simp add: fsClose_def repoAt_def okRepoEnv_def fsEnv.defs Let_def)
  from close_releases_repo_once [OF this] show ?thesis
    by (simp add: repoAt_def okRepoEnv_def fsEnv.defs okFs_def)
qed

end
