(* ===== verification/ConfigProps.thy ===== *)
theory ConfigProps
  imports ConfigCommands FSRepoProps
begin

text \<open>
  What the configuration commands promise: secrets are neither shown nor changed, the
  profiles that are documented to undo each other do, the bootstrap list and the address
  filters change exactly as asked.
\<close>

section \<open>Secrets are not shown\<close>

text \<open>The paths of the secrets in the configuration file, whose keys are case-insensitive.\<close>

definition secretPath :: "string list \<Rightarrow> bool" where
  "secretPath p \<longleftrightarrow>
     length p = 2 \<and> globMatches p [IdentityTag, PrivKeyTag] \<or>
     length p = 5 \<and> globMatches p PinningConcealSelector"

lemma lowerByte_dot [simp]: "lowerByte CHR ''.'' = CHR ''.''"
  by code_simp

text \<open>Neither table has an entry with a dot, so folding goes through a dotted key part by part.\<close>

definition noDot :: "(string \<times> char) list \<Rightarrow> bool" where
  "noDot sp \<longleftrightarrow> list_all (\<lambda>(k, v). CHR ''.'' \<notin> set k) sp"

lemma noDot_map_of: "noDot sp \<Longrightarrow> CHR ''.'' \<in> set k \<Longrightarrow> map_of sp k = None"
  by (auto simp: noDot_def list_all_iff map_of_eq_None_iff)

lemma foldRunes_dot:
  "noDot sp \<Longrightarrow> foldRunes sp (a @ CHR ''.'' # b) = foldRunes sp a @ CHR ''.'' # foldRunes sp b"
proof (induction sp a arbitrary: b rule: foldRunes.induct)
  case (1 sp)
  have none: "map_of sp (CHR ''.'' # ks) = None" for ks using 1 by (rule noDot_map_of) simp
  show ?case
  proof (cases b)
    case (Cons c b')
    then show ?thesis using none by (cases b') simp_all
  qed simp
next
  case (2 sp c)
  have none: "map_of sp (CHR ''.'' # ks) = None" "map_of sp (c # CHR ''.'' # ks) = None" for ks
    using 2 by (auto intro: noDot_map_of)
  show ?case
  proof (cases b)
    case (Cons c' b')
    then show ?thesis using none by (cases b') simp_all
  qed (simp add: none)
next
  case (3 sp c c')
  have none: "map_of sp (CHR ''.'' # ks) = None" "map_of sp (c # CHR ''.'' # ks) = None"
    "map_of sp (c # c' # CHR ''.'' # ks) = None" "map_of sp (c' # CHR ''.'' # ks) = None" for ks
    using 3 by (auto intro: noDot_map_of)
  show ?case
  proof (cases b)
    case Nil
    then show ?thesis by (simp add: none split: option.splits)
  next
    case (Cons d b')
    then show ?thesis using none by (cases b') (simp_all split: option.splits)
  qed
next
  case (4 sp c c' c'' s)
  then show ?case by (simp split: option.splits)
qed

text \<open>Where folding gives no s and nothing beyond ASCII, the two tables agree.\<close>

lemma fold_tables:
  "CHR ''s'' \<notin> set (foldRunes [(kelvin, CHR ''k''), (longS, CHR ''s'')] a) \<Longrightarrow>
   CHR 0xC4 \<notin> set (foldRunes [(kelvin, CHR ''k''), (longS, CHR ''s'')] a) \<Longrightarrow>
   foldRunes [(kelvin, CHR ''k''), (dottedI, CHR ''i'')] a
     = foldRunes [(kelvin, CHR ''k''), (longS, CHR ''s'')] a"
proof (induction a rule: length_induct)
  case (1 a)
  let ?T = "[(kelvin, CHR ''k''), (longS, CHR ''s'')]"
  have low: "lowerByte (CHR 0xC4) = CHR 0xC4" by code_simp
  have nl: "map_of ?T [CHR 0xC4, x] = None" for x by (simp add: kelvin_def longS_def)
  note tabs = kelvin_def longS_def dottedI_def
  show ?case
  proof (cases a rule: list.exhaust [case_names Nil One])
    case (One c s)
    show ?thesis
    proof (cases s rule: list.exhaust [case_names Nil Two])
      case Nil
      then show ?thesis using One by simp
    next
      case (Two c' s')
      have ih: "CHR ''s'' \<notin> set (foldRunes ?T b) \<Longrightarrow> CHR 0xC4 \<notin> set (foldRunes ?T b) \<Longrightarrow>
          foldRunes [(kelvin, CHR ''k''), (dottedI, CHR ''i'')] b = foldRunes ?T b"
        if "length b < length a" for b using 1 that by blast
      show ?thesis
      proof (cases s')
        case Nil
        then show ?thesis using One Two "1.prems" ih [of "[c']"] low
          by (auto simp: tabs split: if_splits)
      next
        case (Cons c'' t)
        then show ?thesis using One Two "1.prems" ih [of "c'' # t"] ih [of t] ih [of "c' # c'' # t"] low
          by (auto simp: tabs split: if_splits)
      qed
    qed
  qed simp
qed

lemma EqualFold_fixed:
  "EqualFold a ''Identity'' \<Longrightarrow> foldRunes [(kelvin, CHR ''k''), (longS, CHR ''s'')] a = ''identity''"
  "EqualFold a ''PrivKey'' \<Longrightarrow> foldRunes [(kelvin, CHR ''k''), (longS, CHR ''s'')] a = ''privkey''"
proof -
  have "foldRunes [(kelvin, CHR ''k''), (longS, CHR ''s'')] ''Identity'' = ''identity''"
    "foldRunes [(kelvin, CHR ''k''), (longS, CHR ''s'')] ''PrivKey'' = ''privkey''"
    by code_simp+
  then show "EqualFold a ''Identity'' \<Longrightarrow> foldRunes [(kelvin, CHR ''k''), (longS, CHR ''s'')] a = ''identity''"
    "EqualFold a ''PrivKey'' \<Longrightarrow> foldRunes [(kelvin, CHR ''k''), (longS, CHR ''s'')] a = ''privkey''"
    by (simp_all add: EqualFold_def)
qed

lemma ToLower_parts:
  "EqualFold a ''Identity'' \<Longrightarrow> ToLower a = ''identity''"
  "EqualFold a ''PrivKey'' \<Longrightarrow> ToLower a = ''privkey''"
  using EqualFold_fixed [of a] fold_tables [of a] by (simp_all add: ToLower_def)

lemma ToLower_dotted: "ToLower (a @ CHR ''.'' # b) = ToLower a @ CHR ''.'' # ToLower b"
  unfolding ToLower_def by (rule foldRunes_dot) (simp add: noDot_def kelvin_def dottedI_def)

lemma EqualFold_sym: "EqualFold a b = EqualFold b a"
  by (auto simp: EqualFold_def)

lemma globMatches_append: "globMatches (p @ q) g \<Longrightarrow> globMatches p g"
  by (induction p g rule: globMatches.induct) (auto split: if_splits)

lemma tags_star: "IdentityTag \<noteq> ''*''" "PrivKeyTag \<noteq> ''*''"
  by (simp_all add: IdentityTag_def PrivKeyTag_def)

lemma blocked_prefix:
  assumes "secretPath (splitc CHR ''.'' key @ rest)"
  shows "configBlocked key \<noteq> None"
proof -
  let ?p = "splitc CHR ''.'' key"
  have key: "key = joinc ''.'' ?p" by simp
  from assms consider
      (priv) "length (?p @ rest) = 2" "globMatches (?p @ rest) [IdentityTag, PrivKeyTag]"
    | (api) "globMatches (?p @ rest) PinningConcealSelector"
    by (auto simp: secretPath_def)
  then show ?thesis
  proof cases
    case api
    then have "matchesGlobPrefix key PinningConcealSelector"
      unfolding matchesGlobPrefix_def by (rule globMatches_append)
    then show ?thesis by (simp add: configBlocked_def)
  next
    case priv
    show ?thesis
    proof (cases ?p)
      case (Cons a ps)
      have a: "EqualFold a ''Identity''"
        using priv(2) Cons tags_star by (auto simp: IdentityTag_def split: if_splits)
      consider "ps = []" | b where "ps = [b]" using priv(1) Cons by (cases ps) auto
      then show ?thesis
      proof cases
        case 1
        then have "ToLower key = ''identity''" using key Cons ToLower_parts(1) [OF a] by simp
        then show ?thesis by (simp add: configBlocked_def)
      next
        case (2 b)
        have "EqualFold b ''PrivKey''"
          using priv(2) Cons 2 tags_star by (auto simp: PrivKeyTag_def split: if_splits)
        then have "ToLower key = ''identity'' @ CHR ''.'' # ''privkey''"
          using key Cons 2 ToLower_parts(1) [OF a] ToLower_parts(2) [of b] ToLower_dotted [of a b] by simp
        then show ?thesis by (simp add: configBlocked_def)
      qed
    qed simp
  qed
qed

text \<open>Scrubbing: what is on a path that leaves the selector stays, what is selected goes.\<close>

lemma scrubMatch_glob: "g = ''*'' \<or> EqualFold p g \<longleftrightarrow> scrubMatch g p"
  by (auto simp: scrubMatch_def EqualFold_sym)

lemma scrubEither_other: "(\<nexists>m. j = JObj m) \<Longrightarrow> scrubEither j key = None"
  by (cases j) auto

lemma mapGet_scrub_keeps:
  "\<not> globMatches p key \<Longrightarrow>
   mapGet s p (JObj (scrubMapInternal m key)) = Inr y \<longleftrightarrow> mapGet s p (JObj m) = Inr y"
proof (induction p key arbitrary: m s rule: globMatches.induct)
  case (3 q k g gs)
  show ?case
  proof (cases "m q")
    case None
    then show ?thesis by (simp add: scrubMapInternal_def Let_def)
  next
    case v: (Some v)
    show ?thesis
    proof (cases "scrubMatch g q")
      case False
      then show ?thesis using v by (simp add: scrubMapInternal_def)
    next
      case True
      with "3.prems" have sub: "\<not> globMatches k gs" by (auto simp: scrubMatch_glob [symmetric] split: if_splits)
      then have ne: "k \<noteq> []" by (cases gs) auto
      show ?thesis
      proof (cases "\<exists>m'. v = JObj m'")
        case False
        then have "mapGet s' k v \<noteq> Inr y" for s' using ne by (cases k; cases v) auto
        then show ?thesis using v True False by (simp add: scrubMapInternal_def scrubEither_other Let_def)
      next
        case obj: True
        then obtain m' where m': "v = JObj m'" by blast
        have "mapGet s' k (JObj (scrubMapInternal m' gs)) = Inr y \<longleftrightarrow> mapGet s' k (JObj m') = Inr y" for s'
        proof (cases "g = ''*''")
          case True then show ?thesis using "3.IH"(1) sub by blast
        next
          case False
          then have "EqualFold q g" using True by (simp add: scrubMatch_glob [symmetric])
          then show ?thesis using "3.IH"(2) False sub by blast
        qed
        then show ?thesis using v True m'
          by (simp add: scrubMapInternal_def [of m] scrubEither_JObj del: scrubEither.simps)
      qed
    qed
  qed
qed simp_all

lemma mapGet_scrub_removes:
  "globMatches p key \<Longrightarrow> length p = length key \<Longrightarrow> key \<noteq> [] \<Longrightarrow>
   mapGet s p (JObj (scrubMapInternal m key)) = Inr y \<Longrightarrow> y = JObj Map.empty"
proof (induction p key arbitrary: m s rule: globMatches.induct)
  case (3 q k g gs)
  have match: "scrubMatch g q" and sub: "globMatches k gs"
    using "3.prems"(1) by (auto simp: scrubMatch_glob [symmetric] split: if_splits)
  from "3.prems"(4) match obtain v u where v: "m q = Some v" "scrubEither v gs = Some u" "mapGet (s @ [q]) k u = Inr y"
    by (auto simp: scrubMapInternal_def Let_def split: option.splits)
  then obtain m' where m': "v = JObj m'" using scrubEither_other [of v gs] by force
  with v have u: "u = JObj (scrubMapInternal m' gs)" by (simp add: scrubEither_JObj del: scrubEither.simps)
  show ?case
  proof (cases "gs = []")
    case True
    then show ?thesis using "3.prems"(2) v u by (simp add: scrubMapInternal_def)
  next
    case False
    show ?thesis
    proof (cases "g = ''*''")
      case True
      then show ?thesis using "3.IH"(1) [of "s @ [q]" m'] sub "3.prems"(2) v(3) u False by simp
    next
      case ng: False
      then have "EqualFold q g" using match by (simp add: scrubMatch_glob [symmetric])
      then show ?thesis using "3.IH"(2) [of "s @ [q]" m'] ng sub "3.prems"(2) v(3) u False by simp
    qed
  qed
qed simp_all

lemma getConfig_Inr:
  "getConfig e key r d = Inr v \<Longrightarrow> \<exists>m. MapGetKV m key = Inr v \<and> ReadConfigFile e d decodeMap (fr_configFilePath r) = Inr m"
  by (auto simp: getConfig_def GetConfigKey_def map_sum_eq_Inr bindS_eq_Inr split: if_splits)

lemma configCmd_Inr:
  "configCmd e ops parse key val asJson asBool r d = (Inr v, r', d') \<Longrightarrow>
   configBlocked key = None \<and> (\<exists>m. MapGetKV m key = Inr v)"
  by (auto simp: configCmd_def setConfig_def dest!: getConfig_Inr split: option.splits if_splits prod.splits)

lemma mapGet_start: "mapGet s p j = Inr y \<longleftrightarrow> mapGet s' p j = Inr y"
proof (induction p arbitrary: s s' j)
  case (Cons a p)
  show ?case
  proof (cases "\<exists>m. j = JObj m")
    case True
    then obtain m where j: "j = JObj m" by blast
    show ?thesis
    proof (cases "m a")
      case (Some v)
      then show ?thesis using j Cons.IH [of "s @ [a]" v "s' @ [a]"] by simp
    qed (simp add: j Let_def)
  next
    case False
    then show ?thesis by (cases j) auto
  qed
qed simp

lemma identity_not_conceal:
  assumes "globMatches p [IdentityTag, PrivKeyTag]" and "p \<noteq> []"
  shows "\<not> globMatches p PinningConcealSelector"
proof
  assume c: "globMatches p PinningConcealSelector"
  obtain a q where p: "p = a # q" using assms(2) by (cases p) auto
  have "EqualFold a ''Identity''" "EqualFold a ''Pinning''"
    using assms(1) c p tags_star by (auto simp: IdentityTag_def PinningConcealSelector_def split: if_splits)
  then have "EqualFold ''Identity'' ''Pinning''" by (simp add: EqualFold_def)
  moreover have "\<not> EqualFold ''Identity'' ''Pinning''" by code_simp
  ultimately show False by blast
qed

lemma scrubbedConfig_hides:
  assumes "secretPath p" and "mapGet s p (JObj (scrubbedConfig m)) = Inr y"
  shows "y = JObj Map.empty"
proof -
  from assms(1) consider
      (priv) "length p = 2" "globMatches p [IdentityTag, PrivKeyTag]"
    | (api) "length p = 5" "globMatches p PinningConcealSelector"
    by (auto simp: secretPath_def)
  then show ?thesis
  proof cases
    case priv
    then have "\<not> globMatches p PinningConcealSelector" by (intro identity_not_conceal) auto
    then have "mapGet s p (JObj (scrubMapInternal m [IdentityTag, PrivKeyTag])) = Inr y"
      using assms(2) by (simp add: scrubbedConfig_def mapGet_scrub_keeps)
    then show ?thesis using mapGet_scrub_removes priv by fastforce
  next
    case api
    then show ?thesis
      using mapGet_scrub_removes [of p PinningConcealSelector s "scrubMapInternal m [IdentityTag, PrivKeyTag]" y] assms(2)
      by (simp add: scrubbedConfig_def PinningConcealSelector_def)
  qed
qed

text \<open>
  C12. Whatever key, value and options \<^verbatim>\<open>ipfs config\<close> is given, the value it prints is not
  the private key of the node or the access key of a remote pinning service and contains
  neither, in whatever case the keys are written; \<^verbatim>\<open>ipfs config show\<close> has nothing at those
  paths (or an empty object, when the file has an object there), and shows every value of the
  file whose path leads away from them as it is.  The help text of \<^verbatim>\<open>config show\<close> says that it
  omits the private key and the remote services; by the last part everything else of a remote
  service, its name, endpoint and policies, is shown.
\<close>

theorem config_output_hides_secrets:
  "(configCmd e ops parse key val asJson asBool r d = (Inr v, r', d') \<longrightarrow> mapGet [] rest v = Inr y \<longrightarrow>
      \<not> secretPath (splitc CHR ''.'' key @ rest)) \<and>
   (configShow e cfgRoot opt d = Inr shown \<longrightarrow> mapGet [] p (JObj shown) = Inr y \<longrightarrow> secretPath p \<longrightarrow>
      y = JObj Map.empty) \<and>
   (configFilename e cfgRoot opt = Inr fn \<longrightarrow> osReadFile e d fn = Inr (JsonFile (JObj m)) \<longrightarrow>
      (\<exists>shown. configShow e cfgRoot opt d = Inr shown \<and>
         (\<not> globMatches p [IdentityTag, PrivKeyTag] \<longrightarrow> \<not> globMatches p PinningConcealSelector \<longrightarrow>
            (mapGet [] p (JObj shown) = Inr y \<longleftrightarrow> mapGet [] p (JObj m) = Inr y))))"
proof (intro conjI impI)
  assume "configCmd e ops parse key val asJson asBool r d = (Inr v, r', d')"
  then have "configBlocked key = None" using configCmd_Inr by blast
  then show "\<not> secretPath (splitc CHR ''.'' key @ rest)" using blocked_prefix by blast
next
  assume "configShow e cfgRoot opt d = Inr shown" "mapGet [] p (JObj shown) = Inr y" "secretPath p"
  then show "y = JObj Map.empty"
    using scrubbedConfig_hides [of p "[]" _ y]
    by (auto simp: configShow_def map_sum_eq_Inr bindS_eq_Inr)
next
  assume "configFilename e cfgRoot opt = Inr fn" "osReadFile e d fn = Inr (JsonFile (JObj m))"
  then have "configShow e cfgRoot opt d = Inr (scrubbedConfig m)" by (simp add: configShow_def)
  then show "\<exists>shown. configShow e cfgRoot opt d = Inr shown \<and>
         (\<not> globMatches p [IdentityTag, PrivKeyTag] \<longrightarrow> \<not> globMatches p PinningConcealSelector \<longrightarrow>
            (mapGet [] p (JObj shown) = Inr y \<longleftrightarrow> mapGet [] p (JObj m) = Inr y))"
    by (auto simp: scrubbedConfig_def mapGet_scrub_keeps)
qed

section \<open>Secrets are not replaced\<close>

lemma reapplyServices_spec:
  "reapplyServices olds news = Inr news' \<Longrightarrow> distinct (map fst olds) \<Longrightarrow>
   map fst news' = map fst news \<and>
   (\<forall>name o'. map_of olds name = Some o' \<longrightarrow>
      (\<exists>n'. map_of news' name = Some n' \<and> Endpoint n' = Endpoint o' \<and> svcKey n' = svcKey o' \<and>
         (\<exists>n. map_of news name = Some n \<and> svcMFS n' = svcMFS n))) \<and>
   (\<forall>name. map_of olds name = None \<longrightarrow> map_of news' name = map_of news name)"
proof (induction olds news rule: reapplyServices.induct)
  case (2 name oldSvc rest newServices)
  from "2.prems"(1) obtain newSvc where n: "map_of newServices name = Some newSvc"
    by (auto split: option.splits)
  let ?n' = "newSvc\<lparr> Endpoint := Endpoint oldSvc, svcKey := svcKey oldSvc \<rparr>"
  have ok: "\<not> (svcKey newSvc \<noteq> [] \<or> (Endpoint newSvc \<noteq> [] \<and> Endpoint newSvc \<noteq> Endpoint oldSvc))"
    and rec: "reapplyServices rest (AList.update name ?n' newServices) = Inr news'"
    using "2.prems"(1) n by (auto split: if_splits)
  have keys: "map fst (AList.update name ?n' newServices) = map fst newServices"
    using n by (simp add: update_keys) (metis domI dom_map_of_conv_image_fst)
  have ih: "map fst news' = map fst (AList.update name ?n' newServices) \<and>
     (\<forall>nm o'. map_of rest nm = Some o' \<longrightarrow>
        (\<exists>n'. map_of news' nm = Some n' \<and> Endpoint n' = Endpoint o' \<and> svcKey n' = svcKey o' \<and>
           (\<exists>n. map_of (AList.update name ?n' newServices) nm = Some n \<and> svcMFS n' = svcMFS n))) \<and>
     (\<forall>nm. map_of rest nm = None \<longrightarrow> map_of news' nm = map_of (AList.update name ?n' newServices) nm)"
    using "2.IH" [OF n ok rec] "2.prems"(2) by simp
  have fresh: "map_of rest name = None" using "2.prems"(2) by (simp add: map_of_eq_None_iff)
  show ?case
  proof (intro conjI allI impI)
    show "map fst news' = map fst newServices" using ih keys by simp
  next
    fix nm o'
    assume o': "map_of ((name, oldSvc) # rest) nm = Some o'"
    show "\<exists>n'. map_of news' nm = Some n' \<and> Endpoint n' = Endpoint o' \<and> svcKey n' = svcKey o' \<and>
         (\<exists>n. map_of newServices nm = Some n \<and> svcMFS n' = svcMFS n)"
    proof (cases "nm = name")
      case True
      then have "map_of news' nm = Some ?n'" using ih fresh by (simp add: update_Some_unfold)
      then show ?thesis using o' True n by simp
    next
      case False
      have upd: "map_of (AList.update name ?n' newServices) nm = map_of newServices nm"
        using False by (simp add: update_conv')
      have "map_of rest nm = Some o'" using o' False by simp
      then have "\<exists>n'. map_of news' nm = Some n' \<and> Endpoint n' = Endpoint o' \<and> svcKey n' = svcKey o' \<and>
          (\<exists>n. map_of (AList.update name ?n' newServices) nm = Some n \<and> svcMFS n' = svcMFS n)"
        using ih by blast
      then show ?thesis by (simp only: upd)
    qed
  next
    fix nm
    assume "map_of ((name, oldSvc) # rest) nm = None"
    then show "map_of news' nm = map_of newServices nm"
      using ih by (auto simp: update_conv' split: if_splits)
  qed
qed simp

lemma SetConfig_ok:
  "SetConfig e ops c r d = (None, r', d') \<Longrightarrow> r' = r\<lparr> fr_config := Some c \<rparr>"
  "SetConfig e ops c r d = (Some err, r', d') \<Longrightarrow> r' = r"
  by (auto simp: SetConfig_def split: sum.splits prod.splits option.splits)

lemma replaceConfig_done:
  assumes "replaceConfig e ops input r d = (None, r', d')"
  obtains newCfg pkstr oldServices svcs where
    "decodeConfig ops input = Inr newCfg" "PrivKey (cIdentity newCfg) = []"
    "getConfig e PrivKeySelector r d = Inr (JStr pkstr)"
    "getRemotePinningServices e ops r d = Inr oldServices"
    "length (RemoteServices newCfg) = length oldServices"
    "reapplyServices oldServices (RemoteServices newCfg) = Inr svcs"
    "r' = r\<lparr> fr_config := Some (newCfg\<lparr> cIdentity := (cIdentity newCfg)\<lparr> PrivKey := pkstr \<rparr>, RemoteServices := svcs \<rparr>) \<rparr>"
proof -
  from assms obtain newCfg where n: "decodeConfig ops input = Inr newCfg" "PrivKey (cIdentity newCfg) = []"
    by (auto simp: replaceConfig_def split: sum.splits if_splits)
  with assms obtain pkstr where pk: "getConfig e PrivKeySelector r d = Inr (JStr pkstr)"
    by (auto simp: replaceConfig_def split: sum.splits json.splits)
  with assms n obtain oldServices where old: "getRemotePinningServices e ops r d = Inr oldServices"
    "length (RemoteServices newCfg) = length oldServices"
    by (auto simp: replaceConfig_def split: sum.splits if_splits)
  with assms n pk obtain svcs where s: "reapplyServices oldServices (RemoteServices newCfg) = Inr svcs"
    by (auto simp: replaceConfig_def split: sum.splits)
  from assms n pk old s have
    "SetConfig e (baseOps ops)
       (newCfg\<lparr> cIdentity := (cIdentity newCfg)\<lparr> PrivKey := pkstr \<rparr>, RemoteServices := svcs \<rparr>) r d = (None, r', d')"
    by (auto simp: replaceConfig_def split: prod.splits)
  then show thesis by (rule that [OF n pk old s SetConfig_ok(1)])
qed

text \<open>
  When \<^verbatim>\<open>ipfs config replace\<close> succeeds, the repository has the configuration of the
  input with the private key the file had, and with the remote pinning services it had: the
  same names, each with the endpoint and the access key of the old one and only its policies
  from the input.
\<close>

theorem config_replace_keeps_secrets:
  assumes "replaceConfig e ops input r d = (None, r', d')"
    and "\<And>m svcs. decodeServices ops m = Some svcs \<Longrightarrow> distinct (map fst svcs)"
    and "\<And>j c. decodeConfig ops j = Inr c \<Longrightarrow> distinct (map fst (RemoteServices c))"
  shows "\<exists>given c olds. decodeConfig ops input = Inr given \<and> fr_config r' = Some c \<and>
      getRemotePinningServices e ops r d = Inr olds \<and>
      getConfig e PrivKeySelector r d = Inr (JStr (PrivKey (cIdentity c))) \<and>
      c = given\<lparr> cIdentity := (cIdentity given)\<lparr> PrivKey := PrivKey (cIdentity c) \<rparr>,
                 RemoteServices := RemoteServices c \<rparr> \<and>
      map fst (RemoteServices c) = map fst (RemoteServices given) \<and>
      set (map fst (RemoteServices c)) = set (map fst olds) \<and>
      (\<forall>name svc. map_of (RemoteServices c) name = Some svc \<longrightarrow>
         (\<exists>old new. map_of olds name = Some old \<and> map_of (RemoteServices given) name = Some new \<and>
            svc = new\<lparr> Endpoint := Endpoint old, svcKey := svcKey old \<rparr>))"
proof -
  obtain given pkstr olds svcs where g: "decodeConfig ops input = Inr given" "PrivKey (cIdentity given) = []"
    "getConfig e PrivKeySelector r d = Inr (JStr pkstr)" "getRemotePinningServices e ops r d = Inr olds"
    "length (RemoteServices given) = length olds" "reapplyServices olds (RemoteServices given) = Inr svcs"
    and r': "r' = r\<lparr> fr_config := Some (given\<lparr> cIdentity := (cIdentity given)\<lparr> PrivKey := pkstr \<rparr>, RemoteServices := svcs \<rparr>) \<rparr>"
    using assms(1) by (rule replaceConfig_done)
  have dold: "distinct (map fst olds)"
    using g(4) assms(2) by (auto simp: getRemotePinningServices_def split: sum.splits json.splits option.splits)
  note sp = reapplyServices_spec [OF g(6) dold]
  have names: "map fst svcs = map fst (RemoteServices given)" using sp by blast
  have sub: "set (map fst olds) \<subseteq> set (map fst svcs)"
  proof
    fix x assume "x \<in> set (map fst olds)"
    then obtain o' where "map_of olds x = Some o'" by (metis domI dom_map_of_conv_image_fst domD list.set_map)
    then obtain n' where "map_of svcs x = Some n'" using sp by blast
    then show "x \<in> set (map fst svcs)" by (metis domI dom_map_of_conv_image_fst list.set_map)
  qed
  have "card (set (map fst svcs)) = card (set (map fst olds))"
    using g(5) names dold assms(3) [OF g(1)] by (metis distinct_card length_map)
  then have same: "set (map fst svcs) = set (map fst olds)"
    using card_subset_eq [OF _ sub] by simp
  have each: "\<exists>old new. map_of olds name = Some old \<and> map_of (RemoteServices given) name = Some new \<and>
            svc = new\<lparr> Endpoint := Endpoint old, svcKey := svcKey old \<rparr>"
    if m: "map_of svcs name = Some svc" for name svc
  proof -
    have "name \<in> set (map fst olds)" using m same by (metis domI dom_map_of_conv_image_fst list.set_map)
    then obtain old where old: "map_of olds name = Some old" by (metis domD dom_map_of_conv_image_fst list.set_map)
    then obtain n' new where "map_of svcs name = Some n'" "Endpoint n' = Endpoint old" "svcKey n' = svcKey old"
      "map_of (RemoteServices given) name = Some new" "svcMFS n' = svcMFS new" using sp by blast
    then show ?thesis using m old by auto
  qed
  show ?thesis
    apply (rule exI [of _ given])
    apply (rule exI [of _ "given\<lparr> cIdentity := (cIdentity given)\<lparr> PrivKey := pkstr \<rparr>, RemoteServices := svcs \<rparr>"])
    apply (rule exI [of _ olds])
    using g r' names same each by simp
qed

section \<open>Profiles\<close>

text \<open>
  The profiles documented as inverses are.  \<^verbatim>\<open>default-networking\<close> after \<^verbatim>\<open>test\<close>
  gives back a freshly initialised configuration exactly.  \<^verbatim>\<open>local-discovery\<close> after
  \<^verbatim>\<open>server\<close> removes the filters of the server profile again and nothing else, from any
  configuration, and leaves everything else of it as it was, discovery and port mapping on.
  No profile touches the identity, the remote services or any field no profile is about.
\<close>

theorem profiles_are_inverse:
  fixes e :: "'m profileEnv" and c :: "'o Config"
  assumes "\<And>xs. mset (rangeOrder e xs) = mset xs"
    and "\<And>ps. DefaultBootstrapPeers (pe_ma e) = Some ps \<Longrightarrow> distinct (BootstrapPeerStrings (pe_ma e) ps)"
  shows "(InitWithIdentity (pe_ma e) others identity = Some c \<longrightarrow>
            Transform e pDefaultNetworking (snd (Transform e pTest c)) = (Inr (), c)) \<and>
         (let c' = snd (Transform e pLocalDiscovery (snd (Transform e pServer c))) in
            set (AddrFilters c') = set (AddrFilters c) - set defaultServerFilters \<and> distinct (AddrFilters c') \<and>
            set (aNoAnnounce (cAddresses c')) = set (aNoAnnounce (cAddresses c)) - set defaultServerFilters \<and>
            c' = c\<lparr> cAddresses := (cAddresses c)\<lparr> aNoAnnounce := aNoAnnounce (cAddresses c') \<rparr>,
                    AddrFilters := AddrFilters c', mdnsEnabled := True, DisableNatPortMap := False \<rparr>) \<and>
         (let c' = snd (Transform e p c) in
            cIdentity c' = cIdentity c \<and> RemoteServices c' = RemoteServices c \<and> cOther c' = cOther c)"
proof (intro conjI impI)
  assume "InitWithIdentity (pe_ma e) others identity = Some c"
  then obtain ps where ps: "DefaultBootstrapPeers (pe_ma e) = Some ps"
    and c: "cAddresses c = addressesConfig" "Bootstrap c = BootstrapPeerStrings (pe_ma e) ps"
      "DisableNatPortMap c = False" "mdnsEnabled c = True"
    by (auto simp: InitWithIdentity_def split: option.splits)
  have "Config.truncate c = c" by (cases c) (simp add: Config.truncate_def)
  then show "Transform e pDefaultNetworking (snd (Transform e pTest c)) = (Inr (), c)"
    using ps c appendSingle_Nil [OF assms(2) [OF ps]]
    by (cases c) (simp add: Transform_def profile_test_def profile_default_networking_def Let_def)
next
  have ord: "set (rangeOrder e xs) = set xs" "distinct (rangeOrder e xs) = distinct xs" for xs
    using mset_eq_setD [OF assms(1)] mset_eq_imp_distinct_iff [OF assms(1)] by auto
  have del: "set (deleteEntries (rangeOrder e) (appendSingle xs defaultServerFilters) defaultServerFilters)
          = set xs - set defaultServerFilters"
    "distinct (deleteEntries (rangeOrder e) (appendSingle xs defaultServerFilters) defaultServerFilters)" for xs
    using appendSingle_spec [of xs defaultServerFilters] by (auto simp: deleteEntries_def ord)
  show "let c' = snd (Transform e pLocalDiscovery (snd (Transform e pServer c))) in
            set (AddrFilters c') = set (AddrFilters c) - set defaultServerFilters \<and> distinct (AddrFilters c') \<and>
            set (aNoAnnounce (cAddresses c')) = set (aNoAnnounce (cAddresses c)) - set defaultServerFilters \<and>
            c' = c\<lparr> cAddresses := (cAddresses c)\<lparr> aNoAnnounce := aNoAnnounce (cAddresses c') \<rparr>,
                    AddrFilters := AddrFilters c', mdnsEnabled := True, DisableNatPortMap := False \<rparr>"
    by (simp add: Transform_def profile_server_def profile_local_discovery_def Let_def del)
next
  show "let c' = snd (Transform e p c) in
            cIdentity c' = cIdentity c \<and> RemoteServices c' = RemoteServices c \<and> cOther c' = cOther c"
    by (cases p) (simp_all add: Transform_def profile_server_def profile_local_discovery_def profile_test_def
          profile_default_networking_def profile_lowpower_def profile_randomports_def Let_def
          split: option.splits sum.splits)
qed

text \<open>What a profile command prints still has the access keys of the remote services.\<close>

lemma profile_apply_shows_service_keys:
  assumes "configProfileApply e ops pe temp name dryRun r d = (Inr (old, new), r', d')"
    and "fr_config r = Some c" and "ToMap ops c = Inr m"
    and "mapGet [] [''Pinning'', ''RemoteServices'', svc, ''API'', ''Key''] (JObj m) = Inr k"
  shows "mapGet [] [''Pinning'', ''RemoteServices'', svc, ''API'', ''Key''] (JObj old) = Inr k"
proof -
  have "old = scrubMapInternal m [IdentityTag, PrivKeyTag]"
    using assms(1,2,3)
    by (auto simp: configProfileApply_def transformConfig_def fsConfig_def scrubPrivKey_def map_sum_eq_Inr bindS_eq_Inr
        split: option.splits sum.splits prod.splits if_splits)
  moreover have "\<not> globMatches [''Pinning'', ''RemoteServices'', svc, ''API'', ''Key''] [IdentityTag, PrivKeyTag]"
  proof -
    have "\<not> EqualFold ''Pinning'' IdentityTag" by code_simp
    then show ?thesis using tags_star by simp
  qed
  then have "mapGet [] [''Pinning'', ''RemoteServices'', svc, ''API'', ''Key'']
      (JObj (scrubMapInternal m [IdentityTag, PrivKeyTag])) = Inr k"
    using assms(4) by (rule mapGet_scrub_keeps [THEN iffD2])
  ultimately show ?thesis by (simp only:)
qed

text \<open>
  The profiles marked \<^verbatim>\<open>InitOnly\<close> are applied to an initialised repository all the same,
  and the repository does not open any more.
\<close>

lemma init_only_profile_locks_out:
  assumes "decodeConfig ops j = Inr c" and "dsSpec (cDatastore c) = badgerSpec"
    and "cfgDatastoreSpec ops c = Some (dsSpec (cDatastore c))"
    and "cfgDatastoreType ops c = []" and "cfgDatastorePath ops c = []"
    and "AnyDatastoreConfig (dsenv e) badgerSpec = Inr dsc"
    and "readSpec (fsEnv.truncate e) d p = Inr old" and "old \<noteq> JsonFile (DiskSpec_Bytes (DiskSpecOf dsc))"
  shows "openDatastore e ops d p c = Inl SpecMismatch"
  using assms by (simp add: openDatastore_def)

section \<open>The bootstrap list and the address filters\<close>

lemma addLoop_spec:
  "set added = set l \<Longrightarrow> distinct l \<Longrightarrow> a = l \<Longrightarrow>
   (case addLoop ss (l, a, added) of
      (l', a', added') \<Rightarrow> set added' = set l' \<and> distinct l' \<and> set l' = set l \<union> set ss \<and> a' = l')"
proof (induction ss arbitrary: l a added)
  case (Cons s ss)
  show ?case
  proof (cases "s \<in> set added")
    case True
    then show ?thesis using Cons.IH [of added l a] Cons.prems by (auto simp: insert_absorb split: prod.splits)
  next
    case False
    then show ?thesis using Cons.IH [of "s # added" "l @ [s]" "a @ [s]"] Cons.prems by (auto split: prod.splits)
  qed
qed simp

lemma addBackLoop_spec:
  "set added = set l \<Longrightarrow> distinct l \<Longrightarrow>
   (case addBackLoop ss (l, added) of
      (l', added') \<Rightarrow> distinct l' \<and> set l' = set l \<union> set ss \<and> take (length l) l' = l)"
proof (induction ss arbitrary: l added)
  case (Cons s ss)
  show ?case
  proof (cases "s \<in> set added")
    case True
    then show ?thesis using Cons.IH [of added l] Cons.prems by (auto simp: insert_absorb split: prod.splits)
  next
    case False
    have t: "take (length (l @ [s])) l' = l @ [s] \<Longrightarrow> take (length l) l' = l" for l'
      by (metis append_take_drop_id length_append take_add append_eq_append_conv length_take min.absorb2 linorder_linear
          append_same_eq take_take min.absorb1 le_add1 append_eq_conv_conj)
    show ?thesis using False Cons.IH [of "s # added" "l @ [s]"] Cons.prems t by (auto split: prod.splits)
  qed
qed simp

lemma addUnique_spec:
  assumes "addUnique new old = (l, added)"
  shows "distinct l \<and> set l = set new \<union> set old \<and> distinct added \<and> set added = set new \<and>
         take (length added) l = added"
proof -
  obtain l1 a1 m1 where 1: "addLoop new ([], [], []) = (l1, a1, m1)" by (cases "addLoop new ([], [], [])") auto
  then have s1: "set m1 = set l1" "distinct l1" "set l1 = set new" "a1 = l1"
    using addLoop_spec [of "[]" "[]" "[]" new] by simp_all
  obtain l2 m2 where 2: "addBackLoop old (l1, m1) = (l2, m2)" by fastforce
  then have "distinct l2" "set l2 = set l1 \<union> set old" "take (length l1) l2 = l1"
    using addBackLoop_spec [of m1 l1 old] s1 by simp_all
  then show ?thesis using assms 1 2 s1 by (simp add: addUnique_def)
qed

lemma saveConfig_ok:
  "saveConfig e ops c r d = (None, r', d') \<Longrightarrow> r' = r\<lparr> fr_config := Some c \<rparr>"
  by (auto simp: saveConfig_def dest: SetConfig_ok(1))

definition pairsOf :: "'m AddrInfo list \<Rightarrow> (string \<times> 'm) set" where
  "pairsOf infos = (\<Union>i \<in> set infos. (\<lambda>a. (aiID i, a)) ` set (aiAddrs i))"

text \<open>What a list of addresses to remove asks for: whole peers, or single addresses.\<close>

definition asked :: "'m AddrInfo list \<Rightarrow> string \<Rightarrow> 'm \<Rightarrow> bool" where
  "asked rem i a \<longleftrightarrow> (\<exists>p \<in> set rem. aiID p = i \<and> (aiAddrs p = [] \<or> a \<in> set (aiAddrs p)))"

lemma asked_lookup:
  assumes "distinct (map aiID rem)"
  shows "asked rem i a \<longleftrightarrow>
    (case map_of (map (\<lambda>x. (aiID x, aiAddrs x)) (rev rem)) i of None \<Rightarrow> False | Some addrs \<Rightarrow> addrs = [] \<or> a \<in> set addrs)"
proof -
  let ?m = "map (\<lambda>x. (aiID x, aiAddrs x)) (rev rem)"
  have "map fst ?m = rev (map aiID rem)" by (simp add: rev_map comp_def)
  then have "distinct (map fst ?m)" using assms by simp
  then have m: "map_of ?m i = Some addrs \<longleftrightarrow> (\<exists>p \<in> set rem. aiID p = i \<and> aiAddrs p = addrs)" for addrs
    by (auto simp: map_of_eq_Some_iff image_iff)
  have "asked rem i a \<longleftrightarrow> (\<exists>addrs. map_of ?m i = Some addrs \<and> (addrs = [] \<or> a \<in> set addrs))"
    unfolding m asked_def by blast
  then show ?thesis by (cases "map_of ?m i") simp_all
qed

lemma removeFrom_pairs:
  fixes rem :: "'m AddrInfo list"
  assumes "distinct (map aiID rem)"
  shows "pairsOf (fst (removeFrom (map (\<lambda>x. (aiID x, aiAddrs x)) (rev rem)) p)) = {(i, a) \<in> pairsOf [p]. \<not> asked rem i a}"
    "pairsOf (snd (removeFrom (map (\<lambda>x. (aiID x, aiAddrs x)) (rev rem)) p)) = {(i, a) \<in> pairsOf [p]. asked rem i a}"
proof -
  let ?m = "map (\<lambda>x. (aiID x, aiAddrs x)) (rev rem)"
  note look = asked_lookup [OF assms, of "aiID p"]
  have "pairsOf (fst (removeFrom ?m p)) = {(i, a) \<in> pairsOf [p]. \<not> asked rem i a} \<and>
        pairsOf (snd (removeFrom ?m p)) = {(i, a) \<in> pairsOf [p]. asked rem i a}"
  proof (cases "map_of ?m (aiID p)")
    case None
    then show ?thesis using look by (auto simp: pairsOf_def)
  next
    case (Some addrs)
    show ?thesis
    proof (cases addrs)
      case Nil
      then show ?thesis using look Some by (auto simp: pairsOf_def)
    next
      case (Cons b bs)
      have f: "pairsOf (if xs \<noteq> [] then [\<lparr> aiID = i, aiAddrs = xs \<rparr>] else []) = Pair i ` set xs" for i and xs :: "'m list"
        by (auto simp: pairsOf_def)
      have "removeFrom ?m p =
          ((if filter (\<lambda>a. a \<notin> set addrs) (aiAddrs p) \<noteq> []
            then [\<lparr> aiID = aiID p, aiAddrs = filter (\<lambda>a. a \<notin> set addrs) (aiAddrs p) \<rparr>] else []),
           (if filter (\<lambda>a. a \<in> set addrs) (aiAddrs p) \<noteq> []
            then [\<lparr> aiID = aiID p, aiAddrs = filter (\<lambda>a. a \<in> set addrs) (aiAddrs p) \<rparr>] else []))"
        using Some Cons by (simp only: removeFrom.simps option.case list.case Let_def)
      then have "pairsOf (fst (removeFrom ?m p)) = Pair (aiID p) ` set (filter (\<lambda>a. a \<notin> set addrs) (aiAddrs p))"
        "pairsOf (snd (removeFrom ?m p)) = Pair (aiID p) ` set (filter (\<lambda>a. a \<in> set addrs) (aiAddrs p))"
        by (simp_all only: fst_conv snd_conv f)
      moreover have "asked rem (aiID p) a \<longleftrightarrow> a \<in> set addrs" for a using look Some Cons by simp
      ultimately show ?thesis by (auto simp: pairsOf_def [of "[p]"])
    qed
  qed
  then show "pairsOf (fst (removeFrom ?m p)) = {(i, a) \<in> pairsOf [p]. \<not> asked rem i a}"
    "pairsOf (snd (removeFrom ?m p)) = {(i, a) \<in> pairsOf [p]. asked rem i a}" by blast+
qed

lemma pairsOf_concat: "pairsOf (concat (map f xs)) = (\<Union>x \<in> set xs. pairsOf (f x))"
  by (auto simp: pairsOf_def)

lemma pairsOf_split: "pairsOf xs = (\<Union>x \<in> set xs. pairsOf [x])"
  by (auto simp: pairsOf_def)

text \<open>
  The bootstrap commands change the list exactly as asked.  \<^verbatim>\<open>add\<close> refuses a list with
  an address that is not a transport and a peer id; otherwise the new list has the given
  addresses first, then the old ones, every address once.  \<^verbatim>\<open>rm\<close> removes exactly the
  addresses that were given, and all addresses of a peer that was given without one, and
  reports exactly the addresses it removed.
\<close>

theorem bootstrap_list_changes_exactly:
  assumes "\<forall>ms infos. AddrInfosFromP2pAddrs mo ms = Some infos \<longrightarrow> distinct (map aiID infos)"
  shows "(bootstrapAddCmd e ops mo deflt args r d = (Inr out, r', d') \<longrightarrow>
            (\<exists>cfg bs. fr_config r = Some cfg \<and> r' = r\<lparr> fr_config := Some (cfg\<lparr> Bootstrap := bs \<rparr>) \<rparr> \<and>
               checkBootstrap mo (if deflt then DefaultBootstrapAddresses else args) = None \<and>
               distinct bs \<and> set bs = set (if deflt then DefaultBootstrapAddresses else args) \<union> set (Bootstrap cfg) \<and>
               take (length out) bs = out \<and> set out = set (if deflt then DefaultBootstrapAddresses else args))) \<and>
         (bootstrapRemoveCmd e ops mo False args r d = (Inr out, r', d') \<longrightarrow>
            (\<exists>cfg rem peers keep removed. fr_config r = Some cfg \<and> ParseBootstrapPeers mo args = Some rem \<and>
               BootstrapPeers mo cfg = Some peers \<and>
               r' = r\<lparr> fr_config := Some (cfg\<lparr> Bootstrap := BootstrapPeerStrings mo keep \<rparr>) \<rparr> \<and>
               out = BootstrapPeerStrings mo removed \<and>
               pairsOf keep = {(i, a) \<in> pairsOf peers. \<not> asked rem i a} \<and>
               pairsOf removed = {(i, a) \<in> pairsOf peers. asked rem i a}))"
proof (intro conjI impI)
  let ?given = "if deflt then DefaultBootstrapAddresses else args"
  assume "bootstrapAddCmd e ops mo deflt args r d = (Inr out, r', d')"
  then obtain cfg where c: "fr_config r = Some cfg" "bootstrapAdd e ops mo cfg ?given r d = (Inr out, r', d')"
    by (auto simp: bootstrapAddCmd_def withConfig_def fsConfig_def Let_def split: if_splits option.splits)
  obtain bs added where u: "addUnique ?given (Bootstrap cfg) = (bs, added)" by fastforce
  have chk: "checkBootstrap mo ?given = None" using c(2) by (auto simp: bootstrapAdd_def split: option.splits)
  with c(2) u have "out = added" and "saveConfig e ops (cfg\<lparr> Bootstrap := bs \<rparr>) r d = (None, r', d')"
    by (auto simp: bootstrapAdd_def split: option.splits prod.splits)
  then show "\<exists>cfg bs. fr_config r = Some cfg \<and> r' = r\<lparr> fr_config := Some (cfg\<lparr> Bootstrap := bs \<rparr>) \<rparr> \<and>
               checkBootstrap mo ?given = None \<and> distinct bs \<and> set bs = set ?given \<union> set (Bootstrap cfg) \<and>
               take (length out) bs = out \<and> set out = set ?given"
    using c(1) chk addUnique_spec [OF u] saveConfig_ok by blast
next
  assume "bootstrapRemoveCmd e ops mo False args r d = (Inr out, r', d')"
  then obtain cfg where c: "fr_config r = Some cfg" "bootstrapRemove e ops mo cfg args r d = (Inr out, r', d')"
    by (auto simp: bootstrapRemoveCmd_def withConfig_def fsConfig_def split: if_splits option.splits)
  from c(2) obtain rem where rem: "ParseBootstrapPeers mo args = Some rem"
    by (auto simp: bootstrapRemove_def split: option.splits)
  with c(2) obtain peers where peers: "BootstrapPeers mo cfg = Some peers"
    by (auto simp: bootstrapRemove_def Let_def split: option.splits)
  let ?m = "map (\<lambda>a. (aiID a, aiAddrs a)) (rev rem)"
  let ?keep = "concat (map (fst \<circ> removeFrom ?m) peers)"
  let ?removed = "concat (map (snd \<circ> removeFrom ?m) peers)"
  from c(2) rem peers have o: "out = BootstrapPeerStrings mo ?removed"
    and sv: "saveConfig e ops (SetBootstrapPeers mo ?keep cfg) r d = (None, r', d')"
    by (auto simp: bootstrapRemove_def Let_def split: option.splits prod.splits simp del: removeFrom.simps)
  have d: "distinct (map aiID rem)" using rem assms by (auto simp: ParseBootstrapPeers_def bind_eq_Some_conv)
  have k: "pairsOf ?keep = {(i, a) \<in> pairsOf peers. \<not> asked rem i a}"
    unfolding pairsOf_concat pairsOf_split [of peers] comp_def removeFrom_pairs(1) [OF d] by auto
  have rm: "pairsOf ?removed = {(i, a) \<in> pairsOf peers. asked rem i a}"
    unfolding pairsOf_concat pairsOf_split [of peers] comp_def removeFrom_pairs(2) [OF d] by auto
  have r': "r' = r\<lparr> fr_config := Some (cfg\<lparr> Bootstrap := BootstrapPeerStrings mo ?keep \<rparr>) \<rparr>"
    using saveConfig_ok [OF sv] by (simp add: SetBootstrapPeers_def)
  show "\<exists>cfg rem peers keep removed. fr_config r = Some cfg \<and> ParseBootstrapPeers mo args = Some rem \<and>
               BootstrapPeers mo cfg = Some peers \<and>
               r' = r\<lparr> fr_config := Some (cfg\<lparr> Bootstrap := BootstrapPeerStrings mo keep \<rparr>) \<rparr> \<and>
               out = BootstrapPeerStrings mo removed \<and>
               pairsOf keep = {(i, a) \<in> pairsOf peers. \<not> asked rem i a} \<and>
               pairsOf removed = {(i, a) \<in> pairsOf peers. asked rem i a}"
    using c(1) rem peers r' o k rm by blast
qed

text \<open>A peer listed without an address is lost when any of its addresses is removed.\<close>

lemma addressless_peer_vanishes:
  "map_of toRemoveMap (aiID p) = Some (a # as) \<Longrightarrow> aiAddrs p = [] \<Longrightarrow> removeFrom toRemoveMap p = ([], [])"
  by simp

section \<open>The address filters\<close>

lemma maskLoop_spec:
  assumes "\<And>msk f. set (denied fo (act msk f)) = upd msk (set (denied fo f))"
  shows "maskLoop fo act args fs = (None, fs') \<Longrightarrow>
    (\<exists>ms. map (NewMask fo) args = map Some ms \<and> set (denied fo fs') = fold upd ms (set (denied fo fs)))"
proof (induction args arbitrary: fs)
  case (Cons arg args)
  then obtain msk where m: "NewMask fo arg = Some msk" "maskLoop fo act args (act msk fs) = (None, fs')"
    by (auto split: option.splits)
  with Cons.IH obtain ms where "map (NewMask fo) args = map Some ms"
    "set (denied fo fs') = fold upd ms (set (denied fo (act msk fs)))" by blast
  then show ?case using m assms by (intro exI [of _ "msk # ms"]) simp
qed simp

lemma fold_insert: "fold insert ms S = S \<union> set ms"
  by (induction ms arbitrary: S) auto

lemma fold_delete: "fold (\<lambda>m S. S - {m}) ms S = S - set ms"
  by (induction ms arbitrary: S) auto

lemma fold_remove:
  assumes "\<And>msk f. set (denied fo (RemoveLiteral fo msk f)) = set (denied fo f) - {msk}"
  shows "set (denied fo (fold (RemoveLiteral fo) ms fs)) = set (denied fo fs) - set ms"
  by (induction ms arbitrary: fs) (auto simp: assms)

text \<open>
  The filter commands keep the configuration and the running node in step.  \<^verbatim>\<open>add\<close>
  puts the given filters in front of the configured ones, without repetition, and makes the
  node deny exactly their masks in addition; \<^verbatim>\<open>rm\<close> takes exactly the given filters out of
  the configuration, reports those that were there, and takes their masks from the node;
  \<^verbatim>\<open>rm all\<close> empties both.
\<close>

theorem filter_commands_are_exact:
  assumes add: "\<And>msk f. set (denied fo (AddFilter fo msk f)) = insert msk (set (denied fo f))"
    and rem: "\<And>msk f. set (denied fo (RemoveLiteral fo msk f)) = set (denied fo f) - {msk}"
  shows "(swarmFiltersAdd e ops fo online args r d fs = ((Inr out, r', d'), fs') \<longrightarrow>
            (\<exists>cfg l ms. fr_config r = Some cfg \<and> r' = r\<lparr> fr_config := Some (cfg\<lparr> AddrFilters := l \<rparr>) \<rparr> \<and>
               distinct l \<and> set l = set args \<union> set (AddrFilters cfg) \<and> take (length out) l = out \<and> set out = set args \<and>
               map (NewMask fo) args = map Some ms \<and> set (denied fo fs') = set (denied fo fs) \<union> set ms)) \<and>
         (swarmFiltersRm e ops fo online args r d fs = ((Inr out, r', d'), fs') \<longrightarrow> hd args \<notin> {''all'', ''*''} \<longrightarrow>
            (\<exists>cfg ms. fr_config r = Some cfg \<and> out = filter (\<lambda>f. f \<in> set args) (AddrFilters cfg) \<and>
               r' = r\<lparr> fr_config := Some (cfg\<lparr> AddrFilters := filter (\<lambda>f. f \<notin> set args) (AddrFilters cfg) \<rparr>) \<rparr> \<and>
               map (NewMask fo) args = map Some ms \<and> set (denied fo fs') = set (denied fo fs) - set ms)) \<and>
         (swarmFiltersRm e ops fo online [''all''] r d fs = ((Inr out, r', d'), fs') \<longrightarrow>
            (\<exists>cfg. fr_config r = Some cfg \<and> out = AddrFilters cfg \<and> denied fo fs' = [] \<and>
               r' = r\<lparr> fr_config := Some (cfg\<lparr> AddrFilters := [] \<rparr>) \<rparr>))"
proof (intro conjI impI)
  assume "swarmFiltersAdd e ops fo online args r d fs = ((Inr out, r', d'), fs')"
  then obtain cfg where c: "fr_config r = Some cfg" "maskLoop fo (AddFilter fo) args fs = (None, fs')"
      "filtersAdd e ops cfg args r d = (Inr out, r', d')"
    by (auto simp: swarmFiltersAdd_def fsConfig_def split: if_splits option.splits prod.splits)
  obtain l added where u: "addUnique args (AddrFilters cfg) = (l, added)" by fastforce
  with c(3) have "out = added" "saveConfig e ops (cfg\<lparr> AddrFilters := l \<rparr>) r d = (None, r', d')"
    by (auto simp: filtersAdd_def split: prod.splits option.splits)
  moreover obtain ms where "map (NewMask fo) args = map Some ms" "set (denied fo fs') = set (denied fo fs) \<union> set ms"
    using maskLoop_spec [where upd = insert, OF add c(2)] by (auto simp: fold_insert)
  ultimately show "\<exists>cfg l ms. fr_config r = Some cfg \<and> r' = r\<lparr> fr_config := Some (cfg\<lparr> AddrFilters := l \<rparr>) \<rparr> \<and>
               distinct l \<and> set l = set args \<union> set (AddrFilters cfg) \<and> take (length out) l = out \<and> set out = set args \<and>
               map (NewMask fo) args = map Some ms \<and> set (denied fo fs') = set (denied fo fs) \<union> set ms"
    using c(1) addUnique_spec [OF u] saveConfig_ok by blast
next
  assume "swarmFiltersRm e ops fo online args r d fs = ((Inr out, r', d'), fs')" "hd args \<notin> {''all'', ''*''}"
  then obtain cfg where c: "fr_config r = Some cfg" "maskLoop fo (RemoveLiteral fo) args fs = (None, fs')"
      "filtersRemove e ops cfg args r d = (Inr out, r', d')"
    by (auto simp: swarmFiltersRm_def fsConfig_def split: if_splits option.splits prod.splits)
  from c(3) have "out = filter (\<lambda>f. f \<in> set args) (AddrFilters cfg)"
    "saveConfig e ops (cfg\<lparr> AddrFilters := filter (\<lambda>f. f \<notin> set args) (AddrFilters cfg) \<rparr>) r d = (None, r', d')"
    by (auto simp: filtersRemove_def Let_def split: prod.splits option.splits)
  moreover obtain ms where "map (NewMask fo) args = map Some ms" "set (denied fo fs') = set (denied fo fs) - set ms"
    using maskLoop_spec [where upd = "\<lambda>m S. S - {m}", OF rem c(2)] by (auto simp: fold_delete)
  ultimately show "\<exists>cfg ms. fr_config r = Some cfg \<and> out = filter (\<lambda>f. f \<in> set args) (AddrFilters cfg) \<and>
               r' = r\<lparr> fr_config := Some (cfg\<lparr> AddrFilters := filter (\<lambda>f. f \<notin> set args) (AddrFilters cfg) \<rparr>) \<rparr> \<and>
               map (NewMask fo) args = map Some ms \<and> set (denied fo fs') = set (denied fo fs) - set ms"
    using c(1) saveConfig_ok by blast
next
  assume "swarmFiltersRm e ops fo online [''all''] r d fs = ((Inr out, r', d'), fs')"
  then obtain cfg where c: "fr_config r = Some cfg" "fs' = fold (RemoveLiteral fo) (denied fo fs) fs"
      "filtersRemoveAll e ops cfg r d = (Inr out, r', d')"
    by (auto simp: swarmFiltersRm_def fsConfig_def split: if_splits option.splits)
  then have "set (denied fo fs') = {}" using fold_remove [of fo, OF rem] by simp
  moreover have "out = AddrFilters cfg" "saveConfig e ops (cfg\<lparr> AddrFilters := [] \<rparr>) r d = (None, r', d')"
    using c(3) by (auto simp: filtersRemoveAll_def split: prod.splits option.splits)
  ultimately show "\<exists>cfg. fr_config r = Some cfg \<and> out = AddrFilters cfg \<and> denied fo fs' = [] \<and>
               r' = r\<lparr> fr_config := Some (cfg\<lparr> AddrFilters := [] \<rparr>) \<rparr>"
    using c(1) saveConfig_ok by simp
qed

text \<open>An argument that is no mask stops the command with the node changed and nothing saved.\<close>

lemma bad_mask_leaves_node_changed:
  "NewMask fo a = Some m \<Longrightarrow> NewMask fo b = None \<Longrightarrow> fr_config r = Some cfg \<Longrightarrow> \<not> fr_closed r \<Longrightarrow>
   swarmFiltersAdd e ops fo True [a, b] r d fs = ((Inl (BadMask b), r, d), AddFilter fo m fs)"
  by (simp add: swarmFiltersAdd_def fsConfig_def)

section \<open>Witnesses\<close>

definition demoConfig :: "unit Config" where
  "demoConfig =
     \<lparr> cIdentity = \<lparr> PeerID = ''QmSelf'', PrivKey = [] \<rparr>, cDatastore = DefaultDatastoreConfig,
       cAddresses = addressesConfig, mdnsEnabled = True, routingType = None, Bootstrap = [''b''],
       AddrFilters = [''f''], DisableNatPortMap = False, cConnMgr = emptyConnMgr,
       ServiceMode = AutoNATServiceUnset, reproviderInterval = None,
       RemoteServices = [(''s'', \<lparr> Endpoint = [], svcKey = [],
          svcMFS = \<lparr> mfsEnable = True, PinName = ''mfs'', RepinInterval = ''5m'' \<rparr> \<rparr>)],
       cOther = () \<rparr>"

definition demoOps :: "unit confOps" where
  "demoOps =
     \<lparr> decodeConfig = (\<lambda>_. Inr demoConfig), ToMap = (\<lambda>_. Inr Map.empty), cfgDatastoreType = (\<lambda>_. []),
       cfgDatastorePath = (\<lambda>_. []), cfgDatastoreSpec = (\<lambda>c. Some (dsSpec (cDatastore c))),
       cfgFilestoreEnabled = (\<lambda>_. False), cfgUrlstoreEnabled = (\<lambda>_. False),
       decodeServices = (\<lambda>_. Some [(''s'', \<lparr> Endpoint = ''https://p'', svcKey = ''K'',
          svcMFS = \<lparr> mfsEnable = False, PinName = [], RepinInterval = [] \<rparr> \<rparr>)]) \<rparr>"

definition demoDisk :: disk where
  "demoDisk = [''/r/config'' \<mapsto> JsonFile (JObj
     [''Identity'' \<mapsto> JObj [''PrivKey'' \<mapsto> JStr ''CAESQ''],
      ''Pinning'' \<mapsto> JObj [''RemoteServices'' \<mapsto> JObj [''s'' \<mapsto> JObj [''API'' \<mapsto> JObj [''Key'' \<mapsto> JStr ''K'']]]]])]"

definition demoRepo :: "unit Config FSRepo" where
  "demoRepo = \<lparr> fr_closed = False, fr_path = ''/r'', fr_configFilePath = ''/r/config'',
     fr_config = Some demoConfig, fr_ds = None, fr_keystore = None, fr_filemgr = None \<rparr>"

definition demoMa :: "string maOps" where
  "demoMa = \<lparr> NewMultiaddr = Some, maString = id, SplitP2P = (\<lambda>m. (Some m, Some m)),
     joinP2P = (\<lambda>t i. i),
     AddrInfosFromP2pAddrs = (\<lambda>ms. Some (map (\<lambda>m. \<lparr> aiID = m, aiAddrs = [m] \<rparr>) (remdups ms))) \<rparr>"

definition demoFilters :: "(string, string list) filterOps" where
  "demoFilters = \<lparr> NewMask = Some, AddFilter = List.insert, RemoveLiteral = removeAll, denied = id \<rparr>"

lemma demo_files: "configFilename okFs ''/r'' [] = Inr ''/r/config''"
proof -
  have "pathJoin [''/r'', ''config''] = ''/r/config''" by code_simp
  then show ?thesis by (simp add: configFilename_def configPath_def DefaultConfigFile_def)
qed

theorem config_output_hides_secrets_witness:
  "\<exists>shown. configShow okFs ''/r'' [] demoDisk = Inr shown \<and>
     mapGet [] [''Identity'', ''PrivKey''] (JObj shown) \<noteq> Inr (JStr ''CAESQ'')"
proof -
  have read: "osReadFile okFs demoDisk ''/r/config'' = Inr (JsonFile (JObj
     [''Identity'' \<mapsto> JObj [''PrivKey'' \<mapsto> JStr ''CAESQ''],
      ''Pinning'' \<mapsto> JObj [''RemoteServices'' \<mapsto> JObj [''s'' \<mapsto> JObj [''API'' \<mapsto> JObj [''Key'' \<mapsto> JStr ''K'']]]]]))"
    by (simp add: osReadFile_def demoDisk_def okFs_def)
  have secret: "secretPath [''Identity'', ''PrivKey'']" by code_simp
  note all = config_output_hides_secrets [where e = okFs and d = demoDisk and cfgRoot = "''/r''" and opt = "[]"
      and p = "[''Identity'', ''PrivKey'']" and fn = "''/r/config''" and y = "JStr ''CAESQ''"]
  from all obtain shown where "configShow okFs ''/r'' [] demoDisk = Inr shown"
    using demo_files read by blast
  with all secret show ?thesis by blast
qed

theorem config_replace_keeps_secrets_witness:
  "\<exists>c. fr_config (fst (snd (replaceConfig okFs demoOps JNull demoRepo demoDisk))) = Some c \<and>
     PrivKey (cIdentity c) = ''CAESQ''"
proof -
  let ?res = "replaceConfig okFs demoOps JNull demoRepo demoDisk"
  have pk: "getConfig okFs PrivKeySelector demoRepo demoDisk = Inr (JStr ''CAESQ'')"
    by (simp add: getConfig_def GetConfigKey_def demoRepo_def demoDisk_def ReadConfigFile_def osReadFile_def okFs_def
        MapGetKV_def PrivKeySelector_def)
  have dec: "decodeConfig demoOps JNull = Inr demoConfig" by (simp add: demoOps_def)
  have old: "getRemotePinningServices okFs demoOps demoRepo demoDisk = Inr [(''s'', \<lparr> Endpoint = ''https://p'', svcKey = ''K'',
          svcMFS = \<lparr> mfsEnable = False, PinName = [], RepinInterval = [] \<rparr> \<rparr>)]"
    by (simp add: demoOps_def getRemotePinningServices_def getConfig_def GetConfigKey_def
        demoRepo_def demoDisk_def ReadConfigFile_def osReadFile_def okFs_def MapGetKV_def RemoteServicesPath_def)
  have save: "fst (SetConfig okFs (baseOps demoOps) c demoRepo demoDisk) = None" for c
    by (simp add: SetConfig_def ReadConfigFile_def osReadFile_def demoDisk_def okFs_def WriteConfigFile_def
        demoOps_def cfgOps.defs demoRepo_def)
  have "fst ?res = None"
    unfolding replaceConfig_def dec pk old using save by (simp add: demoConfig_def case_prod_beta)
  then have res: "?res = (None, fst (snd ?res), snd (snd ?res))" by (metis prod.collapse)
  have "\<exists>given c olds. decodeConfig demoOps JNull = Inr given \<and> fr_config (fst (snd ?res)) = Some c \<and>
      getRemotePinningServices okFs demoOps demoRepo demoDisk = Inr olds \<and>
      getConfig okFs PrivKeySelector demoRepo demoDisk = Inr (JStr (PrivKey (cIdentity c))) \<and>
      c = given\<lparr> cIdentity := (cIdentity given)\<lparr> PrivKey := PrivKey (cIdentity c) \<rparr>,
                 RemoteServices := RemoteServices c \<rparr> \<and>
      map fst (RemoteServices c) = map fst (RemoteServices given) \<and>
      set (map fst (RemoteServices c)) = set (map fst olds) \<and>
      (\<forall>name svc. map_of (RemoteServices c) name = Some svc \<longrightarrow>
         (\<exists>old new. map_of olds name = Some old \<and> map_of (RemoteServices given) name = Some new \<and>
            svc = new\<lparr> Endpoint := Endpoint old, svcKey := svcKey old \<rparr>))"
    by (rule config_replace_keeps_secrets [OF res]) (auto simp: demoOps_def demoConfig_def)
  then show ?thesis using pk by auto
qed

theorem profiles_are_inverse_witness:
  "\<exists>c. InitWithIdentity demoMa () \<lparr> PeerID = ''QmSelf'', PrivKey = ''CAESQ'' \<rparr> = Some c \<and>
     Transform \<lparr> pe_ma = demoMa, rangeOrder = rev, availablePort = Inr 4001 \<rparr> pDefaultNetworking
       (snd (Transform \<lparr> pe_ma = demoMa, rangeOrder = rev, availablePort = Inr 4001 \<rparr> pTest c)) = (Inr (), c)"
proof -
  let ?e = "\<lparr> pe_ma = demoMa, rangeOrder = rev, availablePort = Inr 4001 \<rparr>"
  have d: "distinct (remdups xs)" for xs :: "string list" by simp
  have parsed: "parseAll demoMa xs = Some xs" for xs by (induction xs) (simp_all add: demoMa_def)
  have strs: "BootstrapPeerStrings demoMa (map (\<lambda>m. \<lparr> aiID = m, aiAddrs = [m] \<rparr>) xs) = xs" for xs
    by (induction xs) (simp_all add: BootstrapPeerStrings_def AddrInfoToP2pAddrs_def demoMa_def)
  have def: "DefaultBootstrapPeers demoMa = Some (map (\<lambda>m. \<lparr> aiID = m, aiAddrs = [m] \<rparr>) (remdups DefaultBootstrapAddresses))"
    by (simp add: DefaultBootstrapPeers_def ParseBootstrapPeers_def parsed) (simp add: demoMa_def)
  then obtain c :: "unit Config" where c: "InitWithIdentity demoMa () \<lparr> PeerID = ''QmSelf'', PrivKey = ''CAESQ'' \<rparr> = Some c"
    by (simp add: InitWithIdentity_def)
  have "Transform ?e pDefaultNetworking (snd (Transform ?e pTest c)) = (Inr (), c)"
    using profiles_are_inverse [of ?e "()" "\<lparr> PeerID = ''QmSelf'', PrivKey = ''CAESQ'' \<rparr>" c pTest] c def strs d by simp
  with c show ?thesis by blast
qed

theorem bootstrap_list_changes_exactly_witness:
  "\<exists>bs. fr_config (fst (snd (bootstrapAddCmd okFs (baseOps demoOps) demoMa False [''a'', ''b''] demoRepo demoDisk)))
      = Some (demoConfig\<lparr> Bootstrap := bs \<rparr>) \<and> set bs = {''a'', ''b''} \<and> distinct bs"
proof -
  let ?res = "bootstrapAddCmd okFs (baseOps demoOps) demoMa False [''a'', ''b''] demoRepo demoDisk"
  have "fst ?res = Inr [''a'', ''b'']"
    by (simp add: bootstrapAddCmd_def withConfig_def fsConfig_def demoRepo_def bootstrapAdd_def demoMa_def addUnique_def
        saveConfig_def SetConfig_def ReadConfigFile_def osReadFile_def demoDisk_def okFs_def WriteConfigFile_def
        demoOps_def cfgOps.defs demoConfig_def Let_def)
  then have res: "?res = (Inr [''a'', ''b''], fst (snd ?res), snd (snd ?res))" by (metis prod.collapse)
  have law: "\<forall>ms infos. AddrInfosFromP2pAddrs demoMa ms = Some infos \<longrightarrow> distinct (map aiID infos)"
    by (auto simp: demoMa_def comp_def)
  from bootstrap_list_changes_exactly [where mo = demoMa, OF law, THEN conjunct1, THEN mp, OF res]
  obtain cfg bs where c: "fr_config demoRepo = Some cfg"
    "fst (snd ?res) = demoRepo\<lparr> fr_config := Some (cfg\<lparr> Bootstrap := bs \<rparr>) \<rparr>"
    "distinct bs" "set bs = set (if False then DefaultBootstrapAddresses else [''a'', ''b'']) \<union> set (Bootstrap cfg)"
    by (elim exE conjE) (rule that)
  have cfg: "cfg = demoConfig" "Bootstrap demoConfig = [''b'']"
    using c(1) by (simp add: demoRepo_def) (simp add: demoConfig_def)
  have "fr_config (fst (snd ?res)) = Some (demoConfig\<lparr> Bootstrap := bs \<rparr>)" unfolding c(2) cfg by simp
  moreover have "set bs = {''a'', ''b''}" unfolding c(4) cfg by auto
  ultimately show ?thesis using c(3) by blast
qed

theorem filter_commands_are_exact_witness:
  "\<exists>cfg. fr_config demoRepo = Some cfg \<and>
     fst (fst (swarmFiltersRm okFs (baseOps demoOps) demoFilters True [''f''] demoRepo demoDisk [''f'', ''g''])) = Inr [''f''] \<and>
     set (snd (swarmFiltersRm okFs (baseOps demoOps) demoFilters True [''f''] demoRepo demoDisk [''f'', ''g''])) = {''g''}"
proof -
  let ?res = "swarmFiltersRm okFs (baseOps demoOps) demoFilters True [''f''] demoRepo demoDisk [''f'', ''g'']"
  have ok: "fst (fst ?res) = Inr [''f'']"
    by (simp add: swarmFiltersRm_def fsConfig_def demoRepo_def filtersRemove_def demoFilters_def Let_def
        saveConfig_def SetConfig_def ReadConfigFile_def osReadFile_def demoDisk_def okFs_def WriteConfigFile_def
        demoOps_def cfgOps.defs demoConfig_def)
  then have res: "?res = ((Inr [''f''], fst (snd (fst ?res)), snd (snd (fst ?res))), snd ?res)" by (metis prod.collapse)
  have laws: "set (denied demoFilters (AddFilter demoFilters msk f)) = insert msk (set (denied demoFilters f))"
    "set (denied demoFilters (RemoveLiteral demoFilters msk f)) = set (denied demoFilters f) - {msk}" for msk f
    by (simp_all add: demoFilters_def)
  have "hd [''f''] \<notin> {''all'', ''*''}" by simp
  from filter_commands_are_exact [where fo = demoFilters, OF laws, THEN conjunct2, THEN conjunct1, THEN mp, OF res, THEN mp, OF this]
  obtain cfg ms where c: "fr_config demoRepo = Some cfg" "map (NewMask demoFilters) [''f''] = map Some ms"
    "set (denied demoFilters (snd ?res)) = set (denied demoFilters [''f'', ''g'']) - set ms"
    by (elim exE conjE) (rule that)
  have ops: "NewMask demoFilters = Some" "denied demoFilters = id" by (simp_all add: demoFilters_def)
  have "ms = [''f'']" using c(2) by (cases ms) (auto simp: ops)
  with c(3) have "set (snd ?res) = {''g''}" by (simp only: ops id_apply) auto
  with c(1) ok show ?thesis by blast
qed

end
