(* ===== verification/KeystoreProps.thy ===== *)
theory KeystoreProps
  imports Keystore ConfigProps
begin

text \<open>
  Keys are never lost by renaming or rotating, an exported key can be imported again, and
  escaped names are printable and still tell names apart.
\<close>

section \<open>What the keystore documents\<close>

text \<open>\<open>keysOf\<close> are the keys it holds; a key is never overwritten by \<^verbatim>\<open>Put\<close>, and an
  operation that fails changes nothing.\<close>

definition lawful :: "('k, 's) ksOps \<Rightarrow> ('s \<Rightarrow> string \<Rightarrow> 'k option) \<Rightarrow> bool" where
  "lawful ks keysOf \<longleftrightarrow>
     (\<forall>n s k. ksGet ks n s = Inr k \<longrightarrow> keysOf s n = Some k) \<and>
     (\<forall>n s b. ksHas ks n s = Inr b \<longrightarrow> b = (keysOf s n \<noteq> None)) \<and>
     (\<forall>n k s. keysOf (snd (ksPut ks n k s)) =
        (if fst (ksPut ks n k s) = None then (keysOf s)(n \<mapsto> k) else keysOf s) \<and>
        (fst (ksPut ks n k s) = None \<longrightarrow> keysOf s n = None)) \<and>
     (\<forall>n s. keysOf (snd (ksDelete ks n s)) =
        (if fst (ksDelete ks n s) = None then (keysOf s)(n := None) else keysOf s))"

lemma lawful_get: "lawful ks keysOf \<Longrightarrow> ksGet ks n s = Inr k \<Longrightarrow> keysOf s n = Some k"
  by (simp add: lawful_def)

lemma lawful_has: "lawful ks keysOf \<Longrightarrow> ksHas ks n s = Inr b \<Longrightarrow> b \<longleftrightarrow> keysOf s n \<noteq> None"
  by (simp add: lawful_def)

lemma lawful_put:
  assumes "lawful ks keysOf" and "ksPut ks n k s = (err, s')"
  shows "keysOf s' = (if err = None then (keysOf s)(n \<mapsto> k) else keysOf s)" and "err = None \<Longrightarrow> keysOf s n = None"
proof -
  have "keysOf (snd (ksPut ks n k s)) = (if fst (ksPut ks n k s) = None then (keysOf s)(n \<mapsto> k) else keysOf s) \<and>
        (fst (ksPut ks n k s) = None \<longrightarrow> keysOf s n = None)"
    using assms(1) unfolding lawful_def by blast
  then show "keysOf s' = (if err = None then (keysOf s)(n \<mapsto> k) else keysOf s)" "err = None \<Longrightarrow> keysOf s n = None"
    by (simp_all add: assms(2))
qed

lemma lawful_delete:
  assumes "lawful ks keysOf" and "ksDelete ks n s = (err, s')"
  shows "keysOf s' = (if err = None then (keysOf s)(n := None) else keysOf s)"
proof -
  have "keysOf (snd (ksDelete ks n s)) = (if fst (ksDelete ks n s) = None then (keysOf s)(n := None) else keysOf s)"
    using assms(1) unfolding lawful_def by blast
  then show ?thesis by (simp add: assms(2))
qed

section \<open>Renaming\<close>

lemma clearTarget_keys:
  assumes "lawful ks keysOf" and "clearTarget ks n force s = (res, s')"
  shows "case res of
     Inl _ \<Rightarrow> keysOf s' = keysOf s
   | Inr ow \<Rightarrow> if force then keysOf s' = (keysOf s)(n := None) \<and> (ow \<longleftrightarrow> keysOf s n \<noteq> None)
               else s' = s \<and> \<not> ow"
proof (cases force)
  case False
  then show ?thesis using assms(2) by (auto simp: clearTarget_def)
next
  case True
  show ?thesis
  proof (cases "ksHas ks n s")
    case (Inl err)
    then show ?thesis using assms(2) True by (auto simp: clearTarget_def)
  next
    case (Inr b)
    note has = lawful_has [OF assms(1) Inr]
    show ?thesis
    proof (cases b)
      case False
      then show ?thesis using assms(2) True Inr has by (auto simp: clearTarget_def fun_eq_iff)
    next
      case b: True
      obtain err s1 where del: "ksDelete ks n s = (err, s1)" by (cases "ksDelete ks n s")
      note keys = lawful_delete [OF assms(1) del]
      show ?thesis using assms(2) True Inr b has del keys by (cases err) (auto simp: clearTarget_def)
    qed
  qed
qed

text \<open>
  C17. Whatever fails on the way, renaming does not lose the key: afterwards it is under the
  old name or under the new one, and every other name is as before.  Success moves it, and
  reports an overwritten key exactly when there was one.  Without force an existing key is
  not touched.
\<close>

theorem renaming_never_loses_the_key:
  assumes "lawful ks keysOf" and "ksGet ks oldName s = Inr k"
    and "Rename ks ko oldName newName force s = (res, s')"
  shows "(keysOf s' oldName = Some k \<or> keysOf s' newName = Some k) \<and>
    (\<forall>n. n \<notin> {oldName, newName} \<longrightarrow> keysOf s' n = keysOf s n) \<and>
    (\<forall>key overwrite. res = Inr (key, overwrite, None) \<and> newName \<noteq> oldName \<longrightarrow>
       keysOf s' = (keysOf s)(oldName := None, newName \<mapsto> k) \<and> keyName key = newName \<and>
       (overwrite \<longleftrightarrow> keysOf s newName \<noteq> None)) \<and>
    (\<not> force \<and> keysOf s newName \<noteq> None \<and> newName \<noteq> oldName \<longrightarrow>
       (\<exists>err. res = Inl err) \<and> keysOf s' = keysOf s)"
proof -
  have k: "keysOf s oldName = Some k" by (rule lawful_get [OF assms(1,2)])
  show ?thesis
  proof (cases "oldName = ''self'' \<or> newName = ''self''")
    case True
    then have "res = Inl ReservedName" "s' = s"
      using assms(3) by (cases "oldName = ''self''"; simp add: Rename_def)+
    then show ?thesis using k by simp
  next
    case names: False
    show ?thesis
    proof (cases "IDFromKey ko k")
      case (Inl err)
      then show ?thesis using assms(2,3) k names by (auto simp: Rename_def)
    next
      case pid: (Inr pid)
      show ?thesis
      proof (cases "newName = oldName")
        case True
        then show ?thesis using assms(2,3) k names pid by (auto simp: Rename_def)
      next
        case ne: False
        obtain cr s1 where cl: "clearTarget ks newName force s = (cr, s1)" by (cases "clearTarget ks newName force s")
        note ck = clearTarget_keys [OF assms(1) cl]
        show ?thesis
        proof (cases cr)
          case (Inl err)
          then have "res = Inl err" "s' = s1" using assms(2,3) names pid ne cl by (auto simp: Rename_def)
          then show ?thesis using ck Inl k by simp
        next
          case (Inr ow)
          obtain pe s2 where put: "ksPut ks newName k s1 = (pe, s2)" by (cases "ksPut ks newName k s1")
          note pk = lawful_put [OF assms(1) put]
          have s1: "keysOf s1 oldName = Some k" "\<And>n. n \<noteq> newName \<Longrightarrow> keysOf s1 n = keysOf s n"
            using ck Inr k ne by (auto split: if_splits)
          show ?thesis
          proof (cases pe)
            case (Some err)
            then have "res = Inl (KeyFailed err)" "s' = s2"
              using assms(2,3) names pid ne cl Inr put by (auto simp: Rename_def)
            then show ?thesis using pk(1) Some s1 ck Inr by (auto split: if_splits)
          next
            case None
            obtain de s3 where del: "ksDelete ks oldName s2 = (de, s3)" by (cases "ksDelete ks oldName s2")
            note dk = lawful_delete [OF assms(1) del]
            have r: "res = Inr (\<lparr> keyName = newName, keyID = pid \<rparr>, ow, de)" "s' = s3"
              using assms(2,3) names pid ne cl Inr put None del by (auto simp: Rename_def)
            have new: "keysOf s3 newName = Some k" using dk pk(1) None ne by auto
            have others: "keysOf s3 n = keysOf s n" if "n \<notin> {oldName, newName}" for n
              using that dk pk(1) None s1(2) by auto
            have moved: "keysOf s3 = (keysOf s)(oldName := None, newName \<mapsto> k)" if "de = None"
              using that dk pk(1) None s1(2) ne by (auto simp: fun_eq_iff)
            have over: "ow \<longleftrightarrow> keysOf s newName \<noteq> None"
              using ck Inr pk(2) [OF None] by (cases force) auto
            have "force \<or> keysOf s newName = None" using ck Inr pk(2) [OF None] by (cases force) auto
            then show ?thesis using r new others moved over by auto
          qed
        qed
      qed
    qed
  qed
qed

section \<open>Rotating the identity\<close>

text \<open>
  C22. Rotating the identity never loses the old private key.  After success the keystore
  has it under the given name and the configuration has the new identity; after a failure
  the keystore has it, or neither the disk nor the configuration has been touched.
\<close>

theorem rotation_never_loses_the_identity:
  assumes "lawful ks keysOf" and "fr_config r = Some cfg" and "\<not> fr_closed r"
    and "DecodePrivateKey ko (cIdentity cfg) = Inr old"
    and "doRotate e ops ks ko oldKey algorithm nBits r d s = (err, (r', d'), s')"
  shows "(err = None \<longrightarrow> keysOf s' oldKey = Some old \<and>
       (\<exists>identity. CreateIdentity ko algorithm (case nBits of None \<Rightarrow> -1 | Some n \<Rightarrow> n) = Inr identity \<and>
          fr_config r' = Some (cfg\<lparr> cIdentity := identity \<rparr>))) \<and>
     (err \<noteq> None \<longrightarrow> keysOf s' oldKey = Some old \<or> (d' = d \<and> r' = r)) \<and>
     (\<forall>n. n \<noteq> oldKey \<longrightarrow> keysOf s' n = keysOf s n)"
proof -
  have cfg: "fsConfig r = Inr (Some cfg)" using assms(2,3) by (simp add: fsConfig_def)
  show ?thesis
  proof (cases "CreateIdentity ko algorithm (case nBits of None \<Rightarrow> -1 | Some n \<Rightarrow> n)")
    case (Inl err')
    then show ?thesis using assms(5) cfg by (auto simp: doRotate_def)
  next
    case id: (Inr identity)
    obtain pe s1 where put: "ksPut ks oldKey old s = (pe, s1)" by (cases "ksPut ks oldKey old s")
    note pk = lawful_put [OF assms(1) put]
    show ?thesis
    proof (cases pe)
      case (Some err')
      then show ?thesis using assms(4,5) cfg id put pk by (auto simp: doRotate_def)
    next
      case None
      obtain se r1 d1 where save: "saveConfig e ops (cfg\<lparr> cIdentity := identity \<rparr>) r d = (se, r1, d1)"
        by (cases "saveConfig e ops (cfg\<lparr> cIdentity := identity \<rparr>) r d") auto
      have res: "s' = s1" "r' = r1" "(err = None) = (se = None)"
        using assms(4,5) cfg id put None save by (auto simp: doRotate_def split: option.splits)
      have "se = None \<Longrightarrow> fr_config r1 = Some (cfg\<lparr> cIdentity := identity \<rparr>)"
        using save by (auto simp: saveConfig_def dest: SetConfig_ok(1))
      then show ?thesis using res pk(1) None id by auto
    qed
  qed
qed

section \<open>Export and import\<close>

lemma keyExport_ok:
  assumes "keyExportCmd ks ko version format name s = Inr bytes"
  shows "\<exists>k. ksGet ks name s = Inr k \<and>
    (format = pemFormat \<and> toPKCS8 ko k = Inr bytes \<or>
     format \<noteq> pemFormat \<and> format = libp2pFormat \<and> MarshalPrivateKey ko k = Inr bytes)"
proof -
  obtain ver where "version = Inr ver" "ver = theRepoVersion" "name \<noteq> ''self''"
    using assms by (cases version) (auto simp: keyExportCmd_def split: if_splits)
  with assms show ?thesis
    by (cases "ksGet ks name s"; cases "format = pemFormat"; cases "format = libp2pFormat")
       (auto simp: keyExportCmd_def map_sum_eq_Inr)
qed

text \<open>
  A key that is exported, in either format, and imported again under a free name is the
  same key.
\<close>

theorem exported_key_imports_again:
  assumes "lawful ks keysOf" and "keyExportCmd ks ko version format name s = Inr bytes"
    and "\<forall>k b. MarshalPrivateKey ko k = Inr b \<longrightarrow> UnmarshalPrivateKey ko b = Inr k"
    and "\<forall>k b. toPKCS8 ko k = Inr b \<longrightarrow> fromPKCS8 ko b = Inr k"
    and "\<forall>t b. pemDecode ko (pemEncode ko t b) = Some (t, b)"
    and "keyImportCmd ks ko fmt True format (True, None, Some (exportContent ko format bytes)) newName s2 = (Inr out, s3)"
  shows "\<exists>k. keysOf s name = Some k \<and> keysOf s2 newName = None \<and> keysOf s3 = (keysOf s2)(newName \<mapsto> k) \<and>
     koName out = newName \<and> map_sum id fmt (IDFromKey ko k) = Inr (koId out)"
proof -
  from keyExport_ok [OF assms(2)] obtain k where k: "ksGet ks name s = Inr k"
    and f: "format = pemFormat \<and> toPKCS8 ko k = Inr bytes \<or>
      format \<noteq> pemFormat \<and> format = libp2pFormat \<and> MarshalPrivateKey ko k = Inr bytes" by blast
  have bytes: "pemDecode ko (pemEncode ko ''PRIVATE KEY'' bytes) = Some (''PRIVATE KEY'', bytes)" using assms(5) by blast
  have "decodeKey ko format (exportContent ko format bytes) = Inr k"
  proof (cases "format = pemFormat")
    case True
    then have "fromPKCS8 ko bytes = Inr k" using f assms(4) by blast
    then show ?thesis using True by (simp add: decodeKey_def exportContent_def bytes)
  next
    case False
    then have "format = libp2pFormat" "UnmarshalPrivateKey ko bytes = Inr k" using f assms(3) by blast+
    then show ?thesis using False by (simp add: decodeKey_def exportContent_def)
  qed
  then have dec: "bindS (map_sum NoFileArg id (GetFileArg (True, None, Some (exportContent ko format bytes)))) (decodeKey ko format) = Inr k"
    by (simp add: GetFileArg_def)
  obtain pe s4 where put: "ksPut ks newName k s2 = (pe, s4)" by (cases "ksPut ks newName k s2")
  have imp: "pe = None \<and> s3 = s4 \<and> bindS (liftK (IDFromKey ko k)) (\<lambda>pid. Inr \<lparr> koName = newName, koId = fmt pid \<rparr>) = Inr out"
    using assms(6) by (cases "newName = ''self''"; cases "ksGet ks newName s2"; cases pe) (simp_all add: keyImportCmd_def dec put)
  then obtain pid where "IDFromKey ko k = Inr pid" "out = \<lparr> koName = newName, koId = fmt pid \<rparr>"
    by (auto simp: bindS_eq_Inr map_sum_eq_Inr)
  then show ?thesis
    using imp lawful_get [OF assms(1) k] lawful_put [OF assms(1) put] by auto
qed

section \<open>Escaped names\<close>

text \<open>One code point of the escaped form: as quoted, but for the quote itself.\<close>

definition escRune :: "(nat \<Rightarrow> bool) \<Rightarrow> nat \<Rightarrow> runes" where
  "escRune pr r = (if r = 34 then [34] else quoteRune pr r)"

lemma hexDigits_length [simp]: "length (hexDigits k n) = k"
  by (induction k arbitrary: n) simp_all

lemma hexDigit_range: "n < 16 \<Longrightarrow> 48 \<le> hexDigit n \<and> hexDigit n < 58 \<or> 97 \<le> hexDigit n \<and> hexDigit n < 103"
  by (auto simp: hexDigit_def)

lemma hexDigit_inj: "m < 16 \<Longrightarrow> n < 16 \<Longrightarrow> hexDigit m = hexDigit n \<Longrightarrow> m = n"
  by (auto simp: hexDigit_def split: if_splits)

lemma hexDigits_range: "x \<in> set (hexDigits k n) \<Longrightarrow> 48 \<le> x \<and> x < 58 \<or> 97 \<le> x \<and> x < 103"
proof (induction k arbitrary: n)
  case (Suc k)
  then show ?case using hexDigit_range [of "n mod 16"] by (cases "x \<in> set (hexDigits k (n div 16))") auto
qed simp

lemma hexDigits_inj: "m < 16 ^ k \<Longrightarrow> n < 16 ^ k \<Longrightarrow> hexDigits k m = hexDigits k n \<Longrightarrow> m = n"
proof (induction k arbitrary: m n)
  case 0
  then show ?case by simp
next
  case (Suc k)
  have "m div 16 < 16 ^ k" "n div 16 < 16 ^ k" using Suc.prems(1,2) by (simp_all add: less_mult_imp_div_less)
  moreover have "hexDigits k (m div 16) = hexDigits k (n div 16)" "hexDigit (m mod 16) = hexDigit (n mod 16)"
    using Suc.prems(3) by simp_all
  ultimately have "m div 16 = n div 16" "m mod 16 = n mod 16" using Suc.IH hexDigit_inj by simp_all
  then show ?case by (metis div_mult_mod_eq)
qed

lemma hexDigits_248_inj:
  "m < 256 \<Longrightarrow> n < 256 \<Longrightarrow> hexDigits 2 m = hexDigits 2 n \<Longrightarrow> m = n" (is "PROP ?two")
  "m < 65536 \<Longrightarrow> n < 65536 \<Longrightarrow> hexDigits 4 m = hexDigits 4 n \<Longrightarrow> m = n" (is "PROP ?four")
  "m < 4294967296 \<Longrightarrow> n < 4294967296 \<Longrightarrow> hexDigits 8 m = hexDigits 8 n \<Longrightarrow> m = n" (is "PROP ?eight")
proof -
  show "PROP ?two" by (rule hexDigits_inj [of m 2]) simp_all
  show "PROP ?four" by (rule hexDigits_inj [of m 4]) simp_all
  show "PROP ?eight" by (rule hexDigits_inj [of m 8]) simp_all
qed

text \<open>The cases of \<^verbatim>\<open>strconv.Quote\<close> on one code point.\<close>

definition letterEscapes :: "(nat \<times> nat) list" where
  "letterEscapes = [(7, 97), (8, 98), (12, 102), (10, 110), (13, 114), (9, 116), (11, 118)]"

lemma escRune_cases:
  assumes "r < 16 ^ 8"
  obtains "escRune pr r = [r]" "r \<noteq> 92" "IsPrint pr r"
  | "escRune pr r = [92, 92]" "r = 92"
  | l where "escRune pr r = [92, l]" "(r, l) \<in> set letterEscapes"
  | "escRune pr r = [92, 120] @ hexDigits 2 r" "r < 16 ^ 2"
  | "escRune pr r = [92, 117] @ hexDigits 4 r" "r < 16 ^ 4"
  | "escRune pr r = [92, 85] @ hexDigits 8 r" "r < 16 ^ 8"
proof (cases "r = 34 \<or> r = 92 \<or> IsPrint pr r")
  case True
  then consider "r = 34" | "r = 92" | "r \<noteq> 34" "r \<noteq> 92" "IsPrint pr r" by blast
  then show thesis
  proof cases
    case 1
    then show thesis by (intro that(1)) (simp_all add: escRune_def IsPrint_def)
  next
    case 2
    then show thesis by (intro that(2)) (simp_all add: escRune_def quoteRune_def)
  next
    case 3
    then show thesis by (intro that(1)) (simp_all add: escRune_def quoteRune_def)
  qed
next
  case False
  then have other: "r \<noteq> 34" "r \<noteq> 92" "\<not> IsPrint pr r" by simp_all
  show thesis
  proof (cases "map_of letterEscapes r")
    case (Some l)
    have "quoteRune pr r = [92, l]"
      using Some other by (simp add: quoteRune_def letterEscapes_def split: if_splits)
    then show thesis using that(3) [of l] other map_of_SomeD [OF Some] by (simp add: escRune_def)
  next
    case None
    then have n: "r \<noteq> 7" "r \<noteq> 8" "r \<noteq> 12" "r \<noteq> 10" "r \<noteq> 13" "r \<noteq> 9" "r \<noteq> 11"
      by (simp_all add: letterEscapes_def split: if_splits)
    have e: "escRune pr r =
        (if r < 32 \<or> r = 127 then [92, 120] @ hexDigits 2 r
         else if r < 65536 then [92, 117] @ hexDigits 4 r else [92, 85] @ hexDigits 8 r)"
      using other n by (simp add: escRune_def quoteRune_def)
    consider "r < 32 \<or> r = 127" | "\<not> (r < 32 \<or> r = 127)" "r < 65536" | "\<not> (r < 32 \<or> r = 127)" "\<not> r < 65536"
      by blast
    then show thesis
    proof cases
      case 1
      then have "r < 16 ^ 2" by auto
      with 1 show thesis by (intro that(4)) (simp_all only: e if_True)
    next
      case 2
      then have "r < 16 ^ 4" by simp
      with 2 show thesis by (intro that(5)) (simp_all only: e if_True if_False)
    next
      case 3
      with assms show thesis by (intro that(6)) (simp_all only: e if_False)
    qed
  qed
qed

lemma escRune_prefix_free:
  assumes "r < 16 ^ 8" and "q < 16 ^ 8" and "escRune pr r @ x = escRune pr q @ y"
  shows "r = q \<and> x = y"
  using assms(3)
  by (cases rule: escRune_cases [OF assms(1), of pr]; cases rule: escRune_cases [OF assms(2), of pr])
     (auto simp: letterEscapes_def dest: hexDigits_248_inj)

lemma escRune_printable:
  assumes "r < 16 ^ 8" and "x \<in> set (escRune pr r)"
  shows "IsPrint pr x"
proof -
  have ascii: "32 \<le> y \<Longrightarrow> y < 127 \<Longrightarrow> IsPrint pr y" for y by (simp add: IsPrint_def)
  have hex: "x \<in> set (hexDigits k n) \<Longrightarrow> IsPrint pr x" for k n using hexDigits_range ascii by fastforce
  show ?thesis
    using assms(2)
    by (cases rule: escRune_cases [OF assms(1), of pr]) (auto simp: letterEscapes_def intro: ascii hex)
qed

lemma escRune_not_Nil: "r < 16 ^ 8 \<Longrightarrow> escRune pr r \<noteq> []"
  by (cases rule: escRune_cases [of r pr]) auto

lemma unescapeQuotes_plain:
  "34 \<notin> set u \<Longrightarrow> t = [] \<or> hd t \<noteq> 34 \<Longrightarrow> unescapeQuotes (u @ t) = u @ unescapeQuotes t"
proof (induction u)
  case (Cons a u)
  show ?case
  proof (cases "u @ t")
    case Nil
    then show ?thesis by simp
  next
    case (Cons b v)
    then have "b \<noteq> 34" using Cons.prems by (cases u) auto
    then show ?thesis using Cons Cons.IH Cons.prems by auto
  qed
qed simp

lemma quoteRune_head: "quoteRune pr r \<noteq> [] \<and> hd (quoteRune pr r) \<noteq> 34"
  by (simp add: quoteRune_def)

lemma quoteRune_no_quote: "r \<noteq> 34 \<Longrightarrow> 34 \<notin> set (quoteRune pr r)"
proof -
  have "34 \<notin> set (hexDigits k n)" for k n using hexDigits_range [of 34 k n] by auto
  then show "r \<noteq> 34 \<Longrightarrow> ?thesis" by (simp add: quoteRune_def)
qed

lemma unescape_quoted:
  "unescapeQuotes (concat (map (quoteRune pr) s)) = concat (map (escRune pr) s)"
proof (induction s)
  case (Cons r s)
  let ?t = "concat (map (quoteRune pr) s)"
  have t: "?t = [] \<or> hd ?t \<noteq> 34" using quoteRune_head by (cases s) auto
  show ?case
  proof (cases "r = 34")
    case True
    then show ?thesis using Cons by (simp add: quoteRune_def escRune_def)
  next
    case False
    then show ?thesis
      using unescapeQuotes_plain [OF quoteRune_no_quote t] Cons by (simp add: escRune_def)
  qed
qed simp

lemma EscNonPrint_runes: "EscNonPrint pr s = concat (map (escRune pr) s)"
proof (cases "needEscape pr s")
  case True
  then show ?thesis by (simp add: EscNonPrint_def unescape_quoted)
next
  case False
  then have "\<forall>r \<in> set s. escRune pr r = [r]" by (auto simp: needEscape_def escRune_def quoteRune_def)
  then have "concat (map (escRune pr) s) = s" by (induction s) simp_all
  with False show ?thesis by (simp add: EscNonPrint_def)
qed

lemma escaped_inj:
  "list_all (\<lambda>r. r < 16 ^ 8) s \<Longrightarrow> list_all (\<lambda>r. r < 16 ^ 8) t \<Longrightarrow>
   concat (map (escRune pr) s) = concat (map (escRune pr) t) \<Longrightarrow> s = t"
proof (induction s arbitrary: t)
  case Nil
  then show ?case using escRune_not_Nil by (cases t) auto
next
  case (Cons r s)
  obtain q t' where t: "t = q # t'" using Cons.prems escRune_not_Nil by (cases t) auto
  have "r = q \<and> concat (map (escRune pr) s) = concat (map (escRune pr) t')"
    using escRune_prefix_free [of r q pr] Cons.prems by (simp add: t)
  then show ?case using Cons t by simp
qed

text \<open>
  What a command prints of a name cannot control the terminal and cannot be mistaken
  for another name: every code point of the escaped form is printable, and different names
  have different escaped forms.
\<close>

theorem escaped_names_are_printable_and_distinct:
  assumes "list_all (\<lambda>r. r < 16 ^ 8) s"
  shows "list_all (IsPrint pr) (EscNonPrint pr s) \<and>
    (\<forall>t. list_all (\<lambda>r. r < 16 ^ 8) t \<and> EscNonPrint pr t = EscNonPrint pr s \<longrightarrow> t = s)"
proof -
  have "IsPrint pr x" if "x \<in> set (EscNonPrint pr s)" for x
    using that assms escRune_printable by (auto simp: EscNonPrint_runes list_all_iff)
  then show ?thesis using escaped_inj [OF _ assms, of _ pr] by (auto simp: EscNonPrint_runes list_all_iff)
qed

section \<open>Witnesses\<close>

text \<open>A keystore as a list of names and keys; a key is a text and its own encoding.\<close>

definition demoKeys :: "(string, (string \<times> string) list) ksOps" where
  "demoKeys =
     \<lparr> ksHas = (\<lambda>n s. Inr (map_of s n \<noteq> None)),
       ksGet = (\<lambda>n s. case map_of s n of None \<Rightarrow> Inl ''none'' | Some k \<Rightarrow> Inr k),
       ksPut = (\<lambda>n k s. if map_of s n = None then (None, (n, k) # s) else (Some ''exists'', s)),
       ksDelete = (\<lambda>n s. (None, AList.delete n s)), ksList = (\<lambda>s. Inr (map fst s)) \<rparr>"

definition demoKo :: "string keyOps" where
  "demoKo =
     \<lparr> generateRSA = (\<lambda>n. Inr ''rsa''), generateEd25519 = Inr ''new'', IDFromKey = Inr, MarshalPrivateKey = Inr,
       UnmarshalPrivateKey = Inr, toPKCS8 = Inr, fromPKCS8 = Inr,
       pemEncode = (\<lambda>t b. replicate (length t) CHR ''x'' @ CHR ''|'' # t @ b),
       pemDecode = (\<lambda>p. let n = length (takeWhile (\<lambda>c. c = CHR ''x'') p); q = drop (Suc n) p in Some (take n q, drop n q)),
       keyTypeOf = (\<lambda>_. Ed25519Key), base64Encode = id, base64Decode = Inr, DefaultRSALen = 2048 \<rparr>"

lemma demoKeys_lawful: "lawful demoKeys map_of"
  by (auto simp: lawful_def demoKeys_def delete_conv' split: option.splits)

theorem renaming_never_loses_the_key_witness:
  "map_of (snd (Rename demoKeys demoKo ''a'' ''b'' True [(''a'', ''K''), (''b'', ''L'')])) = [''b'' \<mapsto> ''K'']"
proof -
  let ?s = "[(''a'', ''K''), (''b'', ''L'')]"
  let ?res = "Rename demoKeys demoKo ''a'' ''b'' True ?s"
  have get: "ksGet demoKeys ''a'' ?s = Inr ''K''" by (simp add: demoKeys_def)
  have "fst ?res = Inr (\<lparr> keyName = ''b'', keyID = ''K'' \<rparr>, True, None)"
    by (simp add: Rename_def clearTarget_def demoKeys_def demoKo_def)
  then have res: "?res = (Inr (\<lparr> keyName = ''b'', keyID = ''K'' \<rparr>, True, None), snd ?res)" by (metis prod.collapse)
  from renaming_never_loses_the_key [OF demoKeys_lawful get res]
  have "map_of (snd ?res) = (map_of ?s)(''a'' := None, ''b'' \<mapsto> ''K'')" by blast
  then show ?thesis by (simp add: fun_eq_iff)
qed

theorem rotation_never_loses_the_identity_witness:
  "\<exists>res. doRotate okFs (baseOps demoOps) demoKeys demoKo ''old'' ''ed25519'' None demoRepo demoDisk [] = res \<and>
     fst res = None \<and> map_of (snd (snd res)) ''old'' = Some []"
proof -
  let ?res = "doRotate okFs (baseOps demoOps) demoKeys demoKo ''old'' ''ed25519'' None demoRepo demoDisk []"
  have cfg: "fr_config demoRepo = Some demoConfig" "\<not> fr_closed demoRepo" by (simp_all add: demoRepo_def)
  have old: "DecodePrivateKey demoKo (cIdentity demoConfig) = Inr []"
    by (simp add: DecodePrivateKey_def demoKo_def demoConfig_def)
  have "fst (SetConfig okFs (baseOps demoOps) c (demoRepo\<lparr> fr_config := Some c \<rparr>) demoDisk) = None" for c
    by (simp add: SetConfig_def ReadConfigFile_def osReadFile_def demoDisk_def okFs_def WriteConfigFile_def
        demoOps_def cfgOps.defs demoRepo_def)
  then have save: "fst (saveConfig okFs (baseOps demoOps) c demoRepo demoDisk) = None" for c
    by (simp add: saveConfig_def)
  have ident: "CreateIdentity demoKo ''ed25519'' (- 1) = Inr \<lparr> PeerID = ''new'', PrivKey = ''new'' \<rparr>"
    by (simp add: CreateIdentity_def demoKo_def)
  have put: "ksPut demoKeys ''old'' k [] = (None, [(''old'', k)])" for k by (simp add: demoKeys_def)
  have "fst ?res = None"
    by (simp add: doRotate_def fsConfig_def cfg old case_prod_beta save ident put)
  then have res: "?res = (None, (fst (fst (snd ?res)), snd (fst (snd ?res))), snd (snd ?res))" by (metis prod.collapse)
  have "map_of (snd (snd ?res)) ''old'' = Some []"
    using rotation_never_loses_the_identity [OF demoKeys_lawful cfg old res] by simp
  with res show ?thesis by (metis fst_conv)
qed

theorem exported_key_imports_again_witness:
  "map_of (snd (keyImportCmd demoKeys demoKo id True pemFormat
      (True, None, Some (exportContent demoKo pemFormat ''K'')) ''b'' [])) = [''b'' \<mapsto> ''K'']"
proof -
  let ?res = "keyImportCmd demoKeys demoKo id True pemFormat (True, None, Some (exportContent demoKo pemFormat ''K'')) ''b'' []"
  have tw: "takeWhile (\<lambda>c. c = CHR ''x'') (replicate n CHR ''x'' @ CHR ''|'' # y) = replicate n CHR ''x''" for n y
    by (induction n) simp_all
  have export: "keyExportCmd demoKeys demoKo (Inr 13) pemFormat ''a'' [(''a'', ''K'')] = Inr ''K''"
    by (simp add: keyExportCmd_def theRepoVersion_def demoKeys_def demoKo_def)
  have pem: "pemDecode demoKo (pemEncode demoKo t b) = Some (t, b)" for t b
    by (simp add: demoKo_def tw Let_def)
  have "fst ?res = Inr \<lparr> koName = ''b'', koId = ''K'' \<rparr>"
    by (simp add: keyImportCmd_def GetFileArg_def decodeKey_def exportContent_def pem)
       (simp add: demoKeys_def demoKo_def)
  then have res: "?res = (Inr \<lparr> koName = ''b'', koId = ''K'' \<rparr>, snd ?res)" by (metis prod.collapse)
  have "\<exists>k. map_of [(''a'', ''K'')] ''a'' = Some k \<and> map_of [] ''b'' = (None :: string option) \<and>
     map_of (snd ?res) = (map_of [])(''b'' \<mapsto> k) \<and>
     koName \<lparr> koName = ''b'', koId = ''K'' \<rparr> = ''b'' \<and> map_sum id id (IDFromKey demoKo k) = Inr (koId \<lparr> koName = ''b'', koId = ''K'' \<rparr>)"
    by (rule exported_key_imports_again [OF demoKeys_lawful export _ _ _ res]) (simp_all add: pem, simp_all add: demoKo_def)
  then show ?thesis by auto
qed

theorem escaped_names_are_printable_and_distinct_witness:
  "list_all (IsPrint (\<lambda>_. True)) (EscNonPrint (\<lambda>_. True) [97, 10, 34, 92])"
  using escaped_names_are_printable_and_distinct [of "[97, 10, 34, 92]" "\<lambda>_. True"] by simp

end
