(* ===== verification/MfsFilesProps.thy ===== *)
theory MfsFilesProps
  imports MfsFiles
begin

text \<open>
  What the commands on the mutable file system guarantee: the paths they hand to the
  package, what a removal touches, which bytes a read returns, and when a status calls a
  DAG local.
\<close>

section \<open>Paths\<close>

definition properComps :: "string list \<Rightarrow> bool" where
  "properComps cs \<longleftrightarrow> (\<forall>c \<in> set cs. properComp c)"

lemma clean_abs:
  assumes "p \<noteq> []" and "hd p = CHR ''/''"
  obtains cs where "pathClean p = CHR ''/'' # joinc ''/'' cs" "properComps cs"
proof -
  let ?cs = "cleanComps True [] (splitc CHR ''/'' p)"
  have ab: "pathIsAbs p" using assms by (cases p) (simp_all add: pathIsAbs_def HasPrefix_def)
  have "set ?cs \<subseteq> set (splitc CHR ''/'' p) - {[], ''.'', ''..''}"
    using cleanComps_rooted [of "[]" "splitc CHR ''/'' p"] by simp
  then have "properComps ?cs" using splitc_parts_no_sep by (auto simp: properComps_def properComp_def)
  moreover have "pathClean p = CHR ''/'' # joinc ''/'' ?cs" using ab by (simp add: pathClean_def Let_def)
  ultimately show thesis using that by blast
qed

lemma clean_of_comps:
  assumes "properComps cs"
  shows "pathClean (CHR ''/'' # joinc ''/'' cs) = CHR ''/'' # joinc ''/'' cs"
    and "pathClean (CHR ''/'' # joinc ''/'' cs @ ''/'') = CHR ''/'' # joinc ''/'' cs"
proof -
  let ?p = "CHR ''/'' # joinc ''/'' cs"
  have slash: "splitc CHR ''/'' (CHR ''/'' # s) = [] # splitc CHR ''/'' s" for s
    using splitc_append_sep [of "CHR ''/''" "[]" s] by simp
  have parts: "cleanComps True [] (splitc CHR ''/'' (joinc ''/'' cs)) = cs"
  proof (cases "cs = []")
    case True
    then show ?thesis by simp
  next
    case False
    then have "splitc CHR ''/'' (joinc ''/'' cs) = cs"
      using assms by (intro splitc_joinc) (auto simp: properComps_def properComp_def)
    then show ?thesis
      using cleanComps_proper [of cs True "[]"] assms by (simp add: properComps_def properComp_def)
  qed
  have drop_last: "cleanComps True acc (xs @ [[]]) = cleanComps True acc xs" for acc xs
    by (induction True acc xs rule: cleanComps.induct) (auto split: list.splits)
  have ab: "pathIsAbs (CHR ''/'' # s)" for s by (simp add: pathIsAbs_def HasPrefix_def)
  show "pathClean ?p = ?p" using parts by (simp add: pathClean_def ab slash Let_def)
  have "splitc CHR ''/'' (joinc ''/'' cs @ ''/'') = splitc CHR ''/'' (joinc ''/'' cs) @ [[]]"
    using splitc_append [of "CHR ''/''" "joinc ''/'' cs" "[]"] by simp
  then show "pathClean (CHR ''/'' # joinc ''/'' cs @ ''/'') = ?p"
    using parts by (simp add: pathClean_def ab slash drop_last Let_def)
qed

lemma joinc_comps_last:
  assumes "properComps cs" and "cs \<noteq> []"
  shows "joinc ''/'' cs \<noteq> []" and "last (joinc ''/'' cs) \<noteq> CHR ''/''"
proof -
  have "properComp (last cs)" using assms by (simp add: properComps_def)
  then have l: "last cs \<noteq> []" "CHR ''/'' \<notin> set (last cs)" by (simp_all add: properComp_def)
  have "joinc ''/'' xs \<noteq> [] \<and> last (joinc ''/'' xs) = last (last xs)" if "xs \<noteq> []" "last xs \<noteq> []" for xs
    using that by (induction xs) (auto simp: joinc_Cons)
  from this [OF assms(2) l(1)] have "joinc ''/'' cs \<noteq> []" "last (joinc ''/'' cs) = last (last cs)" by simp_all
  then show "joinc ''/'' cs \<noteq> []" "last (joinc ''/'' cs) \<noteq> CHR ''/''" using l last_in_set by metis+
qed

lemma checkPath_comps:
  assumes "checkPath p = Inr q"
  shows "\<exists>cs. properComps cs \<and> q = CHR ''/'' # joinc ''/'' cs @ (if last p = CHR ''/'' \<and> p \<noteq> ''/'' then ''/'' else [])"
proof -
  have p: "p \<noteq> []" "hd p = CHR ''/''" using assms by (auto simp: checkPath_def split: if_splits)
  obtain cs where cs: "pathClean p = CHR ''/'' # joinc ''/'' cs" "properComps cs" using clean_abs [OF p] .
  have "q = CHR ''/'' # joinc ''/'' cs @ (if last p = CHR ''/'' \<and> p \<noteq> ''/'' then ''/'' else [])"
    using assms p cs(1) by (auto simp: checkPath_def split: if_splits)
  with cs(2) show ?thesis by blast
qed

text \<open>
  C32. What \<^verbatim>\<open>checkPath\<close> accepts it turns into an absolute path in normal form: proper
  components only - none empty, none a dot or a double dot, so the path cannot leave the
  root - and a slash at the end exactly when the argument had one.  The result is a fixed
  point, and everything that does not start with a slash is refused.
\<close>

theorem checked_paths_are_clean:
  "(\<forall>q. checkPath p = Inr q \<longrightarrow>
      (\<exists>cs. properComps cs \<and> q = CHR ''/'' # joinc ''/'' cs @ (if last p = CHR ''/'' \<and> p \<noteq> ''/'' then ''/'' else [])) \<and>
      checkPath q = Inr q) \<and>
   ((\<exists>q. checkPath p = Inr q) \<longleftrightarrow> p \<noteq> [] \<and> hd p = CHR ''/'')"
proof -
  have "(\<exists>cs. properComps cs \<and> q = CHR ''/'' # joinc ''/'' cs @ (if last p = CHR ''/'' \<and> p \<noteq> ''/'' then ''/'' else [])) \<and>
      checkPath q = Inr q" if ok: "checkPath p = Inr q" for q
  proof -
    obtain cs where cs: "properComps cs"
      and q: "q = CHR ''/'' # joinc ''/'' cs @ (if last p = CHR ''/'' \<and> p \<noteq> ''/'' then ''/'' else [])"
      using checkPath_comps [OF ok] by blast
    have "checkPath q = Inr q"
    proof (cases "last p = CHR ''/'' \<and> p \<noteq> ''/''")
      case True
      then have e: "q = CHR ''/'' # joinc ''/'' cs @ ''/''" using q by simp
      have "pathClean q = CHR ''/'' # joinc ''/'' cs" unfolding e by (rule clean_of_comps(2) [OF cs])
      then show ?thesis by (simp add: checkPath_def e)
    next
      case False
      then have e: "q = CHR ''/'' # joinc ''/'' cs" using q by auto
      have c: "pathClean q = q" unfolding e by (rule clean_of_comps(1) [OF cs])
      have "last q \<noteq> CHR ''/'' \<or> q = ''/''"
      proof (cases "cs = []")
        case True
        then show ?thesis by (simp add: e)
      next
        case False
        then show ?thesis using joinc_comps_last [OF cs False] by (simp add: e)
      qed
      then show ?thesis by (auto simp: checkPath_def c) (simp_all add: e)
    qed
    with q cs show ?thesis by blast
  qed
  moreover have "(\<exists>q. checkPath p = Inr q) \<longleftrightarrow> p \<noteq> [] \<and> hd p = CHR ''/''" by (simp add: checkPath_def)
  ultimately show ?thesis by blast
qed

theorem checked_paths_are_clean_witness:
  "checkPath ''/a//../b/'' = Inr ''/b/'' \<and> checkPath ''/b/'' = Inr ''/b/''"
proof -
  have "checkPath ''/a//../b/'' = Inr ''/b/''" by code_simp
  with checked_paths_are_clean [of "''/a//../b/''", THEN conjunct1, THEN spec, THEN mp, OF this]
  show ?thesis by blast
qed

section \<open>Removing\<close>

lemma uptoSlash_split: "uptoSlash p @ snd (pathSplit p) = p" "CHR ''/'' \<notin> set (snd (pathSplit p))"
proof -
  let ?d = "rev (takeWhile (\<lambda>c. c \<noteq> CHR ''/'') (rev p))"
  have p: "p = uptoSlash p @ ?d"
    by (metis rev_append rev_rev_ident takeWhile_dropWhile_id uptoSlash_def)
  then have d: "drop (length (uptoSlash p)) p = ?d" by (metis append_eq_conv_conj)
  then show "uptoSlash p @ snd (pathSplit p) = p" using p by (simp add: pathSplit_def)
  show "CHR ''/'' \<notin> set (snd (pathSplit p))"
    unfolding pathSplit_def snd_conv d by (auto dest: set_takeWhileD)
qed

lemma pathSplit_join:
  assumes "properComps cs" and "cs \<noteq> []"
  shows "snd (pathSplit (CHR ''/'' # joinc ''/'' cs)) = last cs"
proof -
  let ?p = "CHR ''/'' # joinc ''/'' cs"
  have "splitc CHR ''/'' ?p = [] # cs"
    using splitc_append_sep [of "CHR ''/''" "[]" "joinc ''/'' cs"] assms
    by (simp add: splitc_joinc properComps_def properComp_def)
  then have "last (splitc CHR ''/'' ?p) = last cs" using assms(2) by simp
  moreover have "last (splitc CHR ''/'' ?p) = snd (pathSplit ?p)"
  proof -
    have up: "uptoSlash ?p = [] \<or> last (uptoSlash ?p) = CHR ''/''"
      using hd_dropWhile [of "\<lambda>c. c \<noteq> CHR ''/''" "rev ?p"]
      by (cases "dropWhile (\<lambda>c. c \<noteq> CHR ''/'') (rev ?p) = []") (simp_all only: uptoSlash_def last_rev, simp_all)
    have "uptoSlash ?p \<noteq> []"
    proof
      assume "uptoSlash ?p = []"
      then have "snd (pathSplit ?p) = ?p" using uptoSlash_split(1) [of ?p] by simp
      then show False using uptoSlash_split(2) [of ?p] by simp
    qed
    with up obtain u where u: "uptoSlash ?p = u @ ''/''" by (metis append_butlast_last_id)
    have "?p = u @ CHR ''/'' # snd (pathSplit ?p)" using uptoSlash_split(1) [of ?p] u by simp
    then have "splitc CHR ''/'' ?p = splitc CHR ''/'' u @ splitc CHR ''/'' (snd (pathSplit ?p))"
      by (metis splitc_append)
    then show ?thesis using uptoSlash_split(2) [of ?p] by (simp add: splitc_no_sep)
  qed
  ultimately show ?thesis by simp
qed

text \<open>Whether a path, as \<^verbatim>\<open>removePath\<close> sees it, names something below the root.\<close>

definition unslash :: "string \<Rightarrow> string" where
  "unslash path = (if last path = CHR ''/'' then butlast path else path)"

lemma removed_name:
  assumes "checkPath arg = Inr path" and "path \<notin> {''/'', ''//''}"
  shows "properComp (snd (pathSplit (unslash path))) \<and>
    uptoSlash (unslash path) @ snd (pathSplit (unslash path)) = unslash path"
proof -
  from checkPath_comps [OF assms(1)] obtain cs where cs: "properComps cs"
    "path = CHR ''/'' # joinc ''/'' cs @ (if last arg = CHR ''/'' \<and> arg \<noteq> ''/'' then ''/'' else [])" by blast
  have ne: "cs \<noteq> []" using assms(2) cs(2) by (auto split: if_splits)
  have "last (joinc ''/'' cs) \<noteq> CHR ''/''" "joinc ''/'' cs \<noteq> []" using joinc_comps_last [OF cs(1) ne] by simp_all
  then have "unslash path = CHR ''/'' # joinc ''/'' cs" unfolding unslash_def cs(2) by (simp split: if_split)
  then show ?thesis
    using pathSplit_join [OF cs(1) ne] ne cs(1) uptoSlash_split(1) [of "unslash path"] by (simp add: properComps_def)
qed

text \<open>
  The root is refused only by its name \<^verbatim>\<open>/\<close>.  The other accepted path that names it is \<^verbatim>\<open>//\<close>
  (from \<^verbatim>\<open>//\<close>, \<^verbatim>\<open>/./\<close> or \<^verbatim>\<open>/a/../\<close>): there the entry with the empty name is looked for in the
  root, and with \<^verbatim>\<open>--force\<close> success is reported although nothing is there to be removed.
\<close>

lemma root_alias: "checkPath ''//'' = Inr ''//''" "checkPath ''/a/../'' = Inr ''//''"
  "uptoSlash (unslash ''//'') = ''/''" "snd (pathSplit (unslash ''//'')) = []"
  by code_simp+

lemma forced_rm_of_root_alias_reports_success:
  assumes "mLookup fs ''/'' m = Inr (FsDirectory d)" and "mUnlink fs d [] m = (Some ErrNotExist, m1)"
  shows "removePath fs ''//'' True dashr m = (None, m1)"
proof -
  have "pathSplit ''/'' = (''/'', [])" by code_simp
  then show ?thesis
    using assms by (simp add: removePath_def getParentDir_def unlinkAndFlush_def)
qed

text \<open>
  C16. \<^verbatim>\<open>files rm\<close> on an accepted path: the path \<^verbatim>\<open>/\<close> is refused.  Otherwise the only thing
  that can happen to the file system is that the entry named by the last component of the
  path is unlinked from the directory that holds it, and that directory is flushed; and
  that happens only with \<^verbatim>\<open>--force\<close>, or when the entry exists and is no directory
  unless \<^verbatim>\<open>-r\<close> is given.  Success without \<^verbatim>\<open>--force\<close> means that it did happen.  The last
  component is a proper name, with one exception: the accepted path \<^verbatim>\<open>//\<close>, which also names the
  root, is not refused but taken for the entry with the empty name in the root, so with
  \<^verbatim>\<open>--force\<close> it is reported as removed when the root, as always, has no such entry, and
  nothing but what unlinking it does has happened.
\<close>

theorem rm_touches_only_the_named_entry:
  assumes "checkPath arg = Inr path" and "removePath fs path force dashr m = (res, m')"
  shows "(path = ''/'' \<longrightarrow> res = Some CannotDeleteRoot \<and> m' = m) \<and>
    (path \<notin> {''/'', ''//''} \<longrightarrow> properComp (snd (pathSplit (unslash path)))) \<and>
    (path = ''//'' \<longrightarrow> uptoSlash (unslash path) = ''/'' \<and> snd (pathSplit (unslash path)) = [] \<and>
      (\<forall>d m1. force \<and> mLookup fs ''/'' m = Inr (FsDirectory d) \<and> mUnlink fs d [] m = (Some ErrNotExist, m1) \<longrightarrow>
        res = None \<and> m' = m1)) \<and>
    (m' \<noteq> m \<or> (res = None \<and> \<not> force) \<longrightarrow>
      (\<exists>d m1. mLookup fs (uptoSlash (unslash path)) m = Inr (FsDirectory d) \<and>
         m1 = snd (mUnlink fs d (snd (pathSplit (unslash path))) m) \<and>
         (m' = m1 \<or> m' = snd (mDirFlush fs d m1)) \<and>
         (force \<or> (\<exists>child. mChild fs d (snd (pathSplit (unslash path))) m = Inr child \<and>
                     ((\<exists>c. child = FsDirectory c) \<longrightarrow> dashr))) \<and>
         (res = None \<and> \<not> force \<longrightarrow> fst (mUnlink fs d (snd (pathSplit (unslash path))) m) = None \<and>
            m' = snd (mDirFlush fs d m1))))"
proof -
  have un: "unlinkAndFlush fs d name f m = (res, m') \<Longrightarrow>
      (m' = snd (mUnlink fs d name m) \<or> m' = snd (mDirFlush fs d (snd (mUnlink fs d name m)))) \<and>
      (res = None \<and> \<not> f \<longrightarrow> fst (mUnlink fs d name m) = None \<and> m' = snd (mDirFlush fs d (snd (mUnlink fs d name m))))"
    for d name f
    by (auto simp: unlinkAndFlush_def split: prod.splits option.splits)
  have parent: "getParentDir fs dir m = Inr d \<longleftrightarrow> mLookup fs dir m = Inr (FsDirectory d)" for dir d
    by (auto simp: getParentDir_def split: sum.splits fsNode.splits)
  have "\<exists>d m1. mLookup fs (uptoSlash (unslash path)) m = Inr (FsDirectory d) \<and>
         m1 = snd (mUnlink fs d (snd (pathSplit (unslash path))) m) \<and>
         (m' = m1 \<or> m' = snd (mDirFlush fs d m1)) \<and>
         (force \<or> (\<exists>child. mChild fs d (snd (pathSplit (unslash path))) m = Inr child \<and>
                     ((\<exists>c. child = FsDirectory c) \<longrightarrow> dashr))) \<and>
         (res = None \<and> \<not> force \<longrightarrow> fst (mUnlink fs d (snd (pathSplit (unslash path))) m) = None \<and>
            m' = snd (mDirFlush fs d m1))"
    if act: "m' \<noteq> m \<or> (res = None \<and> \<not> force)"
  proof -
    let ?p = "unslash path" and ?n = "snd (pathSplit (unslash path))"
    have np: "path \<noteq> ''/''" using assms(2) act by (auto simp: removePath_def)
    have sp: "fst (pathSplit q) = uptoSlash q" for q by (simp add: pathSplit_def)
    have rp: "removePath fs path force dashr m =
       (case getParentDir fs (uptoSlash ?p) m of
              Inl err \<Rightarrow> (if force \<and> err = Mfs ErrNotExist then None else Some err, m)
            | Inr pdir \<Rightarrow>
                if force then unlinkAndFlush fs pdir ?n True m
                else
                  (case mChild fs pdir ?n m of
                     Inl err \<Rightarrow> (Some (Mfs err), m)
                   | Inr (FsDirectory _) \<Rightarrow>
                       if \<not> dashr then (Some IsDirectory, m) else unlinkAndFlush fs pdir ?n False m
                   | Inr _ \<Rightarrow> unlinkAndFlush fs pdir ?n False m))"
      using np by (simp add: removePath_def unslash_def [symmetric] Let_def case_prod_beta sp)
    then obtain d where d: "getParentDir fs (uptoSlash ?p) m = Inr d"
      using assms(2) act by (cases "getParentDir fs (uptoSlash ?p) m") (auto split: if_splits)
    show ?thesis
    proof (cases force)
      case True
      then have "unlinkAndFlush fs d ?n True m = (res, m')" using rp d assms(2) by simp
      from un [OF this] show ?thesis using d True unfolding parent by blast
    next
      case False
      obtain child where c: "mChild fs d ?n m = Inr child"
        using rp d assms(2) act False by (cases "mChild fs d ?n m") auto
      have "unlinkAndFlush fs d ?n False m = (res, m') \<and> ((\<exists>c. child = FsDirectory c) \<longrightarrow> dashr)"
        using rp d c assms(2) act False by (cases child; cases dashr) auto
      then show ?thesis using un [of d ?n False] d c unfolding parent by blast
    qed
  qed
  moreover have "path = ''/'' \<longrightarrow> res = Some CannotDeleteRoot \<and> m' = m"
    using assms(2) by (auto simp: removePath_def)
  moreover have "res = None \<and> m' = m1"
    if "path = ''//''" "force" "mLookup fs ''/'' m = Inr (FsDirectory d)" "mUnlink fs d [] m = (Some ErrNotExist, m1)" for d m1
    using forced_rm_of_root_alias_reports_success [OF that(3,4)] assms(2) that(1,2) by simp
  moreover have "path = ''//'' \<longrightarrow> uptoSlash (unslash path) = ''/'' \<and> snd (pathSplit (unslash path)) = []"
    using root_alias(3,4) by simp
  ultimately show ?thesis using removed_name [OF assms(1)] by blast
qed

section \<open>Reading\<close>

text \<open>
  With descriptors that seek and read as files do, \<^verbatim>\<open>files read\<close> returns the bytes
  from the offset, as many as asked for; an offset below zero or past the end, and a
  negative count, are refused.
\<close>

theorem read_returns_the_range:
  assumes "checkPath arg = Inr path" and "mLookup fs path m = Inr (FsFile f)"
    and "mOpen fs f True False False m = (Inr h, m1)" and "fdSize fs h m1 = Inr (int (length content))"
    and "\<forall>off. 0 \<le> off \<and> off \<le> int (length content) \<longrightarrow>
           fst (fdSeek fs h off m1) = None \<and> fdReadAll fs h (snd (fdSeek fs h off m1)) = drop (nat off) content"
  shows "fst (filesRead fs offsetOpt countOpt arg m) =
    (let off = (case offsetOpt of None \<Rightarrow> 0 | Some o' \<Rightarrow> o') in
     if off < 0 then Inl NegativeOffset
     else if off > int (length content) then Inl (PastEnd off (int (length content)))
     else case countOpt of
       None \<Rightarrow> Inr (drop (nat off) content)
     | Some n \<Rightarrow> if n < 0 then Inl NegativeCount else Inr (take (nat n) (drop (nat off) content)))"
proof -
  let ?off = "case offsetOpt of None \<Rightarrow> 0 | Some o' \<Rightarrow> o'"
  obtain e m2 where seek: "fdSeek fs h ?off m1 = (e, m2)" by (cases "fdSeek fs h ?off m1")
  have law: "0 \<le> ?off \<and> ?off \<le> int (length content) \<longrightarrow> e = None \<and> fdReadAll fs h m2 = drop (nat ?off) content"
    using assms(5) seek by (metis fst_conv snd_conv)
  show ?thesis
    unfolding filesRead_def assms(1) sum.case assms(2) fsNode.case assms(3) prod.case Let_def assms(4) seek
    using law by (auto simp: not_less split: option.splits)
qed

text \<open>
  Writing: with \<^verbatim>\<open>--truncate\<close> the file is cut before the count is looked at, so a
  negative count is refused with the content gone.
\<close>

lemma negative_count_truncates:
  assumes "checkPath arg = Inr path" and "woParents wo = False" and "woCidVersion wo = None" and "woHash wo = None"
    and "woOffset wo = None" and "woRawLeaves wo = None" and "woTruncate wo" and "woCount wo = Some n" and "n < 0"
    and "mLookup fs path m = Inr (FsFile f)" and "mOpen fs f False True (woFlush wo) m = (Inr h, m1)"
    and "fdTruncate fs h 0 m1 = (None, m2)"
  shows "filesWrite fs pe wo input arg m = (Some NegativeCount, snd (fdClose fs h m2))"
  using assms by (simp add: filesWrite_def getPrefixNew_def getFileHandle_def writeTo_def case_prod_beta)

text \<open>Copying the root into a directory puts it under the name of a dot.\<close>

lemma root_copied_as_dot:
  assumes "checkPath dstArg = Inr dst" and "last dst = CHR ''/''" and "mLookup fs [] m = Inr d" and "mGetNode fs d m = Inr n"
  shows "filesCp fs ne pe None None False False ''/'' dstArg m =
    (map_option Mfs (fst (mPutNode fs (dst @ ''.'') n m)), snd (mPutNode fs (dst @ ''.'') n m))"
proof -
  have "checkPath ''/'' = Inr ''/''" "stripSlashes ''/'' = []" "pathBase [] = ''.''" by code_simp+
  then show ?thesis
    using assms by (cases "mPutNode fs (dst @ ''.'') n m"; cases "fst (mPutNode fs (dst @ ''.'') n m)")
      (simp_all add: filesCp_def getPrefixNew_def getNodeFromPath_def HasPrefix_def)
qed

section \<open>Locality\<close>

text \<open>The CIDs the walk comes across below a node, and the bytes found locally (a block that
  is linked several times counts each time).\<close>

inductive below :: "('c \<Rightarrow> 'c got) \<Rightarrow> 'c dagNode \<Rightarrow> 'c \<Rightarrow> bool" for ds where
  link: "l \<in> set (dnLinks nd) \<Longrightarrow> below ds nd l"
| deeper: "l \<in> set (dnLinks nd) \<Longrightarrow> ds l = Got child \<Longrightarrow> below ds child c \<Longrightarrow> below ds nd c"

inductive_cases belowE: "below ds nd c"

primrec localBytes :: "nat \<Rightarrow> ('c \<Rightarrow> 'c got) \<Rightarrow> 'c dagNode \<Rightarrow> nat" where
  "localBytes 0 ds nd = 0"
| "localBytes (Suc k) ds nd =
     dnRawLength nd + sum_list (map (\<lambda>l. case ds l of Got child \<Rightarrow> localBytes k ds child | _ \<Rightarrow> 0) (dnLinks nd))"

definition wholly :: "('c \<Rightarrow> 'c got) \<Rightarrow> 'c dagNode \<Rightarrow> bool" where
  "wholly ds nd \<longleftrightarrow> (\<forall>c. below ds nd c \<longrightarrow> ds c \<noteq> NotFound)"

lemma wholly_links:
  assumes "\<forall>l err. ds l \<noteq> GetError err"
  shows "wholly ds nd \<longleftrightarrow> (\<forall>l \<in> set (dnLinks nd). \<exists>child. ds l = Got child \<and> wholly ds child)"
proof
  assume w: "wholly ds nd"
  show "\<forall>l \<in> set (dnLinks nd). \<exists>child. ds l = Got child \<and> wholly ds child"
  proof
    fix l assume l: "l \<in> set (dnLinks nd)"
    then have "below ds nd l" by (rule below.link)
    then have "ds l \<noteq> NotFound" using w by (simp add: wholly_def)
    then obtain child where c: "ds l = Got child" using assms by (cases "ds l") auto
    have "wholly ds child"
      unfolding wholly_def
    proof (intro allI impI)
      fix c' assume "below ds child c'"
      then have "below ds nd c'" using l c by (intro below.deeper [of l nd ds child])
      then show "ds c' \<noteq> NotFound" using w by (simp add: wholly_def)
    qed
    with c show "\<exists>child. ds l = Got child \<and> wholly ds child" by blast
  qed
next
  assume all: "\<forall>l \<in> set (dnLinks nd). \<exists>child. ds l = Got child \<and> wholly ds child"
  show "wholly ds nd"
    unfolding wholly_def
  proof (intro allI impI)
    fix c assume "below ds nd c"
    then show "ds c \<noteq> NotFound"
    proof (rule belowE)
      assume "c \<in> set (dnLinks nd)"
      with all obtain child where "ds c = Got child" by blast
      then show ?thesis by simp
    next
      fix l child assume "l \<in> set (dnLinks nd)" "ds l = Got child" "below ds child c"
      moreover from this all have "wholly ds child" by (metis got.inject(1))
      ultimately show ?thesis by (simp add: wholly_def)
    qed
  qed
qed

lemma walkLinks_ok:
  "\<forall>l \<in> set ls. (\<exists>child. ds l = Got child \<and> walk child = Some (None, L child, of_nat (B child))) \<or> ds l = NotFound \<Longrightarrow>
   walkLinks walk ds ls loc s =
     Some (None, loc \<and> (\<forall>l \<in> set ls. \<exists>child. ds l = Got child \<and> L child),
       s + of_nat (sum_list (map (\<lambda>l. case ds l of Got child \<Rightarrow> B child | _ \<Rightarrow> 0) ls)))"
  by (induction ls arbitrary: loc s) (auto simp: algebra_simps)

text \<open>
  C28. When no block is refused for another reason than being absent, and the walk is given
  enough depth - more than the rank of every link, for a rank that falls along links, which
  an acyclic graph has - \<^verbatim>\<open>walkBlock\<close> ends without an error.  It calls the DAG local
  exactly when no CID below the node is absent, and the size is the number of bytes of the
  blocks it found, modulo the width of the counter.
\<close>

theorem dag_is_local_iff_nothing_is_absent:
  assumes "\<forall>l err. ds l \<noteq> GetError err"
    and "\<forall>l child. ds l = Got child \<longrightarrow> (\<forall>l' \<in> set (dnLinks child). rk l' < (rk l :: nat))"
    and "\<forall>l \<in> set (dnLinks nd). rk l < k"
  shows "walkBlock (Suc k) ds nd = Some (None, wholly ds nd, of_nat (localBytes (Suc k) ds nd))"
  using assms(3)
proof (induction k arbitrary: nd)
  case 0
  then have "dnLinks nd = []" by (cases "dnLinks nd") auto
  moreover from this have "wholly ds nd" using wholly_links [OF assms(1), of nd] by (simp only: list.set ball_empty)
  ultimately show ?case by simp
next
  case (Suc k)
  have kids: "(\<exists>child. ds l = Got child \<and>
       walkBlock (Suc k) ds child = Some (None, wholly ds child, of_nat (localBytes (Suc k) ds child))) \<or> ds l = NotFound"
    if l: "l \<in> set (dnLinks nd)" for l
  proof (cases "ds l")
    case (Got child)
    have "\<forall>l' \<in> set (dnLinks child). rk l' < k"
      using assms(2) Got Suc.prems l by (meson less_Suc_eq_le order_less_le_trans)
    from Suc.IH [OF this] Got show ?thesis by blast
  next
    case NotFound
    then show ?thesis ..
  next
    case (GetError err)
    then show ?thesis using assms(1) by blast
  qed
  have "walkBlock (Suc (Suc k)) ds nd =
      walkLinks (walkBlock (Suc k) ds) ds (dnLinks nd) True (of_nat (dnRawLength nd))"
    by (rule walkBlock.simps(2))
  also have "\<dots> = Some (None, True \<and> (\<forall>l \<in> set (dnLinks nd). \<exists>child. ds l = Got child \<and> wholly ds child),
       of_nat (dnRawLength nd) +
       of_nat (sum_list (map (\<lambda>l. case ds l of Got child \<Rightarrow> localBytes (Suc k) ds child | _ \<Rightarrow> 0) (dnLinks nd))))"
    by (rule walkLinks_ok) (use kids in blast)
  also have "\<dots> = Some (None, wholly ds nd, of_nat (localBytes (Suc (Suc k)) ds nd))"
    unfolding wholly_links [OF assms(1), symmetric] by (simp only: localBytes.simps(2) of_nat_add simp_thms)
  finally show ?case .
qed

section \<open>Witnesses\<close>

text \<open>A file system of one directory; the state is the list of its files and a file position.\<close>

definition demoFs :: "(string, string, unit, string, cidPrefix, string list \<times> nat) mfsOps" where
  "demoFs =
     \<lparr> mLookup = (\<lambda>p m. if p = ''/d/'' then Inr (FsDirectory p) else if p \<in> set (fst m) then Inr (FsFile p) else Inl ErrNotExist),
       mPutNode = (\<lambda>p n m. (None, (p # fst m, snd m))), mFlushPath = (\<lambda>p m. (Inr p, m)),
       mMv = (\<lambda>p q m. (None, m)), mMkdir = (\<lambda>p b f c m. (None, m)),
       mUnlink = (\<lambda>d n m. if d @ n \<in> set (fst m) then (None, (removeAll (d @ n) (fst m), snd m)) else (Some ErrNotExist, m)),
       mDirFlush = (\<lambda>d m. (None, m)),
       mChild = (\<lambda>d n m. if d @ n \<in> set (fst m) then Inr (FsFile (d @ n)) else Inl ErrNotExist),
       mAddChild = (\<lambda>d n nd m. (None, ((d @ n) # fst m, snd m))), mListNames = (\<lambda>d m. Inr (fst m)),
       mList = (\<lambda>d m. Inr []), mSetCidBuilder = (\<lambda>d b m. m),
       mGetCidBuilder = (\<lambda>d m. \<lparr> pfVersion = 0, pfCodec = 0, pfMhType = 0, pfMhLength = 0 \<rparr>),
       mGetNode = (\<lambda>n m. Inr []), mFileType = (\<lambda>f m. 0), mFileSize = (\<lambda>f m. Inr 5), mSetRawLeaves = (\<lambda>f b m. m),
       mOpen = (\<lambda>f a b c m. (Inr (), (fst m, 0))), fdTruncate = (\<lambda>h n m. (None, m)),
       fdSeek = (\<lambda>h off m. (None, (fst m, nat off))), fdSize = (\<lambda>h m. Inr 5),
       fdReadAll = (\<lambda>h m. drop (snd m) ''hello''), fdWrite = (\<lambda>h b m. (None, m)), fdClose = (\<lambda>h m. (None, m)),
       emptyFileNode = (\<lambda>b. Inr []), nodeHash = id \<rparr>"

theorem rm_touches_only_the_named_entry_witness:
  "\<exists>d. mLookup demoFs (uptoSlash ''/d/x'') ([''/d/x'', ''/d/y''], 0) = Inr (FsDirectory d) \<and>
     fst (mUnlink demoFs d (snd (pathSplit ''/d/x'')) ([''/d/x'', ''/d/y''], 0)) = None \<and>
     snd (removePath demoFs ''/d/x/'' False False ([''/d/x'', ''/d/y''], 0)) = ([''/d/y''], 0)"
proof -
  let ?m = "([''/d/x'', ''/d/y''], 0) :: string list \<times> nat"
  have chk: "checkPath ''/d/x/'' = Inr ''/d/x/''" by code_simp
  have up: "uptoSlash ''/d/x'' = ''/d/''" "pathSplit ''/d/x'' = (''/d/'', ''x'')" by code_simp+
  have un: "unslash ''/d/x/'' = ''/d/x''" by code_simp
  have rm: "removePath demoFs ''/d/x/'' False False ?m = (None, ([''/d/y''], 0))"
    by (simp add: removePath_def up getParentDir_def) (simp add: demoFs_def unlinkAndFlush_def)
  from rm_touches_only_the_named_entry [OF chk rm, unfolded un]
  have "\<exists>d. mLookup demoFs (uptoSlash ''/d/x'') ?m = Inr (FsDirectory d) \<and>
     fst (mUnlink demoFs d (snd (pathSplit ''/d/x'')) ?m) = None" by blast
  with rm show ?thesis by auto
qed

theorem read_returns_the_range_witness:
  "fst (filesRead demoFs (Some 1) (Some 3) ''/d/x'' ([''/d/x''], 0)) = Inr ''ell''"
proof -
  let ?m = "([''/d/x''], 0) :: string list \<times> nat"
  have chk: "checkPath ''/d/x'' = Inr ''/d/x''" by code_simp
  have look: "mLookup demoFs ''/d/x'' ?m = Inr (FsFile ''/d/x'')" by (simp add: demoFs_def)
  have op: "mOpen demoFs ''/d/x'' True False False ?m = (Inr (), ?m)" by (simp add: demoFs_def)
  have siz: "fdSize demoFs () ?m = Inr (int (length ''hello''))" by (simp add: demoFs_def)
  have seek: "\<forall>off. 0 \<le> off \<and> off \<le> int (length ''hello'') \<longrightarrow>
      fst (fdSeek demoFs () off ?m) = None \<and>
      fdReadAll demoFs () (snd (fdSeek demoFs () off ?m)) = drop (nat off) ''hello''"
    by (simp add: demoFs_def)
  show ?thesis using read_returns_the_range [OF chk look op siz seek, of "Some 1" "Some 3"] by (simp add: Let_def)
qed

definition demoBlocks :: "nat \<Rightarrow> nat got" where
  "demoBlocks c =
     (if c = 1 then Got \<lparr> dnCid = 1, dnRawLength = 10, dnSize = Inr 30, dnLinks = [2, 2], dnKind = RawNode \<rparr>
      else if c = 2 then Got \<lparr> dnCid = 2, dnRawLength = 5, dnSize = Inr 5, dnLinks = [], dnKind = RawNode \<rparr>
      else NotFound)"

theorem dag_is_local_iff_nothing_is_absent_witness:
  "\<exists>loc. walkBlock 4 demoBlocks \<lparr> dnCid = 0, dnRawLength = 7, dnSize = Inr 0, dnLinks = [1, 3], dnKind = RawNode \<rparr>
     = Some (None, loc, 27)"
proof -
  let ?nd = "\<lparr> dnCid = 0, dnRawLength = 7, dnSize = Inr 0, dnLinks = [1, 3], dnKind = RawNode \<rparr> :: nat dagNode"
  let ?rk = "\<lambda>c :: nat. if c = 1 then 1 else 0 :: nat"
  have a: "\<forall>l err. demoBlocks l \<noteq> GetError err" by (simp add: demoBlocks_def)
  have b: "\<forall>l child. demoBlocks l = Got child \<longrightarrow> (\<forall>l' \<in> set (dnLinks child). ?rk l' < ?rk l)"
    by (auto simp: demoBlocks_def split: if_splits)
  have c: "\<forall>l \<in> set (dnLinks ?nd). ?rk l < 3" by simp
  have bytes: "localBytes (Suc 3) demoBlocks ?nd = 27" by (simp add: demoBlocks_def numeral_3_eq_3)
  show ?thesis
    using dag_is_local_iff_nothing_is_absent [OF a b c] unfolding bytes by simp
qed

end
