(* ===== verification/RemotePins.thy ===== *)
theory RemotePins
  imports FSRepoProps Profiles ConfigCommands GoPath "HOL-Library.AList" "HOL-Library.List_Lexorder" "HOL-Library.Char_ord"
begin

text \<open>
  \<^verbatim>\<open>core/commands/pin/remotepin.go\<close> and \<^verbatim>\<open>cmd/ipfs/pinmfs.go\<close>: pins kept by remote
  pinning services, and the loop of the daemon that keeps the root of the mutable file
  system pinned there.

  \<^item> The client of a pinning service is a third-party package: the record \<open>pinClient\<close> gives
    what its calls return, and what they do to the services, whose joint state is \<open>'s\<close>.
  \<^item> Instants and durations are integers (nanoseconds).  The cancellation of a request
    appears in the command that waits; the other calls are taken to run to their end.
  \<^item> The services of a configuration are listed in the order in which a \<^verbatim>\<open>range\<close> over
    the map visits them.
\<close>

section \<open>The client\<close>

definition StatusQueued :: string where "StatusQueued = ''queued''"
definition StatusPinning :: string where "StatusPinning = ''pinning''"
definition StatusPinned :: string where "StatusPinned = ''pinned''"
definition StatusFailed :: string where "StatusFailed = ''failed''"
definition StatusUnknown :: string where "StatusUnknown = ''unknown''"

record ('c, 'a) RemotePin =
  rpRequestId :: string
  rpStatus :: string
  rpCreated :: int
  rpCid :: 'c
  rpName :: string
  rpDelegates :: "'a list"

datatype 'c lsOpt = FilterName string | FilterCIDs "'c list" | FilterStatus "string list"

datatype 'a addOpt = WithName string | WithOrigins "'a list"

type_synonym conn = "string \<times> string"

record ('c, 'a, 's) pinClient =
  clLs :: "conn \<Rightarrow> 'c lsOpt list \<Rightarrow> 's \<Rightarrow> (('c, 'a) RemotePin list \<times> string option) \<times> 's"
  clAdd :: "conn \<Rightarrow> 'c \<Rightarrow> 'a addOpt list \<Rightarrow> 's \<Rightarrow> (string + ('c, 'a) RemotePin) \<times> 's"
  clReplace :: "conn \<Rightarrow> string \<Rightarrow> 'c \<Rightarrow> 'a addOpt list \<Rightarrow> 's \<Rightarrow> (string + ('c, 'a) RemotePin) \<times> 's"
  clGetStatusByID :: "conn \<Rightarrow> string \<Rightarrow> 's \<Rightarrow> (string + ('c, 'a) RemotePin) \<times> 's"
  clDeleteByID :: "conn \<Rightarrow> string \<Rightarrow> 's \<Rightarrow> string option \<times> 's"
  clCount :: "conn \<Rightarrow> string \<Rightarrow> 's \<Rightarrow> string + int"
  StatusString :: "string \<Rightarrow> string"

text \<open>
  \<open>clCount\<close> is \<^verbatim>\<open>LsBatchSync\<close> with a limit of one: the total number of pins in a state.
  \<open>StatusString\<close> is \<^verbatim>\<open>Status.String\<close>.
\<close>

section \<open>Keeping the MFS root pinned\<close>

record 'c lastPin =
  lpTime :: int
  lpServiceName :: string
  lpServiceConfig :: PinService
  lpCID :: "'c option"

definition noService :: PinService where
  "noService = \<lparr> Endpoint = [], svcKey = [], svcMFS = \<lparr> mfsEnable = False, PinName = [], RepinInterval = [] \<rparr> \<rparr>"

definition noPin :: "'c lastPin" where
  "noPin = \<lparr> lpTime = 0, lpServiceName = [], lpServiceConfig = noService, lpCID = None \<rparr>"

definition IsValid :: "'c lastPin \<Rightarrow> bool" where
  "IsValid x \<longleftrightarrow> x \<noteq> noPin"

definition defaultRepinInterval :: int where
  "defaultRepinInterval = 5 * 60 * 1000000000"

text \<open>
  The node: its identity, and the addresses of its host (\<open>None\<close>: no host; an error of
  \<^verbatim>\<open>AddrInfoToP2pAddrs\<close> otherwise).  \<open>ParseDuration\<close> is the standard library's.
\<close>

record 'a mfsNode =
  nodeIdentity :: string
  hostAddrs :: "(string + 'a list) option"
  parseDuration :: "string \<Rightarrow> int option"

text \<open>
  The loop over the listed pins: the request id of the last pin looked at, and the creation
  time of the one that already has the root.
\<close>

fun scanPins :: "'c \<Rightarrow> string \<Rightarrow> ('c, 'a) RemotePin list \<Rightarrow> string \<times> int option" where
  "scanPins cid existingRequestID [] = (existingRequestID, None)"
| "scanPins cid existingRequestID (ps # rest) =
     (if rpCid ps = cid \<and> rpStatus ps \<noteq> StatusFailed then (rpRequestId ps, Some (rpCreated ps))
      else scanPins cid (rpRequestId ps) rest)"

definition mfsPinName :: "'a mfsNode \<Rightarrow> PinService \<Rightarrow> string" where
  "mfsPinName node svcConfig =
     (if PinName (svcMFS svcConfig) = [] then ''policy/'' @ nodeIdentity node @ ''/mfs''
      else PinName (svcMFS svcConfig))"

definition mfsOrigins :: "'a mfsNode \<Rightarrow> string + 'a addOpt list" where
  "mfsOrigins node =
     (case hostAddrs node of
        None \<Rightarrow> Inr []
      | Some (Inl err) \<Rightarrow> Inl err
      | Some (Inr addrs) \<Rightarrow> Inr [WithOrigins addrs])"

definition pinMFS ::
  "('c, 'a, 's) pinClient \<Rightarrow> 'a mfsNode \<Rightarrow> int \<Rightarrow> 'c \<Rightarrow> string \<Rightarrow> PinService \<Rightarrow> 's \<Rightarrow>
   (string + 'c lastPin) \<times> 's" where
  "pinMFS cl node now cid svcName svcConfig s =
     (let c = (Endpoint svcConfig, svcKey svcConfig);
          pinName = mfsPinName node svcConfig;
          pinAt = (\<lambda>t. \<lparr> lpTime = t, lpServiceName = svcName, lpServiceConfig = svcConfig, lpCID = Some cid \<rparr>)
      in case clLs cl c [FilterName pinName, FilterStatus [StatusQueued, StatusPinning, StatusPinned, StatusFailed]] s of
        ((pins, lsErr), s1) \<Rightarrow>
          (case lsErr of
             Some err \<Rightarrow> (Inl err, s1)
           | None \<Rightarrow>
               (case scanPins cid [] pins of
                  (_, Some created) \<Rightarrow> (Inr (pinAt created), s1)
                | (existingRequestID, None) \<Rightarrow>
                    (case mfsOrigins node of
                       Inl err \<Rightarrow> (Inl err, s1)
                     | Inr origins \<Rightarrow>
                         (let addOpts = WithName pinName # origins in
                          case (if existingRequestID \<noteq> [] then clReplace cl c existingRequestID cid addOpts s1
                                else clAdd cl c cid addOpts s1) of
                            (Inl err, s2) \<Rightarrow> (Inl err, s2)
                          | (Inr _, s2) \<Rightarrow> (Inr (pinAt now), s2))))))"

text \<open>One pass over the services.  The instants at which it looks at each of them, and at
  which each goroutine starts, and the order in which the goroutines do their work
  (\<open>tkRank\<close>) are part of a \<open>tick\<close>.\<close>

record 'c tick =
  tkConfig :: "string + (string \<times> PinService) list"
  tkRoot :: "string + 'c"
  tkNow :: "string \<Rightarrow> int"
  tkStart :: "string \<Rightarrow> int"
  tkRank :: "string \<Rightarrow> nat"

datatype mfsErr =
    ReadingConfig string | ReadingRoot string | InvalidRepinInterval string | PinningFailed string string

datatype decision = SkipService | RefuseInterval | LaunchPin

definition considerService ::
  "'a mfsNode \<Rightarrow> 'c \<Rightarrow> int \<Rightarrow> (string \<Rightarrow> 'c lastPin option) \<Rightarrow> string \<Rightarrow> PinService \<Rightarrow> decision" where
  "considerService node rootCid now lastPins svcName svcConfig =
     (if \<not> mfsEnable (svcMFS svcConfig) then SkipService
      else case (if RepinInterval (svcMFS svcConfig) = [] then Some defaultRepinInterval
                 else parseDuration node (RepinInterval (svcMFS svcConfig))) of
        None \<Rightarrow> RefuseInterval
      | Some repinInterval \<Rightarrow>
          (case lastPins svcName of
             Some old \<Rightarrow>
               if lpServiceConfig old = svcConfig \<and>
                  (lpCID old = Some rootCid \<or> now - lpTime old < repinInterval)
               then SkipService else LaunchPin
           | None \<Rightarrow> LaunchPin))"

fun runPins ::
  "('c, 'a, 's) pinClient \<Rightarrow> 'a mfsNode \<Rightarrow> (string \<Rightarrow> int) \<Rightarrow> 'c \<Rightarrow> (string \<times> PinService) list \<Rightarrow> 's \<Rightarrow>
   'c lastPin list \<times> mfsErr list \<times> 's" where
  "runPins cl node start rootCid [] s = ([], [], s)"
| "runPins cl node start rootCid ((svcName, svcConfig) # svcs) s =
     (case pinMFS cl node (start svcName) rootCid svcName svcConfig s of
        (res, s1) \<Rightarrow>
          (case runPins cl node start rootCid svcs s1 of
             (pins, errs, s2) \<Rightarrow>
               (case res of
                  Inl err \<Rightarrow> (noPin # pins, PinningFailed svcName err # errs, s2)
                | Inr r \<Rightarrow> (r # pins, errs, s2))))"

fun recordPins :: "'c lastPin list \<Rightarrow> (string \<Rightarrow> 'c lastPin option) \<Rightarrow> (string \<Rightarrow> 'c lastPin option)" where
  "recordPins [] lastPins = lastPins"
| "recordPins (x # xs) lastPins =
     recordPins xs (if IsValid x then lastPins(lpServiceName x \<mapsto> x) else lastPins)"

definition pinAllMFS ::
  "('c, 'a, 's) pinClient \<Rightarrow> 'a mfsNode \<Rightarrow> 'c tick \<Rightarrow> (string \<times> PinService) list \<Rightarrow> 'c \<Rightarrow>
   (string \<Rightarrow> 'c lastPin option) \<Rightarrow> 's \<Rightarrow> mfsErr list \<times> (string \<Rightarrow> 'c lastPin option) \<times> 's" where
  "pinAllMFS cl node t services rootCid lastPins s =
     (let decide = (\<lambda>(name, svc). considerService node rootCid (tkNow t name) lastPins name svc);
          bad = map (\<lambda>(name, svc). InvalidRepinInterval name) (filter (\<lambda>x. decide x = RefuseInterval) services);
          launched = sort_key (\<lambda>(name, svc). tkRank t name) (filter (\<lambda>x. decide x = LaunchPin) services);
          idle = map (\<lambda>_. noPin) (filter (\<lambda>x. decide x \<noteq> LaunchPin) services)
      in case runPins cl node (tkStart t) rootCid launched s of
           (pins, errs, s') \<Rightarrow> (bad @ errs, recordPins (idle @ pins) lastPins, s'))"

definition mfsTick ::
  "('c, 'a, 's) pinClient \<Rightarrow> 'a mfsNode \<Rightarrow> 'c tick \<Rightarrow> (string \<Rightarrow> 'c lastPin option) \<Rightarrow> 's \<Rightarrow>
   mfsErr list \<times> (string \<Rightarrow> 'c lastPin option) \<times> 's" where
  "mfsTick cl node t lastPins s =
     (case tkConfig t of
        Inl err \<Rightarrow> ([ReadingConfig err], lastPins, s)
      | Inr services \<Rightarrow>
          (case tkRoot t of
             Inl err \<Rightarrow> ([ReadingRoot err], lastPins, s)
           | Inr rootCid \<Rightarrow> pinAllMFS cl node t services rootCid lastPins s))"

text \<open>The loop, for the ticks it sees before its context is done.\<close>

fun pinMFSLoop ::
  "('c, 'a, 's) pinClient \<Rightarrow> 'a mfsNode \<Rightarrow> 'c tick list \<Rightarrow> (string \<Rightarrow> 'c lastPin option) \<Rightarrow> 's \<Rightarrow>
   mfsErr list \<times> (string \<Rightarrow> 'c lastPin option) \<times> 's" where
  "pinMFSLoop cl node [] lastPins s = ([], lastPins, s)"
| "pinMFSLoop cl node (t # ts) lastPins s =
     (case mfsTick cl node t lastPins s of
        (errs, lastPins', s1) \<Rightarrow>
          (case pinMFSLoop cl node ts lastPins' s1 of
             (errs', lastPins'', s2) \<Rightarrow> (errs @ errs', lastPins'', s2)))"

definition pinMFSOnChange ::
  "('c, 'a, 's) pinClient \<Rightarrow> 'a mfsNode \<Rightarrow> 'c tick list \<Rightarrow> 's \<Rightarrow>
   mfsErr list \<times> (string \<Rightarrow> 'c lastPin option) \<times> 's" where
  "pinMFSOnChange cl node ticks s = pinMFSLoop cl node ticks Map.empty s"

section \<open>Endpoints\<close>

record 'u url =
  urlScheme :: string
  urlPath :: string
  RawQuery :: string
  urlRest :: 'u

record 'u urlOps =
  ParseRequestURI :: "string \<Rightarrow> 'u url option"
  urlString :: "'u url \<Rightarrow> string"

datatype pin_err =
    NotHttpUrl | HasQuery | HasPinsSuffix
  | NoServiceName | EmptyServiceName | ServiceNotKnown | ServicePresent | WrongArguments | UnexpectedArgument string
  | BadCid string | BadStatus string | MultipleMatches | DeleteFailed string string | ListFailed string
  | ResolveFailed string | LocalFailed string | RemoteFailed string | BadDelegate
  | StatusCheckFailed string | UnexpectedRequestId string | PinFailed string | Interrupted string
  | ConfigFailed fs_err

definition normalizePath :: "string \<Rightarrow> string" where
  "normalizePath p = TrimSuffix (TrimSuffix (pathClean p) ''.'') ''/''"

definition normalizeEndpoint :: "'u urlOps \<Rightarrow> string \<Rightarrow> pin_err + string" where
  "normalizeEndpoint uo endpoint =
     (case ParseRequestURI uo endpoint of
        None \<Rightarrow> Inl NotHttpUrl
      | Some u \<Rightarrow>
          if \<not> (urlScheme u = ''http'' \<or> urlScheme u = ''https'') then Inl NotHttpUrl
          else
            let uri = u\<lparr> urlPath := normalizePath (urlPath u) \<rparr>
            in if RawQuery uri \<noteq> [] then Inl HasQuery
               else if HasSuffix (urlPath uri) ''/pins'' then Inl HasPinsSuffix
               else Inr (urlString uo uri))"

section \<open>The configured services\<close>

definition getRemotePinServiceInfo ::
  "'u urlOps \<Rightarrow> string \<Rightarrow> 'o Config FSRepo \<Rightarrow> pin_err + conn" where
  "getRemotePinServiceInfo uo name r =
     (case fsConfig r of
        Inl err \<Rightarrow> Inl (ConfigFailed err)
      | Inr None \<Rightarrow> Inl (ConfigFailed RepoClosed)
      | Inr (Some cfg) \<Rightarrow>
          (case map_of (RemoteServices cfg) name of
             None \<Rightarrow> Inl ServiceNotKnown
           | Some service \<Rightarrow>
               bindS (normalizeEndpoint uo (Endpoint service)) (\<lambda>endpoint. Inr (endpoint, svcKey service))))"

definition getRemotePinService ::
  "'u urlOps \<Rightarrow> string \<Rightarrow> 'o Config FSRepo \<Rightarrow> pin_err + conn" where
  "getRemotePinService uo name r =
     (if name = [] then Inl EmptyServiceName else getRemotePinServiceInfo uo name r)"

definition getRemotePinServiceFromRequest ::
  "'u urlOps \<Rightarrow> string option \<Rightarrow> 'o Config FSRepo \<Rightarrow> pin_err + conn" where
  "getRemotePinServiceFromRequest uo service r =
     (case service of None \<Rightarrow> Inl NoServiceName | Some serviceStr \<Rightarrow> getRemotePinService uo serviceStr r)"

definition addRemotePinService ::
  "fsEnv \<Rightarrow> 'o Config cfgOps \<Rightarrow> 'u urlOps \<Rightarrow> string list \<Rightarrow> 'o Config FSRepo \<Rightarrow> disk \<Rightarrow>
   pin_err option \<times> 'o Config FSRepo \<times> disk" where
  "addRemotePinService e ops uo args r d =
     (case args of
        name # rawEndpoint # key # _ \<Rightarrow>
          (case normalizeEndpoint uo rawEndpoint of
             Inl err \<Rightarrow> (Some err, r, d)
           | Inr endpoint \<Rightarrow>
               (case fsConfig r of
                  Inl err \<Rightarrow> (Some (ConfigFailed err), r, d)
                | Inr None \<Rightarrow> (Some (ConfigFailed RepoClosed), r, d)
                | Inr (Some cfg) \<Rightarrow>
                    if map_of (RemoteServices cfg) name \<noteq> None then (Some ServicePresent, r, d)
                    else
                      (case saveConfig e ops
                              (cfg\<lparr> RemoteServices :=
                                 (name, noService\<lparr> Endpoint := endpoint, svcKey := key \<rparr>) # RemoteServices cfg \<rparr>) r d of
                         (err, r', d') \<Rightarrow> (map_option ConfigFailed err, r', d'))))
      | _ \<Rightarrow> (Some WrongArguments, r, d))"

definition rmRemotePinService ::
  "fsEnv \<Rightarrow> 'o Config cfgOps \<Rightarrow> string list \<Rightarrow> 'o Config FSRepo \<Rightarrow> disk \<Rightarrow>
   pin_err option \<times> 'o Config FSRepo \<times> disk" where
  "rmRemotePinService e ops args r d =
     (case args of
        [name] \<Rightarrow>
          (case fsConfig r of
             Inl err \<Rightarrow> (Some (ConfigFailed err), r, d)
           | Inr None \<Rightarrow> (Some (ConfigFailed RepoClosed), r, d)
           | Inr (Some cfg) \<Rightarrow>
               (case saveConfig e ops (cfg\<lparr> RemoteServices := AList.delete name (RemoteServices cfg) \<rparr>) r d of
                  (err, r', d') \<Rightarrow> (map_option ConfigFailed err, r', d')))
      | _ \<Rightarrow> (Some WrongArguments, r, d))"

record PinCount =
  Queued :: int
  Pinning :: int
  Pinned :: int
  Failed :: int

datatype svcStat = ValidStat PinCount | InvalidStat

record ServiceDetails =
  sdService :: string
  sdEndpoint :: string
  sdStat :: "svcStat option"

definition lsRemotePinCount ::
  "('c, 'a, 's) pinClient \<Rightarrow> 'u urlOps \<Rightarrow> string \<Rightarrow> 'o Config FSRepo \<Rightarrow> 's \<Rightarrow> pin_err + PinCount" where
  "lsRemotePinCount cl uo svcName r s =
     bindS (getRemotePinService uo svcName r) (\<lambda>c.
       let count = (\<lambda>st. map_sum RemoteFailed id (clCount cl c st s)) in
       bindS (count StatusQueued) (\<lambda>q.
       bindS (count StatusPinning) (\<lambda>p.
       bindS (count StatusPinned) (\<lambda>n.
       bindS (count StatusFailed) (\<lambda>f.
         Inr \<lparr> Queued = q, Pinning = p, Pinned = n, Failed = f \<rparr>)))))"

definition lsRemotePinService ::
  "('c, 'a, 's) pinClient \<Rightarrow> 'u urlOps \<Rightarrow> bool \<Rightarrow> 'o Config FSRepo \<Rightarrow> 's \<Rightarrow> pin_err + ServiceDetails list" where
  "lsRemotePinService cl uo stat r s =
     (case fsConfig r of
        Inl err \<Rightarrow> Inl (ConfigFailed err)
      | Inr None \<Rightarrow> Inl (ConfigFailed RepoClosed)
      | Inr (Some cfg) \<Rightarrow>
          Inr (sort_key sdService
            (map (\<lambda>(svcName, svcConfig).
                    \<lparr> sdService = svcName, sdEndpoint = Endpoint svcConfig,
                      sdStat = (if stat then
                                  Some (case lsRemotePinCount cl uo svcName r s of
                                          Inr pinCount \<Rightarrow> ValidStat pinCount | Inl _ \<Rightarrow> InvalidStat)
                                else None) \<rparr>)
               (RemoteServices cfg))))"

text \<open>The columns of a line of the listing.\<close>

definition serviceRow :: "ServiceDetails \<Rightarrow> string list" where
  "serviceRow s =
     (case sdStat s of
        None \<Rightarrow> [sdService s, sdEndpoint s]
      | Some InvalidStat \<Rightarrow> [sdService s, sdEndpoint s, ''invalid'']
      | Some (ValidStat pc) \<Rightarrow>
          [sdService s, sdEndpoint s,
           joinc ''/'' (map decInt [Queued pc, Pinning pc, Pinned pc, Failed pc])])"

section \<open>Listing and removing pins\<close>

record 'c RemotePinOutput =
  outStatus :: string
  outCid :: 'c
  outName :: string

definition toRemotePinOutput :: "('c, 'a, 's) pinClient \<Rightarrow> ('c, 'a) RemotePin \<Rightarrow> 'c RemotePinOutput" where
  "toRemotePinOutput cl ps =
     \<lparr> outStatus = StatusString cl (rpStatus ps), outCid = rpCid ps, outName = rpName ps \<rparr>"

text \<open>The options of a request; \<^verbatim>\<open>--status\<close> has the default \<^verbatim>\<open>pinned\<close>.\<close>

record pinQuery =
  qName :: "string option"
  qCids :: "string list option"
  qStatus :: "string list option"

fun parseCids :: "(string \<Rightarrow> 'c option) \<Rightarrow> string list \<Rightarrow> pin_err + 'c list" where
  "parseCids dec [] = Inr []"
| "parseCids dec (rawCID # rest) =
     (case dec rawCID of
        None \<Rightarrow> Inl (BadCid rawCID)
      | Some parsedCID \<Rightarrow> bindS (parseCids dec rest) (\<lambda>cs. Inr (parsedCID # cs)))"

fun parseStatuses :: "('c, 'a, 's) pinClient \<Rightarrow> string list \<Rightarrow> pin_err + string list" where
  "parseStatuses cl [] = Inr []"
| "parseStatuses cl (rawStatus # rest) =
     (if StatusString cl rawStatus = StatusUnknown then Inl (BadStatus rawStatus)
      else bindS (parseStatuses cl rest) (\<lambda>ss. Inr (rawStatus # ss)))"

definition lsOptions ::
  "('c, 'a, 's) pinClient \<Rightarrow> (string \<Rightarrow> 'c option) \<Rightarrow> pinQuery \<Rightarrow> pin_err + 'c lsOpt list" where
  "lsOptions cl dec q =
     bindS (case qCids q of None \<Rightarrow> Inr [] | Some raw \<Rightarrow> bindS (parseCids dec raw) (\<lambda>cs. Inr [FilterCIDs cs])) (\<lambda>cids.
     bindS (case qStatus q of None \<Rightarrow> Inr [] | Some raw \<Rightarrow> bindS (parseStatuses cl raw) (\<lambda>ss. Inr [FilterStatus ss])) (\<lambda>sts.
       Inr ((case qName q of None \<Rightarrow> [] | Some name \<Rightarrow> [FilterName name]) @ cids @ sts)))"

definition lsRemote ::
  "('c, 'a, 's) pinClient \<Rightarrow> (string \<Rightarrow> 'c option) \<Rightarrow> pinQuery \<Rightarrow> conn \<Rightarrow> 's \<Rightarrow>
   (pin_err + ('c, 'a) RemotePin list \<times> string option) \<times> 's" where
  "lsRemote cl dec q c s =
     (case lsOptions cl dec q of
        Inl err \<Rightarrow> (Inl err, s)
      | Inr opts \<Rightarrow> (case clLs cl c opts s of (res, s') \<Rightarrow> (Inr res, s')))"

text \<open>What \<^verbatim>\<open>pin remote ls\<close> emits, and the error it ends with.\<close>

definition listRemotePin ::
  "('c, 'a, 's) pinClient \<Rightarrow> 'u urlOps \<Rightarrow> (string \<Rightarrow> 'c option) \<Rightarrow> string option \<Rightarrow> pinQuery \<Rightarrow>
   'o Config FSRepo \<Rightarrow> 's \<Rightarrow> ('c RemotePinOutput list \<times> pin_err option) \<times> 's" where
  "listRemotePin cl uo dec service q r s =
     (case getRemotePinServiceFromRequest uo service r of
        Inl err \<Rightarrow> (([], Some err), s)
      | Inr c \<Rightarrow>
          (case lsRemote cl dec q c s of
             (Inl err, s') \<Rightarrow> (([], Some err), s')
           | (Inr (pins, err), s') \<Rightarrow> ((map (toRemotePinOutput cl) pins, map_option ListFailed err), s')))"

fun deleteAll :: "('c, 'a, 's) pinClient \<Rightarrow> conn \<Rightarrow> string list \<Rightarrow> 's \<Rightarrow> pin_err option \<times> 's" where
  "deleteAll cl c [] s = (None, s)"
| "deleteAll cl c (rmID # rest) s =
     (case clDeleteByID cl c rmID s of
        (Some err, s') \<Rightarrow> (Some (DeleteFailed rmID err), s')
      | (None, s') \<Rightarrow> deleteAll cl c rest s')"

definition rmRemotePin ::
  "('c, 'a, 's) pinClient \<Rightarrow> 'u urlOps \<Rightarrow> (string \<Rightarrow> 'c option) \<Rightarrow> string option \<Rightarrow> string list \<Rightarrow> pinQuery \<Rightarrow> bool \<Rightarrow>
   'o Config FSRepo \<Rightarrow> 's \<Rightarrow> pin_err option \<times> 's" where
  "rmRemotePin cl uo dec service args q force r s =
     (case getRemotePinServiceFromRequest uo service r of
        Inl err \<Rightarrow> (Some err, s)
      | Inr c \<Rightarrow>
          (case args of
             a # _ \<Rightarrow> (Some (UnexpectedArgument a), s)
           | [] \<Rightarrow>
               (case lsRemote cl dec q c s of
                  (Inl err, s1) \<Rightarrow> (Some err, s1)
                | (Inr (pins, Some err), s1) \<Rightarrow> (Some (ListFailed err), s1)
                | (Inr (pins, None), s1) \<Rightarrow>
                    (let rmIDs = map rpRequestId pins in
                     if length rmIDs > 1 \<and> \<not> force then (Some MultipleMatches, s1)
                     else deleteAll cl c rmIDs s1))))"

section \<open>Adding a pin\<close>

text \<open>
  Waiting for the service.  \<open>cancelled\<close> says whether the context of the request is done
  when the half second after a poll is over; \<open>None\<close> is a wait without end.
\<close>

partial_function (option) waitPinned ::
  "('c, 'a, 's) pinClient \<Rightarrow> conn \<Rightarrow> ('s \<Rightarrow> bool) \<Rightarrow> string \<Rightarrow> 's \<Rightarrow> ((pin_err + ('c, 'a) RemotePin) \<times> 's) option" where
  "waitPinned cl c cancelled requestID s =
     (case clGetStatusByID cl c requestID s of
        (Inl err, s') \<Rightarrow> Some (Inl (StatusCheckFailed requestID), s')
      | (Inr ps, s') \<Rightarrow>
          if rpRequestId ps \<noteq> requestID then Some (Inl (UnexpectedRequestId requestID), s')
          else if rpStatus ps = StatusPinned then Some (Inr ps, s')
          else if rpStatus ps = StatusFailed then Some (Inl (PinFailed requestID), s')
          else if cancelled s' then Some (Inl (Interrupted requestID), s')
          else waitPinned cl c cancelled requestID s')"

record ('c, 'a) addEnv =
  aeResolve :: "string \<Rightarrow> string + 'c"
  aeHas :: "'c \<Rightarrow> string + bool"
  aeHost :: "(string + 'a list) option"
  aeIsOnline :: bool
  aeTextOutput :: bool
  aeDelegate :: "'a \<Rightarrow> bool"

datatype 'a addEvent = OfflineWarning | ConnectTo 'a

text \<open>\<open>aeDelegate\<close>: whether \<^verbatim>\<open>AddrInfoFromP2pAddr\<close> accepts an address.  A failed
  connection is only logged.\<close>

fun connectDelegates :: "('a \<Rightarrow> bool) \<Rightarrow> 'a list \<Rightarrow> bool \<times> 'a addEvent list" where
  "connectDelegates good [] = (True, [])"
| "connectDelegates good (a # as) =
     (if \<not> good a then (False, [])
      else (case connectDelegates good as of (ok, evs) \<Rightarrow> (ok, ConnectTo a # evs)))"

definition originOpts :: "('c, 'a) addEnv \<Rightarrow> 'c \<Rightarrow> pin_err + ('a addOpt list \<times> 'a addEvent list)" where
  "originOpts ae cid =
     (case aeHas ae cid of
        Inl err \<Rightarrow> Inl (LocalFailed err)
      | Inr isInBlockstore \<Rightarrow>
          (case (isInBlockstore, aeHost ae) of
             (True, Some (Inl err)) \<Rightarrow> Inl (LocalFailed err)
           | (True, Some (Inr addrs)) \<Rightarrow> Inr ([WithOrigins addrs], [])
           | (True, None) \<Rightarrow> Inr ([], if \<not> aeIsOnline ae \<and> aeTextOutput ae then [OfflineWarning] else [])
           | (False, _) \<Rightarrow> Inr ([], [])))"

definition addRemotePin ::
  "('c, 'a, 's) pinClient \<Rightarrow> 'u urlOps \<Rightarrow> ('c, 'a) addEnv \<Rightarrow> ('s \<Rightarrow> bool) \<Rightarrow> string option \<Rightarrow> string list \<Rightarrow> string option \<Rightarrow>
   bool \<Rightarrow> 'o Config FSRepo \<Rightarrow> 's \<Rightarrow> ((pin_err + 'c RemotePinOutput) \<times> 'a addEvent list \<times> 's) option" where
  "addRemotePin cl uo ae cancelled service args name background r s =
     (case getRemotePinServiceFromRequest uo service r of
        Inl err \<Rightarrow> Some (Inl err, [], s)
      | Inr c \<Rightarrow>
          (case args of
             [arg] \<Rightarrow>
               (case aeResolve ae arg of
                  Inl err \<Rightarrow> Some (Inl (ResolveFailed err), [], s)
                | Inr rp \<Rightarrow>
                    (case originOpts ae rp of
                       Inl err \<Rightarrow> Some (Inl err, [], s)
                     | Inr (origins, evs) \<Rightarrow>
                         (case clAdd cl c rp ((case name of None \<Rightarrow> [] | Some n \<Rightarrow> [WithName n]) @ origins) s of
                            (Inl err, s1) \<Rightarrow> Some (Inl (RemoteFailed err), evs, s1)
                          | (Inr ps, s1) \<Rightarrow>
                              (case connectDelegates (aeDelegate ae) (rpDelegates ps) of
                                 (False, evs') \<Rightarrow> Some (Inl BadDelegate, evs @ evs', s1)
                               | (True, evs') \<Rightarrow>
                                   if background then Some (Inr (toRemotePinOutput cl ps), evs @ evs', s1)
                                   else Option.bind (waitPinned cl c cancelled (rpRequestId ps) s1)
                                     (\<lambda>(res, s2). Some (map_sum id (toRemotePinOutput cl) res, evs @ evs', s2))))))
           | _ \<Rightarrow> Some (Inl WrongArguments, [], s)))"

end
