(* ===== verification/RemotePinsProps.thy ===== *)
theory RemotePinsProps
  imports RemotePins ConfigProps
begin

text \<open>
  What the loop over the pinning services achieves, what a removal leaves behind, when
  waiting for a pin ends, and what an endpoint is normalised to.
\<close>

section \<open>One pass over the services\<close>

fun errorFor :: "mfsErr \<Rightarrow> string option" where
  "errorFor (InvalidRepinInterval name) = Some name"
| "errorFor (PinningFailed name _) = Some name"
| "errorFor _ = None"

lemma noPin_invalid [simp]: "\<not> IsValid noPin"
  by (simp add: IsValid_def)

lemma valid_pin [simp]: "lpCID x = Some c \<Longrightarrow> IsValid x"
  by (auto simp: IsValid_def noPin_def)

lemma pinMFS_result:
  "pinMFS cl node now cid svcName svc s = (Inr p, s') \<Longrightarrow>
   lpServiceName p = svcName \<and> lpServiceConfig p = svc \<and> lpCID p = Some cid"
  by (auto simp: pinMFS_def Let_def case_prod_beta split: prod.splits option.splits sum.splits if_splits)

lemma recordPins_append: "recordPins (xs @ ys) m = recordPins ys (recordPins xs m)"
  by (induction xs arbitrary: m) simp_all

lemma recordPins_idle [simp]: "recordPins (map (\<lambda>_. noPin) xs) m = m"
  by (induction xs arbitrary: m) simp_all

lemma runPins_records:
  assumes "runPins cl node start root svcs s = (pins, errs, s')" and "distinct (map fst svcs)"
  shows "(\<forall>name svc. (name, svc) \<in> set svcs \<longrightarrow>
            (if Some name \<in> errorFor ` set errs then recordPins pins m name = m name
             else \<exists>p. recordPins pins m name = Some p \<and> lpServiceConfig p = svc \<and> lpCID p = Some root)) \<and>
         (\<forall>name. name \<notin> fst ` set svcs \<longrightarrow> recordPins pins m name = m name \<and> Some name \<notin> errorFor ` set errs)"
  using assms
proof (induction svcs arbitrary: pins errs s m s')
  case Nil
  then show ?case by simp
next
  case (Cons x svcs)
  obtain n sv where x: "x = (n, sv)" by (cases x)
  obtain res s1 where one: "pinMFS cl node (start n) root n sv s = (res, s1)"
    by (cases "pinMFS cl node (start n) root n sv s")
  obtain ps es s2 where rest: "runPins cl node start root svcs s1 = (ps, es, s2)"
    by (cases "runPins cl node start root svcs s1") auto
  have d: "distinct (map fst svcs)" "n \<notin> fst ` set svcs" using Cons.prems(2) x by auto
  note ih = Cons.IH [OF rest d(1)]
  show ?case
  proof (cases res)
    case (Inl err)
    then have e: "pins = noPin # ps" "errs = PinningFailed n err # es"
      using Cons.prems(1) one rest by (simp_all add: x)
    have "recordPins pins m name = recordPins ps m name" for name by (simp add: e)
    then show ?thesis using ih [of m] d(2) by (auto simp: e x image_iff)
  next
    case (Inr r)
    then have e: "pins = r # ps" "errs = es" using Cons.prems(1) one rest by (simp_all add: x)
    have r: "lpServiceName r = n" "lpServiceConfig r = sv" "lpCID r = Some root"
      using pinMFS_result [OF one [unfolded Inr]] by simp_all
    define m' where "m' = m(n \<mapsto> r)"
    have m': "m' n = Some r" "name \<noteq> n \<Longrightarrow> m' name = m name" for name by (simp_all add: m'_def)
    have rec: "recordPins pins m = recordPins ps m'" using r by (simp add: e m'_def)
    note ih' = ih [of m']
    have here: "recordPins ps m' n = Some r" "Some n \<notin> errorFor ` set es" using ih' d(2) m'(1) by auto
    have other: "name \<noteq> n" if "(name, svc) \<in> set svcs" for name svc using that d(2) by force
    have "if Some name \<in> errorFor ` set es then recordPins ps m' name = m name
          else \<exists>p. recordPins ps m' name = Some p \<and> lpServiceConfig p = svc \<and> lpCID p = Some root"
      if "(name, svc) \<in> set ((n, sv) # svcs)" for name svc
      using that ih' here r m'(2) other by (cases "name = n") auto
    moreover have "recordPins ps m' name = m name \<and> Some name \<notin> errorFor ` set es"
      if "name \<notin> fst ` set ((n, sv) # svcs)" for name
      using that ih' m'(2) by auto
    ultimately show ?thesis unfolding e x rec [unfolded e] by blast
  qed
qed

lemma distinct_sort_filter: "distinct (map fst xs) \<Longrightarrow> distinct (map fst (sort_key f (filter P xs)))"
proof -
  assume "distinct (map fst xs)"
  then have "distinct (map fst (filter P xs))" by (rule distinct_map_filter)
  then have "distinct (filter P xs) \<and> inj_on fst (set (filter P xs))" by (simp only: distinct_map)
  then have "distinct (sort_key f (filter P xs)) \<and> inj_on fst (set (sort_key f (filter P xs)))" by simp
  then show ?thesis by (simp only: distinct_map)
qed

definition intervalOf :: "'a mfsNode \<Rightarrow> PinService \<Rightarrow> int option" where
  "intervalOf node svc =
     (if RepinInterval (svcMFS svc) = [] then Some defaultRepinInterval
      else parseDuration node (RepinInterval (svcMFS svc)))"

lemma considerService_skip:
  "considerService node root now lastPins name svc = SkipService \<longleftrightarrow>
     \<not> mfsEnable (svcMFS svc) \<or>
     (\<exists>i p. intervalOf node svc = Some i \<and> lastPins name = Some p \<and> lpServiceConfig p = svc \<and>
        (lpCID p = Some root \<or> now - lpTime p < i))"
  by (auto simp: considerService_def intervalOf_def split: option.splits)

lemma considerService_refuse:
  "considerService node root now lastPins name svc = RefuseInterval \<longleftrightarrow>
     mfsEnable (svcMFS svc) \<and> intervalOf node svc = None"
  by (auto simp: considerService_def intervalOf_def split: option.splits)

text \<open>
  C27. After a pass of the MFS loop every configured service is accounted for.  A service
  that is not enabled is left as it was.  For an enabled one, either the pass reports an
  error that names it and its last pin is as before, or no error names it and its last pin
  was made with its present configuration, and holds the root or is younger than the
  interval of the service.  What is recorded for other names stays.
\<close>

theorem every_service_is_accounted_for:
  assumes "tkConfig t = Inr services" and "tkRoot t = Inr root"
    and "distinct (map fst services)"
    and "mfsTick cl node t lastPins s = (errs, lastPins', s')"
  shows "(\<forall>name svc. (name, svc) \<in> set services \<longrightarrow>
            (if \<not> mfsEnable (svcMFS svc) \<or> Some name \<in> errorFor ` set errs then lastPins' name = lastPins name
             else \<exists>p i. lastPins' name = Some p \<and> lpServiceConfig p = svc \<and> intervalOf node svc = Some i \<and>
                    (lpCID p = Some root \<or> tkNow t name - lpTime p < i))) \<and>
         (\<forall>name. name \<notin> fst ` set services \<longrightarrow> lastPins' name = lastPins name)"
proof -
  let ?dec = "\<lambda>(name, svc). considerService node root (tkNow t name) lastPins name svc"
  let ?key = "\<lambda>(name, svc). tkRank t name"
  let ?launched = "sort_key ?key (filter (\<lambda>x. ?dec x = LaunchPin) services)"
  let ?bad = "map (\<lambda>(name, svc). InvalidRepinInterval name) (filter (\<lambda>x. ?dec x = RefuseInterval) services)"
  obtain pins es s2 where run: "runPins cl node (tkStart t) root ?launched s = (pins, es, s2)"
    by (cases "runPins cl node (tkStart t) root ?launched s") auto
  have res: "errs = ?bad @ es" "lastPins' = recordPins pins lastPins"
    using assms run by (simp_all add: mfsTick_def pinAllMFS_def Let_def recordPins_append)
  note records = runPins_records [OF run distinct_sort_filter [OF assms(3)], where m = lastPins]
  have uniq: "(n, a) \<in> set services \<Longrightarrow> (n, b) \<in> set services \<Longrightarrow> a = b" for n a b
    using assms(3) eq_key_imp_eq_value by fastforce
  have launched: "(n, v) \<in> set ?launched \<longleftrightarrow>
      (n, v) \<in> set services \<and> considerService node root (tkNow t n) lastPins n v = LaunchPin" for n v
    by auto
  have bad: "Some n \<in> errorFor ` set ?bad \<longleftrightarrow>
      (\<exists>v. (n, v) \<in> set services \<and> considerService node root (tkNow t n) lastPins n v = RefuseInterval)" for n
    by (force simp: image_iff)
  have "if \<not> mfsEnable (svcMFS v) \<or> Some n \<in> errorFor ` set errs then lastPins' n = lastPins n
        else \<exists>p i. lastPins' n = Some p \<and> lpServiceConfig p = v \<and> intervalOf node v = Some i \<and>
               (lpCID p = Some root \<or> tkNow t n - lpTime p < i)" if mem: "(n, v) \<in> set services" for n v
  proof (cases "considerService node root (tkNow t n) lastPins n v")
    case SkipService
    then have "n \<notin> fst ` set ?launched" using launched uniq [OF mem] by fastforce
    then have keep: "lastPins' n = lastPins n" "Some n \<notin> errorFor ` set es" using records res by blast+
    have "Some n \<notin> errorFor ` set ?bad" using bad uniq [OF mem] SkipService by fastforce
    with keep SkipService show ?thesis unfolding considerService_skip res by (auto simp: image_Un)
  next
    case RefuseInterval
    then have "n \<notin> fst ` set ?launched" using launched uniq [OF mem] by fastforce
    then have keep: "lastPins' n = lastPins n" using records res by blast
    have "Some n \<in> errorFor ` set ?bad" using bad mem RefuseInterval by blast
    with keep show ?thesis unfolding res by (simp add: image_Un)
  next
    case LaunchPin
    then have mem': "(n, v) \<in> set ?launched" using launched mem by blast
    have nb: "Some n \<notin> errorFor ` set ?bad" using bad uniq [OF mem] LaunchPin by fastforce
    have en: "mfsEnable (svcMFS v)" "\<exists>i. intervalOf node v = Some i"
      using LaunchPin by (auto simp: considerService_def intervalOf_def split: if_splits option.splits)
    from records mem' have "if Some n \<in> errorFor ` set es then recordPins pins lastPins n = lastPins n
      else \<exists>p. recordPins pins lastPins n = Some p \<and> lpServiceConfig p = v \<and> lpCID p = Some root" by blast
    then show ?thesis using nb en unfolding res by (auto simp: image_Un)
  qed
  moreover have "lastPins' n = lastPins n" if "n \<notin> fst ` set services" for n
  proof -
    have "n \<notin> fst ` set ?launched" using that by force
    then show ?thesis using records res by blast
  qed
  ultimately show ?thesis by blast
qed

section \<open>Waiting for a pin\<close>

text \<open>The state after a number of polls, and whether a poll there ends the wait.\<close>

definition poll :: "('c, 'a, 's) pinClient \<Rightarrow> conn \<Rightarrow> string \<Rightarrow> 's \<Rightarrow> 's" where
  "poll cl c requestID s = snd (clGetStatusByID cl c requestID s)"

text \<open>What a poll decides, if anything, for the request with this id.\<close>

definition verdict ::
  "('c, 'a, 's) pinClient \<Rightarrow> conn \<Rightarrow> ('s \<Rightarrow> bool) \<Rightarrow> string \<Rightarrow> 's \<Rightarrow> (pin_err + ('c, 'a) RemotePin) option" where
  "verdict cl c cancelled requestID s =
     (case fst (clGetStatusByID cl c requestID s) of
        Inl _ \<Rightarrow> Some (Inl (StatusCheckFailed requestID))
      | Inr ps \<Rightarrow>
          if rpRequestId ps \<noteq> requestID then Some (Inl (UnexpectedRequestId requestID))
          else if rpStatus ps = StatusPinned then Some (Inr ps)
          else if rpStatus ps = StatusFailed then Some (Inl (PinFailed requestID))
          else if cancelled (poll cl c requestID s) then Some (Inl (Interrupted requestID))
          else None)"

lemma waitPinned_unfold:
  assumes "clGetStatusByID cl c rid s = (res, s')"
  shows "waitPinned cl c cancelled rid s =
     (case res of
        Inl err \<Rightarrow> Some (Inl (StatusCheckFailed rid), s')
      | Inr ps \<Rightarrow>
          if rpRequestId ps \<noteq> rid then Some (Inl (UnexpectedRequestId rid), s')
          else if rpStatus ps = StatusPinned then Some (Inr ps, s')
          else if rpStatus ps = StatusFailed then Some (Inl (PinFailed rid), s')
          else if cancelled s' then Some (Inl (Interrupted rid), s')
          else waitPinned cl c cancelled rid s')"
  by (rule trans [OF waitPinned.simps]) (simp only: assms prod.case)

lemma waitPinned_verdict:
  "waitPinned cl c cancelled rid s =
     (case verdict cl c cancelled rid s of
        Some v \<Rightarrow> Some (v, poll cl c rid s)
      | None \<Rightarrow> waitPinned cl c cancelled rid (poll cl c rid s))"
proof -
  obtain res s' where one: "clGetStatusByID cl c rid s = (res, s')" by (cases "clGetStatusByID cl c rid s")
  then have p: "poll cl c rid s = s'" by (simp add: poll_def)
  show ?thesis
    unfolding p waitPinned_unfold [OF one] by (cases res) (simp_all add: verdict_def p one)
qed

lemma waitPinned_returns:
  "(\<forall>k<n. verdict cl c cancelled rid ((poll cl c rid ^^ k) s) = None) \<Longrightarrow>
   verdict cl c cancelled rid ((poll cl c rid ^^ n) s) = Some v \<Longrightarrow>
   waitPinned cl c cancelled rid s = Some (v, (poll cl c rid ^^ Suc n) s)"
proof (induction n arbitrary: s)
  case 0
  then show ?case by (subst waitPinned_verdict) simp
next
  case (Suc n)
  let ?s = "poll cl c rid s"
  have shift: "(poll cl c rid ^^ k) ?s = (poll cl c rid ^^ Suc k) s" for k
    by (simp add: funpow_swap1)
  have "\<forall>k<n. verdict cl c cancelled rid ((poll cl c rid ^^ k) ?s) = None"
    using Suc.prems(1) unfolding shift by auto
  from Suc.IH [OF this] Suc.prems(2)
  have "waitPinned cl c cancelled rid ?s = Some (v, (poll cl c rid ^^ Suc (Suc n)) s)"
    unfolding shift by blast
  moreover have "verdict cl c cancelled rid s = None" using Suc.prems(1) by force
  ultimately show ?case by (subst waitPinned_verdict) simp
qed

lemma waitPinned_needs_verdict:
  assumes "waitPinned cl c cancelled rid s = Some r"
  shows "\<exists>n. verdict cl c cancelled rid ((poll cl c rid ^^ n) s) \<noteq> None"
  using assms
proof (rule waitPinned.raw_induct [where P = "\<lambda>cl c cancelled rid s r. \<exists>n. verdict cl c cancelled rid ((poll cl c rid ^^ n) s) \<noteq> None", rotated])
  fix wait :: "('a, 'b, 'c) pinClient \<Rightarrow> conn \<Rightarrow> ('c \<Rightarrow> bool) \<Rightarrow> string \<Rightarrow> 'c \<Rightarrow> ((pin_err + ('a, 'b) RemotePin) \<times> 'c) option"
  fix cl :: "('a, 'b, 'c) pinClient" and c cancelled rid s r
  assume ih: "\<And>cl c cancelled rid s r. wait cl c cancelled rid s = Some r \<Longrightarrow>
        \<exists>n. verdict cl c cancelled rid ((poll cl c rid ^^ n) s) \<noteq> None"
    and step: "(case clGetStatusByID cl c rid s of
        (Inl err, s') \<Rightarrow> Some (Inl (StatusCheckFailed rid), s')
      | (Inr ps, s') \<Rightarrow>
          if rpRequestId ps \<noteq> rid then Some (Inl (UnexpectedRequestId rid), s')
          else if rpStatus ps = StatusPinned then Some (Inr ps, s')
          else if rpStatus ps = StatusFailed then Some (Inl (PinFailed rid), s')
          else if cancelled s' then Some (Inl (Interrupted rid), s')
          else wait cl c cancelled rid s') = Some r"
  obtain res s' where one: "clGetStatusByID cl c rid s = (res, s')" by (cases "clGetStatusByID cl c rid s")
  then have p: "poll cl c rid s = s'" by (simp add: poll_def)
  show "\<exists>n. verdict cl c cancelled rid ((poll cl c rid ^^ n) s) \<noteq> None"
  proof (cases "verdict cl c cancelled rid s")
    case (Some v)
    then show ?thesis by (intro exI [of _ 0]) simp
  next
    case None
    then have "wait cl c cancelled rid s' = Some r"
      using step by (cases res) (auto simp: one p verdict_def split: if_splits)
    from ih [OF this] obtain n where "verdict cl c cancelled rid ((poll cl c rid ^^ n) (poll cl c rid s)) \<noteq> None"
      unfolding p ..
    then have "verdict cl c cancelled rid ((poll cl c rid ^^ Suc n) s) \<noteq> None" by (simp add: funpow_swap1)
    then show ?thesis ..
  qed
qed

lemma waitPinned_None:
  "waitPinned cl c cancelled rid s = None \<longleftrightarrow> (\<forall>n. verdict cl c cancelled rid ((poll cl c rid ^^ n) s) = None)"
proof
  assume all: "\<forall>n. verdict cl c cancelled rid ((poll cl c rid ^^ n) s) = None"
  show "waitPinned cl c cancelled rid s = None"
  proof (rule ccontr)
    assume "waitPinned cl c cancelled rid s \<noteq> None"
    then obtain q where "waitPinned cl c cancelled rid s = Some q" by blast
    from waitPinned_needs_verdict [OF this] all show False by simp
  qed
next
  assume none: "waitPinned cl c cancelled rid s = None"
  show "\<forall>n. verdict cl c cancelled rid ((poll cl c rid ^^ n) s) = None"
  proof (rule ccontr)
    assume "\<not> (\<forall>n. verdict cl c cancelled rid ((poll cl c rid ^^ n) s) = None)"
    then have "\<exists>n. verdict cl c cancelled rid ((poll cl c rid ^^ n) s) \<noteq> None" by blast
    then obtain m where "verdict cl c cancelled rid ((poll cl c rid ^^ m) s) \<noteq> None"
      "\<forall>k<m. verdict cl c cancelled rid ((poll cl c rid ^^ k) s) = None"
      unfolding exists_least_iff [of "\<lambda>n. verdict cl c cancelled rid ((poll cl c rid ^^ n) s) \<noteq> None"] by blast
    then show False using waitPinned_returns [of m cl c cancelled rid s] none by auto
  qed
qed

text \<open>
  What precedes the request to the service: the connection, the CID, the options, and the
  warning that the node is offline; or the error that ends the command before it.
\<close>

definition prepareAdd ::
  "'u urlOps \<Rightarrow> ('c, 'a) addEnv \<Rightarrow> string option \<Rightarrow> string list \<Rightarrow> string option \<Rightarrow> 'o Config FSRepo \<Rightarrow>
   pin_err + conn \<times> 'c \<times> 'a addOpt list \<times> 'a addEvent list" where
  "prepareAdd uo ae service args name r =
     bindS (getRemotePinServiceFromRequest uo service r) (\<lambda>c.
     bindS (case args of [arg] \<Rightarrow> map_sum ResolveFailed id (aeResolve ae arg) | _ \<Rightarrow> Inl WrongArguments) (\<lambda>cid.
     bindS (originOpts ae cid) (\<lambda>(origins, evs).
       Inr (c, cid, (case name of None \<Rightarrow> [] | Some n \<Rightarrow> [WithName n]) @ origins, evs))))"

lemma connectDelegates_all:
  "\<forall>a \<in> set as. good a \<Longrightarrow> connectDelegates good as = (True, map ConnectTo as)"
  by (induction as) simp_all

lemma bad_delegate: "\<exists>a \<in> set as. \<not> good a \<Longrightarrow> \<not> fst (connectDelegates good as)"
  by (induction as) (auto simp: case_prod_beta)

lemma addRemotePin_prepared:
  "addRemotePin cl uo ae cancelled service args name background r s =
     (case prepareAdd uo ae service args name r of
        Inl err \<Rightarrow> Some (Inl err, [], s)
      | Inr (c, cid, opts, evs) \<Rightarrow>
          (case clAdd cl c cid opts s of
             (Inl err, s1) \<Rightarrow> Some (Inl (RemoteFailed err), evs, s1)
           | (Inr ps, s1) \<Rightarrow>
               (case connectDelegates (aeDelegate ae) (rpDelegates ps) of
                  (False, evs') \<Rightarrow> Some (Inl BadDelegate, evs @ evs', s1)
                | (True, evs') \<Rightarrow>
                    if background then Some (Inr (toRemotePinOutput cl ps), evs @ evs', s1)
                    else Option.bind (waitPinned cl c cancelled (rpRequestId ps) s1)
                      (\<lambda>(res, s2). Some (map_sum id (toRemotePinOutput cl) res, evs @ evs', s2)))))"
  unfolding addRemotePin_def prepareAdd_def
  by (simp split: sum.split list.split prod.split)

text \<open>
  C25. \<^verbatim>\<open>pin remote add\<close>.  What fails before the request - the service, the arguments, the path,
  the local node - ends the command with that error and without a request.  Then one request is
  made, for the resolved CID, with the name and, if the block is here, the addresses of the node;
  its error ends the command, and so does a delegate whose address does not parse.  With
  \<^verbatim>\<open>--background\<close> the command answers with the pin as it was accepted, and polls nothing.
  Without it, it comes back exactly if some poll of the service is decisive: the poll fails,
  answers for another request, says pinned or failed, or the request of the user has been
  cancelled when it is over.  It comes back right after the first such poll, with what that poll
  says, and with success only when the service said pinned for this very request.
\<close>

theorem waiting_ends_with_the_first_decisive_poll:
  assumes "out = addRemotePin cl uo ae cancelled service args name background r s"
  shows "(\<forall>err. prepareAdd uo ae service args name r = Inl err \<longrightarrow> out = Some (Inl err, [], s)) \<and>
   (\<forall>c cid opts evs. prepareAdd uo ae service args name r = Inr (c, cid, opts, evs) \<longrightarrow>
     (\<forall>err s1. clAdd cl c cid opts s = (Inl err, s1) \<longrightarrow> out = Some (Inl (RemoteFailed err), evs, s1)) \<and>
     (\<forall>ps s1. clAdd cl c cid opts s = (Inr ps, s1) \<longrightarrow>
       (if \<exists>a \<in> set (rpDelegates ps). \<not> aeDelegate ae a then \<exists>evs'. out = Some (Inl BadDelegate, evs', s1)
        else if background then out = Some (Inr (toRemotePinOutput cl ps), evs @ map ConnectTo (rpDelegates ps), s1)
        else
          (out = None \<longleftrightarrow> (\<forall>n. verdict cl c cancelled (rpRequestId ps) ((poll cl c (rpRequestId ps) ^^ n) s1) = None)) \<and>
          (\<forall>n v. (\<forall>k<n. verdict cl c cancelled (rpRequestId ps) ((poll cl c (rpRequestId ps) ^^ k) s1) = None) \<and>
             verdict cl c cancelled (rpRequestId ps) ((poll cl c (rpRequestId ps) ^^ n) s1) = Some v \<longrightarrow>
             out = Some (map_sum id (toRemotePinOutput cl) v, evs @ map ConnectTo (rpDelegates ps),
               (poll cl c (rpRequestId ps) ^^ Suc n) s1) \<and>
             (\<forall>p. v = Inr p \<longrightarrow> rpRequestId p = rpRequestId ps \<and> rpStatus p = StatusPinned)))))"
proof (intro conjI allI impI)
  show "out = Some (Inl err, [], s)" if "prepareAdd uo ae service args name r = Inl err" for err
    unfolding assms addRemotePin_prepared that by simp
next
  fix c cid opts evs err s1
  assume p: "prepareAdd uo ae service args name r = Inr (c, cid, opts, evs)" and a: "clAdd cl c cid opts s = (Inl err, s1)"
  show "out = Some (Inl (RemoteFailed err), evs, s1)"
    unfolding assms addRemotePin_prepared p by (simp add: a)
next
  fix c cid opts evs ps s1
  assume p: "prepareAdd uo ae service args name r = Inr (c, cid, opts, evs)" and a: "clAdd cl c cid opts s = (Inr ps, s1)"
  let ?rid = "rpRequestId ps"
  have pinned: "rpRequestId q = rid \<and> rpStatus q = StatusPinned" if "verdict cl c cancelled rid t = Some (Inr q)" for q rid t
    using that by (auto simp: verdict_def split: sum.splits if_splits)
  show "if \<exists>a \<in> set (rpDelegates ps). \<not> aeDelegate ae a then \<exists>evs'. out = Some (Inl BadDelegate, evs', s1)
        else if background then out = Some (Inr (toRemotePinOutput cl ps), evs @ map ConnectTo (rpDelegates ps), s1)
        else
          (out = None \<longleftrightarrow> (\<forall>n. verdict cl c cancelled ?rid ((poll cl c ?rid ^^ n) s1) = None)) \<and>
          (\<forall>n v. (\<forall>k<n. verdict cl c cancelled ?rid ((poll cl c ?rid ^^ k) s1) = None) \<and>
             verdict cl c cancelled ?rid ((poll cl c ?rid ^^ n) s1) = Some v \<longrightarrow>
             out = Some (map_sum id (toRemotePinOutput cl) v, evs @ map ConnectTo (rpDelegates ps), (poll cl c ?rid ^^ Suc n) s1) \<and>
             (\<forall>p. v = Inr p \<longrightarrow> rpRequestId p = ?rid \<and> rpStatus p = StatusPinned))"
  proof (cases "\<exists>a \<in> set (rpDelegates ps). \<not> aeDelegate ae a")
    case True
    obtain ok evs' where d: "connectDelegates (aeDelegate ae) (rpDelegates ps) = (ok, evs')"
      by (cases "connectDelegates (aeDelegate ae) (rpDelegates ps)")
    with bad_delegate [OF True] have "\<not> ok" by simp
    then have "out = Some (Inl BadDelegate, evs @ evs', s1)"
      unfolding assms addRemotePin_prepared p by (simp add: a d)
    with True show ?thesis by simp
  next
    case False
    then have d: "connectDelegates (aeDelegate ae) (rpDelegates ps) = (True, map ConnectTo (rpDelegates ps))"
      by (intro connectDelegates_all) blast
    show ?thesis
    proof (cases background)
      case True
      then have "out = Some (Inr (toRemotePinOutput cl ps), evs @ map ConnectTo (rpDelegates ps), s1)"
        unfolding assms addRemotePin_prepared p by (simp add: a d)
      with False True show ?thesis by simp
    next
      case fore: False
      have out: "out = Option.bind (waitPinned cl c cancelled ?rid s1)
          (\<lambda>(res, s2). Some (map_sum id (toRemotePinOutput cl) res, evs @ map ConnectTo (rpDelegates ps), s2))"
        unfolding assms addRemotePin_prepared p using fore by (simp add: a d)
      have "out = None \<longleftrightarrow> waitPinned cl c cancelled ?rid s1 = None"
        unfolding out by (cases "waitPinned cl c cancelled ?rid s1") auto
      moreover have "out = Some (map_sum id (toRemotePinOutput cl) v, evs @ map ConnectTo (rpDelegates ps), (poll cl c ?rid ^^ Suc n) s1)"
        if "\<forall>k<n. verdict cl c cancelled ?rid ((poll cl c ?rid ^^ k) s1) = None"
          and "verdict cl c cancelled ?rid ((poll cl c ?rid ^^ n) s1) = Some v" for n v
        unfolding out waitPinned_returns [OF that] by simp
      ultimately show ?thesis
        using False fore pinned unfolding waitPinned_None by (simp only: if_False) blast
    qed
  qed
qed

section \<open>Removing a service\<close>

text \<open>
  \<^verbatim>\<open>pin remote service rm\<close> takes the service out of the configuration in memory, but
  the file keeps it: \<^verbatim>\<open>SetConfig\<close> merges the new configuration into the stored one, so
  whatever the file had under a key of the service that the new configuration lacks - the
  endpoint, the access key - is still returned by \<^verbatim>\<open>GetConfigKey\<close> afterwards.
\<close>

theorem removed_service_stays_on_disk:
  assumes "rmRemotePinService e ops [name] r d = (None, r', d')" and "fr_config r = Some cfg"
    and "\<not> failRename e (fr_configFilePath r)"
    and "ToMap ops (cfg\<lparr> RemoteServices := AList.delete name (RemoteServices cfg) \<rparr>) = Inr m"
    and "GetConfigKey e key r d = Inr y" and "MapGetKV m key = Inl (KeyNotFound t)"
  shows "(\<exists>cfg'. fr_config r' = Some cfg' \<and> map_of (RemoteServices cfg') name = None \<and>
            (\<forall>other. other \<noteq> name \<longrightarrow> map_of (RemoteServices cfg') other = map_of (RemoteServices cfg) other)) \<and>
         GetConfigKey e key r' d' = Inr y"
proof -
  let ?cfg = "cfg\<lparr> RemoteServices := AList.delete name (RemoteServices cfg) \<rparr>"
  let ?r = "r\<lparr> fr_config := Some ?cfg \<rparr>"
  have set: "SetConfig e ops ?cfg ?r d = (None, r', d')"
    using assms(1,2) by (auto simp: rmRemotePinService_def saveConfig_def fsConfig_def split: if_splits prod.splits)
  have "GetConfigKey e key ?r d = Inr y" "\<not> failRename e (fr_configFilePath ?r)"
    using assms(3,5) by (simp_all add: GetConfigKey_def split: if_splits)
  from set_config_keeps_user_keys [OF set assms(4) this(2,1) assms(6)]
  have "fr_config r' = Some ?cfg" "GetConfigKey e key r' d' = Inr y" by simp_all
  then show ?thesis by (simp add: delete_conv')
qed

section \<open>Endpoints\<close>

lemma TrimSuffix_char: "TrimSuffix s [c] = (if s \<noteq> [] \<and> last s = c then butlast s else s)"
  by (cases s rule: rev_cases) (auto simp: TrimSuffix_def HasSuffix_def)

lemma joinc_last: "cs \<noteq> [] \<Longrightarrow> last cs \<noteq> [] \<Longrightarrow> joinc sep cs \<noteq> [] \<and> last (joinc sep cs) = last (last cs)"
  by (induction cs) (auto simp: joinc_Cons)

lemma clean_rooted:
  fixes p :: string
  assumes "HasPrefix p ''/''"
  obtains cs where "pathClean p = CHR ''/'' # joinc ''/'' cs"
    "\<forall>c \<in> set cs. c \<noteq> [] \<and> c \<noteq> ''.'' \<and> c \<noteq> ''..'' \<and> CHR ''/'' \<notin> set c"
proof -
  let ?cs = "cleanComps True [] (splitc CHR ''/'' p)"
  have "set ?cs \<subseteq> set (splitc CHR ''/'' p) - {[], ''.'', ''..''}"
    using cleanComps_rooted [of "[]" "splitc CHR ''/'' p"] by simp
  then have "\<forall>c \<in> set ?cs. c \<noteq> [] \<and> c \<noteq> ''.'' \<and> c \<noteq> ''..'' \<and> CHR ''/'' \<notin> set c"
    using splitc_parts_no_sep by blast
  moreover have "pathClean p = CHR ''/'' # joinc ''/'' ?cs"
    using assms by (simp add: pathClean_def pathIsAbs_def Let_def)
  ultimately show thesis using that by blast
qed

lemma pathClean_proper:
  assumes "\<forall>c \<in> set cs. c \<noteq> [] \<and> c \<noteq> ''.'' \<and> c \<noteq> ''..'' \<and> CHR ''/'' \<notin> set c" and "cs \<noteq> []"
  shows "pathClean (CHR ''/'' # joinc ''/'' cs) = CHR ''/'' # joinc ''/'' cs"
proof -
  have "splitc CHR ''/'' (CHR ''/'' # joinc ''/'' cs) = [] # cs"
    using splitc_append_sep [of "CHR ''/''" "[]" "joinc ''/'' cs"] assms by (simp add: splitc_joinc)
  moreover have "cleanComps True [] cs = cs" using cleanComps_proper [of cs True "[]"] assms(1) by simp
  ultimately show ?thesis by (simp add: pathClean_def pathIsAbs_def Let_def HasPrefix_def)
qed

lemma normalizePath_normal:
  assumes "p = [] \<or> HasPrefix p ''/''" and "last (pathClean p) \<noteq> CHR ''.'' \<or> p = []"
  shows "normalizePath (normalizePath p) = normalizePath p"
    and "normalizePath p = [] \<or> HasPrefix (normalizePath p) ''/''"
proof -
  have empty: "normalizePath [] = []" by code_simp
  have "normalizePath (normalizePath p) = normalizePath p \<and> (normalizePath p = [] \<or> HasPrefix (normalizePath p) ''/'')"
  proof (cases "p = []")
    case True
    with empty show ?thesis by simp
  next
    case False
    with assms(1) obtain cs where cs: "pathClean p = CHR ''/'' # joinc ''/'' cs"
      "\<forall>c \<in> set cs. c \<noteq> [] \<and> c \<noteq> ''.'' \<and> c \<noteq> ''..'' \<and> CHR ''/'' \<notin> set c"
      by (metis clean_rooted)
    show ?thesis
    proof (cases "cs = []")
      case True
      then have "normalizePath p = []" by (simp add: normalizePath_def cs TrimSuffix_char)
      with empty show ?thesis by simp
    next
      case ne: False
      then have lc: "last cs \<in> set cs" by simp
      then have j: "joinc ''/'' cs \<noteq> []" "last (joinc ''/'' cs) = last (last cs)" using joinc_last [OF ne] cs(2) by auto
      have "last cs \<noteq> []" "CHR ''/'' \<notin> set (last cs)" using lc cs(2) by blast+
      then have nsl: "last (joinc ''/'' cs) \<noteq> CHR ''/''" unfolding j(2) using last_in_set by metis
      have ndot: "last (joinc ''/'' cs) \<noteq> CHR ''.''" using assms(2) False cs(1) j(1) by simp
      have stay: "TrimSuffix (TrimSuffix (CHR ''/'' # joinc ''/'' cs) ''.'') ''/'' = CHR ''/'' # joinc ''/'' cs"
        using j(1) nsl ndot by (simp add: TrimSuffix_char)
      have n: "normalizePath p = CHR ''/'' # joinc ''/'' cs"
        by (simp only: normalizePath_def cs(1) stay)
      moreover have "normalizePath (CHR ''/'' # joinc ''/'' cs) = CHR ''/'' # joinc ''/'' cs"
        by (simp only: normalizePath_def pathClean_proper [OF cs(2) ne] stay)
      ultimately show ?thesis by (simp add: HasPrefix_def)
    qed
  qed
  then show "normalizePath (normalizePath p) = normalizePath p"
    "normalizePath p = [] \<or> HasPrefix (normalizePath p) ''/''" by simp_all
qed

text \<open>
  The endpoint that \<^verbatim>\<open>pin remote service add\<close> stores is a fixed point of the
  normalisation every later use applies to it, so what is contacted is what was stored -
  provided the cleaned path does not end in a dot.
\<close>

theorem stored_endpoint_is_contacted:
  assumes "normalizeEndpoint uo raw = Inr stored" and "ParseRequestURI uo raw = Some u"
    and "urlPath u = [] \<or> HasPrefix (urlPath u) ''/''"
    and "last (pathClean (urlPath u)) \<noteq> CHR ''.'' \<or> urlPath u = []"
    and "\<forall>v. RawQuery v = [] \<longrightarrow> (urlPath v = [] \<or> HasPrefix (urlPath v) ''/'') \<longrightarrow>
           ParseRequestURI uo (urlString uo v) = Some v"
  shows "normalizeEndpoint uo stored = Inr stored \<and> RawQuery u = [] \<and> \<not> HasSuffix (normalizePath (urlPath u)) ''/pins''"
proof -
  let ?v = "u\<lparr> urlPath := normalizePath (urlPath u) \<rparr>"
  have v: "stored = urlString uo ?v" "RawQuery u = []" "\<not> HasSuffix (normalizePath (urlPath u)) ''/pins''"
    "urlScheme u = ''http'' \<or> urlScheme u = ''https''"
    using assms(1,2) by (auto simp: normalizeEndpoint_def Let_def split: if_splits)
  note np = normalizePath_normal [OF assms(3,4)]
  have "ParseRequestURI uo stored = Some ?v" using assms(5) [rule_format, of ?v] v(1,2) np(2) by simp
  then show ?thesis using v np(1) by (simp add: normalizeEndpoint_def Let_def)
qed

text \<open>Otherwise a dot is cut off each time, and an accepted endpoint can be refused by every use.\<close>

lemma trailing_dots_are_cut_again:
  "normalizePath ''/v1..'' = ''/v1.''" "normalizePath ''/v1.'' = ''/v1''"
  "\<not> HasSuffix (normalizePath ''/pins..'') ''/pins''" "HasSuffix (normalizePath (normalizePath ''/pins..'')) ''/pins''"
  by code_simp+

section \<open>What the service holds afterwards\<close>

text \<open>
  What the interface of pinning services documents: a listing by name gives the pins of
  that name, an accepted request adds a pin, a replacement takes the place of the pin with
  the given request id.  \<open>pinsOf\<close> are the pins of an account.
\<close>

definition honest ::
  "('c, 'a, 's) pinClient \<Rightarrow> (conn \<Rightarrow> 's \<Rightarrow> ('c, 'a) RemotePin list) \<Rightarrow> bool" where
  "honest cl pinsOf \<longleftrightarrow>
     (\<forall>c name s pins s'.
        clLs cl c [FilterName name, FilterStatus [StatusQueued, StatusPinning, StatusPinned, StatusFailed]] s
          = ((pins, None), s') \<longrightarrow> s' = s \<and> pins = filter (\<lambda>p. rpName p = name) (pinsOf c s)) \<and>
     (\<forall>c cid name opts s p s'. clAdd cl c cid (WithName name # opts) s = (Inr p, s') \<longrightarrow>
        pinsOf c s' = p # pinsOf c s \<and> rpName p = name \<and> rpCid p = cid) \<and>
     (\<forall>c rid cid name opts s p s'. clReplace cl c rid cid (WithName name # opts) s = (Inr p, s') \<longrightarrow>
        pinsOf c s' = map (\<lambda>q. if rpRequestId q = rid then p else q) (pinsOf c s) \<and> rpName p = name \<and> rpCid p = cid)"

lemma honest_ls:
  "honest cl pinsOf \<Longrightarrow>
   clLs cl c [FilterName name, FilterStatus [StatusQueued, StatusPinning, StatusPinned, StatusFailed]] s = ((pins, None), s') \<Longrightarrow>
   s' = s \<and> pins = filter (\<lambda>p. rpName p = name) (pinsOf c s)"
  unfolding honest_def by blast

lemma honest_add:
  "honest cl pinsOf \<Longrightarrow> clAdd cl c cid (WithName name # opts) s = (Inr p, s') \<Longrightarrow>
   pinsOf c s' = p # pinsOf c s \<and> rpName p = name \<and> rpCid p = cid"
  unfolding honest_def by blast

lemma honest_replace:
  "honest cl pinsOf \<Longrightarrow> clReplace cl c rid cid (WithName name # opts) s = (Inr p, s') \<Longrightarrow>
   pinsOf c s' = map (\<lambda>q. if rpRequestId q = rid then p else q) (pinsOf c s) \<and> rpName p = name \<and> rpCid p = cid"
  unfolding honest_def by blast

lemma scanPins_found:
  "scanPins cid ex pins = (rid, Some t) \<Longrightarrow> \<exists>q \<in> set pins. rpCid q = cid \<and> rpStatus q \<noteq> StatusFailed"
  by (induction pins arbitrary: ex) (auto split: if_splits)

lemma scanPins_last:
  "scanPins cid ex pins = (rid, None) \<Longrightarrow> rid = (if pins = [] then ex else rpRequestId (last pins))"
  by (induction pins arbitrary: ex) (auto split: if_splits)

lemma replace_named:
  assumes "distinct (map rpRequestId ps)" and "q \<in> set ps" and "rpName q = n" and "rpName p = n"
  shows "map rpName (map (\<lambda>x. if rpRequestId x = rpRequestId q then p else x) ps) = map rpName ps"
  using assms by (auto simp: distinct_map inj_on_def)

lemma length_filter_map: "map f xs = map f ys \<Longrightarrow> length (filter (\<lambda>x. f x = a) xs) = length (filter (\<lambda>x. f x = a) ys)"
proof -
  have *: "length (filter (\<lambda>y. y = a) (map f zs)) = length (filter (\<lambda>x. f x = a) zs)" for zs
    by (induction zs) simp_all
  show "map f xs = map f ys \<Longrightarrow> ?thesis" unfolding * [symmetric] by (simp only:)
qed

text \<open>
  C19. When \<^verbatim>\<open>pinMFS\<close> reports success, the service holds a pin with the name of the
  policy for the given root, and pins of that name have not piled up: there are as many as
  before, or the first one has been made.
\<close>

theorem mfs_root_is_pinned_under_one_name:
  assumes "honest cl pinsOf" and "pinMFS cl node now cid svcName svc s = (Inr p, s')"
    and "distinct (map rpRequestId (pinsOf (Endpoint svc, svcKey svc) s))"
    and "[] \<notin> rpRequestId ` set (pinsOf (Endpoint svc, svcKey svc) s)"
  shows "(\<exists>q \<in> set (pinsOf (Endpoint svc, svcKey svc) s'). rpName q = mfsPinName node svc \<and> rpCid q = cid) \<and>
    length (filter (\<lambda>q. rpName q = mfsPinName node svc) (pinsOf (Endpoint svc, svcKey svc) s')) =
      max 1 (length (filter (\<lambda>q. rpName q = mfsPinName node svc) (pinsOf (Endpoint svc, svcKey svc) s)))"
proof -
  let ?c = "(Endpoint svc, svcKey svc)" and ?n = "mfsPinName node svc"
  let ?opts = "[FilterName ?n, FilterStatus [StatusQueued, StatusPinning, StatusPinned, StatusFailed]]"
  obtain pins s1 where ls: "clLs cl ?c ?opts s = ((pins, None), s1)"
    using assms(2) by (auto simp: pinMFS_def Let_def split: prod.splits option.splits)
  then have pins: "s1 = s" "pins = filter (\<lambda>q. rpName q = ?n) (pinsOf ?c s)"
    using honest_ls [OF assms(1) ls] by simp_all
  obtain rid cr where scan: "scanPins cid [] pins = (rid, cr)" by (cases "scanPins cid [] pins")
  show ?thesis
  proof (cases cr)
    case (Some t)
    then have "s' = s" using assms(2) ls scan pins(1) by (simp add: pinMFS_def Let_def)
    moreover obtain q where "q \<in> set pins" "rpCid q = cid" using scanPins_found scan Some by metis
    ultimately show ?thesis using pins(2) by (auto simp: Suc_le_eq max_def length_greater_0_conv filter_empty_conv)
  next
    case None
    obtain origins where o: "mfsOrigins node = Inr origins"
      using assms(2) by (cases "mfsOrigins node") (simp_all add: pinMFS_def Let_def ls scan None)
    let ?act = "if rid \<noteq> [] then clReplace cl ?c rid cid (WithName ?n # origins) s
        else clAdd cl ?c cid (WithName ?n # origins) s"
    obtain p' where act: "?act = (Inr p', s')"
    proof (cases "rid = []")
      case True
      obtain x s2 where x: "clAdd cl ?c cid (WithName ?n # origins) s = (x, s2)"
        by (cases "clAdd cl ?c cid (WithName ?n # origins) s")
      with True assms(2) have "\<exists>p'. x = Inr p' \<and> s2 = s'"
        by (cases x) (simp_all add: pinMFS_def Let_def ls scan None pins(1) o)
      with x True that show thesis by auto
    next
      case False
      obtain x s2 where x: "clReplace cl ?c rid cid (WithName ?n # origins) s = (x, s2)"
        by (cases "clReplace cl ?c rid cid (WithName ?n # origins) s")
      with False assms(2) have "\<exists>p'. x = Inr p' \<and> s2 = s'"
        by (cases x) (simp_all add: pinMFS_def Let_def ls scan None pins(1) o)
      with x False that show thesis by auto
    qed
    have rid: "rid = (if pins = [] then [] else rpRequestId (last pins))" by (rule scanPins_last [OF scan [unfolded None]])
    show ?thesis
    proof (cases "pins = []")
      case True
      then have "clAdd cl ?c cid (WithName ?n # origins) s = (Inr p', s')" using act rid by simp
      from honest_add [OF assms(1) this] have "pinsOf ?c s' = p' # pinsOf ?c s" "rpName p' = ?n" "rpCid p' = cid"
        by simp_all
      then show ?thesis using pins(2) True by simp
    next
      case False
      then have lp: "last pins \<in> set (pinsOf ?c s)" "rpName (last pins) = ?n"
        using last_in_set [OF False] pins(2) by auto
      then have "rid \<noteq> []" using rid False assms(4) by (auto simp: image_iff)
      then have "clReplace cl ?c rid cid (WithName ?n # origins) s = (Inr p', s')" using act by simp
      from honest_replace [OF assms(1) this] have r: "pinsOf ?c s' = map (\<lambda>q. if rpRequestId q = rid then p' else q) (pinsOf ?c s)"
        "rpName p' = ?n" "rpCid p' = cid"
        by simp_all
      have same: "map rpName (pinsOf ?c s') = map rpName (pinsOf ?c s)"
        using replace_named [OF assms(3) lp r(2)] r(1) rid False by simp
      have "p' \<in> set (pinsOf ?c s')" using lp(1) rid False unfolding r(1) by (force simp: image_iff)
      then have "\<exists>q \<in> set (pinsOf ?c s'). rpName q = ?n \<and> rpCid q = cid" using r(2,3) by blast
      moreover have "length pins \<ge> 1" using False by (simp add: Suc_le_eq)
      then have "max 1 (length pins) = length pins" by simp
      moreover have "length (filter (\<lambda>q. rpName q = ?n) (pinsOf ?c s')) = length pins"
        unfolding pins(2) by (rule length_filter_map [OF same])
      ultimately show ?thesis unfolding pins(2) [symmetric] by metis
    qed
  qed
qed

section \<open>A pin that is reported as an error\<close>

text \<open>
  When the service names a delegate whose address does not parse, \<^verbatim>\<open>pin remote add\<close>
  ends with an error although the service has accepted the request.
\<close>

lemma bad_delegate_hides_accepted_pin:
  assumes "getRemotePinServiceFromRequest uo service r = Inr c" and "aeResolve ae arg = Inr cid"
    and "aeHas ae cid = Inr False" and "clAdd cl c cid [] s = (Inr ps, s1)"
    and "\<exists>a \<in> set (rpDelegates ps). \<not> aeDelegate ae a"
  shows "\<exists>evs. addRemotePin cl uo ae cancelled service [arg] None background r s = Some (Inl BadDelegate, evs, s1)"
proof -
  obtain ok evs where "connectDelegates (aeDelegate ae) (rpDelegates ps) = (ok, evs)"
    by (cases "connectDelegates (aeDelegate ae) (rpDelegates ps)")
  with bad_delegate [OF assms(5)] have "connectDelegates (aeDelegate ae) (rpDelegates ps) = (False, evs)" by simp
  then show ?thesis using assms(1-4) by (simp add: addRemotePin_def originOpts_def)
qed

section \<open>Witnesses\<close>

definition demoPin :: "nat \<Rightarrow> string \<Rightarrow> (nat, unit) RemotePin" where
  "demoPin cid name = \<lparr> rpRequestId = ''id'' @ name, rpStatus = StatusQueued, rpCreated = 7, rpCid = cid,
     rpName = name, rpDelegates = [] \<rparr>"

fun optName :: "unit addOpt list \<Rightarrow> string" where
  "optName (WithName n # _) = n"
| "optName _ = []"

fun lsName :: "nat lsOpt list \<Rightarrow> string" where
  "lsName (FilterName n # _) = n"
| "lsName _ = []"

text \<open>A service whose state is the list of its pins and the number of polls so far.\<close>

definition demoService :: "(nat, unit, (nat, unit) RemotePin list \<times> nat) pinClient" where
  "demoService =
     \<lparr> clLs = (\<lambda>c opts s. ((filter (\<lambda>p. rpName p = lsName opts) (fst s), None), s)),
       clAdd = (\<lambda>c cid opts s. let p = demoPin cid (optName opts) in (Inr p, (p # fst s, snd s))),
       clReplace = (\<lambda>c rid cid opts s. let p = demoPin cid (optName opts)
          in (Inr p, (map (\<lambda>q. if rpRequestId q = rid then p else q) (fst s), snd s))),
       clGetStatusByID = (\<lambda>c rid s.
          (Inr ((demoPin 1 [])\<lparr> rpRequestId := rid, rpStatus := if snd s < 2 then StatusPinning else StatusPinned \<rparr>),
           (fst s, Suc (snd s)))),
       clDeleteByID = (\<lambda>c rid s. (None, s)), clCount = (\<lambda>c st s. Inr 0), StatusString = id \<rparr>"

definition demoNode :: "unit mfsNode" where
  "demoNode = \<lparr> nodeIdentity = ''Qm'', hostAddrs = None, parseDuration = (\<lambda>_. None) \<rparr>"

definition demoSvc :: PinService where
  "demoSvc = \<lparr> Endpoint = ''e'', svcKey = ''k'', svcMFS = \<lparr> mfsEnable = True, PinName = ''mfs'', RepinInterval = [] \<rparr> \<rparr>"

lemma demo_pinMFS:
  "pinMFS demoService demoNode 5 3 ''s'' demoSvc ([demoPin 2 ''mfs''], 0) =
     (Inr \<lparr> lpTime = 5, lpServiceName = ''s'', lpServiceConfig = demoSvc, lpCID = Some 3 \<rparr>, ([demoPin 3 ''mfs''], 0))"
  by (simp add: pinMFS_def demoService_def demoNode_def demoSvc_def mfsPinName_def mfsOrigins_def demoPin_def Let_def)

theorem every_service_is_accounted_for_witness:
  "\<exists>errs lp s'. mfsTick demoService demoNode
       \<lparr> tkConfig = Inr [(''s'', demoSvc)], tkRoot = Inr 3, tkNow = (\<lambda>_. 5), tkStart = (\<lambda>_. 5), tkRank = (\<lambda>_. 0) \<rparr>
       Map.empty ([demoPin 2 ''mfs''], 0) = (errs, lp, s') \<and> errs = [] \<and> lp ''t'' = None \<and>
     (\<exists>p. lp ''s'' = Some p \<and> lpServiceConfig p = demoSvc)"
proof -
  let ?t = "\<lparr> tkConfig = Inr [(''s'', demoSvc)], tkRoot = Inr 3, tkNow = (\<lambda>_. 5), tkStart = (\<lambda>_. 5), tkRank = (\<lambda>_. 0) \<rparr>"
  let ?res = "mfsTick demoService demoNode ?t Map.empty ([demoPin 2 ''mfs''], 0)"
  have dec: "considerService demoNode 3 5 Map.empty ''s'' demoSvc = LaunchPin"
    by (simp add: considerService_def demoSvc_def)
  have "fst ?res = []"
    by (simp add: mfsTick_def pinAllMFS_def dec demo_pinMFS)
  then have res: "?res = ([], fst (snd ?res), snd (snd ?res))" by (metis prod.collapse)
  have "\<exists>p. fst (snd ?res) ''s'' = Some p \<and> lpServiceConfig p = demoSvc" "fst (snd ?res) ''t'' = None"
    using every_service_is_accounted_for [OF _ _ _ res, of "[(''s'', demoSvc)]" 3] by (auto simp: demoSvc_def)
  with res show ?thesis by blast
qed

definition waitUrls :: "unit urlOps" where
  "waitUrls = \<lparr> ParseRequestURI = (\<lambda>e. Some \<lparr> urlScheme = ''http'', urlPath = [], RawQuery = [], urlRest = () \<rparr>), urlString = (\<lambda>_. ''e'') \<rparr>"

definition waitEnv :: "(nat, unit) addEnv" where
  "waitEnv = \<lparr> aeResolve = (\<lambda>_. Inr 4), aeHas = (\<lambda>_. Inr False), aeHost = None, aeIsOnline = True, aeTextOutput = True,
     aeDelegate = (\<lambda>_. True) \<rparr>"

text \<open>Two polls say that the service is pinning, the third that it has pinned.\<close>

theorem waiting_ends_with_the_first_decisive_poll_witness:
  "\<exists>pin. addRemotePin demoService waitUrls waitEnv (\<lambda>_. False) (Some ''s'') [''a''] None False demoRepo ([], 0)
     = Some (Inr pin, [], ([demoPin 4 []], 3)) \<and> outStatus pin = StatusPinned"
proof -
  let ?v = "\<lambda>s. verdict demoService (''e'', []) (\<lambda>_. False) ''id'' s" and ?s1 = "([demoPin 4 []], 0)"
  have norm: "normalizePath [] = []" by code_simp
  have prep: "prepareAdd waitUrls waitEnv (Some ''s'') [''a''] None demoRepo = Inr ((''e'', []), 4, [], [])"
    by (simp add: prepareAdd_def getRemotePinServiceFromRequest_def getRemotePinService_def getRemotePinServiceInfo_def fsConfig_def
        demoRepo_def demoConfig_def normalizeEndpoint_def norm waitUrls_def waitEnv_def originOpts_def HasSuffix_def)
  have add: "clAdd demoService (''e'', []) 4 [] ([], 0) = (Inr (demoPin 4 []), ?s1)"
    by (simp add: demoService_def Let_def)
  have id: "rpRequestId (demoPin 4 []) = ''id''" "rpDelegates (demoPin 4 []) = []" by (simp_all add: demoPin_def)
  have it: "(poll demoService (''e'', []) ''id'' ^^ k) ?s1 = ([demoPin 4 []], k)" for k
    by (induction k) (simp_all add: poll_def demoService_def)
  let ?p = "(demoPin 1 [])\<lparr> rpRequestId := ''id'', rpStatus := StatusPinned \<rparr>"
  have v: "?v (x, k) = (if k < 2 then None else Some (Inr ?p))" for x k
    by (simp add: verdict_def demoService_def StatusPinned_def StatusPinning_def StatusFailed_def)
  let ?out = "addRemotePin demoService waitUrls waitEnv (\<lambda>_. False) (Some ''s'') [''a''] None False demoRepo ([], 0)"
  let ?poll = "poll demoService (''e'', []) ''id''"
  have two: "(\<forall>k<2. ?v ((?poll ^^ k) ?s1) = None) \<and> ?v ((?poll ^^ 2) ?s1) = Some (Inr ?p)"
    unfolding it v by simp
  have "\<forall>n v. (\<forall>k<n. ?v ((?poll ^^ k) ?s1) = None) \<and> ?v ((?poll ^^ n) ?s1) = Some v \<longrightarrow>
      ?out = Some (map_sum id (toRemotePinOutput demoService) v, [] @ map ConnectTo [], (?poll ^^ Suc n) ?s1) \<and>
      (\<forall>p. v = Inr p \<longrightarrow> rpRequestId p = ''id'' \<and> rpStatus p = StatusPinned)"
    using waiting_ends_with_the_first_decisive_poll
      [OF refl, THEN conjunct2, THEN spec, THEN spec, THEN spec, THEN spec, THEN mp, OF prep,
        THEN conjunct2, THEN spec, THEN spec, THEN mp, OF add, unfolded id, of "\<lambda>_. False" False]
    by (simp only: list.set ball_empty bex_empty empty_iff simp_thms if_False) blast
  from this [THEN spec, THEN spec, THEN mp, OF two]
  have "?out = Some (map_sum id (toRemotePinOutput demoService) (Inr ?p), [], (?poll ^^ Suc 2) ?s1)"
    by simp
  then show ?thesis unfolding it by (simp add: toRemotePinOutput_def demoService_def)
qed

theorem mfs_root_is_pinned_under_one_name_witness:
  "length (filter (\<lambda>q. rpName q = ''mfs'') (fst (snd (pinMFS demoService demoNode 5 3 ''s'' demoSvc ([demoPin 2 ''mfs''], 0))))) = 1"
proof -
  have h: "honest demoService (\<lambda>c s. fst s)"
    by (auto simp: honest_def demoService_def Let_def demoPin_def)
  have n: "mfsPinName demoNode demoSvc = ''mfs''" by (simp add: mfsPinName_def demoSvc_def)
  show ?thesis
    using mfs_root_is_pinned_under_one_name [OF h demo_pinMFS, unfolded n] unfolding demo_pinMFS
    by (simp add: demoPin_def)
qed

theorem removed_service_stays_on_disk_witness:
  "let key = ''Pinning.RemoteServices.s.API.Key''; res = rmRemotePinService okFs (baseOps demoOps) [''s''] demoRepo demoDisk
   in fst res = None \<and> GetConfigKey okFs key (fst (snd res)) (snd (snd res)) = Inr (JStr ''K'')"
proof -
  let ?res = "rmRemotePinService okFs (baseOps demoOps) [''s''] demoRepo demoDisk"
  have "fst ?res = None"
    by (simp add: rmRemotePinService_def fsConfig_def demoRepo_def
        saveConfig_def SetConfig_def ReadConfigFile_def osReadFile_def demoDisk_def okFs_def WriteConfigFile_def
        demoOps_def cfgOps.defs)
  then have res: "?res = (None, fst (snd ?res), snd (snd ?res))" by (metis prod.collapse)
  have "GetConfigKey okFs ''Pinning.RemoteServices.s.API.Key'' demoRepo demoDisk = Inr (JStr ''K'')"
    by (simp add: GetConfigKey_def demoRepo_def demoDisk_def ReadConfigFile_def osReadFile_def okFs_def MapGetKV_def)
  moreover have "MapGetKV Map.empty ''Pinning.RemoteServices.s.API.Key'' = Inl (KeyNotFound ''Pinning'')"
    by (simp add: MapGetKV_def)
  moreover have "\<not> failRename okFs p" for p by (simp add: okFs_def)
  moreover have "ToMap (baseOps demoOps) cf = Inr Map.empty" for cf by (simp add: demoOps_def cfgOps.defs)
  moreover have "fr_config demoRepo = Some demoConfig" by (simp add: demoRepo_def)
  ultimately have "GetConfigKey okFs ''Pinning.RemoteServices.s.API.Key'' (fst (snd ?res)) (snd (snd ?res)) = Inr (JStr ''K'')"
    using removed_service_stays_on_disk [OF res] by blast
  with res show ?thesis by (metis fst_conv)
qed

definition demoUrls :: "unit urlOps" where
  "demoUrls =
     \<lparr> ParseRequestURI = (\<lambda>s. let n = length (takeWhile (\<lambda>c. c = CHR ''a'') s); t = drop (Suc n) s
          in Some \<lparr> urlScheme = take n t, urlPath = drop n t, RawQuery = [], urlRest = () \<rparr>),
       urlString = (\<lambda>u. replicate (length (urlScheme u)) CHR ''a'' @ CHR ''|'' # urlScheme u @ urlPath u) \<rparr>"

theorem stored_endpoint_is_contacted_witness:
  "\<exists>stored. normalizeEndpoint demoUrls ''aaaa|http/x//y/'' = Inr stored \<and>
     normalizeEndpoint demoUrls stored = Inr stored"
proof -
  let ?u = "\<lparr> urlScheme = ''http'', urlPath = ''/x//y/'', RawQuery = [], urlRest = () \<rparr>"
  have tw: "takeWhile (\<lambda>c. c = CHR ''a'') (replicate n CHR ''a'' @ CHR ''|'' # x) = replicate n CHR ''a''" for n x
    by (induction n) simp_all
  have law: "\<forall>v. RawQuery v = [] \<longrightarrow> (urlPath v = [] \<or> HasPrefix (urlPath v) ''/'') \<longrightarrow>
           ParseRequestURI demoUrls (urlString demoUrls v) = Some v"
    by (auto simp: demoUrls_def tw Let_def)
  have parse: "ParseRequestURI demoUrls ''aaaa|http/x//y/'' = Some ?u" by (simp add: demoUrls_def)
  have clean: "pathClean ''/x//y/'' = ''/x/y''" by code_simp
  have norm: "normalizePath ''/x//y/'' = ''/x/y''" by code_simp
  have suf: "\<not> HasSuffix ''/x/y'' ''/pins''" by code_simp
  obtain stored where st: "normalizeEndpoint demoUrls ''aaaa|http/x//y/'' = Inr stored"
    by (simp add: normalizeEndpoint_def parse norm suf)
  have "normalizeEndpoint demoUrls stored = Inr stored"
    using stored_endpoint_is_contacted [OF st parse _ _ law] by (simp add: clean HasPrefix_def)
  with st show ?thesis by blast
qed

end
