(* ===== verification/ResourceLimits.thy ===== *)
theory ResourceLimits
  imports ConfigCommands "HOL-Library.Log_Nat"
begin

text \<open>
  \<^verbatim>\<open>core/node/libp2p/rcmgr.go\<close>, \<^verbatim>\<open>rcmgr_defaults.go\<close>, \<^verbatim>\<open>rcmgr_logging.go\<close> and
  the commands \<^verbatim>\<open>swarm limit\<close> and \<^verbatim>\<open>swarm stats\<close> of \<^verbatim>\<open>core/commands/swarm.go\<close>:
  the limits of the libp2p resource manager, their defaults, reading, setting, resetting and
  comparing them with what is in use, and the log of exceeded limits.

  \<^item> The resource manager itself is libp2p's: \<open>rmgr\<close> says what viewing a scope gives, for an
    arbitrary state \<open>'m\<close>.
  \<^item> The integers of a limit are 64 bits wide; where the code computes with them, \<open>w64\<close>
    wraps the result.
  \<^item> The configuration is the record of the theory Profiles with the section
    \<^verbatim>\<open>Swarm.ResourceMgr\<close> as \<open>RmSection\<close>.
\<close>

definition w64 :: "int \<Rightarrow> int" where
  "w64 x = signed_take_bit 63 x"

lemma w64_id: "- (2 ^ 63) \<le> x \<Longrightarrow> x < 2 ^ 63 \<Longrightarrow> w64 x = x"
  unfolding w64_def by (rule signed_take_bit_int_eq_self)

section \<open>Limits\<close>

record BaseLimit =
  Streams :: int
  StreamsInbound :: int
  StreamsOutbound :: int
  Conns :: int
  ConnsInbound :: int
  ConnsOutbound :: int
  FD :: int
  Memory :: int

definition zeroLimit :: BaseLimit where
  "zeroLimit = \<lparr> Streams = 0, StreamsInbound = 0, StreamsOutbound = 0, Conns = 0, ConnsInbound = 0,
     ConnsOutbound = 0, FD = 0, Memory = 0 \<rparr>"

text \<open>The fields of \<^verbatim>\<open>rcmgr.LimitConfig\<close> the code uses; \<open>lcOther\<close> are the others.\<close>

record 'x LimitConfig =
  System :: BaseLimit
  Transient :: BaseLimit
  ServiceDefault :: BaseLimit
  Service :: "(string \<times> BaseLimit) list"
  ProtocolDefault :: BaseLimit
  Protocol :: "(string \<times> BaseLimit) list"
  PeerDefault :: BaseLimit
  Peer :: "(string \<times> BaseLimit) list"
  lcOther :: 'x

record 'x RmSection =
  rmEnabled :: Flag
  Limits :: "'x LimitConfig option"
  MaxMemory :: "OptionalString option"
  MaxFileDescriptors :: "OptionalInteger option"
  Allowlist :: "string list"

section \<open>The resource manager\<close>

datatype scope = ScSystem | ScTransient | ScService string | ScProtocol string | ScPeer string

datatype limiterView = NotALimiter | OtherLimit string | Limiter BaseLimit

record ScopeStat =
  NumStreamsInbound :: int
  NumStreamsOutbound :: int
  NumConnsInbound :: int
  NumConnsOutbound :: int
  NumFD :: int
  statMemory :: int

record ResourceManagerStat =
  statSystem :: ScopeStat
  statTransient :: ScopeStat
  statServices :: "(string \<times> ScopeStat) list"
  statProtocols :: "(string \<times> ScopeStat) list"
  statPeers :: "(string \<times> ScopeStat) list"

datatype rm_err =
    ErrNoResourceMgr | UnknownLimitType string | InvalidPeerID string | InvalidScope string
  | ViewFailed string | rmReadingConfig fs_err | rmSettingLimits rm_err | rmWritingConfig fs_err
  | DefaultsFailed string | LimitConflict string | OneScopeOnly | PercentageNeedsAll | BadLimitFile

text \<open>
  \<open>viewLimiter\<close>, \<open>viewStat\<close>: what the callback of a \<^verbatim>\<open>View...\<close> call finds, or its error;
  \<open>setLimiter\<close>: the state after \<^verbatim>\<open>SetLimit\<close> in such a call; \<open>isState\<close>: whether the
  manager is a \<^verbatim>\<open>ResourceManagerState\<close>; peers are given by their text, \<open>decodePeer\<close> is
  \<^verbatim>\<open>peer.Decode\<close>.
\<close>

record 'm rmgr =
  viewLimiter :: "'m \<Rightarrow> scope \<Rightarrow> rm_err + limiterView"
  setLimiter :: "scope \<Rightarrow> BaseLimit \<Rightarrow> 'm \<Rightarrow> 'm"
  viewStat :: "'m \<Rightarrow> scope \<Rightarrow> rm_err + ScopeStat"
  isState :: bool
  ListServices :: "'m \<Rightarrow> string list"
  ListProtocols :: "'m \<Rightarrow> string list"
  ListPeers :: "'m \<Rightarrow> string list"
  rmStat :: "'m \<Rightarrow> ResourceManagerStat"
  decodePeer :: "string \<Rightarrow> string option"

definition ResourceMgrSystemScope :: string where "ResourceMgrSystemScope = ''system''"
definition ResourceMgrTransientScope :: string where "ResourceMgrTransientScope = ''transient''"
definition ResourceMgrServiceScopePrefix :: string where "ResourceMgrServiceScopePrefix = ''svc:''"
definition ResourceMgrProtocolScopePrefix :: string where "ResourceMgrProtocolScopePrefix = ''proto:''"
definition ResourceMgrPeerScopePrefix :: string where "ResourceMgrPeerScopePrefix = ''peer:''"

text \<open>The \<^verbatim>\<open>switch\<close> on the text of a scope that all four functions have.\<close>

definition parseScope :: "'m rmgr \<Rightarrow> string \<Rightarrow> rm_err + scope" where
  "parseScope rm sc =
     (if sc = ResourceMgrSystemScope then Inr ScSystem
      else if sc = ResourceMgrTransientScope then Inr ScTransient
      else if HasPrefix sc ResourceMgrServiceScopePrefix then Inr (ScService (TrimPrefix sc ResourceMgrServiceScopePrefix))
      else if HasPrefix sc ResourceMgrProtocolScopePrefix then Inr (ScProtocol (TrimPrefix sc ResourceMgrProtocolScopePrefix))
      else if HasPrefix sc ResourceMgrPeerScopePrefix then
        (let p = TrimPrefix sc ResourceMgrPeerScopePrefix in
         case decodePeer rm p of None \<Rightarrow> Inl (InvalidPeerID p) | Some pid \<Rightarrow> Inr (ScPeer pid))
      else Inl (InvalidScope sc))"

section \<open>Reading limits\<close>

definition getLimit :: "'m rmgr \<Rightarrow> 'm \<Rightarrow> scope \<Rightarrow> rm_err + BaseLimit" where
  "getLimit rm m sc =
     bindS (viewLimiter rm m sc) (\<lambda>v.
       case v of NotALimiter \<Rightarrow> Inl ErrNoResourceMgr | OtherLimit t \<Rightarrow> Inl (UnknownLimitType t) | Limiter l \<Rightarrow> Inr l)"

definition NetLimit :: "'m rmgr \<Rightarrow> 'm \<Rightarrow> string \<Rightarrow> rm_err + BaseLimit" where
  "NetLimit rm m sc = bindS (parseScope rm sc) (getLimit rm m)"

record NetStatOut =
  noSystem :: "BaseLimit option"
  noTransient :: "BaseLimit option"
  noServices :: "(string \<times> BaseLimit) list"
  noProtocols :: "(string \<times> BaseLimit) list"
  noPeers :: "(string \<times> BaseLimit) list"

definition emptyStatOut :: NetStatOut where
  "emptyStatOut = \<lparr> noSystem = None, noTransient = None, noServices = [], noProtocols = [], noPeers = [] \<rparr>"

fun limitsOf :: "'m rmgr \<Rightarrow> 'm \<Rightarrow> string \<Rightarrow> string list \<Rightarrow> rm_err + (string \<times> BaseLimit) list" where
  "limitsOf rm m prefix [] = Inr []"
| "limitsOf rm m prefix (x # xs) =
     bindS (NetLimit rm m (prefix @ x)) (\<lambda>l. bindS (limitsOf rm m prefix xs) (\<lambda>ls. Inr ((x, l) # ls)))"

text \<open>
  \<^verbatim>\<open>NetLimitAll\<close>.  The branch of the transient scope asks for the limit of the system
  scope, as the code does.
\<close>

definition NetLimitAll :: "'m rmgr \<Rightarrow> 'm \<Rightarrow> rm_err + NetStatOut" where
  "NetLimitAll rm m =
     (if \<not> isState rm then Inl ErrNoResourceMgr
      else bindS (NetLimit rm m ResourceMgrSystemScope) (\<lambda>sys.
           bindS (NetLimit rm m ResourceMgrSystemScope) (\<lambda>tr.
           bindS (limitsOf rm m ResourceMgrServiceScopePrefix (ListServices rm m)) (\<lambda>svcs.
           bindS (limitsOf rm m ResourceMgrProtocolScopePrefix (ListProtocols rm m)) (\<lambda>protos.
           bindS (limitsOf rm m ResourceMgrPeerScopePrefix (ListPeers rm m)) (\<lambda>peers.
             Inr \<lparr> noSystem = Some sys, noTransient = Some tr, noServices = svcs, noProtocols = protos,
                   noPeers = peers \<rparr>))))))"

section \<open>Comparing what is used with the limits\<close>

definition scopeToLimit :: "ScopeStat \<Rightarrow> BaseLimit" where
  "scopeToLimit s =
     \<lparr> Streams = w64 (NumStreamsInbound s + NumStreamsOutbound s),
       StreamsInbound = NumStreamsInbound s, StreamsOutbound = NumStreamsOutbound s,
       Conns = w64 (NumConnsInbound s + NumConnsOutbound s),
       ConnsInbound = NumConnsInbound s, ConnsOutbound = NumConnsOutbound s,
       FD = NumFD s, Memory = statMemory s \<rparr>"

text \<open>
  Arithmetic of \<^verbatim>\<open>float64\<close> on positive numbers in the range of the ratios here: a number is
  \<open>(m, e)\<close> for m times 2 to the e, with m of 53 bits; \<open>fl\<close> rounds the fraction n/d to the
  nearest, ties to even.
\<close>

definition rne :: "nat \<Rightarrow> nat \<Rightarrow> nat" where
  "rne n d = (let q = n div d; r = n mod d in if 2 * r > d \<or> (2 * r = d \<and> odd q) then q + 1 else q)"

definition scaledQuot :: "nat \<Rightarrow> nat \<Rightarrow> int \<Rightarrow> nat \<times> nat" where
  "scaledQuot n d e = (if 0 \<le> e then (n, d * 2 ^ nat e) else (n * 2 ^ nat (- e), d))"

definition fl :: "nat \<Rightarrow> nat \<Rightarrow> nat \<times> int" where
  "fl n d =
     (if n = 0 then (0, 0)
      else let e = int (floorlog 2 n) - int (floorlog 2 d) - 53;
               (a, b) = scaledQuot n d e;
               e' = (if a div b \<ge> 2 ^ 53 then e + 1 else e);
               (a', b') = scaledQuot n d e'
           in (rne a' b', e'))"

text \<open>\<^verbatim>\<open>int((float64(v1)/float64(v2))*100)\<close> for positive \<open>v1\<close>, \<open>v2\<close>\<close>

definition flFrac :: "nat \<times> int \<Rightarrow> nat \<times> nat" where
  "flFrac f = (if 0 \<le> snd f then (fst f * 2 ^ nat (snd f), 1) else (fst f, 2 ^ nat (- snd f)))"

definition floatPercent :: "nat \<Rightarrow> nat \<Rightarrow> nat" where
  "floatPercent v1 v2 =
     (let (n1, d1) = flFrac (fl v1 1); (n2, d2) = flFrac (fl v2 1);
          (nq, dq) = flFrac (fl (n1 * d2) (d1 * n2));
          (np, dp) = flFrac (fl (nq * 100) dq)
      in np div dp)"

definition abovePercentage :: "int \<Rightarrow> int \<Rightarrow> int \<Rightarrow> bool" where
  "abovePercentage v1 v2 percentage =
     (if percentage = 0 then True
      else if v2 = 0 then False
      else sgn v1 * sgn v2 * int (floatPercent (nat \<bar>v1\<bar>) (nat \<bar>v2\<bar>)) \<ge> percentage)"

definition compareLimits :: "BaseLimit option \<Rightarrow> BaseLimit option \<Rightarrow> int \<Rightarrow> BaseLimit option" where
  "compareLimits stat limit percentage =
     (case (stat, limit) of
        (Some s, Some l) \<Rightarrow>
          if abovePercentage (Memory s) (Memory l) percentage
             \<or> abovePercentage (ConnsInbound s) (ConnsInbound l) percentage
             \<or> abovePercentage (ConnsOutbound s) (ConnsOutbound l) percentage
             \<or> abovePercentage (Conns s) (Conns l) percentage
             \<or> abovePercentage (FD s) (FD l) percentage
             \<or> abovePercentage (StreamsInbound s) (StreamsInbound l) percentage
             \<or> abovePercentage (StreamsOutbound s) (StreamsOutbound l) percentage
             \<or> abovePercentage (Streams s) (Streams l) percentage
          then Some s else None
      | _ \<Rightarrow> None)"

text \<open>A name without a limit reads the zero limit from the map.\<close>

definition compareAll ::
  "(string \<times> ScopeStat) list \<Rightarrow> (string \<times> BaseLimit) list \<Rightarrow> int \<Rightarrow> (string \<times> BaseLimit) list" where
  "compareAll stats limits percentage =
     List.map_filter (\<lambda>(name, stat).
       let ls = (case map_of limits name of None \<Rightarrow> zeroLimit | Some l \<Rightarrow> l) in
       map_option (Pair name) (compareLimits (Some (scopeToLimit stat)) (Some ls) percentage)) stats"

definition NetStat :: "'m rmgr \<Rightarrow> 'm \<Rightarrow> string \<Rightarrow> int \<Rightarrow> rm_err + NetStatOut" where
  "NetStat rm m sc percentage =
     (if sc = ''all'' then
        (if \<not> isState rm then Inl ErrNoResourceMgr
         else bindS (NetLimitAll rm m) (\<lambda>limits.
           let stat = rmStat rm m in
           Inr \<lparr> noSystem = compareLimits (Some (scopeToLimit (statSystem stat))) (noSystem limits) percentage,
                 noTransient = compareLimits (Some (scopeToLimit (statTransient stat))) (noTransient limits) percentage,
                 noServices = compareAll (statServices stat) (noServices limits) percentage,
                 noProtocols = compareAll (statProtocols stat) (noProtocols limits) percentage,
                 noPeers = compareAll (statPeers stat) (noPeers limits) percentage \<rparr>))
      else bindS (parseScope rm sc) (\<lambda>s.
        bindS (viewStat rm m s) (\<lambda>stat.
          Inr (case s of
            ScSystem \<Rightarrow> emptyStatOut\<lparr> noSystem := Some (scopeToLimit stat) \<rparr>
          | ScTransient \<Rightarrow> emptyStatOut\<lparr> noTransient := Some (scopeToLimit stat) \<rparr>
          | ScService svc \<Rightarrow> emptyStatOut\<lparr> noServices := [(svc, scopeToLimit stat)] \<rparr>
          | ScProtocol proto \<Rightarrow> emptyStatOut\<lparr> noProtocols := [(proto, scopeToLimit stat)] \<rparr>
          | ScPeer _ \<Rightarrow> emptyStatOut\<lparr> noPeers := [(TrimPrefix sc ResourceMgrPeerScopePrefix, scopeToLimit stat)] \<rparr>))))"

section \<open>Setting and resetting limits\<close>

type_synonym ('x, 'o) rmConfig = "('x, 'o) RmSection_scheme Config"

definition emptyLimitConfig :: "'x \<Rightarrow> 'x LimitConfig" where
  "emptyLimitConfig z =
     \<lparr> System = zeroLimit, Transient = zeroLimit, ServiceDefault = zeroLimit, Service = [],
       ProtocolDefault = zeroLimit, Protocol = [], PeerDefault = zeroLimit, Peer = [], lcOther = z \<rparr>"

text \<open>\<open>setConfigFunc\<close>: the entry of the scope in the configured limits.\<close>

fun putLimit :: "scope \<Rightarrow> BaseLimit \<Rightarrow> 'x LimitConfig \<Rightarrow> 'x LimitConfig" where
  "putLimit ScSystem l c = c\<lparr> System := l \<rparr>"
| "putLimit ScTransient l c = c\<lparr> Transient := l \<rparr>"
| "putLimit (ScService svc) l c = c\<lparr> Service := AList.update svc l (Service c) \<rparr>"
| "putLimit (ScProtocol p) l c = c\<lparr> Protocol := AList.update p l (Protocol c) \<rparr>"
| "putLimit (ScPeer p) l c = c\<lparr> Peer := AList.update p l (Peer c) \<rparr>"

fun defaultFor :: "scope \<Rightarrow> 'x LimitConfig \<Rightarrow> BaseLimit" where
  "defaultFor ScSystem c = System c"
| "defaultFor ScTransient c = Transient c"
| "defaultFor (ScService svc) c = ServiceDefault c"
| "defaultFor (ScProtocol p) c = ProtocolDefault c"
| "defaultFor (ScPeer p) c = PeerDefault c"

definition cfgLimits :: "('x, 'o) rmConfig \<Rightarrow> 'x LimitConfig option" where
  "cfgLimits cfg = Limits (cOther cfg)"

definition withLimits :: "'x LimitConfig \<Rightarrow> ('x, 'o) rmConfig \<Rightarrow> ('x, 'o) rmConfig" where
  "withLimits lcf cfg = cfg\<lparr> cOther := (cOther cfg)\<lparr> Limits := Some lcf \<rparr> \<rparr>"

text \<open>
  \<open>view\<close> of the manager with a limit to set: the error, or the new state.
\<close>

definition setLive :: "'m rmgr \<Rightarrow> scope \<Rightarrow> BaseLimit \<Rightarrow> 'm \<Rightarrow> rm_err option \<times> 'm" where
  "setLive rm sc l m =
     (case viewLimiter rm m sc of
        Inl err \<Rightarrow> (Some err, m)
      | Inr NotALimiter \<Rightarrow> (Some ErrNoResourceMgr, m)
      | Inr _ \<Rightarrow> (None, setLimiter rm sc l m))"

text \<open>
  What \<^verbatim>\<open>NetSetLimit\<close> and \<^verbatim>\<open>NetResetLimit\<close> share.  The configuration is the
  repository's own, so the limits created for a configuration without any stay in memory
  even when the call fails.
\<close>

definition applyLimit ::
  "fsEnv \<Rightarrow> ('x, 'o) rmConfig cfgOps \<Rightarrow> 'x \<Rightarrow> 'm rmgr \<Rightarrow> ('x, 'o) rmConfig \<Rightarrow> string \<Rightarrow> (scope \<Rightarrow> BaseLimit) \<Rightarrow>
   'm \<Rightarrow> ('x, 'o) rmConfig FSRepo \<Rightarrow> disk \<Rightarrow>
   (rm_err + BaseLimit) \<times> 'm \<times> ('x, 'o) rmConfig FSRepo \<times> disk" where
  "applyLimit e ops z rm cfg sc limitFor m r d =
     (let lcf = (case cfgLimits cfg of None \<Rightarrow> emptyLimitConfig z | Some l \<Rightarrow> l);
          r1 = r\<lparr> fr_config := Some (withLimits lcf cfg) \<rparr> in
      case parseScope rm sc of
        Inl err \<Rightarrow> (Inl err, m, r1, d)
      | Inr s \<Rightarrow>
          (case setLive rm s (limitFor s) m of
             (Some err, m') \<Rightarrow> (Inl (rmSettingLimits err), m', r1, d)
           | (None, m') \<Rightarrow>
               (let cfg' = withLimits (putLimit s (limitFor s) lcf) cfg in
                case SetConfig e ops cfg' (r\<lparr> fr_config := Some cfg' \<rparr>) d of
                  (Some err, r', d') \<Rightarrow> (Inl (rmWritingConfig err), m', r', d')
                | (None, r', d') \<Rightarrow> (Inr (limitFor s), m', r', d'))))"

definition NetSetLimit ::
  "fsEnv \<Rightarrow> ('x, 'o) rmConfig cfgOps \<Rightarrow> 'x \<Rightarrow> 'm rmgr \<Rightarrow> string \<Rightarrow> BaseLimit \<Rightarrow>
   'm \<Rightarrow> ('x, 'o) rmConfig FSRepo \<Rightarrow> disk \<Rightarrow>
   (rm_err + BaseLimit) \<times> 'm \<times> ('x, 'o) rmConfig FSRepo \<times> disk" where
  "NetSetLimit e ops z rm sc limit m r d =
     (case fsConfig r of
        Inl err \<Rightarrow> (Inl (rmReadingConfig err), m, r, d)
      | Inr None \<Rightarrow> (Inl (rmReadingConfig RepoClosed), m, r, d)
      | Inr (Some cfg) \<Rightarrow> applyLimit e ops z rm cfg sc (\<lambda>_. limit) m r d)"

section \<open>The default limits\<close>

definition bigEnough :: int where "bigEnough = 1000000000"

definition infiniteBaseLimit :: BaseLimit where
  "infiniteBaseLimit =
     \<lparr> Streams = bigEnough, StreamsInbound = bigEnough, StreamsOutbound = bigEnough, Conns = bigEnough,
       ConnsInbound = bigEnough, ConnsOutbound = bigEnough, FD = bigEnough, Memory = bigEnough \<rparr>"

text \<open>
  What libp2p gives: its own default limits, the tuning of its services, and scaling.  \<open>parseBytes\<close> is
  \<^verbatim>\<open>humanize.ParseBytes\<close>, \<open>quarterMemory\<close> the text of a quarter of the memory of the
  machine, \<open>numFDs\<close> the file descriptors of the process.
\<close>

record BaseLimitIncrease =
  liConns :: int
  liConnsInbound :: int
  liConnsOutbound :: int
  liStreams :: int
  liStreamsInbound :: int
  liStreamsOutbound :: int
  liMemory :: int
  liFDFraction :: real

definition noLimitIncrease :: BaseLimitIncrease where
  "noLimitIncrease =
     \<lparr> liConns = 0, liConnsInbound = 0, liConnsOutbound = 0, liStreams = 0, liStreamsInbound = 0,
       liStreamsOutbound = 0, liMemory = 0, liFDFraction = 0 \<rparr>"

record ScalingLimitConfig =
  SystemLimit :: "BaseLimit \<times> BaseLimitIncrease"
  TransientLimit :: "BaseLimit \<times> BaseLimitIncrease"
  AllowlistedSystemLimit :: "BaseLimit \<times> BaseLimitIncrease"
  AllowlistedTransientLimit :: "BaseLimit \<times> BaseLimitIncrease"
  ServiceLimit :: "BaseLimit \<times> BaseLimitIncrease"
  ServicePeerLimit :: "BaseLimit \<times> BaseLimitIncrease"
  ProtocolLimit :: "BaseLimit \<times> BaseLimitIncrease"
  ProtocolPeerLimit :: "BaseLimit \<times> BaseLimitIncrease"
  ConnLimit :: "BaseLimit \<times> BaseLimitIncrease"
  StreamLimit :: "BaseLimit \<times> BaseLimitIncrease"
  PeerLimit :: "BaseLimit \<times> BaseLimitIncrease"

record 'x scaler =
  DefaultLimits :: ScalingLimitConfig
  SetDefaultServiceLimits :: "ScalingLimitConfig \<Rightarrow> ScalingLimitConfig"
  Scale :: "ScalingLimitConfig \<Rightarrow> int \<Rightarrow> int \<Rightarrow> 'x LimitConfig"
  parseBytes :: "string \<Rightarrow> string + int"
  quarterMemory :: string
  numFDs :: int

definition scalingLimitConfig :: "'x scaler \<Rightarrow> int \<Rightarrow> int \<Rightarrow> ScalingLimitConfig" where
  "scalingLimitConfig sc maxMemory numFD =
     (let dflt = DefaultLimits sc;
          (sysBase, sysInc) = SystemLimit dflt; (trBase, trInc) = TransientLimit dflt; (pBase, pInc) = PeerLimit dflt in
      \<lparr> SystemLimit =
          (\<lparr> Streams = bigEnough, StreamsInbound = StreamsInbound sysBase, StreamsOutbound = bigEnough,
             Conns = bigEnough, ConnsInbound = ConnsInbound sysBase, ConnsOutbound = bigEnough,
             FD = numFD, Memory = maxMemory \<rparr>,
           noLimitIncrease\<lparr> liConnsInbound := liConnsInbound sysInc, liStreamsInbound := liStreamsInbound sysInc \<rparr>),
        TransientLimit =
          (\<lparr> Streams = bigEnough, StreamsInbound = StreamsInbound trBase, StreamsOutbound = bigEnough,
             Conns = bigEnough, ConnsInbound = ConnsInbound trBase, ConnsOutbound = bigEnough,
             FD = FD trBase, Memory = Memory trBase \<rparr>,
           noLimitIncrease\<lparr> liMemory := liMemory trInc, liFDFraction := liFDFraction trInc,
             liConnsInbound := liConnsInbound trInc, liStreamsInbound := liStreamsInbound trInc \<rparr>),
        AllowlistedSystemLimit = (infiniteBaseLimit, noLimitIncrease),
        AllowlistedTransientLimit = (infiniteBaseLimit, noLimitIncrease),
        ServiceLimit = (infiniteBaseLimit, noLimitIncrease),
        ServicePeerLimit = (infiniteBaseLimit, noLimitIncrease),
        ProtocolLimit = (infiniteBaseLimit, noLimitIncrease),
        ProtocolPeerLimit = (infiniteBaseLimit, noLimitIncrease),
        ConnLimit = (infiniteBaseLimit, noLimitIncrease),
        StreamLimit = (infiniteBaseLimit, noLimitIncrease),
        PeerLimit =
          (infiniteBaseLimit\<lparr> ConnsInbound := ConnsInbound pBase, StreamsInbound := StreamsInbound pBase \<rparr>,
           noLimitIncrease\<lparr> liConnsInbound := liConnsInbound pInc, liStreamsInbound := liStreamsInbound pInc \<rparr>) \<rparr>)"

definition scaledDefaults :: "'x scaler \<Rightarrow> int \<Rightarrow> int \<Rightarrow> 'x LimitConfig" where
  "scaledDefaults sc maxMemory numFD =
     Scale sc (SetDefaultServiceLimits sc (scalingLimitConfig sc maxMemory numFD)) maxMemory numFD"

definition DefaultConnMgrHighWater :: int where "DefaultConnMgrHighWater = 96"
definition DefaultConnMgrType :: string where "DefaultConnMgrType = ''basic''"
definition DefaultResourceMgrMinInboundConns :: int where "DefaultResourceMgrMinInboundConns = 800"

definition optInt :: "OptionalInteger option \<Rightarrow> int \<Rightarrow> int" where
  "optInt o' dflt = sint (OptionalInteger_WithDefault o' (word_of_int dflt))"

definition highWater :: "ConnMgr \<Rightarrow> int" where
  "highWater cm = optInt (HighWater cm) DefaultConnMgrHighWater"

text \<open>Division of \<^verbatim>\<open>int64\<close> truncates, and panics at zero.\<close>

definition goDiv :: "int \<Rightarrow> int \<Rightarrow> int" where
  "goDiv a b = w64 (sgn a * sgn b * (\<bar>a\<bar> div \<bar>b\<bar>))"

text \<open>The adjustment to the connection manager; \<open>None\<close> is the division by zero.\<close>

definition adjustToConnMgr :: "ConnMgr \<Rightarrow> 'x LimitConfig \<Rightarrow> 'x LimitConfig option" where
  "adjustToConnMgr cm lc =
     (if OptionalString_WithDefault (cmType cm) DefaultConnMgrType \<noteq> ''none'' then
        let twice = w64 (highWater cm * 2);
            n1 = (if ConnsInbound (System lc) < twice then twice else ConnsInbound (System lc));
            n2 = (if n1 < DefaultResourceMgrMinInboundConns then DefaultResourceMgrMinInboundConns else n1)
        in if ConnsInbound (System lc) = 0 then None
           else Some (lc\<lparr> System := (System lc)\<lparr>
                  StreamsInbound := goDiv (w64 (n2 * StreamsInbound (System lc))) (ConnsInbound (System lc)),
                  ConnsInbound := n2 \<rparr> \<rparr>)
      else Some lc)"

definition createDefaultLimitConfig :: "'x scaler \<Rightarrow> ('x, 'o) rmConfig \<Rightarrow> (string + 'x LimitConfig) option" where
  "createDefaultLimitConfig sc cfg =
     (case parseBytes sc (OptionalString_WithDefault (MaxMemory (cOther cfg)) (quarterMemory sc)) of
        Inl err \<Rightarrow> Some (Inl err)
      | Inr maxMemory \<Rightarrow>
          (let numFD = optInt (MaxFileDescriptors (cOther cfg)) (numFDs sc div 2) in
           map_option Inr (adjustToConnMgr (cConnMgr cfg)
             (scaledDefaults sc maxMemory numFD))))"

text \<open>\<^verbatim>\<open>NetResetLimit\<close>; \<open>None\<close> is the panic.\<close>

definition NetResetLimit ::
  "fsEnv \<Rightarrow> ('x, 'o) rmConfig cfgOps \<Rightarrow> 'x \<Rightarrow> 'x scaler \<Rightarrow> 'm rmgr \<Rightarrow> string \<Rightarrow>
   'm \<Rightarrow> ('x, 'o) rmConfig FSRepo \<Rightarrow> disk \<Rightarrow>
   ((rm_err + BaseLimit) \<times> 'm \<times> ('x, 'o) rmConfig FSRepo \<times> disk) option" where
  "NetResetLimit e ops z scl rm sc m r d =
     (case fsConfig r of
        Inl err \<Rightarrow> Some (Inl (rmReadingConfig err), m, r, d)
      | Inr None \<Rightarrow> Some (Inl (rmReadingConfig RepoClosed), m, r, d)
      | Inr (Some cfg) \<Rightarrow>
          (case createDefaultLimitConfig scl cfg of
             None \<Rightarrow> None
           | Some (Inl err) \<Rightarrow> Some (Inl (DefaultsFailed err), m, r, d)
           | Some (Inr defaults) \<Rightarrow>
               Some (applyLimit e ops z rm cfg sc (\<lambda>s. defaultFor s defaults) m r d)))"

section \<open>Starting the manager\<close>

definition ensureConnMgrMakeSense :: "'x LimitConfig \<Rightarrow> ConnMgr \<Rightarrow> rm_err option" where
  "ensureConnMgrMakeSense rcm cm =
     (if OptionalString_WithDefault (cmType cm) DefaultConnMgrType = ''none'' then None
      else let s = System rcm; hw = highWater cm in
        if ConnsInbound s \<le> Conns s \<and> ConnsInbound s \<le> hw then Some (LimitConflict ''ConnsInbound'')
        else if \<not> ConnsInbound s \<le> Conns s \<and> Conns s \<le> hw then Some (LimitConflict ''Conns'')
        else if StreamsInbound s \<le> Streams s \<and> StreamsInbound s \<le> hw then Some (LimitConflict ''StreamsInbound'')
        else if \<not> StreamsInbound s \<le> Streams s \<and> Streams s \<le> hw then Some (LimitConflict ''Streams'')
        else None)"

definition rmIsEnabled :: "string \<Rightarrow> Flag \<Rightarrow> cfg_err + bool" where
  "rmIsEnabled env f =
     bindS (Flag_WithDefault f True) (\<lambda>enabled.
       Inr (if env \<in> {''0'', ''false''} then False
            else if env \<in> {''1'', ''true''} then True else enabled))"

text \<open>
  The limits the manager is started with: \<open>applyOver\<close> is \<^verbatim>\<open>LimitConfig.Apply\<close>, the
  given limits with the zero entries taken from the second argument.
\<close>

definition startLimits ::
  "'x scaler \<Rightarrow> ('x LimitConfig \<Rightarrow> 'x LimitConfig \<Rightarrow> 'x LimitConfig) \<Rightarrow> ('x, 'o) rmConfig \<Rightarrow>
   (rm_err + 'x LimitConfig) option" where
  "startLimits scl applyOver cfg =
     (case createDefaultLimitConfig scl cfg of
        None \<Rightarrow> None
      | Some (Inl err) \<Rightarrow> Some (Inl (DefaultsFailed err))
      | Some (Inr defaults) \<Rightarrow>
          (let lc = (case cfgLimits cfg of None \<Rightarrow> defaults | Some user \<Rightarrow> applyOver user defaults) in
           case ensureConnMgrMakeSense lc (cConnMgr cfg) of
             Some err \<Rightarrow> Some (Inl err)
           | None \<Rightarrow> Some (Inr lc)))"

definition allowlisted :: "(string \<Rightarrow> 'a option) \<Rightarrow> string list \<Rightarrow> 'a list" where
  "allowlisted parseMa xs = List.map_filter parseMa xs"

section \<open>The commands\<close>

definition swarmStatsCmd :: "'m rmgr \<Rightarrow> 'm option \<Rightarrow> string list \<Rightarrow> int \<Rightarrow> rm_err + NetStatOut" where
  "swarmStatsCmd rm mgr args percentage =
     (case mgr of
        None \<Rightarrow> Inl ErrNoResourceMgr
      | Some m \<Rightarrow>
          (case args of
             [sc] \<Rightarrow> if percentage \<noteq> 0 \<and> sc \<noteq> ''all'' then Inl PercentageNeedsAll
                     else NetStat rm m sc percentage
           | _ \<Rightarrow> Inl OneScopeOnly))"

datatype limitOut = OneLimit BaseLimit | AllLimits NetStatOut

text \<open>
  \<^verbatim>\<open>swarm limit\<close>: \<open>given\<close> is the limit file, \<open>Some None\<close> one that is not the JSON of a
  limit.  Setting emits nothing.
\<close>

definition swarmLimitCmd ::
  "fsEnv \<Rightarrow> ('x, 'o) rmConfig cfgOps \<Rightarrow> 'x \<Rightarrow> 'x scaler \<Rightarrow> 'm rmgr \<Rightarrow> string \<Rightarrow> BaseLimit option option \<Rightarrow> bool \<Rightarrow>
   'm \<Rightarrow> ('x, 'o) rmConfig FSRepo \<Rightarrow> disk \<Rightarrow>
   ((rm_err + limitOut option) \<times> 'm \<times> ('x, 'o) rmConfig FSRepo \<times> disk) option" where
  "swarmLimitCmd e ops z scl rm sc given reset m r d =
     (case given of
        Some None \<Rightarrow> Some (Inl BadLimitFile, m, r, d)
      | Some (Some newLimit) \<Rightarrow>
          Some (map_prod (map_sum id (\<lambda>_. None)) id (NetSetLimit e ops z rm sc newLimit m r d))
      | None \<Rightarrow>
          if reset then
            map_option (map_prod (map_sum id (\<lambda>l. Some (OneLimit l))) id) (NetResetLimit e ops z scl rm sc m r d)
          else if sc = ''all'' then Some (map_sum id (\<lambda>a. Some (AllLimits a)) (NetLimitAll rm m), m, r, d)
          else Some (map_sum id (\<lambda>l. Some (OneLimit l)) (NetLimit rm m sc), m, r, d))"

section \<open>The log of exceeded limits\<close>

text \<open>
  An error of a scope: whether it is \<^verbatim>\<open>ErrResourceLimitExceeded\<close>, and the message of the
  error it wraps, if any.
\<close>

datatype scopeErr = ScopeErr bool "string option"

type_synonym exceeded = "(string \<times> nat) list"

definition countErrs :: "scopeErr \<Rightarrow> exceeded \<Rightarrow> exceeded" where
  "countErrs err n =
     (case err of
        ScopeErr True (Some eout) \<Rightarrow>
          AList.update eout ((case map_of n eout of None \<Rightarrow> 0 | Some k \<Rightarrow> k) + 1) n
      | _ \<Rightarrow> n)"

text \<open>A tick logs the counters, one line each and one more when there are any, and clears them.\<close>

datatype logLine = Exceeded nat string | LearnMore

definition logTick :: "exceeded \<Rightarrow> logLine list \<times> exceeded" where
  "logTick n = (map (\<lambda>(err, c). Exceeded c err) n @ (if n \<noteq> [] then [LearnMore] else []), [])"

datatype rmEvent = LimitErr scopeErr | Tick

primrec logStep :: "logLine list \<times> exceeded \<Rightarrow> rmEvent \<Rightarrow> logLine list \<times> exceeded" where
  "logStep st (LimitErr err) = (fst st, countErrs err (snd st))"
| "logStep st Tick = (case logTick (snd st) of (out, n) \<Rightarrow> (fst st @ out, n))"

end
