(* ===== verification/ResourceLimitsProps.thy ===== *)
theory ResourceLimitsProps
  imports ResourceLimits ConfigProps
begin

text \<open>
  What the resource limits promise: a limit that is set or reset takes effect in its scope
  alone, and is the one the configuration keeps; the default limits go together with the
  connection manager; every exceeded limit is logged once.  And where the listing of all
  limits is wrong.
\<close>

section \<open>Setting and resetting\<close>

text \<open>What libp2p documents of a manager: \<^verbatim>\<open>SetLimit\<close> replaces the limit of its scope.\<close>

definition managerLaws :: "'m rmgr \<Rightarrow> bool" where
  "managerLaws rm \<longleftrightarrow>
     (\<forall>m s l v. viewLimiter rm m s = Inr v \<longrightarrow> v \<noteq> NotALimiter \<longrightarrow>
        viewLimiter rm (setLimiter rm s l m) s = Inr (Limiter l) \<and>
        (\<forall>s'. s' \<noteq> s \<longrightarrow> viewLimiter rm (setLimiter rm s l m) s' = viewLimiter rm m s'))"

text \<open>The entry of a scope in the configured limits.\<close>

fun limitIn :: "'x LimitConfig \<Rightarrow> scope \<Rightarrow> BaseLimit option" where
  "limitIn c ScSystem = Some (System c)"
| "limitIn c ScTransient = Some (Transient c)"
| "limitIn c (ScService svc) = map_of (Service c) svc"
| "limitIn c (ScProtocol p) = map_of (Protocol c) p"
| "limitIn c (ScPeer p) = map_of (Peer c) p"

lemma limitIn_putLimit: "limitIn (putLimit s l c) s' = (if s' = s then Some l else limitIn c s')"
  by (cases s; cases s') (auto simp: update_conv')

lemma setLive_ok:
  assumes "managerLaws rm" and "setLive rm s l m = (None, m')"
  shows "getLimit rm m' s = Inr l \<and> (\<forall>s'. s' \<noteq> s \<longrightarrow> getLimit rm m' s' = getLimit rm m s')"
proof -
  obtain v where v: "viewLimiter rm m s = Inr v" "v \<noteq> NotALimiter" "m' = setLimiter rm s l m"
    using assms(2) by (auto simp: setLive_def split: sum.splits limiterView.splits)
  then show ?thesis using assms(1) by (simp add: managerLaws_def getLimit_def)
qed

lemma setLive_failed: "setLive rm s l m = (Some err, m') \<Longrightarrow> m' = m"
  by (auto simp: setLive_def split: sum.splits limiterView.splits)

lemma applyLimit_ok:
  assumes "managerLaws rm" and "applyLimit e ops z rm cfg sc f m r d = (Inr l, m', r', d')"
  shows "\<exists>s lc. parseScope rm sc = Inr s \<and> l = f s \<and> getLimit rm m' s = Inr l \<and>
      (\<forall>s'. s' \<noteq> s \<longrightarrow> getLimit rm m' s' = getLimit rm m s') \<and>
      fr_config r' = Some (withLimits lc cfg) \<and>
      (\<forall>s'. limitIn lc s' = (if s' = s then Some l
                else limitIn (case cfgLimits cfg of None \<Rightarrow> emptyLimitConfig z | Some c \<Rightarrow> c) s'))"
proof -
  let ?c = "case cfgLimits cfg of None \<Rightarrow> emptyLimitConfig z | Some c \<Rightarrow> c"
  obtain s where s: "parseScope rm sc = Inr s"
    using assms(2) by (auto simp: applyLimit_def Let_def split: sum.splits)
  obtain err m1 where sl: "setLive rm s (f s) m = (err, m1)" by fastforce
  with assms(2) s have "err = None"
    by (auto simp: applyLimit_def Let_def split: option.splits prod.splits)
  with assms(2) s sl have l: "l = f s" "m' = m1"
    and sv: "SetConfig e ops (withLimits (putLimit s (f s) ?c) cfg)
        (r\<lparr> fr_config := Some (withLimits (putLimit s (f s) ?c) cfg) \<rparr>) d = (None, r', d')"
    by (auto simp: applyLimit_def Let_def split: prod.splits option.splits)
  then have "fr_config r' = Some (withLimits (putLimit s (f s) ?c) cfg)"
    using SetConfig_ok(1) [OF sv] by simp
  then show ?thesis
    using s l setLive_ok [OF assms(1)] sl \<open>err = None\<close> limitIn_putLimit [of s "f s" ?c] by blast
qed

lemma applyLimit_failed:
  assumes "applyLimit e ops z rm cfg sc f m r d = (Inl err, m', r', d')"
  shows "(\<exists>x s. err = rmWritingConfig x \<and> parseScope rm sc = Inr s \<and> setLive rm s (f s) m = (None, m')) \<or> (m' = m \<and> d' = d)"
proof (cases "parseScope rm sc")
  case (Inl x)
  then show ?thesis using assms by (auto simp: applyLimit_def Let_def)
next
  case (Inr s)
  obtain e1 m1 where sl: "setLive rm s (f s) m = (e1, m1)" by fastforce
  show ?thesis
  proof (cases e1)
    case None
    then show ?thesis using assms Inr sl
      by (auto simp: applyLimit_def Let_def split: prod.splits option.splits)
  next
    case (Some x)
    then have "m1 = m" using sl setLive_failed by metis
    then show ?thesis using assms Inr sl Some
      by (auto simp: applyLimit_def Let_def)
  qed
qed

text \<open>
  A limit that is set or reset takes effect in exactly its scope and persists.  When
  \<^verbatim>\<open>NetSetLimit\<close> succeeds the running manager has the new limit in that scope (so
  \<^verbatim>\<open>NetLimit\<close> reads it back) and every other scope has the limit it had, and the
  configuration has the same entry for that scope and its old entries otherwise; with
  \<^verbatim>\<open>NetResetLimit\<close> the limit is the computed default of the scope.  When a call fails the
  manager and the configuration file are as they were, unless the failure is that of writing
  the configuration.
\<close>

theorem limits_take_effect_in_their_scope:
  assumes "managerLaws rm"
  shows "(NetSetLimit e ops z rm sc limit m r d = (Inr l, m', r', d') \<longrightarrow>
            NetLimit rm m' sc = Inr limit \<and>
            (\<exists>s cfg lc. parseScope rm sc = Inr s \<and> fr_config r = Some cfg \<and> fr_config r' = Some (withLimits lc cfg) \<and>
               (\<forall>s'. s' \<noteq> s \<longrightarrow> getLimit rm m' s' = getLimit rm m s') \<and>
               (\<forall>s'. limitIn lc s' = (if s' = s then Some limit
                  else limitIn (case cfgLimits cfg of None \<Rightarrow> emptyLimitConfig z | Some c \<Rightarrow> c) s')))) \<and>
         (NetResetLimit e ops z scl rm sc m r d = Some (Inr l, m', r', d') \<longrightarrow>
            NetLimit rm m' sc = Inr l \<and>
            (\<exists>s cfg lc defaults. parseScope rm sc = Inr s \<and> fr_config r = Some cfg \<and> fr_config r' = Some (withLimits lc cfg) \<and>
               createDefaultLimitConfig scl cfg = Some (Inr defaults) \<and> l = defaultFor s defaults \<and>
               (\<forall>s'. s' \<noteq> s \<longrightarrow> getLimit rm m' s' = getLimit rm m s') \<and>
               (\<forall>s'. limitIn lc s' = (if s' = s then Some l
                  else limitIn (case cfgLimits cfg of None \<Rightarrow> emptyLimitConfig z | Some c \<Rightarrow> c) s')))) \<and>
         ((NetSetLimit e ops z rm sc limit m r d = (Inl err, m', r', d') \<or>
           NetResetLimit e ops z scl rm sc m r d = Some (Inl err, m', r', d')) \<longrightarrow>
            (\<forall>x. err \<noteq> rmWritingConfig x) \<longrightarrow> m' = m \<and> d' = d)"
proof (intro conjI impI)
  assume "NetSetLimit e ops z rm sc limit m r d = (Inr l, m', r', d')"
  then obtain cfg where c: "fr_config r = Some cfg" "applyLimit e ops z rm cfg sc (\<lambda>_. limit) m r d = (Inr l, m', r', d')"
    by (auto simp: NetSetLimit_def fsConfig_def split: if_splits option.splits)
  note a = applyLimit_ok [OF assms c(2)]
  then show "NetLimit rm m' sc = Inr limit" by (auto simp: NetLimit_def)
  show "\<exists>s cfg lc. parseScope rm sc = Inr s \<and> fr_config r = Some cfg \<and> fr_config r' = Some (withLimits lc cfg) \<and>
               (\<forall>s'. s' \<noteq> s \<longrightarrow> getLimit rm m' s' = getLimit rm m s') \<and>
               (\<forall>s'. limitIn lc s' = (if s' = s then Some limit
                  else limitIn (case cfgLimits cfg of None \<Rightarrow> emptyLimitConfig z | Some c \<Rightarrow> c) s'))"
    using a c(1) by blast
next
  assume "NetResetLimit e ops z scl rm sc m r d = Some (Inr l, m', r', d')"
  then obtain cfg defaults where c: "fr_config r = Some cfg" "createDefaultLimitConfig scl cfg = Some (Inr defaults)"
    "applyLimit e ops z rm cfg sc (\<lambda>s. defaultFor s defaults) m r d = (Inr l, m', r', d')"
    by (auto simp: NetResetLimit_def fsConfig_def split: if_splits option.splits sum.splits)
  note a = applyLimit_ok [OF assms c(3)]
  then show "NetLimit rm m' sc = Inr l" by (auto simp: NetLimit_def)
  show "\<exists>s cfg lc defaults. parseScope rm sc = Inr s \<and> fr_config r = Some cfg \<and> fr_config r' = Some (withLimits lc cfg) \<and>
               createDefaultLimitConfig scl cfg = Some (Inr defaults) \<and> l = defaultFor s defaults \<and>
               (\<forall>s'. s' \<noteq> s \<longrightarrow> getLimit rm m' s' = getLimit rm m s') \<and>
               (\<forall>s'. limitIn lc s' = (if s' = s then Some l
                  else limitIn (case cfgLimits cfg of None \<Rightarrow> emptyLimitConfig z | Some c \<Rightarrow> c) s'))"
    using a c(1,2) by blast
next
  assume "NetSetLimit e ops z rm sc limit m r d = (Inl err, m', r', d') \<or>
           NetResetLimit e ops z scl rm sc m r d = Some (Inl err, m', r', d')"
    and nw: "\<forall>x. err \<noteq> rmWritingConfig x"
  then consider "m' = m" "d' = d" | cfg f where "applyLimit e ops z rm cfg sc f m r d = (Inl err, m', r', d')"
    by (auto simp: NetSetLimit_def NetResetLimit_def split: option.splits sum.splits)
  then have "m' = m \<and> d' = d"
  proof cases
    case (2 cfg f)
    from applyLimit_failed [OF 2] nw show ?thesis by blast
  qed simp
  then show "m' = m" "d' = d" by simp_all
qed

section \<open>Listing the limits\<close>

text \<open>
  The listing of all limits reports the limit of the system scope as the limit of the
  transient scope, whatever the transient limit is, and \<^verbatim>\<open>swarm stats\<close> compares the use of
  the transient scope with it: at any percentage, a transient scope is reported exactly if it
  is above that share of the limits of the whole system.
\<close>

theorem transient_limit_is_that_of_the_system:
  "(NetLimitAll rm m = Inr out \<longrightarrow>
      (\<exists>l. getLimit rm m ScSystem = Inr l \<and> noSystem out = Some l \<and> noTransient out = Some l)) \<and>
   (NetStat rm m ''all'' percentage = Inr out \<longrightarrow>
      (\<exists>l. getLimit rm m ScSystem = Inr l \<and>
         noTransient out = compareLimits (Some (scopeToLimit (statTransient (rmStat rm m)))) (Some l) percentage))"
  by (auto simp: NetLimitAll_def NetStat_def NetLimit_def parseScope_def ResourceMgrSystemScope_def bindS_eq_Inr
      ResourceMgrTransientScope_def Let_def split: if_splits)

text \<open>A use of exactly the given percentage is not always reported.\<close>

lemma floorlog_step: "0 < n \<Longrightarrow> floorlog 2 n = Suc (floorlog 2 (n div 2))"
  by (subst compute_floorlog) simp

lemma floorlog_zero: "floorlog 2 0 = 0"
  by (subst compute_floorlog) simp

lemma equal_percentage_not_reported: "\<not> abovePercentage 29 100 29"
  by (simp add: abovePercentage_def floatPercent_def fl_def flFrac_def scaledQuot_def rne_def floorlog_step floorlog_zero Let_def)

section \<open>The defaults\<close>

lemma goDiv_pos: "0 \<le> a \<Longrightarrow> 0 < b \<Longrightarrow> a < 2 ^ 63 \<Longrightarrow> goDiv a b = a div b"
proof -
  assume a: "0 \<le> a" "0 < b" "a < 2 ^ 63"
  have q: "sgn a * sgn b * (\<bar>a\<bar> div \<bar>b\<bar>) = a div b" using a by (cases "a = 0") (simp_all add: sgn_if)
  have "a div b \<le> a" using a by (metis div_by_1 int_one_le_iff_zero_less zdiv_mono2 zero_less_one)
  moreover have "0 \<le> a div b" using a by (simp add: pos_imp_zdiv_nonneg_iff)
  ultimately have "- (2 ^ 63) \<le> a div b" "a div b < 2 ^ 63" using a(3) by linarith+
  then show ?thesis unfolding goDiv_def q by (rule w64_id)
qed

text \<open>
  The default limits always go together with the connection manager.  If libp2p scales
  the system limits to at least as many inbound streams as inbound connections, at least one
  and at most two to the 31, and leaves the unlimited totals alone, then for every high-water
  mark below the ``unlimited'' value the defaults are computed without a panic and pass the
  check that would otherwise keep the daemon from starting.
\<close>

theorem default_limits_admit_the_connection_manager:
  assumes scale: "parseBytes scl (OptionalString_WithDefault (MaxMemory (cOther cfg)) (quarterMemory scl)) = Inr mem"
    and lc: "lc = scaledDefaults scl mem (optInt (MaxFileDescriptors (cOther cfg)) (numFDs scl div 2))"
    and ratio: "0 < ConnsInbound (System lc)" "ConnsInbound (System lc) \<le> StreamsInbound (System lc)"
      "StreamsInbound (System lc) \<le> 2 ^ 31"
    and totals: "Conns (System lc) = bigEnough" "Streams (System lc) = bigEnough"
    and hw: "0 \<le> highWater (cConnMgr cfg)" "highWater (cConnMgr cfg) < bigEnough"
  shows "\<exists>defaults. createDefaultLimitConfig scl cfg = Some (Inr defaults) \<and>
           ensureConnMgrMakeSense defaults (cConnMgr cfg) = None"
proof (cases "OptionalString_WithDefault (cmType (cConnMgr cfg)) DefaultConnMgrType = ''none''")
  case True
  then show ?thesis using scale lc
    by (simp add: createDefaultLimitConfig_def Let_def adjustToConnMgr_def ensureConnMgrMakeSense_def)
next
  case False
  let ?ci = "ConnsInbound (System lc)" and ?si = "StreamsInbound (System lc)" and ?h = "highWater (cConnMgr cfg)"
  have big: "bigEnough = 1000000000" by (simp add: bigEnough_def)
  have twice: "w64 (?h * 2) = ?h * 2" using hw big by (intro w64_id) simp_all
  let ?n1 = "if ?ci < ?h * 2 then ?h * 2 else ?ci"
  let ?n2 = "if ?n1 < 800 then 800 else ?n1"
  have n2: "?n2 > ?h" "?n2 \<ge> ?ci" "0 < ?n2" "?n2 \<le> 2 ^ 31" using hw ratio big by auto
  have prod: "0 \<le> ?n2 * ?si" "?n2 * ?si < 2 ^ 63"
  proof -
    show "0 \<le> ?n2 * ?si" using n2 ratio by (intro mult_nonneg_nonneg) auto
    have "?n2 * ?si \<le> 2 ^ 31 * 2 ^ 31" using n2 ratio by (intro mult_mono) auto
    then show "?n2 * ?si < 2 ^ 63" by simp
  qed
  have "?n2 * ?ci \<le> ?n2 * ?si" using ratio n2 by (intro mult_left_mono) auto
  then have "?n2 * ?ci div ?ci \<le> ?n2 * ?si div ?ci" using ratio(1) by (rule zdiv_mono1)
  then have s': "?n2 \<le> ?n2 * ?si div ?ci" using ratio(1) by simp
  have w: "w64 (?n2 * ?si) = ?n2 * ?si" using prod by (intro w64_id) linarith+
  let ?new = "lc\<lparr> System := (System lc)\<lparr> StreamsInbound := ?n2 * ?si div ?ci, ConnsInbound := ?n2 \<rparr> \<rparr>"
  have "goDiv (?n2 * ?si) ?ci = ?n2 * ?si div ?ci" using prod ratio by (intro goDiv_pos) auto
  then have adj: "adjustToConnMgr (cConnMgr cfg) lc = Some ?new"
    using False ratio(1) unfolding adjustToConnMgr_def DefaultResourceMgrMinInboundConns_def Let_def twice w by simp
  have "ensureConnMgrMakeSense ?new (cConnMgr cfg) = None"
    using n2(1) s' totals hw(2) False unfolding ensureConnMgrMakeSense_def Let_def by simp
  then show ?thesis using scale lc adj by (simp add: createDefaultLimitConfig_def Let_def)
qed

section \<open>The log\<close>

definition isExceeded :: "string \<Rightarrow> rmEvent \<Rightarrow> bool" where
  "isExceeded t ev \<longleftrightarrow> ev = LimitErr (ScopeErr True (Some t))"

fun lineCount :: "string \<Rightarrow> logLine \<Rightarrow> nat" where
  "lineCount t (Exceeded c err) = (if err = t then c else 0)"
| "lineCount t LearnMore = 0"

definition pending :: "string \<Rightarrow> exceeded \<Rightarrow> nat" where
  "pending t n = (case map_of n t of None \<Rightarrow> 0 | Some k \<Rightarrow> k)"

lemma sum_lines:
  "distinct (map fst n) \<Longrightarrow> sum_list (map (lineCount t) (map (\<lambda>(err, c). Exceeded c err) n)) = pending t n"
proof (induction n)
  case (Cons a n)
  obtain err c where a: "a = (err, c)" by fastforce
  have "err = t \<Longrightarrow> map_of n t = None" using Cons.prems a by (auto simp: map_of_eq_None_iff)
  then show ?case using Cons a by (auto simp: pending_def)
qed (simp add: pending_def)

lemma pending_update: "pending t (AList.update e k n) = (if t = e then k else pending t n)"
  by (simp add: pending_def update_conv')

lemma pending_now: "(case map_of n e of None \<Rightarrow> 0 | Some k \<Rightarrow> k) = pending e n"
  by (simp add: pending_def)

lemma logStep_count:
  assumes "distinct (map fst (snd st))"
  shows "distinct (map fst (snd (logStep st ev))) \<and>
    sum_list (map (lineCount t) (fst (logStep st ev))) + pending t (snd (logStep st ev)) =
    sum_list (map (lineCount t) (fst st)) + pending t (snd st) + (if isExceeded t ev then 1 else 0)"
proof (cases ev)
  case (LimitErr err)
  obtain b eo where err: "err = ScopeErr b eo" by (cases err)
  show ?thesis
  proof (cases "\<exists>e. b \<and> eo = Some e")
    case True
    then obtain e where e: "b = True" "eo = Some e" by blast
    have "countErrs err (snd st) = AList.update e (pending e (snd st) + 1) (snd st)"
      by (simp add: countErrs_def err e pending_now)
    then show ?thesis using assms LimitErr err e
      by (simp add: isExceeded_def pending_update distinct_update)
  next
    case False
    then have "countErrs err (snd st) = snd st" by (auto simp: countErrs_def err split: bool.splits option.splits)
    then show ?thesis using assms LimitErr err False by (auto simp: isExceeded_def)
  qed
next
  case Tick
  have "sum_list (map (lineCount t) (if snd st \<noteq> [] then [LearnMore] else [])) = 0" by simp
  then show ?thesis using Tick sum_lines [OF assms, of t]
    by (simp add: logTick_def isExceeded_def pending_def)
qed

text \<open>
  Every exceeded limit is logged once: whatever errors and ticks of the clock come, for
  every message the counts logged so far and the one still to be logged add up to the number
  of times the error occurred.
\<close>

theorem every_exceeded_limit_is_logged_once:
  "sum_list (map (lineCount t) (fst (foldl logStep ([], []) evs))) + pending t (snd (foldl logStep ([], []) evs))
     = length (filter (isExceeded t) evs)"
proof -
  have "distinct (map fst (snd (foldl logStep ([], []) evs))) \<and>
    sum_list (map (lineCount t) (fst (foldl logStep ([], []) evs))) + pending t (snd (foldl logStep ([], []) evs))
      = length (filter (isExceeded t) evs)"
  proof (induction evs rule: rev_induct)
    case (snoc ev evs)
    then show ?case using logStep_count [of "foldl logStep ([], []) evs" ev t] by simp
  qed (simp add: pending_def)
  then show ?thesis by simp
qed

section \<open>Witnesses\<close>

definition rmDemoStat :: ScopeStat where
  "rmDemoStat = \<lparr> NumStreamsInbound = 1, NumStreamsOutbound = 2, NumConnsInbound = 3, NumConnsOutbound = 4,
     NumFD = 5, statMemory = 6 \<rparr>"

definition rmDemo :: "(scope \<Rightarrow> BaseLimit) rmgr" where
  "rmDemo = \<lparr> viewLimiter = (\<lambda>m s. Inr (Limiter (m s))), setLimiter = (\<lambda>s l m. m(s := l)),
     viewStat = (\<lambda>m s. Inr rmDemoStat), isState = True, ListServices = (\<lambda>_. [''x'']),
     ListProtocols = (\<lambda>_. []), ListPeers = (\<lambda>_. []),
     rmStat = (\<lambda>_. \<lparr> statSystem = rmDemoStat, statTransient = rmDemoStat, statServices = [],
                    statProtocols = [], statPeers = [] \<rparr>),
     decodePeer = Some \<rparr>"

definition rmDemoConfig :: "(unit, unit) rmConfig" where
  "rmDemoConfig =
     \<lparr> cIdentity = \<lparr> PeerID = ''QmSelf'', PrivKey = [] \<rparr>, cDatastore = DefaultDatastoreConfig,
       cAddresses = addressesConfig, mdnsEnabled = True, routingType = None, Bootstrap = [],
       AddrFilters = [], DisableNatPortMap = False, cConnMgr = emptyConnMgr,
       ServiceMode = AutoNATServiceUnset, reproviderInterval = None, RemoteServices = [],
       cOther = \<lparr> rmEnabled = FlagDefault, Limits = None, MaxMemory = None, MaxFileDescriptors = None,
                  Allowlist = [] \<rparr> \<rparr>"

definition rmDemoOps :: "(unit, unit) rmConfig cfgOps" where
  "rmDemoOps =
     \<lparr> decodeConfig = (\<lambda>_. Inr rmDemoConfig), ToMap = (\<lambda>_. Inr Map.empty), cfgDatastoreType = (\<lambda>_. []),
       cfgDatastorePath = (\<lambda>_. []), cfgDatastoreSpec = (\<lambda>c. Some (dsSpec (cDatastore c))),
       cfgFilestoreEnabled = (\<lambda>_. False), cfgUrlstoreEnabled = (\<lambda>_. False) \<rparr>"

definition rmDemoRepo :: "(unit, unit) rmConfig FSRepo" where
  "rmDemoRepo = \<lparr> fr_closed = False, fr_path = ''/r'', fr_configFilePath = ''/r/config'',
     fr_config = Some rmDemoConfig, fr_ds = None, fr_keystore = None, fr_filemgr = None \<rparr>"

definition rmDemoScaler :: "unit scaler" where
  "rmDemoScaler =
     (let big = (infiniteBaseLimit\<lparr> ConnsInbound := 64, StreamsInbound := 1024 \<rparr>, noLimitIncrease) in
      \<lparr> DefaultLimits =
          \<lparr> SystemLimit = big, TransientLimit = big, AllowlistedSystemLimit = big, AllowlistedTransientLimit = big,
            ServiceLimit = big, ServicePeerLimit = big, ProtocolLimit = big, ProtocolPeerLimit = big,
            ConnLimit = big, StreamLimit = big, PeerLimit = big \<rparr>,
        SetDefaultServiceLimits = id,
        Scale = (\<lambda>b mem fds. (emptyLimitConfig ())\<lparr> System := fst (SystemLimit b), Transient := fst (TransientLimit b) \<rparr>),
        parseBytes = (\<lambda>_. Inr 1000000), quarterMemory = ''1MB'', numFDs = 1024 \<rparr>)"

theorem limits_take_effect_in_their_scope_witness:
  "NetLimit rmDemo (fst (snd (NetSetLimit okFs rmDemoOps () rmDemo ''svc:x'' infiniteBaseLimit (\<lambda>_. zeroLimit) rmDemoRepo demoDisk)))
     ''svc:x'' = Inr infiniteBaseLimit"
proof -
  let ?res = "NetSetLimit okFs rmDemoOps () rmDemo ''svc:x'' infiniteBaseLimit (\<lambda>_. zeroLimit) rmDemoRepo demoDisk"
  have laws: "managerLaws rmDemo" by (simp add: managerLaws_def rmDemo_def)
  have sc: "parseScope rmDemo ''svc:x'' = Inr (ScService ''x'')" by code_simp
  have save: "fst (SetConfig okFs rmDemoOps c r demoDisk) = None" if "fr_configFilePath r = ''/r/config''" for c r
    using that by (simp add: SetConfig_def ReadConfigFile_def osReadFile_def demoDisk_def okFs_def WriteConfigFile_def
        rmDemoOps_def)
  have live: "setLive rmDemo s l m = (None, m(s := l))" for s l m by (simp add: setLive_def rmDemo_def)
  have "fst ?res = Inr infiniteBaseLimit"
    by (simp add: NetSetLimit_def applyLimit_def sc live fsConfig_def Let_def case_prod_beta
        rmDemoRepo_def save)
  then have res: "?res = (Inr infiniteBaseLimit, fst (snd ?res), fst (snd (snd ?res)), snd (snd (snd ?res)))"
    by (metis prod.collapse)
  show ?thesis
    by (rule limits_take_effect_in_their_scope [where rm = rmDemo, OF laws, THEN conjunct1, THEN mp, OF res, THEN conjunct1])
qed

theorem transient_limit_is_that_of_the_system_witness:
  "\<exists>out. NetLimitAll rmDemo ((\<lambda>_. zeroLimit)(ScTransient := infiniteBaseLimit)) = Inr out \<and>
     noTransient out = Some zeroLimit"
proof -
  let ?m = "(\<lambda>_. zeroLimit)(ScTransient := infiniteBaseLimit)"
  have sys: "NetLimit rmDemo ?m ResourceMgrSystemScope = Inr zeroLimit"
    by (simp add: NetLimit_def parseScope_def getLimit_def rmDemo_def)
  have "parseScope rmDemo ''svc:x'' = Inr (ScService ''x'')" by code_simp
  then have svc: "limitsOf rmDemo ?m ResourceMgrServiceScopePrefix (ListServices rmDemo ?m) = Inr [(''x'', zeroLimit)]"
    by (simp add: rmDemo_def) (simp add: NetLimit_def getLimit_def ResourceMgrServiceScopePrefix_def)
  have rest: "isState rmDemo" "ListProtocols rmDemo ?m = []" "ListPeers rmDemo ?m = []" by (simp_all add: rmDemo_def)
  have "\<exists>out. NetLimitAll rmDemo ?m = Inr out"
    unfolding NetLimitAll_def sys svc rest(2,3) by (simp add: rest(1))
  then obtain out where out: "NetLimitAll rmDemo ?m = Inr out" by blast
  have "getLimit rmDemo ?m ScSystem = Inr zeroLimit" by (simp add: getLimit_def rmDemo_def)
  then show ?thesis
    using transient_limit_is_that_of_the_system [of rmDemo ?m out 0, THEN conjunct1, THEN mp, OF out] out by auto
qed

theorem default_limits_admit_the_connection_manager_witness:
  "\<exists>defaults. createDefaultLimitConfig rmDemoScaler rmDemoConfig = Some (Inr defaults) \<and>
     ensureConnMgrMakeSense defaults (cConnMgr rmDemoConfig) = None"
proof -
  have hw: "highWater (cConnMgr rmDemoConfig) = 96"
    by (simp add: highWater_def rmDemoConfig_def emptyConnMgr_def optInt_def OptionalInteger_WithDefault_def
        DefaultConnMgrHighWater_def)
  show ?thesis
    by (rule default_limits_admit_the_connection_manager [where mem = 1000000, OF _ refl])
       (simp_all add: hw rmDemoScaler_def scaledDefaults_def scalingLimitConfig_def bigEnough_def Let_def)
qed

end
