(* ===== verification/Hostname.thy ===== *)
theory Hostname
  imports ConfigTypes
begin

text \<open>
  \<^verbatim>\<open>core/corehttp/hostname.go\<close>: the gateway's routing by the Host header.  A request for
  a known gateway host is served by path or redirected to a subdomain
  \<^verbatim>\<open>{rootID}.{ns}.{gateway}\<close>; a subdomain host is rewritten to a path; any other host is
  looked up as a DNSLink name.

  The record \<open>hostEnv\<close> holds what the code calls outside the repository: the CID and peer
  id packages (over abstract types of CIDs, multihashes and peer ids), the DNS library's
  name check, name resolution, and the URL check-and-normalise step
  \<^verbatim>\<open>url.ParseRequestURI(in)\<close> followed by \<^verbatim>\<open>String()\<close>.  \<^verbatim>\<open>net.SplitHostPort\<close> is
  modelled in full; of \<^verbatim>\<open>regexp\<close> the expressions that plain wildcard hosts give rise to
  are modelled, any other expression goes through the parameter \<open>otherRegexp\<close>.
\<close>

section \<open>net.SplitHostPort and stripPort\<close>

datatype addr_err = MissingPort | TooManyColons | MissingBracket | UnexpectedOpen | UnexpectedClose

fun indexOf :: "char \<Rightarrow> string \<Rightarrow> nat option" where
  "indexOf c [] = None"
| "indexOf c (d # s) = (if c = d then Some 0 else map_option Suc (indexOf c s))"

definition lastIndexOf :: "char \<Rightarrow> string \<Rightarrow> nat option" where
  "lastIndexOf c s = map_option (\<lambda>i. length s - Suc i) (indexOf c (rev s))"

definition SplitHostPort :: "string \<Rightarrow> addr_err + string \<times> string" where
  "SplitHostPort hostport =
     (case lastIndexOf CHR '':'' hostport of
        None \<Rightarrow> Inl MissingPort
      | Some i \<Rightarrow>
          let finish = (\<lambda>host j k.
                if CHR ''['' \<in> set (drop j hostport) then Inl UnexpectedOpen
                else if CHR '']'' \<in> set (drop k hostport) then Inl UnexpectedClose
                else Inr (host, drop (Suc i) hostport))
          in if HasPrefix hostport ''['' then
               (case indexOf CHR '']'' hostport of
                  None \<Rightarrow> Inl MissingBracket
                | Some e \<Rightarrow>
                    if e + 1 = length hostport then Inl MissingPort
                    else if e + 1 = i then finish (take (e - 1) (drop 1 hostport)) 1 (e + 1)
                    else if hostport ! (e + 1) = CHR '':'' then Inl TooManyColons
                    else Inl MissingPort)
             else if CHR '':'' \<in> set (take i hostport) then Inl TooManyColons
             else finish (take i hostport) 0 0)"

definition stripPort :: "string \<Rightarrow> string" where
  "stripPort hostname =
     (case SplitHostPort hostname of Inr (host, _) \<Rightarrow> host | Inl _ \<Rightarrow> hostname)"

section \<open>The environment\<close>

datatype base = Base32 | Base36

datatype resolve_result = ResolveOk | ErrResolveRecursion | ResolveFailed

record ('c, 'h, 'p) hostEnv =
  cidDecode :: "string \<Rightarrow> 'c option"
  cidType :: "'c \<Rightarrow> nat"
  cidHash :: "'c \<Rightarrow> 'h"
  NewCidV1 :: "nat \<Rightarrow> 'h \<Rightarrow> 'c"
  StringOfBase :: "base \<Rightarrow> 'c \<Rightarrow> string option"
  Libp2pKey :: nat
  peerDecode :: "string \<Rightarrow> 'p option"
  peerToCidString :: "'p \<Rightarrow> string"
  IsDomainName :: "string \<Rightarrow> bool"
  nameResolve :: "string \<Rightarrow> resolve_result"
  safeURI :: "string \<Rightarrow> string option"

datatype host_err =
    BadBase
  | CidTooLong string
  | DNSLinkTooLong string
  | BadRedirectURL string

section \<open>Gateway specifications and the known hosts\<close>

record GatewaySpec =
  Paths :: "string list"
  UseSubdomains :: bool
  NoDNSLink :: bool
  InlineDNSLink :: Flag

definition DefaultInlineDNSLink :: bool where
  "DefaultInlineDNSLink = False"

definition defaultPaths :: "string list" where
  "defaultPaths = [''/ipfs/'', ''/ipns/'', ''/api/'', ''/p2p/'']"

definition subdomainGatewaySpec :: GatewaySpec where
  "subdomainGatewaySpec =
     \<lparr>Paths = defaultPaths, UseSubdomains = True, NoDNSLink = False, InlineDNSLink = FlagDefault\<rparr>"

definition defaultKnownGateways :: "string \<rightharpoonup> GatewaySpec" where
  "defaultKnownGateways = [''localhost'' \<mapsto> subdomainGatewaySpec]"

definition dnsLabelMaxLength :: nat where
  "dnsLabelMaxLength = 63"

text \<open>
  A compiled regular expression is its \<^verbatim>\<open>MatchString\<close>; the nil pointer of a failed
  compilation is \<open>None\<close>.
\<close>

type_synonym regexp = "(string \<Rightarrow> bool) option"

record wildcardHost =
  wh_re :: regexp
  wh_spec :: GatewaySpec

record gatewayHosts =
  exact :: "string \<rightharpoonup> GatewaySpec"
  wildcard :: "wildcardHost list"

text \<open>
  The regular expressions of plain wildcard hosts: an anchored sequence of literal
  characters (a dot is escaped) and \<^verbatim>\<open>[^.]+\<close>, then an optional port.
\<close>

datatype re_item = ReLit char | ReLabel

definition isMetaChar :: "char \<Rightarrow> bool" where
  "isMetaChar c \<longleftrightarrow> c \<in> set (CHR 0x5C # ''.+*?()|[]{}^$'') \<or> 128 \<le> (of_char c :: nat)"

fun reItems :: "string \<Rightarrow> re_item list option" where
  "reItems [] = Some []"
| "reItems (c # s) =
     (if c = CHR 0x5C then (case s of d # t \<Rightarrow> if d = CHR ''.'' then map_option (Cons (ReLit d)) (reItems t) else None
                           | [] \<Rightarrow> None)
      else if HasPrefix (c # s) ''[^.]+'' then map_option (Cons ReLabel) (reItems (drop 4 s))
      else if isMetaChar c then None
      else map_option (Cons (ReLit c)) (reItems s))"

fun optPort :: "string \<Rightarrow> bool" where
  "optPort [] = True"
| "optPort (c # ds) = (c = CHR '':'' \<and> ds \<noteq> [] \<and> list_all isDigit ds)"

fun matchItems :: "re_item list \<Rightarrow> string \<Rightarrow> bool" where
  "matchItems [] s = optPort s"
| "matchItems (r # rs) [] = False"
| "matchItems (ReLit c # rs) (d # s) = (c = d \<and> matchItems rs s)"
| "matchItems (ReLabel # rs) (d # s) =
     (d \<noteq> CHR ''.'' \<and> (matchItems rs s \<or> matchItems (ReLabel # rs) s))"

definition portSuffix :: string where
  "portSuffix = ''(?::'' @ CHR 0x5C # ''d+)?$''"

definition regexpCompile :: "(string \<Rightarrow> regexp) \<Rightarrow> string \<Rightarrow> regexp" where
  "regexpCompile otherRegexp text =
     (if HasPrefix text ''^'' \<and> HasSuffix text portSuffix \<and> length text \<ge> 1 + length portSuffix
      then (case reItems (drop 1 (take (length text - length portSuffix) text)) of
              Some items \<Rightarrow> Some (matchItems items)
            | None \<Rightarrow> otherRegexp text)
      else otherRegexp text)"

definition wildcardRegexpText :: "string \<Rightarrow> string" where
  "wildcardRegexpText hostname =
     (let escaped = replaceAll hostname ''.'' (CHR 0x5C # ''.'');
          regexed = replaceAll escaped ''*'' ''[^.]+''
      in ''^'' @ regexed @ portSuffix)"

text \<open>
  \<^verbatim>\<open>prepareKnownGateways\<close>: the configured hosts, in the order the map is iterated, on top
  of the defaults.  A failed compilation is only logged, the nil expression is appended all
  the same.
\<close>

definition addGateway ::
  "(string \<Rightarrow> regexp) \<Rightarrow> gatewayHosts \<Rightarrow> string \<times> GatewaySpec option \<Rightarrow> gatewayHosts" where
  "addGateway otherRegexp hosts = (\<lambda>(hostname, gw).
     (case gw of
        None \<Rightarrow> hosts\<lparr>exact := (exact hosts)(hostname := None)\<rparr>
      | Some spec \<Rightarrow>
          if Contains hostname ''*'' then
            hosts\<lparr>wildcard := wildcard hosts @
              [\<lparr>wh_re = regexpCompile otherRegexp (wildcardRegexpText hostname), wh_spec = spec\<rparr>]\<rparr>
          else hosts\<lparr>exact := (exact hosts)(hostname \<mapsto> spec)\<rparr>))"

definition prepareKnownGateways ::
  "(string \<Rightarrow> regexp) \<Rightarrow> (string \<times> GatewaySpec option) list \<Rightarrow> gatewayHosts" where
  "prepareKnownGateways otherRegexp publicGateways =
     foldl (addGateway otherRegexp) \<lparr>exact = defaultKnownGateways, wildcard = []\<rparr> publicGateways"

text \<open>
  \<^verbatim>\<open>isKnownHostname\<close>.  \<open>Inl ()\<close> is the nil dereference of a wildcard whose expression
  did not compile.
\<close>

fun matchWildcards :: "wildcardHost list \<Rightarrow> string \<Rightarrow> unit + GatewaySpec option" where
  "matchWildcards [] hostname = Inr None"
| "matchWildcards (h # hs) hostname =
     (case wh_re h of
        None \<Rightarrow> Inl ()
      | Some m \<Rightarrow> if m hostname then Inr (Some (wh_spec h)) else matchWildcards hs hostname)"

definition isKnownHostname :: "string \<Rightarrow> gatewayHosts \<Rightarrow> unit + GatewaySpec option" where
  "isKnownHostname hostname knownGateways =
     (case exact knownGateways hostname of
        Some gw \<Rightarrow> Inr (Some gw)
      | None \<Rightarrow>
          (case exact knownGateways (stripPort hostname) of
             Some gw \<Rightarrow> Inr (Some gw)
           | None \<Rightarrow> matchWildcards (wildcard knownGateways) hostname))"

definition isSubdomainNamespace :: "string \<Rightarrow> bool" where
  "isSubdomainNamespace ns \<longleftrightarrow> ns \<in> set [''ipfs'', ''ipns'', ''p2p'', ''ipld'']"

definition isPeerIDNamespace :: "string \<Rightarrow> bool" where
  "isPeerIDNamespace ns \<longleftrightarrow> ns \<in> set [''ipns'', ''p2p'']"

text \<open>
  \<^verbatim>\<open>knownSubdomainDetails\<close>: the loop \<^verbatim>\<open>for i := len(labels) - 1; i >= 2; i--\<close>.
\<close>

record subdomain =
  sd_gw :: GatewaySpec
  sd_gwHostname :: string
  sd_ns :: string
  sd_rootID :: string

fun findSubdomain :: "string list \<Rightarrow> nat \<Rightarrow> gatewayHosts \<Rightarrow> unit + subdomain option" where
  "findSubdomain labels i knownGateways =
     (if i < 2 then Inr None
      else
        let fqdn = joinc ''.'' (drop i labels); ns = labels ! (i - 1)
        in (case isKnownHostname fqdn knownGateways of
              Inl u \<Rightarrow> Inl u
            | Inr None \<Rightarrow> findSubdomain labels (i - 1) knownGateways
            | Inr (Some gw) \<Rightarrow>
                if \<not> isSubdomainNamespace ns then findSubdomain labels (i - 1) knownGateways
                else Inr (Some \<lparr>sd_gw = gw, sd_gwHostname = fqdn, sd_ns = ns,
                                sd_rootID = joinc ''.'' (take (i - 1) labels)\<rparr>)))"

declare findSubdomain.simps [simp del]

definition knownSubdomainDetails :: "string \<Rightarrow> gatewayHosts \<Rightarrow> unit + subdomain option" where
  "knownSubdomainDetails hostname knownGateways =
     (let labels = splitc CHR ''.'' hostname
      in findSubdomain labels (length labels - 1) knownGateways)"

section \<open>Names and labels\<close>

definition isDomainNameAndNotPeerID :: "('c, 'h, 'p) hostEnv \<Rightarrow> string \<Rightarrow> bool" where
  "isDomainNameAndNotPeerID env hostname =
     (if length hostname = 0 then False
      else if peerDecode env hostname \<noteq> None then False
      else IsDomainName env hostname)"

definition isDNSLinkName :: "('c, 'h, 'p) hostEnv \<Rightarrow> string \<Rightarrow> bool" where
  "isDNSLinkName env host =
     (let dnslinkName = stripPort host
      in if \<not> isDomainNameAndNotPeerID env dnslinkName then False
         else nameResolve env (''/ipns/'' @ dnslinkName) \<in> {ResolveOk, ErrResolveRecursion})"

definition toDNSLabel :: "('c, 'h, 'p) hostEnv \<Rightarrow> string \<Rightarrow> 'c \<Rightarrow> host_err + string" where
  "toDNSLabel env rootID rootCID =
     (if length rootID \<le> dnsLabelMaxLength then Inr rootID
      else (case StringOfBase env Base36 (NewCidV1 env (cidType env rootCID) (cidHash env rootCID)) of
              None \<Rightarrow> Inl BadBase
            | Some rootID' \<Rightarrow>
                if length rootID' \<le> dnsLabelMaxLength then Inr rootID'
                else Inl (CidTooLong rootID')))"

definition toDNSLinkDNSLabel :: "string \<Rightarrow> host_err + string" where
  "toDNSLinkDNSLabel fqdn =
     (let dnsLabel = replaceAll (replaceAll fqdn ''-'' ''--'') ''.'' ''-''
      in if length dnsLabel > dnsLabelMaxLength then Inl (DNSLinkTooLong dnsLabel)
         else Inr dnsLabel)"

definition toDNSLinkFQDN :: "string \<Rightarrow> string" where
  "toDNSLinkFQDN dnsLabel =
     replaceAll (replaceAll (replaceAll dnsLabel ''--'' ''@'') ''-'' ''.'') ''@'' ''-''"

definition hasPrefix :: "string \<Rightarrow> string list \<Rightarrow> bool" where
  "hasPrefix path prefixes =
     list_ex (\<lambda>prefix. let p = TrimSuffix prefix ''/''
                        in p = path \<or> HasPrefix path (p @ ''/'')) prefixes"

section \<open>Requests and the subdomain redirect\<close>

record request =
  r_Host :: string
  r_XForwardedHost :: string
  r_XForwardedProto :: string
  r_Scheme :: string
  r_Path :: string
  r_RawQuery :: string

definition isHTTPSRequest :: "request \<Rightarrow> bool" where
  "isHTTPSRequest r \<longleftrightarrow> r_Scheme r = ''https'' \<or> r_XForwardedProto r = ''https''"

text \<open>The root's text in the subdomain: a CID in a DNS-friendly base, or an inlined name.\<close>

definition normalizePeerID :: "('c, 'h, 'p) hostEnv \<Rightarrow> string \<Rightarrow> string \<Rightarrow> string" where
  "normalizePeerID env ns rootID =
     (if isPeerIDNamespace ns \<and> \<not> isDomainNameAndNotPeerID env rootID
      then (case peerDecode env rootID of Some p \<Rightarrow> peerToCidString env p | None \<Rightarrow> rootID)
      else rootID)"

definition subdomainRoot ::
  "('c, 'h, 'p) hostEnv \<Rightarrow> request \<Rightarrow> bool \<Rightarrow> string \<Rightarrow> string \<Rightarrow> host_err + string" where
  "subdomainRoot env r inlineDNSLink ns rootID =
     (case cidDecode env rootID of
        Some rootCID \<Rightarrow>
          (let multicodec = (if isPeerIDNamespace ns then Libp2pKey env else cidType env rootCID);
               b = (if isPeerIDNamespace ns then Base36 else Base32);
               rootCID' = NewCidV1 env multicodec (cidHash env rootCID)
           in (case StringOfBase env b rootCID' of
                 None \<Rightarrow> Inl BadBase
               | Some rootID' \<Rightarrow> toDNSLabel env rootID' rootCID'))
      | None \<Rightarrow>
          if (inlineDNSLink \<or> isHTTPSRequest r) \<and> ns = ''ipns'' \<and> Contains rootID ''.''
             \<and> isDNSLinkName env rootID
          then toDNSLinkDNSLabel rootID
          else Inr rootID)"

definition subdomainURL :: "string \<Rightarrow> string \<Rightarrow> string \<Rightarrow> string \<Rightarrow> request \<Rightarrow> string" where
  "subdomainURL rootID ns hostname rest r =
     (if isHTTPSRequest r then ''https:'' else ''http:'') @ ''//'' @ rootID @ ''.'' @ ns @ ''.''
       @ hostname @ ''/'' @ rest @ (if r_RawQuery r \<noteq> [] then ''?'' @ r_RawQuery r else [])"

text \<open>\<^verbatim>\<open>toSubdomainURL\<close>; the empty string means that no redirect applies.\<close>

definition toSubdomainURL ::
  "('c, 'h, 'p) hostEnv \<Rightarrow> string \<Rightarrow> string \<Rightarrow> request \<Rightarrow> bool \<Rightarrow> host_err + string" where
  "toSubdomainURL env hostname path r inlineDNSLink =
     (let parts = splitNc 4 CHR ''/'' path
      in if length parts \<noteq> 3 \<and> length parts \<noteq> 4 then Inr []
         else
           let rest = (if length parts = 4 then parts ! 3 else []);
               ns = parts ! 1;
               rootID = parts ! 2
           in if \<not> isSubdomainNamespace ns then Inr []
              else bindS (subdomainRoot env r inlineDNSLink ns (normalizePeerID env ns rootID))
                (\<lambda>rootID'.
                  (case safeURI env (subdomainURL rootID' ns hostname rest r) of
                     None \<Rightarrow> Inl (BadRedirectURL (subdomainURL rootID' ns hostname rest r))
                   | Some u \<Rightarrow> Inr u)))"

section \<open>The handler\<close>

text \<open>
  What the handler does with a request: an error reply, a redirect, or a call of the child
  mux with the rewritten path, an optional \<^verbatim>\<open>Location\<close> header set on the way (the status
  becomes 301 later) and the hostnames put into the request's context.
\<close>

datatype action =
    BadRequest host_err
  | NotFound
  | MovedPermanently string
  | Serve (served_path: string) (location: "string option")
      (gw_hostname: "string option") (dnslink_hostname: "string option")
  | Crash

definition effectiveHost :: "request \<Rightarrow> string" where
  "effectiveHost r = (if r_XForwardedHost r \<noteq> [] then r_XForwardedHost r else r_Host r)"

definition serveKnownHost ::
  "('c, 'h, 'p) hostEnv \<Rightarrow> GatewaySpec \<Rightarrow> string \<Rightarrow> request \<Rightarrow> action" where
  "serveKnownHost env gw host r =
     (if hasPrefix (r_Path r) (Paths gw) then
        (if UseSubdomains gw then
           (case Flag_WithDefault (InlineDNSLink gw) DefaultInlineDNSLink of
              Inl _ \<Rightarrow> Crash
            | Inr useInlinedDNSLink \<Rightarrow>
                (case toSubdomainURL env host (r_Path r) r useInlinedDNSLink of
                   Inl e \<Rightarrow> BadRequest e
                 | Inr newURL \<Rightarrow>
                     Serve (r_Path r) (if newURL \<noteq> [] then Some newURL else None) None None))
         else Serve (r_Path r) None None None)
      else if \<not> NoDNSLink gw \<and> isDNSLinkName env host then
        Serve (''/ipns/'' @ stripPort host @ r_Path r) None (Some host) None
      else NotFound)"

text \<open>
  The subdomain case in two steps: the redirects for a root that is a CID, and the path
  prefix that is served when none applies.
\<close>

definition cidRedirects ::
  "('c, 'h, 'p) hostEnv \<Rightarrow> subdomain \<Rightarrow> bool \<Rightarrow> 'c \<Rightarrow> request \<Rightarrow> host_err + string" where
  "cidRedirects env sd inlineD rootCID r =
     bindS (toDNSLabel env (sd_rootID sd) rootCID) (\<lambda>dnsCID.
     bindS (if \<not> HasPrefix (r_Host r) dnsCID
            then toSubdomainURL env (sd_gwHostname sd)
                   (''/'' @ sd_ns sd @ ''/'' @ dnsCID @ r_Path r) r inlineD
            else Inr []) (\<lambda>newURL.
     if newURL \<noteq> [] then Inr newURL
     else if isPeerIDNamespace (sd_ns sd) \<and> cidType env rootCID \<noteq> Libp2pKey env
     then toSubdomainURL env (sd_gwHostname sd)
            (''/'' @ sd_ns sd @ ''/'' @ sd_rootID sd @ r_Path r) r inlineD
     else Inr []))"

definition subdomainPathPrefix :: "('c, 'h, 'p) hostEnv \<Rightarrow> subdomain \<Rightarrow> string" where
  "subdomainPathPrefix env sd =
     (if cidDecode env (sd_rootID sd) = None \<and> sd_ns sd = ''ipns''
         \<and> \<not> Contains (sd_rootID sd) ''.'' \<and> \<not> isDNSLinkName env (sd_rootID sd)
         \<and> isDNSLinkName env (toDNSLinkFQDN (sd_rootID sd))
      then ''/ipns/'' @ toDNSLinkFQDN (sd_rootID sd)
      else ''/'' @ sd_ns sd @ ''/'' @ sd_rootID sd)"

definition serveSubdomain ::
  "('c, 'h, 'p) hostEnv \<Rightarrow> subdomain \<Rightarrow> request \<Rightarrow> action" where
  "serveSubdomain env sd r =
     (case Flag_WithDefault (InlineDNSLink (sd_gw sd)) DefaultInlineDNSLink of
        Inl _ \<Rightarrow> Crash
      | Inr useInlinedDNSLink \<Rightarrow>
          if \<not> (UseSubdomains (sd_gw sd)
                \<and> hasPrefix (''/'' @ sd_ns sd @ ''/'' @ sd_rootID sd) (Paths (sd_gw sd)))
          then NotFound
          else
            let served = Serve (subdomainPathPrefix env sd @ r_Path r) None (Some (sd_gwHostname sd)) None
            in (case cidDecode env (sd_rootID sd) of
                  None \<Rightarrow> served
                | Some rootCID \<Rightarrow>
                    (case cidRedirects env sd useInlinedDNSLink rootCID r of
                       Inl e \<Rightarrow> BadRequest e
                     | Inr newURL \<Rightarrow> if newURL \<noteq> [] then MovedPermanently newURL else served)))"

definition hostnameHandler ::
  "('c, 'h, 'p) hostEnv \<Rightarrow> gatewayHosts \<Rightarrow> bool \<Rightarrow> request \<Rightarrow> action" where
  "hostnameHandler env knownGateways cfgNoDNSLink r =
     (let host = effectiveHost r
      in (case isKnownHostname host knownGateways of
            Inl _ \<Rightarrow> Crash
          | Inr (Some gw) \<Rightarrow> serveKnownHost env gw host r
          | Inr None \<Rightarrow>
              (case knownSubdomainDetails host knownGateways of
                 Inl _ \<Rightarrow> Crash
               | Inr (Some sd) \<Rightarrow> serveSubdomain env sd r
               | Inr None \<Rightarrow>
                   if \<not> cfgNoDNSLink \<and> isDNSLinkName env host
                   then Serve (''/ipns/'' @ stripPort host @ r_Path r) None (Some host) (Some host)
                   else Serve (r_Path r) None None None)))"

end
