(* ===== verification/HostnameProps.thy ===== *)
theory HostnameProps
  imports Hostname
begin

text \<open>
  Properties of the host routing of \<^verbatim>\<open>core/corehttp/hostname.go\<close>: the one-label form of
  DNSLink names and its inverse, the scan for a known gateway suffix against its
  specification, wildcard gateways, and the handler's routing of subdomain requests.
\<close>

section \<open>DNSLink names as single labels\<close>

definition dnsEnc :: "char \<Rightarrow> string" where
  "dnsEnc c = (if c = CHR ''-'' then ''--'' else if c = CHR ''.'' then ''-'' else [c])"

lemma dnsEnc_simps [simp]:
  "dnsEnc CHR ''-'' = ''--''" "dnsEnc CHR ''.'' = ''-''"
  "c \<noteq> CHR ''-'' \<Longrightarrow> c \<noteq> CHR ''.'' \<Longrightarrow> dnsEnc c = [c]"
  by (simp_all add: dnsEnc_def)

lemma label_of_fqdn:
  "replaceAll (replaceAll fqdn ''-'' ''--'') ''.'' ''-'' = concat (map dnsEnc fqdn)"
  by (induction fqdn) (auto simp: replaceAll_char dnsEnc_def)

fun dnsDec :: "string \<Rightarrow> string" where
  "dnsDec [] = []"
| "dnsDec [c] = [if c = CHR ''-'' then CHR ''.'' else if c = CHR ''@'' then CHR ''-'' else c]"
| "dnsDec (c # d # s) =
     (if c = CHR ''-'' \<and> d = CHR ''-'' then CHR ''-'' # dnsDec s
      else (if c = CHR ''-'' then CHR ''.'' else if c = CHR ''@'' then CHR ''-'' else c)
             # dnsDec (d # s))"

lemma toDNSLinkFQDN_dnsDec: "toDNSLinkFQDN s = dnsDec s"
  unfolding toDNSLinkFQDN_def
  by (induction s rule: dnsDec.induct) (auto simp: replaceAll_char)

text \<open>
  The names whose label determines them: no \<^verbatim>\<open>@\<close>, and no label that is empty or starts
  with a hyphen after a dot.
\<close>

fun inlinable :: "string \<Rightarrow> bool" where
  "inlinable [] = True"
| "inlinable [c] = (c \<noteq> CHR ''@'')"
| "inlinable (c # d # s) =
     (c \<noteq> CHR ''@'' \<and> (c = CHR ''.'' \<longrightarrow> d \<noteq> CHR ''-'' \<and> d \<noteq> CHR ''.'') \<and> inlinable (d # s))"

lemma dnsDec_hyphen: "s \<noteq> [] \<Longrightarrow> hd s \<noteq> CHR ''-'' \<Longrightarrow> dnsDec (CHR ''-'' # s) = CHR ''.'' # dnsDec s"
  by (cases s) simp_all

lemma dnsDec_plain:
  "c \<noteq> CHR ''-'' \<Longrightarrow> dnsDec (c # s) = (if c = CHR ''@'' then CHR ''-'' else c) # dnsDec s"
  by (cases s) simp_all

lemma dnsDec_dnsEnc_iff: "dnsDec (concat (map dnsEnc s)) = s \<longleftrightarrow> inlinable s"
proof (induction s rule: inlinable.induct)
  case (3 c d s)
  let ?e = "concat (map dnsEnc (d # s))"
  have e: "?e \<noteq> []" by (auto simp: dnsEnc_def)
  have hd_e: "hd ?e = CHR ''-'' \<longleftrightarrow> d = CHR ''-'' \<or> d = CHR ''.''"
    by (auto simp: dnsEnc_def)
  consider "c = CHR ''-''" | "c = CHR ''.''" "d = CHR ''-'' \<or> d = CHR ''.''"
    | "c = CHR ''.''" "\<not> (d = CHR ''-'' \<or> d = CHR ''.'')" | "c \<noteq> CHR ''-''" "c \<noteq> CHR ''.''"
    by blast
  then show ?case
  proof cases
    case 1
    then have "dnsDec (concat (map dnsEnc (c # d # s))) = c # dnsDec ?e"
      by simp
    with 1 "3.IH" show ?thesis by auto
  next
    case 2
    with hd_e e obtain t where "?e = CHR ''-'' # t" by (metis list.collapse)
    with 2 have "hd (dnsDec (concat (map dnsEnc (c # d # s)))) = CHR ''-''"
      by simp
    with 2 show ?thesis by auto
  next
    case 3
    then have "concat (map dnsEnc (c # d # s)) = CHR ''-'' # ?e"
      by simp
    with 3 hd_e e have "dnsDec (concat (map dnsEnc (c # d # s))) = c # dnsDec ?e"
      by (simp add: dnsDec_hyphen)
    with 3 "3.IH" show ?thesis by auto
  next
    case 4
    then have "concat (map dnsEnc (c # d # s)) = c # ?e"
      by simp
    with 4 have "dnsDec (concat (map dnsEnc (c # d # s))) =
        (if c = CHR ''@'' then CHR ''-'' else c) # dnsDec ?e"
      by (simp add: dnsDec_plain)
    with 4 "3.IH" show ?thesis by auto
  qed
qed (auto simp: dnsEnc_def)

lemma toDNSLinkDNSLabel_eq:
  "toDNSLinkDNSLabel fqdn = Inr l \<longleftrightarrow>
     l = concat (map dnsEnc fqdn) \<and> length l \<le> dnsLabelMaxLength"
  by (auto simp: toDNSLinkDNSLabel_def label_of_fqdn Let_def)

lemma dnslink_label_length: "toDNSLinkDNSLabel fqdn = Inr l \<Longrightarrow> length l \<le> 63"
  by (auto simp: toDNSLinkDNSLabel_def Let_def dnsLabelMaxLength_def split: if_splits)

section \<open>The scan for a known gateway suffix\<close>

definition splitAt :: "string list \<Rightarrow> nat \<Rightarrow> gatewayHosts \<Rightarrow> bool" where
  "splitAt labels j kg \<longleftrightarrow> (\<exists>gw. isKnownHostname (joinc ''.'' (drop j labels)) kg = Inr (Some gw))
     \<and> isSubdomainNamespace (labels ! (j - 1))"

lemma findSubdomain_Some:
  "findSubdomain labels i kg = Inr (Some sd) \<Longrightarrow>
   \<exists>j. 2 \<le> j \<and> j \<le> i \<and> (\<forall>k. j < k \<and> k \<le> i \<longrightarrow> \<not> splitAt labels k kg)
     \<and> isKnownHostname (sd_gwHostname sd) kg = Inr (Some (sd_gw sd))
     \<and> isSubdomainNamespace (sd_ns sd)
     \<and> sd_gwHostname sd = joinc ''.'' (drop j labels) \<and> sd_ns sd = labels ! (j - 1)
     \<and> sd_rootID sd = joinc ''.'' (take (j - 1) labels)"
proof (induction i)
  case 0
  then show ?case by (simp add: findSubdomain.simps [of labels 0])
next
  case (Suc i)
  show ?case
  proof (cases "Suc i \<ge> 2 \<and> splitAt labels (Suc i) kg")
    case True
    with Suc.prems show ?thesis
      by (intro exI [of _ "Suc i"])
        (auto simp: findSubdomain.simps [of labels "Suc i"] splitAt_def Let_def)
  next
    case False
    with Suc.prems have "findSubdomain labels i kg = Inr (Some sd)" and no: "\<not> splitAt labels (Suc i) kg"
      by (auto simp: findSubdomain.simps [of labels "Suc i"] splitAt_def Let_def
          split: if_splits sum.splits option.splits)
    from Suc.IH [OF this(1)] no show ?thesis
      by (metis le_Suc_eq)
  qed
qed

lemma findSubdomain_None:
  "findSubdomain labels i kg = Inr None \<Longrightarrow> 2 \<le> k \<Longrightarrow> k \<le> i \<Longrightarrow> \<not> splitAt labels k kg"
proof (induction i)
  case (Suc i)
  then show ?case
    by (auto simp: findSubdomain.simps [of labels "Suc i"] splitAt_def Let_def le_Suc_eq
          split: if_splits sum.splits option.splits)
qed simp

lemma splitAt_decomposition:
  assumes "CHR ''.'' \<notin> set n"
    and "isKnownHostname g kg = Inr (Some gw)" and "isSubdomainNamespace n"
  shows "\<exists>j. 2 \<le> j \<and> j \<le> length (splitc CHR ''.'' (r @ ''.'' @ n @ ''.'' @ g)) - 1
    \<and> splitAt (splitc CHR ''.'' (r @ ''.'' @ n @ ''.'' @ g)) j kg
    \<and> joinc ''.'' (drop j (splitc CHR ''.'' (r @ ''.'' @ n @ ''.'' @ g))) = g"
proof -
  let ?r = "splitc CHR ''.'' r" and ?g = "splitc CHR ''.'' g"
  have eq: "splitc CHR ''.'' (r @ ''.'' @ n @ ''.'' @ g) = ?r @ n # ?g"
    using assms(1) by (simp add: splitc_append splitc_append_sep splitc_no_sep)
  have "length ?r \<ge> 1" and "length ?g \<ge> 1"
    by (simp_all add: Suc_le_eq)
  then show ?thesis
    unfolding eq using assms
    by (intro exI [of _ "length ?r + 1"]) (auto simp: splitAt_def)
qed

lemma take_nth_drop_join:
  assumes "2 \<le> j" and "j \<le> length labels - 1"
  shows "joinc sep labels = joinc sep (take (j - 1) labels) @ sep @ (labels ! (j - 1)) @ sep
           @ joinc sep (drop j labels)"
proof -
  have "labels = take (j - 1) labels @ labels ! (j - 1) # drop j labels"
    using assms id_take_nth_drop [of "j - 1" labels] by simp
  moreover have "take (j - 1) labels \<noteq> []" and "drop j labels \<noteq> []"
    using assms by auto
  ultimately show ?thesis
    by (metis joinc_Cons joinc_append list.distinct(1))
qed

lemma knownSubdomainDetails_Some:
  assumes "knownSubdomainDetails h kg = Inr (Some sd)"
  shows "h = sd_rootID sd @ ''.'' @ sd_ns sd @ ''.'' @ sd_gwHostname sd"
    and "isKnownHostname (sd_gwHostname sd) kg = Inr (Some (sd_gw sd))"
    and "isSubdomainNamespace (sd_ns sd)"
    and "h = r @ ''.'' @ n @ ''.'' @ g \<Longrightarrow> CHR ''.'' \<notin> set n \<Longrightarrow> isSubdomainNamespace n \<Longrightarrow>
      isKnownHostname g kg = Inr (Some gw) \<Longrightarrow> length (sd_gwHostname sd) \<le> length g"
proof -
  let ?labels = "splitc CHR ''.'' h"
  from assms obtain j where j: "2 \<le> j" "j \<le> length ?labels - 1"
    "\<forall>k. j < k \<and> k \<le> length ?labels - 1 \<longrightarrow> \<not> splitAt ?labels k kg"
    "isKnownHostname (sd_gwHostname sd) kg = Inr (Some (sd_gw sd))" "isSubdomainNamespace (sd_ns sd)"
    "sd_gwHostname sd = joinc ''.'' (drop j ?labels)" "sd_ns sd = ?labels ! (j - 1)"
    "sd_rootID sd = joinc ''.'' (take (j - 1) ?labels)"
    by (auto simp: knownSubdomainDetails_def Let_def dest: findSubdomain_Some)
  show "h = sd_rootID sd @ ''.'' @ sd_ns sd @ ''.'' @ sd_gwHostname sd"
    using take_nth_drop_join [OF j(1,2), of "''.''"] j by simp
  show "isKnownHostname (sd_gwHostname sd) kg = Inr (Some (sd_gw sd))"
    and "isSubdomainNamespace (sd_ns sd)" using j by simp_all
  assume h: "h = r @ ''.'' @ n @ ''.'' @ g" and "CHR ''.'' \<notin> set n" "isSubdomainNamespace n"
    "isKnownHostname g kg = Inr (Some gw)"
  then obtain k where k: "2 \<le> k" "k \<le> length ?labels - 1" "splitAt ?labels k kg"
    "joinc ''.'' (drop k ?labels) = g"
    using splitAt_decomposition [of n g kg gw r] by auto
  with j(3) have "k \<le> j" by (meson not_le)
  then show "length (sd_gwHostname sd) \<le> length g"
    using length_joinc_drop [of "''.''" k "j - k" ?labels] j k by simp
qed

lemma knownSubdomainDetails_None:
  assumes "knownSubdomainDetails (r @ ''.'' @ n @ ''.'' @ g) kg = Inr None"
    and "CHR ''.'' \<notin> set n" and "isSubdomainNamespace n"
  shows "isKnownHostname g kg \<noteq> Inr (Some gw)"
  using assms findSubdomain_None splitAt_decomposition [of n g kg gw r]
  by (fastforce simp: knownSubdomainDetails_def Let_def)

section \<open>Wildcard hosts\<close>

definition wildEnc :: "char \<Rightarrow> string" where
  "wildEnc c = (if c = CHR ''.'' then CHR 0x5C # ''.'' else if c = CHR ''*'' then ''[^.]+'' else [c])"

definition wildItem :: "char \<Rightarrow> re_item" where
  "wildItem c = (if c = CHR ''*'' then ReLabel else ReLit c)"

definition plainHost :: "string \<Rightarrow> bool" where
  "plainHost h \<longleftrightarrow> (\<forall>c \<in> set h. c = CHR ''.'' \<or> c = CHR ''*'' \<or> \<not> isMetaChar c)"

lemma wildcardRegexpText_eq:
  "wildcardRegexpText h = ''^'' @ concat (map wildEnc h) @ portSuffix"
proof -
  have "replaceAll (replaceAll h ''.'' (CHR 0x5C # ''.'')) ''*'' ''[^.]+'' = concat (map wildEnc h)"
    by (induction h) (auto simp: replaceAll_char wildEnc_def)
  then show ?thesis by (simp add: wildcardRegexpText_def Let_def)
qed

lemma plain_char: "\<not> isMetaChar c \<Longrightarrow> c \<noteq> CHR 0x5C \<and> c \<noteq> CHR ''['' \<and> c \<noteq> CHR ''.'' \<and> c \<noteq> CHR ''*''"
  by (auto simp: isMetaChar_def)

lemma reItems_step:
  "reItems (CHR 0x5C # CHR ''.'' # s) = map_option (Cons (ReLit CHR ''.'')) (reItems s)"
  "reItems (''[^.]+'' @ s) = map_option (Cons ReLabel) (reItems s)"
  "\<not> isMetaChar c \<Longrightarrow> reItems (c # s) = map_option (Cons (ReLit c)) (reItems s)"
  by (simp_all add: plain_char)

lemma reItems_wildEnc: "plainHost h \<Longrightarrow> reItems (concat (map wildEnc h)) = Some (map wildItem h)"
proof (induction h)
  case (Cons c h)
  then have IH: "reItems (concat (map wildEnc h)) = Some (map wildItem h)"
    by (simp add: plainHost_def)
  from Cons.prems consider "c = CHR ''.''" | "c = CHR ''*''" | "\<not> isMetaChar c"
    by (auto simp: plainHost_def)
  then show ?case
  proof cases
    case 1
    have "concat (map wildEnc (c # h)) = CHR 0x5C # CHR ''.'' # concat (map wildEnc h)"
      by (simp add: 1 wildEnc_def)
    then show ?thesis by (simp only: reItems_step IH) (simp add: 1 wildItem_def)
  next
    case 2
    have "concat (map wildEnc (c # h)) = ''[^.]+'' @ concat (map wildEnc h)"
      by (simp add: 2 wildEnc_def)
    then show ?thesis by (simp only: reItems_step IH) (simp add: 2 wildItem_def)
  next
    case 3
    have "concat (map wildEnc (c # h)) = c # concat (map wildEnc h)"
      using plain_char [OF 3] by (simp add: wildEnc_def)
    then show ?thesis
      using plain_char [OF 3] by (simp only: reItems_step(3) [OF 3] IH) (simp add: wildItem_def)
  qed
qed simp

lemma matchItems_lits:
  "matchItems (map ReLit p) s \<longleftrightarrow> (\<exists>rest. s = p @ rest \<and> optPort rest)"
proof (induction p arbitrary: s)
  case (Cons c p)
  then show ?case by (cases s) auto
qed auto

lemma matchItems_label:
  "matchItems (ReLabel # rs) s \<longleftrightarrow>
     (\<exists>label rest. s = label @ rest \<and> label \<noteq> [] \<and> CHR ''.'' \<notin> set label \<and> matchItems rs rest)"
proof (induction s)
  case (Cons d s)
  show ?case (is "_ \<longleftrightarrow> ?R")
  proof
    assume "matchItems (ReLabel # rs) (d # s)"
    then have d: "d \<noteq> CHR ''.''" and "matchItems rs s \<or> matchItems (ReLabel # rs) s" by auto
    from this(2) show ?R
    proof
      assume "matchItems rs s"
      with d show ?R by (intro exI [of _ "[d]"] exI [of _ s]) simp
    next
      assume "matchItems (ReLabel # rs) s"
      then obtain label rest where "s = label @ rest" "CHR ''.'' \<notin> set label" "matchItems rs rest"
        using Cons.IH by blast
      with d show ?R by (intro exI [of _ "d # label"] exI [of _ rest]) auto
    qed
  next
    assume ?R
    then obtain label rest where l: "d # s = label @ rest" "label \<noteq> []" "CHR ''.'' \<notin> set label"
      "matchItems rs rest" by blast
    then obtain label' where label': "label = d # label'" "s = label' @ rest" by (cases label) auto
    with l have "d \<noteq> CHR ''.''" and "CHR ''.'' \<notin> set label'" by auto
    moreover have "matchItems rs s \<or> matchItems (ReLabel # rs) s"
      using l label' calculation Cons.IH by (cases "label' = []") auto
    ultimately show "matchItems (ReLabel # rs) (d # s)" by simp
  qed
qed simp

lemma regexpCompile_wildcard:
  "plainHost h \<Longrightarrow> regexpCompile other (wildcardRegexpText h) = Some (matchItems (map wildItem h))"
  by (simp add: regexpCompile_def wildcardRegexpText_eq HasSuffix_iff reItems_wildEnc)

text \<open>
  A wildcard gateway \<^verbatim>\<open>*.domain\<close> matches exactly the hosts with one non-empty label
  in front of the domain, with or without a port.
\<close>

theorem wildcard_gateway_matches_one_label:
  assumes "plainHost tld" and "CHR ''*'' \<notin> set tld"
  shows "\<exists>m. wildcard (prepareKnownGateways other [(''*.'' @ tld, Some spec)]) =
      [\<lparr>wh_re = Some m, wh_spec = spec\<rparr>] \<and>
    (m host \<longleftrightarrow> (\<exists>label port. host = label @ ''.'' @ tld @ port \<and> label \<noteq> []
        \<and> CHR ''.'' \<notin> set label \<and> optPort port))"
proof (intro exI conjI)
  have "map wildItem tld = map ReLit tld"
    using assms(2) by (auto simp: wildItem_def)
  then have items: "map wildItem (''*.'' @ tld) = ReLabel # map ReLit (''.'' @ tld)"
    by (simp add: wildItem_def)
  have "plainHost (''*.'' @ tld)"
    using assms(1) by (simp add: plainHost_def)
  then show "wildcard (prepareKnownGateways other [(''*.'' @ tld, Some spec)]) =
      [\<lparr>wh_re = Some (matchItems (ReLabel # map ReLit (''.'' @ tld))), wh_spec = spec\<rparr>]"
    unfolding prepareKnownGateways_def addGateway_def
    unfolding items [symmetric] by (simp add: regexpCompile_wildcard Contains_char)
  show "matchItems (ReLabel # map ReLit (''.'' @ tld)) host \<longleftrightarrow>
    (\<exists>label port. host = label @ ''.'' @ tld @ port \<and> label \<noteq> []
        \<and> CHR ''.'' \<notin> set label \<and> optPort port)"
    unfolding matchItems_label matchItems_lits by auto
qed

theorem wildcard_gateway_matches_one_label_witness:
  "\<exists>m. wildcard (prepareKnownGateways (\<lambda>_. None) [(''*.'' @ ''dweb.link'', Some subdomainGatewaySpec)]) =
      [\<lparr>wh_re = Some m, wh_spec = subdomainGatewaySpec\<rparr>] \<and>
    (m ''a.dweb.link:80'' \<longleftrightarrow> (\<exists>label port. ''a.dweb.link:80'' = label @ ''.'' @ ''dweb.link'' @ port \<and> label \<noteq> []
        \<and> CHR ''.'' \<notin> set label \<and> optPort port))"
proof (rule wildcard_gateway_matches_one_label)
  show "plainHost ''dweb.link''" by (simp add: plainHost_def isMetaChar_def)
qed simp

text \<open>
  A wildcard gateway whose expression does not compile takes the whole server down: the
  nil expression is kept, and any request for a host that is not an exact entry crashes
  the handler.
\<close>

theorem uncompiled_wildcard_crashes_requests:
  assumes "regexpCompile otherRegexp (wildcardRegexpText pat) = None"
    and "CHR ''*'' \<in> set pat"
    and "effectiveHost r \<noteq> ''localhost''" and "stripPort (effectiveHost r) \<noteq> ''localhost''"
  shows "hostnameHandler env (prepareKnownGateways otherRegexp [(pat, Some spec)]) nd r = Crash"
  using assms
  by (simp add: hostnameHandler_def Let_def prepareKnownGateways_def addGateway_def Contains_char
      isKnownHostname_def defaultKnownGateways_def)

section \<open>Subdomain routing\<close>

text \<open>
  Inlining a DNSLink name into one DNS label: the label has no dot and fits the limit,
  and it is turned back into the name exactly when the name has no \<^verbatim>\<open>@\<close> and no label
  that is empty or starts with a hyphen.
\<close>

theorem dnslink_label_round_trip:
  assumes "toDNSLinkDNSLabel fqdn = Inr l"
  shows "length l \<le> 63 \<and> CHR ''.'' \<notin> set l \<and> (toDNSLinkFQDN l = fqdn \<longleftrightarrow> inlinable fqdn)"
proof -
  from assms have l: "l = concat (map dnsEnc fqdn)" and "length l \<le> dnsLabelMaxLength"
    unfolding toDNSLinkDNSLabel_eq by (rule conjunct1, rule conjunct2)
  then have "length l \<le> 63" by (simp add: dnsLabelMaxLength_def)
  have "CHR ''.'' \<notin> set (concat (map dnsEnc fqdn))"
    by (auto simp: dnsEnc_def split: if_splits)
  with l \<open>length l \<le> 63\<close> show ?thesis
    using dnsDec_dnsEnc_iff [of fqdn] by (simp only: toDNSLinkFQDN_dnsDec simp_thms)
qed

theorem dnslink_label_round_trip_witness:
  "toDNSLinkDNSLabel ''my.v-long.example.com'' = Inr ''my-v--long-example-com'' \<and>
   toDNSLinkFQDN ''my-v--long-example-com'' = ''my.v-long.example.com''"
proof -
  have l: "toDNSLinkDNSLabel ''my.v-long.example.com'' = Inr ''my-v--long-example-com''"
    by (simp add: toDNSLinkDNSLabel_def Let_def replaceAll_char dnsLabelMaxLength_def)
  show ?thesis using l dnslink_label_round_trip [OF l] by simp
qed

text \<open>
  Origin isolation of inlined names: two well-formed names with the same label are the
  same name; without the condition the names \<^verbatim>\<open>a.-b\<close> and \<^verbatim>\<open>a-.b\<close> share one origin.
\<close>

theorem inlined_names_have_distinct_origins:
  assumes "toDNSLinkDNSLabel a = Inr l" and "toDNSLinkDNSLabel b = Inr l"
    and "inlinable a" and "inlinable b"
  shows "a = b \<and> toDNSLinkDNSLabel (x @ ''.-'' @ y) = toDNSLinkDNSLabel (x @ ''-.'' @ y)"
proof
  show "a = b"
    using assms by (metis toDNSLinkDNSLabel_eq dnsDec_dnsEnc_iff)
  show "toDNSLinkDNSLabel (x @ ''.-'' @ y) = toDNSLinkDNSLabel (x @ ''-.'' @ y)"
    unfolding toDNSLinkDNSLabel_def by (simp add: label_of_fqdn)
qed

theorem inlined_names_have_distinct_origins_witness:
  "toDNSLinkDNSLabel ''a.b'' = Inr ''a-b'' \<and>
   toDNSLinkDNSLabel (''a'' @ ''.-'' @ ''b'') = toDNSLinkDNSLabel (''a'' @ ''-.'' @ ''b'')"
proof -
  have l: "toDNSLinkDNSLabel ''a.b'' = Inr ''a-b''"
    by (simp add: toDNSLinkDNSLabel_def Let_def replaceAll_char dnsLabelMaxLength_def)
  have i: "inlinable ''a.b''" by simp
  show ?thesis using l inlined_names_have_distinct_origins [OF l l i i, of "''a''" "''b''"] by blast
qed

text \<open>
  \<^verbatim>\<open>knownSubdomainDetails\<close> takes a host apart into \<^verbatim>\<open>{rootID}.{ns}.{gateway}\<close> with a
  known gateway and a namespace, at the shortest gateway suffix for which that is possible,
  and finds nothing only when there is no such split.
\<close>

theorem subdomain_host_decomposition:
  assumes "knownSubdomainDetails h kg = Inr res"
  shows "(case res of
      Some sd \<Rightarrow> h = sd_rootID sd @ ''.'' @ sd_ns sd @ ''.'' @ sd_gwHostname sd
        \<and> isKnownHostname (sd_gwHostname sd) kg = Inr (Some (sd_gw sd))
        \<and> isSubdomainNamespace (sd_ns sd)
        \<and> (\<forall>r n g gw. h = r @ ''.'' @ n @ ''.'' @ g \<longrightarrow> isSubdomainNamespace n \<longrightarrow>
             isKnownHostname g kg = Inr (Some gw) \<longrightarrow> length (sd_gwHostname sd) \<le> length g)
    | None \<Rightarrow> \<not> (\<exists>r n g gw. h = r @ ''.'' @ n @ ''.'' @ g \<and> isSubdomainNamespace n \<and>
             isKnownHostname g kg = Inr (Some gw)))"
proof -
  have ns: "CHR ''.'' \<notin> set n" if "isSubdomainNamespace n" for n
    using that by (auto simp: isSubdomainNamespace_def)
  show ?thesis
  proof (cases res)
    case None
    with assms show ?thesis
      using knownSubdomainDetails_None ns by fastforce
  next
    case (Some sd)
    with assms have k: "knownSubdomainDetails h kg = Inr (Some sd)" by simp
    show ?thesis
      using Some knownSubdomainDetails_Some(1-3) [OF k] knownSubdomainDetails_Some(4) [OF k] ns
      by auto
  qed
qed

theorem subdomain_host_decomposition_witness:
  "knownSubdomainDetails ''a.b.ipns.localhost'' (prepareKnownGateways (\<lambda>_. None) []) =
     Inr (Some \<lparr>sd_gw = subdomainGatewaySpec, sd_gwHostname = ''localhost'', sd_ns = ''ipns'',
                sd_rootID = ''a.b''\<rparr>) \<and>
   isKnownHostname ''localhost'' (prepareKnownGateways (\<lambda>_. None) []) =
     Inr (Some subdomainGatewaySpec)"
proof -
  have k: "knownSubdomainDetails ''a.b.ipns.localhost'' (prepareKnownGateways (\<lambda>_. None) []) =
     Inr (Some \<lparr>sd_gw = subdomainGatewaySpec, sd_gwHostname = ''localhost'', sd_ns = ''ipns'',
                sd_rootID = ''a.b''\<rparr>)"
    by (simp add: knownSubdomainDetails_def findSubdomain.simps Let_def isKnownHostname_def
        prepareKnownGateways_def defaultKnownGateways_def isSubdomainNamespace_def)
  show ?thesis using k subdomain_host_decomposition [OF k] by simp
qed

text \<open>
  The first label of a subdomain redirect fits in a DNS label whenever the root is a CID
  (in whatever base or length it was requested) or is rewritten at all.
\<close>

theorem subdomain_roots_fit_dns_label:
  assumes "subdomainRoot env r inl ns rootID = Inr l"
    and "cidDecode env rootID \<noteq> None \<or> l \<noteq> rootID"
  shows "length l \<le> 63"
proof -
  have label: "toDNSLabel env x c = Inr l \<Longrightarrow> length l \<le> 63" for x c
    by (auto simp: toDNSLabel_def dnsLabelMaxLength_def split: if_splits option.splits)
  have inlined: "toDNSLinkDNSLabel rootID = Inr l \<Longrightarrow> length l \<le> 63"
    using dnslink_label_length by blast
  show ?thesis
    using assms label inlined
    by (auto simp: subdomainRoot_def Let_def split: option.splits if_splits)
qed

text \<open>An environment to run examples in: a CID is its codec and its digest.\<close>

definition exampleEnv :: "(nat \<times> string, string, string) hostEnv" where
  "exampleEnv =
     \<lparr>cidDecode = (\<lambda>s. case s of [] \<Rightarrow> None
        | c # d \<Rightarrow> if c = CHR ''b'' then Some (112, d) else if c = CHR ''k'' then Some (114, d) else None),
      cidType = fst, cidHash = snd, NewCidV1 = (\<lambda>t h. (t, h)),
      StringOfBase = (\<lambda>b c. Some ((case b of Base32 \<Rightarrow> CHR ''b'' | Base36 \<Rightarrow> CHR ''k'') # snd c)),
      Libp2pKey = 114, peerDecode = (\<lambda>_. None), peerToCidString = id,
      IsDomainName = (\<lambda>_. True),
      nameResolve = (\<lambda>n. if n = ''/ipns/my.site'' then ResolveOk else ResolveFailed),
      safeURI = Some\<rparr>"

definition exampleHosts :: gatewayHosts where
  "exampleHosts = prepareKnownGateways (\<lambda>_. None) []"

definition exampleRequest :: "string \<Rightarrow> string \<Rightarrow> string \<Rightarrow> request" where
  "exampleRequest h xh p = \<lparr>r_Host = h, r_XForwardedHost = xh, r_XForwardedProto = [], r_Scheme = [],
     r_Path = p, r_RawQuery = []\<rparr>"

lemmas example_defs = exampleEnv_def exampleHosts_def exampleRequest_def

lemmas routing_defs = hostnameHandler_def effectiveHost_def isKnownHostname_def
  prepareKnownGateways_def defaultKnownGateways_def subdomainGatewaySpec_def defaultPaths_def
  stripPort_def SplitHostPort_def lastIndexOf_def

theorem subdomain_roots_fit_dns_label_witness:
  "subdomainRoot exampleEnv (exampleRequest [] [] []) False ''ipfs'' ''kabc'' = Inr ''babc'' \<and>
   length ''babc'' \<le> 63"
proof -
  have l: "subdomainRoot exampleEnv (exampleRequest [] [] []) False ''ipfs'' ''kabc'' = Inr ''babc''"
    by (simp add: subdomainRoot_def example_defs isPeerIDNamespace_def toDNSLabel_def
        dnsLabelMaxLength_def Let_def)
  moreover have "cidDecode exampleEnv ''kabc'' \<noteq> None" by (simp add: example_defs)
  ultimately show ?thesis using subdomain_roots_fit_dns_label [OF l] by blast
qed

text \<open>
  C2. A request for a subdomain host is served only if its gateway is configured for
  subdomains and for that namespace, never with a redirect header, and under the path the
  host names: \<^verbatim>\<open>/ns/root\<close>, or the DNSLink name the root is the inlined form of.
\<close>

theorem subdomain_request_served_only_when_enabled:
  assumes "isKnownHostname (effectiveHost r) kg = Inr None"
    and "knownSubdomainDetails (effectiveHost r) kg = Inr (Some sd)"
    and "hostnameHandler env kg nd r = Serve p loc gh dl"
  shows "UseSubdomains (sd_gw sd)
    \<and> hasPrefix (''/'' @ sd_ns sd @ ''/'' @ sd_rootID sd) (Paths (sd_gw sd))
    \<and> loc = None \<and> gh = Some (sd_gwHostname sd) \<and> dl = None
    \<and> (p = ''/'' @ sd_ns sd @ ''/'' @ sd_rootID sd @ r_Path r
       \<or> sd_ns sd = ''ipns'' \<and> isDNSLinkName env (toDNSLinkFQDN (sd_rootID sd))
          \<and> p = ''/ipns/'' @ toDNSLinkFQDN (sd_rootID sd) @ r_Path r)"
proof -
  from assms have "serveSubdomain env sd r = Serve p loc gh dl"
    by (simp add: hostnameHandler_def Let_def)
  then have "UseSubdomains (sd_gw sd)"
    and "hasPrefix (''/'' @ sd_ns sd @ ''/'' @ sd_rootID sd) (Paths (sd_gw sd))"
    and "p = subdomainPathPrefix env sd @ r_Path r" and "loc = None" and "dl = None"
    and "gh = Some (sd_gwHostname sd)"
    by (auto simp: serveSubdomain_def Let_def split: sum.splits if_splits option.splits)
  then show ?thesis
    by (auto simp: subdomainPathPrefix_def)
qed

text \<open>
  A request in canonical form: the host is a subdomain of an enabled gateway, the root is a
  CID already written the way the gateway writes it.
\<close>

definition canonicalSubdomain :: "('c, 'h, 'p) hostEnv \<Rightarrow> gatewayHosts \<Rightarrow> request \<Rightarrow> subdomain \<Rightarrow> bool" where
  "canonicalSubdomain env kg r sd \<longleftrightarrow>
     isKnownHostname (effectiveHost r) kg = Inr None
     \<and> knownSubdomainDetails (effectiveHost r) kg = Inr (Some sd)
     \<and> UseSubdomains (sd_gw sd) \<and> Flag_valid (InlineDNSLink (sd_gw sd))
     \<and> hasPrefix (''/'' @ sd_ns sd @ ''/'' @ sd_rootID sd) (Paths (sd_gw sd))
     \<and> length (sd_rootID sd) \<le> 63 \<and> CHR ''/'' \<notin> set (sd_rootID sd)
     \<and> (\<exists>c. cidDecode env (sd_rootID sd) = Some c
          \<and> (isPeerIDNamespace (sd_ns sd) \<longrightarrow> cidType env c = Libp2pKey env))
     \<and> (\<forall>inl. subdomainRoot env r inl (sd_ns sd) (normalizePeerID env (sd_ns sd) (sd_rootID sd))
          = Inr (sd_rootID sd))"

lemma Flag_valid_WithDefault: "Flag_valid f \<Longrightarrow> \<exists>b. Flag_WithDefault f d = Inr b"
  by (auto simp: Flag_valid_def Flag_WithDefault_def)

lemma toSubdomainURL_canonical:
  assumes "canonicalSubdomain env kg r sd" and "safeURI env = Some" and "r_Path r = ''/'' @ rest"
  shows "toSubdomainURL env (sd_gwHostname sd)
      (''/'' @ sd_ns sd @ ''/'' @ sd_rootID sd @ r_Path r) r inl =
    Inr (subdomainURL (sd_rootID sd) (sd_ns sd) (sd_gwHostname sd) rest r)"
proof -
  have ns: "isSubdomainNamespace (sd_ns sd)"
    using assms(1) knownSubdomainDetails_Some(3) by (auto simp: canonicalSubdomain_def)
  then have "CHR ''/'' \<notin> set (sd_ns sd)" by (auto simp: isSubdomainNamespace_def)
  moreover have "CHR ''/'' \<notin> set (sd_rootID sd)"
    using assms(1) by (simp add: canonicalSubdomain_def)
  ultimately have "splitNc 4 CHR ''/'' (''/'' @ sd_ns sd @ ''/'' @ sd_rootID sd @ r_Path r)
      = [[], sd_ns sd, sd_rootID sd, rest]"
    using assms(3) splitNc_sep [of "CHR ''/''" "[]"] splitNc_sep [of "CHR ''/''" "sd_ns sd"]
      splitNc_sep [of "CHR ''/''" "sd_rootID sd"]
    by (simp add: eval_nat_numeral del: splitNc.simps(3))
  with ns assms show ?thesis
    by (simp add: toSubdomainURL_def Let_def canonicalSubdomain_def)
qed

lemma canonical_served:
  assumes "canonicalSubdomain env kg r sd" and "r_XForwardedHost r = []"
  shows "hostnameHandler env kg nd r =
    Serve (''/'' @ sd_ns sd @ ''/'' @ sd_rootID sd @ r_Path r) None (Some (sd_gwHostname sd)) None"
proof -
  have host: "effectiveHost r = r_Host r" using assms(2) by (simp add: effectiveHost_def)
  from assms(1) have k: "knownSubdomainDetails (r_Host r) kg = Inr (Some sd)"
    by (simp add: canonicalSubdomain_def host)
  have pre: "HasPrefix (r_Host r) (sd_rootID sd)"
    using knownSubdomainDetails_Some(1) [OF k] by (metis HasPrefix_append)
  obtain c where c: "cidDecode env (sd_rootID sd) = Some c"
    "isPeerIDNamespace (sd_ns sd) \<longrightarrow> cidType env c = Libp2pKey env"
    using assms(1) by (auto simp: canonicalSubdomain_def)
  have red: "cidRedirects env sd inl c r = Inr []" for inl
    using assms(1) c(2) pre
    by (auto simp: cidRedirects_def toDNSLabel_def dnsLabelMaxLength_def canonicalSubdomain_def)
  obtain b where "Flag_WithDefault (InlineDNSLink (sd_gw sd)) DefaultInlineDNSLink = Inr b"
    using assms(1) Flag_valid_WithDefault by (metis canonicalSubdomain_def)
  then have "serveSubdomain env sd r =
    Serve (''/'' @ sd_ns sd @ ''/'' @ sd_rootID sd @ r_Path r) None (Some (sd_gwHostname sd)) None"
    using assms(1) c(1) red
    by (simp add: serveSubdomain_def Let_def subdomainPathPrefix_def canonicalSubdomain_def)
  with assms(1) show ?thesis
    by (simp add: hostnameHandler_def Let_def canonicalSubdomain_def)
qed

text \<open>
  No redirect loop for a direct request: when the canonical host came in the Host
  header, the content is served under its path.
\<close>

theorem canonical_subdomain_request_is_served:
  assumes "canonicalSubdomain env kg r sd" and "r_XForwardedHost r = []"
  shows "hostnameHandler env kg nd r =
    Serve (''/'' @ sd_ns sd @ ''/'' @ sd_rootID sd @ r_Path r) None (Some (sd_gwHostname sd)) None"
  using assms by (rule canonical_served)

text \<open>
  With the canonical host in X-Forwarded-Host and another Host header (a reverse proxy
  that rewrites Host), the handler compares the root with the wrong header and answers
  every request with a redirect to the very URL that was requested.
\<close>

theorem forwarded_host_redirects_to_itself:
  assumes "canonicalSubdomain env kg r sd" and "r_XForwardedHost r \<noteq> []"
    and "\<not> HasPrefix (r_Host r) (sd_rootID sd)"
    and "safeURI env = Some" and "r_Path r = ''/'' @ rest"
  shows "hostnameHandler env kg nd r = MovedPermanently
    ((if isHTTPSRequest r then ''https:'' else ''http:'') @ ''//'' @ r_XForwardedHost r @ ''/'' @ rest
      @ (if r_RawQuery r \<noteq> [] then ''?'' @ r_RawQuery r else []))"
proof -
  have host: "effectiveHost r = r_XForwardedHost r" using assms(2) by (simp add: effectiveHost_def)
  from assms(1) have k: "knownSubdomainDetails (r_XForwardedHost r) kg = Inr (Some sd)"
    by (simp add: canonicalSubdomain_def host)
  let ?url = "subdomainURL (sd_rootID sd) (sd_ns sd) (sd_gwHostname sd) rest r"
  obtain c where c: "cidDecode env (sd_rootID sd) = Some c"
    using assms(1) by (auto simp: canonicalSubdomain_def)
  have "toDNSLabel env (sd_rootID sd) c = Inr (sd_rootID sd)"
    using assms(1) by (simp add: toDNSLabel_def dnsLabelMaxLength_def canonicalSubdomain_def)
  then have red: "cidRedirects env sd inl c r = Inr ?url" for inl
    using assms(3) toSubdomainURL_canonical [OF assms(1,4,5)]
    by (simp add: cidRedirects_def subdomainURL_def)
  obtain b where "Flag_WithDefault (InlineDNSLink (sd_gw sd)) DefaultInlineDNSLink = Inr b"
    using assms(1) Flag_valid_WithDefault by (metis canonicalSubdomain_def)
  then have "serveSubdomain env sd r = MovedPermanently ?url"
    using assms(1) c red
    by (simp add: serveSubdomain_def Let_def subdomainURL_def canonicalSubdomain_def)
  moreover have "?url = (if isHTTPSRequest r then ''https:'' else ''http:'') @ ''//''
      @ r_XForwardedHost r @ ''/'' @ rest @ (if r_RawQuery r \<noteq> [] then ''?'' @ r_RawQuery r else [])"
    using knownSubdomainDetails_Some(1) [OF k] by (simp add: subdomainURL_def)
  ultimately show ?thesis
    using assms(1) by (simp add: hostnameHandler_def Let_def canonicalSubdomain_def)
qed

lemma example_canonical:
  assumes "xh = [] \<and> h = ''babc.ipfs.localhost'' \<or> xh = ''babc.ipfs.localhost''"
  shows "canonicalSubdomain exampleEnv exampleHosts (exampleRequest h xh ''/x'')
    \<lparr>sd_gw = subdomainGatewaySpec, sd_gwHostname = ''localhost'', sd_ns = ''ipfs'', sd_rootID = ''babc''\<rparr>"
proof -
  have "effectiveHost (exampleRequest h xh ''/x'') = ''babc.ipfs.localhost''"
    using assms by (auto simp: effectiveHost_def exampleRequest_def)
  moreover have "isKnownHostname ''babc.ipfs.localhost'' exampleHosts = Inr None"
    by (simp add: exampleHosts_def routing_defs)
  moreover have "knownSubdomainDetails ''babc.ipfs.localhost'' exampleHosts = Inr (Some
    \<lparr>sd_gw = subdomainGatewaySpec, sd_gwHostname = ''localhost'', sd_ns = ''ipfs'', sd_rootID = ''babc''\<rparr>)"
    by (simp add: knownSubdomainDetails_def findSubdomain.simps Let_def exampleHosts_def
        isKnownHostname_def prepareKnownGateways_def defaultKnownGateways_def isSubdomainNamespace_def)
  ultimately show ?thesis
    by (simp add: canonicalSubdomain_def subdomainGatewaySpec_def defaultPaths_def Flag_valid_def
        hasPrefix_def exampleEnv_def isPeerIDNamespace_def subdomainRoot_def normalizePeerID_def
        toDNSLabel_def dnsLabelMaxLength_def Let_def TrimSuffix_def HasSuffix_def)
qed

theorem subdomain_request_served_only_when_enabled_witness:
  "UseSubdomains subdomainGatewaySpec \<and>
   hostnameHandler exampleEnv exampleHosts False (exampleRequest ''babc.ipfs.localhost'' [] ''/x'') =
     Serve ''/ipfs/babc/x'' None (Some ''localhost'') None"
proof -
  let ?r = "exampleRequest ''babc.ipfs.localhost'' [] ''/x''"
  have c: "canonicalSubdomain exampleEnv exampleHosts ?r
    \<lparr>sd_gw = subdomainGatewaySpec, sd_gwHostname = ''localhost'', sd_ns = ''ipfs'', sd_rootID = ''babc''\<rparr>"
    by (rule example_canonical) simp
  then have u: "isKnownHostname (effectiveHost ?r) exampleHosts = Inr None"
    and k: "knownSubdomainDetails (effectiveHost ?r) exampleHosts = Inr (Some
      \<lparr>sd_gw = subdomainGatewaySpec, sd_gwHostname = ''localhost'', sd_ns = ''ipfs'', sd_rootID = ''babc''\<rparr>)"
    by (simp_all add: canonicalSubdomain_def)
  have h: "hostnameHandler exampleEnv exampleHosts False ?r =
      Serve ''/ipfs/babc/x'' None (Some ''localhost'') None"
    using canonical_served [OF c, of False] by (simp add: exampleRequest_def)
  show ?thesis
    using conjunct1 [OF subdomain_request_served_only_when_enabled [OF u k h]]
    by (simp only: h subdomain.select_convs simp_thms)
qed

theorem canonical_subdomain_request_is_served_witness:
  "hostnameHandler exampleEnv exampleHosts False (exampleRequest ''babc.ipfs.localhost'' [] ''/x'') =
     Serve (''/ipfs/babc/x'') None (Some ''localhost'') None"
proof -
  let ?r = "exampleRequest ''babc.ipfs.localhost'' [] ''/x''"
  have c: "canonicalSubdomain exampleEnv exampleHosts ?r
    \<lparr>sd_gw = subdomainGatewaySpec, sd_gwHostname = ''localhost'', sd_ns = ''ipfs'', sd_rootID = ''babc''\<rparr>"
    by (rule example_canonical) simp
  have x: "r_XForwardedHost ?r = []" by (simp add: exampleRequest_def)
  show ?thesis
    using canonical_subdomain_request_is_served [OF c x] by (simp add: exampleRequest_def)
qed

theorem forwarded_host_redirects_to_itself_witness:
  "hostnameHandler exampleEnv exampleHosts False
     (exampleRequest ''internal:8080'' ''babc.ipfs.localhost'' ''/x'') =
   MovedPermanently ''http://babc.ipfs.localhost/x''"
proof -
  let ?r = "exampleRequest ''internal:8080'' ''babc.ipfs.localhost'' ''/x''"
  have c: "canonicalSubdomain exampleEnv exampleHosts ?r
    \<lparr>sd_gw = subdomainGatewaySpec, sd_gwHostname = ''localhost'', sd_ns = ''ipfs'', sd_rootID = ''babc''\<rparr>"
    by (rule example_canonical) simp
  show ?thesis
    using forwarded_host_redirects_to_itself [OF c, of "''x''" False]
    by (simp add: exampleRequest_def exampleEnv_def isHTTPSRequest_def)
qed

theorem uncompiled_wildcard_crashes_requests_witness:
  "hostnameHandler exampleEnv (prepareKnownGateways (\<lambda>_. None) [(''(*'', Some subdomainGatewaySpec)]) False
     \<lparr>r_Host = ''ipfs.io'', r_XForwardedHost = [], r_XForwardedProto = [], r_Scheme = [],
      r_Path = ''/'', r_RawQuery = []\<rparr> = Crash"
proof (rule uncompiled_wildcard_crashes_requests)
  show "regexpCompile (\<lambda>_. None) (wildcardRegexpText ''(*'') = None"
    by (simp add: regexpCompile_def wildcardRegexpText_eq HasSuffix_iff wildEnc_def isMetaChar_def)
qed (simp_all add: effectiveHost_def stripPort_def SplitHostPort_def lastIndexOf_def)

end
