(* ===== verification/Peering.thy ===== *)
theory Peering
  imports GoPrelude
begin

text \<open>
  \<^verbatim>\<open>peering/peering.go\<close>: the service that keeps connections to a list of peers, with a
  reconnect timer and a back-off per peer.

  \<^item> A \<^verbatim>\<open>peerHandler\<close> lives at a reference in a heap, because goroutines and timers
    keep pointing at it after it was removed from the service's map.
  \<^item> \<^verbatim>\<open>go f()\<close> puts a task into \<open>pending\<close>; the scheduler runs pending tasks in any
    order, one critical section at a time.  A fired timer starts \<^verbatim>\<open>reconnect\<close>, whose three
    sections (\<^verbatim>\<open>Connect\<close>, the handling of its error, \<^verbatim>\<open>stopIfConnected\<close>) are three tasks.
  \<^item> The timer field is nil (\<open>None\<close>) or a timer that is armed (\<open>Some True\<close>) or has fired
    (\<open>Some False\<close>).
  \<^item> \<^verbatim>\<open>rand.Int63n(n)\<close> is \<open>r mod n\<close> for an arbitrary \<open>r\<close> of the event; durations are
    nanoseconds, and the bounds proved below keep them far from 64-bit overflow.
  \<^item> \<^verbatim>\<open>Stop\<close> unregisters the service from the network before it takes the lock, so it is two
    steps: \<open>Stop\<close>, the call up to the lock, and \<open>StopLocked\<close>, the rest.  The calls
    of \<^verbatim>\<open>Stop\<close> that are between the two are counted in \<open>ps_stopping\<close>; every other operation
    is one critical section.
  \<^item> The network is a set of connected peers that changes by events, and notifies the
    service, once registered, by a pending notification.
\<close>

section \<open>Service states\<close>

datatype State = StateInit | StateRunning | StateStopped

fun stateNum :: "State \<Rightarrow> nat" where
  "stateNum StateInit = 0"
| "stateNum StateRunning = 1"
| "stateNum StateStopped = 2"

lemma stateNum_inj: "stateNum a = stateNum b \<Longrightarrow> a = b"
  by (cases a; cases b) simp_all

instantiation State :: linorder
begin

definition less_eq_State :: "State \<Rightarrow> State \<Rightarrow> bool" where
  "less_eq_State a b \<longleftrightarrow> stateNum a \<le> stateNum b"

definition less_State :: "State \<Rightarrow> State \<Rightarrow> bool" where
  "less_State a b \<longleftrightarrow> stateNum a < stateNum b"

instance
  by standard (auto simp: less_eq_State_def less_State_def dest: stateNum_inj)

end

fun State_String :: "State \<Rightarrow> string" where
  "State_String StateInit = ''init''"
| "State_String StateRunning = ''running''"
| "State_String StateStopped = ''stopped''"

section \<open>Handlers\<close>

type_synonym peerID = string
type_synonym multiaddr = string

definition second :: int where "second = 1000000000"
definition maxBackoff :: int where "maxBackoff = 600 * second"
definition maxBackoffJitter :: int where "maxBackoffJitter = 10"
definition initialDelay :: int where "initialDelay = 5 * second"

lemmas delay_defs = second_def maxBackoff_def maxBackoffJitter_def initialDelay_def

record peerHandler =
  ph_peer :: peerID
  ph_cancelled :: bool
  ph_addrs :: "multiaddr list"
  ph_timer :: "bool option"
  ph_nextDelay :: int

definition setAddrs :: "multiaddr list \<Rightarrow> peerHandler \<Rightarrow> peerHandler" where
  "setAddrs as ph = ph\<lparr>ph_addrs := as\<rparr>"

definition stop :: "peerHandler \<Rightarrow> peerHandler" where
  "stop ph = ph\<lparr>ph_cancelled := True, ph_timer := None\<rparr>"

definition nextBackoff :: "int \<Rightarrow> int \<Rightarrow> peerHandler \<Rightarrow> peerHandler" where
  "nextBackoff r1 r2 ph =
     (let d = ph_nextDelay ph;
          d1 = (if d < maxBackoff then d + (d div 2 + r1 mod d) else d);
          d2 = (if d1 > maxBackoff
                then maxBackoff - r2 mod (maxBackoff * maxBackoffJitter div 100) else d1)
      in ph\<lparr>ph_nextDelay := d2\<rparr>)"

definition stopIfConnected :: "bool \<Rightarrow> peerHandler \<Rightarrow> peerHandler" where
  "stopIfConnected connected ph =
     (if ph_timer ph \<noteq> None \<and> connected
      then ph\<lparr>ph_timer := None, ph_nextDelay := initialDelay\<rparr> else ph)"

definition startIfDisconnected :: "int \<Rightarrow> int \<Rightarrow> bool \<Rightarrow> peerHandler \<Rightarrow> peerHandler" where
  "startIfDisconnected r1 r2 connected ph =
     (if ph_timer ph = None \<and> \<not> connected
      then (nextBackoff r1 r2 ph)\<lparr>ph_timer := Some True\<rparr> else ph)"

text \<open>The section of \<^verbatim>\<open>reconnect\<close> that runs when \<^verbatim>\<open>Connect\<close> failed.\<close>

definition reconnectFailed :: "int \<Rightarrow> int \<Rightarrow> peerHandler \<Rightarrow> peerHandler" where
  "reconnectFailed r1 r2 ph =
     (if ph_timer ph \<noteq> None then (nextBackoff r1 r2 ph)\<lparr>ph_timer := Some True\<rparr> else ph)"

section \<open>The service and its environment\<close>

datatype task =
    StartIfDisconnected nat
  | StopIfConnected nat
  | Reconnect nat
  | ReconnectError nat
  | NotifyConnected peerID
  | NotifyDisconnected peerID

record PeeringService =
  ps_heap :: "nat \<Rightarrow> peerHandler"
  ps_next :: nat
  ps_peers :: "(peerID \<times> nat) list"
  ps_state :: State
  ps_notifee :: bool
  ps_protected :: "peerID list"
  ps_connected :: "peerID list"
  ps_pending :: "task list"
  ps_stopping :: nat

definition noHandler :: peerHandler where
  "noHandler = \<lparr>ph_peer = [], ph_cancelled = True, ph_addrs = [], ph_timer = None,
                ph_nextDelay = initialDelay\<rparr>"

definition NewPeeringService :: "peerID list \<Rightarrow> PeeringService" where
  "NewPeeringService connected =
     \<lparr>ps_heap = (\<lambda>_. noHandler), ps_next = 0, ps_peers = [], ps_state = StateInit, ps_notifee = False,
      ps_protected = [], ps_connected = connected, ps_pending = [], ps_stopping = 0\<rparr>"

definition spawn :: "task list \<Rightarrow> PeeringService \<Rightarrow> PeeringService" where
  "spawn ts ps = ps\<lparr>ps_pending := ps_pending ps @ ts\<rparr>"

definition modify :: "nat \<Rightarrow> (peerHandler \<Rightarrow> peerHandler) \<Rightarrow> PeeringService \<Rightarrow> PeeringService" where
  "modify h f ps = ps\<lparr>ps_heap := (ps_heap ps)(h := f (ps_heap ps h))\<rparr>"

definition isConnected :: "PeeringService \<Rightarrow> nat \<Rightarrow> bool" where
  "isConnected ps h \<longleftrightarrow> ph_peer (ps_heap ps h) \<in> set (ps_connected ps)"

text \<open>\<^verbatim>\<open>Start\<close> returns an error (\<open>True\<close>) when the service was stopped.\<close>

definition Start :: "PeeringService \<Rightarrow> bool \<times> PeeringService" where
  "Start ps =
     (case ps_state ps of
        StateInit \<Rightarrow> (False, spawn (map (StartIfDisconnected \<circ> snd) (ps_peers ps))
                              (ps\<lparr>ps_notifee := True, ps_state := StateRunning\<rparr>))
      | StateRunning \<Rightarrow> (False, ps)
      | StateStopped \<Rightarrow> (True, ps))"

definition stopAll :: "nat list \<Rightarrow> PeeringService \<Rightarrow> PeeringService" where
  "stopAll hs ps = foldl (\<lambda>q h. modify h stop q) ps hs"

text \<open>
  \<^verbatim>\<open>Stop\<close>: the call of \<^verbatim>\<open>StopNotify\<close>, which needs no lock, and then, with the lock, the
  switch on the state.
\<close>

definition Stop :: "PeeringService \<Rightarrow> PeeringService" where
  "Stop ps = ps\<lparr>ps_notifee := False, ps_stopping := Suc (ps_stopping ps)\<rparr>"

definition StopLocked :: "PeeringService \<Rightarrow> PeeringService" where
  "StopLocked ps =
     (if ps_stopping ps = 0 then ps
      else let ps = ps\<lparr>ps_stopping := ps_stopping ps - 1\<rparr>
        in if ps_state ps = StateStopped then ps
           else (stopAll (map snd (ps_peers ps)) ps)\<lparr>ps_state := StateStopped\<rparr>)"

definition AddPeer :: "peerID \<Rightarrow> multiaddr list \<Rightarrow> PeeringService \<Rightarrow> PeeringService" where
  "AddPeer p as ps =
     (case map_of (ps_peers ps) p of
        Some h \<Rightarrow> modify h (setAddrs as) ps
      | None \<Rightarrow>
          let h = ps_next ps;
              handler = \<lparr>ph_peer = p, ph_cancelled = (ps_state ps = StateStopped), ph_addrs = as,
                         ph_timer = None, ph_nextDelay = initialDelay\<rparr>;
              ps = ps\<lparr>ps_protected := List.insert p (ps_protected ps),
                      ps_heap := (ps_heap ps)(h := handler), ps_next := Suc h,
                      ps_peers := (p, h) # ps_peers ps\<rparr>
          in if ps_state ps = StateRunning then spawn [StartIfDisconnected h] ps else ps)"

definition ListPeers :: "PeeringService \<Rightarrow> (peerID \<times> multiaddr list) list" where
  "ListPeers ps = map (\<lambda>(p, h). (p, ph_addrs (ps_heap ps h))) (ps_peers ps)"

definition RemovePeer :: "peerID \<Rightarrow> PeeringService \<Rightarrow> PeeringService" where
  "RemovePeer p ps =
     (case map_of (ps_peers ps) p of
        Some h \<Rightarrow> (modify h stop (ps\<lparr>ps_protected := removeAll p (ps_protected ps)\<rparr>))
                    \<lparr>ps_peers := filter (\<lambda>e. fst e \<noteq> p) (ps_peers ps)\<rparr>
      | None \<Rightarrow> ps)"

text \<open>The notifications \<^verbatim>\<open>Connected\<close> and \<^verbatim>\<open>Disconnected\<close> of \<^verbatim>\<open>netNotifee\<close>.\<close>

definition Connected :: "peerID \<Rightarrow> PeeringService \<Rightarrow> PeeringService" where
  "Connected p ps =
     (case map_of (ps_peers ps) p of Some h \<Rightarrow> spawn [StopIfConnected h] ps | None \<Rightarrow> ps)"

definition Disconnected :: "peerID \<Rightarrow> PeeringService \<Rightarrow> PeeringService" where
  "Disconnected p ps =
     (case map_of (ps_peers ps) p of Some h \<Rightarrow> spawn [StartIfDisconnected h] ps | None \<Rightarrow> ps)"

definition netConnect :: "peerID \<Rightarrow> PeeringService \<Rightarrow> PeeringService" where
  "netConnect p ps =
     spawn (if ps_notifee ps then [NotifyConnected p] else [])
       (ps\<lparr>ps_connected := List.insert p (ps_connected ps)\<rparr>)"

definition netDisconnect :: "peerID \<Rightarrow> PeeringService \<Rightarrow> PeeringService" where
  "netDisconnect p ps =
     spawn (if ps_notifee ps then [NotifyDisconnected p] else [])
       (ps\<lparr>ps_connected := removeAll p (ps_connected ps)\<rparr>)"

text \<open>
  Running a task.  \<open>ok\<close> is the outcome of \<^verbatim>\<open>Connect\<close>, which always fails on a cancelled
  context.
\<close>

fun runTask :: "int \<Rightarrow> int \<Rightarrow> bool \<Rightarrow> task \<Rightarrow> PeeringService \<Rightarrow> PeeringService" where
  "runTask r1 r2 ok (StartIfDisconnected h) ps =
     modify h (startIfDisconnected r1 r2 (isConnected ps h)) ps"
| "runTask r1 r2 ok (StopIfConnected h) ps = modify h (stopIfConnected (isConnected ps h)) ps"
| "runTask r1 r2 ok (Reconnect h) ps =
     (if ok \<and> \<not> ph_cancelled (ps_heap ps h)
      then spawn [StopIfConnected h] (netConnect (ph_peer (ps_heap ps h)) ps)
      else spawn [ReconnectError h] ps)"
| "runTask r1 r2 ok (ReconnectError h) ps =
     spawn [StopIfConnected h] (modify h (reconnectFailed r1 r2) ps)"
| "runTask r1 r2 ok (NotifyConnected p) ps = Connected p ps"
| "runTask r1 r2 ok (NotifyDisconnected p) ps = Disconnected p ps"

datatype event =
    CallStart
  | CallStop
  | StopGetsLock
  | CallAddPeer peerID "multiaddr list"
  | CallRemovePeer peerID
  | Run task int int bool
  | TimerFires nat
  | NetConnect peerID
  | NetDisconnect peerID

fun peeringStep :: "PeeringService \<Rightarrow> event \<Rightarrow> PeeringService" where
  "peeringStep ps CallStart = snd (Start ps)"
| "peeringStep ps CallStop = Stop ps"
| "peeringStep ps StopGetsLock = StopLocked ps"
| "peeringStep ps (CallAddPeer p as) = AddPeer p as ps"
| "peeringStep ps (CallRemovePeer p) = RemovePeer p ps"
| "peeringStep ps (Run t r1 r2 ok) =
     (if t \<in> set (ps_pending ps)
      then runTask r1 r2 ok t (ps\<lparr>ps_pending := remove1 t (ps_pending ps)\<rparr>) else ps)"
| "peeringStep ps (TimerFires h) =
     (if ph_timer (ps_heap ps h) = Some True
      then spawn [Reconnect h] (modify h (\<lambda>ph. ph\<lparr>ph_timer := Some False\<rparr>) ps) else ps)"
| "peeringStep ps (NetConnect p) = netConnect p ps"
| "peeringStep ps (NetDisconnect p) = netDisconnect p ps"

lemmas peering_defs = Start_def Stop_def StopLocked_def AddPeer_def RemovePeer_def Connected_def Disconnected_def
  netConnect_def netDisconnect_def spawn_def modify_def setAddrs_def stop_def
  stopIfConnected_def startIfDisconnected_def reconnectFailed_def

end
