(* ===== verification/PeeringProps.thy ===== *)
theory PeeringProps
  imports Peering
begin

text \<open>
  Properties of the peering service over every sequence of calls, timer expirations,
  network events and scheduler choices: bounds of the back-off, consistency of the
  service's tables, its life cycle, that a disconnected peer is always taken care of, and
  runs that go wrong: two in which a peer is not taken care of, and one in which a stopped
  service stays registered with the network.
\<close>

section \<open>The invariant\<close>

definition delayOk :: "peerHandler \<Rightarrow> bool" where
  "delayOk ph \<longleftrightarrow> initialDelay \<le> ph_nextDelay ph \<and> ph_nextDelay ph \<le> maxBackoff"

definition tableOk :: "PeeringService \<Rightarrow> bool" where
  "tableOk ps \<longleftrightarrow> distinct (map fst (ps_peers ps))
     \<and> (\<forall>p h. (p, h) \<in> set (ps_peers ps) \<longrightarrow> h < ps_next ps \<and> ph_peer (ps_heap ps h) = p)
     \<and> set (ps_protected ps) = fst ` set (ps_peers ps)"

definition lifeOk :: "PeeringService \<Rightarrow> bool" where
  "lifeOk ps \<longleftrightarrow> (ps_state ps = StateRunning \<longrightarrow> ps_notifee ps \<or> 0 < ps_stopping ps)
     \<and> (ps_notifee ps \<longrightarrow> ps_state ps \<noteq> StateInit)
     \<and> (ps_state ps = StateStopped \<longrightarrow> (\<forall>p h. (p, h) \<in> set (ps_peers ps) \<longrightarrow> ph_cancelled (ps_heap ps h)))"

definition scheduled :: "PeeringService \<Rightarrow> bool" where
  "scheduled ps \<longleftrightarrow> (ps_state ps = StateRunning \<and> ps_stopping ps = 0 \<longrightarrow>
     (\<forall>p h. (p, h) \<in> set (ps_peers ps) \<longrightarrow> p \<notin> set (ps_connected ps) \<longrightarrow>
        ph_timer (ps_heap ps h) \<noteq> None \<or> StartIfDisconnected h \<in> set (ps_pending ps)
        \<or> NotifyDisconnected p \<in> set (ps_pending ps)))"

definition peeringInv :: "PeeringService \<Rightarrow> bool" where
  "peeringInv ps \<longleftrightarrow> (\<forall>h. delayOk (ps_heap ps h)) \<and> tableOk ps \<and> lifeOk ps \<and> scheduled ps"

lemma peeringInv_new: "peeringInv (NewPeeringService cs)"
  by (simp add: peeringInv_def NewPeeringService_def delayOk_def tableOk_def lifeOk_def scheduled_def
      noHandler_def delay_defs)

text \<open>Delays.\<close>

lemma delayOk_nextBackoff: "delayOk ph \<Longrightarrow> delayOk (nextBackoff r1 r2 ph)"
proof -
  assume a: "delayOk ph"
  then have d: "0 < ph_nextDelay ph" by (simp add: delayOk_def delay_defs)
  have r: "0 \<le> r1 mod ph_nextDelay ph" and zq: "0 \<le> ph_nextDelay ph div 2"
    using d by (simp_all add: pos_imp_zdiv_nonneg_iff)
  have "\<exists>x\<ge>0. ph_nextDelay ph div 2 + r1 mod ph_nextDelay ph = x"
    using r zq by simp
  then obtain x where x: "0 \<le> x" "ph_nextDelay ph div 2 + r1 mod ph_nextDelay ph = x" by blast
  have "0 < maxBackoff * maxBackoffJitter div 100" by (simp add: delay_defs)
  then obtain y where y: "0 \<le> y" "y < maxBackoff * maxBackoffJitter div 100"
      "r2 mod (maxBackoff * maxBackoffJitter div 100) = y"
    using pos_mod_sign pos_mod_bound by blast
  have "ph_nextDelay (nextBackoff r1 r2 ph) =
     (let d1 = (if ph_nextDelay ph < maxBackoff then ph_nextDelay ph + x else ph_nextDelay ph)
      in if d1 > maxBackoff then maxBackoff - y else d1)"
    unfolding nextBackoff_def Let_def x(2) y(3) by simp
  then show ?thesis
    using a x(1) y(1,2) by (auto simp: Let_def delayOk_def delay_defs)
qed

lemma delayOk_ops:
  "delayOk ph \<Longrightarrow> delayOk (setAddrs as ph)"
  "delayOk ph \<Longrightarrow> delayOk (stop ph)"
  "delayOk ph \<Longrightarrow> delayOk (stopIfConnected c ph)"
  "delayOk ph \<Longrightarrow> delayOk (startIfDisconnected r1 r2 c ph)"
  "delayOk ph \<Longrightarrow> delayOk (reconnectFailed r1 r2 ph)"
  "delayOk ph \<Longrightarrow> delayOk (ph\<lparr>ph_timer := t\<rparr>)"
  using delayOk_nextBackoff [of ph r1 r2]
  by (auto simp: setAddrs_def stop_def stopIfConnected_def startIfDisconnected_def reconnectFailed_def
      delayOk_def delay_defs)

text \<open>No operation on a handler changes whose handler it is, and none revives a context.\<close>

lemma ph_peer_ops [simp]:
  "ph_peer (setAddrs as ph) = ph_peer ph" "ph_peer (stop ph) = ph_peer ph"
  "ph_peer (stopIfConnected c ph) = ph_peer ph" "ph_peer (nextBackoff r1 r2 ph) = ph_peer ph"
  "ph_peer (startIfDisconnected r1 r2 c ph) = ph_peer ph"
  "ph_peer (reconnectFailed r1 r2 ph) = ph_peer ph"
  by (simp_all add: setAddrs_def stop_def stopIfConnected_def startIfDisconnected_def
      reconnectFailed_def nextBackoff_def Let_def)

lemma ph_cancelled_ops [simp]:
  "ph_cancelled (setAddrs as ph) = ph_cancelled ph" "ph_cancelled (stop ph)"
  "ph_cancelled (stopIfConnected c ph) = ph_cancelled ph"
  "ph_cancelled (nextBackoff r1 r2 ph) = ph_cancelled ph"
  "ph_cancelled (startIfDisconnected r1 r2 c ph) = ph_cancelled ph"
  "ph_cancelled (reconnectFailed r1 r2 ph) = ph_cancelled ph"
  by (simp_all add: setAddrs_def stop_def stopIfConnected_def startIfDisconnected_def
      reconnectFailed_def nextBackoff_def Let_def)

lemma ph_timer_ops [simp]:
  "ph_timer (setAddrs as ph) = ph_timer ph" "ph_timer (stop ph) = None"
  "ph_timer (stopIfConnected c ph) = (if c then None else ph_timer ph)"
  "ph_timer (startIfDisconnected r1 r2 c ph) =
     (if ph_timer ph = None \<and> \<not> c then Some True else ph_timer ph)"
  "ph_timer (reconnectFailed r1 r2 ph) = (if ph_timer ph = None then None else Some True)"
  by (simp_all add: setAddrs_def stop_def stopIfConnected_def startIfDisconnected_def
      reconnectFailed_def)

lemma stopAll_eq:
  "stopAll hs ps = ps\<lparr>ps_heap := (\<lambda>h. if h \<in> set hs then stop (ps_heap ps h) else ps_heap ps h)\<rparr>"
proof (induction hs arbitrary: ps)
  case (Cons h hs)
  have "stop (stop x) = stop x" for x by (simp add: stop_def)
  then show ?case
    using Cons.IH [of "modify h stop ps"]
    by (auto simp: stopAll_def modify_def fun_eq_iff intro!: PeeringService.equality)
qed (simp add: stopAll_def)

section \<open>Every event keeps it\<close>

lemma map_of_entry: "map_of (ps_peers ps) p = Some h \<Longrightarrow> (p, h) \<in> set (ps_peers ps)"
  by (rule map_of_SomeD)

lemma tableOk_entries:
  "tableOk ps \<Longrightarrow> (p, h) \<in> set (ps_peers ps) \<Longrightarrow> (q, h) \<in> set (ps_peers ps) \<Longrightarrow> p = q"
  unfolding tableOk_def by blast

lemma inv_modify:
  assumes "peeringInv ps"
    and "delayOk (ps_heap ps h) \<Longrightarrow> delayOk (f (ps_heap ps h))"
    and "ph_peer (f (ps_heap ps h)) = ph_peer (ps_heap ps h)"
    and "ph_cancelled (ps_heap ps h) \<Longrightarrow> ph_cancelled (f (ps_heap ps h))"
    and "ph_timer (f (ps_heap ps h)) = None \<Longrightarrow> ph_timer (ps_heap ps h) \<noteq> None \<Longrightarrow> isConnected ps h"
  shows "peeringInv (modify h f ps)"
proof -
  have a: "\<forall>h. delayOk (ps_heap ps h)" and t: "tableOk ps" and l: "lifeOk ps" and s: "scheduled ps"
    using assms(1) by (simp_all add: peeringInv_def)
  have "\<forall>g. delayOk (ps_heap (modify h f ps) g)"
    using a assms(2) by (simp add: modify_def)
  moreover have "tableOk (modify h f ps)"
    using t assms(3) unfolding tableOk_def modify_def by auto
  moreover have "lifeOk (modify h f ps)"
    using l assms(4) unfolding lifeOk_def modify_def by auto
  moreover have "scheduled (modify h f ps)"
    unfolding scheduled_def
  proof (intro impI allI)
    fix p g
    assume run: "ps_state (modify h f ps) = StateRunning \<and> ps_stopping (modify h f ps) = 0" and e: "(p, g) \<in> set (ps_peers (modify h f ps))"
      and n: "p \<notin> set (ps_connected (modify h f ps))"
    have p: "ph_peer (ps_heap ps g) = p"
      using t e by (simp add: tableOk_def modify_def)
    have "ph_timer (ps_heap ps g) \<noteq> None \<or> StartIfDisconnected g \<in> set (ps_pending ps)
        \<or> NotifyDisconnected p \<in> set (ps_pending ps)"
      using s run e n by (simp add: scheduled_def modify_def)
    then show "ph_timer (ps_heap (modify h f ps) g) \<noteq> None
        \<or> StartIfDisconnected g \<in> set (ps_pending (modify h f ps))
        \<or> NotifyDisconnected p \<in> set (ps_pending (modify h f ps))"
      using assms(5) p n by (auto simp: modify_def isConnected_def)
  qed
  ultimately show ?thesis by (simp add: peeringInv_def)
qed

lemma inv_spawn: "peeringInv ps \<Longrightarrow> peeringInv (spawn ts ps)"
  unfolding peeringInv_def spawn_def tableOk_def lifeOk_def scheduled_def by simp blast

lemma inv_Start: "peeringInv ps \<Longrightarrow> peeringInv (snd (Start ps))"
proof (cases "ps_state ps")
  case StateInit
  assume "peeringInv ps"
  moreover have "\<And>p h. (p, h) \<in> set (ps_peers ps) \<Longrightarrow>
      StartIfDisconnected h \<in> (\<lambda>x. StartIfDisconnected (snd x)) ` set (ps_peers ps)"
    by (metis image_eqI snd_conv)
  ultimately show ?thesis
    using StateInit
    by (simp add: Start_def spawn_def peeringInv_def tableOk_def lifeOk_def scheduled_def image_image
        image_comp [symmetric])
qed (simp_all add: Start_def)

lemma in_snd_image: "(p, h) \<in> A \<Longrightarrow> h \<in> snd ` A"
  by (metis image_eqI snd_conv)

lemma inv_Stop: "peeringInv ps \<Longrightarrow> peeringInv (Stop ps)"
  by (simp add: Stop_def peeringInv_def tableOk_def lifeOk_def scheduled_def)

lemma inv_StopLocked: "peeringInv ps \<Longrightarrow> peeringInv (StopLocked ps)"
  by (auto dest: in_snd_image simp: StopLocked_def stopAll_eq peeringInv_def tableOk_def lifeOk_def
      scheduled_def delayOk_ops Let_def)

lemma inv_AddPeer: "peeringInv ps \<Longrightarrow> peeringInv (AddPeer p as ps)"
proof (cases "map_of (ps_peers ps) p")
  case (Some h)
  then show "peeringInv ps \<Longrightarrow> ?thesis"
    by (auto simp: AddPeer_def intro!: inv_modify delayOk_ops)
next
  case None
  assume inv: "peeringInv ps"
  let ?h = "ps_next ps"
  have new: "p \<notin> fst ` set (ps_peers ps)" using None by (simp add: map_of_eq_None_iff)
  have fresh: "(q, ?h) \<notin> set (ps_peers ps)" for q
    using inv by (auto simp: peeringInv_def tableOk_def)
  have old: "h < Suc ?h \<and> h \<noteq> ?h \<and> ph_peer (ps_heap ps h) = q" if "(q, h) \<in> set (ps_peers ps)" for q h
    using inv that by (fastforce simp: peeringInv_def tableOk_def)
  have d: "delayOk \<lparr>ph_peer = p, ph_cancelled = c, ph_addrs = as, ph_timer = None, ph_nextDelay = initialDelay\<rparr>" for c
    by (simp add: delayOk_def delay_defs)
  from inv have "\<forall>h. delayOk (ps_heap (AddPeer p as ps) h)"
    using None d by (simp add: AddPeer_def Let_def spawn_def peeringInv_def)
  moreover from inv have "tableOk (AddPeer p as ps)"
    using None new old by (auto simp: AddPeer_def Let_def spawn_def peeringInv_def tableOk_def)
  moreover from inv have "lifeOk (AddPeer p as ps)"
    using None old by (auto simp: AddPeer_def Let_def spawn_def peeringInv_def lifeOk_def)
  moreover from inv have "scheduled (AddPeer p as ps)"
    using None old by (auto simp: AddPeer_def Let_def spawn_def peeringInv_def scheduled_def)
  ultimately show ?thesis by (simp add: peeringInv_def)
qed

lemma inv_RemovePeer: "peeringInv ps \<Longrightarrow> peeringInv (RemovePeer p ps)"
proof (cases "map_of (ps_peers ps) p")
  case (Some h)
  assume inv: "peeringInv ps"
  have other: "g \<noteq> h" if "(q, g) \<in> set (ps_peers ps)" "q \<noteq> p" for q g
    using inv that tableOk_entries [of ps q g p] map_of_entry [OF Some] by (auto simp: peeringInv_def)
  from inv have "\<forall>g. delayOk (ps_heap (RemovePeer p ps) g)"
    using Some by (simp add: RemovePeer_def modify_def peeringInv_def delayOk_ops)
  moreover from inv have "tableOk (RemovePeer p ps)"
    using Some other
    by (auto simp: RemovePeer_def modify_def peeringInv_def tableOk_def distinct_map_filter)
  moreover from inv have "lifeOk (RemovePeer p ps)"
    using Some other by (auto simp: RemovePeer_def modify_def peeringInv_def lifeOk_def)
  moreover from inv have "scheduled (RemovePeer p ps)"
    using Some other by (auto simp: RemovePeer_def modify_def peeringInv_def scheduled_def)
  ultimately show ?thesis by (simp add: peeringInv_def)
qed (simp add: RemovePeer_def)

lemma inv_net:
  "peeringInv ps \<Longrightarrow> peeringInv (netConnect p ps)"
  "peeringInv ps \<Longrightarrow> peeringInv (netDisconnect p ps)"
  by (fastforce simp: netConnect_def netDisconnect_def spawn_def peeringInv_def tableOk_def lifeOk_def
      scheduled_def)+

text \<open>
  Taking a task out of the pending list breaks at most \<open>scheduled\<close>, which running the
  task restores.
\<close>

lemma in_remove1: "x \<noteq> t \<Longrightarrow> x \<in> set (remove1 t ts) \<longleftrightarrow> x \<in> set ts"
  by (simp add: in_set_remove1)

lemma inv_remove_task:
  assumes "peeringInv ps" and "\<forall>h. t \<noteq> StartIfDisconnected h" and "\<forall>p. t \<noteq> NotifyDisconnected p"
  shows "peeringInv (ps\<lparr>ps_pending := remove1 t (ps_pending ps)\<rparr>)"
proof -
  have "StartIfDisconnected h \<in> set (remove1 t ts) \<longleftrightarrow> StartIfDisconnected h \<in> set ts"
    and "NotifyDisconnected p \<in> set (remove1 t ts) \<longleftrightarrow> NotifyDisconnected p \<in> set ts" for h p ts
    using assms by (metis in_remove1)+
  with assms(1) show ?thesis
    by (simp add: peeringInv_def tableOk_def lifeOk_def scheduled_def)
qed

lemma inv_run_start:
  assumes "peeringInv ps"
  shows "peeringInv (runTask r1 r2 ok (StartIfDisconnected h)
    (ps\<lparr>ps_pending := remove1 (StartIfDisconnected h) (ps_pending ps)\<rparr>))" (is "peeringInv ?q")
proof -
  have a: "\<forall>h. delayOk (ps_heap ps h)" and t: "tableOk ps" and l: "lifeOk ps" and s: "scheduled ps"
    using assms by (simp_all add: peeringInv_def)
  have "\<forall>h. delayOk (ps_heap ?q h)"
    using a by (simp add: modify_def delayOk_ops)
  moreover have "tableOk ?q" and "lifeOk ?q"
    using t l by (auto simp: modify_def tableOk_def lifeOk_def)
  moreover have "scheduled ?q"
    using s t by (fastforce simp: scheduled_def modify_def isConnected_def tableOk_def in_set_remove1)
  ultimately show ?thesis by (simp add: peeringInv_def)
qed

lemma inv_run_disconnected:
  assumes "peeringInv ps"
  shows "peeringInv (runTask r1 r2 ok (NotifyDisconnected p)
    (ps\<lparr>ps_pending := remove1 (NotifyDisconnected p) (ps_pending ps)\<rparr>))" (is "peeringInv ?q")
proof -
  have a: "\<forall>h. delayOk (ps_heap ps h)" and t: "tableOk ps" and l: "lifeOk ps" and s: "scheduled ps"
    using assms by (simp_all add: peeringInv_def)
  have m: "map_of (ps_peers ps) p = Some h" if "(p, h) \<in> set (ps_peers ps)" for h
    using t that by (simp add: tableOk_def)
  have n: "NotifyDisconnected q \<in> set (remove1 (NotifyDisconnected p) ts) \<or> q = p"
    if "NotifyDisconnected q \<in> set ts" for q ts
    using that by (metis in_remove1 task.inject(6))
  have "\<forall>h. delayOk (ps_heap ?q h)" and "tableOk ?q" and "lifeOk ?q"
    using a t l by (auto simp: Disconnected_def spawn_def tableOk_def lifeOk_def split: option.splits)
  moreover have "scheduled ?q"
    using s m n
    by (fastforce simp: Disconnected_def spawn_def scheduled_def in_set_remove1 split: option.splits)
  ultimately show ?thesis by (simp add: peeringInv_def)
qed

lemma inv_runTask:
  assumes "peeringInv ps"
  shows "peeringInv (runTask r1 r2 ok t (ps\<lparr>ps_pending := remove1 t (ps_pending ps)\<rparr>))"
proof (cases t)
  case (StartIfDisconnected h)
  then show ?thesis using inv_run_start [OF assms] by simp
next
  case (NotifyDisconnected p)
  then show ?thesis using inv_run_disconnected [OF assms] by simp
next
  case (StopIfConnected h)
  then show ?thesis
    using inv_remove_task [OF assms, of t]
    by (auto intro!: inv_modify delayOk_ops simp: isConnected_def split: if_splits)
next
  case (Reconnect h)
  then show ?thesis
    using inv_remove_task [OF assms, of t] by (auto intro!: inv_spawn inv_net)
next
  case (ReconnectError h)
  then show ?thesis
    using inv_remove_task [OF assms, of t]
    by (auto intro!: inv_spawn inv_modify delayOk_ops split: if_splits)
next
  case (NotifyConnected p)
  then show ?thesis
    using inv_remove_task [OF assms, of t]
    by (auto simp: Connected_def split: option.splits intro!: inv_spawn)
qed

lemma inv_step: "peeringInv ps \<Longrightarrow> peeringInv (peeringStep ps e)"
proof (cases e)
  case (TimerFires h)
  assume "peeringInv ps"
  then have "peeringInv (modify h (\<lambda>ph. ph\<lparr>ph_timer := Some False\<rparr>) ps)"
    by (rule inv_modify) (simp_all add: delayOk_ops)
  with TimerFires \<open>peeringInv ps\<close> show ?thesis by (simp add: inv_spawn)
qed (simp_all add: inv_Start inv_Stop inv_StopLocked inv_AddPeer inv_RemovePeer inv_net inv_runTask)

interpretation peering: guarded_machine peeringStep peeringInv
  by unfold_locales (rule inv_step)

definition peeringRun :: "peerID list \<Rightarrow> event list \<Rightarrow> PeeringService" where
  "peeringRun connected es = foldl peeringStep (NewPeeringService connected) es"

lemma peeringRun_inv: "peeringInv (peeringRun cs es)"
  unfolding peeringRun_def by (rule peering.run_inv) (rule peeringInv_new)

section \<open>The registration\<close>

text \<open>Only \<^verbatim>\<open>Start\<close> registers the service, and only \<^verbatim>\<open>Stop\<close> unregisters it.\<close>

lemma ps_notifee_frame [simp]:
  "ps_notifee (modify h f ps) = ps_notifee ps" "ps_notifee (spawn ts ps) = ps_notifee ps"
  "ps_notifee (netConnect p ps) = ps_notifee ps" "ps_notifee (netDisconnect p ps) = ps_notifee ps"
  "ps_notifee (AddPeer p as ps) = ps_notifee ps" "ps_notifee (RemovePeer p ps) = ps_notifee ps"
  "ps_notifee (Connected p ps) = ps_notifee ps" "ps_notifee (Disconnected p ps) = ps_notifee ps"
  "ps_notifee (StopLocked ps) = ps_notifee ps"
  by (simp_all add: modify_def spawn_def netConnect_def netDisconnect_def AddPeer_def RemovePeer_def
      Connected_def Disconnected_def StopLocked_def stopAll_eq Let_def split: option.splits)

lemma ps_notifee_runTask [simp]: "ps_notifee (runTask r1 r2 ok t ps) = ps_notifee ps"
  by (cases t) simp_all

lemma ps_notifee_step:
  "e \<noteq> CallStart \<Longrightarrow> ps_notifee (peeringStep ps e) \<Longrightarrow> ps_notifee ps"
  "e \<noteq> CallStop \<Longrightarrow> ps_notifee ps \<Longrightarrow> ps_notifee (peeringStep ps e)"
  by (cases e; simp add: Stop_def Start_def split: State.splits if_splits)+

lemma unregistered_until_start:
  "CallStart \<notin> set fs \<Longrightarrow> \<not> ps_notifee ps \<Longrightarrow> \<not> ps_notifee (foldl peeringStep ps fs)"
proof (induction fs arbitrary: ps)
  case (Cons e fs)
  have "\<not> ps_notifee (peeringStep ps e)"
    using ps_notifee_step(1) [of e ps] Cons.prems by auto
  then show ?case using Cons.IH Cons.prems(1) by simp
qed simp

lemma registered_until_stop:
  "CallStop \<notin> set fs \<Longrightarrow> ps_notifee ps \<Longrightarrow> ps_notifee (foldl peeringStep ps fs)"
proof (induction fs arbitrary: ps)
  case (Cons e fs)
  have "ps_notifee (peeringStep ps e)"
    using ps_notifee_step(2) [of e ps] Cons.prems by auto
  then show ?case using Cons.IH Cons.prems(1) by simp
qed simp

section \<open>Properties\<close>

text \<open>
  The back-off stays within its limits in every run: each handler's next delay is between
  5 seconds and 10 minutes, a computed delay is again, it grows by at least half until it
  is capped, a capped delay is more than 90 percent of the maximum, and no intermediate
  value leaves the range of a 64-bit signed integer (nor is \<^verbatim>\<open>rand.Int63n\<close> ever called
  with a non-positive bound).
\<close>

theorem backoff_within_limits:
  "\<forall>h. let ph = ps_heap (peeringRun cs es) h; d = ph_nextDelay ph;
          d' = ph_nextDelay (nextBackoff r1 r2 ph)
      in initialDelay \<le> d \<and> d \<le> maxBackoff \<and> initialDelay \<le> d' \<and> d' \<le> maxBackoff
         \<and> (d + d div 2 \<le> d' \<or> 9 * maxBackoff < 10 * d' \<or> d = maxBackoff)
         \<and> d + (d div 2 + r1 mod d) < 2 ^ 63"
proof (intro allI)
  fix h
  let ?ph = "ps_heap (peeringRun cs es) h"
  let ?d = "ph_nextDelay ?ph"
  have ok: "delayOk ?ph"
    using peeringRun_inv [of cs es] by (simp add: peeringInv_def)
  then have ok': "delayOk (nextBackoff r1 r2 ?ph)" by (rule delayOk_nextBackoff)
  have d: "5 * second \<le> ?d" "?d \<le> 600 * second" "0 < ?d"
    using ok by (simp_all add: delayOk_def delay_defs)
  have r: "0 \<le> r1 mod ?d" "r1 mod ?d < ?d" "0 \<le> r2 mod (60 * second)" "r2 mod (60 * second) < 60 * second"
    using d by (simp_all add: second_def)
  have eq: "ph_nextDelay (nextBackoff r1 r2 ?ph) =
     (let d1 = (if ?d < 600 * second then ?d + (?d div 2 + r1 mod ?d) else ?d)
      in if d1 > 600 * second then 600 * second - r2 mod (60 * second) else d1)"
    by (simp add: nextBackoff_def Let_def maxBackoff_def maxBackoffJitter_def second_def)
  have "?d + ?d div 2 \<le> ph_nextDelay (nextBackoff r1 r2 ?ph)
      \<or> 9 * maxBackoff < 10 * ph_nextDelay (nextBackoff r1 r2 ?ph) \<or> ?d = maxBackoff"
    unfolding eq maxBackoff_def using d(2) r by (simp add: Let_def)
  moreover have "?d + (?d div 2 + r1 mod ?d) < 2 ^ 63"
  proof -
    have "?d div 2 \<le> ?d" using d(3) by linarith
    then have "?d + (?d div 2 + r1 mod ?d) < 3 * (600 * second)" using d(2) r(2) by linarith
    also have "\<dots> < 2 ^ 63" by (simp add: second_def)
    finally show ?thesis .
  qed
  ultimately show "let ph = ?ph; d = ph_nextDelay ph; d' = ph_nextDelay (nextBackoff r1 r2 ph)
      in initialDelay \<le> d \<and> d \<le> maxBackoff \<and> initialDelay \<le> d' \<and> d' \<le> maxBackoff
         \<and> (d + d div 2 \<le> d' \<or> 9 * maxBackoff < 10 * d' \<or> d = maxBackoff)
         \<and> d + (d div 2 + r1 mod d) < 2 ^ 63"
    using ok ok' by (simp add: Let_def delayOk_def)
qed

text \<open>
  C29. The service's tables agree in every run: the peers protected in the connection manager
  are exactly the peers of the map, each mapped handler is its peer's, and after it was
  stopped every handler of the map has a cancelled context.  As to the network's
  notifications: a service that runs is registered unless a \<^verbatim>\<open>Stop\<close> has begun and still
  waits for the lock, one that was never started is not registered, and once a \<^verbatim>\<open>Stop\<close> has
  begun and \<^verbatim>\<open>Start\<close> is not called any more it is not registered again.  That a stopped
  service is not registered is not true in every run: see
  \<open>stopped_service_stays_registered\<close>.
\<close>

theorem peering_tables_agree:
  "set (ps_protected (peeringRun cs es)) = fst ` set (ps_peers (peeringRun cs es))
   \<and> map fst (ListPeers (peeringRun cs es)) = map fst (ps_peers (peeringRun cs es))
   \<and> distinct (map fst (ListPeers (peeringRun cs es)))
   \<and> (\<forall>(p, h) \<in> set (ps_peers (peeringRun cs es)). ph_peer (ps_heap (peeringRun cs es) h) = p)
   \<and> (ps_state (peeringRun cs es) = StateStopped \<longrightarrow>
       (\<forall>(p, h) \<in> set (ps_peers (peeringRun cs es)). ph_cancelled (ps_heap (peeringRun cs es) h)))
   \<and> (ps_state (peeringRun cs es) = StateRunning \<longrightarrow>
       ps_notifee (peeringRun cs es) \<or> 0 < ps_stopping (peeringRun cs es))
   \<and> (ps_notifee (peeringRun cs es) \<longrightarrow> ps_state (peeringRun cs es) \<noteq> StateInit)
   \<and> (CallStart \<notin> set fs \<longrightarrow> \<not> ps_notifee (peeringRun cs (es @ CallStop # fs)))"
proof -
  have "\<not> ps_notifee (peeringRun cs (es @ CallStop # fs))" if "CallStart \<notin> set fs"
    using unregistered_until_start [OF that] by (simp add: peeringRun_def Stop_def)
  moreover
  have "map fst (ListPeers ps) = map fst (ps_peers ps)" for ps
    by (simp add: ListPeers_def split_beta comp_def)
  ultimately show ?thesis
    using peeringRun_inv [of cs es] by (auto simp: peeringInv_def tableOk_def lifeOk_def)
qed

theorem peering_tables_agree_witness:
  "set (ps_protected (peeringRun [] [CallAddPeer ''p'' [''a''], CallStart])) = {''p''} \<and>
   ps_notifee (peeringRun [] [CallAddPeer ''p'' [''a''], CallStart]) \<and>
   \<not> ps_notifee (peeringRun [] ([CallAddPeer ''p'' [''a''], CallStart] @ CallStop # [StopGetsLock]))"
proof -
  have "ps_state (peeringRun [] [CallAddPeer ''p'' [''a''], CallStart]) = StateRunning"
    and "ps_peers (peeringRun [] [CallAddPeer ''p'' [''a''], CallStart]) = [(''p'', 0)]"
    and "ps_stopping (peeringRun [] [CallAddPeer ''p'' [''a''], CallStart]) = 0"
    by (simp_all add: peeringRun_def NewPeeringService_def peering_defs)
  then show ?thesis
    using peering_tables_agree [of "[]" "[CallAddPeer ''p'' [''a''], CallStart]" "[StopGetsLock]"]
    by simp
qed

text \<open>
  A stopped service can stay registered with the network: when \<^verbatim>\<open>Start\<close> runs between the
  \<^verbatim>\<open>StopNotify\<close> of a \<^verbatim>\<open>Stop\<close> and its locked part, the service ends stopped and
  registered, and no event other than another \<^verbatim>\<open>Stop\<close> unregisters it.
\<close>

definition stopRace :: "event list" where
  "stopRace = [CallAddPeer ''p'' [''a''], CallStop, CallStart, StopGetsLock]"

theorem stopped_service_stays_registered:
  "ps_state (peeringRun [] stopRace) = StateStopped \<and> ps_stopping (peeringRun [] stopRace) = 0
   \<and> ps_notifee (peeringRun [] stopRace)
   \<and> (CallStop \<notin> set fs \<longrightarrow> ps_notifee (peeringRun [] (stopRace @ fs)))"
proof -
  have r: "ps_state (peeringRun [] stopRace) = StateStopped" "ps_stopping (peeringRun [] stopRace) = 0"
    "ps_notifee (peeringRun [] stopRace)"
    by (simp_all add: peeringRun_def stopRace_def NewPeeringService_def peering_defs stopAll_def Let_def)
  moreover have "ps_notifee (peeringRun [] (stopRace @ fs))" if "CallStop \<notin> set fs"
    using registered_until_stop [OF that] r by (simp add: peeringRun_def)
  ultimately show ?thesis by blast
qed

text \<open>
  The life cycle only goes forward: no event moves the service back from running or
  stopped, and once it is stopped \<^verbatim>\<open>Start\<close> fails, leaves everything as it is, and the
  service stays stopped whatever follows.
\<close>

lemma ps_state_frame [simp]:
  "ps_state (modify h f ps) = ps_state ps" "ps_state (spawn ts ps) = ps_state ps"
  "ps_state (netConnect p ps) = ps_state ps" "ps_state (netDisconnect p ps) = ps_state ps"
  "ps_state (AddPeer p as ps) = ps_state ps" "ps_state (RemovePeer p ps) = ps_state ps"
  "ps_state (Connected p ps) = ps_state ps" "ps_state (Disconnected p ps) = ps_state ps"
  by (simp_all add: modify_def spawn_def netConnect_def netDisconnect_def AddPeer_def RemovePeer_def
      Connected_def Disconnected_def Let_def split: option.splits)

lemma ps_state_runTask [simp]: "ps_state (runTask r1 r2 ok t ps) = ps_state ps"
  by (cases t) simp_all

lemma ps_state_step_mono: "ps_state ps \<le> ps_state (peeringStep ps e)"
  by (cases e; cases "ps_state ps")
    (simp_all add: Start_def Stop_def StopLocked_def stopAll_eq less_eq_State_def Let_def)

lemma ps_state_run_mono: "ps_state ps \<le> ps_state (foldl peeringStep ps es)"
  by (induction es arbitrary: ps) (auto intro: order_trans ps_state_step_mono)

theorem peering_lifecycle_forward:
  "ps_state (peeringRun cs es) \<le> ps_state (peeringRun cs (es @ fs))
   \<and> (ps_state (peeringRun cs es) = StateStopped \<longrightarrow>
        ps_state (peeringRun cs (es @ fs)) = StateStopped
        \<and> Start (peeringRun cs (es @ fs)) = (True, peeringRun cs (es @ fs)))"
proof -
  have mono: "ps_state (peeringRun cs es) \<le> ps_state (peeringRun cs (es @ fs))"
    by (simp add: peeringRun_def ps_state_run_mono)
  moreover have "ps_state (peeringRun cs (es @ fs)) = StateStopped"
    if "ps_state (peeringRun cs es) = StateStopped"
    using mono that by (cases "ps_state (peeringRun cs (es @ fs))") (simp_all add: less_eq_State_def)
  ultimately show ?thesis by (simp add: Start_def)
qed

theorem peering_lifecycle_forward_witness:
  "ps_state (peeringRun [] [CallStop, StopGetsLock]) = StateStopped \<and>
   Start (peeringRun [] ([CallStop, StopGetsLock] @ [CallStart]))
     = (True, peeringRun [] ([CallStop, StopGetsLock] @ [CallStart]))"
proof -
  have "ps_state (peeringRun [] [CallStop, StopGetsLock]) = StateStopped"
    by (simp add: peeringRun_def NewPeeringService_def Stop_def StopLocked_def stopAll_def)
  then show ?thesis using peering_lifecycle_forward [of "[]" "[CallStop, StopGetsLock]" "[CallStart]"] by blast
qed

text \<open>
  While the service runs and no \<^verbatim>\<open>Stop\<close> has begun, a peer of its map that is not connected is never forgotten by
  the bookkeeping: its handler holds a timer, or a pending goroutine or notification will
  start one.
\<close>

theorem disconnected_peer_has_timer_or_task:
  assumes "ps_state (peeringRun cs es) = StateRunning" and "ps_stopping (peeringRun cs es) = 0"
    and "(p, h) \<in> set (ps_peers (peeringRun cs es))"
    and "p \<notin> set (ps_connected (peeringRun cs es))"
  shows "ph_timer (ps_heap (peeringRun cs es) h) \<noteq> None
    \<or> StartIfDisconnected h \<in> set (ps_pending (peeringRun cs es))
    \<or> NotifyDisconnected p \<in> set (ps_pending (peeringRun cs es))"
  using assms peeringRun_inv [of cs es] by (simp add: peeringInv_def scheduled_def)

theorem disconnected_peer_has_timer_or_task_witness:
  "StartIfDisconnected 0 \<in> set (ps_pending (peeringRun [] [CallAddPeer ''p'' [], CallStart]))"
proof -
  let ?es = "[CallAddPeer ''p'' [], CallStart]"
  have s: "ps_state (peeringRun [] ?es) = StateRunning" and z: "ps_stopping (peeringRun [] ?es) = 0"
    and p: "(''p'', 0) \<in> set (ps_peers (peeringRun [] ?es))"
    and c: "''p'' \<notin> set (ps_connected (peeringRun [] ?es))"
    and t: "ph_timer (ps_heap (peeringRun [] ?es) 0) = None"
    and n: "NotifyDisconnected ''p'' \<notin> set (ps_pending (peeringRun [] ?es))"
    by (simp_all add: peeringRun_def NewPeeringService_def peering_defs)
  show ?thesis using disconnected_peer_has_timer_or_task [OF s z p c] t n by blast
qed

text \<open>
  A timer is not always enough.  If the connection made by \<^verbatim>\<open>reconnect\<close> breaks
  before its \<^verbatim>\<open>stopIfConnected\<close> runs, the handler keeps a timer that has already fired:
  the service runs, the peer is disconnected, nothing is pending and no timer will fire, so
  without a new event from outside the peer is never dialled again.
\<close>

definition abandonedRun :: "event list" where
  "abandonedRun =
     [CallAddPeer ''p'' [''a''], CallStart, Run (StartIfDisconnected 0) 0 0 True, TimerFires 0,
      Run (Reconnect 0) 0 0 True, NetDisconnect ''p'', Run (NotifyConnected ''p'') 0 0 True,
      Run (NotifyDisconnected ''p'') 0 0 True, Run (StartIfDisconnected 0) 0 0 True,
      Run (StopIfConnected 0) 0 0 True, Run (StopIfConnected 0) 0 0 True]"

theorem reconnect_race_abandons_peer:
  "ps_state (peeringRun [] abandonedRun) = StateRunning
   \<and> (''p'', 0) \<in> set (ps_peers (peeringRun [] abandonedRun))
   \<and> ''p'' \<notin> set (ps_connected (peeringRun [] abandonedRun))
   \<and> ps_pending (peeringRun [] abandonedRun) = []
   \<and> (\<forall>h. ph_timer (ps_heap (peeringRun [] abandonedRun) h) \<noteq> Some True)
   \<and> (\<forall>t r1 r2 ok h. peeringStep (peeringRun [] abandonedRun) (Run t r1 r2 ok) = peeringRun [] abandonedRun
        \<and> peeringStep (peeringRun [] abandonedRun) (TimerFires h) = peeringRun [] abandonedRun)"
proof -
  have "ps_state (peeringRun [] abandonedRun) = StateRunning"
    and "(''p'', 0) \<in> set (ps_peers (peeringRun [] abandonedRun))"
    and "''p'' \<notin> set (ps_connected (peeringRun [] abandonedRun))"
    and "ps_pending (peeringRun [] abandonedRun) = []"
    and "\<forall>h. ph_timer (ps_heap (peeringRun [] abandonedRun) h) \<noteq> Some True"
    by (simp_all add: peeringRun_def abandonedRun_def NewPeeringService_def peering_defs isConnected_def
        noHandler_def)
  then show ?thesis by simp
qed

text \<open>
  \<^verbatim>\<open>stop\<close> does not stop a handler for good: a \<^verbatim>\<open>startIfDisconnected\<close> goroutine that
  was already started arms the timer again after \<^verbatim>\<open>Stop\<close>, and since the context is
  cancelled every reconnect fails and re-arms it.
\<close>

definition rearmedRun :: "event list" where
  "rearmedRun = [CallAddPeer ''p'' [''a''], CallStart, CallStop, StopGetsLock,
     Run (StartIfDisconnected 0) 0 0 True]"

definition rearmCycle :: "int \<Rightarrow> int \<Rightarrow> bool \<Rightarrow> event list" where
  "rearmCycle r1 r2 ok = [TimerFires 0, Run (Reconnect 0) r1 r2 ok, Run (ReconnectError 0) r1 r2 ok,
                          Run (StopIfConnected 0) r1 r2 ok]"

definition rearmed :: "PeeringService \<Rightarrow> bool" where
  "rearmed ps \<longleftrightarrow> ps_state ps = StateStopped \<and> ph_cancelled (ps_heap ps 0)
     \<and> ph_timer (ps_heap ps 0) = Some True \<and> ps_connected ps = [] \<and> ps_pending ps = []"

lemma rearmed_cycle: "rearmed ps \<Longrightarrow> rearmed (foldl peeringStep ps (rearmCycle r1 r2 ok))"
  by (simp add: rearmed_def rearmCycle_def spawn_def modify_def isConnected_def)

theorem stopped_handler_keeps_dialling:
  "rearmed (peeringRun [] rearmedRun)
   \<and> rearmed (foldl peeringStep (peeringRun [] rearmedRun)
        (concat (map (\<lambda>(r1, r2, ok). rearmCycle r1 r2 ok) rs)))"
proof
  show base: "rearmed (peeringRun [] rearmedRun)"
    by (simp add: rearmed_def peeringRun_def rearmedRun_def NewPeeringService_def peering_defs
        stopAll_def isConnected_def)
  have "rearmed (foldl peeringStep ps (concat (map (\<lambda>(r1, r2, ok). rearmCycle r1 r2 ok) rs)))"
    if "rearmed ps" for ps
    using that by (induction rs arbitrary: ps) (auto simp: rearmed_cycle)
  with base show "rearmed (foldl peeringStep (peeringRun [] rearmedRun)
        (concat (map (\<lambda>(r1, r2, ok). rearmCycle r1 r2 ok) rs)))" by blast
qed

end
