(* ===== verification/GarbageCollector.thy ===== *)
theory GarbageCollector
  imports GoPrelude
begin

text \<open>
  \<^verbatim>\<open>gc/gc.go\<close>: mark and sweep garbage collection of the block store, and
  \<^verbatim>\<open>core/corerepo/gc.go\<close>: when it runs and what becomes of its output.

  \<^item> A \<^verbatim>\<open>cid.Set\<close> is a set of CIDs, the output channel the list of its results.
  \<^item> \<^verbatim>\<open>dag.Walk\<close> is third-party: \<open>walk gl c vis\<close> walks from \<open>c\<close> with the link function
    \<open>gl\<close>, skipping what is in \<open>vis\<close>, and gives the visited set, the CIDs it called the link
    function on and its error; \<open>walkLaw\<close> states what it promises, \<open>dfs\<close> is an instance.
  \<^item> The pinner, the node getter, \<^verbatim>\<open>verifcid\<close> and the block store are the fields of
    \<open>gcEnv\<close>.  The context may be done after any number of swept keys (\<open>aliveFor\<close>);
    a context that ends during the marking makes the run end with an error before anything is
    deleted and is not represented further.
\<close>

section \<open>CIDs\<close>

record Cid =
  cidVersion :: nat
  cidType :: nat
  cidHash :: string

definition NewCidV1 :: "nat \<Rightarrow> string \<Rightarrow> Cid" where
  "NewCidV1 t h = \<lparr> cidVersion = 1, cidType = t, cidHash = h \<rparr>"

definition cidRaw :: nat where "cidRaw = 85"

definition toRawCids :: "Cid set \<Rightarrow> Cid set" where
  "toRawCids S = (\<lambda>c. NewCidV1 cidRaw (cidHash c)) ` S"

definition toCidV1 :: "Cid \<Rightarrow> Cid" where
  "toCidV1 c = (if cidVersion c = 0 then NewCidV1 (cidType c) (cidHash c) else c)"

lemma toCidV1_hash [simp]: "cidHash (toCidV1 c) = cidHash c"
  by (simp add: toCidV1_def NewCidV1_def)

lemma toCidV1_idem [simp]: "toCidV1 (toCidV1 c) = toCidV1 c"
  by (simp add: toCidV1_def NewCidV1_def)

section \<open>Marking\<close>

datatype link_err = LinkNotFound | LinkFailed string

datatype gc_err =
    CannotFetchLinksError Cid link_err
  | InsecureCid string
  | WalkError string
  | PinnerError string
  | AllKeysError string
  | CannotDeleteBlockError Cid string
  | ErrCannotFetchAllLinks
  | ErrCannotDeleteSomeBlocks
  | CollectGarbageError string

datatype gcResult = KeyRemoved Cid | ErrorResult gc_err

type_synonym linkFun = "Cid \<Rightarrow> gc_err + Cid list"
type_synonym walker = "linkFun \<Rightarrow> Cid \<Rightarrow> Cid set \<Rightarrow> Cid set \<times> Cid list \<times> gc_err option"

record gcEnv =
  dagWalk :: walker
  ValidateCid :: "Cid \<Rightarrow> string option"
  ipldGetLinks :: "Cid \<Rightarrow> link_err + Cid list"
  RecursiveKeys :: "string + Cid list"
  DirectKeys :: "string + Cid list"
  InternalPins :: "string + Cid list"
  AllKeysChan :: "string + Cid list"
  deleteFails :: "Cid \<Rightarrow> string option"
  aliveFor :: nat
  CollectGarbage :: "(string option) option"

definition verifyGetLinks :: "gcEnv \<Rightarrow> linkFun \<Rightarrow> linkFun" where
  "verifyGetLinks e getLinks c =
     (case ValidateCid e c of Some err \<Rightarrow> Inl (InsecureCid err) | None \<Rightarrow> getLinks c)"

text \<open>\<^verbatim>\<open>Descendants\<close> also returns the CIDs whose links were asked for.\<close>

fun Descendants ::
  "gcEnv \<Rightarrow> linkFun \<Rightarrow> Cid set \<Rightarrow> Cid list \<Rightarrow> Cid set \<times> Cid list \<times> gc_err option" where
  "Descendants e getLinks S [] = (S, [], None)"
| "Descendants e getLinks S (c # roots) =
     (case dagWalk e (verifyGetLinks e getLinks) c S of
        (S1, called, Some err) \<Rightarrow> (S1, called, Some err)
      | (S1, called, None) \<Rightarrow>
          (case Descendants e getLinks S1 roots of (S2, called2, err) \<Rightarrow> (S2, called @ called2, err)))"

text \<open>
  The closures \<^verbatim>\<open>getLinks\<close> and \<^verbatim>\<open>bestEffortGetLinks\<close>: an error is reported and
  the node is treated as one without links.  What they output is \<open>linkReports\<close> of the CIDs they
  were called on.
\<close>

definition getLinks :: "gcEnv \<Rightarrow> linkFun" where
  "getLinks e c = (case ipldGetLinks e c of Inl _ \<Rightarrow> Inr [] | Inr ls \<Rightarrow> Inr ls)"

definition linkReports :: "gcEnv \<Rightarrow> bool \<Rightarrow> Cid list \<Rightarrow> gcResult list" where
  "linkReports e bestEffort called =
     concat (map (\<lambda>c. if ValidateCid e c \<noteq> None then []
                      else case ipldGetLinks e c of
                        Inr _ \<Rightarrow> []
                      | Inl err \<Rightarrow> if bestEffort \<and> err = LinkNotFound then []
                                  else [ErrorResult (CannotFetchLinksError c err)]) called)"

text \<open>One marking pass: the marked set, the results it puts out; it had an error if there are any.\<close>

definition markPass :: "gcEnv \<Rightarrow> bool \<Rightarrow> Cid set \<Rightarrow> Cid list \<Rightarrow> Cid set \<times> gcResult list" where
  "markPass e bestEffort S roots =
     (case Descendants e (getLinks e) S roots of
        (S1, called, err) \<Rightarrow>
          (S1, linkReports e bestEffort called @ (case err of None \<Rightarrow> [] | Some x \<Rightarrow> [ErrorResult x])))"

definition ColoredSet :: "gcEnv \<Rightarrow> Cid list \<Rightarrow> gcResult list \<times> (gc_err + Cid set)" where
  "ColoredSet e bestEffortRoots =
     (case RecursiveKeys e of
        Inl err \<Rightarrow> ([], Inl (PinnerError err))
      | Inr rkeys \<Rightarrow>
          let (s1, o1) = markPass e False {} rkeys;
              (s2, o2) = markPass e True s1 bestEffortRoots
          in case DirectKeys e of
            Inl err \<Rightarrow> (o1 @ o2, Inl (PinnerError err))
          | Inr dkeys \<Rightarrow>
              let s3 = s2 \<union> toCidV1 ` set dkeys in
              (case InternalPins e of
                 Inl err \<Rightarrow> (o1 @ o2, Inl (PinnerError err))
               | Inr ikeys \<Rightarrow>
                   let (s4, o4) = markPass e False s3 ikeys in
                   (o1 @ o2 @ o4,
                    if o1 \<noteq> [] \<or> o2 \<noteq> [] \<or> o4 \<noteq> [] then Inl ErrCannotFetchAllLinks else Inr s4)))"

section \<open>Sweeping\<close>

fun sweep :: "gcEnv \<Rightarrow> Cid set \<Rightarrow> Cid list \<Rightarrow> gcResult list \<times> Cid list" where
  "sweep e gcs [] = ([], [])"
| "sweep e gcs (k # keys) =
     (let (out, kept) = sweep e gcs keys in
      if k \<in> gcs then (out, k # kept)
      else case deleteFails e k of
        Some err \<Rightarrow> (ErrorResult (CannotDeleteBlockError k err) # out, k # kept)
      | None \<Rightarrow> (KeyRemoved k # out, kept))"

text \<open>
  The whole run: the results and the keys of the blocks that are left.  The keys that are not
  reached before the context is done stay; what the run would still send after that races with
  the context, and the model drops it.
\<close>

definition GC :: "gcEnv \<Rightarrow> Cid list \<Rightarrow> Cid list \<Rightarrow> gcResult list \<times> Cid list" where
  "GC e bestEffortRoots blocks =
     (case ColoredSet e bestEffortRoots of
        (out, Inl err) \<Rightarrow> (out @ [ErrorResult err], blocks)
      | (out, Inr gcs) \<Rightarrow>
          (case AllKeysChan e of
             Inl err \<Rightarrow> (out @ [ErrorResult (AllKeysError err)], blocks)
           | Inr keys \<Rightarrow>
               let seen = take (aliveFor e) keys;
                   (swept, kept) = sweep e (toRawCids gcs) seen;
                   removed = {k \<in> set seen. KeyRemoved k \<in> set swept};
                   done = aliveFor e \<le> length keys;
                   errors = (\<exists>r \<in> set swept. \<forall>k. r \<noteq> KeyRemoved k)
               in (out @ swept @
                     (if done then []
                      else (if errors then [ErrorResult ErrCannotDeleteSomeBlocks] else []) @
                           (case CollectGarbage e of
                              Some (Some err) \<Rightarrow> [ErrorResult (CollectGarbageError err)] | _ \<Rightarrow> [])),
                   filter (\<lambda>b. b \<notin> removed) blocks)))"

section \<open>When it runs\<close>

record GCParams =
  StorageMax :: "64 word"
  StorageGC :: "64 word"
  SlackGB :: "64 word"

text \<open>
  \<^verbatim>\<open>NewGC\<close> on the configured maximum (empty: 10GB) and watermark (0: 90);
  \<open>parse\<close> is \<^verbatim>\<open>humanize.ParseBytes\<close> and \<open>setKey\<close> the error of \<^verbatim>\<open>SetConfigKey\<close>.
  The second result are the keys it has set in the configuration file.
\<close>

definition NewGC ::
  "(string \<Rightarrow> string + 64 word) \<Rightarrow> (string \<Rightarrow> string option) \<Rightarrow> string \<Rightarrow> 64 word \<Rightarrow> (string + GCParams) \<times> string list" where
  "NewGC parse setKey cfgMax cfgWatermark =
     (let smax = (if cfgMax = [] then ''10GB'' else cfgMax);
          wm = (if cfgWatermark = 0 then 90 else cfgWatermark);
          sets = (if cfgMax = [] then [''Datastore.StorageMax''] else []) @
                 (if cfgWatermark = 0 then [''Datastore.StorageGCWatermark''] else [])
      in case dropWhile (\<lambda>k. setKey k = None) sets of
           k # _ \<Rightarrow> (Inl (the (setKey k)), takeWhile (\<lambda>k. setKey k = None) sets)
         | [] \<Rightarrow>
             (bindS (parse smax) (\<lambda>storageMax.
                let storageGC = (storageMax * wm) div 100;
                    slack = (storageMax - storageGC) div 10000000000
                in Inr \<lparr> StorageMax = storageMax, StorageGC = storageGC, SlackGB = (if slack < 1 then 1 else slack) \<rparr>),
              sets))"

text \<open>\<^verbatim>\<open>maybeGC\<close>: does it collect, and does it warn.\<close>

definition maybeGC :: "GCParams \<Rightarrow> 64 word \<Rightarrow> 64 word \<Rightarrow> bool \<times> bool" where
  "maybeGC gc storage offset =
     (storage + offset > StorageGC gc, storage + offset > StorageGC gc \<and> storage + offset > StorageMax gc)"

datatype collected = NoErrors | OneError gc_err | MultiError "gc_err list" gc_err

definition NewMultiError :: "gc_err list \<Rightarrow> collected" where
  "NewMultiError errs = MultiError (butlast errs) (last errs)"

text \<open>\<^verbatim>\<open>CollectResult\<close> on a run that is read to its end: the error and the calls of the callback.\<close>

fun resultErrors :: "gcResult list \<Rightarrow> gc_err list" where
  "resultErrors [] = []"
| "resultErrors (KeyRemoved k # rs) = resultErrors rs"
| "resultErrors (ErrorResult e # rs) = e # resultErrors rs"

fun removedKeys :: "gcResult list \<Rightarrow> Cid list" where
  "removedKeys [] = []"
| "removedKeys (KeyRemoved k # rs) = k # removedKeys rs"
| "removedKeys (ErrorResult e # rs) = removedKeys rs"

definition CollectResult :: "gcResult list \<Rightarrow> collected \<times> Cid list" where
  "CollectResult out =
     (case resultErrors out of [] \<Rightarrow> NoErrors | [e] \<Rightarrow> OneError e | es \<Rightarrow> NewMultiError es, removedKeys out)"

definition GarbageCollect :: "gcEnv \<Rightarrow> string + Cid \<Rightarrow> Cid list \<Rightarrow> (string + collected) \<times> Cid list" where
  "GarbageCollect e filesRoot blocks =
     (case filesRoot of
        Inl err \<Rightarrow> (Inl err, blocks)
      | Inr root \<Rightarrow> (case GC e [root] blocks of (out, left) \<Rightarrow> (Inr (fst (CollectResult out)), left)))"

section \<open>What the walk promises, and an instance\<close>

definition walkLaw :: "walker \<Rightarrow> bool" where
  "walkLaw walk \<longleftrightarrow>
     (\<forall>gl c S. case walk gl c S of (S', called, err) \<Rightarrow>
        S \<subseteq> S' \<and>
        (err = None \<longrightarrow> toCidV1 c \<in> S' \<and>
           (\<forall>v \<in> S' - S. \<exists>k \<in> set called. \<exists>ls. toCidV1 k = v \<and> gl k = Inr ls \<and> toCidV1 ` set ls \<subseteq> S')))"

text \<open>Depth-first search with a bound on the number of visits.\<close>

fun dfs :: "nat \<Rightarrow> linkFun \<Rightarrow> Cid list \<Rightarrow> Cid set \<Rightarrow> Cid set \<times> Cid list \<times> gc_err option" where
  "dfs n gl [] S = (S, [], None)"
| "dfs 0 gl (c # cs) S = (S, [], Some (WalkError ''too deep''))"
| "dfs (Suc n) gl (c # cs) S =
     (if toCidV1 c \<in> S then dfs n gl cs S
      else case gl c of
        Inl err \<Rightarrow> (insert (toCidV1 c) S, [c], Some err)
      | Inr ls \<Rightarrow>
          (case dfs n gl (ls @ cs) (insert (toCidV1 c) S) of (S', called, err) \<Rightarrow> (S', c # called, err)))"

lemma dfs_law:
  "dfs n gl cs S = (S', called, err) \<Longrightarrow>
   S \<subseteq> S' \<and> (err = None \<longrightarrow> toCidV1 ` set cs \<subseteq> S' \<and>
     (\<forall>v \<in> S' - S. \<exists>k \<in> set called. \<exists>ls. toCidV1 k = v \<and> gl k = Inr ls \<and> toCidV1 ` set ls \<subseteq> S'))"
proof (induction n gl cs S arbitrary: S' called err rule: dfs.induct)
  case (3 n gl c cs S)
  show ?case
  proof (cases "toCidV1 c \<in> S")
    case True
    with 3 show ?thesis by auto
  next
    case False
    show ?thesis
    proof (cases "gl c")
      case (Inl x)
      with 3 False show ?thesis by auto
    next
      case (Inr ls)
      obtain S1 called1 err1 where rec: "dfs n gl (ls @ cs) (insert (toCidV1 c) S) = (S1, called1, err1)"
        by (cases "dfs n gl (ls @ cs) (insert (toCidV1 c) S)")
      with 3(3) False Inr have eq: "S' = S1" "called = c # called1" "err = err1" by auto
      from 3(2) [OF False Inr rec] have IH: "insert (toCidV1 c) S \<subseteq> S1"
        "err1 = None \<longrightarrow> toCidV1 ` set (ls @ cs) \<subseteq> S1 \<and> (\<forall>v \<in> S1 - insert (toCidV1 c) S.
           \<exists>k \<in> set called1. \<exists>ls. toCidV1 k = v \<and> gl k = Inr ls \<and> toCidV1 ` set ls \<subseteq> S1)" by auto
      show ?thesis
      proof (intro conjI impI ballI)
        show "S \<subseteq> S'" using IH(1) eq by auto
        assume "err = None"
        with IH(2) eq have sub: "toCidV1 ` set (ls @ cs) \<subseteq> S1" and all: "\<forall>v \<in> S1 - insert (toCidV1 c) S.
           \<exists>k \<in> set called1. \<exists>ls. toCidV1 k = v \<and> gl k = Inr ls \<and> toCidV1 ` set ls \<subseteq> S1" by auto
        show "toCidV1 ` set (c # cs) \<subseteq> S'" using sub IH(1) eq by auto
        fix v assume "v \<in> S' - S"
        then show "\<exists>k \<in> set called. \<exists>ls. toCidV1 k = v \<and> gl k = Inr ls \<and> toCidV1 ` set ls \<subseteq> S'"
          using all sub Inr eq by (cases "v = toCidV1 c") auto
      qed
    qed
  qed
qed auto

lemma walkLaw_dfs: "walkLaw (\<lambda>gl c S. dfs n gl [c] S)"
  unfolding walkLaw_def
proof (intro allI)
  fix gl c S
  show "case dfs n gl [c] S of (S', called, err) \<Rightarrow> S \<subseteq> S' \<and>
      (err = None \<longrightarrow> toCidV1 c \<in> S' \<and> (\<forall>v \<in> S' - S. \<exists>k \<in> set called. \<exists>ls. toCidV1 k = v \<and> gl k = Inr ls \<and> toCidV1 ` set ls \<subseteq> S'))"
    using dfs_law [of n gl "[c]" S] by (cases "dfs n gl [c] S") auto
qed

end
