(* ===== verification/GarbageCollectorProps.thy ===== *)
theory GarbageCollectorProps
  imports GarbageCollector
begin

text \<open>
  The garbage collector keeps every block that is pinned or reachable from the files root,
  stops before deleting anything when it cannot see all of the recursively pinned graph, and
  removes everything else.
\<close>

section \<open>What must be kept\<close>

text \<open>
  Reachable from the roots \<open>R\<close> over links that are available, not going through \<open>D\<close>.
\<close>

inductive reach :: "gcEnv \<Rightarrow> Cid set \<Rightarrow> Cid set \<Rightarrow> Cid \<Rightarrow> bool" for e D R where
  root: "r \<in> R \<Longrightarrow> reach e D R r"
| link: "reach e D R k \<Longrightarrow> toCidV1 k \<notin> D \<Longrightarrow> ipldGetLinks e k = Inr ls \<Longrightarrow> l \<in> set ls \<Longrightarrow> reach e D R l"

definition rawKey :: "Cid \<Rightarrow> Cid" where
  "rawKey c = NewCidV1 cidRaw (cidHash c)"

definition keysOf :: "string + Cid list \<Rightarrow> Cid set" where
  "keysOf r = (case r of Inl _ \<Rightarrow> {} | Inr ks \<Rightarrow> set ks)"

definition mustKeep :: "gcEnv \<Rightarrow> Cid list \<Rightarrow> Cid \<Rightarrow> bool" where
  "mustKeep e bestEffortRoots k \<longleftrightarrow>
     reach e {} (keysOf (RecursiveKeys e) \<union> set bestEffortRoots) k \<or> k \<in> keysOf (DirectKeys e) \<or>
     reach e (toCidV1 ` keysOf (DirectKeys e)) (keysOf (InternalPins e)) k"

text \<open>The two versions of a CID name the same block.\<close>

definition linkLaw :: "gcEnv \<Rightarrow> bool" where
  "linkLaw e \<longleftrightarrow> (\<forall>k. ipldGetLinks e (toCidV1 k) = ipldGetLinks e k)"

section \<open>Marking\<close>

definition closedOut :: "gcEnv \<Rightarrow> Cid set \<Rightarrow> Cid set \<Rightarrow> bool" where
  "closedOut e D S \<longleftrightarrow> (\<forall>v \<in> S - D. \<forall>ls. ipldGetLinks e v = Inr ls \<longrightarrow> toCidV1 ` set ls \<subseteq> S)"

lemma reach_marked:
  assumes "reach e D R k" and "linkLaw e" and "closedOut e D S" and "toCidV1 ` R \<subseteq> S"
  shows "toCidV1 k \<in> S"
  using assms(1)
proof induction
  case (link k ls l)
  then have "ipldGetLinks e (toCidV1 k) = Inr ls" using assms(2) by (simp add: linkLaw_def)
  with link assms(3) show ?case by (fastforce simp: closedOut_def)
qed (use assms(4) in auto)

lemma closedOut_mono: "closedOut e D S \<Longrightarrow> D \<subseteq> D' \<Longrightarrow> closedOut e D' S"
  by (auto simp: closedOut_def)

lemma closedOut_Un: "closedOut e {} S \<Longrightarrow> closedOut e D (S \<union> D)"
  by (auto simp: closedOut_def)

lemma getLinks_verified:
  "verifyGetLinks e (getLinks e) k = Inr ls' \<Longrightarrow>
   ValidateCid e k = None \<and> (\<forall>ls. ipldGetLinks e k = Inr ls \<longrightarrow> ls' = ls)"
  by (auto simp: verifyGetLinks_def getLinks_def split: option.splits)

lemma walkLawD:
  "walkLaw walk \<Longrightarrow> walk gl c S = (S', called, None) \<Longrightarrow> S \<subseteq> S' \<and> toCidV1 c \<in> S' \<and>
   (\<forall>v \<in> S' - S. \<exists>k \<in> set called. \<exists>ls. toCidV1 k = v \<and> gl k = Inr ls \<and> toCidV1 ` set ls \<subseteq> S')"
  unfolding walkLaw_def by (drule spec [of _ gl], drule spec [of _ c], drule spec [of _ S]) simp

lemma Descendants_marks:
  assumes "walkLaw (dagWalk e)" and "linkLaw e" and "closedOut e D S"
    and "Descendants e (getLinks e) S roots = (S', called, None)"
  shows "S \<subseteq> S' \<and> toCidV1 ` set roots \<subseteq> S' \<and> closedOut e D S' \<and>
    (\<forall>v \<in> S' - S. \<exists>k \<in> set called. toCidV1 k = v \<and> ValidateCid e k = None)"
  using assms(3,4)
proof (induction roots arbitrary: S called)
  case (Cons c roots)
  obtain S1 called1 err1 where w: "dagWalk e (verifyGetLinks e (getLinks e)) c S = (S1, called1, err1)"
    by (cases "dagWalk e (verifyGetLinks e (getLinks e)) c S")
  with Cons.prems(2) have err: "err1 = None" by (cases err1) simp_all
  obtain called2 where d: "Descendants e (getLinks e) S1 roots = (S', called2, None)" "called = called1 @ called2"
    using Cons.prems(2) w err by (auto split: prod.splits)
  have law: "S \<subseteq> S1" "toCidV1 c \<in> S1" "\<forall>v \<in> S1 - S. \<exists>k \<in> set called1. \<exists>ls. toCidV1 k = v \<and>
      verifyGetLinks e (getLinks e) k = Inr ls \<and> toCidV1 ` set ls \<subseteq> S1"
    using walkLawD [OF assms(1) w [unfolded err]] by simp_all
  have "closedOut e D S1" unfolding closedOut_def
  proof (intro ballI allI impI)
    fix v ls assume v: "v \<in> S1 - D" and ls: "ipldGetLinks e v = Inr ls"
    show "toCidV1 ` set ls \<subseteq> S1"
    proof (cases "v \<in> S")
      case True
      with v ls Cons.prems(1) law(1) show ?thesis unfolding closedOut_def by blast
    next
      case False
      with v law(3) obtain k ls' where k: "toCidV1 k = v" "verifyGetLinks e (getLinks e) k = Inr ls'"
        "toCidV1 ` set ls' \<subseteq> S1" by blast
      with ls assms(2) have "ipldGetLinks e k = Inr ls" unfolding linkLaw_def by metis
      with k getLinks_verified show ?thesis by blast
    qed
  qed
  from Cons.IH [OF this d(1)] have rest: "S1 \<subseteq> S'" "toCidV1 ` set roots \<subseteq> S'" "closedOut e D S'"
    "\<forall>v \<in> S' - S1. \<exists>k \<in> set called2. toCidV1 k = v \<and> ValidateCid e k = None" by auto
  have "\<exists>k \<in> set called. toCidV1 k = v \<and> ValidateCid e k = None" if "v \<in> S' - S" for v
  proof (cases "v \<in> S1")
    case True
    with that law(3) getLinks_verified d(2) show ?thesis by fastforce
  next
    case False
    with that rest(4) d(2) show ?thesis by auto
  qed
  with law rest show ?case by auto
qed auto

lemma linkReports_clean:
  assumes "linkReports e False called = []" and "k \<in> set called" and "ValidateCid e k = None"
  shows "isOk (ipldGetLinks e k)"
proof (cases "ipldGetLinks e k")
  case (Inl err)
  then have "ErrorResult (CannotFetchLinksError k err) \<in> set (linkReports e False called)"
    using assms(2,3) unfolding linkReports_def by (auto intro!: bexI [of _ k])
  with assms(1) show ?thesis by simp
qed simp

lemma markPass_clean:
  assumes "walkLaw (dagWalk e)" and "linkLaw e" and "closedOut e D S"
    and "markPass e be S roots = (S', [])"
  shows "S \<subseteq> S' \<and> toCidV1 ` set roots \<subseteq> S' \<and> closedOut e D S' \<and>
    (be = False \<longrightarrow> (\<forall>v \<in> S' - S. isOk (ipldGetLinks e v)))"
proof -
  obtain called where d: "Descendants e (getLinks e) S roots = (S', called, None)"
    and r: "linkReports e be called = []"
    using assms(4) by (auto simp: markPass_def split: prod.splits option.splits)
  note m = Descendants_marks [OF assms(1-3) d]
  have "isOk (ipldGetLinks e v)" if "\<not> be" "v \<in> S' - S" for v
  proof -
    from m that obtain k where k: "k \<in> set called" "toCidV1 k = v" "ValidateCid e k = None" by blast
    with r that(1) have "isOk (ipldGetLinks e k)" using linkReports_clean by auto
    with k(2) assms(2) show ?thesis unfolding linkLaw_def by metis
  qed
  with m show ?thesis by auto
qed

lemma ColoredSet_marks:
  assumes "walkLaw (dagWalk e)" and "linkLaw e" and "ColoredSet e best = (out, Inr gcs)"
  shows "(\<forall>k. mustKeep e best k \<longrightarrow> toCidV1 k \<in> gcs) \<and>
    (\<forall>k. reach e {} (keysOf (RecursiveKeys e)) k \<longrightarrow> isOk (ipldGetLinks e k))"
proof -
  obtain rkeys where r: "RecursiveKeys e = Inr rkeys" using assms(3)
    by (cases "RecursiveKeys e") (simp_all add: ColoredSet_def)
  obtain s1 o1 where p1: "markPass e False {} rkeys = (s1, o1)" by force
  obtain s2 o2 where p2: "markPass e True s1 best = (s2, o2)" by force
  obtain dkeys where d: "DirectKeys e = Inr dkeys" using assms(3) r p1 p2
    by (cases "DirectKeys e") (simp_all add: ColoredSet_def)
  let ?D = "toCidV1 ` set dkeys"
  obtain ikeys where i: "InternalPins e = Inr ikeys" using assms(3) r p1 p2 d
    by (cases "InternalPins e") (simp_all add: ColoredSet_def)
  obtain s4 o4 where p4: "markPass e False (s2 \<union> ?D) ikeys = (s4, o4)" by force
  have none: "o1 = []" "o2 = []" "o4 = []" and gcs: "gcs = s4"
    using assms(3) r p1 p2 d i p4 by (auto simp: ColoredSet_def split: if_splits)
  have "closedOut e {} {}" by (simp add: closedOut_def)
  from markPass_clean [OF assms(1,2) this] p1 none
  have m1: "toCidV1 ` set rkeys \<subseteq> s1" "closedOut e {} s1" "\<forall>v \<in> s1. isOk (ipldGetLinks e v)" by auto
  from markPass_clean [OF assms(1,2) m1(2)] p2 none
  have m2: "s1 \<subseteq> s2" "toCidV1 ` set best \<subseteq> s2" "closedOut e {} s2" by auto
  from markPass_clean [OF assms(1,2) closedOut_Un [OF m2(3), of ?D]] p4 none
  have m4: "s2 \<union> ?D \<subseteq> s4" "toCidV1 ` set ikeys \<subseteq> s4" "closedOut e ?D s4" by auto
  have "toCidV1 ` (set rkeys \<union> set best) \<subseteq> s2" unfolding image_Un using m1(1) m2(1,2) by blast
  then have "toCidV1 k \<in> s2" if "reach e {} (set rkeys \<union> set best) k" for k
    using reach_marked [OF that assms(2) m2(3)] by blast
  moreover have "toCidV1 k \<in> s4" if "reach e ?D (set ikeys) k" for k
    using reach_marked [OF that assms(2) m4(3)] m4(2) by auto
  moreover have "isOk (ipldGetLinks e k)" if "reach e {} (set rkeys) k" for k
    using reach_marked [OF that assms(2) m1(2,1)] m1(3) assms(2) unfolding linkLaw_def by metis
  ultimately show ?thesis
    using m4(1) unfolding gcs mustKeep_def keysOf_def r d i by auto
qed

section \<open>Sweeping\<close>

lemma sweep_removed: "KeyRemoved k \<in> set (fst (sweep e gcs keys)) \<longleftrightarrow> k \<in> set keys \<and> k \<notin> gcs \<and> deleteFails e k = None"
  by (induction keys) (auto simp: split_beta Let_def split: option.splits)

lemma sweep_errors: "\<forall>k. deleteFails e k = None \<Longrightarrow> ErrorResult x \<notin> set (fst (sweep e gcs keys))"
  by (induction keys) (auto simp: split_beta Let_def)

lemma ColoredSet_no_removal: "KeyRemoved k \<notin> set (fst (ColoredSet e best))"
  by (auto simp: ColoredSet_def markPass_def linkReports_def Let_def split_beta
      split: sum.splits option.splits if_splits)

lemma GC_removed:
  assumes "KeyRemoved k \<in> set (fst (GC e best blocks)) \<or> (k \<in> set blocks \<and> k \<notin> set (snd (GC e best blocks)))"
  shows "\<exists>out gcs. ColoredSet e best = (out, Inr gcs) \<and> k \<notin> toRawCids gcs"
proof -
  obtain out res where c: "ColoredSet e best = (out, res)" by force
  then have no: "KeyRemoved k \<notin> set out" for k using ColoredSet_no_removal [of k e best] by simp
  show ?thesis
  proof (cases res)
    case (Inl x)
    with assms c no show ?thesis by (simp add: GC_def)
  next
    case (Inr gcs)
    show ?thesis
    proof (cases "AllKeysChan e")
      case (Inl x)
      with Inr assms c no show ?thesis by (simp add: GC_def)
    next
      case keys: (Inr keys)
      obtain swept kept where s: "sweep e (toRawCids gcs) (take (aliveFor e) keys) = (swept, kept)" by force
      have "KeyRemoved k \<in> set swept"
        using assms c Inr keys s no
        by (auto simp: GC_def Let_def split: if_splits option.splits)
      then have "k \<notin> toRawCids gcs" using sweep_removed [of k e "toRawCids gcs" "take (aliveFor e) keys"] s by simp
      with c Inr show ?thesis by blast
    qed
  qed
qed

section \<open>Properties\<close>

text \<open>
  C1. The collector never deletes a block that must be kept: a block reachable over
  available links from a recursive pin or a best-effort root, a directly pinned block, and a
  block the pinner uses itself (reached without passing through a direct pin) are all still
  there after the run, and none is reported as removed, whatever version and codec the CID
  naming it has.
\<close>

theorem gc_keeps_what_is_pinned:
  assumes "walkLaw (dagWalk e)" and "linkLaw e" and "mustKeep e best k"
  shows "KeyRemoved (rawKey k) \<notin> set (fst (GC e best blocks)) \<and>
    (rawKey k \<in> set blocks \<longrightarrow> rawKey k \<in> set (snd (GC e best blocks)))"
proof -
  have "rawKey k \<in> toRawCids gcs" if "ColoredSet e best = (out, Inr gcs)" for out gcs
  proof -
    have "toCidV1 k \<in> gcs" using ColoredSet_marks [OF assms(1,2) that] assms(3) by blast
    then show ?thesis unfolding toRawCids_def rawKey_def by (metis image_eqI toCidV1_hash)
  qed
  then show ?thesis using GC_removed [of "rawKey k" e best blocks] by blast
qed

text \<open>
  Nothing is deleted when the links of a block in a recursively pinned graph cannot be
  read: the run ends with an error and every block is left.
\<close>

theorem gc_deletes_nothing_when_pins_are_incomplete:
  assumes "walkLaw (dagWalk e)" and "linkLaw e"
    and "reach e {} (keysOf (RecursiveKeys e)) k" and "ipldGetLinks e k = Inl err"
  shows "snd (GC e best blocks) = blocks \<and> fst (CollectResult (fst (GC e best blocks))) \<noteq> NoErrors"
proof -
  obtain out res where c: "ColoredSet e best = (out, res)" by force
  with ColoredSet_marks [OF assms(1,2), of best out] assms(3,4) obtain x where "res = Inl x"
    by (cases res) auto
  with c have g: "GC e best blocks = (out @ [ErrorResult x], blocks)" by (simp add: GC_def)
  have "resultErrors (rs @ [ErrorResult x]) \<noteq> []" for rs by (induction rs rule: resultErrors.induct) simp_all
  then show ?thesis using g by (auto simp: CollectResult_def NewMultiError_def split: list.splits)
qed

text \<open>
  When the marking succeeds, no deletion fails and the context lasts, the run removes
  exactly the unmarked blocks and reports each of them.
\<close>

theorem gc_removes_exactly_the_unmarked:
  assumes "ColoredSet e best = (out, Inr gcs)" and "AllKeysChan e = Inr blocks"
    and "\<forall>k. deleteFails e k = None" and "length blocks < aliveFor e"
  shows "snd (GC e best blocks) = filter (\<lambda>b. b \<in> toRawCids gcs) blocks \<and>
    set (removedKeys (fst (GC e best blocks))) = {b \<in> set blocks. b \<notin> toRawCids gcs}"
proof -
  have take: "take (aliveFor e) blocks = blocks" using assms(4) by simp
  obtain swept kept where s: "sweep e (toRawCids gcs) blocks = (swept, kept)" by force
  have rm: "KeyRemoved k \<in> set swept \<longleftrightarrow> k \<in> set blocks \<and> k \<notin> toRawCids gcs" for k
    using sweep_removed [of k e "toRawCids gcs" blocks] s assms(3) by simp
  have keys: "k \<in> set (removedKeys rs) \<longleftrightarrow> KeyRemoved k \<in> set rs" for k rs
    by (induction rs rule: removedKeys.induct) auto
  have out: "KeyRemoved k \<notin> set out" for k using ColoredSet_no_removal [of k e best] assms(1) by simp
  have "snd (GC e best blocks) = filter (\<lambda>b. b \<in> toRawCids gcs) blocks"
    using assms s rm take by (auto simp: GC_def Let_def intro!: filter_cong)
  moreover have "KeyRemoved k \<in> set (fst (GC e best blocks)) \<longleftrightarrow> KeyRemoved k \<in> set swept" for k
    using assms s take out by (auto simp: GC_def Let_def split: option.splits)
  ultimately show ?thesis using rm keys by auto
qed

section \<open>A concrete store\<close>

text \<open>Three nodes in a chain, and a fourth that nothing refers to.\<close>

definition node :: "string \<Rightarrow> Cid" where "node h = NewCidV1 112 h"

definition chainLinks :: "Cid \<Rightarrow> link_err + Cid list" where
  "chainLinks c = Inr (if cidHash c = ''a'' then [node ''b''] else if cidHash c = ''b'' then [node ''c''] else [])"

definition chainBlocks :: "Cid list" where
  "chainBlocks = map rawKey [node ''a'', node ''b'', node ''c'', node ''x'']"

definition chainEnv :: "Cid list \<Rightarrow> Cid list \<Rightarrow> Cid list \<Rightarrow> gcEnv" where
  "chainEnv rec direct internal = \<lparr> dagWalk = (\<lambda>gl c S. dfs 10 gl [c] S), ValidateCid = (\<lambda>_. None),
     ipldGetLinks = chainLinks, RecursiveKeys = Inr rec, DirectKeys = Inr direct, InternalPins = Inr internal,
     AllKeysChan = Inr chainBlocks, deleteFails = (\<lambda>_. None), aliveFor = 100, CollectGarbage = None \<rparr>"

lemma chain_laws: "walkLaw (dagWalk (chainEnv r d i))" "linkLaw (chainEnv r d i)"
  by (simp_all add: chainEnv_def walkLaw_dfs linkLaw_def chainLinks_def)

lemma chain_reach:
  assumes "toCidV1 (node ''a'') \<notin> D" and "toCidV1 (node ''b'') \<notin> D"
  shows "reach (chainEnv r d i) D (insert (node ''a'') R) (node ''c'')"
proof -
  let ?e = "chainEnv r d i"
  have a: "reach ?e D (insert (node ''a'') R) (node ''a'')" by (rule reach.root) simp
  have b: "reach ?e D (insert (node ''a'') R) (node ''b'')"
    by (rule reach.link [OF a assms(1), where ls = "[node ''b'']"]) (simp_all add: chainEnv_def chainLinks_def node_def NewCidV1_def)
  show ?thesis
    by (rule reach.link [OF b assms(2), where ls = "[node ''c'']"]) (simp_all add: chainEnv_def chainLinks_def node_def NewCidV1_def)
qed

theorem gc_keeps_what_is_pinned_witness:
  "rawKey (node ''c'') \<in> set (snd (GC (chainEnv [node ''a''] [] []) [] chainBlocks))"
proof -
  have "mustKeep (chainEnv [node ''a''] [] []) [] (node ''c'')"
    using chain_reach [of "{}" "[node ''a'']" "[]" "[]" "{}"]
    by (simp add: mustKeep_def keysOf_def chainEnv_def)
  moreover have "rawKey (node ''c'') \<in> set chainBlocks" by (simp add: chainBlocks_def)
  ultimately show ?thesis using gc_keeps_what_is_pinned [OF chain_laws] by blast
qed

theorem gc_deletes_nothing_when_pins_are_incomplete_witness:
  "snd (GC ((chainEnv [node ''a''] [] [])\<lparr> ipldGetLinks := (\<lambda>_. Inl LinkNotFound) \<rparr>) [] chainBlocks) = chainBlocks"
proof -
  let ?e = "(chainEnv [node ''a''] [] [])\<lparr> ipldGetLinks := (\<lambda>_. Inl LinkNotFound) \<rparr>"
  have "walkLaw (dagWalk ?e)" "linkLaw ?e" "ipldGetLinks ?e (node ''a'') = Inl LinkNotFound"
    by (simp_all add: chainEnv_def walkLaw_dfs linkLaw_def)
  moreover have "reach ?e {} (keysOf (RecursiveKeys ?e)) (node ''a'')"
    by (rule reach.root) (simp add: keysOf_def chainEnv_def)
  ultimately show ?thesis using gc_deletes_nothing_when_pins_are_incomplete by blast
qed

lemma chain_marked:
  "ColoredSet (chainEnv [node ''a''] [] []) [] = ([], Inr {node ''a'', node ''b'', node ''c''})"
  by (simp add: ColoredSet_def chainEnv_def markPass_def linkReports_def verifyGetLinks_def getLinks_def
      chainLinks_def node_def NewCidV1_def toCidV1_def numeral_eq_Suc insert_commute)

theorem gc_removes_exactly_the_unmarked_witness:
  "removedKeys (fst (GC (chainEnv [node ''a''] [] []) [] chainBlocks)) \<noteq> []"
proof -
  let ?e = "chainEnv [node ''a''] [] []"
  have "AllKeysChan ?e = Inr chainBlocks" "\<forall>k. deleteFails ?e k = None" "length chainBlocks < aliveFor ?e"
    by (simp_all add: chainEnv_def chainBlocks_def)
  from gc_removes_exactly_the_unmarked [OF chain_marked this]
  have "rawKey (node ''x'') \<in> set (removedKeys (fst (GC ?e [] chainBlocks)))"
    by (simp add: chainBlocks_def rawKey_def node_def NewCidV1_def toRawCids_def)
  then show ?thesis by auto
qed

text \<open>
  Direct pins are marked before the graph of the pinner's own blocks is walked, and the
  walk does not go below a marked node: a node that is pinned directly hides everything
  below it, which is then deleted although an internal pin reaches it over available links.
\<close>

theorem direct_pin_hides_internal_graph:
  "reach (chainEnv [] [node ''b''] [node ''a'']) {} (keysOf (InternalPins (chainEnv [] [node ''b''] [node ''a'']))) (node ''c'') \<and>
   rawKey (node ''c'') \<in> set chainBlocks \<and>
   rawKey (node ''c'') \<notin> set (snd (GC (chainEnv [] [node ''b''] [node ''a'']) [] chainBlocks))"
proof (intro conjI)
  let ?e = "chainEnv [] [node ''b''] [node ''a'']"
  show "reach ?e {} (keysOf (InternalPins ?e)) (node ''c'')"
    using chain_reach [of "{}" "[]" "[node ''b'']" "[node ''a'']" "{}"] by (simp add: keysOf_def chainEnv_def)
  show "rawKey (node ''c'') \<in> set chainBlocks" by (simp add: chainBlocks_def)
  have "ColoredSet ?e [] = ([], Inr {node ''a'', node ''b''})"
    by (simp add: ColoredSet_def chainEnv_def markPass_def linkReports_def verifyGetLinks_def getLinks_def
        chainLinks_def node_def NewCidV1_def toCidV1_def numeral_eq_Suc insert_commute)
  then show "rawKey (node ''c'') \<notin> set (snd (GC ?e [] chainBlocks))"
    by (simp add: GC_def chainEnv_def chainBlocks_def Let_def rawKey_def node_def NewCidV1_def toRawCids_def)
qed

section \<open>When to collect\<close>

text \<open>
  The watermark: as long as the configured size times the watermark fits 64 bits and
  the watermark is at most 100 per cent, the threshold is that percentage of the maximum,
  never above it, and a collection runs exactly when the storage in use, with the offset,
  exceeds the threshold.
\<close>

theorem gc_watermark:
  assumes "parse (if mx = [] then ''10GB'' else mx) = Inr smax" and "wm \<noteq> 0"
    and "unat wm \<le> 100" and "unat smax * unat wm < 2 ^ 64"
    and "fst (NewGC parse setKey mx wm) = Inr g" and "unat storage + unat offset < 2 ^ 64"
  shows "unat (StorageGC g) = unat smax * unat wm div 100 \<and> StorageGC g \<le> StorageMax g \<and> 1 \<le> SlackGB g \<and>
    fst (maybeGC g storage offset) = (unat smax * unat wm div 100 < unat storage + unat offset)"
proof -
  have one: "x \<noteq> 0 \<Longrightarrow> 1 \<le> x" for x :: "64 word"
    by (simp add: word_le_nat_alt Suc_le_eq unat_gt_0)
  have g: "StorageMax g = smax" "StorageGC g = (smax * wm) div 100" "1 \<le> SlackGB g"
    using assms(1,2,5) one by (auto simp: NewGC_def Let_def split: list.splits)
  have "unat (smax * wm) = unat smax * unat wm" using assms(4) by (simp add: unat_mult_lem [THEN iffD1])
  then have gc: "unat (StorageGC g) = unat smax * unat wm div 100" by (simp add: g unat_div)
  have "unat smax * unat wm div 100 \<le> unat smax * 100 div 100" using assms(3) by (intro div_le_mono mult_le_mono2)
  then have "StorageGC g \<le> StorageMax g" using gc g(1) by (simp add: word_le_nat_alt)
  moreover have "unat (storage + offset) = unat storage + unat offset"
    using assms(6) by (simp add: unat_add_lem [THEN iffD1])
  then have "fst (maybeGC g storage offset) = (unat smax * unat wm div 100 < unat storage + unat offset)"
    using gc by (simp add: maybeGC_def word_less_nat_alt)
  ultimately show ?thesis using gc g(3) by blast
qed

theorem gc_watermark_witness:
  "fst (maybeGC \<lparr> StorageMax = 1000, StorageGC = 900, SlackGB = 1 \<rparr> 900 1)"
proof -
  have "fst (NewGC (\<lambda>_. Inr 1000) (\<lambda>_. None) [] 90) = Inr \<lparr> StorageMax = 1000, StorageGC = 900, SlackGB = 1 \<rparr>"
    by (simp add: NewGC_def Let_def)
  from gc_watermark [OF _ _ _ _ this, of 1000 900 1] show ?thesis by simp
qed

end
