(* ===== verification/RoutingProps.thy ===== *)
theory RoutingProps
  imports Routing
begin

text \<open>
  The specification of router construction is the relation \<open>builds\<close>: a router is what its
  configuration says, built from the routers it names, with no state at all.  The code, with
  its map of created routers and its set of visited names, implements it: it succeeds exactly
  when the specification builds something, with the same result, and always returns.
\<close>

section \<open>The specification\<close>

inductive builds :: "rtEnv \<Rightarrow> (string \<Rightarrow> Router option) \<Rightarrow> string \<Rightarrow> RouterT \<Rightarrow> bool" for e cfg where
  leaf: "cfg name = Some rc \<Longrightarrow> children rc = None \<Longrightarrow> leafRouter e rc = Inr r \<Longrightarrow> builds e cfg name r"
| node: "cfg name = Some rc \<Longrightarrow> children rc = Some crs \<Longrightarrow>
    list_all2 (\<lambda>cr ri. builds e cfg (cr_RouterName cr) ri) crs ris \<Longrightarrow> builds e cfg name (compose rc crs ris)"

lemma builds_det: "builds e cfg name r \<Longrightarrow> builds e cfg name r' \<Longrightarrow> r' = r"
proof (induction arbitrary: r' rule: builds.induct)
  case (leaf name rc r)
  then show ?case by (auto elim: builds.cases)
next
  case (node name rc crs ris)
  from node.prems node.hyps obtain ris' where
    ris': "list_all2 (\<lambda>cr ri. builds e cfg (cr_RouterName cr) ri) crs ris'" "r' = compose rc crs ris'"
    by (auto elim: builds.cases)
  have "ris' = ris"
  proof (rule nth_equalityI)
    show len: "length ris' = length ris"
      using list_all2_lengthD [OF ris'(1)] list_all2_lengthD [OF node.IH] by simp
    fix i assume i: "i < length ris'"
    then have "i < length crs" using list_all2_lengthD [OF ris'(1)] by simp
    from list_all2_nthD [OF ris'(1) this] list_all2_nthD [OF node.IH this]
    show "ris' ! i = ris ! i" by blast
  qed
  with ris'(2) show ?case by simp
qed

definition dep :: "(string \<Rightarrow> Router option) \<Rightarrow> string \<Rightarrow> string \<Rightarrow> bool" where
  "dep cfg a b \<longleftrightarrow> (\<exists>rc crs. cfg a = Some rc \<and> children rc = Some crs \<and> b \<in> cr_RouterName ` set crs)"

lemma builds_accp: "builds e cfg name r \<Longrightarrow> Wellfounded.accp (\<lambda>x y. dep cfg y x) name"
proof (induction rule: builds.induct)
  case (leaf name rc r)
  then show ?case by - (rule accp.accI, simp add: dep_def)
next
  case (node name rc crs ris)
  show ?case
  proof (rule accp.accI)
    fix y assume "dep cfg name y"
    then have "y \<in> cr_RouterName ` set crs" using node.hyps by (auto simp: dep_def)
    then obtain i where i: "i < length crs" "y = cr_RouterName (crs ! i)"
      by (auto simp: in_set_conv_nth)
    from list_all2_nthD [OF node.IH i(1)] show "Wellfounded.accp (\<lambda>x y. dep cfg y x) y" by (simp add: i(2))
  qed
qed

lemma accp_acyclic: "Wellfounded.accp R x \<Longrightarrow> \<not> R\<^sup>+\<^sup>+ x x"
proof (induction rule: accp.induct)
  case (accI x)
  show ?case
  proof
    assume "R\<^sup>+\<^sup>+ x x"
    then show False
    proof (cases rule: tranclp.cases)
      case r_into_trancl
      with accI show False by blast
    next
      case (trancl_into_trancl y)
      then have "R\<^sup>+\<^sup>+ y y" by (meson tranclp.r_into_trancl tranclp_trans)
      with accI trancl_into_trancl show False by blast
    qed
  qed
qed

lemma builds_acyclic: "builds e cfg name r \<Longrightarrow> \<not> (dep cfg)\<^sup>+\<^sup>+ name name"
proof -
  assume "builds e cfg name r"
  then have "\<not> (\<lambda>x y. dep cfg y x)\<^sup>+\<^sup>+ name name" by (rule accp_acyclic [OF builds_accp])
  moreover have "(\<lambda>x y. dep cfg y x) = (dep cfg)\<inverse>\<inverse>" by (simp add: fun_eq_iff)
  ultimately show ?thesis by (simp add: tranclp_converse)
qed

section \<open>The code builds what the specification builds\<close>

definition cached :: "rtEnv \<Rightarrow> (string \<Rightarrow> Router option) \<Rightarrow> created \<Rightarrow> bool" where
  "cached e cfg created \<longleftrightarrow> (\<forall>m r. created m = Some r \<longrightarrow> builds e cfg m r)"

lemma parse_sound:
  "cached e cfg created \<Longrightarrow> parse n e cfg visited created name = (Inr r, v, c) \<Longrightarrow>
   builds e cfg name r \<and> cached e cfg c"
  "cached e cfg created \<Longrightarrow> parseAll n e cfg visited created crs = (Inr ris, v, c) \<Longrightarrow>
   list_all2 (\<lambda>cr ri. builds e cfg (cr_RouterName cr) ri) crs ris \<and> cached e cfg c"
proof (induction n e cfg visited created name and n e cfg visited created crs
    arbitrary: r v c and ris v c rule: parse_parseAll.induct)
  case (2 n e cfg visited created name)
  show ?case
  proof (cases "created name")
    case (Some x)
    with 2 show ?thesis by (auto simp: cached_def)
  next
    case None
    with "2.prems"(2) obtain rc where rc: "name \<notin> visited" "cfg name = Some rc"
      by (auto split: if_splits option.splits)
    show ?thesis
    proof (cases "children rc")
      case leaf: None
      with rc None "2.prems" have "leafRouter e rc = Inr r" "c = created(name \<mapsto> r)"
        by (auto split: sum.splits)
      with rc leaf "2.prems"(1) show ?thesis by (auto simp: cached_def intro: builds.leaf)
    next
      case (Some crs)
      obtain x v' c' where all: "parseAll n e cfg (insert name visited) created crs = (x, v', c')"
        by (cases "parseAll n e cfg (insert name visited) created crs")
      with rc None Some "2.prems"(2) obtain ris where x: "x = Inr ris" "r = compose rc crs ris"
        "c = c'(name \<mapsto> compose rc crs ris)" by (cases x) auto
      from "2.IH" [OF None rc(1,2) Some "2.prems"(1) all [unfolded x]]
      have ris: "list_all2 (\<lambda>cr ri. builds e cfg (cr_RouterName cr) ri) crs ris" "cached e cfg c'" by auto
      have "builds e cfg name (compose rc crs ris)" by (rule builds.node) (fact rc(2) Some ris(1))+
      with ris(2) x show ?thesis by (auto simp: cached_def)
    qed
  qed
next
  case (4 n e cfg visited created cr crs)
  obtain x v1 c1 where one: "parse n e cfg visited created (cr_RouterName cr) = (x, v1, c1)"
    by (cases "parse n e cfg visited created (cr_RouterName cr)")
  with "4.prems"(2) obtain ri where x: "x = Inr ri" by (cases x) auto
  obtain y v2 c2 where rest: "parseAll n e cfg v1 c1 crs = (y, v2, c2)" by (cases "parseAll n e cfg v1 c1 crs")
  with "4.prems"(2) one x obtain ris' where y: "y = Inr ris'" "ris = ri # ris'" "c = c2" by (cases y) auto
  from "4.IH"(1) [OF "4.prems"(1) one [unfolded x]] have 1: "builds e cfg (cr_RouterName cr) ri" "cached e cfg c1" by auto
  from "4.IH"(2) [OF one [unfolded x, symmetric] refl refl 1(2) rest [unfolded y(1)]] 1 y show ?case by simp
qed auto

definition unvisited :: "(string \<Rightarrow> Router option) \<Rightarrow> string set \<Rightarrow> nat" where
  "unvisited cfg visited = card (dom cfg - visited)"

lemma unvisited_insert:
  "finite (dom cfg) \<Longrightarrow> cfg name = Some rc \<Longrightarrow> name \<notin> visited \<Longrightarrow>
   Suc (unvisited cfg (insert name visited)) = unvisited cfg visited"
  unfolding unvisited_def by (subst Diff_insert) (auto intro!: card_Suc_Diff1)

lemma unvisited_mono: "finite (dom cfg) \<Longrightarrow> visited \<subseteq> v \<Longrightarrow> unvisited cfg v \<le> unvisited cfg visited"
  unfolding unvisited_def by (rule card_mono) auto

lemma visited_grows:
  "parse n e cfg visited created name = (x, v, c) \<Longrightarrow> visited \<subseteq> v"
  "parseAll n e cfg visited created crs = (y, v', c') \<Longrightarrow> visited \<subseteq> v'"
proof (induction n e cfg visited created name and n e cfg visited created crs
    arbitrary: x v c and y v' c' rule: parse_parseAll.induct)
  case (2 n e cfg visited created name)
  show ?case
  proof (cases "created name = None \<and> name \<notin> visited \<and> cfg name \<noteq> None")
    case False
    with "2.prems" show ?thesis by (auto split: option.splits if_splits)
  next
    case True
    then obtain rc where rc: "cfg name = Some rc" by auto
    show ?thesis
    proof (cases "children rc")
      case None
      with True rc "2.prems" show ?thesis by (auto split: sum.splits)
    next
      case (Some crs)
      obtain y w d where all: "parseAll n e cfg (insert name visited) created crs = (y, w, d)"
        by (cases "parseAll n e cfg (insert name visited) created crs")
      with "2.IH" [OF _ _ rc Some all] True have "insert name visited \<subseteq> w" by simp
      with all True rc Some "2.prems" show ?thesis by (cases y) auto
    qed
  qed
next
  case (4 n e cfg visited created cr crs)
  obtain x w d where one: "parse n e cfg visited created (cr_RouterName cr) = (x, w, d)"
    by (cases "parse n e cfg visited created (cr_RouterName cr)")
  from "4.IH"(1) [OF one] have w: "visited \<subseteq> w" .
  show ?case
  proof (cases x)
    case (Inl err)
    with one w "4.prems" show ?thesis by simp
  next
    case (Inr ri)
    obtain z u f where rest: "parseAll n e cfg w d crs = (z, u, f)" by (cases "parseAll n e cfg w d crs")
    from "4.IH"(2) [OF one [symmetric] Inr refl rest] w have "visited \<subseteq> u" by auto
    with one Inr rest "4.prems" show ?thesis by (cases z) auto
  qed
qed auto

text \<open>Names in progress, visited but not created, are exactly those the code is inside of.\<close>

definition progress :: "string set \<Rightarrow> created \<Rightarrow> string set" where
  "progress visited created = visited - dom created"

lemma parse_complete:
  "builds e cfg name r \<Longrightarrow> finite (dom cfg) \<Longrightarrow> cached e cfg created \<Longrightarrow> unvisited cfg visited < n \<Longrightarrow>
   \<forall>m \<in> progress visited created. (dep cfg)\<^sup>+\<^sup>+ m name \<Longrightarrow>
   \<exists>v c. parse n e cfg visited created name = (Inr r, v, c) \<and> progress v c = progress visited created"
  "list_all2 (\<lambda>cr ri. builds e cfg (cr_RouterName cr) ri) crs ris \<Longrightarrow> finite (dom cfg) \<Longrightarrow>
   cached e cfg created \<Longrightarrow> crs = [] \<or> unvisited cfg visited < n \<Longrightarrow>
   \<forall>m \<in> progress visited created. \<forall>cr \<in> set crs. (dep cfg)\<^sup>+\<^sup>+ m (cr_RouterName cr) \<Longrightarrow>
   \<exists>v c. parseAll n e cfg visited created crs = (Inr ris, v, c) \<and> progress v c = progress visited created"
proof (induction n e cfg visited created name and n e cfg visited created crs
    arbitrary: r and ris rule: parse_parseAll.induct)
  case (2 n e cfg visited created name)
  show ?case
  proof (cases "created name")
    case (Some x)
    with 2 have "x = r" using builds_det by (auto simp: cached_def)
    with Some show ?thesis by simp
  next
    case None
    have nv: "name \<notin> visited"
      using "2.prems"(5) None builds_acyclic [OF "2.prems"(1)] by (auto simp: progress_def)
    from "2.prems"(1) show ?thesis
    proof cases
      case (leaf rc)
      with None nv show ?thesis by (auto simp: progress_def)
    next
      case (node rc crs ris)
      let ?v = "insert name visited"
      have "\<forall>m \<in> progress ?v created. \<forall>cr \<in> set crs. (dep cfg)\<^sup>+\<^sup>+ m (cr_RouterName cr)"
      proof (intro ballI)
        fix m cr assume m: "m \<in> progress ?v created" and cr: "cr \<in> set crs"
        then have d: "dep cfg name (cr_RouterName cr)" using node by (auto simp: dep_def)
        show "(dep cfg)\<^sup>+\<^sup>+ m (cr_RouterName cr)"
        proof (cases "m = name")
          case True
          with d show ?thesis by blast
        next
          case False
          with m "2.prems"(5) have "(dep cfg)\<^sup>+\<^sup>+ m name" by (auto simp: progress_def)
          with d show ?thesis by (simp add: tranclp.trancl_into_trancl)
        qed
      qed
      moreover have "unvisited cfg ?v < n"
        using unvisited_insert [OF "2.prems"(2) node(2) nv] "2.prems"(4) by simp
      ultimately obtain v c where "parseAll n e cfg ?v created crs = (Inr ris, v, c)"
        "progress v c = progress ?v created"
        using "2.IH" [OF None nv node(2,3,4) "2.prems"(2,3)] by blast
      with None nv node show ?thesis by (auto simp: progress_def)
    qed
  qed
next
  case (4 n e cfg visited created cr crs)
  from "4.prems"(1) obtain ri ris' where ris: "ris = ri # ris'" "builds e cfg (cr_RouterName cr) ri"
    "list_all2 (\<lambda>cr ri. builds e cfg (cr_RouterName cr) ri) crs ris'" by (auto simp: list_all2_Cons1)
  have fuel: "unvisited cfg visited < n" using "4.prems"(4) by simp
  from "4.IH"(1) [OF ris(2) "4.prems"(2,3) fuel] "4.prems"(5) obtain v c where
    one: "parse n e cfg visited created (cr_RouterName cr) = (Inr ri, v, c)" "progress v c = progress visited created"
    by auto
  have "unvisited cfg v < n"
    using unvisited_mono [OF "4.prems"(2) visited_grows(1) [OF one(1)]] fuel by simp
  then obtain v2 c2 where "parseAll n e cfg v c crs = (Inr ris', v2, c2)" "progress v2 c2 = progress v c"
    using "4.IH"(2) [OF one(1) [symmetric] refl refl ris(3) "4.prems"(2)] parse_sound(1) [OF "4.prems"(3) one(1)]
      "4.prems"(5) one(2) by auto
  with one ris(1) show ?case by simp
qed auto

lemma parse_not_out_of_fuel:
  "finite (dom cfg) \<Longrightarrow> unvisited cfg visited < n \<Longrightarrow> fst (parse n e cfg visited created name) \<noteq> Inl RtFuel"
  "finite (dom cfg) \<Longrightarrow> unvisited cfg visited < n \<Longrightarrow> fst (parseAll n e cfg visited created crs) \<noteq> Inl RtFuel"
proof (induction n e cfg visited created name and n e cfg visited created crs rule: parse_parseAll.induct)
  case (2 n e cfg visited created name)
  have leaf: "leafRouter e rc \<noteq> Inl RtFuel" for rc
    by (auto simp: leafRouter_def httpRoutingFromConfig_def reframeRoutingFromConfig_def
        dhtRoutingFromConfig_def FillDefaults_def Let_def split: RouterType.splits RouterParams.splits DHTMode.splits)
  show ?case
  proof (cases "created name = None \<and> name \<notin> visited \<and> cfg name \<noteq> None")
    case False
    then show ?thesis by (auto split: option.splits)
  next
    case True
    then obtain rc where rc: "cfg name = Some rc" by auto
    show ?thesis
    proof (cases "children rc")
      case None
      with True rc leaf [of rc] show ?thesis by (auto split: sum.splits)
    next
      case (Some crs)
      have "unvisited cfg (insert name visited) < n"
        using unvisited_insert [OF "2.prems"(1) rc, of visited] True "2.prems"(2) by auto
      with "2.IH" [OF _ _ rc Some "2.prems"(1)] True
      have "fst (parseAll n e cfg (insert name visited) created crs) \<noteq> Inl RtFuel" by simp
      then show ?thesis using True rc Some by (auto split: prod.splits sum.splits)
    qed
  qed
next
  case (4 n e cfg visited created cr crs)
  from "4.IH"(1) [OF "4.prems"] have one: "fst (parse n e cfg visited created (cr_RouterName cr)) \<noteq> Inl RtFuel" .
  show ?case
  proof (cases "parse n e cfg visited created (cr_RouterName cr)")
    case (fields x v c)
    show ?thesis
    proof (cases x)
      case (Inl err)
      with one fields show ?thesis by simp
    next
      case (Inr ri)
      have "unvisited cfg v < n"
        using unvisited_mono [OF "4.prems"(1) visited_grows(1) [OF fields]] "4.prems"(2) by simp
      with "4.IH"(2) [OF fields [symmetric] Inr refl "4.prems"(1)]
      have "fst (parseAll n e cfg v c crs) \<noteq> Inl RtFuel" by simp
      with fields Inr show ?thesis by (auto split: prod.splits sum.splits)
    qed
  qed
qed auto

lemma parse_iff_builds:
  assumes "finite (dom cfg)" and "cached e cfg created" and "card (dom cfg) < n"
  shows "fst (parse n e cfg {} created name) = Inr r \<longleftrightarrow> builds e cfg name r"
proof
  assume "fst (parse n e cfg {} created name) = Inr r"
  then show "builds e cfg name r"
    using parse_sound(1) [OF assms(2), of n "{}" name r] by (cases "parse n e cfg {} created name") auto
next
  assume "builds e cfg name r"
  from parse_complete(1) [OF this assms(1,2), of "{}" n] assms(3)
  show "fst (parse n e cfg {} created name) = Inr r" by (auto simp: unvisited_def progress_def)
qed

lemma getRouter_setRouter:
  "getRouter m (setRouter m' r c) = (if m = m' \<and> m \<in> set MethodNameList then Some r else getRouter m c)"
  by (cases m; cases m') (simp_all add: MethodNameList_def)

lemma Composer_eqI:
  fixes c c' :: Composer
  assumes "\<And>m. m \<in> set MethodNameList \<Longrightarrow> getRouter m c = getRouter m c'"
  shows "c = c'"
proof -
  have "getRouter m c = getRouter m c'" if "m \<in> {MethodNameProvide, MethodNameFindProviders, MethodNameFindPeers,
      MethodNameGetIPNS, MethodNamePutIPNS}" for m
    by (rule assms) (use that in \<open>auto simp: MethodNameList_def\<close>)
  from this [of MethodNameProvide] this [of MethodNameFindProviders] this [of MethodNameFindPeers]
    this [of MethodNameGetIPNS] this [of MethodNamePutIPNS]
  show ?thesis by (intro Composer.equality) simp_all
qed

lemma parseMethods_spec:
  assumes "finite (dom cfg)" and "card (dom cfg) < n"
  shows "cached e cfg created \<Longrightarrow> distinct (map fst ms) \<Longrightarrow>
    parseMethods n e cfg created final ms = Inr cmp \<longleftrightarrow>
      (\<forall>mn name. (mn, name) \<in> set ms \<longrightarrow> (\<exists>r. builds e cfg name r)) \<and>
      (\<forall>m \<in> set MethodNameList. case map_of ms m of
          None \<Rightarrow> getRouter m cmp = getRouter m final
        | Some name \<Rightarrow> (\<exists>r. builds e cfg name r \<and> getRouter m cmp = Some r))"
proof (induction ms arbitrary: created final)
  case Nil
  show ?case using Composer_eqI [of final cmp] by auto
next
  case (Cons m ms)
  obtain mn name where m: "m = (mn, name)" by force
  obtain x v c where p: "parse n e cfg {} created name = (x, v, c)" by (cases "parse n e cfg {} created name")
  have fuel: "x \<noteq> Inl RtFuel" using parse_not_out_of_fuel(1) [OF assms(1), of "{}" n e created name] assms(2) p
    by (simp add: unvisited_def)
  note iff = parse_iff_builds [OF assms(1) Cons.prems(1) assms(2), of name]
  show ?case
  proof (cases x)
    case (Inl err)
    then have "\<nexists>r. builds e cfg name r" using iff p by auto
    with Inl p m show ?thesis by auto
  next
    case (Inr r)
    have b: "builds e cfg name r" "cached e cfg c" using parse_sound(1) [OF Cons.prems(1) p [unfolded Inr]] by auto
    have u: "builds e cfg name r' \<longleftrightarrow> r' = r" for r' using builds_det [OF b(1)] b(1) by blast
    have notin: "map_of ms mn = None" using Cons.prems(2) m by (simp add: map_of_eq_None_iff)
    have "parseMethods n e cfg created final (m # ms) = parseMethods n e cfg c (setRouter mn r final) ms"
      using m p Inr by simp
    also have "\<dots> = Inr cmp \<longleftrightarrow> (\<forall>mn name. (mn, name) \<in> set ms \<longrightarrow> (\<exists>r. builds e cfg name r)) \<and>
      (\<forall>m \<in> set MethodNameList. case map_of ms m of
          None \<Rightarrow> getRouter m cmp = getRouter m (setRouter mn r final)
        | Some name \<Rightarrow> (\<exists>r. builds e cfg name r \<and> getRouter m cmp = Some r))"
      using Cons.IH [OF b(2)] Cons.prems(2) by simp
    also have "(\<forall>k \<in> set MethodNameList. case map_of ms k of
          None \<Rightarrow> getRouter k cmp = getRouter k (setRouter mn r final)
        | Some name \<Rightarrow> (\<exists>r. builds e cfg name r \<and> getRouter k cmp = Some r)) \<longleftrightarrow>
      (\<forall>k \<in> set MethodNameList. case map_of (m # ms) k of
          None \<Rightarrow> getRouter k cmp = getRouter k final
        | Some name \<Rightarrow> (\<exists>r. builds e cfg name r \<and> getRouter k cmp = Some r))"
      using notin u by (intro ball_cong refl) (auto simp: m getRouter_setRouter split: option.splits)
    finally show ?thesis using m b(1) by auto
  qed
qed

section \<open>Properties\<close>

text \<open>
  C20. \<^verbatim>\<open>Parse\<close> implements the specification: for a table with every supported method
  and no other, in whatever order Go iterates over it, it succeeds exactly when each of the
  named routers is built by its configuration (so it is defined, well-formed and not part of a
  dependency loop), and then every method is routed by exactly that router.
\<close>

theorem parsed_routers_are_what_is_configured:
  assumes "Methods_Check methods = None" and "distinct (map fst methods)"
  shows "Parse e routers methods = Inr cmp \<longleftrightarrow>
    (\<forall>m \<in> set MethodNameList. \<exists>name r. map_of methods m = Some name \<and>
       builds e (map_of routers) name r \<and> getRouter m cmp = Some r)"
proof -
  have all: "map_of methods m \<noteq> None" if "m \<in> set MethodNameList" for m
    using assms(1) that by (auto simp: Methods_Check_def filter_empty_conv split: list.splits)
  have only: "fst p \<in> set MethodNameList" if "p \<in> set methods" for p
    using assms(1) that by (auto simp: Methods_Check_def filter_empty_conv split: list.splits)
  have fin: "finite (dom (map_of routers))" by (rule finite_dom_map_of)
  have "card (dom (map_of routers)) \<le> length routers"
    unfolding dom_map_of_conv_image_fst by (metis card_image_le card_length finite_set le_trans)
  then have n: "card (dom (map_of routers)) < Suc (length routers)" by simp
  have "cached e (map_of routers) Map.empty" by (simp add: cached_def)
  from parseMethods_spec [OF fin n this assms(2), of noRouters cmp] assms(1)
  have "Parse e routers methods = Inr cmp \<longleftrightarrow>
      (\<forall>mn name. (mn, name) \<in> set methods \<longrightarrow> (\<exists>r. builds e (map_of routers) name r)) \<and>
      (\<forall>m \<in> set MethodNameList. case map_of methods m of
          None \<Rightarrow> getRouter m cmp = getRouter m noRouters
        | Some name \<Rightarrow> (\<exists>r. builds e (map_of routers) name r \<and> getRouter m cmp = Some r))"
    by (simp add: Parse_def)
  also have "\<dots> \<longleftrightarrow> (\<forall>m \<in> set MethodNameList. \<exists>name r. map_of methods m = Some name \<and>
       builds e (map_of routers) name r \<and> getRouter m cmp = Some r)" (is "?A \<and> ?B \<longleftrightarrow> ?C")
  proof
    assume "?A \<and> ?B"
    then show ?C using all by (fastforce split: option.splits)
  next
    assume c: ?C
    then have ?B by (auto split: option.splits)
    moreover have ?A
    proof (intro allI impI)
      fix mn name assume mem: "(mn, name) \<in> set methods"
      then have "map_of methods mn = Some name" using assms(2) by simp
      with c only [OF mem] show "\<exists>r. builds e (map_of routers) name r" by fastforce
    qed
    ultimately show "?A \<and> ?B" by blast
  qed
  finally show ?thesis .
qed

definition okRt :: rtEnv where
  "okRt = \<lparr> privKeyOk = True, addrInfoOk = True, clientErr = (\<lambda>_. False), maxProcs = 4, hasExtraReframe = True \<rparr>"

definition demoRouters :: "(string \<times> Router) list" where
  "demoRouters = [(''dht'', \<lparr> rt_Type = RouterTypeDHT, rt_Parameters = DHTRouterParams DHTModeAuto False True \<rparr>),
     (''all'', \<lparr> rt_Type = RouterTypeSequential, rt_Parameters = ComposableRouterParams
        [\<lparr> cr_RouterName = ''dht'', cr_Timeout = 5, cr_IgnoreErrors = True, cr_ExecuteAfter = None \<rparr>] \<rparr>)]"

definition demoMethods :: Methods where
  "demoMethods = map (\<lambda>m. (m, ''all'')) MethodNameList"

theorem parsed_routers_are_what_is_configured_witness:
  "\<exists>cmp. Parse okRt demoRouters demoMethods = Inr cmp \<and>
     getRouter MethodNameProvide cmp = Some (ComposableSequential [(DHTRouter DHTModeAuto True, True, 5)])"
proof -
  let ?r = "ComposableSequential [(DHTRouter DHTModeAuto True, True, 5)]"
  let ?c = "\<lparr> GetValueRouter = Some ?r, PutValueRouter = Some ?r, FindPeersRouter = Some ?r,
     FindProvidersRouter = Some ?r, ProvideRouter = Some ?r \<rparr>"
  have "builds okRt (map_of demoRouters) ''dht'' (DHTRouter DHTModeAuto True)"
    by (rule builds.leaf [where rc = "\<lparr> rt_Type = RouterTypeDHT, rt_Parameters = DHTRouterParams DHTModeAuto False True \<rparr>"])
      (simp_all add: demoRouters_def children_def leafRouter_def dhtRoutingFromConfig_def okRt_def)
  then have "builds okRt (map_of demoRouters) ''all''
      (compose (the (map_of demoRouters ''all'')) (the (children (the (map_of demoRouters ''all'')))) [DHTRouter DHTModeAuto True])"
    by (rule_tac builds.node) (simp_all add: demoRouters_def children_def)
  then have b: "builds okRt (map_of demoRouters) ''all'' ?r"
    by (simp add: demoRouters_def children_def compose_def sequentialEntry_def)
  have "Methods_Check demoMethods = None" "distinct (map fst demoMethods)"
    "\<forall>m \<in> set MethodNameList. map_of demoMethods m = Some ''all''"
    by (simp_all add: Methods_Check_def demoMethods_def MethodNameList_def)
  with parsed_routers_are_what_is_configured [of demoMethods okRt demoRouters ?c] b
  have "Parse okRt demoRouters demoMethods = Inr ?c" by (auto simp: MethodNameList_def)
  then show ?thesis by simp
qed

text \<open>
  C38. Construction always ends: whatever the configuration, however its routers refer to each
  other, the recursion is never deeper than the number of routers; a router that needs
  itself is refused with an error.
\<close>

theorem router_construction_terminates:
  "Parse e routers methods \<noteq> Inl RtFuel \<and>
   ((dep (map_of routers))\<^sup>+\<^sup>+ name name \<longrightarrow> \<not> isOk (fst (parse (Suc (length routers)) e (map_of routers) {} Map.empty name)))"
proof -
  have fin: "finite (dom (map_of routers))" by (rule finite_dom_map_of)
  have "card (dom (map_of routers)) \<le> length routers"
    unfolding dom_map_of_conv_image_fst by (metis card_image_le card_length finite_set le_trans)
  then have n: "unvisited (map_of routers) {} < Suc (length routers)" by (simp add: unvisited_def)
  have "parseMethods (Suc (length routers)) e (map_of routers) created final ms \<noteq> Inl RtFuel" for created final ms
  proof (induction ms arbitrary: created final)
    case (Cons m ms)
    obtain mn nm where m: "m = (mn, nm)" by force
    obtain x v c where p: "parse (Suc (length routers)) e (map_of routers) {} created nm = (x, v, c)"
      by (cases "parse (Suc (length routers)) e (map_of routers) {} created nm")
    then have "x \<noteq> Inl RtFuel" using parse_not_out_of_fuel(1) [OF fin n, of e created nm] by simp
    with Cons m p show ?case by (cases x) (simp_all del: parse.simps)
  qed simp
  moreover have "isOk (fst (parse (Suc (length routers)) e (map_of routers) {} Map.empty name)) \<Longrightarrow>
      \<not> (dep (map_of routers))\<^sup>+\<^sup>+ name name"
    using parse_sound(1) [of e "map_of routers" Map.empty] builds_acyclic
    by (cases "parse (Suc (length routers)) e (map_of routers) {} Map.empty name")
      (fastforce simp: isOk_iff cached_def simp del: parse.simps)
  moreover have "Methods_Check methods \<noteq> Some RtFuel"
    by (auto simp: Methods_Check_def split: list.splits)
  ultimately show ?thesis by (auto simp: Parse_def split: option.splits)
qed

theorem router_construction_terminates_witness:
  "\<not> isOk (fst (parse 2 okRt (map_of [(''a'', \<lparr> rt_Type = RouterTypeSequential, rt_Parameters = ComposableRouterParams
        [\<lparr> cr_RouterName = ''a'', cr_Timeout = 0, cr_IgnoreErrors = False, cr_ExecuteAfter = None \<rparr>] \<rparr>)]) {} Map.empty ''a''))"
proof -
  let ?rs = "[(''a'', \<lparr> rt_Type = RouterTypeSequential, rt_Parameters = ComposableRouterParams
        [\<lparr> cr_RouterName = ''a'', cr_Timeout = 0, cr_IgnoreErrors = False, cr_ExecuteAfter = None \<rparr>] \<rparr>)]"
  have "(dep (map_of ?rs))\<^sup>+\<^sup>+ ''a'' ''a''" by (rule tranclp.r_into_trancl) (simp add: dep_def children_def)
  then show ?thesis using router_construction_terminates [of okRt ?rs "[]" "''a''"] by (simp add: numeral_2_eq_2 del: parse.simps)
qed

end
