(* ===== verification/PluginLoader.thy ===== *)
theory PluginLoader
  imports Datastores
begin

text \<open>
  \<^verbatim>\<open>plugin/loader/loader.go\<close>: the loader of plugins, a state machine from loading over
  initialising, injecting and starting to closing.

  \<^item> A plugin is the record of the interfaces it implements, with the outcome of each of its
    methods (\<open>None\<close>: not implemented, \<open>Some ok\<close> otherwise).
  \<^item> The map of plugins is the list of its entries; Go iterates over it in some order, and no
    property below depends on which.
  \<^item> \<open>ld_startLog\<close> and \<open>ld_closeLog\<close> record every successful \<^verbatim>\<open>Start\<close> and every
    \<^verbatim>\<open>Close\<close> of a plugin.  The registry of datastore types is the one of the theory
    Datastores.
  \<^item> What is found in the plugin directory, after the checks of \<^verbatim>\<open>loadDynamicPlugins\<close> on each
    file, is loaded by \<^verbatim>\<open>loadPluginFunc\<close>, the dynamic loader of the platform.
\<close>

datatype loaderState =
    loaderLoading | loaderInitializing | loaderInitialized | loaderInjecting | loaderInjected
  | loaderStarting | loaderStarted | loaderClosing | loaderClosed | loaderFailed

fun loaderState_String :: "loaderState \<Rightarrow> string" where
  "loaderState_String loaderLoading = ''Loading''"
| "loaderState_String loaderInitializing = ''Initializing''"
| "loaderState_String loaderInitialized = ''Initialized''"
| "loaderState_String loaderInjecting = ''Injecting''"
| "loaderState_String loaderInjected = ''Injected''"
| "loaderState_String loaderStarting = ''Starting''"
| "loaderState_String loaderStarted = ''Started''"
| "loaderState_String loaderClosing = ''Closing''"
| "loaderState_String loaderClosed = ''Closed''"
| "loaderState_String loaderFailed = ''Failed''"

record plugin =
  pl_Name :: string
  pl_Version :: string
  pl_Init :: bool
  pl_IPLD :: "bool option"
  pl_Tracer :: "bool option"
  pl_Datastore :: "(string \<times> ConfigFromMap) option"
  pl_Fx :: bool
  pl_Daemon :: "bool option"
  pl_DaemonInternal :: "bool option"
  pl_Closer :: "bool option"

datatype ld_err =
    WrongState loaderState loaderState
  | Duplicated string string string
  | InitFailed string | InjectFailed string | StartFailed string
  | CoreAPIFailed | CloseFailed "string list"
  | DirError | ConfigError

record PluginLoader =
  ld_state :: loaderState
  ld_plugins :: "(string \<times> plugin) list"
  ld_started :: "plugin list"
  ld_disabled :: "string \<Rightarrow> bool"
  ld_registry :: "string \<Rightarrow> ConfigFromMap option"
  ld_startLog :: "plugin list"
  ld_closeLog :: "plugin list"

type_synonym ldResult = "ld_err option \<times> PluginLoader"

definition assertState :: "loaderState \<Rightarrow> PluginLoader \<Rightarrow> ld_err option" where
  "assertState st l = (if ld_state l \<noteq> st then Some (WrongState st (ld_state l)) else None)"

definition transition :: "loaderState \<Rightarrow> loaderState \<Rightarrow> PluginLoader \<Rightarrow> ldResult" where
  "transition from' to l =
     (case assertState from' l of Some err \<Rightarrow> (Some err, l) | None \<Rightarrow> (None, l\<lparr> ld_state := to \<rparr>))"

section \<open>Loading\<close>

definition Load :: "plugin \<Rightarrow> PluginLoader \<Rightarrow> ldResult" where
  "Load pl l =
     (case assertState loaderLoading l of
        Some err \<Rightarrow> (Some err, l)
      | None \<Rightarrow>
          (case map_of (ld_plugins l) (pl_Name pl) of
             Some ppl \<Rightarrow> (Some (Duplicated (pl_Name pl) (pl_Version ppl) (pl_Version pl)), l)
           | None \<Rightarrow>
               if ld_disabled l (pl_Name pl) then (None, l)
               else (None, l\<lparr> ld_plugins := (pl_Name pl, pl) # ld_plugins l \<rparr>)))"

fun loadAll :: "plugin list \<Rightarrow> PluginLoader \<Rightarrow> ldResult" where
  "loadAll [] l = (None, l)"
| "loadAll (pl # pls) l = (case Load pl l of (Some err, l1) \<Rightarrow> (Some err, l1) | (None, l1) \<Rightarrow> loadAll pls l1)"

text \<open>
  A file in the plugin directory: is it a directory, is it executable, what does the dynamic
  loader return for it.
\<close>

record pluginFile =
  pf_IsDir :: bool
  pf_Executable :: bool
  pf_Load :: "plugin list option"

fun loadDynamicPlugins :: "pluginFile list \<Rightarrow> ld_err + plugin list" where
  "loadDynamicPlugins [] = Inr []"
| "loadDynamicPlugins (f # fs) =
     (if pf_IsDir f \<or> \<not> pf_Executable f then loadDynamicPlugins fs
      else case pf_Load f of
        None \<Rightarrow> Inl DirError
      | Some pls \<Rightarrow> bindS (loadDynamicPlugins fs) (\<lambda>ps. Inr (pls @ ps)))"

text \<open>\<open>dir\<close> is \<open>None\<close> when the directory does not exist.\<close>

definition LoadDirectory :: "pluginFile list option \<Rightarrow> PluginLoader \<Rightarrow> ldResult" where
  "LoadDirectory dir l =
     (case assertState loaderLoading l of
        Some err \<Rightarrow> (Some err, l)
      | None \<Rightarrow>
          (case (case dir of None \<Rightarrow> Inr [] | Some fs \<Rightarrow> loadDynamicPlugins fs) of
             Inl err \<Rightarrow> (Some err, l)
           | Inr newPls \<Rightarrow> loadAll newPls l))"

definition emptyLoader :: "(string \<Rightarrow> bool) \<Rightarrow> (string \<Rightarrow> ConfigFromMap option) \<Rightarrow> PluginLoader" where
  "emptyLoader dis reg = \<lparr> ld_state = loaderLoading, ld_plugins = [], ld_started = [], ld_disabled = dis,
     ld_registry = reg, ld_startLog = [], ld_closeLog = [] \<rparr>"

definition NewPluginLoader ::
  "ld_err + (string \<Rightarrow> bool) \<Rightarrow> plugin list \<Rightarrow> pluginFile list option \<Rightarrow>
   (string \<Rightarrow> ConfigFromMap option) \<Rightarrow> ld_err + PluginLoader" where
  "NewPluginLoader cfg preload dir reg =
     bindS cfg (\<lambda>dis.
       case loadAll preload (emptyLoader dis reg) of
         (Some err, _) \<Rightarrow> Inl err
       | (None, l1) \<Rightarrow> (case LoadDirectory dir l1 of (Some err, _) \<Rightarrow> Inl err | (None, l2) \<Rightarrow> Inr l2))"

section \<open>Initialising and injecting\<close>

definition Initialize :: "PluginLoader \<Rightarrow> ldResult" where
  "Initialize l =
     (case transition loaderLoading loaderInitializing l of
        (Some err, l1) \<Rightarrow> (Some err, l1)
      | (None, l1) \<Rightarrow>
          (case filter (\<lambda>p. \<not> pl_Init (snd p)) (ld_plugins l1) of
             p # _ \<Rightarrow> (Some (InitFailed (fst p)), l1\<lparr> ld_state := loaderFailed \<rparr>)
           | [] \<Rightarrow> transition loaderInitializing loaderInitialized l1))"

definition injectDatastorePlugin ::
  "string \<times> ConfigFromMap \<Rightarrow> (string \<Rightarrow> ConfigFromMap option) \<Rightarrow> bool \<times> (string \<Rightarrow> ConfigFromMap option)" where
  "injectDatastorePlugin d reg = AddDatastoreConfigHandler (fst d) (snd d) reg"

text \<open>One plugin: whether it was injected, and the registry after it.\<close>

definition injectPlugin ::
  "plugin \<Rightarrow> (string \<Rightarrow> ConfigFromMap option) \<Rightarrow> bool \<times> (string \<Rightarrow> ConfigFromMap option)" where
  "injectPlugin pl reg =
     (if pl_IPLD pl = Some False \<or> pl_Tracer pl = Some False then (False, reg)
      else case pl_Datastore pl of None \<Rightarrow> (True, reg) | Some d \<Rightarrow> injectDatastorePlugin d reg)"

fun injectAll ::
  "(string \<times> plugin) list \<Rightarrow> (string \<Rightarrow> ConfigFromMap option) \<Rightarrow> ld_err option \<times> (string \<Rightarrow> ConfigFromMap option)" where
  "injectAll [] reg = (None, reg)"
| "injectAll (p # ps) reg =
     (case injectPlugin (snd p) reg of
        (False, reg1) \<Rightarrow> (Some (InjectFailed (fst p)), reg1)
      | (True, reg1) \<Rightarrow> injectAll ps reg1)"

definition Inject :: "PluginLoader \<Rightarrow> ldResult" where
  "Inject l =
     (case transition loaderInitialized loaderInjecting l of
        (Some err, l1) \<Rightarrow> (Some err, l1)
      | (None, l1) \<Rightarrow>
          (case injectAll (ld_plugins l1) (ld_registry l1) of
             (Some err, reg) \<Rightarrow> (Some err, l1\<lparr> ld_registry := reg, ld_state := loaderFailed \<rparr>)
           | (None, reg) \<Rightarrow> transition loaderInjecting loaderInjected (l1\<lparr> ld_registry := reg \<rparr>)))"

section \<open>Closing and starting\<close>

definition closeStarted :: "plugin list \<Rightarrow> string list" where
  "closeStarted ps = map pl_Name (filter (\<lambda>p. pl_Closer p = Some False) ps)"

definition LoaderClose :: "PluginLoader \<Rightarrow> ldResult" where
  "LoaderClose l =
     (if ld_state l \<in> {loaderClosing, loaderFailed, loaderClosed} then (None, l)
      else
        let started = ld_started l;
            l1 = l\<lparr> ld_started := [], ld_closeLog := ld_closeLog l @ filter (\<lambda>p. pl_Closer p \<noteq> None) started \<rparr>;
            errs = closeStarted started
        in if errs \<noteq> [] then (Some (CloseFailed errs), l1\<lparr> ld_state := loaderFailed \<rparr>)
           else (None, l1\<lparr> ld_state := loaderClosed \<rparr>))"

text \<open>One of the two \<^verbatim>\<open>Start\<close> interfaces of a plugin.\<close>

definition startOne :: "bool option \<Rightarrow> plugin \<Rightarrow> PluginLoader \<Rightarrow> bool \<times> PluginLoader" where
  "startOne iface pl l =
     (case iface of
        None \<Rightarrow> (True, l)
      | Some True \<Rightarrow> (True, l\<lparr> ld_started := ld_started l @ [pl], ld_startLog := ld_startLog l @ [pl] \<rparr>)
      | Some False \<Rightarrow> (False, l))"

fun startAll :: "(string \<times> plugin) list \<Rightarrow> PluginLoader \<Rightarrow> ldResult" where
  "startAll [] l = (None, l)"
| "startAll (p # ps) l =
     (case startOne (pl_Daemon (snd p)) (snd p) l of
        (False, l1) \<Rightarrow> (Some (StartFailed (fst p)), snd (LoaderClose l1))
      | (True, l1) \<Rightarrow>
          (case startOne (pl_DaemonInternal (snd p)) (snd p) l1 of
             (False, l2) \<Rightarrow> (Some (StartFailed (fst p)), snd (LoaderClose l2))
           | (True, l2) \<Rightarrow> startAll ps l2))"

definition LoaderStart :: "bool \<Rightarrow> PluginLoader \<Rightarrow> ldResult" where
  "LoaderStart apiOk l =
     (case transition loaderInjected loaderStarting l of
        (Some err, l1) \<Rightarrow> (Some err, l1)
      | (None, l1) \<Rightarrow>
          if \<not> apiOk then (Some CoreAPIFailed, l1)
          else case startAll (ld_plugins l1) l1 of
            (Some err, l2) \<Rightarrow> (Some err, l2)
          | (None, l2) \<Rightarrow> transition loaderStarting loaderStarted l2)"

section \<open>Runs\<close>

datatype loaderOp = OpLoad plugin | OpLoadDirectory "pluginFile list option" | OpInitialize | OpInject | OpStart bool | OpClose

fun loaderStep :: "PluginLoader \<Rightarrow> loaderOp \<Rightarrow> PluginLoader" where
  "loaderStep l (OpLoad pl) = snd (Load pl l)"
| "loaderStep l (OpLoadDirectory dir) = snd (LoadDirectory dir l)"
| "loaderStep l OpInitialize = snd (Initialize l)"
| "loaderStep l OpInject = snd (Inject l)"
| "loaderStep l (OpStart apiOk) = snd (LoaderStart apiOk l)"
| "loaderStep l OpClose = snd (LoaderClose l)"

definition running :: "loaderState \<Rightarrow> bool" where
  "running st \<longleftrightarrow> st \<in> {loaderStarting, loaderStarted}"

definition ended :: "loaderState \<Rightarrow> bool" where
  "ended st \<longleftrightarrow> st \<in> {loaderClosed, loaderFailed}"

text \<open>What was started is held while the loader runs and has been closed once it has ended.\<close>

definition loaderInv :: "PluginLoader \<Rightarrow> bool" where
  "loaderInv l \<longleftrightarrow>
     (if ended (ld_state l) then ld_started l = [] \<and> ld_closeLog l = filter (\<lambda>p. pl_Closer p \<noteq> None) (ld_startLog l)
      else ld_closeLog l = [] \<and> ld_startLog l = ld_started l \<and> (\<not> running (ld_state l) \<longrightarrow> ld_started l = []))"

lemma LoaderClose_inv: "loaderInv l \<Longrightarrow> ld_state l \<noteq> loaderClosing \<Longrightarrow> loaderInv (snd (LoaderClose l)) \<and> ended (ld_state (snd (LoaderClose l)))"
  by (auto simp: LoaderClose_def loaderInv_def ended_def running_def Let_def)

lemma Load_frame:
  "loaderInv l \<Longrightarrow> loaderInv (snd (Load pl l)) \<and> ld_state (snd (Load pl l)) = ld_state l"
  by (auto simp: Load_def loaderInv_def split: option.splits)

lemma loadAll_frame: "loaderInv l \<Longrightarrow> loaderInv (snd (loadAll pls l)) \<and> ld_state (snd (loadAll pls l)) = ld_state l"
proof (induction pls arbitrary: l)
  case (Cons pl pls)
  obtain err l1 where one: "Load pl l = (err, l1)" by force
  with Load_frame [OF Cons.prems, of pl] Cons.IH [of l1] show ?case by (cases err) simp_all
qed simp

lemma LoadDirectory_frame:
  "loaderInv l \<Longrightarrow> loaderInv (snd (LoadDirectory dir l)) \<and> ld_state (snd (LoadDirectory dir l)) = ld_state l"
  by (auto simp: LoadDirectory_def loadAll_frame split: option.splits sum.splits)

lemma Load_started: "ld_started (snd (Load pl l)) = ld_started l"
  by (simp add: Load_def split: option.split)

lemma loadAll_started: "ld_started (snd (loadAll pls l)) = ld_started l"
proof (induction pls arbitrary: l)
  case (Cons pl pls)
  then show ?case using Load_started [of pl l] by (cases "Load pl l"; cases "fst (Load pl l)") simp_all
qed simp

lemma LoadDirectory_started: "ld_started (snd (LoadDirectory dir l)) = ld_started l"
  by (auto simp: LoadDirectory_def loadAll_started split: option.splits sum.splits)

lemma startOne_inv:
  "loaderInv l \<Longrightarrow> ld_state l = loaderStarting \<Longrightarrow>
   loaderInv (snd (startOne i pl l)) \<and> ld_state (snd (startOne i pl l)) = loaderStarting"
  by (auto simp: startOne_def loaderInv_def ended_def running_def split: option.splits bool.splits)

lemma startAll_inv:
  "loaderInv l \<Longrightarrow> ld_state l = loaderStarting \<Longrightarrow>
   loaderInv (snd (startAll ps l)) \<and>
   (if fst (startAll ps l) = None then ld_state (snd (startAll ps l)) = loaderStarting
    else ended (ld_state (snd (startAll ps l))))"
proof (induction ps arbitrary: l)
  case (Cons p ps)
  obtain b1 l1 where s1: "startOne (pl_Daemon (snd p)) (snd p) l = (b1, l1)" by force
  obtain b2 l2 where s2: "startOne (pl_DaemonInternal (snd p)) (snd p) l1 = (b2, l2)" by force
  from startOne_inv [OF Cons.prems, of "pl_Daemon (snd p)" "snd p"] s1
  have i1: "loaderInv l1" "ld_state l1 = loaderStarting" by auto
  from startOne_inv [OF this, of "pl_DaemonInternal (snd p)" "snd p"] s2
  have i2: "loaderInv l2" "ld_state l2 = loaderStarting" by auto
  show ?case
    using s1 s2 LoaderClose_inv [OF i1(1)] LoaderClose_inv [OF i2(1)] i1(2) i2(2) Cons.IH [OF i2]
    by (cases b1; cases b2) simp_all
qed simp

lemma LoaderStart_inv: "loaderInv l \<Longrightarrow> loaderInv (snd (LoaderStart apiOk l)) \<and> ld_state (snd (LoaderStart apiOk l)) \<noteq> loaderClosing \<or> ld_state l = loaderClosing"
proof (cases "ld_state l = loaderInjected")
  case False
  then show "loaderInv l \<Longrightarrow> ?thesis" by (auto simp: LoaderStart_def transition_def assertState_def)
next
  case True
  assume inv: "loaderInv l"
  let ?l = "l\<lparr> ld_state := loaderStarting \<rparr>"
  have i: "loaderInv ?l" "ld_state ?l = loaderStarting"
    using inv True by (simp_all add: loaderInv_def ended_def running_def)
  obtain err l2 where s: "startAll (ld_plugins ?l) ?l = (err, l2)" by force
  from startAll_inv [OF i, of "ld_plugins ?l"] s
  have "loaderInv l2" "if err = None then ld_state l2 = loaderStarting else ended (ld_state l2)" by auto
  with True i s show ?thesis
    by (cases err) (auto simp: LoaderStart_def transition_def assertState_def loaderInv_def ended_def running_def)
qed

definition loaderGood :: "PluginLoader \<Rightarrow> bool" where
  "loaderGood l \<longleftrightarrow> loaderInv l \<and> ld_state l \<notin> {loaderClosing, loaderInitializing, loaderInjecting} \<and>
     (ld_state l = loaderStarting \<longrightarrow> ld_started l = [])"

lemma loaderStep_good:
  assumes "loaderGood l"
  shows "loaderGood (loaderStep l a)"
proof -
  from assms have i: "loaderInv l" and s: "ld_state l \<notin> {loaderClosing, loaderInitializing, loaderInjecting}"
    and e: "ld_state l = loaderStarting \<Longrightarrow> ld_started l = []"
    by (simp_all add: loaderGood_def)
  show ?thesis
  proof (cases a)
    case (OpLoad pl)
    with Load_frame [OF i] s e show ?thesis by (simp add: loaderGood_def Load_started)
  next
    case (OpLoadDirectory dir)
    with LoadDirectory_frame [OF i] s e show ?thesis by (simp add: loaderGood_def LoadDirectory_started)
  next
    case OpInitialize
    with i s e show ?thesis
      by (auto simp: loaderGood_def Initialize_def transition_def assertState_def loaderInv_def ended_def running_def
          split: list.splits)
  next
    case OpInject
    with i s e show ?thesis
      by (auto simp: loaderGood_def Inject_def transition_def assertState_def loaderInv_def ended_def running_def
          split: prod.splits option.splits)
  next
    case (OpStart apiOk)
    have "ld_state (snd (LoaderStart apiOk l)) \<notin> {loaderInitializing, loaderInjecting} \<and>
        (ld_state (snd (LoaderStart apiOk l)) = loaderStarting \<longrightarrow> ld_started (snd (LoaderStart apiOk l)) = [])"
    proof (cases "ld_state l = loaderInjected")
      case False
      with s e show ?thesis by (auto simp: LoaderStart_def transition_def assertState_def)
    next
      case True
      let ?l = "l\<lparr> ld_state := loaderStarting \<rparr>"
      have l: "loaderInv ?l" "ld_state ?l = loaderStarting" "ld_started ?l = []"
        using i True by (simp_all add: loaderInv_def ended_def running_def)
      from startAll_inv [OF l(1,2), of "ld_plugins ?l"] True l(3) show ?thesis
        by (cases "startAll (ld_plugins ?l) ?l"; cases "fst (startAll (ld_plugins ?l) ?l)")
          (auto simp: LoaderStart_def transition_def assertState_def ended_def)
    qed
    with OpStart LoaderStart_inv [OF i, of apiOk] s show ?thesis by (simp add: loaderGood_def)
  next
    case OpClose
    with LoaderClose_inv [OF i] s show ?thesis by (auto simp: loaderGood_def ended_def split: if_splits)
  qed
qed

interpretation loader: guarded_machine loaderStep loaderGood
  by unfold_locales (rule loaderStep_good)

lemma NewPluginLoader_good: "NewPluginLoader cfg preload dir reg = Inr l \<Longrightarrow> loaderGood l"
proof -
  assume "NewPluginLoader cfg preload dir reg = Inr l"
  then obtain dis where dis: "(case loadAll preload (emptyLoader dis reg) of
         (Some err, _) \<Rightarrow> Inl err
       | (None, l1) \<Rightarrow> (case LoadDirectory dir l1 of (Some err, _) \<Rightarrow> Inl err | (None, l2) \<Rightarrow> Inr l2)) = Inr l"
    by (auto simp: NewPluginLoader_def bindS_eq_Inr)
  obtain e1 l1 where 1: "loadAll preload (emptyLoader dis reg) = (e1, l1)" by force
  obtain e2 l2 where 2: "LoadDirectory dir l1 = (e2, l2)" by force
  from dis 1 2 have l1: "loadAll preload (emptyLoader dis reg) = (None, l1)" "LoadDirectory dir l1 = (None, l)"
    by (cases e1; cases e2; simp)+
  have "loaderInv (emptyLoader dis reg)" by (simp add: emptyLoader_def loaderInv_def ended_def running_def)
  from loadAll_frame [OF this, of preload] l1(1) have "loaderInv l1" "ld_state l1 = loaderLoading"
    by (auto simp: emptyLoader_def)
  with LoadDirectory_frame [of l1 dir] l1(2) show ?thesis by (auto simp: loaderGood_def)
qed

section \<open>Properties\<close>

text \<open>
  C34. No started plugin is leaked: after any sequence of operations on a new loader, once it
  is closed or has failed, every plugin that was started and can be closed has been closed
  exactly as often as it was started, in the order of the starts, and nothing is closed
  before.  Between operations the loader is never initialising, injecting or closing, and it is
  starting only when nothing has been started: when the last \<^verbatim>\<open>Start\<close> found no core API.
\<close>

theorem started_plugins_are_closed_once:
  assumes "NewPluginLoader cfg preload dir reg = Inr l0" and "l = foldl loaderStep l0 ops"
  shows "(ld_state l \<in> {loaderClosed, loaderFailed} \<longrightarrow>
       ld_started l = [] \<and> ld_closeLog l = filter (\<lambda>p. pl_Closer p \<noteq> None) (ld_startLog l)) \<and>
    (ld_state l \<notin> {loaderClosed, loaderFailed} \<longrightarrow> ld_closeLog l = [] \<and> ld_started l = ld_startLog l) \<and>
    ld_state l \<notin> {loaderClosing, loaderInitializing, loaderInjecting} \<and>
    (ld_state l = loaderStarting \<longrightarrow> ld_startLog l = [])"
  using loader.run_inv [OF NewPluginLoader_good [OF assms(1)], of ops] assms(2)
  by (auto simp: loaderGood_def loaderInv_def ended_def split: if_splits)

definition daemonPlugin :: "string \<Rightarrow> bool \<Rightarrow> plugin" where
  "daemonPlugin n ok = \<lparr> pl_Name = n, pl_Version = ''0.1'', pl_Init = True, pl_IPLD = None, pl_Tracer = None,
     pl_Datastore = None, pl_Fx = False, pl_Daemon = Some ok, pl_DaemonInternal = None, pl_Closer = Some True \<rparr>"

theorem started_plugins_are_closed_once_witness:
  "\<exists>l0. NewPluginLoader (Inr (\<lambda>_. False)) [daemonPlugin ''bad'' False, daemonPlugin ''good'' True] None datastores = Inr l0 \<and>
     ld_closeLog (foldl loaderStep l0 [OpInitialize, OpInject, OpStart True]) = [daemonPlugin ''good'' True]"
proof -
  let ?p = "[daemonPlugin ''bad'' False, daemonPlugin ''good'' True]"
  let ?l0 = "(emptyLoader (\<lambda>_. False) datastores)\<lparr> ld_plugins := [(''good'', daemonPlugin ''good'' True), (''bad'', daemonPlugin ''bad'' False)] \<rparr>"
  have n: "NewPluginLoader (Inr (\<lambda>_. False)) ?p None datastores = Inr ?l0"
    by (simp add: NewPluginLoader_def Load_def assertState_def emptyLoader_def daemonPlugin_def LoadDirectory_def)
  let ?l = "foldl loaderStep ?l0 [OpInitialize, OpInject, OpStart True]"
  have "ld_state ?l = loaderClosed" "ld_startLog ?l = [daemonPlugin ''good'' True]"
    by (simp_all add: Initialize_def Inject_def LoaderStart_def transition_def assertState_def emptyLoader_def
        daemonPlugin_def injectPlugin_def startOne_def LoaderClose_def closeStarted_def Let_def)
  moreover have "pl_Closer (daemonPlugin ''good'' True) \<noteq> None" by (simp add: daemonPlugin_def)
  ultimately have "ld_closeLog ?l = [daemonPlugin ''good'' True]"
    using started_plugins_are_closed_once [OF n refl, of "[OpInitialize, OpInject, OpStart True]"] by simp
  with n show ?thesis by blast
qed

end
