(* ===== verification/GatewayHttp.thy ===== *)
theory GatewayHttp
  imports GoPath
begin

text \<open>
  The pure parts of the HTTP gateway, \<^verbatim>\<open>core/corehttp/gateway_handler.go\<close>: requests,
  response writers, entity tags, the response format, content disposition and the status codes of
  errors.

  \<^item> Header names are taken to be in canonical form; a query parameter or a header is looked up
    by its first value, as \<^verbatim>\<open>Get\<close> does.
  \<^item> \<^verbatim>\<open>mime.ParseMediaType\<close> is an argument of the functions that use it.
  \<^item> \<^verbatim>\<open>url.PathEscape\<close> is defined on bytes, the replacement of the characters that are
    not ASCII on UTF-8 sequences.
  \<^item> Of an error text the model keeps its constant part.
\<close>

section \<open>Requests and responses\<close>

datatype gwErr =
    NoErr | ErrNoLink | RoutingNotFound | IpldNotFound | DeadlineExceeded | ErrOffline | OtherErr string

record gwRequest =
  rq_Method :: string
  rq_Path :: string
  rq_RequestPath :: "string option"
  rq_RawQuery :: string
  rq_Query :: "(string \<times> string) list"
  rq_Header :: "(string \<times> string list) list"
  rq_GwHostname :: "string option"
  rq_DnslinkHostname :: "string option"

definition queryGet :: "gwRequest \<Rightarrow> string \<Rightarrow> string" where
  "queryGet r k = (case map_of (rq_Query r) k of Some v \<Rightarrow> v | None \<Rightarrow> [])"

definition headerValues :: "gwRequest \<Rightarrow> string \<Rightarrow> string list" where
  "headerValues r k = (case map_of (rq_Header r) k of Some vs \<Rightarrow> vs | None \<Rightarrow> [])"

definition headerGet :: "gwRequest \<Rightarrow> string \<Rightarrow> string" where
  "headerGet r k = (case headerValues r k of v # _ \<Rightarrow> v | [] \<Rightarrow> [])"

text \<open>Calls of the node's API, in order, and what the body of the response is made of.\<close>

datatype apiCall =
    CallResolve string | CallOfflineStat string | CallBlockGet string | CallUnixfsGet string
  | CallUnixfsLs string | CallDagGet string | CallUnixfsAdd

datatype body =
    ErrorText string gwErr
  | HtmlRedirect string
  | Content string bool
  | FileBytes string
  | DirListing string
  | TarStream string
  | CarStream string
  | DagIndex string
  | Encoded string nat

record writer =
  w_Status :: "nat option"
  w_Header :: "string \<Rightarrow> string list option"
  w_Body :: "body list"
  w_Calls :: "apiCall list"

definition newWriter :: writer where
  "newWriter = \<lparr> w_Status = None, w_Header = Map.empty, w_Body = [], w_Calls = [] \<rparr>"

definition setHeader :: "string \<Rightarrow> string \<Rightarrow> writer \<Rightarrow> writer" where
  "setHeader k v w = w\<lparr> w_Header := (w_Header w)(k \<mapsto> [v]) \<rparr>"

definition addHeader :: "string \<Rightarrow> string \<Rightarrow> writer \<Rightarrow> writer" where
  "addHeader k v w = w\<lparr> w_Header := (w_Header w)(k \<mapsto> (case w_Header w k of None \<Rightarrow> [] | Some vs \<Rightarrow> vs) @ [v]) \<rparr>"

definition delHeader :: "string \<Rightarrow> writer \<Rightarrow> writer" where
  "delHeader k w = w\<lparr> w_Header := (w_Header w)(k := None) \<rparr>"

text \<open>Only the first \<^verbatim>\<open>WriteHeader\<close> counts.\<close>

definition WriteHeader :: "nat \<Rightarrow> writer \<Rightarrow> writer" where
  "WriteHeader code w = (case w_Status w of None \<Rightarrow> w\<lparr> w_Status := Some code \<rparr> | Some _ \<Rightarrow> w)"

definition writeBody :: "body \<Rightarrow> writer \<Rightarrow> writer" where
  "writeBody b w = (WriteHeader 200 w)\<lparr> w_Body := w_Body w @ [b] \<rparr>"

definition called :: "apiCall \<Rightarrow> writer \<Rightarrow> writer" where
  "called c w = w\<lparr> w_Calls := w_Calls w @ [c] \<rparr>"

definition httpError :: "string \<Rightarrow> gwErr \<Rightarrow> nat \<Rightarrow> writer \<Rightarrow> writer" where
  "httpError msg err code w =
     writeBody (ErrorText msg err)
       (WriteHeader code (setHeader ''X-Content-Type-Options'' ''nosniff'' (setHeader ''Content-Type'' ''text/plain; charset=utf-8'' w)))"

definition httpRedirect :: "string \<Rightarrow> nat \<Rightarrow> writer \<Rightarrow> writer" where
  "httpRedirect url code w = WriteHeader code (setHeader ''Location'' url w)"

text \<open>The code \<^verbatim>\<open>statusResponseWriter\<close> writes for the one it is given.\<close>

definition statusOverride :: "writer \<Rightarrow> nat \<Rightarrow> nat" where
  "statusOverride w code =
     (if (case w_Header w ''Location'' of Some (l # _) \<Rightarrow> l \<noteq> [] | _ \<Rightarrow> False) \<and> code = 200 then 301 else code)"

section \<open>Errors\<close>

definition webErrorCode :: "gwErr \<Rightarrow> nat \<Rightarrow> nat" where
  "webErrorCode err defaultCode =
     (case err of
        ErrNoLink \<Rightarrow> 404
      | RoutingNotFound \<Rightarrow> 404
      | IpldNotFound \<Rightarrow> 404
      | DeadlineExceeded \<Rightarrow> 408
      | _ \<Rightarrow> defaultCode)"

definition webError :: "string \<Rightarrow> gwErr \<Rightarrow> nat \<Rightarrow> writer \<Rightarrow> writer" where
  "webError msg err defaultCode w = httpError msg err (webErrorCode err defaultCode) w"

definition internalWebError :: "gwErr \<Rightarrow> writer \<Rightarrow> writer" where
  "internalWebError err w = httpError ''internalWebError'' err 500 w"

record requestError =
  re_Message :: string
  re_StatusCode :: nat
  re_Err :: gwErr

definition webRequestError :: "requestError \<Rightarrow> writer \<Rightarrow> writer" where
  "webRequestError err w = webError (re_Message err) (re_Err err) (re_StatusCode err) w"

section \<open>Response format\<close>

fun formatParamType :: "string \<Rightarrow> string option" where
  "formatParamType s =
     (if s = ''raw'' then Some ''application/vnd.ipld.raw''
      else if s = ''car'' then Some ''application/vnd.ipld.car''
      else if s = ''tar'' then Some ''application/x-tar''
      else if s = ''json'' then Some ''application/json''
      else if s = ''cbor'' then Some ''application/cbor''
      else if s = ''dag-json'' then Some ''application/vnd.ipld.dag-json''
      else if s = ''dag-cbor'' then Some ''application/vnd.ipld.dag-cbor''
      else None)"

definition explicitAccept :: "string \<Rightarrow> bool" where
  "explicitAccept accept \<longleftrightarrow>
     HasPrefix accept ''application/vnd.ipld'' \<or> HasPrefix accept ''application/x-tar'' \<or>
     HasPrefix accept ''application/json'' \<or> HasPrefix accept ''application/cbor''"

type_synonym mediaParser = "string \<Rightarrow> (string \<times> (string \<times> string) list) option"

definition customResponseFormat ::
  "mediaParser \<Rightarrow> gwRequest \<Rightarrow> gwErr + string \<times> (string \<times> string) list" where
  "customResponseFormat parse r =
     (case formatParamType (queryGet r ''format'') of
        Some t \<Rightarrow> Inr (t, [])
      | None \<Rightarrow>
          let accepts = map (trimBy isSpaceASCII) (concat (map (splitc CHR '','') (headerValues r ''Accept'')))
          in case filter explicitAccept accepts of
            [] \<Rightarrow> Inr ([], [])
          | a # _ \<Rightarrow> (case parse a of None \<Rightarrow> Inl (OtherErr ''mime'') | Some m \<Rightarrow> Inr m))"

section \<open>Entity tags\<close>

definition afterLastAny :: "string \<Rightarrow> string \<Rightarrow> string" where
  "afterLastAny chars s = rev (takeWhile (\<lambda>c. c \<notin> set chars) (rev s))"

definition quote :: char where "quote = char_of (34 :: nat)"

definition getEtag :: "mediaParser \<Rightarrow> gwRequest \<Rightarrow> string \<Rightarrow> string" where
  "getEtag parse r cid =
     (case customResponseFormat parse r of
        Inr (responseFormat, _) \<Rightarrow>
          if responseFormat \<noteq> [] then [quote] @ cid @ ''.'' @ afterLastAny ''/.'' responseFormat @ [quote]
          else [quote] @ cid @ [quote]
      | Inl _ \<Rightarrow> [quote] @ cid @ [quote])"

definition getDirListingEtag :: "string \<Rightarrow> string \<Rightarrow> string" where
  "getDirListingEtag assetHash cid = [quote] @ ''DirIndex-'' @ assetHash @ ''_CID-'' @ cid @ [quote]"

definition getDagIndexEtag :: "string \<Rightarrow> string \<Rightarrow> string" where
  "getDagIndexEtag assetHash cid = [quote] @ ''DagIndex-'' @ assetHash @ ''_CID-'' @ cid @ [quote]"

definition etagWeakMatch :: "string \<Rightarrow> string \<Rightarrow> bool" where
  "etagWeakMatch a b \<longleftrightarrow> TrimPrefix a ''W/'' = TrimPrefix b ''W/''"

text \<open>Character values allowed in an entity tag.\<close>

definition etagChar :: "char \<Rightarrow> bool" where
  "etagChar c \<longleftrightarrow> (let n = (of_char c :: nat) in n = 33 \<or> (35 \<le> n \<and> n \<le> 126) \<or> 128 \<le> n)"

text \<open>The scan for the closing quote: the tag scanned so far is kept reversed.\<close>

fun scanQuoted :: "string \<Rightarrow> string \<Rightarrow> string \<times> string" where
  "scanQuoted acc [] = ([], [])"
| "scanQuoted acc (c # s) =
     (if etagChar c then scanQuoted (c # acc) s
      else if c = quote then (rev (c # acc), s) else ([], []))"

definition scanETag :: "string \<Rightarrow> string \<times> string" where
  "scanETag s0 =
     (let s = trimBy isTextprotoSpace s0;
          start = (if HasPrefix s ''W/'' then 2 else 0);
          rest = drop start s
      in case rest of
           c # d # t \<Rightarrow> if c = quote then scanQuoted (c # rev (take start s)) (d # t) else ([], [])
         | _ \<Rightarrow> ([], []))"

lemma length_scanQuoted: "length (snd (scanQuoted acc s)) \<le> length s"
  by (induction acc s rule: scanQuoted.induct) auto

lemma scanETag_shorter: "fst (scanETag s) \<noteq> [] \<Longrightarrow> length (snd (scanETag s)) < length s"
proof -
  assume ne: "fst (scanETag s) \<noteq> []"
  let ?s = "trimBy isTextprotoSpace s"
  obtain c d t where rest: "drop (if HasPrefix ?s ''W/'' then 2 else 0) ?s = c # d # t"
    using ne by (auto simp: scanETag_def Let_def split: list.splits if_splits)
  have "length (snd (scanETag s)) \<le> length (d # t)"
    using rest length_scanQuoted [of "quote # rev (take 2 ?s)" "d # t"] length_scanQuoted [of "[quote]" "d # t"]
    by (auto simp: scanETag_def Let_def simp del: scanQuoted.simps)
  also have "\<dots> < length (c # d # t)" by simp
  also have "\<dots> \<le> length ?s" using rest by (metis length_drop diff_le_self)
  finally show ?thesis using length_trimBy le_trans less_le_trans by blast
qed

function etagMatch :: "string \<Rightarrow> string \<Rightarrow> string \<Rightarrow> bool" where
  "etagMatch buf0 cidEtag dirEtag =
     (let buf = trimBy isTextprotoSpace buf0 in
      case buf of
        [] \<Rightarrow> False
      | c # rest \<Rightarrow>
          if c = CHR '','' then etagMatch rest cidEtag dirEtag
          else if c = CHR ''*'' then True
          else let etag = fst (scanETag buf) in
            if etag = [] then False
            else if etagWeakMatch etag cidEtag \<or> etagWeakMatch etag dirEtag then True
            else etagMatch (snd (scanETag buf)) cidEtag dirEtag)"
  by pat_completeness auto
termination
proof (relation "measure (\<lambda>(b, c, d). length b)", goal_cases)
  case (2 b c d buf x21 x22)
  then have "Suc (length x22) \<le> length b" using length_trimBy [of isTextprotoSpace b] by (metis length_Cons)
  then show ?case by simp
next
  case (3 b c d buf x21 x22 etag)
  then have "length (snd (scanETag (trimBy isTextprotoSpace b))) < length (trimBy isTextprotoSpace b)"
    using scanETag_shorter by metis
  also have "\<dots> \<le> length b" by (rule length_trimBy)
  finally show ?case using 3 by simp
qed simp

declare etagMatch.simps [simp del]

section \<open>File names and content disposition\<close>

definition countChar :: "char \<Rightarrow> string \<Rightarrow> nat" where
  "countChar c s = length (filter (\<lambda>d. d = c) s)"

definition getFilename :: "string \<Rightarrow> string" where
  "getFilename s =
     (if (HasPrefix s ''/ipfs/'' \<or> HasPrefix s ''/ipns/'') \<and> countChar CHR ''/'' (pathClean s) \<le> 2
      then [] else pathBase s)"

definition hexDigit :: "nat \<Rightarrow> char" where
  "hexDigit d = (if d < 10 then char_of (48 + d) else char_of (55 + d))"

definition pathUnreserved :: "char \<Rightarrow> bool" where
  "pathUnreserved c \<longleftrightarrow>
     (let n = (of_char c :: nat) in (48 \<le> n \<and> n \<le> 57) \<or> (65 \<le> n \<and> n \<le> 90) \<or> (97 \<le> n \<and> n \<le> 122)) \<or>
     c \<in> set ''-_.~$&+=:@''"

definition PathEscape :: "string \<Rightarrow> string" where
  "PathEscape s =
     concat (map (\<lambda>c. if pathUnreserved c then [c]
                      else [CHR ''%'', hexDigit ((of_char c :: nat) div 16), hexDigit ((of_char c :: nat) mod 16)]) s)"

text \<open>
  \<^verbatim>\<open>onlyASCII\<close>: every character that is not ASCII becomes an underscore.  The width of the
  first character is the one of a valid UTF-8 sequence; a byte that starts none is a character
  of its own.
\<close>

definition utf8Cont :: "nat \<Rightarrow> nat \<Rightarrow> string \<Rightarrow> bool" where
  "utf8Cont lo hi s = (case s of c # _ \<Rightarrow> lo \<le> (of_char c :: nat) \<and> (of_char c :: nat) \<le> hi | [] \<Rightarrow> False)"

definition utf8Width :: "char \<Rightarrow> string \<Rightarrow> nat" where
  "utf8Width c s =
     (let n = (of_char c :: nat);
          second = (if n = 224 then utf8Cont 160 191 s else if n = 237 then utf8Cont 128 159 s
                    else if n = 240 then utf8Cont 144 191 s else if n = 244 then utf8Cont 128 143 s
                    else utf8Cont 128 191 s)
      in if 194 \<le> n \<and> n \<le> 223 \<and> second then 2
         else if 224 \<le> n \<and> n \<le> 239 \<and> second \<and> utf8Cont 128 191 (drop 1 s) then 3
         else if 240 \<le> n \<and> n \<le> 244 \<and> second \<and> utf8Cont 128 191 (drop 1 s) \<and> utf8Cont 128 191 (drop 2 s) then 4
         else 1)"

function onlyASCIIReplace :: "string \<Rightarrow> string" where
  "onlyASCIIReplace [] = []"
| "onlyASCIIReplace (c # s) =
     (if (of_char c :: nat) < 128 then c # onlyASCIIReplace s
      else CHR ''_'' # onlyASCIIReplace (drop (utf8Width c s - 1) s))"
  by pat_completeness auto
termination
  by (relation "measure length") auto

definition dispositionText :: "string \<Rightarrow> string \<Rightarrow> string" where
  "dispositionText filename disposition =
     disposition @ ''; filename='' @ [quote] @ PathEscape (onlyASCIIReplace filename) @ [quote]
       @ ''; filename*=UTF-8'' @ [char_of (39 :: nat), char_of (39 :: nat)] @ PathEscape filename"

definition setContentDispositionHeader :: "string \<Rightarrow> string \<Rightarrow> writer \<Rightarrow> writer" where
  "setContentDispositionHeader filename disposition w =
     setHeader ''Content-Disposition'' (dispositionText filename disposition) w"

definition addContentDispositionHeader :: "gwRequest \<Rightarrow> string \<Rightarrow> writer \<Rightarrow> string \<times> writer" where
  "addContentDispositionHeader r contentPath w =
     (let name = getFilename contentPath; urlFilename = queryGet r ''filename'' in
      if urlFilename \<noteq> []
      then (urlFilename, setContentDispositionHeader urlFilename
              (if queryGet r ''download'' = ''true'' then ''attachment'' else ''inline'') w)
      else (name, w))"

text \<open>The modification time returned: now (\<open>True\<close>) or the one that disables the header.\<close>

definition addCacheControlHeaders ::
  "mediaParser \<Rightarrow> (string \<Rightarrow> bool) \<Rightarrow> gwRequest \<Rightarrow> string \<Rightarrow> string \<Rightarrow> writer \<Rightarrow> bool \<times> writer" where
  "addCacheControlHeaders parse mutable r contentPath cid w =
     (let w1 = setHeader ''Etag'' (getEtag parse r cid) w in
      if mutable contentPath then (True, w1)
      else (False, setHeader ''Cache-Control'' ''public, max-age=29030400, immutable'' w1))"

end
