(* ===== verification/Gateway.thy ===== *)
theory Gateway
  imports GatewayHttp
begin

text \<open>
  The request flow of the HTTP gateway: \<^verbatim>\<open>gateway_handler.go\<close> and the files
  \<^verbatim>\<open>gateway_handler_{unixfs__redirects,unixfs,unixfs_file,unixfs_dir,codec,block,car,tar}.go\<close>
  of \<^verbatim>\<open>core/corehttp\<close>.

  \<^item> A handler takes the response writer and returns it; a handler that may finish the request
    also returns whether it did.
  \<^item> The node's API, paths (\<^verbatim>\<open>ipath\<close>), the parser of \<^verbatim>\<open>_redirects\<close> files, MIME
    detection and URL parsing are fields of \<open>gwEnv\<close>.  Every call of the API is recorded in the
    writer, so that what is fetched, and when, can be stated.
  \<^item> The reply of \<^verbatim>\<open>http.ServeContent\<close> is the body \<open>Content\<close>; its status (200, 206, 304,
    416) depends on range and condition headers and is the standard library's.
  \<^item> \<^verbatim>\<open>http.Redirect\<close> is its status and \<^verbatim>\<open>Location\<close>; that it makes a relative location absolute,
    and the short HTML body it adds for GET, are not represented.
  \<^item> A panic is recovered by \<^verbatim>\<open>ServeHTTP\<close>: the handler stops with what it has written.
\<close>

record resolved =
  rs_Cid :: string
  rs_Codec :: nat
  rs_String :: string
  rs_Remainder :: string

datatype fsNode = FileNode "nat option" bool | DirNode | OtherNode

record rule =
  ru_Match :: "string \<Rightarrow> string option"
  ru_Status :: nat

record gwEnv =
  parseMedia :: mediaParser
  assetHash :: string
  pathNew :: "string \<Rightarrow> string"
  pathValid :: "string \<Rightarrow> bool"
  pathMutable :: "string \<Rightarrow> bool"
  pathNamespace :: "string \<Rightarrow> string"
  pathAppend :: "string \<Rightarrow> string \<Rightarrow> string"
  ResolvePath :: "string \<Rightarrow> gwErr + resolved"
  offlineHas :: "string \<Rightarrow> bool"
  blockGet :: "string \<Rightarrow> gwErr"
  unixfsGet :: "string \<Rightarrow> gwErr + fsNode"
  unixfsLs :: "string \<Rightarrow> gwErr + (gwErr + string) list"
  copyFails :: "string \<Rightarrow> bool"
  parseRules :: "string \<Rightarrow> gwErr + rule list"
  urlParse :: "string \<Rightarrow> (string \<times> string \<times> string \<times> string) option"
  encodeQuery :: "string \<Rightarrow> string"
  typeByExtension :: "string \<Rightarrow> string"
  detectType :: "string \<Rightarrow> gwErr + string"
  dagEncode :: "string \<Rightarrow> nat \<Rightarrow> gwErr"
  carWrite :: "string \<Rightarrow> gwErr"
  tarWrite :: "string \<Rightarrow> gwErr"
  userHeaders :: "(string \<times> string list) list"
  writable :: bool

definition addUserHeaders :: "gwEnv \<Rightarrow> writer \<Rightarrow> writer" where
  "addUserHeaders e w = foldl (\<lambda>w (k, v). w\<lparr> w_Header := (w_Header w)(k \<mapsto> v) \<rparr>) w (userHeaders e)"

definition resolveCall :: "gwEnv \<Rightarrow> string \<Rightarrow> writer \<Rightarrow> (gwErr + resolved) \<times> writer" where
  "resolveCall e p w = (ResolvePath e p, called (CallResolve p) w)"

section \<open>Checks before anything is resolved\<close>

definition handleUnsupportedHeaders :: "gwRequest \<Rightarrow> requestError option" where
  "handleUnsupportedHeaders r =
     (if headerGet r ''X-Ipfs-Gateway-Prefix'' \<noteq> []
      then Some \<lparr> re_Message = ''unsupported HTTP header'', re_StatusCode = 400,
                  re_Err = OtherErr ''X-Ipfs-Gateway-Prefix support was removed'' \<rparr>
      else None)"

definition handleProtocolHandlerRedirect :: "gwEnv \<Rightarrow> gwRequest \<Rightarrow> writer \<Rightarrow> bool \<times> writer" where
  "handleProtocolHandlerRedirect e r w =
     (let uriParam = queryGet r ''uri'' in
      if uriParam = [] then (False, w)
      else case urlParse e uriParam of
        None \<Rightarrow> (True, webError ''failed to parse uri query parameter'' (OtherErr ''url'') 400 w)
      | Some (scheme, host, path, rawQuery) \<Rightarrow>
          if scheme \<noteq> ''ipfs'' \<and> scheme \<noteq> ''ipns''
          then (True, webError ''uri query parameter scheme must be ipfs or ipns'' NoErr 400 w)
          else (True, httpRedirect
                  (pathJoin [''/'', scheme, host, path @ (if rawQuery \<noteq> [] then ''?'' @ rawQuery else [])]) 301 w))"

text \<open>\<^verbatim>\<open>^/ip[fn]s/[^/]+$\<close>\<close>

definition namespaceRoot :: "string \<Rightarrow> bool" where
  "namespaceRoot p \<longleftrightarrow>
     (HasPrefix p ''/ipfs/'' \<or> HasPrefix p ''/ipns/'') \<and> drop 6 p \<noteq> [] \<and> CHR ''/'' \<notin> set (drop 6 p)"

definition handleServiceWorkerRegistration :: "gwRequest \<Rightarrow> requestError option" where
  "handleServiceWorkerRegistration r =
     (if headerGet r ''Service-Worker'' = ''script'' \<and> namespaceRoot (rq_Path r)
      then Some \<lparr> re_Message = ''navigator.serviceWorker'', re_StatusCode = 400,
                  re_Err = OtherErr ''registration is not allowed for this scope'' \<rparr>
      else None)"

definition handleOnlyIfCached :: "gwEnv \<Rightarrow> gwRequest \<Rightarrow> string \<Rightarrow> writer \<Rightarrow> bool \<times> writer" where
  "handleOnlyIfCached e r contentPath w =
     (if headerGet r ''Cache-Control'' = ''only-if-cached''
      then let w1 = called (CallOfflineStat contentPath) w in
        if \<not> offlineHas e contentPath
        then if rq_Method r = ''HEAD'' then (True, WriteHeader 412 w1)
             else (True, httpError ''not in local datastore'' NoErr 412 w1)
        else if rq_Method r = ''HEAD'' then (True, WriteHeader 200 w1)
        else (False, w1)
      else (False, w))"

definition handleSuperfluousNamespace :: "gwEnv \<Rightarrow> gwRequest \<Rightarrow> string \<Rightarrow> writer \<Rightarrow> bool \<times> writer" where
  "handleSuperfluousNamespace e r contentPath w =
     (if pathValid e contentPath then (False, w)
      else if \<not> (HasPrefix (rq_Path r) ''/ipfs/ipfs/'' \<or> HasPrefix (rq_Path r) ''/ipfs/ipns/'') then (False, w)
      else let intendedPath = pathNew e (TrimPrefix (rq_Path r) ''/ipfs'') in
        if \<not> pathValid e intendedPath then (True, webError ''invalid ipfs path'' (OtherErr ''path'') 400 w)
        else let intendedURL = intendedPath @ (if rq_RawQuery r \<noteq> [] then ''?'' @ encodeQuery e (rq_RawQuery r) else [])
          in (True, writeBody (HtmlRedirect intendedURL) (WriteHeader 400 w)))"

section \<open>The redirects file\<close>

definition hasOriginIsolation :: "gwRequest \<Rightarrow> bool" where
  "hasOriginIsolation r \<longleftrightarrow> rq_GwHostname r \<noteq> None \<or> rq_DnslinkHostname r \<noteq> None"

definition isUnixfsResponseFormat :: "string \<Rightarrow> bool" where
  "isUnixfsResponseFormat responseFormat \<longleftrightarrow> responseFormat = []"

text \<open>\<open>None\<close>: the index is out of range.\<close>

definition getRootPath :: "gwEnv \<Rightarrow> string \<Rightarrow> string option" where
  "getRootPath e path =
     (let parts = splitc CHR ''/'' path in
      if length parts < 3 then None else Some (pathNew e (pathJoin [''/'', pathNamespace e path, parts ! 2])))"

definition serve4xx :: "gwEnv \<Rightarrow> gwRequest \<Rightarrow> string \<Rightarrow> nat \<Rightarrow> writer \<Rightarrow> gwErr \<times> writer" where
  "serve4xx e r content4xxPath status w =
     (case resolveCall e content4xxPath w of
        (Inl err, w1) \<Rightarrow> (err, w1)
      | (Inr rs, w1) \<Rightarrow>
          let w2 = called (CallUnixfsGet (rs_String rs)) w1 in
          (case unixfsGet e (rs_String rs) of
             Inl err \<Rightarrow> (err, w2)
           | Inr (FileNode None _) \<Rightarrow> (OtherErr ''could not get size of page'', w2)
           | Inr (FileNode (Some sz) _) \<Rightarrow>
               let w3 = setHeader ''Content-Length'' (decNat sz) (setHeader ''Content-Type'' ''text/html'' w2);
                   w4 = snd (addCacheControlHeaders (parseMedia e) (pathMutable e) r content4xxPath (rs_Cid rs) w3)
               in (if copyFails e (rs_String rs) then OtherErr ''copy'' else NoErr,
                   writeBody (FileBytes (rs_String rs)) (WriteHeader status w4))
           | Inr _ \<Rightarrow> (OtherErr ''could not convert node for page to file'', w2)))"

text \<open>The loop over the rules: was a reply given, the new path, the error.\<close>

fun matchRules ::
  "gwEnv \<Rightarrow> gwRequest \<Rightarrow> string \<Rightarrow> string \<Rightarrow> rule list \<Rightarrow> writer \<Rightarrow> (bool \<times> string \<times> gwErr) \<times> writer" where
  "matchRules e r rootPath urlPath [] w = ((False, [], NoErr), w)"
| "matchRules e r rootPath urlPath (rule # rules) w =
     (case ru_Match rule urlPath of
        None \<Rightarrow> matchRules e r rootPath urlPath rules w
      | Some to' \<Rightarrow>
          if ru_Status rule = 200 then ((False, rootPath @ to', NoErr), w)
          else if ru_Status rule \<in> {404, 410, 451}
          then (case serve4xx e r (pathNew e (rootPath @ to')) (ru_Status rule) w of
                  (err, w1) \<Rightarrow> ((True, rootPath @ to', err), w1))
          else if 301 \<le> ru_Status rule \<and> ru_Status rule \<le> 308
          then ((True, [], NoErr), httpRedirect to' (ru_Status rule) w)
          else matchRules e r rootPath urlPath rules w)"

definition handleRedirectsFileRules ::
  "gwEnv \<Rightarrow> gwRequest \<Rightarrow> string \<Rightarrow> rule list \<Rightarrow> writer \<Rightarrow> (bool \<times> string \<times> gwErr) \<times> writer" where
  "handleRedirectsFileRules e r contentPath rules w =
     (let pathParts = splitc CHR ''/'' contentPath in
      if length pathParts > 3
      then let urlPath = TrimSuffix (''/'' @ joinc ''/'' (drop 3 pathParts)) ''/'';
               rootPath = joinc ''/'' (take 3 pathParts)
           in matchRules e r rootPath urlPath rules w
      else ((False, [], NoErr), w))"

definition getRedirectRules :: "gwEnv \<Rightarrow> resolved \<Rightarrow> writer \<Rightarrow> (gwErr + rule list) \<times> writer" where
  "getRedirectRules e f w =
     (let w1 = called (CallUnixfsGet (rs_String f)) w in
      case unixfsGet e (rs_String f) of
        Inl _ \<Rightarrow> (Inl (OtherErr ''could not get _redirects''), w1)
      | Inr (FileNode _ _) \<Rightarrow>
          (case parseRules e (rs_String f) of
             Inl _ \<Rightarrow> (Inl (OtherErr ''could not parse _redirects''), w1)
           | Inr rules \<Rightarrow> (Inr rules, w1))
      | Inr _ \<Rightarrow> (Inl (OtherErr ''could not parse _redirects''), w1))"

text \<open>What becomes of the request: it goes on with a path, it is finished, or no rule matched.\<close>

datatype redirectOutcome = Rewritten resolved string writer | Finished writer | NoRule writer

definition serveRedirectsIfPresent :: "gwEnv \<Rightarrow> gwRequest \<Rightarrow> string \<Rightarrow> writer \<Rightarrow> redirectOutcome" where
  "serveRedirectsIfPresent e r contentPath w =
     (case getRootPath e contentPath of
        None \<Rightarrow> Finished w
      | Some rootPath \<Rightarrow>
          (case resolveCall e (pathAppend e rootPath ''_redirects'') w of
             (Inl _, w1) \<Rightarrow> NoRule w1
           | (Inr redirectsFile, w1) \<Rightarrow>
               (case getRedirectRules e redirectsFile w1 of
                  (Inl err, w2) \<Rightarrow> Finished (internalWebError err w2)
                | (Inr rules, w2) \<Rightarrow>
                    (case handleRedirectsFileRules e r contentPath rules w2 of
                       ((redirected, newPath, err), w3) \<Rightarrow>
                         if err \<noteq> NoErr then Finished (internalWebError (OtherErr ''trouble processing _redirects'') w3)
                         else if redirected then Finished w3
                         else if newPath \<noteq> []
                         then (case resolveCall e (pathNew e newPath) w3 of
                                 (Inl err, w4) \<Rightarrow> Finished (internalWebError err w4)
                               | (Inr rs, w4) \<Rightarrow> Rewritten rs (pathNew e newPath) w4)
                         else NoRule w3))))"

section \<open>The legacy 404 page\<close>

definition acceptsHtml404 :: "string list \<Rightarrow> bool" where
  "acceptsHtml404 acceptHeaders \<longleftrightarrow>
     (\<exists>h \<in> set acceptHeaders. \<exists>spec \<in> set (splitc CHR '','' h).
        hd (splitNc 1 CHR '';'' spec) \<in> {''*/*'', ''text/*'', ''text/html''})"

definition preferred404Filename :: "string list \<Rightarrow> (string \<times> string) option" where
  "preferred404Filename acceptHeaders =
     (if acceptsHtml404 acceptHeaders then Some (''ipfs-404.html'', ''text/html'') else None)"

text \<open>
  \<^verbatim>\<open>SplitN(spec, ";", 1)\<close> gives one part, the whole of \<open>spec\<close>, so a media type with
  parameters is none of the three.
\<close>

lemma html404_ignores_media_types_with_parameters:
  "preferred404Filename [''text/html''] = Some (''ipfs-404.html'', ''text/html'') \<and>
   preferred404Filename [''text/html;q=0.9''] = None"
  by (simp add: preferred404Filename_def acceptsHtml404_def)

text \<open>The loop of \<^verbatim>\<open>searchUpTreeFor404\<close>, from \<open>idx\<close> components down to three.\<close>

fun search404 :: "gwEnv \<Rightarrow> string \<Rightarrow> string list \<Rightarrow> nat \<Rightarrow> writer \<Rightarrow> resolved option \<times> writer" where
  "search404 e filename404 comps idx w =
     (if idx < 3 then (None, w)
      else let p = pathNew e (''/'' @ pathJoin (take idx comps @ [filename404])) in
        if \<not> pathValid e p then (None, w)
        else case resolveCall e p w of
          (Inr rs, w1) \<Rightarrow> (Some rs, w1)
        | (Inl _, w1) \<Rightarrow> search404 e filename404 comps (idx - 1) w1)"

declare search404.simps [simp del]

definition searchUpTreeFor404 :: "gwEnv \<Rightarrow> gwRequest \<Rightarrow> string \<Rightarrow> writer \<Rightarrow> (resolved \<times> string) option \<times> writer" where
  "searchUpTreeFor404 e r contentPath w =
     (case preferred404Filename (headerValues r ''Accept'') of
        None \<Rightarrow> (None, w)
      | Some (filename404, ctype) \<Rightarrow>
          let comps = splitc CHR ''/'' contentPath in
          (case search404 e filename404 comps (length comps) w of
             (None, w1) \<Rightarrow> (None, w1) | (Some rs, w1) \<Rightarrow> (Some (rs, ctype), w1)))"

definition serveLegacy404IfPresent :: "gwEnv \<Rightarrow> gwRequest \<Rightarrow> string \<Rightarrow> writer \<Rightarrow> bool \<times> writer" where
  "serveLegacy404IfPresent e r contentPath w =
     (case searchUpTreeFor404 e r contentPath w of
        (None, w1) \<Rightarrow> (False, w1)
      | (Some (rs, ctype), w1) \<Rightarrow>
          let w2 = called (CallUnixfsGet (rs_String rs)) w1 in
          (case unixfsGet e (rs_String rs) of
             Inr (FileNode (Some sz) _) \<Rightarrow>
               (\<not> copyFails e (rs_String rs),
                writeBody (FileBytes (rs_String rs)) (WriteHeader 404
                  (setHeader ''Content-Length'' (decNat sz) (setHeader ''Content-Type'' ctype w2))))
           | _ \<Rightarrow> (False, w2)))"

section \<open>Resolution\<close>

definition handlePathResolution ::
  "gwEnv \<Rightarrow> gwRequest \<Rightarrow> string \<Rightarrow> string \<Rightarrow> writer \<Rightarrow> (resolved \<times> string) option \<times> writer" where
  "handlePathResolution e r responseFormat contentPath w =
     (case resolveCall e contentPath w of
        (Inr rs, w1) \<Rightarrow> (Some (rs, contentPath), w1)
      | (Inl err, w1) \<Rightarrow>
          if err = ErrOffline then (None, webError ''ipfs resolve -r'' err 503 w1)
          else if isUnixfsResponseFormat responseFormat
          then (case (if hasOriginIsolation r then serveRedirectsIfPresent e r contentPath w1 else NoRule w1) of
                  Rewritten rs newPath w2 \<Rightarrow> (Some (rs, newPath), w2)
                | Finished w2 \<Rightarrow> (None, w2)
                | NoRule w2 \<Rightarrow>
                    (case serveLegacy404IfPresent e r contentPath w2 of
                       (True, w3) \<Rightarrow> (None, w3)
                     | (False, w3) \<Rightarrow> (None, webError ''ipfs resolve -r'' err 400 w3)))
          else (None, webError ''ipfs resolve -r'' err 400 w1))"

definition handleGettingFirstBlock :: "gwEnv \<Rightarrow> resolved \<Rightarrow> writer \<Rightarrow> requestError option \<times> writer" where
  "handleGettingFirstBlock e rs w =
     (let w1 = called (CallBlockGet (rs_Cid rs)) w; err = blockGet e (rs_Cid rs) in
      (if err \<noteq> NoErr
       then Some \<lparr> re_Message = ''ipfs block get '' @ rs_Cid rs, re_StatusCode = 500, re_Err = err \<rparr>
       else None, w1))"

text \<open>\<^verbatim>\<open>buildIpfsRootsHeader\<close>: the segments after the namespace, resolved one after the other.\<close>

fun resolveRoots :: "gwEnv \<Rightarrow> string \<Rightarrow> string list \<Rightarrow> writer \<Rightarrow> (gwErr + string list) \<times> writer" where
  "resolveRoots e sp [] w = (Inr [], w)"
| "resolveRoots e sp (root # segs) w =
     (if root = [] then resolveRoots e sp segs w
      else let sp1 = sp @ ''/'' @ root in
        (case resolveCall e (pathNew e sp1) w of
           (Inl err, w1) \<Rightarrow> (Inl err, w1)
         | (Inr rs, w1) \<Rightarrow>
             (case resolveRoots e sp1 segs w1 of
                (Inl err, w2) \<Rightarrow> (Inl err, w2) | (Inr cs, w2) \<Rightarrow> (Inr (rs_Cid rs # cs), w2))))"

definition buildIpfsRootsHeader :: "gwEnv \<Rightarrow> string \<Rightarrow> writer \<Rightarrow> (gwErr + string) \<times> writer" where
  "buildIpfsRootsHeader e contentPath w =
     (case resolveRoots e (take 5 contentPath) (splitc CHR ''/'' (drop 6 contentPath)) w of
        (Inl err, w1) \<Rightarrow> (Inl err, w1) | (Inr pathRoots, w1) \<Rightarrow> (Inr (joinc '','' pathRoots), w1))"

definition setCommonHeaders :: "gwEnv \<Rightarrow> string \<Rightarrow> writer \<Rightarrow> requestError option \<times> writer" where
  "setCommonHeaders e contentPath w =
     (case buildIpfsRootsHeader e contentPath (setHeader ''X-Ipfs-Path'' contentPath (addUserHeaders e w)) of
        (Inr rootCids, w1) \<Rightarrow> (None, setHeader ''X-Ipfs-Roots'' rootCids w1)
      | (Inl err, w1) \<Rightarrow>
          (Some \<lparr> re_Message = ''error while resolving X-Ipfs-Roots'', re_StatusCode = 500, re_Err = err \<rparr>, w1))"

end
