(* ===== verification/GatewayServe.thy ===== *)
theory GatewayServe
  imports Gateway
begin

text \<open>
  The second half of a gateway request: the responses (UnixFS files and directories, codecs,
  raw blocks, CAR and TAR streams), the dispatch on the response format, the writable gateway, and
  \<^verbatim>\<open>ServeHTTP\<close>.
\<close>

section \<open>Content\<close>

text \<open>\<open>override\<close>: the writer was wrapped by \<^verbatim>\<open>statusResponseWriter\<close>.\<close>

definition serveContent :: "string \<Rightarrow> bool \<Rightarrow> bool \<Rightarrow> writer \<Rightarrow> writer" where
  "serveContent name modtime override w =
     w\<lparr> w_Status := (if w_Status w = None \<and> override \<and> statusOverride w 200 = 301 then Some 301 else w_Status w),
        w_Body := w_Body w @ [Content name modtime] \<rparr>"

definition pathExt :: "string \<Rightarrow> string" where
  "pathExt name =
     (let b = drop (length (uptoSlash name)) name in
      if CHR ''.'' \<in> set b then CHR ''.'' # afterLastAny ''.'' b else [])"

definition serveFile :: "gwEnv \<Rightarrow> gwRequest \<Rightarrow> resolved \<Rightarrow> string \<Rightarrow> nat option \<Rightarrow> bool \<Rightarrow> writer \<Rightarrow> writer" where
  "serveFile e r rs contentPath fsize isSymlink w =
     (let (modtime, w1) = addCacheControlHeaders (parseMedia e) (pathMutable e) r contentPath (rs_Cid rs) w;
          (name, w2) = addContentDispositionHeader r contentPath w1
      in case fsize of
        None \<Rightarrow> httpError ''cannot serve files with unknown sizes'' NoErr 502 w2
      | Some sz \<Rightarrow>
          if sz = 0 then WriteHeader 200 (setHeader ''Content-Type'' ''text/plain'' w2)
          else
            let byExt = typeByExtension e (pathExt name);
                ctype = (if isSymlink then Inr ''inode/symlink''
                         else if byExt \<noteq> [] then Inr byExt else detectType e (rs_String rs))
            in (case ctype of
                  Inl err \<Rightarrow> httpError ''cannot detect content-type'' err 500 w2
                | Inr ct \<Rightarrow>
                    let ct' = (if \<not> isSymlink \<and> HasPrefix ct ''text/html;'' then ''text/html'' else ct)
                    in serveContent name modtime True (setHeader ''Content-Type'' ct' w2)))"

definition backLinkOf :: "string \<Rightarrow> string \<Rightarrow> string" where
  "backLinkOf originalURLPath contentPath =
     (let pathSplit = splitc CHR ''/'' contentPath in
      if length pathSplit = 3 then []
      else if length pathSplit = 4 \<and> pathSplit ! 3 = [] then []
      else if HasSuffix originalURLPath ''/'' then originalURLPath @ ''..''
      else originalURLPath @ ''/..'')"

definition serveDirectory :: "gwEnv \<Rightarrow> gwRequest \<Rightarrow> resolved \<Rightarrow> string \<Rightarrow> writer \<Rightarrow> writer" where
  "serveDirectory e r rs contentPath w =
     (case rq_RequestPath r of
        None \<Rightarrow> webError ''failed to parse request path'' (OtherErr ''url'') 500 w
      | Some [] \<Rightarrow> w
      | Some originalURLPath \<Rightarrow>
          if last originalURLPath \<noteq> CHR ''/'' \<and> queryGet r ''go-get'' \<noteq> ''1''
          then httpRedirect (originalURLPath @ ''/'' @ (if rq_RawQuery r \<noteq> [] then ''?'' @ rq_RawQuery r else [])) 301 w
          else
            let idxPath = pathAppend e contentPath ''index.html''; w1 = called (CallUnixfsGet idxPath) w in
            (case unixfsGet e idxPath of
               Inr (FileNode sz isLink) \<Rightarrow> serveFile e r rs idxPath sz isLink w1
             | Inr _ \<Rightarrow> internalWebError (OtherErr ''not a reader'') w1
             | Inl err \<Rightarrow>
                 if err \<noteq> ErrNoLink then internalWebError err w1
                 else if (case w_Header w1 ''Location'' of Some (l # _) \<Rightarrow> l \<noteq> [] | _ \<Rightarrow> False) then WriteHeader 301 w1
                 else
                   let w2 = setHeader ''Etag'' (getDirListingEtag (assetHash e) (rs_Cid rs))
                              (setHeader ''Content-Type'' ''text/html'' w1) in
                   if rq_Method r = ''HEAD'' then w2
                   else let w3 = called (CallUnixfsLs (rs_String rs)) w2 in
                     (case unixfsLs e (rs_String rs) of
                        Inl err \<Rightarrow> internalWebError err w3
                      | Inr links \<Rightarrow>
                          if list_ex (\<lambda>l. \<not> isOk l) links then internalWebError NoErr w3
                          else writeBody (DirListing (backLinkOf originalURLPath contentPath)) w3)))"

definition serveUnixFS :: "gwEnv \<Rightarrow> gwRequest \<Rightarrow> resolved \<Rightarrow> string \<Rightarrow> writer \<Rightarrow> writer" where
  "serveUnixFS e r rs contentPath w =
     (let w1 = called (CallUnixfsGet (rs_String rs)) w in
      case unixfsGet e (rs_String rs) of
        Inl err \<Rightarrow> webError ''ipfs cat'' err 400 w1
      | Inr (FileNode sz isLink) \<Rightarrow> serveFile e r rs contentPath sz isLink w1
      | Inr DirNode \<Rightarrow> serveDirectory e r rs contentPath w1
      | Inr OtherNode \<Rightarrow> internalWebError (OtherErr ''unsupported UnixFS type'') w1)"

section \<open>Blocks and archives\<close>

definition chosenName :: "gwRequest \<Rightarrow> string \<Rightarrow> string \<Rightarrow> string" where
  "chosenName r cid ext = (let urlFilename = queryGet r ''filename'' in if urlFilename \<noteq> [] then urlFilename else cid @ ext)"

definition serveRawBlock :: "gwEnv \<Rightarrow> gwRequest \<Rightarrow> resolved \<Rightarrow> string \<Rightarrow> writer \<Rightarrow> writer" where
  "serveRawBlock e r rs contentPath w =
     (let w1 = called (CallBlockGet (rs_Cid rs)) w; err = blockGet e (rs_Cid rs) in
      if err \<noteq> NoErr then webError (''ipfs block get '' @ rs_Cid rs) err 500 w1
      else
        let name = chosenName r (rs_Cid rs) ''.bin'';
            w2 = setContentDispositionHeader name ''attachment'' w1;
            (modtime, w3) = addCacheControlHeaders (parseMedia e) (pathMutable e) r contentPath (rs_Cid rs) w2
        in serveContent name modtime False
             (setHeader ''X-Content-Type-Options'' ''nosniff'' (setHeader ''Content-Type'' ''application/vnd.ipld.raw'' w3)))"

definition serveCAR :: "gwEnv \<Rightarrow> gwRequest \<Rightarrow> resolved \<Rightarrow> string \<Rightarrow> string \<Rightarrow> writer \<Rightarrow> writer" where
  "serveCAR e r rs contentPath carVersion w =
     (if carVersion \<noteq> [] \<and> carVersion \<noteq> ''1'' then webError ''unsupported CAR version'' (OtherErr ''only version=1 is supported'') 400 w
      else
        let w1 = setContentDispositionHeader (chosenName r (rs_Cid rs) ''.car'') ''attachment'' w;
            w2 = snd (addCacheControlHeaders (parseMedia e) (pathMutable e) r contentPath (rs_Cid rs) w1);
            etag = ''W/'' @ getEtag (parseMedia e) r (rs_Cid rs);
            w3 = setHeader ''Etag'' etag w2
        in if headerGet r ''If-None-Match'' = etag then WriteHeader 304 w3
           else
             let w4 = setHeader ''X-Content-Type-Options'' ''nosniff''
                        (setHeader ''Content-Type'' ''application/vnd.ipld.car; version=1'' (setHeader ''Accept-Ranges'' ''none'' w3));
                 w5 = writeBody (CarStream (rs_Cid rs)) w4
             in if carWrite e (rs_Cid rs) \<noteq> NoErr then setHeader ''X-Stream-Error'' ''error'' w5 else w5)"

definition serveTAR :: "gwEnv \<Rightarrow> gwRequest \<Rightarrow> resolved \<Rightarrow> string \<Rightarrow> writer \<Rightarrow> writer" where
  "serveTAR e r rs contentPath w =
     (let w1 = called (CallUnixfsGet (rs_String rs)) w in
      case unixfsGet e (rs_String rs) of
        Inl err \<Rightarrow> webError ''ipfs cat'' err 400 w1
      | Inr _ \<Rightarrow>
          let (modtime, w2) = addCacheControlHeaders (parseMedia e) (pathMutable e) r contentPath (rs_Cid rs) w1;
              etag = ''W/'' @ getEtag (parseMedia e) r (rs_Cid rs);
              w3 = setHeader ''Etag'' etag w2
          in if headerGet r ''If-None-Match'' = etag then WriteHeader 304 w3
             else
               let w4 = setContentDispositionHeader (chosenName r (rs_Cid rs) ''.tar'') ''attachment'' w3;
                   w5 = (if modtime then setHeader ''Last-Modified'' ''now'' w4 else w4);
                   w6 = setHeader ''X-Content-Type-Options'' ''nosniff'' (setHeader ''Content-Type'' ''application/x-tar'' w5);
                   w7 = writeBody (TarStream (rs_Cid rs)) w6
               in if tarWrite e (rs_Cid rs) \<noteq> NoErr
                  then writeBody (ErrorText [] (tarWrite e (rs_Cid rs))) (setHeader ''X-Stream-Error'' ''error'' w7) else w7)"

section \<open>Codecs\<close>

text \<open>Multicodec numbers: cbor 0x51, dag-cbor 0x71, dag-json 0x0129, json 0x0200.\<close>

definition mcCbor :: nat where "mcCbor = 81"
definition mcDagCbor :: nat where "mcDagCbor = 113"
definition mcDagJson :: nat where "mcDagJson = 297"
definition mcJson :: nat where "mcJson = 512"

lemmas mc_defs = mcCbor_def mcDagCbor_def mcDagJson_def mcJson_def

definition codecToContentType :: "nat \<Rightarrow> string option" where
  "codecToContentType = [mcJson \<mapsto> ''application/json'', mcCbor \<mapsto> ''application/cbor'',
     mcDagJson \<mapsto> ''application/vnd.ipld.dag-json'', mcDagCbor \<mapsto> ''application/vnd.ipld.dag-cbor'']"

definition contentTypeToRaw :: "string \<Rightarrow> nat list option" where
  "contentTypeToRaw = [''application/json'' \<mapsto> [mcJson, mcDagJson], ''application/cbor'' \<mapsto> [mcCbor, mcDagCbor]]"

definition contentTypeToCodec :: "string \<Rightarrow> nat option" where
  "contentTypeToCodec = [''application/vnd.ipld.dag-json'' \<mapsto> mcDagJson, ''application/vnd.ipld.dag-cbor'' \<mapsto> mcDagCbor]"

definition contentTypeToExtension :: "string \<Rightarrow> string option" where
  "contentTypeToExtension = [''application/json'' \<mapsto> ''.json'', ''application/vnd.ipld.dag-json'' \<mapsto> ''.json'',
     ''application/cbor'' \<mapsto> ''.cbor'', ''application/vnd.ipld.dag-cbor'' \<mapsto> ''.cbor'']"

definition setCodecContentDisposition :: "gwRequest \<Rightarrow> resolved \<Rightarrow> string \<Rightarrow> writer \<Rightarrow> string \<times> writer" where
  "setCodecContentDisposition r rs contentType w =
     (let ext = (case contentTypeToExtension contentType of Some x \<Rightarrow> x | None \<Rightarrow> ''.bin'');
          name = chosenName r (rs_Cid rs) ext;
          dispType = (if queryGet r ''download'' = ''true'' then ''attachment''
                      else if ext = ''.json'' then ''inline'' else ''attachment'')
      in (name, setContentDispositionHeader name dispType w))"

definition serveCodecHTML :: "gwEnv \<Rightarrow> resolved \<Rightarrow> writer \<Rightarrow> writer" where
  "serveCodecHTML e rs w =
     writeBody (DagIndex (rs_Cid rs))
       (delHeader ''Cache-Control'' (setHeader ''Etag'' (getDagIndexEtag (assetHash e) (rs_Cid rs))
         (delHeader ''Content-Disposition'' (setHeader ''Content-Type'' ''text/html'' w))))"

definition serveCodecRaw :: "gwEnv \<Rightarrow> resolved \<Rightarrow> string \<Rightarrow> bool \<Rightarrow> writer \<Rightarrow> writer" where
  "serveCodecRaw e rs name modtime w =
     (let w1 = called (CallBlockGet (rs_Cid rs)) w; err = blockGet e (rs_Cid rs) in
      if err \<noteq> NoErr then webError (''ipfs block get '' @ rs_Cid rs) err 500 w1
      else serveContent name modtime False w1)"

definition serveCodecConverted :: "gwEnv \<Rightarrow> resolved \<Rightarrow> nat \<Rightarrow> bool \<Rightarrow> writer \<Rightarrow> writer" where
  "serveCodecConverted e rs toCodec modtime w =
     (let w1 = called (CallDagGet (rs_Cid rs)) w; err = dagEncode e (rs_Cid rs) toCodec in
      if err \<noteq> NoErr then webError ''ipfs dag get'' err 500 w1
      else writeBody (Encoded (rs_Cid rs) toCodec) (if modtime then setHeader ''Last-Modified'' ''now'' w1 else w1))"

definition serveCodec :: "gwEnv \<Rightarrow> gwRequest \<Rightarrow> resolved \<Rightarrow> string \<Rightarrow> string \<Rightarrow> writer \<Rightarrow> writer" where
  "serveCodec e r rs contentPath requested w =
     (if rs_Remainder rs \<noteq> [] then webError ''unsupported pathing'' (OtherErr ''remainder'') 501 w
      else
        case (if requested = [] then codecToContentType (rs_Codec rs) else Some requested) of
          None \<Rightarrow> webError ''internal error'' (OtherErr ''content type not found for codec'') 500 w
        | Some responseContentType \<Rightarrow>
            let (modtime, w1) = addCacheControlHeaders (parseMedia e) (pathMutable e) r contentPath (rs_Cid rs) w;
                (name, w2) = setCodecContentDisposition r rs responseContentType w1;
                w3 = setHeader ''X-Content-Type-Options'' ''nosniff'' (setHeader ''Content-Type'' responseContentType w2)
            in if requested = []
               then (if rs_Codec rs \<in> {mcDagJson, mcDagCbor} \<and> Contains (headerGet r ''Accept'') ''text/html'' \<and>
                        queryGet r ''download'' \<noteq> ''true''
                     then serveCodecHTML e rs w3 else serveCodecRaw e rs name modtime w3)
               else if (case contentTypeToRaw requested of Some skip \<Rightarrow> rs_Codec rs \<in> set skip | None \<Rightarrow> False)
               then serveCodecRaw e rs name modtime w3
               else case contentTypeToCodec requested of
                 None \<Rightarrow> webError ''unsupported content type'' (OtherErr requested) 500 w3
               | Some toCodec \<Rightarrow> serveCodecConverted e rs toCodec modtime w3)"

section \<open>The request\<close>

definition dispatch ::
  "gwEnv \<Rightarrow> gwRequest \<Rightarrow> string \<Rightarrow> (string \<times> string) list \<Rightarrow> resolved \<Rightarrow> string \<Rightarrow> writer \<Rightarrow> writer" where
  "dispatch e r responseFormat formatParams rs contentPath w =
     (if responseFormat \<in> {[], ''application/json'', ''application/cbor''}
      then if rs_Codec rs \<in> {mcJson, mcDagJson, mcCbor, mcDagCbor}
           then serveCodec e r rs contentPath responseFormat w
           else serveUnixFS e r rs contentPath w
      else if responseFormat = ''application/vnd.ipld.raw'' then serveRawBlock e r rs contentPath w
      else if responseFormat = ''application/vnd.ipld.car''
      then serveCAR e r rs contentPath (case map_of formatParams ''version'' of Some v \<Rightarrow> v | None \<Rightarrow> []) w
      else if responseFormat = ''application/x-tar'' then serveTAR e r rs contentPath w
      else if responseFormat \<in> {''application/vnd.ipld.dag-json'', ''application/vnd.ipld.dag-cbor''}
      then serveCodec e r rs contentPath responseFormat w
      else webError ''failed to respond with requested content type'' (OtherErr responseFormat) 400 w)"

text \<open>After the path was resolved.\<close>

definition serveResolved ::
  "gwEnv \<Rightarrow> gwRequest \<Rightarrow> string \<Rightarrow> (string \<times> string) list \<Rightarrow> resolved \<Rightarrow> string \<Rightarrow> writer \<Rightarrow> writer" where
  "serveResolved e r responseFormat formatParams rs contentPath w =
     (let inm = headerGet r ''If-None-Match'' in
      if inm \<noteq> [] \<and> etagMatch inm (getEtag (parseMedia e) r (rs_Cid rs)) (getDirListingEtag (assetHash e) (rs_Cid rs))
      then WriteHeader 304 w
      else case handleGettingFirstBlock e rs w of
        (Some err, w1) \<Rightarrow> webRequestError err w1
      | (None, w1) \<Rightarrow>
          (case setCommonHeaders e contentPath w1 of
             (Some err, w2) \<Rightarrow> webRequestError err w2
           | (None, w2) \<Rightarrow> dispatch e r responseFormat formatParams rs contentPath w2))"

definition getOrHeadHandler :: "gwEnv \<Rightarrow> gwRequest \<Rightarrow> writer \<Rightarrow> writer" where
  "getOrHeadHandler e r w =
     (case handleUnsupportedHeaders r of
        Some err \<Rightarrow> webRequestError err w
      | None \<Rightarrow>
      (case handleProtocolHandlerRedirect e r w of
        (True, w1) \<Rightarrow> w1
      | (False, w1) \<Rightarrow>
      (case handleServiceWorkerRegistration r of
        Some err \<Rightarrow> webRequestError err w1
      | None \<Rightarrow>
      let contentPath = pathNew e (rq_Path r) in
      (case handleOnlyIfCached e r contentPath w1 of
        (True, w2) \<Rightarrow> w2
      | (False, w2) \<Rightarrow>
      (case handleSuperfluousNamespace e r contentPath w2 of
        (True, w3) \<Rightarrow> w3
      | (False, w3) \<Rightarrow>
      (case customResponseFormat (parseMedia e) r of
        Inl err \<Rightarrow> webError ''error while processing the Accept header'' err 400 w3
      | Inr (responseFormat, formatParams) \<Rightarrow>
      (case handlePathResolution e r responseFormat contentPath w3 of
        (None, w4) \<Rightarrow> w4
      | (Some (rs, newContentPath), w4) \<Rightarrow>
          serveResolved e r responseFormat formatParams rs newContentPath w4)))))))"

definition optionsHandler :: "gwEnv \<Rightarrow> writer \<Rightarrow> writer" where
  "optionsHandler e w = addUserHeaders e w"

section \<open>The writable gateway\<close>

datatype unlinkResult = Unlinked | UnlinkNotExist | UnlinkFailed

text \<open>What the DAG service, UnixFS and MFS answer to the steps of a write.\<close>

record mfsEnv =
  ParsePath :: "string \<Rightarrow> string list option"
  cidDecodes :: "string \<Rightarrow> bool"
  dagGetProto :: "string \<Rightarrow> gwErr + bool"
  unixfsAdd :: "gwErr + string"
  newFileGet :: gwErr
  mfsNewRoot :: gwErr
  mfsMkdir :: "string \<Rightarrow> gwErr"
  mfsLookup :: "string \<Rightarrow> gwErr + bool"
  mfsUnlink :: "string \<Rightarrow> unlinkResult"
  mfsAddChild :: "string \<Rightarrow> gwErr"
  mfsGetNode :: "gwErr + string"

definition parseIpfsPath :: "mfsEnv \<Rightarrow> string \<Rightarrow> (string \<times> string) option" where
  "parseIpfsPath m p =
     (case ParsePath m p of
        Some (ns # root # rest) \<Rightarrow>
          if ns = ''ipfs'' \<and> cidDecodes m root then Some (root, joinc ''/'' rest) else None
      | _ \<Rightarrow> None)"

definition postHandler :: "gwEnv \<Rightarrow> mfsEnv \<Rightarrow> writer \<Rightarrow> writer" where
  "postHandler e m w =
     (let w0 = called CallUnixfsAdd w in
      case unixfsAdd m of
        Inl err \<Rightarrow> internalWebError err w0
      | Inr cid \<Rightarrow> httpRedirect (''/ipfs/'' @ cid) 201 (setHeader ''IPFS-Hash'' cid (addUserHeaders e w0)))"

definition putHandler :: "gwEnv \<Rightarrow> mfsEnv \<Rightarrow> gwRequest \<Rightarrow> writer \<Rightarrow> writer" where
  "putHandler e m r w =
     (case parseIpfsPath m (rq_Path r) of
        None \<Rightarrow> webError ''WritableGateway: failed to parse the path'' (OtherErr ''path'') 400 w
      | Some (rootCid, newPath) \<Rightarrow>
      if newPath = [] \<or> newPath = ''/'' then httpError ''WritableGateway: empty path'' NoErr 400 w
      else let newDirectory = uptoSlash newPath; newFileName = drop (length newDirectory) newPath in
      case dagGetProto m rootCid of
        Inl err \<Rightarrow> webError ''WritableGateway: Could not create DAG from request'' err 500 w
      | Inr False \<Rightarrow> webError ''Cannot read non protobuf nodes through gateway'' (OtherErr ''not protobuf'') 400 w
      | Inr True \<Rightarrow>
      let w0 = called CallUnixfsAdd w in
      (case unixfsAdd m of
        Inl err \<Rightarrow> webError ''WritableGateway: could not create DAG from request'' err 500 w0
      | Inr _ \<Rightarrow>
      if newFileGet m \<noteq> NoErr then webError ''WritableGateway: failed to resolve new file'' (newFileGet m) 500 w0
      else if mfsNewRoot m \<noteq> NoErr then webError ''WritableGateway: failed to create MFS root'' (mfsNewRoot m) 400 w0
      else if newDirectory \<noteq> [] \<and> mfsMkdir m newDirectory \<noteq> NoErr
      then webError ''WritableGateway: failed to create MFS directory'' (mfsMkdir m newDirectory) 500 w0
      else case mfsLookup m newDirectory of
        Inl err \<Rightarrow> webError ''WritableGateway: failed to lookup directory'' err 500 w0
      | Inr False \<Rightarrow> httpError ''WritableGateway: target directory is not a directory'' NoErr 400 w0
      | Inr True \<Rightarrow>
      if mfsUnlink m newFileName = UnlinkFailed
      then webError ''WritableGateway: failed to replace existing file'' (OtherErr ''unlink'') 400 w0
      else if mfsAddChild m newFileName \<noteq> NoErr
      then webError ''WritableGateway: failed to link file into directory'' (mfsAddChild m newFileName) 500 w0
      else case mfsGetNode m of
        Inl err \<Rightarrow> webError ''WritableGateway: failed to finalize'' err 500 w0
      | Inr newcid \<Rightarrow>
          httpRedirect (pathJoin [''/ipfs/'', newcid, newPath]) 201 (setHeader ''IPFS-Hash'' newcid (addUserHeaders e w0))))"

definition deleteHandler :: "gwEnv \<Rightarrow> mfsEnv \<Rightarrow> gwRequest \<Rightarrow> writer \<Rightarrow> writer" where
  "deleteHandler e m r w =
     (case parseIpfsPath m (rq_Path r) of
        None \<Rightarrow> webError ''WritableGateway: failed to parse the path'' (OtherErr ''path'') 400 w
      | Some (rootCid, newPath) \<Rightarrow>
      if newPath = [] \<or> newPath = ''/'' then httpError ''WritableGateway: empty path'' NoErr 400 w
      else let directory = uptoSlash newPath; filename = drop (length directory) newPath in
      case dagGetProto m rootCid of
        Inl err \<Rightarrow> webError ''WritableGateway: failed to resolve root CID'' err 500 w
      | Inr False \<Rightarrow> httpError ''WritableGateway: empty path'' NoErr 500 w
      | Inr True \<Rightarrow>
      if mfsNewRoot m \<noteq> NoErr then webError ''WritableGateway: failed to construct the MFS root'' (mfsNewRoot m) 400 w
      else case mfsLookup m directory of
        Inl err \<Rightarrow> webError ''WritableGateway: failed to look up parent'' err 500 w
      | Inr False \<Rightarrow> httpError ''WritableGateway: parent is not a directory'' NoErr 500 w
      | Inr True \<Rightarrow>
      if mfsUnlink m filename = UnlinkFailed
      then webError ''WritableGateway: failed to remove file'' NoErr 500 w
      else case mfsGetNode m of
        Inl err \<Rightarrow> webError ''WritableGateway: failed to finalize'' err 500 w
      | Inr ncid \<Rightarrow>
          httpRedirect (pathJoin [''/ipfs/'' @ ncid, directory]) 201 (setHeader ''IPFS-Hash'' ncid (addUserHeaders e w)))"

definition ServeHTTP :: "gwEnv \<Rightarrow> mfsEnv \<Rightarrow> gwRequest \<Rightarrow> writer \<Rightarrow> writer" where
  "ServeHTTP e m r w =
     (if writable e \<and> rq_Method r = ''POST'' then postHandler e m w
      else if writable e \<and> rq_Method r = ''PUT'' then putHandler e m r w
      else if writable e \<and> rq_Method r = ''DELETE'' then deleteHandler e m r w
      else if rq_Method r = ''GET'' \<or> rq_Method r = ''HEAD'' then getOrHeadHandler e r w
      else if rq_Method r = ''OPTIONS'' then optionsHandler e w
      else if \<not> writable e
      then httpError ''Method not allowed: read only access'' NoErr 405
             (addHeader ''Allow'' ''OPTIONS'' (addHeader ''Allow'' ''HEAD'' (addHeader ''Allow'' ''GET'' w)))
      else httpError ''Method not allowed: bad request'' NoErr 400 w)"

end
