(* ===== verification/GatewayProps.thy ===== *)
theory GatewayProps
  imports GatewayServe
begin

text \<open>
  Properties of the HTTP gateway: entity tags and conditional requests, the read-only gateway,
  requests that ask for cached content only, the redirects file and origin isolation, content
  disposition, the codecs.
\<close>

section \<open>Entity tags\<close>

definition renderTag :: "bool \<times> string \<Rightarrow> string" where
  "renderTag t = (if fst t then ''W/'' else []) @ [quote] @ snd t @ [quote]"

definition renderTags :: "(bool \<times> string) list \<Rightarrow> string" where
  "renderTags tags = joinc '', '' (map renderTag tags)"

definition validTags :: "(bool \<times> string) list \<Rightarrow> bool" where
  "validTags tags \<longleftrightarrow> list_all (\<lambda>t. list_all etagChar (snd t)) tags"

lemma quote_facts [simp]: "\<not> etagChar quote" "\<not> isTextprotoSpace quote" "quote \<noteq> CHR '',''" "quote \<noteq> CHR ''*''"
  "quote \<noteq> CHR ''W''" "\<not> isTextprotoSpace CHR ''W''" "\<not> isTextprotoSpace CHR '',''" "isTextprotoSpace CHR '' ''"
  by (simp_all add: etagChar_def isTextprotoSpace_def quote_def Let_def char_of_eq_iff)

lemma trimBy_id:
  assumes "s \<noteq> []" and "\<not> P (hd s)" and "\<not> P (last s)"
  shows "trimBy P s = s"
proof -
  have "dropWhile P s = s" using assms by (cases s) auto
  moreover have "dropWhile P (rev s) = rev s" using assms by (cases s rule: rev_cases) simp_all
  ultimately show ?thesis by (simp add: trimBy_def)
qed

lemma trimBy_Cons: "P c \<Longrightarrow> trimBy P (c # s) = trimBy P s"
  by (simp add: trimBy_def)

lemma renderTag_ends: "renderTag t \<noteq> []" "\<not> isTextprotoSpace (hd (renderTag t))" "last (renderTag t) = quote"
  by (simp_all add: renderTag_def)

lemma renderTags_Cons: "tags \<noteq> [] \<Longrightarrow> renderTags (t # tags) = renderTag t @ '', '' @ renderTags tags"
  by (simp add: renderTags_def joinc_Cons)

lemma renderTags_ends:
  assumes "tags \<noteq> []"
  shows "renderTags tags \<noteq> []" "\<not> isTextprotoSpace (hd (renderTags tags))" "last (renderTags tags) = quote"
  using assms
proof (induction tags rule: list_nonempty_induct)
  case (cons x xs) {
    case 1 show ?case using cons by (simp add: renderTags_Cons renderTag_ends)
    case 2 show ?case using cons by (simp add: renderTags_Cons renderTag_ends)
    case 3 show ?case using cons by (simp add: renderTags_Cons) }
qed (simp_all add: renderTags_def renderTag_ends)

lemma trimBy_renderTags:
  "tags \<noteq> [] \<Longrightarrow> trimBy isTextprotoSpace (renderTags tags) = renderTags tags"
  by (rule trimBy_id) (simp_all add: renderTags_ends)

lemma scanQuoted_valid:
  "list_all etagChar s \<Longrightarrow> scanQuoted acc (s @ quote # r) = (rev acc @ s @ [quote], r)"
  by (induction s arbitrary: acc) auto

lemma scanETag_renderTag:
  assumes "list_all etagChar (snd t)" and "trimBy isTextprotoSpace (renderTag t @ r) = renderTag t @ r"
  shows "scanETag (renderTag t @ r) = (renderTag t, r)"
proof (cases "fst t")
  case True
  have "\<exists>d t'. snd t @ quote # r = d # t'" by (cases "snd t") auto
  then obtain d t' where eq: "snd t @ quote # r = d # t'" by blast
  have "scanQuoted (quote # rev ''W/'') (snd t @ quote # r) = (renderTag t, r)"
    using scanQuoted_valid [OF assms(1)] True by (simp add: renderTag_def)
  with True assms(2) eq show ?thesis
    by (simp add: scanETag_def Let_def renderTag_def numeral_2_eq_2)
next
  case False
  have "\<exists>d t'. snd t @ quote # r = d # t'" by (cases "snd t") auto
  then obtain d t' where eq: "snd t @ quote # r = d # t'" by blast
  have "scanQuoted [quote] (snd t @ quote # r) = (renderTag t, r)"
    using scanQuoted_valid [OF assms(1)] False by (simp add: renderTag_def)
  with False assms(2) eq show ?thesis
    by (simp add: scanETag_def Let_def renderTag_def HasPrefix_def)
qed

lemma etagMatch_Nil: "etagMatch [] c d = False"
  by (subst etagMatch.simps) (simp add: trimBy_def)

lemma etagMatch_trim: "trimBy isTextprotoSpace b = trimBy isTextprotoSpace b' \<Longrightarrow> etagMatch b c d = etagMatch b' c d"
  by (subst (1 2) etagMatch.simps) (simp add: Let_def)

lemma etagMatch_sep:
  assumes "tags \<noteq> []"
  shows "etagMatch ('', '' @ renderTags tags) c d = etagMatch (renderTags tags) c d"
proof -
  have "trimBy isTextprotoSpace ('', '' @ renderTags tags) = '', '' @ renderTags tags"
    by (rule trimBy_id) (use renderTags_ends [OF assms] in simp_all)
  then have "etagMatch ('', '' @ renderTags tags) c d = etagMatch (CHR '' '' # renderTags tags) c d"
    by (subst etagMatch.simps) (simp add: Let_def)
  also have "\<dots> = etagMatch (renderTags tags) c d"
    by (rule etagMatch_trim) (simp add: trimBy_Cons)
  finally show ?thesis .
qed

lemma etagMatch_renderTag:
  assumes "list_all etagChar (snd t)" and "trimBy isTextprotoSpace (renderTag t @ r) = renderTag t @ r"
  shows "etagMatch (renderTag t @ r) c d \<longleftrightarrow> etagWeakMatch (renderTag t) c \<or> etagWeakMatch (renderTag t) d \<or> etagMatch r c d"
proof -
  obtain x xs where x: "renderTag t @ r = x # xs" "x \<noteq> CHR '',''" "x \<noteq> CHR ''*''"
    by (cases "fst t") (auto simp: renderTag_def)
  have sc: "scanETag (x # xs) = (renderTag t, r)"
    using scanETag_renderTag [OF assms] x(1) by simp
  show ?thesis
    by (subst etagMatch.simps) (use assms(2) x sc renderTag_ends(1) [of t] in \<open>simp add: Let_def\<close>)
qed

lemma etagMatch_renderTags:
  "validTags tags \<Longrightarrow>
   etagMatch (renderTags tags) c d \<longleftrightarrow> (\<exists>t \<in> set tags. etagWeakMatch (renderTag t) c \<or> etagWeakMatch (renderTag t) d)"
proof (induction tags)
  case Nil
  then show ?case by (simp add: renderTags_def etagMatch_Nil)
next
  case (Cons t tags)
  then have v: "list_all etagChar (snd t)" "validTags tags" by (simp_all add: validTags_def)
  show ?case
  proof (cases "tags = []")
    case True
    have "trimBy isTextprotoSpace (renderTag t @ []) = renderTag t @ []"
      using trimBy_renderTags [of "[t]"] by (simp add: renderTags_def)
    from etagMatch_renderTag [OF v(1) this] True show ?thesis
      by (simp add: renderTags_def etagMatch_Nil)
  next
    case False
    have "trimBy isTextprotoSpace (renderTag t @ '', '' @ renderTags tags) = renderTag t @ '', '' @ renderTags tags"
      using trimBy_renderTags [of "t # tags"] False by (simp add: renderTags_Cons)
    from etagMatch_renderTag [OF v(1) this] etagMatch_sep [OF False] Cons.IH [OF v(2)] False show ?thesis
      by (simp add: renderTags_Cons)
  qed
qed


lemma etagWeakMatch_renderTag:
  "hd e = quote \<Longrightarrow> e \<noteq> [] \<Longrightarrow> etagWeakMatch (renderTag t) e \<longleftrightarrow> [quote] @ snd t @ [quote] = e"
  by (cases e) (auto simp: etagWeakMatch_def renderTag_def TrimPrefix_def HasPrefix_def)

lemma own_etags_quoted:
  "getEtag p r c \<noteq> []" "hd (getEtag p r c) = quote"
  "getDirListingEtag a c \<noteq> []" "hd (getDirListingEtag a c) = quote"
  by (auto simp: getEtag_def getDirListingEtag_def split: sum.splits)

section \<open>What a handler calls\<close>

text \<open>\<open>w'\<close> is what a handler makes of \<open>w\<close>: calls are added, and none of them writes.\<close>

definition readsOnly :: "writer \<Rightarrow> writer \<Rightarrow> bool" where
  "readsOnly w w' \<longleftrightarrow> (\<exists>cs. w_Calls w' = w_Calls w @ cs \<and> CallUnixfsAdd \<notin> set cs)"

named_theorems gw_reads \<open>handlers that only read\<close>

lemma readsOnly_refl [simp, gw_reads]: "readsOnly w w"
  by (simp add: readsOnly_def)

lemma readsOnly_trans: "readsOnly w w' \<Longrightarrow> readsOnly w' w'' \<Longrightarrow> readsOnly w w''"
  by (auto simp: readsOnly_def)

lemma readsOnly_called [simp]: "c \<noteq> CallUnixfsAdd \<Longrightarrow> readsOnly v w \<Longrightarrow> readsOnly v (called c w)"
  by (auto simp: readsOnly_def called_def)

lemma calls_primitives [simp]:
  "w_Calls (setHeader k v w) = w_Calls w" "w_Calls (addHeader k v w) = w_Calls w" "w_Calls (delHeader k w) = w_Calls w"
  "w_Calls (WriteHeader n w) = w_Calls w" "w_Calls (writeBody bd w) = w_Calls w" "w_Calls (httpError m err n w) = w_Calls w"
  "w_Calls (httpRedirect u n w) = w_Calls w" "w_Calls (webError m err n w) = w_Calls w"
  "w_Calls (internalWebError err w) = w_Calls w" "w_Calls (webRequestError re w) = w_Calls w"
  "w_Calls (serveContent nm b ov w) = w_Calls w" "w_Calls (setContentDispositionHeader f d w) = w_Calls w"
  by (simp_all add: setHeader_def addHeader_def delHeader_def WriteHeader_def writeBody_def httpError_def httpRedirect_def
      webError_def internalWebError_def webRequestError_def serveContent_def setContentDispositionHeader_def split: option.splits)

lemma calls_addUserHeaders [simp]: "w_Calls (addUserHeaders e w) = w_Calls w"
proof -
  have "w_Calls (foldl (\<lambda>w (k, v). w\<lparr> w_Header := (w_Header w)(k \<mapsto> v) \<rparr>) w hs) = w_Calls w" for hs
    by (induction hs arbitrary: w) (auto split: prod.splits)
  then show ?thesis by (simp add: addUserHeaders_def)
qed

lemma calls_cache [simp]: "w_Calls (snd (addCacheControlHeaders p m r c i w)) = w_Calls w"
  by (simp add: addCacheControlHeaders_def Let_def)

lemma calls_disposition [simp]: "w_Calls (snd (addContentDispositionHeader r p w)) = w_Calls w"
  by (simp add: addContentDispositionHeader_def Let_def)

lemma calls_codecDisposition [simp]: "w_Calls (snd (setCodecContentDisposition r rs ct w)) = w_Calls w"
  by (simp add: setCodecContentDisposition_def Let_def)

lemma readsOnly_calls: "w_Calls w' = w_Calls w \<Longrightarrow> readsOnly w w'"
  by (simp add: readsOnly_def)

lemma readsOnly_keep: "w_Calls w' = w_Calls w \<Longrightarrow> readsOnly v w \<Longrightarrow> readsOnly v w'"
  by (auto simp: readsOnly_def)

lemma readsOnly_primitives [simp]:
  "readsOnly v (setHeader k x w) = readsOnly v w" "readsOnly v (delHeader k w) = readsOnly v w"
  "readsOnly v (WriteHeader n w) = readsOnly v w" "readsOnly v (writeBody bd w) = readsOnly v w"
  "readsOnly v (httpError m err n w) = readsOnly v w" "readsOnly v (httpRedirect u n w) = readsOnly v w"
  "readsOnly v (webError m err n w) = readsOnly v w" "readsOnly v (internalWebError err w) = readsOnly v w"
  "readsOnly v (webRequestError re w) = readsOnly v w" "readsOnly v (serveContent nm b ov w) = readsOnly v w"
  "readsOnly v (setContentDispositionHeader f d w) = readsOnly v w" "readsOnly v (addUserHeaders e w) = readsOnly v w"
  "readsOnly v (snd (addCacheControlHeaders p mu r c i w)) = readsOnly v w"
  "readsOnly v (snd (addContentDispositionHeader r q w)) = readsOnly v w"
  "readsOnly v (snd (setCodecContentDisposition r rs ct w)) = readsOnly v w"
  by (simp_all add: readsOnly_def)

lemma readsOnly_resolveCall [simp]: "readsOnly v w \<Longrightarrow> readsOnly v (snd (resolveCall e p w))"
  by (simp add: resolveCall_def)

lemma readsOnly_serveFile: "readsOnly w (serveFile e r rs p fs sl w)"
  by (rule readsOnly_calls) (simp add: serveFile_def Let_def split_beta split: option.splits sum.splits)

lemma readsOnly_serveDirectory: "readsOnly w (serveDirectory e r rs p w)"
proof -
  have sf: "readsOnly w (serveFile e r rs q fs sl (called (CallUnixfsGet q) w))" for q fs sl
    by (rule readsOnly_trans [OF _ readsOnly_serveFile]) simp
  show ?thesis
    by (auto simp: serveDirectory_def Let_def readsOnly_def called_def sf [unfolded readsOnly_def called_def]
        split: option.splits sum.splits fsNode.splits list.splits)
qed


lemma readsOnly_serveUnixFS: "readsOnly w (serveUnixFS e r rs p w)"
proof -
  let ?w = "called (CallUnixfsGet (rs_String rs)) w"
  have step: "readsOnly w ?w" by simp
  show ?thesis
    by (cases "unixfsGet e (rs_String rs)")
      (auto simp: serveUnixFS_def Let_def readsOnly_calls
        intro: readsOnly_trans [OF step readsOnly_serveFile] readsOnly_trans [OF step readsOnly_serveDirectory] readsOnly_keep [OF _ step]
        split: fsNode.splits)
qed

lemma readsOnly_serveRawBlock: "readsOnly w (serveRawBlock e r rs p w)"
  by (simp add: serveRawBlock_def Let_def split_beta)

lemma readsOnly_serveCAR: "readsOnly w (serveCAR e r rs p v w)"
  by (simp add: serveCAR_def Let_def)

lemma readsOnly_serveTAR: "readsOnly w (serveTAR e r rs p w)"
  by (simp add: serveTAR_def Let_def split_beta split: sum.splits)

lemma readsOnly_serveCodec: "readsOnly w (serveCodec e r rs p q w)"
proof -
  have 1: "readsOnly v (serveCodecHTML e rs v)" for v
    by (simp add: serveCodecHTML_def readsOnly_calls)
  have 2: "readsOnly v (serveCodecRaw e rs n m v)" for v n m
    by (simp add: serveCodecRaw_def Let_def)
  have 3: "readsOnly v (serveCodecConverted e rs c m v)" for v c m
    by (simp add: serveCodecConverted_def Let_def)
  have 4: "w_Calls v = w_Calls w \<Longrightarrow> readsOnly v v' \<Longrightarrow> readsOnly w v'" for v v'
    by (simp add: readsOnly_def)
  show ?thesis
  proof (cases "if q = [] then codecToContentType (rs_Codec rs) else Some q")
    case None
    then show ?thesis unfolding serveCodec_def by (simp add: readsOnly_calls)
  next
    case (Some ct)
    let ?v = "setHeader ''X-Content-Type-Options'' ''nosniff'' (setHeader ''Content-Type'' ct
      (snd (setCodecContentDisposition r rs ct (snd (addCacheControlHeaders (parseMedia e) (pathMutable e) r p (rs_Cid rs) w)))))"
    have v: "w_Calls ?v = w_Calls w" by simp
    have html: "readsOnly w (serveCodecHTML e rs ?v)" and raw: "readsOnly w (serveCodecRaw e rs n m ?v)"
      and conv: "readsOnly w (serveCodecConverted e rs c m ?v)" and err: "readsOnly w (webError msg er n' ?v)" for n m c msg er n'
      by (rule 4 [OF v 1], rule 4 [OF v 2], rule 4 [OF v 3], simp add: readsOnly_calls)
    have err0: "readsOnly w (webError msg er n' w)" for msg er n' by (simp add: readsOnly_calls)
    show ?thesis
      unfolding serveCodec_def Let_def split_beta Some option.case
      by (simp add: html raw conv err err0 split: option.split del: readsOnly_primitives)
  qed
qed

lemma readsOnly_dispatch: "readsOnly w (dispatch e r f ps rs p w)"
  unfolding dispatch_def
  by (simp add: readsOnly_serveCodec readsOnly_serveUnixFS readsOnly_serveRawBlock readsOnly_serveCAR readsOnly_serveTAR)

lemma readsOnly_resolveRoots: "readsOnly w (snd (resolveRoots e sp segs w))"
proof (induction e sp segs w rule: resolveRoots.induct)
  case (2 e sp root segs w)
  show ?case
  proof (cases "root = [] \<or> \<not> isOk (ResolvePath e (pathNew e (sp @ ''/'' @ root)))")
    case True
    then show ?thesis using 2(1) by (auto simp: resolveCall_def Let_def split: sum.splits)
  next
    case False
    then obtain rs where ok: "ResolvePath e (pathNew e (sp @ ''/'' @ root)) = Inr rs" and ne: "root \<noteq> []"
      by (auto simp: isOk_iff)
    let ?w = "called (CallResolve (pathNew e (sp @ ''/'' @ root))) w"
    have "readsOnly ?w (snd (resolveRoots e (sp @ ''/'' @ root) segs ?w))"
      using 2(2) [OF ne refl] ok by (simp add: resolveCall_def)
    then have "readsOnly w (snd (resolveRoots e (sp @ ''/'' @ root) segs ?w))"
      by (rule readsOnly_trans [rotated]) simp
    with ok ne show ?thesis
      by (auto simp: resolveCall_def Let_def split: sum.splits prod.splits)
  qed
qed simp

lemma readsOnly_setCommonHeaders: "readsOnly w (snd (setCommonHeaders e p w))"
proof -
  let ?w = "setHeader ''X-Ipfs-Path'' p (addUserHeaders e w)"
  have "w_Calls (snd (buildIpfsRootsHeader e p ?w)) =
      w_Calls (snd (resolveRoots e (take 5 p) (splitc CHR ''/'' (drop 6 p)) ?w))"
    by (simp add: buildIpfsRootsHeader_def split: sum.split prod.split)
  then have "readsOnly ?w (snd (buildIpfsRootsHeader e p ?w))"
    by (rule readsOnly_keep) (rule readsOnly_resolveRoots)
  then have "readsOnly w (snd (buildIpfsRootsHeader e p ?w))"
    by (simp add: readsOnly_def)
  then show ?thesis
    by (auto simp: setCommonHeaders_def split: sum.splits prod.splits)
qed

lemma readsOnly_serveResolved: "readsOnly w (serveResolved e r f ps rs p w)"
proof -
  let ?w = "called (CallBlockGet (rs_Cid rs)) w"
  have 1: "readsOnly w (snd (setCommonHeaders e p ?w))"
    by (rule readsOnly_trans [OF _ readsOnly_setCommonHeaders]) simp
  have 2: "readsOnly w (dispatch e r f ps rs p (snd (setCommonHeaders e p ?w)))"
    by (rule readsOnly_trans [OF 1 readsOnly_dispatch])
  have 3: "w_Calls v = w_Calls (snd (setCommonHeaders e p ?w)) \<Longrightarrow> readsOnly w v" for v
    by (rule readsOnly_keep [OF _ 1])
  show ?thesis
  proof (cases "setCommonHeaders e p ?w")
    case (Pair a b)
    with 1 2 3 show ?thesis
      by (cases a) (auto simp: serveResolved_def handleGettingFirstBlock_def Let_def)
  qed
qed


lemma readsOnly_serve4xx: "readsOnly w (snd (serve4xx e r p n w))"
  by (cases "ResolvePath e p")
    (auto simp: serve4xx_def resolveCall_def Let_def split: sum.split fsNode.split option.split)

lemma readsOnly_matchRules: "readsOnly w (snd (matchRules e r rp up rules w))"
proof (induction e r rp up rules w rule: matchRules.induct)
  case (2 e r rp up rule rules w)
  show ?case
  proof (cases "ru_Match rule up")
    case None
    with 2(1) show ?thesis by simp
  next
    case (Some t)
    have "readsOnly w (snd (serve4xx e r (pathNew e (rp @ t)) (ru_Status rule) w))"
      by (rule readsOnly_serve4xx)
    then show ?thesis using 2(2) [OF Some] Some by (auto simp: split_beta)
  qed
qed simp

lemma readsOnly_redirectRules: "readsOnly w (snd (handleRedirectsFileRules e r p rules w))"
  by (simp add: handleRedirectsFileRules_def Let_def readsOnly_matchRules)

lemma readsOnly_getRedirectRules: "readsOnly w (snd (getRedirectRules e f w))"
  by (auto simp: getRedirectRules_def Let_def split: sum.split fsNode.split)

fun outcomeWriter :: "redirectOutcome \<Rightarrow> writer" where
  "outcomeWriter (Rewritten rs p w) = w"
| "outcomeWriter (Finished w) = w"
| "outcomeWriter (NoRule w) = w"

lemma readsOnly_serveRedirects: "readsOnly w (outcomeWriter (serveRedirectsIfPresent e r p w))"
proof (cases "getRootPath e p")
  case (Some root)
  let ?w1 = "called (CallResolve (pathAppend e root ''_redirects'')) w"
  have w1: "readsOnly w ?w1" by simp
  show ?thesis
  proof (cases "ResolvePath e (pathAppend e root ''_redirects'')")
    case (Inr f)
    obtain res w2 where g: "getRedirectRules e f ?w1 = (res, w2)" by fastforce
    then have w2: "readsOnly w w2"
      using readsOnly_trans [OF w1 readsOnly_getRedirectRules [of ?w1 e f]] by simp
    show ?thesis
    proof (cases res)
      case (Inr rules)
      obtain red np err w3 where h: "handleRedirectsFileRules e r p rules w2 = ((red, np, err), w3)"
        by (metis prod.collapse)
      then have "readsOnly w w3"
        using readsOnly_trans [OF w2 readsOnly_redirectRules [of w2 e r p rules]] by simp
      with Some \<open>ResolvePath e _ = Inr f\<close> g h Inr show ?thesis
        by (auto simp: serveRedirectsIfPresent_def resolveCall_def split: sum.split)
    qed (use Some Inr g w2 in \<open>simp add: serveRedirectsIfPresent_def resolveCall_def\<close>)
  qed (use Some w1 in \<open>simp add: serveRedirectsIfPresent_def resolveCall_def\<close>)
qed (simp add: serveRedirectsIfPresent_def)

lemma readsOnly_search404: "readsOnly w (snd (search404 e fn cs idx w))"
proof (induction idx arbitrary: w)
  case 0
  then show ?case by (simp add: search404.simps)
next
  case (Suc idx)
  let ?p = "pathNew e (''/'' @ pathJoin (take (Suc idx) cs @ [fn]))"
  have "readsOnly w (snd (search404 e fn cs idx (called (CallResolve ?p) w)))"
    by (rule readsOnly_trans [OF _ Suc.IH]) simp
  then show ?case
    by (subst search404.simps) (simp add: Let_def resolveCall_def split: sum.split)
qed

lemma readsOnly_legacy404: "readsOnly w (snd (serveLegacy404IfPresent e r p w))"
proof -
  obtain res w1 where s: "searchUpTreeFor404 e r p w = (res, w1)" by fastforce
  have "readsOnly w w1"
  proof (cases "preferred404Filename (headerValues r ''Accept'')")
    case None
    with s show ?thesis by (simp add: searchUpTreeFor404_def)
  next
    case (Some fc)
    obtain fn ct where fc: "fc = (fn, ct)" by fastforce
    have "w1 = snd (search404 e fn (splitc CHR ''/'' p) (length (splitc CHR ''/'' p)) w)"
      using s Some fc by (auto simp: searchUpTreeFor404_def Let_def split: option.splits prod.splits)
    then show ?thesis by (simp add: readsOnly_search404)
  qed
  with s show ?thesis
    by (cases res) (auto simp: serveLegacy404IfPresent_def Let_def split: sum.split fsNode.split option.split)
qed

lemma readsOnly_resolution: "readsOnly w (snd (handlePathResolution e r f p w))"
proof (cases "ResolvePath e p")
  case (Inl err)
  let ?w1 = "called (CallResolve p) w"
  let ?o = "if hasOriginIsolation r then serveRedirectsIfPresent e r p ?w1 else NoRule ?w1"
  have o: "readsOnly w (outcomeWriter ?o)"
    using readsOnly_trans [OF _ readsOnly_serveRedirects [of ?w1 e r p], of w] by simp
  show ?thesis
  proof (cases ?o)
    case (NoRule w2)
    then have "readsOnly w (snd (serveLegacy404IfPresent e r p w2))"
      using readsOnly_trans [OF o, of "snd (serveLegacy404IfPresent e r p w2)"] readsOnly_legacy404 by simp
    with Inl NoRule show ?thesis
      by (auto simp: handlePathResolution_def resolveCall_def split: prod.split bool.split)
  qed (use Inl o in \<open>auto simp: handlePathResolution_def resolveCall_def\<close>)
qed (simp add: handlePathResolution_def resolveCall_def)

lemma readsOnly_getOrHead: "readsOnly w (getOrHeadHandler e r w)"
proof (cases "handleUnsupportedHeaders r = None \<and> handleServiceWorkerRegistration r = None")
  case False
  then show ?thesis
    by (auto simp: getOrHeadHandler_def handleProtocolHandlerRedirect_def Let_def split: option.split)
next
  case True
  obtain b1 w1 where 1: "handleProtocolHandlerRedirect e r w = (b1, w1)" by fastforce
  have r1: "readsOnly w w1" using 1 by (auto simp: handleProtocolHandlerRedirect_def Let_def split: if_splits option.splits)
  obtain b2 w2 where 2: "handleOnlyIfCached e r (pathNew e (rq_Path r)) w1 = (b2, w2)" by fastforce
  have r2: "readsOnly w w2" using 2 r1 by (auto simp: handleOnlyIfCached_def Let_def split: if_splits)
  obtain b3 w3 where 3: "handleSuperfluousNamespace e r (pathNew e (rq_Path r)) w2 = (b3, w3)" by fastforce
  have r3: "readsOnly w w3" using 3 r2 by (auto simp: handleSuperfluousNamespace_def Let_def split: if_splits)
  show ?thesis
  proof (cases "customResponseFormat (parseMedia e) r")
    case (Inl err)
    with True 1 2 3 r1 r2 r3 show ?thesis by (simp add: getOrHeadHandler_def Let_def split: bool.split)
  next
    case (Inr ft)
    obtain f ps where ft: "ft = (f, ps)" by fastforce
    obtain res w4 where 4: "handlePathResolution e r f (pathNew e (rq_Path r)) w3 = (res, w4)" by fastforce
    have r4: "readsOnly w w4" using readsOnly_trans [OF r3 readsOnly_resolution] 4 by (metis snd_conv)
    have "readsOnly w (serveResolved e r f ps rs q w4)" for rs q
      by (rule readsOnly_trans [OF r4 readsOnly_serveResolved])
    with True 1 2 3 4 ft Inr r1 r2 r3 r4 show ?thesis by (simp add: getOrHeadHandler_def Let_def split: bool.split option.split)
  qed
qed


section \<open>A concrete gateway\<close>

text \<open>A node that resolves \<^verbatim>\<open>/ipfs/<cid>\<close> to a DAG-CBOR block and nothing else.\<close>

definition gatewayNode :: gwEnv where
  "gatewayNode = \<lparr> parseMedia = (\<lambda>s. Some (s, [])), assetHash = ''a1'', pathNew = id,
     pathValid = (\<lambda>p. HasPrefix p ''/ipfs/''), pathMutable = (\<lambda>p. HasPrefix p ''/ipns/''), pathNamespace = (\<lambda>_. ''ipfs''),
     pathAppend = (\<lambda>p q. p @ ''/'' @ q),
     ResolvePath = (\<lambda>p. if p = ''/ipfs/bafy'' then Inr \<lparr> rs_Cid = ''bafy'', rs_Codec = mcDagCbor, rs_String = p, rs_Remainder = [] \<rparr>
                        else Inl ErrNoLink),
     offlineHas = (\<lambda>_. False), blockGet = (\<lambda>_. NoErr), unixfsGet = (\<lambda>_. Inl ErrNoLink), unixfsLs = (\<lambda>_. Inl ErrNoLink),
     copyFails = (\<lambda>_. False), parseRules = (\<lambda>_. Inr []), urlParse = (\<lambda>_. None), encodeQuery = id,
     typeByExtension = (\<lambda>_. []), detectType = (\<lambda>_. Inr ''text/plain''), dagEncode = (\<lambda>_ _. NoErr),
     carWrite = (\<lambda>_. NoErr), tarWrite = (\<lambda>_. NoErr), userHeaders = [], writable = False \<rparr>"

definition gatewayMfs :: mfsEnv where
  "gatewayMfs = \<lparr> ParsePath = (\<lambda>_. None), cidDecodes = (\<lambda>_. False), dagGetProto = (\<lambda>_. Inl ErrNoLink), unixfsAdd = Inr ''bafy'',
     newFileGet = NoErr, mfsNewRoot = NoErr, mfsMkdir = (\<lambda>_. NoErr), mfsLookup = (\<lambda>_. Inr True), mfsUnlink = (\<lambda>_. Unlinked),
     mfsAddChild = (\<lambda>_. NoErr), mfsGetNode = Inr ''bafy'' \<rparr>"

definition gatewayRequest :: "string \<Rightarrow> (string \<times> string) list \<Rightarrow> (string \<times> string list) list \<Rightarrow> gwRequest" where
  "gatewayRequest method query headers = \<lparr> rq_Method = method, rq_Path = ''/ipfs/bafy'', rq_RequestPath = Some ''/ipfs/bafy'',
     rq_RawQuery = [], rq_Query = query, rq_Header = headers, rq_GwHostname = None, rq_DnslinkHostname = None \<rparr>"

lemmas gatewayNode_simps = gatewayNode_def gatewayMfs_def gatewayRequest_def

section \<open>Properties\<close>

lemma calls_serveResolved_block:
  "\<not> (headerGet r ''If-None-Match'' \<noteq> [] \<and>
      etagMatch (headerGet r ''If-None-Match'') (getEtag (parseMedia e) r (rs_Cid rs)) (getDirListingEtag (assetHash e) (rs_Cid rs))) \<Longrightarrow>
   \<exists>cs. w_Calls (serveResolved e r f ps rs p w) = w_Calls w @ CallBlockGet (rs_Cid rs) # cs"
proof -
  assume no: "\<not> (headerGet r ''If-None-Match'' \<noteq> [] \<and>
      etagMatch (headerGet r ''If-None-Match'') (getEtag (parseMedia e) r (rs_Cid rs)) (getDirListingEtag (assetHash e) (rs_Cid rs)))"
  let ?w = "called (CallBlockGet (rs_Cid rs)) w"
  have w: "w_Calls ?w = w_Calls w @ [CallBlockGet (rs_Cid rs)]" by (simp add: called_def)
  obtain oe w2 where s: "setCommonHeaders e p ?w = (oe, w2)" by fastforce
  then have r2: "readsOnly ?w w2" using readsOnly_setCommonHeaders [of ?w e p] by simp
  have "readsOnly ?w (dispatch e r f ps rs p w2)" by (rule readsOnly_trans [OF r2 readsOnly_dispatch])
  with no s w r2 show ?thesis
    by (auto simp: serveResolved_def handleGettingFirstBlock_def Let_def readsOnly_def split: option.split)
qed

text \<open>
  C36. A conditional request is decided exactly, and before any block is fetched: for every
  well-formed list of weak and strong entity tags in \<^verbatim>\<open>If-None-Match\<close>, the reply is 304 with
  no call of the API when one of them is the tag of the resolved content (as a file, a block or a
  directory listing), and otherwise the first block is asked for.
\<close>

theorem conditional_get_is_exact:
  assumes "validTags tags" and "tags \<noteq> []" and "headerGet r ''If-None-Match'' = renderTags tags" and "w_Status w = None"
  shows "if \<exists>t \<in> set tags. [quote] @ snd t @ [quote] \<in>
              {getEtag (parseMedia e) r (rs_Cid rs), getDirListingEtag (assetHash e) (rs_Cid rs)}
         then w_Status (serveResolved e r f ps rs p w) = Some 304 \<and> w_Calls (serveResolved e r f ps rs p w) = w_Calls w \<and>
              w_Body (serveResolved e r f ps rs p w) = w_Body w
         else \<exists>cs. w_Calls (serveResolved e r f ps rs p w) = w_Calls w @ CallBlockGet (rs_Cid rs) # cs"
proof -
  let ?g = "getEtag (parseMedia e) r (rs_Cid rs)" and ?d = "getDirListingEtag (assetHash e) (rs_Cid rs)"
  have m: "etagMatch (headerGet r ''If-None-Match'') ?g ?d \<longleftrightarrow> (\<exists>t \<in> set tags. [quote] @ snd t @ [quote] \<in> {?g, ?d})"
    using etagMatch_renderTags [OF assms(1)] assms(3) by (simp only: etagWeakMatch_renderTag own_etags_quoted insert_iff empty_iff simp_thms)
  have ne: "headerGet r ''If-None-Match'' \<noteq> []" using assms(2,3) renderTags_ends(1) by simp
  show ?thesis
  proof (cases "\<exists>t \<in> set tags. [quote] @ snd t @ [quote] \<in> {?g, ?d}")
    case True
    with m ne assms(4) have "serveResolved e r f ps rs p w = w\<lparr> w_Status := Some 304 \<rparr>"
      by (simp add: serveResolved_def WriteHeader_def)
    with True show ?thesis by simp
  next
    case False
    with m calls_serveResolved_block [of r e rs f ps p w] show ?thesis by simp
  qed
qed

theorem conditional_get_is_exact_witness:
  "w_Status (serveResolved gatewayNode (gatewayRequest ''GET'' [] [(''If-None-Match'', [renderTags [(False, ''x''), (True, ''bafy'')]])]) [] []
     \<lparr> rs_Cid = ''bafy'', rs_Codec = mcDagCbor, rs_String = ''/ipfs/bafy'', rs_Remainder = [] \<rparr> ''/ipfs/bafy'' newWriter) = Some 304"
proof -
  let ?tags = "[(False, ''x''), (True, ''bafy'')]"
  let ?r = "gatewayRequest ''GET'' [] [(''If-None-Match'', [renderTags ?tags])]"
  let ?rs = "\<lparr> rs_Cid = ''bafy'', rs_Codec = mcDagCbor, rs_String = ''/ipfs/bafy'', rs_Remainder = [] \<rparr>"
  have 1: "validTags ?tags" by (simp add: validTags_def etagChar_def Let_def)
  have 2: "headerGet ?r ''If-None-Match'' = renderTags ?tags" by (simp add: headerGet_def headerValues_def gatewayRequest_def)
  have 3: "getEtag (parseMedia gatewayNode) ?r (rs_Cid ?rs) = [quote] @ ''bafy'' @ [quote]"
    by (simp add: getEtag_def customResponseFormat_def queryGet_def headerValues_def gatewayNode_simps Let_def)
  have 4: "\<exists>t \<in> set ?tags. [quote] @ snd t @ [quote] \<in>
      {getEtag (parseMedia gatewayNode) ?r (rs_Cid ?rs), getDirListingEtag (assetHash gatewayNode) (rs_Cid ?rs)}"
    unfolding 3 by simp
  show ?thesis
    using conditional_get_is_exact [OF 1 _ 2, of newWriter gatewayNode ?rs "[]" "[]" "''/ipfs/bafy''"] 4
    by (simp add: newWriter_def)
qed


lemma status_httpError [simp]:
  "w_Status w = None \<Longrightarrow> w_Status (httpError m err n w) = Some n"
  by (simp add: httpError_def writeBody_def WriteHeader_def setHeader_def)

lemma header_httpError:
  "k \<notin> {''X-Content-Type-Options'', ''Content-Type''} \<Longrightarrow> w_Header (httpError m err n w) k = w_Header w k"
  by (auto simp: httpError_def writeBody_def WriteHeader_def setHeader_def split: option.split)

text \<open>
  C3. A gateway that is not writable never writes: no method reaches the write calls of the API
  or depends on the DAG service, and a method other than GET, HEAD and OPTIONS is answered with
  405 and the list of the allowed ones, with no call at all.
\<close>

theorem read_only_gateway_never_writes:
  assumes "\<not> writable e"
  shows "CallUnixfsAdd \<notin> set (w_Calls (ServeHTTP e m r newWriter)) \<and> ServeHTTP e m r = ServeHTTP e m' r \<and>
    (rq_Method r \<in> {''GET'', ''HEAD'', ''OPTIONS''} \<or>
     w_Status (ServeHTTP e m r newWriter) = Some 405 \<and> w_Calls (ServeHTTP e m r newWriter) = [] \<and>
     w_Header (ServeHTTP e m r newWriter) ''Allow'' = Some [''GET'', ''HEAD'', ''OPTIONS''])"
proof (intro conjI)
  have "readsOnly newWriter (ServeHTTP e m r newWriter)"
    using assms readsOnly_getOrHead [of newWriter e r]
    by (auto simp: ServeHTTP_def optionsHandler_def readsOnly_calls)
  then show "CallUnixfsAdd \<notin> set (w_Calls (ServeHTTP e m r newWriter))"
    by (auto simp: readsOnly_def newWriter_def)
  show "ServeHTTP e m r = ServeHTTP e m' r"
    using assms by (simp add: ServeHTTP_def fun_eq_iff)
  show "rq_Method r \<in> {''GET'', ''HEAD'', ''OPTIONS''} \<or>
         w_Status (ServeHTTP e m r newWriter) = Some 405 \<and> w_Calls (ServeHTTP e m r newWriter) = [] \<and>
         w_Header (ServeHTTP e m r newWriter) ''Allow'' = Some [''GET'', ''HEAD'', ''OPTIONS'']"
    using assms by (auto simp: ServeHTTP_def header_httpError addHeader_def newWriter_def)
qed

theorem read_only_gateway_never_writes_witness:
  "w_Status (ServeHTTP gatewayNode gatewayMfs (gatewayRequest ''PUT'' [] []) newWriter) = Some 405"
proof -
  have 1: "\<not> writable gatewayNode" by (simp add: gatewayNode_def)
  have 2: "rq_Method (gatewayRequest ''PUT'' [] []) \<notin> {''GET'', ''HEAD'', ''OPTIONS''}" by (simp add: gatewayRequest_def)
  from read_only_gateway_never_writes [OF 1, of gatewayMfs "gatewayRequest ''PUT'' [] []"] 2 show ?thesis by blast
qed

lemma onlyIfCached_miss:
  assumes "headerGet r ''Cache-Control'' = ''only-if-cached''" and "\<not> offlineHas e p"
  shows "\<exists>w'. handleOnlyIfCached e r p w = (True, w') \<and> w_Calls w' = w_Calls w @ [CallOfflineStat p] \<and>
           (w_Status w = None \<longrightarrow> w_Status w' = Some 412)"
  using assms by (auto simp: handleOnlyIfCached_def Let_def called_def WriteHeader_def split: option.split)

text \<open>
  A request with \<^verbatim>\<open>Cache-Control: only-if-cached\<close> for content the local store does not
  have never reaches the network: the only call is the check of the local store, and unless an
  earlier check refuses the request, the reply is 412.
\<close>

theorem only_if_cached_stays_offline:
  assumes "headerGet r ''Cache-Control'' = ''only-if-cached''" and "\<not> offlineHas e (pathNew e (rq_Path r))"
  shows "set (w_Calls (getOrHeadHandler e r newWriter)) \<subseteq> {CallOfflineStat (pathNew e (rq_Path r))} \<and>
    (if handleUnsupportedHeaders r = None \<and> queryGet r ''uri'' = [] \<and> handleServiceWorkerRegistration r = None
     then w_Status (getOrHeadHandler e r newWriter) = Some 412 \<and>
          w_Calls (getOrHeadHandler e r newWriter) = [CallOfflineStat (pathNew e (rq_Path r))]
     else w_Calls (getOrHeadHandler e r newWriter) = [] \<or>
          w_Calls (getOrHeadHandler e r newWriter) = [CallOfflineStat (pathNew e (rq_Path r))])"
proof -
  obtain b w1 where u: "handleProtocolHandlerRedirect e r newWriter = (b, w1)" by fastforce
  have w1: "w_Calls w1 = []" and b: "queryGet r ''uri'' = [] \<Longrightarrow> \<not> b \<and> w1 = newWriter"
    using u by (auto simp: handleProtocolHandlerRedirect_def Let_def newWriter_def split: if_splits option.splits)
  obtain w2 where c: "handleOnlyIfCached e r (pathNew e (rq_Path r)) w1 = (True, w2)"
      "w_Calls w2 = [CallOfflineStat (pathNew e (rq_Path r))]" "w_Status w1 = None \<longrightarrow> w_Status w2 = Some 412"
    using onlyIfCached_miss [OF assms, of w1] w1 by auto
  show ?thesis
  proof (cases "handleUnsupportedHeaders r")
    case (Some err)
    then show ?thesis by (simp add: getOrHeadHandler_def newWriter_def)
  next
    case n1: None
    show ?thesis
    proof (cases b)
      case True
      with n1 u w1 b show ?thesis by (auto simp: getOrHeadHandler_def)
    next
      case False
      with n1 u w1 b c show ?thesis
        by (cases "handleServiceWorkerRegistration r") (auto simp: getOrHeadHandler_def Let_def newWriter_def)
    qed
  qed
qed

theorem only_if_cached_stays_offline_witness:
  "w_Calls (getOrHeadHandler gatewayNode (gatewayRequest ''GET'' [] [(''Cache-Control'', [''only-if-cached''])]) newWriter) =
     [CallOfflineStat ''/ipfs/bafy'']"
proof -
  let ?r = "gatewayRequest ''GET'' [] [(''Cache-Control'', [''only-if-cached''])]"
  have 1: "headerGet ?r ''Cache-Control'' = ''only-if-cached''" by (simp add: headerGet_def headerValues_def gatewayRequest_def)
  have 2: "\<not> offlineHas gatewayNode (pathNew gatewayNode (rq_Path ?r))" by (simp add: gatewayNode_def)
  have 3: "handleUnsupportedHeaders ?r = None" "queryGet ?r ''uri'' = []" "handleServiceWorkerRegistration ?r = None"
    by (simp_all add: handleUnsupportedHeaders_def handleServiceWorkerRegistration_def headerGet_def headerValues_def queryGet_def gatewayRequest_def)
  have 4: "pathNew gatewayNode (rq_Path ?r) = ''/ipfs/bafy''" by (simp add: gatewayNode_simps)
  from only_if_cached_stays_offline [OF 1 2] 3 show ?thesis unfolding 4 by simp
qed


subsection \<open>Redirect rules\<close>

named_theorems gw_rules \<open>definitions that do not read the rules of a redirects file\<close>

lemma rules_fields:
  "parseMedia (e\<lparr> parseRules := f \<rparr>) = parseMedia e"
  "assetHash (e\<lparr> parseRules := f \<rparr>) = assetHash e"
  "pathNew (e\<lparr> parseRules := f \<rparr>) = pathNew e"
  "pathValid (e\<lparr> parseRules := f \<rparr>) = pathValid e"
  "pathMutable (e\<lparr> parseRules := f \<rparr>) = pathMutable e"
  "pathNamespace (e\<lparr> parseRules := f \<rparr>) = pathNamespace e"
  "pathAppend (e\<lparr> parseRules := f \<rparr>) = pathAppend e"
  "ResolvePath (e\<lparr> parseRules := f \<rparr>) = ResolvePath e"
  "offlineHas (e\<lparr> parseRules := f \<rparr>) = offlineHas e"
  "blockGet (e\<lparr> parseRules := f \<rparr>) = blockGet e"
  "unixfsGet (e\<lparr> parseRules := f \<rparr>) = unixfsGet e"
  "unixfsLs (e\<lparr> parseRules := f \<rparr>) = unixfsLs e"
  "copyFails (e\<lparr> parseRules := f \<rparr>) = copyFails e"
  "urlParse (e\<lparr> parseRules := f \<rparr>) = urlParse e"
  "encodeQuery (e\<lparr> parseRules := f \<rparr>) = encodeQuery e"
  "typeByExtension (e\<lparr> parseRules := f \<rparr>) = typeByExtension e"
  "detectType (e\<lparr> parseRules := f \<rparr>) = detectType e"
  "dagEncode (e\<lparr> parseRules := f \<rparr>) = dagEncode e"
  "carWrite (e\<lparr> parseRules := f \<rparr>) = carWrite e"
  "tarWrite (e\<lparr> parseRules := f \<rparr>) = tarWrite e"
  "userHeaders (e\<lparr> parseRules := f \<rparr>) = userHeaders e"
  "writable (e\<lparr> parseRules := f \<rparr>) = writable e"
  by simp_all

lemma rules_addUserHeaders [gw_rules]: "addUserHeaders (e\<lparr> parseRules := f \<rparr>) = addUserHeaders e"
  by (simp add: addUserHeaders_def fun_eq_iff)

lemma rules_resolveCall [gw_rules]: "resolveCall (e\<lparr> parseRules := f \<rparr>) = resolveCall e"
  by (simp add: resolveCall_def fun_eq_iff)

lemma rules_checks [gw_rules]:
  "handleProtocolHandlerRedirect (e\<lparr> parseRules := f \<rparr>) = handleProtocolHandlerRedirect e"
  "handleOnlyIfCached (e\<lparr> parseRules := f \<rparr>) = handleOnlyIfCached e"
  "handleSuperfluousNamespace (e\<lparr> parseRules := f \<rparr>) = handleSuperfluousNamespace e"
  "handleGettingFirstBlock (e\<lparr> parseRules := f \<rparr>) = handleGettingFirstBlock e"
  unfolding fun_eq_iff handleProtocolHandlerRedirect_def handleOnlyIfCached_def handleSuperfluousNamespace_def
      handleGettingFirstBlock_def rules_fields by (intro allI refl)+

lemma rules_search404 [gw_rules]: "search404 (e\<lparr> parseRules := f \<rparr>) fn cs idx w = search404 e fn cs idx w"
proof (induction idx arbitrary: w)
  case 0
  then show ?case by (simp add: search404.simps)
next
  case (Suc idx)
  show ?case
    unfolding search404.simps [of _ fn cs "Suc idx"] rules_resolveCall rules_fields diff_Suc_1 Suc.IH by (rule refl)
qed

lemma rules_legacy404 [gw_rules]: "serveLegacy404IfPresent (e\<lparr> parseRules := f \<rparr>) r p w = serveLegacy404IfPresent e r p w"
  unfolding serveLegacy404IfPresent_def searchUpTreeFor404_def rules_search404 rules_fields by (rule refl)

lemma rules_resolveRoots: "resolveRoots (e\<lparr> parseRules := f \<rparr>) sp segs w = resolveRoots e sp segs w"
proof (induction segs arbitrary: sp w)
  case (Cons root segs)
  show ?case unfolding resolveRoots.simps rules_resolveCall rules_fields Cons.IH by (rule refl)
qed simp

lemma rules_commonHeaders [gw_rules]: "setCommonHeaders (e\<lparr> parseRules := f \<rparr>) p w = setCommonHeaders e p w"
  unfolding setCommonHeaders_def buildIpfsRootsHeader_def rules_resolveRoots rules_addUserHeaders by (rule refl)

lemma rules_serve [gw_rules]:
  "serveFile (e\<lparr> parseRules := f \<rparr>) = serveFile e"
  "serveRawBlock (e\<lparr> parseRules := f \<rparr>) = serveRawBlock e"
  "serveCAR (e\<lparr> parseRules := f \<rparr>) = serveCAR e"
  "serveTAR (e\<lparr> parseRules := f \<rparr>) = serveTAR e"
  "serveCodecHTML (e\<lparr> parseRules := f \<rparr>) = serveCodecHTML e"
  "serveCodecRaw (e\<lparr> parseRules := f \<rparr>) = serveCodecRaw e"
  "serveCodecConverted (e\<lparr> parseRules := f \<rparr>) = serveCodecConverted e"
  unfolding fun_eq_iff serveFile_def serveRawBlock_def serveCAR_def serveTAR_def serveCodecHTML_def serveCodecRaw_def
      serveCodecConverted_def rules_fields by (intro allI refl)+

lemma rules_directory [gw_rules]:
  "serveDirectory (e\<lparr> parseRules := f \<rparr>) = serveDirectory e" "serveUnixFS (e\<lparr> parseRules := f \<rparr>) = serveUnixFS e"
  "serveCodec (e\<lparr> parseRules := f \<rparr>) = serveCodec e"
  unfolding fun_eq_iff serveDirectory_def serveUnixFS_def serveCodec_def rules_serve rules_fields by (intro allI refl)+

lemma rules_serveResolved [gw_rules]: "serveResolved (e\<lparr> parseRules := f \<rparr>) r fm ps rs p w = serveResolved e r fm ps rs p w"
  unfolding serveResolved_def dispatch_def gw_rules rules_fields by (rule refl)

lemma rules_resolution:
  "\<not> hasOriginIsolation r \<or> fm \<noteq> [] \<or> isOk (ResolvePath e p) \<Longrightarrow>
   handlePathResolution (e\<lparr> parseRules := f \<rparr>) r fm p w = handlePathResolution e r fm p w"
  by (cases "ResolvePath e p")
    (auto simp: handlePathResolution_def gw_rules resolveCall_def isUnixfsResponseFormat_def isOk_def)

text \<open>
  C31. The rules of a \<^verbatim>\<open>_redirects\<close> file of the content count only for a website with an
  origin of its own: without origin isolation, or when a response format is asked for, or when the
  path resolves, the reply to a request, the headers, the calls and their order are the same
  whatever rules the file holds.
\<close>

theorem redirect_rules_need_origin_isolation:
  assumes "\<not> hasOriginIsolation r \<or> (\<forall>ps. customResponseFormat (parseMedia e) r \<noteq> Inr ([], ps)) \<or>
           isOk (ResolvePath e (pathNew e (rq_Path r)))"
  shows "getOrHeadHandler (e\<lparr> parseRules := f \<rparr>) r w = getOrHeadHandler e r w"
proof (cases "customResponseFormat (parseMedia e) r")
  case (Inl err)
  show ?thesis unfolding getOrHeadHandler_def Let_def rules_fields gw_rules Inl sum.case by (rule refl)
next
  case (Inr fp)
  obtain fm ps where fp: "fp = (fm, ps)" by fastforce
  have res: "handlePathResolution (e\<lparr> parseRules := f \<rparr>) r fm (pathNew e (rq_Path r)) w' =
        handlePathResolution e r fm (pathNew e (rq_Path r)) w'" for w'
    by (rule rules_resolution) (use assms Inr fp in auto)
  show ?thesis
    unfolding getOrHeadHandler_def Let_def rules_fields gw_rules Inr fp sum.case prod.case res by (rule refl)
qed

theorem redirect_rules_need_origin_isolation_witness:
  "getOrHeadHandler (gatewayNode\<lparr> parseRules := (\<lambda>_. Inl ErrNoLink) \<rparr>) (gatewayRequest ''GET'' [] []) newWriter =
   getOrHeadHandler gatewayNode (gatewayRequest ''GET'' [] []) newWriter"
proof -
  have "\<not> hasOriginIsolation (gatewayRequest ''GET'' [] [])" by (simp add: hasOriginIsolation_def gatewayRequest_def)
  then show ?thesis by (intro redirect_rules_need_origin_isolation) simp
qed


subsection \<open>Content disposition\<close>

text \<open>The reading side of percent-encoding, as a client does it.\<close>

definition hexVal :: "char \<Rightarrow> nat option" where
  "hexVal c = (let n = (of_char c :: nat) in
     if 48 \<le> n \<and> n \<le> 57 then Some (n - 48) else if 65 \<le> n \<and> n \<le> 70 then Some (n - 55)
     else if 97 \<le> n \<and> n \<le> 102 then Some (n - 87) else None)"

fun pathUnescape :: "string \<Rightarrow> string option" where
  "pathUnescape [] = Some []"
| "pathUnescape (c # s) =
     (if c \<noteq> CHR ''%'' then map_option (Cons c) (pathUnescape s)
      else case s of
        a # b # t \<Rightarrow>
          (case (hexVal a, hexVal b) of
             (Some x, Some y) \<Rightarrow> map_option (Cons (char_of (16 * x + y))) (pathUnescape t)
           | _ \<Rightarrow> None)
      | _ \<Rightarrow> None)"

lemma of_char_hexDigit: "d < 16 \<Longrightarrow> (of_char (hexDigit d) :: nat) = (if d < 10 then 48 + d else 55 + d)"
  by (simp add: hexDigit_def)

lemma hexVal_hexDigit [simp]: "d < 16 \<Longrightarrow> hexVal (hexDigit d) = Some d"
  by (simp add: hexVal_def of_char_hexDigit Let_def)

lemma of_char_less_256 [simp]: "(of_char c :: nat) < 256"
  using take_bit_nat_less_exp [of 8 "of_char c"] of_char_of [of "of_char c :: nat"] by (simp add: take_bit_eq_mod)

lemma unreserved_not_percent: "pathUnreserved c \<Longrightarrow> c \<noteq> CHR ''%''"
  by (auto simp: pathUnreserved_def Let_def)

lemma pathUnescape_PathEscape: "pathUnescape (PathEscape s) = Some s"
proof (induction s)
  case (Cons c s)
  let ?n = "of_char c :: nat"
  have "?n div 16 < 16" "?n mod 16 < 16" using of_char_less_256 [of c] by (simp_all add: less_mult_imp_div_less)
  moreover have "16 * (?n div 16) + ?n mod 16 = ?n" by simp
  ultimately show ?case
    using Cons by (simp add: PathEscape_def unreserved_not_percent del: pathUnescape.simps, subst pathUnescape.simps)
      (auto simp: unreserved_not_percent)
qed (simp add: PathEscape_def)

definition headerSafe :: "char \<Rightarrow> bool" where
  "headerSafe c \<longleftrightarrow> pathUnreserved c \<or> c = CHR ''%''"

lemma hexDigit_safe: "d < 16 \<Longrightarrow> headerSafe (hexDigit d)"
  by (auto simp: headerSafe_def pathUnreserved_def of_char_hexDigit Let_def)

lemma PathEscape_safe: "list_all headerSafe (PathEscape s)"
proof (induction s)
  case (Cons c s)
  have "(of_char c :: nat) div 16 < 16" using of_char_less_256 [of c] by (simp add: less_mult_imp_div_less)
  then show ?case using Cons by (auto simp: PathEscape_def hexDigit_safe) (auto simp: headerSafe_def)
qed (simp add: PathEscape_def)

lemma eq_quote_iff: "c = quote \<longleftrightarrow> (of_char c :: nat) = 34"
  by (auto simp: quote_def) (metis char_of_char)

lemma headerSafe_chars: "headerSafe c \<Longrightarrow> c \<noteq> quote \<and> c \<noteq> CHR '';'' \<and> 32 < (of_char c :: nat) \<and> (of_char c :: nat) < 127"
  by (auto simp: headerSafe_def pathUnreserved_def eq_quote_iff Let_def)


lemma no_separators: "list_all headerSafe s \<Longrightarrow> countChar quote s = 0 \<and> countChar CHR '';'' s = 0"
  by (induction s) (auto simp: countChar_def dest: headerSafe_chars)

lemma countChar_append: "countChar c (s @ t) = countChar c s + countChar c t"
  by (simp add: countChar_def)

text \<open>
  No file name can break out of the \<^verbatim>\<open>Content-Disposition\<close> header: for any bytes in the
  \<^verbatim>\<open>filename\<close> parameter the value holds two quotes, two semicolons and only printable ASCII, and
  a client that decodes the extended parameter gets the name back.
\<close>

theorem content_disposition_is_injection_safe:
  assumes "disposition \<in> {''inline'', ''attachment''}"
  shows "countChar quote (dispositionText name disposition) = 2 \<and> countChar CHR '';'' (dispositionText name disposition) = 2 \<and>
    list_all (\<lambda>c. 32 \<le> (of_char c :: nat) \<and> (of_char c :: nat) < 127) (dispositionText name disposition) \<and>
    (\<exists>pre ext. dispositionText name disposition = pre @ ''filename*=UTF-8'' @ [char_of (39 :: nat), char_of (39 :: nat)] @ ext
       \<and> pathUnescape ext = Some name)"
proof (intro conjI)
  let ?a = "PathEscape (onlyASCIIReplace name)" and ?u = "PathEscape name"
  have a: "countChar quote ?a = 0" "countChar CHR '';'' ?a = 0" and u: "countChar quote ?u = 0" "countChar CHR '';'' ?u = 0"
    using no_separators PathEscape_safe by blast+
  have sep: "countChar quote disposition = 0" "countChar CHR '';'' disposition = 0"
    using assms by (auto simp: countChar_def eq_quote_iff)
  have lit: "countChar quote ''; filename='' = 0" "countChar quote ''; filename*=UTF-8'' = 0"
      "countChar CHR '';'' ''; filename='' = 1" "countChar CHR '';'' ''; filename*=UTF-8'' = 1"
      "countChar quote [quote] = 1" "countChar CHR '';'' [quote] = 0"
      "countChar quote [char_of (39 :: nat), char_of (39 :: nat)] = 0" "countChar CHR '';'' [char_of (39 :: nat), char_of (39 :: nat)] = 0"
    by (simp_all add: countChar_def eq_quote_iff, simp_all add: quote_def char_of_eq_iff)
  show "countChar quote (dispositionText name disposition) = 2"
    unfolding dispositionText_def countChar_append a u sep lit by simp
  show "countChar CHR '';'' (dispositionText name disposition) = 2"
    unfolding dispositionText_def countChar_append a u sep lit by simp
  have "list_all (\<lambda>c. 32 \<le> (of_char c :: nat) \<and> (of_char c :: nat) < 127) (PathEscape s)" for s
    using PathEscape_safe [of s] by (rule list.pred_mono_strong) (use headerSafe_chars less_imp_le in blast)
  then show "list_all (\<lambda>c. 32 \<le> (of_char c :: nat) \<and> (of_char c :: nat) < 127) (dispositionText name disposition)"
    using assms by (auto simp: dispositionText_def quote_def)
  show "\<exists>pre ext. dispositionText name disposition = pre @ ''filename*=UTF-8'' @ [char_of (39 :: nat), char_of (39 :: nat)] @ ext
           \<and> pathUnescape ext = Some name"
    by (rule exI [of _ "disposition @ ''; filename='' @ [quote] @ ?a @ [quote] @ ''; ''"], rule exI [of _ ?u])
      (simp add: dispositionText_def pathUnescape_PathEscape)
qed

theorem content_disposition_is_injection_safe_witness:
  "countChar quote (dispositionText [quote, CHR '';'', char_of (10 :: nat)] ''inline'') = 2"
  using content_disposition_is_injection_safe [of "''inline''" "[quote, CHR '';'', char_of (10 :: nat)]"] by simp

subsection \<open>Codecs\<close>

text \<open>
  Asking for plain JSON of a block that is neither JSON nor DAG-JSON (\<^verbatim>\<open>?format=json\<close> or
  the \<^verbatim>\<open>Accept\<close> header, on a CBOR or DAG-CBOR block) ends in the branch the code calls
  impossible: status 500 and an error text, after the caching headers of the content were set.
\<close>

theorem plain_json_of_cbor_is_internal_error:
  assumes "rs_Codec rs \<in> {mcCbor, mcDagCbor}" and "rs_Remainder rs = []" and "w_Status w = None"
  shows "w_Status (dispatch e r ''application/json'' ps rs p w) = Some 500 \<and>
    (pathMutable e p \<or>
     w_Header (dispatch e r ''application/json'' ps rs p w) ''Cache-Control'' = Some [''public, max-age=29030400, immutable''])"
proof (intro conjI)
  let ?v = "setHeader ''X-Content-Type-Options'' ''nosniff'' (setHeader ''Content-Type'' ''application/json''
      (snd (setCodecContentDisposition r rs ''application/json''
        (snd (addCacheControlHeaders (parseMedia e) (pathMutable e) r p (rs_Cid rs) w)))))"
  have d: "dispatch e r ''application/json'' ps rs p w =
      webError ''unsupported content type'' (OtherErr ''application/json'') 500 ?v"
    using assms
    by (auto simp: dispatch_def serveCodec_def contentTypeToRaw_def contentTypeToCodec_def mc_defs split_beta Let_def)
  have "w_Status ?v = None"
    using assms(3) by (simp add: setHeader_def setCodecContentDisposition_def addCacheControlHeaders_def
        setContentDispositionHeader_def Let_def)
  then show "w_Status (dispatch e r ''application/json'' ps rs p w) = Some 500"
    by (simp add: d webError_def webErrorCode_def)
  show "pathMutable e p \<or>
     w_Header (dispatch e r ''application/json'' ps rs p w) ''Cache-Control'' = Some [''public, max-age=29030400, immutable'']"
    by (simp add: d webError_def header_httpError setHeader_def setCodecContentDisposition_def
        addCacheControlHeaders_def setContentDispositionHeader_def Let_def)
qed

theorem plain_json_of_cbor_is_internal_error_witness:
  "w_Status (dispatch gatewayNode (gatewayRequest ''GET'' [(''format'', ''json'')] []) ''application/json'' []
     \<lparr> rs_Cid = ''bafy'', rs_Codec = mcDagCbor, rs_String = ''/ipfs/bafy'', rs_Remainder = [] \<rparr> ''/ipfs/bafy'' newWriter) = Some 500"
  by (rule conjunct1 [OF plain_json_of_cbor_is_internal_error]) (simp_all add: newWriter_def)

end
