(* ===== verification/P2P.thy ===== *)
theory P2P
  imports GoPrelude
begin

text \<open>
  Tunnels over libp2p streams: \<^verbatim>\<open>p2p/{p2p,listener,local,remote,stream}.go\<close>, the commands that
  manage them (\<^verbatim>\<open>core/commands/p2p.go\<close>) and the path parser of the HTTP proxy
  (\<^verbatim>\<open>core/corehttp/p2p_proxy.go\<close>).

  \<^item> Addresses, peers and protocols are their texts.  A network connection is a number; what the
    code does to connections is recorded in the order it does it (\<open>ioEvent\<close>).
  \<^item> The two copying goroutines of a stream are pending tasks.  An event of \<open>p2pEvent\<close> is a call,
    an incoming connection, the setting up of a connection with what the network answers, the end
    of a copying task, or a step of the closing of a stream.
  \<^item> The registries are guarded by mutexes, so the accesses to them are whole steps; what happens
    outside of the mutexes is in steps of its own, and other events may run in between.  The
    closing of a stream is three steps: the local endpoint, the remote endpoint, and
    \<^verbatim>\<open>Deregister\<close>, which takes the mutex; several goroutines may be closing one stream.  Between
    the lookup of a listener and the registration of the stream for it the listener may be closed,
    and between the lookup of a stream and its reset by a command the stream may be: a command
    resets the streams it has looked up, whether or not they are still there.
\<close>

section \<open>Listeners\<close>

datatype Listener =
    LocalListener (lProtocol: string) (lLaddr: string) (lPeer: string) (lSocket: nat)
  | RemoteListener (rProtocol: string) (rAddr: string) (rReportRemote: bool)

definition maPrefix :: string where
  "maPrefix = ''/p2p/''"

text \<open>\<open>self\<close> is the identity of the node.\<close>

fun Protocol :: "Listener \<Rightarrow> string" where
  "Protocol (LocalListener proto laddr peer sock) = proto"
| "Protocol (RemoteListener proto addr report) = proto"

fun ListenAddress :: "string \<Rightarrow> Listener \<Rightarrow> string" where
  "ListenAddress self (LocalListener proto laddr peer sock) = laddr"
| "ListenAddress self (RemoteListener proto addr report) = maPrefix @ self"

fun TargetAddress :: "Listener \<Rightarrow> string" where
  "TargetAddress (LocalListener proto laddr peer sock) = maPrefix @ peer"
| "TargetAddress (RemoteListener proto addr report) = addr"

fun listenerKey :: "Listener \<Rightarrow> string" where
  "listenerKey (LocalListener proto laddr peer sock) = laddr"
| "listenerKey (RemoteListener proto addr report) = proto"

type_synonym Listeners = "(string \<times> Listener) list"

text \<open>\<^verbatim>\<open>Register\<close>; \<open>None\<close> is the error.\<close>

definition registerListener :: "Listener \<Rightarrow> Listeners \<Rightarrow> Listeners option" where
  "registerListener l r =
     (case map_of r (listenerKey l) of Some _ \<Rightarrow> None | None \<Rightarrow> Some ((listenerKey l, l) # r))"

text \<open>The loop of \<^verbatim>\<open>Close\<close>: the table that is left and the listeners to close.\<close>

fun closeLoop :: "(Listener \<Rightarrow> bool) \<Rightarrow> Listener list \<Rightarrow> Listeners \<Rightarrow> Listener list \<Rightarrow> Listeners \<times> Listener list" where
  "closeLoop matchFunc [] r todo = (r, todo)"
| "closeLoop matchFunc (l # ls) r todo =
     (if \<not> matchFunc l then closeLoop matchFunc ls r todo
      else case map_of r (listenerKey l) of
        Some _ \<Rightarrow> closeLoop matchFunc ls (filter (\<lambda>e. fst e \<noteq> listenerKey l) r) (todo @ [l])
      | None \<Rightarrow> closeLoop matchFunc ls r todo)"

definition closeListeners :: "(Listener \<Rightarrow> bool) \<Rightarrow> Listeners \<Rightarrow> Listeners \<times> Listener list" where
  "closeListeners matchFunc r = closeLoop matchFunc (map snd r) r []"

section \<open>Streams\<close>

record Stream =
  st_id :: "64 word"
  st_Protocol :: string
  st_OriginAddr :: string
  st_TargetAddr :: string
  st_peer :: string
  st_Local :: nat
  st_Remote :: nat

datatype ioEvent = ListenerClosed nat | LocalClosed nat | RemoteClosed nat | RemoteReset nat

text \<open>How far the closing of a stream has come: what it does next.\<close>

datatype closePhase = LocalNext | RemoteNext | DeregNext

record StreamRegistry =
  sr_Streams :: "64 word \<rightharpoonup> Stream"
  sr_conns :: "string \<rightharpoonup> int"
  sr_nextID :: "64 word"
  sr_tagged :: "string set"

text \<open>
  \<open>p2p_arrived\<close> are the connections and streams that wait to be set up, \<open>p2p_copying\<close> the copying
  goroutines, \<open>p2p_looked\<close> the streams a command is about to reset, and \<open>p2p_ending\<close> the
  calls of \<^verbatim>\<open>Close\<close> (\<open>False\<close>) and \<^verbatim>\<open>Reset\<close> (\<open>True\<close>) that are under way.
\<close>

record P2P =
  p2p_ListenersLocal :: Listeners
  p2p_ListenersP2P :: Listeners
  p2p_Streams :: StreamRegistry
  p2p_copying :: "(Stream \<times> bool) list"
  p2p_looked :: "Stream list"
  p2p_ending :: "(Stream \<times> bool \<times> closePhase) list"
  p2p_arrived :: "(Listener \<times> nat \<times> string) list"
  p2p_io :: "ioEvent list"

definition newP2P :: P2P where
  "newP2P = \<lparr> p2p_ListenersLocal = [], p2p_ListenersP2P = [],
     p2p_Streams = \<lparr> sr_Streams = Map.empty, sr_conns = Map.empty, sr_nextID = 0, sr_tagged = {} \<rparr>,
     p2p_copying = [], p2p_looked = [], p2p_ending = [], p2p_arrived = [], p2p_io = [] \<rparr>"

definition connCount :: "StreamRegistry \<Rightarrow> string \<Rightarrow> int" where
  "connCount r p = (case sr_conns r p of Some n \<Rightarrow> n | None \<Rightarrow> 0)"

definition startStreaming :: "Stream \<Rightarrow> P2P \<Rightarrow> P2P" where
  "startStreaming s p = p\<lparr> p2p_copying := p2p_copying p @ [(s, True), (s, False)] \<rparr>"

definition registerStream :: "Stream \<Rightarrow> P2P \<Rightarrow> P2P" where
  "registerStream s p =
     (let r = p2p_Streams p;
          s1 = s\<lparr> st_id := sr_nextID r \<rparr>;
          r1 = r\<lparr> sr_tagged := insert (st_peer s) (sr_tagged r),
                 sr_conns := (sr_conns r)(st_peer s \<mapsto> connCount r (st_peer s) + 1),
                 sr_Streams := (sr_Streams r)(sr_nextID r \<mapsto> s1),
                 sr_nextID := sr_nextID r + 1 \<rparr>
      in startStreaming s1 (p\<lparr> p2p_Streams := r1 \<rparr>))"

definition Deregister :: "64 word \<Rightarrow> StreamRegistry \<Rightarrow> StreamRegistry" where
  "Deregister streamID r =
     (case sr_Streams r streamID of
        None \<Rightarrow> r
      | Some s \<Rightarrow>
          let p = st_peer s; n = connCount r p - 1;
              r1 = (if n < 1 then r\<lparr> sr_conns := (sr_conns r)(p := None), sr_tagged := sr_tagged r - {p} \<rparr>
                    else r\<lparr> sr_conns := (sr_conns r)(p \<mapsto> n) \<rparr>)
          in r1\<lparr> sr_Streams := (sr_Streams r1)(streamID := None) \<rparr>)"

text \<open>\<^verbatim>\<open>Close\<close> and \<^verbatim>\<open>Reset\<close> begin here; \<open>endingStep\<close> is each of their three statements.\<close>

definition closeStream :: "Stream \<Rightarrow> P2P \<Rightarrow> P2P" where
  "closeStream s p = p\<lparr> p2p_ending := p2p_ending p @ [(s, False, LocalNext)] \<rparr>"

definition resetStream :: "Stream \<Rightarrow> P2P \<Rightarrow> P2P" where
  "resetStream s p = p\<lparr> p2p_ending := p2p_ending p @ [(s, True, LocalNext)] \<rparr>"

fun endingStep :: "Stream \<Rightarrow> bool \<Rightarrow> closePhase \<Rightarrow> P2P \<Rightarrow> P2P" where
  "endingStep s rst LocalNext p =
     p\<lparr> p2p_ending := remove1 (s, rst, LocalNext) (p2p_ending p) @ [(s, rst, RemoteNext)],
        p2p_io := p2p_io p @ [LocalClosed (st_Local s)] \<rparr>"
| "endingStep s rst RemoteNext p =
     p\<lparr> p2p_ending := remove1 (s, rst, RemoteNext) (p2p_ending p) @ [(s, rst, DeregNext)],
        p2p_io := p2p_io p @ [if rst then RemoteReset (st_Remote s) else RemoteClosed (st_Remote s)] \<rparr>"
| "endingStep s rst DeregNext p =
     p\<lparr> p2p_ending := remove1 (s, rst, DeregNext) (p2p_ending p),
        p2p_Streams := Deregister (st_id s) (p2p_Streams p) \<rparr>"

text \<open>The end of one of the two copying goroutines, with or without an error.\<close>

definition copyDone :: "Stream \<Rightarrow> bool \<Rightarrow> bool \<Rightarrow> P2P \<Rightarrow> P2P" where
  "copyDone s dir err p =
     (let p1 = p\<lparr> p2p_copying := remove1 (s, dir) (p2p_copying p) \<rparr>
      in if err then resetStream s p1 else closeStream s p1)"

section \<open>Forwarding\<close>

text \<open>
  \<^verbatim>\<open>ForwardLocal\<close>; \<open>listen\<close> is what \<^verbatim>\<open>manet.Listen\<close> gives: the address listened on and the
  socket.  When the address is registered already the socket is left open.
\<close>

definition ForwardLocal :: "string \<Rightarrow> string \<Rightarrow> (string \<times> nat) option \<Rightarrow> P2P \<Rightarrow> Listener option \<times> P2P" where
  "ForwardLocal peer proto listen p =
     (case listen of
        None \<Rightarrow> (None, p)
      | Some (laddr, sock) \<Rightarrow>
          let l = LocalListener proto laddr peer sock in
          (case registerListener l (p2p_ListenersLocal p) of
             None \<Rightarrow> (None, p)
           | Some r \<Rightarrow> (Some l, p\<lparr> p2p_ListenersLocal := r \<rparr>)))"

definition ForwardRemote :: "string \<Rightarrow> string \<Rightarrow> bool \<Rightarrow> P2P \<Rightarrow> Listener option \<times> P2P" where
  "ForwardRemote proto addr reportRemote p =
     (let l = RemoteListener proto addr reportRemote in
      case registerListener l (p2p_ListenersP2P p) of
        None \<Rightarrow> (None, p)
      | Some r \<Rightarrow> (Some l, p\<lparr> p2p_ListenersP2P := r \<rparr>))"

text \<open>\<^verbatim>\<open>setupStream\<close> on an accepted connection; \<open>dialled\<close> is the stream to the peer.\<close>

definition setupStream :: "Listener \<Rightarrow> nat \<Rightarrow> string \<Rightarrow> nat option \<Rightarrow> P2P \<Rightarrow> P2P" where
  "setupStream l local' origin dialled p =
     (case dialled of
        None \<Rightarrow> p\<lparr> p2p_io := p2p_io p @ [LocalClosed local'] \<rparr>
      | Some remote \<Rightarrow>
          registerStream \<lparr> st_id = 0, st_Protocol = Protocol l, st_OriginAddr = origin, st_TargetAddr = TargetAddress l,
            st_peer = lPeer l, st_Local = local', st_Remote = remote \<rparr> p)"

text \<open>
  \<^verbatim>\<open>handleStream\<close> on an incoming stream from \<open>peer\<close>; \<open>dialled\<close> is the connection to the target,
  \<open>reported\<close> tells whether the peer id could be written to it, \<open>peerMaOk\<close> whether the peer's address
  parses.
\<close>

definition handleStream :: "Listener \<Rightarrow> nat \<Rightarrow> string \<Rightarrow> nat option \<Rightarrow> bool \<Rightarrow> bool \<Rightarrow> P2P \<Rightarrow> P2P" where
  "handleStream l remote peer dialled reported peerMaOk p =
     (let failed = p\<lparr> p2p_io := p2p_io p @ [RemoteReset remote] \<rparr> in
      case dialled of
        None \<Rightarrow> failed
      | Some local' \<Rightarrow>
          if rReportRemote l \<and> \<not> reported then failed
          else if \<not> peerMaOk then failed
          else registerStream \<lparr> st_id = 0, st_Protocol = rProtocol l, st_OriginAddr = maPrefix @ peer, st_TargetAddr = rAddr l,
            st_peer = peer, st_Local = local', st_Remote = remote \<rparr> p)"

text \<open>The stream handler set for \<^verbatim>\<open>/x/\<close> protocols: the registered listener takes the stream.\<close>

definition incomingStream :: "string \<Rightarrow> nat \<Rightarrow> string \<Rightarrow> P2P \<Rightarrow> P2P" where
  "incomingStream proto remote peer p =
     (case map_of (p2p_ListenersP2P p) proto of
        None \<Rightarrow> p
      | Some l \<Rightarrow> p\<lparr> p2p_arrived := p2p_arrived p @ [(l, remote, peer)] \<rparr>)"

text \<open>
  A turn of \<^verbatim>\<open>acceptConns\<close>.  The loop of a listener does not look at the registry and ends only
  with its socket, which \<^verbatim>\<open>Close\<close> closes after it has released the mutex: a connection may still
  arrive at a listener that is no longer registered.
\<close>

definition acceptConns :: "Listener \<Rightarrow> nat \<Rightarrow> string \<Rightarrow> P2P \<Rightarrow> P2P" where
  "acceptConns l conn origin p = p\<lparr> p2p_arrived := p2p_arrived p @ [(l, conn, origin)] \<rparr>"

text \<open>The goroutine started for a connection or stream that has arrived.\<close>

definition setupArrived :: "Listener \<times> nat \<times> string \<Rightarrow> nat option \<Rightarrow> bool \<Rightarrow> bool \<Rightarrow> P2P \<Rightarrow> P2P" where
  "setupArrived a dialled reported peerMaOk p =
     (case a of (l, conn, from) \<Rightarrow>
        let p1 = p\<lparr> p2p_arrived := remove1 a (p2p_arrived p) \<rparr> in
        case l of
          LocalListener _ _ _ _ \<Rightarrow> setupStream l conn from dialled p1
        | RemoteListener _ _ _ \<Rightarrow> handleStream l conn from dialled reported peerMaOk p1)"

section \<open>Commands\<close>

datatype p2p_err = BadMultiaddr | ProtoNamespace | NoPortProtocol | BadPort | PortZero | NoMatchingOptions | AllCombined
  | NoIdSpecified | BadId | RegisterFailed

text \<open>\<open>tcp\<close> and \<open>udp\<close> are the values of the two protocols in the address, empty when it has none.\<close>

definition checkPort :: "string \<Rightarrow> string \<Rightarrow> p2p_err option" where
  "checkPort tcp udp =
     (let sport = (if tcp \<noteq> [] then tcp else udp) in
      if sport = [] then Some NoPortProtocol
      else case parseNat sport of
        None \<Rightarrow> Some BadPort
      | Some port \<Rightarrow> if port = 0 then Some PortZero else None)"

definition protocolAllowed :: "bool \<Rightarrow> string \<Rightarrow> bool" where
  "protocolAllowed allowCustom proto \<longleftrightarrow> allowCustom \<or> HasPrefix proto ''/x/''"

text \<open>\<^verbatim>\<open>ipfs p2p listen\<close> on a target with the ports \<open>tcp\<close> and \<open>udp\<close>.\<close>

definition p2pListen :: "bool \<Rightarrow> bool \<Rightarrow> string \<Rightarrow> (string \<times> string \<times> string) option \<Rightarrow> P2P \<Rightarrow> p2p_err option \<times> P2P" where
  "p2pListen allowCustom reportPeerID proto target p =
     (case target of
        None \<Rightarrow> (Some BadMultiaddr, p)
      | Some (addr, tcp, udp) \<Rightarrow>
          (case checkPort tcp udp of
             Some err \<Rightarrow> (Some err, p)
           | None \<Rightarrow>
               if \<not> protocolAllowed allowCustom proto then (Some ProtoNamespace, p)
               else (case ForwardRemote proto addr reportPeerID p of
                       (None, p1) \<Rightarrow> (Some RegisterFailed, p1) | (Some _, p1) \<Rightarrow> (None, p1))))"

record closeOpts =
  co_all :: bool
  co_protocol :: "string option"
  co_listen :: "string option"
  co_target :: "string option"

definition closeMatch :: "string \<Rightarrow> closeOpts \<Rightarrow> Listener \<Rightarrow> bool" where
  "closeMatch self opts l \<longleftrightarrow>
     co_all opts \<or>
     (case co_protocol opts of None \<Rightarrow> True | Some proto \<Rightarrow> proto = Protocol l) \<and>
     (case co_listen opts of None \<Rightarrow> True | Some listen \<Rightarrow> listen = ListenAddress self l) \<and>
     (case co_target opts of None \<Rightarrow> True | Some target \<Rightarrow> target = TargetAddress l)"

fun listenerClosed :: "Listener \<Rightarrow> ioEvent list" where
  "listenerClosed (LocalListener proto laddr peer sock) = [ListenerClosed sock]"
| "listenerClosed (RemoteListener proto addr report) = []"

text \<open>\<^verbatim>\<open>ipfs p2p close\<close>: the number of listeners closed.\<close>

definition p2pClose :: "string \<Rightarrow> closeOpts \<Rightarrow> P2P \<Rightarrow> (p2p_err + nat) \<times> P2P" where
  "p2pClose self opts p =
     (let given = co_protocol opts \<noteq> None \<or> co_listen opts \<noteq> None \<or> co_target opts \<noteq> None in
      if \<not> (co_all opts \<or> given) then (Inl NoMatchingOptions, p)
      else if co_all opts \<and> given then (Inl AllCombined, p)
      else
        let (lo, todo1) = closeListeners (closeMatch self opts) (p2p_ListenersLocal p);
            (re, todo2) = closeListeners (closeMatch self opts) (p2p_ListenersP2P p)
        in (Inr (length todo1 + length todo2),
            p\<lparr> p2p_ListenersLocal := lo, p2p_ListenersP2P := re,
               p2p_io := p2p_io p @ concat (map listenerClosed todo1) @ concat (map listenerClosed todo2) \<rparr>))"

text \<open>
  The streams \<^verbatim>\<open>ipfs p2p stream close\<close> looks up, all of them in the order \<open>ids\<close> of the map's
  iteration; it then resets each.
\<close>

definition streamsToClose :: "bool \<Rightarrow> string list \<Rightarrow> (64 word) list \<Rightarrow> P2P \<Rightarrow> p2p_err + Stream list" where
  "streamsToClose closeAll args ids p =
     (if closeAll then Inr (List.map_filter (sr_Streams (p2p_Streams p)) ids)
      else case args of
        [] \<Rightarrow> Inl NoIdSpecified
      | a # _ \<Rightarrow>
          (case parseNat a of
             None \<Rightarrow> Inl BadId
           | Some n \<Rightarrow>
               if n \<ge> 2 ^ 64 then Inl BadId
               else (case sr_Streams (p2p_Streams p) (of_nat n) of None \<Rightarrow> Inr [] | Some s \<Rightarrow> Inr [s])))"

section \<open>The HTTP proxy\<close>

text \<open>\<^verbatim>\<open>parseRequest\<close>: target, protocol and path; \<open>decodes\<close> is \<^verbatim>\<open>peer.Decode\<close>.\<close>

definition parseRequest :: "(string \<Rightarrow> bool) \<Rightarrow> string \<Rightarrow> (string \<times> string \<times> string) option" where
  "parseRequest decodes path =
     (let split = splitNc 5 CHR ''/'' path in
      if length split < 5 then None
      else if \<not> decodes (split ! 2) then None
      else if split ! 3 = ''http'' then Some (split ! 2, ''/http'', split ! 4)
      else let split' = splitNc 7 CHR ''/'' path in
        if length split' < 7 \<or> split' ! 3 \<noteq> ''x'' \<or> split' ! 5 \<noteq> ''http'' then None
        else Some (split' ! 2, ''/x/'' @ split' ! 4 @ ''/http'', split' ! 6))"

section \<open>Runs\<close>

datatype p2pEvent =
    EvForwardLocal string string "(string \<times> nat) option"
  | EvForwardRemote string string bool
  | EvAccept Listener nat string
  | EvIncoming string nat string
  | EvSetup "Listener \<times> nat \<times> string" "nat option" bool bool
  | EvCopyDone Stream bool bool
  | EvEnding Stream bool closePhase
  | EvLookup bool "string list" "(64 word) list"
  | EvReset Stream
  | EvClose string closeOpts

fun p2pStep :: "P2P \<Rightarrow> p2pEvent \<Rightarrow> P2P" where
  "p2pStep p (EvForwardLocal peer proto listen) = snd (ForwardLocal peer proto listen p)"
| "p2pStep p (EvForwardRemote proto addr report) = snd (ForwardRemote proto addr report p)"
| "p2pStep p (EvAccept l conn origin) =
     (case l of LocalListener _ _ _ _ \<Rightarrow> acceptConns l conn origin p | RemoteListener _ _ _ \<Rightarrow> p)"
| "p2pStep p (EvIncoming proto remote peer) = incomingStream proto remote peer p"
| "p2pStep p (EvSetup a dialled reported peerMaOk) =
     (if a \<in> set (p2p_arrived p) then setupArrived a dialled reported peerMaOk p else p)"
| "p2pStep p (EvEnding s rst ph) =
     (if (s, rst, ph) \<in> set (p2p_ending p) then endingStep s rst ph p else p)"
| "p2pStep p (EvCopyDone s dir err) =
     (if (s, dir) \<in> set (p2p_copying p) then copyDone s dir err p else p)"
| "p2pStep p (EvLookup closeAll args ids) =
     (case streamsToClose closeAll args ids p of
        Inl _ \<Rightarrow> p | Inr ss \<Rightarrow> p\<lparr> p2p_looked := p2p_looked p @ ss \<rparr>)"
| "p2pStep p (EvReset s) =
     (if s \<in> set (p2p_looked p) then resetStream s (p\<lparr> p2p_looked := remove1 s (p2p_looked p) \<rparr>) else p)"
| "p2pStep p (EvClose self opts) = snd (p2pClose self opts p)"

end
