(* ===== verification/P2PProps.thy ===== *)
theory P2PProps
  imports P2P
begin

text \<open>Properties of the tunnels: the registries in every run, and the proxy paths.\<close>

section \<open>The invariant\<close>

definition streamsOf :: "StreamRegistry \<Rightarrow> string \<Rightarrow> (64 word) set" where
  "streamsOf r q = {id. \<exists>s. sr_Streams r id = Some s \<and> st_peer s = q}"

definition countsOk :: "StreamRegistry \<Rightarrow> bool" where
  "countsOk r \<longleftrightarrow> finite (dom (sr_Streams r)) \<and>
     (\<forall>q. sr_conns r q = (if streamsOf r q = {} then None else Some (int (card (streamsOf r q))))) \<and>
     sr_tagged r = dom (sr_conns r)"

definition idsOk :: "nat \<Rightarrow> StreamRegistry \<Rightarrow> bool" where
  "idsOk n r \<longleftrightarrow> sr_nextID r = of_nat n \<and> (\<forall>i s. sr_Streams r i = Some s \<longrightarrow> st_id s = i \<and> unat i < n)"

text \<open>
  A stream that something still refers to is registered, or both its endpoints are closed.  A
  registered stream is copied in both directions or somebody is closing it.
\<close>

definition bothClosed :: "ioEvent list \<Rightarrow> Stream \<Rightarrow> bool" where
  "bothClosed io s \<longleftrightarrow> LocalClosed (st_Local s) \<in> set io \<and>
     (RemoteClosed (st_Remote s) \<in> set io \<or> RemoteReset (st_Remote s) \<in> set io)"

definition heldOk :: "nat \<Rightarrow> StreamRegistry \<Rightarrow> ioEvent list \<Rightarrow> Stream \<Rightarrow> bool" where
  "heldOk n r io s \<longleftrightarrow> unat (st_id s) < n \<and>
     (sr_Streams r (st_id s) = Some s \<or> sr_Streams r (st_id s) = None \<and> bothClosed io s)"

definition holders :: "P2P \<Rightarrow> Stream set" where
  "holders p = fst ` set (p2p_copying p) \<union> set (p2p_looked p) \<union> fst ` set (p2p_ending p)"

definition cared :: "P2P \<Rightarrow> Stream \<Rightarrow> bool" where
  "cared p s \<longleftrightarrow> {(s, True), (s, False)} \<subseteq> set (p2p_copying p) \<or> s \<in> fst ` set (p2p_ending p)"

fun phaseOk :: "ioEvent list \<Rightarrow> Stream \<times> bool \<times> closePhase \<Rightarrow> bool" where
  "phaseOk io (s, rst, LocalNext) = True"
| "phaseOk io (s, rst, RemoteNext) = (LocalClosed (st_Local s) \<in> set io)"
| "phaseOk io (s, rst, DeregNext) = bothClosed io s"

definition listenersOk :: "Listeners \<Rightarrow> bool" where
  "listenersOk ls \<longleftrightarrow> distinct (map fst ls) \<and> (\<forall>(k, l) \<in> set ls. k = listenerKey l)"

definition isLocal :: "Listener \<Rightarrow> bool" where
  "isLocal l = (case l of LocalListener _ _ _ _ \<Rightarrow> True | _ \<Rightarrow> False)"

definition p2pInv :: "nat \<Rightarrow> P2P \<Rightarrow> bool" where
  "p2pInv n p \<longleftrightarrow> idsOk n (p2p_Streams p) \<and> countsOk (p2p_Streams p) \<and>
     (\<forall>s \<in> holders p. heldOk n (p2p_Streams p) (p2p_io p) s) \<and>
     (\<forall>i s. sr_Streams (p2p_Streams p) i = Some s \<longrightarrow> cared p s) \<and>
     (\<forall>t \<in> set (p2p_ending p). phaseOk (p2p_io p) t) \<and>
     listenersOk (p2p_ListenersLocal p) \<and> listenersOk (p2p_ListenersP2P p)"

section \<open>The registry of streams\<close>

lemma streamsOf_register:
  assumes "sr_Streams r i = None" and "st_peer s1 = q"
  shows "streamsOf (r\<lparr> sr_tagged := t, sr_conns := c, sr_Streams := (sr_Streams r)(i \<mapsto> s1), sr_nextID := m \<rparr>) x =
    (if x = q then insert i (streamsOf r x) else streamsOf r x)"
  using assms by (auto simp: streamsOf_def)

lemma finite_streamsOf: "finite (dom (sr_Streams r)) \<Longrightarrow> finite (streamsOf r q)"
  by (rule finite_subset [of _ "dom (sr_Streams r)"]) (auto simp: streamsOf_def)

lemma connCount_ok: "countsOk r \<Longrightarrow> connCount r q = int (card (streamsOf r q))"
  by (simp add: countsOk_def connCount_def)

lemma idsOk_fresh:
  assumes "idsOk n r" and "n < 2 ^ 64"
  shows "sr_Streams r (of_nat n) = None"
proof (rule ccontr)
  assume "sr_Streams r (of_nat n) \<noteq> None"
  then have "unat (of_nat n :: 64 word) < n" using assms(1) by (auto simp: idsOk_def)
  then show False using assms(2) by (simp add: unat_of_nat)
qed

lemma countsOk_register:
  assumes ok: "countsOk r" and fresh: "sr_Streams r i = None" and q: "st_peer s1 = q"
  shows "countsOk (r\<lparr> sr_tagged := insert q (sr_tagged r), sr_conns := (sr_conns r)(q \<mapsto> connCount r q + 1),
            sr_Streams := (sr_Streams r)(i \<mapsto> s1), sr_nextID := m \<rparr>)"
proof -
  have "i \<notin> streamsOf r q" using fresh by (auto simp: streamsOf_def)
  then have "card (insert i (streamsOf r q)) = Suc (card (streamsOf r q))"
    using ok by (simp add: finite_streamsOf countsOk_def)
  then show ?thesis
    using ok connCount_ok [OF ok] by (auto simp: countsOk_def streamsOf_register [OF fresh q])
qed

lemma streamsOf_deregister:
  "streamsOf (r\<lparr> sr_Streams := (sr_Streams r)(i := None) \<rparr>) x = streamsOf r x - {i}"
  by (auto simp: streamsOf_def)

lemma countsOk_Deregister: "countsOk r \<Longrightarrow> countsOk (Deregister i r)"
proof (cases "sr_Streams r i")
  case (Some s)
  assume ok: "countsOk r"
  let ?q = "st_peer s" and ?r = "r\<lparr> sr_Streams := (sr_Streams r)(i := None) \<rparr>"
  have i: "i \<in> streamsOf r ?q" and other: "\<And>x. x \<noteq> ?q \<Longrightarrow> i \<notin> streamsOf r x"
    using Some by (auto simp: streamsOf_def)
  have fin: "finite (streamsOf r x)" for x using ok by (simp add: finite_streamsOf countsOk_def)
  have card: "card (streamsOf r ?q - {i}) = card (streamsOf r ?q) - 1" using i fin by simp
  have pos: "0 < card (streamsOf r ?q)" using i fin card_gt_0_iff by blast
  have sets: "streamsOf r x - {i} = streamsOf r x" if "x \<noteq> ?q" for x using other [OF that] by simp
  have empty: "(streamsOf r ?q - {i} = {}) = (connCount r ?q - 1 < 1)"
  proof -
    have "(streamsOf r ?q - {i} = {}) = (card (streamsOf r ?q - {i}) = 0)" using fin by simp
    then show ?thesis using connCount_ok [OF ok, of ?q] card pos by linarith
  qed
  have str: "streamsOf (Deregister i r) x = streamsOf r x - {i}" for x
    using Some by (auto simp: Deregister_def streamsOf_def Let_def)
  have conns: "sr_conns (Deregister i r) x = (if streamsOf r x - {i} = {} then None else Some (int (card (streamsOf r x - {i}))))" for x
  proof (cases "x = ?q")
    case True
    with Some empty show ?thesis
      using connCount_ok [OF ok] card pos by (simp add: Deregister_def Let_def of_nat_diff)
  next
    case False
    with Some sets [OF False] ok show ?thesis by (simp add: Deregister_def Let_def countsOk_def)
  qed
  have fin': "finite (dom (sr_Streams (Deregister i r)))"
    using Some ok by (auto simp: Deregister_def Let_def countsOk_def)
  have tagged: "sr_tagged (Deregister i r) = dom (sr_conns (Deregister i r))"
    using Some ok i by (auto simp: Deregister_def Let_def countsOk_def)
  show ?thesis
    unfolding countsOk_def using fin' conns str tagged by simp
qed (simp add: Deregister_def)

lemma Deregister_Streams [simp]: "sr_Streams (Deregister i r) = (sr_Streams r)(i := None)"
  by (auto simp: Deregister_def Let_def split: option.splits)

lemma Deregister_nextID [simp]: "sr_nextID (Deregister i r) = sr_nextID r"
  by (simp add: Deregister_def Let_def split: option.splits)


section \<open>Steps\<close>

lemma fst_remove1: "x \<in> fst ` set ts \<Longrightarrow> x \<noteq> fst t \<Longrightarrow> x \<in> fst ` set (remove1 t ts)"
proof -
  assume "x \<in> fst ` set ts" and t: "x \<noteq> fst t"
  then obtain e where "e \<in> set ts" "fst e = x" by blast
  with t have "e \<noteq> t" by auto
  with \<open>e \<in> set ts\<close> have "e \<in> set (remove1 t ts)" by (simp add: in_set_remove1)
  with \<open>fst e = x\<close> show ?thesis by blast
qed

lemma bothClosed_mono: "bothClosed io s \<Longrightarrow> set io \<subseteq> set io' \<Longrightarrow> bothClosed io' s"
  by (auto simp: bothClosed_def)

lemma phaseOk_mono: "phaseOk io t \<Longrightarrow> set io \<subseteq> set io' \<Longrightarrow> phaseOk io' t"
  by (cases "(io, t)" rule: phaseOk.cases) (auto intro: bothClosed_mono)

lemma heldOk_mono: "heldOk n r io s \<Longrightarrow> set io \<subseteq> set io' \<Longrightarrow> heldOk n r io' s"
  by (auto simp: heldOk_def intro: bothClosed_mono)

lemma heldOk_Deregister:
  assumes "heldOk n r io s" and "\<And>t. sr_Streams r i = Some t \<Longrightarrow> bothClosed io t"
  shows "heldOk n (Deregister i r) io s"
  using assms by (cases "st_id s = i") (auto simp: heldOk_def)

lemma heldOk_register:
  assumes "heldOk n r io s" and "idsOk n r" and "n < 2 ^ 64" and "s1 = t\<lparr> st_id := sr_nextID r \<rparr>"
  shows "heldOk (Suc n) (r\<lparr> sr_tagged := ta, sr_conns := c, sr_Streams := (sr_Streams r)(sr_nextID r \<mapsto> s1), sr_nextID := m \<rparr>) io s"
proof -
  have "unat (sr_nextID r) = n" using assms(2,3) by (simp add: idsOk_def unat_of_nat)
  moreover have "unat (st_id s) < n" using assms(1) by (simp add: heldOk_def)
  ultimately have "st_id s \<noteq> sr_nextID r" by (metis less_irrefl)
  with assms(1) show ?thesis by (simp add: heldOk_def)
qed

lemma p2pInvD:
  assumes "p2pInv n p"
  shows "idsOk n (p2p_Streams p)" and "countsOk (p2p_Streams p)"
    and "x \<in> holders p \<Longrightarrow> heldOk n (p2p_Streams p) (p2p_io p) x"
    and "sr_Streams (p2p_Streams p) i = Some y \<Longrightarrow> cared p y"
    and "listenersOk (p2p_ListenersLocal p)" and "listenersOk (p2p_ListenersP2P p)"
    and "t \<in> set (p2p_ending p) \<Longrightarrow> phaseOk (p2p_io p) t"
  using assms unfolding p2pInv_def by simp_all

lemma p2pInv_register:
  assumes inv: "p2pInv n p" and n: "n < 2 ^ 64"
  shows "p2pInv (Suc n) (registerStream s p)"
proof -
  let ?r = "p2p_Streams p" and ?s = "s\<lparr> st_id := sr_nextID (p2p_Streams p) \<rparr>"
  let ?r1 = "?r\<lparr> sr_tagged := insert (st_peer s) (sr_tagged ?r), sr_conns := (sr_conns ?r)(st_peer s \<mapsto> connCount ?r (st_peer s) + 1),
     sr_Streams := (sr_Streams ?r)(sr_nextID ?r \<mapsto> ?s), sr_nextID := sr_nextID ?r + 1 \<rparr>"
  let ?p = "p\<lparr> p2p_Streams := ?r1, p2p_copying := p2p_copying p @ [(?s, True), (?s, False)] \<rparr>"
  note ids = p2pInvD(1) [OF inv] and counts = p2pInvD(2) [OF inv] and held = p2pInvD(3) [OF inv]
    and cop = p2pInvD(4) [OF inv] and ls = p2pInvD(5,6) [OF inv] and phases = p2pInvD(7) [OF inv]
  have fresh: "sr_Streams ?r (sr_nextID ?r) = None" using idsOk_fresh [OF ids n] ids by (simp add: idsOk_def)
  have nx: "sr_nextID ?r = of_nat n" using ids by (simp add: idsOk_def)
  have un: "unat (sr_nextID ?r) = n" using nx n by (simp add: unat_of_nat)
  have ids1: "idsOk (Suc n) ?r1"
    using ids un nx by (auto simp: idsOk_def less_Suc_eq)
  have counts1: "countsOk ?r1" by (rule countsOk_register [OF counts fresh]) simp
  have held1: "heldOk (Suc n) ?r1 (p2p_io p) x" if "x \<in> holders ?p" for x
  proof (cases "x = ?s")
    case True
    then show ?thesis using un by (simp add: heldOk_def)
  next
    case False
    with that have "x \<in> holders p" by (auto simp: holders_def)
    then show ?thesis by (intro heldOk_register [OF held ids n refl])
  qed
  have cared1: "cared ?p x" if "sr_Streams ?r1 i = Some x" for i x
  proof -
    from that have "x = ?s \<or> sr_Streams ?r i = Some x" by (auto split: if_splits)
    then show ?thesis
    proof
      assume "sr_Streams ?r i = Some x"
      from cop [OF this] show ?thesis by (auto simp: cared_def)
    qed (simp add: cared_def)
  qed
  have "registerStream s p = ?p"
    by (simp add: registerStream_def startStreaming_def Let_def)
  then show ?thesis
    using ids1 counts1 held1 cared1 ls phases unfolding p2pInv_def by simp
qed

text \<open>A step that leaves the registry alone.\<close>

lemma p2pInv_tasks:
  assumes inv: "p2pInv n p" and r: "p2p_Streams q = p2p_Streams p"
    and io: "set (p2p_io p) \<subseteq> set (p2p_io q)" and h: "holders q \<subseteq> holders p \<union> {x. \<exists>i. sr_Streams (p2p_Streams p) i = Some x}"
    and c: "\<And>x. cared p x \<Longrightarrow> cared q x"
    and ph: "\<And>t. t \<in> set (p2p_ending q) \<Longrightarrow> t \<in> set (p2p_ending p) \<or> phaseOk (p2p_io q) t"
    and l: "listenersOk (p2p_ListenersLocal q)" "listenersOk (p2p_ListenersP2P q)"
  shows "p2pInv n q"
proof -
  have "heldOk n (p2p_Streams p) (p2p_io q) x" if x: "x \<in> holders q" for x
  proof (cases "x \<in> holders p")
    case True
    from heldOk_mono [OF p2pInvD(3) [OF inv this] io] show ?thesis .
  next
    case False
    with x h obtain i where "sr_Streams (p2p_Streams p) i = Some x" by auto
    then show ?thesis using p2pInvD(1) [OF inv] by (auto simp: idsOk_def heldOk_def)
  qed
  moreover have "phaseOk (p2p_io q) t" if "t \<in> set (p2p_ending q)" for t
    using ph [OF that] phaseOk_mono [OF p2pInvD(7) [OF inv] io] by blast
  ultimately show ?thesis
    using p2pInvD(1,2) [OF inv] p2pInvD(4) [OF inv] c l unfolding p2pInv_def r by simp
qed

lemma p2pInv_deregister:
  assumes inv: "p2pInv n p" and s: "(s, rst, DeregNext) \<in> set (p2p_ending p)"
  shows "p2pInv n (endingStep s rst DeregNext p)"
proof -
  let ?q = "endingStep s rst DeregNext p"
  have h: "heldOk n (p2p_Streams p) (p2p_io p) s"
    by (rule p2pInvD(3) [OF inv]) (use s in \<open>force simp: holders_def\<close>)
  have cl: "bothClosed (p2p_io p) s" using p2pInvD(7) [OF inv s] by simp
  have closed: "bothClosed (p2p_io p) t" if "sr_Streams (p2p_Streams p) (st_id s) = Some t" for t
    using that h cl by (auto simp: heldOk_def)
  have sub: "set (remove1 (s, rst, DeregNext) (p2p_ending p)) \<subseteq> set (p2p_ending p)"
    by (rule set_remove1_subset)
  have "heldOk n (p2p_Streams ?q) (p2p_io ?q) x" if "x \<in> holders ?q" for x
  proof -
    have "x \<in> holders p" using that sub by (auto simp: holders_def)
    from heldOk_Deregister [OF p2pInvD(3) [OF inv this] closed] show ?thesis by simp
  qed
  moreover have "cared ?q x" if "((sr_Streams (p2p_Streams p))(st_id s := None)) i = Some x" for i x
  proof -
    from that have ix: "i \<noteq> st_id s" "sr_Streams (p2p_Streams p) i = Some x" by (auto split: if_splits)
    then have "st_id x = i" using p2pInvD(1) [OF inv] by (simp add: idsOk_def)
    with ix have "x \<noteq> s" by auto
    then have "(x, y) \<in> set (p2p_ending p) \<Longrightarrow> (x, y) \<in> set (p2p_ending ?q)" for y
      by (simp add: in_set_remove1)
    with p2pInvD(4) [OF inv ix(2)] show ?thesis by (force simp: cared_def)
  qed
  moreover have "idsOk n (p2p_Streams ?q)"
    using p2pInvD(1) [OF inv] by (simp add: idsOk_def)
  moreover have "phaseOk (p2p_io ?q) t" if "t \<in> set (p2p_ending ?q)" for t
  proof -
    from that have "t \<in> set (remove1 (s, rst, DeregNext) (p2p_ending p))" by simp
    from p2pInvD(7) [OF inv subsetD [OF sub this]] show ?thesis by simp
  qed
  moreover note countsOk_Deregister [OF p2pInvD(2) [OF inv], of "st_id s"] p2pInvD(5,6) [OF inv]
  ultimately show ?thesis unfolding p2pInv_def by simp
qed

lemma p2pInv_ending:
  assumes inv: "p2pInv n p" and s: "(s, rst, ph) \<in> set (p2p_ending p)"
  shows "p2pInv n (endingStep s rst ph p)"
proof (cases ph)
  case DeregNext
  then show ?thesis using p2pInv_deregister [OF inv] s by simp
next
  case LocalNext
  have "(s, rst, LocalNext) \<in> set (p2p_ending p)" using s LocalNext by simp
  then have sh: "s \<in> fst ` set (p2p_ending p)" by force
  have kept: "x \<in> fst ` set (remove1 (s, rst, LocalNext) (p2p_ending p)) \<or> x = s"
    if "x \<in> fst ` set (p2p_ending p)" for x
    using fst_remove1 [OF that, of "(s, rst, LocalNext)"] by auto
  have sub: "set (remove1 (s, rst, LocalNext) (p2p_ending p)) \<subseteq> set (p2p_ending p)"
    by (rule set_remove1_subset)
  show ?thesis
    unfolding LocalNext endingStep.simps
    by (rule p2pInv_tasks [OF inv]) (use sh kept sub p2pInvD(5,6) [OF inv] in \<open>auto simp: holders_def cared_def\<close>)
next
  case RemoteNext
  have sr: "(s, rst, RemoteNext) \<in> set (p2p_ending p)" using s RemoteNext by simp
  then have sh: "s \<in> fst ` set (p2p_ending p)" by force
  have lc: "LocalClosed (st_Local s) \<in> set (p2p_io p)" using p2pInvD(7) [OF inv sr] by simp
  have kept: "x \<in> fst ` set (remove1 (s, rst, RemoteNext) (p2p_ending p)) \<or> x = s"
    if "x \<in> fst ` set (p2p_ending p)" for x
    using fst_remove1 [OF that, of "(s, rst, RemoteNext)"] by auto
  have sub: "set (remove1 (s, rst, RemoteNext) (p2p_ending p)) \<subseteq> set (p2p_ending p)"
    by (rule set_remove1_subset)
  show ?thesis
    unfolding RemoteNext endingStep.simps
    by (rule p2pInv_tasks [OF inv])
      (use sh kept sub lc p2pInvD(5,6) [OF inv] in \<open>auto simp: holders_def cared_def bothClosed_def\<close>)
qed


section \<open>Listeners\<close>

lemma closeLoop_spec:
  "listenersOk r \<Longrightarrow> distinct (map listenerKey ls) \<Longrightarrow> \<forall>l \<in> set ls. (listenerKey l, l) \<in> set r \<Longrightarrow>
   closeLoop m ls r todo = (filter (\<lambda>e. \<not> (snd e \<in> set ls \<and> m (snd e))) r, todo @ filter m ls)"
proof (induction m ls r todo rule: closeLoop.induct)
  case (2 m l ls r todo)
  have keys: "\<And>k x. (k, x) \<in> set r \<Longrightarrow> k = listenerKey x" and dist: "distinct (map fst r)"
    using 2(4) by (auto simp: listenersOk_def)
  show ?case
  proof (cases "m l")
    case False
    with 2 show ?thesis by (auto intro!: filter_cong)
  next
    case True
    let ?r = "filter (\<lambda>e. fst e \<noteq> listenerKey l) r"
    have hit: "map_of r (listenerKey l) = Some l" using 2(6) dist by simp
    have ok: "listenersOk ?r" using keys dist by (auto simp: listenersOk_def distinct_map_filter)
    have "listenerKey l' \<noteq> listenerKey l" if "l' \<in> set ls" for l' using 2(5) that by (auto simp: image_iff)
    then have "\<forall>l' \<in> set ls. (listenerKey l', l') \<in> set ?r" using 2(6) by auto
    from 2(2) 2(3) True hit ok 2(5) this
    have IH: "closeLoop m ls ?r (todo @ [l]) = (filter (\<lambda>e. \<not> (snd e \<in> set ls \<and> m (snd e))) ?r, (todo @ [l]) @ filter m ls)"
      by simp
    have "filter (\<lambda>e. \<not> (snd e \<in> set ls \<and> m (snd e))) ?r = filter (\<lambda>e. \<not> (snd e \<in> set (l # ls) \<and> m (snd e))) r"
    proof -
      have "(fst e \<noteq> listenerKey l) = (snd e \<noteq> l)" if "e \<in> set r" for e
        using that keys [of "fst e" "snd e"] dist 2(6) by (metis hit list.set_intros(1) map_of_is_SomeI option.inject prod.collapse)
      then show ?thesis using True by (auto simp: intro!: filter_cong)
    qed
    with True hit IH show ?thesis by simp
  qed
qed simp

lemma closeListeners_spec:
  assumes "listenersOk r"
  shows "closeListeners m r = (filter (\<lambda>e. \<not> m (snd e)) r, filter m (map snd r))"
proof -
  have keys: "\<And>k x. (k, x) \<in> set r \<Longrightarrow> k = listenerKey x" and dist: "distinct (map fst r)"
    using assms by (auto simp: listenersOk_def)
  have "map listenerKey (map snd r) = map fst r" using keys by (force simp: )
  then have "distinct (map listenerKey (map snd r))" using dist by metis
  moreover have "\<forall>l \<in> set (map snd r). (listenerKey l, l) \<in> set r" using keys by force
  moreover have "filter (\<lambda>e. \<not> (snd e \<in> set (map snd r) \<and> m (snd e))) r = filter (\<lambda>e. \<not> m (snd e)) r"
    by (rule filter_cong) auto
  ultimately show ?thesis using closeLoop_spec [OF assms] by (simp add: closeListeners_def)
qed

lemma listenersOk_filter: "listenersOk r \<Longrightarrow> listenersOk (filter P r)"
  by (auto simp: listenersOk_def distinct_map_filter)

lemma listenersOk_register: "listenersOk r \<Longrightarrow> registerListener l r = Some r' \<Longrightarrow> listenersOk r'"
  by (auto simp: listenersOk_def registerListener_def map_of_eq_None_iff split: option.splits)


section \<open>Runs\<close>

text \<open>How many streams an event registers: at most one.\<close>

definition stepInv :: "nat \<Rightarrow> P2P \<Rightarrow> bool" where
  "stepInv n p \<longleftrightarrow> (\<exists>k \<le> n. p2pInv k p)"

lemma stepInvI: "p2pInv k p \<Longrightarrow> k \<le> n \<Longrightarrow> stepInv n p"
  by (auto simp: stepInv_def)

lemma p2pInv_io: "p2pInv n p \<Longrightarrow> set (p2p_io p) \<subseteq> set io' \<Longrightarrow> p2pInv n (p\<lparr> p2p_io := io' \<rparr>)"
  by (rule p2pInv_tasks [of n p]) (auto simp: holders_def cared_def dest: p2pInvD(5,6))

lemma p2pInv_frame:
  "p2pInv n p \<Longrightarrow> listenersOk a \<Longrightarrow> listenersOk b \<Longrightarrow> p2pInv n (p\<lparr> p2p_ListenersLocal := a, p2p_ListenersP2P := b \<rparr>)"
  "p2pInv n p \<Longrightarrow> listenersOk a \<Longrightarrow> p2pInv n (p\<lparr> p2p_ListenersLocal := a \<rparr>)"
  "p2pInv n p \<Longrightarrow> listenersOk b \<Longrightarrow> p2pInv n (p\<lparr> p2p_ListenersP2P := b \<rparr>)"
  "p2pInv n p \<Longrightarrow> p2pInv n (p\<lparr> p2p_arrived := arr \<rparr>)"
  by (simp_all add: p2pInv_def holders_def cared_def)

lemma p2pInv_copyDone:
  assumes inv: "p2pInv n p" and s: "(s, dir) \<in> set (p2p_copying p)"
  shows "p2pInv n (copyDone s dir err p)"
proof -
  let ?c = "remove1 (s, dir) (p2p_copying p)"
  have kept: "(x, d) \<in> set ?c" if "(x, d) \<in> set (p2p_copying p)" "x \<noteq> s" for x d
    using that by (simp add: in_set_remove1)
  have sub: "fst ` set ?c \<subseteq> fst ` set (p2p_copying p)"
    by (intro image_mono set_remove1_subset)
  have sh: "s \<in> fst ` set (p2p_copying p)" using s by force
  have "p2pInv n (p\<lparr> p2p_copying := ?c, p2p_ending := p2p_ending p @ [(s, rst, LocalNext)] \<rparr>)" (is "p2pInv n ?q") for rst
  proof (rule p2pInv_tasks [OF inv])
    show "cared ?q x" if "cared p x" for x
      using that kept by (cases "x = s") (auto simp: cared_def)
    show "holders ?q \<subseteq> holders p \<union> {x. \<exists>i. sr_Streams (p2p_Streams p) i = Some x}"
      using sh sub by (auto simp: holders_def)
    show "t \<in> set (p2p_ending p) \<or> phaseOk (p2p_io ?q) t" if "t \<in> set (p2p_ending ?q)" for t
      using that by auto
  qed (use p2pInvD(5,6) [OF inv] in simp_all)
  then show ?thesis by (simp add: copyDone_def Let_def closeStream_def resetStream_def)
qed

lemma p2pInv_reset:
  assumes inv: "p2pInv n p" and s: "s \<in> set (p2p_looked p)"
  shows "p2pInv n (resetStream s (p\<lparr> p2p_looked := remove1 s (p2p_looked p) \<rparr>))"
proof -
  have sub: "set (remove1 s (p2p_looked p)) \<subseteq> set (p2p_looked p)" by (rule set_remove1_subset)
  show ?thesis
    unfolding resetStream_def
    by (rule p2pInv_tasks [OF inv]) (use s sub p2pInvD(5,6) [OF inv] in \<open>auto simp: holders_def cared_def\<close>)
qed

lemma p2pInv_lookup:
  assumes inv: "p2pInv n p" and ss: "streamsToClose a args ids p = Inr ss"
  shows "p2pInv n (p\<lparr> p2p_looked := p2p_looked p @ ss \<rparr>)"
proof -
  have "\<exists>i. sr_Streams (p2p_Streams p) i = Some x" if "x \<in> set ss" for x
    using ss that by (fastforce simp: streamsToClose_def List.map_filter_def split: if_splits list.splits option.splits)
  then show ?thesis
    using p2pInvD(5,6) [OF inv] by (intro p2pInv_tasks [OF inv]) (auto simp: holders_def cared_def)
qed

lemma stepInv_step:
  assumes "stepInv n p" and "n < 2 ^ 64"
  shows "stepInv (Suc n) (p2pStep p ev)"
proof -
  obtain k where inv: "p2pInv k p" and k: "k \<le> n" using assms(1) by (auto simp: stepInv_def)
  have keep: "stepInv (Suc n) q" if "p2pInv k q" for q using stepInvI [OF that] k by simp
  have reg: "stepInv (Suc n) (registerStream s q)" if "p2pInv k q" for s q
    using stepInvI [OF p2pInv_register [OF that]] k assms(2) by simp
  have io: "stepInv (Suc n) (q\<lparr> p2p_io := p2p_io q @ x \<rparr>)" if "p2pInv k q" for x q
    by (rule keep, rule p2pInv_io [OF that]) simp
  note lok = p2pInvD(5,6) [OF inv]
  show ?thesis
  proof (cases ev)
    case (EvForwardLocal peer proto listen)
    then show ?thesis
      using keep inv p2pInv_frame(2) [OF inv listenersOk_register [OF lok(1)]]
      by (auto simp: ForwardLocal_def Let_def split: option.split)
  next
    case (EvForwardRemote proto addr report)
    then show ?thesis
      using keep inv p2pInv_frame(3) [OF inv listenersOk_register [OF lok(2)]]
      by (auto simp: ForwardRemote_def Let_def split: option.split)
  next
    case (EvAccept l conn origin)
    then show ?thesis
      using keep inv p2pInv_frame(4) [OF inv] by (auto simp: acceptConns_def split: Listener.split)
  next
    case (EvIncoming proto remote peer)
    then show ?thesis
      using keep inv p2pInv_frame(4) [OF inv] by (auto simp: incomingStream_def split: option.split)
  next
    case (EvSetup a dialled reported ok)
    note arr = p2pInv_frame(4) [OF inv, of "remove1 a (p2p_arrived p)"]
    have "stepInv (Suc n) (setupArrived a dialled reported ok p)"
      using reg [OF arr] io [OF arr]
      by (cases a; cases "fst a"; cases dialled; cases "rReportRemote (fst a)"; cases reported; cases ok)
        (simp_all add: setupArrived_def setupStream_def handleStream_def Let_def)
    then show ?thesis using EvSetup keep inv by simp
  next
    case (EvEnding s rst ph)
    then show ?thesis using keep inv p2pInv_ending [OF inv] by simp
  next
    case (EvCopyDone s dir err)
    then show ?thesis using keep inv p2pInv_copyDone [OF inv] by simp
  next
    case (EvLookup a args ids)
    then show ?thesis using keep inv p2pInv_lookup [OF inv] by (auto split: sum.split)
  next
    case (EvReset s)
    then show ?thesis using keep inv p2pInv_reset [OF inv] by simp
  next
    case (EvClose self opts)
    have "p2pInv k (p\<lparr> p2p_ListenersLocal := filter P (p2p_ListenersLocal p), p2p_ListenersP2P := filter P (p2p_ListenersP2P p),
        p2p_io := p2p_io p @ io \<rparr>)" for P io
      using p2pInv_io [OF p2pInv_frame(1) [OF inv listenersOk_filter [OF lok(1)] listenersOk_filter [OF lok(2)], of P P], of "p2p_io p @ io"] by simp
    then show ?thesis
      using EvClose keep inv by (simp add: p2pClose_def Let_def closeListeners_spec [OF lok(1)] closeListeners_spec [OF lok(2)])
  qed
qed

lemma p2p_run:
  "length es < 2 ^ 64 \<Longrightarrow> stepInv (length es) (foldl p2pStep newP2P es)"
proof (induction es rule: rev_induct)
  case Nil
  have "p2pInv 0 newP2P"
    by (simp add: p2pInv_def newP2P_def idsOk_def countsOk_def streamsOf_def listenersOk_def holders_def)
  then show ?case by (auto simp: stepInv_def)
next
  case (snoc e es)
  then show ?case using stepInv_step [of "length es" "foldl p2pStep newP2P es" e] by simp
qed

section \<open>Properties\<close>

text \<open>
  C18. The registry of streams in every run of fewer than two to the 64 events: a peer's
  connection count is the number of its registered streams, a peer is tagged in the connection
  manager exactly while it has one, and every registered stream is known under its own id and is
  copied in both directions or being closed.  A stream that is still copied, being closed or about
  to be reset by a command is registered, or both its endpoints were closed (the remote one closed
  or reset), and a stream is deregistered only when they were.  So once all copiers have ended
  and all that began to close a stream have finished, no stream, no count and no tag is left.
\<close>

theorem p2p_streams_are_counted:
  assumes "length es < 2 ^ 64" and "p = foldl p2pStep newP2P es"
  shows "(\<forall>q. connCount (p2p_Streams p) q = int (card {i. \<exists>s. sr_Streams (p2p_Streams p) i = Some s \<and> st_peer s = q})) \<and>
    (\<forall>q. q \<in> sr_tagged (p2p_Streams p) \<longleftrightarrow> (\<exists>i s. sr_Streams (p2p_Streams p) i = Some s \<and> st_peer s = q)) \<and>
    (\<forall>i s. sr_Streams (p2p_Streams p) i = Some s \<longrightarrow> st_id s = i \<and>
      ({(s, True), (s, False)} \<subseteq> set (p2p_copying p) \<or> (\<exists>rst ph. (s, rst, ph) \<in> set (p2p_ending p)))) \<and>
    (\<forall>s. (\<exists>dir. (s, dir) \<in> set (p2p_copying p)) \<or> s \<in> set (p2p_looked p) \<or> (\<exists>rst ph. (s, rst, ph) \<in> set (p2p_ending p)) \<longrightarrow>
      sr_Streams (p2p_Streams p) (st_id s) = Some s \<or>
      LocalClosed (st_Local s) \<in> set (p2p_io p) \<and>
      (RemoteClosed (st_Remote s) \<in> set (p2p_io p) \<or> RemoteReset (st_Remote s) \<in> set (p2p_io p))) \<and>
    (\<forall>s rst. (s, rst, DeregNext) \<in> set (p2p_ending p) \<longrightarrow>
      LocalClosed (st_Local s) \<in> set (p2p_io p) \<and>
      (RemoteClosed (st_Remote s) \<in> set (p2p_io p) \<or> RemoteReset (st_Remote s) \<in> set (p2p_io p))) \<and>
    (p2p_copying p = [] \<and> p2p_ending p = [] \<longrightarrow>
      sr_Streams (p2p_Streams p) = Map.empty \<and> sr_conns (p2p_Streams p) = Map.empty \<and> sr_tagged (p2p_Streams p) = {})"
proof -
  obtain n where inv: "p2pInv n p" using p2p_run [OF assms(1)] assms(2) by (auto simp: stepInv_def)
  let ?r = "p2p_Streams p"
  have counts: "countsOk ?r" using p2pInvD(2) [OF inv] .
  have cnt: "connCount ?r q = int (card {i. \<exists>s. sr_Streams ?r i = Some s \<and> st_peer s = q})" for q
    using connCount_ok [OF counts, of q] by (simp add: streamsOf_def)
  have tag: "q \<in> sr_tagged ?r \<longleftrightarrow> (\<exists>i s. sr_Streams ?r i = Some s \<and> st_peer s = q)" for q
  proof -
    have "q \<in> sr_tagged ?r \<longleftrightarrow> streamsOf ?r q \<noteq> {}" using counts by (simp add: countsOk_def domIff)
    then show ?thesis by (auto simp: streamsOf_def)
  qed
  have id: "sr_Streams ?r i = Some s \<Longrightarrow> st_id s = i" for i s
    using p2pInvD(1) [OF inv] by (simp add: idsOk_def)
  have care: "sr_Streams ?r i = Some s \<Longrightarrow>
      {(s, True), (s, False)} \<subseteq> set (p2p_copying p) \<or> (\<exists>rst ph. (s, rst, ph) \<in> set (p2p_ending p))" for i s
    using p2pInvD(4) [OF inv, of i s] by (force simp: cared_def)
  have "s \<in> holders p"
    if "(\<exists>dir. (s, dir) \<in> set (p2p_copying p)) \<or> s \<in> set (p2p_looked p) \<or> (\<exists>rst ph. (s, rst, ph) \<in> set (p2p_ending p))" for s
    using that by (force simp: holders_def)
  note held = p2pInvD(3) [OF inv this, unfolded heldOk_def bothClosed_def]
  have dereg: "bothClosed (p2p_io p) s" if "(s, rst, DeregNext) \<in> set (p2p_ending p)" for s rst
    using p2pInvD(7) [OF inv that] by simp
  have last: "p2p_copying p = [] \<and> p2p_ending p = [] \<Longrightarrow>
      sr_Streams ?r = Map.empty \<and> sr_conns ?r = Map.empty \<and> sr_tagged ?r = {}"
  proof -
    assume none: "p2p_copying p = [] \<and> p2p_ending p = []"
    have "sr_Streams ?r i = None" for i using care [of i] none by (cases "sr_Streams ?r i") auto
    then have e: "sr_Streams ?r = Map.empty" by (simp add: fun_eq_iff)
    with counts show ?thesis by (auto simp: countsOk_def streamsOf_def)
  qed
  show ?thesis
    apply (intro conjI)
    subgoal using cnt by blast
    subgoal using tag by blast
    subgoal using id care by blast
    subgoal using held by blast
    subgoal using dereg unfolding bothClosed_def by blast
    subgoal using last by blast
    done
qed

definition tunnelRun :: "p2pEvent list" where
  "tunnelRun = [EvForwardLocal ''Q'' ''/x/a'' (Some (''/ip4/127.0.0.1/tcp/1'', 0)),
     EvAccept (LocalListener ''/x/a'' ''/ip4/127.0.0.1/tcp/1'' ''Q'' 0) 1 ''/ip4/127.0.0.1/tcp/9'',
     EvSetup (LocalListener ''/x/a'' ''/ip4/127.0.0.1/tcp/1'' ''Q'' 0, 1, ''/ip4/127.0.0.1/tcp/9'') (Some 2) True True]"

definition tunnelStream :: Stream where
  "tunnelStream = \<lparr> st_id = 0, st_Protocol = ''/x/a'', st_OriginAddr = ''/ip4/127.0.0.1/tcp/9'',
      st_TargetAddr = ''/p2p/Q'', st_peer = ''Q'', st_Local = 1, st_Remote = 2 \<rparr>"

definition tunnelEnd :: "p2pEvent list" where
  "tunnelEnd = [EvCopyDone tunnelStream True False, EvEnding tunnelStream False LocalNext,
     EvCopyDone tunnelStream False True, EvEnding tunnelStream False RemoteNext, EvEnding tunnelStream False DeregNext,
     EvEnding tunnelStream True LocalNext, EvEnding tunnelStream True RemoteNext, EvEnding tunnelStream True DeregNext]"

lemmas p2p_run_defs = newP2P_def ForwardLocal_def registerListener_def acceptConns_def setupArrived_def setupStream_def
  registerStream_def startStreaming_def maPrefix_def copyDone_def closeStream_def resetStream_def

theorem p2p_streams_are_counted_witness:
  "connCount (p2p_Streams (foldl p2pStep newP2P tunnelRun)) ''Q'' = 1 \<and>
   sr_tagged (p2p_Streams (foldl p2pStep newP2P (tunnelRun @ tunnelEnd))) = {}"
proof -
  let ?p = "foldl p2pStep newP2P tunnelRun" and ?q = "foldl p2pStep newP2P (tunnelRun @ tunnelEnd)"
  have "sr_Streams (p2p_Streams ?p) = [0 \<mapsto> tunnelStream]"
    by (simp add: tunnelRun_def tunnelStream_def p2p_run_defs Let_def)
  then have one: "{i. \<exists>s. sr_Streams (p2p_Streams ?p) i = Some s \<and> st_peer s = ''Q''} = {0}"
    by (auto simp: tunnelStream_def split: if_splits)
  have none: "p2p_copying ?q = []" "p2p_ending ?q = []"
    by (simp_all add: tunnelRun_def tunnelEnd_def tunnelStream_def p2p_run_defs Let_def)
  have "connCount (p2p_Streams ?p) ''Q'' = 1"
    using p2p_streams_are_counted [of tunnelRun ?p] one by (simp add: tunnelRun_def [THEN arg_cong [of _ _ length]])
  moreover have "length (tunnelRun @ tunnelEnd) < 2 ^ 64" by (simp add: tunnelRun_def tunnelEnd_def)
  from p2p_streams_are_counted [OF this refl] none have "sr_tagged (p2p_Streams ?q) = {}" by blast
  ultimately show ?thesis by blast
qed

text \<open>
  \<^verbatim>\<open>ipfs p2p close\<close> closes exactly the listeners that match and reports their number: in every
  run the tables keep the others, in their order, and the socket of every local listener that
  matched is closed.
\<close>

theorem p2p_close_is_exact:
  assumes "length es < 2 ^ 64" and "p = foldl p2pStep newP2P es" and "p2pClose self opts p = (Inr k, p')"
  shows "p2p_ListenersLocal p' = filter (\<lambda>e. \<not> closeMatch self opts (snd e)) (p2p_ListenersLocal p) \<and>
    p2p_ListenersP2P p' = filter (\<lambda>e. \<not> closeMatch self opts (snd e)) (p2p_ListenersP2P p) \<and>
    k = length (p2p_ListenersLocal p) + length (p2p_ListenersP2P p) - length (p2p_ListenersLocal p') - length (p2p_ListenersP2P p') \<and>
    (\<forall>l \<in> snd ` set (p2p_ListenersLocal p). closeMatch self opts l \<longrightarrow> set (listenerClosed l) \<subseteq> set (p2p_io p')) \<and>
    p2p_Streams p' = p2p_Streams p"
proof -
  obtain n where inv: "p2pInv n p" using p2p_run [OF assms(1)] assms(2) by (auto simp: stepInv_def)
  note lok = p2pInvD(5,6) [OF inv]
  let ?m = "closeMatch self opts"
  have sum: "length (filter ?m (map snd r)) + length (filter (\<lambda>e. \<not> ?m (snd e)) r) = length r" for r :: Listeners
    by (induction r) auto
  from assms(3) have p': "p' = p\<lparr> p2p_ListenersLocal := filter (\<lambda>e. \<not> ?m (snd e)) (p2p_ListenersLocal p),
      p2p_ListenersP2P := filter (\<lambda>e. \<not> ?m (snd e)) (p2p_ListenersP2P p),
      p2p_io := p2p_io p @ concat (map listenerClosed (filter ?m (map snd (p2p_ListenersLocal p)))) @
        concat (map listenerClosed (filter ?m (map snd (p2p_ListenersP2P p)))) \<rparr>"
    and k: "k = length (filter ?m (map snd (p2p_ListenersLocal p))) + length (filter ?m (map snd (p2p_ListenersP2P p)))"
    by (auto simp: p2pClose_def Let_def closeListeners_spec [OF lok(1)] closeListeners_spec [OF lok(2)] split: if_splits)
  have "k = length (p2p_ListenersLocal p) + length (p2p_ListenersP2P p) - length (p2p_ListenersLocal p') - length (p2p_ListenersP2P p')"
    using sum [of "p2p_ListenersLocal p"] sum [of "p2p_ListenersP2P p"] k unfolding p' by simp
  then show ?thesis unfolding p' by auto
qed

theorem p2p_close_is_exact_witness:
  "fst (p2pClose ''self'' \<lparr> co_all = True, co_protocol = None, co_listen = None, co_target = None \<rparr>
     (foldl p2pStep newP2P [EvForwardRemote ''/x/a'' ''/ip4/127.0.0.1/tcp/1'' False])) = Inr 1"
proof -
  let ?es = "[EvForwardRemote ''/x/a'' ''/ip4/127.0.0.1/tcp/1'' False]"
  let ?o = "\<lparr> co_all = True, co_protocol = None, co_listen = None, co_target = None \<rparr>"
  let ?p = "foldl p2pStep newP2P ?es"
  have p: "p2p_ListenersP2P ?p = [(''/x/a'', RemoteListener ''/x/a'' ''/ip4/127.0.0.1/tcp/1'' False)]" "p2p_ListenersLocal ?p = []"
    by (simp_all add: newP2P_def ForwardRemote_def registerListener_def Let_def)
  obtain k p' where c: "p2pClose ''self'' ?o ?p = (Inr k, p')"
    by (cases "p2pClose ''self'' ?o ?p"; cases "fst (p2pClose ''self'' ?o ?p)") (auto simp: p2pClose_def split_beta Let_def)
  from p2p_close_is_exact [OF _ refl c] p have "k = 1" by (simp add: closeMatch_def)
  then show ?thesis using c by simp
qed

text \<open>
  The paths of the HTTP proxy: a peer and an application protocol without slashes, with any
  path behind them, are read back as they were written, in both forms.
\<close>

theorem proxy_path_round_trip:
  assumes "decodes peer" and "CHR ''/'' \<notin> set peer" and "CHR ''/'' \<notin> set proto"
  shows "parseRequest decodes (''/p2p/'' @ peer @ ''/x/'' @ proto @ ''/http/'' @ path) = Some (peer, ''/x/'' @ proto @ ''/http'', path) \<and>
    parseRequest decodes (''/p2p/'' @ peer @ ''/http/'' @ path) = Some (peer, ''/http'', path)"
proof -
  have sep: "splitNc (Suc (Suc n)) CHR ''/'' (p @ CHR ''/'' # s) = p # splitNc (Suc n) CHR ''/'' s" if "CHR ''/'' \<notin> set p" for n p s
    by (rule splitNc_sep [OF that])
  have 0: "splitNc (Suc (Suc n)) CHR ''/'' (CHR ''/'' # s) = [] # splitNc (Suc n) CHR ''/'' s" for n s
    using sep [of "[]"] by simp
  have 1: "splitNc (Suc (Suc n)) CHR ''/'' (''p2p/'' @ s) = ''p2p'' # splitNc (Suc n) CHR ''/'' s" for n s
    using sep [of "''p2p''"] by simp
  have 2: "splitNc (Suc (Suc n)) CHR ''/'' (''x/'' @ s) = ''x'' # splitNc (Suc n) CHR ''/'' s" for n s
    using sep [of "''x''"] by simp
  have 3: "splitNc (Suc (Suc n)) CHR ''/'' (''http/'' @ s) = ''http'' # splitNc (Suc n) CHR ''/'' s" for n s
    using sep [of "''http''"] by simp
  have x5: "splitNc 5 CHR ''/'' (''/p2p/'' @ peer @ ''/x/'' @ proto @ ''/http/'' @ path) =
      [[], ''p2p'', peer, ''x'', proto @ ''/http/'' @ path]"
    using 0 [of 3] 1 [of 2] sep [OF assms(2), of 1] 2 [of 0] by (simp add: eval_nat_numeral del: splitNc.simps(3))
  have x7: "splitNc 7 CHR ''/'' (''/p2p/'' @ peer @ ''/x/'' @ proto @ ''/http/'' @ path) =
      [[], ''p2p'', peer, ''x'', proto, ''http'', path]"
    using 0 [of 5] 1 [of 4] sep [OF assms(2), of 3] 2 [of 2] sep [OF assms(3), of 1] 3 [of 0] by (simp add: eval_nat_numeral del: splitNc.simps(3))
  have h5: "splitNc 5 CHR ''/'' (''/p2p/'' @ peer @ ''/http/'' @ path) = [[], ''p2p'', peer, ''http'', path]"
    using 0 [of 3] 1 [of 2] sep [OF assms(2), of 1] 3 [of 0] by (simp add: eval_nat_numeral del: splitNc.simps(3))
  show ?thesis
    unfolding parseRequest_def x5 x7 h5 Let_def using assms(1) by simp
qed

theorem proxy_path_round_trip_witness:
  "parseRequest (\<lambda>p. p = ''Q'') ''/p2p/Q/x/a/http/i'' = Some (''Q'', ''/x/a/http'', ''i'')"
  using proxy_path_round_trip [of "\<lambda>p. p = ''Q''" "''Q''" "''a''" "''i''"] by simp

end
