(* ===== verification/MigrationFetch.thy ===== *)
theory MigrationFetch
  imports GoPath
begin

text \<open>
  Fetching migration binaries: \<^verbatim>\<open>repo/fsrepo/migrations/{fetcher,httpfetcher,retryfetcher,versions,
  fetch,unpack}.go\<close>.

  \<^item> A fetcher is a value of \<open>Fetcher\<close>; \<open>Fetch\<close> threads the list of the requests made so far, and the
    network (\<open>netEnv\<close>) answers by the number of the request: every network, also one that answers the
    same request differently the second time, is an instance.  \<open>ne_done\<close> tells when the context is done.
  \<^item> An answer's body is the bytes that arrive and whether reading fails after them.
  \<^item> \<^verbatim>\<open>semver\<close> is third-party: a record of its three functions.  The decoders of \<^verbatim>\<open>archive/tar\<close> and
    \<^verbatim>\<open>archive/zip\<close> give the entries of an archive.  \<^verbatim>\<open>sort.Sort\<close> is not stable; the model's insertion
    sort is one of the orders it may leave.
  \<^item> The file system of \<^verbatim>\<open>FetchBinary\<close> has files and directories; \<open>binEnv\<close> says which calls fail.
\<close>

section \<open>Fetchers\<close>

record httpFetcher =
  hf_distPath :: string
  hf_gateway :: string
  hf_limit :: int
  hf_userAgent :: string

datatype Fetcher =
    HttpFetcher httpFetcher
  | IpfsFetcher nat
  | RetryFetcher Fetcher nat
  | MultiFetcher "Fetcher list"

datatype fetch_err =
    BadRequest string | RequestFailed string | StatusError string nat | BodyError string | IpfsError string
  | CtxErr | RetriesExceeded "fetch_err option" | MultiError "fetch_err list"

datatype fetchReq = HttpGet string string | IpfsGet nat string

datatype httpAnswer = NoAnswer | Answer (status: nat) (body: string) (bodyFails: bool)

record netEnv =
  ne_badURL :: "string \<Rightarrow> bool"
  ne_http :: "nat \<Rightarrow> string \<Rightarrow> httpAnswer"
  ne_ipfs :: "nat \<Rightarrow> nat \<Rightarrow> string \<Rightarrow> fetch_err + string"
  ne_done :: "nat \<Rightarrow> bool"

type_synonym 'a fetching = "fetchReq list \<Rightarrow> (fetch_err + 'a) \<times> fetchReq list"

definition CurrentIpfsDist :: string where
  "CurrentIpfsDist = ''/ipfs/Qmf4yftD4LuMo8JMNPqqw3BtUwYd2VkXMiAThuPE6usrbQ''"
definition LatestIpfsDist :: string where "LatestIpfsDist = ''/ipns/dist.ipfs.tech''"
definition defaultGatewayURL :: string where "defaultGatewayURL = ''https://ipfs.io''"
definition defaultFetchLimit :: int where "defaultFetchLimit = 1024 * 1024 * 512"

text \<open>\<open>env\<close> is the value of \<^verbatim>\<open>IPFS_DIST_PATH\<close>.\<close>

definition GetDistPathEnv :: "string \<Rightarrow> string \<Rightarrow> string" where
  "GetDistPathEnv env distPath =
     (if env \<noteq> [] then env else if distPath = [] then LatestIpfsDist else distPath)"

definition trimRightSlash :: "string \<Rightarrow> string" where
  "trimRightSlash s = rev (dropWhile (\<lambda>c. c = CHR ''/'') (rev s))"

text \<open>The user agent given is not stored.\<close>

definition NewHttpFetcher :: "string \<Rightarrow> string \<Rightarrow> string \<Rightarrow> int \<Rightarrow> httpFetcher" where
  "NewHttpFetcher distPath gateway userAgent fetchLimit =
     \<lparr> hf_distPath = (if distPath \<noteq> [] then (if HasPrefix distPath ''/'' then distPath else CHR ''/'' # distPath) else LatestIpfsDist),
       hf_gateway = (if gateway \<noteq> [] then trimRightSlash gateway else defaultGatewayURL),
       hf_limit = (if fetchLimit \<noteq> 0 then (if fetchLimit < 0 then 0 else fetchLimit) else defaultFetchLimit),
       hf_userAgent = [] \<rparr>"

text \<open>\<^verbatim>\<open>io.ReadAll\<close> of a body, under \<^verbatim>\<open>io.LimitReader\<close> when there is a limit.\<close>

definition readLimited :: "int \<Rightarrow> string \<Rightarrow> bool \<Rightarrow> string option" where
  "readLimited limit b fails =
     (if limit \<noteq> 0 \<and> limit \<le> int (length b) then Some (take (nat limit) b)
      else if fails then None else Some b)"

definition httpFetch :: "netEnv \<Rightarrow> httpFetcher \<Rightarrow> string \<Rightarrow> string fetching" where
  "httpFetch e f filePath tr =
     (let gwURL = hf_gateway f @ pathJoin [hf_distPath f, filePath] in
      if ne_badURL e gwURL then (Inl (BadRequest gwURL), tr)
      else let tr1 = tr @ [HttpGet gwURL (hf_userAgent f)] in
        case ne_http e (length tr) gwURL of
          NoAnswer \<Rightarrow> (Inl (RequestFailed gwURL), tr1)
        | Answer st b fails \<Rightarrow>
            if st \<ge> 400 then (Inl (if fails then BodyError gwURL else StatusError gwURL st), tr1)
            else (case readLimited (hf_limit f) b fails of
                    None \<Rightarrow> (Inl (BodyError gwURL), tr1) | Some out \<Rightarrow> (Inr out, tr1)))"

text \<open>\<^verbatim>\<open>IpfsFetcher.Fetch\<close> is the environment's.\<close>

definition ipfsFetch :: "netEnv \<Rightarrow> nat \<Rightarrow> string \<Rightarrow> string fetching" where
  "ipfsFetch e k filePath tr = (ne_ipfs e k (length tr) filePath, tr @ [IpfsGet k filePath])"

fun retryLoop :: "(nat \<Rightarrow> bool) \<Rightarrow> 'a fetching \<Rightarrow> nat \<Rightarrow> fetch_err option \<Rightarrow> 'a fetching" where
  "retryLoop done' fetch 0 lastErr tr = (Inl (RetriesExceeded lastErr), tr)"
| "retryLoop done' fetch (Suc n) lastErr tr =
     (case fetch tr of
        (Inr out, tr1) \<Rightarrow> (Inr out, tr1)
      | (Inl err, tr1) \<Rightarrow>
          if done' (length tr1) then (Inl CtxErr, tr1) else retryLoop done' fetch n (Some err) tr1)"

text \<open>With no fetchers at all the error is nil, and so are the bytes.\<close>

fun multiLoop :: "string fetching list \<Rightarrow> fetch_err list \<Rightarrow> string fetching" where
  "multiLoop [] errs tr = (if errs = [] then Inr [] else Inl (MultiError errs), tr)"
| "multiLoop (fetch # fs) errs tr =
     (case fetch tr of
        (Inr out, tr1) \<Rightarrow> (Inr out, tr1)
      | (Inl err, tr1) \<Rightarrow> multiLoop fs (errs @ [err]) tr1)"

fun Fetch :: "netEnv \<Rightarrow> Fetcher \<Rightarrow> string \<Rightarrow> string fetching" where
  "Fetch e (HttpFetcher f) p = httpFetch e f p"
| "Fetch e (IpfsFetcher k) p = ipfsFetch e k p"
| "Fetch e (RetryFetcher f n) p = retryLoop (ne_done e) (Fetch e f p) n None"
| "Fetch e (MultiFetcher fs) p = multiLoop (map (\<lambda>f. Fetch e f p) fs) []"

text \<open>\<^verbatim>\<open>Close\<close>: the fetchers closed, in order, and the errors; only an IPFS fetcher can fail.\<close>

fun closeFetcher :: "(nat \<Rightarrow> bool) \<Rightarrow> Fetcher \<Rightarrow> nat list" where
  "closeFetcher fails (HttpFetcher f) = []"
| "closeFetcher fails (IpfsFetcher k) = (if fails k then [k] else [])"
| "closeFetcher fails (RetryFetcher f n) = closeFetcher fails f"
| "closeFetcher fails (MultiFetcher fs) = concat (map (closeFetcher fails) fs)"

text \<open>How many requests one \<open>Fetch\<close> may make.\<close>

fun fetchBudget :: "Fetcher \<Rightarrow> nat" where
  "fetchBudget (HttpFetcher f) = 1"
| "fetchBudget (IpfsFetcher k) = 1"
| "fetchBudget (RetryFetcher f n) = n * fetchBudget f"
| "fetchBudget (MultiFetcher fs) = sum_list (map fetchBudget fs)"

section \<open>The fetchers of the configuration\<close>

datatype source_err = BadGatewayAddress string | BadScheme string | NoSources

text \<open>
  The loop of \<^verbatim>\<open>GetMigrationFetcher\<close>.  \<open>parseURL\<close> is \<^verbatim>\<open>url.Parse\<close>: the scheme and how the URL is
  printed with a given scheme.  \<open>newIpfs\<close> is the IPFS fetcher, if there may be one.
\<close>

definition numTriesPerHTTP :: nat where "numTriesPerHTTP = 3"

definition retryingHttp :: "string \<Rightarrow> string \<Rightarrow> Fetcher" where
  "retryingHttp distPath gateway = RetryFetcher (HttpFetcher (NewHttpFetcher distPath gateway ''go-ipfs'' 0)) numTriesPerHTTP"

fun sourceFetchers ::
  "(string \<Rightarrow> (string \<times> (string \<Rightarrow> string)) option) \<Rightarrow> nat option \<Rightarrow> string \<Rightarrow> string list \<Rightarrow> Fetcher list \<Rightarrow> source_err + Fetcher list" where
  "sourceFetchers parseURL newIpfs distPath [] acc = Inr acc"
| "sourceFetchers parseURL newIpfs distPath (src0 # srcs) acc =
     (let src = trimBy isSpaceASCII src0 in
      if src \<in> {''HTTPS'', ''https'', ''HTTP'', ''http''}
      then sourceFetchers parseURL newIpfs distPath srcs (acc @ [retryingHttp distPath []])
      else if src \<in> {''IPFS'', ''ipfs''}
      then sourceFetchers parseURL newIpfs distPath srcs (acc @ (case newIpfs of None \<Rightarrow> [] | Some k \<Rightarrow> [IpfsFetcher k]))
      else if src = [] then sourceFetchers parseURL newIpfs distPath srcs acc
      else case parseURL src of
        None \<Rightarrow> Inl (BadGatewayAddress src)
      | Some (scheme, print) \<Rightarrow>
          if scheme = [] then sourceFetchers parseURL newIpfs distPath srcs (acc @ [retryingHttp distPath (print ''https'')])
          else if scheme \<in> {''https'', ''http''} then sourceFetchers parseURL newIpfs distPath srcs (acc @ [retryingHttp distPath (print scheme)])
          else Inl (BadScheme scheme))"

definition GetMigrationFetcher ::
  "(string \<Rightarrow> (string \<times> (string \<Rightarrow> string)) option) \<Rightarrow> nat option \<Rightarrow> string list \<Rightarrow> string \<Rightarrow> source_err + Fetcher" where
  "GetMigrationFetcher parseURL newIpfs downloadSources distPath =
     (case sourceFetchers parseURL newIpfs distPath downloadSources [] of
        Inl err \<Rightarrow> Inl err
      | Inr [] \<Rightarrow> Inl NoSources
      | Inr [f] \<Rightarrow> Inr f
      | Inr fs \<Rightarrow> Inr (MultiFetcher fs))"

section \<open>Versions of a distribution\<close>

record 'v semver =
  sv_Make :: "string \<Rightarrow> 'v option"
  sv_LT :: "'v \<Rightarrow> 'v \<Rightarrow> bool"
  sv_String :: "'v \<Rightarrow> string"

datatype ver_err = VerFetch fetch_err | LineTooLong | NoStableVersion

text \<open>\<^verbatim>\<open>bufio.Scanner\<close>: the lines, without a trailing carriage return; a line of 64 KiB or more is an error.\<close>

definition dropCR :: "string \<Rightarrow> string" where
  "dropCR s = (if s \<noteq> [] \<and> last s = char_of (13 :: nat) then butlast s else s)"

definition scanLines :: "string \<Rightarrow> string list option" where
  "scanLines s =
     (let ls = splitc (char_of (10 :: nat)) s;
          raw = (if last ls = [] then butlast ls else ls)
      in if \<exists>l \<in> set raw. length l \<ge> 65536 then None else Some (map dropCR raw))"

fun insertBy :: "('v \<Rightarrow> 'v \<Rightarrow> bool) \<Rightarrow> 'v \<Rightarrow> 'v list \<Rightarrow> 'v list" where
  "insertBy lt x [] = [x]"
| "insertBy lt x (y # ys) = (if lt y x then y # insertBy lt x ys else x # y # ys)"

definition goSort :: "('v \<Rightarrow> 'v \<Rightarrow> bool) \<Rightarrow> 'v list \<Rightarrow> 'v list" where
  "goSort lt xs = foldr (insertBy lt) xs []"

definition DistVersions :: "netEnv \<Rightarrow> 'v semver \<Rightarrow> Fetcher \<Rightarrow> string \<Rightarrow> bool \<Rightarrow> fetchReq list \<Rightarrow> (ver_err + string list) \<times> fetchReq list" where
  "DistVersions e sv fetcher dist sortDesc tr =
     (case Fetch e fetcher (pathJoin [dist, ''versions'']) tr of
        (Inl err, tr1) \<Rightarrow> (Inl (VerFetch err), tr1)
      | (Inr versionBytes, tr1) \<Rightarrow>
          (case scanLines versionBytes of
             None \<Rightarrow> (Inl LineTooLong, tr1)
           | Some ls \<Rightarrow>
               let vers = List.map_filter (\<lambda>l. sv_Make sv (dropWhile (\<lambda>c. c = CHR ''v'') l)) ls;
                   sorted' = goSort (if sortDesc then (\<lambda>a b. sv_LT sv b a) else sv_LT sv) vers
               in (Inr (map (\<lambda>v. ''v'' @ sv_String sv v) sorted'), tr1)))"

fun latestOf :: "bool \<Rightarrow> string list \<Rightarrow> string option" where
  "latestOf stableOnly [] = None"
| "latestOf stableOnly (ver # vs) =
     (if stableOnly \<and> Contains ver ''-rc'' then latestOf stableOnly vs
      else if Contains ver ''-dev'' then latestOf stableOnly vs
      else Some ver)"

definition LatestDistVersion :: "netEnv \<Rightarrow> 'v semver \<Rightarrow> Fetcher \<Rightarrow> string \<Rightarrow> bool \<Rightarrow> fetchReq list \<Rightarrow> (ver_err + string) \<times> fetchReq list" where
  "LatestDistVersion e sv fetcher dist stableOnly tr =
     (case DistVersions e sv fetcher dist False tr of
        (Inl err, tr1) \<Rightarrow> (Inl err, tr1)
      | (Inr vs, tr1) \<Rightarrow>
          (case latestOf stableOnly (rev vs) of None \<Rightarrow> (Inl NoStableVersion, tr1) | Some ver \<Rightarrow> (Inr ver, tr1)))"

section \<open>Downloading a binary\<close>

datatype ent = EDir | EFile (data: string) (exec: bool)

type_synonym fsys = "string \<Rightarrow> ent option"

datatype bin_err = Exists string | NotADir string | OsErr string | BinFetch fetch_err
  | UnknownArchive string | BadArchive | NoBinary | MuslUnsupported | FetchFailed "string list"

text \<open>
  \<open>be_untar\<close> gives the entries of a compressed tar file and whether reading it fails after them,
  \<open>be_unzip\<close> those of a zip file, a member that cannot be opened without its content.
\<close>

record binEnv =
  be_GOOS :: string
  be_GOARCH :: string
  be_ldd :: "string option"
  be_DownloadDirectory :: string
  be_tmpName :: "string \<Rightarrow> fsys \<Rightarrow> string option"
  be_failStat :: "string \<Rightarrow> bool"
  be_failCreate :: "string \<Rightarrow> bool"
  be_cutWrite :: "string \<Rightarrow> string option"
  be_failChmod :: "string \<Rightarrow> bool"
  be_untar :: "string \<Rightarrow> ((string \<times> string) list \<times> bool) option"
  be_unzip :: "string \<Rightarrow> (string \<times> string option) list option"

definition ExeName :: "binEnv \<Rightarrow> string \<Rightarrow> string" where
  "ExeName b name = (if be_GOOS b = ''windows'' then name @ ''.exe'' else name)"

definition osWithVariant :: "binEnv \<Rightarrow> string option" where
  "osWithVariant b =
     (if be_GOOS b \<noteq> ''linux'' then Some (be_GOOS b)
      else case be_ldd b of
        None \<Rightarrow> None
      | Some out \<Rightarrow>
          (case scanLines out of
             Some ls \<Rightarrow> Some (if \<exists>l \<in> set ls. Contains l ''musl'' then ''linux-musl'' else ''linux'')
           | None \<Rightarrow> Some (if \<exists>l \<in> set (takeWhile (\<lambda>l. length l < 65536) (splitc (char_of (10 :: nat)) out)). Contains l ''musl''
                           then ''linux-musl'' else ''linux'')))"

definition makeArchivePath :: "binEnv \<Rightarrow> string \<Rightarrow> string \<Rightarrow> string \<Rightarrow> string \<Rightarrow> string \<times> string" where
  "makeArchivePath b dist name ver atype =
     (let arcName = name @ ''_'' @ ver @ ''_'' @ be_GOOS b @ ''-'' @ be_GOARCH b @ ''.'' @ atype
      in (dist @ ''/'' @ ver @ ''/'' @ arcName, arcName))"

definition createFile :: "binEnv \<Rightarrow> string \<Rightarrow> fsys \<Rightarrow> (bin_err + unit) \<times> fsys" where
  "createFile b p fs =
     (if be_failCreate b p \<or> fs p = Some EDir then (Inl (OsErr p), fs)
      else (Inr (), fs(p \<mapsto> EFile [] (case fs p of Some (EFile _ x) \<Rightarrow> x | _ \<Rightarrow> False))))"

definition writeFile :: "binEnv \<Rightarrow> string \<Rightarrow> string \<Rightarrow> fsys \<Rightarrow> (bin_err + unit) \<times> fsys" where
  "writeFile b p c fs =
     (let x = (case fs p of Some (EFile _ x) \<Rightarrow> x | _ \<Rightarrow> False) in
      case be_cutWrite b p of
        Some part \<Rightarrow> (Inl (OsErr p), fs(p \<mapsto> EFile part x))
      | None \<Rightarrow> (Inr (), fs(p \<mapsto> EFile c x)))"

definition writeToPath :: "binEnv \<Rightarrow> string \<Rightarrow> string \<Rightarrow> fsys \<Rightarrow> (bin_err + unit) \<times> fsys" where
  "writeToPath b c out fs =
     (case createFile b out fs of
        (Inl err, fs1) \<Rightarrow> (Inl err, fs1)
      | (Inr _, fs1) \<Rightarrow> writeFile b out c fs1)"

definition archiveBytes :: "string \<Rightarrow> fsys \<Rightarrow> string option" where
  "archiveBytes p fs = (case fs p of Some (EFile c _) \<Rightarrow> Some c | _ \<Rightarrow> None)"

definition unpackTgz :: "binEnv \<Rightarrow> string \<Rightarrow> string \<Rightarrow> string \<Rightarrow> string \<Rightarrow> fsys \<Rightarrow> (bin_err + unit) \<times> fsys" where
  "unpackTgz b arcPath root name out fs =
     (case Option.bind (archiveBytes arcPath fs) (be_untar b) of
        None \<Rightarrow> (Inl BadArchive, fs)
      | Some (entries, failed) \<Rightarrow>
          (case map_of entries (root @ ''/'' @ name) of
             Some c \<Rightarrow> writeToPath b c out fs
           | None \<Rightarrow> (Inl (if failed then BadArchive else NoBinary), fs)))"

definition unpackZip :: "binEnv \<Rightarrow> string \<Rightarrow> string \<Rightarrow> string \<Rightarrow> string \<Rightarrow> fsys \<Rightarrow> (bin_err + unit) \<times> fsys" where
  "unpackZip b arcPath root name out fs =
     (case Option.bind (archiveBytes arcPath fs) (be_unzip b) of
        None \<Rightarrow> (Inl BadArchive, fs)
      | Some members \<Rightarrow>
          (case map_of members (root @ ''/'' @ name) of
             Some (Some c) \<Rightarrow> writeToPath b c out fs
           | Some None \<Rightarrow> (Inl BadArchive, fs)
           | None \<Rightarrow> (Inl NoBinary, fs)))"

definition unpackArchive :: "binEnv \<Rightarrow> string \<Rightarrow> string \<Rightarrow> string \<Rightarrow> string \<Rightarrow> string \<Rightarrow> fsys \<Rightarrow> (bin_err + unit) \<times> fsys" where
  "unpackArchive b arcPath atype root name out fs =
     (if atype = ''tar.gz'' then unpackTgz b arcPath root name out fs
      else if atype = ''zip'' then unpackZip b arcPath root name out fs
      else (Inl (UnknownArchive atype), fs))"

text \<open>Where the binary goes: a name that is free, or a free name in a directory that is there.\<close>

definition binaryDest :: "binEnv \<Rightarrow> string \<Rightarrow> string \<Rightarrow> fsys \<Rightarrow> bin_err + string" where
  "binaryDest b binName out fs =
     (if be_failStat b out then Inl (OsErr out)
      else case fs out of
        None \<Rightarrow> Inr out
      | Some (EFile _ _) \<Rightarrow> Inl (Exists out)
      | Some EDir \<Rightarrow>
          let out' = pathJoin [out, binName] in
          if be_failStat b out' then Inl (OsErr out')
          else if fs out' \<noteq> None then Inl (Exists out') else Inr out')"

text \<open>The download directory, or a fresh temporary one that is to be removed.\<close>

definition downloadDir :: "binEnv \<Rightarrow> string \<Rightarrow> fsys \<Rightarrow> bin_err + string \<times> bool" where
  "downloadDir b arcName fs =
     (let tmp = be_DownloadDirectory b in
      if tmp \<noteq> [] then
        (if be_failStat b tmp then Inl (OsErr tmp)
         else case fs tmp of
           None \<Rightarrow> Inl (OsErr tmp) | Some EDir \<Rightarrow> Inr (tmp, False) | Some (EFile _ _) \<Rightarrow> Inl (Exists tmp))
      else case be_tmpName b arcName fs of None \<Rightarrow> Inl (OsErr arcName) | Some tmp \<Rightarrow> Inr (tmp, True))"

definition removeAll' :: "string \<Rightarrow> fsys \<Rightarrow> fsys" where
  "removeAll' dir fs = (\<lambda>p. if p = dir \<or> HasPrefix p (dir @ ''/'') then None else fs p)"

definition downloadTo :: "binEnv \<Rightarrow> netEnv \<Rightarrow> Fetcher \<Rightarrow> string \<Rightarrow> string \<Rightarrow> string \<Rightarrow> string \<Rightarrow> string \<Rightarrow> string \<Rightarrow>
    fsys \<times> fetchReq list \<Rightarrow> (bin_err + string) \<times> fsys \<times> fetchReq list" where
  "downloadTo b e fetcher dist ver arcName binName out tmpDir w =
     (case w of (fs, tr) \<Rightarrow>
      let atype = (if be_GOOS b = ''windows'' then ''zip'' else ''tar.gz'');
          (arcDistPath, arcFullName) = makeArchivePath b dist arcName ver atype;
          arcPath = pathJoin [tmpDir, arcFullName]
      in case createFile b arcPath fs of
        (Inl err, fs1) \<Rightarrow> (Inl err, fs1, tr)
      | (Inr _, fs1) \<Rightarrow>
          (case Fetch e fetcher arcDistPath tr of
             (Inl err, tr1) \<Rightarrow> (Inl (BinFetch err), fs1, tr1)
           | (Inr arcBytes, tr1) \<Rightarrow>
               (case writeFile b arcPath arcBytes fs1 of
                  (Inl err, fs2) \<Rightarrow> (Inl err, fs2, tr1)
                | (Inr _, fs2) \<Rightarrow>
                    (case unpackArchive b arcPath atype dist binName out fs2 of
                       (Inl err, fs3) \<Rightarrow> (Inl err, fs3, tr1)
                     | (Inr _, fs3) \<Rightarrow>
                         if be_failChmod b out then (Inl (OsErr out), fs3, tr1)
                         else (Inr out, fs3(out := map_option (\<lambda>x. EFile (data x) True) (fs3 out)), tr1)))))"

definition FetchBinary :: "binEnv \<Rightarrow> netEnv \<Rightarrow> Fetcher \<Rightarrow> string \<Rightarrow> string \<Rightarrow> string \<Rightarrow> string \<Rightarrow>
    fsys \<times> fetchReq list \<Rightarrow> (bin_err + string) \<times> fsys \<times> fetchReq list" where
  "FetchBinary b e fetcher dist ver binName0 out0 w =
     (case w of (fs, tr) \<Rightarrow>
      let arcName = pathBase dist;
          binName = ExeName b (if binName0 = [] then arcName else binName0)
      in case binaryDest b binName out0 fs of
        Inl err \<Rightarrow> (Inl err, fs, tr)
      | Inr out \<Rightarrow>
          (case downloadDir b arcName fs of
             Inl err \<Rightarrow> (Inl err, fs, tr)
           | Inr (tmpDir, temporary) \<Rightarrow>
               let fs1 = (if temporary then fs(tmpDir \<mapsto> EDir) else fs) in
               (case downloadTo b e fetcher dist ver arcName binName out tmpDir (fs1, tr) of
                  (res, fs2, tr2) \<Rightarrow> (res, (if temporary then removeAll' tmpDir fs2 else fs2), tr2))))"

end
