(* ===== verification/Migrations.thy ===== *)
theory Migrations
  imports MigrationFetch RepoFiles
begin

text \<open>
  Migrating a repository: \<^verbatim>\<open>repo/fsrepo/migrations/migrations.go\<close>.

  \<^item> A migration binary is a program: \<open>me_run\<close> says what running what is at a path does to the repository
    and whether it succeeds.  \<open>me_LookPath\<close> is \<^verbatim>\<open>exec.LookPath\<close>.
  \<^item> The goroutines of \<^verbatim>\<open>fetchMigrations\<close> are independent downloads; \<open>me_order\<close> is the order in which
    they run.
  \<^item> The world is the repository's disk, the file system of the binaries, the requests made and the
    binaries run.
\<close>

record migWorld =
  mw_disk :: disk
  mw_fs :: fsys
  mw_reqs :: "fetchReq list"
  mw_runs :: "(string \<times> bool) list"

record migEnv =
  me_os :: fsEnv
  me_bin :: binEnv
  me_net :: netEnv
  me_ctxDone :: "int \<Rightarrow> bool"
  me_LookPath :: "string \<Rightarrow> string option"
  me_MkdirTemp :: "fsys \<Rightarrow> string option"
  me_order :: "nat \<Rightarrow> nat list"
  me_run :: "string \<Rightarrow> ent option \<Rightarrow> bool \<Rightarrow> string \<Rightarrow> disk \<Rightarrow> bool \<times> disk"

datatype mig_err =
    MigIO io_err | NoRepoVersion io_err | DowngradeNotAllowed int int | MigCtxErr
  | MigTmpErr | MigFetchErr bin_err | MigFailed string

section \<open>The chain of migrations\<close>

definition migrationName :: "int \<Rightarrow> int \<Rightarrow> string" where
  "migrationName from to' = ''fs-repo-'' @ decInt from @ ''-to-'' @ decInt to'"

text \<open>The loop of \<^verbatim>\<open>findMigrations\<close>; the step is the same at every round.\<close>

function findLoop ::
  "(int \<Rightarrow> bool) \<Rightarrow> (string \<Rightarrow> string option) \<Rightarrow> int \<Rightarrow> int \<Rightarrow> string list \<Rightarrow> (string \<times> string) list \<Rightarrow>
   (string list \<times> (string \<times> string) list) option" where
  "findLoop done' look cur to' migs bins =
     (if cur = to' then Some (migs, bins)
      else if done' cur then None
      else let step = (if cur > to' then -1 else 1);
               migName = (if step = -1 then migrationName (cur + step) cur else migrationName cur (cur + step))
           in findLoop done' look (cur + step) to' (migs @ [migName])
                (case look migName of None \<Rightarrow> bins | Some bin \<Rightarrow> bins @ [(migName, bin)]))"
  by pat_completeness auto
termination
  by (relation "measure (\<lambda>(done', look, cur, to', migs, bins). nat \<bar>to' - cur\<bar>)") auto

declare findLoop.simps [simp del]

definition findMigrations :: "migEnv \<Rightarrow> int \<Rightarrow> int \<Rightarrow> (string list \<times> (string \<times> string) list) option" where
  "findMigrations env from to' = findLoop (me_ctxDone env) (me_LookPath env) from to' [] []"

section \<open>Downloading what is missing\<close>

text \<open>One goroutine; \<open>None\<close> when it leaves no path behind.\<close>

definition fetchOne :: "migEnv \<Rightarrow> 'v semver \<Rightarrow> Fetcher \<Rightarrow> string \<Rightarrow> string \<Rightarrow> fsys \<times> fetchReq list \<Rightarrow> string option \<times> fsys \<times> fetchReq list" where
  "fetchOne env sv fetcher destDir name w =
     (let dist = pathJoin [[], name] in
      case LatestDistVersion (me_net env) sv fetcher dist False (snd w) of
        (Inl err, tr1) \<Rightarrow> (None, fst w, tr1)
      | (Inr ver, tr1) \<Rightarrow>
          (case FetchBinary (me_bin env) (me_net env) fetcher dist ver name destDir (fst w, tr1) of
             (Inl err, w2) \<Rightarrow> (None, w2) | (Inr loc, w2) \<Rightarrow> (Some loc, w2)))"

fun fetchAll :: "migEnv \<Rightarrow> 'v semver \<Rightarrow> Fetcher \<Rightarrow> string list \<Rightarrow> string \<Rightarrow> nat list \<Rightarrow> (nat \<Rightarrow> string option) \<Rightarrow>
    fsys \<times> fetchReq list \<Rightarrow> (nat \<Rightarrow> string option) \<times> fsys \<times> fetchReq list" where
  "fetchAll env sv fetcher needed destDir [] bins w = (bins, w)"
| "fetchAll env sv fetcher needed destDir (i # is) bins w =
     (case fetchOne env sv fetcher destDir (needed ! i) w of
        (loc, w1) \<Rightarrow> fetchAll env sv fetcher needed destDir is (bins(i := loc)) w1)"

definition fetchMigrations :: "migEnv \<Rightarrow> 'v semver \<Rightarrow> Fetcher \<Rightarrow> string list \<Rightarrow> string \<Rightarrow>
    fsys \<times> fetchReq list \<Rightarrow> (bin_err + string list) \<times> fsys \<times> fetchReq list" where
  "fetchMigrations env sv fetcher needed destDir w =
     (case osWithVariant (me_bin env) of
        None \<Rightarrow> (Inl (OsErr ''ldd''), w)
      | Some osv \<Rightarrow>
          if osv = ''linux-musl'' then (Inl MuslUnsupported, w)
          else (case fetchAll env sv fetcher needed destDir (me_order env (length needed)) Map.empty w of
                  (bins, w1) \<Rightarrow>
                    let missing = (\<lambda>i. case bins i of None \<Rightarrow> True | Some loc \<Rightarrow> loc = []);
                        fails = map ((!) needed) (filter missing [0..<length needed])
                    in (if fails \<noteq> [] then Inl (FetchFailed fails)
                        else Inr (map (\<lambda>i. the (bins i)) [0..<length needed]), w1)))"

section \<open>Running\<close>

definition runMigration :: "migEnv \<Rightarrow> string \<Rightarrow> string \<Rightarrow> bool \<Rightarrow> migWorld \<Rightarrow> bool \<times> migWorld" where
  "runMigration env binPath ipfsDir revert w =
     (case me_run env binPath (mw_fs w binPath) revert ipfsDir (mw_disk w) of
        (ok, d) \<Rightarrow> (ok, w\<lparr> mw_disk := d, mw_runs := mw_runs w @ [(binPath, revert)] \<rparr>))"

fun runAll :: "migEnv \<Rightarrow> (string \<times> string) list \<Rightarrow> string \<Rightarrow> bool \<Rightarrow> string list \<Rightarrow> migWorld \<Rightarrow> mig_err option \<times> migWorld" where
  "runAll env binPaths ipfsDir revert [] w = (None, w)"
| "runAll env binPaths ipfsDir revert (migration # ms) w =
     (case runMigration env (case map_of binPaths migration of None \<Rightarrow> [] | Some p \<Rightarrow> p) ipfsDir revert w of
        (ok, w1) \<Rightarrow> if ok then runAll env binPaths ipfsDir revert ms w1 else (Some (MigFailed migration), w1))"

text \<open>The part of \<^verbatim>\<open>RunMigration\<close> that downloads; the temporary directory is removed when \<^verbatim>\<open>RunMigration\<close> returns.\<close>

definition getMissing :: "migEnv \<Rightarrow> 'v semver \<Rightarrow> Fetcher \<Rightarrow> string list \<Rightarrow> (string \<times> string) list \<Rightarrow> migWorld \<Rightarrow>
    (mig_err + (string \<times> string) list) \<times> string option \<times> migWorld" where
  "getMissing env sv fetcher migrations binPaths w =
     (if length binPaths < length migrations then
        let missing = filter (\<lambda>m. map_of binPaths m = None) migrations in
        (case me_MkdirTemp env (mw_fs w) of
           None \<Rightarrow> (Inl MigTmpErr, None, w)
         | Some tmpDir \<Rightarrow>
             (case fetchMigrations env sv fetcher missing tmpDir ((mw_fs w)(tmpDir \<mapsto> EDir), mw_reqs w) of
                (Inl err, fs, tr) \<Rightarrow> (Inl (MigFetchErr err), Some tmpDir, w\<lparr> mw_fs := fs, mw_reqs := tr \<rparr>)
              | (Inr fetched, fs, tr) \<Rightarrow> (Inr (binPaths @ zip missing fetched), Some tmpDir, w\<lparr> mw_fs := fs, mw_reqs := tr \<rparr>)))
      else (Inr binPaths, None, w))"

definition RunMigration :: "migEnv \<Rightarrow> 'v semver \<Rightarrow> Fetcher \<Rightarrow> int \<Rightarrow> string \<Rightarrow> bool \<Rightarrow> migWorld \<Rightarrow> mig_err option \<times> migWorld" where
  "RunMigration env sv fetcher targetVer dir allowDowngrade w =
     (case CheckIpfsDir (me_os env) dir of
        Inl err \<Rightarrow> (Some (MigIO err), w)
      | Inr ipfsDir \<Rightarrow>
          (case readRepoVersion (me_os env) (mw_disk w) ipfsDir of
             Inl err \<Rightarrow> (Some (NoRepoVersion err), w)
           | Inr fromVer \<Rightarrow>
               if fromVer = targetVer then (None, w)
               else if fromVer > targetVer \<and> \<not> allowDowngrade then (Some (DowngradeNotAllowed fromVer targetVer), w)
               else case findMigrations env fromVer targetVer of
                 None \<Rightarrow> (Some MigCtxErr, w)
               | Some (migrations, binPaths) \<Rightarrow>
                   (case getMissing env sv fetcher migrations binPaths w of
                      (got, tmp, w1) \<Rightarrow>
                        (case (case got of
                                 Inl err \<Rightarrow> (Some err, w1)
                               | Inr paths \<Rightarrow> runAll env paths ipfsDir (fromVer > targetVer) migrations w1) of
                           (res, w2) \<Rightarrow>
                             (res, case tmp of None \<Rightarrow> w2 | Some t \<Rightarrow> w2\<lparr> mw_fs := removeAll' t (mw_fs w2) \<rparr>)))))"

definition NeedMigration :: "fsEnv \<Rightarrow> disk \<Rightarrow> int \<Rightarrow> mig_err + bool" where
  "NeedMigration e d target =
     (case readRepoVersion e d [] of Inl err \<Rightarrow> Inl (NoRepoVersion err) | Inr vnum \<Rightarrow> Inr (vnum \<noteq> target))"

section \<open>The configuration of migrations\<close>

record Migration =
  DownloadSources :: "string list"
  Keep :: string

definition DefaultMigrationKeep :: string where "DefaultMigrationKeep = ''cache''"
definition DefaultMigrationDownloadSources :: "string list" where
  "DefaultMigrationDownloadSources = [''HTTPS'', ''IPFS'']"

text \<open>\<open>dec\<close> is \<^verbatim>\<open>encoding/json\<close> on the struct with the one section.\<close>

definition ReadMigrationConfig :: "fsEnv \<Rightarrow> disk \<Rightarrow> (json \<Rightarrow> io_err + Migration) \<Rightarrow> string \<Rightarrow> string \<Rightarrow> io_err + Migration" where
  "ReadMigrationConfig e d dec repoRoot userConfigFile =
     bindS (configFilename e repoRoot userConfigFile) (\<lambda>cfgPath.
     bindS (osReadFile e d cfgPath) (\<lambda>c.
     bindS (case c of TextFile _ \<Rightarrow> Inl DecodeError | JsonFile j \<Rightarrow> dec j) (\<lambda>cfg.
     bindS (if Keep cfg = [] then Inr (cfg\<lparr> Keep := DefaultMigrationKeep \<rparr>)
            else if Keep cfg \<in> {''discard'', ''cache'', ''keep''} then Inr cfg
            else Inl (IOError ''unknown config value'')) (\<lambda>cfg1.
     Inr (if DownloadSources cfg1 = [] then cfg1\<lparr> DownloadSources := DefaultMigrationDownloadSources \<rparr> else cfg1)))))"

end
