(* ===== verification/MigrationFetchProps.thy ===== *)
theory MigrationFetchProps
  imports MigrationFetch
begin

text \<open>
  What fetching guarantees: how many requests are made, which version is chosen, and which files a
  download touches.
\<close>

section \<open>Requests\<close>

definition makesAtMost :: "nat \<Rightarrow> 'a fetching \<Rightarrow> bool" where
  "makesAtMost k fetch \<longleftrightarrow> (\<forall>tr. \<exists>new. snd (fetch tr) = tr @ new \<and> length new \<le> k)"

lemma makesAtMostD: "makesAtMost k fetch \<Longrightarrow> fetch tr = (r, tr1) \<Longrightarrow> \<exists>new. tr1 = tr @ new \<and> length new \<le> k"
  unfolding makesAtMost_def by (metis snd_conv)

lemma httpFetch_one: "makesAtMost 1 (httpFetch e f p)"
  by (auto simp: makesAtMost_def httpFetch_def Let_def split: httpAnswer.splits option.splits)

lemma retryLoop_requests:
  assumes "makesAtMost k fetch"
  shows "makesAtMost (n * k) (retryLoop d fetch n last')"
proof (induction n arbitrary: last')
  case (Suc n)
  have "\<exists>new. snd (retryLoop d fetch (Suc n) last' tr) = tr @ new \<and> length new \<le> Suc n * k" for tr
  proof -
    obtain r tr1 where f: "fetch tr = (r, tr1)" by fastforce
    then obtain new where new: "tr1 = tr @ new" "length new \<le> k" using makesAtMostD [OF assms] by blast
    show ?thesis
    proof (cases r)
      case (Inl err)
      obtain new2 where "snd (retryLoop d fetch n (Some err) tr1) = tr1 @ new2" "length new2 \<le> n * k"
        using Suc.IH unfolding makesAtMost_def by blast
      then show ?thesis using f new Inl by auto
    next
      case (Inr out)
      then show ?thesis using f new by auto
    qed
  qed
  then show ?case unfolding makesAtMost_def by blast
qed (simp add: makesAtMost_def)

lemma multiLoop_requests:
  assumes "\<And>i. i < length fs \<Longrightarrow> makesAtMost (ks ! i) (fs ! i)" and "length ks = length fs"
  shows "makesAtMost (sum_list ks) (multiLoop fs errs)"
  using assms
proof (induction fs arbitrary: ks errs)
  case (Cons fetch fs)
  then obtain k ks' where ks: "ks = k # ks'" by (cases ks) auto
  have k: "makesAtMost k fetch" using Cons.prems(1) [of 0] ks by simp
  have ih: "makesAtMost (sum_list ks') (multiLoop fs errs')" for errs'
    using Cons.prems Cons.IH [of ks'] ks by (metis Suc_less_eq length_Cons nat.inject nth_Cons_Suc)
  have "\<exists>new. snd (multiLoop (fetch # fs) errs tr) = tr @ new \<and> length new \<le> sum_list ks" for tr
  proof -
    obtain r tr1 where f: "fetch tr = (r, tr1)" by fastforce
    then obtain new where new: "tr1 = tr @ new" "length new \<le> k" using makesAtMostD [OF k] by blast
    show ?thesis
    proof (cases r)
      case (Inl err)
      obtain new2 where "snd (multiLoop fs (errs @ [err]) tr1) = tr1 @ new2" "length new2 \<le> sum_list ks'"
        using ih unfolding makesAtMost_def by blast
      then show ?thesis using f new Inl ks by auto
    next
      case (Inr out)
      then show ?thesis using f new ks by auto
    qed
  qed
  then show ?case unfolding makesAtMost_def by blast
qed (simp add: makesAtMost_def)

lemma Fetch_requests: "makesAtMost (fetchBudget f) (Fetch e f p)"
proof (induction f)
  case (RetryFetcher f n)
  have "makesAtMost (n * fetchBudget f) (\<lambda>tr. retryLoop (ne_done e) (Fetch e f p) n None tr)"
    by (rule retryLoop_requests) (rule RetryFetcher)
  then show ?case by (simp add: makesAtMost_def)
next
  case (MultiFetcher fs)
  have "makesAtMost (sum_list (map fetchBudget fs)) (multiLoop (map (\<lambda>f. Fetch e f p) fs) [])"
    by (rule multiLoop_requests) (use MultiFetcher in auto)
  then show ?case by (simp add: makesAtMost_def)
next
  case (HttpFetcher f)
  show ?case using httpFetch_one [of e f p] by (simp add: makesAtMost_def)
qed (simp add: makesAtMost_def ipfsFetch_def)

lemma sourceFetchers_budget:
  "sourceFetchers parseURL newIpfs dp srcs acc = Inr fs \<Longrightarrow>
   sum_list (map fetchBudget fs) \<le> sum_list (map fetchBudget acc) + numTriesPerHTTP * length srcs"
proof (induction parseURL newIpfs dp srcs acc rule: sourceFetchers.induct)
  case (2 parseURL newIpfs dp src0 srcs acc)
  have b: "fetchBudget (retryingHttp dp g) = numTriesPerHTTP" for g by (simp add: retryingHttp_def)
  have i: "sum_list (map fetchBudget (case newIpfs of None \<Rightarrow> [] | Some k \<Rightarrow> [IpfsFetcher k])) \<le> numTriesPerHTTP"
    by (cases newIpfs) (simp_all add: numTriesPerHTTP_def)
  show ?case
  proof (cases "trimBy isSpaceASCII src0 \<in> {''HTTPS'', ''https'', ''HTTP'', ''http''}")
    case True
    with 2(1) [OF refl True] 2(6) show ?thesis by (simp add: b Let_def)
  next
    case n1: False
    show ?thesis
    proof (cases "trimBy isSpaceASCII src0 \<in> {''IPFS'', ''ipfs''}")
      case True
      with 2(2) [OF refl n1 True] 2(6) n1 i show ?thesis by (simp add: Let_def)
    next
      case n2: False
      show ?thesis
      proof (cases "trimBy isSpaceASCII src0 = []")
        case True
        with 2(3) [OF refl n1 n2 True] 2(6) show ?thesis by (simp add: Let_def)
      next
        case n3: False
        obtain scheme pr where u: "parseURL (trimBy isSpaceASCII src0) = Some (scheme, pr)"
          using 2(6) n1 n2 n3 by (cases "parseURL (trimBy isSpaceASCII src0)") (auto simp: Let_def)
        show ?thesis
        proof (cases "scheme = []")
          case True
          with 2(4) [OF refl n1 n2 n3 u refl True] 2(6) n1 n2 n3 u show ?thesis by (simp add: b Let_def)
        next
          case s1: False
          show ?thesis
          proof (cases "scheme \<in> {''https'', ''http''}")
            case True
            with 2(5) [OF refl n1 n2 n3 u refl s1 True] 2(6) n1 n2 n3 s1 u show ?thesis by (simp add: b Let_def)
          next
            case False
            with 2(6) n1 n2 n3 s1 u show ?thesis by (simp add: Let_def)
          qed
        qed
      qed
    qed
  qed
qed simp

text \<open>
  However the network behaves, the fetcher made from the configured download sources makes at
  most three requests per source for one file, and only adds requests; so fetching always ends.
\<close>

theorem configured_fetch_is_bounded:
  assumes "GetMigrationFetcher parseURL newIpfs sources distPath = Inr f"
  shows "\<exists>new. snd (Fetch e f p tr) = tr @ new \<and> length new \<le> 3 * length sources"
proof -
  obtain fs where fs: "sourceFetchers parseURL newIpfs distPath sources [] = Inr fs"
    using assms by (cases "sourceFetchers parseURL newIpfs distPath sources []") (auto simp: GetMigrationFetcher_def)
  have "fetchBudget f = sum_list (map fetchBudget fs)"
    using assms fs by (auto simp: GetMigrationFetcher_def split: list.splits)
  then have "fetchBudget f \<le> 3 * length sources" using sourceFetchers_budget [OF fs] by (simp add: numTriesPerHTTP_def)
  then show ?thesis using Fetch_requests [of f e p] unfolding makesAtMost_def by (meson le_trans)
qed

definition downNet :: netEnv where
  "downNet = \<lparr> ne_badURL = (\<lambda>_. False), ne_http = (\<lambda>n _. if n < 4 then NoAnswer else Answer 200 ''v1.0.0'' False),
     ne_ipfs = (\<lambda>_ _ _. Inl (IpfsError ''no peers'')), ne_done = (\<lambda>_. False) \<rparr>"

theorem configured_fetch_is_bounded_witness:
  "\<exists>f. GetMigrationFetcher (\<lambda>u. Some ([], \<lambda>s. s @ ''://'' @ u)) (Some 0) ['' HTTPS'', ''ipfs'', ''gw.example''] [] = Inr f \<and>
    fst (Fetch downNet f ''a'' []) = Inr ''v1.0.0'' \<and> length (snd (Fetch downNet f ''a'' [])) = 5 \<and>
    (\<exists>new. snd (Fetch downNet f ''a'' []) = [] @ new \<and> length new \<le> 3 * length ['' HTTPS'', ''ipfs'', ''gw.example''])"
proof -
  let ?f = "MultiFetcher [retryingHttp [] [], IpfsFetcher 0, retryingHttp [] ''https://gw.example'']"
  have f: "GetMigrationFetcher (\<lambda>u. Some ([], \<lambda>s. s @ ''://'' @ u)) (Some 0) ['' HTTPS'', ''ipfs'', ''gw.example''] [] = Inr ?f"
    by (simp add: GetMigrationFetcher_def trimBy_def isSpaceASCII_def)
  moreover have "fst (Fetch downNet ?f ''a'' []) = Inr ''v1.0.0''" "length (snd (Fetch downNet ?f ''a'' [])) = 5"
    by code_simp+
  ultimately show ?thesis using configured_fetch_is_bounded [OF f] by blast
qed

section \<open>Versions\<close>

definition weakOrder :: "('v \<Rightarrow> 'v \<Rightarrow> bool) \<Rightarrow> bool" where
  "weakOrder lt \<longleftrightarrow> (\<forall>x. \<not> lt x x) \<and> (\<forall>x y z. lt x y \<longrightarrow> lt y z \<longrightarrow> lt x z) \<and>
     (\<forall>x y z. \<not> lt x y \<longrightarrow> \<not> lt y z \<longrightarrow> \<not> lt x z)"

lemma set_insertBy [simp]: "set (insertBy lt x ys) = insert x (set ys)"
  by (induction ys) auto

lemma set_goSort [simp]: "set (goSort lt xs) = set xs"
  by (induction xs) (simp_all add: goSort_def)

lemma weakOrderD:
  assumes "weakOrder lt"
  shows "\<not> lt x x" "lt x y \<Longrightarrow> lt y z \<Longrightarrow> lt x z" "\<not> lt x y \<Longrightarrow> \<not> lt y z \<Longrightarrow> \<not> lt x z" "lt x y \<Longrightarrow> \<not> lt y x"
  using assms unfolding weakOrder_def by blast+

lemma sorted_insertBy:
  assumes w: "weakOrder lt" and "sorted_wrt (\<lambda>a b. \<not> lt b a) ys"
  shows "sorted_wrt (\<lambda>a b. \<not> lt b a) (insertBy lt x ys)"
  using assms(2)
proof (induction ys)
  case (Cons y ys)
  then show ?case
    using weakOrderD(4) [OF w, of y x] weakOrderD(3) [OF w, of _ y x] by (auto simp del: weakOrder_def)
qed simp

lemma sorted_goSort: "weakOrder lt \<Longrightarrow> sorted_wrt (\<lambda>a b. \<not> lt b a) (goSort lt xs)"
  by (induction xs) (simp_all add: goSort_def sorted_insertBy)

definition acceptable :: "bool \<Rightarrow> string \<Rightarrow> bool" where
  "acceptable stableOnly ver \<longleftrightarrow> \<not> (stableOnly \<and> Contains ver ''-rc'') \<and> \<not> Contains ver ''-dev''"

lemma latestOf_Some:
  "latestOf stableOnly (map g vs) = Some ver \<Longrightarrow> \<exists>us v ws. vs = us @ v # ws \<and> ver = g v \<and> acceptable stableOnly ver \<and>
     (\<forall>u \<in> set us. \<not> acceptable stableOnly (g u))"
proof (induction vs)
  case (Cons x vs)
  show ?case
  proof (cases "acceptable stableOnly (g x)")
    case True
    with Cons.prems have "ver = g x" by (auto simp: acceptable_def split: if_splits)
    with True show ?thesis by (intro exI [of _ "[]"] exI [of _ x] exI [of _ vs]) simp
  next
    case False
    with Cons.prems have "latestOf stableOnly (map g vs) = Some ver" by (auto simp: acceptable_def split: if_splits)
    from Cons.IH [OF this] obtain us v ws where "vs = us @ v # ws" "ver = g v" "acceptable stableOnly ver"
      "\<forall>u \<in> set us. \<not> acceptable stableOnly (g u)" by blast
    with False show ?thesis by (intro exI [of _ "x # us"] exI [of _ v] exI [of _ ws]) simp
  qed
qed simp

lemma latestOf_None: "latestOf stableOnly vs = None \<longleftrightarrow> (\<forall>v \<in> set vs. \<not> acceptable stableOnly v)"
  by (induction vs) (auto simp: acceptable_def)

text \<open>The versions a distribution lists.\<close>

definition listedVersions :: "'v semver \<Rightarrow> string \<Rightarrow> 'v set" where
  "listedVersions sv bytes =
     {v. \<exists>ls. scanLines bytes = Some ls \<and> (\<exists>l \<in> set ls. sv_Make sv (dropWhile (\<lambda>c. c = CHR ''v'') l) = Some v)}"

text \<open>
  The latest version of a distribution is one of the versions its site lists, it is not a
  development version (nor a release candidate when only stable ones are asked for), and no listed
  version that is acceptable in that way is newer; and when there is no acceptable version this is an error.
\<close>

theorem latest_version_is_newest:
  assumes w: "weakOrder (sv_LT sv)"
    and f: "Fetch e fetcher (pathJoin [dist, ''versions'']) tr = (Inr bytes, tr1)"
    and ls: "scanLines bytes = Some ls"
  shows "case LatestDistVersion e sv fetcher dist stableOnly tr of
      (Inr ver, tr2) \<Rightarrow> \<exists>v \<in> listedVersions sv bytes. ver = ''v'' @ sv_String sv v \<and> acceptable stableOnly ver \<and>
        (\<forall>u \<in> listedVersions sv bytes. acceptable stableOnly (''v'' @ sv_String sv u) \<longrightarrow> \<not> sv_LT sv v u)
    | (Inl err, tr2) \<Rightarrow> \<forall>u \<in> listedVersions sv bytes. \<not> acceptable stableOnly (''v'' @ sv_String sv u)"
proof -
  let ?vs = "goSort (sv_LT sv) (List.map_filter (\<lambda>l. sv_Make sv (dropWhile (\<lambda>c. c = CHR ''v'') l)) ls)"
  let ?g = "\<lambda>v. ''v'' @ sv_String sv v"
  have vs: "set ?vs = listedVersions sv bytes"
    by (auto simp: listedVersions_def ls List.map_filter_def image_iff) (metis option.sel)+
  have srt: "sorted_wrt (\<lambda>a b. \<not> sv_LT sv b a) ?vs" using w by (rule sorted_goSort)
  have D: "DistVersions e sv fetcher dist False tr = (Inr (map ?g ?vs), tr1)"
    by (simp add: DistVersions_def f ls Let_def)
  show ?thesis
  proof (cases "latestOf stableOnly (map ?g (rev ?vs))")
    case None
    then have "\<forall>u \<in> set ?vs. \<not> acceptable stableOnly (?g u)" by (simp add: latestOf_None)
    moreover have "LatestDistVersion e sv fetcher dist stableOnly tr = (Inl NoStableVersion, tr1)"
      unfolding LatestDistVersion_def D using None by (simp add: rev_map)
    ultimately show ?thesis using vs by simp
  next
    case (Some ver)
    obtain us v ws where r: "rev ?vs = us @ v # ws" "ver = ?g v" "acceptable stableOnly ver"
      "\<forall>u \<in> set us. \<not> acceptable stableOnly (?g u)" using latestOf_Some [OF Some] by blast
    then have "?vs = rev ws @ v # rev us" by (metis rev.simps(2) rev_append rev_rev_ident append.assoc append_Cons append_Nil)
    with srt have "\<forall>u \<in> set ws. \<not> sv_LT sv v u" by (simp add: sorted_wrt_append)
    moreover have "\<not> sv_LT sv v v" using weakOrderD(1) [OF w] .
    moreover have "set ?vs = set us \<union> {v} \<union> set ws" using r(1) by (metis set_rev set_append list.simps(15) Un_insert_right Un_empty_right Un_insert_left sup.assoc insert_is_Un)
    ultimately have "v \<in> set ?vs \<and> (\<forall>u \<in> set ?vs. acceptable stableOnly (?g u) \<longrightarrow> \<not> sv_LT sv v u)" using r(4) by auto
    moreover have "LatestDistVersion e sv fetcher dist stableOnly tr = (Inr ver, tr1)"
      unfolding LatestDistVersion_def D using Some by (simp add: rev_map)
    ultimately show ?thesis using vs r(2,3) by simp blast
  qed
qed

definition textVersions :: "string semver" where
  "textVersions = \<lparr> sv_Make = (\<lambda>s. if s = [] then None else Some s), sv_LT = (\<lambda>a b. length a < length b), sv_String = (\<lambda>v. v) \<rparr>"

abbreviation versionList :: string where
  "versionList \<equiv> ''v1'' @ [char_of (10 :: nat)] @ ''v0.12.1-dev'' @ [char_of (10 :: nat)] @ ''v0.11''"

lemma scan_versionList: "scanLines versionList = Some [''v1'', ''v0.12.1-dev'', ''v0.11'']"
proof -
  have s: "splitc (char_of (10::nat)) versionList = [''v1'', ''v0.12.1-dev'', ''v0.11'']" by code_simp
  have "map dropCR [''v1'', ''v0.12.1-dev'', ''v0.11''] = [''v1'', ''v0.12.1-dev'', ''v0.11'']" by code_simp
  then show ?thesis unfolding scanLines_def s Let_def by simp
qed

definition listNet :: netEnv where
  "listNet = downNet\<lparr> ne_http := (\<lambda>_ _. Answer 200 versionList False) \<rparr>"

abbreviation aFetcher :: Fetcher where
  "aFetcher \<equiv> HttpFetcher \<lparr> hf_distPath = ''/d'', hf_gateway = ''https://gw'', hf_limit = 0, hf_userAgent = [] \<rparr>"

theorem latest_version_is_newest_witness:
  "fst (LatestDistVersion listNet textVersions aFetcher ''kubo'' False []) = Inr ''v0.11'' \<and>
   (\<exists>v \<in> listedVersions textVersions versionList. ''v0.11'' = ''v'' @ sv_String textVersions v)"
proof -
  have w: "weakOrder (sv_LT textVersions)" by (auto simp: weakOrder_def textVersions_def)
  have "pathJoin [''/d'', pathJoin [''kubo'', ''versions'']] = ''/d/kubo/versions''" by code_simp
  then have f: "Fetch listNet aFetcher (pathJoin [''kubo'', ''versions'']) [] = (Inr versionList, [HttpGet ''https://gw/d/kubo/versions'' []])"
    by (simp add: listNet_def httpFetch_def readLimited_def Let_def downNet_def)
  have r: "LatestDistVersion listNet textVersions aFetcher ''kubo'' False [] = (Inr ''v0.11'', [HttpGet ''https://gw/d/kubo/versions'' []])"
    unfolding LatestDistVersion_def DistVersions_def f prod.case sum.case scan_versionList option.case Let_def
    by (simp add: textVersions_def List.map_filter_def goSort_def)
  from latest_version_is_newest [OF w f scan_versionList, of False] show ?thesis unfolding r by auto
qed

section \<open>Files\<close>

lemma createFile_other: "createFile b p fs = (r, fs1) \<Longrightarrow> q \<noteq> p \<Longrightarrow> fs1 q = fs q"
  by (auto simp: createFile_def split: if_splits)

lemma writeFile_other: "writeFile b p c fs = (r, fs1) \<Longrightarrow> q \<noteq> p \<Longrightarrow> fs1 q = fs q"
  by (auto simp: writeFile_def Let_def split: option.splits)

lemma writeFile_ok: "writeFile b p c fs = (Inr u, fs1) \<Longrightarrow> \<exists>x. fs1 p = Some (EFile c x)"
  by (auto simp: writeFile_def Let_def split: option.splits)

lemma writeToPath_other: "writeToPath b c out fs = (r, fs1) \<Longrightarrow> q \<noteq> out \<Longrightarrow> fs1 q = fs q"
  by (auto simp: writeToPath_def createFile_other writeFile_other split: prod.splits sum.splits)

lemma writeToPath_ok: "writeToPath b c out fs = (Inr u, fs1) \<Longrightarrow> \<exists>x. fs1 out = Some (EFile c x)"
  by (auto simp: writeToPath_def dest: writeFile_ok split: prod.splits sum.splits)

text \<open>The member of an archive that is installed.\<close>

definition archiveMember :: "binEnv \<Rightarrow> string \<Rightarrow> string \<Rightarrow> string \<Rightarrow> string option" where
  "archiveMember b bytes root name =
     (if be_GOOS b = ''windows'' then Option.bind (Option.bind (be_unzip b bytes) (\<lambda>ms. map_of ms (root @ ''/'' @ name))) id
      else Option.bind (be_untar b bytes) (\<lambda>(es, failed). map_of es (root @ ''/'' @ name)))"

abbreviation archiveType :: "binEnv \<Rightarrow> string" where
  "archiveType b \<equiv> (if be_GOOS b = ''windows'' then ''zip'' else ''tar.gz'')"

lemma unpackArchive_other: "unpackArchive b a t root name out fs = (r, fs1) \<Longrightarrow> q \<noteq> out \<Longrightarrow> fs1 q = fs q"
  by (auto simp: unpackArchive_def unpackTgz_def unpackZip_def writeToPath_other split: if_splits option.splits prod.splits)

lemma unpackArchive_ok:
  assumes "unpackArchive b a (archiveType b) root name out fs = (Inr u, fs1)" and "fs a = Some (EFile bytes x)"
  shows "\<exists>c y. archiveMember b bytes root name = Some c \<and> fs1 out = Some (EFile c y)"
  using assms
  by (auto simp: unpackArchive_def unpackTgz_def unpackZip_def archiveMember_def archiveBytes_def dest: writeToPath_ok
      split: if_splits option.splits prod.splits)

lemma binaryDest_free: "binaryDest b name out fs = Inr p \<Longrightarrow> fs p = None \<and> (p = out \<or> p = pathJoin [out, name])"
  by (auto simp: binaryDest_def Let_def split: if_splits option.splits ent.splits)

lemma downloadTo_facts:
  assumes "downloadTo b e f dist ver arc name out tmp (fs, tr) = (res, fs1, tr1)"
  defines "ap \<equiv> makeArchivePath b dist arc ver (archiveType b)"
  shows "\<And>q. q \<noteq> out \<Longrightarrow> q \<noteq> pathJoin [tmp, snd ap] \<Longrightarrow> fs1 q = fs q"
    and "res = Inr p \<Longrightarrow> p = out \<and> (\<exists>bytes c. Fetch e f (fst ap) tr = (Inr bytes, tr1) \<and>
           archiveMember b bytes dist name = Some c \<and> fs1 out = Some (EFile c True))"
proof -
  obtain adp an where ap: "ap = (adp, an)" by (cases ap)
  let ?arc = "pathJoin [tmp, an]"
  note step = assms(1) [unfolded downloadTo_def prod.case Let_def ap_def [symmetric] ap]
  obtain r1 f1 where c: "createFile b ?arc fs = (r1, f1)" by fastforce
  have o1: "\<And>q. q \<noteq> ?arc \<Longrightarrow> f1 q = fs q" using createFile_other [OF c] by blast
  have "(\<forall>q. q \<noteq> out \<longrightarrow> q \<noteq> ?arc \<longrightarrow> fs1 q = fs q) \<and> (res = Inr p \<longrightarrow> p = out \<and>
      (\<exists>bytes c. Fetch e f adp tr = (Inr bytes, tr1) \<and> archiveMember b bytes dist name = Some c \<and> fs1 out = Some (EFile c True)))"
  proof (cases r1)
    case (Inl err)
    then show ?thesis using step c o1 by auto
  next
    case (Inr u)
    obtain r2 t2 where ft: "Fetch e f adp tr = (r2, t2)" by fastforce
    show ?thesis
    proof (cases r2)
      case (Inl err)
      then show ?thesis using step c o1 Inr ft by auto
    next
      case (Inr bytes)
      obtain r3 f3 where wf: "writeFile b ?arc bytes f1 = (r3, f3)" by fastforce
      have o3: "\<And>q. q \<noteq> ?arc \<Longrightarrow> f3 q = fs q" using writeFile_other [OF wf] o1 by simp
      show ?thesis
      proof (cases r3)
        case (Inl err)
        then show ?thesis using step c o3 \<open>r1 = Inr u\<close> Inr ft wf by auto
      next
        case (Inr u3)
        obtain x where arc: "f3 ?arc = Some (EFile bytes x)" using writeFile_ok wf Inr by metis
        obtain r4 f4 where un: "unpackArchive b ?arc (archiveType b) dist name out f3 = (r4, f4)" by fastforce
        have o4: "\<And>q. q \<noteq> out \<Longrightarrow> q \<noteq> ?arc \<Longrightarrow> f4 q = fs q" using unpackArchive_other [OF un] o3 by simp
        note here = \<open>r1 = Inr u\<close> \<open>r2 = Inr bytes\<close> Inr c ft wf un
        show ?thesis
        proof (cases r4)
          case (Inl err)
          with here step have "res = Inl err \<and> fs1 = f4" by simp
          with o4 show ?thesis by simp
        next
          case (Inr u4)
          obtain c y where m: "archiveMember b bytes dist name = Some c" "f4 out = Some (EFile c y)"
            using unpackArchive_ok [of b ?arc dist name out f3 u4 f4, OF _ arc] un Inr by blast
          show ?thesis
          proof (cases "be_failChmod b out")
            case True
            with here Inr step have "res = Inl (OsErr out) \<and> fs1 = f4" by simp
            with o4 show ?thesis by simp
          next
            case False
            with here Inr step have "res = Inr out \<and> fs1 = f4(out := map_option (\<lambda>x. EFile (data x) True) (f4 out)) \<and> tr1 = t2" by simp
            with o4 m here show ?thesis by simp
          qed
        qed
      qed
    qed
  qed
  with ap show "\<And>q. q \<noteq> out \<Longrightarrow> q \<noteq> pathJoin [tmp, snd ap] \<Longrightarrow> fs1 q = fs q"
    and "res = Inr p \<Longrightarrow> p = out \<and> (\<exists>bytes c. Fetch e f (fst ap) tr = (Inr bytes, tr1) \<and>
           archiveMember b bytes dist name = Some c \<and> fs1 out = Some (EFile c True))"
    by simp_all
qed

lemma downloadDir_cases:
  "downloadDir b arc fs = Inr (tmp, temporary) \<Longrightarrow>
   if temporary then be_DownloadDirectory b = [] \<and> be_tmpName b arc fs = Some tmp
   else tmp = be_DownloadDirectory b \<and> fs tmp = Some EDir"
  by (auto simp: downloadDir_def Let_def split: if_splits option.splits ent.splits)

text \<open>\<^verbatim>\<open>os.MkdirTemp\<close> makes a directory that was not there, so nothing is in it.\<close>

definition inDir :: "string \<Rightarrow> string \<Rightarrow> bool" where
  "inDir dir p \<longleftrightarrow> p = dir \<or> HasPrefix p (dir @ ''/'')"

definition freshTmp :: "binEnv \<Rightarrow> bool" where
  "freshTmp b \<longleftrightarrow> (\<forall>n fs t p. be_tmpName b n fs = Some t \<longrightarrow> inDir t p \<longrightarrow> fs p = None)"

text \<open>Where \<open>FetchBinary\<close> stores the archive it downloads.\<close>

definition archiveName :: "binEnv \<Rightarrow> string \<Rightarrow> string \<Rightarrow> string" where
  "archiveName b dist ver = snd (makeArchivePath b dist (pathBase dist) ver (archiveType b))"

definition archiveFile :: "binEnv \<Rightarrow> string \<Rightarrow> string \<Rightarrow> fsys \<Rightarrow> string" where
  "archiveFile b dist ver fs =
     pathJoin [case downloadDir b (pathBase dist) fs of Inr (tmp, _) \<Rightarrow> tmp | Inl _ \<Rightarrow> [], archiveName b dist ver]"

lemma FetchBinary_facts:
  assumes fb: "FetchBinary b e f dist ver bin dest (fs, tr) = (res, fs1, tr1)" and fresh: "freshTmp b"
    and q: "fs q = Some c" "q \<noteq> archiveFile b dist ver fs"
  shows "fs1 q = Some c"
proof -
  let ?name = "ExeName b (if bin = [] then pathBase dist else bin)"
  note un = fb [unfolded FetchBinary_def prod.case Let_def]
  show ?thesis
  proof (cases "binaryDest b ?name dest fs")
    case (Inl err)
    then show ?thesis using un q by simp
  next
    case bd: (Inr out)
    then have out: "fs out = None" using binaryDest_free by blast
    show ?thesis
    proof (cases "downloadDir b (pathBase dist) fs")
      case (Inl err)
      then show ?thesis using un q bd by simp
    next
      case (Inr td)
      then obtain tmp temporary where dd: "downloadDir b (pathBase dist) fs = Inr (tmp, temporary)" by (cases td) auto
      have nt: "\<not> inDir tmp q" if temporary
        using downloadDir_cases [OF dd] that q fresh unfolding freshTmp_def by (metis option.distinct(1))
      obtain r f2 t2 where dt: "downloadTo b e f dist ver (pathBase dist) ?name out tmp
        (if temporary then fs(tmp \<mapsto> EDir) else fs, tr) = (r, f2, t2)" by (metis prod.collapse)
      have "q \<noteq> out" using q out by auto
      moreover have "q \<noteq> pathJoin [tmp, snd (makeArchivePath b dist (pathBase dist) ver (archiveType b))]"
        using q(2) dd by (simp add: archiveFile_def archiveName_def)
      ultimately have "f2 q = (if temporary then fs(tmp \<mapsto> EDir) else fs) q" using downloadTo_facts(1) [OF dt] by blast
      then have "f2 q = Some c" using q nt by (auto simp: inDir_def)
      moreover have "fs1 = (if temporary then removeAll' tmp f2 else f2)" using un bd dd dt by simp
      ultimately show ?thesis using nt by (auto simp: removeAll'_def inDir_def)
    qed
  qed
qed

lemma createFile_dir: "fs p = Some EDir \<Longrightarrow> createFile b p fs = (Inl (OsErr p), fs)"
  by (simp add: createFile_def)

lemma FetchBinary_dir:
  assumes fb: "FetchBinary b e f dist ver bin dest (fs, tr) = (res, fs1, tr1)" and fresh: "freshTmp b" and q: "fs q = Some EDir"
  shows "fs1 q = Some EDir"
proof (cases "q = archiveFile b dist ver fs")
  case False
  then show ?thesis using FetchBinary_facts [OF fb fresh] q by blast
next
  case True
  let ?name = "ExeName b (if bin = [] then pathBase dist else bin)"
  note un = fb [unfolded FetchBinary_def prod.case Let_def]
  show ?thesis
  proof (cases "binaryDest b ?name dest fs")
    case (Inl err)
    then show ?thesis using un q by simp
  next
    case bd: (Inr out)
    show ?thesis
    proof (cases "downloadDir b (pathBase dist) fs")
      case (Inl err)
      then show ?thesis using un q bd by simp
    next
      case (Inr td)
      then obtain tmp temporary where dd: "downloadDir b (pathBase dist) fs = Inr (tmp, temporary)" by (cases td) auto
      let ?fs = "if temporary then fs(tmp \<mapsto> EDir) else fs"
      obtain adp an where ap: "makeArchivePath b dist (pathBase dist) ver (archiveType b) = (adp, an)" by fastforce
      have qa: "q = pathJoin [tmp, an]" using True dd ap by (simp add: archiveFile_def archiveName_def)
      then have "createFile b (pathJoin [tmp, an]) ?fs = (Inl (OsErr (pathJoin [tmp, an])), ?fs)"
        using q by (intro createFile_dir) auto
      then have "downloadTo b e f dist ver (pathBase dist) ?name out tmp (?fs, tr) = (Inl (OsErr (pathJoin [tmp, an])), ?fs, tr)"
        unfolding downloadTo_def prod.case Let_def ap by simp
      then have "fs1 = (if temporary then removeAll' tmp ?fs else ?fs)" using un bd dd by simp
      moreover have "\<not> inDir tmp q" if temporary
        using downloadDir_cases [OF dd] that q fresh unfolding freshTmp_def by (metis option.distinct(1))
      ultimately show ?thesis using q by (auto simp: removeAll'_def inDir_def)
    qed
  qed
qed

lemma last_archiveFile: "last (archiveFile b dist ver fs) \<in> {CHR ''z'', CHR ''p''}"
proof -
  let ?v = "''.'' @ archiveType b"
  have "archiveName b dist ver = (pathBase dist @ ''_'' @ ver @ ''_'' @ be_GOOS b @ ''-'' @ be_GOARCH b) @ ?v"
    by (simp add: archiveName_def makeArchivePath_def Let_def)
  moreover have "CHR ''/'' \<notin> set ?v" "length ?v > 2" by simp_all
  ultimately have "last (archiveFile b dist ver fs) = last ?v" unfolding archiveFile_def by (metis pathJoin_ends)
  then show ?thesis by simp
qed

lemma FetchBinary_keeps:
  assumes "FetchBinary b e f dist ver bin dest (fs, tr) = (res, fs1, tr1)" and "freshTmp b"
    and "fs q = Some c" and "c = EDir \<or> last q \<notin> {CHR ''z'', CHR ''p''}"
  shows "fs1 q = Some c"
  using assms FetchBinary_facts [OF assms(1,2,3)] FetchBinary_dir [OF assms(1,2)] last_archiveFile [of b dist ver fs] by metis

lemma FetchBinary_installs:
  assumes fb: "FetchBinary b e f dist ver bin dest (fs, tr) = (Inr out, fs1, tr1)"
  shows "binaryDest b (ExeName b (if bin = [] then pathBase dist else bin)) dest fs = Inr out \<and>
    (\<exists>tmp temporary bytes c. downloadDir b (pathBase dist) fs = Inr (tmp, temporary) \<and>
       Fetch e f (fst (makeArchivePath b dist (pathBase dist) ver (archiveType b))) tr = (Inr bytes, tr1) \<and>
       archiveMember b bytes dist (ExeName b (if bin = [] then pathBase dist else bin)) = Some c \<and>
       (\<not> (temporary \<and> inDir tmp out) \<longrightarrow> fs1 out = Some (EFile c True)))"
proof -
  let ?name = "ExeName b (if bin = [] then pathBase dist else bin)"
  note un = fb [unfolded FetchBinary_def prod.case Let_def]
  obtain o' where bd: "binaryDest b ?name dest fs = Inr o'" using un by (cases "binaryDest b ?name dest fs") auto
  obtain tmp temporary where dd: "downloadDir b (pathBase dist) fs = Inr (tmp, temporary)"
    using un bd by (cases "downloadDir b (pathBase dist) fs") auto
  obtain r f2 t2 where dt: "downloadTo b e f dist ver (pathBase dist) ?name o' tmp
    (if temporary then fs(tmp \<mapsto> EDir) else fs, tr) = (r, f2, t2)" by (metis prod.collapse)
  have r: "r = Inr out" "tr1 = t2" "fs1 = (if temporary then removeAll' tmp f2 else f2)" using un bd dd dt by simp_all
  from downloadTo_facts(2) [OF dt r(1)] obtain bytes c where
    o: "out = o'" and ft: "Fetch e f (fst (makeArchivePath b dist (pathBase dist) ver (archiveType b))) tr = (Inr bytes, t2)"
      "archiveMember b bytes dist ?name = Some c" "f2 out = Some (EFile c True)" by blast
  have "\<not> (temporary \<and> inDir tmp out) \<longrightarrow> fs1 out = Some (EFile c True)"
    using r(3) ft(3) by (auto simp: removeAll'_def inDir_def)
  with bd dd o ft r(2) show ?thesis by blast
qed

text \<open>
  A download disturbs nothing: whatever fails, every file and directory that was there is as it
  was, except an earlier download of the same archive in the download directory; and when it succeeds
  the binary is at a name that was free, executable, and is the member of the archive that the site sent.
\<close>

theorem download_disturbs_nothing:
  assumes "freshTmp b"
  shows "case FetchBinary b e f dist ver bin dest (fs, tr) of (res, fs1, tr1) \<Rightarrow>
    (\<forall>q c. fs q = Some c \<and> q \<noteq> archiveFile b dist ver fs \<longrightarrow> fs1 q = Some c) \<and>
    (case res of Inl _ \<Rightarrow> True | Inr out \<Rightarrow>
       fs out = None \<and>
       (\<exists>bytes c. fst (Fetch e f (fst (makeArchivePath b dist (pathBase dist) ver (archiveType b))) tr) = Inr bytes \<and>
          archiveMember b bytes dist (ExeName b (if bin = [] then pathBase dist else bin)) = Some c \<and>
          ((\<forall>t. be_tmpName b (pathBase dist) fs = Some t \<longrightarrow> \<not> inDir t out) \<longrightarrow> fs1 out = Some (EFile c True))))"
proof -
  obtain res fs1 tr1 where fb: "FetchBinary b e f dist ver bin dest (fs, tr) = (res, fs1, tr1)" by (metis prod.collapse)
  have keep: "\<forall>q c. fs q = Some c \<and> q \<noteq> archiveFile b dist ver fs \<longrightarrow> fs1 q = Some c"
    using FetchBinary_facts [OF fb assms] by blast
  show ?thesis
  proof (cases res)
    case (Inl err)
    with fb keep show ?thesis by simp
  next
    case (Inr out)
    from FetchBinary_installs [OF fb [unfolded Inr]] obtain tmp temporary bytes c where
      i: "binaryDest b (ExeName b (if bin = [] then pathBase dist else bin)) dest fs = Inr out"
        "downloadDir b (pathBase dist) fs = Inr (tmp, temporary)"
        "Fetch e f (fst (makeArchivePath b dist (pathBase dist) ver (archiveType b))) tr = (Inr bytes, tr1)"
        "archiveMember b bytes dist (ExeName b (if bin = [] then pathBase dist else bin)) = Some c"
        "\<not> (temporary \<and> inDir tmp out) \<longrightarrow> fs1 out = Some (EFile c True)" by blast
    have "fs out = None" using binaryDest_free [OF i(1)] by simp
    moreover have "(\<forall>t. be_tmpName b (pathBase dist) fs = Some t \<longrightarrow> \<not> inDir t out) \<longrightarrow> fs1 out = Some (EFile c True)"
      using downloadDir_cases [OF i(2)] i(5) by auto
    ultimately show ?thesis using fb keep Inr i(3,4) by simp
  qed
qed

definition dlEnv :: binEnv where
  "dlEnv = \<lparr> be_GOOS = ''linux'', be_GOARCH = ''amd64'', be_ldd = Some ''GNU libc'', be_DownloadDirectory = ''/dl'',
     be_tmpName = (\<lambda>_ _. None), be_failStat = (\<lambda>_. False), be_failCreate = (\<lambda>_. False), be_cutWrite = (\<lambda>_. None),
     be_failChmod = (\<lambda>_. False), be_untar = (\<lambda>bytes. Some ([(''m/m'', bytes)], False)), be_unzip = (\<lambda>_. None) \<rparr>"

definition dlNet :: netEnv where
  "dlNet = downNet\<lparr> ne_http := (\<lambda>_ _. Answer 200 ''ELF'' False) \<rparr>"

theorem download_disturbs_nothing_witness:
  "case FetchBinary dlEnv dlNet aFetcher ''m'' ''v1'' [] ''/bin'' ([''/dl'' \<mapsto> EDir, ''/bin'' \<mapsto> EDir], []) of
     (res, fs1, tr1) \<Rightarrow> res = Inr ''/bin/m'' \<and> fs1 ''/dl'' = Some EDir \<and> fs1 ''/bin/m'' = Some (EFile ''ELF'' True)"
proof -
  let ?fs = "[''/dl'' \<mapsto> EDir, ''/bin'' \<mapsto> EDir] :: fsys"
  have fresh: "freshTmp dlEnv" by (simp add: freshTmp_def dlEnv_def)
  have p: "pathBase ''m'' = ''m''" "pathJoin [''/bin'', ''m''] = ''/bin/m''"
    "pathJoin [''/dl'', ''m_v1_linux-amd64.tar.gz''] = ''/dl/m_v1_linux-amd64.tar.gz''" by code_simp+
  have res: "fst (FetchBinary dlEnv dlNet aFetcher ''m'' ''v1'' [] ''/bin'' (?fs, [])) = Inr ''/bin/m''"
    by (simp add: FetchBinary_def downloadTo_def binaryDest_def downloadDir_def ExeName_def makeArchivePath_def p createFile_def
        writeFile_def unpackArchive_def unpackTgz_def archiveBytes_def writeToPath_def dlEnv_def dlNet_def downNet_def httpFetch_def
        readLimited_def Let_def)
  have ft: "fst (Fetch dlNet aFetcher q []) = Inr ''ELF''" for q
    by (simp add: dlNet_def downNet_def httpFetch_def readLimited_def Let_def)
  have m: "archiveMember dlEnv ''ELF'' ''m'' (ExeName dlEnv ''m'') = Some ''ELF''"
    by (simp add: archiveMember_def dlEnv_def ExeName_def)
  have a: "archiveFile dlEnv ''m'' ''v1'' ?fs = ''/dl/m_v1_linux-amd64.tar.gz''"
    by (simp add: archiveFile_def archiveName_def makeArchivePath_def downloadDir_def dlEnv_def p Let_def)
  obtain res' fs1 tr1 where fb: "FetchBinary dlEnv dlNet aFetcher ''m'' ''v1'' [] ''/bin'' (?fs, []) = (res', fs1, tr1)"
    by (metis prod.collapse)
  with res have r: "res' = Inr ''/bin/m''" by simp
  have tn: "be_tmpName dlEnv x y = None" for x y by (simp add: dlEnv_def)
  from download_disturbs_nothing [OF fresh, where e = dlNet and f = aFetcher and dist = "''m''" and ver = "''v1''"
    and bin = "[]" and dest = "''/bin''" and fs = ?fs and tr = "[]"]
  have keep: "\<forall>q c. ?fs q = Some c \<and> q \<noteq> ''/dl/m_v1_linux-amd64.tar.gz'' \<longrightarrow> fs1 q = Some c"
    and new: "fs1 ''/bin/m'' = Some (EFile ''ELF'' True)"
    using ft m by (simp_all add: fb r a p tn)
  from keep have "fs1 ''/dl'' = Some EDir" by simp
  with new fb r show ?thesis by simp
qed

end
