(* ===== verification/MigrationProps.thy ===== *)
theory MigrationProps
  imports Migrations MigrationFetchProps
begin

text \<open>
  Running migrations reaches the target version, or stops at a version in between with an error;
  then it can be run again.
\<close>

section \<open>The chain\<close>

function chain :: "int \<Rightarrow> int \<Rightarrow> (int \<times> int) list" where
  "chain cur to' =
     (if cur = to' then [] else
      let nxt = (if cur > to' then cur - 1 else cur + 1) in (cur, nxt) # chain nxt to')"
  by pat_completeness auto
termination by (relation "measure (\<lambda>(cur, to'). nat \<bar>to' - cur\<bar>)") auto

declare chain.simps [simp del]

definition stepName :: "int \<times> int \<Rightarrow> string" where
  "stepName ab = (case ab of (a, b) \<Rightarrow> if b < a then migrationName b a else migrationName a b)"

definition found :: "(string \<Rightarrow> string option) \<Rightarrow> string list \<Rightarrow> (string \<times> string) list" where
  "found look ms = List.map_filter (\<lambda>m. map_option (Pair m) (look m)) ms"

lemma found_Cons: "found look (m # ms) = (case look m of None \<Rightarrow> found look ms | Some p \<Rightarrow> (m, p) # found look ms)"
  by (simp add: found_def map_filter_simps split: option.splits)

lemma findLoop_chain:
  "findLoop d look cur to' migs bins = Some (ms, bs) \<Longrightarrow>
   ms = migs @ map stepName (chain cur to') \<and> bs = bins @ found look (map stepName (chain cur to'))"
proof (induction d look cur to' migs bins rule: findLoop.induct)
  case (1 d look cur to' migs bins)
  show ?case
  proof (cases "cur = to'")
    case True
    with "1.prems" show ?thesis by (simp add: findLoop.simps chain.simps found_def)
  next
    case False
    let ?step = "if cur > to' then -1 else 1 :: int"
    let ?name = "if ?step = -1 then migrationName (cur + ?step) cur else migrationName cur (cur + ?step)"
    have nd: "\<not> d cur" using "1.prems" False by (auto simp: findLoop.simps)
    have rec: "findLoop d look (cur + ?step) to' (migs @ [?name])
        (case look ?name of None \<Rightarrow> bins | Some bin \<Rightarrow> bins @ [(?name, bin)]) = Some (ms, bs)"
      using "1.prems" False nd by (subst (asm) findLoop.simps) (simp only: Let_def if_False)
    have c: "chain cur to' = (cur, cur + ?step) # chain (cur + ?step) to'"
      using False by (subst chain.simps) (simp add: Let_def)
    have n: "stepName (cur, cur + ?step) = ?name" by (simp add: stepName_def)
    from "1.IH" [OF False nd refl refl rec] show ?thesis
      unfolding c list.map n by (simp add: found_Cons split: option.splits)
  qed
qed

lemma chain_direction: "(a, b) \<in> set (chain cur to') \<Longrightarrow> (b < a) = (to' < cur) \<and> (b = a + 1 \<or> b = a - 1)"
proof (induction cur to' rule: chain.induct)
  case (1 cur to')
  show ?case
  proof (cases "cur = to'")
    case True
    with "1.prems" show ?thesis by (simp add: chain.simps)
  next
    case False
    let ?nxt = "if cur > to' then cur - 1 else cur + 1"
    have c: "chain cur to' = (cur, ?nxt) # chain ?nxt to'" using False by (subst chain.simps) (simp add: Let_def)
    show ?thesis
    proof (cases "(a, b) \<in> set (chain ?nxt to')")
      case True
      from "1.IH" [OF False refl True] have "(b < a) = (to' < ?nxt)" "b = a + 1 \<or> b = a - 1" by blast+
      moreover have "chain ?nxt to' \<noteq> []" using True by auto
      then have "?nxt \<noteq> to'" by (auto simp: chain.simps)
      ultimately show ?thesis using False by (auto split: if_splits)
    next
      case False
      with "1.prems" c show ?thesis using \<open>cur \<noteq> to'\<close> by (auto split: if_splits)
    qed
  qed
qed

section \<open>Running a chain\<close>

definition runsStep :: "migEnv \<Rightarrow> string \<Rightarrow> string \<Rightarrow> ent option \<Rightarrow> int \<Rightarrow> int \<Rightarrow> bool" where
  "runsStep env dir p c a b \<longleftrightarrow>
     (\<forall>d. readRepoVersion (me_os env) d dir = Inr a \<longrightarrow>
        (case me_run env p c (b < a) dir d of (ok, d1) \<Rightarrow> readRepoVersion (me_os env) d1 dir = Inr (if ok then b else a)))"

lemma runAll_chain:
  assumes "readRepoVersion (me_os env) (mw_disk w) dir = Inr cur"
    and "\<And>a b. (a, b) \<in> set (chain cur to') \<Longrightarrow> \<exists>p. map_of bins (stepName (a, b)) = Some p \<and> runsStep env dir p (mw_fs w p) a b"
    and "runAll env bins dir (cur > to') (map stepName (chain cur to')) w = (res, w1)"
  shows "\<exists>v. readRepoVersion (me_os env) (mw_disk w1) dir = Inr v \<and> min cur to' \<le> v \<and> v \<le> max cur to' \<and> (res = None \<longrightarrow> v = to')"
  using assms
proof (induction cur to' arbitrary: w rule: chain.induct)
  case (1 cur to')
  show ?case
  proof (cases "cur = to'")
    case True
    with "1.prems" show ?thesis by (auto simp: chain.simps)
  next
    case False
    let ?nxt = "if cur > to' then cur - 1 else cur + 1"
    have c: "chain cur to' = (cur, ?nxt) # chain ?nxt to'" using False by (subst chain.simps) (simp add: Let_def)
    obtain p where p: "map_of bins (stepName (cur, ?nxt)) = Some p" "runsStep env dir p (mw_fs w p) cur ?nxt"
      using "1.prems"(2) [of cur ?nxt] c by auto
    have dir: "(?nxt < cur) = (cur > to')" by simp
    obtain ok d1 where run: "me_run env p (mw_fs w p) (cur > to') dir (mw_disk w) = (ok, d1)" by fastforce
    have v: "readRepoVersion (me_os env) d1 dir = Inr (if ok then ?nxt else cur)"
      using p(2) "1.prems"(1) run unfolding runsStep_def dir by fastforce
    let ?w = "w\<lparr> mw_disk := d1, mw_runs := mw_runs w @ [(p, cur > to')] \<rparr>"
    have step: "runMigration env (case map_of bins (stepName (cur, ?nxt)) of None \<Rightarrow> [] | Some p \<Rightarrow> p) dir (cur > to') w = (ok, ?w)"
      using p(1) run by (simp add: runMigration_def)
    show ?thesis
    proof (cases ok)
      case False
      then have "w1 = ?w \<and> res \<noteq> None"
        using "1.prems"(3) unfolding c list.map runAll.simps step prod.case by auto
      then show ?thesis using v False by (intro exI [of _ cur]) auto
    next
      case True
      have nd: "\<not> cur = to'" using \<open>cur \<noteq> to'\<close> .
      have more: "runAll env bins dir (cur > to') (map stepName (chain ?nxt to')) ?w = (res, w1)"
        using "1.prems"(3) True unfolding c list.map runAll.simps step prod.case by simp
      have ns: "\<And>a b. (a, b) \<in> set (chain ?nxt to') \<Longrightarrow>
          \<exists>p. map_of bins (stepName (a, b)) = Some p \<and> runsStep env dir p (mw_fs ?w p) a b"
        using "1.prems"(2) c by simp
      show ?thesis
      proof (cases "?nxt = to'")
        case e: True
        then have "chain ?nxt to' = []" by (simp add: chain.simps)
        with more have "res = None \<and> w1 = ?w" by simp
        then show ?thesis using v True e by (intro exI [of _ to']) auto
      next
        case ne: False
        then have d2: "(?nxt > to') = (cur > to')" using nd by (auto split: if_splits)
        have "\<exists>v. readRepoVersion (me_os env) (mw_disk w1) dir = Inr v \<and> min ?nxt to' \<le> v \<and> v \<le> max ?nxt to' \<and> (res = None \<longrightarrow> v = to')"
          by (rule "1.IH" [OF nd refl _ ns]) (use v True more d2 in simp_all)
        then show ?thesis using nd by (auto split: if_splits)
      qed
    qed
  qed
qed

section \<open>Downloading a chain\<close>

text \<open>What is at path \<open>p\<close> is a good binary for the migration \<open>m\<close>: a successful run does the step, a failed one leaves the version.\<close>

definition goodFor :: "migEnv \<Rightarrow> string \<Rightarrow> string \<Rightarrow> string \<Rightarrow> ent option \<Rightarrow> bool" where
  "goodFor env dir m p c \<longleftrightarrow> (\<forall>a b. m = stepName (a, b) \<and> (b = a + 1 \<or> b = a - 1) \<longrightarrow> runsStep env dir p c a b)"

text \<open>The binaries in the search path are the migrations they are named after, and so are those in the archives.\<close>

definition honestBinaries :: "migEnv \<Rightarrow> string \<Rightarrow> bool" where
  "honestBinaries env dir \<longleftrightarrow>
     (\<forall>m p c. me_LookPath env m = Some p \<longrightarrow> goodFor env dir m p c) \<and>
     (\<forall>m p bytes c. archiveMember (me_bin env) bytes (pathJoin [[], m]) (ExeName (me_bin env) m) = Some c \<longrightarrow>
        goodFor env dir m p (Some (EFile c True)))"

text \<open>A new temporary directory is not one that a binary is about to be written to.\<close>

definition tmpApart :: "migEnv \<Rightarrow> bool" where
  "tmpApart env \<longleftrightarrow> freshTmp (me_bin env) \<and>
     (\<forall>fs0 destDir n fs t x. me_MkdirTemp env fs0 = Some destDir \<longrightarrow> be_tmpName (me_bin env) n fs = Some t \<longrightarrow>
        \<not> inDir t (pathJoin [destDir, x]))"

lemma last_decInt: "CHR ''/'' \<notin> set (decInt i) \<and> decInt i \<noteq> [] \<and> isDigit (last (decInt i))"
proof -
  have n: "CHR ''/'' \<notin> set (decNat k)" "isDigit (last (decNat k))" for k
  proof -
    have "list_all isDigit (decNat k)" by simp
    moreover have "\<not> isDigit CHR ''/''" by (simp add: isDigit_def)
    ultimately show "CHR ''/'' \<notin> set (decNat k)" "isDigit (last (decNat k))" by (auto simp: list_all_iff)
  qed
  show ?thesis by (simp add: decInt_def n)
qed

lemma stepName_form: "\<exists>x y. stepName ab = ''fs-repo-'' @ decInt x @ ''-to-'' @ decInt y"
proof -
  obtain a b where ab: "ab = (a, b)" by fastforce
  show ?thesis unfolding ab stepName_def migrationName_def prod.case by (cases "b < a") (simp_all, blast+)
qed

lemma last_binary_path: "last (pathJoin [destDir, ExeName b (stepName ab)]) \<notin> {CHR ''z'', CHR ''p''}"
proof -
  obtain x y where s: "stepName ab = ''fs-repo-'' @ decInt x @ ''-to-'' @ decInt y"
    using stepName_form [of ab] by blast
  let ?v = "''-to-'' @ decInt y @ (if be_GOOS b = ''windows'' then ''.exe'' else [])"
  have "CHR ''/'' \<notin> set ?v" "length ?v > 2" using last_decInt [of y] by simp_all
  moreover have "ExeName b (stepName ab) = (''fs-repo-'' @ decInt x) @ ?v" by (simp add: ExeName_def s)
  ultimately have l: "last (pathJoin [destDir, ExeName b (stepName ab)]) = last ?v" by (metis pathJoin_ends)
  have "\<not> isDigit CHR ''z''" "\<not> isDigit CHR ''p''" by (simp_all add: isDigit_def)
  moreover have "last ?v = (if be_GOOS b = ''windows'' then CHR ''e'' else last (decInt y))" using last_decInt [of y] by simp
  ultimately show ?thesis unfolding l using last_decInt [of y] by auto
qed

definition isStep :: "string \<Rightarrow> bool" where
  "isStep m \<longleftrightarrow> (\<exists>ab. m = stepName ab)"

lemma fetchOne_facts:
  assumes fo: "fetchOne env sv f destDir m (fs, tr) = (loc, fs1, tr1)"
    and apart: "tmpApart env" "me_MkdirTemp env fs0 = Some destDir" and m: "isStep m" and d: "fs destDir = Some EDir"
  shows "fs q = Some c \<Longrightarrow> c = EDir \<or> last q \<notin> {CHR ''z'', CHR ''p''} \<Longrightarrow> fs1 q = Some c"
    and "loc = Some p \<Longrightarrow> last p \<notin> {CHR ''z'', CHR ''p''} \<and> (\<exists>bytes c.
      archiveMember (me_bin env) bytes (pathJoin [[], m]) (ExeName (me_bin env) m) = Some c \<and> fs1 p = Some (EFile c True))"
proof -
  have fresh: "freshTmp (me_bin env)" using apart(1) by (simp add: tmpApart_def)
  have ne: "m \<noteq> []" using m stepName_form unfolding isStep_def by (metis append_is_Nil_conv list.distinct(1))
  obtain lv t0 where lv: "LatestDistVersion (me_net env) sv f (pathJoin [[], m]) False tr = (lv, t0)" by fastforce
  note un = fo [unfolded fetchOne_def Let_def fst_conv snd_conv lv prod.case]
  have "(\<forall>q c. fs q = Some c \<longrightarrow> c = EDir \<or> last q \<notin> {CHR ''z'', CHR ''p''} \<longrightarrow> fs1 q = Some c) \<and>
    (loc = Some p \<longrightarrow> last p \<notin> {CHR ''z'', CHR ''p''} \<and> (\<exists>bytes c.
      archiveMember (me_bin env) bytes (pathJoin [[], m]) (ExeName (me_bin env) m) = Some c \<and> fs1 p = Some (EFile c True)))"
  proof (cases lv)
    case (Inl err)
    with un show ?thesis by auto
  next
    case (Inr ver)
    obtain r f2 t2 where fb: "FetchBinary (me_bin env) (me_net env) f (pathJoin [[], m]) ver m destDir (fs, t0) = (r, f2, t2)"
      by (metis prod.collapse)
    have w: "fs1 = f2" "loc = (case r of Inl _ \<Rightarrow> None | Inr l \<Rightarrow> Some l)" using un Inr fb by (auto split: sum.splits)
    have keep: "\<forall>q c. fs q = Some c \<longrightarrow> c = EDir \<or> last q \<notin> {CHR ''z'', CHR ''p''} \<longrightarrow> fs1 q = Some c"
      using FetchBinary_keeps [OF fb fresh] w by blast
    have "last p \<notin> {CHR ''z'', CHR ''p''} \<and> (\<exists>bytes c.
      archiveMember (me_bin env) bytes (pathJoin [[], m]) (ExeName (me_bin env) m) = Some c \<and> fs1 p = Some (EFile c True))"
      if "loc = Some p"
    proof -
      have "r = Inr p" using that w by (cases r) auto
      from FetchBinary_installs [OF fb [unfolded this]] obtain tmp temporary bytes c where
        i: "binaryDest (me_bin env) (ExeName (me_bin env) m) destDir fs = Inr p"
          "downloadDir (me_bin env) (pathBase (pathJoin [[], m])) fs = Inr (tmp, temporary)"
          "archiveMember (me_bin env) bytes (pathJoin [[], m]) (ExeName (me_bin env) m) = Some c"
          "\<not> (temporary \<and> inDir tmp p) \<longrightarrow> f2 p = Some (EFile c True)" using ne by auto
      have p: "p = pathJoin [destDir, ExeName (me_bin env) m]" using binaryDest_free [OF i(1)] d by auto
      have "\<not> (temporary \<and> inDir tmp p)"
        using downloadDir_cases [OF i(2)] apart unfolding p tmpApart_def by (metis (full_types))
      moreover have "last p \<notin> {CHR ''z'', CHR ''p''}" using last_binary_path m unfolding p isStep_def by metis
      ultimately show ?thesis using i(3,4) w by blast
    qed
    with keep show ?thesis by blast
  qed
  then show "fs q = Some c \<Longrightarrow> c = EDir \<or> last q \<notin> {CHR ''z'', CHR ''p''} \<Longrightarrow> fs1 q = Some c"
    and "loc = Some p \<Longrightarrow> last p \<notin> {CHR ''z'', CHR ''p''} \<and> (\<exists>bytes c.
      archiveMember (me_bin env) bytes (pathJoin [[], m]) (ExeName (me_bin env) m) = Some c \<and> fs1 p = Some (EFile c True))"
    by blast+
qed

text \<open>Every path left behind by a goroutine holds a member of an archive of its migration.\<close>

definition fetchedOk :: "migEnv \<Rightarrow> string list \<Rightarrow> (nat \<Rightarrow> string option) \<Rightarrow> fsys \<Rightarrow> bool" where
  "fetchedOk env needed bins fs \<longleftrightarrow> (\<forall>i p. i < length needed \<longrightarrow> bins i = Some p \<longrightarrow>
     last p \<notin> {CHR ''z'', CHR ''p''} \<and> (\<exists>bytes c.
       archiveMember (me_bin env) bytes (pathJoin [[], needed ! i]) (ExeName (me_bin env) (needed ! i)) = Some c \<and>
       fs p = Some (EFile c True)))"

lemma fetchAll_ok:
  assumes "fetchAll env sv f needed destDir is bins (fs, tr) = (bins1, fs1, tr1)"
    and "tmpApart env" "me_MkdirTemp env fs0 = Some destDir" and "\<forall>m \<in> set needed. isStep m"
    and "fs destDir = Some EDir" and "fetchedOk env needed bins fs" and "set is \<subseteq> {..<length needed}"
  shows "fetchedOk env needed bins1 fs1"
  using assms
proof (induction "is" arbitrary: bins fs tr)
  case (Cons i "is")
  obtain loc f1 t1 where fo: "fetchOne env sv f destDir (needed ! i) (fs, tr) = (loc, f1, t1)" by (metis prod.collapse)
  have m: "isStep (needed ! i)" using Cons.prems(4,7) by (simp add: nth_mem)
  note facts = fetchOne_facts [OF fo Cons.prems(2,3) m Cons.prems(5)]
  have rest: "fetchAll env sv f needed destDir is (bins(i := loc)) (f1, t1) = (bins1, fs1, tr1)"
    using Cons.prems(1) fo by simp
  have d: "f1 destDir = Some EDir" using facts(1) [OF Cons.prems(5)] by simp
  have "fetchedOk env needed (bins(i := loc)) f1"
    unfolding fetchedOk_def
  proof (intro allI impI)
    fix j p
    assume j: "j < length needed" and p: "(bins(i := loc)) j = Some p"
    show "last p \<notin> {CHR ''z'', CHR ''p''} \<and> (\<exists>bytes c.
       archiveMember (me_bin env) bytes (pathJoin [[], needed ! j]) (ExeName (me_bin env) (needed ! j)) = Some c \<and>
       f1 p = Some (EFile c True))"
    proof (cases "j = i")
      case True
      then show ?thesis using facts(2) p by simp
    next
      case False
      then have "bins j = Some p" using p by simp
      then show ?thesis using Cons.prems(6) j facts(1) unfolding fetchedOk_def by blast
    qed
  qed
  from Cons.IH [OF rest Cons.prems(2,3,4) d this] Cons.prems(7) show ?case by simp
qed simp

section \<open>The whole run\<close>

lemma found_lookup: "map_of (found look ms) m = (if m \<in> set ms then look m else None)"
  by (induction ms) (auto simp: found_Cons found_def map_filter_simps split: option.splits)

lemma found_length: "length (found look ms) \<le> length ms \<and> (length (found look ms) = length ms \<longrightarrow> (\<forall>m \<in> set ms. look m \<noteq> None))"
  by (induction ms) (auto simp: found_Cons found_def map_filter_simps split: option.splits)

text \<open>The order in which the goroutines run is a list of their numbers.\<close>

definition orderOk :: "migEnv \<Rightarrow> bool" where
  "orderOk env \<longleftrightarrow> (\<forall>n. set (me_order env n) \<subseteq> {..<n})"

lemma fetchMigrations_ok:
  assumes fm: "fetchMigrations env sv f needed destDir (fs, tr) = (Inr fetched, fs1, tr1)"
    and apart: "tmpApart env" "me_MkdirTemp env fs0 = Some destDir" and m: "\<forall>m \<in> set needed. isStep m"
    and d: "fs destDir = Some EDir" and o: "orderOk env" and i: "i < length needed"
  shows "length fetched = length needed \<and> (\<exists>bytes c.
    archiveMember (me_bin env) bytes (pathJoin [[], needed ! i]) (ExeName (me_bin env) (needed ! i)) = Some c \<and>
    fs1 (fetched ! i) = Some (EFile c True))"
proof -
  obtain bins f1 t1 where fa: "fetchAll env sv f needed destDir (me_order env (length needed)) Map.empty (fs, tr) = (bins, f1, t1)"
    by (metis prod.collapse)
  let ?missing = "\<lambda>i. case bins i of None \<Rightarrow> True | Some loc \<Rightarrow> loc = []"
  have r: "filter ?missing [0..<length needed] = []" "fetched = map (\<lambda>i. the (bins i)) [0..<length needed]" "fs1 = f1"
    using fm fa by (auto simp: fetchMigrations_def Let_def split: option.splits if_splits)
  have "fetchedOk env needed bins f1"
    by (rule fetchAll_ok [OF fa apart m d]) (use o in \<open>auto simp: fetchedOk_def orderOk_def\<close>)
  moreover have "\<not> ?missing i" using r(1) i by (simp add: filter_empty_conv)
  then have "bins i = Some (the (bins i))" by (auto split: option.splits)
  ultimately show ?thesis using r i unfolding fetchedOk_def by auto
qed

lemma getMissing_ok:
  assumes gm: "getMissing env sv f ms (found (me_LookPath env) ms) w = (Inr paths, tmp, w1)"
    and h: "honestBinaries env dir" "tmpApart env" "orderOk env" and m: "\<forall>m \<in> set ms. isStep m"
  shows "mw_disk w1 = mw_disk w \<and> (\<forall>m \<in> set ms. \<exists>p. map_of paths m = Some p \<and> goodFor env dir m p (mw_fs w1 p))"
proof (cases "length (found (me_LookPath env) ms) < length ms")
  case False
  then have all: "\<forall>m \<in> set ms. me_LookPath env m \<noteq> None" using found_length [of "me_LookPath env" ms] by simp
  have "paths = found (me_LookPath env) ms" "w1 = w" using gm False by (simp_all add: getMissing_def)
  with all h(1) show ?thesis unfolding honestBinaries_def by (auto simp: found_lookup)
next
  case True
  let ?missing = "filter (\<lambda>m. map_of (found (me_LookPath env) ms) m = None) ms"
  obtain tmpDir where t: "me_MkdirTemp env (mw_fs w) = Some tmpDir"
    using gm True by (cases "me_MkdirTemp env (mw_fs w)") (auto simp: getMissing_def)
  obtain r fs1 tr1 where fm: "fetchMigrations env sv f ?missing tmpDir ((mw_fs w)(tmpDir \<mapsto> EDir), mw_reqs w) = (r, fs1, tr1)"
    by (metis prod.collapse)
  obtain fetched where r: "r = Inr fetched"
    using gm True t fm by (cases r) (auto simp: getMissing_def Let_def)
  have res: "paths = found (me_LookPath env) ms @ zip ?missing fetched" "w1 = w\<lparr> mw_fs := fs1, mw_reqs := tr1 \<rparr>"
    using gm True t fm r by (auto simp: getMissing_def Let_def)
  have steps: "\<forall>m \<in> set ?missing. isStep m" using m by simp
  note ok = fetchMigrations_ok [OF fm [unfolded r] h(2) t steps _ h(3)]
  have "\<exists>p. map_of paths x = Some p \<and> goodFor env dir x p (mw_fs w1 p)" if x: "x \<in> set ms" for x
  proof (cases "map_of (found (me_LookPath env) ms) x")
    case (Some p)
    then have "me_LookPath env x = Some p" by (simp add: found_lookup split: if_splits)
    then show ?thesis using Some h(1) unfolding honestBinaries_def res by simp
  next
    case None
    then have xm: "x \<in> set ?missing" using x by simp
    then obtain k where "k < length ?missing" "?missing ! k = x" by (metis in_set_conv_nth)
    then have len: "length fetched = length ?missing" using ok [of k] by simp
    then obtain p where p: "map_of (zip ?missing fetched) x = Some p"
      using xm map_of_zip_is_Some [of ?missing fetched x] by auto
    then have "(x, p) \<in> set (zip ?missing fetched)" by (rule map_of_SomeD)
    then obtain i where i: "i < length ?missing" "?missing ! i = x" "fetched ! i = p"
      by (auto simp: set_zip)
    then obtain bytes c where "archiveMember (me_bin env) bytes (pathJoin [[], x]) (ExeName (me_bin env) x) = Some c"
      "fs1 p = Some (EFile c True)" using ok [of i] by auto
    then have "goodFor env dir x p (fs1 p)" using h(1) unfolding honestBinaries_def by metis
    then show ?thesis using p None res by (simp add: map_add_def)
  qed
  then show ?thesis using res(2) by simp
qed

text \<open>
  C4. Migrating is safe and complete.  If the binaries in the search path and in the archives are the
  migrations they are named after, then \<open>RunMigration\<close> from any version reports success only with the
  repository at the target version; when it fails, for whatever reason, the repository is at a version
  between the two; and a downgrade that is not allowed changes nothing.
\<close>

theorem migration_reaches_target:
  assumes dir: "CheckIpfsDir (me_os env) dir0 = Inr dir"
    and ver: "readRepoVersion (me_os env) (mw_disk w) dir = Inr from"
    and env: "honestBinaries env dir" "tmpApart env" "orderOk env"
  shows "case RunMigration env sv fetcher target dir0 allow w of (res, w1) \<Rightarrow>
    (from > target \<and> \<not> allow \<longrightarrow> res \<noteq> None \<and> w1 = w) \<and>
    (\<exists>v. readRepoVersion (me_os env) (mw_disk w1) dir = Inr v \<and> min from target \<le> v \<and> v \<le> max from target \<and>
         (res = None \<longrightarrow> v = target))"
proof -
  consider (same) "from = target" | (down) "from > target" "\<not> allow"
    | (ctx) "from \<noteq> target" "from > target \<longrightarrow> allow" "findMigrations env from target = None"
    | (go) ms bs where "from \<noteq> target" "from > target \<longrightarrow> allow" "findMigrations env from target = Some (ms, bs)"
    by (metis option.exhaust prod.exhaust)
  then show ?thesis
  proof cases
    case go
    have ms: "ms = map stepName (chain from target)" "bs = found (me_LookPath env) ms"
      using findLoop_chain [OF go(3) [unfolded findMigrations_def]] by simp_all
    obtain got tmp w0 where gm: "getMissing env sv fetcher ms bs w = (got, tmp, w0)" by (metis prod.collapse)
    show ?thesis
    proof (cases got)
      case (Inl err)
      have "mw_disk w0 = mw_disk w"
        using gm Inl by (auto simp: getMissing_def Let_def split: if_splits option.splits prod.splits sum.splits)
      with dir ver go gm Inl show ?thesis
        by (auto simp: RunMigration_def split: option.splits)
    next
      case (Inr paths)
      have steps: "\<forall>m \<in> set ms. isStep m" by (auto simp: ms(1) isStep_def)
      have g: "mw_disk w0 = mw_disk w" "\<forall>m \<in> set ms. \<exists>p. map_of paths m = Some p \<and> goodFor env dir m p (mw_fs w0 p)"
        using getMissing_ok [OF gm [unfolded Inr ms(2)] env steps] by blast+
      obtain res w2 where run: "runAll env paths dir (from > target) ms w0 = (res, w2)" by fastforce
      have "\<exists>v. readRepoVersion (me_os env) (mw_disk w2) dir = Inr v \<and> min from target \<le> v \<and> v \<le> max from target \<and> (res = None \<longrightarrow> v = target)"
      proof (rule runAll_chain [OF _ _ run [unfolded ms(1)]])
        show "readRepoVersion (me_os env) (mw_disk w0) dir = Inr from" using ver g(1) by simp
        fix a b assume ab: "(a, b) \<in> set (chain from target)"
        then have "stepName (a, b) \<in> set ms" by (auto simp: ms(1))
        with g(2) obtain p where "map_of paths (stepName (a, b)) = Some p" "goodFor env dir (stepName (a, b)) p (mw_fs w0 p)" by blast
        then show "\<exists>p. map_of paths (stepName (a, b)) = Some p \<and> runsStep env dir p (mw_fs w0 p) a b"
          using chain_direction [OF ab] unfolding goodFor_def by blast
      qed
      with dir ver go gm Inr run show ?thesis
        by (auto simp: RunMigration_def split: option.splits)
    qed
  qed (use dir ver in \<open>auto simp: RunMigration_def\<close>)
qed

section \<open>A run\<close>

definition calmOs :: fsEnv where
  "calmOs = \<lparr> env_IPFS_PATH = [], homedir_Expand = Inr, homedir_Dir = Inr ''/home/u'', failStat = (\<lambda>_. False),
     failRead = (\<lambda>_. False), failMkdir = (\<lambda>_. False), failCreate = (\<lambda>_. False), failClose = (\<lambda>_. False),
     failRename = (\<lambda>_. False), failRemove = (\<lambda>_. False), cutWrite = (\<lambda>_. None) \<rparr>"

text \<open>A migration program that rewrites the version file, or fails when the version would leave its range.\<close>

definition bumpVersion :: "string \<Rightarrow> ent option \<Rightarrow> bool \<Rightarrow> string \<Rightarrow> disk \<Rightarrow> bool \<times> disk" where
  "bumpVersion p c revert dir d =
     (case readRepoVersion calmOs d dir of
        Inl err \<Rightarrow> (False, d)
      | Inr v \<Rightarrow>
          let v' = (if revert then v - 1 else v + 1) in
          if 0 \<le> v' \<and> v' < 2 ^ 63 then (True, d(pathJoin [dir, ''version''] \<mapsto> TextFile (decInt v' @ [char_of (10 :: nat)])))
          else (False, d))"

definition migBin :: binEnv where
  "migBin = dlEnv\<lparr> be_untar := (\<lambda>bytes. Some ([(''fs-repo-12-to-13/fs-repo-12-to-13'', bytes)], False)) \<rparr>"

definition migDemo :: migEnv where
  "migDemo = \<lparr> me_os = calmOs, me_bin = migBin, me_net = downNet\<lparr> ne_http := (\<lambda>_ _. Answer 200 ''v1.0.0'' False) \<rparr>,
     me_ctxDone = (\<lambda>_. False), me_LookPath = (\<lambda>m. if m = ''fs-repo-11-to-12'' then Some ''/bin/m11'' else None),
     me_MkdirTemp = (\<lambda>_. Some ''/tmp''), me_order = (\<lambda>n. rev [0..<n]), me_run = bumpVersion \<rparr>"

lemma calm_readRepoVersion: "readRepoVersion calmOs d dir = repoVersion calmOs d (if dir = [] then ''/home/u/.ipfs'' else dir)"
proof -
  have "pathJoin [''/home/u'', ''.ipfs''] = ''/home/u/.ipfs''" by code_simp
  then show ?thesis by (simp add: readRepoVersion_def CheckIpfsDir_def IpfsDir_def calmOs_def Let_def)
qed

lemma bumpVersion_good: "b = a + 1 \<or> b = a - 1 \<Longrightarrow> dir \<noteq> [] \<Longrightarrow> runsStep migDemo dir p c a b"
  by (auto simp: runsStep_def migDemo_def bumpVersion_def calm_readRepoVersion Let_def intro!: repoVersion_written)
     (simp_all add: calmOs_def)

abbreviation demoNet :: netEnv where
  "demoNet \<equiv> downNet\<lparr> ne_http := (\<lambda>_ _. Answer 200 ''v1.0.0'' False) \<rparr>"

lemma demo_fields [simp]: "me_os migDemo = calmOs" "me_bin migDemo = migBin" "me_net migDemo = demoNet"
    "me_MkdirTemp migDemo fs = Some ''/tmp''" "me_order migDemo n = rev [0..<n]" "me_run migDemo = bumpVersion"
  by (simp_all add: migDemo_def)

lemma demo_find: "findMigrations migDemo 11 13 =
    Some ([''fs-repo-11-to-12'', ''fs-repo-12-to-13''], [(''fs-repo-11-to-12'', ''/bin/m11'')])"
proof -
  have n: "migrationName 11 12 = ''fs-repo-11-to-12''" "migrationName 12 13 = ''fs-repo-12-to-13''" by code_simp+
  show ?thesis by (simp add: findMigrations_def findLoop.simps migDemo_def n Let_def)
qed

lemma scan_one:
  "char_of (10 :: nat) \<notin> set s \<Longrightarrow> s \<noteq> [] \<Longrightarrow> last s \<noteq> char_of (13 :: nat) \<Longrightarrow> length s < 65536 \<Longrightarrow> scanLines s = Some [s]"
  by (simp add: scanLines_def splitc_no_sep dropCR_def Let_def)

lemma demo_fetch: "Fetch demoNet aFetcher p tr = (Inr ''v1.0.0'', tr @ [HttpGet (''https://gw'' @ pathJoin [''/d'', p]) []])"
  by (simp add: downNet_def httpFetch_def readLimited_def Let_def)

lemma demo_latest: "\<exists>tr1. LatestDistVersion demoNet textVersions aFetcher dist False tr = (Inr ''v1.0.0'', tr1)"
proof -
  have "char_of (10 :: nat) \<notin> set ''v1.0.0''" "last ''v1.0.0'' \<noteq> char_of (13 :: nat)" by code_simp+
  then have s: "scanLines ''v1.0.0'' = Some [''v1.0.0'']" by (intro scan_one) simp_all
  show ?thesis
    unfolding LatestDistVersion_def DistVersions_def demo_fetch prod.case sum.case s option.case Let_def
    by (simp add: textVersions_def List.map_filter_def goSort_def)
qed

lemma demo_binary:
  assumes "fs ''/dl'' = Some EDir" "fs ''/tmp'' = Some EDir" "fs ''/tmp/fs-repo-12-to-13'' = None"
    "fs ''/dl/fs-repo-12-to-13_v1.0.0_linux-amd64.tar.gz'' = None"
  shows "\<exists>w1. FetchBinary migBin demoNet aFetcher ''fs-repo-12-to-13'' ''v1.0.0'' ''fs-repo-12-to-13'' ''/tmp'' (fs, tr) =
    (Inr ''/tmp/fs-repo-12-to-13'', w1)"
proof -
  have p: "pathBase ''fs-repo-12-to-13'' = ''fs-repo-12-to-13''" "pathJoin [''/tmp'', ''fs-repo-12-to-13''] = ''/tmp/fs-repo-12-to-13''"
    "pathJoin [''/dl'', ''fs-repo-12-to-13_v1.0.0_linux-amd64.tar.gz''] = ''/dl/fs-repo-12-to-13_v1.0.0_linux-amd64.tar.gz''"
    by code_simp+
  have f: "be_failStat migBin x = False" "be_GOOS migBin = ''linux''" "be_GOARCH migBin = ''amd64''" "be_DownloadDirectory migBin = ''/dl''"
    "be_failCreate migBin x = False" "be_cutWrite migBin x = None" "be_failChmod migBin x = False"
    "be_untar migBin y = Some ([(''fs-repo-12-to-13/fs-repo-12-to-13'', y)], False)" for x y
    by (simp_all add: migBin_def dlEnv_def)
  have e: "ExeName migBin ''fs-repo-12-to-13'' = ''fs-repo-12-to-13''" by (simp add: ExeName_def f)
  have bd: "binaryDest migBin ''fs-repo-12-to-13'' ''/tmp'' fs = Inr ''/tmp/fs-repo-12-to-13''"
    using assms by (simp add: binaryDest_def f p Let_def)
  have dd: "downloadDir migBin ''fs-repo-12-to-13'' fs = Inr (''/dl'', False)"
    using assms by (simp add: downloadDir_def f Let_def)
  have ap: "makeArchivePath migBin ''fs-repo-12-to-13'' ''fs-repo-12-to-13'' ''v1.0.0'' ''tar.gz'' =
    (''fs-repo-12-to-13/v1.0.0/fs-repo-12-to-13_v1.0.0_linux-amd64.tar.gz'', ''fs-repo-12-to-13_v1.0.0_linux-amd64.tar.gz'')"
    by (simp add: makeArchivePath_def f Let_def)
  have "\<exists>w1. downloadTo migBin demoNet aFetcher ''fs-repo-12-to-13'' ''v1.0.0'' ''fs-repo-12-to-13'' ''fs-repo-12-to-13''
      ''/tmp/fs-repo-12-to-13'' ''/dl'' (fs, tr) = (Inr ''/tmp/fs-repo-12-to-13'', w1)"
    using assms unfolding downloadTo_def f ap prod.case Let_def demo_fetch
    by (simp add: ap p f createFile_def writeFile_def unpackArchive_def unpackTgz_def archiveBytes_def writeToPath_def)
  then show ?thesis by (auto simp: FetchBinary_def p e bd dd Let_def)
qed

lemma demo_version: "readRepoVersion calmOs [''/r/version'' \<mapsto> TextFile ''11''] ''/r'' = Inr 11"
proof -
  have v: "pathJoin [''/r'', ''version''] = ''/r/version''" by code_simp
  have "atoi ''11'' = Some 11" "trimBy isSpaceASCII ''11'' = ''11''" by code_simp+
  moreover have "failRead calmOs x = False" for x by (simp add: calmOs_def)
  ultimately show ?thesis by (simp add: calm_readRepoVersion repoVersion_def osReadFile_def v)
qed

lemma bumpVersion_up:
  assumes "readRepoVersion calmOs d dir = Inr v" "0 \<le> v" "v < 2 ^ 62" "dir \<noteq> []"
  shows "\<exists>d1. bumpVersion p c False dir d = (True, d1) \<and> readRepoVersion calmOs d1 dir = Inr (v + 1)"
proof -
  have "v + 1 < 2 ^ 63" using assms(3) by simp
  then show ?thesis using assms
    by (auto simp: bumpVersion_def Let_def calm_readRepoVersion intro!: repoVersion_written) (simp_all add: calmOs_def)
qed

theorem migration_reaches_target_witness:
  "\<exists>w1. RunMigration migDemo textVersions aFetcher 13 ''/r'' False
      \<lparr> mw_disk = [''/r/version'' \<mapsto> TextFile ''11''], mw_fs = [''/dl'' \<mapsto> EDir], mw_reqs = [], mw_runs = [] \<rparr> = (None, w1) \<and>
    readRepoVersion calmOs (mw_disk w1) ''/r'' = Inr 13"
proof -
  let ?w = "\<lparr> mw_disk = [''/r/version'' \<mapsto> TextFile ''11''], mw_fs = [''/dl'' \<mapsto> EDir], mw_reqs = [], mw_runs = [] \<rparr>"
  have h: "honestBinaries migDemo ''/r''" by (auto simp: honestBinaries_def goodFor_def intro: bumpVersion_good)
  have a: "tmpApart migDemo" by (simp add: tmpApart_def freshTmp_def migBin_def dlEnv_def)
  have o: "orderOk migDemo" by (auto simp: orderOk_def)
  have d: "CheckIpfsDir (me_os migDemo) ''/r'' = Inr ''/r''" by (simp add: CheckIpfsDir_def IpfsDir_def calmOs_def)
  have r: "readRepoVersion (me_os migDemo) (mw_disk ?w) ''/r'' = Inr 11" using demo_version by simp
  obtain tr1 where lv: "LatestDistVersion demoNet textVersions aFetcher ''fs-repo-12-to-13'' False [] = (Inr ''v1.0.0'', tr1)"
    using demo_latest by blast
  obtain fs1 tr2 where fb: "FetchBinary migBin demoNet aFetcher ''fs-repo-12-to-13'' ''v1.0.0'' ''fs-repo-12-to-13'' ''/tmp''
      ((mw_fs ?w)(''/tmp'' \<mapsto> EDir), tr1) = (Inr ''/tmp/fs-repo-12-to-13'', fs1, tr2)"
    using demo_binary [of "(mw_fs ?w)(''/tmp'' \<mapsto> EDir)" tr1] by auto
  have "char_of (10 :: nat) \<notin> set ''GNU libc''" "last ''GNU libc'' \<noteq> char_of (13 :: nat)" by code_simp+
  then have "scanLines ''GNU libc'' = Some [''GNU libc'']" by (intro scan_one) simp_all
  then have osv: "osWithVariant migBin = Some ''linux''" by (simp add: osWithVariant_def migBin_def dlEnv_def)
  have pj: "pathJoin [[], ''fs-repo-12-to-13''] = ''fs-repo-12-to-13''" by code_simp
  have gm: "getMissing migDemo textVersions aFetcher [''fs-repo-11-to-12'', ''fs-repo-12-to-13''] [(''fs-repo-11-to-12'', ''/bin/m11'')] ?w =
      (Inr [(''fs-repo-11-to-12'', ''/bin/m11''), (''fs-repo-12-to-13'', ''/tmp/fs-repo-12-to-13'')], Some ''/tmp'',
       ?w\<lparr> mw_fs := fs1, mw_reqs := tr2 \<rparr>)"
    using fb lv by (simp add: getMissing_def fetchMigrations_def osv fetchOne_def pj Let_def)
  obtain d1 where d1: "bumpVersion ''/bin/m11'' (fs1 ''/bin/m11'') False ''/r'' [''/r/version'' \<mapsto> TextFile ''11''] = (True, d1)"
    "readRepoVersion calmOs d1 ''/r'' = Inr 12" using bumpVersion_up [OF demo_version] by fastforce
  obtain d2 where d2: "bumpVersion ''/tmp/fs-repo-12-to-13'' (fs1 ''/tmp/fs-repo-12-to-13'') False ''/r'' d1 = (True, d2)"
    using bumpVersion_up [OF d1(2)] by fastforce
  have ok: "fst (RunMigration migDemo textVersions aFetcher 13 ''/r'' False ?w) = None"
    using d r gm d1(1) d2 by (simp add: RunMigration_def demo_find runMigration_def)
  obtain res w1 where run: "RunMigration migDemo textVersions aFetcher 13 ''/r'' False ?w = (res, w1)" by fastforce
  from migration_reaches_target [OF d r h a o, where sv = textVersions and fetcher = aFetcher and target = 13 and allow = False] run ok
  show ?thesis by auto
qed

end
