(* ===== verification/Refs.thy ===== *)
theory Refs
  imports GoPrelude
begin

text \<open>
  Listing the references of objects: \<^verbatim>\<open>core/commands/refs.go\<close>.

  \<^item> CIDs are any type \<open>'c\<close>; \<open>re_Get\<close> is the node getter, the links of a node or an error, and
    \<open>re_fails\<close> tells whether writing the n-th line fails (the context or the emitter).
  \<^item> The recursion follows links, and a getter is any function: \<open>fuel\<close> bounds its depth.  Links between
    content-addressed nodes have no cycles (\<open>ranked\<close>), and fuel above the rank is never used up.
\<close>

section \<open>The writer\<close>

datatype 'c ref_err = GetFailed 'c | WriteFailed | OutOfFuel | FormatWithEdges | ResolveFailed string

datatype 'c refLine = RefEdge (edgeFrom: 'c) (edgeTo: 'c) (edgeText: string) | RefError "'c ref_err"

record 'c refEnv =
  re_Get :: "'c \<Rightarrow> (string \<times> 'c) list option"
  re_enc :: "'c \<Rightarrow> string"
  re_fails :: "nat \<Rightarrow> bool"

record 'c RefWriter =
  rw_Unique :: bool
  rw_MaxDepth :: int
  rw_PrintFmt :: string
  rw_seen :: "'c \<Rightarrow> int option"
  rw_res :: "'c refLine list"

text \<open>\<^verbatim>\<open>visit\<close>: whether to go deeper and whether to write.\<close>

definition visit :: "'c \<Rightarrow> int \<Rightarrow> 'c RefWriter \<Rightarrow> (bool \<times> bool) \<times> 'c RefWriter" where
  "visit c depth rw =
     (let atMaxDepth = rw_MaxDepth rw \<ge> 0 \<and> depth = rw_MaxDepth rw;
          overMaxDepth = rw_MaxDepth rw \<ge> 0 \<and> depth > rw_MaxDepth rw
      in if overMaxDepth then ((False, False), rw)
      else if \<not> rw_Unique rw then ((\<not> atMaxDepth, True), rw)
      else case rw_seen rw c of
        Some oldDepth \<Rightarrow>
          if rw_MaxDepth rw < 0 \<or> oldDepth \<le> depth then ((False, False), rw)
          else ((\<not> atMaxDepth, False), rw\<lparr> rw_seen := (rw_seen rw)(c \<mapsto> depth) \<rparr>)
      | None \<Rightarrow> ((\<not> atMaxDepth, True), rw\<lparr> rw_seen := (rw_seen rw)(c \<mapsto> depth) \<rparr>))"

definition edgeString :: "'c refEnv \<Rightarrow> string \<Rightarrow> 'c \<Rightarrow> 'c \<Rightarrow> string \<Rightarrow> string" where
  "edgeString e fmt from to' linkname =
     (if fmt \<noteq> [] then
        replaceAll (replaceAll (replaceAll fmt ''<src>'' (re_enc e from)) ''<dst>'' (re_enc e to')) ''<linkname>'' linkname
      else re_enc e to')"

definition WriteEdge :: "'c refEnv \<Rightarrow> 'c \<Rightarrow> 'c \<Rightarrow> string \<Rightarrow> 'c RefWriter \<Rightarrow> 'c ref_err option \<times> 'c RefWriter" where
  "WriteEdge e from to' linkname rw =
     (if re_fails e (length (rw_res rw)) then (Some WriteFailed, rw)
      else (None, rw\<lparr> rw_res := rw_res rw @ [RefEdge from to' (edgeString e (rw_PrintFmt rw) from to' linkname)] \<rparr>))"

text \<open>\<^verbatim>\<open>writeRefsRecursive\<close> on the node \<open>nc\<close>, from the links that are left.\<close>

fun refsLoop :: "nat \<Rightarrow> 'c refEnv \<Rightarrow> 'c \<Rightarrow> (string \<times> 'c) list \<Rightarrow> int \<Rightarrow> nat \<Rightarrow> 'c RefWriter \<Rightarrow>
    (nat \<times> 'c ref_err option) \<times> 'c RefWriter" where
  "refsLoop fuel e nc [] depth count rw = ((count, None), rw)"
| "refsLoop fuel e nc ((name, lc) # links) depth count rw =
     (case visit lc (depth + 1) rw of
        ((goDeeper, shouldWrite), rw1) \<Rightarrow>
          if \<not> shouldWrite \<and> \<not> goDeeper then refsLoop fuel e nc links depth count rw1
          else case re_Get e lc of
            None \<Rightarrow> ((count, Some (GetFailed lc)), rw1)
          | Some nd \<Rightarrow>
              (case (if shouldWrite then WriteEdge e nc lc name rw1 else (None, rw1)) of
                 (Some err, rw2) \<Rightarrow> ((count, Some err), rw2)
               | (None, rw2) \<Rightarrow>
                   let count1 = (if shouldWrite then count + 1 else count) in
                   if goDeeper then
                     (case fuel of
                        0 \<Rightarrow> ((count1, Some OutOfFuel), rw2)
                      | Suc f \<Rightarrow>
                          (case refsLoop f e lc nd (depth + 1) 0 rw2 of
                             ((c, Some err), rw3) \<Rightarrow> ((count1 + c, Some err), rw3)
                           | ((c, None), rw3) \<Rightarrow> refsLoop fuel e nc links depth (count1 + c) rw3))
                   else refsLoop fuel e nc links depth count1 rw2))"

definition writeRefsRecursive :: "nat \<Rightarrow> 'c refEnv \<Rightarrow> 'c \<Rightarrow> (string \<times> 'c) list \<Rightarrow> int \<Rightarrow> 'c RefWriter \<Rightarrow>
    (nat \<times> 'c ref_err option) \<times> 'c RefWriter" where
  "writeRefsRecursive fuel e nc links depth rw = refsLoop fuel e nc links depth 0 rw"

definition WriteRefs :: "nat \<Rightarrow> 'c refEnv \<Rightarrow> 'c \<Rightarrow> 'c RefWriter \<Rightarrow> (nat \<times> 'c ref_err option) \<times> 'c RefWriter" where
  "WriteRefs fuel e c rw =
     (case re_Get e c of
        None \<Rightarrow> ((0, Some (GetFailed c)), rw)
      | Some links \<Rightarrow> writeRefsRecursive fuel e c links 0 rw)"

section \<open>The command\<close>

record refOpts =
  ro_unique :: bool
  ro_recursive :: bool
  ro_maxDepth :: int
  ro_edges :: bool
  ro_format :: string

text \<open>The loop over the objects: an error of an object is a line of its own.\<close>

fun writeAllRefs :: "nat \<Rightarrow> 'c refEnv \<Rightarrow> 'c list \<Rightarrow> 'c RefWriter \<Rightarrow> 'c ref_err option \<times> 'c RefWriter" where
  "writeAllRefs fuel e [] rw = (None, rw)"
| "writeAllRefs fuel e (ob # obs) rw =
     (case WriteRefs fuel e ob rw of
        ((c, None), rw1) \<Rightarrow> writeAllRefs fuel e obs rw1
      | ((c, Some err), rw1) \<Rightarrow>
          if re_fails e (length (rw_res rw1)) then (Some WriteFailed, rw1)
          else writeAllRefs fuel e obs (rw1\<lparr> rw_res := rw_res rw1 @ [RefError err] \<rparr>))"

fun objectsForPaths :: "(string \<Rightarrow> 'c option) \<Rightarrow> string list \<Rightarrow> 'c ref_err + 'c list" where
  "objectsForPaths resolve [] = Inr []"
| "objectsForPaths resolve (p # ps) =
     (case resolve p of
        None \<Rightarrow> Inl (ResolveFailed p)
      | Some c \<Rightarrow> (case objectsForPaths resolve ps of Inl err \<Rightarrow> Inl err | Inr cs \<Rightarrow> Inr (c # cs)))"

definition newRefWriter :: "bool \<Rightarrow> int \<Rightarrow> string \<Rightarrow> 'c RefWriter" where
  "newRefWriter unique maxDepth fmt =
     \<lparr> rw_Unique = unique, rw_MaxDepth = maxDepth, rw_PrintFmt = fmt, rw_seen = Map.empty, rw_res = [] \<rparr>"

definition RefsCmd :: "nat \<Rightarrow> 'c refEnv \<Rightarrow> (string \<Rightarrow> 'c option) \<Rightarrow> refOpts \<Rightarrow> string list \<Rightarrow> 'c ref_err option \<times> 'c refLine list" where
  "RefsCmd fuel e resolve opts args =
     (let maxDepth = (if ro_recursive opts then ro_maxDepth opts else 1) in
      if ro_edges opts \<and> ro_format opts \<noteq> ''<dst>'' then (Some FormatWithEdges, [])
      else let fmt = (if ro_edges opts then ''<src> -> <dst>'' else ro_format opts) in
        case objectsForPaths resolve args of
          Inl err \<Rightarrow> (Some err, [])
        | Inr objs \<Rightarrow>
            (case writeAllRefs fuel e objs (newRefWriter (ro_unique opts) maxDepth fmt) of (err, rw) \<Rightarrow> (err, rw_res rw)))"

section \<open>What is reachable\<close>

inductive path :: "'c refEnv \<Rightarrow> 'c \<Rightarrow> nat \<Rightarrow> 'c \<Rightarrow> bool" for e r where
  path_0: "path e r 0 r"
| path_Suc: "path e r k b \<Longrightarrow> re_Get e b = Some links \<Longrightarrow> (nm, c) \<in> set links \<Longrightarrow> path e r (Suc k) c"

inductive_cases path_SucE: "path e r (Suc k) c"

definition child :: "'c refEnv \<Rightarrow> 'c \<Rightarrow> 'c \<Rightarrow> bool" where
  "child e b c \<longleftrightarrow> (\<exists>links nm. re_Get e b = Some links \<and> (nm, c) \<in> set links)"

text \<open>Content-addressed nodes: a node has a greater rank than the nodes it links to.\<close>

definition ranked :: "'c refEnv \<Rightarrow> ('c \<Rightarrow> nat) \<Rightarrow> bool" where
  "ranked e rk \<longleftrightarrow> (\<forall>b c. child e b c \<longrightarrow> rk c < rk b)"

lemma path_child: "path e r k b \<Longrightarrow> child e b c \<Longrightarrow> path e r (Suc k) c"
  unfolding child_def by (blast intro: path_Suc)

lemma path_Suc_iff: "path e r (Suc k) c \<longleftrightarrow> (\<exists>b. path e r k b \<and> child e b c)"
  unfolding child_def by (blast intro: path_Suc elim: path_SucE)

definition inDepth :: "int \<Rightarrow> int \<Rightarrow> bool" where
  "inDepth m d \<longleftrightarrow> m < 0 \<or> d \<le> m"

section \<open>Unique listings\<close>

fun written :: "'c refLine list \<Rightarrow> 'c list" where
  "written [] = []"
| "written (RefEdge a b s # ls) = b # written ls"
| "written (RefError err # ls) = written ls"

lemma written_append [simp]: "written (xs @ ys) = written xs @ written ys"
  by (induction xs rule: written.induct) simp_all

text \<open>What every step of a unique listing from the roots \<open>Rs\<close> keeps.\<close>

definition listInv :: "'c refEnv \<Rightarrow> 'c set \<Rightarrow> 'c RefWriter \<Rightarrow> bool" where
  "listInv e Rs rw \<longleftrightarrow> rw_Unique rw \<and> distinct (written (rw_res rw)) \<and> set (written (rw_res rw)) \<subseteq> dom (rw_seen rw) \<and>
     (\<forall>x k. rw_seen rw x = Some k \<longrightarrow> 1 \<le> k \<and> inDepth (rw_MaxDepth rw) k \<and> (\<exists>r \<in> Rs. path e r (nat k) x))"

text \<open>How a step changes what has been seen: depths only go down, and only below rank \<open>R\<close>.\<close>

definition listExt :: "('c \<Rightarrow> nat) \<Rightarrow> nat \<Rightarrow> 'c RefWriter \<Rightarrow> 'c RefWriter \<Rightarrow> bool" where
  "listExt rk R rw rw1 \<longleftrightarrow> rw_MaxDepth rw1 = rw_MaxDepth rw \<and> (\<exists>new. rw_res rw1 = rw_res rw @ new) \<and>
     (\<forall>x k. rw_seen rw x = Some k \<longrightarrow> (\<exists>k'. rw_seen rw1 x = Some k' \<and> k' \<le> k)) \<and>
     (\<forall>x. R \<le> rk x \<longrightarrow> rw_seen rw1 x = rw_seen rw x)"

definition listFull :: "'c RefWriter \<Rightarrow> bool" where
  "listFull rw \<longleftrightarrow> dom (rw_seen rw) = set (written (rw_res rw))"

definition seenBy :: "'c RefWriter \<Rightarrow> 'c \<Rightarrow> int \<Rightarrow> bool" where
  "seenBy rw x d \<longleftrightarrow> (\<exists>k. rw_seen rw x = Some k \<and> (rw_MaxDepth rw < 0 \<or> k \<le> d))"

text \<open>The nodes whose children have not all been seen as deep as they should be.\<close>

definition openNodes :: "'c refEnv \<Rightarrow> 'c RefWriter \<Rightarrow> 'c set" where
  "openNodes e rw = {c. \<exists>k x. rw_seen rw c = Some k \<and> child e c x \<and> inDepth (rw_MaxDepth rw) (k + 1) \<and> \<not> seenBy rw x (k + 1)}"

lemma listExt_refl: "listExt rk R rw rw"
  by (auto simp: listExt_def)

lemma listExtD: "listExt rk R rw rw1 \<Longrightarrow> rw_seen rw x = Some k \<Longrightarrow> \<exists>k'. rw_seen rw1 x = Some k' \<and> k' \<le> k"
  unfolding listExt_def by blast

lemma listExt_trans:
  assumes a: "listExt rk R1 rw rw1" and b: "listExt rk R2 rw1 rw2" and "R1 \<le> R" "R2 \<le> R"
  shows "listExt rk R rw rw2"
proof -
  have "\<exists>k2. rw_seen rw2 x = Some k2 \<and> k2 \<le> k" if s: "rw_seen rw x = Some k" for x k
  proof -
    obtain k1 where k1: "rw_seen rw1 x = Some k1" "k1 \<le> k" using listExtD [OF a s] by blast
    then obtain k2 where "rw_seen rw2 x = Some k2" "k2 \<le> k1" using listExtD [OF b] by blast
    with k1 show ?thesis by auto
  qed
  moreover have "\<exists>new. rw_res rw2 = rw_res rw @ new" using a b by (auto simp: listExt_def)
  ultimately show ?thesis using assms by (simp add: listExt_def)
qed

lemma seenBy_ext:
  assumes "listExt rk R rw rw1" and "seenBy rw x d"
  shows "seenBy rw1 x d"
proof -
  obtain k where k: "rw_seen rw x = Some k" "rw_MaxDepth rw < 0 \<or> k \<le> d" using assms(2) by (auto simp: seenBy_def)
  then obtain k1 where "rw_seen rw1 x = Some k1" "k1 \<le> k" using listExtD [OF assms(1)] by blast
  with k assms(1) show ?thesis by (auto simp: seenBy_def listExt_def)
qed

lemma seenBy_mono: "seenBy rw x d \<Longrightarrow> d \<le> d' \<Longrightarrow> seenBy rw x d'"
  unfolding seenBy_def by auto

text \<open>What \<open>visit\<close> does to a unique listing.\<close>

lemma visit_cases:
  assumes "rw_Unique rw"
  obtains (over) "visit x d rw = ((False, False), rw)" "\<not> inDepth (rw_MaxDepth rw) d"
    | (known) "visit x d rw = ((False, False), rw)" "seenBy rw x d"
    | (again) k where "visit x d rw = ((inDepth (rw_MaxDepth rw) (d + 1), False), rw\<lparr> rw_seen := (rw_seen rw)(x \<mapsto> d) \<rparr>)"
        "inDepth (rw_MaxDepth rw) d" "rw_seen rw x = Some k" "d < k"
    | (new) "visit x d rw = ((inDepth (rw_MaxDepth rw) (d + 1), True), rw\<lparr> rw_seen := (rw_seen rw)(x \<mapsto> d) \<rparr>)"
        "inDepth (rw_MaxDepth rw) d" "rw_seen rw x = None"
proof (cases "inDepth (rw_MaxDepth rw) d")
  case False
  then have "visit x d rw = ((False, False), rw)" by (simp add: visit_def inDepth_def)
  with False over show ?thesis by blast
next
  case True
  then have g: "(\<not> (rw_MaxDepth rw \<ge> 0 \<and> d = rw_MaxDepth rw)) = inDepth (rw_MaxDepth rw) (d + 1)" by (auto simp: inDepth_def)
  have no: "\<not> (rw_MaxDepth rw \<ge> 0 \<and> d > rw_MaxDepth rw)" using True by (auto simp: inDepth_def)
  show ?thesis
  proof (cases "rw_seen rw x")
    case None
    with g no assms True show ?thesis by (intro new) (auto simp: visit_def Let_def)
  next
    case (Some k)
    show ?thesis
    proof (cases "rw_MaxDepth rw < 0 \<or> k \<le> d")
      case True
      with Some no assms show ?thesis by (intro known) (auto simp: visit_def Let_def seenBy_def)
    next
      case False
      with Some g no assms True show ?thesis by (intro again [of k]) (auto simp: visit_def Let_def)
    qed
  qed
qed

lemma seen_update_inv:
  assumes "listInv e Rs rw" and "1 \<le> d" and "inDepth (rw_MaxDepth rw) d" and "r \<in> Rs" and "path e r (nat d) x"
  shows "listInv e Rs (rw\<lparr> rw_seen := (rw_seen rw)(x \<mapsto> d) \<rparr>)"
  using assms by (auto simp: listInv_def)

lemma seen_update_ext:
  assumes "rk x < R" and "rw_seen rw x = None \<or> (\<exists>k. rw_seen rw x = Some k \<and> d \<le> k)"
  shows "listExt rk R rw (rw\<lparr> rw_seen := (rw_seen rw)(x \<mapsto> d) \<rparr>)"
  using assms by (auto simp: listExt_def)

lemma seen_update_open:
  assumes "rw_seen rw x = None \<or> (\<exists>k. rw_seen rw x = Some k \<and> d \<le> k)"
  shows "openNodes e (rw\<lparr> rw_seen := (rw_seen rw)(x \<mapsto> d) \<rparr>) \<subseteq> insert x (openNodes e rw)"
proof
  fix c assume "c \<in> openNodes e (rw\<lparr> rw_seen := (rw_seen rw)(x \<mapsto> d) \<rparr>)"
  then obtain k y where c: "((rw_seen rw)(x \<mapsto> d)) c = Some k" "child e c y" "inDepth (rw_MaxDepth rw) (k + 1)"
    "\<not> seenBy (rw\<lparr> rw_seen := (rw_seen rw)(x \<mapsto> d) \<rparr>) y (k + 1)" by (auto simp: openNodes_def)
  show "c \<in> insert x (openNodes e rw)"
  proof (cases "c = x")
    case False
    have "\<not> seenBy rw y (k + 1)"
    proof
      assume "seenBy rw y (k + 1)"
      then have "seenBy (rw\<lparr> rw_seen := (rw_seen rw)(x \<mapsto> d) \<rparr>) y (k + 1)"
        using assms unfolding seenBy_def by auto
      with c(4) show False ..
    qed
    with False c show ?thesis by (auto simp: openNodes_def)
  qed simp
qed

lemma WriteEdge_facts:
  assumes "WriteEdge e a b nm rw = (None, rw1)"
  shows "rw_seen rw1 = rw_seen rw" "rw_MaxDepth rw1 = rw_MaxDepth rw" "rw_Unique rw1 = rw_Unique rw"
    "written (rw_res rw1) = written (rw_res rw) @ [b]" "\<exists>new. rw_res rw1 = rw_res rw @ new"
  using assms by (auto simp: WriteEdge_def split: if_splits)

lemma WriteEdge_err: "WriteEdge e a b nm rw = (Some err, rw1) \<Longrightarrow> rw1 = rw \<and> err = WriteFailed"
  by (auto simp: WriteEdge_def split: if_splits)

text \<open>The loop keeps the invariant whatever happens; when it ends without an error all has been seen.\<close>

definition loopOk :: "'c refEnv \<Rightarrow> ('c \<Rightarrow> nat) \<Rightarrow> 'c set \<Rightarrow> nat \<Rightarrow> (string \<times> 'c) list \<Rightarrow> int \<Rightarrow>
    'c RefWriter \<Rightarrow> 'c ref_err option \<Rightarrow> 'c RefWriter \<Rightarrow> bool" where
  "loopOk e rk Rs R ls depth rw err rw1 \<longleftrightarrow> listInv e Rs rw1 \<and> listExt rk R rw rw1 \<and>
     (err = None \<longrightarrow> (listFull rw \<longrightarrow> listFull rw1) \<and> openNodes e rw1 \<subseteq> openNodes e rw \<and>
        (\<forall>(nm, x) \<in> set ls. inDepth (rw_MaxDepth rw) (depth + 1) \<longrightarrow> seenBy rw1 x (depth + 1)))"

lemma loopOk_Cons:
  assumes "loopOk e rk Rs R ls depth rw2 err rw1" and "listExt rk R rw rw2"
    and "listFull rw \<longrightarrow> listFull rw2" and "openNodes e rw2 \<subseteq> openNodes e rw"
    and "inDepth (rw_MaxDepth rw) (depth + 1) \<longrightarrow> seenBy rw2 x (depth + 1)"
  shows "loopOk e rk Rs R ((nm, x) # ls) depth rw err rw1"
proof -
  have a: "listInv e Rs rw1" "listExt rk R rw2 rw1" using assms(1) by (simp_all add: loopOk_def)
  have b: "listExt rk R rw rw1" by (rule listExt_trans [OF assms(2) a(2)]) simp_all
  have md: "rw_MaxDepth rw2 = rw_MaxDepth rw" using assms(2) by (simp add: listExt_def)
  have c: "(listFull rw \<longrightarrow> listFull rw1) \<and> openNodes e rw1 \<subseteq> openNodes e rw \<and>
      (\<forall>(nm, y) \<in> set ((nm, x) # ls). inDepth (rw_MaxDepth rw) (depth + 1) \<longrightarrow> seenBy rw1 y (depth + 1))" if "err = None"
  proof -
    have d: "listFull rw2 \<longrightarrow> listFull rw1" "openNodes e rw1 \<subseteq> openNodes e rw2"
      "\<forall>(nm, y) \<in> set ls. inDepth (rw_MaxDepth rw) (depth + 1) \<longrightarrow> seenBy rw1 y (depth + 1)"
      using assms(1) that md by (simp_all add: loopOk_def)
    have "inDepth (rw_MaxDepth rw) (depth + 1) \<longrightarrow> seenBy rw1 x (depth + 1)" using assms(5) seenBy_ext [OF a(2)] by blast
    with d assms(3,4) show ?thesis by auto
  qed
  with a(1) b show ?thesis unfolding loopOk_def by blast
qed

lemma loopOk_err: "listInv e Rs rw1 \<Longrightarrow> listExt rk R rw rw1 \<Longrightarrow> loopOk e rk Rs R ls depth rw (Some err) rw1"
  by (simp add: loopOk_def)

text \<open>The state after a node has been marked: only the node itself can be open now.\<close>

lemma marked_facts:
  assumes seen: "rw_seen rw2 = (rw_seen rw)(x \<mapsto> d)" and md: "rw_MaxDepth rw2 = rw_MaxDepth rw"
    and old: "rw_seen rw x = None \<or> (\<exists>k. rw_seen rw x = Some k \<and> d \<le> k)" and R: "rk x < R"
    and res: "\<exists>new. rw_res rw2 = rw_res rw @ new"
  shows "listExt rk R rw rw2" "openNodes e rw2 \<subseteq> insert x (openNodes e rw)" "seenBy rw2 x d"
proof -
  show "listExt rk R rw rw2" using seen_update_ext [where rk = rk and x = x and d = d and rw = rw, OF R old] seen md res
    by (simp add: listExt_def)
  have "openNodes e rw2 = openNodes e (rw\<lparr> rw_seen := (rw_seen rw)(x \<mapsto> d) \<rparr>)"
    using seen md by (simp add: openNodes_def seenBy_def)
  then show "openNodes e rw2 \<subseteq> insert x (openNodes e rw)" using seen_update_open [where x = x and d = d and rw = rw, OF old] by blast
  show "seenBy rw2 x d" using seen by (simp add: seenBy_def)
qed

lemma closed_when_children_seen:
  assumes "rw_seen rw x = Some d" and "re_Get e x = Some nd"
    and "\<forall>(nm, y) \<in> set nd. inDepth (rw_MaxDepth rw) (d + 1) \<longrightarrow> seenBy rw y (d + 1)"
  shows "x \<notin> openNodes e rw"
  using assms by (auto simp: openNodes_def child_def)

lemma refsLoop_ok:
  assumes "refsLoop fuel e nc ls depth count rw = ((cnt, err), rw1)" and rk: "ranked e rk"
    and "listInv e Rs rw" and "\<forall>(nm, x) \<in> set ls. rk x < R \<and> child e nc x" and "0 \<le> depth"
    and "r \<in> Rs" and "path e r (nat depth) nc"
  shows "loopOk e rk Rs R ls depth rw err rw1"
  using assms(1,3-)
proof (induction fuel arbitrary: nc ls depth count rw cnt err rw1 R rule: less_induct)
  case (less fuel)
  note deeper = less.IH
  from less.prems show ?case
  proof (induction ls arbitrary: count rw)
    case Nil
    then show ?case by (simp add: loopOk_def listExt_refl)
  next
    case (Cons l links)
    obtain name x where l: "l = (name, x)" by fastforce
    have inv: "listInv e Rs rw" and xR: "rk x < R" and ch: "child e nc x"
      and rest: "\<forall>(nm, x) \<in> set links. rk x < R \<and> child e nc x"
      and run: "refsLoop fuel e nc ((name, x) # links) depth count rw = ((cnt, err), rw1)"
      using Cons.prems l by auto
    note next' = Cons.IH [OF _ _ rest Cons.prems(4-6)]
    have d1: "1 \<le> depth + 1" using Cons.prems(4) by simp
    have px: "path e r (nat (depth + 1)) x"
      using path_child [OF Cons.prems(6) ch] Cons.prems(4) by (simp add: Suc_nat_eq_nat_zadd1 add.commute)
    have u: "rw_Unique rw" using inv by (simp add: listInv_def)
    have step: "loopOk e rk Rs R ((name, x) # links) depth rw err rw1"
      if seen: "rw_seen rw2 = (rw_seen rw)(x \<mapsto> depth + 1)" and md: "rw_MaxDepth rw2 = rw_MaxDepth rw"
        and res: "\<exists>new. rw_res rw2 = rw_res rw @ new" and inv2: "listInv e Rs rw2" and full: "listFull rw \<longrightarrow> listFull rw2"
        and old: "rw_seen rw x = None \<or> (\<exists>k. rw_seen rw x = Some k \<and> depth + 1 \<le> k)" and nd: "re_Get e x = Some nd"
        and run2: "(if inDepth (rw_MaxDepth rw) (depth + 1 + 1) then
            (case fuel of 0 \<Rightarrow> ((c1, Some OutOfFuel), rw2)
             | Suc f \<Rightarrow> (case refsLoop f e x nd (depth + 1) 0 rw2 of
                  ((c, Some err), rw3) \<Rightarrow> ((c1 + c, Some err), rw3)
                | ((c, None), rw3) \<Rightarrow> refsLoop fuel e nc links depth (c1 + c) rw3))
            else refsLoop fuel e nc links depth c1 rw2) = ((cnt, err), rw1)" for rw2 nd c1
    proof -
      note m = marked_facts [where rk = rk, OF seen md old xR res]
      have sx: "rw_seen rw2 x = Some (depth + 1)" using seen by simp
      show ?thesis
      proof (cases "inDepth (rw_MaxDepth rw) (depth + 1 + 1)")
        case False
        then have "x \<notin> openNodes e rw2" using sx md by (auto simp: openNodes_def)
        then have op: "openNodes e rw2 \<subseteq> openNodes e rw" using m(2) by blast
        have "refsLoop fuel e nc links depth c1 rw2 = ((cnt, err), rw1)" using run2 False by simp
        from next' [OF this inv2] have "loopOk e rk Rs R links depth rw2 err rw1" .
        then show ?thesis by (rule loopOk_Cons) (use m op full in simp_all)
      next
        case deep: True
        show ?thesis
        proof (cases fuel)
          case 0
          then have "err = Some OutOfFuel \<and> rw1 = rw2" using run2 deep by auto
          then show ?thesis using loopOk_err inv2 m(1) by metis
        next
          case (Suc f)
          obtain c3 err3 rw3 where r3: "refsLoop f e x nd (depth + 1) 0 rw2 = ((c3, err3), rw3)" by (metis prod.collapse)
          have lower: "\<forall>(nm, y) \<in> set nd. rk y < rk x \<and> child e x y"
            using rk nd unfolding ranked_def child_def by blast
          have "loopOk e rk Rs (rk x) nd (depth + 1) rw2 err3 rw3"
            using deeper [OF _ r3 inv2 lower _ Cons.prems(5) px] Suc Cons.prems(4) by simp
          then have ok3: "listInv e Rs rw3" "listExt rk (rk x) rw2 rw3"
            and done3: "err3 = None \<Longrightarrow> (listFull rw2 \<longrightarrow> listFull rw3) \<and> openNodes e rw3 \<subseteq> openNodes e rw2 \<and>
              (\<forall>(nm, y) \<in> set nd. inDepth (rw_MaxDepth rw2) (depth + 1 + 1) \<longrightarrow> seenBy rw3 y (depth + 1 + 1))"
            by (simp_all add: loopOk_def)
          have ext3: "listExt rk R rw rw3" by (rule listExt_trans [OF m(1) ok3(2)]) (use xR in simp_all)
          show ?thesis
          proof (cases err3)
            case (Some er)
            then have "err = Some er \<and> rw1 = rw3" using run2 deep Suc r3 by auto
            then show ?thesis using loopOk_err ok3(1) ext3 by metis
          next
            case None
            have md3: "rw_MaxDepth rw3 = rw_MaxDepth rw2" and sx3: "rw_seen rw3 x = Some (depth + 1)"
              using ok3(2) sx by (simp_all add: listExt_def)
            have "x \<notin> openNodes e rw3"
              by (rule closed_when_children_seen [OF sx3 nd]) (use done3 None md3 in auto)
            then have op: "openNodes e rw3 \<subseteq> openNodes e rw" using m(2) done3 None by blast
            have sb: "seenBy rw3 x (depth + 1)" using seenBy_ext [OF ok3(2) m(3)] .
            have "refsLoop fuel e nc links depth (c1 + c3) rw3 = ((cnt, err), rw1)" using run2 deep Suc r3 None by simp
            from next' [OF this ok3(1)] have "loopOk e rk Rs R links depth rw3 err rw1" .
            then show ?thesis by (rule loopOk_Cons) (use ext3 op full done3 None sb in simp_all)
          qed
        qed
      qed
    qed
    show ?case
    proof (cases rule: visit_cases [OF u, where x = x and d = "depth + 1", case_names over known again new])
      case over
      then have "refsLoop fuel e nc links depth count rw = ((cnt, err), rw1)" using run by simp
      from next' [OF this inv] have "loopOk e rk Rs R links depth rw err rw1" .
      then show ?thesis unfolding l by (rule loopOk_Cons) (use over in \<open>simp_all add: listExt_refl\<close>)
    next
      case known
      then have "refsLoop fuel e nc links depth count rw = ((cnt, err), rw1)" using run by simp
      from next' [OF this inv] have "loopOk e rk Rs R links depth rw err rw1" .
      then show ?thesis unfolding l by (rule loopOk_Cons) (use known in \<open>simp_all add: listExt_refl\<close>)
    next
      case (again k)
      let ?rw = "rw\<lparr> rw_seen := (rw_seen rw)(x \<mapsto> depth + 1) \<rparr>"
      have inv2: "listInv e Rs ?rw" using seen_update_inv [OF inv d1 again(2) Cons.prems(5) px] .
      have old: "rw_seen rw x = None \<or> (\<exists>k. rw_seen rw x = Some k \<and> depth + 1 \<le> k)" using again by simp
      have full: "listFull rw \<longrightarrow> listFull ?rw" using again by (auto simp: listFull_def dom_def)
      show ?thesis
      proof (cases "inDepth (rw_MaxDepth rw) (depth + 1 + 1)")
        case False
        then have "refsLoop fuel e nc links depth count ?rw = ((cnt, err), rw1)" using run again(1) by simp
        from next' [OF this inv2] have nx: "loopOk e rk Rs R links depth ?rw err rw1" .
        note m = marked_facts [where rk = rk and rw = rw and ?rw2.0 = ?rw, OF _ _ old xR, simplified]
        have "x \<notin> openNodes e ?rw" using False by (auto simp: openNodes_def)
        then have op: "openNodes e ?rw \<subseteq> openNodes e rw" using m(2) by blast
        from nx show ?thesis unfolding l by (rule loopOk_Cons) (use m full op in simp_all)
      next
        case True
        show ?thesis
        proof (cases "re_Get e x")
          case None
          then have "err = Some (GetFailed x) \<and> rw1 = ?rw" using run again(1) True by auto
          then show ?thesis
            using loopOk_err [OF inv2 marked_facts(1) [where rk = rk and rw = rw and ?rw2.0 = ?rw, OF _ _ old xR, simplified]] l by simp
        next
          case (Some nd)
          show ?thesis unfolding l
            by (rule step [where ?rw2.0 = ?rw and nd = nd and ?c1.0 = count]) (use inv2 full old Some run again(1) True in simp_all)
        qed
      qed
    next
      case new
      let ?rw = "rw\<lparr> rw_seen := (rw_seen rw)(x \<mapsto> depth + 1) \<rparr>"
      have inv2: "listInv e Rs ?rw" using seen_update_inv [OF inv d1 new(2) Cons.prems(5) px] .
      have old: "rw_seen rw x = None \<or> (\<exists>k. rw_seen rw x = Some k \<and> depth + 1 \<le> k)" using new by simp
      note stop = loopOk_err [OF inv2 marked_facts(1) [where rk = rk and rw = rw and ?rw2.0 = ?rw, OF _ _ old xR, simplified]]
      show ?thesis
      proof (cases "re_Get e x")
        case None
        then have "err = Some (GetFailed x) \<and> rw1 = ?rw" using run new(1) by auto
        then show ?thesis using stop l by simp
      next
        case (Some nd)
        obtain we rw2 where w: "WriteEdge e nc x name ?rw = (we, rw2)" by fastforce
        show ?thesis
        proof (cases we)
          case (Some er)
          then have "err = Some WriteFailed \<and> rw1 = ?rw" using run new(1) \<open>re_Get e x = Some nd\<close> w WriteEdge_err by (auto dest: WriteEdge_err)
          then show ?thesis using stop l by simp
        next
          case None
          note wf = WriteEdge_facts [OF w [unfolded None]]
          have nx: "x \<notin> set (written (rw_res rw))" using inv new(3) by (auto simp: listInv_def)
          have inv3: "listInv e Rs rw2" using inv2 nx wf inv by (auto simp: listInv_def)
          have full: "listFull rw \<longrightarrow> listFull rw2" using wf by (auto simp: listFull_def)
          show ?thesis unfolding l
            by (rule step [where ?rw2.0 = rw2 and nd = nd and ?c1.0 = "Suc count"])
              (use inv3 full old Some run new(1) w None wf in simp_all)
        qed
      qed
    qed
  qed
qed

section \<open>When nothing fails\<close>

definition noErrors :: "'c refLine list \<Rightarrow> bool" where
  "noErrors ls \<longleftrightarrow> (\<forall>err. RefError err \<notin> set ls)"

text \<open>A node and all it leads to can be fetched.\<close>

definition available :: "'c refEnv \<Rightarrow> 'c \<Rightarrow> bool" where
  "available e x \<longleftrightarrow> (\<forall>k c. path e x k c \<longrightarrow> re_Get e c \<noteq> None)"

lemma path_front: "path e y k c \<Longrightarrow> child e x y \<Longrightarrow> path e x (Suc k) c"
proof (induction rule: path.induct)
  case path_0
  then show ?case using path_child [OF path.path_0, of e x y] by simp
next
  case (path_Suc k b links nm c)
  then show ?case by (blast intro: path.path_Suc)
qed

lemma available_child: "available e x \<Longrightarrow> child e x y \<Longrightarrow> available e y"
  unfolding available_def by (meson path_front)

lemma available_Get:
  assumes "available e x"
  shows "\<exists>nd. re_Get e x = Some nd"
proof -
  have "path e x 0 x \<longrightarrow> re_Get e x \<noteq> None" using assms unfolding available_def by (rule allE) (erule allE)
  then show ?thesis using path.path_0 [of e x] by auto
qed

lemma visit_res: "visit x d rw = (gs, rw1) \<Longrightarrow> rw_res rw1 = rw_res rw"
  by (auto simp: visit_def Let_def split: if_splits option.splits)

lemma refsLoop_total:
  assumes "refsLoop fuel e nc ls depth count rw = ((cnt, err), rw1)" and rk: "ranked e rk"
    and w: "\<forall>n. \<not> re_fails e n" and "\<forall>(nm, x) \<in> set ls. rk x < fuel \<and> available e x" and "noErrors (rw_res rw)"
  shows "err = None \<and> noErrors (rw_res rw1)"
  using assms(1,4,5)
proof (induction fuel arbitrary: nc ls depth count rw cnt err rw1 rule: less_induct)
  case (less fuel)
  note deeper = less.IH
  from less.prems show ?case
  proof (induction ls arbitrary: count rw)
    case (Cons l links)
    obtain name x where l: "l = (name, x)" by fastforce
    have xf: "rk x < fuel" "available e x" and rest: "\<forall>(nm, y) \<in> set links. rk y < fuel \<and> available e y"
      using Cons.prems l by auto
    obtain nd where nd: "re_Get e x = Some nd" using available_Get [OF xf(2)] by blast
    obtain g s rw2 where v: "visit x (depth + 1) rw = ((g, s), rw2)" by (metis prod.collapse)
    have n2: "noErrors (rw_res rw2)" using visit_res [OF v] Cons.prems(3) by simp
    note run = Cons.prems(1) [unfolded l refsLoop.simps v prod.case nd option.case]
    note next' = Cons.IH [OF _ rest]
    show ?case
    proof (cases "\<not> s \<and> \<not> g")
      case True
      then have "refsLoop fuel e nc links depth count rw2 = ((cnt, err), rw1)" using run by simp
      then show ?thesis by (rule next') (rule n2)
    next
      case go: False
      obtain we rw3 where we: "(if s then WriteEdge e nc x name rw2 else (None, rw2)) = (we, rw3)" by fastforce
      have "we = None \<and> noErrors (rw_res rw3)"
      proof (cases s)
        case True
        with we w have "we = None" "rw_res rw3 = rw_res rw2 @ [RefEdge nc x (edgeString e (rw_PrintFmt rw2) nc x name)]"
          by (auto simp: WriteEdge_def)
        with n2 show ?thesis by (simp add: noErrors_def)
      next
        case False
        with we n2 show ?thesis by simp
      qed
      with we have w3: "(if s then WriteEdge e nc x name rw2 else (None, rw2)) = (None, rw3)" "noErrors (rw_res rw3)" by simp_all
      show ?thesis
      proof (cases g)
        case False
        then have "refsLoop fuel e nc links depth (if s then count + 1 else count) rw3 = ((cnt, err), rw1)" using run go w3(1) by simp
        then show ?thesis by (rule next') (rule w3(2))
      next
        case True
        obtain f where f: "fuel = Suc f" using xf by (cases fuel) auto
        obtain c3 err3 rw4 where r3: "refsLoop f e x nd (depth + 1) 0 rw3 = ((c3, err3), rw4)" by (metis prod.collapse)
        have ch: "\<forall>(nm, y) \<in> set nd. child e x y" using nd by (auto simp: child_def)
        have below: "rk y < f \<and> available e y" if "child e x y" for y
        proof -
          have "rk y < rk x" using rk that unfolding ranked_def by blast
          with xf f available_child [OF xf(2) that] show ?thesis by simp
        qed
        have "\<forall>(nm, y) \<in> set nd. rk y < f \<and> available e y" using ch below by auto
        then have e3: "err3 = None" "noErrors (rw_res rw4)" using deeper [OF _ r3 _ w3(2)] f by simp_all
        have "refsLoop fuel e nc links depth ((if s then count + 1 else count) + c3) rw4 = ((cnt, err), rw1)"
          using run go w3 True f r3 e3 by simp
        then show ?thesis by (rule next') (rule e3(2))
      qed
    qed
  qed simp
qed

lemma writeAllRefs_total:
  assumes "ranked e rk" and "\<forall>n. \<not> re_fails e n" and "\<forall>r \<in> set obs. rk r \<le> fuel \<and> available e r" and "noErrors (rw_res rw)"
  shows "\<exists>rw1. writeAllRefs fuel e obs rw = (None, rw1) \<and> noErrors (rw_res rw1)"
  using assms(3,4)
proof (induction obs arbitrary: rw)
  case (Cons r obs)
  obtain nd where nd: "re_Get e r = Some nd" using available_Get Cons.prems by fastforce
  obtain c err rw2 where run: "refsLoop fuel e r nd 0 0 rw = ((c, err), rw2)" by (metis prod.collapse)
  have ch: "\<forall>(nm, y) \<in> set nd. child e r y" using nd by (auto simp: child_def)
  have r: "rk r \<le> fuel" "available e r" using Cons.prems(1) by simp_all
  have below: "rk y < fuel \<and> available e y" if "child e r y" for y
  proof -
    have "rk y < rk r" using assms(1) that unfolding ranked_def by blast
    with r available_child [OF r(2) that] show ?thesis by simp
  qed
  have "\<forall>(nm, y) \<in> set nd. rk y < fuel \<and> available e y" using ch below by auto
  note lower = this
  from refsLoop_total [OF run assms(1,2) lower Cons.prems(2)] have "err = None" "noErrors (rw_res rw2)" by simp_all
  with Cons.IH [of rw2] Cons.prems(1) nd run show ?case
    by (simp add: WriteRefs_def writeRefsRecursive_def)
qed simp

section \<open>The whole listing\<close>

definition reachable :: "'c refEnv \<Rightarrow> int \<Rightarrow> 'c set \<Rightarrow> 'c set" where
  "reachable e m Rs = {c. \<exists>r \<in> Rs. \<exists>k \<ge> 1. path e r k c \<and> inDepth m (int k)}"

definition rootDone :: "'c refEnv \<Rightarrow> 'c RefWriter \<Rightarrow> 'c \<Rightarrow> bool" where
  "rootDone e rw r \<longleftrightarrow> (\<forall>x. child e r x \<longrightarrow> inDepth (rw_MaxDepth rw) 1 \<longrightarrow> seenBy rw x 1)"

lemma listInv_res: "written (rw_res rw1) = written (rw_res rw) \<Longrightarrow> rw_seen rw1 = rw_seen rw \<Longrightarrow>
    rw_MaxDepth rw1 = rw_MaxDepth rw \<Longrightarrow> rw_Unique rw1 = rw_Unique rw \<Longrightarrow> listInv e Rs rw1 = listInv e Rs rw"
  by (simp add: listInv_def)

lemma WriteRefs_ok:
  assumes "WriteRefs fuel e r rw = ((cnt, err), rw1)" and rk: "ranked e rk" and inv: "listInv e Rs rw" and r: "r \<in> Rs"
  shows "listInv e Rs rw1 \<and> (\<exists>R. listExt rk R rw rw1) \<and>
    (err = None \<longrightarrow> (listFull rw \<longrightarrow> listFull rw1) \<and> openNodes e rw1 \<subseteq> openNodes e rw \<and> rootDone e rw1 r)"
proof (cases "re_Get e r")
  case None
  with assms(1) inv show ?thesis by (auto simp: WriteRefs_def intro: listExt_refl)
next
  case (Some links)
  then have run: "refsLoop fuel e r links 0 0 rw = ((cnt, err), rw1)"
    using assms(1) by (simp add: WriteRefs_def writeRefsRecursive_def)
  have low: "\<forall>(nm, x) \<in> set links. rk x < rk r \<and> child e r x" using rk Some unfolding ranked_def child_def by blast
  have "loopOk e rk Rs (rk r) links 0 rw err rw1"
    by (rule refsLoop_ok [OF run rk inv low]) (use r in \<open>auto intro: path.intros\<close>)
  moreover from this have "rw_MaxDepth rw1 = rw_MaxDepth rw" by (simp add: loopOk_def listExt_def)
  ultimately show ?thesis using Some unfolding loopOk_def rootDone_def child_def by auto
qed

lemma rootDone_ext: "listExt rk R rw rw1 \<Longrightarrow> rootDone e rw r \<Longrightarrow> rootDone e rw1 r"
  unfolding rootDone_def using seenBy_ext listExt_def by metis

lemma writeAllRefs_ok:
  assumes "writeAllRefs fuel e obs rw = (err, rw1)" and rk: "ranked e rk" and "listInv e Rs rw" and "set obs \<subseteq> Rs"
  shows "listInv e Rs rw1 \<and> (\<exists>R. listExt rk R rw rw1) \<and>
    (err = None \<and> noErrors (rw_res rw1) \<longrightarrow>
       (listFull rw \<longrightarrow> listFull rw1) \<and> openNodes e rw1 \<subseteq> openNodes e rw \<and> (\<forall>r \<in> set obs. rootDone e rw1 r))"
  using assms(1,3,4)
proof (induction obs arbitrary: rw)
  case Nil
  then show ?case by (auto intro: listExt_refl)
next
  case (Cons ob obs)
  obtain c err2 rw2 where w: "WriteRefs fuel e ob rw = ((c, err2), rw2)" by (metis prod.collapse)
  have ob: "ob \<in> Rs" and rest: "set obs \<subseteq> Rs" using Cons.prems by auto
  note ok = WriteRefs_ok [OF w rk Cons.prems(2) ob]
  then obtain R where R: "listExt rk R rw rw2" by blast
  show ?case
  proof (cases err2)
    case None
    have run: "writeAllRefs fuel e obs rw2 = (err, rw1)" using Cons.prems(1) w None by simp
    note ih = Cons.IH [OF run _ rest]
    have inv2: "listInv e Rs rw2" using ok by blast
    then obtain R2 where R2: "listExt rk R2 rw2 rw1" using ih by blast
    have "listExt rk (max R R2) rw rw1" by (rule listExt_trans [OF R R2]) simp_all
    moreover have "rootDone e rw1 ob" using ok None rootDone_ext [OF R2] by blast
    ultimately show ?thesis using ih [OF inv2] ok None by auto
  next
    case (Some er)
    show ?thesis
    proof (cases "re_fails e (length (rw_res rw2))")
      case True
      then have "err = Some WriteFailed \<and> rw1 = rw2" using Cons.prems(1) w Some by simp
      with ok show ?thesis by auto
    next
      case False
      let ?rw = "rw2\<lparr> rw_res := rw_res rw2 @ [RefError er] \<rparr>"
      have run: "writeAllRefs fuel e obs ?rw = (err, rw1)" using Cons.prems(1) w Some False by simp
      have inv2: "listInv e Rs ?rw" using ok by (simp add: listInv_def)
      note ih = Cons.IH [OF run inv2 rest]
      then obtain R2 where R2: "listExt rk R2 ?rw rw1" by blast
      have "listExt rk R rw2 ?rw" by (auto simp: listExt_def)
      then have "listExt rk R rw ?rw" by (rule listExt_trans [OF R]) simp_all
      then have "listExt rk (max R R2) rw rw1" by (rule listExt_trans [OF _ R2]) simp_all
      moreover have "RefError er \<in> set (rw_res rw1)" using R2 by (auto simp: listExt_def)
      then have "\<not> noErrors (rw_res rw1)" by (auto simp: noErrors_def)
      ultimately show ?thesis using ih by auto
    qed
  qed
qed

lemma closed_reach:
  assumes "openNodes e rw = {}" and "\<forall>r \<in> Rs. rootDone e rw r" and "r \<in> Rs" and "path e r (Suc k) c"
    and "inDepth (rw_MaxDepth rw) (int (Suc k))"
  shows "seenBy rw c (int (Suc k))"
  using assms(4,5)
proof (induction k arbitrary: c)
  case 0
  then have "child e r c" using path_Suc_iff [of e r 0 c] by (auto elim: path.cases)
  with assms(2,3) 0 show ?case by (simp add: rootDone_def)
next
  case (Suc k)
  then obtain b where b: "path e r (Suc k) b" "child e b c" using path_Suc_iff [of e r "Suc k" c] by blast
  have "inDepth (rw_MaxDepth rw) (int (Suc k))" using Suc.prems(2) by (auto simp: inDepth_def)
  with Suc.IH [OF b(1)] obtain j where j: "rw_seen rw b = Some j" "rw_MaxDepth rw < 0 \<or> j \<le> int (Suc k)"
    by (auto simp: seenBy_def)
  show ?case
  proof (cases "inDepth (rw_MaxDepth rw) (j + 1)")
    case True
    then have "seenBy rw c (j + 1)" using assms(1) j(1) b(2) by (auto simp: openNodes_def)
    with j(2) show ?thesis by (auto simp: seenBy_def)
  next
    case False
    with j(2) Suc.prems(2) show ?thesis by (auto simp: inDepth_def)
  qed
qed

text \<open>
  C5. \<^verbatim>\<open>ipfs refs -u\<close> lists every node once: whatever fails, and whatever the depth limit, no node is
  listed twice and only nodes within that depth of the given objects are listed; and when the nodes
  can be fetched and the output written, the command succeeds and all of them are listed, although
  branches seen before are not walked again.
\<close>

theorem unique_refs_are_the_reachable_nodes:
  assumes rk: "ranked e rk" and objs: "objectsForPaths resolve args = Inr objs" and u: "ro_unique opts"
  defines "m \<equiv> (if ro_recursive opts then ro_maxDepth opts else 1)"
  shows "case RefsCmd fuel e resolve opts args of (err, ls) \<Rightarrow>
    distinct (written ls) \<and> set (written ls) \<subseteq> reachable e m (set objs) \<and>
    (\<not> (ro_edges opts \<and> ro_format opts \<noteq> ''<dst>'') \<and> (\<forall>n. \<not> re_fails e n) \<and> (\<forall>r \<in> set objs. rk r \<le> fuel \<and> available e r) \<longrightarrow>
       err = None \<and> set (written ls) = reachable e m (set objs))"
proof (cases "ro_edges opts \<and> ro_format opts \<noteq> ''<dst>''")
  case True
  then show ?thesis by (simp add: RefsCmd_def)
next
  case False
  let ?rw = "newRefWriter True m (if ro_edges opts then ''<src> -> <dst>'' else ro_format opts) :: 'a RefWriter"
  obtain err rw1 where run: "writeAllRefs fuel e objs ?rw = (err, rw1)" by fastforce
  have cmd: "RefsCmd fuel e resolve opts args = (err, rw_res rw1)"
    using False objs u run by (cases "ro_edges opts") (simp_all add: RefsCmd_def m_def)
  have inv0: "listInv e (set objs) ?rw" by (simp add: listInv_def newRefWriter_def)
  note ok = writeAllRefs_ok [OF run rk inv0 order_refl]
  have md: "rw_MaxDepth rw1 = m" using ok by (auto simp: listExt_def newRefWriter_def)
  have inv: "listInv e (set objs) rw1" using ok by blast
  have sound: "dom (rw_seen rw1) \<subseteq> reachable e m (set objs)"
  proof
    fix x assume "x \<in> dom (rw_seen rw1)"
    then obtain k where "rw_seen rw1 x = Some k" by auto
    then obtain r where "1 \<le> k" "inDepth m k" "r \<in> set objs" "path e r (nat k) x" using inv md unfolding listInv_def by metis
    then show "x \<in> reachable e m (set objs)" unfolding reachable_def by (auto intro!: exI [of _ "nat k"])
  qed
  have complete: "err = None \<and> set (written (rw_res rw1)) = reachable e m (set objs)"
    if "\<forall>n. \<not> re_fails e n" "\<forall>r \<in> set objs. rk r \<le> fuel \<and> available e r"
  proof -
    have "noErrors (rw_res ?rw)" by (simp add: noErrors_def newRefWriter_def)
    from writeAllRefs_total [OF rk that this] run have n: "err = None" "noErrors (rw_res rw1)" by simp_all
    have "listFull ?rw" "openNodes e ?rw = {}" by (simp_all add: listFull_def openNodes_def newRefWriter_def)
    with ok n have f: "listFull rw1" "openNodes e rw1 = {}" "\<forall>r \<in> set objs. rootDone e rw1 r" by blast+
    have "reachable e m (set objs) \<subseteq> dom (rw_seen rw1)"
    proof
      fix c assume "c \<in> reachable e m (set objs)"
      then obtain r k where r: "r \<in> set objs" "1 \<le> k" "path e r k c" "inDepth m (int k)" unfolding reachable_def by blast
      then obtain j where "k = Suc j" by (cases k) auto
      with closed_reach [OF f(2,3) r(1)] r md have "seenBy rw1 c (int k)" by blast
      then show "c \<in> dom (rw_seen rw1)" by (auto simp: seenBy_def)
    qed
    with sound f(1) n(1) show ?thesis unfolding listFull_def by blast
  qed
  have "distinct (written (rw_res rw1))" "set (written (rw_res rw1)) \<subseteq> reachable e m (set objs)"
    using inv sound unfolding listInv_def by blast+
  with complete show ?thesis unfolding cmd prod.case by blast
qed

text \<open>A diamond whose right arm is longer: the shared node is listed once and walked again for the depth.\<close>

definition demoGraph :: "nat refEnv" where
  "demoGraph = \<lparr> re_Get = (\<lambda>c. Some (if c = 0 then [(''a'', 1), (''d'', 3)] else if c = 1 then [(''b'', 2)]
       else if c = 2 then [(''c'', 3)] else if c = 3 then [(''e'', 4)] else [])),
     re_enc = decNat, re_fails = (\<lambda>_. False) \<rparr>"

definition demoOpts :: refOpts where
  "demoOpts = \<lparr> ro_unique = True, ro_recursive = True, ro_maxDepth = 3, ro_edges = False, ro_format = ''<dst>'' \<rparr>"

lemma demo_child: "child demoGraph b c \<Longrightarrow> b < c \<and> c \<le> 4"
  by (auto simp: child_def demoGraph_def split: if_splits)

lemma demo_available: "available demoGraph x"
  by (auto simp: available_def demoGraph_def)

theorem unique_refs_are_the_reachable_nodes_witness:
  "RefsCmd 9 demoGraph (\<lambda>_. Some 0) demoOpts [''x''] =
     (None, [RefEdge 0 1 ''1'', RefEdge 1 2 ''2'', RefEdge 2 3 ''3'', RefEdge 3 4 ''4'']) \<and>
   {1, 2, 3, 4} = reachable demoGraph 3 {0}"
proof -
  have rk: "ranked demoGraph (\<lambda>c. 5 - c)" unfolding ranked_def using demo_child by fastforce
  have objs: "objectsForPaths (\<lambda>_. Some (0 :: nat)) [''x''] = Inr [0]" by simp
  have u: "ro_unique demoOpts" by (simp add: demoOpts_def)
  have run: "RefsCmd 9 demoGraph (\<lambda>_. Some 0) demoOpts [''x''] =
     (None, [RefEdge 0 1 ''1'', RefEdge 1 2 ''2'', RefEdge 2 3 ''3'', RefEdge 3 4 ''4''])"
    by code_simp
  have "\<forall>r \<in> set [0 :: nat]. 5 - r \<le> 9 \<and> available demoGraph r" using demo_available by simp
  moreover have "\<forall>n. \<not> re_fails demoGraph n" "\<not> (ro_edges demoOpts \<and> ro_format demoOpts \<noteq> ''<dst>'')"
    "(if ro_recursive demoOpts then ro_maxDepth demoOpts else 1) = 3"
    by (simp_all add: demoGraph_def demoOpts_def)
  ultimately show ?thesis
    using unique_refs_are_the_reachable_nodes [OF rk objs u, of 9] unfolding run by simp
qed

text \<open>
  A node that could not be fetched counts as seen: the second object that links to it is listed
  without an error and without the node.
\<close>

definition brokenGraph :: "nat refEnv" where
  "brokenGraph = demoGraph\<lparr> re_Get := (\<lambda>c. if c < 2 then Some [(''x'', 7)] else None) \<rparr>"

lemma failed_fetch_hides_node:
  "RefsCmd 9 brokenGraph (\<lambda>p. Some (length p)) demoOpts [[], ''b''] = (None, [RefError (GetFailed 7)])"
  by code_simp

end
