(* ===== verification/Pins.thy ===== *)
theory Pins
  imports GoPrelude
begin

text \<open>
  Pins: the pin operations of the core API (\<^verbatim>\<open>core/coreapi/pin.go\<close>) and the pin commands
  (\<^verbatim>\<open>core/commands/pin/pin.go\<close>): adding, removing, updating, listing and verifying.

  \<^item> CIDs are any type \<open>'c\<close>.  The pinner, the resolver, the provider and \<^verbatim>\<open>merkledag.Walk\<close> are
    third-party: fields of \<open>pinEnv\<close> (\<open>pe_node\<close> is the error of fetching a node).  What the code does to them is recorded in the order it does it.
  \<^item> \<^verbatim>\<open>pinVerify\<close> recurses along links; \<open>fuel\<close> bounds its depth, and \<open>None\<close> is a run that needs more.
    Links between content-addressed nodes have no cycles, and fuel above the rank is never used up.
\<close>

datatype 'c pinOp =
    PinLock | PinUnlock | DoPin 'c bool | DoUnpin 'c bool | DoUpdate 'c 'c bool | Provide 'c | FlushPins

record 'c pinEnv =
  pe_resolve :: "string \<Rightarrow> string + 'c"
  pe_node :: "'c \<Rightarrow> string option"
  pe_op :: "'c pinOp list \<Rightarrow> 'c pinOp \<Rightarrow> string option"
  pe_isPinned :: "'c \<Rightarrow> string \<Rightarrow> string + (string \<times> bool)"
  pe_recursive :: "string + 'c list"
  pe_direct :: "string + 'c list"
  pe_valid :: "'c \<Rightarrow> string option"
  pe_links :: "'c \<Rightarrow> string + 'c list"
  pe_walk :: "'c set \<Rightarrow> 'c \<Rightarrow> 'c set \<times> string option"
  pe_keys :: "'c set \<Rightarrow> 'c list"
  pe_done :: "nat \<Rightarrow> bool"
  pe_enc :: "'c \<Rightarrow> string"

section \<open>The operations of the core API\<close>

text \<open>An operation on the pinner and what follows when it succeeds; \<open>pre\<close> is what its error is wrapped in.\<close>

definition doOp :: "'c pinEnv \<Rightarrow> string \<Rightarrow> 'c pinOp \<Rightarrow> ('c pinOp list \<Rightarrow> string option \<times> 'c pinOp list) \<Rightarrow>
    'c pinOp list \<Rightarrow> string option \<times> 'c pinOp list" where
  "doOp e pre o' k tr =
     (case pe_op e tr o' of Some err \<Rightarrow> (Some (pre @ err), tr @ [o']) | None \<Rightarrow> k (tr @ [o']))"

text \<open>\<^verbatim>\<open>defer api.blockstore.PinLock(ctx).Unlock(ctx)\<close>\<close>

definition underPinLock :: "('c pinOp list \<Rightarrow> string option \<times> 'c pinOp list) \<Rightarrow> 'c pinOp list \<Rightarrow> string option \<times> 'c pinOp list" where
  "underPinLock body tr = (case body (tr @ [PinLock]) of (err, tr1) \<Rightarrow> (err, tr1 @ [PinUnlock]))"

definition pinAdd :: "'c pinEnv \<Rightarrow> string \<Rightarrow> bool \<Rightarrow> 'c pinOp list \<Rightarrow> string option \<times> 'c pinOp list" where
  "pinAdd e p recursive tr =
     (case pe_resolve e p of
        Inl err \<Rightarrow> (Some (''pin: '' @ err), tr)
      | Inr c \<Rightarrow>
          (case pe_node e c of
             Some err \<Rightarrow> (Some (''pin: '' @ err), tr)
           | None \<Rightarrow>
               underPinLock (doOp e ''pin: '' (DoPin c recursive) (doOp e [] (Provide c) (doOp e [] FlushPins (Pair None)))) tr))"

definition pinRm :: "'c pinEnv \<Rightarrow> string \<Rightarrow> bool \<Rightarrow> 'c pinOp list \<Rightarrow> string option \<times> 'c pinOp list" where
  "pinRm e p recursive tr =
     (case pe_resolve e p of
        Inl err \<Rightarrow> (Some err, tr)
      | Inr c \<Rightarrow> underPinLock (doOp e [] (DoUnpin c recursive) (doOp e [] FlushPins (Pair None))) tr)"

definition pinUpdate :: "'c pinEnv \<Rightarrow> string \<Rightarrow> string \<Rightarrow> bool \<Rightarrow> 'c pinOp list \<Rightarrow> string option \<times> 'c pinOp list" where
  "pinUpdate e from to' unpin tr =
     (case pe_resolve e from of
        Inl err \<Rightarrow> (Some err, tr)
      | Inr fp \<Rightarrow>
          (case pe_resolve e to' of
             Inl err \<Rightarrow> (Some err, tr)
           | Inr tp \<Rightarrow> underPinLock (doOp e [] (DoUpdate fp tp unpin) (doOp e [] FlushPins (Pair None))) tr))"

definition pinTypes :: "string list" where
  "pinTypes = [''all'', ''direct'', ''indirect'', ''recursive'']"

definition isPinnedApi :: "'c pinEnv \<Rightarrow> string \<Rightarrow> string \<Rightarrow> string + (string \<times> bool)" where
  "isPinnedApi e p withType =
     (case pe_resolve e p of
        Inl err \<Rightarrow> Inl (''error resolving path: '' @ err)
      | Inr c \<Rightarrow> pe_isPinned e c withType)"

section \<open>The commands\<close>

text \<open>The path is resolved, and \<^verbatim>\<open>Add\<close> and \<^verbatim>\<open>Rm\<close> resolve the resolved path again.\<close>

fun pinAddMany :: "'c pinEnv \<Rightarrow> string list \<Rightarrow> bool \<Rightarrow> 'c pinOp list \<Rightarrow> (string + string list) \<times> 'c pinOp list" where
  "pinAddMany e [] recursive tr = (Inr [], tr)"
| "pinAddMany e (b # bs) recursive tr =
     (case pe_resolve e b of
        Inl err \<Rightarrow> (Inl err, tr)
      | Inr c \<Rightarrow>
          (case pinAdd e b recursive tr of
             (Some err, tr1) \<Rightarrow> (Inl err, tr1)
           | (None, tr1) \<Rightarrow>
               (case pinAddMany e bs recursive tr1 of
                  (Inl err, tr2) \<Rightarrow> (Inl err, tr2) | (Inr added, tr2) \<Rightarrow> (Inr (pe_enc e c # added), tr2))))"

fun rmPinCmd :: "'c pinEnv \<Rightarrow> string list \<Rightarrow> bool \<Rightarrow> 'c pinOp list \<Rightarrow> (string + string list) \<times> 'c pinOp list" where
  "rmPinCmd e [] recursive tr = (Inr [], tr)"
| "rmPinCmd e (b # bs) recursive tr =
     (case pe_resolve e b of
        Inl err \<Rightarrow> (Inl err, tr)
      | Inr c \<Rightarrow>
          (case pinRm e b recursive tr of
             (Some err, tr1) \<Rightarrow> (Inl err, tr1)
           | (None, tr1) \<Rightarrow>
               (case rmPinCmd e bs recursive tr1 of
                  (Inl err, tr2) \<Rightarrow> (Inl err, tr2) | (Inr pins, tr2) \<Rightarrow> (Inr (pe_enc e c # pins), tr2))))"

definition updatePinCmd :: "'c pinEnv \<Rightarrow> string \<Rightarrow> string \<Rightarrow> bool \<Rightarrow> 'c pinOp list \<Rightarrow> (string + string list) \<times> 'c pinOp list" where
  "updatePinCmd e a b unpin tr =
     (case pe_resolve e a of
        Inl err \<Rightarrow> (Inl err, tr)
      | Inr from \<Rightarrow>
          (case pe_resolve e b of
             Inl err \<Rightarrow> (Inl err, tr)
           | Inr to' \<Rightarrow>
               (case pinUpdate e a b unpin tr of
                  (Some err, tr1) \<Rightarrow> (Inl err, tr1)
                | (None, tr1) \<Rightarrow> (Inr [pe_enc e from, pe_enc e to'], tr1))))"

fun pinLsKeys :: "'c pinEnv \<Rightarrow> string \<Rightarrow> string list \<Rightarrow> string + (string \<times> string) list" where
  "pinLsKeys e typeStr [] = (if typeStr \<in> set pinTypes then Inr [] else Inl ''invalid type'')"
| "pinLsKeys e typeStr (p # ps) =
     (if typeStr \<notin> set pinTypes then Inl ''invalid type''
      else case pe_resolve e p of
        Inl err \<Rightarrow> Inl err
      | Inr c \<Rightarrow>
          (case isPinnedApi e p typeStr of
             Inl err \<Rightarrow> Inl err
           | Inr (pinType, pinned) \<Rightarrow>
               if \<not> pinned then Inl (''path is not pinned: '' @ p)
               else
                 let pt = (if pinType \<in> {''direct'', ''indirect'', ''recursive'', ''internal''} then pinType
                           else ''indirect through '' @ pinType)
                 in (case pinLsKeys e typeStr ps of Inl err \<Rightarrow> Inl err | Inr out \<Rightarrow> Inr ((pe_enc e c, pt) # out))))"

section \<open>Listing all pins\<close>

datatype 'c pinInfo = PinInfo string 'c | PinErr string

type_synonym 'c lsState = "'c set \<times> 'c pinInfo list"

text \<open>\<^verbatim>\<open>AddToResultKeys\<close> and \<^verbatim>\<open>VisitKeys\<close>\<close>

fun addToResultKeys :: "'c pinEnv \<Rightarrow> string \<Rightarrow> 'c list \<Rightarrow> 'c lsState \<Rightarrow> bool \<times> 'c lsState" where
  "addToResultKeys e typ [] st = (True, st)"
| "addToResultKeys e typ (c # cs) (keys, out) =
     (if c \<in> keys then addToResultKeys e typ cs (keys, out)
      else if pe_done e (length out) then (False, (insert c keys, out))
      else addToResultKeys e typ cs (insert c keys, out @ [PinInfo typ c]))"

fun walkAll :: "'c pinEnv \<Rightarrow> 'c list \<Rightarrow> 'c set \<Rightarrow> 'c set \<times> string option" where
  "walkAll e [] S = (S, None)"
| "walkAll e (k # ks) S =
     (case pe_walk e S k of (S1, Some err) \<Rightarrow> (S1, Some err) | (S1, None) \<Rightarrow> walkAll e ks S1)"

text \<open>One stage of the goroutine: the keys are fetched and emitted; \<open>None\<close> when it has returned.\<close>

definition lsStage :: "'c pinEnv \<Rightarrow> string \<Rightarrow> string + 'c list \<Rightarrow> 'c lsState \<Rightarrow> 'c lsState \<times> 'c list option" where
  "lsStage e typ got st =
     (case got of
        Inl err \<Rightarrow> ((fst st, snd st @ [PinErr err]), None)
      | Inr ks \<Rightarrow>
          (case addToResultKeys e typ ks st of
             (False, (keys, out)) \<Rightarrow> ((keys, out @ [PinErr ''context done'']), None)
           | (True, st1) \<Rightarrow> (st1, Some ks)))"

definition lsIndirect :: "'c pinEnv \<Rightarrow> 'c list \<Rightarrow> 'c lsState \<Rightarrow> 'c lsState" where
  "lsIndirect e rkeys st =
     (case walkAll e rkeys {} of
        (S, Some err) \<Rightarrow> (fst st, snd st @ [PinErr err])
      | (S, None) \<Rightarrow> fst (lsStage e ''indirect'' (Inr (pe_keys e S)) st))"

definition pinLsAll :: "'c pinEnv \<Rightarrow> string \<Rightarrow> 'c pinInfo list" where
  "pinLsAll e typeStr =
     (let (st1, rkeys) = (if typeStr = ''recursive'' \<or> typeStr = ''all'' then lsStage e ''recursive'' (pe_recursive e) ({}, [])
                          else (({}, []), Some [])) in
      case rkeys of
        None \<Rightarrow> snd st1
      | Some rks \<Rightarrow>
          let (st2, dkeys) = (if typeStr = ''direct'' \<or> typeStr = ''all'' then lsStage e ''direct'' (pe_direct e) st1
                              else (st1, Some [])) in
          (case dkeys of
             None \<Rightarrow> snd st2
           | Some dks \<Rightarrow>
               if typeStr = ''all'' then snd (lsIndirect e rks st2)
               else if typeStr = ''indirect'' then
                 (case pe_direct e of
                    Inl err \<Rightarrow> snd st2 @ [PinErr err]
                  | Inr ds \<Rightarrow>
                      (case pe_recursive e of
                         Inl err \<Rightarrow> snd st2 @ [PinErr err]
                       | Inr rs \<Rightarrow> snd (lsIndirect e rs (fst st2 \<union> set ds \<union> set rs, snd st2))))
               else snd st2))"

definition pinLs :: "'c pinEnv \<Rightarrow> string \<Rightarrow> string + 'c pinInfo list" where
  "pinLs e typeStr = (if typeStr \<in> set pinTypes then Inr (pinLsAll e typeStr) else Inl ''invalid type'')"

section \<open>Verifying\<close>

record 'c PinStatus =
  ps_Ok :: bool
  ps_BadNodes :: "('c \<times> string) list"

definition badStatus :: "bool \<Rightarrow> 'c \<Rightarrow> string \<Rightarrow> 'c PinStatus" where
  "badStatus explain root err = \<lparr> ps_Ok = False, ps_BadNodes = (if explain then [(root, err)] else []) \<rparr>"

definition addStatus :: "'c PinStatus \<Rightarrow> 'c PinStatus \<Rightarrow> 'c PinStatus" where
  "addStatus st res = (if ps_Ok res then st else \<lparr> ps_Ok = False, ps_BadNodes = ps_BadNodes st @ ps_BadNodes res \<rparr>)"

type_synonym 'c visited = "'c \<Rightarrow> 'c PinStatus option"

text \<open>\<^verbatim>\<open>checkPin\<close> with its table, and its loop over the links of a node.\<close>

function checkPin :: "nat \<Rightarrow> 'c pinEnv \<Rightarrow> bool \<Rightarrow> 'c \<Rightarrow> 'c visited \<Rightarrow> 'c PinStatus option \<times> 'c visited"
  and checkLinks :: "nat \<Rightarrow> 'c pinEnv \<Rightarrow> bool \<Rightarrow> 'c list \<Rightarrow> 'c PinStatus \<Rightarrow> 'c visited \<Rightarrow> 'c PinStatus option \<times> 'c visited" where
  "checkPin fuel e explain root vis =
     (case vis root of
        Some status \<Rightarrow> (Some status, vis)
      | None \<Rightarrow>
          (case pe_valid e root of
             Some err \<Rightarrow> (let status = badStatus explain root err in (Some status, vis(root \<mapsto> status)))
           | None \<Rightarrow>
               (case pe_links e root of
                  Inl err \<Rightarrow> (let status = badStatus explain root err in (Some status, vis(root \<mapsto> status)))
                | Inr links \<Rightarrow>
                    (case fuel of
                       0 \<Rightarrow> (None, vis)
                     | Suc f \<Rightarrow>
                         (case checkLinks f e explain links \<lparr> ps_Ok = True, ps_BadNodes = [] \<rparr> vis of
                            (None, vis1) \<Rightarrow> (None, vis1)
                          | (Some status, vis1) \<Rightarrow> (Some status, vis1(root \<mapsto> status)))))))"
| "checkLinks fuel e explain [] status vis = (Some status, vis)"
| "checkLinks fuel e explain (lnk # links) status vis =
     (case checkPin fuel e explain lnk vis of
        (None, vis1) \<Rightarrow> (None, vis1)
      | (Some res, vis1) \<Rightarrow> checkLinks fuel e explain links (addStatus status res) vis1)"
  by pat_completeness auto
termination
  by (relation "measures [\<lambda>x. case x of Inl (fuel, _) \<Rightarrow> fuel | Inr (fuel, _) \<Rightarrow> fuel,
                          \<lambda>x. case x of Inl _ \<Rightarrow> 0 | Inr (_, _, _, links, _) \<Rightarrow> Suc (length links)]") auto

declare checkPin.simps [simp del]

text \<open>The goroutine of \<^verbatim>\<open>pinVerify\<close>: the pins it reports, in order.\<close>

fun verifyAll :: "nat \<Rightarrow> 'c pinEnv \<Rightarrow> bool \<Rightarrow> bool \<Rightarrow> 'c list \<Rightarrow> 'c visited \<Rightarrow> ('c \<times> 'c PinStatus) list option" where
  "verifyAll fuel e explain includeOk [] vis = Some []"
| "verifyAll fuel e explain includeOk (c # cs) vis =
     (case checkPin fuel e explain c vis of
        (None, vis1) \<Rightarrow> None
      | (Some st, vis1) \<Rightarrow>
          (case verifyAll fuel e explain includeOk cs vis1 of
             None \<Rightarrow> None
           | Some out \<Rightarrow> Some (if \<not> ps_Ok st \<or> includeOk then (c, st) # out else out)))"

definition pinVerify :: "nat \<Rightarrow> 'c pinEnv \<Rightarrow> bool \<Rightarrow> bool \<Rightarrow> string + ('c \<times> 'c PinStatus) list option" where
  "pinVerify fuel e explain includeOk =
     (case pe_recursive e of Inl err \<Rightarrow> Inl err | Inr recPins \<Rightarrow> Inr (verifyAll fuel e explain includeOk recPins Map.empty))"

definition verifyPinCmd :: "nat \<Rightarrow> 'c pinEnv \<Rightarrow> bool \<Rightarrow> bool \<Rightarrow> string + ('c \<times> 'c PinStatus) list option" where
  "verifyPinCmd fuel e verbose quiet =
     (if verbose \<and> quiet then Inl ''the --verbose and --quiet options can not be used at the same time''
      else pinVerify fuel e (\<not> quiet) verbose)"

text \<open>\<^verbatim>\<open>PinAPI.Verify\<close> does not validate CIDs, and always explains and reports every pin.\<close>

definition apiVerify :: "nat \<Rightarrow> 'c pinEnv \<Rightarrow> string + ('c \<times> 'c PinStatus) list option" where
  "apiVerify fuel e = pinVerify fuel (e\<lparr> pe_valid := (\<lambda>_. None) \<rparr>) True True"

end
