(* ===== verification/PinsProps.thy ===== *)
theory PinsProps
  imports Pins
begin

text \<open>
  What the pin operations promise: verification is exact, listings partition the pinned nodes, and the
  pin set only changes under the pin lock.
\<close>

section \<open>Verification\<close>

text \<open>What is wrong with a node, and the nodes it leads to.\<close>

definition nodeError :: "'c pinEnv \<Rightarrow> 'c \<Rightarrow> string option" where
  "nodeError e c = (case pe_valid e c of Some err \<Rightarrow> Some err | None \<Rightarrow> (case pe_links e c of Inl err \<Rightarrow> Some err | Inr _ \<Rightarrow> None))"

definition linksTo :: "'c pinEnv \<Rightarrow> 'c \<Rightarrow> 'c \<Rightarrow> bool" where
  "linksTo e b c \<longleftrightarrow> pe_valid e b = None \<and> (\<exists>ls. pe_links e b = Inr ls \<and> c \<in> set ls)"

definition leadsTo :: "'c pinEnv \<Rightarrow> 'c \<Rightarrow> 'c \<Rightarrow> bool" where
  "leadsTo e = (linksTo e)\<^sup>*\<^sup>*"

definition rankedLinks :: "'c pinEnv \<Rightarrow> ('c \<Rightarrow> nat) \<Rightarrow> bool" where
  "rankedLinks e rk \<longleftrightarrow> (\<forall>b c. linksTo e b c \<longrightarrow> rk c < rk b)"

text \<open>The bad nodes that a set of nodes leads to.\<close>

definition badFrom :: "'c pinEnv \<Rightarrow> 'c set \<Rightarrow> ('c \<times> string) set" where
  "badFrom e S = {(x, err). \<exists>r \<in> S. leadsTo e r x \<and> nodeError e x = Some err}"

definition statusOk :: "'c pinEnv \<Rightarrow> bool \<Rightarrow> 'c set \<Rightarrow> 'c PinStatus \<Rightarrow> bool" where
  "statusOk e explain S st \<longleftrightarrow> ps_Ok st = (badFrom e S = {}) \<and> set (ps_BadNodes st) = (if explain then badFrom e S else {})"

definition tableOk :: "'c pinEnv \<Rightarrow> bool \<Rightarrow> 'c visited \<Rightarrow> bool" where
  "tableOk e explain vis \<longleftrightarrow> (\<forall>c st. vis c = Some st \<longrightarrow> statusOk e explain {c} st)"

lemma leadsTo_unfold: "leadsTo e r x \<longleftrightarrow> r = x \<or> (\<exists>y. linksTo e r y \<and> leadsTo e y x)"
  unfolding leadsTo_def by (metis converse_rtranclpE rtranclp.rtrancl_refl converse_rtranclp_into_rtranclp)

lemma badFrom_leaf: "nodeError e r = Some err \<Longrightarrow> badFrom e {r} = {(r, err)}"
proof -
  assume err: "nodeError e r = Some err"
  then have "\<not> linksTo e r y" for y by (auto simp: nodeError_def linksTo_def split: option.splits sum.splits)
  then have "leadsTo e r x \<longleftrightarrow> x = r" for x using leadsTo_unfold [of e r x] by auto
  with err show ?thesis by (auto simp: badFrom_def)
qed

lemma badFrom_node:
  assumes "pe_valid e r = None" and "pe_links e r = Inr ls"
  shows "badFrom e {r} = badFrom e (set ls)"
proof -
  have "nodeError e r = None" using assms by (simp add: nodeError_def)
  moreover have "linksTo e r y \<longleftrightarrow> y \<in> set ls" for y using assms by (simp add: linksTo_def)
  ultimately show ?thesis unfolding badFrom_def using leadsTo_unfold [of e r] by auto
qed

lemma badFrom_insert: "badFrom e (insert r S) = badFrom e {r} \<union> badFrom e S"
  by (auto simp: badFrom_def)

lemma addStatus_ok:
  "statusOk e explain S st \<Longrightarrow> statusOk e explain {r} res \<Longrightarrow> statusOk e explain (insert r S) (addStatus st res)"
  by (auto simp: statusOk_def addStatus_def badFrom_insert [of e r S])

lemma badStatus_ok: "nodeError e r = Some err \<Longrightarrow> statusOk e explain {r} (badStatus explain r err)"
  by (simp add: statusOk_def badStatus_def badFrom_leaf)

text \<open>With fuel above the rank there is a status, it is exact, and so is the table.\<close>

definition checked :: "'c pinEnv \<Rightarrow> bool \<Rightarrow> 'c set \<Rightarrow> 'c PinStatus option \<times> 'c visited \<Rightarrow> bool" where
  "checked e explain S r \<longleftrightarrow> (\<exists>st. fst r = Some st \<and> statusOk e explain S st) \<and> tableOk e explain (snd r)"

lemma tableOk_upd: "tableOk e explain vis \<Longrightarrow> statusOk e explain {r} st \<Longrightarrow> tableOk e explain (vis(r \<mapsto> st))"
  by (auto simp: tableOk_def)

lemma check_exact:
  assumes rk: "rankedLinks e rk"
  shows "tableOk e explain vis \<Longrightarrow> rk root < fuel \<Longrightarrow> checked e explain {root} (checkPin fuel e explain root vis)"
    and "tableOk e explain vis \<Longrightarrow> \<forall>x \<in> set links. rk x < fuel \<Longrightarrow> statusOk e explain S st \<Longrightarrow>
      checked e explain (S \<union> set links) (checkLinks fuel e explain links st vis)"
  using rk
proof (induction fuel e explain root vis and fuel e explain links st vis arbitrary: and S rule: checkPin_checkLinks.induct)
  case (1 fuel e explain root vis)
  show ?case
  proof (cases "vis root")
    case (Some st)
    with 1(2) show ?thesis by (simp add: checkPin.simps checked_def tableOk_def)
  next
    case fresh: None
    show ?thesis
    proof (cases "nodeError e root")
      case (Some err)
      have "checkPin fuel e explain root vis = (Some (badStatus explain root err), vis(root \<mapsto> badStatus explain root err))"
        using fresh Some by (auto simp: checkPin.simps nodeError_def Let_def split: option.splits sum.splits)
      with badStatus_ok [OF Some] tableOk_upd [OF 1(2)] show ?thesis by (simp add: checked_def)
    next
      case None
      then obtain ls where ls: "pe_valid e root = None" "pe_links e root = Inr ls"
        by (auto simp: nodeError_def split: option.splits sum.splits)
      obtain f where f: "fuel = Suc f" using 1(3) by (cases fuel) auto
      have below: "\<forall>x \<in> set ls. rk x < f"
        using 1(4) ls 1(3) f unfolding rankedLinks_def linksTo_def by fastforce
      have s0: "statusOk e explain {} \<lparr> ps_Ok = True, ps_BadNodes = [] \<rparr>" by (simp add: statusOk_def badFrom_def)
      obtain st vis1 where c: "checkLinks f e explain ls \<lparr> ps_Ok = True, ps_BadNodes = [] \<rparr> vis = (Some st, vis1)"
        "statusOk e explain (set ls) st" "tableOk e explain vis1"
        using 1(1) [OF fresh ls f 1(2) below s0 1(4)] by (auto simp: checked_def prod_eq_iff)
      have "statusOk e explain {root} st" using c(2) badFrom_node [OF ls] by (simp add: statusOk_def)
      with c fresh ls f tableOk_upd [OF c(3)] show ?thesis by (simp add: checkPin.simps checked_def)
    qed
  qed
next
  case (2 fuel e explain status vis)
  then show ?case by (simp add: checked_def)
next
  case (3 fuel e explain lnk links status vis)
  obtain res vis1 where c: "checkPin fuel e explain lnk vis = (Some res, vis1)" "statusOk e explain {lnk} res" "tableOk e explain vis1"
    using 3(1) [OF 3(3)] 3(4,6) by (auto simp: checked_def prod_eq_iff)
  have "checked e explain (insert lnk S \<union> set links) (checkLinks fuel e explain links (addStatus status res) vis1)"
    by (rule 3(2) [OF c(1) [symmetric] refl c(3) _ addStatus_ok [OF 3(5) c(2)] 3(6)]) (use 3(4) in simp)
  with c(1) show ?case by simp
qed

lemma verifyAll_exact:
  assumes "rankedLinks e rk" and "\<forall>c \<in> set pins. rk c < fuel" and "tableOk e explain vis"
  shows "\<exists>out. verifyAll fuel e explain includeOk pins vis = Some out \<and>
    map fst out = filter (\<lambda>c. includeOk \<or> badFrom e {c} \<noteq> {}) pins \<and> (\<forall>(c, st) \<in> set out. statusOk e explain {c} st)"
  using assms(2,3)
proof (induction pins arbitrary: vis)
  case (Cons c cs)
  have "checked e explain {c} (checkPin fuel e explain c vis)"
    using check_exact(1) [OF assms(1) Cons.prems(2), of c fuel] Cons.prems(1) by simp
  then obtain st vis1 where s: "checkPin fuel e explain c vis = (Some st, vis1)" "statusOk e explain {c} st" "tableOk e explain vis1"
    by (auto simp: checked_def prod_eq_iff)
  from Cons.IH [OF _ s(3)] Cons.prems(1) obtain out where
    "verifyAll fuel e explain includeOk cs vis1 = Some out"
    "map fst out = filter (\<lambda>c. includeOk \<or> badFrom e {c} \<noteq> {}) cs" "\<forall>(c, st) \<in> set out. statusOk e explain {c} st" by auto
  with s show ?case by (auto simp: statusOk_def)
qed simp

text \<open>
  C26. \<^verbatim>\<open>ipfs pin verify\<close> is exact: with acyclic links it always returns, it reports, in order, the
  recursive pins that are not complete (all of them when verbose), a pin is called ok exactly when
  every node it leads to is valid and present, and with explanations the bad nodes listed are exactly
  those, although each node is only looked at once.
\<close>

theorem pin_verify_is_exact:
  assumes "rankedLinks e rk" and "pe_recursive e = Inr pins" and "\<forall>c \<in> set pins. rk c < fuel"
  shows "\<exists>out. pinVerify fuel e explain includeOk = Inr (Some out) \<and>
    map fst out = filter (\<lambda>c. includeOk \<or> (\<exists>x. leadsTo e c x \<and> nodeError e x \<noteq> None)) pins \<and>
    (\<forall>(c, st) \<in> set out. ps_Ok st = (\<forall>x. leadsTo e c x \<longrightarrow> nodeError e x = None) \<and>
       (explain \<longrightarrow> set (ps_BadNodes st) = {(x, err). leadsTo e c x \<and> nodeError e x = Some err}))"
proof -
  have "tableOk e explain Map.empty" by (simp add: tableOk_def)
  from verifyAll_exact [OF assms(1,3) this, of includeOk] obtain out where out:
    "verifyAll fuel e explain includeOk pins Map.empty = Some out"
    "map fst out = filter (\<lambda>c. includeOk \<or> badFrom e {c} \<noteq> {}) pins" "\<forall>(c, st) \<in> set out. statusOk e explain {c} st" by blast
  have b: "badFrom e {c} = {(x, err). leadsTo e c x \<and> nodeError e x = Some err}" for c by (auto simp: badFrom_def)
  have n: "(badFrom e {c} \<noteq> {}) = (\<exists>x. leadsTo e c x \<and> nodeError e x \<noteq> None)" for c unfolding b by auto
  have "\<forall>(c, st) \<in> set out. ps_Ok st = (\<forall>x. leadsTo e c x \<longrightarrow> nodeError e x = None) \<and>
       (explain \<longrightarrow> set (ps_BadNodes st) = {(x, err). leadsTo e c x \<and> nodeError e x = Some err})"
    using out(3) n b by (fastforce simp: statusOk_def)
  with out(1,2) show ?thesis unfolding n by (simp add: pinVerify_def assms(2))
qed

text \<open>Two pins that share a broken node.\<close>

definition pinDemo :: "nat pinEnv" where
  "pinDemo = \<lparr> pe_resolve = (\<lambda>p. if p = [] then Inl ''no path'' else Inr (length p)), pe_node = (\<lambda>_. None), pe_op = (\<lambda>_ _. None),
     pe_isPinned = (\<lambda>_ _. Inr ([], False)), pe_recursive = Inr [5, 3, 2], pe_direct = Inr [3, 4], pe_valid = (\<lambda>_. None),
     pe_links = (\<lambda>c. if c = 5 then Inr [4, 1] else if c = 4 then Inr [1] else if c = 3 then Inr [1, 2] else if c = 1 then Inl ''not found'' else Inr []),
     pe_walk = (\<lambda>S c. (S \<union> (if c = 5 then {4, 1} else if c = 4 then {1} else if c = 3 then {1, 2} else {}), None)),
     pe_keys = sorted_list_of_set, pe_done = (\<lambda>_. False), pe_enc = decNat \<rparr>"

lemma pinDemo_ranked: "rankedLinks pinDemo id"
  by (auto simp: rankedLinks_def linksTo_def pinDemo_def split: if_splits)

theorem pin_verify_is_exact_witness:
  "\<exists>out. pinVerify 6 pinDemo True False = Inr (Some out) \<and> map fst out = [5, 3]"
proof -
  have "pe_recursive pinDemo = Inr [5, 3, 2]" by (simp add: pinDemo_def)
  from pin_verify_is_exact [OF pinDemo_ranked this, of 6 True False] obtain out where
    "pinVerify 6 pinDemo True False = Inr (Some out)" by auto
  moreover have "map_option (map fst) (case pinVerify 6 pinDemo True False of Inr (Some out) \<Rightarrow> Some out | _ \<Rightarrow> None) = Some [5, 3]"
    by code_simp
  ultimately show ?thesis by auto
qed

section \<open>Listings\<close>

lemma addToResultKeys_ok:
  "addToResultKeys e typ ks (keys, out) = (True, (keys1, out1)) \<Longrightarrow>
   keys1 = keys \<union> set ks \<and> (\<exists>new. out1 = out @ map (PinInfo typ) new \<and> distinct new \<and> set new = set ks - keys)"
proof (induction ks arbitrary: keys out)
  case (Cons c ks)
  show ?case
  proof (cases "c \<in> keys")
    case True
    with Cons.prems have "addToResultKeys e typ ks (keys, out) = (True, (keys1, out1))" by simp
    from Cons.IH [OF this] True show ?thesis by auto
  next
    case False
    with Cons.prems have "addToResultKeys e typ ks (insert c keys, out @ [PinInfo typ c]) = (True, (keys1, out1))"
      by (auto split: if_splits)
    from Cons.IH [OF this] obtain new where "keys1 = insert c keys \<union> set ks" "out1 = (out @ [PinInfo typ c]) @ map (PinInfo typ) new"
      "distinct new" "set new = set ks - insert c keys" by blast
    with False show ?thesis by (intro conjI exI [of _ "c # new"]) auto
  qed
qed simp

definition noPinErr :: "'c pinInfo list \<Rightarrow> bool" where
  "noPinErr out \<longleftrightarrow> (\<forall>err. PinErr err \<notin> set out)"

text \<open>A stage that ends without an error has listed the keys that were not listed before.\<close>

lemma lsStage_ok:
  assumes "lsStage e typ got st = (st1, r)" and "noPinErr (snd st1)"
  shows "\<exists>ks new. got = Inr ks \<and> r = Some ks \<and> fst st1 = fst st \<union> set ks \<and> snd st1 = snd st @ map (PinInfo typ) new \<and>
    distinct new \<and> set new = set ks - fst st"
proof (cases got)
  case (Inl err)
  with assms show ?thesis by (auto simp: lsStage_def noPinErr_def)
next
  case (Inr ks)
  obtain ok keys1 out1 where a: "addToResultKeys e typ ks st = (ok, (keys1, out1))" by (metis prod.collapse)
  show ?thesis
  proof (cases ok)
    case False
    with assms Inr a show ?thesis by (auto simp: lsStage_def noPinErr_def)
  next
    case True
    obtain keys out where st: "st = (keys, out)" by fastforce
    from addToResultKeys_ok [of e "typ" ks keys out keys1 out1] a True st obtain new where
      "keys1 = keys \<union> set ks" "out1 = out @ map (PinInfo typ) new" "distinct new" "set new = set ks - keys" by auto
    moreover have "st1 = (keys1, out1) \<and> r = Some ks" using assms(1) Inr a True by (simp add: lsStage_def)
    ultimately show ?thesis using Inr st by (intro exI [of _ ks] exI [of _ new]) simp
  qed
qed

lemma addToResultKeys_prefix: "\<exists>more. snd (snd (addToResultKeys e typ ks st)) = snd st @ more"
proof (induction e "typ" ks st rule: addToResultKeys.induct)
  case (2 e ty c cs keys out)
  then show ?case
    by (cases "c \<in> keys"; cases "pe_done e (length out)") auto
qed simp

lemma lsStage_prefix: "\<exists>more. snd (fst (lsStage e typ got st)) = snd st @ more"
proof (cases got)
  case (Inr ks)
  then show ?thesis using addToResultKeys_prefix [of e "typ" ks st] by (auto simp: lsStage_def split: prod.splits bool.splits)
qed (simp add: lsStage_def)

lemma lsIndirect_prefix: "\<exists>more. snd (lsIndirect e rks st) = snd st @ more"
proof (cases "walkAll e rks {}")
  case (Pair S r)
  then show ?thesis
    using lsStage_prefix [of e "''indirect''" "Inr (pe_keys e S)" st] by (cases r) (simp_all add: lsIndirect_def)
qed

lemma noPinErr_append: "noPinErr (xs @ ys) \<longleftrightarrow> noPinErr xs \<and> noPinErr ys"
  by (auto simp: noPinErr_def)

text \<open>What \<^verbatim>\<open>merkledag.Walk\<close> without the root adds to a set that is closed under links.\<close>

definition anyLink :: "'c pinEnv \<Rightarrow> 'c \<Rightarrow> 'c \<Rightarrow> bool" where
  "anyLink e b c \<longleftrightarrow> (\<exists>ls. pe_links e b = Inr ls \<and> c \<in> set ls)"

definition below :: "'c pinEnv \<Rightarrow> 'c set \<Rightarrow> 'c set" where
  "below e S = {c. \<exists>r \<in> S. (anyLink e)\<^sup>+\<^sup>+ r c}"

definition pinWalkLaw :: "'c pinEnv \<Rightarrow> bool" where
  "pinWalkLaw e \<longleftrightarrow> (\<forall>S. finite S \<longrightarrow> set (pe_keys e S) = S) \<and>
     (\<forall>S k S1 r. finite S \<longrightarrow> pe_walk e S k = (S1, r) \<longrightarrow> finite S1) \<and>
     (\<forall>S k S1. below e S \<subseteq> S \<longrightarrow> pe_walk e S k = (S1, None) \<longrightarrow> S1 = S \<union> below e {k})"

lemma below_closed: "below e (S \<union> below e K) \<subseteq> below e S \<union> below e K"
  unfolding below_def by (auto intro: tranclp_trans)

lemma walkAll_ok:
  assumes "pinWalkLaw e" and "below e S \<subseteq> S" and "walkAll e ks S = (S1, None)" and "finite S"
  shows "S1 = S \<union> below e (set ks) \<and> finite S1"
  using assms(2-)
proof (induction ks arbitrary: S)
  case Nil
  then show ?case by (simp add: below_def)
next
  case (Cons k ks)
  obtain S2 where w: "pe_walk e S k = (S2, None)" "walkAll e ks S2 = (S1, None)"
    using Cons.prems(2) by (auto split: prod.splits option.splits)
  have s2: "S2 = S \<union> below e {k}" using assms(1) Cons.prems(1) w(1) unfolding pinWalkLaw_def by blast
  then have "below e S2 \<subseteq> S2" using below_closed [of e S "{k}"] Cons.prems(1) by blast
  moreover have "finite S2" using assms(1) Cons.prems(3) w(1) unfolding pinWalkLaw_def by blast
  ultimately have "S1 = S2 \<union> below e (set ks) \<and> finite S1" using Cons.IH w(2) by blast
  with s2 show ?case by (auto simp: below_def)
qed

lemma lsIndirect_ok:
  assumes "pinWalkLaw e" and "noPinErr (snd (lsIndirect e rks st))"
  shows "\<exists>new. snd (lsIndirect e rks st) = snd st @ map (PinInfo ''indirect'') new \<and> distinct new \<and> set new = below e (set rks) - fst st"
proof -
  obtain S r where w: "walkAll e rks {} = (S, r)" by fastforce
  show ?thesis
  proof (cases r)
    case (Some err)
    with w assms(2) show ?thesis by (auto simp: lsIndirect_def noPinErr_def)
  next
    case None
    then have S: "S = below e (set rks)" "finite S" using walkAll_ok [OF assms(1) _ w [unfolded None]] by (auto simp: below_def)
    obtain st1 q where l: "lsStage e ''indirect'' (Inr (pe_keys e S)) st = (st1, q)" by fastforce
    have d: "snd (lsIndirect e rks st) = snd st1" using w None l by (simp add: lsIndirect_def)
    have "set (pe_keys e S) = S" using assms(1) S(2) by (simp add: pinWalkLaw_def)
    with lsStage_ok [OF l] assms(2) d S show ?thesis by auto
  qed
qed

text \<open>
  \<^verbatim>\<open>ipfs pin ls\<close> partitions: a listing without an error names every node of the type asked for once
  and nothing else.  For all pins a recursive pin is called recursive, a direct one that is not also
  recursive direct, and what the recursive pins lead to and is neither is called indirect; the listing of
  the indirect ones alone agrees with that.
\<close>

theorem pin_listing_is_a_partition:
  assumes law: "pinWalkLaw e" and rec: "pe_recursive e = Inr rks" and dir: "pe_direct e = Inr dks"
    and ls: "pinLs e typ = Inr out" and ok: "noPinErr out"
  defines "R \<equiv> set rks" and "D \<equiv> set dks" and "I \<equiv> below e (set rks) - set rks - set dks"
  shows "distinct out \<and> distinct (map (\<lambda>i. case i of PinInfo t c \<Rightarrow> Some c | PinErr err \<Rightarrow> None) out) \<and>
    set out = (if typ \<in> {''all'', ''recursive''} then PinInfo ''recursive'' ` R else {}) \<union>
      (if typ = ''all'' then PinInfo ''direct'' ` (D - R) else if typ = ''direct'' then PinInfo ''direct'' ` D else {}) \<union>
      (if typ \<in> {''all'', ''indirect''} then PinInfo ''indirect'' ` I else {})"
proof -
  let ?key = "\<lambda>i :: 'a pinInfo. case i of PinInfo t c \<Rightarrow> Some c | PinErr err \<Rightarrow> None"
  have run: "out = pinLsAll e typ" and ty: "typ \<in> set pinTypes" using ls by (auto simp: pinLs_def split: if_splits)
  have key: "map ?key (map (PinInfo t) cs) = map Some cs" for t and cs :: "'a list" by simp
  have dist: "distinct (map ?key xs) \<Longrightarrow> distinct xs" for xs by (simp add: distinct_map)
  obtain s1 r1 where l1: "lsStage e ''recursive'' (Inr rks) ({}, []) = (s1, r1)" by fastforce
  consider (all) "typ = ''all''" | (recur) "typ = ''recursive''" | (direct) "typ = ''direct''" | (ind) "typ = ''indirect''"
    using ty by (auto simp: pinTypes_def)
  then show ?thesis
  proof cases
    case all
    obtain s2 r2 where l2: "lsStage e ''direct'' (Inr dks) s1 = (s2, r2)" by fastforce
    have out: "out = (case r1 of None \<Rightarrow> snd s1 | Some rs \<Rightarrow> (case r2 of None \<Rightarrow> snd s2 | Some ds \<Rightarrow> snd (lsIndirect e rs s2)))"
      using run all rec dir l1 l2 by (simp add: pinLsAll_def split: option.splits)
    have n2: "noPinErr (snd s2)" if "r1 \<noteq> None"
      using ok out that lsIndirect_prefix [of e _ s2] by (auto simp: noPinErr_append split: option.splits) (metis noPinErr_append)+
    have n1: "noPinErr (snd s1)"
      using ok out n2 lsStage_prefix [of e "''direct''" "Inr dks" s1] l2 by (cases r1) (auto simp: noPinErr_append)
    from lsStage_ok [OF l1 n1] obtain ns1 where s1: "r1 = Some rks" "fst s1 = R" "snd s1 = map (PinInfo ''recursive'') ns1"
      "distinct ns1" "set ns1 = R" by (auto simp: R_def)
    from lsStage_ok [OF l2 n2] s1 obtain ns2 where s2: "r2 = Some dks" "fst s2 = R \<union> D"
      "snd s2 = snd s1 @ map (PinInfo ''direct'') ns2" "distinct ns2" "set ns2 = D - R" by (auto simp: D_def)
    have o: "out = snd (lsIndirect e rks s2)" using out s1(1) s2(1) by simp
    from lsIndirect_ok [OF law, of rks s2] ok o obtain ns3 where n3: "out = snd s2 @ map (PinInfo ''indirect'') ns3"
      "distinct ns3" "set ns3 = below e (set rks) - fst s2" by auto
    then have s3: "out = snd s2 @ map (PinInfo ''indirect'') ns3" "distinct ns3" "set ns3 = I"
      by (auto simp: I_def s2(2) R_def D_def)
    have "map ?key out = map Some (ns1 @ ns2 @ ns3)" unfolding s3(1) s2(3) s1(3) by simp
    moreover have "distinct (ns1 @ ns2 @ ns3)" using s1 s2 s3 by (auto simp: I_def R_def D_def)
    ultimately have d: "distinct (map ?key out)" by (simp add: distinct_map del: map_append)
    moreover have "set out = PinInfo ''recursive'' ` R \<union> PinInfo ''direct'' ` (D - R) \<union> PinInfo ''indirect'' ` I"
      unfolding s3(1) s2(3) s1(3) using s1(5) s2(5) s3(3) by auto
    ultimately show ?thesis using dist all by simp
  next
    case recur
    have out: "out = snd s1" using run recur rec l1 by (simp add: pinLsAll_def split: option.splits)
    from lsStage_ok [OF l1] ok out obtain ns1 where s1: "snd s1 = map (PinInfo ''recursive'') ns1" "distinct ns1" "set ns1 = R"
      by (auto simp: R_def)
    then have "map ?key out = map Some ns1" unfolding out by simp
    then have "distinct (map ?key out)" using s1(2) by (simp add: distinct_map del: map_map)
    then show ?thesis using dist recur s1 out by simp
  next
    case direct
    obtain s2 r2 where l2: "lsStage e ''direct'' (Inr dks) ({}, []) = (s2, r2)" by fastforce
    have out: "out = snd s2" using run direct dir l2 by (simp add: pinLsAll_def split: option.splits)
    from lsStage_ok [OF l2] ok out obtain ns1 where s1: "snd s2 = map (PinInfo ''direct'') ns1" "distinct ns1" "set ns1 = D"
      by (auto simp: D_def)
    then have "map ?key out = map Some ns1" unfolding out by simp
    then have "distinct (map ?key out)" using s1(2) by (simp add: distinct_map del: map_map)
    then show ?thesis using dist direct s1 out by simp
  next
    case ind
    have o: "out = snd (lsIndirect e rks (D \<union> R, []))" using run ind rec dir by (simp add: pinLsAll_def D_def R_def)
    from lsIndirect_ok [OF law, of rks "(D \<union> R, [])"] ok o obtain ns3 where n3: "out = map (PinInfo ''indirect'') ns3"
      "distinct ns3" "set ns3 = below e (set rks) - (D \<union> R)" by auto
    then have s3: "out = map (PinInfo ''indirect'') ns3" "distinct ns3" "set ns3 = I"
      by (auto simp: I_def R_def D_def)
    then have "map ?key out = map Some ns3" by simp
    then have "distinct (map ?key out)" using s3(2) by (simp add: distinct_map del: map_map)
    then show ?thesis using dist ind s3 by simp
  qed
qed

lemma below_unfold: "below e {k} = {c. anyLink e k c} \<union> below e {c. anyLink e k c}"
proof -
  have "(anyLink e)\<^sup>+\<^sup>+ k x \<longleftrightarrow> (\<exists>y. anyLink e k y \<and> (y = x \<or> (anyLink e)\<^sup>+\<^sup>+ y x))" for x
    by (meson rtranclpD rtranclp_into_tranclp2 rtranclp.rtrancl_refl tranclpD tranclp_into_rtranclp)
  then show ?thesis unfolding below_def by blast
qed

lemma below_empty [simp]: "below e {} = {}"
  by (simp add: below_def)

lemma below_insert: "below e (insert k K) = below e {k} \<union> below e K"
  by (auto simp: below_def)

lemma pinDemo_below:
  "below pinDemo {k} = (if k = 5 then {4, 1} else if k = 4 then {1} else if k = 3 then {1, 2} else {})"
proof -
  have l: "{c. anyLink pinDemo k c} = (if k = 5 then {4, 1} else if k = 4 then {1} else if k = 3 then {1, 2} else {})" for k
    by (auto simp: anyLink_def pinDemo_def)
  have "below pinDemo {1} = {}" "below pinDemo {2} = {}" using below_unfold [of pinDemo] l by simp_all
  moreover from this have "below pinDemo {4} = {1}" using below_unfold [of pinDemo 4] l [of 4] by (simp add: insert_commute)
  moreover have "below pinDemo {k} = {}" if "k \<noteq> 5" "k \<noteq> 4" "k \<noteq> 3" using below_unfold [of pinDemo k] l [of k] that by simp
  ultimately show ?thesis
    using below_unfold [of pinDemo 5] below_unfold [of pinDemo 3] l [of 5] l [of 3] below_insert [of pinDemo 4 "{1}"] below_insert [of pinDemo 1 "{2}"]
    by auto
qed

lemma pinDemo_law: "pinWalkLaw pinDemo"
proof -
  have "set (pe_keys pinDemo S) = S" if "finite S" for S using that by (simp add: pinDemo_def)
  moreover have "pe_walk pinDemo S k = (S \<union> below pinDemo {k}, None)" for S k
    unfolding pinDemo_below by (simp add: pinDemo_def)
  moreover have "finite (below pinDemo {k})" for k unfolding pinDemo_below by simp
  ultimately show ?thesis by (simp add: pinWalkLaw_def)
qed

theorem pin_listing_is_a_partition_witness:
  "pinLs pinDemo ''all'' = Inr [PinInfo ''recursive'' 5, PinInfo ''recursive'' 3, PinInfo ''recursive'' 2,
     PinInfo ''direct'' 4, PinInfo ''indirect'' 1] \<and> below pinDemo {5, 3, 2} - {5, 3, 2} - {3, 4} = {1}"
proof -
  let ?out = "[PinInfo ''recursive'' 5, PinInfo ''recursive'' 3, PinInfo ''recursive'' 2, PinInfo ''direct'' 4, PinInfo ''indirect'' 1] :: nat pinInfo list"
  have r: "pe_recursive pinDemo = Inr [5, 3, 2]" "pe_direct pinDemo = Inr [3, 4]" by (simp_all add: pinDemo_def)
  have ls: "pinLs pinDemo ''all'' = Inr ?out" by code_simp
  have ok: "noPinErr ?out" by (simp add: noPinErr_def)
  let ?I = "below pinDemo (set [5, 3, 2]) - set [5, 3, 2] - set [3, 4]"
  note parts = pin_listing_is_a_partition [OF pinDemo_law r ls ok, THEN conjunct2, THEN conjunct2]
  have "PinInfo ''indirect'' c \<in> set ?out \<longleftrightarrow> c \<in> ?I" for c unfolding parts by (simp add: image_iff)
  moreover have "PinInfo ''indirect'' c \<in> set ?out \<longleftrightarrow> c = 1" for c by simp
  ultimately have "?I = {1}" by blast
  then have "below pinDemo {5, 3, 2} - {5, 3, 2} - {3, 4} = {1}" by simp
  with ls show ?thesis by blast
qed

section \<open>The pin lock\<close>

text \<open>The pin set only changes while the lock is held, and the lock is not taken twice nor kept.\<close>

fun disciplined :: "bool \<Rightarrow> 'c pinOp list \<Rightarrow> bool" where
  "disciplined held [] \<longleftrightarrow> \<not> held"
| "disciplined held (PinLock # ops) \<longleftrightarrow> \<not> held \<and> disciplined True ops"
| "disciplined held (PinUnlock # ops) \<longleftrightarrow> held \<and> disciplined False ops"
| "disciplined held (Provide c # ops) \<longleftrightarrow> disciplined held ops"
| "disciplined held (o' # ops) \<longleftrightarrow> held \<and> disciplined held ops"

datatype pinCmd = CmdAdd "string list" bool | CmdRm "string list" bool | CmdUpdate string string bool

fun runPinCmd :: "'c pinEnv \<Rightarrow> pinCmd \<Rightarrow> 'c pinOp list \<Rightarrow> (string + string list) \<times> 'c pinOp list" where
  "runPinCmd e (CmdAdd ps r) tr = pinAddMany e ps r tr"
| "runPinCmd e (CmdRm ps r) tr = rmPinCmd e ps r tr"
| "runPinCmd e (CmdUpdate a b u) tr = updatePinCmd e a b u tr"

lemma disciplined_append: "disciplined held xs \<Longrightarrow> disciplined False ys \<Longrightarrow> disciplined held (xs @ ys)"
  by (induction held xs rule: disciplined.induct) auto

text \<open>One operation adds a block: nothing, or a locked body; on success the body ends with a flush.\<close>

definition lockedBlock :: "string option \<Rightarrow> 'c pinOp list \<Rightarrow> 'c pinOp list \<Rightarrow> bool" where
  "lockedBlock err tr tr1 \<longleftrightarrow> (\<exists>ops. tr1 = tr @ ops \<and> disciplined False ops \<and>
     (err = None \<longrightarrow> (\<exists>pre. ops = PinLock # pre @ [FlushPins, PinUnlock])))"

lemma pinAdd_block: "pinAdd e p r tr = (err, tr1) \<Longrightarrow> lockedBlock err tr tr1"
  by (auto simp: lockedBlock_def pinAdd_def underPinLock_def doOp_def split: sum.splits option.splits)

lemma pinRm_block: "pinRm e p r tr = (err, tr1) \<Longrightarrow> lockedBlock err tr tr1"
  by (auto simp: lockedBlock_def pinRm_def underPinLock_def doOp_def split: sum.splits option.splits)

lemma pinUpdate_block: "pinUpdate e a b u tr = (err, tr1) \<Longrightarrow> lockedBlock err tr tr1"
  by (auto simp: lockedBlock_def pinUpdate_def underPinLock_def doOp_def split: sum.splits option.splits)

lemma lockedBlock_disciplined: "lockedBlock err tr tr1 \<Longrightarrow> disciplined False tr \<Longrightarrow> disciplined False tr1"
  by (auto simp: lockedBlock_def disciplined_append)

lemma pinAddMany_disciplined: "pinAddMany e ps r tr = (res, tr1) \<Longrightarrow> disciplined False tr \<Longrightarrow> disciplined False tr1"
proof (induction ps arbitrary: tr res tr1)
  case (Cons p ps)
  show ?case
  proof (cases "pe_resolve e p")
    case (Inl err)
    with Cons.prems show ?thesis by simp
  next
    case (Inr c)
    obtain err tr2 where a: "pinAdd e p r tr = (err, tr2)" by fastforce
    have d: "disciplined False tr2" using lockedBlock_disciplined [OF pinAdd_block [OF a]] Cons.prems(2) .
    obtain res3 tr3 where more: "pinAddMany e ps r tr2 = (res3, tr3)" by fastforce
    have "disciplined False tr3" using Cons.IH [OF more d] .
    with Cons.prems(1) Inr a d more show ?thesis by (auto split: option.splits sum.splits)
  qed
qed simp

lemma rmPinCmd_disciplined: "rmPinCmd e ps r tr = (res, tr1) \<Longrightarrow> disciplined False tr \<Longrightarrow> disciplined False tr1"
proof (induction ps arbitrary: tr res tr1)
  case (Cons p ps)
  show ?case
  proof (cases "pe_resolve e p")
    case (Inl err)
    with Cons.prems show ?thesis by simp
  next
    case (Inr c)
    obtain err tr2 where a: "pinRm e p r tr = (err, tr2)" by fastforce
    have d: "disciplined False tr2" using lockedBlock_disciplined [OF pinRm_block [OF a]] Cons.prems(2) .
    obtain res3 tr3 where more: "rmPinCmd e ps r tr2 = (res3, tr3)" by fastforce
    have "disciplined False tr3" using Cons.IH [OF more d] .
    with Cons.prems(1) Inr a d more show ?thesis by (auto split: option.splits sum.splits)
  qed
qed simp

lemma updatePinCmd_disciplined: "updatePinCmd e a b u tr = (res, tr1) \<Longrightarrow> disciplined False tr \<Longrightarrow> disciplined False tr1"
  using lockedBlock_disciplined pinUpdate_block [of e a b u tr]
  by (auto simp: updatePinCmd_def split: sum.splits prod.splits option.splits)

text \<open>The commands keep the discipline, so it is an invariant of every sequence of them.\<close>

interpretation pins: guarded_machine "\<lambda>tr cmd. snd (runPinCmd e cmd tr)" "disciplined False" for e :: "'c pinEnv"
proof unfold_locales
  fix tr :: "'c pinOp list" and cmd assume d: "disciplined False tr"
  obtain res tr1 where r: "runPinCmd e cmd tr = (res, tr1)" by fastforce
  with d show "disciplined False (snd (runPinCmd e cmd tr))"
    using pinAddMany_disciplined rmPinCmd_disciplined updatePinCmd_disciplined by (cases cmd) fastforce+
qed

text \<open>
  Whatever commands are run on the pins, in whatever order and whatever of them fails, the pin set is
  only changed and flushed while the pin lock is held, so that a garbage collection cannot run in
  between, the lock is never taken twice, and it is always released; and an operation that succeeds ends
  with a flush under the lock.
\<close>

theorem pins_change_under_the_lock:
  fixes e :: "'c pinEnv"
  shows "disciplined False (foldl (\<lambda>tr cmd. snd (runPinCmd e cmd tr)) [] cmds) \<and>
   (case pinAdd e p r tr of (err, tr1) \<Rightarrow> lockedBlock err tr tr1) \<and>
   (case pinRm e p r tr of (err, tr1) \<Rightarrow> lockedBlock err tr tr1) \<and>
   (case pinUpdate e a b u tr of (err, tr1) \<Rightarrow> lockedBlock err tr tr1)"
proof -
  have "disciplined False ([] :: 'c pinOp list)" by simp
  from pins.run_inv [OF this, of e cmds] show ?thesis
    using pinAdd_block pinRm_block pinUpdate_block by (auto split: prod.splits)
qed

end
