(* ===== verification/Spec2Isabelle.thy ===== *)
theory Spec2Isabelle
  imports Blocks TarFormat DaemonProps NodeProps NodeRoutingProps AdderProps KeystoreProps MfsFilesProps RemotePinsProps ResourceLimitsProps ConfigProps ConfigTypes HostnameProps PeeringProps FSRepoProps GarbageCollectorProps RoutingProps PluginLoader GatewayProps OnlyOne P2PProps LazySeek MigrationProps Refs PinsProps
begin

text \<open>
  A model of the parts of \<^verbatim>\<open>kubo\<close> (the IPFS daemon, \<^verbatim>\<open>src/kubo\<close>, Go) that hold its own
  logic, with the theorems that make them correct.

  \<^bold>\<open>How the parts interact.\<close>  The daemon (\<open>Daemon\<close>) initialises or opens a repository
  (\<open>RepoFiles\<close>, \<open>FSRepo\<close>, shared by \<open>OnlyOne\<close>), migrates it when it is old (\<open>MigrationFetch\<close>,
  \<open>Migrations\<close>), chooses the routing, builds a node and serves it.  The configuration
  (\<open>ConfigTypes\<close>, \<open>Profiles\<close>, changed along dotted keys by \<open>RepoCommon\<close> and by the commands of
  \<open>ConfigCommands\<close>) says which datastores to mount (\<open>Datastores\<close>), which plugins to load
  (\<open>PluginLoader\<close>), which parts and options a node gets (\<open>NodeBuild\<close>, \<open>NodeOptions\<close>,
  \<open>ResourceLimits\<close>), which routers to build and whom to connect to first (\<open>Routing\<close>, \<open>NodeRouting\<close>)
  and which peers to stay connected to (\<open>Peering\<close>).  Content comes in through the adder and the
  commands on the mutable file system (\<open>Adder\<close>, \<open>MfsFiles\<close>) and as blocks and objects (\<open>Blocks\<close>,
  \<open>TarFormat\<close>); it is listed (\<open>Refs\<close>) and pinned, here and at remote services (\<open>Pins\<close>,
  \<open>RemotePins\<close>), and what no pin keeps is swept (\<open>GarbageCollector\<close>).  Content is served over HTTP:
  \<open>Hostname\<close> maps the host of a request to a path and the gateway (\<open>GatewayHttp\<close>, \<open>Gateway\<close>,
  \<open>GatewayServe\<close>, reading through \<open>LazySeek\<close>) answers it.  Keys are kept by \<open>Keystore\<close>, tunnels by
  \<open>P2P\<close>.

  \<^bold>\<open>Theories and sources\<close> (paths under \<^verbatim>\<open>src/kubo\<close>).  Records and datatypes have the names of
  the source, functions too where HOL allows it; a theory named \<open>...Props\<close> holds the properties of
  the theory before it.

  \<^item> \<open>GoPrelude\<close>, \<open>GoPath\<close>, \<open>GoJson\<close>: what the sources use of Go's standard library (strings,
    numerals, \<^verbatim>\<open>path\<close>, JSON with UTF-8 strings), errors as sums, and the interfaces \<open>codec\<close> and
    \<open>guarded_machine\<close>.
  \<^item> \<open>ConfigTypes\<close>: \<^verbatim>\<open>config/types.go\<close>.  The value types and their JSON texts; round trips.
  \<^item> \<open>RepoCommon\<close>: \<^verbatim>\<open>repo/common\<close>.  Get, set and merge on nested maps, the interface \<open>kv_store\<close>.
  \<^item> \<open>Profiles\<close>, \<open>ConfigCommands\<close>, \<open>ConfigProps\<close>: \<^verbatim>\<open>config/*.go\<close>, \<^verbatim>\<open>core/commands/config.go\<close>,
    \<^verbatim>\<open>core/commands/bootstrap.go\<close>, the filters of \<^verbatim>\<open>core/commands/swarm.go\<close>.  What a profile
    changes; no output has a secret in it.
  \<^item> \<open>RepoFiles\<close>, \<open>FSRepo\<close>, \<open>FSRepoProps\<close>: \<^verbatim>\<open>config/config.go\<close>, \<^verbatim>\<open>config/serialize\<close>,
    \<^verbatim>\<open>repo/fsrepo/fsrepo.go\<close>, \<^verbatim>\<open>repo/fsrepo/migrations/ipfsdir.go\<close>.  Every operation works on
    a disk (a map from paths to contents) with faults.
  \<^item> \<open>OnlyOne\<close>: \<^verbatim>\<open>repo/onlyone.go\<close>.  Reference counts are 32-bit words.
  \<^item> \<open>MigrationFetch\<close>, \<open>MigrationFetchProps\<close>, \<open>Migrations\<close>, \<open>MigrationProps\<close>:
    \<^verbatim>\<open>repo/fsrepo/migrations/*.go\<close>.  Fetchers with retries over an arbitrary network, the chain of
    migrations; it reaches its target or stops where it can go on.
  \<^item> \<open>Datastores\<close>: \<^verbatim>\<open>repo/fsrepo/datastores.go\<close> and the datastore plugins.
  \<^item> \<open>PluginLoader\<close>: \<^verbatim>\<open>plugin/loader/loader.go\<close>, a state machine.
  \<^item> \<open>Peering\<close>, \<open>PeeringProps\<close>: \<^verbatim>\<open>peering/peering.go\<close>.  Goroutines are pending tasks of a step
    function; the invariants hold in every run.
  \<^item> \<open>Routing\<close>, \<open>RoutingProps\<close>: \<^verbatim>\<open>config/routing.go\<close>, \<^verbatim>\<open>routing/delegated.go\<close>.  The routers built
    are those of an inductive specification.
  \<^item> \<open>ResourceLimits\<close>, \<open>ResourceLimitsProps\<close>: \<^verbatim>\<open>core/node/libp2p/rcmgr*.go\<close>, \<^verbatim>\<open>ipfs swarm limit\<close>.
  \<^item> \<open>NodeOptions\<close>, \<open>NodeBuild\<close>, \<open>NodeProps\<close>: \<^verbatim>\<open>core/node\<close>, \<^verbatim>\<open>core/node/libp2p\<close>,
    \<^verbatim>\<open>core/builder.go\<close>.  Which parts a node is built from, with which options.
  \<^item> \<open>NodeRouting\<close>, \<open>NodeRoutingProps\<close>: \<^verbatim>\<open>core/node/libp2p/routing*.go\<close>, \<^verbatim>\<open>routing/composer.go\<close>,
    \<^verbatim>\<open>core/bootstrap/bootstrap.go\<close>.  The goroutines of bootstrapping are a step relation.
  \<^item> \<open>Daemon\<close>, \<open>DaemonProps\<close>: \<^verbatim>\<open>cmd/ipfs/daemon.go\<close>, \<^verbatim>\<open>cmd/ipfs/add_migrations.go\<close>.  A run is a
    trace with an outcome; what is taken is given back, and ready is said last.
  \<^item> \<open>Adder\<close>, \<open>AdderProps\<close>: \<^verbatim>\<open>core/coreunix/add.go\<close>, \<^verbatim>\<open>core/coreapi/unixfs.go\<close>.  The pin lock and
    the pins of an add, an invariant proved once for any way of adding (\<open>adder_invariant\<close>).
  \<^item> \<open>MfsFiles\<close>, \<open>MfsFilesProps\<close>: \<^verbatim>\<open>core/commands/files.go\<close>.  Paths, reading, removing, and what
    of a file is local.
  \<^item> \<open>Blocks\<close>: \<^verbatim>\<open>blocks/blockstoreutil/remove.go\<close>, \<^verbatim>\<open>core/coreapi/block.go\<close>,
    \<^verbatim>\<open>core/coreapi/object.go\<close>, \<^verbatim>\<open>core/commands/block.go\<close>.  Removal never takes a pinned block.
  \<^item> \<open>TarFormat\<close>: \<^verbatim>\<open>tar/format.go\<close>.  The reader of an archive is a \<open>byte_stream\<close>.
  \<^item> \<open>Refs\<close>: \<^verbatim>\<open>core/commands/refs.go\<close>.  Unique references are the reachable nodes.
  \<^item> \<open>Pins\<close>, \<open>PinsProps\<close>: \<^verbatim>\<open>core/coreapi/pin.go\<close>, \<^verbatim>\<open>core/commands/pin/pin.go\<close>.
  \<^item> \<open>RemotePins\<close>, \<open>RemotePinsProps\<close>: \<^verbatim>\<open>core/commands/pin/remotepin.go\<close>, \<^verbatim>\<open>cmd/ipfs/pinmfs.go\<close>.
  \<^item> \<open>GarbageCollector\<close>, \<open>GarbageCollectorProps\<close>: \<^verbatim>\<open>gc/gc.go\<close>, \<^verbatim>\<open>core/corerepo/gc.go\<close>.
  \<^item> \<open>Keystore\<close>, \<open>KeystoreProps\<close>: \<^verbatim>\<open>core/coreapi/key.go\<close>, \<^verbatim>\<open>core/commands/keystore.go\<close>.
  \<^item> \<open>P2P\<close>, \<open>P2PProps\<close>: \<^verbatim>\<open>p2p/*.go\<close>, \<^verbatim>\<open>core/commands/p2p.go\<close>, the path parser of
    \<^verbatim>\<open>core/corehttp/p2p_proxy.go\<close>.  Counters are 64-bit words.
  \<^item> \<open>Hostname\<close>, \<open>HostnameProps\<close>: \<^verbatim>\<open>core/corehttp/hostname.go\<close>.
  \<^item> \<open>LazySeek\<close>: \<^verbatim>\<open>core/corehttp/lazyseek.go\<close>, over the interface \<open>read_seeker\<close>.
  \<^item> \<open>GatewayHttp\<close>, \<open>Gateway\<close>, \<open>GatewayServe\<close>, \<open>GatewayProps\<close>:
    \<^verbatim>\<open>core/corehttp/gateway_handler*.go\<close>.

  \<^bold>\<open>Third-party code\<close> (libp2p, boxo, the IPLD libraries, datastores, the pinner, multiaddresses)
  is a record of functions that the definitions take; where a property relies on what such code
  documents, that is a named law (\<^verbatim>\<open>...Law\<close>) among its hypotheses, and its witness has a concrete
  instance.  What a call answers may in most theories depend on all that was done before, so
  that every failure at every point is covered; cancelled contexts are such failures.

  \<^bold>\<open>Concurrency.\<close>  Goroutines are pending tasks of a step function whose events come in any
  order (\<open>Peering\<close>, \<open>P2P\<close>) or a step relation (\<open>NodeRouting\<close>, whose claim that a call returns is
  about every fair run, one that does not leave a step open for ever); channels that are merged
  are the relation \<open>merged\<close> of \<open>Daemon\<close>.  A step is what runs under one mutex; what the code does
  outside it is a step of its own, which others may come between: the three statements that close
  a stream of \<open>P2P\<close>, the part of \<open>Stop\<close> of \<open>Peering\<close> before the lock, the sections of a
  reconnection.

  \<^bold>\<open>Fuel and loops.\<close>  \<open>parse\<close> of \<open>Routing\<close> recurses on fuel, one more than the number of
  configured routers; \<open>router_construction_terminates\<close> shows that it is enough.  The walks of
  \<open>Refs\<close>, \<open>Pins\<close> and \<open>MfsFiles\<close> take a depth; their properties ask for more than the rank of the
  links, which an acyclic graph has, and then the result does not depend on it.  The depth-first
  search \<open>dfs\<close> of \<open>GarbageCollector\<close> has a bound of its own; it only instantiates the
  interface of the third-party walk.  Loops that may not end (\<open>seekLoop\<close>, \<open>waitPinned\<close>,
  \<open>innermostError\<close>) are partial functions with \<open>None\<close> for not ending, and it is shown when they
  end.  A read loop of \<open>TarFormat\<close> is a list of buffer sizes, with a bound on how many are needed.

  \<^bold>\<open>Not modelled.\<close>  FUSE mounts (callbacks of a third-party library), the composition of HTTP
  servers and their metrics, the text output and progress of commands, diagnostics, system calls
  (file descriptors, signals), the temporary node that fetches migrations, and API calls that
  only pass on what a library answers (naming, DHT, pubsub, swarm listings, DAG, object
  statistics and diffs).  The text format of durations is not modelled.  The opening text of each
  theory says what it leaves out of its sources.
\<close>

end
